(* ===== verification/Prelude.thy ===== *)
theory Prelude
  imports Main "HOL-Library.Word" "HOL-Library.Signed_Division"
    "HOL-Library.Multiset" "HOL-Library.Char_ord" "HOL-Library.List_Lexorder"
begin

text \<open>
  Shared ground of the development: the error values of the chain's modules, the result type
  with its sequencing operator, Go's fixed-width integers, and the byte-ordered key-value store
  the Cosmos keepers write to (an association list sorted by key), with the lemmas the component
  theories use everywhere.
\<close>

named_theorems res_simps \<open>sequencing of fallible steps\<close>
named_theorems kv_simps \<open>laws of the ordered key-value store\<close>
named_theorems i64_simps \<open>64-bit conversions that are the identity on small values\<close>

section \<open>Errors\<close>

text \<open>The sentinel errors each module registers (the \<open>errors.go\<close> of each module).\<close>

datatype shared_error =
    ErrSharedInvalidSigner | ErrSharedInvalidAddress | ErrSharedParamNameInvalid
  | ErrSharedParamInvalid | ErrSharedEmitEvent | ErrSharedUnauthorizedSupplierUpdate
  | ErrSharedInvalidRevShare | ErrSharedInvalidService | ErrSharedInvalidServiceId
  | ErrSharedInvalidServiceName | ErrSharedInvalidComputeUnitsPerRelay
  | ErrSharedInvalidServiceMetadata

datatype session_error =
    ErrSessionInvalidSigner | ErrSessionHydration | ErrSessionAppNotFound
  | ErrSessionAppNotStakedForService | ErrSessionSuppliersNotFound
  | ErrSessionInvalidAppAddress | ErrSessionInvalidBlockHeight
  | ErrSessionInvalidSessionId | ErrSessionAppNotActive | ErrSessionParamInvalid

datatype app_error =
    ErrAppInvalidSigner | ErrAppInvalidStake | ErrAppInvalidAddress | ErrAppUnauthorized
  | ErrAppNotFound | ErrAppInvalidServiceConfigs | ErrAppGatewayNotFound
  | ErrAppInvalidGatewayAddress | ErrAppAlreadyDelegated | ErrAppMaxDelegatedGateways
  | ErrAppNotDelegated | ErrAppIsUnstaking | ErrAppDuplicateAddress
  | ErrAppHasPendingTransfer | ErrAppParamInvalid | ErrAppEmitEvent
  | ErrQueryAppsInvalidGatewayAddress | ErrAppInvalidPerSessionSpendLimit

datatype supplier_error =
    ErrSupplierInvalidSigner | ErrSupplierInvalidStake | ErrSupplierInvalidAddress
  | ErrSupplierNotFound | ErrSupplierInvalidServiceConfig | ErrSupplierIsUnstaking
  | ErrSupplierServiceNotFound | ErrSupplierParamInvalid | ErrSupplierEmitEvent
  | ErrSupplierInvalidServiceId

datatype gateway_error =
    ErrGatewayInvalidSigner | ErrGatewayInvalidAddress | ErrGatewayInvalidStake
  | ErrGatewayUnauthorized | ErrGatewayNotFound | ErrGatewayParamInvalid
  | ErrGatewayEmitEvent | ErrGatewayIsUnstaking | ErrGatewayIsInactive

datatype service_error =
    ErrServiceInvalidSigner | ErrServiceDuplicateIndex | ErrServiceInvalidAddress
  | ErrServiceMissingID | ErrServiceMissingName | ErrServiceAlreadyExists
  | ErrServiceNotEnoughFunds | ErrServiceFailedToDeductFee | ErrServiceInvalidRelayResponse
  | ErrServiceInvalidRelayRequest | ErrServiceInvalidOwnerAddress | ErrServiceParamInvalid
  | ErrServiceMissingRelayMiningDifficulty | ErrServiceNotFound | ErrServiceUnauthorized

datatype proof_error =
    ErrProofInvalidSigner | ErrProofInvalidAddress | ErrProofNotFound | ErrProofInvalidService
  | ErrProofInvalidClaimRootHash | ErrProofInvalidQueryRequest | ErrProofClaimNotFound
  | ErrProofProofNotFound | ErrProofInvalidProof | ErrProofInvalidRelay
  | ErrProofInvalidRelayRequest | ErrProofInvalidRelayResponse | ErrProofNotSecp256k1Curve
  | ErrProofApplicationNotFound | ErrProofPubKeyNotFound | ErrProofInvalidSessionHeader
  | ErrProofInvalidSessionId | ErrProofInvalidSessionEndHeight
  | ErrProofInvalidSessionStartHeight | ErrProofParamNameInvalid | ErrProofParamInvalid
  | ErrProofClaimOutsideOfWindow | ErrProofProofOutsideOfWindow | ErrProofSupplierMismatch
  | ErrProofAccNotFound | ErrProofServiceNotFound | ErrProofComputeUnitsMismatch
  | ErrProofNotEnoughFunds | ErrProofFailedToDeductFee | ErrProofNotRequired
  | ErrProofInvalidRelayDifficulty | ErrProofInvalidClaimedAmount

datatype tokenomics_error =
    ErrTokenomicsInvalidAuthoritySigner | ErrTokenomicsAuthorityAddressInvalid
  | ErrTokenomicsClaimSessionHeaderNil | ErrTokenomicsClaimSessionHeaderInvalid
  | ErrTokenomicsClaimRootHashInvalid | ErrTokenomicsSupplierOperatorAddressInvalid
  | ErrTokenomicsSupplierNotFound | ErrTokenomicsApplicationNotFound
  | ErrTokenomicsApplicationAddressInvalid | ErrTokenomicsApplicationNewStakeInvalid
  | ErrTokenomicsParamsInvalid | ErrTokenomicsParamNameInvalid | ErrTokenomicsParamInvalid
  | ErrTokenomicsUnmarshalInvalid | ErrTokenomicsEmittingEventFailed
  | ErrTokenomicsServiceNotFound | ErrTokenomicsConstraint | ErrTokenomicsSettlementInternal
  | ErrTokenomicsTLMInternal | ErrTokenomicsProcessingTLM | ErrTokenomicsCoinIsZero
  | ErrTokenomicsSettlementMint | ErrTokenomicsSettlementBurn
  | ErrTokenomicsSettlementTransfer

datatype rings_error =
    ErrRingsNotSecp256k1Curve | ErrRingClientInvalidRelayRequest
  | ErrRingClientInvalidRelayRequestSignature

datatype migration_error =
    ErrMigrationInvalidSigner | ErrMorseAccountsImport
  | ErrMorseAccountClaim | ErrMorseSignature | ErrMorseApplicationClaim
  | ErrMorseSupplierClaim | ErrMorseSrcAddress | ErrMorseRecoverableAccountClaim
  | ErrMigrationParamInvalid

text \<open>The gRPC status codes the handlers return.\<close>

datatype grpc_code =
    InvalidArgument | PermissionDenied | NotFound | AlreadyExists | FailedPrecondition | Internal

text \<open>
  An error value. \<open>Wrapf\<close> and \<open>%w\<close> keep the sentinel, so wrapping is the
  identity here; \<open>status.Error\<close> pairs a code with the error it was built from;
  \<open>ErrFmt\<close> is an error with no sentinel (\<open>fmt.Errorf\<close>); \<open>ErrExt\<close> is an
  error a dependency returns. \<open>Panic\<close> is a Go panic (a nil dereference, a division by
  zero): it ends the call like an error but is told apart from every error value.
\<close>

datatype go_error =
    Shared shared_error
  | Session session_error
  | App app_error
  | Supplier supplier_error
  | Gateway gateway_error
  | Service service_error
  | Proof proof_error
  | Tokenomics tokenomics_error
  | Rings rings_error
  | Migration migration_error
  | Status grpc_code go_error
  | ErrFmt
  | ErrExt
  | Panic

type_synonym 'a res = "go_error + 'a"

text \<open>Sequencing: the code's \<open>if err != nil \<dots> return err\<close> after a call.\<close>

fun bindR :: "'a res \<Rightarrow> ('a \<Rightarrow> 'b res) \<Rightarrow> 'b res" where
  "bindR (Inl e) f = Inl e"
| "bindR (Inr x) f = f x"

text \<open>The same with the error translated, as in \<open>return status.Error(code, err.Error())\<close>;
  a panic is not an error value and passes through.\<close>

fun mapErr :: "(go_error \<Rightarrow> go_error) \<Rightarrow> 'a res \<Rightarrow> 'a res" where
  "mapErr g (Inl Panic) = Inl Panic"
| "mapErr g (Inl e) = Inl (g e)"
| "mapErr g (Inr x) = Inr x"

text \<open>A loop that stops at the first error.\<close>

fun foldR :: "('s \<Rightarrow> 'a \<Rightarrow> 's res) \<Rightarrow> 's \<Rightarrow> 'a list \<Rightarrow> 's res" where
  "foldR f s [] = Inr s"
| "foldR f s (x # xs) = bindR (f s x) (\<lambda>s'. foldR f s' xs)"

fun forR :: "('a \<Rightarrow> unit res) \<Rightarrow> 'a list \<Rightarrow> unit res" where
  "forR f [] = Inr ()"
| "forR f (x # xs) = bindR (f x) (\<lambda>_. forR f xs)"

lemma bindR_Inr_iff [res_simps]: "bindR m f = Inr y \<longleftrightarrow> (\<exists>x. m = Inr x \<and> f x = Inr y)"
  by (cases m) auto

lemma bindR_Inl_iff: "bindR m f = Inl e \<longleftrightarrow> m = Inl e \<or> (\<exists>x. m = Inr x \<and> f x = Inl e)"
  by (cases m) auto

lemma mapErr_Inr_iff [res_simps]: "mapErr g m = Inr y \<longleftrightarrow> m = Inr y"
  by (cases "(g, m)" rule: mapErr.cases) auto

lemma if_Inl_eq_Inr [res_simps]: "(if c then Inl e else m) = Inr y \<longleftrightarrow> \<not> c \<and> m = Inr y"
  by auto

lemma foldR_append: "foldR f s (xs @ ys) = bindR (foldR f s xs) (\<lambda>s'. foldR f s' ys)"
proof (induction xs arbitrary: s)
  case Nil
  then show ?case by simp
next
  case (Cons x xs)
  then show ?case by (cases "f s x") simp_all
qed

lemma foldR_invariant:
  assumes "foldR f s xs = Inr t" and "P s"
    and "\<And>s x s'. P s \<Longrightarrow> x \<in> set xs \<Longrightarrow> f s x = Inr s' \<Longrightarrow> P s'"
  shows "P t"
  using assms
proof (induction xs arbitrary: s)
  case Nil
  then show ?case by simp
next
  case (Cons x xs)
  from Cons.prems(1) obtain s' where s': "f s x = Inr s'" "foldR f s' xs = Inr t"
    by (auto simp: res_simps)
  have "P s'" using Cons.prems(2,3) s'(1) by (meson list.set_intros(1))
  then show ?case using Cons.IH [OF s'(2)] Cons.prems(3) by (meson list.set_intros(2))
qed

lemma foldR_invariant_rest:
  assumes "foldR f s xs = Inr t" and "P s xs"
    and "\<And>s x rest s'. P s (x # rest) \<Longrightarrow> f s x = Inr s' \<Longrightarrow> P s' rest"
  shows "P t []"
  using assms
proof (induction xs arbitrary: s)
  case Nil
  then show ?case by simp
next
  case (Cons x xs)
  from Cons.prems(1) obtain s' where s': "f s x = Inr s'" "foldR f s' xs = Inr t"
    by (auto simp: res_simps)
  show ?case using Cons.IH [OF s'(2)] Cons.prems(2,3) s'(1) by blast
qed

lemma forR_Inr_iff [res_simps]: "forR f xs = Inr u \<longleftrightarrow> (\<forall>x \<in> set xs. f x = Inr ())"
  by (induction xs) (auto simp: bindR_Inr_iff)

section \<open>Go's 64-bit integers\<close>

type_synonym u64 = "64 word"

text \<open>
  A \<open>uint64\<close> is a 64-bit word. An \<open>int64\<close> (and \<open>int\<close>, 64 bits wide on the
  supported platforms) is an \<open>int\<close> kept in range by \<open>i64\<close>, which wraps as Go does:
  it is written around every sum, difference and product the code computes on \<open>int64\<close>.
\<close>

definition i64 :: "int \<Rightarrow> int" where
  "i64 x = (x + 2 ^ 63) mod 2 ^ 64 - 2 ^ 63"

text \<open>The conversions \<open>int64(x)\<close> and \<open>uint64(x)\<close>.\<close>

definition int64_of :: "u64 \<Rightarrow> int" where
  "int64_of w = i64 (uint w)"

definition uint64_of :: "int \<Rightarrow> u64" where
  "uint64_of x = word_of_int x"

text \<open>Integer division truncates toward zero and panics on a zero divisor.\<close>

definition quo64 :: "int \<Rightarrow> int \<Rightarrow> int res" where
  "quo64 a b = (if b = 0 then Inl Panic else Inr (i64 (a sdiv b)))"

definition in_i64 :: "int \<Rightarrow> bool" where
  "in_i64 x \<longleftrightarrow> - (2 ^ 63) \<le> x \<and> x < 2 ^ 63"

lemma i64_range: "in_i64 (i64 x)"
proof -
  have "0 \<le> (x + 2 ^ 63) mod 2 ^ 64" and "(x + 2 ^ 63) mod 2 ^ 64 < 2 ^ 64" by simp_all
  then show ?thesis by (simp add: in_i64_def i64_def)
qed

lemma i64_id [i64_simps]: "in_i64 x \<Longrightarrow> i64 x = x"
  by (simp add: in_i64_def i64_def)

lemma in_i64_nonneg: "0 \<le> x \<Longrightarrow> x < 2 ^ 63 \<Longrightarrow> in_i64 x"
  by (simp add: in_i64_def)

lemma int64_of_id: "uint w < 2 ^ 63 \<Longrightarrow> int64_of w = uint w"
proof -
  assume "uint w < 2 ^ 63"
  moreover have "0 \<le> uint w" by simp
  ultimately have "in_i64 (uint w)" unfolding in_i64_def by linarith
  then show ?thesis by (simp add: int64_of_def i64_id)
qed

lemma int64_of_eq: "int64_of w = (if uint w < 2 ^ 63 then uint w else uint w - 2 ^ 64)"
proof (cases "uint w < 2 ^ 63")
  case False
  have r: "0 \<le> uint w - 2 ^ 63" "uint w - 2 ^ 63 < 2 ^ 64"
    using False uint_lt2p [of w] by simp_all
  have "(uint w + 2 ^ 63) mod 2 ^ 64 = (uint w - 2 ^ 63 + 2 ^ 64) mod (2 ^ 64 :: int)"
    by (simp add: add.commute)
  also have "\<dots> = uint w - 2 ^ 63"
    using r by (simp only: mod_add_self2 mod_pos_pos_trivial)
  finally show ?thesis using False by (simp add: int64_of_def i64_def)
qed (simp add: int64_of_id)

lemma int64_of_nonzero: "w \<noteq> 0 \<Longrightarrow> int64_of w \<noteq> 0"
  using uint_lt2p [of w] by (auto simp: int64_of_eq uint_0_iff)

lemma uint_uint64_of: "0 \<le> x \<Longrightarrow> x < 2 ^ 64 \<Longrightarrow> uint (uint64_of x) = x"
  by (simp add: uint64_of_def uint_word_of_int_eq take_bit_int_eq_self)

lemma uint64_of_less_iff:
  "0 \<le> x \<Longrightarrow> x < 2 ^ 64 \<Longrightarrow> 0 \<le> y \<Longrightarrow> y < 2 ^ 64 \<Longrightarrow> uint64_of x < uint64_of y \<longleftrightarrow> x < y"
  by (simp add: word_less_def uint_uint64_of)

lemma uint64_of_eq_iff:
  "0 \<le> x \<Longrightarrow> x < 2 ^ 64 \<Longrightarrow> 0 \<le> y \<Longrightarrow> y < 2 ^ 64 \<Longrightarrow> uint64_of x = uint64_of y \<longleftrightarrow> x = y"
  by (metis uint_uint64_of)

lemma quo64_nonneg:
  assumes "0 \<le> a" and "0 < b" and "a < 2 ^ 63"
  shows "quo64 a b = Inr (a div b)"
proof -
  have "a sdiv b = a div b"
    using assms by (simp add: signed_divide_int_def sgn_if div_by_0)
  moreover have "0 \<le> a div b" and "a div b \<le> a"
    using assms zdiv_mono2 [of a 1 b] by (simp_all add: pos_imp_zdiv_nonneg_iff)
  ultimately show ?thesis using assms by (simp add: quo64_def i64_id in_i64_def)
qed

section \<open>Ordered key-value stores\<close>

text \<open>
  A Cosmos KV store iterates in ascending key order. It is an association list with strictly
  increasing keys; \<open>map_of\<close> is \<open>Get\<close>, \<open>kv_set\<close> is \<open>Set\<close> and
  \<open>kv_del\<close> is \<open>Delete\<close>.
\<close>

type_synonym ('k, 'v) kv = "('k \<times> 'v) list"

fun kv_set :: "'k::linorder \<Rightarrow> 'v \<Rightarrow> ('k, 'v) kv \<Rightarrow> ('k, 'v) kv" where
  "kv_set k v [] = [(k, v)]"
| "kv_set k v ((k', v') # s) =
     (if k < k' then (k, v) # (k', v') # s
      else if k = k' then (k, v) # s
      else (k', v') # kv_set k v s)"

definition kv_del :: "'k \<Rightarrow> ('k, 'v) kv \<Rightarrow> ('k, 'v) kv" where
  "kv_del k s = filter (\<lambda>e. fst e \<noteq> k) s"

definition kv_ok :: "('k::linorder, 'v) kv \<Rightarrow> bool" where
  "kv_ok s \<longleftrightarrow> sorted_wrt (<) (map fst s)"

text \<open>The entries with a key strictly below \<open>end\<close>, largest key first: what
  \<open>ReverseIterator(nil, end)\<close> yields.\<close>

definition kv_rev_below :: "'k::linorder \<Rightarrow> ('k, 'v) kv \<Rightarrow> ('k \<times> 'v) list" where
  "kv_rev_below end s = rev (filter (\<lambda>e. fst e < end) s)"

lemma kv_ok_Nil [simp]: "kv_ok []"
  by (simp add: kv_ok_def)

lemma kv_ok_Cons [simp]: "kv_ok (e # s) \<longleftrightarrow> (\<forall>f \<in> set s. fst e < fst f) \<and> kv_ok s"
  by (auto simp: kv_ok_def)

lemma map_of_kv_set [kv_simps]: "map_of (kv_set k v s) = (map_of s)(k \<mapsto> v)"
  by (induction k v s rule: kv_set.induct) (auto simp: fun_eq_iff)

lemma fst_set_kv_set: "fst ` set (kv_set k v s) = insert k (fst ` set s)"
  by (induction k v s rule: kv_set.induct) auto

lemma set_kv_set:
  "kv_ok s \<Longrightarrow> set (kv_set k v s) = insert (k, v) {e \<in> set s. fst e \<noteq> k}"
proof (induction k v s rule: kv_set.induct)
  case (1 k v)
  then show ?case by simp
next
  case (2 k v k' v' s)
  show ?case
  proof (cases "k = k'")
    case True
    with "2.prems" show ?thesis by fastforce
  next
    case False
    with "2" show ?thesis by (auto dest: order.strict_trans)
  qed
qed

lemma kv_ok_kv_set [kv_simps]: "kv_ok s \<Longrightarrow> kv_ok (kv_set k v s)"
proof (induction k v s rule: kv_set.induct)
  case (1 k v)
  then show ?case by simp
next
  case (2 k v k' v' s)
  then show ?case by (fastforce simp: set_kv_set)
qed

lemma map_of_kv_del [kv_simps]: "map_of (kv_del k s) = (map_of s)(k := None)"
  by (induction s) (auto simp: kv_del_def fun_eq_iff)

lemma kv_ok_filter: "kv_ok s \<Longrightarrow> kv_ok (filter P s)"
  by (induction s) auto

lemma kv_ok_kv_del [kv_simps]: "kv_ok s \<Longrightarrow> kv_ok (kv_del k s)"
  by (simp add: kv_del_def kv_ok_filter)

lemma kv_ok_distinct: "kv_ok s \<Longrightarrow> distinct (map fst s)"
  by (induction s) auto

lemma kv_set_neq_Nil [simp]: "kv_set k v s \<noteq> []"
  by (cases "(k, v, s)" rule: kv_set.cases) auto

lemma kv_ext:
  assumes "kv_ok s" and "kv_ok t" and "map_of s = map_of t"
  shows "s = t"
proof -
  have d: "distinct (map fst s)" "distinct (map fst t)" using assms(1,2) by (simp_all add: kv_ok_distinct)
  then have st: "set s = set t" using assms(3) by (simp add: map_of_inject_set)
  have "sorted (map fst s)" "sorted (map fst t)"
    using assms(1,2) by (auto simp: kv_ok_def strict_sorted_iff)
  moreover have "inj_on fst (set s \<union> set t)" using d st by (simp add: distinct_map)
  ultimately show ?thesis using d st by (metis distinct_map map_sorted_distinct_set_unique)
qed

end
