(* ===== verification/SharedSession.thy ===== *)
theory SharedSession
  imports Prelude
begin

text \<open>
  The shared module's parameters and its session arithmetic (\<open>x/shared/types/session.go\<close>):
  the code's functions on wrapping 64-bit heights, with the panic a zero
  \<open>num_blocks_per_session\<close> causes; the same grid on unbounded integers as the specification;
  and the laws of a session grid as a locale, interpreted on that specification.
\<close>

section \<open>Parameters\<close>

record shared_params =
  NumBlocksPerSession :: u64
  GracePeriodEndOffsetBlocks :: u64
  ClaimWindowOpenOffsetBlocks :: u64
  ClaimWindowCloseOffsetBlocks :: u64
  ProofWindowOpenOffsetBlocks :: u64
  ProofWindowCloseOffsetBlocks :: u64
  SupplierUnbondingPeriodSessions :: u64
  ApplicationUnbondingPeriodSessions :: u64
  ComputeUnitsToTokensMultiplier :: u64
  GatewayUnbondingPeriodSessions :: u64
  ComputeUnitCostGranularity :: u64
  SessionGridAnchorHeight :: u64
  SessionNumberAtAnchor :: u64

text \<open>The zero value of the struct: what \<open>GetParams\<close> returns when none are stored.\<close>

definition zeroParams :: shared_params where
  "zeroParams = \<lparr>NumBlocksPerSession = 0, GracePeriodEndOffsetBlocks = 0,
     ClaimWindowOpenOffsetBlocks = 0, ClaimWindowCloseOffsetBlocks = 0,
     ProofWindowOpenOffsetBlocks = 0, ProofWindowCloseOffsetBlocks = 0,
     SupplierUnbondingPeriodSessions = 0, ApplicationUnbondingPeriodSessions = 0,
     ComputeUnitsToTokensMultiplier = 0, GatewayUnbondingPeriodSessions = 0,
     ComputeUnitCostGranularity = 0, SessionGridAnchorHeight = 0, SessionNumberAtAnchor = 0\<rparr>"

definition NewParams :: shared_params where
  "NewParams = \<lparr>NumBlocksPerSession = 10, GracePeriodEndOffsetBlocks = 1,
     ClaimWindowOpenOffsetBlocks = 1, ClaimWindowCloseOffsetBlocks = 4,
     ProofWindowOpenOffsetBlocks = 0, ProofWindowCloseOffsetBlocks = 4,
     SupplierUnbondingPeriodSessions = 1, ApplicationUnbondingPeriodSessions = 1,
     ComputeUnitsToTokensMultiplier = 42000000, GatewayUnbondingPeriodSessions = 1,
     ComputeUnitCostGranularity = 1000000,
     SessionGridAnchorHeight = 1, SessionNumberAtAnchor = 1\<rparr>"

section \<open>The session arithmetic of the code\<close>

definition sessionGridAnchor :: "shared_params \<Rightarrow> int \<Rightarrow> int \<times> int" where
  "sessionGridAnchor p queryHeight =
     (let anchor = int64_of (SessionGridAnchorHeight p);
          numberAtAnchor = int64_of (SessionNumberAtAnchor p)
      in if anchor \<le> 0 \<or> anchor > queryHeight then (1, 1)
         else if numberAtAnchor \<le> 0 then (anchor, 1)
         else (anchor, numberAtAnchor))"

definition GetSessionStartHeight :: "shared_params \<Rightarrow> int \<Rightarrow> int res" where
  "GetSessionStartHeight p queryHeight =
     (if queryHeight \<le> 0 then Inr 0
      else let numBlocksPerSession = int64_of (NumBlocksPerSession p);
               anchor = fst (sessionGridAnchor p queryHeight)
           in bindR (quo64 (i64 (queryHeight - anchor)) numBlocksPerSession)
                (\<lambda>d. Inr (i64 (anchor + i64 (d * numBlocksPerSession)))))"

definition GetSessionEndHeight :: "shared_params \<Rightarrow> int \<Rightarrow> int res" where
  "GetSessionEndHeight p queryHeight =
     (if queryHeight \<le> 0 then Inr 0
      else let numBlocksPerSession = int64_of (NumBlocksPerSession p)
           in bindR (GetSessionStartHeight p queryHeight)
                (\<lambda>sessionStartHeight.
                   Inr (i64 (i64 (sessionStartHeight + numBlocksPerSession) - 1))))"

definition GetSessionNumber :: "shared_params \<Rightarrow> int \<Rightarrow> int res" where
  "GetSessionNumber p queryHeight =
     (if queryHeight \<le> 0 then Inr 0
      else let numBlocksPerSession = int64_of (NumBlocksPerSession p);
               (anchor, numberAtAnchor) = sessionGridAnchor p queryHeight
           in bindR (quo64 (i64 (queryHeight - anchor)) numBlocksPerSession)
                (\<lambda>d. Inr (i64 (numberAtAnchor + d))))"

definition GetSessionGracePeriodEndHeight :: "shared_params \<Rightarrow> int \<Rightarrow> int res" where
  "GetSessionGracePeriodEndHeight p queryHeight =
     bindR (GetSessionEndHeight p queryHeight)
       (\<lambda>sessionEndHeight. Inr (i64 (sessionEndHeight + int64_of (GracePeriodEndOffsetBlocks p))))"

definition IsGracePeriodElapsed :: "shared_params \<Rightarrow> int \<Rightarrow> int \<Rightarrow> bool res" where
  "IsGracePeriodElapsed p queryHeight currentHeight =
     bindR (GetSessionGracePeriodEndHeight p queryHeight) (\<lambda>h. Inr (currentHeight > h))"

definition GetClaimWindowOpenHeight :: "shared_params \<Rightarrow> int \<Rightarrow> int res" where
  "GetClaimWindowOpenHeight p queryHeight =
     bindR (GetSessionEndHeight p queryHeight)
       (\<lambda>sessionEndHeight.
          Inr (i64 (i64 (sessionEndHeight + int64_of (ClaimWindowOpenOffsetBlocks p)) + 1)))"

definition GetClaimWindowCloseHeight :: "shared_params \<Rightarrow> int \<Rightarrow> int res" where
  "GetClaimWindowCloseHeight p queryHeight =
     bindR (GetClaimWindowOpenHeight p queryHeight)
       (\<lambda>h. Inr (i64 (h + int64_of (ClaimWindowCloseOffsetBlocks p))))"

definition GetProofWindowOpenHeight :: "shared_params \<Rightarrow> int \<Rightarrow> int res" where
  "GetProofWindowOpenHeight p queryHeight =
     bindR (GetClaimWindowCloseHeight p queryHeight)
       (\<lambda>h. Inr (i64 (h + int64_of (ProofWindowOpenOffsetBlocks p))))"

definition GetProofWindowCloseHeight :: "shared_params \<Rightarrow> int \<Rightarrow> int res" where
  "GetProofWindowCloseHeight p queryHeight =
     bindR (GetProofWindowOpenHeight p queryHeight)
       (\<lambda>h. Inr (i64 (h + int64_of (ProofWindowCloseOffsetBlocks p))))"

text \<open>The block hash and the operator address are arguments the code no longer reads.\<close>

definition GetEarliestSupplierClaimCommitHeight ::
    "shared_params \<Rightarrow> int \<Rightarrow> 8 word list \<Rightarrow> string \<Rightarrow> int res" where
  "GetEarliestSupplierClaimCommitHeight p queryHeight claimWindowOpenBlockHash supplierOperatorAddr =
     GetClaimWindowOpenHeight p queryHeight"

definition GetEarliestSupplierProofCommitHeight ::
    "shared_params \<Rightarrow> int \<Rightarrow> 8 word list \<Rightarrow> string \<Rightarrow> int res" where
  "GetEarliestSupplierProofCommitHeight p queryHeight proofWindowOpenBlockHash supplierOperatorAddr =
     GetProofWindowOpenHeight p queryHeight"

definition GetNextSessionStartHeight :: "shared_params \<Rightarrow> int \<Rightarrow> int res" where
  "GetNextSessionStartHeight p queryHeight =
     bindR (GetSessionEndHeight p queryHeight) (\<lambda>h. Inr (i64 (h + 1)))"

definition IsSessionEndHeight :: "shared_params \<Rightarrow> int \<Rightarrow> bool res" where
  "IsSessionEndHeight p queryHeight =
     bindR (GetSessionEndHeight p queryHeight) (\<lambda>h. Inr (queryHeight = h))"

definition IsSessionStartHeight :: "shared_params \<Rightarrow> int \<Rightarrow> bool res" where
  "IsSessionStartHeight p queryHeight =
     bindR (GetSessionStartHeight p queryHeight) (\<lambda>h. Inr (queryHeight = h))"

text \<open>The sum is taken on \<open>uint64\<close>, where it wraps, and converted afterwards.\<close>

definition GetSessionEndToProofWindowCloseBlocks :: "shared_params \<Rightarrow> int" where
  "GetSessionEndToProofWindowCloseBlocks p =
     int64_of (ClaimWindowOpenOffsetBlocks p + ClaimWindowCloseOffsetBlocks p +
       ProofWindowOpenOffsetBlocks p + ProofWindowCloseOffsetBlocks p)"

definition GetSettlementSessionEndHeight :: "shared_params \<Rightarrow> int \<Rightarrow> int res" where
  "GetSettlementSessionEndHeight p queryHeight =
     bindR (GetSessionEndHeight p queryHeight)
       (\<lambda>h. Inr (i64 (i64 (GetSessionEndToProofWindowCloseBlocks p + h) + 1)))"

definition GetNumPendingSessions :: "shared_params \<Rightarrow> int res" where
  "GetNumPendingSessions p =
     (let numPendingSessionsBlocks = GetSessionEndToProofWindowCloseBlocks p;
          numBlocksPerSession = int64_of (NumBlocksPerSession p)
      in quo64 (i64 (i64 (numPendingSessionsBlocks + numBlocksPerSession) - 1)) numBlocksPerSession)"

lemmas session_code_defs =
  GetSessionStartHeight_def GetSessionEndHeight_def GetSessionNumber_def
  GetSessionGracePeriodEndHeight_def GetClaimWindowOpenHeight_def GetClaimWindowCloseHeight_def
  GetProofWindowOpenHeight_def GetProofWindowCloseHeight_def GetNextSessionStartHeight_def

section \<open>The grid on unbounded integers\<close>

text \<open>
  The specification the code implements: sessions of \<open>N\<close> blocks laid out from the anchor,
  on integers that neither wrap nor truncate.
\<close>

abbreviation numBlocks :: "shared_params \<Rightarrow> int" where
  "numBlocks p \<equiv> uint (NumBlocksPerSession p)"

definition grid_anchor :: "shared_params \<Rightarrow> int \<Rightarrow> int" where
  "grid_anchor p h =
     (if 1 \<le> uint (SessionGridAnchorHeight p) \<and> uint (SessionGridAnchorHeight p) \<le> h
      then uint (SessionGridAnchorHeight p) else 1)"

definition grid_number :: "shared_params \<Rightarrow> int \<Rightarrow> int" where
  "grid_number p h =
     (if 1 \<le> uint (SessionGridAnchorHeight p) \<and> uint (SessionGridAnchorHeight p) \<le> h
        \<and> 1 \<le> uint (SessionNumberAtAnchor p)
      then uint (SessionNumberAtAnchor p) else 1)"

definition sess_start :: "shared_params \<Rightarrow> int \<Rightarrow> int" where
  "sess_start p h = grid_anchor p h + (h - grid_anchor p h) div numBlocks p * numBlocks p"

definition sess_end :: "shared_params \<Rightarrow> int \<Rightarrow> int" where
  "sess_end p h = sess_start p h + numBlocks p - 1"

definition sess_number :: "shared_params \<Rightarrow> int \<Rightarrow> int" where
  "sess_number p h = grid_number p h + (h - grid_anchor p h) div numBlocks p"

text \<open>
  Magnitudes at which no 64-bit sum of the session arithmetic can overflow: offsets below
  \<open>2\<^sup>32\<close> blocks and heights below \<open>2\<^sup>62\<close>. The code does not check them.
\<close>

definition params_bounded :: "shared_params \<Rightarrow> bool" where
  "params_bounded p \<longleftrightarrow>
     1 \<le> numBlocks p \<and> numBlocks p < 2 ^ 32 \<and>
     uint (GracePeriodEndOffsetBlocks p) < 2 ^ 32 \<and>
     uint (ClaimWindowOpenOffsetBlocks p) < 2 ^ 32 \<and>
     uint (ClaimWindowCloseOffsetBlocks p) < 2 ^ 32 \<and>
     uint (ProofWindowOpenOffsetBlocks p) < 2 ^ 32 \<and>
     uint (ProofWindowCloseOffsetBlocks p) < 2 ^ 32 \<and>
     uint (SessionGridAnchorHeight p) < 2 ^ 62 \<and>
     uint (SessionNumberAtAnchor p) < 2 ^ 62"

definition height_bounded :: "int \<Rightarrow> bool" where
  "height_bounded h \<longleftrightarrow> 1 \<le> h \<and> h < 2 ^ 62"

lemma params_bounded_int64:
  assumes "params_bounded p"
  shows "int64_of (NumBlocksPerSession p) = numBlocks p"
    and "int64_of (GracePeriodEndOffsetBlocks p) = uint (GracePeriodEndOffsetBlocks p)"
    and "int64_of (ClaimWindowOpenOffsetBlocks p) = uint (ClaimWindowOpenOffsetBlocks p)"
    and "int64_of (ClaimWindowCloseOffsetBlocks p) = uint (ClaimWindowCloseOffsetBlocks p)"
    and "int64_of (ProofWindowOpenOffsetBlocks p) = uint (ProofWindowOpenOffsetBlocks p)"
    and "int64_of (ProofWindowCloseOffsetBlocks p) = uint (ProofWindowCloseOffsetBlocks p)"
    and "int64_of (SessionGridAnchorHeight p) = uint (SessionGridAnchorHeight p)"
    and "int64_of (SessionNumberAtAnchor p) = uint (SessionNumberAtAnchor p)"
  using assms by (simp_all add: params_bounded_def int64_of_id)

lemma sessionGridAnchor_grid:
  assumes "params_bounded p" and "height_bounded h"
  shows "sessionGridAnchor p h = (grid_anchor p h, grid_number p h)"
proof -
  let ?A = "uint (SessionGridAnchorHeight p)" and ?M = "uint (SessionNumberAtAnchor p)"
  have "?A \<le> 0 \<longleftrightarrow> \<not> 1 \<le> ?A" and "?M \<le> 0 \<longleftrightarrow> \<not> 1 \<le> ?M" by linarith+
  then show ?thesis
    by (simp add: sessionGridAnchor_def grid_anchor_def grid_number_def Let_def
        params_bounded_int64 [OF assms(1)] not_le del: uint_le_0_iff)
qed

lemma grid_anchor_bounds: "1 \<le> h \<Longrightarrow> 1 \<le> grid_anchor p h \<and> grid_anchor p h \<le> h"
  by (auto simp: grid_anchor_def)

lemma sess_start_le: "0 < numBlocks p \<Longrightarrow> sess_start p h \<le> h"
proof -
  assume "0 < numBlocks p"
  then have "(h - grid_anchor p h) div numBlocks p * numBlocks p \<le> h - grid_anchor p h"
    by (simp add: minus_mod_eq_div_mult [symmetric])
  then show ?thesis by (simp add: sess_start_def)
qed

lemma sess_start_ge_anchor:
  "1 \<le> h \<Longrightarrow> 0 < numBlocks p \<Longrightarrow> grid_anchor p h \<le> sess_start p h"
  using grid_anchor_bounds [of h p] by (simp add: sess_start_def pos_imp_zdiv_nonneg_iff)

lemma sess_end_ge: "0 < numBlocks p \<Longrightarrow> h \<le> sess_end p h"
proof -
  assume n: "0 < numBlocks p"
  let ?d = "h - grid_anchor p h"
  have "?d mod numBlocks p < numBlocks p" using n by simp
  then have "?d < ?d div numBlocks p * numBlocks p + numBlocks p"
    by (metis add_less_cancel_left div_mult_mod_eq)
  then show ?thesis by (simp add: sess_end_def sess_start_def)
qed

text \<open>
  The code's functions return the specification's values, without panic or wrap-around, for
  bounded parameters and heights.
\<close>

lemma GetSessionStartHeight_eq:
  assumes p: "params_bounded p" and h: "height_bounded h"
  shows "GetSessionStartHeight p h = Inr (sess_start p h)"
proof -
  let ?a = "grid_anchor p h" and ?n = "numBlocks p"
  have n: "0 < ?n" using p by (simp add: params_bounded_def)
  have a: "1 \<le> ?a" "?a \<le> h" using h grid_anchor_bounds by (auto simp: height_bounded_def)
  have q: "quo64 (h - ?a) ?n = Inr ((h - ?a) div ?n)"
    using a h n by (intro quo64_nonneg) (auto simp: height_bounded_def)
  have m: "0 \<le> (h - ?a) div ?n * ?n" "(h - ?a) div ?n * ?n \<le> h - ?a"
    using a n by (simp_all add: pos_imp_zdiv_nonneg_iff zmod_le_nonneg_dividend
        minus_mod_eq_div_mult [symmetric])
  have "in_i64 (h - ?a)" and "in_i64 ((h - ?a) div ?n * ?n)"
    and "in_i64 (?a + (h - ?a) div ?n * ?n)"
    using a h m by (auto simp: in_i64_def height_bounded_def)
  then show ?thesis
    using h q by (simp add: GetSessionStartHeight_def Let_def sessionGridAnchor_grid [OF p h]
        params_bounded_int64 [OF p] i64_id sess_start_def height_bounded_def)
qed

lemma sess_start_bounds:
  assumes "params_bounded p" and "height_bounded h"
  shows "1 \<le> sess_start p h" and "sess_start p h \<le> h" and "h \<le> sess_end p h"
    and "sess_end p h \<le> h + 2 ^ 32"
proof -
  have n: "0 < numBlocks p" "numBlocks p < 2 ^ 32" using assms by (auto simp: params_bounded_def)
  have h: "1 \<le> h" using assms by (simp add: height_bounded_def)
  show "1 \<le> sess_start p h"
    using sess_start_ge_anchor [OF h n(1)] grid_anchor_bounds [OF h, of p] by linarith
  show "sess_start p h \<le> h" "h \<le> sess_end p h"
    using n(1) by (simp_all add: sess_start_le sess_end_ge)
  with n show "sess_end p h \<le> h + 2 ^ 32" by (simp add: sess_end_def)
qed

lemma GetSessionEndHeight_eq:
  assumes p: "params_bounded p" and h: "height_bounded h"
  shows "GetSessionEndHeight p h = Inr (sess_end p h)"
proof -
  have "in_i64 (sess_start p h + numBlocks p)" and "in_i64 (sess_start p h + numBlocks p - 1)"
    using sess_start_bounds [OF p h] p h
    by (auto simp: in_i64_def height_bounded_def params_bounded_def)
  then show ?thesis
    using h by (simp add: GetSessionEndHeight_def Let_def GetSessionStartHeight_eq [OF p h]
        params_bounded_int64 [OF p] i64_id sess_end_def height_bounded_def)
qed

lemma sess_number_bounds:
  assumes "params_bounded p" and "height_bounded h"
  shows "1 \<le> sess_number p h" and "sess_number p h < 2 ^ 63"
proof -
  let ?a = "grid_anchor p h" and ?n = "numBlocks p"
  have n: "0 < ?n" using assms by (simp add: params_bounded_def)
  have a: "1 \<le> ?a" "?a \<le> h"
    using assms grid_anchor_bounds by (auto simp: height_bounded_def)
  have "0 \<le> (h - ?a) div ?n" using a n by (simp add: pos_imp_zdiv_nonneg_iff)
  moreover have "(h - ?a) div ?n \<le> h - ?a" using a n zdiv_mono2 [of "h - ?a" 1 ?n] by simp
  moreover have "1 \<le> grid_number p h" "grid_number p h < 2 ^ 62"
    using assms by (auto simp: grid_number_def params_bounded_def)
  ultimately show "1 \<le> sess_number p h" and "sess_number p h < 2 ^ 63"
    using a assms by (auto simp: sess_number_def height_bounded_def)
qed

lemma GetSessionNumber_eq:
  assumes p: "params_bounded p" and h: "height_bounded h"
  shows "GetSessionNumber p h = Inr (sess_number p h)"
proof -
  let ?a = "grid_anchor p h" and ?n = "numBlocks p"
  have n: "0 < ?n" using p by (simp add: params_bounded_def)
  have a: "1 \<le> ?a" "?a \<le> h" using h grid_anchor_bounds by (auto simp: height_bounded_def)
  have q: "quo64 (h - ?a) ?n = Inr ((h - ?a) div ?n)"
    using a h n by (intro quo64_nonneg) (auto simp: height_bounded_def)
  have "in_i64 (h - ?a)" and "in_i64 (sess_number p h)"
    using a h sess_number_bounds [OF p h] by (auto simp: in_i64_def height_bounded_def)
  then show ?thesis
    using h q by (simp add: GetSessionNumber_def Let_def sessionGridAnchor_grid [OF p h]
        params_bounded_int64 [OF p] i64_id sess_number_def height_bounded_def)
qed

section \<open>The claim and proof windows\<close>

abbreviation claimOpenOffset :: "shared_params \<Rightarrow> int" where
  "claimOpenOffset p \<equiv> uint (ClaimWindowOpenOffsetBlocks p)"

abbreviation claimCloseOffset :: "shared_params \<Rightarrow> int" where
  "claimCloseOffset p \<equiv> uint (ClaimWindowCloseOffsetBlocks p)"

abbreviation proofOpenOffset :: "shared_params \<Rightarrow> int" where
  "proofOpenOffset p \<equiv> uint (ProofWindowOpenOffsetBlocks p)"

abbreviation proofCloseOffset :: "shared_params \<Rightarrow> int" where
  "proofCloseOffset p \<equiv> uint (ProofWindowCloseOffsetBlocks p)"

definition claim_open :: "shared_params \<Rightarrow> int \<Rightarrow> int" where
  "claim_open p h = sess_end p h + claimOpenOffset p + 1"

definition claim_close :: "shared_params \<Rightarrow> int \<Rightarrow> int" where
  "claim_close p h = claim_open p h + claimCloseOffset p"

definition proof_open :: "shared_params \<Rightarrow> int \<Rightarrow> int" where
  "proof_open p h = claim_close p h + proofOpenOffset p"

definition proof_close :: "shared_params \<Rightarrow> int \<Rightarrow> int" where
  "proof_close p h = proof_open p h + proofCloseOffset p"

lemmas window_defs = claim_open_def claim_close_def proof_open_def proof_close_def

lemma window_heights_eq:
  assumes p: "params_bounded p" and h: "height_bounded h"
  shows "GetSessionGracePeriodEndHeight p h
      = Inr (sess_end p h + uint (GracePeriodEndOffsetBlocks p))"
    and "GetClaimWindowOpenHeight p h = Inr (claim_open p h)"
    and "GetClaimWindowCloseHeight p h = Inr (claim_close p h)"
    and "GetProofWindowOpenHeight p h = Inr (proof_open p h)"
    and "GetProofWindowCloseHeight p h = Inr (proof_close p h)"
    and "GetNextSessionStartHeight p h = Inr (sess_end p h + 1)"
proof -
  note b = sess_start_bounds [OF p h]
  have o: "in_i64 (sess_end p h + uint (GracePeriodEndOffsetBlocks p))"
    "in_i64 (sess_end p h + claimOpenOffset p)" "in_i64 (claim_open p h)"
    "in_i64 (claim_close p h)" "in_i64 (proof_open p h)" "in_i64 (proof_close p h)"
    "in_i64 (sess_end p h + 1)"
    using b p h by (auto intro!: in_i64_nonneg add_nonneg_nonneg
        simp: window_defs params_bounded_def height_bounded_def)
  note e = GetSessionEndHeight_eq [OF p h] params_bounded_int64 [OF p]
  show "GetSessionGracePeriodEndHeight p h
      = Inr (sess_end p h + uint (GracePeriodEndOffsetBlocks p))"
    using o by (simp add: GetSessionGracePeriodEndHeight_def e i64_id)
  show co: "GetClaimWindowOpenHeight p h = Inr (claim_open p h)"
    using o by (simp add: GetClaimWindowOpenHeight_def e i64_id claim_open_def)
  show cc: "GetClaimWindowCloseHeight p h = Inr (claim_close p h)"
    using o by (simp add: GetClaimWindowCloseHeight_def co e i64_id claim_close_def)
  show po: "GetProofWindowOpenHeight p h = Inr (proof_open p h)"
    using o by (simp add: GetProofWindowOpenHeight_def cc e i64_id proof_open_def)
  show "GetProofWindowCloseHeight p h = Inr (proof_close p h)"
    using o by (simp add: GetProofWindowCloseHeight_def po e i64_id proof_close_def)
  show "GetNextSessionStartHeight p h = Inr (sess_end p h + 1)"
    using o by (simp add: GetNextSessionStartHeight_def e i64_id)
qed

lemma window_offsets_eq:
  assumes p: "params_bounded p"
  shows "GetSessionEndToProofWindowCloseBlocks p =
    claimOpenOffset p + claimCloseOffset p + proofOpenOffset p + proofCloseOffset p"
proof -
  let ?s = "ClaimWindowOpenOffsetBlocks p + ClaimWindowCloseOffsetBlocks p +
      ProofWindowOpenOffsetBlocks p + ProofWindowCloseOffsetBlocks p"
  have "uint ?s = claimOpenOffset p + claimCloseOffset p + proofOpenOffset p + proofCloseOffset p"
    using p by (simp add: params_bounded_def uint_word_ariths)
  moreover from this have "uint ?s < 2 ^ 63" using p by (simp add: params_bounded_def)
  ultimately show ?thesis by (simp add: GetSessionEndToProofWindowCloseBlocks_def int64_of_id)
qed

lemma GetNumPendingSessions_eq:
  assumes p: "params_bounded p"
  shows "GetNumPendingSessions p = Inr ((GetSessionEndToProofWindowCloseBlocks p + numBlocks p - 1)
    div numBlocks p)"
proof -
  let ?w = "GetSessionEndToProofWindowCloseBlocks p" and ?n = "numBlocks p"
  have w: "0 \<le> ?w" "?w < 2 ^ 34"
    using p by (auto simp: window_offsets_eq [OF p] params_bounded_def)
  have n: "1 \<le> ?n" "?n < 2 ^ 32" using p by (auto simp: params_bounded_def)
  have "in_i64 (?w + ?n)" and "in_i64 (?w + ?n - 1)" using w n by (auto simp: in_i64_def)
  moreover have "quo64 (?w + ?n - 1) ?n = Inr ((?w + ?n - 1) div ?n)"
    using w n by (intro quo64_nonneg) auto
  ultimately show ?thesis
    by (simp add: GetNumPendingSessions_def Let_def params_bounded_int64 [OF p] i64_id)
qed

section \<open>Session grids\<close>

text \<open>
  What every consumer of session heights relies on: from the first height of the grid on, each
  height lies in exactly one session, sessions follow each other without gap or overlap, and the
  session number counts them. The grid is a parameter, with the configuration \<open>p\<close> it is
  computed from: a single parameter epoch here, the whole parameter history in the shared keeper.
\<close>

locale session_grid =
  fixes ok :: "'p \<Rightarrow> bool"
    and first :: "'p \<Rightarrow> int"
    and startH :: "'p \<Rightarrow> int \<Rightarrow> int"
    and endH :: "'p \<Rightarrow> int \<Rightarrow> int"
    and numberH :: "'p \<Rightarrow> int \<Rightarrow> int"
  assumes first_le: "ok p \<Longrightarrow> first p \<le> h \<Longrightarrow> first p \<le> startH p h"
    and start_le: "ok p \<Longrightarrow> first p \<le> h \<Longrightarrow> startH p h \<le> h"
    and le_end: "ok p \<Longrightarrow> first p \<le> h \<Longrightarrow> h \<le> endH p h"
    and same: "ok p \<Longrightarrow> first p \<le> h \<Longrightarrow> startH p h \<le> h' \<Longrightarrow> h' \<le> endH p h \<Longrightarrow>
      startH p h' = startH p h \<and> endH p h' = endH p h \<and> numberH p h' = numberH p h"
    and next_start: "ok p \<Longrightarrow> first p \<le> h \<Longrightarrow> startH p (endH p h + 1) = endH p h + 1"
    and next_number: "ok p \<Longrightarrow> first p \<le> h \<Longrightarrow> numberH p (endH p h + 1) = numberH p h + 1"
begin

lemma unique_session:
  assumes "ok p" "first p \<le> h" "first p \<le> h'"
    and "startH p h \<le> x" "x \<le> endH p h" "startH p h' \<le> x" "x \<le> endH p h'"
  shows "startH p h = startH p h' \<and> endH p h = endH p h'"
  using same [OF assms(1,2,4,5)] same [OF assms(1,3,6,7)] by simp

lemma later_session:
  assumes "ok p" "first p \<le> h" "h \<le> h'" and ne: "startH p h \<noteq> startH p h'"
  shows "endH p h < startH p h'"
proof (rule ccontr)
  assume "\<not> endH p h < startH p h'"
  moreover have "h' \<le> endH p h'" "startH p h' \<le> h'"
    using assms start_le [of p h'] le_end [of p h'] by auto
  moreover have "h' \<le> endH p h \<Longrightarrow> False"
    using same [OF assms(1,2), of h'] start_le [OF assms(1,2)] assms(3) ne by simp
  ultimately have "startH p h' \<le> endH p h" "endH p h \<le> endH p h'" by force+
  with unique_session [OF assms(1,2), of h' "endH p h"] assms start_le [OF assms(1,2)]
    le_end [OF assms(1,2)] ne
  show False by auto
qed

lemma number_step:
  assumes "ok p" "first p \<le> h"
  shows "numberH p (h + 1) = (if h = endH p h then numberH p h + 1 else numberH p h)"
proof (cases "h = endH p h")
  case True
  then show ?thesis using next_number [OF assms] by simp
next
  case False
  then have "h + 1 \<le> endH p h" "startH p h \<le> h + 1"
    using le_end [OF assms] start_le [OF assms] by auto
  with False show ?thesis using same [OF assms, of "h + 1"] by simp
qed

lemma number_mono:
  assumes "ok p" "first p \<le> h" "h \<le> h'"
  shows "numberH p h \<le> numberH p h'"
  using assms(3)
proof (induction rule: int_ge_induct)
  case base
  show ?case by simp
next
  case (step i)
  then show ?case using number_step [OF assms(1), of i] assms(2) by (simp split: if_splits)
qed

lemma number_eq_iff:
  assumes "ok p" "first p \<le> h" "h \<le> h'"
  shows "numberH p h = numberH p h' \<longleftrightarrow> startH p h = startH p h'"
proof
  assume eq: "startH p h = startH p h'"
  have "startH p h' \<le> h" using start_le [OF assms(1,2)] eq by simp
  moreover have "h \<le> endH p h'" using le_end [of p h'] assms by simp
  ultimately show "numberH p h = numberH p h'" using same [of p h' h] assms by simp
next
  assume eq: "numberH p h = numberH p h'"
  show "startH p h = startH p h'"
  proof (rule ccontr)
    assume "startH p h \<noteq> startH p h'"
    then have "endH p h < startH p h'" using later_session [OF assms] by simp
    moreover have "startH p h' \<le> h'" "h \<le> endH p h"
      using start_le [of p h'] le_end [OF assms(1,2)] assms by auto
    ultimately have "endH p h + 1 \<le> h'" "first p \<le> endH p h + 1" using assms by linarith+
    then have "numberH p h + 1 \<le> numberH p h'"
      using number_mono [OF assms(1), of "endH p h + 1" h'] next_number [OF assms(1,2)] by simp
    with eq show False by simp
  qed
qed

end

subsection \<open>One parameter epoch is a session grid\<close>

definition epoch_first :: "shared_params \<Rightarrow> int" where
  "epoch_first p = max 1 (uint (SessionGridAnchorHeight p))"

definition epoch_ok :: "shared_params \<Rightarrow> bool" where
  "epoch_ok p \<longleftrightarrow> 1 \<le> numBlocks p"

lemma grid_anchor_epoch: "epoch_first p \<le> h \<Longrightarrow> grid_anchor p h = epoch_first p"
  by (auto simp: grid_anchor_def epoch_first_def max_def)

lemma grid_number_epoch: "epoch_first p \<le> h \<Longrightarrow> grid_number p h = grid_number p (epoch_first p)"
  by (auto simp: grid_number_def epoch_first_def max_def)

lemma div_between:
  assumes "(0::int) < n" and "a div n * n \<le> b" and "b < a div n * n + n"
  shows "b div n = a div n"
  using assms by (intro int_div_pos_eq [where r = "b - a div n * n"]) (auto simp: mult.commute)

lemma epoch_same:
  assumes "epoch_ok p" "epoch_first p \<le> h" "sess_start p h \<le> h'" "h' \<le> sess_end p h"
  shows "sess_start p h' = sess_start p h \<and> sess_end p h' = sess_end p h
    \<and> sess_number p h' = sess_number p h"
proof -
  let ?f = "epoch_first p" and ?n = "numBlocks p"
  have n: "0 < ?n" using assms(1) by (simp add: epoch_ok_def)
  have f: "?f \<le> sess_start p h"
    using n assms(2) by (simp add: sess_start_def grid_anchor_epoch pos_imp_zdiv_nonneg_iff)
  with assms(3) have h': "?f \<le> h'" by simp
  have "(h' - ?f) div ?n = (h - ?f) div ?n"
    using assms(2-4) h' n
    by (intro div_between) (auto simp: sess_start_def sess_end_def grid_anchor_epoch)
  then show ?thesis
    using assms(2) h'
    by (simp add: sess_start_def sess_end_def sess_number_def grid_anchor_epoch
        grid_number_epoch [of p h] grid_number_epoch [of p h'])
qed

lemma epoch_next:
  assumes "epoch_ok p" "epoch_first p \<le> h"
  shows "sess_start p (sess_end p h + 1) = sess_end p h + 1"
    and "sess_number p (sess_end p h + 1) = sess_number p h + 1"
proof -
  let ?f = "epoch_first p" and ?n = "numBlocks p" and ?d = "(h - epoch_first p) div numBlocks p"
  have n: "0 < ?n" using assms(1) by (simp add: epoch_ok_def)
  have e: "sess_end p h + 1 = ?f + (?d + 1) * ?n"
    using assms(2)
    by (simp add: sess_end_def sess_start_def grid_anchor_epoch distrib_right)
  have "0 \<le> ?d" using n assms(2) by (simp add: pos_imp_zdiv_nonneg_iff)
  then have f: "?f \<le> sess_end p h + 1" using e n by simp
  define x where "x = sess_end p h + 1"
  have x: "(x - ?f) div ?n = ?d + 1" "?f + (?d + 1) * ?n = x" "?f \<le> x"
    using e n f by (simp_all add: x_def)
  show "sess_start p (sess_end p h + 1) = sess_end p h + 1"
    and "sess_number p (sess_end p h + 1) = sess_number p h + 1"
    using x grid_anchor_epoch [OF x(3)] grid_anchor_epoch [OF assms(2)]
      grid_number_epoch [OF x(3)] grid_number_epoch [OF assms(2)]
    by (simp_all add: sess_start_def [of p x] sess_number_def flip: x_def)
qed

interpretation epoch: session_grid epoch_ok epoch_first sess_start sess_end sess_number
proof unfold_locales
  fix p h h' assume ok: "epoch_ok p" and h: "epoch_first p \<le> h"
  have n: "0 < numBlocks p" using ok by (simp add: epoch_ok_def)
  show "epoch_first p \<le> sess_start p h"
    using n h by (simp add: sess_start_def grid_anchor_epoch pos_imp_zdiv_nonneg_iff)
  show "sess_start p h \<le> h" and "h \<le> sess_end p h"
    using n by (simp_all add: sess_start_le sess_end_ge)
  show "sess_start p (sess_end p h + 1) = sess_end p h + 1"
    and "sess_number p (sess_end p h + 1) = sess_number p h + 1"
    using epoch_next [OF ok h] by simp_all
qed (use epoch_same in blast)

end
