(* ===== verification/SharedValidate.thy ===== *)
theory SharedValidate
  imports SharedSession
begin

text \<open>
  Validation in the shared module: the parameters (\<open>x/shared/types/params.go\<close>), the
  parameter-update messages (\<open>message_update_param.go\<close>, \<open>message_update_params.go\<close>)
  and the services, endpoints and revenue shares of suppliers and applications
  (\<open>service.go\<close>, \<open>service_configs.go\<close>). What validated parameters guarantee is
  proved at the end. Whether a string is a bech32 address and how a URL parses are decided by
  libraries: both are arguments.
\<close>

section \<open>Parameter validation\<close>

text \<open>The dynamically typed argument of the \<open>Validate\<close> functions.\<close>

datatype go_any = AnyUint64 u64 | AnyString string | AnyBytes "8 word list" | AnyNil

definition validateIsUint64 :: "go_any \<Rightarrow> u64 res" where
  "validateIsUint64 v =
     (case v of AnyUint64 w \<Rightarrow> Inr w | _ \<Rightarrow> Inl (Shared ErrSharedParamInvalid))"

definition validateAtLeastOne :: "go_any \<Rightarrow> unit res" where
  "validateAtLeastOne v =
     bindR (validateIsUint64 v)
       (\<lambda>n. if n < 1 then Inl (Shared ErrSharedParamInvalid) else Inr ())"

definition ValidateNumBlocksPerSession :: "go_any \<Rightarrow> unit res" where
  "ValidateNumBlocksPerSession v = validateAtLeastOne v"

definition ValidateClaimWindowOpenOffsetBlocks :: "go_any \<Rightarrow> unit res" where
  "ValidateClaimWindowOpenOffsetBlocks v = bindR (validateIsUint64 v) (\<lambda>_. Inr ())"

definition ValidateClaimWindowCloseOffsetBlocks :: "go_any \<Rightarrow> unit res" where
  "ValidateClaimWindowCloseOffsetBlocks v = bindR (validateIsUint64 v) (\<lambda>_. Inr ())"

definition ValidateProofWindowOpenOffsetBlocks :: "go_any \<Rightarrow> unit res" where
  "ValidateProofWindowOpenOffsetBlocks v = bindR (validateIsUint64 v) (\<lambda>_. Inr ())"

definition ValidateProofWindowCloseOffsetBlocks :: "go_any \<Rightarrow> unit res" where
  "ValidateProofWindowCloseOffsetBlocks v = bindR (validateIsUint64 v) (\<lambda>_. Inr ())"

definition ValidateGracePeriodEndOffsetBlocks :: "go_any \<Rightarrow> unit res" where
  "ValidateGracePeriodEndOffsetBlocks v = bindR (validateIsUint64 v) (\<lambda>_. Inr ())"

definition ValidateSupplierUnbondingPeriodSessions :: "go_any \<Rightarrow> unit res" where
  "ValidateSupplierUnbondingPeriodSessions v = validateAtLeastOne v"

definition ValidateApplicationUnbondingPeriodSessions :: "go_any \<Rightarrow> unit res" where
  "ValidateApplicationUnbondingPeriodSessions v = validateAtLeastOne v"

definition ValidateGatewayUnbondingPeriodSessions :: "go_any \<Rightarrow> unit res" where
  "ValidateGatewayUnbondingPeriodSessions v = validateAtLeastOne v"

definition ValidateComputeUnitsToTokensMultiplier :: "go_any \<Rightarrow> unit res" where
  "ValidateComputeUnitsToTokensMultiplier v =
     (case v of AnyUint64 n \<Rightarrow>
          if n \<le> 0 then Inl (Shared ErrSharedParamInvalid) else Inr ()
      | _ \<Rightarrow> Inl (Shared ErrSharedParamInvalid))"

definition ValidateComputeUnitCostGranularity :: "go_any \<Rightarrow> unit res" where
  "ValidateComputeUnitCostGranularity v =
     (case v of AnyUint64 n \<Rightarrow>
          if n \<le> 0 then Inl (Shared ErrSharedParamInvalid) else Inr ()
      | _ \<Rightarrow> Inl (Shared ErrSharedParamInvalid))"

definition validateClaimWindowOpenOffsetIsAtLeastGracePeriodEndOffset ::
    "shared_params \<Rightarrow> unit res" where
  "validateClaimWindowOpenOffsetIsAtLeastGracePeriodEndOffset p =
     (if ClaimWindowOpenOffsetBlocks p < GracePeriodEndOffsetBlocks p
      then Inl (Shared ErrSharedParamInvalid) else Inr ())"

definition validateGracePeriodOffsetBlocksIsLessThanNumBlocksPerSession ::
    "shared_params \<Rightarrow> unit res" where
  "validateGracePeriodOffsetBlocksIsLessThanNumBlocksPerSession p =
     (if GracePeriodEndOffsetBlocks p \<ge> NumBlocksPerSession p
      then Inl (Shared ErrSharedParamInvalid) else Inr ())"

definition validateSupplierUnbondingPeriodIsGreaterThanCumulativeProofWindowCloseBlocks ::
    "shared_params \<Rightarrow> unit res" where
  "validateSupplierUnbondingPeriodIsGreaterThanCumulativeProofWindowCloseBlocks p =
     (if int64_of (SupplierUnbondingPeriodSessions p * NumBlocksPerSession p)
         < GetSessionEndToProofWindowCloseBlocks p
      then Inl (Shared ErrSharedParamInvalid) else Inr ())"

definition validateApplicationUnbondingPeriodIsGreaterThanCumulativeProofWindowCloseBlocks ::
    "shared_params \<Rightarrow> unit res" where
  "validateApplicationUnbondingPeriodIsGreaterThanCumulativeProofWindowCloseBlocks p =
     (if int64_of (ApplicationUnbondingPeriodSessions p * NumBlocksPerSession p)
         < GetSessionEndToProofWindowCloseBlocks p
      then Inl (Shared ErrSharedParamInvalid) else Inr ())"

definition validateNumPendingSessionsIsPositive :: "shared_params \<Rightarrow> unit res" where
  "validateNumPendingSessionsIsPositive p =
     bindR (GetNumPendingSessions p)
       (\<lambda>n. if n < 1 then Inl (Shared ErrSharedParamInvalid) else Inr ())"

definition Params_ValidateBasic :: "shared_params \<Rightarrow> unit res" where
  "Params_ValidateBasic p =
     bindR (ValidateNumBlocksPerSession (AnyUint64 (NumBlocksPerSession p))) (\<lambda>_.
     bindR (ValidateClaimWindowOpenOffsetBlocks (AnyUint64 (ClaimWindowOpenOffsetBlocks p))) (\<lambda>_.
     bindR (ValidateClaimWindowCloseOffsetBlocks (AnyUint64 (ClaimWindowCloseOffsetBlocks p))) (\<lambda>_.
     bindR (ValidateProofWindowOpenOffsetBlocks (AnyUint64 (ProofWindowOpenOffsetBlocks p))) (\<lambda>_.
     bindR (ValidateProofWindowCloseOffsetBlocks (AnyUint64 (ProofWindowCloseOffsetBlocks p))) (\<lambda>_.
     bindR (ValidateGracePeriodEndOffsetBlocks (AnyUint64 (GracePeriodEndOffsetBlocks p))) (\<lambda>_.
     bindR (ValidateSupplierUnbondingPeriodSessions
              (AnyUint64 (SupplierUnbondingPeriodSessions p))) (\<lambda>_.
     bindR (ValidateApplicationUnbondingPeriodSessions
              (AnyUint64 (ApplicationUnbondingPeriodSessions p))) (\<lambda>_.
     bindR (ValidateGatewayUnbondingPeriodSessions
              (AnyUint64 (GatewayUnbondingPeriodSessions p))) (\<lambda>_.
     bindR (ValidateComputeUnitsToTokensMultiplier
              (AnyUint64 (ComputeUnitsToTokensMultiplier p))) (\<lambda>_.
     bindR (ValidateComputeUnitCostGranularity (AnyUint64 (ComputeUnitCostGranularity p))) (\<lambda>_.
     bindR (validateGracePeriodOffsetBlocksIsLessThanNumBlocksPerSession p) (\<lambda>_.
     bindR (validateClaimWindowOpenOffsetIsAtLeastGracePeriodEndOffset p) (\<lambda>_.
     bindR (validateSupplierUnbondingPeriodIsGreaterThanCumulativeProofWindowCloseBlocks p) (\<lambda>_.
     bindR (validateApplicationUnbondingPeriodIsGreaterThanCumulativeProofWindowCloseBlocks p) (\<lambda>_.
     validateNumPendingSessionsIsPositive p)))))))))))))))"

lemmas validate_defs =
  validateIsUint64_def validateAtLeastOne_def ValidateNumBlocksPerSession_def
  ValidateClaimWindowOpenOffsetBlocks_def ValidateClaimWindowCloseOffsetBlocks_def
  ValidateProofWindowOpenOffsetBlocks_def ValidateProofWindowCloseOffsetBlocks_def
  ValidateGracePeriodEndOffsetBlocks_def ValidateSupplierUnbondingPeriodSessions_def
  ValidateApplicationUnbondingPeriodSessions_def ValidateGatewayUnbondingPeriodSessions_def
  ValidateComputeUnitsToTokensMultiplier_def ValidateComputeUnitCostGranularity_def
  validateClaimWindowOpenOffsetIsAtLeastGracePeriodEndOffset_def
  validateGracePeriodOffsetBlocksIsLessThanNumBlocksPerSession_def
  validateSupplierUnbondingPeriodIsGreaterThanCumulativeProofWindowCloseBlocks_def
  validateApplicationUnbondingPeriodIsGreaterThanCumulativeProofWindowCloseBlocks_def
  validateNumPendingSessionsIsPositive_def

text \<open>Everything \<open>ValidateBasic\<close> accepts, as one condition.\<close>

lemma Params_ValidateBasic_iff:
  "Params_ValidateBasic p = Inr () \<longleftrightarrow>
     0 < NumBlocksPerSession p \<and> 0 < SupplierUnbondingPeriodSessions p \<and>
     0 < ApplicationUnbondingPeriodSessions p \<and> 0 < GatewayUnbondingPeriodSessions p \<and>
     0 < ComputeUnitsToTokensMultiplier p \<and> 0 < ComputeUnitCostGranularity p \<and>
     GracePeriodEndOffsetBlocks p < NumBlocksPerSession p \<and>
     GracePeriodEndOffsetBlocks p \<le> ClaimWindowOpenOffsetBlocks p \<and>
     GetSessionEndToProofWindowCloseBlocks p
       \<le> int64_of (SupplierUnbondingPeriodSessions p * NumBlocksPerSession p) \<and>
     GetSessionEndToProofWindowCloseBlocks p
       \<le> int64_of (ApplicationUnbondingPeriodSessions p * NumBlocksPerSession p) \<and>
     (\<exists>n. GetNumPendingSessions p = Inr n \<and> 1 \<le> n)"
  by (auto simp: Params_ValidateBasic_def validate_defs res_simps not_less not_le
      word_neq_0_conv)

text \<open>Validated, bounded parameters, in integers.\<close>

lemma validated_ints:
  assumes "Params_ValidateBasic p = Inr ()" and "params_bounded p"
  shows "uint (GracePeriodEndOffsetBlocks p) < numBlocks p"
    and "uint (GracePeriodEndOffsetBlocks p) \<le> claimOpenOffset p"
    and "1 \<le> claimOpenOffset p + claimCloseOffset p + proofOpenOffset p + proofCloseOffset p"
proof -
  let ?w = "GetSessionEndToProofWindowCloseBlocks p"
  show "uint (GracePeriodEndOffsetBlocks p) < numBlocks p"
    and "uint (GracePeriodEndOffsetBlocks p) \<le> claimOpenOffset p"
    using assms(1) by (simp_all add: Params_ValidateBasic_iff word_less_def word_le_def)
  have "1 \<le> (?w + numBlocks p - 1) div numBlocks p"
    using assms by (auto simp: Params_ValidateBasic_iff GetNumPendingSessions_eq)
  moreover have "0 < numBlocks p" using assms(2) by (simp add: params_bounded_def)
  ultimately have "numBlocks p \<le> ?w + numBlocks p - 1"
    using pos_imp_zdiv_pos_iff [of "numBlocks p" "?w + numBlocks p - 1"] by simp
  then show "1 \<le> claimOpenOffset p + claimCloseOffset p + proofOpenOffset p + proofCloseOffset p"
    by (simp add: window_offsets_eq [OF assms(2)])
qed

section \<open>Parameter-update messages\<close>

record msg_update_param =
  UpdateParam_Authority :: string
  UpdateParam_Name :: string
  UpdateParam_AsType :: "go_any"

record msg_update_params =
  UpdateParams_Authority :: string
  UpdateParams_Params :: shared_params

text \<open>\<open>GetAsUint64\<close> returns 0 when another variant is set.\<close>

definition GetAsUint64 :: "msg_update_param \<Rightarrow> u64" where
  "GetAsUint64 m = (case UpdateParam_AsType m of AnyUint64 w \<Rightarrow> w | _ \<Rightarrow> 0)"

definition paramTypeIsUint64 :: "msg_update_param \<Rightarrow> unit res" where
  "paramTypeIsUint64 m =
     (case UpdateParam_AsType m of AnyUint64 w \<Rightarrow> Inr ()
      | _ \<Rightarrow> Inl (Shared ErrSharedParamInvalid))"

text \<open>The supported names with their value checks, in the order of the \<open>switch\<close>.\<close>

definition param_validators :: "(string \<times> (go_any \<Rightarrow> unit res)) list" where
  "param_validators =
    [(''num_blocks_per_session'', ValidateNumBlocksPerSession),
     (''grace_period_end_offset_blocks'', ValidateGracePeriodEndOffsetBlocks),
     (''claim_window_open_offset_blocks'', ValidateClaimWindowOpenOffsetBlocks),
     (''claim_window_close_offset_blocks'', ValidateClaimWindowCloseOffsetBlocks),
     (''proof_window_open_offset_blocks'', ValidateProofWindowOpenOffsetBlocks),
     (''proof_window_close_offset_blocks'', ValidateProofWindowCloseOffsetBlocks),
     (''supplier_unbonding_period_sessions'', ValidateSupplierUnbondingPeriodSessions),
     (''application_unbonding_period_sessions'', ValidateApplicationUnbondingPeriodSessions),
     (''gateway_unbonding_period_sessions'', ValidateGatewayUnbondingPeriodSessions),
     (''compute_units_to_tokens_multiplier'', ValidateComputeUnitsToTokensMultiplier),
     (''compute_unit_cost_granularity'', ValidateComputeUnitCostGranularity)]"

definition MsgUpdateParam_ValidateBasic ::
    "(string \<Rightarrow> bool) \<Rightarrow> msg_update_param \<Rightarrow> unit res" where
  "MsgUpdateParam_ValidateBasic isBech32 m =
     (if \<not> isBech32 (UpdateParam_Authority m) then Inl (Shared ErrSharedInvalidAddress)
      else if UpdateParam_AsType m = AnyNil then Inl (Shared ErrSharedParamInvalid)
      else case map_of param_validators (UpdateParam_Name m) of
        None \<Rightarrow> Inl (Shared ErrSharedParamNameInvalid)
      | Some validate \<Rightarrow>
          bindR (paramTypeIsUint64 m) (\<lambda>_. validate (AnyUint64 (GetAsUint64 m))))"

definition MsgUpdateParams_ValidateBasic ::
    "(string \<Rightarrow> bool) \<Rightarrow> msg_update_params \<Rightarrow> unit res" where
  "MsgUpdateParams_ValidateBasic isBech32 m =
     (if \<not> isBech32 (UpdateParams_Authority m) then Inl ErrExt
      else Params_ValidateBasic (UpdateParams_Params m))"

section \<open>Services, endpoints and revenue shares\<close>

datatype rpc_type = UNKNOWN_RPC | GRPC | WEBSOCKET | JSON_RPC | REST | COMET_BFT | RPC_Undeclared int

record supplier_endpoint =
  Url :: string
  RpcType :: rpc_type

record revenue_share =
  RevShareAddress :: string
  RevSharePercentage :: u64

text \<open>Slices of pointers may hold \<open>nil\<close>, and a slice may be \<open>nil\<close> itself.\<close>

record supplier_service_config =
  ServiceId :: string
  Endpoints :: "supplier_endpoint option list"
  RevShare :: "revenue_share option list"

record shared_service =
  Service_Id :: string
  Service_Name :: string
  ComputeUnitsPerRelay :: u64
  Service_OwnerAddress :: string
  Service_Card :: "8 word list option"

definition service_id_char :: "char \<Rightarrow> bool" where
  "service_id_char c \<longleftrightarrow>
     (CHR ''a'' \<le> c \<and> c \<le> CHR ''z'') \<or> (CHR ''A'' \<le> c \<and> c \<le> CHR ''Z'')
     \<or> (CHR ''0'' \<le> c \<and> c \<le> CHR ''9'') \<or> c = CHR ''_'' \<or> c = CHR ''-''"

definition maxServiceIdLength :: nat where "maxServiceIdLength = 42"
definition maxServiceNameLength :: nat where "maxServiceNameLength = 169"
definition MaxServiceMetadataSizeBytes :: nat where "MaxServiceMetadataSizeBytes = 256 * 1024"
definition ComputeUnitsPerRelayMax :: u64 where "ComputeUnitsPerRelayMax = push_bit 20 2"

definition IsValidServiceId :: "string \<Rightarrow> unit res" where
  "IsValidServiceId s =
     (if length s = 0 then Inl (Shared ErrSharedInvalidServiceId)
      else if length s > maxServiceIdLength then Inl (Shared ErrSharedInvalidServiceId)
      else if \<not> list_all service_id_char s then Inl (Shared ErrSharedInvalidServiceId)
      else Inr ())"

definition IsValidServiceName :: "string \<Rightarrow> unit res" where
  "IsValidServiceName s =
     (if length s = 0 then Inr ()
      else if length s > maxServiceNameLength then Inl (Shared ErrSharedInvalidServiceName)
      else if \<not> list_all (\<lambda>c. service_id_char c \<or> c = CHR '' '') s
        then Inl (Shared ErrSharedInvalidServiceName)
      else Inr ())"

definition ValidateComputeUnitsPerRelay :: "u64 \<Rightarrow> unit res" where
  "ValidateComputeUnitsPerRelay n =
     (if n = 0 then Inl (Shared ErrSharedInvalidComputeUnitsPerRelay)
      else if n > ComputeUnitsPerRelayMax then Inl (Shared ErrSharedInvalidComputeUnitsPerRelay)
      else Inr ())"

definition Metadata_ValidateBasic :: "8 word list option \<Rightarrow> unit res" where
  "Metadata_ValidateBasic md =
     (case md of None \<Rightarrow> Inr ()
      | Some bz \<Rightarrow>
          if length bz = 0 then Inl (Shared ErrSharedInvalidServiceMetadata)
          else if length bz > MaxServiceMetadataSizeBytes
            then Inl (Shared ErrSharedInvalidServiceMetadata)
          else Inr ())"

definition Service_ValidateBasic :: "(string \<Rightarrow> bool) \<Rightarrow> shared_service \<Rightarrow> unit res" where
  "Service_ValidateBasic isBech32 s =
     bindR (IsValidServiceId (Service_Id s)) (\<lambda>_.
     bindR (IsValidServiceName (Service_Name s)) (\<lambda>_.
     if \<not> isBech32 (Service_OwnerAddress s) then Inl (Shared ErrSharedInvalidService)
     else bindR (mapErr (\<lambda>_. Shared ErrSharedInvalidService)
            (ValidateComputeUnitsPerRelay (ComputeUnitsPerRelay s))) (\<lambda>_.
          Metadata_ValidateBasic (Service_Card s))))"

text \<open>\<open>url.Parse\<close> is an argument: the scheme and host of a URL, or \<open>None\<close>.\<close>

definition IsValidEndpointUrl :: "(string \<Rightarrow> (string \<times> string) option) \<Rightarrow> string \<Rightarrow> bool" where
  "IsValidEndpointUrl urlParse endpoint =
     (case urlParse endpoint of None \<Rightarrow> False
      | Some (scheme, host) \<Rightarrow>
          scheme \<in> set [''http'', ''https'', ''ws'', ''wss''] \<and> host \<noteq> '''')"

definition RPCTypeIsValid :: "rpc_type \<Rightarrow> bool" where
  "RPCTypeIsValid t =
     (case t of GRPC \<Rightarrow> True | WEBSOCKET \<Rightarrow> True | JSON_RPC \<Rightarrow> True | REST \<Rightarrow> True
      | COMET_BFT \<Rightarrow> True | _ \<Rightarrow> False)"

definition requiredRevSharePercentageSum :: u64 where "requiredRevSharePercentageSum = 100"

text \<open>One round of the revenue-share loop: the addresses seen and the running sum, which is a
  \<open>uint64\<close>.\<close>

definition rev_share_step ::
    "(string \<Rightarrow> bool) \<Rightarrow> string list \<times> u64 \<Rightarrow> revenue_share option \<Rightarrow> (string list \<times> u64) res" where
  "rev_share_step isBech32 st r =
     (case (st, r) of
        (_, None) \<Rightarrow> Inl (Shared ErrSharedInvalidRevShare)
      | ((seen, pctSum), Some rs) \<Rightarrow>
          if RevShareAddress rs = '''' then Inl (Shared ErrSharedInvalidRevShare)
          else if \<not> isBech32 (RevShareAddress rs) then Inl (Shared ErrSharedInvalidRevShare)
          else if RevShareAddress rs \<in> set seen then Inl (Shared ErrSharedInvalidRevShare)
          else if RevSharePercentage rs \<le> 0 \<or> RevSharePercentage rs > 100
            then Inl (Shared ErrSharedInvalidRevShare)
          else Inr (RevShareAddress rs # seen, pctSum + RevSharePercentage rs))"

definition ValidateServiceRevShare ::
    "(string \<Rightarrow> bool) \<Rightarrow> revenue_share option list \<Rightarrow> unit res" where
  "ValidateServiceRevShare isBech32 revShareList =
     (if length revShareList = 0 then Inl (Shared ErrSharedInvalidRevShare)
      else bindR (foldR (rev_share_step isBech32) ([], 0) revShareList) (\<lambda>(seen, pctSum).
        if pctSum \<noteq> requiredRevSharePercentageSum then Inl (Shared ErrSharedInvalidRevShare)
        else Inr ()))"

definition validate_endpoint ::
    "(string \<Rightarrow> (string \<times> string) option) \<Rightarrow> supplier_endpoint option \<Rightarrow> unit res" where
  "validate_endpoint urlParse e =
     (case e of None \<Rightarrow> Inl ErrFmt
      | Some ep \<Rightarrow>
          if Url ep = '''' then Inl ErrFmt
          else if \<not> IsValidEndpointUrl urlParse (Url ep) then Inl ErrFmt
          else if RpcType ep = UNKNOWN_RPC then Inl ErrFmt
          else (case RpcType ep of RPC_Undeclared n \<Rightarrow> Inl ErrFmt | _ \<Rightarrow> Inr ()))"

text \<open>One round of the service loop; the state is the service IDs seen so far.\<close>

definition supplier_service_step ::
    "(string \<Rightarrow> bool) \<Rightarrow> (string \<Rightarrow> (string \<times> string) option) \<Rightarrow> string list
     \<Rightarrow> supplier_service_config option \<Rightarrow> string list res" where
  "supplier_service_step isBech32 urlParse seen c =
     (case c of None \<Rightarrow> Inl ErrFmt
      | Some sc \<Rightarrow>
          bindR (IsValidServiceId (ServiceId sc)) (\<lambda>_.
          if ServiceId sc \<in> set seen then Inl ErrFmt
          else if length (Endpoints sc) = 0 then Inl ErrFmt
          else bindR (forR (validate_endpoint urlParse) (Endpoints sc)) (\<lambda>_.
               bindR (ValidateServiceRevShare isBech32 (RevShare sc)) (\<lambda>_.
               Inr (ServiceId sc # seen)))))"

definition ValidateSupplierServiceConfigs ::
    "(string \<Rightarrow> bool) \<Rightarrow> (string \<Rightarrow> (string \<times> string) option)
     \<Rightarrow> supplier_service_config option list \<Rightarrow> unit res" where
  "ValidateSupplierServiceConfigs isBech32 urlParse services =
     (if length services = 0 then Inl ErrFmt
      else bindR (foldR (supplier_service_step isBech32 urlParse) [] services) (\<lambda>_. Inr ()))"

text \<open>An application service config is its service ID.\<close>

definition ValidateAppServiceConfigs :: "string option list \<Rightarrow> unit res" where
  "ValidateAppServiceConfigs services =
     (if length services \<noteq> 1 then Inl ErrFmt
      else forR (\<lambda>c. case c of None \<Rightarrow> Inl ErrFmt | Some sid \<Rightarrow> IsValidServiceId sid) services)"

end
