(* ===== verification/SharedTypes.thy ===== *)
theory SharedTypes
  imports SharedValidate
begin

text \<open>
  Suppliers and their service-configuration timelines (\<open>x/shared/types/supplier.go\<close>,
  \<open>service_config_update.go\<close>): which configuration is active at which height, and when an
  unstaking supplier finishes unbonding. An amount of coins is a denomination and
  an amount, an unbounded integer (the overflow panic of the 256-bit \<open>math.Int\<close> is not modelled).
\<close>

record coin =
  Denom :: string
  Amount :: int

record service_config_update =
  SCU_OperatorAddress :: string
  SCU_Service :: supplier_service_config
  ActivationHeight :: int
  DeactivationHeight :: int

record supplier =
  OwnerAddress :: string
  OperatorAddress :: string
  Supplier_Stake :: coin
  Services :: "supplier_service_config list"
  Supplier_UnstakeSessionEndHeight :: u64
  ServiceConfigHistory :: "service_config_update list"

definition SCU_IsActive :: "service_config_update \<Rightarrow> int \<Rightarrow> bool" where
  "SCU_IsActive s queryHeight =
     (if ActivationHeight s > queryHeight then False
      else if DeactivationHeight s = 0 then True
      else if DeactivationHeight s \<le> queryHeight then False
      else True)"

definition Supplier_IsUnbonding :: "supplier \<Rightarrow> bool" where
  "Supplier_IsUnbonding s \<longleftrightarrow> Supplier_UnstakeSessionEndHeight s \<noteq> 0"

fun Supplier_history_active ::
    "service_config_update list \<Rightarrow> int \<Rightarrow> string \<Rightarrow> bool" where
  "Supplier_history_active [] queryHeight serviceId = False"
| "Supplier_history_active (u # us) queryHeight serviceId =
     (if ServiceId (SCU_Service u) \<noteq> serviceId
        then Supplier_history_active us queryHeight serviceId
      else if SCU_IsActive u queryHeight then True
      else Supplier_history_active us queryHeight serviceId)"

definition Supplier_IsActive :: "supplier \<Rightarrow> int \<Rightarrow> string \<Rightarrow> bool" where
  "Supplier_IsActive s queryHeight serviceId =
     Supplier_history_active (ServiceConfigHistory s) queryHeight serviceId"

fun GetActiveServiceConfigsFromHistory ::
    "service_config_update list \<Rightarrow> int \<Rightarrow> supplier_service_config list" where
  "GetActiveServiceConfigsFromHistory [] queryHeight = []"
| "GetActiveServiceConfigsFromHistory (u # us) queryHeight =
     (if SCU_IsActive u queryHeight
      then SCU_Service u # GetActiveServiceConfigsFromHistory us queryHeight
      else GetActiveServiceConfigsFromHistory us queryHeight)"

definition Supplier_GetActiveServiceConfigs :: "supplier \<Rightarrow> int \<Rightarrow> supplier_service_config list" where
  "Supplier_GetActiveServiceConfigs s queryHeight =
     GetActiveServiceConfigsFromHistory (ServiceConfigHistory s) queryHeight"

definition HasOwner :: "supplier \<Rightarrow> string \<Rightarrow> bool" where
  "HasOwner s address \<longleftrightarrow> OwnerAddress s = address"

definition HasOperator :: "supplier \<Rightarrow> string \<Rightarrow> bool" where
  "HasOperator s address \<longleftrightarrow> OperatorAddress s = address"

definition GetSupplierUnbondingEndHeight :: "shared_params \<Rightarrow> supplier \<Rightarrow> int" where
  "GetSupplierUnbondingEndHeight p s =
     (let supplierUnbondingPeriodBlocks =
            SupplierUnbondingPeriodSessions p * NumBlocksPerSession p
      in int64_of (Supplier_UnstakeSessionEndHeight s + supplierUnbondingPeriodBlocks))"

section \<open>Activity\<close>

lemma SCU_IsActive_iff:
  "SCU_IsActive u h \<longleftrightarrow>
     ActivationHeight u \<le> h \<and> (DeactivationHeight u = 0 \<or> h < DeactivationHeight u)"
  by (auto simp: SCU_IsActive_def)

lemma GetActiveServiceConfigsFromHistory_eq:
  "GetActiveServiceConfigsFromHistory us h = map SCU_Service (filter (\<lambda>u. SCU_IsActive u h) us)"
  by (induction us) auto

lemma Supplier_history_active_iff:
  "Supplier_history_active us h sid \<longleftrightarrow>
     (\<exists>u \<in> set us. ServiceId (SCU_Service u) = sid \<and> SCU_IsActive u h)"
  by (induction us) auto

lemma uint_mult_small:
  assumes "uint (a::u64) * uint b < 2 ^ 64"
  shows "uint (a * b) = uint a * uint b"
  using assms by (simp add: uint_word_ariths mod_pos_pos_trivial)

lemma uint_add_small:
  assumes "uint (a::u64) + uint b < 2 ^ 64"
  shows "uint (a + b) = uint a + uint b"
  using assms by (simp add: uint_word_ariths mod_pos_pos_trivial)

lemma GetSupplierUnbondingEndHeight_eq:
  assumes "uint (SupplierUnbondingPeriodSessions p) < 2 ^ 16" and "params_bounded p"
    and "uint (Supplier_UnstakeSessionEndHeight s) < 2 ^ 62"
  shows "GetSupplierUnbondingEndHeight p s =
    uint (Supplier_UnstakeSessionEndHeight s)
      + uint (SupplierUnbondingPeriodSessions p) * numBlocks p"
proof -
  let ?k = "uint (SupplierUnbondingPeriodSessions p)" and ?n = "numBlocks p"
  have n: "0 \<le> ?n" "?n \<le> 2 ^ 32" using assms(2) by (auto simp: params_bounded_def)
  have "?k * ?n \<le> 2 ^ 16 * 2 ^ 32" using assms(1) n by (intro mult_mono) auto
  then have k: "?k * ?n \<le> 2 ^ 48" by simp
  have m: "uint (SupplierUnbondingPeriodSessions p * NumBlocksPerSession p) = ?k * ?n"
    using k by (intro uint_mult_small) simp
  have a: "uint (Supplier_UnstakeSessionEndHeight s
      + SupplierUnbondingPeriodSessions p * NumBlocksPerSession p)
      = uint (Supplier_UnstakeSessionEndHeight s) + ?k * ?n"
    using k assms(3) m by (subst uint_add_small) auto
  moreover from this have "int64_of (Supplier_UnstakeSessionEndHeight s
      + SupplierUnbondingPeriodSessions p * NumBlocksPerSession p)
      = uint (Supplier_UnstakeSessionEndHeight s
      + SupplierUnbondingPeriodSessions p * NumBlocksPerSession p)"
    using k assms(3) by (intro int64_of_id) simp
  ultimately show ?thesis by (simp add: GetSupplierUnbondingEndHeight_def Let_def)
qed

end
