(* ===== verification/SharedKeeper.thy ===== *)
theory SharedKeeper
  imports SharedTypes
begin

text \<open>
  The shared module's keeper (\<open>x/shared/keeper\<close>): live parameters, the parameter history
  keyed by effective height, the governance handlers and the end blocker that promotes a pending
  epoch. The session grid resolved through the history is shown to be a \<open>session_grid\<close>.
\<close>

section \<open>State\<close>

text \<open>
  A history entry as it is read back: \<open>HEntry effectiveHeight params\<close>, where \<open>params\<close>
  may be nil, or bytes that no longer unmarshal. Keys are big-endian \<open>uint64\<close>, so their
  byte order is the unsigned order.
\<close>

datatype 'p hist_entry = HCorrupt | HEntry int "'p option"

record shared_state =
  LiveParams :: "shared_params option"
  ParamsHistory :: "(u64, shared_params hist_entry) kv"

definition ParamsHistoryKey :: "int \<Rightarrow> u64" where
  "ParamsHistoryKey effectiveHeight = uint64_of effectiveHeight"

definition GetParams :: "shared_state \<Rightarrow> shared_params" where
  "GetParams st = (case LiveParams st of None \<Rightarrow> zeroParams | Some p \<Rightarrow> p)"

definition SetParams :: "shared_params \<Rightarrow> shared_state \<Rightarrow> shared_state" where
  "SetParams p st = st\<lparr>LiveParams := Some p\<rparr>"

definition SetParamsAtHeight :: "int \<Rightarrow> shared_params \<Rightarrow> shared_state \<Rightarrow> shared_state" where
  "SetParamsAtHeight effectiveHeight p st =
     st\<lparr>ParamsHistory := kv_set (ParamsHistoryKey effectiveHeight)
          (HEntry effectiveHeight (Some p)) (ParamsHistory st)\<rparr>"

definition GetParamsAtHeight :: "shared_state \<Rightarrow> int \<Rightarrow> shared_params" where
  "GetParamsAtHeight st queryHeight =
     (case kv_rev_below (uint64_of (i64 (queryHeight + 1))) (ParamsHistory st) of
        (k, HEntry h (Some p)) # rest \<Rightarrow> p
      | _ \<Rightarrow> GetParams st)"

definition GetParamsHistoryEntry :: "shared_state \<Rightarrow> int \<Rightarrow> shared_params option" where
  "GetParamsHistoryEntry st effectiveHeight =
     (case map_of (ParamsHistory st) (ParamsHistoryKey effectiveHeight) of
        Some (HEntry h (Some p)) \<Rightarrow> Some p
      | _ \<Rightarrow> None)"

definition HasParamsHistory :: "shared_state \<Rightarrow> bool" where
  "HasParamsHistory st \<longleftrightarrow> ParamsHistory st \<noteq> []"

text \<open>The callback returns the caller's state and whether to stop; unreadable and empty
  entries are skipped.\<close>

fun iterate_history ::
    "('s \<Rightarrow> int \<Rightarrow> shared_params \<Rightarrow> 's \<times> bool) \<Rightarrow> 's \<Rightarrow> (u64 \<times> shared_params hist_entry) list \<Rightarrow> 's"
where
  "iterate_history fn s [] = s"
| "iterate_history fn s ((k, HCorrupt) # es) = iterate_history fn s es"
| "iterate_history fn s ((k, HEntry h None) # es) = iterate_history fn s es"
| "iterate_history fn s ((k, HEntry h (Some p)) # es) =
     (case fn s h p of (s', stop) \<Rightarrow> if stop then s' else iterate_history fn s' es)"

definition IterateParamsHistoryReverse ::
    "shared_state \<Rightarrow> int \<Rightarrow> ('s \<Rightarrow> int \<Rightarrow> shared_params \<Rightarrow> 's \<times> bool) \<Rightarrow> 's \<Rightarrow> 's" where
  "IterateParamsHistoryReverse st fromHeight fn s =
     iterate_history fn s (kv_rev_below (uint64_of (i64 (fromHeight + 1))) (ParamsHistory st))"

fun all_history :: "(u64 \<times> shared_params hist_entry) list \<Rightarrow> (int \<times> shared_params option) list" where
  "all_history [] = []"
| "all_history ((k, HCorrupt) # es) = all_history es"
| "all_history ((k, HEntry h p) # es) = (h, p) # all_history es"

definition GetAllParamsHistory :: "shared_state \<Rightarrow> (int \<times> shared_params option) list" where
  "GetAllParamsHistory st = all_history (ParamsHistory st)"

section \<open>Queries\<close>

definition Query_ParamsAtHeight :: "shared_state \<Rightarrow> int option \<Rightarrow> shared_params res" where
  "Query_ParamsAtHeight st req =
     (case req of None \<Rightarrow> Inl (Status InvalidArgument ErrFmt)
      | Some height \<Rightarrow>
          if height < 0 then Inl (Status InvalidArgument ErrFmt)
          else Inr (GetParamsAtHeight st height))"

text \<open>The keeper's session helpers read the live parameters.\<close>

definition Keeper_GetSessionStartHeight :: "shared_state \<Rightarrow> int \<Rightarrow> int res" where
  "Keeper_GetSessionStartHeight st queryHeight = GetSessionStartHeight (GetParams st) queryHeight"

definition Keeper_GetSessionEndHeight :: "shared_state \<Rightarrow> int \<Rightarrow> int res" where
  "Keeper_GetSessionEndHeight st queryHeight = GetSessionEndHeight (GetParams st) queryHeight"

definition Keeper_GetSessionNumber :: "shared_state \<Rightarrow> int \<Rightarrow> int res" where
  "Keeper_GetSessionNumber st queryHeight = GetSessionNumber (GetParams st) queryHeight"

definition Keeper_GetProofWindowCloseHeight :: "shared_state \<Rightarrow> int \<Rightarrow> int res" where
  "Keeper_GetProofWindowCloseHeight st queryHeight =
     GetProofWindowCloseHeight (GetParams st) queryHeight"

section \<open>Recording a parameter change\<close>

definition sessionTimingParamsChanged :: "shared_params \<Rightarrow> shared_params \<Rightarrow> bool" where
  "sessionTimingParamsChanged live next' \<longleftrightarrow>
     NumBlocksPerSession live \<noteq> NumBlocksPerSession next'
   \<or> GracePeriodEndOffsetBlocks live \<noteq> GracePeriodEndOffsetBlocks next'
   \<or> ClaimWindowOpenOffsetBlocks live \<noteq> ClaimWindowOpenOffsetBlocks next'
   \<or> ClaimWindowCloseOffsetBlocks live \<noteq> ClaimWindowCloseOffsetBlocks next'
   \<or> ProofWindowOpenOffsetBlocks live \<noteq> ProofWindowOpenOffsetBlocks next'
   \<or> ProofWindowCloseOffsetBlocks live \<noteq> ProofWindowCloseOffsetBlocks next'"

text \<open>Seeding an empty history with the genesis epoch, anchored at block 1.\<close>

definition seed_history :: "shared_state \<Rightarrow> shared_state" where
  "seed_history st =
     (if \<not> HasParamsHistory st
      then SetParamsAtHeight 1
             ((GetParams st)\<lparr>SessionGridAnchorHeight := 1, SessionNumberAtAnchor := 1\<rparr>) st
      else st)"

text \<open>Stamping the derived grid fields: the anchor moves only when the session length does.\<close>

definition stamp_anchor :: "shared_params \<Rightarrow> int \<Rightarrow> int \<Rightarrow> shared_params \<Rightarrow> shared_params res" where
  "stamp_anchor effectiveParams currentHeight nextSessionStartHeight newParams =
     (if NumBlocksPerSession newParams \<noteq> NumBlocksPerSession effectiveParams
      then bindR (GetSessionNumber effectiveParams currentHeight) (\<lambda>n.
             Inr (newParams\<lparr>SessionGridAnchorHeight := uint64_of nextSessionStartHeight,
                            SessionNumberAtAnchor := uint64_of (i64 (n + 1))\<rparr>))
      else Inr (newParams\<lparr>SessionGridAnchorHeight := SessionGridAnchorHeight effectiveParams,
                          SessionNumberAtAnchor := SessionNumberAtAnchor effectiveParams\<rparr>))"

definition recordParamsHistory :: "int \<Rightarrow> shared_params \<Rightarrow> shared_state \<Rightarrow> shared_state res" where
  "recordParamsHistory currentHeight newParams st =
     (let st1 = seed_history st;
          effectiveParams = GetParamsAtHeight st1 currentHeight
      in bindR (GetSessionEndHeight effectiveParams currentHeight) (\<lambda>currentSessionEndHeight.
         let nextSessionStartHeight = i64 (currentSessionEndHeight + 1)
         in bindR (stamp_anchor effectiveParams currentHeight nextSessionStartHeight newParams)
              (\<lambda>newParams'.
            let st2 = SetParamsAtHeight nextSessionStartHeight newParams' st1;
                liveParams = GetParams st2
            in Inr (if \<not> sessionTimingParamsChanged liveParams newParams'
                    then SetParams (newParams'
                           \<lparr>SessionGridAnchorHeight := SessionGridAnchorHeight liveParams,
                            SessionNumberAtAnchor := SessionNumberAtAnchor liveParams\<rparr>) st2
                    else st2))))"

section \<open>Governance handlers\<close>

text \<open>The \<open>switch\<close> on the parameter name.\<close>

definition patch_param :: "string \<Rightarrow> u64 \<Rightarrow> shared_params \<Rightarrow> shared_params option" where
  "patch_param name v p =
     (if name = ''num_blocks_per_session'' then Some (p\<lparr>NumBlocksPerSession := v\<rparr>)
      else if name = ''grace_period_end_offset_blocks''
        then Some (p\<lparr>GracePeriodEndOffsetBlocks := v\<rparr>)
      else if name = ''claim_window_open_offset_blocks''
        then Some (p\<lparr>ClaimWindowOpenOffsetBlocks := v\<rparr>)
      else if name = ''claim_window_close_offset_blocks''
        then Some (p\<lparr>ClaimWindowCloseOffsetBlocks := v\<rparr>)
      else if name = ''proof_window_open_offset_blocks''
        then Some (p\<lparr>ProofWindowOpenOffsetBlocks := v\<rparr>)
      else if name = ''proof_window_close_offset_blocks''
        then Some (p\<lparr>ProofWindowCloseOffsetBlocks := v\<rparr>)
      else if name = ''supplier_unbonding_period_sessions''
        then Some (p\<lparr>SupplierUnbondingPeriodSessions := v\<rparr>)
      else if name = ''application_unbonding_period_sessions''
        then Some (p\<lparr>ApplicationUnbondingPeriodSessions := v\<rparr>)
      else if name = ''gateway_unbonding_period_sessions''
        then Some (p\<lparr>GatewayUnbondingPeriodSessions := v\<rparr>)
      else if name = ''compute_units_to_tokens_multiplier''
        then Some (p\<lparr>ComputeUnitsToTokensMultiplier := v\<rparr>)
      else if name = ''compute_unit_cost_granularity''
        then Some (p\<lparr>ComputeUnitCostGranularity := v\<rparr>)
      else None)"

definition UpdateParam ::
    "(string \<Rightarrow> bool) \<Rightarrow> string \<Rightarrow> int \<Rightarrow> msg_update_param \<Rightarrow> shared_state \<Rightarrow> shared_state res" where
  "UpdateParam isBech32 authority height msg st =
     bindR (mapErr (Status InvalidArgument) (MsgUpdateParam_ValidateBasic isBech32 msg)) (\<lambda>_.
     if authority \<noteq> UpdateParam_Authority msg
       then Inl (Status InvalidArgument (Shared ErrSharedInvalidSigner))
     else case patch_param (UpdateParam_Name msg) (GetAsUint64 msg) (GetParams st) of
       None \<Rightarrow> Inl (Status InvalidArgument (Shared ErrSharedParamInvalid))
     | Some params \<Rightarrow>
         bindR (mapErr (Status InvalidArgument) (Params_ValidateBasic params)) (\<lambda>_.
         mapErr (Status Internal) (recordParamsHistory height params st)))"

definition UpdateParams ::
    "(string \<Rightarrow> bool) \<Rightarrow> string \<Rightarrow> int \<Rightarrow> msg_update_params \<Rightarrow> shared_state \<Rightarrow> shared_state res" where
  "UpdateParams isBech32 authority height msg st =
     bindR (mapErr (Status InvalidArgument) (MsgUpdateParams_ValidateBasic isBech32 msg)) (\<lambda>_.
     if authority \<noteq> UpdateParams_Authority msg
       then Inl (Status PermissionDenied (Shared ErrSharedInvalidSigner))
     else mapErr (Status Internal) (recordParamsHistory height (UpdateParams_Params msg) st))"

section \<open>The end blocker\<close>

definition EndBlocker :: "int \<Rightarrow> shared_state \<Rightarrow> shared_state res" where
  "EndBlocker currentHeight st =
     (case GetParamsHistoryEntry st currentHeight of
        None \<Rightarrow> Inr st
      | Some newParams \<Rightarrow>
          (case Params_ValidateBasic newParams of
             Inl Panic \<Rightarrow> Inl Panic
           | Inl e \<Rightarrow> Inr st
           | Inr u \<Rightarrow> Inr (SetParams newParams st)))"

end
