(* ===== verification/SharedGrid.thy ===== *)
theory SharedGrid
  imports SharedKeeper
begin

text \<open>
  The anchored session grid across parameter changes. The history of a well-formed keeper state
  is a list of epochs (effective height, parameters); the grid resolved through it is a
  \<open>session_grid\<close>, and every governance update and end blocker keeps it one.
\<close>

section \<open>Epoch lists\<close>

type_synonym epochs = "(int \<times> shared_params) list"

definition epoch_at :: "epochs \<Rightarrow> int \<Rightarrow> shared_params" where
  "epoch_at es h = snd (last (filter (\<lambda>e. fst e \<le> h) es))"

definition hist_start :: "epochs \<Rightarrow> int \<Rightarrow> int" where
  "hist_start es h = sess_start (epoch_at es h) h"

definition hist_end :: "epochs \<Rightarrow> int \<Rightarrow> int" where
  "hist_end es h = sess_end (epoch_at es h) h"

definition hist_number :: "epochs \<Rightarrow> int \<Rightarrow> int" where
  "hist_number es h = sess_number (epoch_at es h) h"

definition entry_ok :: "int \<times> shared_params \<Rightarrow> bool" where
  "entry_ok e \<longleftrightarrow> 1 \<le> fst e \<and> epoch_ok (snd e) \<and> epoch_first (snd e) \<le> fst e \<and>
     sess_start (snd e) (fst e) = fst e \<and> sess_number (snd e) (fst e) \<le> fst e"

definition follows :: "int \<times> shared_params \<Rightarrow> int \<times> shared_params \<Rightarrow> bool" where
  "follows e f \<longleftrightarrow> fst e < fst f \<and> sess_end (snd e) (fst f - 1) = fst f - 1 \<and>
     sess_number (snd f) (fst f) = sess_number (snd e) (fst f - 1) + 1"

definition epochs_ok :: "epochs \<Rightarrow> bool" where
  "epochs_ok es \<longleftrightarrow> es \<noteq> [] \<and> fst (hd es) = 1 \<and> (\<forall>e \<in> set es. entry_ok e)
     \<and> successively follows es"

lemma epochs_sorted: "successively follows es \<Longrightarrow> sorted_wrt (\<lambda>e f. fst e < fst f) es"
proof -
  assume "successively follows es"
  then have "successively (\<lambda>e f. fst e < fst f) es"
    by (rule successively_mono) (auto simp: follows_def)
  then show ?thesis
    by (subst (asm) successively_conv_sorted_wrt) (auto simp: transp_def)
qed

lemma epoch_at_split:
  assumes "sorted_wrt (\<lambda>e f. fst e < fst f) (xs @ (h0, p) # ys)" and "h0 \<le> h"
    and "ys = [] \<or> h < fst (hd ys)"
  shows "epoch_at (xs @ (h0, p) # ys) h = p"
proof -
  have "\<forall>e \<in> set ys. h < fst e"
    using assms(1,3) by (cases ys) (auto simp: sorted_wrt_append)
  then have "filter (\<lambda>e. fst e \<le> h) ys = []" by (auto simp: filter_empty_conv)
  then show ?thesis using assms(2) by (simp add: epoch_at_def)
qed

text \<open>Every height from 1 on has an owning epoch.\<close>

lemma split_at_height:
  fixes es :: epochs
  assumes "es \<noteq> []" and "fst (hd es) \<le> h"
  obtains xs h0 p ys where "es = xs @ (h0, p) # ys" and "h0 \<le> h"
    and "ys = [] \<or> h < fst (hd ys)"
  using assms
proof (induction es arbitrary: thesis)
  case Nil
  then show ?case by simp
next
  case (Cons e es)
  show ?case
  proof (cases "es \<noteq> [] \<and> fst (hd es) \<le> h")
    case True
    obtain xs h0 p ys where s: "es = xs @ (h0, p) # ys" "h0 \<le> h" "ys = [] \<or> h < fst (hd ys)"
      using Cons.IH True by blast
    show ?thesis using s by (intro Cons.prems(1) [of "e # xs" h0 p ys]) auto
  next
    case False
    then have "es = [] \<or> h < fst (hd es)" by auto
    then show ?thesis
      using Cons.prems(3) by (intro Cons.prems(1) [of "[]" "fst e" "snd e" es]) auto
  qed
qed

lemma epochs_split:
  assumes "epochs_ok es" and "1 \<le> h"
  obtains xs h0 p ys where "es = xs @ (h0, p) # ys" and "h0 \<le> h"
    and "ys = [] \<or> h < fst (hd ys)" and "epoch_at es h = p" and "entry_ok (h0, p)"
    and "ys \<noteq> [] \<Longrightarrow> follows (h0, p) (hd ys) \<and> entry_ok (hd ys)"
proof -
  have "es \<noteq> []" "fst (hd es) \<le> h" using assms by (auto simp: epochs_ok_def)
  then obtain xs h0 p ys where s: "es = xs @ (h0, p) # ys" "h0 \<le> h" "ys = [] \<or> h < fst (hd ys)"
    by (rule split_at_height)
  have so: "sorted_wrt (\<lambda>e f. fst e < fst f) es"
    using assms(1) by (intro epochs_sorted) (simp add: epochs_ok_def)
  then have "epoch_at es h = p" using s by (simp add: epoch_at_split)
  moreover have "entry_ok (h0, p)" using assms(1) s by (simp add: epochs_ok_def)
  moreover have "ys \<noteq> [] \<Longrightarrow> follows (h0, p) (hd ys) \<and> entry_ok (hd ys)"
    using assms(1) s by (auto simp: epochs_ok_def successively_append_iff successively_Cons)
  ultimately show ?thesis using that s by blast
qed

lemma entry_start_ge:
  assumes "entry_ok (h0, p)" and "h0 \<le> h"
  shows "h0 \<le> sess_start p h"
proof -
  have p: "epoch_ok p" "epoch_first p \<le> h0" "sess_start p h0 = h0"
    using assms(1) by (auto simp: entry_ok_def)
  show ?thesis
  proof (cases "sess_start p h0 = sess_start p h")
    case True
    then show ?thesis using p by simp
  next
    case False
    then show ?thesis
      using epoch.later_session [OF p(1,2) assms(2)] epoch.le_end [OF p(1,2)] by simp
  qed
qed

lemma entry_end_less:
  assumes "entry_ok (h0, p)" and "h0 \<le> h" and "follows (h0, p) f" and "h < fst f"
  shows "sess_end p h < fst f"
proof -
  have p: "epoch_ok p" "epoch_first p \<le> h" using assms(1,2) by (auto simp: entry_ok_def)
  have e: "sess_end p (fst f - 1) = fst f - 1" using assms(3) by (simp add: follows_def)
  have f: "epoch_first p \<le> fst f - 1" using p(2) assms(4) by simp
  show ?thesis
  proof (cases "sess_start p h = sess_start p (fst f - 1)")
    case True
    then have "sess_end p h = sess_end p (fst f - 1)" by (simp add: sess_end_def)
    with e show ?thesis by simp
  next
    case False
    then show ?thesis
      using epoch.later_session [OF p, of "fst f - 1"] assms(4) epoch.start_le [OF p(1) f]
      by simp
  qed
qed

text \<open>Heights of the same session share the owning epoch.\<close>

lemma epoch_at_same:
  assumes "epochs_ok es" "1 \<le> h" "hist_start es h \<le> h'" "h' \<le> hist_end es h"
  shows "epoch_at es h' = epoch_at es h" and "1 \<le> h'"
proof -
  obtain xs h0 p ys where s: "es = xs @ (h0, p) # ys" "h0 \<le> h" "ys = [] \<or> h < fst (hd ys)"
    "epoch_at es h = p" "entry_ok (h0, p)" "ys \<noteq> [] \<Longrightarrow> follows (h0, p) (hd ys) \<and> entry_ok (hd ys)"
    using assms(1,2) by (rule epochs_split) blast
  have h0: "h0 \<le> h'" using entry_start_ge [OF s(5,2)] assms(3) s(4) by (simp add: hist_start_def)
  then show "1 \<le> h'" using s(5) by (simp add: entry_ok_def)
  have "ys = [] \<or> h' < fst (hd ys)"
    using s(3,4,6) entry_end_less [OF s(5,2), of "hd ys"] assms(4)
    by (cases "ys = []") (auto simp: hist_end_def)
  moreover have "sorted_wrt (\<lambda>e f. fst e < fst f) es"
    using assms(1) by (intro epochs_sorted) (simp add: epochs_ok_def)
  ultimately show "epoch_at es h' = epoch_at es h"
    using s(1,4) h0 epoch_at_split [of xs h0 p ys h'] by simp
qed

lemma epoch_at_laws:
  assumes "epochs_ok es" "1 \<le> h"
  shows "epoch_ok (epoch_at es h)" and "epoch_first (epoch_at es h) \<le> h"
    and "1 \<le> hist_start es h"
proof -
  obtain xs h0 p ys where s: "h0 \<le> h" "epoch_at es h = p" "entry_ok (h0, p)"
    using assms by (rule epochs_split) blast
  then show "epoch_ok (epoch_at es h)" and "epoch_first (epoch_at es h) \<le> h"
    by (auto simp: entry_ok_def)
  show "1 \<le> hist_start es h"
    using entry_start_ge [OF s(3,1)] s(2,3) by (simp add: hist_start_def entry_ok_def)
qed

text \<open>The block after a session is the first of the next, also where a new epoch begins.\<close>

lemma epoch_at_next:
  assumes "epochs_ok es" "1 \<le> h"
  shows "hist_start es (hist_end es h + 1) = hist_end es h + 1"
    and "hist_number es (hist_end es h + 1) = hist_number es h + 1"
proof -
  obtain xs h0 p ys where s: "es = xs @ (h0, p) # ys" "h0 \<le> h" "ys = [] \<or> h < fst (hd ys)"
    "epoch_at es h = p" "entry_ok (h0, p)" "ys \<noteq> [] \<Longrightarrow> follows (h0, p) (hd ys) \<and> entry_ok (hd ys)"
    using assms by (rule epochs_split) blast
  let ?n = "sess_end p h + 1"
  have p: "epoch_ok p" "epoch_first p \<le> h" using s(2,5) by (auto simp: entry_ok_def)
  have so: "sorted_wrt (\<lambda>e f. fst e < fst f) es"
    using assms(1) by (intro epochs_sorted) (simp add: epochs_ok_def)
  have n: "hist_end es h + 1 = ?n" by (simp add: hist_end_def s(4))
  have h0: "h0 \<le> ?n" using s(2) epoch.le_end [OF p] by simp
  have "hist_start es ?n = ?n \<and> hist_number es ?n = sess_number p h + 1"
  proof (cases "ys \<noteq> [] \<and> fst (hd ys) = ?n")
    case True
    then obtain h1 p1 zs where ys: "ys = (h1, p1) # zs" and h1: "h1 = ?n"
      by (cases ys) auto
    have fl: "follows (h0, p) (h1, p1)" and ok1: "entry_ok (h1, p1)"
      using s(6) ys by auto
    have "zs = [] \<or> h1 < fst (hd zs)"
      using so s(1) ys by (cases zs) (auto simp: sorted_wrt_append)
    then have e: "epoch_at es ?n = p1"
      using epoch_at_split [of "xs @ [(h0, p)]" h1 p1 zs ?n] so s(1) ys h1 by simp
    have "sess_number p (sess_end p h) = sess_number p h"
      using epoch.same [OF p, of "sess_end p h"] epoch.start_le [OF p] epoch.le_end [OF p] by simp
    then show ?thesis
      using fl ok1 h1 by (simp add: hist_start_def hist_number_def e follows_def entry_ok_def)
  next
    case False
    have "ys = [] \<or> ?n < fst (hd ys)"
      using s(3,6) False entry_end_less [OF s(5,2), of "hd ys"] by (cases "ys = []") auto
    then have "epoch_at es ?n = p" using epoch_at_split [of xs h0 p ys ?n] so s(1) h0 by simp
    then show ?thesis
      using epoch_next [OF p] by (simp add: hist_start_def hist_number_def)
  qed
  then show "hist_start es (hist_end es h + 1) = hist_end es h + 1"
    and "hist_number es (hist_end es h + 1) = hist_number es h + 1"
    by (simp_all add: n) (simp add: hist_number_def s(4))
qed

interpretation hist: session_grid epochs_ok "\<lambda>_. 1" hist_start hist_end hist_number
proof unfold_locales
  fix es :: epochs and h h' :: int
  assume ok: "epochs_ok es" and h: "1 \<le> h"
  note l = epoch_at_laws [OF ok h]
  show "1 \<le> hist_start es h" by (rule l(3))
  show "hist_start es h \<le> h" and "h \<le> hist_end es h"
    using epoch.start_le [OF l(1,2)] epoch.le_end [OF l(1,2)]
    by (simp_all add: hist_start_def hist_end_def)
  show "hist_start es (hist_end es h + 1) = hist_end es h + 1"
    and "hist_number es (hist_end es h + 1) = hist_number es h + 1"
    using epoch_at_next [OF ok h] by simp_all
  assume "hist_start es h \<le> h'" and "h' \<le> hist_end es h"
  then show "hist_start es h' = hist_start es h \<and> hist_end es h' = hist_end es h
      \<and> hist_number es h' = hist_number es h"
    using epoch_at_same [OF ok h] epoch.same [OF l(1,2), of h']
    by (simp add: hist_start_def hist_end_def hist_number_def)
qed

section \<open>The keeper's state as an epoch list\<close>

text \<open>The history as the store holds it, and the epochs a state stands for: before the first
  recorded change the live parameters are the only epoch.\<close>

definition repr :: "epochs \<Rightarrow> (u64, shared_params hist_entry) kv" where
  "repr es = map (\<lambda>(h, p). (uint64_of h, HEntry h (Some p))) es"

definition heights_ok :: "epochs \<Rightarrow> bool" where
  "heights_ok es \<longleftrightarrow> (\<forall>e \<in> set es. height_bounded (fst e))"

lemma uint64_of_height:
  "height_bounded h \<Longrightarrow> height_bounded h' \<Longrightarrow> uint64_of h < uint64_of h' \<longleftrightarrow> h < h'"
  "height_bounded h \<Longrightarrow> height_bounded h' \<Longrightarrow> uint64_of h = uint64_of h' \<longleftrightarrow> h = h'"
  by (simp_all add: height_bounded_def uint64_of_less_iff uint64_of_eq_iff)

lemma filter_repr:
  assumes "heights_ok es" and "height_bounded h"
  shows "filter (\<lambda>e. fst e < uint64_of (h + 1)) (repr es) = repr (filter (\<lambda>e. fst e \<le> h) es)"
  using assms
proof (induction es)
  case Nil
  then show ?case by (simp add: repr_def)
next
  case (Cons e es)
  have "uint64_of (fst e) < uint64_of (h + 1) \<longleftrightarrow> fst e \<le> h"
    using Cons.prems
    by (subst uint64_of_less_iff) (auto simp: heights_ok_def height_bounded_def)
  then show ?case using Cons by (auto simp: repr_def heights_ok_def split_def)
qed

lemma GetParamsAtHeight_repr:
  assumes "ParamsHistory st = repr es" and "heights_ok es" and "height_bounded h"
    and "es \<noteq> []" and "fst (hd es) \<le> h"
  shows "GetParamsAtHeight st h = epoch_at es h"
proof -
  obtain xs h0 p ys where s: "es = xs @ (h0, p) # ys" "h0 \<le> h"
    using assms(4,5) by (rule split_at_height)
  then have ne: "filter (\<lambda>e. fst e \<le> h) es \<noteq> []" by simp
  then obtain zs h1 q where z: "filter (\<lambda>e. fst e \<le> h) es = zs @ [(h1, q)]"
    by (metis append_butlast_last_id prod.exhaust)
  have "i64 (h + 1) = h + 1"
    using assms(3) by (intro i64_id) (simp add: in_i64_def height_bounded_def)
  then have "kv_rev_below (uint64_of (i64 (h + 1))) (ParamsHistory st)
      = (uint64_of h1, HEntry h1 (Some q)) # rev (repr zs)"
    using assms z by (simp add: kv_rev_below_def filter_repr) (simp add: repr_def)
  then show ?thesis by (simp add: GetParamsAtHeight_def epoch_at_def z)
qed

lemma kv_set_repr_last:
  assumes "heights_ok xs" and "height_bounded n" and "\<forall>e \<in> set xs. fst e < n"
  shows "kv_set (uint64_of n) (HEntry n (Some q)) (repr xs) = repr (xs @ [(n, q)])"
    and "kv_set (uint64_of n) (HEntry n (Some q)) (repr (xs @ [(n, r)])) = repr (xs @ [(n, q)])"
  using assms
  by (induction xs)
    (auto simp: repr_def heights_ok_def uint64_of_height split_def dest: order.strict_implies_not_eq)

lemma GetParamsHistoryEntry_repr:
  assumes "ParamsHistory st = repr es" and "heights_ok es" and "height_bounded h"
  shows "GetParamsHistoryEntry st h = map_of es h"
proof -
  have "map_of (repr es) (uint64_of h) = map_option (\<lambda>p. HEntry h (Some p)) (map_of es h)"
    using assms(2)
    by (induction es)
      (auto simp: repr_def heights_ok_def dest: uint64_of_height(2) [OF assms(3), THEN iffD1])
  then show ?thesis
    using assms(1)
    by (cases "map_of es h") (simp_all add: GetParamsHistoryEntry_def ParamsHistoryKey_def)
qed

definition genesis_epoch :: "shared_params \<Rightarrow> shared_params" where
  "genesis_epoch p = p\<lparr>SessionGridAnchorHeight := 1, SessionNumberAtAnchor := 1\<rparr>"

definition state_epochs :: "shared_state \<Rightarrow> epochs" where
  "state_epochs st =
     (if ParamsHistory st = [] then [(1, genesis_epoch (GetParams st))]
      else map (\<lambda>(k, e). case e of HEntry h (Some p) \<Rightarrow> (h, p) | _ \<Rightarrow> (0, zeroParams))
        (ParamsHistory st))"

lemma state_epochs_repr: "ParamsHistory st = repr es \<Longrightarrow> es \<noteq> [] \<Longrightarrow> state_epochs st = es"
  by (auto simp: state_epochs_def repr_def split_def comp_def intro!: map_idI)

definition params_good :: "shared_params \<Rightarrow> bool" where
  "params_good p \<longleftrightarrow> params_bounded p \<and> Params_ValidateBasic p = Inr ()"

text \<open>
  The invariant of the keeper at block \<open>c\<close>. The history is readable and its epochs form a
  grid; an epoch that is not yet effective waits at the next session boundary; and live
  parameters of a chain without history describe the block-1 grid.
\<close>

definition grid_inv :: "int \<Rightarrow> shared_state \<Rightarrow> bool" where
  "grid_inv c st \<longleftrightarrow>
     (let es = state_epochs st
      in (ParamsHistory st = [] \<or> ParamsHistory st = repr es) \<and> epochs_ok es \<and>
         heights_ok es \<and> (\<forall>e \<in> set es. params_good (snd e)) \<and>
         (\<forall>e \<in> set es. fst e \<le> c \<or> fst e = hist_end es c + 1) \<and>
         (ParamsHistory st = [] \<longrightarrow> uint (SessionGridAnchorHeight (GetParams st)) \<le> 1
            \<and> uint (SessionNumberAtAnchor (GetParams st)) \<le> 1))"

text \<open>Blocks at which no height computed by the handlers leaves the bounded range.\<close>

definition chain_height :: "int \<Rightarrow> bool" where
  "chain_height c \<longleftrightarrow> 1 \<le> c \<and> c < 2 ^ 61"

lemma chain_height_bounded: "chain_height c \<Longrightarrow> height_bounded c"
  by (simp add: chain_height_def height_bounded_def)

text \<open>The grid depends on three fields only.\<close>

lemma grid_fields:
  assumes "NumBlocksPerSession p = NumBlocksPerSession q"
    and "SessionGridAnchorHeight p = SessionGridAnchorHeight q"
    and "SessionNumberAtAnchor p = SessionNumberAtAnchor q"
  shows "sess_start p = sess_start q" "sess_end p = sess_end q" "sess_number p = sess_number q"
    "epoch_first p = epoch_first q" "epoch_ok p = epoch_ok q"
  by (rule ext, simp add: assms sess_start_def sess_end_def sess_number_def grid_anchor_def
      grid_number_def epoch_first_def epoch_ok_def)+
    (simp_all add: assms epoch_first_def epoch_ok_def)

lemma seed_history_epochs:
  assumes "grid_inv c st"
  shows "ParamsHistory (seed_history st) = repr (state_epochs st)"
    and "state_epochs (seed_history st) = state_epochs st"
    and "GetParams (seed_history st) = GetParams st"
proof -
  show r: "ParamsHistory (seed_history st) = repr (state_epochs st)"
  proof (cases "ParamsHistory st = []")
    case True
    then show ?thesis
      by (simp add: seed_history_def HasParamsHistory_def SetParamsAtHeight_def repr_def
          state_epochs_def genesis_epoch_def ParamsHistoryKey_def)
  next
    case False
    then show ?thesis
      using assms by (simp add: seed_history_def HasParamsHistory_def grid_inv_def Let_def)
  qed
  have "state_epochs st \<noteq> []" using assms by (simp add: grid_inv_def epochs_ok_def Let_def)
  with r show "state_epochs (seed_history st) = state_epochs st" by (rule state_epochs_repr)
  show "GetParams (seed_history st) = GetParams st"
    by (simp add: seed_history_def SetParamsAtHeight_def GetParams_def)
qed

end
