(* ===== verification/SharedChain.thy ===== *)
theory SharedChain
  imports SharedGrid
begin

text \<open>
  The shared module as the chain runs it: what recording a parameter change does to the epochs,
  the step relation of governance updates and block ends, and the invariant every reachable state
  keeps.
\<close>

section \<open>What recording a change does\<close>

definition stamped :: "shared_params \<Rightarrow> int \<Rightarrow> int \<Rightarrow> shared_params \<Rightarrow> shared_params" where
  "stamped eff c n new =
     (if NumBlocksPerSession new \<noteq> NumBlocksPerSession eff
      then new\<lparr>SessionGridAnchorHeight := uint64_of n,
               SessionNumberAtAnchor := uint64_of (sess_number eff c + 1)\<rparr>
      else new\<lparr>SessionGridAnchorHeight := SessionGridAnchorHeight eff,
               SessionNumberAtAnchor := SessionNumberAtAnchor eff\<rparr>)"

definition effective_epochs :: "epochs \<Rightarrow> int \<Rightarrow> epochs" where
  "effective_epochs es c = filter (\<lambda>e. fst e \<le> c) es"

definition recorded_epochs :: "epochs \<Rightarrow> int \<Rightarrow> shared_params \<Rightarrow> epochs" where
  "recorded_epochs es c new =
     effective_epochs es c
       @ [(hist_end es c + 1, stamped (epoch_at es c) c (hist_end es c + 1) new)]"

lemma validate_anchor_irrelevant:
  "Params_ValidateBasic (p\<lparr>SessionGridAnchorHeight := a, SessionNumberAtAnchor := m\<rparr>)
     = Params_ValidateBasic p"
  by (simp add: Params_ValidateBasic_def validate_defs GetNumPendingSessions_def Let_def
      GetSessionEndToProofWindowCloseBlocks_def)

lemma sess_number_le:
  assumes "entry_ok (h0, p)" and "h0 \<le> h"
  shows "sess_number p h \<le> h"
  using assms(2)
proof (induction rule: int_ge_induct)
  case base
  then show ?case using assms(1) by (simp add: entry_ok_def)
next
  case (step i)
  then show ?case
    using epoch.number_step [of p i] assms(1) by (auto simp: entry_ok_def split: if_splits)
qed

text \<open>The invariant at block \<open>c\<close>, opened: the effective epoch and at most one pending.\<close>

lemma grid_inv_split:
  assumes inv: "grid_inv c st" and c: "chain_height c"
  obtains xs h0 p ys where "state_epochs st = xs @ (h0, p) # ys" and "h0 \<le> c"
    and "effective_epochs (state_epochs st) c = xs @ [(h0, p)]"
    and "epoch_at (state_epochs st) c = p" and "entry_ok (h0, p)" and "params_good p"
    and "hist_end (state_epochs st) c = sess_end p c"
    and "ys = [] \<or> (\<exists>q. ys = [(sess_end p c + 1, q)])"
proof -
  let ?es = "state_epochs st"
  have ok: "epochs_ok ?es" and c1: "1 \<le> c" using inv c by (auto simp: grid_inv_def chain_height_def Let_def)
  obtain xs h0 p ys where s: "?es = xs @ (h0, p) # ys" "h0 \<le> c" "ys = [] \<or> c < fst (hd ys)"
    "epoch_at ?es c = p" "entry_ok (h0, p)"
    using ok c1 by (rule epochs_split) blast
  have so: "sorted_wrt (\<lambda>e f. fst e < fst f) ?es"
    using ok by (intro epochs_sorted) (simp add: epochs_ok_def)
  have late: "\<forall>e \<in> set ys. c < fst e"
    using so s(1,3) by (cases ys) (auto simp: sorted_wrt_append)
  have he: "hist_end ?es c = sess_end p c" by (simp add: hist_end_def s(4))
  have eq: "\<forall>e \<in> set ys. fst e = sess_end p c + 1"
  proof
    fix e assume e: "e \<in> set ys"
    then have "e \<in> set ?es" by (simp add: s(1))
    then have "fst e \<le> c \<or> fst e = hist_end ?es c + 1" using inv by (simp add: grid_inv_def Let_def)
    then show "fst e = sess_end p c + 1" using late e he by auto
  qed
  have "ys = [] \<or> (\<exists>q. ys = [(sess_end p c + 1, q)])"
  proof (cases ys)
    case (Cons y zs)
    have "zs = []"
      using so s(1) Cons eq by (cases zs) (auto simp: sorted_wrt_append)
    then show ?thesis using Cons eq by (cases y) auto
  qed simp
  moreover have "effective_epochs ?es c = xs @ [(h0, p)]"
  proof -
    have "filter (\<lambda>e. fst e \<le> c) xs = xs"
      using so s(1,2) by (intro filter_True) (auto simp: sorted_wrt_append)
    moreover have "filter (\<lambda>e. fst e \<le> c) ys = []" using late by (auto simp: filter_empty_conv)
    ultimately show ?thesis using s(1,2) by (simp add: effective_epochs_def)
  qed
  moreover have "params_good p" using inv s(1) by (auto simp: grid_inv_def Let_def)
  ultimately show ?thesis using that [OF s(1,2) _ s(4,5) _ he] by blast
qed

lemma stamped_entry:
  assumes eff: "entry_ok (h0, p)" "h0 \<le> c" "params_good p" and c: "chain_height c"
    and new: "params_good new"
  defines "n \<equiv> sess_end p c + 1"
  shows "entry_ok (n, stamped p c n new)" and "follows (h0, p) (n, stamped p c n new)"
    and "params_good (stamped p c n new)" and "height_bounded n" and "c < n"
proof -
  have hb: "height_bounded c" using c by (rule chain_height_bounded)
  have p: "epoch_ok p" "epoch_first p \<le> c" "params_bounded p"
    using eff by (auto simp: entry_ok_def params_good_def)
  have nb: "c < n" "n \<le> c + 2 ^ 32 + 1"
    using sess_start_bounds [OF p(3) hb] by (auto simp: n_def)
  then show "c < n" and "height_bounded n"
    using c by (auto simp: height_bounded_def chain_height_def)
  have num: "1 \<le> sess_number p c" "sess_number p c \<le> c"
    using sess_number_bounds [OF p(3) hb] sess_number_le [OF eff(1,2)] by auto
  have nxt: "sess_start p n = n" "sess_number p n = sess_number p c + 1"
    using epoch_next [OF p(1,2)] by (simp_all add: n_def)
  have pn: "epoch_first p \<le> n" using p(2) nb by simp
  have cn: "sess_end p (n - 1) = n - 1" "sess_number p (n - 1) = sess_number p c"
    using epoch.same [OF p(1,2), of "n - 1"] epoch.start_le [OF p(1,2)] nb by (auto simp: n_def)
  have newb: "params_bounded new" "1 \<le> numBlocks new"
    using new by (auto simp: params_good_def params_bounded_def)
  let ?q = "stamped p c n new"
  have "entry_ok (n, ?q) \<and> sess_number ?q n = sess_number p c + 1 \<and> params_bounded ?q"
  proof (cases "NumBlocksPerSession new = NumBlocksPerSession p")
    case True
    then have g: "sess_start ?q = sess_start p" "sess_number ?q = sess_number p"
      "epoch_first ?q = epoch_first p" "epoch_ok ?q = epoch_ok p"
      by (intro grid_fields; simp add: stamped_def)+
    have "params_bounded ?q"
      using True newb p(3) by (auto simp: stamped_def params_bounded_def)
    then show ?thesis using nxt p pn nb num by (auto simp: entry_ok_def g)
  next
    case False
    have a: "uint (SessionGridAnchorHeight ?q) = n"
      using False nb c by (simp add: stamped_def uint_uint64_of chain_height_def)
    have m: "uint (SessionNumberAtAnchor ?q) = sess_number p c + 1"
      using False num c by (simp add: stamped_def uint_uint64_of chain_height_def)
    have N: "numBlocks ?q = numBlocks new" using False by (simp add: stamped_def)
    have b: "params_bounded ?q"
      using False newb a m nb num c
      by (auto simp: params_bounded_def chain_height_def stamped_def)
    have "sess_start ?q n = n" "sess_number ?q n = sess_number p c + 1"
      using a m nb c num
      by (auto simp: sess_start_def sess_number_def grid_anchor_def grid_number_def chain_height_def)
    then show ?thesis
      using a b N newb nb num c
      by (auto simp: entry_ok_def epoch_ok_def epoch_first_def chain_height_def)
  qed
  moreover have "Params_ValidateBasic ?q = Params_ValidateBasic new"
    by (simp add: stamped_def validate_anchor_irrelevant)
  ultimately show "entry_ok (n, ?q)" and "follows (h0, p) (n, ?q)" and "params_good ?q"
    using new nb eff(2) cn by (auto simp: follows_def params_good_def)
qed

text \<open>
  Recording a validated change always succeeds; afterwards the history is readable and holds the
  effective epochs followed by the stamped new one.
\<close>

lemma recordParamsHistory_epochs:
  assumes inv: "grid_inv c st" and c: "chain_height c" and new: "params_good new"
  shows "\<exists>st'. recordParamsHistory c new st = Inr st'
    \<and> ParamsHistory st' = repr (recorded_epochs (state_epochs st) c new)"
proof -
  let ?es = "state_epochs st" and ?st1 = "seed_history st"
  obtain xs h0 p ys where s: "?es = xs @ (h0, p) # ys" "h0 \<le> c"
    "effective_epochs ?es c = xs @ [(h0, p)]" "epoch_at ?es c = p" "entry_ok (h0, p)"
    "params_good p" "hist_end ?es c = sess_end p c"
    "ys = [] \<or> (\<exists>q. ys = [(sess_end p c + 1, q)])"
    using inv c by (rule grid_inv_split)
  let ?n = "sess_end p c + 1"
  have hb: "height_bounded c" using c by (rule chain_height_bounded)
  have p: "params_bounded p" using s(6) by (simp add: params_good_def)
  note st = stamped_entry [OF s(5,2,6) c new]
  have ho: "heights_ok ?es" using inv by (simp add: grid_inv_def Let_def)
  have ne: "?es \<noteq> []" "fst (hd ?es) \<le> c"
    using inv c by (auto simp: grid_inv_def epochs_ok_def chain_height_def Let_def)
  have eff: "GetParamsAtHeight ?st1 c = p"
    using GetParamsAtHeight_repr [OF seed_history_epochs(1) [OF inv] ho hb ne] s(4) by simp
  have e: "GetSessionEndHeight p c = Inr (sess_end p c)" by (rule GetSessionEndHeight_eq [OF p hb])
  have in1: "i64 ?n = ?n"
    using st(4) by (intro i64_id in_i64_nonneg) (auto simp: height_bounded_def)
  have in2: "i64 (sess_number p c + 1) = sess_number p c + 1"
    using sess_number_bounds [OF p hb] sess_number_le [OF s(5,2)] c
    by (intro i64_id in_i64_nonneg) (auto simp: chain_height_def)
  have stamp: "stamp_anchor p c ?n new = Inr (stamped p c ?n new)"
    using in2 by (simp add: stamp_anchor_def stamped_def GetSessionNumber_eq [OF p hb])
  have low: "heights_ok (xs @ [(h0, p)])" "\<forall>e \<in> set (xs @ [(h0, p)]). fst e < ?n"
  proof -
    show "heights_ok (xs @ [(h0, p)])" using ho s(1) by (auto simp: heights_ok_def)
    have "\<forall>e \<in> set (effective_epochs ?es c). fst e \<le> c" by (simp add: effective_epochs_def)
    then show "\<forall>e \<in> set (xs @ [(h0, p)]). fst e < ?n" using s(3) st(5) by fastforce
  qed
  have r: "recorded_epochs ?es c new = (xs @ [(h0, p)]) @ [(?n, stamped p c ?n new)]"
    by (simp add: recorded_epochs_def s(3,4,7))
  have "kv_set (uint64_of ?n) (HEntry ?n (Some (stamped p c ?n new))) (repr ?es)
      = repr (recorded_epochs ?es c new)"
    unfolding r using kv_set_repr_last [OF low(1) st(4) low(2)] s(1,8) by auto
  then have "ParamsHistory (SetParamsAtHeight ?n (stamped p c ?n new) ?st1)
      = repr (recorded_epochs ?es c new)"
    by (simp add: SetParamsAtHeight_def ParamsHistoryKey_def seed_history_epochs(1) [OF inv])
  then show ?thesis
    by (simp add: recordParamsHistory_def Let_def eff e in1 stamp SetParams_def)
qed

text \<open>The recorded epochs again form a grid, with the new one pending.\<close>

lemma recorded_epochs_inv:
  assumes inv: "grid_inv c st" and c: "chain_height c" and new: "params_good new"
  defines "es' \<equiv> recorded_epochs (state_epochs st) c new"
  shows "epochs_ok es'" and "heights_ok es'" and "\<forall>e \<in> set es'. params_good (snd e)"
    and "\<forall>e \<in> set es'. fst e \<le> c \<or> fst e = hist_end es' c + 1"
    and "\<And>h. 1 \<le> h \<Longrightarrow> h \<le> hist_end (state_epochs st) c
           \<Longrightarrow> epoch_at es' h = epoch_at (state_epochs st) h"
proof -
  let ?es = "state_epochs st"
  obtain xs h0 p ys where s: "?es = xs @ (h0, p) # ys" "h0 \<le> c"
    "effective_epochs ?es c = xs @ [(h0, p)]" "epoch_at ?es c = p" "entry_ok (h0, p)"
    "params_good p" "hist_end ?es c = sess_end p c"
    "ys = [] \<or> (\<exists>q. ys = [(sess_end p c + 1, q)])"
    using inv c by (rule grid_inv_split)
  let ?n = "sess_end p c + 1"
  let ?q = "stamped p c ?n new"
  note st = stamped_entry [OF s(5,2,6) c new]
  have ok: "epochs_ok ?es" and ho: "heights_ok ?es" and pg: "\<forall>e \<in> set ?es. params_good (snd e)"
    using inv by (auto simp: grid_inv_def Let_def)
  have r: "es' = xs @ (h0, p) # [(?n, ?q)]"
    by (simp add: es'_def recorded_epochs_def s(3,4,7))
  have suc: "successively follows (xs @ [(h0, p)])" and hd: "fst (hd (xs @ [(h0, p)])) = 1"
    using ok s(1) by (auto simp: epochs_ok_def successively_append_iff hd_append)
  then have su: "successively follows es'"
    using st(2) by (auto simp: r successively_append_iff)
  moreover have "\<forall>e \<in> set es'. entry_ok e" using ok s(1) st(1) by (auto simp: r epochs_ok_def)
  ultimately show "epochs_ok es'" using hd by (auto simp: epochs_ok_def r hd_append)
  show "heights_ok es'" using ho s(1) st(4) by (auto simp: r heights_ok_def)
  show "\<forall>e \<in> set es'. params_good (snd e)" using pg s(1) st(3) by (auto simp: r)
  show at: "epoch_at es' h = epoch_at ?es h" if h: "1 \<le> h" "h \<le> hist_end ?es c" for h
  proof -
    have "filter (\<lambda>e. fst e \<le> h) [(?n, ?q)] = []" "filter (\<lambda>e. fst e \<le> h) ys = []"
      using h s(7,8) by auto
    then show ?thesis by (simp add: epoch_at_def r s(1))
  qed
  have "1 \<le> c" "c \<le> hist_end ?es c"
    using c st(5) by (auto simp: chain_height_def s(7))
  then have "hist_end es' c = sess_end p c" using at [of c] s(4) by (simp add: hist_end_def)
  moreover have "\<forall>e \<in> set (effective_epochs ?es c). fst e \<le> c" by (simp add: effective_epochs_def)
  ultimately show "\<forall>e \<in> set es'. fst e \<le> c \<or> fst e = hist_end es' c + 1"
    using s(3) by (auto simp: r)
qed

lemma recordParamsHistory_inv:
  assumes inv: "grid_inv c st" and c: "chain_height c" and new: "params_good new"
    and rec: "recordParamsHistory c new st = Inr st'"
  shows "grid_inv c st'" and "state_epochs st' = recorded_epochs (state_epochs st) c new"
    and "ParamsHistory st' \<noteq> []"
proof -
  let ?es' = "recorded_epochs (state_epochs st) c new"
  have h: "ParamsHistory st' = repr ?es'" using recordParamsHistory_epochs [OF inv c new] rec by auto
  have ne: "?es' \<noteq> []" by (simp add: recorded_epochs_def)
  with h show "ParamsHistory st' \<noteq> []" by (simp add: repr_def)
  show es: "state_epochs st' = ?es'" by (rule state_epochs_repr [OF h ne])
  show "grid_inv c st'"
    using recorded_epochs_inv(1-4) [OF inv c new] h \<open>ParamsHistory st' \<noteq> []\<close>
    by (simp add: grid_inv_def Let_def es)
qed

section \<open>The chain\<close>

text \<open>
  A block is any number of accepted governance messages, followed by the end blocker. The
  parameters they carry are assumed within the bounds of \<open>params_bounded\<close>.
\<close>

inductive shared_step ::
    "(string \<Rightarrow> bool) \<Rightarrow> string \<Rightarrow> int \<times> shared_state \<Rightarrow> int \<times> shared_state \<Rightarrow> bool"
  for isBech32 authority
where
  update_params: "UpdateParams isBech32 authority c msg st = Inr st' \<Longrightarrow>
     params_bounded (UpdateParams_Params msg) \<Longrightarrow>
     shared_step isBech32 authority (c, st) (c, st')"
| update_param: "UpdateParam isBech32 authority c msg st = Inr st' \<Longrightarrow>
     patch_param (UpdateParam_Name msg) (GetAsUint64 msg) (GetParams st) = Some p \<Longrightarrow>
     params_bounded p \<Longrightarrow>
     shared_step isBech32 authority (c, st) (c, st')"
| end_block: "EndBlocker c st = Inr st' \<Longrightarrow>
     shared_step isBech32 authority (c, st) (c + 1, st')"

inductive shared_reachable ::
    "(string \<Rightarrow> bool) \<Rightarrow> string \<Rightarrow> int \<times> shared_state \<Rightarrow> bool"
  for isBech32 authority
where
  genesis: "params_good p \<Longrightarrow> uint (SessionGridAnchorHeight p) \<le> 1 \<Longrightarrow>
     uint (SessionNumberAtAnchor p) \<le> 1 \<Longrightarrow>
     shared_reachable isBech32 authority (1, \<lparr>LiveParams = Some p, ParamsHistory = []\<rparr>)"
| step: "shared_reachable isBech32 authority (c, st) \<Longrightarrow> chain_height c \<Longrightarrow>
     shared_step isBech32 authority (c, st) (c', st') \<Longrightarrow>
     shared_reachable isBech32 authority (c', st')"

lemma UpdateParams_Inr:
  assumes "UpdateParams isBech32 authority c msg st = Inr st'"
  shows "Params_ValidateBasic (UpdateParams_Params msg) = Inr ()"
    and "UpdateParams_Authority msg = authority"
    and "recordParamsHistory c (UpdateParams_Params msg) st = Inr st'"
  using assms by (auto simp: UpdateParams_def MsgUpdateParams_ValidateBasic_def res_simps)

lemma UpdateParam_Inr:
  assumes "UpdateParam isBech32 authority c msg st = Inr st'"
    and "patch_param (UpdateParam_Name msg) (GetAsUint64 msg) (GetParams st) = Some p"
  shows "Params_ValidateBasic p = Inr ()" and "UpdateParam_Authority msg = authority"
    and "recordParamsHistory c p st = Inr st'"
  using assms by (auto simp: UpdateParam_def res_simps)

text \<open>Every accepted governance message records a validated change.\<close>

lemma shared_step_cases:
  assumes "shared_step isBech32 authority (c, st) (c', st')"
  obtains (change) new where "c' = c" "params_good new" "recordParamsHistory c new st = Inr st'"
  | (end_block) "c' = c + 1" "EndBlocker c st = Inr st'"
  using assms
proof cases
  case (update_params msg)
  then show ?thesis
    using UpdateParams_Inr [OF update_params(2)] by (intro change) (auto simp: params_good_def)
next
  case (update_param msg p)
  then show ?thesis
    using UpdateParam_Inr [OF update_param(2,3)] by (intro change) (auto simp: params_good_def)
qed (use end_block in auto)

lemma EndBlocker_history:
  assumes "EndBlocker c st = Inr st'"
  shows "ParamsHistory st' = ParamsHistory st" and "ParamsHistory st = [] \<Longrightarrow> st' = st"
  using assms
  by (auto simp: EndBlocker_def SetParams_def GetParamsHistoryEntry_def
      split: option.splits sum.splits go_error.splits)

lemma grid_inv_advance:
  assumes inv: "grid_inv c st" and c: "1 \<le> c" and e: "EndBlocker c st = Inr st'"
  shows "grid_inv (c + 1) st'" and "state_epochs st' = state_epochs st"
proof -
  show es: "state_epochs st' = state_epochs st"
    using EndBlocker_history [OF e] by (cases "ParamsHistory st = []") (simp_all add: state_epochs_def)
  let ?es = "state_epochs st"
  have ok: "epochs_ok ?es" using inv by (simp add: grid_inv_def Let_def)
  have "fst x \<le> c + 1 \<or> fst x = hist_end ?es (c + 1) + 1" if x: "x \<in> set ?es" for x
  proof (cases "fst x \<le> c + 1")
    case False
    then have eq: "fst x = hist_end ?es c + 1" using inv x by (auto simp: grid_inv_def Let_def)
    with False have "hist_end ?es (c + 1) = hist_end ?es c"
      using hist.same [OF ok c, of "c + 1"] hist.start_le [OF ok c] by simp
    then show ?thesis using eq by simp
  qed simp
  then show "grid_inv (c + 1) st'"
    using inv EndBlocker_history [OF e]
    by (cases "ParamsHistory st = []") (auto simp: grid_inv_def Let_def es)
qed

lemma genesis_inv:
  assumes "params_good p" and "uint (SessionGridAnchorHeight p) \<le> 1"
    and "uint (SessionNumberAtAnchor p) \<le> 1"
  shows "grid_inv 1 \<lparr>LiveParams = Some p, ParamsHistory = []\<rparr>"
proof -
  let ?g = "genesis_epoch p"
  have g: "params_good ?g"
    using assms(1) validate_anchor_irrelevant
    by (auto simp: params_good_def params_bounded_def genesis_epoch_def)
  then have "entry_ok (1, ?g)"
    by (auto simp: entry_ok_def epoch_ok_def params_good_def params_bounded_def epoch_first_def
        genesis_epoch_def sess_start_def sess_number_def grid_anchor_def grid_number_def)
  then show ?thesis
    using assms g
    by (simp add: grid_inv_def Let_def state_epochs_def GetParams_def epochs_ok_def heights_ok_def
        height_bounded_def)
qed

lemma reachable_grid_inv:
  assumes "shared_reachable isBech32 authority (c, st)"
  shows "grid_inv c st \<and> 1 \<le> c"
  using assms
proof (induction "(c, st)" arbitrary: c st rule: shared_reachable.induct)
  case (genesis p)
  then show ?case by (auto intro: genesis_inv)
next
  case (step c st c' st')
  then have inv: "grid_inv c st" "1 \<le> c" by auto
  from step.hyps(4) show ?case
  proof (cases rule: shared_step_cases)
    case (change new)
    then show ?thesis using recordParamsHistory_inv(1) [OF inv(1) step.hyps(3)] inv by simp
  next
    case end_block
    then show ?thesis using grid_inv_advance(1) [OF inv] inv by simp
  qed
qed

section \<open>The grid the code computes\<close>

definition same_timing :: "shared_params \<Rightarrow> shared_params \<Rightarrow> bool" where
  "same_timing p q \<longleftrightarrow> \<not> sessionTimingParamsChanged p q"

lemma genesis_epoch_grid:
  assumes "uint (SessionGridAnchorHeight p) \<le> 1" and "uint (SessionNumberAtAnchor p) \<le> 1"
  shows "sess_start (genesis_epoch p) h = sess_start p h"
    and "sess_end (genesis_epoch p) h = sess_end p h"
    and "sess_number (genesis_epoch p) h = sess_number p h"
    and "same_timing p (genesis_epoch p)"
proof -
  have a: "grid_anchor (genesis_epoch p) h = grid_anchor p h"
    and m: "grid_number (genesis_epoch p) h = grid_number p h"
    using assms by (auto simp: grid_anchor_def grid_number_def genesis_epoch_def)
  show "sess_start (genesis_epoch p) h = sess_start p h"
    using a by (simp add: sess_start_def) (simp add: genesis_epoch_def)
  then show "sess_end (genesis_epoch p) h = sess_end p h"
    by (simp add: sess_end_def) (simp add: genesis_epoch_def)
  show "sess_number (genesis_epoch p) h = sess_number p h"
    using a m by (simp add: sess_number_def) (simp add: genesis_epoch_def)
  show "same_timing p (genesis_epoch p)"
    by (simp add: same_timing_def sessionTimingParamsChanged_def genesis_epoch_def)
qed

text \<open>What the parameters resolved at a height are, in terms of the epochs.\<close>

lemma resolved_params:
  assumes inv: "grid_inv c st" and h: "height_bounded h"
  shows "params_bounded (GetParamsAtHeight st h)"
    and "sess_start (GetParamsAtHeight st h) h = hist_start (state_epochs st) h"
    and "sess_end (GetParamsAtHeight st h) h = hist_end (state_epochs st) h"
    and "sess_number (GetParamsAtHeight st h) h = hist_number (state_epochs st) h"
    and "same_timing (GetParamsAtHeight st h) (epoch_at (state_epochs st) h)"
proof -
  let ?es = "state_epochs st" and ?p = "GetParamsAtHeight st h"
  have "params_bounded ?p \<and> sess_start ?p h = hist_start ?es h \<and> sess_end ?p h = hist_end ?es h
    \<and> sess_number ?p h = hist_number ?es h \<and> same_timing ?p (epoch_at ?es h)"
  proof (cases "ParamsHistory st = []")
    case True
    then have p: "?p = GetParams st" by (simp add: GetParamsAtHeight_def kv_rev_below_def)
    have e: "epoch_at ?es h = genesis_epoch (GetParams st)"
      using True h by (simp add: epoch_at_def state_epochs_def height_bounded_def)
    have a: "uint (SessionGridAnchorHeight (GetParams st)) \<le> 1"
      "uint (SessionNumberAtAnchor (GetParams st)) \<le> 1"
      using inv True by (auto simp: grid_inv_def Let_def)
    have "params_good (genesis_epoch (GetParams st))"
      using inv True by (simp add: grid_inv_def Let_def state_epochs_def)
    then have "params_bounded (GetParams st)"
      using a by (auto simp: params_good_def params_bounded_def genesis_epoch_def)
    then show ?thesis
      by (simp add: p hist_start_def hist_end_def hist_number_def e genesis_epoch_grid [OF a])
  next
    case False
    then have "ParamsHistory st = repr ?es" "heights_ok ?es" "?es \<noteq> []" "fst (hd ?es) \<le> h"
      using inv h by (auto simp: grid_inv_def Let_def epochs_ok_def height_bounded_def)
    then have p: "?p = epoch_at ?es h" using GetParamsAtHeight_repr h by simp
    have "?es \<noteq> []" "fst (hd ?es) \<le> h" by fact+
    then obtain xs h0 q ys where s: "?es = xs @ (h0, q) # ys" "h0 \<le> h" "ys = [] \<or> h < fst (hd ys)"
      by (rule split_at_height)
    have "sorted_wrt (\<lambda>e f. fst e < fst f) ?es"
      using inv by (intro epochs_sorted) (simp add: grid_inv_def epochs_ok_def Let_def)
    then have "epoch_at ?es h = q" using s by (simp add: epoch_at_split)
    then have "params_bounded ?p"
      using p s(1) inv by (auto simp: grid_inv_def Let_def params_good_def)
    then show ?thesis
      by (simp add: p hist_start_def hist_end_def hist_number_def same_timing_def
          sessionTimingParamsChanged_def)
  qed
  then show "params_bounded ?p" and "sess_start ?p h = hist_start ?es h"
    and "sess_end ?p h = hist_end ?es h" and "sess_number ?p h = hist_number ?es h"
    and "same_timing ?p (epoch_at ?es h)" by auto
qed

lemma resolved_code:
  assumes inv: "grid_inv c st" and h: "height_bounded h"
  shows "GetSessionStartHeight (GetParamsAtHeight st h) h = Inr (hist_start (state_epochs st) h)"
    and "GetSessionEndHeight (GetParamsAtHeight st h) h = Inr (hist_end (state_epochs st) h)"
    and "GetSessionNumber (GetParamsAtHeight st h) h = Inr (hist_number (state_epochs st) h)"
  using resolved_params [OF inv h]
  by (simp_all add: GetSessionStartHeight_eq GetSessionEndHeight_eq GetSessionNumber_eq h)

lemma hist_end_bound:
  assumes inv: "grid_inv c st" and h: "height_bounded h"
  shows "h \<le> hist_end (state_epochs st) h" and "hist_end (state_epochs st) h \<le> h + 2 ^ 32"
  using sess_start_bounds [OF resolved_params(1) [OF inv h] h] resolved_params(3) [OF inv h]
  by simp_all

end
