(* ===== verification/SharedProps.thy ===== *)
theory SharedProps
  imports SharedChain
begin

text \<open>
  What the shared module guarantees: sessions tile the chain across governance changes, a change
  never reaches the session in flight, live parameters follow the effective epoch, and what
  validated parameters imply for the claim and proof windows and for unbonding.
\<close>

section \<open>Parameters resolved after a change\<close>

lemma same_timing_windows:
  assumes "same_timing p q" and "sess_end p h = sess_end q h"
  shows "claim_open p h = claim_open q h" "claim_close p h = claim_close q h"
    "proof_open p h = proof_open q h" "proof_close p h = proof_close q h"
  using assms by (simp_all add: same_timing_def sessionTimingParamsChanged_def window_defs)

lemma same_timing_sym: "same_timing p q \<Longrightarrow> same_timing q p"
  by (auto simp: same_timing_def sessionTimingParamsChanged_def)

lemma same_timing_trans: "same_timing p q \<Longrightarrow> same_timing q r \<Longrightarrow> same_timing p r"
  by (auto simp: same_timing_def sessionTimingParamsChanged_def)

lemma recorded_next:
  assumes inv: "grid_inv c st" and c: "chain_height c" and new: "params_good new"
  shows "epoch_at (recorded_epochs (state_epochs st) c new) (hist_end (state_epochs st) c + 1)
    = stamped (epoch_at (state_epochs st) c) c (hist_end (state_epochs st) c + 1) new"
  by (simp add: epoch_at_def recorded_epochs_def)

lemma record_spares:
  assumes inv: "grid_inv c st" and c: "chain_height c" and new: "params_good new"
    and rec: "recordParamsHistory c new st = Inr st'"
    and h: "1 \<le> h" "h \<le> hist_end (state_epochs st) c"
  shows "hist_start (state_epochs st') h = hist_start (state_epochs st) h"
    and "hist_end (state_epochs st') h = hist_end (state_epochs st) h"
    and "hist_number (state_epochs st') h = hist_number (state_epochs st) h"
    and "same_timing (GetParamsAtHeight st' h) (GetParamsAtHeight st h)"
proof -
  note i' = recordParamsHistory_inv [OF inv c new rec]
  have hb: "height_bounded h"
    using h hist_end_bound(2) [OF inv chain_height_bounded [OF c]] c
    by (auto simp: height_bounded_def chain_height_def)
  have e: "epoch_at (state_epochs st') h = epoch_at (state_epochs st) h"
    using recorded_epochs_inv(5) [OF inv c new h] i'(2) by simp
  show "hist_start (state_epochs st') h = hist_start (state_epochs st) h"
    and "hist_end (state_epochs st') h = hist_end (state_epochs st) h"
    and "hist_number (state_epochs st') h = hist_number (state_epochs st) h"
    by (simp_all add: hist_start_def hist_end_def hist_number_def e)
  show "same_timing (GetParamsAtHeight st' h) (GetParamsAtHeight st h)"
    using resolved_params(5) [OF i'(1) hb] resolved_params(5) [OF inv hb] e
    by (metis same_timing_sym same_timing_trans)
qed

lemma record_live:
  assumes "recordParamsHistory c new st = Inr st'"
  shows "same_timing (GetParams st') (GetParams st)"
proof -
  have s: "GetParams (SetParamsAtHeight n q st) = GetParams st"
    "GetParams (SetParams q st) = q" "GetParams (seed_history st) = GetParams st" for n q st
    by (simp_all add: seed_history_def SetParamsAtHeight_def GetParams_def SetParams_def)
  show ?thesis
    using assms
    by (auto simp: recordParamsHistory_def Let_def res_simps s same_timing_def
        sessionTimingParamsChanged_def split: if_splits)
qed

section \<open>Sessions tile the chain\<close>

text \<open>C1. In every state the chain reaches, each block height from 1 on lies in exactly one session
  of the grid resolved through the parameter history: the session starts at or before the height
  and ends at or after it, all its heights agree on its start, end and number, and the block after
  its end starts the next session, whose number is one higher. This holds across changes of
  \<open>num_blocks_per_session\<close>.\<close>
theorem sessions_tile_the_chain:
  assumes "shared_reachable isBech32 authority (c, st)" and "1 \<le> h" and "h < 2 ^ 61"
  shows "\<exists>s e n. GetSessionStartHeight (GetParamsAtHeight st h) h = Inr s
    \<and> GetSessionEndHeight (GetParamsAtHeight st h) h = Inr e
    \<and> GetSessionNumber (GetParamsAtHeight st h) h = Inr n
    \<and> 1 \<le> s \<and> s \<le> h \<and> h \<le> e
    \<and> (\<forall>h'. s \<le> h' \<and> h' \<le> e \<longrightarrow>
         GetSessionStartHeight (GetParamsAtHeight st h') h' = Inr s
       \<and> GetSessionEndHeight (GetParamsAtHeight st h') h' = Inr e
       \<and> GetSessionNumber (GetParamsAtHeight st h') h' = Inr n)
    \<and> GetSessionStartHeight (GetParamsAtHeight st (e + 1)) (e + 1) = Inr (e + 1)
    \<and> GetSessionNumber (GetParamsAtHeight st (e + 1)) (e + 1) = Inr (n + 1)"
proof -
  have inv: "grid_inv c st" using reachable_grid_inv [OF assms(1)] by simp
  let ?es = "state_epochs st"
  have ok: "epochs_ok ?es" using inv by (simp add: grid_inv_def Let_def)
  have hb: "height_bounded h" using assms(2,3) by (simp add: height_bounded_def)
  note b = hist_end_bound [OF inv hb]
  have near: "height_bounded h'" if "1 \<le> h'" "h' \<le> hist_end ?es h + 1" for h'
    using that b assms(3) by (simp add: height_bounded_def)
  have s1: "1 \<le> hist_start ?es h" using hist.first_le [OF ok assms(2)] .
  have inner: "GetSessionStartHeight (GetParamsAtHeight st h') h' = Inr (hist_start ?es h)
     \<and> GetSessionEndHeight (GetParamsAtHeight st h') h' = Inr (hist_end ?es h)
     \<and> GetSessionNumber (GetParamsAtHeight st h') h' = Inr (hist_number ?es h)"
    if "hist_start ?es h \<le> h'" "h' \<le> hist_end ?es h" for h'
    using resolved_code [OF inv near, of h'] hist.same [OF ok assms(2) that] that s1 by simp
  have outer: "height_bounded (hist_end ?es h + 1)" using b assms(2) by (intro near) auto
  show ?thesis
    using resolved_code [OF inv hb] s1 hist.start_le [OF ok assms(2)] b(1) inner
      resolved_code [OF inv outer] hist.next_start [OF ok assms(2)] hist.next_number [OF ok assms(2)]
    by (intro exI [of _ "hist_start ?es h"] exI [of _ "hist_end ?es h"]
        exI [of _ "hist_number ?es h"]) auto
qed

lemma genesis_reachable:
  "shared_reachable isBech32 authority (1, \<lparr>LiveParams = Some NewParams, ParamsHistory = []\<rparr>)"
proof (rule shared_reachable.genesis)
  have "Params_ValidateBasic NewParams = Inr ()" by code_simp
  moreover have "params_bounded NewParams" by code_simp
  ultimately show "params_good NewParams" by (simp add: params_good_def)
qed (simp_all add: NewParams_def)

theorem sessions_tile_the_chain_witness:
  "\<exists>s e. GetSessionStartHeight (GetParamsAtHeight
       \<lparr>LiveParams = Some NewParams, ParamsHistory = []\<rparr> 15) 15 = Inr s \<and> s \<le> 15
     \<and> GetSessionEndHeight (GetParamsAtHeight
       \<lparr>LiveParams = Some NewParams, ParamsHistory = []\<rparr> 15) 15 = Inr e \<and> 15 \<le> e"
  using sessions_tile_the_chain [OF genesis_reachable [of "\<lambda>_. True" "''gov''"], of 15] by auto

section \<open>A change spares the session in flight\<close>

text \<open>C11. An accepted bulk parameter update leaves every height up to the end of the current
  session on the grid and windows it had: session start, end and number, and the claim and proof
  window heights computed from the parameters resolved at that height are unchanged. From the
  next session on the new session length and offsets apply.\<close>
theorem update_params_spares_session_in_flight:
  assumes "shared_reachable isBech32 authority (c, st)" and "chain_height c"
    and "UpdateParams isBech32 authority c msg st = Inr st'"
    and "params_bounded (UpdateParams_Params msg)"
    and "GetSessionEndHeight (GetParamsAtHeight st c) c = Inr e"
    and "1 \<le> h" and "h \<le> e"
  shows "GetSessionStartHeight (GetParamsAtHeight st' h) h
      = GetSessionStartHeight (GetParamsAtHeight st h) h
    \<and> GetSessionEndHeight (GetParamsAtHeight st' h) h
      = GetSessionEndHeight (GetParamsAtHeight st h) h
    \<and> GetSessionNumber (GetParamsAtHeight st' h) h
      = GetSessionNumber (GetParamsAtHeight st h) h
    \<and> GetClaimWindowOpenHeight (GetParamsAtHeight st' h) h
      = GetClaimWindowOpenHeight (GetParamsAtHeight st h) h
    \<and> GetClaimWindowCloseHeight (GetParamsAtHeight st' h) h
      = GetClaimWindowCloseHeight (GetParamsAtHeight st h) h
    \<and> GetProofWindowOpenHeight (GetParamsAtHeight st' h) h
      = GetProofWindowOpenHeight (GetParamsAtHeight st h) h
    \<and> GetProofWindowCloseHeight (GetParamsAtHeight st' h) h
      = GetProofWindowCloseHeight (GetParamsAtHeight st h) h
    \<and> \<not> sessionTimingParamsChanged (GetParamsAtHeight st' (e + 1)) (UpdateParams_Params msg)"
proof -
  have inv: "grid_inv c st" using reachable_grid_inv [OF assms(1)] by simp
  have new: "params_good (UpdateParams_Params msg)"
    and rec: "recordParamsHistory c (UpdateParams_Params msg) st = Inr st'"
    using UpdateParams_Inr [OF assms(3)] assms(4) by (simp_all add: params_good_def)
  have cb: "height_bounded c" using assms(2) by (rule chain_height_bounded)
  have e: "e = hist_end (state_epochs st) c" using resolved_code(2) [OF inv cb] assms(5) by simp
  have h: "1 \<le> h" "h \<le> hist_end (state_epochs st) c" using assms(6,7) e by simp_all
  have eb: "e \<le> c + 2 ^ 32" using hist_end_bound(2) [OF inv cb] e by simp
  have hb: "height_bounded h" and nb: "height_bounded (e + 1)"
    using h eb assms(2,7) by (auto simp: height_bounded_def chain_height_def)
  note i' = recordParamsHistory_inv [OF inv assms(2) new rec]
  note sp = record_spares [OF inv assms(2) new rec h]
  note b = resolved_params [OF inv hb] and b' = resolved_params [OF i'(1) hb]
  have grid: "GetSessionStartHeight (GetParamsAtHeight st' h) h
      = GetSessionStartHeight (GetParamsAtHeight st h) h"
    "GetSessionEndHeight (GetParamsAtHeight st' h) h
      = GetSessionEndHeight (GetParamsAtHeight st h) h"
    "GetSessionNumber (GetParamsAtHeight st' h) h
      = GetSessionNumber (GetParamsAtHeight st h) h"
    using resolved_code [OF inv hb] resolved_code [OF i'(1) hb] sp(1-3) by simp_all
  have w: "sess_end (GetParamsAtHeight st' h) h = sess_end (GetParamsAtHeight st h) h"
    using b(3) b'(3) sp(2) by simp
  note ww = same_timing_windows [OF sp(4) w] window_heights_eq [OF b(1) hb]
    window_heights_eq [OF b'(1) hb]
  have windows: "GetClaimWindowOpenHeight (GetParamsAtHeight st' h) h
      = GetClaimWindowOpenHeight (GetParamsAtHeight st h) h"
    "GetClaimWindowCloseHeight (GetParamsAtHeight st' h) h
      = GetClaimWindowCloseHeight (GetParamsAtHeight st h) h"
    "GetProofWindowOpenHeight (GetParamsAtHeight st' h) h
      = GetProofWindowOpenHeight (GetParamsAtHeight st h) h"
    "GetProofWindowCloseHeight (GetParamsAtHeight st' h) h
      = GetProofWindowCloseHeight (GetParamsAtHeight st h) h"
    by (simp_all add: ww)
  have "epoch_at (state_epochs st') (e + 1)
      = stamped (epoch_at (state_epochs st) c) c (e + 1) (UpdateParams_Params msg)"
    using recorded_next [OF inv assms(2) new] i'(2) e by simp
  then have "same_timing (epoch_at (state_epochs st') (e + 1)) (UpdateParams_Params msg)"
    by (simp add: same_timing_def sessionTimingParamsChanged_def stamped_def)
  then have next_params: "\<not> sessionTimingParamsChanged (GetParamsAtHeight st' (e + 1)) (UpdateParams_Params msg)"
    using resolved_params(5) [OF i'(1) nb] same_timing_trans unfolding same_timing_def by blast
  show ?thesis by (intro conjI grid windows next_params)
qed

definition witness_genesis :: shared_state where
  "witness_genesis = \<lparr>LiveParams = Some NewParams, ParamsHistory = []\<rparr>"

definition witness_update :: msg_update_params where
  "witness_update = \<lparr>UpdateParams_Authority = ''gov'',
     UpdateParams_Params = NewParams\<lparr>NumBlocksPerSession := 20\<rparr>\<rparr>"

theorem update_params_spares_session_in_flight_witness:
  "\<exists>st'. UpdateParams (\<lambda>_. True) ''gov'' 1 witness_update witness_genesis = Inr st'
    \<and> GetSessionEndHeight (GetParamsAtHeight st' 10) 10 = Inr 10
    \<and> \<not> sessionTimingParamsChanged (GetParamsAtHeight st' 11) (UpdateParams_Params witness_update)"
proof -
  have ok: "case UpdateParams (\<lambda>_. True) ''gov'' 1 witness_update witness_genesis of
      Inr st' \<Rightarrow> True | Inl e \<Rightarrow> False"
    by code_simp
  then obtain st' where u: "UpdateParams (\<lambda>_. True) ''gov'' 1 witness_update witness_genesis = Inr st'"
    by (cases "UpdateParams (\<lambda>_. True) ''gov'' 1 witness_update witness_genesis") auto
  have b: "params_bounded (UpdateParams_Params witness_update)" by code_simp
  have e: "GetSessionEndHeight (GetParamsAtHeight witness_genesis 1) 1 = Inr 10" by code_simp
  have e10: "GetSessionEndHeight (GetParamsAtHeight witness_genesis 10) 10 = Inr 10" by code_simp
  have r: "shared_reachable (\<lambda>_. True) ''gov'' (1, witness_genesis)"
    unfolding witness_genesis_def by (rule genesis_reachable)
  have c: "chain_height 1" by (simp add: chain_height_def)
  note t = update_params_spares_session_in_flight [OF r c u b e, of 10]
  show ?thesis using u t e10 by auto
qed

section \<open>Live parameters follow the effective epoch\<close>

definition live_inv :: "int \<Rightarrow> shared_state \<Rightarrow> bool" where
  "live_inv c st \<longleftrightarrow> same_timing (GetParams st) (epoch_at (state_epochs st) (max 1 (c - 1)))"

lemma epoch_at_entry:
  assumes "epochs_ok es" and "map_of es h = Some p"
  shows "epoch_at es h = p"
proof -
  obtain xs ys where s: "es = xs @ (h, p) # ys"
    using map_of_SomeD [OF assms(2)] by (auto simp: in_set_conv_decomp)
  moreover have "sorted_wrt (\<lambda>e f. fst e < fst f) es"
    using assms(1) by (intro epochs_sorted) (simp add: epochs_ok_def)
  ultimately show ?thesis
    by (cases ys) (auto intro!: epoch_at_split simp: sorted_wrt_append)
qed

lemma epoch_at_no_entry:
  assumes "map_of es h = None"
  shows "epoch_at es h = epoch_at es (h - 1)"
proof -
  have "filter (\<lambda>e. fst e \<le> h) es = filter (\<lambda>e. fst e \<le> h - 1) es"
    using assms by (intro filter_cong) (force simp: map_of_eq_None_iff)+
  then show ?thesis by (simp add: epoch_at_def)
qed

lemma EndBlocker_live:
  assumes inv: "grid_inv c st" and c: "chain_height c" and live: "live_inv c st"
    and e: "EndBlocker c st = Inr st'"
  shows "same_timing (GetParams st') (epoch_at (state_epochs st') c)"
proof (cases "ParamsHistory st = []")
  case True
  then have "epoch_at (state_epochs st) c = epoch_at (state_epochs st) (max 1 (c - 1))"
    using c by (simp add: epoch_at_def state_epochs_def chain_height_def)
  then show ?thesis using live EndBlocker_history(2) [OF e True] by (simp add: live_inv_def)
next
  case False
  let ?es = "state_epochs st"
  have ok: "epochs_ok ?es" and r: "ParamsHistory st = repr ?es" "heights_ok ?es"
    and pg: "\<forall>e \<in> set ?es. params_good (snd e)"
    using inv False by (auto simp: grid_inv_def Let_def)
  have m: "GetParamsHistoryEntry st c = map_of ?es c"
    using GetParamsHistoryEntry_repr [OF r chain_height_bounded [OF c]] .
  have es: "state_epochs st' = ?es" using grid_inv_advance(2) [OF inv _ e] c by (simp add: chain_height_def)
  show ?thesis
  proof (cases "map_of ?es c")
    case None
    have "c \<noteq> 1"
      using ok None by (cases ?es) (auto simp: epochs_ok_def split: if_splits)
    then have "max 1 (c - 1) = c - 1" using c by (simp add: chain_height_def)
    moreover have "st' = st" using e m None by (simp add: EndBlocker_def)
    ultimately show ?thesis
      using live epoch_at_no_entry [OF None] es by (simp add: live_inv_def)
  next
    case (Some p)
    then have "Params_ValidateBasic p = Inr ()"
      using pg map_of_SomeD by (fastforce simp: params_good_def)
    then have "st' = SetParams p st" using e m Some by (simp add: EndBlocker_def)
    then show ?thesis
      using epoch_at_entry [OF ok Some] es
      by (simp add: SetParams_def GetParams_def same_timing_def sessionTimingParamsChanged_def)
  qed
qed

lemma reachable_live_inv:
  assumes "shared_reachable isBech32 authority (c, st)"
  shows "live_inv c st"
  using assms
proof (induction "(c, st)" arbitrary: c st rule: shared_reachable.induct)
  case (genesis p)
  then show ?case
    using genesis_epoch_grid(4) [of p]
    by (simp add: live_inv_def epoch_at_def state_epochs_def GetParams_def)
next
  case (step c st c' st')
  have inv: "grid_inv c st" "1 \<le> c" using reachable_grid_inv [OF step.hyps(1)] by auto
  from step.hyps(4) show ?case
  proof (cases rule: shared_step_cases)
    case (change new)
    let ?h = "max 1 (c - 1)"
    have "?h \<le> hist_end (state_epochs st) c"
      using hist_end_bound(1) [OF inv(1) chain_height_bounded [OF step.hyps(3)]] inv(2) by simp
    then have "epoch_at (state_epochs st') ?h = epoch_at (state_epochs st) ?h"
      using recorded_epochs_inv(5) [OF inv(1) step.hyps(3) change(2), of ?h]
        recordParamsHistory_inv(2) [OF inv(1) step.hyps(3) change(2,3)] by simp
    then show ?thesis
      using step.hyps(2) record_live [OF change(3)] same_timing_trans change(1)
      unfolding live_inv_def by metis
  next
    case end_block
    then show ?thesis
      using EndBlocker_live [OF inv(1) step.hyps(3) step.hyps(2) end_block(2)] inv(2)
      by (simp add: live_inv_def)
  qed
qed

text \<open>After the end blocker of any block, the live session length and window offsets are those
  of the epoch effective at that block: a timing change never reaches the live parameters before
  its session boundary, and always reaches them there.\<close>
theorem live_timing_follows_effective_epoch:
  assumes "shared_reachable isBech32 authority (c, st)" and "chain_height c"
    and "EndBlocker c st = Inr st'"
  shows "\<not> sessionTimingParamsChanged (GetParams st') (GetParamsAtHeight st' c)"
proof -
  have inv: "grid_inv c st" "1 \<le> c" using reachable_grid_inv [OF assms(1)] by auto
  have "same_timing (GetParams st') (epoch_at (state_epochs st') c)"
    using EndBlocker_live [OF inv(1) assms(2) reachable_live_inv [OF assms(1)] assms(3)] .
  moreover have "same_timing (GetParamsAtHeight st' c) (epoch_at (state_epochs st') c)"
    using resolved_params(5) [OF grid_inv_advance(1) [OF inv assms(3)]
        chain_height_bounded [OF assms(2)]] .
  ultimately show ?thesis
    using same_timing_sym same_timing_trans unfolding same_timing_def by blast
qed

theorem live_timing_follows_effective_epoch_witness:
  "\<not> sessionTimingParamsChanged (GetParams witness_genesis) (GetParamsAtHeight witness_genesis 1)"
proof -
  have e: "EndBlocker 1 witness_genesis = Inr witness_genesis" by code_simp
  have r: "shared_reachable (\<lambda>_. True) ''gov'' (1, witness_genesis)"
    unfolding witness_genesis_def by (rule genesis_reachable)
  have c: "chain_height 1" by (simp add: chain_height_def)
  show ?thesis by (rule live_timing_follows_effective_epoch [OF r c e])
qed

section \<open>What validated parameters guarantee\<close>

text \<open>C12. Parameters that pass \<open>ValidateBasic\<close> never make a session or window height panic: the
  only divisor of the session arithmetic is nonzero, whatever the height and the other fields,
  overflow included, and the number of pending sessions is computed and at least one.\<close>
theorem validated_params_never_panic:
  assumes "Params_ValidateBasic p = Inr ()"
  shows "(\<exists>s. GetSessionStartHeight p h = Inr s) \<and> (\<exists>e. GetSessionEndHeight p h = Inr e)
    \<and> (\<exists>n. GetSessionNumber p h = Inr n) \<and> (\<exists>c. GetProofWindowCloseHeight p h = Inr c)
    \<and> (\<exists>k. GetNumPendingSessions p = Inr k \<and> 1 \<le> k)"
proof -
  have "NumBlocksPerSession p \<noteq> 0" using assms by (auto simp: Params_ValidateBasic_iff)
  then have q: "\<exists>x. quo64 a (int64_of (NumBlocksPerSession p)) = Inr x" for a
    by (simp add: quo64_def int64_of_nonzero)
  have start: "\<exists>s. GetSessionStartHeight p h = Inr s" for h
    using q [of "i64 (h - fst (sessionGridAnchor p h))"]
    by (auto simp: GetSessionStartHeight_def Let_def)
  have ends: "\<exists>e. GetSessionEndHeight p h = Inr e"
    using start [of h] by (auto simp: GetSessionEndHeight_def Let_def)
  then have closes: "\<exists>c. GetProofWindowCloseHeight p h = Inr c"
    by (auto simp: GetProofWindowCloseHeight_def GetProofWindowOpenHeight_def
        GetClaimWindowCloseHeight_def GetClaimWindowOpenHeight_def)
  have number: "\<exists>n. GetSessionNumber p h = Inr n"
    using q [of "i64 (h - fst (sessionGridAnchor p h))"]
    by (auto simp: GetSessionNumber_def Let_def split_def)
  have pending: "\<exists>k. GetNumPendingSessions p = Inr k \<and> 1 \<le> k"
    using assms by (simp add: Params_ValidateBasic_iff)
  show ?thesis by (intro conjI start ends number closes pending)
qed

theorem validated_params_never_panic_witness:
  "(\<exists>s. GetSessionStartHeight NewParams 7 = Inr s)
   \<and> (\<exists>k. GetNumPendingSessions NewParams = Inr k \<and> 1 \<le> k)"
proof -
  have v: "Params_ValidateBasic NewParams = Inr ()" by code_simp
  show ?thesis using validated_params_never_panic [OF v] by blast
qed

text \<open>For validated parameters of bounded size, the heights of a session are computed without
  wrap-around and in protocol order: the session ends, its grace period ends strictly before the
  next session does and before the claim window opens, and the claim and proof windows follow,
  each closing no earlier than it opens.\<close>
theorem validated_windows_in_order:
  assumes "Params_ValidateBasic p = Inr ()" and "params_bounded p" and "height_bounded h"
  shows "\<exists>e g co cc po pc. GetSessionEndHeight p h = Inr e
    \<and> GetSessionGracePeriodEndHeight p h = Inr g
    \<and> GetClaimWindowOpenHeight p h = Inr co \<and> GetClaimWindowCloseHeight p h = Inr cc
    \<and> GetProofWindowOpenHeight p h = Inr po \<and> GetProofWindowCloseHeight p h = Inr pc
    \<and> h \<le> e \<and> e \<le> g \<and> g < e + numBlocks p \<and> g < co \<and> co \<le> cc \<and> cc \<le> po \<and> po \<le> pc
    \<and> pc = e + GetSessionEndToProofWindowCloseBlocks p + 1"
proof -
  have p: "params_bounded p" by fact
  note v = validated_ints [OF assms(1,2)]
  have nn: "0 \<le> uint (GracePeriodEndOffsetBlocks p)" "0 \<le> claimCloseOffset p"
    "0 \<le> proofOpenOffset p" "0 \<le> proofCloseOffset p" by simp_all
  have e: "h \<le> sess_end p h" using sess_start_bounds [OF assms(2,3)] by simp
  show ?thesis
    using v nn e
    by (simp add: GetSessionEndHeight_eq [OF assms(2,3)] window_heights_eq [OF assms(2,3)]
        window_defs window_offsets_eq [OF p])
qed

theorem validated_windows_in_order_witness:
  "\<exists>co cc. GetClaimWindowOpenHeight NewParams 7 = Inr co
    \<and> GetClaimWindowCloseHeight NewParams 7 = Inr cc \<and> co \<le> cc"
proof -
  have v: "Params_ValidateBasic NewParams = Inr ()" by code_simp
  have b: "params_bounded NewParams" by code_simp
  have h: "height_bounded 7" by (simp add: height_bounded_def)
  show ?thesis using validated_windows_in_order [OF v b h] by blast
qed

definition wrapping_params :: shared_params where
  "wrapping_params = NewParams\<lparr>ClaimWindowCloseOffsetBlocks := - 2\<rparr>"

text \<open>The size bounds matter: \<open>ValidateBasic\<close> accepts offsets whose sum wraps on
  \<open>uint64\<close>. With a claim window close offset of \<open>2\<^sup>64 - 2\<close> blocks all checks
  pass, and the claim window of every session closes two blocks before it opens, so that no claim
  can be submitted.\<close>
theorem validation_accepts_wrapping_window:
  "Params_ValidateBasic wrapping_params = Inr ()
   \<and> GetClaimWindowOpenHeight wrapping_params 7 = Inr 12
   \<and> GetClaimWindowCloseHeight wrapping_params 7 = Inr 10"
proof (intro conjI)
  show "Params_ValidateBasic wrapping_params = Inr ()" by code_simp
  show "GetClaimWindowOpenHeight wrapping_params 7 = Inr 12" by code_simp
  show "GetClaimWindowCloseHeight wrapping_params 7 = Inr 10" by code_simp
qed

text \<open>A supplier that unstakes at the end of a session finishes unbonding no earlier than the
  proof window of that session closes exactly when the unbonding period is strictly longer than
  the claim and proof windows together; validation only requires it to be at least as long.\<close>
theorem unbonding_outlasts_proof_window_iff:
  assumes "Params_ValidateBasic p = Inr ()" and "params_bounded p" and "height_bounded h"
    and "uint (SupplierUnbondingPeriodSessions p) < 2 ^ 16"
    and "GetSessionEndHeight p h = Inr e"
    and "Supplier_UnstakeSessionEndHeight s = uint64_of e" and "e < 2 ^ 62"
    and "GetProofWindowCloseHeight p h = Inr pc"
  shows "(pc \<le> GetSupplierUnbondingEndHeight p s \<longleftrightarrow>
      GetSessionEndToProofWindowCloseBlocks p
        < uint (SupplierUnbondingPeriodSessions p) * numBlocks p)
    \<and> pc \<le> GetSupplierUnbondingEndHeight p s + 1"
proof -
  have p: "params_bounded p" by fact
  have e: "e = sess_end p h" using assms(5) GetSessionEndHeight_eq [OF assms(2,3)] by simp
  have e1: "1 \<le> e" using e sess_start_bounds(3) [OF assms(2,3)] assms(3) by (simp add: height_bounded_def)
  have pc: "pc = e + GetSessionEndToProofWindowCloseBlocks p + 1"
    using assms(8) window_heights_eq(5) [OF assms(2,3)]
    by (simp add: e window_defs window_offsets_eq [OF p])
  have u: "uint (Supplier_UnstakeSessionEndHeight s) = e"
    using assms(6,7) e1 by (simp add: uint_uint64_of)
  have g: "GetSupplierUnbondingEndHeight p s
      = e + uint (SupplierUnbondingPeriodSessions p) * numBlocks p"
    using GetSupplierUnbondingEndHeight_eq [OF assms(4,2)] u assms(7) by simp
  have iff: "pc \<le> GetSupplierUnbondingEndHeight p s \<longleftrightarrow>
      GetSessionEndToProofWindowCloseBlocks p
        < uint (SupplierUnbondingPeriodSessions p) * numBlocks p"
    by (auto simp: pc g)
  have n: "0 \<le> numBlocks p" "numBlocks p \<le> 2 ^ 32" using assms(2) by (auto simp: params_bounded_def)
  have k: "uint (SupplierUnbondingPeriodSessions p) * numBlocks p \<le> 2 ^ 16 * 2 ^ 32"
    using assms(4) n by (intro mult_mono) auto
  have m: "uint (SupplierUnbondingPeriodSessions p * NumBlocksPerSession p)
      = uint (SupplierUnbondingPeriodSessions p) * numBlocks p"
    using k by (intro uint_mult_small) simp
  have "GetSessionEndToProofWindowCloseBlocks p
      \<le> int64_of (SupplierUnbondingPeriodSessions p * NumBlocksPerSession p)"
    using assms(1) by (simp add: Params_ValidateBasic_iff)
  also have "\<dots> = uint (SupplierUnbondingPeriodSessions p) * numBlocks p"
    using m k by (simp add: int64_of_id)
  finally have "pc \<le> GetSupplierUnbondingEndHeight p s + 1" by (simp add: pc g)
  with iff show ?thesis by blast
qed

definition tight_params :: shared_params where
  "tight_params = NewParams\<lparr>ProofWindowCloseOffsetBlocks := 5\<rparr>"

definition tight_supplier :: supplier where
  "tight_supplier = \<lparr>OwnerAddress = ''o'', OperatorAddress = ''o'',
     Supplier_Stake = \<lparr>Denom = ''upokt'', Amount = 1\<rparr>, Services = [],
     Supplier_UnstakeSessionEndHeight = uint64_of 10, ServiceConfigHistory = []\<rparr>"

theorem unbonding_outlasts_proof_window_iff_witness:
  "Params_ValidateBasic tight_params = Inr ()
   \<and> \<not> 21 \<le> GetSupplierUnbondingEndHeight tight_params tight_supplier"
proof -
  have v: "Params_ValidateBasic tight_params = Inr ()" by code_simp
  have b: "params_bounded tight_params" by code_simp
  have h: "height_bounded 7" by (simp add: height_bounded_def)
  have k: "uint (SupplierUnbondingPeriodSessions tight_params) < 2 ^ 16" by code_simp
  have e: "GetSessionEndHeight tight_params 7 = Inr 10" by code_simp
  have u: "Supplier_UnstakeSessionEndHeight tight_supplier = uint64_of 10"
    by (simp add: tight_supplier_def)
  have pc: "GetProofWindowCloseHeight tight_params 7 = Inr 21" by code_simp
  have "\<not> GetSessionEndToProofWindowCloseBlocks tight_params
      < uint (SupplierUnbondingPeriodSessions tight_params) * numBlocks tight_params"
    by code_simp
  then show ?thesis
    using v unbonding_outlasts_proof_window_iff [OF v b h k e u _ pc] by simp
qed

end
