(* ===== verification/SharedGovernance.thy ===== *)
theory SharedGovernance
  imports SharedProps
begin

text \<open>
  Further properties of the shared module: what a single-parameter update records, the block at
  which a pending epoch and a governance message meet, and what an accepted revenue share list
  and an accepted supplier service list look like.
\<close>

section \<open>Single-parameter updates\<close>

lemma GetParams_step:
  "GetParams (SetParamsAtHeight n q st) = GetParams st" "GetParams (SetParams q st) = q"
  "GetParams (seed_history st) = GetParams st"
  by (simp_all add: seed_history_def SetParamsAtHeight_def GetParams_def SetParams_def)

lemma stamp_anchor_Inr:
  assumes "stamp_anchor p c n new = Inr q"
  obtains a m where "q = new\<lparr>SessionGridAnchorHeight := a, SessionNumberAtAnchor := m\<rparr>"
  using assms by (auto simp: stamp_anchor_def res_simps split: if_splits)

lemma timing_ignores_anchor:
  "sessionTimingParamsChanged p (new\<lparr>SessionGridAnchorHeight := a, SessionNumberAtAnchor := m\<rparr>)
    = sessionTimingParamsChanged p new"
  by (simp add: sessionTimingParamsChanged_def)

lemma record_live_eq:
  assumes "recordParamsHistory c new st = Inr st'"
  shows "GetParams st' = (if sessionTimingParamsChanged (GetParams st) new then GetParams st
    else new\<lparr>SessionGridAnchorHeight := SessionGridAnchorHeight (GetParams st),
      SessionNumberAtAnchor := SessionNumberAtAnchor (GetParams st)\<rparr>)"
proof -
  obtain eff e q n st2 where q: "stamp_anchor eff c e new = Inr q"
    and st2: "st2 = SetParamsAtHeight n q (seed_history st)"
    and st': "st' = (if \<not> sessionTimingParamsChanged (GetParams st2) q
      then SetParams (q\<lparr>SessionGridAnchorHeight := SessionGridAnchorHeight (GetParams st2),
        SessionNumberAtAnchor := SessionNumberAtAnchor (GetParams st2)\<rparr>) st2 else st2)"
    using assms unfolding recordParamsHistory_def Let_def by (auto simp only: res_simps sum.inject)
  obtain a m where qe: "q = new\<lparr>SessionGridAnchorHeight := a, SessionNumberAtAnchor := m\<rparr>"
    using q by (rule stamp_anchor_Inr)
  have "GetParams st2 = GetParams st" by (simp add: st2 GetParams_step)
  then show ?thesis by (simp add: st' qe timing_ignores_anchor GetParams_step)
qed

text \<open>An accepted single-parameter update replaces one field of the live parameters and
  schedules the whole resulting parameter set for the next session: the timing resolved there is
  that of the patched live parameters, whatever the epoch in force prescribes. On the live
  parameters a timing change has no effect before the promotion, and any other change is visible
  at once.\<close>
theorem update_param_schedules_patched_live_params:
  assumes "shared_reachable isBech32 authority (c, st)" and "chain_height c"
    and "UpdateParam isBech32 authority c msg st = Inr st'"
    and "patch_param (UpdateParam_Name msg) (GetAsUint64 msg) (GetParams st) = Some p"
    and "params_bounded p"
    and "GetSessionEndHeight (GetParamsAtHeight st c) c = Inr e"
  shows "\<not> sessionTimingParamsChanged (GetParamsAtHeight st' (e + 1)) p
    \<and> (if sessionTimingParamsChanged (GetParams st) p then GetParams st' = GetParams st
       else GetParams st' = p\<lparr>SessionGridAnchorHeight := SessionGridAnchorHeight (GetParams st),
              SessionNumberAtAnchor := SessionNumberAtAnchor (GetParams st)\<rparr>)"
proof -
  have inv: "grid_inv c st" using reachable_grid_inv [OF assms(1)] by simp
  have new: "params_good p" and rec: "recordParamsHistory c p st = Inr st'"
    using UpdateParam_Inr [OF assms(3,4)] assms(5) by (simp_all add: params_good_def)
  have cb: "height_bounded c" using assms(2) by (rule chain_height_bounded)
  have e: "e = hist_end (state_epochs st) c" using resolved_code(2) [OF inv cb] assms(6) by simp
  have nb: "height_bounded (e + 1)"
    using hist_end_bound [OF inv cb] e assms(2) by (auto simp: height_bounded_def chain_height_def)
  note i' = recordParamsHistory_inv [OF inv assms(2) new rec]
  have "epoch_at (state_epochs st') (e + 1) = stamped (epoch_at (state_epochs st) c) c (e + 1) p"
    using recorded_next [OF inv assms(2) new] i'(2) e by simp
  then have "same_timing (epoch_at (state_epochs st') (e + 1)) p"
    by (simp add: same_timing_def sessionTimingParamsChanged_def stamped_def)
  then have "same_timing (GetParamsAtHeight st' (e + 1)) p"
    using resolved_params(5) [OF i'(1) nb] same_timing_trans by blast
  then show ?thesis
    using record_live_eq [OF rec] by (simp add: same_timing_def)
qed

definition witness_param :: msg_update_param where
  "witness_param = \<lparr>UpdateParam_Authority = ''gov'', UpdateParam_Name = ''num_blocks_per_session'',
     UpdateParam_AsType = AnyUint64 20\<rparr>"

theorem update_param_schedules_patched_live_params_witness:
  "\<exists>st'. UpdateParam (\<lambda>_. True) ''gov'' 1 witness_param witness_genesis = Inr st'
    \<and> GetParams st' = NewParams
    \<and> \<not> sessionTimingParamsChanged (GetParamsAtHeight st' 11) (NewParams\<lparr>NumBlocksPerSession := 20\<rparr>)"
proof -
  have "case UpdateParam (\<lambda>_. True) ''gov'' 1 witness_param witness_genesis of
      Inr st' \<Rightarrow> True | Inl e \<Rightarrow> False"
    by code_simp
  then obtain st' where u: "UpdateParam (\<lambda>_. True) ''gov'' 1 witness_param witness_genesis = Inr st'"
    by (cases "UpdateParam (\<lambda>_. True) ''gov'' 1 witness_param witness_genesis") auto
  have p: "patch_param (UpdateParam_Name witness_param) (GetAsUint64 witness_param)
      (GetParams witness_genesis) = Some (NewParams\<lparr>NumBlocksPerSession := 20\<rparr>)"
    by (simp add: patch_param_def witness_param_def GetAsUint64_def witness_genesis_def GetParams_def)
  have b: "params_bounded (NewParams\<lparr>NumBlocksPerSession := 20\<rparr>)" by code_simp
  have e: "GetSessionEndHeight (GetParamsAtHeight witness_genesis 1) 1 = Inr 10" by code_simp
  have r: "shared_reachable (\<lambda>_. True) ''gov'' (1, witness_genesis)"
    unfolding witness_genesis_def by (rule genesis_reachable)
  have c: "chain_height 1" by (simp add: chain_height_def)
  have t: "sessionTimingParamsChanged (GetParams witness_genesis) (NewParams\<lparr>NumBlocksPerSession := 20\<rparr>)"
    by code_simp
  have g: "GetParams witness_genesis = NewParams" by (simp add: witness_genesis_def GetParams_def)
  show ?thesis
    using u t g update_param_schedules_patched_live_params [OF r c u p b e] by auto
qed

section \<open>A message in the block where an epoch takes effect\<close>

text \<open>Ten-block sessions; at height 5 the session length is raised to 20 from height 11 on; in
  block 11, before its end blocker, an unrelated parameter is updated.\<close>

definition boundary_bulk :: msg_update_params where
  "boundary_bulk = \<lparr>UpdateParams_Authority = ''gov'',
     UpdateParams_Params = NewParams\<lparr>NumBlocksPerSession := 20\<rparr>\<rparr>"

definition boundary_param :: msg_update_param where
  "boundary_param = \<lparr>UpdateParam_Authority = ''gov'',
     UpdateParam_Name = ''compute_units_to_tokens_multiplier'', UpdateParam_AsType = AnyUint64 99\<rparr>"

definition boundary_run :: "shared_state res" where
  "boundary_run =
     bindR (UpdateParams (\<lambda>_. True) ''gov'' 5 boundary_bulk witness_genesis) (\<lambda>s1.
     bindR (UpdateParam (\<lambda>_. True) ''gov'' 11 boundary_param s1) (\<lambda>s2.
     EndBlocker 11 s2))"

text \<open>One concrete run: a single-parameter update in the very block where a timing change takes effect
  undoes that change from the session after, since it rebuilds the scheduled parameters from live
  parameters that the end blocker has not promoted yet. The promotion at the end of the block then
  discards the immediate effect of the update. In this run sessions are 20 blocks long in the session that starts at 11
  and ten blocks long again from 31, and the new multiplier is not live after block 11.\<close>
theorem boundary_update_reverts_timing_change:
  "\<exists>st. boundary_run = Inr st
     \<and> NumBlocksPerSession (GetParamsAtHeight st 10) = 10
     \<and> NumBlocksPerSession (GetParamsAtHeight st 11) = 20
     \<and> NumBlocksPerSession (GetParamsAtHeight st 30) = 20
     \<and> NumBlocksPerSession (GetParamsAtHeight st 31) = 10
     \<and> ComputeUnitsToTokensMultiplier (GetParams st) = ComputeUnitsToTokensMultiplier NewParams
     \<and> ComputeUnitsToTokensMultiplier (GetParamsAtHeight st 31) = 99"
proof -
  have "case boundary_run of Inl e \<Rightarrow> False | Inr st \<Rightarrow>
       NumBlocksPerSession (GetParamsAtHeight st 10) = 10
     \<and> NumBlocksPerSession (GetParamsAtHeight st 11) = 20
     \<and> NumBlocksPerSession (GetParamsAtHeight st 30) = 20
     \<and> NumBlocksPerSession (GetParamsAtHeight st 31) = 10
     \<and> ComputeUnitsToTokensMultiplier (GetParams st) = ComputeUnitsToTokensMultiplier NewParams
     \<and> ComputeUnitsToTokensMultiplier (GetParamsAtHeight st 31) = 99"
    by code_simp
  then show ?thesis by (auto split: sum.splits)
qed

section \<open>Service configurations\<close>

definition share_ok :: "(string \<Rightarrow> bool) \<Rightarrow> revenue_share \<Rightarrow> bool" where
  "share_ok isBech32 rs \<longleftrightarrow> RevShareAddress rs \<noteq> '''' \<and> isBech32 (RevShareAddress rs)
     \<and> 0 < RevSharePercentage rs \<and> RevSharePercentage rs \<le> 100"


lemma rev_share_step_Inr:
  "rev_share_step isBech32 (seen, s) x = Inr st \<longleftrightarrow>
     (\<exists>r. x = Some r \<and> share_ok isBech32 r \<and> RevShareAddress r \<notin> set seen
       \<and> st = (RevShareAddress r # seen, s + RevSharePercentage r))"
  by (cases x) (auto simp: rev_share_step_def share_ok_def word_neq_0_conv not_le)

text \<open>What the revenue-share loop accepts, and the state it ends in.\<close>

lemma rev_share_loop:
  "foldR (rev_share_step isBech32) (seen, s) l = Inr (seen', t) \<longleftrightarrow>
    (\<exists>rs. l = map Some rs \<and> (\<forall>r \<in> set rs. share_ok isBech32 r) \<and> distinct (map RevShareAddress rs)
      \<and> set seen \<inter> RevShareAddress ` set rs = {}
      \<and> seen' = rev (map RevShareAddress rs) @ seen \<and> t = s + sum_list (map RevSharePercentage rs))"
proof (induction l arbitrary: seen s)
  case Nil
  then show ?case by auto
next
  case (Cons x l)
  show ?case
    unfolding foldR.simps bindR_Inr_iff rev_share_step_Inr
    using Cons.IH
    by (auto simp: Cons_eq_map_conv add.assoc)
qed

lemma uint_sum_list_small:
  assumes "\<forall>w \<in> set ws. w \<le> (100 :: u64)" and "length ws < 2 ^ 57"
  shows "uint (sum_list ws) = sum_list (map uint ws)"
    and "sum_list (map uint ws) \<le> 100 * int (length ws)"
proof -
  have "uint (sum_list ws) = sum_list (map uint ws) \<and> sum_list (map uint ws) \<le> 100 * int (length ws)"
    using assms
  proof (induction ws)
    case (Cons w ws)
    have "uint w \<le> 100" using Cons.prems(1) by (simp add: word_le_def)
    moreover have "int (length ws) < 2 ^ 57 - 1" using Cons.prems(2) by simp
    ultimately show ?case using Cons by (simp add: uint_add_small)
  qed simp
  then show "uint (sum_list ws) = sum_list (map uint ws)"
    and "sum_list (map uint ws) \<le> 100 * int (length ws)" by auto
qed

text \<open>A revenue share list is accepted exactly when it is not empty, has no nil entry, every
  entry has a well-formed address and a percentage between 1 and 100, no address occurs twice, and
  the percentages add up to exactly 100 as integers. The code adds them on \<open>uint64\<close>; below
  \<open>2\<^sup>5\<^sup>7\<close> entries the sum cannot wrap.\<close>
theorem rev_share_accepted_iff:
  assumes "length l < 2 ^ 57"
  shows "ValidateServiceRevShare isBech32 l = Inr () \<longleftrightarrow>
    (\<exists>rs. l = map Some rs \<and> rs \<noteq> [] \<and> list_all (share_ok isBech32) rs
      \<and> distinct (map RevShareAddress rs) \<and> sum_list (map (\<lambda>r. uint (RevSharePercentage r)) rs) = 100)"
proof -
  have sum: "sum_list (map RevSharePercentage rs) = 100
      \<longleftrightarrow> sum_list (map (\<lambda>r. uint (RevSharePercentage r)) rs) = 100"
    if "l = map Some rs" "list_all (share_ok isBech32) rs" for rs
  proof -
    have w: "\<forall>w \<in> set (map RevSharePercentage rs). w \<le> (100 :: u64)"
      using that(2) by (auto simp: share_ok_def list_all_iff)
    have "uint (sum_list (map RevSharePercentage rs)) = sum_list (map uint (map RevSharePercentage rs))"
      using assms that(1) by (intro uint_sum_list_small(1) [OF w]) simp
    then have "uint (sum_list (map RevSharePercentage rs))
        = sum_list (map (\<lambda>r. uint (RevSharePercentage r)) rs)"
      by (simp add: comp_def)
    then show ?thesis by (simp add: word_uint_eq_iff)
  qed
  have "ValidateServiceRevShare isBech32 l = Inr () \<longleftrightarrow>
    (\<exists>rs. l = map Some rs \<and> rs \<noteq> [] \<and> list_all (share_ok isBech32) rs
      \<and> distinct (map RevShareAddress rs) \<and> sum_list (map RevSharePercentage rs) = 100)"
    by (auto simp: ValidateServiceRevShare_def res_simps rev_share_loop list_all_iff
        requiredRevSharePercentageSum_def)
  then show ?thesis using sum by blast
qed

theorem rev_share_accepted_iff_witness:
  "ValidateServiceRevShare (\<lambda>_. True)
     [Some \<lparr>RevShareAddress = ''a'', RevSharePercentage = 60\<rparr>,
      Some \<lparr>RevShareAddress = ''b'', RevSharePercentage = 40\<rparr>] = Inr ()"
  by (subst rev_share_accepted_iff)
    (auto simp: share_ok_def intro!: exI [of _ "[\<lparr>RevShareAddress = ''a'', RevSharePercentage = 60\<rparr>,
      \<lparr>RevShareAddress = ''b'', RevSharePercentage = 40\<rparr>]"])

definition service_ok ::
    "(string \<Rightarrow> bool) \<Rightarrow> (string \<Rightarrow> (string \<times> string) option) \<Rightarrow> supplier_service_config \<Rightarrow> bool" where
  "service_ok isBech32 urlParse sc \<longleftrightarrow> IsValidServiceId (ServiceId sc) = Inr ()
     \<and> Endpoints sc \<noteq> [] \<and> list_all (\<lambda>e. validate_endpoint urlParse e = Inr ()) (Endpoints sc)
     \<and> ValidateServiceRevShare isBech32 (RevShare sc) = Inr ()"

lemma supplier_service_loop:
  "foldR (supplier_service_step isBech32 urlParse) seen l = Inr seen' \<longleftrightarrow>
    (\<exists>cs. l = map Some cs \<and> list_all (service_ok isBech32 urlParse) cs
      \<and> distinct (map ServiceId cs) \<and> set seen \<inter> ServiceId ` set cs = {}
      \<and> seen' = rev (map ServiceId cs) @ seen)"
proof (induction l arbitrary: seen)
  case Nil
  then show ?case by auto
next
  case (Cons x l)
  have step: "supplier_service_step isBech32 urlParse seen x = Inr st \<longleftrightarrow>
      (\<exists>c. x = Some c \<and> service_ok isBech32 urlParse c \<and> ServiceId c \<notin> set seen
        \<and> st = ServiceId c # seen)" for st
    by (cases x) (auto simp: supplier_service_step_def service_ok_def res_simps list_all_iff)
  show ?case
    unfolding foldR.simps bindR_Inr_iff step using Cons.IH by (auto simp: Cons_eq_map_conv)
qed

text \<open>A supplier's service list is accepted exactly when it is not empty, has no nil entry, its
  service IDs are valid and pairwise distinct, and every service has at least one endpoint, only
  valid endpoints and an acceptable revenue share list.\<close>
theorem supplier_services_accepted_iff:
  "ValidateSupplierServiceConfigs isBech32 urlParse l = Inr () \<longleftrightarrow>
    (\<exists>cs. l = map Some cs \<and> cs \<noteq> [] \<and> list_all (service_ok isBech32 urlParse) cs
      \<and> distinct (map ServiceId cs))"
  by (auto simp: ValidateSupplierServiceConfigs_def res_simps supplier_service_loop)

end
