(* ===== verification/Sdk.thy ===== *)
theory Sdk
  imports SharedGovernance
begin

text \<open>
  What the keepers use of the Cosmos SDK, as a parameter: address decoding, coin parsing and
  arithmetic, and the bank keeper. The bank is seen through the calls the modules make to it: a log
  of accepted calls is part of the state, and whether the bank accepts a call is a function of the
  log and the call. A module's net inflow is read off the log.
\<close>

section \<open>The SDK as a parameter\<close>

datatype bank_call =
    SendFromAccountToModule string string coin
  | SendFromModuleToAccount string string coin
  | SendFromModuleToModule string string coin
  | MintCoins string coin
  | BurnCoins string coin

type_synonym bank_log = "bank_call list"

text \<open>
  \<open>parseCoinNormalized c\<close> is the coin \<open>ParseCoinNormalized(c.String())\<close> returns, and
  whether it returns an error with it. Coins of different denominations make \<open>IsLTE\<close> and
  \<open>Add\<close> panic and \<open>SafeSub\<close> fail.
\<close>

record sdk =
  isBech32 :: "string \<Rightarrow> bool"
  parseCoinNormalized :: "coin \<Rightarrow> coin \<times> bool"
  coinIsValid :: "coin \<Rightarrow> bool"
  coinIsLTE :: "coin \<Rightarrow> coin \<Rightarrow> bool res"
  coinSafeSub :: "coin \<Rightarrow> coin \<Rightarrow> coin res"
  coinAdd :: "coin \<Rightarrow> coin \<Rightarrow> coin res"
  bankAccepts :: "bank_log \<Rightarrow> bank_call \<Rightarrow> bool"

text \<open>The documented behaviour the modules rely on. A coin that parses without an error is the
  coin it was rendered from.\<close>

definition sdk_ok :: "sdk \<Rightarrow> bool" where
  "sdk_ok sdk \<longleftrightarrow>
     (\<forall>c. \<not> snd (parseCoinNormalized sdk c) \<longrightarrow> fst (parseCoinNormalized sdk c) = c)
   \<and> (\<forall>a b. coinIsLTE sdk a b
          = (if Denom a = Denom b then Inr (Amount a \<le> Amount b) else Inl Panic))
   \<and> (\<forall>a b c. coinSafeSub sdk a b = Inr c \<longrightarrow> Denom a = Denom b \<and> Amount b \<le> Amount a
          \<and> c = \<lparr>Denom = Denom a, Amount = Amount a - Amount b\<rparr>)
   \<and> (\<forall>a b. coinAdd sdk a b = (if Denom a = Denom b
          then Inr \<lparr>Denom = Denom a, Amount = Amount a + Amount b\<rparr> else Inl Panic))"

lemma sdk_okD:
  assumes "sdk_ok sdk"
  shows "\<not> snd (parseCoinNormalized sdk c) \<Longrightarrow> fst (parseCoinNormalized sdk c) = c"
    and "coinIsLTE sdk a b = (if Denom a = Denom b then Inr (Amount a \<le> Amount b) else Inl Panic)"
    and "coinSafeSub sdk a b = Inr c \<Longrightarrow> Denom a = Denom b \<and> Amount b \<le> Amount a
          \<and> c = \<lparr>Denom = Denom a, Amount = Amount a - Amount b\<rparr>"
    and "coinAdd sdk a b = (if Denom a = Denom b
          then Inr \<lparr>Denom = Denom a, Amount = Amount a + Amount b\<rparr> else Inl Panic)"
  using assms unfolding sdk_ok_def by blast+

text \<open>A bank call either is accepted and logged, or returns an error.\<close>

definition bank_do :: "sdk \<Rightarrow> bank_call \<Rightarrow> bank_log \<Rightarrow> bank_log res" where
  "bank_do sdk call log = (if bankAccepts sdk log call then Inr (log @ [call]) else Inl ErrExt)"

lemma bank_do_Inr [res_simps]:
  "bank_do sdk call log = Inr log' \<longleftrightarrow> bankAccepts sdk log call \<and> log' = log @ [call]"
  by (auto simp: bank_do_def)

section \<open>A module's net inflow\<close>

fun call_inflow :: "string \<Rightarrow> bank_call \<Rightarrow> int" where
  "call_inflow m (SendFromAccountToModule a m' c) = (if m' = m then Amount c else 0)"
| "call_inflow m (SendFromModuleToAccount m' a c) = (if m' = m then - Amount c else 0)"
| "call_inflow m (SendFromModuleToModule m1 m2 c) =
     (if m2 = m then Amount c else 0) - (if m1 = m then Amount c else 0)"
| "call_inflow m (MintCoins m' c) = (if m' = m then Amount c else 0)"
| "call_inflow m (BurnCoins m' c) = (if m' = m then - Amount c else 0)"

definition inflow :: "string \<Rightarrow> bank_log \<Rightarrow> int" where
  "inflow m log = sum_list (map (call_inflow m) log)"

lemma inflow_Nil [simp]: "inflow m [] = 0"
  by (simp add: inflow_def)

lemma inflow_append [simp]: "inflow m (log @ log') = inflow m log + inflow m log'"
  by (simp add: inflow_def)

lemma inflow_single [simp]: "inflow m [c] = call_inflow m c"
  by (simp add: inflow_def)

section \<open>Stake coins\<close>

definition DenomuPOKT :: string where "DenomuPOKT = ''upokt''"

text \<open>The stake checks shared by the staking messages of applications, gateways and suppliers,
  each with its own error.\<close>

definition validate_stake_coin :: "sdk \<Rightarrow> go_error \<Rightarrow> coin option \<Rightarrow> unit res" where
  "validate_stake_coin sdk err stake =
     (case stake of None \<Rightarrow> Inl err
      | Some c \<Rightarrow> (case parseCoinNormalized sdk c of (parsed, failed) \<Rightarrow>
          if \<not> coinIsValid sdk parsed then Inl err
          else if failed then Inl err
          else if Amount parsed = 0 \<or> Amount parsed < 0 then Inl err
          else if Denom parsed \<noteq> DenomuPOKT then Inl err
          else Inr ()))"

lemma validate_stake_coin_ok:
  assumes "sdk_ok sdk" and "validate_stake_coin sdk err stake = Inr ()"
  obtains c where "stake = Some c" and "Denom c = DenomuPOKT" and "0 < Amount c"
proof (cases stake)
  case None
  then show ?thesis using assms(2) by (simp add: validate_stake_coin_def)
next
  case (Some c)
  then show ?thesis
    using that assms(2) sdk_okD(1) [OF assms(1), of c]
    by (cases "parseCoinNormalized sdk c")
      (auto simp: validate_stake_coin_def split: if_splits)
qed

section \<open>Keys and stores of staked actors\<close>

text \<open>\<open>StringKey\<close>: the bytes of the index followed by a slash.\<close>

definition StringKey :: "string \<Rightarrow> string" where
  "StringKey strIndex = strIndex @ ''/''"

lemma StringKey_inject [simp]: "StringKey a = StringKey b \<longleftrightarrow> a = b"
  by (simp add: StringKey_def)

definition stake_total :: "('a \<Rightarrow> coin) \<Rightarrow> (string, 'a) kv \<Rightarrow> int" where
  "stake_total stakeOf s = sum_list (map (\<lambda>e. Amount (stakeOf (snd e))) s)"

text \<open>The keys under which a store holds its actors are those of their addresses.\<close>

definition keyed :: "('a \<Rightarrow> string) \<Rightarrow> (string, 'a) kv \<Rightarrow> bool" where
  "keyed addr s \<longleftrightarrow> kv_ok s \<and> (\<forall>(k, a) \<in> set s. k = StringKey (addr a))"

lemma stake_total_set:
  "kv_ok s \<Longrightarrow> stake_total f (kv_set k a s)
    = stake_total f s + Amount (f a) - (case map_of s k of None \<Rightarrow> 0 | Some b \<Rightarrow> Amount (f b))"
proof (induction k a s rule: kv_set.induct)
  case (1 k v)
  then show ?case by (simp add: stake_total_def)
next
  case (2 k v k' v' s)
  have none: "k < k' \<Longrightarrow> map_of s k = None"
    using "2.prems" by (force simp: map_of_eq_None_iff)
  show ?case
    using 2 none by (auto simp: stake_total_def split: option.splits)
qed

lemma stake_total_del:
  "kv_ok s \<Longrightarrow> stake_total f (kv_del k s)
    = stake_total f s - (case map_of s k of None \<Rightarrow> 0 | Some b \<Rightarrow> Amount (f b))"
proof (induction s)
  case Nil
  then show ?case by (simp add: stake_total_def kv_del_def)
next
  case (Cons e s)
  obtain k' v' where e: "e = (k', v')" by (cases e)
  have "map_of s k' = None" using Cons.prems by (force simp: map_of_eq_None_iff e)
  then show ?case
    using Cons by (auto simp: stake_total_def kv_del_def e split: option.splits)
qed

text \<open>
  The contract a keeper's actor store offers to its handlers: the stored actors, one under its
  address after it is set (as the store keeps it, a supplier without its configurations), none under it after it is removed, the others untouched. The handlers'
  reasoning about lookups and the total stake is done once under it.
\<close>

locale actor_store =
  fixes entries :: "'s \<Rightarrow> (string, 'a) kv"
    and put :: "'a \<Rightarrow> 's \<Rightarrow> 's" and remove :: "'a \<Rightarrow> 's \<Rightarrow> 's"
    and addr :: "'a \<Rightarrow> string" and stakeOf :: "'a \<Rightarrow> coin" and stored :: "'a \<Rightarrow> 'a"
  assumes entries_put: "entries (put a s) = kv_set (StringKey (addr a)) (stored a) (entries s)"
    and addr_stored: "addr (stored a) = addr a" and stake_stored: "stakeOf (stored a) = stakeOf a"
    and entries_remove: "entries (remove a s) = kv_del (StringKey (addr a)) (entries s)"
begin

definition find :: "'s \<Rightarrow> string \<Rightarrow> 'a option" where
  "find s x = map_of (entries s) (StringKey x)"

definition stakes :: "'s \<Rightarrow> int" where
  "stakes s = stake_total stakeOf (entries s)"

definition store_ok :: "'s \<Rightarrow> bool" where
  "store_ok s \<longleftrightarrow> keyed addr (entries s)"

lemma find_put: "find (put a s) x = (if x = addr a then Some (stored a) else find s x)"
  by (simp add: find_def entries_put kv_simps)

lemma find_remove: "find (remove a s) x = (if x = addr a then None else find s x)"
  by (simp add: find_def entries_remove kv_simps)

lemma store_ok_put: "store_ok s \<Longrightarrow> store_ok (put a s)"
  by (auto simp: store_ok_def keyed_def entries_put kv_simps set_kv_set addr_stored)

lemma store_ok_remove: "store_ok s \<Longrightarrow> store_ok (remove a s)"
  by (auto simp: store_ok_def keyed_def entries_remove kv_simps) (auto simp: kv_del_def)

lemma find_addr: "store_ok s \<Longrightarrow> find s x = Some a \<Longrightarrow> addr a = x"
  by (auto simp: store_ok_def keyed_def find_def dest!: map_of_SomeD)

lemma find_entry: "store_ok s \<Longrightarrow> (k, a) \<in> set (entries s) \<Longrightarrow> find s (addr a) = Some a"
  by (auto simp: store_ok_def keyed_def find_def dest: kv_ok_distinct intro!: map_of_is_SomeI)

lemma stakes_put:
  "store_ok s \<Longrightarrow> stakes (put a s) = stakes s + Amount (stakeOf a)
     - (case find s (addr a) of None \<Rightarrow> 0 | Some b \<Rightarrow> Amount (stakeOf b))"
  by (simp add: store_ok_def keyed_def stakes_def find_def entries_put stake_total_set stake_stored)

lemma stakes_remove:
  "store_ok s \<Longrightarrow> stakes (remove a s) = stakes s
     - (case find s (addr a) of None \<Rightarrow> 0 | Some b \<Rightarrow> Amount (stakeOf b))"
  by (simp add: store_ok_def keyed_def stakes_def find_def entries_remove stake_total_del)

text \<open>A staking message that raises the stake of an actor by what it escrows, and one that
  releases the stake of an actor it removes, keep the stakes in step with the escrow.\<close>

lemma stakes_new:
  "store_ok s \<Longrightarrow> find s (addr a) = None \<Longrightarrow> stakes (put a s) = stakes s + Amount (stakeOf a)"
  by (simp add: stakes_put)

lemma stakes_update:
  "store_ok s \<Longrightarrow> find s (addr a) = Some b
     \<Longrightarrow> stakes (put a s) = stakes s + Amount (stakeOf a) - Amount (stakeOf b)"
  by (simp add: stakes_put)

lemma stakes_keep:
  "store_ok s \<Longrightarrow> find s (addr a) = Some b \<Longrightarrow> stakeOf a = stakeOf b \<Longrightarrow> stakes (put a s) = stakes s"
  by (simp add: stakes_put)

lemma stakes_release:
  "store_ok s \<Longrightarrow> find s (addr a) = Some b
     \<Longrightarrow> stakes (remove a s) = stakes s - Amount (stakeOf b)"
  by (simp add: stakes_remove)

end

section \<open>A concrete SDK\<close>

text \<open>An instance with the documented behaviour, for concrete runs: every non-empty string is an
  address, and the bank accepts every call.\<close>

definition plain_sdk :: sdk where
  "plain_sdk = \<lparr>isBech32 = (\<lambda>s. s \<noteq> ''''),
     parseCoinNormalized = (\<lambda>c. (c, Denom c = '''' \<or> Amount c < 0)),
     coinIsValid = (\<lambda>c. Denom c \<noteq> '''' \<and> 0 \<le> Amount c),
     coinIsLTE = (\<lambda>a b. if Denom a = Denom b then Inr (Amount a \<le> Amount b) else Inl Panic),
     coinSafeSub = (\<lambda>a b. if Denom a = Denom b \<and> Amount b \<le> Amount a
        then Inr \<lparr>Denom = Denom a, Amount = Amount a - Amount b\<rparr> else Inl ErrFmt),
     coinAdd = (\<lambda>a b. if Denom a = Denom b
        then Inr \<lparr>Denom = Denom a, Amount = Amount a + Amount b\<rparr> else Inl Panic),
     bankAccepts = (\<lambda>log call. True)\<rparr>"

lemma plain_sdk_ok: "sdk_ok plain_sdk"
  by (auto simp: sdk_ok_def plain_sdk_def split: if_splits)

end
