(* ===== verification/GatewayModule.thy ===== *)
theory GatewayModule
  imports Sdk
begin

text \<open>
  The gateway module (\<open>x/gateway\<close>): gateways stake, unstake, publish a metadata card, and
  are removed with their stake returned once their unbonding period is over. Events, logs and
  telemetry are left out; what is computed for an event and can panic is kept.
\<close>

section \<open>Gateways\<close>

record gateway =
  Gateway_Address :: string
  Gateway_Stake :: coin
  Gateway_UnstakeSessionEndHeight :: u64
  Gateway_Metadata :: "8 word list option"

text \<open>The projection the end blockers decode: a gateway without its card.\<close>

record gateway_lifecycle =
  GL_Address :: string
  GL_Stake :: coin
  GL_UnstakeSessionEndHeight :: u64

definition Gateway_IsUnbonding :: "gateway \<Rightarrow> bool" where
  "Gateway_IsUnbonding g \<longleftrightarrow> Gateway_UnstakeSessionEndHeight g \<noteq> 0"

definition GetGatewayUnbondingHeight :: "shared_params \<Rightarrow> gateway \<Rightarrow> int" where
  "GetGatewayUnbondingHeight p g = int64_of (Gateway_UnstakeSessionEndHeight g
     + GatewayUnbondingPeriodSessions p * NumBlocksPerSession p)"

definition Gateway_IsActive :: "gateway \<Rightarrow> int \<Rightarrow> bool" where
  "Gateway_IsActive g queryHeight \<longleftrightarrow>
     \<not> Gateway_IsUnbonding g \<or> uint64_of queryHeight \<le> Gateway_UnstakeSessionEndHeight g"

definition GL_IsUnbonding :: "gateway_lifecycle \<Rightarrow> bool" where
  "GL_IsUnbonding l \<longleftrightarrow> GL_UnstakeSessionEndHeight l \<noteq> 0"

definition GL_IsActive :: "gateway_lifecycle \<Rightarrow> int \<Rightarrow> bool" where
  "GL_IsActive l queryHeight \<longleftrightarrow>
     \<not> GL_IsUnbonding l \<or> uint64_of queryHeight \<le> GL_UnstakeSessionEndHeight l"

definition ToGateway :: "gateway_lifecycle \<Rightarrow> gateway" where
  "ToGateway l = \<lparr>Gateway_Address = GL_Address l, Gateway_Stake = GL_Stake l,
     Gateway_UnstakeSessionEndHeight = GL_UnstakeSessionEndHeight l, Gateway_Metadata = None\<rparr>"

section \<open>State\<close>

text \<open>The parameters hold only the minimum stake, which is nil until they are set.\<close>

record gateway_state =
  Gateway_MinStake :: "coin option"
  GatewayStore :: "(string, gateway) kv"

definition GatewayKey :: "string \<Rightarrow> string" where
  "GatewayKey gatewayAddr = gatewayAddr @ ''/''"

definition SetGateway :: "gateway \<Rightarrow> gateway_state \<Rightarrow> gateway_state" where
  "SetGateway g st =
     st\<lparr>GatewayStore := kv_set (GatewayKey (Gateway_Address g)) g (GatewayStore st)\<rparr>"

definition GetGateway :: "gateway_state \<Rightarrow> string \<Rightarrow> gateway option" where
  "GetGateway st address = map_of (GatewayStore st) (GatewayKey address)"

definition RemoveGateway :: "string \<Rightarrow> gateway_state \<Rightarrow> gateway_state" where
  "RemoveGateway address st = st\<lparr>GatewayStore := kv_del (GatewayKey address) (GatewayStore st)\<rparr>"

text \<open>Decoding a stored gateway as a lifecycle drops its card.\<close>

definition lifecycle_of :: "gateway \<Rightarrow> gateway_lifecycle" where
  "lifecycle_of g = \<lparr>GL_Address = Gateway_Address g, GL_Stake = Gateway_Stake g,
     GL_UnstakeSessionEndHeight = Gateway_UnstakeSessionEndHeight g\<rparr>"

definition GetAllGatewayLifecycles :: "gateway_state \<Rightarrow> gateway_lifecycle list" where
  "GetAllGatewayLifecycles st = map (lifecycle_of \<circ> snd) (GatewayStore st)"

definition GetAllGateways :: "gateway_state \<Rightarrow> gateway list" where
  "GetAllGateways st = map snd (GatewayStore st)"

section \<open>Messages\<close>

record msg_stake_gateway =
  MSG_Address :: string
  MSG_Stake :: "coin option"

definition MsgStakeGateway_ValidateBasic :: "sdk \<Rightarrow> msg_stake_gateway \<Rightarrow> unit res" where
  "MsgStakeGateway_ValidateBasic sdk msg =
     (if \<not> isBech32 sdk (MSG_Address msg) then Inl (Gateway ErrGatewayInvalidAddress)
      else validate_stake_coin sdk (Gateway ErrGatewayInvalidStake) (MSG_Stake msg))"

definition createGateway :: "msg_stake_gateway \<Rightarrow> gateway" where
  "createGateway msg = \<lparr>Gateway_Address = MSG_Address msg, Gateway_Stake = the (MSG_Stake msg),
     Gateway_UnstakeSessionEndHeight = 0, Gateway_Metadata = None\<rparr>"

definition updateGateway :: "sdk \<Rightarrow> gateway \<Rightarrow> msg_stake_gateway \<Rightarrow> gateway res" where
  "updateGateway sdk g msg =
     (if MSG_Address msg \<noteq> Gateway_Address g then Inl (Gateway ErrGatewayUnauthorized)
      else case MSG_Stake msg of None \<Rightarrow> Inl (Gateway ErrGatewayInvalidStake)
      | Some stake \<Rightarrow> bindR (coinIsLTE sdk stake (Gateway_Stake g)) (\<lambda>lte.
          if lte then Inl (Gateway ErrGatewayInvalidStake)
          else Inr (g\<lparr>Gateway_Stake := stake\<rparr>)))"

text \<open>The gateway to store and the coins to escrow for it.\<close>

definition staked_gateway ::
    "sdk \<Rightarrow> msg_stake_gateway \<Rightarrow> gateway option \<Rightarrow> (gateway \<times> coin) res" where
  "staked_gateway sdk msg found =
     (case found of
        None \<Rightarrow> Inr (createGateway msg, the (MSG_Stake msg))
      | Some g \<Rightarrow>
          bindR (mapErr (Status InvalidArgument) (updateGateway sdk g msg)) (\<lambda>g'.
          bindR (mapErr (\<lambda>_. Status InvalidArgument (Gateway ErrGatewayInvalidStake))
                   (coinSafeSub sdk (the (MSG_Stake msg)) (Gateway_Stake g))) (\<lambda>coinsToEscrow.
          Inr (if Gateway_IsUnbonding g' then g'\<lparr>Gateway_UnstakeSessionEndHeight := 0\<rparr> else g',
               coinsToEscrow))))"

definition StakeGateway ::
    "sdk \<Rightarrow> int \<Rightarrow> shared_state \<Rightarrow> msg_stake_gateway \<Rightarrow> gateway_state \<times> bank_log
     \<Rightarrow> (gateway_state \<times> bank_log) res" where
  "StakeGateway sdk height sh msg = (\<lambda>(st, log).
     bindR (mapErr (Status InvalidArgument) (MsgStakeGateway_ValidateBasic sdk msg)) (\<lambda>_.
     bindR (staked_gateway sdk msg (GetGateway st (MSG_Address msg))) (\<lambda>(g, coinsToEscrow).
     if Amount coinsToEscrow = 0
       then Inl (Status InvalidArgument (Gateway ErrGatewayInvalidStake))
     else case Gateway_MinStake st of None \<Rightarrow> Inl Panic
     | Some minStake \<Rightarrow>
         if Amount (the (MSG_Stake msg)) < Amount minStake
           then Inl (Status InvalidArgument (Gateway ErrGatewayInvalidStake))
         else bindR (mapErr (Status Internal)
                (bank_do sdk (SendFromAccountToModule (MSG_Address msg) ''gateway'' coinsToEscrow) log))
              (\<lambda>log'.
           let st' = SetGateway g st
           in bindR (Keeper_GetSessionEndHeight sh height) (\<lambda>_. Inr (st', log'))))))"

definition UnstakeGateway ::
    "sdk \<Rightarrow> int \<Rightarrow> shared_state \<Rightarrow> string \<Rightarrow> gateway_state \<times> bank_log
     \<Rightarrow> (gateway_state \<times> bank_log) res" where
  "UnstakeGateway sdk height sh address = (\<lambda>(st, log).
     if \<not> isBech32 sdk address then Inl (Status InvalidArgument (Gateway ErrGatewayInvalidAddress))
     else case GetGateway st address of
       None \<Rightarrow> Inl (Status NotFound (Gateway ErrGatewayNotFound))
     | Some g \<Rightarrow>
         if Gateway_IsUnbonding g then Inl (Status FailedPrecondition (Gateway ErrGatewayIsUnstaking))
         else bindR (Keeper_GetSessionEndHeight sh height) (\<lambda>sessionEndHeight.
           Inr (SetGateway (g\<lparr>Gateway_UnstakeSessionEndHeight := uint64_of sessionEndHeight\<rparr>) st, log)))"

definition card_of :: "8 word list option \<Rightarrow> 8 word list" where
  "card_of md = (case md of None \<Rightarrow> [] | Some bz \<Rightarrow> bz)"

definition UpdateGatewayMetadata ::
    "sdk \<Rightarrow> int \<Rightarrow> shared_state \<Rightarrow> string \<Rightarrow> 8 word list option \<Rightarrow> gateway_state \<times> bank_log
     \<Rightarrow> (gateway_state \<times> bank_log) res" where
  "UpdateGatewayMetadata sdk height sh address md = (\<lambda>(st, log).
     if \<not> isBech32 sdk address then Inl (Status InvalidArgument (Gateway ErrGatewayInvalidAddress))
     else bindR (mapErr (Status InvalidArgument) (Metadata_ValidateBasic md)) (\<lambda>_.
     case GetGateway st address of
       None \<Rightarrow> Inl (Status NotFound (Gateway ErrGatewayNotFound))
     | Some g \<Rightarrow>
         if md = None \<or> card_of (Gateway_Metadata g) = card_of md then Inr (st, log)
         else bindR (Keeper_GetSessionEndHeight sh height) (\<lambda>_.
           Inr (SetGateway (g\<lparr>Gateway_Metadata := md\<rparr>) st, log))))"

section \<open>Unbonding\<close>

definition UnbondGateway ::
    "sdk \<Rightarrow> gateway \<Rightarrow> gateway_state \<times> bank_log \<Rightarrow> (gateway_state \<times> bank_log) res" where
  "UnbondGateway sdk g = (\<lambda>(st, log).
     if \<not> isBech32 sdk (Gateway_Address g) then Inl ErrExt
     else bindR (bank_do sdk (SendFromModuleToAccount ''gateway'' (Gateway_Address g) (Gateway_Stake g)) log)
       (\<lambda>log'. Inr (RemoveGateway (Gateway_Address g) st, log')))"

text \<open>One round of the end blocker's loop; the state also counts the unbonded gateways.\<close>

definition unbond_gateway_step ::
    "sdk \<Rightarrow> int \<Rightarrow> shared_state \<Rightarrow> nat \<times> gateway_state \<times> bank_log \<Rightarrow> gateway_lifecycle
     \<Rightarrow> (nat \<times> gateway_state \<times> bank_log) res" where
  "unbond_gateway_step sdk currentHeight sh = (\<lambda>(n, s) l.
     if \<not> GL_IsUnbonding l then Inr (n, s)
     else
       let g = ToGateway l;
           unstakeParams = GetParamsAtHeight sh (int64_of (Gateway_UnstakeSessionEndHeight g));
           unbondingEndHeight = GetGatewayUnbondingHeight unstakeParams g
       in if unbondingEndHeight > currentHeight then Inr (n, s)
       else bindR (UnbondGateway sdk g s) (\<lambda>s'.
            bindR (GetSessionEndHeight (GetParams sh) currentHeight) (\<lambda>_. Inr (n + 1, s'))))"

definition EndBlockerUnbondGateways ::
    "sdk \<Rightarrow> int \<Rightarrow> shared_state \<Rightarrow> gateway_state \<times> bank_log \<Rightarrow> (nat \<times> gateway_state \<times> bank_log) res" where
  "EndBlockerUnbondGateways sdk currentHeight sh s =
     bindR (IsSessionEndHeight (GetParams sh) currentHeight) (\<lambda>atEnd.
     if \<not> atEnd then Inr (0, s)
     else foldR (unbond_gateway_step sdk currentHeight sh) (0, s) (GetAllGatewayLifecycles (fst s)))"

section \<open>Parameters\<close>

definition Gateway_ValidateMinStake :: "coin option \<Rightarrow> unit res" where
  "Gateway_ValidateMinStake minStake =
     (case minStake of None \<Rightarrow> Inl (Gateway ErrGatewayParamInvalid)
      | Some c \<Rightarrow>
          if Denom c \<noteq> DenomuPOKT then Inl (Gateway ErrGatewayParamInvalid)
          else if Amount c = 0 \<or> Amount c < 0 then Inl (Gateway ErrGatewayParamInvalid)
          else Inr ())"

record msg_gateway_update_param =
  MGU_Authority :: string
  MGU_Name :: string
  MGU_AsCoin :: "coin option option"

text \<open>\<open>AsType\<close> is nil or the coin variant, whose coin may be nil.\<close>

definition Gateway_UpdateParam ::
    "sdk \<Rightarrow> string \<Rightarrow> msg_gateway_update_param \<Rightarrow> gateway_state \<Rightarrow> gateway_state res" where
  "Gateway_UpdateParam sdk authority msg st =
     (if \<not> isBech32 sdk (MGU_Authority msg) then Inl (Status InvalidArgument ErrExt)
      else case MGU_AsCoin msg of
        None \<Rightarrow> Inl (Status InvalidArgument (Gateway ErrGatewayParamInvalid))
      | Some c \<Rightarrow>
          if MGU_Name msg \<noteq> ''min_stake''
            then Inl (Status InvalidArgument (Gateway ErrGatewayParamInvalid))
          else bindR (mapErr (Status InvalidArgument) (Gateway_ValidateMinStake c)) (\<lambda>_.
            if authority \<noteq> MGU_Authority msg
              then Inl (Status InvalidArgument (Gateway ErrGatewayInvalidSigner))
            else Inr (st\<lparr>Gateway_MinStake := c\<rparr>)))"

definition Gateway_UpdateParams ::
    "sdk \<Rightarrow> string \<Rightarrow> string \<Rightarrow> coin option \<Rightarrow> gateway_state \<Rightarrow> gateway_state res" where
  "Gateway_UpdateParams sdk authority msgAuthority minStake st =
     (if \<not> isBech32 sdk msgAuthority then Inl (Status InvalidArgument ErrExt)
      else bindR (mapErr (Status InvalidArgument) (Gateway_ValidateMinStake minStake)) (\<lambda>_.
        if authority \<noteq> msgAuthority
          then Inl (Status PermissionDenied (Gateway ErrGatewayInvalidSigner))
        else Inr (st\<lparr>Gateway_MinStake := minStake\<rparr>)))"

section \<open>The store contract\<close>

interpretation gws: actor_store GatewayStore SetGateway
    "\<lambda>g. RemoveGateway (Gateway_Address g)" Gateway_Address Gateway_Stake "\<lambda>g. g"
  by unfold_locales
    (simp_all add: SetGateway_def RemoveGateway_def GatewayKey_def StringKey_def)

lemma GetGateway_find: "GetGateway st x = gws.find st x"
  by (simp add: GetGateway_def gws.find_def GatewayKey_def StringKey_def)

end
