(* ===== verification/GatewayProps.thy ===== *)
theory GatewayProps
  imports GatewayModule
begin

text \<open>
  What the gateway module guarantees: the end blocker releases exactly the gateways whose
  unbonding period is over, and at all times the stakes on record are what the module account
  holds in escrow.
\<close>

section \<open>The end blocker\<close>

text \<open>A gateway is due at a height when it is unbonding and, under the parameters of its last
  session, its unbonding period is over.\<close>

definition gateway_due :: "int \<Rightarrow> shared_state \<Rightarrow> gateway \<Rightarrow> bool" where
  "gateway_due c sh g \<longleftrightarrow> Gateway_IsUnbonding g \<and>
     GetGatewayUnbondingHeight
       (GetParamsAtHeight sh (int64_of (Gateway_UnstakeSessionEndHeight g))) g \<le> c"

definition refund :: "gateway \<Rightarrow> bank_call" where
  "refund g = SendFromModuleToAccount ''gateway'' (Gateway_Address g) (Gateway_Stake g)"

lemma unbond_gateway_step_Inr:
  assumes "unbond_gateway_step sdk c sh (n, st, log) (lifecycle_of g) = Inr (n', st', log')"
  shows "n' = (if gateway_due c sh g then n + 1 else n)"
    and "GatewayStore st' = (if gateway_due c sh g
           then kv_del (GatewayKey (Gateway_Address g)) (GatewayStore st) else GatewayStore st)"
    and "log' = (if gateway_due c sh g then log @ [refund g] else log)"
    and "Gateway_MinStake st' = Gateway_MinStake st"
  using assms
  by (auto simp: unbond_gateway_step_def Let_def gateway_due_def GL_IsUnbonding_def lifecycle_of_def
      Gateway_IsUnbonding_def ToGateway_def GetGatewayUnbondingHeight_def UnbondGateway_def
      RemoveGateway_def refund_def res_simps split: if_splits prod.splits)

lemma unbond_gateways_loop:
  assumes "foldR (unbond_gateway_step sdk c sh) (n, st, log) (map lifecycle_of gs)
      = Inr (n', st', log')"
  shows "n' = n + length (filter (gateway_due c sh) gs)
    \<and> GatewayStore st' = filter (\<lambda>e. fst e \<notin> (GatewayKey \<circ> Gateway_Address) ` {g \<in> set gs. gateway_due c sh g})
        (GatewayStore st)
    \<and> log' = log @ map refund (filter (gateway_due c sh) gs)
    \<and> Gateway_MinStake st' = Gateway_MinStake st"
  using assms
proof (induction gs arbitrary: n st log)
  case Nil
  then show ?case by simp
next
  case (Cons g gs)
  from Cons.prems obtain n1 st1 log1
    where s: "unbond_gateway_step sdk c sh (n, st, log) (lifecycle_of g) = Inr (n1, st1, log1)"
      and r: "foldR (unbond_gateway_step sdk c sh) (n1, st1, log1) (map lifecycle_of gs) = Inr (n', st', log')"
    by (auto simp: res_simps)
  show ?case
    using Cons.IH [OF r] unbond_gateway_step_Inr [OF s]
    by (cases "gateway_due c sh g") (auto simp: kv_del_def conj_commute intro!: filter_cong)
qed

lemma GetAllGatewayLifecycles_map: "GetAllGatewayLifecycles st = map lifecycle_of (GetAllGateways st)"
  by (simp add: GetAllGatewayLifecycles_def GetAllGateways_def)

lemma keyed_due_keys:
  assumes ok: "gws.store_ok st" and e: "e \<in> set (GatewayStore st)"
  shows "fst e \<in> (GatewayKey \<circ> Gateway_Address) ` {g \<in> set (GetAllGateways st). P g} \<longleftrightarrow> P (snd e)"
proof -
  have key: "fst f = GatewayKey (Gateway_Address (snd f))" if "f \<in> set (GatewayStore st)" for f
    using ok that by (auto simp: gws.store_ok_def keyed_def GatewayKey_def StringKey_def)
  have "distinct (map fst (GatewayStore st))"
    using ok by (simp add: gws.store_ok_def keyed_def kv_ok_distinct)
  then have same: "f = e" if "f \<in> set (GatewayStore st)" "fst f = fst e" for f
    using that e by (simp add: distinct_map inj_on_def)
  show ?thesis
  proof
    assume "fst e \<in> (GatewayKey \<circ> Gateway_Address) ` {g \<in> set (GetAllGateways st). P g}"
    then obtain f where f: "f \<in> set (GatewayStore st)" "P (snd f)"
      "fst e = GatewayKey (Gateway_Address (snd f))"
      by (auto simp: GetAllGateways_def)
    then have "f = e" using same key by simp
    then show "P (snd e)" using f(2) by simp
  next
    assume "P (snd e)"
    then show "fst e \<in> (GatewayKey \<circ> Gateway_Address) ` {g \<in> set (GetAllGateways st). P g}"
      using key [OF e] e by (auto simp: GetAllGateways_def)
  qed
qed

lemma end_block_gateways:
  assumes "gws.store_ok st"
    and "EndBlockerUnbondGateways sdk c sh (st, log) = Inr (n, st', log')"
    and "IsSessionEndHeight (GetParams sh) c = Inr True"
  shows "GatewayStore st' = filter (\<lambda>e. \<not> gateway_due c sh (snd e)) (GatewayStore st)"
    and "log' = log @ map refund (filter (gateway_due c sh) (GetAllGateways st))"
    and "n = length (filter (gateway_due c sh) (GetAllGateways st))"
proof -
  have "foldR (unbond_gateway_step sdk c sh) (0, st, log) (map lifecycle_of (GetAllGateways st))
      = Inr (n, st', log')"
    using assms(2,3) by (simp add: EndBlockerUnbondGateways_def GetAllGatewayLifecycles_map)
  note l = unbond_gateways_loop [OF this]
  show "log' = log @ map refund (filter (gateway_due c sh) (GetAllGateways st))"
    and "n = length (filter (gateway_due c sh) (GetAllGateways st))" using l by simp_all
  have "GatewayStore st' = filter (\<lambda>e. fst e \<notin> (GatewayKey \<circ> Gateway_Address)
      ` {g \<in> set (GetAllGateways st). gateway_due c sh g}) (GatewayStore st)"
    using l by blast
  also have "\<dots> = filter (\<lambda>e. \<not> gateway_due c sh (snd e)) (GatewayStore st)"
    using keyed_due_keys [OF assms(1)] by (intro filter_cong) simp_all
  finally show "GatewayStore st' = filter (\<lambda>e. \<not> gateway_due c sh (snd e)) (GatewayStore st)" .
qed

section \<open>Escrow\<close>

lemma staked_gateway_Inr:
  assumes "staked_gateway sdk msg found = Inr (g, c)" and "sdk_ok sdk"
    and "\<And>g0. found = Some g0 \<Longrightarrow> Gateway_Address g0 = MSG_Address msg"
  shows "Gateway_Address g = MSG_Address msg"
    and "Amount (Gateway_Stake g) - (case found of None \<Rightarrow> 0 | Some g0 \<Rightarrow> Amount (Gateway_Stake g0))
      = Amount c"
  using assms
  by (auto simp: staked_gateway_def createGateway_def updateGateway_def res_simps
      dest: sdk_okD(3) split: option.splits if_splits)

text \<open>The stake changes exactly by what the bank moves.\<close>

definition gateway_escrow :: "gateway_state \<times> bank_log \<Rightarrow> int" where
  "gateway_escrow s = gws.stakes (fst s) - inflow ''gateway'' (snd s)"

lemma StakeGateway_escrow:
  assumes "StakeGateway sdk h sh msg s = Inr s'" and "sdk_ok sdk" and "gws.store_ok (fst s)"
  shows "gateway_escrow s' = gateway_escrow s" and "gws.store_ok (fst s')"
proof -
  obtain st log where s: "s = (st, log)" by (cases s)
  from assms(1) obtain g c where g: "staked_gateway sdk msg (GetGateway st (MSG_Address msg)) = Inr (g, c)"
    and s': "s' = (SetGateway g st, log @ [SendFromAccountToModule (MSG_Address msg) ''gateway'' c])"
    by (auto simp: s StakeGateway_def res_simps Let_def split: option.splits if_splits)
  have ok: "gws.store_ok st" using assms(3) s by simp
  note i = staked_gateway_Inr [OF g assms(2)]
  have a: "Gateway_Address g0 = MSG_Address msg" if "GetGateway st (MSG_Address msg) = Some g0" for g0
    using gws.find_addr [OF ok] that by (simp add: GetGateway_find)
  show "gateway_escrow s' = gateway_escrow s"
    using i(2) [OF a] i(1) [OF a] gws.stakes_put [OF ok, of g]
    by (simp add: gateway_escrow_def s' s GetGateway_find)
  show "gws.store_ok (fst s')" using gws.store_ok_put [OF ok] by (simp add: s')
qed

lemma UnstakeGateway_escrow:
  assumes "UnstakeGateway sdk h sh addr s = Inr s'" and "gws.store_ok (fst s)"
  shows "gateway_escrow s' = gateway_escrow s" and "gws.store_ok (fst s')"
  using assms gws.find_addr [OF assms(2)] gws.store_ok_put
  by (auto simp: UnstakeGateway_def res_simps GetGateway_find gateway_escrow_def
      split: prod.splits option.splits if_splits
      intro!: gws.stakes_keep)

lemma UpdateGatewayMetadata_escrow:
  assumes "UpdateGatewayMetadata sdk h sh addr md s = Inr s'" and "gws.store_ok (fst s)"
  shows "gateway_escrow s' = gateway_escrow s" and "gws.store_ok (fst s')"
  using assms gws.find_addr [OF assms(2)] gws.store_ok_put
  by (auto simp: UpdateGatewayMetadata_def res_simps GetGateway_find gateway_escrow_def
      split: prod.splits option.splits if_splits
      intro!: gws.stakes_keep)

lemma EndBlockerUnbondGateways_escrow:
  assumes "EndBlockerUnbondGateways sdk c sh s = Inr (n, s')" and "gws.store_ok (fst s)"
  shows "gateway_escrow s' = gateway_escrow s" and "gws.store_ok (fst s')"
proof -
  obtain st log st' log' where s: "s = (st, log)" "s' = (st', log')" by (cases s, cases s')
  have ok: "gws.store_ok st" using assms(2) s by simp
  have "gateway_escrow s' = gateway_escrow s \<and> gws.store_ok st'"
  proof (cases "IsSessionEndHeight (GetParams sh) c = Inr True")
    case False
    then show ?thesis
      using assms by (auto simp: s EndBlockerUnbondGateways_def res_simps split: if_splits)
  next
    case True
    note e = end_block_gateways [OF ok assms(1) [unfolded s] True]
    have tot: "stake_total Gateway_Stake xs = stake_total Gateway_Stake (filter (\<lambda>e. \<not> gateway_due c sh (snd e)) xs)
        - inflow ''gateway'' (map refund (filter (gateway_due c sh) (map snd xs)))" for xs
      by (induction xs) (auto simp: stake_total_def inflow_def refund_def)
    have "keyed Gateway_Address (filter P (GatewayStore st))" for P
      using ok by (auto simp: gws.store_ok_def keyed_def kv_ok_filter)
    then show ?thesis
      using tot [of "GatewayStore st"] e
      by (simp add: s gateway_escrow_def gws.stakes_def gws.store_ok_def GetAllGateways_def)
  qed
  then show "gateway_escrow s' = gateway_escrow s" and "gws.store_ok (fst s')" by (simp_all add: s)
qed

text \<open>The gateway module's transitions: any accepted message, and the end blocker.\<close>

inductive gateway_step ::
    "sdk \<Rightarrow> string \<Rightarrow> gateway_state \<times> bank_log \<Rightarrow> gateway_state \<times> bank_log \<Rightarrow> bool"
  for sdk authority
where
  stake: "StakeGateway sdk h sh msg s = Inr s' \<Longrightarrow> gateway_step sdk authority s s'"
| unstake: "UnstakeGateway sdk h sh addr s = Inr s' \<Longrightarrow> gateway_step sdk authority s s'"
| metadata: "UpdateGatewayMetadata sdk h sh addr md s = Inr s' \<Longrightarrow> gateway_step sdk authority s s'"
| update_param: "Gateway_UpdateParam sdk authority msg st = Inr st' \<Longrightarrow>
     gateway_step sdk authority (st, log) (st', log)"
| update_params: "Gateway_UpdateParams sdk authority a m st = Inr st' \<Longrightarrow>
     gateway_step sdk authority (st, log) (st', log)"
| end_block: "EndBlockerUnbondGateways sdk h sh s = Inr (n, s') \<Longrightarrow> gateway_step sdk authority s s'"

lemma gateway_params_store:
  "Gateway_UpdateParam sdk authority msg st = Inr st' \<Longrightarrow> GatewayStore st' = GatewayStore st"
  "Gateway_UpdateParams sdk authority a m st = Inr st' \<Longrightarrow> GatewayStore st' = GatewayStore st"
  by (auto simp: Gateway_UpdateParam_def Gateway_UpdateParams_def res_simps
      split: option.splits if_splits)

lemma gateway_step_escrow:
  assumes "gateway_step sdk authority s s'" and "sdk_ok sdk" and "gws.store_ok (fst s)"
  shows "gateway_escrow s' = gateway_escrow s \<and> gws.store_ok (fst s')"
  using assms
proof cases
  case (update_param msg st st' log)
  then show ?thesis using assms(3) gateway_params_store(1) [OF update_param(3)]
    by (simp add: gateway_escrow_def gws.stakes_def gws.store_ok_def)
next
  case (update_params a m st st' log)
  then show ?thesis using assms(3) gateway_params_store(2) [OF update_params(3)]
    by (simp add: gateway_escrow_def gws.stakes_def gws.store_ok_def)
next
  case (stake h sh msg)
  then show ?thesis using StakeGateway_escrow assms(2,3) by blast
next
  case (unstake h sh addr)
  then show ?thesis using UnstakeGateway_escrow assms(3) by blast
next
  case (metadata h sh addr md)
  then show ?thesis using UpdateGatewayMetadata_escrow assms(3) by blast
next
  case (end_block h sh n)
  then show ?thesis using EndBlockerUnbondGateways_escrow assms(3) by blast
qed

section \<open>Properties\<close>

text \<open>C13. At a session end the gateway end blocker releases exactly the gateways that are due: it
  removes them from the store and no others, returns to each its full recorded stake in one bank
  call, in store order, and counts them. At any other height it changes nothing.\<close>
theorem end_blocker_releases_due_gateways:
  assumes "keyed Gateway_Address (GatewayStore st)"
    and "EndBlockerUnbondGateways sdk c sh (st, log) = Inr (n, st', log')"
    and "IsSessionEndHeight (GetParams sh) c = Inr atEnd"
  shows "if atEnd
    then GetAllGateways st' = filter (\<lambda>g. \<not> gateway_due c sh g) (GetAllGateways st)
      \<and> log' = log @ map refund (filter (gateway_due c sh) (GetAllGateways st))
      \<and> n = length (filter (gateway_due c sh) (GetAllGateways st))
    else st' = st \<and> log' = log \<and> n = 0"
proof (cases atEnd)
  case True
  have ok: "gws.store_ok st" using assms(1) by (simp add: gws.store_ok_def)
  show ?thesis
    using end_block_gateways [OF ok assms(2)] assms(3) True
    by (simp add: GetAllGateways_def filter_map comp_def)
next
  case False
  then show ?thesis using assms(2,3) by (simp add: EndBlockerUnbondGateways_def)
qed

definition two_gateways :: gateway_state where
  "two_gateways = \<lparr>Gateway_MinStake = Some \<lparr>Denom = ''upokt'', Amount = 100\<rparr>,
     GatewayStore =
       [(''g1/'', \<lparr>Gateway_Address = ''g1'', Gateway_Stake = \<lparr>Denom = ''upokt'', Amount = 500\<rparr>,
          Gateway_UnstakeSessionEndHeight = 10, Gateway_Metadata = None\<rparr>),
        (''g2/'', \<lparr>Gateway_Address = ''g2'', Gateway_Stake = \<lparr>Denom = ''upokt'', Amount = 700\<rparr>,
          Gateway_UnstakeSessionEndHeight = 0, Gateway_Metadata = None\<rparr>)]\<rparr>"

theorem end_blocker_releases_due_gateways_witness:
  "\<exists>st'. EndBlockerUnbondGateways plain_sdk 60 witness_genesis (two_gateways, [])
      = Inr (1, st', [SendFromModuleToAccount ''gateway'' ''g1'' \<lparr>Denom = ''upokt'', Amount = 500\<rparr>])
    \<and> map Gateway_Address (GetAllGateways st') = [''g2'']"
proof -
  have k: "keyed Gateway_Address (GatewayStore two_gateways)"
    by (simp add: keyed_def two_gateways_def StringKey_def)
  have e: "IsSessionEndHeight (GetParams witness_genesis) 60 = Inr True" by code_simp
  have "case EndBlockerUnbondGateways plain_sdk 60 witness_genesis (two_gateways, []) of
      Inr _ \<Rightarrow> True | Inl _ \<Rightarrow> False"
    by code_simp
  then obtain n st' log' where r:
    "EndBlockerUnbondGateways plain_sdk 60 witness_genesis (two_gateways, []) = Inr (n, st', log')"
    by (cases "EndBlockerUnbondGateways plain_sdk 60 witness_genesis (two_gateways, [])") auto
  have d: "filter (gateway_due 60 witness_genesis) (GetAllGateways two_gateways)
      = [hd (GetAllGateways two_gateways)]"
    and nd: "filter (\<lambda>g. \<not> gateway_due 60 witness_genesis g) (GetAllGateways two_gateways)
      = tl (GetAllGateways two_gateways)"
    by code_simp+
  show ?thesis
    using r end_blocker_releases_due_gateways [OF k r e]
    by (auto simp: d nd) (simp_all add: two_gateways_def GetAllGateways_def refund_def)
qed

text \<open>C14. Whatever sequence of gateway messages, parameter updates and end blockers runs, the
  stakes recorded for gateways move exactly with the coins the gateway module account receives
  and pays out: no stake is recorded without being escrowed, none is released twice or lost.\<close>
theorem gateway_stakes_stay_escrowed:
  assumes "(gateway_step sdk authority)\<^sup>*\<^sup>* (st, log) (st', log')" and "sdk_ok sdk"
    and "keyed Gateway_Address (GatewayStore st)"
  shows "stake_total Gateway_Stake (GatewayStore st') - stake_total Gateway_Stake (GatewayStore st)
    = inflow ''gateway'' log' - inflow ''gateway'' log"
proof -
  have "gateway_escrow (st', log') = gateway_escrow (st, log) \<and> gws.store_ok (fst (st', log'))"
    using assms(1)
  proof (induction rule: rtranclp_induct)
    case base
    then show ?case using assms(3) by (simp add: gws.store_ok_def)
  next
    case (step s s')
    then show ?case using gateway_step_escrow [OF step.hyps(2) assms(2)] by simp
  qed
  then show ?thesis by (simp add: gateway_escrow_def gws.stakes_def)
qed

theorem gateway_stakes_stay_escrowed_witness:
  "\<exists>st' log'. StakeGateway plain_sdk 5 witness_genesis
      \<lparr>MSG_Address = ''g2'', MSG_Stake = Some \<lparr>Denom = ''upokt'', Amount = 900\<rparr>\<rparr> (two_gateways, [])
      = Inr (st', log')
    \<and> stake_total Gateway_Stake (GatewayStore st') - stake_total Gateway_Stake (GatewayStore two_gateways)
      = inflow ''gateway'' log'"
proof -
  let ?m = "\<lparr>MSG_Address = ''g2'', MSG_Stake = Some \<lparr>Denom = ''upokt'', Amount = 900\<rparr>\<rparr>"
  have k: "keyed Gateway_Address (GatewayStore two_gateways)"
    by (simp add: keyed_def two_gateways_def StringKey_def)
  have "case StakeGateway plain_sdk 5 witness_genesis ?m (two_gateways, []) of
      Inr _ \<Rightarrow> True | Inl _ \<Rightarrow> False"
    by code_simp
  then obtain st' log' where r: "StakeGateway plain_sdk 5 witness_genesis ?m (two_gateways, []) = Inr (st', log')"
    by (cases "StakeGateway plain_sdk 5 witness_genesis ?m (two_gateways, [])") auto
  have "(gateway_step plain_sdk ''gov'')\<^sup>*\<^sup>* (two_gateways, []) (st', log')"
    using gateway_step.stake [OF r] by blast
  then show ?thesis
    using r gateway_stakes_stay_escrowed [OF _ plain_sdk_ok k, of "''gov''" "[]" st' log'] by simp
qed

end
