(* ===== verification/AppTypes.thy ===== *)
theory AppTypes
  imports GatewayProps
begin

text \<open>
  The application module's data (\<open>x/application/types\<close>): applications, their service
  configuration timeline, the messages and their validation, and the module parameters.
\<close>

section \<open>Applications\<close>

text \<open>A service configuration of an application is its service ID; a timeline entry may lack one.\<close>

record app_config_update =
  ACU_ApplicationAddress :: string
  ACU_Service :: "string option"
  ACU_ActivationHeight :: int
  ACU_DeactivationHeight :: int

record pending_transfer =
  PT_DestinationAddress :: string
  PT_SessionEndHeight :: u64

text \<open>The pending undelegations map a session end height to the gateways undelegated from.\<close>

record application =
  App_Address :: string
  App_Stake :: coin
  App_ServiceConfigs :: "string list"
  DelegateeGatewayAddresses :: "string list"
  PendingUndelegations :: "(u64, string list) kv"
  App_UnstakeSessionEndHeight :: u64
  PendingTransfer :: "pending_transfer option"
  PerSessionSpendLimit :: "coin option"
  App_ServiceConfigHistory :: "app_config_update list"

record pending_undelegation =
  PU_ApplicationAddress :: string
  PU_GatewayAddress :: string

definition App_IsUnbonding :: "application \<Rightarrow> bool" where
  "App_IsUnbonding a \<longleftrightarrow> App_UnstakeSessionEndHeight a \<noteq> 0"

definition HasPendingTransfer :: "application \<Rightarrow> bool" where
  "HasPendingTransfer a \<longleftrightarrow> PendingTransfer a \<noteq> None"

definition App_IsActive :: "application \<Rightarrow> int \<Rightarrow> bool" where
  "App_IsActive a queryHeight =
     (if App_IsUnbonding a then uint64_of queryHeight \<le> App_UnstakeSessionEndHeight a
      else case PendingTransfer a of
        Some t \<Rightarrow> uint64_of queryHeight \<le> PT_SessionEndHeight t
      | None \<Rightarrow> True)"

definition ACU_IsActive :: "app_config_update \<Rightarrow> int \<Rightarrow> bool" where
  "ACU_IsActive s queryHeight =
     (if ACU_ActivationHeight s > queryHeight then False
      else if ACU_DeactivationHeight s = 0 then True
      else if ACU_DeactivationHeight s \<le> queryHeight then False
      else True)"

definition App_GetActiveServiceConfigs :: "application \<Rightarrow> int \<Rightarrow> string option list" where
  "App_GetActiveServiceConfigs a queryHeight =
     (if length (App_ServiceConfigHistory a) = 0 then map Some (App_ServiceConfigs a)
      else map ACU_Service (filter (\<lambda>u. ACU_IsActive u queryHeight) (App_ServiceConfigHistory a)))"

definition BackfillServiceConfigHistory :: "application \<Rightarrow> application" where
  "BackfillServiceConfigHistory a =
     (if length (App_ServiceConfigHistory a) > 0 then a
      else if length (App_ServiceConfigs a) = 0 then a
      else a\<lparr>App_ServiceConfigHistory :=
          map (\<lambda>svc. \<lparr>ACU_ApplicationAddress = App_Address a, ACU_Service = Some svc,
             ACU_ActivationHeight = 1, ACU_DeactivationHeight = 0\<rparr>) (App_ServiceConfigs a)\<rparr>)"

definition GetApplicationUnbondingHeight :: "shared_params \<Rightarrow> application \<Rightarrow> int" where
  "GetApplicationUnbondingHeight p a = int64_of (App_UnstakeSessionEndHeight a
     + ApplicationUnbondingPeriodSessions p * NumBlocksPerSession p)"

text \<open>The getters return zero values on a nil transfer.\<close>

definition GetApplicationTransferHeight :: "shared_params \<Rightarrow> application \<Rightarrow> int res" where
  "GetApplicationTransferHeight p a =
     GetSettlementSessionEndHeight p
       (int64_of (case PendingTransfer a of None \<Rightarrow> 0 | Some t \<Rightarrow> PT_SessionEndHeight t))"

section \<open>Parameters\<close>

record app_params =
  MaxDelegatedGateways :: u64
  App_MinStake :: "coin option"

definition App_zeroParams :: app_params where
  "App_zeroParams = \<lparr>MaxDelegatedGateways = 0, App_MinStake = None\<rparr>"

definition App_DefaultMinStake :: coin where
  "App_DefaultMinStake = \<lparr>Denom = DenomuPOKT, Amount = 1000000\<rparr>"

definition MinPerSessionSpendLimit :: coin where
  "MinPerSessionSpendLimit = \<lparr>Denom = DenomuPOKT, Amount = 1000000\<rparr>"

definition ValidateMaxDelegatedGateways :: "u64 \<Rightarrow> unit res" where
  "ValidateMaxDelegatedGateways n = (if n < 1 then Inl (App ErrAppParamInvalid) else Inr ())"

definition App_ValidateMinStake :: "coin option \<Rightarrow> unit res" where
  "App_ValidateMinStake minStake =
     (case minStake of None \<Rightarrow> Inl (App ErrAppParamInvalid)
      | Some c \<Rightarrow>
          if Denom c \<noteq> DenomuPOKT then Inl (App ErrAppParamInvalid)
          else if Amount c = 0 \<or> Amount c < 0 then Inl (App ErrAppParamInvalid)
          else Inr ())"

definition App_Params_Validate :: "app_params \<Rightarrow> unit res" where
  "App_Params_Validate p =
     bindR (ValidateMaxDelegatedGateways (MaxDelegatedGateways p)) (\<lambda>_.
       App_ValidateMinStake (App_MinStake p))"

section \<open>Messages\<close>

record msg_stake_application =
  MSA_Address :: string
  MSA_Stake :: "coin option"
  MSA_Services :: "string option list"
  MSA_PerSessionSpendLimit :: "coin option"

definition ValidatePerSessionSpendLimit :: "coin option \<Rightarrow> unit res" where
  "ValidatePerSessionSpendLimit limit =
     (case limit of None \<Rightarrow> Inr ()
      | Some c \<Rightarrow>
          if Amount c < 0 then Inl (App ErrAppInvalidPerSessionSpendLimit)
          else if Amount c = 0 then Inr ()
          else if Denom c \<noteq> DenomuPOKT then Inl (App ErrAppInvalidPerSessionSpendLimit)
          else if Amount c < Amount MinPerSessionSpendLimit
            then Inl (App ErrAppInvalidPerSessionSpendLimit)
          else Inr ())"

definition MsgStakeApplication_ValidateBasic :: "sdk \<Rightarrow> msg_stake_application \<Rightarrow> unit res" where
  "MsgStakeApplication_ValidateBasic sdk msg =
     (if \<not> isBech32 sdk (MSA_Address msg) then Inl (App ErrAppInvalidAddress)
      else bindR (validate_stake_coin sdk (App ErrAppInvalidStake) (MSA_Stake msg)) (\<lambda>_.
           bindR (mapErr (\<lambda>_. App ErrAppInvalidServiceConfigs)
                    (ValidateAppServiceConfigs (MSA_Services msg))) (\<lambda>_.
           ValidatePerSessionSpendLimit (MSA_PerSessionSpendLimit msg))))"

text \<open>The services of a validated message: no entry is nil.\<close>

definition app_services :: "msg_stake_application \<Rightarrow> string list" where
  "app_services msg = map the (MSA_Services msg)"

definition MsgDelegateToGateway_ValidateBasic :: "sdk \<Rightarrow> string \<Rightarrow> string \<Rightarrow> unit res" where
  "MsgDelegateToGateway_ValidateBasic sdk appAddress gatewayAddress =
     (if \<not> isBech32 sdk appAddress then Inl (App ErrAppInvalidAddress)
      else if \<not> isBech32 sdk gatewayAddress then Inl (App ErrAppInvalidGatewayAddress)
      else Inr ())"

definition MsgUndelegateFromGateway_ValidateBasic :: "sdk \<Rightarrow> string \<Rightarrow> string \<Rightarrow> unit res" where
  "MsgUndelegateFromGateway_ValidateBasic sdk appAddress gatewayAddress =
     (if \<not> isBech32 sdk appAddress then Inl (App ErrAppInvalidAddress)
      else if \<not> isBech32 sdk gatewayAddress then Inl (App ErrAppInvalidGatewayAddress)
      else Inr ())"

definition MsgTransferApplication_ValidateBasic :: "sdk \<Rightarrow> string \<Rightarrow> string \<Rightarrow> unit res" where
  "MsgTransferApplication_ValidateBasic sdk src dst =
     (if src = '''' then Inl (App ErrAppInvalidAddress)
      else if dst = '''' then Inl (App ErrAppInvalidAddress)
      else if \<not> isBech32 sdk src then Inl (App ErrAppInvalidAddress)
      else if \<not> isBech32 sdk dst then Inl (App ErrAppInvalidAddress)
      else if src = dst then Inl (App ErrAppDuplicateAddress)
      else Inr ())"

text \<open>The value of a parameter update: nil, or one of the two variants.\<close>

datatype app_param_value = AppParamNil | AppAsUint64 u64 | AppAsCoin "coin option"

record msg_app_update_param =
  MAU_Authority :: string
  MAU_Name :: string
  MAU_AsType :: app_param_value

definition App_GetAsUint64 :: "app_param_value \<Rightarrow> u64" where
  "App_GetAsUint64 v = (case v of AppAsUint64 w \<Rightarrow> w | _ \<Rightarrow> 0)"

definition App_GetAsCoin :: "app_param_value \<Rightarrow> coin option" where
  "App_GetAsCoin v = (case v of AppAsCoin c \<Rightarrow> c | _ \<Rightarrow> None)"

definition MsgAppUpdateParam_ValidateBasic :: "sdk \<Rightarrow> msg_app_update_param \<Rightarrow> unit res" where
  "MsgAppUpdateParam_ValidateBasic sdk msg =
     (if \<not> isBech32 sdk (MAU_Authority msg) then Inl ErrExt
      else case MAU_AsType msg of
        AppParamNil \<Rightarrow> Inl (App ErrAppParamInvalid)
      | v \<Rightarrow>
          if MAU_Name msg = ''max_delegated_gateways'' then
            (case v of AppAsUint64 w \<Rightarrow> ValidateMaxDelegatedGateways w
             | _ \<Rightarrow> Inl (App ErrAppParamInvalid))
          else if MAU_Name msg = ''min_stake'' then
            (case v of AppAsCoin c \<Rightarrow> App_ValidateMinStake c | _ \<Rightarrow> Inl (App ErrAppParamInvalid))
          else Inl (App ErrAppParamInvalid))"

end
