(* ===== verification/AppKeeper.thy ===== *)
theory AppKeeper
  imports AppTypes "HOL-Library.Sublist"
begin

text \<open>
  The application module's store (\<open>x/application/keeper/application.go\<close>,
  \<open>application_index.go\<close>): applications by address, and the indexes of unstaking and
  transferring applications, of delegations by gateway and of undelegations by application, which
  every write of an application maintains.
\<close>

record app_state =
  App_Params :: "app_params option"
  Applications :: "(string, application) kv"
  AppUnstaking :: "(string, string) kv"
  AppTransfer :: "(string, string) kv"
  AppDelegation :: "(string, string) kv"
  AppUndelegation :: "(string, pending_undelegation) kv"

section \<open>Keys and parameters\<close>

definition ApplicationKey :: "string \<Rightarrow> string" where
  "ApplicationKey appAddr = StringKey appAddr"

definition UndelegationKey :: "string \<Rightarrow> string \<Rightarrow> string" where
  "UndelegationKey appAddr gatewayAddr = StringKey appAddr @ StringKey gatewayAddr"

definition DelegationKey :: "string \<Rightarrow> string \<Rightarrow> string" where
  "DelegationKey gatewayAddr appAddr = StringKey gatewayAddr @ StringKey appAddr"

definition App_GetParams :: "app_state \<Rightarrow> app_params" where
  "App_GetParams st = (case App_Params st of None \<Rightarrow> App_zeroParams | Some p \<Rightarrow> p)"

definition App_SetParams :: "app_params \<Rightarrow> app_state \<Rightarrow> app_state" where
  "App_SetParams p st = st\<lparr>App_Params := Some p\<rparr>"

section \<open>Indexes\<close>

definition indexApplicationUnstaking :: "application \<Rightarrow> app_state \<Rightarrow> app_state" where
  "indexApplicationUnstaking a st =
     (let appKey = ApplicationKey (App_Address a)
      in st\<lparr>AppUnstaking :=
           (if App_IsUnbonding a then kv_set appKey appKey (AppUnstaking st)
            else kv_del appKey (AppUnstaking st))\<rparr>)"

definition indexApplicationTransfer :: "application \<Rightarrow> app_state \<Rightarrow> app_state" where
  "indexApplicationTransfer a st =
     (let appKey = ApplicationKey (App_Address a)
      in st\<lparr>AppTransfer :=
           (if HasPendingTransfer a then kv_set appKey appKey (AppTransfer st)
            else kv_del appKey (AppTransfer st))\<rparr>)"

text \<open>All gateways with a pending undelegation, in map iteration order.\<close>

definition pending_gateways :: "application \<Rightarrow> string list" where
  "pending_gateways a = concat (map snd (PendingUndelegations a))"

definition indexApplicationDelegations :: "application \<Rightarrow> app_state \<Rightarrow> app_state" where
  "indexApplicationDelegations a st =
     (let removed = fold (\<lambda>gw. kv_del (DelegationKey gw (App_Address a))) (pending_gateways a)
                      (AppDelegation st)
      in st\<lparr>AppDelegation :=
           fold (\<lambda>gw. kv_set (DelegationKey gw (App_Address a)) (ApplicationKey (App_Address a)))
             (DelegateeGatewayAddresses a) removed\<rparr>)"

text \<open>The keys of an application's undelegations: those that start with its key.\<close>

definition undelegation_keys :: "string \<Rightarrow> app_state \<Rightarrow> string list" where
  "undelegation_keys appAddr st =
     filter (prefix (ApplicationKey appAddr)) (map fst (AppUndelegation st))"

definition indexApplicationUndelegations :: "application \<Rightarrow> app_state \<Rightarrow> app_state" where
  "indexApplicationUndelegations a st =
     (let cleared = fold kv_del (undelegation_keys (App_Address a) st) (AppUndelegation st)
      in st\<lparr>AppUndelegation :=
             fold (\<lambda>gw. kv_set (UndelegationKey (App_Address a) gw)
                 \<lparr>PU_ApplicationAddress = App_Address a, PU_GatewayAddress = gw\<rparr>)
               (pending_gateways a) cleared,
           AppDelegation :=
             fold (\<lambda>gw. kv_del (DelegationKey gw (App_Address a))) (pending_gateways a)
               (AppDelegation st)\<rparr>)"

definition removeApplicationUnstakingIndex :: "string \<Rightarrow> app_state \<Rightarrow> app_state" where
  "removeApplicationUnstakingIndex applicationAddress st =
     st\<lparr>AppUnstaking := kv_del (ApplicationKey applicationAddress) (AppUnstaking st)\<rparr>"

definition removeApplicationTransferIndex :: "string \<Rightarrow> app_state \<Rightarrow> app_state" where
  "removeApplicationTransferIndex applicationAddress st =
     st\<lparr>AppTransfer := kv_del (ApplicationKey applicationAddress) (AppTransfer st)\<rparr>"

definition removeApplicationDelegationIndex :: "string \<Rightarrow> string \<Rightarrow> app_state \<Rightarrow> app_state" where
  "removeApplicationDelegationIndex applicationAddress gatewayAddress st =
     st\<lparr>AppDelegation := kv_del (DelegationKey gatewayAddress applicationAddress) (AppDelegation st)\<rparr>"

definition removeApplicationDelegationsIndexes :: "application \<Rightarrow> app_state \<Rightarrow> app_state" where
  "removeApplicationDelegationsIndexes a st =
     fold (\<lambda>gw. removeApplicationDelegationIndex (App_Address a) gw) (DelegateeGatewayAddresses a) st"

definition removeApplicationUndelegationIndex :: "string \<Rightarrow> app_state \<Rightarrow> app_state" where
  "removeApplicationUndelegationIndex undelegationKey st =
     st\<lparr>AppUndelegation := kv_del undelegationKey (AppUndelegation st)\<rparr>"

definition removeApplicationUndelegationIndexes :: "string \<Rightarrow> app_state \<Rightarrow> app_state" where
  "removeApplicationUndelegationIndexes applicationAddress st =
     fold removeApplicationUndelegationIndex (undelegation_keys applicationAddress st) st"

section \<open>Applications\<close>

definition SetApplication :: "application \<Rightarrow> app_state \<Rightarrow> app_state" where
  "SetApplication a st =
     (let st1 = indexApplicationUnstaking a st;
          st2 = indexApplicationTransfer a st1;
          st3 = indexApplicationDelegations a st2;
          st4 = indexApplicationUndelegations a st3
      in st4\<lparr>Applications := kv_set (ApplicationKey (App_Address a)) a (Applications st4)\<rparr>)"

definition GetApplication :: "app_state \<Rightarrow> string \<Rightarrow> application option" where
  "GetApplication st appAddr = map_of (Applications st) (ApplicationKey appAddr)"

definition RemoveApplication :: "application \<Rightarrow> app_state \<Rightarrow> app_state" where
  "RemoveApplication a st =
     (let st1 = removeApplicationUnstakingIndex (App_Address a) st;
          st2 = removeApplicationTransferIndex (App_Address a) st1;
          st3 = removeApplicationUndelegationIndexes (App_Address a) st2;
          st4 = removeApplicationDelegationsIndexes a st3
      in st4\<lparr>Applications := kv_del (ApplicationKey (App_Address a)) (Applications st4)\<rparr>)"

definition GetAllApplications :: "app_state \<Rightarrow> application list" where
  "GetAllApplications st = map snd (Applications st)"

text \<open>An index iterator's \<open>Value\<close>: the application under the primary key the entry holds.
  A loop reads it when it reaches the entry; the entries themselves are those present when the
  iterator was opened.\<close>

definition applicationFromPrimaryKey :: "app_state \<Rightarrow> string \<Rightarrow> application res" where
  "applicationFromPrimaryKey st applicationKey =
     (case map_of (Applications st) applicationKey of None \<Rightarrow> Inl ErrFmt | Some a \<Rightarrow> Inr a)"

definition GetAllUnstakingApplicationsIterator :: "app_state \<Rightarrow> string list" where
  "GetAllUnstakingApplicationsIterator st = map snd (AppUnstaking st)"

definition GetAllTransferringApplicationsIterator :: "app_state \<Rightarrow> string list" where
  "GetAllTransferringApplicationsIterator st = map snd (AppTransfer st)"

definition GetDelegationsIterator :: "app_state \<Rightarrow> string \<Rightarrow> string list" where
  "GetDelegationsIterator st gatewayAddress =
     map snd (filter (\<lambda>e. prefix (StringKey gatewayAddress) (fst e)) (AppDelegation st))"

text \<open>\<open>ALL_UNDELEGATIONS\<close> is the empty address.\<close>

definition GetUndelegationsIterator ::
    "app_state \<Rightarrow> string \<Rightarrow> (string \<times> pending_undelegation) list" where
  "GetUndelegationsIterator st applicationAddress =
     (let appKey = (if applicationAddress \<noteq> '''' then ApplicationKey applicationAddress else '''')
      in filter (\<lambda>e. prefix appKey (fst e)) (AppUndelegation st))"

section \<open>Queries\<close>

definition Query_Application :: "app_state \<Rightarrow> string option \<Rightarrow> application res" where
  "Query_Application st req =
     (case req of None \<Rightarrow> Inl (Status InvalidArgument ErrFmt)
      | Some address \<Rightarrow>
          (case GetApplication st address of
             None \<Rightarrow> Inl (Status NotFound (App ErrAppNotFound))
           | Some a \<Rightarrow> Inr a))"

section \<open>The store contract\<close>

lemma Applications_SetApplication:
  "Applications (SetApplication a st) = kv_set (StringKey (App_Address a)) a (Applications st)"
  by (simp add: SetApplication_def Let_def indexApplicationUnstaking_def
      indexApplicationTransfer_def indexApplicationDelegations_def
      indexApplicationUndelegations_def ApplicationKey_def)

lemma fold_remove_delegation:
  "fold (\<lambda>gw. removeApplicationDelegationIndex x gw) gws st
    = st\<lparr>AppDelegation := fold (\<lambda>gw. kv_del (DelegationKey gw x)) gws (AppDelegation st)\<rparr>"
  by (induction gws arbitrary: st) (simp_all add: removeApplicationDelegationIndex_def)

lemma fold_remove_undelegation:
  "fold removeApplicationUndelegationIndex ks st
    = st\<lparr>AppUndelegation := fold kv_del ks (AppUndelegation st)\<rparr>"
  by (induction ks arbitrary: st) (simp_all add: removeApplicationUndelegationIndex_def)

text \<open>What each component of the state is after a write or a removal.\<close>

lemma RemoveApplication_eq:
  "RemoveApplication a st = st\<lparr>
     Applications := kv_del (StringKey (App_Address a)) (Applications st),
     AppUnstaking := kv_del (StringKey (App_Address a)) (AppUnstaking st),
     AppTransfer := kv_del (StringKey (App_Address a)) (AppTransfer st),
     AppDelegation := fold (\<lambda>gw. kv_del (DelegationKey gw (App_Address a)))
        (DelegateeGatewayAddresses a) (AppDelegation st),
     AppUndelegation := fold kv_del (undelegation_keys (App_Address a) st) (AppUndelegation st)\<rparr>"
  by (simp add: RemoveApplication_def Let_def removeApplicationUnstakingIndex_def
      removeApplicationTransferIndex_def removeApplicationUndelegationIndexes_def
      removeApplicationDelegationsIndexes_def fold_remove_delegation fold_remove_undelegation
      undelegation_keys_def ApplicationKey_def)

interpretation aps: actor_store Applications SetApplication RemoveApplication App_Address App_Stake
    "\<lambda>a. a"
  by unfold_locales (simp_all add: Applications_SetApplication RemoveApplication_eq)

lemma GetApplication_find: "GetApplication st x = aps.find st x"
  by (simp add: GetApplication_def aps.find_def ApplicationKey_def)

end
