(* ===== verification/AppHandlers.thy ===== *)
theory AppHandlers
  imports AppKeeper
begin

text \<open>
  The application module's message handlers: staking, unstaking, delegation to and undelegation
  from gateways, starting a transfer, and parameter updates. The height, the shared module's state
  and the gateway module's state are read-only arguments; the module's state and the bank log are
  threaded.
\<close>

type_synonym app_ctx = "app_state \<times> bank_log"

section \<open>Service configuration changes\<close>

definition appServiceIdSetEqual :: "string list \<Rightarrow> string list \<Rightarrow> bool" where
  "appServiceIdSetEqual a b \<longleftrightarrow> length a = length b \<and> list_all (\<lambda>svc. svc \<in> set a) b"

text \<open>One round of the loop over the history: entries without a service and entries that would
  activate at the same boundary are dropped, open entries are closed at the boundary.\<close>

definition carry_forward :: "int \<Rightarrow> app_config_update list \<Rightarrow> app_config_update list" where
  "carry_forward nextSessionStartHeight history =
     map (\<lambda>u. if ACU_DeactivationHeight u = 0
               then u\<lparr>ACU_DeactivationHeight := nextSessionStartHeight\<rparr> else u)
       (filter (\<lambda>u. ACU_Service u \<noteq> None \<and> ACU_ActivationHeight u \<noteq> nextSessionStartHeight) history)"

definition open_configs :: "string \<Rightarrow> int \<Rightarrow> string list \<Rightarrow> app_config_update list" where
  "open_configs appAddr nextSessionStartHeight services =
     map (\<lambda>svc. \<lparr>ACU_ApplicationAddress = appAddr, ACU_Service = Some svc,
        ACU_ActivationHeight = nextSessionStartHeight, ACU_DeactivationHeight = 0\<rparr>) services"

definition recordApplicationServiceConfigChange ::
    "int \<Rightarrow> shared_state \<Rightarrow> string list \<Rightarrow> application \<Rightarrow> application res" where
  "recordApplicationServiceConfigChange currentHeight sh services a =
     (if appServiceIdSetEqual (App_ServiceConfigs a) services
      then Inr (a\<lparr>App_ServiceConfigs := services\<rparr>)
      else bindR (GetNextSessionStartHeight (GetParams sh) currentHeight) (\<lambda>nextSessionStartHeight.
        let a' = (if length (App_ServiceConfigHistory a) = 0
                  then BackfillServiceConfigHistory a else a)
        in Inr (a'\<lparr>App_ServiceConfigHistory :=
                 carry_forward nextSessionStartHeight (App_ServiceConfigHistory a')
                 @ open_configs (App_Address a') nextSessionStartHeight services,
               App_ServiceConfigs := services\<rparr>)))"

section \<open>Staking\<close>

definition normalizeSpendLimit :: "coin option \<Rightarrow> coin option" where
  "normalizeSpendLimit limit =
     (case limit of None \<Rightarrow> None
      | Some c \<Rightarrow> if Amount c = 0 then None else if Denom c \<noteq> ''upokt'' then None else Some c)"

definition createApplication :: "msg_stake_application \<Rightarrow> application" where
  "createApplication msg = \<lparr>App_Address = MSA_Address msg, App_Stake = the (MSA_Stake msg),
     App_ServiceConfigs = app_services msg, DelegateeGatewayAddresses = [],
     PendingUndelegations = [], App_UnstakeSessionEndHeight = 0, PendingTransfer = None,
     PerSessionSpendLimit = normalizeSpendLimit (MSA_PerSessionSpendLimit msg),
     App_ServiceConfigHistory = []\<rparr>"

definition update_spend_limit :: "coin option \<Rightarrow> application \<Rightarrow> application" where
  "update_spend_limit limit a =
     (case limit of None \<Rightarrow> a
      | Some c \<Rightarrow> if Amount c = 0 then a\<lparr>PerSessionSpendLimit := None\<rparr>
                  else a\<lparr>PerSessionSpendLimit := Some c\<rparr>)"

definition updateApplication ::
    "sdk \<Rightarrow> int \<Rightarrow> shared_state \<Rightarrow> msg_stake_application \<Rightarrow> application \<Rightarrow> application res" where
  "updateApplication sdk height sh msg a =
     (if MSA_Address msg \<noteq> App_Address a then Inl (App ErrAppUnauthorized)
      else case MSA_Stake msg of None \<Rightarrow> Inl (App ErrAppInvalidStake)
      | Some stake \<Rightarrow> bindR (coinIsLTE sdk stake (App_Stake a)) (\<lambda>lte.
          if lte then Inl (App ErrAppInvalidStake)
          else if length (MSA_Services msg) = 0 then Inl (App ErrAppInvalidServiceConfigs)
          else bindR (recordApplicationServiceConfigChange height sh (app_services msg)
                 (a\<lparr>App_Stake := stake\<rparr>)) (\<lambda>a'.
               Inr (update_spend_limit (MSA_PerSessionSpendLimit msg) a'))))"

text \<open>The application to store and the coins to escrow for it.\<close>

definition staked_application ::
    "sdk \<Rightarrow> int \<Rightarrow> shared_state \<Rightarrow> msg_stake_application \<Rightarrow> application option
     \<Rightarrow> (application \<times> coin) res" where
  "staked_application sdk height sh msg found =
     (case found of
        None \<Rightarrow> Inr (createApplication msg, the (MSA_Stake msg))
      | Some a \<Rightarrow>
          bindR (mapErr (Status InvalidArgument) (updateApplication sdk height sh msg a)) (\<lambda>a'.
          bindR (mapErr (Status InvalidArgument)
                   (coinSafeSub sdk (the (MSA_Stake msg)) (App_Stake a))) (\<lambda>coinsToEscrow.
          Inr (if App_IsUnbonding a' then a'\<lparr>App_UnstakeSessionEndHeight := 0\<rparr> else a',
               coinsToEscrow))))"

definition StakeApplication ::
    "sdk \<Rightarrow> int \<Rightarrow> shared_state \<Rightarrow> msg_stake_application \<Rightarrow> app_ctx \<Rightarrow> app_ctx res" where
  "StakeApplication sdk height sh msg = (\<lambda>(st, log).
     bindR (mapErr (Status InvalidArgument) (MsgStakeApplication_ValidateBasic sdk msg)) (\<lambda>_.
     if (case MSA_PerSessionSpendLimit msg of None \<Rightarrow> False
         | Some c \<Rightarrow> 0 < Amount c \<and> Amount c < Amount MinPerSessionSpendLimit)
       then Inl (Status InvalidArgument (App ErrAppInvalidStake))
     else bindR (staked_application sdk height sh msg (GetApplication st (MSA_Address msg)))
       (\<lambda>(a, coinsToEscrow).
     if Amount coinsToEscrow = 0 then Inl (Status InvalidArgument (App ErrAppInvalidStake))
     else case App_MinStake (App_GetParams st) of None \<Rightarrow> Inl Panic
     | Some minStake \<Rightarrow>
         if Amount (the (MSA_Stake msg)) < Amount minStake
           then Inl (Status InvalidArgument (App ErrAppInvalidStake))
         else bindR (mapErr (Status Internal) (bank_do sdk
                (SendFromAccountToModule (MSA_Address msg) ''application'' coinsToEscrow) log)) (\<lambda>log'.
           let st' = SetApplication a st
           in bindR (Keeper_GetSessionEndHeight sh height) (\<lambda>_. Inr (st', log'))))))"

definition UnstakeApplication ::
    "int \<Rightarrow> shared_state \<Rightarrow> string \<Rightarrow> app_ctx \<Rightarrow> app_ctx res" where
  "UnstakeApplication height sh address = (\<lambda>(st, log).
     case GetApplication st address of
       None \<Rightarrow> Inl (Status NotFound (App ErrAppNotFound))
     | Some a \<Rightarrow>
         if App_IsUnbonding a then Inl (Status FailedPrecondition (App ErrAppIsUnstaking))
         else if HasPendingTransfer a
           then Inl (Status FailedPrecondition (App ErrAppHasPendingTransfer))
         else bindR (Keeper_GetSessionEndHeight sh height) (\<lambda>sessionEndHeight.
           Inr (SetApplication (a\<lparr>App_UnstakeSessionEndHeight := uint64_of sessionEndHeight\<rparr>) st, log)))"

section \<open>Delegation\<close>

text \<open>Removing a gateway from the undelegations pending at each height, and the heights left
  without one; only the first occurrence in a list is removed, as in the code.\<close>

definition updatePendingUndelegations :: "string \<Rightarrow> application \<Rightarrow> application" where
  "updatePendingUndelegations gatewayAddress a =
     a\<lparr>PendingUndelegations :=
        filter (\<lambda>e. length (snd e) \<noteq> 0)
          (map (\<lambda>(h, gws). (h, remove1 gatewayAddress gws)) (PendingUndelegations a))\<rparr>"

definition DelegateToGateway ::
    "sdk \<Rightarrow> int \<Rightarrow> shared_state \<Rightarrow> gateway_state \<Rightarrow> string \<Rightarrow> string \<Rightarrow> app_ctx \<Rightarrow> app_ctx res" where
  "DelegateToGateway sdk currentHeight sh gst appAddress gatewayAddress = (\<lambda>(st, log).
     bindR (mapErr (Status InvalidArgument)
              (MsgDelegateToGateway_ValidateBasic sdk appAddress gatewayAddress)) (\<lambda>_.
     case GetApplication st appAddress of
       None \<Rightarrow> Inl (Status NotFound (App ErrAppNotFound))
     | Some a \<Rightarrow>
     (case GetGateway gst gatewayAddress of
       None \<Rightarrow> Inl (Status NotFound (App ErrAppGatewayNotFound))
     | Some g \<Rightarrow>
         if MaxDelegatedGateways (App_GetParams st)
              \<le> word_of_nat (length (DelegateeGatewayAddresses a))
           then Inl (Status FailedPrecondition (App ErrAppMaxDelegatedGateways))
         else if \<not> Gateway_IsActive g currentHeight
           then Inl (Status FailedPrecondition (Gateway ErrGatewayIsInactive))
         else if gatewayAddress \<in> set (DelegateeGatewayAddresses a)
           then Inl (Status AlreadyExists (App ErrAppAlreadyDelegated))
         else
           let a1 = a\<lparr>DelegateeGatewayAddresses := DelegateeGatewayAddresses a @ [gatewayAddress]\<rparr>;
               a2 = updatePendingUndelegations gatewayAddress a1;
               st' = SetApplication a2 st
           in bindR (GetSessionEndHeight (GetParams sh) currentHeight) (\<lambda>_. Inr (st', log)))))"

text \<open>The index of the last occurrence, as the loop computes it.\<close>

fun last_index :: "'a \<Rightarrow> nat \<Rightarrow> 'a list \<Rightarrow> nat option \<Rightarrow> nat option" where
  "last_index x i [] foundIdx = foundIdx"
| "last_index x i (y # ys) foundIdx =
     last_index x (Suc i) ys (if y = x then Some i else foundIdx)"

definition remove_at :: "nat \<Rightarrow> 'a list \<Rightarrow> 'a list" where
  "remove_at i xs = take i xs @ drop (Suc i) xs"

definition recordPendingUndelegation ::
    "shared_state \<Rightarrow> string \<Rightarrow> int \<Rightarrow> application \<Rightarrow> application res" where
  "recordPendingUndelegation sh gatewayAddress currentBlockHeight a =
     bindR (Keeper_GetSessionEndHeight sh currentBlockHeight) (\<lambda>sessionEnd.
       let sessionEndHeight = uint64_of sessionEnd;
           gws = (case map_of (PendingUndelegations a) sessionEndHeight of None \<Rightarrow> [] | Some l \<Rightarrow> l)
       in Inr (if gatewayAddress \<notin> set gws
               then a\<lparr>PendingUndelegations :=
                      kv_set sessionEndHeight (gws @ [gatewayAddress]) (PendingUndelegations a)\<rparr>
               else a))"

definition UndelegateFromGateway ::
    "sdk \<Rightarrow> int \<Rightarrow> shared_state \<Rightarrow> string \<Rightarrow> string \<Rightarrow> app_ctx \<Rightarrow> app_ctx res" where
  "UndelegateFromGateway sdk currentHeight sh appAddress gatewayAddress = (\<lambda>(st, log).
     bindR (mapErr (Status InvalidArgument)
              (MsgUndelegateFromGateway_ValidateBasic sdk appAddress gatewayAddress)) (\<lambda>_.
     case GetApplication st appAddress of
       None \<Rightarrow> Inl (Status NotFound (App ErrAppNotFound))
     | Some a \<Rightarrow>
     (case last_index gatewayAddress 0 (DelegateeGatewayAddresses a) None of
       None \<Rightarrow> Inl (Status FailedPrecondition (App ErrAppNotDelegated))
     | Some foundIdx \<Rightarrow>
         let a1 = a\<lparr>DelegateeGatewayAddresses := remove_at foundIdx (DelegateeGatewayAddresses a)\<rparr>
         in bindR (Keeper_GetSessionEndHeight sh currentHeight) (\<lambda>_.
            bindR (recordPendingUndelegation sh gatewayAddress currentHeight a1) (\<lambda>a2.
            Inr (SetApplication a2 st, log))))))"

section \<open>Transfer\<close>

definition TransferApplication ::
    "sdk \<Rightarrow> int \<Rightarrow> shared_state \<Rightarrow> string \<Rightarrow> string \<Rightarrow> app_ctx \<Rightarrow> app_ctx res" where
  "TransferApplication sdk height sh sourceAddress destinationAddress = (\<lambda>(st, log).
     bindR (mapErr (Status InvalidArgument)
              (MsgTransferApplication_ValidateBasic sdk sourceAddress destinationAddress)) (\<lambda>_.
     if GetApplication st destinationAddress \<noteq> None
       then Inl (Status FailedPrecondition (App ErrAppDuplicateAddress))
     else case GetApplication st sourceAddress of
       None \<Rightarrow> Inl (Status InvalidArgument (App ErrAppNotFound))
     | Some srcApp \<Rightarrow>
         if App_IsUnbonding srcApp then Inl (Status FailedPrecondition (App ErrAppIsUnstaking))
         else bindR (Keeper_GetSessionEndHeight sh height) (\<lambda>sessionEndHeight.
           let srcApp' = srcApp\<lparr>PendingTransfer :=
                 Some \<lparr>PT_DestinationAddress = destinationAddress,
                       PT_SessionEndHeight = uint64_of sessionEndHeight\<rparr>\<rparr>;
               st' = SetApplication srcApp' st
           in bindR (GetApplicationTransferHeight (GetParams sh) srcApp') (\<lambda>_. Inr (st', log)))))"

section \<open>Parameters\<close>

definition App_UpdateParam ::
    "sdk \<Rightarrow> string \<Rightarrow> msg_app_update_param \<Rightarrow> app_state \<Rightarrow> app_state res" where
  "App_UpdateParam sdk authority msg st =
     bindR (mapErr (Status InvalidArgument) (MsgAppUpdateParam_ValidateBasic sdk msg)) (\<lambda>_.
     if authority \<noteq> MAU_Authority msg
       then Inl (Status PermissionDenied (App ErrAppInvalidSigner))
     else bindR
       (if MAU_Name msg = ''max_delegated_gateways'' then
          (case MAU_AsType msg of
             AppAsUint64 w \<Rightarrow>
               bindR (mapErr (\<lambda>_. Status InvalidArgument (App ErrAppParamInvalid))
                        (ValidateMaxDelegatedGateways w)) (\<lambda>_.
               Inr ((App_GetParams st)\<lparr>MaxDelegatedGateways := w\<rparr>))
           | _ \<Rightarrow> Inl (Status InvalidArgument (App ErrAppParamInvalid)))
        else if MAU_Name msg = ''min_stake''
          then Inr ((App_GetParams st)\<lparr>App_MinStake := App_GetAsCoin (MAU_AsType msg)\<rparr>)
        else Inl (Status InvalidArgument (App ErrAppParamInvalid))) (\<lambda>params.
     bindR (mapErr (Status InvalidArgument) (App_Params_Validate params)) (\<lambda>_.
     Inr (App_SetParams params st))))"

definition App_UpdateParams ::
    "sdk \<Rightarrow> string \<Rightarrow> string \<Rightarrow> app_params \<Rightarrow> app_state \<Rightarrow> app_state res" where
  "App_UpdateParams sdk authority msgAuthority params st =
     (if \<not> isBech32 sdk msgAuthority then Inl (Status InvalidArgument ErrExt)
      else bindR (mapErr (Status InvalidArgument) (App_Params_Validate params)) (\<lambda>_.
        if authority \<noteq> msgAuthority
          then Inl (Status PermissionDenied (App ErrAppInvalidSigner))
        else Inr (App_SetParams params st)))"

end
