(* ===== verification/AppEndBlock.thy ===== *)
theory AppEndBlock
  imports AppHandlers
begin

text \<open>
  The application module's end blockers, in the order the module runs them: undelegation from
  gateways that are no longer active, pruning of old undelegations, unbonding, and transfers.
  Each loop walks the index entries present when its iterator was opened and reads the
  applications as they are when it reaches them.
\<close>

section \<open>Undelegation from inactive gateways\<close>

definition getInactiveUnbondingGateways :: "gateway_state \<Rightarrow> int \<Rightarrow> gateway list" where
  "getInactiveUnbondingGateways gst currentBlockHeight =
     map ToGateway (filter (\<lambda>l. \<not> GL_IsActive l currentBlockHeight) (GetAllGatewayLifecycles gst))"

text \<open>One delegation. The code calls \<open>removeApplicationDelegationIndex\<close> with the gateway and
  the application address in the opposite order of its parameters.\<close>

definition auto_undelegate_app ::
    "shared_state \<Rightarrow> int \<Rightarrow> string \<Rightarrow> app_state \<Rightarrow> string \<Rightarrow> app_state res" where
  "auto_undelegate_app sh currentHeight gatewayAddress st applicationKey =
     bindR (applicationFromPrimaryKey st applicationKey) (\<lambda>a.
     if gatewayAddress \<notin> set (DelegateeGatewayAddresses a)
       then Inr (removeApplicationDelegationIndex gatewayAddress (App_Address a) st)
     else bindR (recordPendingUndelegation sh gatewayAddress currentHeight
            (a\<lparr>DelegateeGatewayAddresses := remove1 gatewayAddress (DelegateeGatewayAddresses a)\<rparr>))
          (\<lambda>a'. Inr (SetApplication a' st)))"

definition auto_undelegate_gateway ::
    "shared_state \<Rightarrow> int \<Rightarrow> app_state \<Rightarrow> gateway \<Rightarrow> app_state res" where
  "auto_undelegate_gateway sh currentHeight st g =
     foldR (auto_undelegate_app sh currentHeight (Gateway_Address g)) st
       (GetDelegationsIterator st (Gateway_Address g))"

definition EndBlockerAutoUndelegateFromUnbondingGateways ::
    "int \<Rightarrow> shared_state \<Rightarrow> gateway_state \<Rightarrow> app_state \<Rightarrow> app_state res" where
  "EndBlockerAutoUndelegateFromUnbondingGateways currentHeight sh gst st =
     foldR (auto_undelegate_gateway sh currentHeight) st (getInactiveUnbondingGateways gst currentHeight)"

section \<open>Pruning undelegations\<close>

definition NumSessionsAppToGatewayUndelegationRetention :: int where
  "NumSessionsAppToGatewayUndelegationRetention = 2"

definition GetNumBlocksUndelegationRetention :: "shared_params \<Rightarrow> int" where
  "GetNumBlocksUndelegationRetention p =
     i64 (int64_of (GracePeriodEndOffsetBlocks p)
       + i64 (int64_of (NumBlocksPerSession p) * NumSessionsAppToGatewayUndelegationRetention))"

definition prune_undelegation ::
    "u64 \<Rightarrow> string \<times> pending_undelegation \<Rightarrow> app_state \<Rightarrow> app_state" where
  "prune_undelegation earliest e st =
     (case GetApplication st (PU_ApplicationAddress (snd e)) of
        None \<Rightarrow> removeApplicationUndelegationIndex (fst e) st
      | Some a \<Rightarrow>
          SetApplication (a\<lparr>PendingUndelegations :=
            filter (\<lambda>p. \<not> fst p < earliest) (PendingUndelegations a)\<rparr>) st)"

definition EndBlockerPruneAppToGatewayPendingUndelegation ::
    "int \<Rightarrow> shared_state \<Rightarrow> app_state \<Rightarrow> app_state" where
  "EndBlockerPruneAppToGatewayPendingUndelegation currentHeight sh st =
     (let retention = GetNumBlocksUndelegationRetention (GetParams sh)
      in if currentHeight \<le> retention then st
         else fold (prune_undelegation (uint64_of (i64 (currentHeight - retention))))
                (GetUndelegationsIterator st '''') st)"

section \<open>Unbonding\<close>

text \<open>A refused refund is logged and the application removed all the same.\<close>

definition UnbondApplication ::
    "sdk \<Rightarrow> int \<Rightarrow> shared_state \<Rightarrow> application \<Rightarrow> app_ctx \<Rightarrow> app_ctx res" where
  "UnbondApplication sdk currentHeight sh a = (\<lambda>(st, log).
     if \<not> isBech32 sdk (App_Address a) then Inl ErrExt
     else case bank_do sdk (SendFromModuleToAccount ''application'' (App_Address a) (App_Stake a)) log of
       Inr log' \<Rightarrow> Inr (RemoveApplication a st, log')
     | Inl e \<Rightarrow>
         bindR (GetSessionEndHeight (GetParams sh) currentHeight) (\<lambda>_.
         Inr (RemoveApplication a st, log)))"

definition unbond_application_step ::
    "sdk \<Rightarrow> int \<Rightarrow> shared_state \<Rightarrow> app_ctx \<Rightarrow> string \<Rightarrow> app_ctx res" where
  "unbond_application_step sdk currentHeight sh = (\<lambda>(st, log) applicationKey.
     bindR (applicationFromPrimaryKey st applicationKey) (\<lambda>a.
     if \<not> App_IsUnbonding a then Inr (removeApplicationUnstakingIndex (App_Address a) st, log)
     else
       let unstakeParams = GetParamsAtHeight sh (int64_of (App_UnstakeSessionEndHeight a));
           unbondingEndHeight = GetApplicationUnbondingHeight unstakeParams a
       in if unbondingEndHeight > currentHeight then Inr (st, log)
       else bindR (UnbondApplication sdk currentHeight sh a (st, log)) (\<lambda>s'.
            bindR (GetSessionEndHeight (GetParams sh) currentHeight) (\<lambda>_. Inr s'))))"

definition EndBlockerUnbondApplications ::
    "sdk \<Rightarrow> int \<Rightarrow> shared_state \<Rightarrow> app_ctx \<Rightarrow> app_ctx res" where
  "EndBlockerUnbondApplications sdk currentHeight sh s =
     bindR (IsSessionEndHeight (GetParams sh) currentHeight) (\<lambda>atEnd.
     if \<not> atEnd then Inr s
     else foldR (unbond_application_step sdk currentHeight sh) s
            (GetAllUnstakingApplicationsIterator (fst s)))"

text \<open>Applications below the minimum stake start unbonding; the state counts them.\<close>

definition mark_below_min_stake_step ::
    "coin \<Rightarrow> int \<Rightarrow> nat \<times> app_state \<Rightarrow> application \<Rightarrow> nat \<times> app_state" where
  "mark_below_min_stake_step minStake sessionEndHeight = (\<lambda>(marked, st) a.
     if App_IsUnbonding a then (marked, st)
     else if \<not> Amount (App_Stake a) < Amount minStake then (marked, st)
     else (marked + 1,
       SetApplication (a\<lparr>App_UnstakeSessionEndHeight := uint64_of sessionEndHeight\<rparr>) st))"

definition MarkBelowMinStakeApplicationsUnbonding ::
    "int \<Rightarrow> shared_state \<Rightarrow> app_state \<Rightarrow> (nat \<times> app_state) res" where
  "MarkBelowMinStakeApplicationsUnbonding height sh st =
     bindR (GetSessionEndHeight (GetParams sh) height) (\<lambda>sessionEndHeight.
       let minStake = (case App_MinStake (App_GetParams st) of
                         None \<Rightarrow> App_DefaultMinStake | Some c \<Rightarrow> c)
       in Inr (foldl (mark_below_min_stake_step minStake sessionEndHeight) (0, st)
                 (GetAllApplications st)))"

section \<open>Transfer\<close>

definition mergeAppDelegatees :: "application \<Rightarrow> application \<Rightarrow> application" where
  "mergeAppDelegatees srcApp dstApp =
     dstApp\<lparr>DelegateeGatewayAddresses := DelegateeGatewayAddresses dstApp
       @ filter (\<lambda>gw. gw \<notin> set (DelegateeGatewayAddresses dstApp)) (DelegateeGatewayAddresses srcApp)\<rparr>"

text \<open>
  Go ranges over a map in an unspecified order, and merging does so three times: over the pending
  undelegations of the source, over those of the destination, and over the union. The first two
  orders are those of the entry lists the definitions take. The union maps a gateway to the height
  of its last entry, the destination's entries after the source's; \<open>undelegation_union\<close> is that
  map as a value, listed in key order. The order in which the third loop ranges over it is an
  argument of \<open>rebuilt_undelegations\<close>, which runs the third loop and the sort, and
  \<open>merged_undelegations\<close> runs it in one such order; every other gives the same
  (\<open>merged_undelegations_order_independent\<close>).
\<close>

definition undelegation_pairs :: "(u64 \<times> string list) list \<Rightarrow> (string \<times> u64) list" where
  "undelegation_pairs entries = concat (map (\<lambda>(h, gws). map (\<lambda>gw. (gw, h)) gws) entries)"

definition undelegation_union ::
    "(u64 \<times> string list) list \<Rightarrow> (u64 \<times> string list) list \<Rightarrow> (string, u64) kv" where
  "undelegation_union srcEntries dstEntries =
     fold (\<lambda>(gw, h). kv_set gw h) (undelegation_pairs srcEntries @ undelegation_pairs dstEntries) []"

definition add_undelegation :: "string \<times> u64 \<Rightarrow> (u64, string list) kv \<Rightarrow> (u64, string list) kv" where
  "add_undelegation = (\<lambda>(gw, h) m.
     (case map_of m h of None \<Rightarrow> kv_set h [gw] m | Some gws \<Rightarrow> kv_set h (gws @ [gw]) m))"

definition rebuilt_undelegations :: "(string \<times> u64) list \<Rightarrow> (u64, string list) kv" where
  "rebuilt_undelegations ranged = map (\<lambda>(h, gws). (h, sort gws)) (fold add_undelegation ranged [])"

definition merged_undelegations ::
    "(u64 \<times> string list) list \<Rightarrow> (u64 \<times> string list) list \<Rightarrow> (u64, string list) kv" where
  "merged_undelegations srcEntries dstEntries =
     rebuilt_undelegations (undelegation_union srcEntries dstEntries)"

definition mergeAppPendingUndelegations :: "application \<Rightarrow> application \<Rightarrow> application" where
  "mergeAppPendingUndelegations srcApp dstApp =
     dstApp\<lparr>PendingUndelegations :=
       merged_undelegations (PendingUndelegations srcApp) (PendingUndelegations dstApp)\<rparr>"

definition mergeAppServiceConfigs :: "application \<Rightarrow> application \<Rightarrow> string list" where
  "mergeAppServiceConfigs srcApp dstApp =
     App_ServiceConfigs dstApp
     @ filter (\<lambda>svc. svc \<notin> set (App_ServiceConfigs dstApp)) (App_ServiceConfigs srcApp)"

definition mergeAppPerSessionSpendLimit :: "application \<Rightarrow> application \<Rightarrow> application" where
  "mergeAppPerSessionSpendLimit srcApp dstApp =
     (case (PerSessionSpendLimit srcApp, PerSessionSpendLimit dstApp) of
        (None, None) \<Rightarrow> dstApp
      | (Some s, None) \<Rightarrow> dstApp\<lparr>PerSessionSpendLimit := Some s\<rparr>
      | (None, Some d) \<Rightarrow> dstApp
      | (Some s, Some d) \<Rightarrow>
          if Amount s < Amount d then dstApp\<lparr>PerSessionSpendLimit := Some s\<rparr> else dstApp)"

text \<open>The destination application before its service change is recorded, with the services it
  is to have.\<close>

definition moved_application :: "application \<Rightarrow> string \<Rightarrow> application" where
  "moved_application srcApp dst =
     (let dstApp = srcApp\<lparr>App_Address := dst, PendingTransfer := None\<rparr>
      in if length (App_ServiceConfigHistory dstApp) > 0
         then dstApp\<lparr>App_ServiceConfigHistory :=
                map (\<lambda>u. u\<lparr>ACU_ApplicationAddress := dst\<rparr>) (App_ServiceConfigHistory dstApp)\<rparr>
         else dstApp)"

definition merged_application :: "sdk \<Rightarrow> application \<Rightarrow> application \<Rightarrow> application res" where
  "merged_application sdk srcApp dstApp =
     bindR (coinAdd sdk (App_Stake srcApp) (App_Stake dstApp)) (\<lambda>stakeSum.
       Inr (mergeAppPerSessionSpendLimit srcApp
             (mergeAppPendingUndelegations srcApp
               (mergeAppDelegatees srcApp (dstApp\<lparr>App_Stake := stakeSum\<rparr>)))))"

definition transferApplication ::
    "sdk \<Rightarrow> int \<Rightarrow> shared_state \<Rightarrow> application \<Rightarrow> app_state \<Rightarrow> app_state res" where
  "transferApplication sdk currentHeight sh srcApp st =
     (if App_IsUnbonding srcApp then Inl (App ErrAppIsUnstaking)
      else
        let dst = (case PendingTransfer srcApp of None \<Rightarrow> '''' | Some t \<Rightarrow> PT_DestinationAddress t)
        in bindR
          (case GetApplication st dst of
             None \<Rightarrow> Inr (moved_application srcApp dst, App_ServiceConfigs srcApp)
           | Some dstApp \<Rightarrow>
               bindR (merged_application sdk srcApp dstApp) (\<lambda>a.
               Inr (a, mergeAppServiceConfigs srcApp a))) (\<lambda>(dstApp, finalServiceConfigs).
        bindR (recordApplicationServiceConfigChange currentHeight sh finalServiceConfigs dstApp)
          (\<lambda>dstApp'.
        let st' = SetApplication dstApp' (RemoveApplication srcApp st)
        in bindR (GetSessionEndHeight (GetParams sh) currentHeight) (\<lambda>_.
           bindR (GetApplicationTransferHeight (GetParams sh) srcApp) (\<lambda>_. Inr st')))))"

definition transfer_application_step ::
    "sdk \<Rightarrow> int \<Rightarrow> shared_state \<Rightarrow> app_state \<Rightarrow> string \<Rightarrow> app_state res" where
  "transfer_application_step sdk currentHeight sh st applicationKey =
     bindR (applicationFromPrimaryKey st applicationKey) (\<lambda>srcApp.
     if \<not> HasPendingTransfer srcApp
       then Inr (removeApplicationTransferIndex (App_Address srcApp) st)
     else bindR (GetApplicationTransferHeight (GetParams sh) srcApp) (\<lambda>transferEndHeight.
       if currentHeight < transferEndHeight then Inr st
       else (case transferApplication sdk currentHeight sh srcApp st of
               Inr st' \<Rightarrow> Inr st'
             | Inl Panic \<Rightarrow> Inl Panic
             | Inl e \<Rightarrow> Inr (SetApplication (srcApp\<lparr>PendingTransfer := None\<rparr>) st))))"

definition EndBlockerTransferApplication ::
    "sdk \<Rightarrow> int \<Rightarrow> shared_state \<Rightarrow> app_state \<Rightarrow> app_state res" where
  "EndBlockerTransferApplication sdk currentHeight sh st =
     bindR (GetSessionEndHeight (GetParams sh) currentHeight) (\<lambda>_.
     bindR (IsSessionEndHeight (GetParams sh) currentHeight) (\<lambda>atEnd.
     if \<not> atEnd then Inr st
     else foldR (transfer_application_step sdk currentHeight sh) st
            (GetAllTransferringApplicationsIterator st)))"

section \<open>The module's end blocker\<close>

definition App_EndBlocker ::
    "sdk \<Rightarrow> int \<Rightarrow> shared_state \<Rightarrow> gateway_state \<Rightarrow> app_ctx \<Rightarrow> app_ctx res" where
  "App_EndBlocker sdk currentHeight sh gst = (\<lambda>(st, log).
     bindR (EndBlockerAutoUndelegateFromUnbondingGateways currentHeight sh gst st) (\<lambda>st1.
     bindR (EndBlockerUnbondApplications sdk currentHeight sh
              (EndBlockerPruneAppToGatewayPendingUndelegation currentHeight sh st1, log))
       (\<lambda>(st3, log3).
     bindR (EndBlockerTransferApplication sdk currentHeight sh st3) (\<lambda>st4. Inr (st4, log3)))))"

end
