(* ===== verification/AppTimeline.thy ===== *)
theory AppTimeline
  imports AppEndBlock
begin

text \<open>
  The service configuration timeline of an application: a change of services takes effect at the
  next session start and leaves every earlier height on the services it had.
\<close>

text \<open>A timeline that schedules nothing beyond the next session start \<open>b\<close>.\<close>

definition timeline_ok :: "int \<Rightarrow> application \<Rightarrow> bool" where
  "timeline_ok b a \<longleftrightarrow> list_all (\<lambda>u. ACU_Service u \<noteq> None \<and> ACU_ActivationHeight u \<le> b
     \<and> ACU_DeactivationHeight u \<le> b) (App_ServiceConfigHistory a)"

definition active_in :: "int \<Rightarrow> app_config_update list \<Rightarrow> string option list" where
  "active_in h us = map ACU_Service (filter (\<lambda>u. ACU_IsActive u h) us)"

lemma ACU_IsActive_iff: "ACU_IsActive u h \<longleftrightarrow> ACU_ActivationHeight u \<le> h
    \<and> (ACU_DeactivationHeight u = 0 \<or> h < ACU_DeactivationHeight u)"
  by (auto simp: ACU_IsActive_def)

lemma active_in_append: "active_in h (us @ vs) = active_in h us @ active_in h vs"
  by (simp add: active_in_def)

lemma active_in_open_configs:
  "active_in h (open_configs x b svcs) = (if b \<le> h then map Some svcs else [])"
  by (induction svcs) (auto simp: active_in_def open_configs_def ACU_IsActive_def)

lemma active_in_carry_forward:
  assumes "list_all (\<lambda>u. ACU_Service u \<noteq> None \<and> ACU_ActivationHeight u \<le> b
     \<and> ACU_DeactivationHeight u \<le> b) us" and "b \<noteq> 0"
  shows "active_in h (carry_forward b us) = (if h < b then active_in h us else [])"
  using assms(1)
proof (induction us)
  case Nil
  then show ?case by (simp add: active_in_def carry_forward_def)
next
  case (Cons u us)
  then have "active_in h (carry_forward b [u]) = (if h < b then active_in h [u] else [])"
    using assms(2) by (auto simp: active_in_def carry_forward_def ACU_IsActive_iff)
  moreover have "carry_forward b (u # us) = carry_forward b [u] @ carry_forward b us"
    by (simp add: carry_forward_def)
  moreover have "active_in h (u # us) = active_in h [u] @ active_in h us"
    by (simp add: active_in_def)
  ultimately show ?case using Cons by (auto simp: active_in_append)
qed

lemma active_in_backfill:
  "1 \<le> h \<Longrightarrow> active_in h (map (\<lambda>svc. \<lparr>ACU_ApplicationAddress = x, ACU_Service = Some svc,
      ACU_ActivationHeight = 1, ACU_DeactivationHeight = 0\<rparr>) svcs) = map Some svcs"
  by (induction svcs) (auto simp: active_in_def ACU_IsActive_def)

text \<open>When the services of an application with a timeline that schedules nothing past the next session start change, the configurations active at any height before the
  next session start are exactly those active there before the change, and from the next session
  start on exactly the new services are active, in the order given. The first change keeps the
  original services on record for all earlier heights.\<close>
theorem service_change_spares_session_in_flight:
  assumes "recordApplicationServiceConfigChange c sh services a = Inr a'"
    and "GetNextSessionStartHeight (GetParams sh) c = Inr b" and "1 < b"
    and "\<not> appServiceIdSetEqual (App_ServiceConfigs a) services"
    and "timeline_ok b a" and "services \<noteq> []" and "1 \<le> h"
  shows "App_GetActiveServiceConfigs a' h
    = (if h < b then App_GetActiveServiceConfigs a h else map Some services)"
proof -
  let ?a = "if length (App_ServiceConfigHistory a) = 0 then BackfillServiceConfigHistory a else a"
  let ?H = "App_ServiceConfigHistory ?a"
  have H': "App_ServiceConfigHistory a'
      = carry_forward b ?H @ open_configs (App_Address ?a) b services"
    using assms(1,2,4) by (auto simp: recordApplicationServiceConfigChange_def Let_def)
  have ok: "list_all (\<lambda>u. ACU_Service u \<noteq> None \<and> ACU_ActivationHeight u \<le> b
     \<and> ACU_DeactivationHeight u \<le> b) ?H"
    using assms(3,5) by (auto simp: timeline_ok_def BackfillServiceConfigHistory_def list_all_iff)
  have "App_GetActiveServiceConfigs a' h = active_in h (App_ServiceConfigHistory a')"
    using assms(6) by (simp add: App_GetActiveServiceConfigs_def active_in_def H' open_configs_def)
  moreover have "active_in h ?H = App_GetActiveServiceConfigs a h"
    using active_in_backfill [OF assms(7)]
    by (auto simp: App_GetActiveServiceConfigs_def BackfillServiceConfigHistory_def active_in_def)
  ultimately show ?thesis
    using assms(3) active_in_carry_forward [OF ok]
    by (simp add: H' active_in_append active_in_open_configs)
qed

definition one_app :: application where
  "one_app = \<lparr>App_Address = ''a1'', App_Stake = \<lparr>Denom = ''upokt'', Amount = 2000000\<rparr>,
     App_ServiceConfigs = [''svc1''], DelegateeGatewayAddresses = [''g1''],
     PendingUndelegations = [], App_UnstakeSessionEndHeight = 0, PendingTransfer = None,
     PerSessionSpendLimit = None, App_ServiceConfigHistory = []\<rparr>"

theorem service_change_spares_session_in_flight_witness:
  "\<exists>a'. recordApplicationServiceConfigChange 5 witness_genesis [''svc2''] one_app = Inr a'
    \<and> App_GetActiveServiceConfigs a' 10 = [Some ''svc1'']
    \<and> App_GetActiveServiceConfigs a' 11 = [Some ''svc2'']"
proof -
  have b: "GetNextSessionStartHeight (GetParams witness_genesis) 5 = Inr 11" by code_simp
  have n: "\<not> appServiceIdSetEqual (App_ServiceConfigs one_app) [''svc2'']"
    and t: "timeline_ok 11 one_app"
    by (simp_all add: appServiceIdSetEqual_def timeline_ok_def one_app_def)
  then obtain a' where r: "recordApplicationServiceConfigChange 5 witness_genesis [''svc2''] one_app = Inr a'"
    using b by (cases "recordApplicationServiceConfigChange 5 witness_genesis [''svc2''] one_app")
      (auto simp: recordApplicationServiceConfigChange_def Let_def)
  show ?thesis
    using r service_change_spares_session_in_flight [OF r b _ n t, of 10]
      service_change_spares_session_in_flight [OF r b _ n t, of 11]
    by (simp add: App_GetActiveServiceConfigs_def one_app_def)
qed

section \<open>Merging pending undelegations\<close>

lemma undelegation_union_map:
  "kv_ok s \<Longrightarrow> kv_ok (fold (\<lambda>(gw, h). kv_set gw h) ps s)
    \<and> map_of (fold (\<lambda>(gw, h). kv_set gw h) ps s) = map_of s ++ map_of (rev ps)"
proof (induction ps arbitrary: s)
  case Nil
  then show ?case by simp
next
  case (Cons p ps)
  then show ?case
    by (cases p) (auto simp: kv_simps map_add_def fun_eq_iff split: option.splits)
qed

lemma undelegation_pairs_perm:
  assumes "mset es = mset es'" and "distinct (map fst (undelegation_pairs es))"
  shows "map_of (rev (undelegation_pairs es)) = map_of (rev (undelegation_pairs es'))"
proof -
  let ?f = "\<lambda>(h, gws). map (\<lambda>gw. (gw, h)) gws"
  have p: "mset (undelegation_pairs xs) = (\<Sum>e \<in># mset xs. mset (?f e))" for xs
    by (induction xs) (simp_all add: undelegation_pairs_def)
  then have m: "mset (undelegation_pairs es) = mset (undelegation_pairs es')"
    using assms(1) by simp
  then have "distinct (map fst (undelegation_pairs es'))"
    using assms(2) by (metis mset_eq_imp_distinct_iff mset_map)
  then show ?thesis
    using assms(2) mset_eq_setD [OF m] by (simp add: map_of_inject_set rev_map [symmetric])
qed

lemma undelegation_union_perm:
  assumes "mset src = mset src'" and "mset dst = mset dst'"
    and "distinct (map fst (undelegation_pairs src))"
    and "distinct (map fst (undelegation_pairs dst))"
  shows "undelegation_union src dst = undelegation_union src' dst'"
proof -
  have ok: "kv_ok (undelegation_union ss ds)"
    and m: "map_of (undelegation_union ss ds)
      = map_of (rev (undelegation_pairs ss)) ++ map_of (rev (undelegation_pairs ds))" for ss ds
    using undelegation_union_map [OF kv_ok_Nil, of "undelegation_pairs ss @ undelegation_pairs ds"]
    unfolding undelegation_union_def by (simp_all del: fold_append)
  show ?thesis
    using undelegation_pairs_perm [OF assms(1,3)] undelegation_pairs_perm [OF assms(2,4)]
    by (intro kv_ext ok) (simp add: m)
qed

text \<open>The third loop collects under each height its gateways in the order of the range.\<close>

definition gateways_at :: "u64 \<Rightarrow> (string \<times> u64) list \<Rightarrow> string list" where
  "gateways_at h ranged = map fst (filter (\<lambda>p. snd p = h) ranged)"

lemma fold_add_undelegation:
  "kv_ok m \<Longrightarrow> kv_ok (fold add_undelegation ranged m)
    \<and> (\<forall>h. map_of (fold add_undelegation ranged m) h = (case map_of m h of
        None \<Rightarrow> if gateways_at h ranged = [] then None else Some (gateways_at h ranged)
      | Some gws \<Rightarrow> Some (gws @ gateways_at h ranged)))"
proof (induction ranged arbitrary: m)
  case Nil
  then show ?case by (simp add: gateways_at_def split: option.splits)
next
  case (Cons p ranged)
  obtain gw h where p: "p = (gw, h)" by (cases p)
  have ok: "kv_ok (add_undelegation p m)"
    using Cons.prems by (auto simp: p add_undelegation_def kv_simps split: option.splits)
  have "map_of (add_undelegation p m) x = (if x = h then Some (case map_of m h of
      None \<Rightarrow> [gw] | Some gws \<Rightarrow> gws @ [gw]) else map_of m x)" for x
    using Cons.prems by (auto simp: p add_undelegation_def kv_simps split: option.splits)
  then show ?case
    using Cons.IH [OF ok] by (auto simp: p gateways_at_def split: option.splits)
qed

lemma rebuilt_undelegations_perm:
  assumes "mset ranged = mset ranged'"
  shows "rebuilt_undelegations ranged = rebuilt_undelegations ranged'"
proof -
  have g: "mset (gateways_at h ranged) = mset (gateways_at h ranged')" for h
    using assms by (simp add: gateways_at_def)
  have r: "kv_ok (rebuilt_undelegations xs) \<and> map_of (rebuilt_undelegations xs)
      = (\<lambda>h. if gateways_at h xs = [] then None else Some (sort (gateways_at h xs)))" for xs
    using fold_add_undelegation [OF kv_ok_Nil, of xs]
    by (auto simp: rebuilt_undelegations_def kv_ok_def map_of_map fun_eq_iff comp_def case_prod_beta)
  have "sort (gateways_at h ranged) = sort (gateways_at h ranged')"
    and "gateways_at h ranged = [] \<longleftrightarrow> gateways_at h ranged' = []" for h
    using g [of h] by (auto intro: properties_for_sort dest: mset_eq_length)
  then show ?thesis using r by (intro kv_ext) auto
qed

text \<open>C15. Merging the pending undelegations of a transferred application into its destination does
  not depend on the order in which any of the three Go maps is ranged over: in whatever order the
  source's and the destination's entries come, and in whatever order the union is ranged over to
  rebuild the destination's entries, the merged entries are the same lists of gateways, as long as
  neither application has the same gateway pending at two heights. Every node then computes the
  same merged application.\<close>
theorem merged_undelegations_order_independent:
  assumes "mset src = mset src'" and "mset dst = mset dst'"
    and "distinct (map fst (undelegation_pairs src))"
    and "distinct (map fst (undelegation_pairs dst))"
    and "mset ranged = mset (undelegation_union src' dst')"
  shows "rebuilt_undelegations ranged = merged_undelegations src dst"
  using rebuilt_undelegations_perm [OF assms(5)] undelegation_union_perm [OF assms(1-4)]
  by (simp add: merged_undelegations_def)

theorem merged_undelegations_order_independent_witness:
  "rebuilt_undelegations [(''g3'', 10), (''g2'', 20), (''g1'', 10)]
    = merged_undelegations [(10, [''g1'']), (20, [''g2''])] [(10, [''g3''])]
    \<and> merged_undelegations [(10, [''g1'']), (20, [''g2''])] [(10, [''g3''])]
      = [(10, [''g1'', ''g3'']), (20, [''g2''])]"
proof
  have u: "undelegation_union [(20, [''g2'']), (10, [''g1''])] [(10, [''g3''])]
      = [(''g1'', 10), (''g2'', 20), (''g3'', 10)]" by code_simp
  show "rebuilt_undelegations [(''g3'', 10), (''g2'', 20), (''g1'', 10)]
      = merged_undelegations [(10, [''g1'']), (20, [''g2''])] [(10, [''g3''])]"
    by (rule merged_undelegations_order_independent [where src' = "[(20, [''g2'']), (10, [''g1''])]"
        and dst' = "[(10, [''g3''])]"]) (auto simp: u undelegation_pairs_def)
  show "merged_undelegations [(10, [''g1'']), (20, [''g2''])] [(10, [''g3''])]
      = [(10, [''g1'', ''g3'']), (20, [''g2''])]" by code_simp
qed

text \<open>With a gateway pending at two heights the outcome follows the iteration order.\<close>

lemma merged_undelegations_order_matters:
  "merged_undelegations [(10, [''g1'']), (20, [''g1''])] []
    \<noteq> merged_undelegations [(20, [''g1'']), (10, [''g1''])] []"
  by code_simp

end
