(* ===== verification/AppInv.thy ===== *)
theory AppInv
  imports AppTimeline
begin

text \<open>
  The application module's invariant: the store is keyed by address, every application is
  well-formed, the unstaking and transfer indexes hold exactly the unstaking and transferring
  applications, and every delegation entry leads to an application that delegates.
\<close>

section \<open>The invariant\<close>

definition app_ok :: "sdk \<Rightarrow> application \<Rightarrow> bool" where
  "app_ok sdk a \<longleftrightarrow> isBech32 sdk (App_Address a) \<and> Denom (App_Stake a) = DenomuPOKT
     \<and> 0 < Amount (App_Stake a)
     \<and> (case PendingTransfer a of None \<Rightarrow> True
        | Some t \<Rightarrow> isBech32 sdk (PT_DestinationAddress t) \<and> PT_DestinationAddress t \<noteq> App_Address a)"

text \<open>What an index of the applications with property \<open>P\<close> holds under a key.\<close>

definition indexed :: "(application \<Rightarrow> bool) \<Rightarrow> (string, application) kv \<Rightarrow> string \<rightharpoonup> string" where
  "indexed P apps k = (case map_of apps k of None \<Rightarrow> None | Some a \<Rightarrow> if P a then Some k else None)"

definition delegations_ok :: "app_state \<Rightarrow> bool" where
  "delegations_ok st \<longleftrightarrow> (\<forall>e \<in> set (AppDelegation st). \<exists>a. map_of (Applications st) (snd e) = Some a
     \<and> fst e \<in> (\<lambda>gw. DelegationKey gw (App_Address a)) ` set (DelegateeGatewayAddresses a))"

definition app_inv :: "sdk \<Rightarrow> app_state \<Rightarrow> bool" where
  "app_inv sdk st \<longleftrightarrow> keyed App_Address (Applications st)
     \<and> (\<forall>e \<in> set (Applications st). app_ok sdk (snd e))
     \<and> kv_ok (AppUnstaking st) \<and> map_of (AppUnstaking st) = indexed App_IsUnbonding (Applications st)
     \<and> kv_ok (AppTransfer st) \<and> map_of (AppTransfer st) = indexed HasPendingTransfer (Applications st)
     \<and> delegations_ok st"

lemma app_invD:
  assumes "app_inv sdk st"
  shows "aps.store_ok st" and "GetApplication st x = Some a \<Longrightarrow> app_ok sdk a"
    and "GetApplication st x = Some a \<Longrightarrow> App_Address a = x"
    and "map_of (Applications st) k = Some a \<Longrightarrow> app_ok sdk a \<and> k = StringKey (App_Address a)"
  using assms
  by (auto simp: app_inv_def aps.store_ok_def keyed_def GetApplication_def ApplicationKey_def
      dest!: map_of_SomeD)

lemma applicationFromPrimaryKey_Inr:
  "applicationFromPrimaryKey st k = Inr a \<longleftrightarrow> map_of (Applications st) k = Some a"
  by (auto simp: applicationFromPrimaryKey_def split: option.splits)

section \<open>Writes and removals\<close>

lemma set_fold_kv_del: "set (fold (\<lambda>x. kv_del (f x)) xs s) = {e \<in> set s. fst e \<notin> f ` set xs}"
  by (induction xs arbitrary: s) (auto simp: kv_del_def)

lemma kv_del_idem: "map_of (kv_del k s) = (\<lambda>x. if x = k then None else map_of s x)"
  by (auto simp: kv_simps)

lemma set_kv_set_subset: "set (kv_set k v s) \<subseteq> insert (k, v) (set s)"
  by (induction k v s rule: kv_set.induct) auto

lemma set_fold_kv_set_subset: "set (fold (\<lambda>x. kv_set (f x) v) xs s) \<subseteq> (\<lambda>x. (f x, v)) ` set xs \<union> set s"
proof (induction xs arbitrary: s)
  case Nil
  then show ?case by simp
next
  case (Cons x xs)
  then show ?case using Cons [of "kv_set (f x) v s"] set_kv_set_subset [of "f x" v s] by auto
qed

lemma SetApplication_parts:
  shows "AppUnstaking (SetApplication a st) =
      (if App_IsUnbonding a then kv_set (StringKey (App_Address a)) (StringKey (App_Address a)) (AppUnstaking st)
       else kv_del (StringKey (App_Address a)) (AppUnstaking st))"
    and "AppTransfer (SetApplication a st) =
      (if HasPendingTransfer a then kv_set (StringKey (App_Address a)) (StringKey (App_Address a)) (AppTransfer st)
       else kv_del (StringKey (App_Address a)) (AppTransfer st))"
    and "AppDelegation (SetApplication a st) =
      fold (\<lambda>gw. kv_del (DelegationKey gw (App_Address a))) (pending_gateways a)
        (fold (\<lambda>gw. kv_set (DelegationKey gw (App_Address a)) (StringKey (App_Address a)))
          (DelegateeGatewayAddresses a)
          (fold (\<lambda>gw. kv_del (DelegationKey gw (App_Address a))) (pending_gateways a) (AppDelegation st)))"
    and "App_Params (SetApplication a st) = App_Params st"
  by (simp_all add: SetApplication_def Let_def indexApplicationUnstaking_def
      indexApplicationTransfer_def indexApplicationDelegations_def
      indexApplicationUndelegations_def ApplicationKey_def)

lemma indexed_set:
  "indexed P (kv_set k a apps) = (\<lambda>x. if x = k then (if P a then Some k else None) else indexed P apps x)"
  by (auto simp: indexed_def kv_simps fun_eq_iff)

lemma indexed_del: "indexed P (kv_del k apps) = (\<lambda>x. if x = k then None else indexed P apps x)"
  by (auto simp: indexed_def kv_simps fun_eq_iff)

text \<open>A write keeps the invariant when each gateway the application stops delegating to is
  pending undelegation.\<close>

lemma app_inv_set:
  assumes inv: "app_inv sdk st" and ok: "app_ok sdk a"
    and del: "\<And>a0. GetApplication st (App_Address a) = Some a0 \<Longrightarrow>
      set (DelegateeGatewayAddresses a0) \<subseteq> set (DelegateeGatewayAddresses a) \<union> set (pending_gateways a)"
  shows "app_inv sdk (SetApplication a st)"
proof -
  let ?k = "StringKey (App_Address a)" and ?st = "SetApplication a st"
  let ?D = "\<lambda>gw. DelegationKey gw (App_Address a)"
  have i: "keyed App_Address (Applications st)" "\<forall>e \<in> set (Applications st). app_ok sdk (snd e)"
    "kv_ok (AppUnstaking st)" "map_of (AppUnstaking st) = indexed App_IsUnbonding (Applications st)"
    "kv_ok (AppTransfer st)" "map_of (AppTransfer st) = indexed HasPendingTransfer (Applications st)"
    "delegations_ok st"
    using inv by (auto simp: app_inv_def)
  have apps: "Applications ?st = kv_set ?k a (Applications st)" by (rule Applications_SetApplication)
  have "keyed App_Address (Applications ?st)"
    using aps.store_ok_put [of st a] i(1) by (simp add: aps.store_ok_def)
  moreover have "\<forall>e \<in> set (Applications ?st). app_ok sdk (snd e)"
    using set_kv_set_subset [of ?k a "Applications st"] i(2) ok by (auto simp: apps)
  moreover have "kv_ok (AppUnstaking ?st)" "kv_ok (AppTransfer ?st)"
    using i(3,5) by (simp_all add: SetApplication_parts kv_simps)
  moreover have "map_of (AppUnstaking ?st) = indexed App_IsUnbonding (Applications ?st)"
    using i(4) by (auto simp: SetApplication_parts apps indexed_set kv_simps fun_eq_iff)
  moreover have "map_of (AppTransfer ?st) = indexed HasPendingTransfer (Applications ?st)"
    using i(6) by (auto simp: SetApplication_parts apps indexed_set kv_simps fun_eq_iff)
  moreover have "delegations_ok ?st"
    unfolding delegations_ok_def
  proof
    fix e assume "e \<in> set (AppDelegation ?st)"
    then have e: "fst e \<notin> ?D ` set (pending_gateways a)"
      "e \<in> (\<lambda>gw. (?D gw, ?k)) ` set (DelegateeGatewayAddresses a) \<union> set (AppDelegation st)"
      using set_fold_kv_set_subset [of ?D ?k "DelegateeGatewayAddresses a"
          "fold (\<lambda>gw. kv_del (?D gw)) (pending_gateways a) (AppDelegation st)"]
      by (auto simp: SetApplication_parts set_fold_kv_del)
    show "\<exists>b. map_of (Applications ?st) (snd e) = Some b
        \<and> fst e \<in> (\<lambda>gw. DelegationKey gw (App_Address b)) ` set (DelegateeGatewayAddresses b)"
    proof (cases "e \<in> (\<lambda>gw. (?D gw, ?k)) ` set (DelegateeGatewayAddresses a)")
      case True
      then show ?thesis by (auto simp: apps kv_simps)
    next
      case False
      then have "e \<in> set (AppDelegation st)" using e(2) by blast
      then obtain b where b: "map_of (Applications st) (snd e) = Some b"
        "fst e \<in> (\<lambda>gw. DelegationKey gw (App_Address b)) ` set (DelegateeGatewayAddresses b)"
        using i(7) by (auto simp: delegations_ok_def)
      show ?thesis
      proof (cases "snd e = ?k")
        case True
        then have "App_Address b = App_Address a" "GetApplication st (App_Address a) = Some b"
          using app_invD(4) [OF inv b(1)] b(1) by (simp_all add: GetApplication_def ApplicationKey_def)
        then show ?thesis using del [of b] b(2) e(1) True by (auto simp: apps kv_simps)
      next
        case False
        then show ?thesis using b by (auto simp: apps kv_simps)
      qed
    qed
  qed
  ultimately show ?thesis by (simp add: app_inv_def)
qed

lemma app_inv_remove:
  assumes inv: "app_inv sdk st" and a: "GetApplication st (App_Address a) = Some a"
  shows "app_inv sdk (RemoveApplication a st)"
proof -
  let ?k = "StringKey (App_Address a)"
  have i: "aps.store_ok st" "\<forall>e \<in> set (Applications st). app_ok sdk (snd e)"
    "kv_ok (AppUnstaking st)" "map_of (AppUnstaking st) = indexed App_IsUnbonding (Applications st)"
    "kv_ok (AppTransfer st)" "map_of (AppTransfer st) = indexed HasPendingTransfer (Applications st)"
    "delegations_ok st"
    using inv by (auto simp: app_inv_def aps.store_ok_def)
  have "delegations_ok (RemoveApplication a st)"
    unfolding delegations_ok_def
  proof
    fix e assume e: "e \<in> set (AppDelegation (RemoveApplication a st))"
    then have e': "e \<in> set (AppDelegation st)"
      "fst e \<notin> (\<lambda>gw. DelegationKey gw (App_Address a)) ` set (DelegateeGatewayAddresses a)"
      by (auto simp: RemoveApplication_eq set_fold_kv_del)
    then obtain b where b: "map_of (Applications st) (snd e) = Some b"
        "fst e \<in> (\<lambda>gw. DelegationKey gw (App_Address b)) ` set (DelegateeGatewayAddresses b)"
      using i(7) by (auto simp: delegations_ok_def)
    then have "snd e \<noteq> ?k" using e'(2) a by (auto simp: GetApplication_def ApplicationKey_def)
    then show "\<exists>b. map_of (Applications (RemoveApplication a st)) (snd e) = Some b
        \<and> fst e \<in> (\<lambda>gw. DelegationKey gw (App_Address b)) ` set (DelegateeGatewayAddresses b)"
      using b by (auto simp: RemoveApplication_eq kv_simps)
  qed
  moreover have "\<forall>e \<in> set (kv_del ?k (Applications st)). app_ok sdk (snd e)"
    using i(2) by (simp add: kv_del_def)
  moreover have "keyed App_Address (kv_del ?k (Applications st))"
    using aps.store_ok_remove [OF i(1), of a] by (simp add: aps.store_ok_def RemoveApplication_eq)
  ultimately show ?thesis
    using i(3-6)
    by (simp add: app_inv_def RemoveApplication_eq indexed_del kv_simps fun_eq_iff)
qed

lemma app_inv_transfer_index:
  "app_inv sdk st \<Longrightarrow> \<not> HasPendingTransfer a \<Longrightarrow> map_of (Applications st) (StringKey (App_Address a)) = Some a
    \<Longrightarrow> app_inv sdk (removeApplicationTransferIndex (App_Address a) st)"
  by (auto simp: app_inv_def removeApplicationTransferIndex_def kv_simps ApplicationKey_def
      delegations_ok_def indexed_def fun_eq_iff)

lemma app_inv_unstaking_index:
  "app_inv sdk st \<Longrightarrow> \<not> App_IsUnbonding a \<Longrightarrow> map_of (Applications st) (StringKey (App_Address a)) = Some a
    \<Longrightarrow> app_inv sdk (removeApplicationUnstakingIndex (App_Address a) st)"
  by (auto simp: app_inv_def removeApplicationUnstakingIndex_def kv_simps ApplicationKey_def
      delegations_ok_def indexed_def fun_eq_iff)

lemma app_inv_index:
  assumes "app_inv sdk st"
  shows "app_inv sdk (removeApplicationDelegationIndex x y st)"
    and "app_inv sdk (removeApplicationUndelegationIndex k st)"
  using assms
  by (auto simp: app_inv_def removeApplicationDelegationIndex_def delegations_ok_def kv_del_def
      removeApplicationUndelegationIndex_def)

end
