(* ===== verification/AppSteps.thy ===== *)
theory AppSteps
  imports AppInv
begin

text \<open>
  Every operation of the application module keeps the module's invariant and never records more
  stake than it escrows; and the end blockers, run in a state that satisfies the invariant, return
  without an error.
\<close>

definition app_escrow :: "app_ctx \<Rightarrow> int" where
  "app_escrow s = aps.stakes (fst s) - inflow ''application'' (snd s)"

section \<open>Messages\<close>

lemma record_service_change_fields:
  assumes "recordApplicationServiceConfigChange c sh svcs a = Inr a'"
  shows "App_Address a' = App_Address a" "App_Stake a' = App_Stake a"
    "DelegateeGatewayAddresses a' = DelegateeGatewayAddresses a"
    "PendingUndelegations a' = PendingUndelegations a" "PendingTransfer a' = PendingTransfer a"
    "App_UnstakeSessionEndHeight a' = App_UnstakeSessionEndHeight a"
  using assms
  by (auto simp: recordApplicationServiceConfigChange_def Let_def res_simps
      BackfillServiceConfigHistory_def split: if_splits)

lemma updateApplication_Inr:
  assumes "updateApplication sdk h sh msg a = Inr a'" and "sdk_ok sdk"
  obtains stake where "MSA_Stake msg = Some stake" "App_Stake a' = stake"
    "App_Address a' = App_Address a" "MSA_Address msg = App_Address a"
    "DelegateeGatewayAddresses a' = DelegateeGatewayAddresses a"
    "PendingTransfer a' = PendingTransfer a"
proof -
  from assms(1) obtain stake a1 where s: "MSA_Stake msg = Some stake"
    "recordApplicationServiceConfigChange h sh (app_services msg) (a\<lparr>App_Stake := stake\<rparr>) = Inr a1"
    "a' = update_spend_limit (MSA_PerSessionSpendLimit msg) a1" "MSA_Address msg = App_Address a"
    by (auto simp: updateApplication_def res_simps split: option.splits if_splits)
  then show ?thesis
    using that record_service_change_fields [OF s(2)]
    by (auto simp: update_spend_limit_def split: option.splits)
qed

lemma staked_application_Inr:
  assumes "staked_application sdk h sh msg found = Inr (a, c)" and "sdk_ok sdk"
    and "MSA_Stake msg = Some stake"
    and "\<And>a0. found = Some a0 \<Longrightarrow> App_Address a0 = MSA_Address msg"
  shows "App_Address a = MSA_Address msg" and "App_Stake a = stake"
    and "case found of None \<Rightarrow> Amount c = Amount stake \<and> PendingTransfer a = None
      | Some a0 \<Rightarrow> Amount c = Amount stake - Amount (App_Stake a0)
          \<and> PendingTransfer a = PendingTransfer a0
          \<and> DelegateeGatewayAddresses a = DelegateeGatewayAddresses a0"
proof -
  have "App_Address a = MSA_Address msg \<and> App_Stake a = stake \<and> (case found of
      None \<Rightarrow> Amount c = Amount stake \<and> PendingTransfer a = None
      | Some a0 \<Rightarrow> Amount c = Amount stake - Amount (App_Stake a0)
          \<and> PendingTransfer a = PendingTransfer a0
          \<and> DelegateeGatewayAddresses a = DelegateeGatewayAddresses a0)"
  proof (cases found)
    case None
    then show ?thesis
      using assms(1,3) by (auto simp: staked_application_def createApplication_def)
  next
    case (Some a0)
    from assms(1) Some obtain a1 where u: "updateApplication sdk h sh msg a0 = Inr a1"
      and sub: "coinSafeSub sdk stake (App_Stake a0) = Inr c"
      and a: "a = (if App_IsUnbonding a1 then a1\<lparr>App_UnstakeSessionEndHeight := 0\<rparr> else a1)"
      using assms(3) by (auto simp: staked_application_def res_simps)
    show ?thesis
      using sdk_okD(3) [OF assms(2) sub] assms(3,4) Some a
      by (rule_tac updateApplication_Inr [OF u assms(2)]) auto
  qed
  then show "App_Address a = MSA_Address msg" and "App_Stake a = stake"
    and "case found of None \<Rightarrow> Amount c = Amount stake \<and> PendingTransfer a = None
      | Some a0 \<Rightarrow> Amount c = Amount stake - Amount (App_Stake a0)
          \<and> PendingTransfer a = PendingTransfer a0
          \<and> DelegateeGatewayAddresses a = DelegateeGatewayAddresses a0" by auto
qed

lemma StakeApplication_keeps:
  assumes "StakeApplication sdk h sh msg s = Inr s'" and "sdk_ok sdk" and "app_inv sdk (fst s)"
  shows "app_inv sdk (fst s') \<and> app_escrow s' = app_escrow s"
proof -
  obtain st log where s: "s = (st, log)" by (cases s)
  from assms(1) obtain a c where
    v: "isBech32 sdk (MSA_Address msg)" "validate_stake_coin sdk (App ErrAppInvalidStake) (MSA_Stake msg) = Inr ()"
    and g: "staked_application sdk h sh msg (GetApplication st (MSA_Address msg)) = Inr (a, c)"
    and s': "s' = (SetApplication a st,
      log @ [SendFromAccountToModule (MSA_Address msg) ''application'' c])"
    by (auto simp: s StakeApplication_def MsgStakeApplication_ValidateBasic_def res_simps Let_def
        split: option.splits if_splits)
  obtain stake where k: "MSA_Stake msg = Some stake" "Denom stake = DenomuPOKT" "0 < Amount stake"
    using validate_stake_coin_ok [OF assms(2) v(2)] .
  have inv: "app_inv sdk st" using assms(3) s by simp
  note d = app_invD [OF inv]
  have addr: "App_Address a0 = MSA_Address msg" if "GetApplication st (MSA_Address msg) = Some a0" for a0
    using d(3) that by simp
  note i = staked_application_Inr [OF g assms(2) k(1) addr]
  have ok: "app_ok sdk a"
  proof (cases "GetApplication st (MSA_Address msg)")
    case None
    then show ?thesis using i v(1) k by (simp add: app_ok_def)
  next
    case (Some a0)
    then show ?thesis using i v(1) k d(2) [OF Some] addr [OF Some]
      by (auto simp: app_ok_def split: option.splits)
  qed
  have "app_inv sdk (SetApplication a st)"
    using i by (intro app_inv_set [OF inv ok]) auto
  moreover have "aps.stakes (SetApplication a st) = aps.stakes st + Amount c"
    using i aps.stakes_put [OF d(1), of a]
    by (cases "GetApplication st (MSA_Address msg)") (auto simp: GetApplication_find)
  ultimately show ?thesis by (simp add: s s' app_escrow_def)
qed

text \<open>A write that changes neither the stake nor who the application is.\<close>

lemma set_keeps:
  assumes inv: "app_inv sdk st" and a0: "GetApplication st (App_Address a) = Some a0"
    and stake: "App_Stake a = App_Stake a0"
    and tr: "PendingTransfer a = PendingTransfer a0 \<or> PendingTransfer a = None
      \<or> (\<exists>d h. PendingTransfer a = Some \<lparr>PT_DestinationAddress = d, PT_SessionEndHeight = h\<rparr>
           \<and> isBech32 sdk d \<and> d \<noteq> App_Address a)"
    and del: "set (DelegateeGatewayAddresses a0)
      \<subseteq> set (DelegateeGatewayAddresses a) \<union> set (pending_gateways a)"
  shows "app_inv sdk (SetApplication a st)" and "aps.stakes (SetApplication a st) = aps.stakes st"
proof -
  have "App_Address a0 = App_Address a" "app_ok sdk a0" using app_invD [OF inv] a0 by auto
  then have "app_ok sdk a" using stake tr by (auto simp: app_ok_def split: option.splits)
  then show "app_inv sdk (SetApplication a st)" using del a0 by (intro app_inv_set [OF inv]) auto
  show "aps.stakes (SetApplication a st) = aps.stakes st"
    using aps.stakes_keep [OF app_invD(1) [OF inv]] a0 stake by (simp add: GetApplication_find)
qed

lemma UnstakeApplication_keeps:
  assumes "UnstakeApplication h sh addr s = Inr s'" and "app_inv sdk (fst s)"
  shows "app_inv sdk (fst s') \<and> app_escrow s' = app_escrow s"
proof -
  obtain st log where s: "s = (st, log)" by (cases s)
  from assms(1) obtain a u where a: "GetApplication st addr = Some a"
    and s': "s' = (SetApplication (a\<lparr>App_UnstakeSessionEndHeight := u\<rparr>) st, log)"
    by (auto simp: s UnstakeApplication_def res_simps split: option.splits if_splits)
  have inv: "app_inv sdk st" using assms(2) s by simp
  show ?thesis
    using set_keeps [OF inv, of "a\<lparr>App_UnstakeSessionEndHeight := u\<rparr>" a] a app_invD(3) [OF inv a]
    by (simp add: s s' app_escrow_def)
qed

lemma DelegateToGateway_keeps:
  assumes "DelegateToGateway sdk h sh gst x gw s = Inr s'" and "app_inv sdk (fst s)"
  shows "app_inv sdk (fst s') \<and> app_escrow s' = app_escrow s"
proof -
  obtain st log where s: "s = (st, log)" by (cases s)
  from assms(1) obtain a where a: "GetApplication st x = Some a"
    and s': "s' = (SetApplication (updatePendingUndelegations gw
        (a\<lparr>DelegateeGatewayAddresses := DelegateeGatewayAddresses a @ [gw]\<rparr>)) st, log)"
    by (auto simp: s DelegateToGateway_def res_simps Let_def split: option.splits if_splits)
  have inv: "app_inv sdk st" using assms(2) s by simp
  show ?thesis
    using set_keeps [OF inv, of "updatePendingUndelegations gw
        (a\<lparr>DelegateeGatewayAddresses := DelegateeGatewayAddresses a @ [gw]\<rparr>)" a] a app_invD(3) [OF inv a]
    by (simp add: s s' app_escrow_def updatePendingUndelegations_def) auto
qed

lemma last_index_Some:
  "last_index x i ys r = Some n \<Longrightarrow> r = Some n \<or> (i \<le> n \<and> n < i + length ys \<and> ys ! (n - i) = x)"
proof (induction ys arbitrary: i r)
  case Nil
  then show ?case by simp
next
  case (Cons y ys)
  from Cons.IH [of "Suc i"] Cons.prems
  have "(if y = x then Some i else r) = Some n \<or> (Suc i \<le> n \<and> n < Suc i + length ys \<and> ys ! (n - Suc i) = x)"
    by simp
  then show ?case by (auto simp: nth_Cons' split: if_splits)
qed

lemma set_remove_at: "n < length ys \<Longrightarrow> set ys \<subseteq> insert (ys ! n) (set (remove_at n ys))"
proof -
  assume "n < length ys"
  then have "set (take n ys @ ys ! n # drop (Suc n) ys) \<subseteq> insert (ys ! n) (set (remove_at n ys))"
    by (auto simp: remove_at_def)
  then show ?thesis using \<open>n < length ys\<close> by (simp add: id_take_nth_drop [symmetric])
qed

lemma entry_kv_set: "(k, v) \<in> set (kv_set k v s)"
  by (induction k v s rule: kv_set.induct) auto

lemma recordPendingUndelegation_Inr:
  assumes "recordPendingUndelegation sh gw h a = Inr a'"
  shows "gw \<in> set (pending_gateways a')" and "App_Address a' = App_Address a"
    and "App_Stake a' = App_Stake a" and "PendingTransfer a' = PendingTransfer a"
    and "DelegateeGatewayAddresses a' = DelegateeGatewayAddresses a"
    and "App_UnstakeSessionEndHeight a' = App_UnstakeSessionEndHeight a"
proof -
  from assms obtain e where e: "a' = (let gws = (case map_of (PendingUndelegations a) e of None \<Rightarrow> [] | Some l \<Rightarrow> l)
    in if gw \<notin> set gws then a\<lparr>PendingUndelegations := kv_set e (gws @ [gw]) (PendingUndelegations a)\<rparr> else a)"
    by (auto simp: recordPendingUndelegation_def res_simps Let_def)
  define gws where "gws = (case map_of (PendingUndelegations a) e of None \<Rightarrow> [] | Some l \<Rightarrow> l)"
  show "gw \<in> set (pending_gateways a')"
  proof (cases "gw \<in> set gws")
    case True
    then have "(e, gws) \<in> set (PendingUndelegations a)"
      by (auto simp: gws_def dest: map_of_SomeD split: option.splits)
    then show ?thesis using True e by (force simp: pending_gateways_def gws_def [symmetric] Let_def)
  next
    case False
    then show ?thesis
      using e entry_kv_set [of e "gws @ [gw]" "PendingUndelegations a"]
      by (force simp: pending_gateways_def gws_def [symmetric] Let_def)
  qed
qed (use assms in \<open>auto simp: recordPendingUndelegation_def res_simps Let_def\<close>)

lemma UndelegateFromGateway_keeps:
  assumes "UndelegateFromGateway sdk h sh x gw s = Inr s'" and "app_inv sdk (fst s)"
  shows "app_inv sdk (fst s') \<and> app_escrow s' = app_escrow s"
proof -
  obtain st log where s: "s = (st, log)" by (cases s)
  from assms(1) obtain a n a2 where a: "GetApplication st x = Some a"
    and n: "last_index gw 0 (DelegateeGatewayAddresses a) None = Some n"
    and r: "recordPendingUndelegation sh gw h
      (a\<lparr>DelegateeGatewayAddresses := remove_at n (DelegateeGatewayAddresses a)\<rparr>) = Inr a2"
    and s': "s' = (SetApplication a2 st, log)"
    by (auto simp: s UndelegateFromGateway_def res_simps Let_def split: option.splits)
  have inv: "app_inv sdk st" using assms(2) s by simp
  note p = recordPendingUndelegation_Inr [OF r]
  have "n < length (DelegateeGatewayAddresses a) \<and> DelegateeGatewayAddresses a ! n = gw"
    using last_index_Some [OF n] by simp
  then have "set (DelegateeGatewayAddresses a) \<subseteq> set (DelegateeGatewayAddresses a2) \<union> set (pending_gateways a2)"
    using set_remove_at [of n "DelegateeGatewayAddresses a"] p by auto
  then show ?thesis
    using set_keeps [OF inv, of a2 a] p a app_invD(3) [OF inv a] by (simp add: s s' app_escrow_def)
qed

lemma TransferApplication_keeps:
  assumes "TransferApplication sdk h sh src dst s = Inr s'" and "app_inv sdk (fst s)"
  shows "app_inv sdk (fst s') \<and> app_escrow s' = app_escrow s"
proof -
  obtain st log where s: "s = (st, log)" by (cases s)
  from assms(1) obtain a u where a: "GetApplication st src = Some a"
    and v: "isBech32 sdk dst" "src \<noteq> dst"
    and s': "s' = (SetApplication (a\<lparr>PendingTransfer := Some \<lparr>PT_DestinationAddress = dst,
        PT_SessionEndHeight = u\<rparr>\<rparr>) st, log)"
    by (auto simp: s TransferApplication_def MsgTransferApplication_ValidateBasic_def res_simps Let_def
        split: option.splits if_splits)
  have inv: "app_inv sdk st" using assms(2) s by simp
  show ?thesis
    using set_keeps [OF inv, of "a\<lparr>PendingTransfer := Some \<lparr>PT_DestinationAddress = dst,
        PT_SessionEndHeight = u\<rparr>\<rparr>" a] a app_invD(3) [OF inv a] v
    by (simp add: s s' app_escrow_def)
qed

section \<open>End blockers\<close>

text \<open>With a nonzero session length every session height is computed.\<close>

definition sessions_total :: "shared_state \<Rightarrow> bool" where
  "sessions_total sh \<longleftrightarrow> NumBlocksPerSession (GetParams sh) \<noteq> 0"

lemma session_heights_total:
  assumes "NumBlocksPerSession p \<noteq> 0"
  shows "\<exists>e. GetSessionEndHeight p h = Inr e" and "\<exists>b. GetNextSessionStartHeight p h = Inr b"
    and "\<exists>b. IsSessionEndHeight p h = Inr b" and "\<exists>e. GetSettlementSessionEndHeight p h = Inr e"
proof -
  have "\<exists>x. quo64 y (int64_of (NumBlocksPerSession p)) = Inr x" for y
    using assms by (simp add: quo64_def int64_of_nonzero)
  then have start: "\<exists>s. GetSessionStartHeight p h = Inr s" for h
    by (auto simp: GetSessionStartHeight_def Let_def)
       (metis bindR.simps(2))
  have e: "\<exists>e. GetSessionEndHeight p h = Inr e" for h
    using start [of h] by (auto simp: GetSessionEndHeight_def Let_def)
  then show "\<exists>e. GetSessionEndHeight p h = Inr e" .
  show "\<exists>b. GetNextSessionStartHeight p h = Inr b"
    using e [of h] by (auto simp: GetNextSessionStartHeight_def)
  show "\<exists>b. IsSessionEndHeight p h = Inr b"
    using e [of h] by (auto simp: IsSessionEndHeight_def)
  show "\<exists>e. GetSettlementSessionEndHeight p h = Inr e"
    using e [of h] by (auto simp: GetSettlementSessionEndHeight_def)
qed

lemma foldR_total:
  assumes "P s xs" and "\<And>s x rest. P s (x # rest) \<Longrightarrow> \<exists>s'. f s x = Inr s' \<and> P s' rest"
  shows "\<exists>t. foldR f s xs = Inr t \<and> P t []"
  using assms(1)
proof (induction xs arbitrary: s)
  case Nil
  then show ?case by simp
next
  case (Cons x xs)
  then show ?case using assms(2) by (metis bindR.simps(2) foldR.simps(2))
qed

lemma auto_undelegate_app_total:
  assumes "sessions_total sh" and "app_inv sdk st" and "k \<in> dom (map_of (Applications st))"
  shows "\<exists>st'. auto_undelegate_app sh h gw st k = Inr st' \<and> app_inv sdk st'
    \<and> aps.stakes st' = aps.stakes st \<and> dom (map_of (Applications st')) = dom (map_of (Applications st))"
proof -
  from assms(3) obtain a where a: "map_of (Applications st) k = Some a" by blast
  have k: "k = StringKey (App_Address a)" using app_invD(4) [OF assms(2) a] by simp
  show ?thesis
  proof (cases "gw \<in> set (DelegateeGatewayAddresses a)")
    case False
    then show ?thesis
      using app_inv_index(1) [OF assms(2)] a
      by (simp add: auto_undelegate_app_def applicationFromPrimaryKey_def aps.stakes_def
          removeApplicationDelegationIndex_def)
  next
    case True
    let ?a = "a\<lparr>DelegateeGatewayAddresses := remove1 gw (DelegateeGatewayAddresses a)\<rparr>"
    obtain a' where r: "recordPendingUndelegation sh gw h ?a = Inr a'"
      using session_heights_total(1) [of "GetParams sh" h] assms(1)
      by (auto simp: recordPendingUndelegation_def Keeper_GetSessionEndHeight_def sessions_total_def Let_def)
    note p = recordPendingUndelegation_Inr [OF r]
    have "set (DelegateeGatewayAddresses a) \<subseteq> set (DelegateeGatewayAddresses a') \<union> set (pending_gateways a')"
      using p(1,5) in_set_remove1 [of _ gw "DelegateeGatewayAddresses a"] by fastforce
    then show ?thesis
      using set_keeps [OF assms(2), of a' a] p r a k True
      by (simp add: auto_undelegate_app_def applicationFromPrimaryKey_def GetApplication_def
          ApplicationKey_def Applications_SetApplication kv_simps insert_absorb domIff)
  qed
qed

lemma auto_undelegate_total:
  assumes "sessions_total sh" and "app_inv sdk st"
  shows "\<exists>st'. EndBlockerAutoUndelegateFromUnbondingGateways h sh gst st = Inr st'
    \<and> app_inv sdk st' \<and> aps.stakes st' = aps.stakes st"
proof -
  have gw: "\<exists>st'. auto_undelegate_gateway sh h st g = Inr st' \<and> app_inv sdk st'
      \<and> aps.stakes st' = aps.stakes st" if inv: "app_inv sdk st" for st g
  proof -
    let ?P = "\<lambda>s ks. app_inv sdk s \<and> aps.stakes s = aps.stakes st
      \<and> set ks \<subseteq> dom (map_of (Applications s))"
    have "?P st (GetDelegationsIterator st (Gateway_Address g))"
      using inv by (auto simp: app_inv_def delegations_ok_def GetDelegationsIterator_def)
    moreover have "\<exists>s'. auto_undelegate_app sh h (Gateway_Address g) s k = Inr s' \<and> ?P s' ks"
      if "?P s (k # ks)" for s k ks
      using auto_undelegate_app_total [OF assms(1), of sdk s k] that by fastforce
    ultimately show ?thesis
      unfolding auto_undelegate_gateway_def
      using foldR_total [of ?P st _ "auto_undelegate_app sh h (Gateway_Address g)"] by blast
  qed
  have "\<exists>t. EndBlockerAutoUndelegateFromUnbondingGateways h sh gst st = Inr t
    \<and> app_inv sdk t \<and> aps.stakes t = aps.stakes st"
    unfolding EndBlockerAutoUndelegateFromUnbondingGateways_def
    using foldR_total [of "\<lambda>s _. app_inv sdk s \<and> aps.stakes s = aps.stakes st" st _
        "auto_undelegate_gateway sh h"] gw assms(2) by metis
  then show ?thesis .
qed

lemma prune_keeps:
  assumes "app_inv sdk st"
  shows "app_inv sdk (EndBlockerPruneAppToGatewayPendingUndelegation h sh st)
    \<and> aps.stakes (EndBlockerPruneAppToGatewayPendingUndelegation h sh st) = aps.stakes st"
proof -
  have step: "app_inv sdk (prune_undelegation e x s) \<and> aps.stakes (prune_undelegation e x s) = aps.stakes s"
    if inv: "app_inv sdk s" for e x s
  proof (cases "GetApplication s (PU_ApplicationAddress (snd x))")
    case None
    then show ?thesis
      using app_inv_index(2) [OF inv]
      by (simp add: prune_undelegation_def aps.stakes_def removeApplicationUndelegationIndex_def)
  next
    case (Some a)
    then show ?thesis
      using set_keeps [OF inv, of "a\<lparr>PendingUndelegations := filter (\<lambda>p. \<not> fst p < e)
          (PendingUndelegations a)\<rparr>" a] app_invD(3) [OF inv Some]
      by (simp add: prune_undelegation_def)
  qed
  have "app_inv sdk (fold (prune_undelegation e) xs s)
      \<and> aps.stakes (fold (prune_undelegation e) xs s) = aps.stakes s" if "app_inv sdk s" for e xs s
    using that by (induction xs arbitrary: s) (auto simp: step)
  then show ?thesis
    using assms by (auto simp: EndBlockerPruneAppToGatewayPendingUndelegation_def Let_def)
qed

text \<open>The keys an index of the module holds: distinct, each that of a stored application.\<close>

lemma index_keys:
  assumes "kv_ok idx" and "map_of idx = indexed P apps"
  shows "distinct (map snd idx)" and "set (map snd idx) \<subseteq> dom (map_of apps)"
    and "set (map snd idx) = {k. \<exists>a. map_of apps k = Some a \<and> P a}"
proof -
  have d: "distinct (map fst idx)" using assms(1) by (rule kv_ok_distinct)
  have e: "e \<in> set idx \<longleftrightarrow> indexed P apps (fst e) = Some (snd e)" for e
    using d assms(2) by (metis map_of_eq_Some_iff prod.collapse)
  then have "snd e = fst e" if "e \<in> set idx" for e
    using that by (auto simp: indexed_def split: option.splits if_splits)
  then have m: "map snd idx = map fst idx" by simp
  then show "distinct (map snd idx)" using d by (simp only:)
  have "set (map fst idx) = {k. indexed P apps k \<noteq> None}"
    using assms(2) by (auto simp: dom_map_of_conv_image_fst [symmetric] dom_def)
  then show s: "set (map snd idx) = {k. \<exists>a. map_of apps k = Some a \<and> P a}"
    using m by (auto simp: indexed_def split: option.splits if_splits)
  show "set (map snd idx) \<subseteq> dom (map_of apps)" unfolding s by blast
qed

lemma unbond_application_step_total:
  assumes "sessions_total sh" and "app_inv sdk (fst s)" and "k \<in> dom (map_of (Applications (fst s)))"
  shows "\<exists>s'. unbond_application_step sdk h sh s k = Inr s' \<and> app_inv sdk (fst s')
    \<and> app_escrow s' \<le> app_escrow s
    \<and> (\<forall>k'. k' \<noteq> k \<longrightarrow> map_of (Applications (fst s')) k' = map_of (Applications (fst s)) k')"
proof -
  obtain st log where s: "s = (st, log)" by (cases s)
  have inv: "app_inv sdk st" using assms(2) s by simp
  from assms(3) s obtain a where a: "map_of (Applications st) k = Some a" by auto
  have k: "k = StringKey (App_Address a)" and ok: "app_ok sdk a" using app_invD(4) [OF inv a] by simp_all
  have ga: "GetApplication st (App_Address a) = Some a"
    using a k by (simp add: GetApplication_def ApplicationKey_def)
  obtain e where e: "GetSessionEndHeight (GetParams sh) h = Inr e"
    using session_heights_total(1) assms(1) unfolding sessions_total_def by blast
  let ?R = "RemoveApplication a st"
  have rem: "app_inv sdk ?R" by (rule app_inv_remove [OF inv ga])
  have stk: "aps.stakes ?R = aps.stakes st - Amount (App_Stake a)"
    using aps.stakes_release [OF app_invD(1) [OF inv]] ga by (simp add: GetApplication_find)
  have keep: "map_of (Applications ?R) k' = map_of (Applications st) k'" if "k' \<noteq> k" for k'
    using that k by (simp add: RemoveApplication_eq kv_simps)
  have unb: "\<exists>log'. UnbondApplication sdk h sh a s = Inr (?R, log') \<and> app_escrow (?R, log') \<le> app_escrow s"
  proof (cases "bankAccepts sdk log (SendFromModuleToAccount ''application'' (App_Address a) (App_Stake a))")
    case True
    then show ?thesis using ok stk by (auto simp: UnbondApplication_def s bank_do_def app_ok_def app_escrow_def)
  next
    case False
    then show ?thesis
      using ok stk e by (auto simp: UnbondApplication_def s bank_do_def app_ok_def app_escrow_def)
  qed
  show ?thesis
  proof (cases "App_IsUnbonding a")
    case False
    then show ?thesis
      using app_inv_unstaking_index [OF inv False] a k
      by (simp add: unbond_application_step_def s applicationFromPrimaryKey_def app_escrow_def
          aps.stakes_def removeApplicationUnstakingIndex_def)
  next
    case True
    then show ?thesis
      using a unb rem keep e assms(2)
      by (auto simp: unbond_application_step_def s applicationFromPrimaryKey_def Let_def)
  qed
qed

lemma unbond_total:
  assumes "sessions_total sh" and "app_inv sdk (fst s)"
  shows "\<exists>s'. EndBlockerUnbondApplications sdk h sh s = Inr s' \<and> app_inv sdk (fst s')
    \<and> app_escrow s' \<le> app_escrow s"
proof -
  obtain b where b: "IsSessionEndHeight (GetParams sh) h = Inr b"
    using session_heights_total(3) assms(1) unfolding sessions_total_def by blast
  let ?P = "\<lambda>t ks. app_inv sdk (fst t) \<and> app_escrow t \<le> app_escrow s \<and> distinct ks
    \<and> set ks \<subseteq> dom (map_of (Applications (fst t)))"
  have "?P s (GetAllUnstakingApplicationsIterator (fst s))"
    using assms(2) index_keys(1,2) by (simp add: app_inv_def GetAllUnstakingApplicationsIterator_def)
  moreover have "\<exists>t'. unbond_application_step sdk h sh t k = Inr t' \<and> ?P t' ks" if p: "?P t (k # ks)" for t k ks
  proof -
    obtain t' where t': "unbond_application_step sdk h sh t k = Inr t'" "app_inv sdk (fst t')"
      "app_escrow t' \<le> app_escrow t"
      "\<forall>k'. k' \<noteq> k \<longrightarrow> map_of (Applications (fst t')) k' = map_of (Applications (fst t)) k'"
      using unbond_application_step_total [OF assms(1), of sdk t k h] p by auto
    moreover have "set ks \<subseteq> dom (map_of (Applications (fst t')))"
      using p t'(4) by (fastforce simp: dom_def)
    ultimately show ?thesis using p by auto
  qed
  ultimately have "\<exists>t. foldR (unbond_application_step sdk h sh) s
      (GetAllUnstakingApplicationsIterator (fst s)) = Inr t \<and> ?P t []"
    by (rule foldR_total)
  then show ?thesis using b assms(2) by (cases b) (auto simp: EndBlockerUnbondApplications_def)
qed

section \<open>Transfers\<close>

lemma merge_fields:
  "App_Address (mergeAppPerSessionSpendLimit s d) = App_Address d"
  "App_Stake (mergeAppPerSessionSpendLimit s d) = App_Stake d"
  "PendingTransfer (mergeAppPerSessionSpendLimit s d) = PendingTransfer d"
  "DelegateeGatewayAddresses (mergeAppPerSessionSpendLimit s d) = DelegateeGatewayAddresses d"
  "PendingUndelegations (mergeAppPerSessionSpendLimit s d) = PendingUndelegations d"
  by (auto simp: mergeAppPerSessionSpendLimit_def split: option.splits)

lemma merged_application_Inr:
  assumes "sdk_ok sdk" and "Denom (App_Stake s) = Denom (App_Stake d)"
  obtains a where "merged_application sdk s d = Inr a" "App_Address a = App_Address d"
    "App_Stake a = \<lparr>Denom = Denom (App_Stake s), Amount = Amount (App_Stake s) + Amount (App_Stake d)\<rparr>"
    "PendingTransfer a = PendingTransfer d"
    "DelegateeGatewayAddresses a = DelegateeGatewayAddresses d
       @ filter (\<lambda>gw. gw \<notin> set (DelegateeGatewayAddresses d)) (DelegateeGatewayAddresses s)"
    "PendingUndelegations a = merged_undelegations (PendingUndelegations s) (PendingUndelegations d)"
  using assms
  by (auto simp: merged_application_def sdk_okD(4) merge_fields mergeAppPendingUndelegations_def
      mergeAppDelegatees_def)

lemma moved_fields:
  "App_Address (moved_application s x) = x" "App_Stake (moved_application s x) = App_Stake s"
  "PendingTransfer (moved_application s x) = None"
  "App_ServiceConfigs (moved_application s x) = App_ServiceConfigs s"
  by (simp_all add: moved_application_def Let_def)

lemma record_service_change_total:
  "sessions_total sh \<Longrightarrow> \<exists>a'. recordApplicationServiceConfigChange h sh svcs a = Inr a'"
  using session_heights_total(2) [of "GetParams sh" h]
  by (auto simp: recordApplicationServiceConfigChange_def sessions_total_def Let_def)

text \<open>A transfer succeeds for an application that is not unbonding, keeps the invariant and the
  total stake, and touches no application but the source and the destination.\<close>

lemma transferApplication_total:
  assumes ok: "sdk_ok sdk" and tot: "sessions_total sh" and inv: "app_inv sdk st"
    and src: "GetApplication st (App_Address s) = Some s"
    and tr: "PendingTransfer s = Some t" and nu: "\<not> App_IsUnbonding s"
  shows "\<exists>st'. transferApplication sdk h sh s st = Inr st' \<and> app_inv sdk st'
    \<and> aps.stakes st' = aps.stakes st
    \<and> (\<exists>a. App_Address a = PT_DestinationAddress t
         \<and> Applications st' = kv_set (StringKey (App_Address a)) a
             (kv_del (StringKey (App_Address s)) (Applications st))
         \<and> Amount (App_Stake a) = Amount (App_Stake s)
             + (case GetApplication st (App_Address a) of None \<Rightarrow> 0 | Some d \<Rightarrow> Amount (App_Stake d)))"
proof -
  let ?x = "PT_DestinationAddress t" and ?R = "RemoveApplication s st"
  have sok: "app_ok sdk s" by (rule app_invD(2) [OF inv src])
  have x: "isBech32 sdk ?x" "?x \<noteq> App_Address s" using sok tr by (auto simp: app_ok_def)
  have rem: "app_inv sdk ?R" by (rule app_inv_remove [OF inv src])
  have rstk: "aps.stakes ?R = aps.stakes st - Amount (App_Stake s)"
    using aps.stakes_release [OF app_invD(1) [OF inv]] src by (simp add: GetApplication_find)
  have find_R: "GetApplication ?R y = (if y = App_Address s then None else GetApplication st y)" for y
    by (simp add: GetApplication_find aps.find_remove)
  let ?final = "case GetApplication st ?x of
      None \<Rightarrow> Inr (moved_application s ?x, App_ServiceConfigs s)
    | Some d \<Rightarrow> bindR (merged_application sdk s d) (\<lambda>a. Inr (a, mergeAppServiceConfigs s a))"
  have "\<exists>a svcs. ?final = Inr (a, svcs) \<and> App_Address a = ?x \<and> app_ok sdk a
      \<and> (case GetApplication st ?x of None \<Rightarrow> App_Stake a = App_Stake s
         | Some d \<Rightarrow> Amount (App_Stake a) = Amount (App_Stake s) + Amount (App_Stake d)
             \<and> set (DelegateeGatewayAddresses d) \<subseteq> set (DelegateeGatewayAddresses a))"
  proof (cases "GetApplication st ?x")
    case None
    then show ?thesis using sok x by (auto simp: moved_fields app_ok_def)
  next
    case (Some d)
    have dok: "app_ok sdk d" "App_Address d = ?x" using app_invD(2,3) [OF inv Some] by simp_all
    then have dn: "Denom (App_Stake s) = Denom (App_Stake d)" using sok by (simp add: app_ok_def)
    show ?thesis
      by (rule merged_application_Inr [OF ok dn])
        (use Some dok sok in \<open>auto simp: app_ok_def split: option.splits\<close>)
  qed
  then obtain a svcs where f: "?final = Inr (a, svcs)" "App_Address a = ?x" "app_ok sdk a"
    "case GetApplication st ?x of None \<Rightarrow> App_Stake a = App_Stake s
         | Some d \<Rightarrow> Amount (App_Stake a) = Amount (App_Stake s) + Amount (App_Stake d)
             \<and> set (DelegateeGatewayAddresses d) \<subseteq> set (DelegateeGatewayAddresses a)" by blast
  obtain a' where r: "recordApplicationServiceConfigChange h sh svcs a = Inr a'"
    using record_service_change_total [OF tot] by blast
  note rf = record_service_change_fields [OF r]
  have aok: "app_ok sdk a'" using f(3) rf by (auto simp: app_ok_def split: option.splits)
  have set_inv: "app_inv sdk (SetApplication a' ?R)"
    using f(2,4) rf x(2) by (intro app_inv_set [OF rem aok]) (auto simp: find_R split: option.splits)
  have "aps.stakes (SetApplication a' ?R) = aps.stakes st"
    using aps.stakes_put [OF app_invD(1) [OF rem], of a'] f(2,4) rf x(2) rstk
    by (cases "GetApplication st ?x") (auto simp: aps.find_remove GetApplication_find)
  moreover have "Applications (SetApplication a' ?R) = kv_set (StringKey (App_Address a')) a'
      (kv_del (StringKey (App_Address s)) (Applications st))"
    by (simp add: Applications_SetApplication RemoveApplication_eq)
  moreover have "Amount (App_Stake a') = Amount (App_Stake s)
      + (case GetApplication st (App_Address a') of None \<Rightarrow> 0 | Some d \<Rightarrow> Amount (App_Stake d))"
    using f(2,4) rf by (auto split: option.splits)
  moreover have "\<exists>e. GetSessionEndHeight (GetParams sh) h = Inr e"
    "\<exists>e. GetApplicationTransferHeight (GetParams sh) s = Inr e"
    using session_heights_total(1,4) tot
    by (auto simp: sessions_total_def GetApplicationTransferHeight_def)
  ultimately show ?thesis
    using f(1,2) r rf(1) set_inv nu tr
    by (auto simp: transferApplication_def Let_def intro!: exI [of _ a'])
qed

lemma transfer_application_step_total:
  assumes ok: "sdk_ok sdk" and tot: "sessions_total sh" and inv: "app_inv sdk st"
    and k: "k \<in> dom (map_of (Applications st))"
  shows "\<exists>st'. transfer_application_step sdk h sh st k = Inr st' \<and> app_inv sdk st'
    \<and> aps.stakes st' = aps.stakes st
    \<and> (\<forall>k'. k' \<noteq> k \<longrightarrow> k' \<in> dom (map_of (Applications st)) \<longrightarrow> k' \<in> dom (map_of (Applications st')))"
proof -
  from k obtain s where a: "map_of (Applications st) k = Some s" by auto
  have key: "k = StringKey (App_Address s)" using app_invD(4) [OF inv a] by simp
  have src: "GetApplication st (App_Address s) = Some s"
    using a key by (simp add: GetApplication_def ApplicationKey_def)
  obtain e where e: "GetApplicationTransferHeight (GetParams sh) s = Inr e"
    using session_heights_total(4) tot by (auto simp: sessions_total_def GetApplicationTransferHeight_def)
  show ?thesis
  proof (cases "PendingTransfer s")
    case None
    then show ?thesis
      using app_inv_transfer_index [OF inv, of s] a key
      by (simp add: transfer_application_step_def applicationFromPrimaryKey_def HasPendingTransfer_def
          aps.stakes_def removeApplicationTransferIndex_def)
  next
    case (Some t)
    note step = transfer_application_step_def applicationFromPrimaryKey_def HasPendingTransfer_def
    consider "h < e" | "e \<le> h" "App_IsUnbonding s" | "e \<le> h" "\<not> App_IsUnbonding s" by linarith
    then show ?thesis
    proof cases
      case 1
      then show ?thesis using a e Some inv by (simp add: step)
    next
      case 2
      then have "transferApplication sdk h sh s st = Inl (App ErrAppIsUnstaking)"
        by (simp add: transferApplication_def)
      then show ?thesis
        using set_keeps [OF inv, of "s\<lparr>PendingTransfer := None\<rparr>" s] src a e Some 2
        by (auto simp: step Applications_SetApplication kv_simps)
    next
      case 3
      obtain st' where t': "transferApplication sdk h sh s st = Inr st'" "app_inv sdk st'"
        "aps.stakes st' = aps.stakes st"
        "\<forall>k. k \<noteq> StringKey (App_Address s) \<longrightarrow> k \<in> dom (map_of (Applications st))
           \<longrightarrow> k \<in> dom (map_of (Applications st'))"
        using transferApplication_total [OF ok tot inv src Some 3(2), of h]
        by (auto simp: kv_simps)
      have "transfer_application_step sdk h sh st k = Inr st'"
        using t'(1) a e Some 3(1) by (simp add: step)
      then show ?thesis using t'(2-4) key by blast
    qed
  qed
qed

lemma transfer_total:
  assumes "sdk_ok sdk" and "sessions_total sh" and "app_inv sdk st"
  shows "\<exists>st'. EndBlockerTransferApplication sdk h sh st = Inr st' \<and> app_inv sdk st'
    \<and> aps.stakes st' = aps.stakes st"
proof -
  obtain b e where b: "IsSessionEndHeight (GetParams sh) h = Inr b"
    "GetSessionEndHeight (GetParams sh) h = Inr e"
    using session_heights_total(1,3) assms(2) unfolding sessions_total_def by blast
  let ?P = "\<lambda>t ks. app_inv sdk t \<and> aps.stakes t = aps.stakes st \<and> distinct ks
    \<and> set ks \<subseteq> dom (map_of (Applications t))"
  have "?P st (GetAllTransferringApplicationsIterator st)"
    using assms(3) index_keys(1,2) by (simp add: app_inv_def GetAllTransferringApplicationsIterator_def)
  moreover have "\<exists>t'. transfer_application_step sdk h sh t k = Inr t' \<and> ?P t' ks"
    if p: "?P t (k # ks)" for t k ks
  proof -
    have "app_inv sdk t" "k \<in> dom (map_of (Applications t))" using p by auto
    then obtain t' where t': "transfer_application_step sdk h sh t k = Inr t'" "app_inv sdk t'"
      "aps.stakes t' = aps.stakes t"
      "\<forall>k'. k' \<noteq> k \<longrightarrow> k' \<in> dom (map_of (Applications t)) \<longrightarrow> k' \<in> dom (map_of (Applications t'))"
      using transfer_application_step_total [OF assms(1,2)] by blast
    moreover have "set ks \<subseteq> dom (map_of (Applications t'))"
      using p t'(4) by (intro subsetI) (metis distinct.simps(2) list.set_intros(2) subsetD)
    ultimately show ?thesis using p by auto
  qed
  ultimately have "\<exists>t. foldR (transfer_application_step sdk h sh) st
      (GetAllTransferringApplicationsIterator st) = Inr t \<and> ?P t []"
    by (rule foldR_total)
  then show ?thesis using b assms(3) by (cases b) (auto simp: EndBlockerTransferApplication_def)
qed

lemma App_EndBlocker_total:
  assumes "sdk_ok sdk" and "sessions_total sh" and "app_inv sdk (fst s)"
  shows "\<exists>s'. App_EndBlocker sdk h sh gst s = Inr s' \<and> app_inv sdk (fst s')
    \<and> app_escrow s' \<le> app_escrow s"
proof -
  obtain st log where s: "s = (st, log)" by (cases s)
  obtain st1 where 1: "EndBlockerAutoUndelegateFromUnbondingGateways h sh gst st = Inr st1"
    "app_inv sdk st1" "aps.stakes st1 = aps.stakes st"
    using auto_undelegate_total [OF assms(2)] assms(3) s by fastforce
  let ?st2 = "EndBlockerPruneAppToGatewayPendingUndelegation h sh st1"
  have 2: "app_inv sdk ?st2" "aps.stakes ?st2 = aps.stakes st" using prune_keeps [OF 1(2)] 1(3) by auto
  obtain st3 log3 where 3: "EndBlockerUnbondApplications sdk h sh (?st2, log) = Inr (st3, log3)"
    "app_inv sdk st3" "app_escrow (st3, log3) \<le> app_escrow (?st2, log)"
    using unbond_total [OF assms(2), of sdk "(?st2, log)" h] 2 by auto
  obtain st4 where 4: "EndBlockerTransferApplication sdk h sh st3 = Inr st4" "app_inv sdk st4"
    "aps.stakes st4 = aps.stakes st3"
    using transfer_total [OF assms(1,2) 3(2)] by blast
  show ?thesis using 1 2 3 4 by (auto simp: App_EndBlocker_def s app_escrow_def)
qed

end
