(* ===== verification/AppProps.thy ===== *)
theory AppProps
  imports AppSteps
begin

text \<open>
  The application module as a transition system, and what it guarantees: the escrow covers every
  recorded stake, the end blockers never halt the chain, and a transfer moves the whole stake.
\<close>

section \<open>Transitions\<close>

inductive app_step :: "sdk \<Rightarrow> string \<Rightarrow> app_ctx \<Rightarrow> app_ctx \<Rightarrow> bool" for sdk authority
where
  stake: "StakeApplication sdk h sh msg s = Inr s' \<Longrightarrow> app_step sdk authority s s'"
| unstake: "UnstakeApplication h sh x s = Inr s' \<Longrightarrow> app_step sdk authority s s'"
| delegate: "DelegateToGateway sdk h sh gst x gw s = Inr s' \<Longrightarrow> app_step sdk authority s s'"
| undelegate: "UndelegateFromGateway sdk h sh x gw s = Inr s' \<Longrightarrow> app_step sdk authority s s'"
| transfer: "TransferApplication sdk h sh src dst s = Inr s' \<Longrightarrow> app_step sdk authority s s'"
| update_param: "App_UpdateParam sdk authority msg st = Inr st' \<Longrightarrow>
     app_step sdk authority (st, log) (st', log)"
| update_params: "App_UpdateParams sdk authority a p st = Inr st' \<Longrightarrow>
     app_step sdk authority (st, log) (st', log)"
| mark_below_min_stake: "MarkBelowMinStakeApplicationsUnbonding h sh st = Inr (n, st') \<Longrightarrow>
     app_step sdk authority (st, log) (st', log)"
| end_block: "App_EndBlocker sdk h sh gst s = Inr s' \<Longrightarrow> sessions_total sh \<Longrightarrow>
     app_step sdk authority s s'"

text \<open>The module before its first transaction: only parameters.\<close>

definition app_genesis :: "app_params option \<Rightarrow> app_ctx" where
  "app_genesis p = (\<lparr>App_Params = p, Applications = [], AppUnstaking = [], AppTransfer = [],
     AppDelegation = [], AppUndelegation = []\<rparr>, [])"

lemma app_inv_params: "app_inv sdk (App_SetParams p st) = app_inv sdk st"
  by (simp add: app_inv_def App_SetParams_def delegations_ok_def)

lemma App_UpdateParam_SetParams:
  "App_UpdateParam sdk authority msg st = Inr st' \<Longrightarrow> \<exists>p. st' = App_SetParams p st"
  "App_UpdateParams sdk authority a q st = Inr st' \<Longrightarrow> \<exists>p. st' = App_SetParams p st"
  by (auto simp: App_UpdateParam_def App_UpdateParams_def res_simps split: if_splits)

lemma mark_step_keeps:
  assumes "app_inv sdk st" and "GetApplication st (App_Address a) = Some a0"
    and "a0 = a \<or> a0 = a\<lparr>App_UnstakeSessionEndHeight := uint64_of e\<rparr>"
  shows "app_inv sdk (snd (mark_below_min_stake_step m e (n, st) a))"
    and "aps.stakes (snd (mark_below_min_stake_step m e (n, st) a)) = aps.stakes st"
    and "GetApplication (snd (mark_below_min_stake_step m e (n, st) a)) x
      = (if x = App_Address a then GetApplication (snd (mark_below_min_stake_step m e (n, st) a)) x
         else GetApplication st x)"
  using assms set_keeps [OF assms(1), of "a\<lparr>App_UnstakeSessionEndHeight := uint64_of e\<rparr>" a0]
  by (auto simp: mark_below_min_stake_step_def GetApplication_find aps.find_put)

lemma mark_loop_keeps:
  assumes "app_inv sdk st" and "distinct (map App_Address xs)"
    and "\<forall>a \<in> set xs. GetApplication st (App_Address a) = Some a"
  shows "app_inv sdk (snd (foldl (mark_below_min_stake_step m e) (n, st) xs))
    \<and> aps.stakes (snd (foldl (mark_below_min_stake_step m e) (n, st) xs)) = aps.stakes st"
  using assms
proof (induction xs arbitrary: n st)
  case Nil
  then show ?case by simp
next
  case (Cons a xs)
  obtain n1 st1 where s: "mark_below_min_stake_step m e (n, st) a = (n1, st1)"
    by (cases "mark_below_min_stake_step m e (n, st) a")
  have ga: "GetApplication st (App_Address a) = Some a" using Cons.prems(3) by simp
  note k = mark_step_keeps [OF Cons.prems(1) ga, of e m n, simplified s, simplified]
  have "\<forall>b \<in> set xs. GetApplication st1 (App_Address b) = Some b"
    using k(3) Cons.prems(2,3) by (metis distinct.simps(2) imageI list.set_intros(2) list.simps(9) list.set_map)
  then show ?case using Cons.IH [of st1 n1] k(1,2) Cons.prems(2) s by simp
qed

lemma MarkBelowMinStake_keeps:
  assumes "MarkBelowMinStakeApplicationsUnbonding h sh st = Inr (n, st')" and "app_inv sdk st"
  shows "app_inv sdk st' \<and> aps.stakes st' = aps.stakes st"
proof -
  have ok: "aps.store_ok st" by (rule app_invD(1) [OF assms(2)])
  have e: "GetApplication st (App_Address a) = Some a" if "a \<in> set (GetAllApplications st)" for a
    using that aps.find_entry [OF ok] by (auto simp: GetAllApplications_def GetApplication_find)
  have "map fst (Applications st) = map StringKey (map App_Address (GetAllApplications st))"
    using ok by (auto simp: aps.store_ok_def keyed_def GetAllApplications_def)
  moreover have "distinct (map fst (Applications st))"
    using ok by (simp add: aps.store_ok_def keyed_def kv_ok_distinct)
  ultimately have "distinct (map App_Address (GetAllApplications st))"
    by (metis distinct_map)
  moreover obtain m h' where "foldl (mark_below_min_stake_step m h') (0, st) (GetAllApplications st) = (n, st')"
    using assms(1) by (auto simp: MarkBelowMinStakeApplicationsUnbonding_def res_simps Let_def)
  ultimately show ?thesis
    using mark_loop_keeps [OF assms(2), of "GetAllApplications st" m h' 0] e by simp
qed

lemma app_step_keeps:
  assumes "app_step sdk authority s s'" and "sdk_ok sdk" and "app_inv sdk (fst s)"
  shows "app_inv sdk (fst s') \<and> app_escrow s' \<le> app_escrow s"
  using assms(1)
proof cases
  case (stake h sh msg)
  then show ?thesis using StakeApplication_keeps assms(2,3) by fastforce
next
  case (unstake h sh x)
  then show ?thesis using UnstakeApplication_keeps assms(3) by fastforce
next
  case (delegate h sh gst x gw)
  then show ?thesis using DelegateToGateway_keeps assms(3) by fastforce
next
  case (undelegate h sh x gw)
  then show ?thesis using UndelegateFromGateway_keeps assms(3) by fastforce
next
  case (transfer h sh src dst)
  then show ?thesis using TransferApplication_keeps assms(3) by fastforce
next
  case (update_param msg st st' log)
  obtain q where "st' = App_SetParams q st" using App_UpdateParam_SetParams(1) [OF update_param(3)] by blast
  then show ?thesis
    using update_param(1,2) assms(3)
    by (simp add: app_inv_params app_escrow_def aps.stakes_def) (simp add: App_SetParams_def)
next
  case (update_params a p st st' log)
  obtain q where "st' = App_SetParams q st" using App_UpdateParam_SetParams(2) [OF update_params(3)] by blast
  then show ?thesis
    using update_params(1,2) assms(3)
    by (simp add: app_inv_params app_escrow_def aps.stakes_def) (simp add: App_SetParams_def)
next
  case (mark_below_min_stake h sh st n st' log)
  then show ?thesis
    using MarkBelowMinStake_keeps assms(3) by (auto simp: app_escrow_def)
next
  case (end_block h sh gst)
  then show ?thesis using App_EndBlocker_total [OF assms(2) end_block(2) assms(3), of h gst] by auto
qed

lemma app_reachable_inv:
  assumes "(app_step sdk authority)\<^sup>*\<^sup>* (app_genesis p) s" and "sdk_ok sdk"
  shows "app_inv sdk (fst s) \<and> app_escrow s \<le> 0"
  using assms(1)
proof (induction rule: rtranclp_induct)
  case base
  show ?case
    by (simp add: app_genesis_def app_inv_def keyed_def indexed_def delegations_ok_def app_escrow_def
        aps.stakes_def stake_total_def fun_eq_iff)
next
  case (step s s')
  then show ?case using app_step_keeps [OF step.hyps(2) assms(2)] by fastforce
qed

end
