(* ===== verification/AppClaims.thy ===== *)
theory AppClaims
  imports AppProps
begin

text \<open>The properties of the application module, with concrete runs.\<close>

section \<open>A concrete run\<close>

definition run_params :: app_params where
  "run_params = \<lparr>MaxDelegatedGateways = 7, App_MinStake = Some \<lparr>Denom = ''upokt'', Amount = 100\<rparr>\<rparr>"

definition stake_msg :: "string \<Rightarrow> int \<Rightarrow> msg_stake_application" where
  "stake_msg x n = \<lparr>MSA_Address = x, MSA_Stake = Some \<lparr>Denom = ''upokt'', Amount = n\<rparr>,
     MSA_Services = [Some ''svc1''], MSA_PerSessionSpendLimit = None\<rparr>"

text \<open>Stake \<open>a1\<close> and \<open>a2\<close>, and unstake \<open>a1\<close> in the first session.\<close>

definition run_state :: "app_ctx res" where
  "run_state =
     bindR (StakeApplication plain_sdk 2 witness_genesis (stake_msg ''a1'' 500) (app_genesis (Some run_params)))
       (\<lambda>s1. bindR (StakeApplication plain_sdk 3 witness_genesis (stake_msg ''a2'' 700) s1)
       (\<lambda>s2. UnstakeApplication 4 witness_genesis ''a1'' s2))"

lemma run_state_reachable:
  assumes "run_state = Inr s"
  shows "(app_step plain_sdk x)\<^sup>*\<^sup>* (app_genesis (Some run_params)) s"
proof -
  from assms obtain s1 s2 where r:
    "StakeApplication plain_sdk 2 witness_genesis (stake_msg ''a1'' 500) (app_genesis (Some run_params)) = Inr s1"
    "StakeApplication plain_sdk 3 witness_genesis (stake_msg ''a2'' 700) s1 = Inr s2"
    "UnstakeApplication 4 witness_genesis ''a1'' s2 = Inr s"
    by (auto simp: run_state_def res_simps)
  have "app_step plain_sdk x (app_genesis (Some run_params)) s1" using r(1) by (rule app_step.stake)
  moreover have "app_step plain_sdk x s1 s2" using r(2) by (rule app_step.stake)
  moreover have "app_step plain_sdk x s2 s" using r(3) by (rule app_step.unstake)
  ultimately show ?thesis by (meson converse_rtranclp_into_rtranclp rtranclp.rtrancl_refl)
qed

lemma run_state_Inr:
  obtains st log where "run_state = Inr (st, log)"
    "stake_total App_Stake (Applications st) = 1200"
    "map fst (AppUnstaking st) = [''a1/'']"
proof -
  have "case run_state of Inl _ \<Rightarrow> False | Inr (st, log) \<Rightarrow>
      stake_total App_Stake (Applications st) = 1200 \<and> map fst (AppUnstaking st) = [''a1/'']"
    by code_simp
  then show ?thesis using that by (auto split: sum.splits prod.splits)
qed

section \<open>Solvency\<close>

text \<open>C16. From genesis on, whatever messages, parameter updates, minimum-stake sweeps and end blockers
  run, the stakes recorded for applications never exceed what the application module account has
  received net of what it paid out. A refund the bank refuses leaves coins in the account, never
  an uncovered stake.\<close>
theorem application_stakes_are_covered:
  assumes "(app_step sdk authority)\<^sup>*\<^sup>* (app_genesis p) (st, log)" and "sdk_ok sdk"
  shows "stake_total App_Stake (Applications st) \<le> inflow ''application'' log"
  using app_reachable_inv [OF assms] by (simp add: app_escrow_def aps.stakes_def)

theorem application_stakes_are_covered_witness:
  "\<exists>st log. run_state = Inr (st, log) \<and> stake_total App_Stake (Applications st) = 1200
    \<and> 1200 \<le> inflow ''application'' log"
proof -
  obtain st log where r: "run_state = Inr (st, log)" "stake_total App_Stake (Applications st) = 1200"
    by (rule run_state_Inr)
  then show ?thesis
    using application_stakes_are_covered [OF run_state_reachable [OF r(1), of "''gov''"] plain_sdk_ok]
    by auto
qed

section \<open>The end blockers never fail\<close>

text \<open>C17. In every state reached from genesis the application end blocker returns without an error at
  any height, whatever gateways are unbonding and whatever the bank accepts, as long as the live
  session length is not zero: it never halts the chain. In particular every entry of the
  unstaking, transfer and delegation indexes leads to a stored application.\<close>
theorem app_end_blocker_never_fails:
  assumes "(app_step sdk authority)\<^sup>*\<^sup>* (app_genesis p) s" and "sdk_ok sdk"
    and "NumBlocksPerSession (GetParams sh) \<noteq> 0"
  shows "\<exists>s'. App_EndBlocker sdk h sh gst s = Inr s'"
  using App_EndBlocker_total [OF assms(2) _ app_reachable_inv [OF assms(1,2), THEN conjunct1]] assms(3)
  unfolding sessions_total_def by blast

theorem app_end_blocker_never_fails_witness:
  "\<exists>s s'. run_state = Inr s \<and> App_EndBlocker plain_sdk 10 witness_genesis two_gateways s = Inr s'"
proof -
  obtain st log where r: "run_state = Inr (st, log)" by (rule run_state_Inr)
  have "NumBlocksPerSession (GetParams witness_genesis) \<noteq> 0" by code_simp
  then show ?thesis
    using app_end_blocker_never_fails [OF run_state_reachable [OF r, of "''gov''"] plain_sdk_ok] r by blast
qed

section \<open>Indexes\<close>

text \<open>C18. In every state reached from genesis the unstaking index lists exactly the applications that
  are unbonding and the transfer index exactly those with a pending transfer, each under its own
  key, so that the end blockers visit every application that is due and no other.\<close>
theorem indexes_list_exactly_the_due_applications:
  assumes "(app_step sdk authority)\<^sup>*\<^sup>* (app_genesis p) (st, log)" and "sdk_ok sdk"
  shows "set (GetAllUnstakingApplicationsIterator st)
      = (ApplicationKey \<circ> App_Address) ` {a \<in> set (GetAllApplications st). App_IsUnbonding a}
    \<and> set (GetAllTransferringApplicationsIterator st)
      = (ApplicationKey \<circ> App_Address) ` {a \<in> set (GetAllApplications st). HasPendingTransfer a}
    \<and> distinct (GetAllUnstakingApplicationsIterator st)
    \<and> distinct (GetAllTransferringApplicationsIterator st)"
proof -
  have inv: "app_inv sdk st" using app_reachable_inv [OF assms] by simp
  have ok: "aps.store_ok st" by (rule app_invD(1) [OF inv])
  have d: "distinct (map fst (Applications st))"
    using ok by (simp add: aps.store_ok_def keyed_def kv_ok_distinct)
  have "{k. \<exists>a. map_of (Applications st) k = Some a \<and> P a}
      = (ApplicationKey \<circ> App_Address) ` {a \<in> set (GetAllApplications st). P a}" for P
  proof -
    have "{k. \<exists>a. map_of (Applications st) k = Some a \<and> P a} = fst ` {e \<in> set (Applications st). P (snd e)}"
      using d by (force simp: image_iff)
    also have "\<dots> = (ApplicationKey \<circ> App_Address \<circ> snd) ` {e \<in> set (Applications st). P (snd e)}"
      using ok by (intro image_cong) (auto simp: aps.store_ok_def keyed_def ApplicationKey_def)
    finally show ?thesis by (force simp: GetAllApplications_def image_iff)
  qed
  then show ?thesis
    using inv index_keys
    by (simp add: app_inv_def GetAllUnstakingApplicationsIterator_def
        GetAllTransferringApplicationsIterator_def)
qed

theorem indexes_list_exactly_the_due_applications_witness:
  "\<exists>st log. run_state = Inr (st, log) \<and> map fst (AppUnstaking st) = [''a1/'']
    \<and> distinct (GetAllUnstakingApplicationsIterator st)"
proof -
  obtain st log where r: "run_state = Inr (st, log)" "map fst (AppUnstaking st) = [''a1/'']"
    by (rule run_state_Inr)
  then show ?thesis
    using indexes_list_exactly_the_due_applications
      [OF run_state_reachable [OF r(1), of "''gov''"] plain_sdk_ok] by auto
qed

section \<open>Transfers\<close>

text \<open>Completing the pending transfer of an application that is not unbonding removes the source
  and leaves at the destination an application with the source's stake, added to the stake of the
  destination if it was staked already; every other application is untouched and the total stake
  is unchanged.\<close>
theorem transfer_moves_the_whole_stake:
  assumes "(app_step sdk authority)\<^sup>*\<^sup>* (app_genesis p) (st, log)" and "sdk_ok sdk"
    and "NumBlocksPerSession (GetParams sh) \<noteq> 0"
    and "GetApplication st src = Some s" and "PendingTransfer s = Some t" and "\<not> App_IsUnbonding s"
  shows "\<exists>st' d. transferApplication sdk h sh s st = Inr st' \<and> GetApplication st' src = None
    \<and> GetApplication st' (PT_DestinationAddress t) = Some d
    \<and> Amount (App_Stake d) = Amount (App_Stake s)
        + (case GetApplication st (PT_DestinationAddress t) of None \<Rightarrow> 0 | Some d0 \<Rightarrow> Amount (App_Stake d0))
    \<and> (\<forall>x. x = src \<or> x = PT_DestinationAddress t \<or> GetApplication st' x = GetApplication st x)
    \<and> stake_total App_Stake (Applications st') = stake_total App_Stake (Applications st)"
proof -
  have inv: "app_inv sdk st" using app_reachable_inv [OF assms(1,2)] by simp
  have src: "App_Address s = src" "PT_DestinationAddress t \<noteq> src"
    using app_invD(2,3) [OF inv assms(4)] assms(5) by (auto simp: app_ok_def)
  obtain st' a where t': "transferApplication sdk h sh s st = Inr st'"
    "aps.stakes st' = aps.stakes st" "App_Address a = PT_DestinationAddress t"
    "Applications st' = kv_set (StringKey (App_Address a)) a (kv_del (StringKey (App_Address s)) (Applications st))"
    "Amount (App_Stake a) = Amount (App_Stake s)
       + (case GetApplication st (App_Address a) of None \<Rightarrow> 0 | Some d \<Rightarrow> Amount (App_Stake d))"
    using transferApplication_total [OF assms(2) _ inv, of sh s t h] assms(3-6) src(1)
    unfolding sessions_total_def by blast
  have g: "GetApplication st' x = (if x = PT_DestinationAddress t then Some a else
      if x = src then None else GetApplication st x)" for x
    using t'(3,4) src by (simp add: GetApplication_def ApplicationKey_def kv_simps)
  show ?thesis using t' g src by (intro exI [of _ st'] exI [of _ a]) (auto simp: aps.stakes_def)
qed

text \<open>\<open>a1\<close> starts a transfer to \<open>a9\<close>, which does not exist.\<close>

definition transfer_run :: "app_ctx res" where
  "transfer_run =
     bindR (StakeApplication plain_sdk 2 witness_genesis (stake_msg ''a1'' 500) (app_genesis (Some run_params)))
       (\<lambda>s1. TransferApplication plain_sdk 4 witness_genesis ''a1'' ''a9'' s1)"

theorem transfer_moves_the_whole_stake_witness:
  "\<exists>st log s st' d. transfer_run = Inr (st, log) \<and> GetApplication st ''a1'' = Some s
    \<and> transferApplication plain_sdk 30 witness_genesis s st = Inr st'
    \<and> GetApplication st' ''a9'' = Some d \<and> Amount (App_Stake d) = 500"
proof -
  have "case transfer_run of Inl _ \<Rightarrow> False | Inr (st, log) \<Rightarrow>
      (case GetApplication st ''a1'' of None \<Rightarrow> False | Some s \<Rightarrow>
        PendingTransfer s = Some \<lparr>PT_DestinationAddress = ''a9'', PT_SessionEndHeight = 10\<rparr>
        \<and> \<not> App_IsUnbonding s \<and> Amount (App_Stake s) = 500 \<and> GetApplication st ''a9'' = None)"
    by code_simp
  then obtain st log s where r: "transfer_run = Inr (st, log)" "GetApplication st ''a1'' = Some s"
    "PendingTransfer s = Some \<lparr>PT_DestinationAddress = ''a9'', PT_SessionEndHeight = 10\<rparr>"
    "\<not> App_IsUnbonding s" "Amount (App_Stake s) = 500" "GetApplication st ''a9'' = None"
    by (auto split: sum.splits prod.splits option.splits)
  from r(1) obtain s1 where
    t: "StakeApplication plain_sdk 2 witness_genesis (stake_msg ''a1'' 500) (app_genesis (Some run_params)) = Inr s1"
    "TransferApplication plain_sdk 4 witness_genesis ''a1'' ''a9'' s1 = Inr (st, log)"
    by (auto simp: transfer_run_def res_simps)
  have "app_step plain_sdk ''gov'' (app_genesis (Some run_params)) s1"
    using t(1) by (rule app_step.stake)
  moreover have "app_step plain_sdk ''gov'' s1 (st, log)" using t(2) by (rule app_step.transfer)
  ultimately have reach: "(app_step plain_sdk ''gov'')\<^sup>*\<^sup>* (app_genesis (Some run_params)) (st, log)"
    by (meson converse_rtranclp_into_rtranclp rtranclp.rtrancl_refl)
  have n: "NumBlocksPerSession (GetParams witness_genesis) \<noteq> 0" by code_simp
  show ?thesis
    using transfer_moves_the_whole_stake [OF reach plain_sdk_ok n r(2-4), of 30] r by auto
qed

text \<open>Merging a transferred application into a destination that delegates to a gateway the source
  is undelegating from leaves the destination delegating to that gateway, but writing it deletes
  its entry from the delegation index: the gateway is listed in the pending undelegations as well,
  and those are removed from the index last. The end blocker that undelegates applications from
  inactive gateways, which walks the index, no longer finds it.\<close>
theorem merge_drops_delegation_index_entry:
  assumes "merged_application sdk srcApp dstApp = Inr a" and "sdk_ok sdk"
    and "gw \<in> set (DelegateeGatewayAddresses dstApp)" and "gw \<in> set (pending_gateways a)"
  shows "gw \<in> set (DelegateeGatewayAddresses a)
    \<and> map_of (AppDelegation (SetApplication a st)) (DelegationKey gw (App_Address a)) = None"
proof
  show "gw \<in> set (DelegateeGatewayAddresses a)"
    using assms(1,3)
    by (auto simp: merged_application_def res_simps merge_fields mergeAppPendingUndelegations_def
        mergeAppDelegatees_def)
  show "map_of (AppDelegation (SetApplication a st)) (DelegationKey gw (App_Address a)) = None"
    using assms(4) by (auto simp: SetApplication_parts set_fold_kv_del map_of_eq_None_iff)
qed

definition undelegating_app :: application where
  "undelegating_app = one_app\<lparr>App_Address := ''a0'', DelegateeGatewayAddresses := [],
     PendingUndelegations := [(10, [''g1''])]\<rparr>"

theorem merge_drops_delegation_index_entry_witness:
  "\<exists>a. merged_application plain_sdk undelegating_app one_app = Inr a
    \<and> ''g1'' \<in> set (DelegateeGatewayAddresses a)
    \<and> map_of (AppDelegation (SetApplication a (fst (app_genesis None)))) (DelegationKey ''g1'' ''a1'') = None"
proof -
  have "case merged_application plain_sdk undelegating_app one_app of Inl _ \<Rightarrow> False
      | Inr a \<Rightarrow> pending_gateways a = [''g1''] \<and> App_Address a = ''a1''"
    by code_simp
  then obtain a where a: "merged_application plain_sdk undelegating_app one_app = Inr a"
    "pending_gateways a = [''g1'']" "App_Address a = ''a1''"
    by (auto split: sum.splits)
  have "''g1'' \<in> set (DelegateeGatewayAddresses one_app)" "''g1'' \<in> set (pending_gateways a)"
    by (simp_all add: one_app_def a)
  then show ?thesis
    using merge_drops_delegation_index_entry [OF a(1) plain_sdk_ok] a by metis
qed

end
