(* ===== verification/ByteKeys.thy ===== *)
theory ByteKeys
  imports AppClaims "HOL-Library.Sublist"
begin

text \<open>
  The byte keys of the service and supplier stores: heights written as eight big-endian bytes,
  so that the byte order of the keys is the order of the heights, and the iterators over a
  prefix or a range of keys. \<open>latest_at\<close> is the lookup the chain's height-indexed histories
  share: the entry with the greatest height at or below the queried one.
\<close>

named_theorems key_simps \<open>byte keys: injectivity and order\<close>

section \<open>Big-endian heights\<close>

fun be_bytes :: "nat \<Rightarrow> nat \<Rightarrow> string" where
  "be_bytes 0 n = []"
| "be_bytes (Suc k) n = char_of (n div 256 ^ k mod 256) # be_bytes k (n mod 256 ^ k)"

text \<open>\<open>binary.BigEndian.PutUint64(bz, uint64(h))\<close> on an \<open>int64\<close>.\<close>

definition PutUint64 :: "int \<Rightarrow> string" where
  "PutUint64 h = be_bytes 8 (nat (h mod 2 ^ 64))"

definition IntKey :: "int \<Rightarrow> string" where
  "IntKey h = PutUint64 h @ ''/''"

lemma length_be_bytes [simp]: "length (be_bytes k n) = k"
  by (induction k n rule: be_bytes.induct) simp_all

lemma length_PutUint64 [simp]: "length (PutUint64 h) = 8"
  by (simp add: PutUint64_def)

lemma char_of_less_iff:
  "a < 256 \<Longrightarrow> b < 256 \<Longrightarrow> (char_of a :: char) < char_of b \<longleftrightarrow> a < (b :: nat)"
  by (simp add: less_char_def)

lemma char_of_eq_iff':
  "a < 256 \<Longrightarrow> b < 256 \<Longrightarrow> (char_of a :: char) = char_of b \<longleftrightarrow> a = (b :: nat)"
  by (metis of_char_of mod_less)

lemma div_mod_less_iff:
  "(0::nat) < m \<Longrightarrow> a < b \<longleftrightarrow> a div m < b div m \<or> (a div m = b div m \<and> a mod m < b mod m)"
  by (metis div_le_mono div_mult_mod_eq le_neq_implies_less nat_add_left_cancel_less
      nat_less_le not_le_imp_less order_less_imp_le verit_comp_simplify1(3))

lemma be_bytes_less_iff:
  "a < 256 ^ k \<Longrightarrow> b < 256 ^ k \<Longrightarrow> be_bytes k a < be_bytes k b \<longleftrightarrow> a < b"
proof (induction k arbitrary: a b)
  case 0
  then show ?case by simp
next
  case (Suc k)
  have q: "a div 256 ^ k < 256" "b div 256 ^ k < 256"
    using Suc.prems by (simp_all add: less_mult_imp_div_less)
  have r: "a mod 256 ^ k < 256 ^ k" "b mod 256 ^ k < 256 ^ k" by simp_all
  show ?case
    using q Suc.IH [OF r] div_mod_less_iff [of "256 ^ k" a b]
    by (simp add: char_of_less_iff char_of_eq_iff')
qed

lemma PutUint64_less_iff [key_simps]:
  assumes "0 \<le> a" and "a < 2 ^ 64" and "0 \<le> b" and "b < 2 ^ 64"
  shows "PutUint64 a < PutUint64 b \<longleftrightarrow> a < b"
proof -
  have "nat a < 256 ^ 8" "nat b < 256 ^ 8" using assms by simp_all
  then show ?thesis
    using assms be_bytes_less_iff [of "nat a" 8 "nat b"] by (auto simp: PutUint64_def)
qed

lemma PutUint64_eq_iff [key_simps]:
  "0 \<le> a \<Longrightarrow> a < 2 ^ 64 \<Longrightarrow> 0 \<le> b \<Longrightarrow> b < 2 ^ 64 \<Longrightarrow> PutUint64 a = PutUint64 b \<longleftrightarrow> a = b"
  by (metis PutUint64_less_iff less_irrefl not_less_iff_gr_or_eq)

text \<open>The same on integers, which evaluate in binary.\<close>

fun int_bytes :: "nat \<Rightarrow> int \<Rightarrow> string" where
  "int_bytes 0 n = []"
| "int_bytes (Suc k) n = char_of (n div 256 ^ k mod 256) # int_bytes k (n mod 256 ^ k)"

lemma char_of_int: "(char_of (int n) :: char) = char_of n"
proof -
  have "int (of_char (char_of (int n) :: char)) = int n mod 256" by (simp only: of_nat_of_char of_char_of)
  also have "\<dots> = int (of_char (char_of n :: char))" by (simp add: of_nat_mod)
  finally have "(of_char (char_of (int n) :: char) :: nat) = of_char (char_of n :: char)"
    by (simp only: of_nat_eq_iff)
  then show ?thesis by (simp only: of_char_eq_iff)
qed

lemma int_bytes_eq: "int_bytes k (int n) = be_bytes k n"
  by (induction k n rule: be_bytes.induct)
    (simp_all add: char_of_int [symmetric] of_nat_div of_nat_mod)

lemma PutUint64_code [code]: "PutUint64 h = int_bytes 8 (h mod 2 ^ 64)"
  using int_bytes_eq [of 8 "nat (h mod 2 ^ 64)"] by (simp add: PutUint64_def)

section \<open>Prefixes in byte order\<close>

lemma append_less_iff [key_simps]: "(p @ x < p @ y) = (x < (y :: 'a :: linorder list))"
  by (induction p) simp_all

lemma le_append [simp]: "p \<le> p @ (r :: 'a :: linorder list)"
  by (induction p) simp_all

lemma range_prefix:
  fixes p :: "'a :: linorder list"
  shows "p \<le> k \<Longrightarrow> k < p @ e \<Longrightarrow> \<exists>r. k = p @ r \<and> r < e"
proof (induction p arbitrary: k)
  case Nil
  then show ?case by simp
next
  case (Cons c p)
  then obtain d k' where k: "k = d # k'" by (cases k) auto
  with Cons show ?case by auto
qed

definition no_slash :: "string \<Rightarrow> bool" where
  "no_slash s \<longleftrightarrow> CHR ''/'' \<notin> set s"

lemma slash_split:
  "no_slash a \<Longrightarrow> no_slash b \<Longrightarrow> a @ CHR ''/'' # x = b @ CHR ''/'' # y \<longleftrightarrow> a = b \<and> x = y"
proof (induction a arbitrary: b)
  case Nil
  then show ?case by (cases b) (auto simp: no_slash_def)
next
  case (Cons c a)
  then show ?case by (cases b) (auto simp: no_slash_def)
qed

lemma StringKey_split [key_simps]:
  "no_slash a \<Longrightarrow> no_slash b \<Longrightarrow> StringKey a @ x = StringKey b @ y \<longleftrightarrow> a = b \<and> x = y"
  by (simp add: StringKey_def slash_split)

lemma StringKey_prefix_iff [key_simps]:
  "no_slash a \<Longrightarrow> no_slash b \<Longrightarrow> prefix (StringKey a) (StringKey b @ y) \<longleftrightarrow> a = b"
  by (metis StringKey_split prefixE prefixI append_Nil2)

lemma IsValidServiceId_no_slash: "IsValidServiceId s = Inr () \<Longrightarrow> no_slash s"
  by (auto simp: IsValidServiceId_def no_slash_def service_id_char_def list_all_iff
      split: if_splits)

section \<open>Iterators\<close>

text \<open>\<open>KVStorePrefixIterator\<close>, and \<open>Iterator(start, end)\<close> with its exclusive end.\<close>

definition kv_prefix :: "string \<Rightarrow> (string, 'v) kv \<Rightarrow> (string, 'v) kv" where
  "kv_prefix p s = filter (\<lambda>e. prefix p (fst e)) s"

definition kv_range :: "string \<Rightarrow> string \<Rightarrow> (string, 'v) kv \<Rightarrow> (string, 'v) kv" where
  "kv_range start end s = filter (\<lambda>e. start \<le> fst e \<and> fst e < end) s"

text \<open>Deleting a list of keys, in order.\<close>

definition kv_del_all :: "'k list \<Rightarrow> ('k, 'v) kv \<Rightarrow> ('k, 'v) kv" where
  "kv_del_all ks s = fold kv_del ks s"

lemma kv_del_all_eq: "kv_del_all ks s = filter (\<lambda>e. fst e \<notin> set ks) s"
  unfolding kv_del_all_def
  by (induction ks arbitrary: s) (auto simp: kv_del_def intro!: filter_cong)

section \<open>Histories indexed by height\<close>

text \<open>The keys of a history: the identifier, a slash, the height. The most recent entry at or
  below a height is the first of a reverse iteration whose exclusive end is the next height.\<close>

definition history_key :: "string \<Rightarrow> int \<Rightarrow> string" where
  "history_key i h = StringKey i @ PutUint64 h"

definition latest_at :: "string \<Rightarrow> int \<Rightarrow> (string, 'v) kv \<Rightarrow> 'v option" where
  "latest_at i q s =
     (case rev (kv_range (StringKey i) (StringKey i @ PutUint64 (i64 (q + 1))) s) of
        [] \<Rightarrow> None
      | e # rest \<Rightarrow> Some (snd e))"

definition history_ok :: "(string, 'v) kv \<Rightarrow> bool" where
  "history_ok s \<longleftrightarrow> kv_ok s
     \<and> (\<forall>k \<in> fst ` set s. \<exists>i h. k = history_key i h \<and> no_slash i \<and> 0 \<le> h \<and> h < 2 ^ 63)"

lemma history_ok_Nil [simp]: "history_ok []"
  by (simp add: history_ok_def)

lemma history_ok_set:
  "history_ok s \<Longrightarrow> no_slash i \<Longrightarrow> 0 \<le> h \<Longrightarrow> h < 2 ^ 63 \<Longrightarrow> history_ok (kv_set (history_key i h) v s)"
  unfolding history_ok_def by (auto simp: kv_simps fst_set_kv_set)

lemma history_key_inject [key_simps]:
  assumes "no_slash i" and "no_slash j" and "0 \<le> h" and "h < 2 ^ 63" and "0 \<le> h'" and "h' < 2 ^ 63"
  shows "history_key i h = history_key j h' \<longleftrightarrow> i = j \<and> h = h'"
  using assms by (simp add: history_key_def key_simps)

lemma history_range_iff:
  assumes "history_ok s" and "no_slash i" and "0 \<le> q" and "q < 2 ^ 63 - 1"
  shows "e \<in> set (kv_range (StringKey i) (StringKey i @ PutUint64 (i64 (q + 1))) s) \<longleftrightarrow>
    e \<in> set s \<and> (\<exists>h. fst e = history_key i h \<and> 0 \<le> h \<and> h \<le> q)" (is "?l \<longleftrightarrow> ?r")
proof -
  have q1: "i64 (q + 1) = q + 1" using assms(3,4) by (intro i64_id) (simp add: in_i64_def)
  show ?thesis
  proof
    assume l: ?l
    then have e: "e \<in> set s" "StringKey i \<le> fst e" "fst e < StringKey i @ PutUint64 (q + 1)"
      by (auto simp: kv_range_def q1)
    from range_prefix [OF e(2,3)] obtain r where r: "fst e = StringKey i @ r" "r < PutUint64 (q + 1)"
      by blast
    from e(1) assms(1) obtain j h where j: "fst e = history_key j h" "no_slash j" "0 \<le> h" "h < 2 ^ 63"
      unfolding history_ok_def by blast
    have "i = j" "r = PutUint64 h"
      using r(1) j(1,2) assms(2) by (simp_all add: history_key_def key_simps)
    then have "h < q + 1" using r(2) j assms(3,4) by (simp add: key_simps)
    then show ?r using e(1) j \<open>i = j\<close> by auto
  next
    assume ?r
    then obtain h where h: "e \<in> set s" "fst e = history_key i h" "0 \<le> h" "h \<le> q" by blast
    have "PutUint64 h < PutUint64 (q + 1)" using h assms(3,4) by (simp add: key_simps)
    then show ?l using h by (simp add: kv_range_def q1 history_key_def key_simps)
  qed
qed

lemma kv_ok_last_max:
  "kv_ok (xs @ [e]) \<Longrightarrow> f \<in> set xs \<Longrightarrow> fst f < fst e"
  by (simp add: kv_ok_def sorted_wrt_append)

lemma kv_ok_map_of: "kv_ok s \<Longrightarrow> (k, v) \<in> set s \<longleftrightarrow> map_of s k = Some v"
  using kv_ok_distinct by fastforce

text \<open>The entry that is in effect, and that there is none.\<close>

lemma latest_at_Some:
  assumes "history_ok s" and "no_slash i" and "0 \<le> q" and "q < 2 ^ 63 - 1"
    and "0 \<le> h" and "h \<le> q" and "map_of s (history_key i h) = Some v"
    and "\<And>h'. h < h' \<Longrightarrow> h' \<le> q \<Longrightarrow> map_of s (history_key i h') = None"
  shows "latest_at i q s = Some v"
proof -
  let ?r = "kv_range (StringKey i) (StringKey i @ PutUint64 (i64 (q + 1))) s"
  have ks: "kv_ok s" using assms(1) by (simp add: history_ok_def)
  have "(history_key i h, v) \<in> set s" using assms(7) by (simp add: map_of_SomeD)
  then have inr: "(history_key i h, v) \<in> set ?r"
    using history_range_iff [OF assms(1-4)] assms(5,6) by auto
  then obtain xs e where xs: "?r = xs @ [e]" by (metis empty_iff list.set(1) rev_exhaust)
  have kr: "kv_ok (xs @ [e])" using ks xs by (metis kv_ok_filter kv_range_def)
  have "e \<in> set ?r" using xs by simp
  then obtain h2 where e: "e \<in> set s" "fst e = history_key i h2" "0 \<le> h2" "h2 \<le> q"
    using history_range_iff [OF assms(1-4)] by blast
  have "h2 \<le> h"
  proof (rule ccontr)
    assume "\<not> h2 \<le> h"
    then have "map_of s (fst e) = None" using assms(8) e by simp
    then show False using e(1) by (metis map_of_eq_None_iff imageI)
  qed
  moreover have "h \<le> h2"
  proof (rule ccontr)
    assume "\<not> h \<le> h2"
    then have "fst e < history_key i h"
      using e assms(4-6) by (simp add: history_key_def key_simps)
    moreover have "(history_key i h, v) \<in> set xs" using inr xs \<open>\<not> h \<le> h2\<close> e(2) calculation by auto
    ultimately show False using kv_ok_last_max [OF kr] by fastforce
  qed
  ultimately have "fst e = history_key i h" using e(2) by simp
  then have "snd e = v" using e(1) assms(7) ks kv_ok_map_of by (metis option.inject prod.collapse)
  then show ?thesis by (simp add: latest_at_def xs)
qed

lemma latest_at_None:
  assumes "history_ok s" and "no_slash i" and "0 \<le> q" and "q < 2 ^ 63 - 1"
    and "\<And>h. 0 \<le> h \<Longrightarrow> h \<le> q \<Longrightarrow> map_of s (history_key i h) = None"
  shows "latest_at i q s = None"
proof -
  have "e \<notin> set (kv_range (StringKey i) (StringKey i @ PutUint64 (i64 (q + 1))) s)" for e
    unfolding history_range_iff [OF assms(1-4)] using assms(5)
    by (metis imageI map_of_eq_None_iff)
  then have "kv_range (StringKey i) (StringKey i @ PutUint64 (i64 (q + 1))) s = []"
    by (meson last_in_set)
  then show ?thesis by (simp add: latest_at_def)
qed

text \<open>The height in effect.\<close>

lemma latest_at_cases:
  assumes "history_ok s" and "no_slash i" and "0 \<le> q" and "q < 2 ^ 63 - 1"
  obtains (none) "latest_at i q s = None"
      and "\<And>h. 0 \<le> h \<Longrightarrow> h \<le> q \<Longrightarrow> map_of s (history_key i h) = None"
    | (some) h v where "latest_at i q s = Some v" and "0 \<le> h" and "h \<le> q"
      and "map_of s (history_key i h) = Some v"
      and "\<And>h'. h < h' \<Longrightarrow> h' \<le> q \<Longrightarrow> map_of s (history_key i h') = None"
proof (cases "\<exists>h. 0 \<le> h \<and> h \<le> q \<and> map_of s (history_key i h) \<noteq> None")
  case False
  then have n: "map_of s (history_key i h) = None" if "0 \<le> h" "h \<le> q" for h using that by blast
  show ?thesis by (rule none [OF latest_at_None [OF assms n] n])
next
  case True
  let ?P = "\<lambda>n. \<exists>h. 0 \<le> h \<and> h \<le> q \<and> map_of s (history_key i h) \<noteq> None \<and> n = nat (q - h)"
  define n where "n = (LEAST n. ?P n)"
  have "\<exists>n. ?P n" using True by blast
  then have "?P n" unfolding n_def by (rule LeastI_ex)
  then obtain h v where h: "0 \<le> h" "h \<le> q" "map_of s (history_key i h) = Some v" "n = nat (q - h)"
    by blast
  have later: "map_of s (history_key i h') = None" if "h < h'" "h' \<le> q" for h'
  proof (rule ccontr)
    assume "\<not> ?thesis"
    then have "?P (nat (q - h'))" using h(1) that by (intro exI [of _ h']) auto
    then have "n \<le> nat (q - h')" unfolding n_def by (rule Least_le)
    then show False using h that by simp
  qed
  show ?thesis by (rule some [OF latest_at_Some [OF assms h(1-3) later] h(1-3) later])
qed

text \<open>Recording an entry changes the lookup only from its height on, and only for its own
  identifier.\<close>

lemma latest_at_set_other:
  assumes "history_ok s" and "no_slash i" and "0 \<le> q" and "q < 2 ^ 63 - 1"
    and "no_slash j" and "0 \<le> h" and "h < 2 ^ 63" and "i \<noteq> j \<or> q < h"
  shows "latest_at i q (kv_set (history_key j h) v s) = latest_at i q s"
proof -
  have ok: "history_ok (kv_set (history_key j h) v s)" using assms by (intro history_ok_set)
  have same: "map_of (kv_set (history_key j h) v s) (history_key i h') = map_of s (history_key i h')"
    if "0 \<le> h'" "h' \<le> q" for h'
    using that assms by (auto simp: kv_simps key_simps)
  show ?thesis
  proof (cases rule: latest_at_cases [OF assms(1-4), case_names none some])
    case none
    then show ?thesis using latest_at_None [OF ok assms(2-4)] same by simp
  next
    case (some h' w)
    have "latest_at i q (kv_set (history_key j h) v s) = Some w"
      by (rule latest_at_Some [OF ok assms(2-4) some(2,3)]) (use some same in auto)
    then show ?thesis using some(1) by simp
  qed
qed

lemma latest_at_set_eq:
  assumes "history_ok s" and "no_slash i" and "0 \<le> h" and "h \<le> q" and "q < 2 ^ 63 - 1"
    and "\<And>h'. h < h' \<Longrightarrow> h' \<le> q \<Longrightarrow> map_of s (history_key i h') = None"
  shows "latest_at i q (kv_set (history_key i h) v s) = Some v"
proof (rule latest_at_Some [where h = h])
  show "history_ok (kv_set (history_key i h) v s)" using assms by (intro history_ok_set) auto
  show "map_of (kv_set (history_key i h) v s) (history_key i h') = None" if "h < h'" "h' \<le> q" for h'
    using that assms by (simp add: kv_simps key_simps)
qed (use assms in \<open>auto simp: kv_simps\<close>)

end
