(* ===== verification/RelayDifficulty.thy ===== *)
theory RelayDifficulty
  imports ByteKeys
begin

text \<open>
  Relay mining difficulty: the target hashes of \<open>pkg/crypto/protocol/relay_difficulty.go\<close> and
  the moving average of \<open>x/service/keeper/update_relay_mining_difficulty.go\<close>. Hashes are byte
  strings; big integers are naturals. The average is computed on \<open>big.Float\<close>: a
  non-negative float is a natural at scale \<open>2 ^ 55\<close>, the scale at which the smoothing factor
  (the float64 nearest to a tenth) is an integer, and every operation rounds to 64 significant bits, to
  nearest with ties to even.
\<close>

section \<open>Hashes as big-endian numbers\<close>

definition bytesToBigInt :: "string \<Rightarrow> nat" where
  "bytesToBigInt bz = foldl (\<lambda>a c. 256 * a + of_char c) 0 bz"

text \<open>\<open>big.Int.Bytes\<close>: the minimal big-endian representation.\<close>

fun bigIntBytes :: "nat \<Rightarrow> string" where
  "bigIntBytes n = (if n = 0 then [] else bigIntBytes (n div 256) @ [char_of (n mod 256)])"

declare bigIntBytes.simps [simp del]

definition BaseRelayDifficultyHashBz :: string where
  "BaseRelayDifficultyHashBz = replicate 32 (char_of (255 :: nat))"

definition IsRelayVolumeApplicable :: "string \<Rightarrow> string \<Rightarrow> bool" where
  "IsRelayVolumeApplicable relayHash targetHash \<longleftrightarrow> relayHash < targetHash"

text \<open>The ratio is a numerator and a denominator; dividing the normalised numerator by
  the positive denominator rounds down, as \<open>div\<close> does. \<open>Bytes\<close> drops the sign.\<close>

definition ScaleRelayDifficultyHash :: "string \<Rightarrow> int \<times> int \<Rightarrow> string" where
  "ScaleRelayDifficultyHash initialDifficultyHashBz ratio =
     bigIntBytes (nat \<bar>int (bytesToBigInt initialDifficultyHashBz) * fst ratio div snd ratio\<bar>)"

definition padBytesToLength :: "string \<Rightarrow> nat \<Rightarrow> string" where
  "padBytesToLength valueToPad len =
     (if len \<le> length valueToPad then valueToPad
      else replicate (len - length valueToPad) (char_of (0 :: nat)) @ valueToPad)"

text \<open>\<open>big.NewRat\<close> panics on a zero denominator.\<close>

definition ComputeNewDifficultyTargetHash :: "string \<Rightarrow> u64 \<Rightarrow> u64 \<Rightarrow> string res" where
  "ComputeNewDifficultyTargetHash prevTargetHash targetNumRelays newRelaysEma =
     (if targetNumRelays = newRelaysEma then Inr prevTargetHash
      else if int64_of newRelaysEma = 0 then Inl Panic
      else
        let scaled = dropWhile (\<lambda>c. c = char_of (0 :: nat))
              (ScaleRelayDifficultyHash prevTargetHash (int64_of targetNumRelays, int64_of newRelaysEma))
        in if length scaled > length BaseRelayDifficultyHashBz then Inr BaseRelayDifficultyHashBz
           else if length scaled < length prevTargetHash
             then Inr (padBytesToLength scaled (length prevTargetHash))
           else Inr scaled)"

section \<open>The moving average\<close>

text \<open>The number of significant bits, and rounding to 64 of them.\<close>

fun bits :: "nat \<Rightarrow> nat" where
  "bits n = (if n = 0 then 0 else Suc (bits (n div 2)))"

declare bits.simps [simp del]

definition round64 :: "nat \<Rightarrow> nat" where
  "round64 n =
     (let k = bits n - 64
      in if k = 0 then n
         else let q = n div 2 ^ k; r = n mod 2 ^ k; half = 2 ^ (k - 1)
              in (if half < r \<or> (r = half \<and> odd q) then q + 1 else q) * 2 ^ k)"

definition emaSmoothingFactor :: nat where "emaSmoothingFactor = 3602879701896397"

text \<open>\<open>Float.Uint64\<close> truncates and saturates.\<close>

definition float_Uint64 :: "nat \<Rightarrow> u64" where
  "float_Uint64 x = (if x div 2 ^ 55 > 2 ^ 64 - 1 then - 1 else of_nat (x div 2 ^ 55))"

definition computeEma :: "nat \<Rightarrow> u64 \<Rightarrow> u64 \<Rightarrow> u64" where
  "computeEma alpha prevEma currValue =
     (let oneMinusAlpha = round64 (2 ^ 55 - alpha);
          weightedCurrentContribution = round64 (alpha * unat currValue);
          weightedPreviousContribution = round64 (oneMinusAlpha * unat prevEma)
      in float_Uint64 (round64 (weightedCurrentContribution + weightedPreviousContribution)))"

section \<open>Rounding\<close>

lemma bits_bounds: "n \<noteq> 0 \<Longrightarrow> 2 ^ (bits n - 1) \<le> n \<and> n < 2 ^ bits n"
proof (induction n rule: bits.induct)
  case (1 n)
  show ?case
  proof (cases "n div 2 = 0")
    case True
    then have "n = 1" using "1.prems" by auto
    then show ?thesis by (simp add: bits.simps)
  next
    case False
    have b: "bits n = Suc (bits (n div 2))" "bits (n div 2) \<noteq> 0"
      using "1.prems" False by (simp_all add: bits.simps)
    have "2 ^ (bits (n div 2) - 1) \<le> n div 2" "n div 2 < 2 ^ bits (n div 2)"
      using "1.IH" "1.prems" False by simp_all
    moreover have "2 ^ bits (n div 2) = 2 * (2::nat) ^ (bits (n div 2) - 1)"
      using b(2) by (metis Suc_diff_1 bot_nat_0.not_eq_extremum power_Suc)
    ultimately show ?thesis using b(1) by simp linarith
  qed
qed

lemma bits_0 [simp]: "bits 0 = 0"
  by (simp add: bits.simps)

lemma bits_le: "n < 2 ^ k \<Longrightarrow> bits n \<le> k"
proof (rule ccontr)
  assume n: "n < 2 ^ k" and b: "\<not> bits n \<le> k"
  have "n \<noteq> 0" using b by (metis bits_0 zero_le)
  moreover have "k \<le> bits n - 1" using b by linarith
  ultimately have "2 ^ k \<le> (2::nat) ^ (bits n - 1)" "2 ^ (bits n - 1) \<le> n"
    using bits_bounds [of n] by simp_all
  then show False using n by linarith
qed

lemma round64_small: "n < 2 ^ 64 \<Longrightarrow> round64 n = n"
  using bits_le [of n 64] by (simp add: round64_def)

text \<open>The relative error of a rounding is below one part in \<open>2 ^ 64\<close>.\<close>

lemma round64_error: "2 ^ 64 * \<bar>int (round64 n) - int n\<bar> \<le> int n"
proof (cases "bits n \<le> 64")
  case True
  then show ?thesis by (simp add: round64_def)
next
  case False
  define k where "k = bits n - 64"
  define M where "M = (2::nat) ^ k"
  define H where "H = (2::nat) ^ (k - 1)"
  have k: "k \<noteq> 0" "bits n = 64 + k" using False by (simp_all add: k_def)
  have n0: "n \<noteq> 0" using False by (metis bits_0 zero_le)
  have M: "M = 2 * H" using k(1) by (simp add: M_def H_def flip: power_Suc)
  have n: "n = n div M * M + n mod M" by simp
  have r: "n mod M < M" by (simp add: M_def)
  have eq: "round64 n = (if H < n mod M \<or> (n mod M = H \<and> odd (n div M))
      then n div M * M + M else n div M * M)"
    using k(1) by (simp add: round64_def Let_def distrib_right M_def H_def flip: k_def)
  define Q where "Q = n div M * M"
  define R where "R = n mod M"
  have nQ: "n = Q + R" "R < M" using n r by (simp_all only: Q_def R_def)
  have err: "\<bar>int (round64 n) - int n\<bar> \<le> int H"
  proof (cases "H < R \<or> (R = H \<and> odd (n div M))")
    case True
    then have "round64 n = Q + M" "H \<le> R" unfolding eq Q_def R_def by auto
    then show ?thesis using nQ M by linarith
  next
    case False
    then have "round64 n = Q" "R \<le> H" unfolding eq Q_def R_def by auto
    then show ?thesis using nQ by linarith
  qed
  have "2 ^ 64 * \<bar>int (round64 n) - int n\<bar> \<le> 2 ^ 64 * int H"
    using err by (intro mult_left_mono) simp_all
  also have "\<dots> \<le> int n"
  proof -
    have "bits n - 1 = 64 + (k - 1)" using k by simp
    then have "2 ^ 64 * H \<le> n" using bits_bounds [OF n0] by (simp only: H_def power_add)
    then have "int (2 ^ 64 * H) \<le> int n" by (simp only: of_nat_le_iff)
    then show ?thesis by simp
  qed
  finally show ?thesis .
qed

lemma round64_ge: "2 ^ 55 \<le> n \<Longrightarrow> 2 ^ 55 \<le> round64 n"
proof (cases "n < 2 ^ 64")
  case False
  assume "2 ^ 55 \<le> n"
  have "2 ^ 64 * (int n - int (round64 n)) \<le> 2 ^ 64 * \<bar>int (round64 n) - int n\<bar>"
    by (intro mult_left_mono) simp_all
  then have "2 ^ 64 * (int n - int (round64 n)) \<le> int n"
    using round64_error [of n] by (rule order_trans)
  moreover have "2 ^ 64 \<le> int n" using False by simp
  ultimately have "2 ^ 55 \<le> int (round64 n)" by (simp add: algebra_simps)
  then show ?thesis by simp
qed (simp add: round64_small)

section \<open>The average\<close>

lemma oneMinusAlpha: "round64 (2 ^ 55 - emaSmoothingFactor) = 32425917317067571"
  by (subst round64_small) (simp_all add: emaSmoothingFactor_def)

lemma float_Uint64_small: "x < 2 ^ 119 \<Longrightarrow> unat (float_Uint64 x) = x div 2 ^ 55"
proof -
  assume "x < 2 ^ 119"
  then have "x div 2 ^ 55 < 2 ^ 64" by (simp add: less_mult_imp_div_less)
  then show ?thesis by (simp add: float_Uint64_def unat_of_nat)
qed

text \<open>The average at scale \<open>2 ^ 55\<close>, before and after the roundings.\<close>

definition ema_exact :: "u64 \<Rightarrow> u64 \<Rightarrow> nat" where
  "ema_exact prevEma currValue =
     emaSmoothingFactor * unat currValue + (2 ^ 55 - emaSmoothingFactor) * unat prevEma"

definition ema_rounded :: "u64 \<Rightarrow> u64 \<Rightarrow> nat" where
  "ema_rounded prevEma currValue =
     round64 (round64 (emaSmoothingFactor * unat currValue)
       + round64 (32425917317067571 * unat prevEma))"

lemma computeEma_eq: "computeEma emaSmoothingFactor p c = float_Uint64 (ema_rounded p c)"
  by (simp only: computeEma_def Let_def oneMinusAlpha ema_rounded_def)

lemma ema_error: "2 ^ 62 * \<bar>int (ema_rounded p c) - int (ema_exact p c)\<bar> \<le> int (ema_exact p c)"
proof -
  define x where "x = emaSmoothingFactor * unat c"
  define y where "y = 32425917317067571 * unat p"
  have exact: "ema_exact p c = x + y" by (simp add: ema_exact_def x_def y_def emaSmoothingFactor_def)
  have rounded: "ema_rounded p c = round64 (round64 x + round64 y)"
    by (simp add: ema_rounded_def x_def y_def)
  define dx dy dz where "dx = \<bar>int (round64 x) - int x\<bar>" and "dy = \<bar>int (round64 y) - int y\<bar>"
    and "dz = \<bar>int (round64 (round64 x + round64 y)) - int (round64 x + round64 y)\<bar>"
  have e: "2 ^ 64 * dx \<le> int x" "2 ^ 64 * dy \<le> int y"
    "2 ^ 64 * dz \<le> int (round64 x + round64 y)"
    unfolding dx_def dy_def dz_def by (rule round64_error)+
  have s: "int (round64 x + round64 y) \<le> int x + int y + dx + dy"
    by (simp add: dx_def dy_def)
  have "\<bar>int (round64 (round64 x + round64 y)) - int (x + y)\<bar> \<le> dz + (dx + dy)"
    by (simp add: dx_def dy_def dz_def)
  then show ?thesis unfolding exact rounded using e s by simp
qed

lemma ema_exact_bounds:
  "2 ^ 55 * min (unat p) (unat c) \<le> ema_exact p c"
  "ema_exact p c \<le> 2 ^ 55 * max (unat p) (unat c)"
  by (simp_all add: ema_exact_def emaSmoothingFactor_def min_def max_def)

lemma ema_rounded_ge:
  assumes "1 \<le> p" and "1 \<le> c"
  shows "2 ^ 55 \<le> ema_rounded p c"
proof -
  have one: "1 \<le> unat p" "1 \<le> unat c"
    using assms by (simp_all add: word_le_nat_alt unat_1)
  let ?x = "emaSmoothingFactor * unat c" and ?y = "32425917317067571 * unat p"
  have "2 ^ 55 \<le> round64 ?x + round64 ?y"
  proof (cases "?x < 2 ^ 55 \<and> ?y < 2 ^ 55")
    case True
    then have "round64 ?x = ?x" "round64 ?y = ?y" by (simp_all add: round64_small)
    then show ?thesis using one by (simp add: emaSmoothingFactor_def)
  next
    case False
    then show ?thesis using round64_ge [of ?x] round64_ge [of ?y] by (meson le_add1 le_add2 not_le order_trans)
  qed
  then show ?thesis unfolding ema_rounded_def by (rule round64_ge)
qed

section \<open>Big integers and bytes\<close>

lemma be_bytes_snoc: "be_bytes (Suc k) n = be_bytes k (n div 256) @ [char_of (n mod 256)]"
proof (induction k arbitrary: n)
  case 0
  then show ?case by simp
next
  case (Suc k)
  have m: "n mod (256 * 256 ^ k) = 256 * (n div 256 mod 256 ^ k) + n mod 256"
    by (rule mod_mult2_eq)
  have "n div (256 * 256 ^ k) = n div 256 div 256 ^ k" by (rule div_mult2_eq)
  then show ?case
    using Suc [of "n mod (256 * 256 ^ k)"] by (simp add: m)
qed

lemma bigIntBytes_0 [simp]: "bigIntBytes 0 = []"
  by (simp add: bigIntBytes.simps)

lemma be_bytes_0: "be_bytes k 0 = replicate k (char_of (0 :: nat))"
  by (induction k) simp_all

lemma be_bytes_bigIntBytes:
  "n < 256 ^ k \<Longrightarrow> length (bigIntBytes n) \<le> k
    \<and> be_bytes k n = replicate (k - length (bigIntBytes n)) (char_of (0 :: nat)) @ bigIntBytes n"
proof (induction n arbitrary: k rule: bigIntBytes.induct)
  case (1 n)
  show ?case
  proof (cases "n = 0")
    case True
    then show ?thesis by (simp add: be_bytes_0)
  next
    case False
    with "1.prems" obtain k' where k: "k = Suc k'" by (cases k) auto
    have "n div 256 < 256 ^ k'" using "1.prems" k by (simp add: less_mult_imp_div_less mult.commute)
    then show ?thesis
      using "1.IH" [OF False, of k'] False
      by (simp only: k be_bytes_snoc bigIntBytes.simps [of n]) auto
  qed
qed

lemma bigIntBytes_length_gt: "256 ^ k \<le> n \<Longrightarrow> k < length (bigIntBytes n)"
proof (induction k arbitrary: n)
  case 0
  then have "n \<noteq> 0" by simp
  then show ?case by (simp add: bigIntBytes.simps [of n])
next
  case (Suc k)
  have "256 ^ k \<le> n div 256"
    using Suc.prems by (simp add: less_eq_div_iff_mult_less_eq mult.commute)
  moreover have "n \<noteq> 0" using Suc.prems by (metis not_numeral_le_zero power_not_zero zero_neq_numeral le_zero_eq)
  ultimately show ?case using Suc.IH by (simp add: bigIntBytes.simps [of n])
qed

lemma bigIntBytes_head: "bigIntBytes n = c # r \<Longrightarrow> c \<noteq> char_of (0 :: nat)"
proof (induction n arbitrary: c r rule: bigIntBytes.induct)
  case (1 n)
  have n0: "n \<noteq> 0" using "1.prems" by (metis bigIntBytes_0 list.distinct(1))
  show ?case
  proof (cases "n div 256 = 0")
    case True
    then have "n < 256" by (simp add: div_eq_0_iff)
    then show ?thesis using "1.prems" n0 by (auto simp: bigIntBytes.simps [of n] char_of_eq_iff')
  next
    case False
    then obtain d r' where "bigIntBytes (n div 256) = d # r'"
      by (metis append_is_Nil_conv bigIntBytes.simps list.exhaust not_Cons_self2)
    then show ?thesis using "1.IH" [OF n0] "1.prems" n0 by (auto simp: bigIntBytes.simps [of n])
  qed
qed

lemma dropWhile_bigIntBytes: "dropWhile (\<lambda>c. c = char_of (0 :: nat)) (bigIntBytes n) = bigIntBytes n"
  using bigIntBytes_head by (cases "bigIntBytes n") auto

section \<open>What the update computes\<close>

lemma nat_close:
  assumes "2 ^ 62 * \<bar>int r - int x\<bar> \<le> int x" and "x < 2 ^ 117"
  shows "\<bar>int (r div 2 ^ 55) - int (x div 2 ^ 55)\<bar> \<le> 1"
proof -
  have "int x \<le> 2 ^ 117" using assms(2) by simp
  with assms(1) have "2 ^ 62 * \<bar>int r - int x\<bar> \<le> 2 ^ 117" by (rule order_trans)
  then have d: "\<bar>int r - int x\<bar> \<le> 2 ^ 55" by simp
  then have "int r \<le> int (x + 2 ^ 55)" "int x \<le> int (r + 2 ^ 55)" by simp_all
  then have "r \<le> x + 2 ^ 55" "x \<le> r + 2 ^ 55" by (simp_all only: of_nat_le_iff)
  then have "r div 2 ^ 55 \<le> (x + 2 ^ 55) div 2 ^ 55" "x div 2 ^ 55 \<le> (r + 2 ^ 55) div 2 ^ 55"
    by (simp_all only: div_le_mono)
  then show ?thesis by (simp add: div_add_self2)
qed

text \<open>The moving average the chain computes with floating point is within one relay of the exact
  weighted average, rounded down, and it never drops to zero when neither input is zero; a zero
  average would make the next difficulty divide by zero.\<close>
theorem relay_ema_within_one:
  assumes "1 \<le> prevEma" and "1 \<le> numRelays" and "prevEma < 2 ^ 62" and "numRelays < 2 ^ 62"
  shows "1 \<le> computeEma emaSmoothingFactor prevEma numRelays
    \<and> \<bar>int (unat (computeEma emaSmoothingFactor prevEma numRelays))
        - int (ema_exact prevEma numRelays div 2 ^ 55)\<bar> \<le> 1"
proof -
  let ?r = "ema_rounded prevEma numRelays" and ?x = "ema_exact prevEma numRelays"
  have "unat prevEma < 2 ^ 62" "unat numRelays < 2 ^ 62"
    using assms(3,4) by (simp_all add: word_less_nat_alt)
  then have x: "?x < 2 ^ 117"
    using ema_exact_bounds(2) [of prevEma numRelays] by (simp add: max_def split: if_splits)
  have e: "2 ^ 62 * \<bar>int ?r - int ?x\<bar> \<le> int ?x" by (rule ema_error)
  have "int ?r \<le> 2 * int ?x" using e by (simp add: abs_if split: if_splits)
  then have "?r < 2 ^ 119" using x by simp
  then have u: "unat (computeEma emaSmoothingFactor prevEma numRelays) = ?r div 2 ^ 55"
    by (simp add: computeEma_eq float_Uint64_small)
  have "1 \<le> ?r div 2 ^ 55" using div_le_mono [OF ema_rounded_ge [OF assms(1,2)], of "2 ^ 55"] by simp
  then have "1 \<le> computeEma emaSmoothingFactor prevEma numRelays"
    by (simp add: word_le_nat_alt u)
  then show ?thesis using nat_close [OF e x] u by metis
qed

theorem relay_ema_within_one_witness:
  "\<bar>int (unat (computeEma emaSmoothingFactor 1000 1)) - int (ema_exact 1000 1 div 2 ^ 55)\<bar> \<le> 1"
  using relay_ema_within_one [of 1000 1] by simp

lemma bytesToBigInt_snoc: "bytesToBigInt (bz @ [c]) = 256 * bytesToBigInt bz + of_char c"
  by (simp add: bytesToBigInt_def)

lemma bytesToBigInt_be_bytes: "n < 256 ^ k \<Longrightarrow> bytesToBigInt (be_bytes k n) = n"
proof (induction k arbitrary: n)
  case 0
  then show ?case by (simp add: bytesToBigInt_def)
next
  case (Suc k)
  have "n div 256 < 256 ^ k" using Suc.prems by (simp add: less_mult_imp_div_less mult.commute)
  then show ?case using Suc.IH by (simp only: be_bytes_snoc bytesToBigInt_snoc) simp
qed

lemma be_bytes_max: "be_bytes k (256 ^ k - 1) = replicate k (char_of (255 :: nat))"
proof (induction k)
  case 0
  then show ?case by simp
next
  case (Suc k)
  define P :: nat where "P = 256 ^ k"
  have P: "0 < P" by (simp add: P_def)
  then have e: "256 ^ Suc k - 1 = (P - 1) + 255 * P" by (simp add: P_def)
  have "(P - 1) div P = 0" "(P - 1) mod P = P - 1" using P by simp_all
  moreover have "(P - 1 + 255 * P) div P = 255 + (P - 1) div P" using P by (intro div_mult_self1) simp
  moreover have "(P - 1 + 255 * P) mod P = (P - 1) mod P" by (rule mod_mult_self1)
  ultimately have "(P - 1 + 255 * P) div P = 255" "(P - 1 + 255 * P) mod P = P - 1" by simp_all
  then show ?case using Suc by (simp only: be_bytes.simps e flip: P_def) simp
qed

lemma be_bytes_Base: "be_bytes 32 (256 ^ 32 - 1) = BaseRelayDifficultyHashBz"
  by (simp only: be_bytes_max BaseRelayDifficultyHashBz_def)

lemma bytesToBigInt_Base: "bytesToBigInt BaseRelayDifficultyHashBz = 256 ^ 32 - 1"
  by (subst be_bytes_Base [symmetric]) (simp only: bytesToBigInt_be_bytes diff_less zero_less_power
      zero_less_numeral zero_less_one)

lemma length_Base [simp]: "length BaseRelayDifficultyHashBz = 32"
  by (simp add: BaseRelayDifficultyHashBz_def)

lemma target_hash_scaled:
  assumes "0 < t" and "t < 2 ^ 63" and "0 < e" and "e < 2 ^ 63"
  shows "ComputeNewDifficultyTargetHash BaseRelayDifficultyHashBz t e
    = Inr (be_bytes 32 (min (256 ^ 32 - 1) ((256 ^ 32 - 1) * unat t div unat e)))"
proof -
  define B :: nat where "B = 256 ^ 32 - 1"
  define x where "x = B * unat t div unat e"
  have it: "int64_of t = int (unat t)" "int64_of e = int (unat e)"
    using assms by (simp_all add: int64_of_id word_less_def)
  have q: "int B * int (unat t) div int (unat e) = int x" by (simp only: x_def of_nat_mult zdiv_int)
  have "ScaleRelayDifficultyHash BaseRelayDifficultyHashBz (int64_of t, int64_of e)
      = bigIntBytes (nat \<bar>int B * int (unat t) div int (unat e)\<bar>)"
    by (simp only: ScaleRelayDifficultyHash_def bytesToBigInt_Base it B_def fst_conv snd_conv)
  then have scaled: "ScaleRelayDifficultyHash BaseRelayDifficultyHashBz (int64_of t, int64_of e)
      = bigIntBytes x"
    unfolding q by simp
  have e0: "int64_of e \<noteq> 0" using assms(3) by (simp add: int64_of_nonzero)
  have B1: "B + 1 = 256 ^ 32" by (simp add: B_def)
  have base: "be_bytes 32 B = BaseRelayDifficultyHashBz" unfolding B_def by (rule be_bytes_Base)
  consider (same) "t = e" | (le) "t \<noteq> e" "x \<le> B" | (gt) "t \<noteq> e" "\<not> x \<le> B" by blast
  then have "ComputeNewDifficultyTargetHash BaseRelayDifficultyHashBz t e = Inr (be_bytes 32 (min B x))"
  proof cases
    case same
    have "0 < unat e" using assms(3) by (simp add: unat_gt_0)
    then show ?thesis
      using same base by (simp add: ComputeNewDifficultyTargetHash_def x_def del: be_bytes.simps)
  next
    case le
    then have x: "x < 256 ^ 32" using B1 by linarith
    have "length (bigIntBytes x) \<le> 32"
      and "be_bytes 32 x = replicate (32 - length (bigIntBytes x)) (char_of (0 :: nat)) @ bigIntBytes x"
      using be_bytes_bigIntBytes [OF x] by simp_all
    then show ?thesis
      using le e0
      by (simp add: ComputeNewDifficultyTargetHash_def scaled dropWhile_bigIntBytes padBytesToLength_def
          min_absorb2 Let_def del: be_bytes.simps)
  next
    case gt
    then have "256 ^ 32 \<le> x" using B1 by linarith
    then have "32 < length (bigIntBytes x)" by (rule bigIntBytes_length_gt)
    then show ?thesis
      using e0 gt base
      by (simp add: ComputeNewDifficultyTargetHash_def scaled dropWhile_bigIntBytes min_absorb1
          del: be_bytes.simps)
  qed
  then show ?thesis unfolding x_def B_def .
qed

text \<open>With positive parameters the new target hash is 32 bytes long and is the base hash scaled by the
  ratio of the targeted to the averaged number of relays, rounded down, never above
  the base hash: the more relays, the smaller the share of them that counts.\<close>
theorem target_hash_scales_base:
  assumes "0 < t" and "t < 2 ^ 63" and "0 < e" and "e < 2 ^ 63"
  shows "ComputeNewDifficultyTargetHash BaseRelayDifficultyHashBz t e
    = Inr (be_bytes 32 (min (256 ^ 32 - 1) ((256 ^ 32 - 1) * unat t div unat e)))"
  using assms by (rule target_hash_scaled)

theorem target_hash_scales_base_witness:
  "ComputeNewDifficultyTargetHash BaseRelayDifficultyHashBz 1 2
    = Inr (be_bytes 32 (min (256 ^ 32 - 1) ((256 ^ 32 - 1) * unat (1::u64) div unat (2::u64))))"
  by (rule target_hash_scales_base) simp_all

end
