(* ===== verification/ServiceModule.thy ===== *)
theory ServiceModule
  imports RelayDifficulty
begin

text \<open>
  The service module (\<open>x/service\<close>): registering, updating and transferring services, the
  compute-units-per-relay history that pins the rate of a session at its start, and the relay
  mining difficulty with its own history. The histories are stores keyed by service and
  big-endian height; a value that no longer unmarshals is \<open>None\<close>.
\<close>

section \<open>State\<close>

record service_params =
  AddServiceFee :: "coin option"
  TargetNumRelays :: u64

record relay_mining_difficulty =
  RMD_ServiceId :: string
  RMD_BlockHeight :: int
  NumRelaysEma :: u64
  TargetHash :: string

record difficulty_update =
  DU_EffectiveHeight :: int
  DU_Difficulty :: "relay_mining_difficulty option"

record cupr_update =
  CU_EffectiveHeight :: int
  CU_ServiceId :: string
  CU_ComputeUnitsPerRelay :: u64

record service_state =
  ServiceStore :: "(string, shared_service) kv"
  DifficultyStore :: "(string, relay_mining_difficulty) kv"
  DifficultyHistory :: "(string, difficulty_update option) kv"
  CuprHistory :: "(string, cupr_update option) kv"
  ServiceParams :: "service_params option"

definition Service_GetParams :: "service_state \<Rightarrow> service_params" where
  "Service_GetParams st =
     (case ServiceParams st of None \<Rightarrow> \<lparr>AddServiceFee = None, TargetNumRelays = 0\<rparr> | Some p \<Rightarrow> p)"

definition ServiceKey :: "string \<Rightarrow> string" where
  "ServiceKey serviceID = StringKey serviceID"

definition SetService :: "shared_service \<Rightarrow> service_state \<Rightarrow> service_state" where
  "SetService s st = st\<lparr>ServiceStore := kv_set (ServiceKey (Service_Id s)) s (ServiceStore st)\<rparr>"

definition GetService :: "service_state \<Rightarrow> string \<Rightarrow> shared_service option" where
  "GetService st serviceId = map_of (ServiceStore st) (ServiceKey serviceId)"

definition RemoveService :: "string \<Rightarrow> service_state \<Rightarrow> service_state" where
  "RemoveService serviceId st = st\<lparr>ServiceStore := kv_del (ServiceKey serviceId) (ServiceStore st)\<rparr>"

section \<open>Compute units per relay\<close>

definition SetServiceComputeUnitsPerRelayAtHeight ::
    "int \<Rightarrow> string \<Rightarrow> u64 \<Rightarrow> service_state \<Rightarrow> service_state" where
  "SetServiceComputeUnitsPerRelayAtHeight effectiveHeight serviceId computeUnitsPerRelay st =
     st\<lparr>CuprHistory := kv_set (history_key serviceId effectiveHeight)
          (Some \<lparr>CU_EffectiveHeight = effectiveHeight, CU_ServiceId = serviceId,
             CU_ComputeUnitsPerRelay = computeUnitsPerRelay\<rparr>) (CuprHistory st)\<rparr>"

definition GetServiceComputeUnitsPerRelayAtHeight :: "service_state \<Rightarrow> string \<Rightarrow> int \<Rightarrow> u64 option" where
  "GetServiceComputeUnitsPerRelayAtHeight st serviceId queryHeight =
     (let live = map_option ComputeUnitsPerRelay (GetService st serviceId)
      in case latest_at serviceId queryHeight (CuprHistory st) of
           Some (Some u) \<Rightarrow> if CU_ComputeUnitsPerRelay u > 0 then Some (CU_ComputeUnitsPerRelay u) else live
         | _ \<Rightarrow> live)"

definition hasServiceComputeUnitsPerRelayHistory :: "service_state \<Rightarrow> string \<Rightarrow> bool" where
  "hasServiceComputeUnitsPerRelayHistory st serviceId \<longleftrightarrow> kv_prefix (StringKey serviceId) (CuprHistory st) \<noteq> []"

definition SnapshotServiceComputeUnitsPerRelayCreate ::
    "int \<Rightarrow> shared_state \<Rightarrow> string \<Rightarrow> u64 \<Rightarrow> service_state \<Rightarrow> service_state res" where
  "SnapshotServiceComputeUnitsPerRelayCreate currentHeight sh serviceId cupr st =
     bindR (GetSessionStartHeight (GetParams sh) currentHeight) (\<lambda>sessionStartHeight.
     Inr (SetServiceComputeUnitsPerRelayAtHeight sessionStartHeight serviceId cupr st))"

definition SnapshotServiceComputeUnitsPerRelayChange ::
    "int \<Rightarrow> shared_state \<Rightarrow> string \<Rightarrow> u64 \<Rightarrow> u64 \<Rightarrow> service_state \<Rightarrow> service_state res" where
  "SnapshotServiceComputeUnitsPerRelayChange currentHeight sh serviceId prevCupr newCupr st =
     (let st1 = (if \<not> hasServiceComputeUnitsPerRelayHistory st serviceId
                 then SetServiceComputeUnitsPerRelayAtHeight 1 serviceId prevCupr st else st)
      in bindR (GetNextSessionStartHeight (GetParams sh) currentHeight) (\<lambda>nextSessionStartHeight.
         Inr (SetServiceComputeUnitsPerRelayAtHeight nextSessionStartHeight serviceId newCupr st1)))"

section \<open>Adding and transferring services\<close>

record msg_add_service =
  MAS_OwnerAddress :: string
  MAS_Service :: shared_service

definition MsgAddService_ValidateBasic :: "sdk \<Rightarrow> msg_add_service \<Rightarrow> unit res" where
  "MsgAddService_ValidateBasic sdk msg =
     (if \<not> isBech32 sdk (MAS_OwnerAddress msg) then Inl (Service ErrServiceInvalidAddress)
      else if Service_OwnerAddress (MAS_Service msg) \<noteq> MAS_OwnerAddress msg
        then Inl (Service ErrServiceInvalidOwnerAddress)
      else Service_ValidateBasic (isBech32 sdk) (MAS_Service msg))"

text \<open>\<open>Coins.AmountOf\<close>.\<close>

definition AmountOf :: "coin list \<Rightarrow> string \<Rightarrow> int" where
  "AmountOf coins denom = (case find (\<lambda>c. Denom c = denom) coins of None \<Rightarrow> 0 | Some c \<Rightarrow> Amount c)"

text \<open>The branch that updates a service: its name, its rate and, when the message carries one,
  its metadata.\<close>

definition updated_service :: "shared_service \<Rightarrow> shared_service \<Rightarrow> shared_service" where
  "updated_service found new =
     found\<lparr>Service_Name := Service_Name new, ComputeUnitsPerRelay := ComputeUnitsPerRelay new,
       Service_Card := (case Service_Card new of None \<Rightarrow> Service_Card found | Some c \<Rightarrow> Some c)\<rparr>"

text \<open>\<open>spendable\<close> is the bank's \<open>SpendableCoins\<close>. A missing fee parameter is a nil
  dereference.\<close>

definition AddService ::
    "sdk \<Rightarrow> (bank_log \<Rightarrow> string \<Rightarrow> coin list) \<Rightarrow> int \<Rightarrow> shared_state \<Rightarrow> msg_add_service
     \<Rightarrow> service_state \<times> bank_log \<Rightarrow> (service_state \<times> bank_log) res" where
  "AddService sdk spendable currentHeight sh msg = (\<lambda>(st, log).
     let new = MAS_Service msg; owner = MAS_OwnerAddress msg in
     bindR (mapErr (Status InvalidArgument) (MsgAddService_ValidateBasic sdk msg)) (\<lambda>_.
     case GetService st (Service_Id new) of
       Some found \<Rightarrow>
         if Service_OwnerAddress found \<noteq> Service_OwnerAddress new
           then Inl (Status InvalidArgument (Service ErrServiceInvalidOwnerAddress))
         else
           let prevComputeUnitsPerRelay = ComputeUnitsPerRelay found;
               st1 = SetService (updated_service found new) st
           in if prevComputeUnitsPerRelay \<noteq> ComputeUnitsPerRelay new
              then bindR (SnapshotServiceComputeUnitsPerRelayChange currentHeight sh (Service_Id new)
                     prevComputeUnitsPerRelay (ComputeUnitsPerRelay new) st1) (\<lambda>st2. Inr (st2, log))
              else Inr (st1, log)
     | None \<Rightarrow>
         if \<not> isBech32 sdk owner then Inl (Status InvalidArgument (Service ErrServiceInvalidAddress))
         else if spendable log owner = []
           then Inl (Status FailedPrecondition (Service ErrServiceNotEnoughFunds))
         else case AddServiceFee (Service_GetParams st) of
           None \<Rightarrow> Inl Panic
         | Some fee \<Rightarrow>
             if AmountOf (spendable log owner) ''upokt'' \<le> Amount fee
               then Inl (Status FailedPrecondition (Service ErrServiceNotEnoughFunds))
             else bindR (mapErr (\<lambda>_. Status Internal (Service ErrServiceFailedToDeductFee))
                    (bank_do sdk (SendFromAccountToModule owner ''service'' fee) log)) (\<lambda>log'.
                  bindR (SnapshotServiceComputeUnitsPerRelayCreate currentHeight sh (Service_Id new)
                    (ComputeUnitsPerRelay new) (SetService new st)) (\<lambda>st2. Inr (st2, log')))))"

record msg_transfer_service =
  MTS_OwnerAddress :: string
  MTS_ServiceId :: string
  MTS_NewOwnerAddress :: string

definition MsgTransferService_ValidateBasic :: "sdk \<Rightarrow> msg_transfer_service \<Rightarrow> unit res" where
  "MsgTransferService_ValidateBasic sdk msg =
     (if \<not> isBech32 sdk (MTS_OwnerAddress msg) then Inl (Service ErrServiceInvalidAddress)
      else if \<not> isBech32 sdk (MTS_NewOwnerAddress msg) then Inl (Service ErrServiceInvalidAddress)
      else if MTS_ServiceId msg = '''' then Inl (Service ErrServiceMissingID)
      else if MTS_OwnerAddress msg = MTS_NewOwnerAddress msg
        then Inl (Service ErrServiceInvalidOwnerAddress)
      else Inr ())"

definition TransferService :: "sdk \<Rightarrow> msg_transfer_service \<Rightarrow> service_state \<Rightarrow> service_state res" where
  "TransferService sdk msg st =
     bindR (mapErr (Status InvalidArgument) (MsgTransferService_ValidateBasic sdk msg)) (\<lambda>_.
     case GetService st (MTS_ServiceId msg) of
       None \<Rightarrow> Inl (Status NotFound (Service ErrServiceNotFound))
     | Some found \<Rightarrow>
         if Service_OwnerAddress found \<noteq> MTS_OwnerAddress msg
           then Inl (Status PermissionDenied (Service ErrServiceUnauthorized))
         else Inr (SetService (found\<lparr>Service_OwnerAddress := MTS_NewOwnerAddress msg\<rparr>) st))"

section \<open>Relay mining difficulty\<close>

definition RelayMiningDifficultyKey :: "string \<Rightarrow> string" where
  "RelayMiningDifficultyKey serviceId = StringKey serviceId"

definition SetRelayMiningDifficulty :: "relay_mining_difficulty \<Rightarrow> service_state \<Rightarrow> service_state" where
  "SetRelayMiningDifficulty d st =
     st\<lparr>DifficultyStore := kv_set (RelayMiningDifficultyKey (RMD_ServiceId d)) d (DifficultyStore st)\<rparr>"

definition NewDefaultRelayMiningDifficulty ::
    "int \<Rightarrow> string \<Rightarrow> u64 \<Rightarrow> u64 \<Rightarrow> relay_mining_difficulty res" where
  "NewDefaultRelayMiningDifficulty currentHeight serviceId numRelays targetNumRelays =
     bindR (ComputeNewDifficultyTargetHash BaseRelayDifficultyHashBz targetNumRelays numRelays)
       (\<lambda>newDifficultyHash.
       Inr \<lparr>RMD_ServiceId = serviceId, RMD_BlockHeight = currentHeight, NumRelaysEma = numRelays,
            TargetHash = newDifficultyHash\<rparr>)"

definition GetRelayMiningDifficulty ::
    "int \<Rightarrow> service_state \<Rightarrow> string \<Rightarrow> (relay_mining_difficulty \<times> bool) res" where
  "GetRelayMiningDifficulty currentHeight st serviceId =
     (case map_of (DifficultyStore st) (RelayMiningDifficultyKey serviceId) of
        None \<Rightarrow>
          let targetNumRelays = TargetNumRelays (Service_GetParams st)
          in bindR (NewDefaultRelayMiningDifficulty currentHeight serviceId targetNumRelays targetNumRelays)
               (\<lambda>d. Inr (d, False))
      | Some d \<Rightarrow> Inr (d, True))"

definition RemoveRelayMiningDifficulty :: "string \<Rightarrow> service_state \<Rightarrow> service_state" where
  "RemoveRelayMiningDifficulty serviceId st =
     (if map_of (DifficultyStore st) (RelayMiningDifficultyKey serviceId) = None then st
      else st\<lparr>DifficultyStore := kv_del (RelayMiningDifficultyKey serviceId) (DifficultyStore st)\<rparr>)"

definition SetRelayMiningDifficultyAtHeight ::
    "int \<Rightarrow> relay_mining_difficulty \<Rightarrow> service_state \<Rightarrow> service_state" where
  "SetRelayMiningDifficultyAtHeight effectiveHeight d st =
     st\<lparr>DifficultyHistory := kv_set (history_key (RMD_ServiceId d) effectiveHeight)
          (Some \<lparr>DU_EffectiveHeight = effectiveHeight, DU_Difficulty = Some d\<rparr>) (DifficultyHistory st)\<rparr>"

definition GetRelayMiningDifficultyAtHeight ::
    "service_state \<Rightarrow> string \<Rightarrow> int \<Rightarrow> relay_mining_difficulty res" where
  "GetRelayMiningDifficultyAtHeight st serviceId queryHeight =
     (let base = \<lparr>RMD_ServiceId = serviceId, RMD_BlockHeight = 0,
            NumRelaysEma = TargetNumRelays (Service_GetParams st), TargetHash = BaseRelayDifficultyHashBz\<rparr>
      in case latest_at serviceId queryHeight (DifficultyHistory st) of
           Some None \<Rightarrow> Inl Panic
         | Some (Some u) \<Rightarrow> (case DU_Difficulty u of Some d \<Rightarrow> Inr d | None \<Rightarrow> Inr base)
         | None \<Rightarrow> Inr base)"

text \<open>The history of one service, as \<open>MustUnmarshal\<close> reads it.\<close>

definition GetRelayMiningDifficultyHistoryForService ::
    "service_state \<Rightarrow> string \<Rightarrow> difficulty_update list res" where
  "GetRelayMiningDifficultyHistoryForService st serviceId =
     foldR (\<lambda>us e. case snd e of None \<Rightarrow> Inl Panic | Some u \<Rightarrow> Inr (us @ [u])) []
       (kv_prefix (StringKey serviceId) (DifficultyHistory st))"

definition update_difficulty_step ::
    "int \<Rightarrow> int \<Rightarrow> u64 \<Rightarrow> service_state \<times> (string \<times> relay_mining_difficulty) list \<Rightarrow> string \<times> u64
     \<Rightarrow> (service_state \<times> (string \<times> relay_mining_difficulty) list) res" where
  "update_difficulty_step currentHeight nextSessionStartHeight targetNumRelays =
     (\<lambda>(st, out) (serviceId, numRelays).
       bindR (GetRelayMiningDifficulty currentHeight st serviceId) (\<lambda>(stored, found).
       bindR (if found then Inr stored
              else NewDefaultRelayMiningDifficulty currentHeight serviceId numRelays targetNumRelays)
         (\<lambda>prevDifficulty.
       let newRelaysEma = computeEma emaSmoothingFactor (NumRelaysEma prevDifficulty) numRelays in
       bindR (ComputeNewDifficultyTargetHash BaseRelayDifficultyHashBz targetNumRelays newRelaysEma)
         (\<lambda>difficultyHash.
       bindR (GetRelayMiningDifficultyHistoryForService st serviceId) (\<lambda>existingHistory.
       let st1 = (if existingHistory = []
                  then SetRelayMiningDifficultyAtHeight currentHeight prevDifficulty st else st);
           newDifficulty = \<lparr>RMD_ServiceId = serviceId, RMD_BlockHeight = nextSessionStartHeight,
             NumRelaysEma = newRelaysEma, TargetHash = difficultyHash\<rparr>;
           st2 = SetRelayMiningDifficultyAtHeight nextSessionStartHeight newDifficulty st1;
           st3 = SetRelayMiningDifficulty newDifficulty st2
       in Inr (st3, out @ [(serviceId, newDifficulty)]))))))"

text \<open>The relays per service, a map, are visited in the order of the service IDs.\<close>

definition UpdateRelayMiningDifficulty ::
    "int \<Rightarrow> shared_state \<Rightarrow> (string \<times> u64) list \<Rightarrow> service_state
     \<Rightarrow> (service_state \<times> (string \<times> relay_mining_difficulty) list) res" where
  "UpdateRelayMiningDifficulty currentHeight sh relaysPerServiceMap st =
     bindR (GetSessionEndHeight (GetParams sh) currentHeight) (\<lambda>currentSessionEndHeight.
     foldR (update_difficulty_step currentHeight (i64 (currentSessionEndHeight + 1))
              (TargetNumRelays (Service_GetParams st)))
       (st, []) (sort_key fst relaysPerServiceMap))"

end
