(* ===== verification/ServiceGenesis.thy ===== *)
theory ServiceGenesis
  imports ServiceModule
begin

text \<open>
  Parameters and genesis of the service module (\<open>x/service/types/params.go\<close>,
  \<open>genesis.go\<close>, \<open>x/service/module/genesis.go\<close>), and the contract its two
  height-indexed histories share.
\<close>

section \<open>Parameters\<close>

definition ValidateAddServiceFee :: "coin option \<Rightarrow> unit res" where
  "ValidateAddServiceFee addServiceFee =
     (case addServiceFee of None \<Rightarrow> Inl (Service ErrServiceParamInvalid)
      | Some c \<Rightarrow>
          if Denom c \<noteq> DenomuPOKT then Inl (Service ErrServiceParamInvalid)
          else if Amount c < 1 then Inl (Service ErrServiceParamInvalid)
          else Inr ())"

definition ValidateTargetNumRelays :: "u64 \<Rightarrow> unit res" where
  "ValidateTargetNumRelays targetNumRelays =
     (if targetNumRelays < 1 then Inl (Service ErrServiceParamInvalid) else Inr ())"

definition Service_Params_ValidateBasic :: "service_params \<Rightarrow> unit res" where
  "Service_Params_ValidateBasic p =
     bindR (ValidateAddServiceFee (AddServiceFee p)) (\<lambda>_.
     bindR (ValidateTargetNumRelays (TargetNumRelays p)) (\<lambda>_. Inr ()))"

text \<open>The value of \<open>MsgUpdateParam\<close>: a coin (which may be nil), a number, or nothing.\<close>

datatype service_param_value = SP_None | SP_Coin "coin option" | SP_Uint64 u64

record msg_service_update_param =
  MSU_Authority :: string
  MSU_Name :: string
  MSU_AsType :: service_param_value

fun SP_GetAsCoin :: "service_param_value \<Rightarrow> coin option" where
  "SP_GetAsCoin (SP_Coin c) = c"
| "SP_GetAsCoin _ = None"

fun SP_GetAsUint64 :: "service_param_value \<Rightarrow> u64" where
  "SP_GetAsUint64 (SP_Uint64 n) = n"
| "SP_GetAsUint64 _ = 0"

definition MsgServiceUpdateParam_ValidateBasic :: "sdk \<Rightarrow> msg_service_update_param \<Rightarrow> unit res" where
  "MsgServiceUpdateParam_ValidateBasic sdk msg =
     (if \<not> isBech32 sdk (MSU_Authority msg) then Inl (Service ErrServiceInvalidAddress)
      else if MSU_AsType msg = SP_None then Inl (Service ErrServiceParamInvalid)
      else if MSU_Name msg = ''add_service_fee''
        then (case MSU_AsType msg of SP_Coin c \<Rightarrow> ValidateAddServiceFee c
              | _ \<Rightarrow> Inl (Service ErrServiceParamInvalid))
      else if MSU_Name msg = ''target_num_relays''
        then ValidateTargetNumRelays (SP_GetAsUint64 (MSU_AsType msg))
      else Inl (Service ErrServiceParamInvalid))"

definition Service_UpdateParam ::
    "sdk \<Rightarrow> string \<Rightarrow> msg_service_update_param \<Rightarrow> service_state \<Rightarrow> service_state res" where
  "Service_UpdateParam sdk authority msg st =
     bindR (mapErr (Status InvalidArgument) (MsgServiceUpdateParam_ValidateBasic sdk msg)) (\<lambda>_.
     if authority \<noteq> MSU_Authority msg
       then Inl (Status InvalidArgument (Service ErrServiceInvalidSigner))
     else
       let params = Service_GetParams st in
       bindR (if MSU_Name msg = ''add_service_fee''
                then Inr (params\<lparr>AddServiceFee := SP_GetAsCoin (MSU_AsType msg)\<rparr>)
              else if MSU_Name msg = ''target_num_relays''
                then Inr (params\<lparr>TargetNumRelays := SP_GetAsUint64 (MSU_AsType msg)\<rparr>)
              else Inl (Status InvalidArgument (Service ErrServiceParamInvalid))) (\<lambda>params'.
       bindR (mapErr (Status InvalidArgument) (Service_Params_ValidateBasic params')) (\<lambda>_.
       Inr (st\<lparr>ServiceParams := Some params'\<rparr>))))"

definition Service_UpdateParams ::
    "sdk \<Rightarrow> string \<Rightarrow> string \<Rightarrow> service_params \<Rightarrow> service_state \<Rightarrow> service_state res" where
  "Service_UpdateParams sdk authority msgAuthority params st =
     (if \<not> isBech32 sdk msgAuthority then Inl (Status InvalidArgument ErrExt)
      else bindR (mapErr (Status InvalidArgument) (Service_Params_ValidateBasic params)) (\<lambda>_.
        if authority \<noteq> msgAuthority
          then Inl (Status PermissionDenied (Service ErrServiceInvalidSigner))
        else Inr (st\<lparr>ServiceParams := Some params\<rparr>)))"

section \<open>Genesis\<close>

record service_genesis =
  ServiceList :: "shared_service list"
  RelayMiningDifficultyList :: "relay_mining_difficulty list"
  ComputeUnitsPerRelayHistory :: "cupr_update list"
  GenesisServiceParams :: service_params

definition validateServiceList :: "(string \<Rightarrow> bool) \<Rightarrow> shared_service list \<Rightarrow> unit res" where
  "validateServiceList validAddr serviceList =
     bindR (foldR (\<lambda>(ids, names) s.
        bindR (Service_ValidateBasic validAddr s) (\<lambda>_.
        if ServiceKey (Service_Id s) \<in> set ids then Inl (Service ErrServiceDuplicateIndex)
        else if ServiceKey (Service_Name s) \<in> set names then Inl (Service ErrServiceDuplicateIndex)
        else Inr (ServiceKey (Service_Id s) # ids, ServiceKey (Service_Name s) # names)))
       ([], []) serviceList) (\<lambda>_. Inr ())"

definition validateRelayMiningDifficultyList :: "relay_mining_difficulty list \<Rightarrow> unit res" where
  "validateRelayMiningDifficultyList ds =
     bindR (foldR (\<lambda>seen d.
        if RelayMiningDifficultyKey (RMD_ServiceId d) \<in> set seen
          then Inl (Service ErrServiceDuplicateIndex)
        else Inr (RelayMiningDifficultyKey (RMD_ServiceId d) # seen)) [] ds) (\<lambda>_. Inr ())"

definition GenesisState_Validate :: "(string \<Rightarrow> bool) \<Rightarrow> service_genesis \<Rightarrow> unit res" where
  "GenesisState_Validate validAddr gs =
     bindR (validateServiceList validAddr (ServiceList gs)) (\<lambda>_.
     bindR (validateRelayMiningDifficultyList (RelayMiningDifficultyList gs)) (\<lambda>_.
     Service_Params_ValidateBasic (GenesisServiceParams gs)))"

definition Service_InitGenesis :: "service_genesis \<Rightarrow> service_state \<Rightarrow> service_state" where
  "Service_InitGenesis gs st =
     (let st1 = fold SetService (ServiceList gs) st;
          st2 = fold SetRelayMiningDifficulty (RelayMiningDifficultyList gs) st1;
          st3 = fold (\<lambda>u. SetServiceComputeUnitsPerRelayAtHeight (CU_EffectiveHeight u)
                  (CU_ServiceId u) (CU_ComputeUnitsPerRelay u)) (ComputeUnitsPerRelayHistory gs) st2
      in st3\<lparr>ServiceParams := Some (GenesisServiceParams gs)\<rparr>)"

definition GetAllServiceComputeUnitsPerRelayHistory :: "service_state \<Rightarrow> cupr_update list res" where
  "GetAllServiceComputeUnitsPerRelayHistory st =
     foldR (\<lambda>us e. case snd e of None \<Rightarrow> Inl Panic | Some u \<Rightarrow> Inr (us @ [u])) [] (CuprHistory st)"

definition Service_ExportGenesis :: "service_state \<Rightarrow> service_genesis res" where
  "Service_ExportGenesis st =
     bindR (GetAllServiceComputeUnitsPerRelayHistory st) (\<lambda>history.
     Inr \<lparr>ServiceList = map snd (ServiceStore st),
          RelayMiningDifficultyList = map snd (DifficultyStore st),
          ComputeUnitsPerRelayHistory = history,
          GenesisServiceParams = Service_GetParams st\<rparr>)"

definition empty_service_state :: service_state where
  "empty_service_state = \<lparr>ServiceStore = [], DifficultyStore = [], DifficultyHistory = [],
     CuprHistory = [], ServiceParams = None\<rparr>"

section \<open>The contract of the histories\<close>

text \<open>What recording an entry promises: it is stored under its identifier and height. The
  lookups at a height follow, once for both histories of the module.\<close>

locale height_history =
  fixes hist :: "'st \<Rightarrow> (string, 'v) kv"
    and put :: "int \<Rightarrow> 'a \<Rightarrow> 'st \<Rightarrow> 'st"
    and ident :: "'a \<Rightarrow> string"
    and entry :: "int \<Rightarrow> 'a \<Rightarrow> 'v"
  assumes hist_put: "hist (put h a st) = kv_set (history_key (ident a) h) (entry h a) (hist st)"
begin

lemma put_ok:
  "history_ok (hist st) \<Longrightarrow> no_slash (ident a) \<Longrightarrow> 0 \<le> h \<Longrightarrow> h < 2 ^ 63
    \<Longrightarrow> history_ok (hist (put h a st))"
  by (simp add: hist_put history_ok_set)

lemma lookup_put_other:
  assumes "history_ok (hist st)" and "no_slash i" and "0 \<le> q" and "q < 2 ^ 63 - 1"
    and "no_slash (ident a)" and "0 \<le> h" and "h < 2 ^ 63" and "i \<noteq> ident a \<or> q < h"
  shows "latest_at i q (hist (put h a st)) = latest_at i q (hist st)"
  using assms by (simp add: hist_put latest_at_set_other)

lemma lookup_put_same:
  assumes "history_ok (hist st)" and "no_slash (ident a)" and "0 \<le> h" and "h \<le> q" and "q < 2 ^ 63 - 1"
    and "\<And>h'. h < h' \<Longrightarrow> h' \<le> q \<Longrightarrow> map_of (hist st) (history_key (ident a) h') = None"
  shows "latest_at (ident a) q (hist (put h a st)) = Some (entry h a)"
  using assms by (simp add: hist_put latest_at_set_eq)

lemma entry_put:
  "map_of (hist (put h a st)) k
    = (if k = history_key (ident a) h then Some (entry h a) else map_of (hist st) k)"
  by (simp add: hist_put kv_simps)

end

interpretation cuprs: height_history CuprHistory
    "\<lambda>h (i, n). SetServiceComputeUnitsPerRelayAtHeight h i n" fst
    "\<lambda>h (i, n). Some \<lparr>CU_EffectiveHeight = h, CU_ServiceId = i, CU_ComputeUnitsPerRelay = n\<rparr>"
  by unfold_locales (auto simp: SetServiceComputeUnitsPerRelayAtHeight_def)

interpretation difficulties: height_history DifficultyHistory SetRelayMiningDifficultyAtHeight
    RMD_ServiceId "\<lambda>h d. Some \<lparr>DU_EffectiveHeight = h, DU_Difficulty = Some d\<rparr>"
  by unfold_locales (simp add: SetRelayMiningDifficultyAtHeight_def)

end
