(* ===== verification/ServiceInv.thy ===== *)
theory ServiceInv
  imports ServiceGenesis
begin

text \<open>
  The invariant of the service module's state, kept by every operation: stored services and
  difficulties sit under their own keys, rates and averages are positive, and every history
  entry says the identifier and height of its key. From it: in-flight sessions keep their rate
  and their difficulty, the difficulty update never panics, and genesis export and import.
\<close>

section \<open>Keyed stores\<close>

lemma keyed_Nil [simp]: "keyed addr []"
  by (simp add: keyed_def)

lemma keyed_set: "keyed addr s \<Longrightarrow> keyed addr (kv_set (StringKey (addr a)) a s)"
  by (auto simp: keyed_def kv_simps set_kv_set)

lemma keyed_lookup:
  "keyed addr s \<Longrightarrow> map_of s (StringKey x) = Some a \<Longrightarrow> addr a = x \<and> (StringKey x, a) \<in> set s"
  by (auto simp: keyed_def dest!: map_of_SomeD)

lemma kv_set_snoc: "(\<forall>e \<in> set s. fst e < k) \<Longrightarrow> kv_set k v s = s @ [(k, v)]"
  by (induction k v s rule: kv_set.induct) auto

lemma kv_rebuild: "kv_ok s \<Longrightarrow> fold (\<lambda>(k, v). kv_set k v) s [] = s"
proof (induction s rule: rev_induct)
  case Nil
  then show ?case by simp
next
  case (snoc e s)
  then have "kv_ok s" "\<forall>f \<in> set s. fst f < fst e"
    by (auto simp: kv_ok_def sorted_wrt_append)
  then show ?case using snoc.IH by (cases e) (simp add: kv_set_snoc)
qed

section \<open>The invariant\<close>

definition cupr_entry_ok :: "string \<times> cupr_update option \<Rightarrow> bool" where
  "cupr_entry_ok = (\<lambda>(k, v). case v of None \<Rightarrow> False
     | Some u \<Rightarrow> k = history_key (CU_ServiceId u) (CU_EffectiveHeight u) \<and> 0 < CU_ComputeUnitsPerRelay u
         \<and> no_slash (CU_ServiceId u) \<and> 0 \<le> CU_EffectiveHeight u \<and> CU_EffectiveHeight u < 2 ^ 63)"

definition difficulty_entry_ok :: "string \<times> difficulty_update option \<Rightarrow> bool" where
  "difficulty_entry_ok = (\<lambda>(k, v). case v of None \<Rightarrow> False
     | Some u \<Rightarrow> (case DU_Difficulty u of None \<Rightarrow> False
        | Some d \<Rightarrow> k = history_key (RMD_ServiceId d) (DU_EffectiveHeight u)
            \<and> no_slash (RMD_ServiceId d) \<and> 0 \<le> DU_EffectiveHeight u \<and> DU_EffectiveHeight u < 2 ^ 63))"

definition service_entry_ok :: "shared_service \<Rightarrow> bool" where
  "service_entry_ok s \<longleftrightarrow> no_slash (Service_Id s) \<and> 0 < ComputeUnitsPerRelay s"

definition service_inv :: "service_state \<Rightarrow> bool" where
  "service_inv st \<longleftrightarrow>
     keyed Service_Id (ServiceStore st) \<and> (\<forall>e \<in> set (ServiceStore st). service_entry_ok (snd e))
   \<and> history_ok (CuprHistory st) \<and> (\<forall>e \<in> set (CuprHistory st). cupr_entry_ok e)
   \<and> keyed RMD_ServiceId (DifficultyStore st)
   \<and> (\<forall>e \<in> set (DifficultyStore st). 1 \<le> NumRelaysEma (snd e))
   \<and> history_ok (DifficultyHistory st) \<and> (\<forall>e \<in> set (DifficultyHistory st). difficulty_entry_ok e)"

lemma service_inv_empty: "service_inv empty_service_state"
  by (simp add: service_inv_def empty_service_state_def)

lemma history_ok_kv_ok: "history_ok s \<Longrightarrow> kv_ok s"
  by (simp add: history_ok_def)

lemma set_keyed: "keyed addr s \<Longrightarrow> set (kv_set (StringKey (addr a)) a s)
    = insert (StringKey (addr a), a) {e \<in> set s. fst e \<noteq> StringKey (addr a)}"
  by (simp add: keyed_def set_kv_set)

lemma SetService_inv:
  "service_inv st \<Longrightarrow> service_entry_ok s \<Longrightarrow> service_inv (SetService s st)"
  by (auto simp: service_inv_def SetService_def ServiceKey_def keyed_set set_keyed)

lemma SetCupr_inv:
  assumes "service_inv st" and "no_slash i" and "0 < n" and "0 \<le> h" and "h < 2 ^ 63"
  shows "service_inv (SetServiceComputeUnitsPerRelayAtHeight h i n st)"
proof -
  have "cupr_entry_ok (history_key i h, Some \<lparr>CU_EffectiveHeight = h, CU_ServiceId = i,
      CU_ComputeUnitsPerRelay = n\<rparr>)"
    using assms(2-5) by (simp add: cupr_entry_ok_def)
  then show ?thesis
    using assms by (auto simp: service_inv_def SetServiceComputeUnitsPerRelayAtHeight_def history_ok_set
        set_kv_set history_ok_kv_ok)
qed

lemma SetDifficulty_inv:
  "service_inv st \<Longrightarrow> 1 \<le> NumRelaysEma d \<Longrightarrow> service_inv (SetRelayMiningDifficulty d st)"
  by (auto simp: service_inv_def SetRelayMiningDifficulty_def RelayMiningDifficultyKey_def
      keyed_set set_keyed)

lemma SetDifficultyAt_inv:
  assumes "service_inv st" and "no_slash (RMD_ServiceId d)" and "0 \<le> h" and "h < 2 ^ 63"
  shows "service_inv (SetRelayMiningDifficultyAtHeight h d st)"
proof -
  have "difficulty_entry_ok (history_key (RMD_ServiceId d) h,
      Some \<lparr>DU_EffectiveHeight = h, DU_Difficulty = Some d\<rparr>)"
    using assms(2-4) by (simp add: difficulty_entry_ok_def)
  then show ?thesis
    using assms by (auto simp: service_inv_def SetRelayMiningDifficultyAtHeight_def history_ok_set
        set_kv_set history_ok_kv_ok)
qed

lemma RemoveDifficulty_inv: "service_inv st \<Longrightarrow> service_inv (RemoveRelayMiningDifficulty i st)"
  by (auto simp: service_inv_def RemoveRelayMiningDifficulty_def keyed_def kv_simps)
    (auto simp: kv_del_def)

lemma RemoveService_inv: "service_inv st \<Longrightarrow> service_inv (RemoveService i st)"
  by (auto simp: service_inv_def RemoveService_def keyed_def kv_simps) (auto simp: kv_del_def)

lemma GetService_ok:
  assumes "service_inv st" and "GetService st i = Some s"
  shows "Service_Id s = i" and "service_entry_ok s" and "no_slash i"
proof -
  have "keyed Service_Id (ServiceStore st)" "\<forall>e \<in> set (ServiceStore st). service_entry_ok (snd e)"
    using assms(1) by (simp_all add: service_inv_def)
  moreover have "map_of (ServiceStore st) (StringKey i) = Some s"
    using assms(2) by (simp add: GetService_def ServiceKey_def)
  ultimately show "Service_Id s = i" and "service_entry_ok s"
    using keyed_lookup by fastforce+
  then show "no_slash i" by (auto simp: service_entry_ok_def)
qed

lemma GetService_SetService:
  "GetService (SetService s st) i = (if i = Service_Id s then Some s else GetService st i)"
  by (simp add: GetService_def SetService_def ServiceKey_def kv_simps)

section \<open>What a handler leaves\<close>

lemma MsgAddService_valid:
  assumes "MsgAddService_ValidateBasic sdk msg = Inr ()"
  shows "service_entry_ok (MAS_Service msg)"
    and "Service_OwnerAddress (MAS_Service msg) = MAS_OwnerAddress msg"
  using assms
  by (auto simp: MsgAddService_ValidateBasic_def Service_ValidateBasic_def res_simps
      service_entry_ok_def IsValidServiceId_no_slash ValidateComputeUnitsPerRelay_def
      word_gt_0 split: if_splits)

text \<open>A successful \<open>AddService\<close> either updates its owner's service or adds a new one.\<close>

lemma AddService_cases:
  assumes "AddService sdk spendable h sh msg (st, log) = Inr (st', log')"
  obtains (update) found where "GetService st (Service_Id (MAS_Service msg)) = Some found"
      and "Service_OwnerAddress found = MAS_OwnerAddress msg" and "log' = log"
      and "ComputeUnitsPerRelay found = ComputeUnitsPerRelay (MAS_Service msg)"
      and "st' = SetService (updated_service found (MAS_Service msg)) st"
    | (change) found b where "GetService st (Service_Id (MAS_Service msg)) = Some found"
      and "Service_OwnerAddress found = MAS_OwnerAddress msg" and "log' = log"
      and "ComputeUnitsPerRelay found \<noteq> ComputeUnitsPerRelay (MAS_Service msg)"
      and "GetNextSessionStartHeight (GetParams sh) h = Inr b"
      and "SnapshotServiceComputeUnitsPerRelayChange h sh (Service_Id (MAS_Service msg))
             (ComputeUnitsPerRelay found) (ComputeUnitsPerRelay (MAS_Service msg))
             (SetService (updated_service found (MAS_Service msg)) st) = Inr st'"
    | (create) fee b where "GetService st (Service_Id (MAS_Service msg)) = None"
      and "AddServiceFee (Service_GetParams st) = Some fee"
      and "log' = log @ [SendFromAccountToModule (MAS_OwnerAddress msg) ''service'' fee]"
      and "GetSessionStartHeight (GetParams sh) h = Inr b"
      and "st' = SetServiceComputeUnitsPerRelayAtHeight b (Service_Id (MAS_Service msg))
             (ComputeUnitsPerRelay (MAS_Service msg)) (SetService (MAS_Service msg) st)"
proof (cases "GetService st (Service_Id (MAS_Service msg))")
  case None
  then show ?thesis
    using assms create
    by (auto simp: AddService_def Let_def res_simps SnapshotServiceComputeUnitsPerRelayCreate_def
        split: if_splits option.splits)
next
  case (Some found)
  have v: "MsgAddService_ValidateBasic sdk msg = Inr ()"
    using assms by (auto simp: AddService_def Let_def res_simps)
  note own = MsgAddService_valid(2) [OF v]
  show ?thesis
  proof (cases "ComputeUnitsPerRelay found = ComputeUnitsPerRelay (MAS_Service msg)")
    case True
    then show ?thesis
      using assms Some own update by (auto simp: AddService_def Let_def res_simps v split: if_splits)
  next
    case False
    obtain b where "GetNextSessionStartHeight (GetParams sh) h = Inr b"
      using assms Some False v
      by (auto simp: AddService_def Let_def res_simps SnapshotServiceComputeUnitsPerRelayChange_def
          split: if_splits)
    then show ?thesis
      using assms Some False own v change by (auto simp: AddService_def Let_def res_simps split: if_splits)
  qed
qed

end
