(* ===== verification/ServiceProps.thy ===== *)
theory ServiceProps
  imports ServiceInv
begin

text \<open>
  The service module as a transition system, its reachable states, and what it guarantees: rates and
  difficulties of sessions in flight, who may change a service, the totality of the difficulty
  update, and genesis.
\<close>

section \<open>Steps\<close>

text \<open>A block height and shared parameters at which the session arithmetic does not overflow.\<close>

definition heights_fit :: "shared_state \<Rightarrow> int \<Rightarrow> bool" where
  "heights_fit sh h \<longleftrightarrow> params_bounded (GetParams sh) \<and> height_bounded h"

text \<open>The difficulty update is run by the settlement, on services that exist and have relays.\<close>

inductive service_step ::
    "sdk \<Rightarrow> (bank_log \<Rightarrow> string \<Rightarrow> coin list) \<Rightarrow> string
     \<Rightarrow> service_state \<times> bank_log \<Rightarrow> service_state \<times> bank_log \<Rightarrow> bool"
  for sdk spendable authority where
  add: "heights_fit sh h \<Longrightarrow> AddService sdk spendable h sh msg s = Inr s'
    \<Longrightarrow> service_step sdk spendable authority s s'"
| transfer: "TransferService sdk tmsg st = Inr st'
    \<Longrightarrow> service_step sdk spendable authority (st, log) (st', log)"
| difficulty: "heights_fit sh h \<Longrightarrow> list_all (\<lambda>(i, n). GetService st i \<noteq> None \<and> 1 \<le> n) m
    \<Longrightarrow> UpdateRelayMiningDifficulty h sh m st = Inr (st', out)
    \<Longrightarrow> service_step sdk spendable authority (st, log) (st', log)"
| update_param: "Service_UpdateParam sdk authority pmsg st = Inr st'
    \<Longrightarrow> service_step sdk spendable authority (st, log) (st', log)"
| update_params: "Service_UpdateParams sdk authority who params st = Inr st'
    \<Longrightarrow> service_step sdk spendable authority (st, log) (st', log)"

inductive_cases service_stepE: "service_step sdk spendable authority s s'"

lemma heights_fit_next:
  assumes "heights_fit sh h"
  shows "GetSessionStartHeight (GetParams sh) h = Inr (sess_start (GetParams sh) h)"
    and "GetSessionEndHeight (GetParams sh) h = Inr (sess_end (GetParams sh) h)"
    and "GetNextSessionStartHeight (GetParams sh) h = Inr (sess_end (GetParams sh) h + 1)"
    and "1 \<le> sess_start (GetParams sh) h" and "sess_start (GetParams sh) h \<le> h"
    and "h \<le> sess_end (GetParams sh) h" and "sess_end (GetParams sh) h + 1 < 2 ^ 63 - 1"
    and "1 \<le> h" and "h < 2 ^ 62"
proof -
  have p: "params_bounded (GetParams sh)" "height_bounded h"
    using assms by (simp_all add: heights_fit_def)
  note b = sess_start_bounds [OF p]
  show h: "1 \<le> h" "h < 2 ^ 62" using p(2) by (simp_all add: height_bounded_def)
  show "1 \<le> sess_start (GetParams sh) h" "sess_start (GetParams sh) h \<le> h"
    "h \<le> sess_end (GetParams sh) h" by (rule b(1-3))+
  show e: "sess_end (GetParams sh) h + 1 < 2 ^ 63 - 1" using b(4) h by simp
  have i: "i64 (sess_end (GetParams sh) h + 1) = sess_end (GetParams sh) h + 1"
    using b(3) h e by (intro i64_id) (simp add: in_i64_def)
  show "GetSessionStartHeight (GetParams sh) h = Inr (sess_start (GetParams sh) h)"
    by (rule GetSessionStartHeight_eq [OF p])
  show "GetSessionEndHeight (GetParams sh) h = Inr (sess_end (GetParams sh) h)"
    by (rule GetSessionEndHeight_eq [OF p])
  then show "GetNextSessionStartHeight (GetParams sh) h = Inr (sess_end (GetParams sh) h + 1)"
    by (simp add: GetNextSessionStartHeight_def i)
qed

lemma SnapshotChange_eq:
  assumes "heights_fit sh h"
  shows "SnapshotServiceComputeUnitsPerRelayChange h sh i prev new st
    = Inr (SetServiceComputeUnitsPerRelayAtHeight (sess_end (GetParams sh) h + 1) i new
        (if hasServiceComputeUnitsPerRelayHistory st i then st
         else SetServiceComputeUnitsPerRelayAtHeight 1 i prev st))"
  by (simp add: SnapshotServiceComputeUnitsPerRelayChange_def Let_def heights_fit_next(3) [OF assms])

lemma updated_service_ok:
  assumes "service_entry_ok found" and "service_entry_ok new"
  shows "service_entry_ok (updated_service found new)"
  using assms by (simp add: service_entry_ok_def updated_service_def)

lemma SnapshotChange_inv:
  assumes "heights_fit sh h" and "service_inv st" and "no_slash i" and "0 < prev" and "0 < new"
    and "SnapshotServiceComputeUnitsPerRelayChange h sh i prev new st = Inr st'"
  shows "service_inv st'"
proof -
  note b = heights_fit_next [OF assms(1)]
  have "service_inv (if hasServiceComputeUnitsPerRelayHistory st i then st
      else SetServiceComputeUnitsPerRelayAtHeight 1 i prev st)"
    using assms(2-4) SetCupr_inv [of st i prev 1] by simp
  then show ?thesis
    using assms(3,5,6) b(3-8) by (auto simp: SnapshotChange_eq [OF assms(1)] intro!: SetCupr_inv)
qed

lemma AddService_inv:
  assumes "heights_fit sh h" and "service_inv st"
    and "AddService sdk spendable h sh msg (st, log) = Inr (st', log')"
  shows "service_inv st'"
proof -
  have "MsgAddService_ValidateBasic sdk msg = Inr ()"
    using assms(3) by (auto simp: AddService_def Let_def res_simps)
  note v = MsgAddService_valid [OF this]
  have i: "no_slash (Service_Id (MAS_Service msg))" "0 < ComputeUnitsPerRelay (MAS_Service msg)"
    using v(1) by (simp_all add: service_entry_ok_def)
  show ?thesis
    using assms(3)
  proof (cases rule: AddService_cases)
    case (update found)
    show ?thesis
      unfolding update(5)
      by (rule SetService_inv [OF assms(2) updated_service_ok [OF GetService_ok(2) [OF assms(2) update(1)] v(1)]])
  next
    case (change found b)
    note f = GetService_ok [OF assms(2) change(1)]
    have "service_inv (SetService (updated_service found (MAS_Service msg)) st)"
      by (rule SetService_inv [OF assms(2) updated_service_ok [OF f(2) v(1)]])
    then show ?thesis
      using change(6) f(2) i SnapshotChange_inv [OF assms(1)] by (auto simp: service_entry_ok_def)
  next
    case (create fee b)
    note hs = heights_fit_next [OF assms(1)]
    have "0 \<le> b" "b < 2 ^ 63" using create(4) hs by auto
    then show ?thesis
      using create(5) i assms(2) v(1) by (auto intro!: SetCupr_inv SetService_inv)
  qed
qed

lemma TransferService_inv:
  assumes "service_inv st" and "TransferService sdk msg st = Inr st'"
  shows "service_inv st'"
proof -
  obtain found where f: "GetService st (MTS_ServiceId msg) = Some found"
    "st' = SetService (found\<lparr>Service_OwnerAddress := MTS_NewOwnerAddress msg\<rparr>) st"
    using assms(2) by (auto simp: TransferService_def res_simps split: option.splits if_splits)
  then show ?thesis
    using assms(1) GetService_ok [OF assms(1) f(1)]
    by (auto simp: service_entry_ok_def intro!: SetService_inv)
qed

section \<open>One difficulty update\<close>

lemma computeEma_pos:
  assumes "1 \<le> p" and "1 \<le> c"
  shows "1 \<le> computeEma emaSmoothingFactor p c"
proof -
  let ?q = "ema_rounded p c div 2 ^ 55"
  have q: "1 \<le> ?q" using div_le_mono [OF ema_rounded_ge [OF assms], of "2 ^ 55"] by simp
  show ?thesis
  proof (cases "?q > 2 ^ 64 - 1")
    case True
    then show ?thesis by (simp add: computeEma_eq float_Uint64_def)
  next
    case False
    then show ?thesis using q by (simp add: computeEma_eq float_Uint64_def word_le_nat_alt unat_of_nat)
  qed
qed

lemma foldR_unmarshal:
  "\<forall>e \<in> set es. snd e \<noteq> None
    \<Longrightarrow> foldR (\<lambda>us e. case snd e of None \<Rightarrow> Inl Panic | Some u \<Rightarrow> Inr (us @ [u])) vs es
      = Inr (vs @ map (the \<circ> snd) es)"
  by (induction es arbitrary: vs) auto

lemma difficulty_entry_readable: "difficulty_entry_ok e \<Longrightarrow> snd e \<noteq> None"
  by (auto simp: difficulty_entry_ok_def split: prod.splits option.splits)

lemma GetHistoryForService_eq:
  assumes "service_inv st"
  shows "\<exists>us. GetRelayMiningDifficultyHistoryForService st i = Inr us
    \<and> (us = [] \<longleftrightarrow> kv_prefix (StringKey i) (DifficultyHistory st) = [])"
proof -
  have "\<forall>e \<in> set (kv_prefix (StringKey i) (DifficultyHistory st)). snd e \<noteq> None"
    using assms difficulty_entry_readable by (auto simp: service_inv_def kv_prefix_def)
  then show ?thesis by (simp add: GetRelayMiningDifficultyHistoryForService_def foldR_unmarshal)
qed

lemma ComputeNewDifficulty_total:
  "1 \<le> e \<Longrightarrow> \<exists>hash. ComputeNewDifficultyTargetHash prev t e = Inr hash"
  using int64_of_nonzero [of e] by (cases "e = 0") (auto simp: ComputeNewDifficultyTargetHash_def Let_def)

lemma NewDefault_total:
  "1 \<le> n \<Longrightarrow> \<exists>d. NewDefaultRelayMiningDifficulty h i n t = Inr d \<and> RMD_ServiceId d = i \<and> NumRelaysEma d = n"
  using ComputeNewDifficulty_total [of n BaseRelayDifficultyHashBz t]
  by (auto simp: NewDefaultRelayMiningDifficulty_def)

text \<open>A round records the previous difficulty at the current height when the service had no
  history, and the new one at the next session start.\<close>

lemma update_difficulty_step_total:
  assumes "service_inv st" and "no_slash i" and "1 \<le> n"
  obtains prev new where "update_difficulty_step h nx t (st, out) (i, n)
      = Inr (SetRelayMiningDifficulty new (SetRelayMiningDifficultyAtHeight nx new
          (if kv_prefix (StringKey i) (DifficultyHistory st) = []
           then SetRelayMiningDifficultyAtHeight h prev st else st)), out @ [(i, new)])"
    and "RMD_ServiceId prev = i" and "RMD_ServiceId new = i" and "1 \<le> NumRelaysEma new"
    and "RMD_BlockHeight new = nx"
proof -
  obtain us where us: "GetRelayMiningDifficultyHistoryForService st i = Inr us"
    "us = [] \<longleftrightarrow> kv_prefix (StringKey i) (DifficultyHistory st) = []"
    using GetHistoryForService_eq [OF assms(1)] by blast
  have "\<exists>d found prev. GetRelayMiningDifficulty h st i = Inr (d, found)
      \<and> (if found then Inr d else NewDefaultRelayMiningDifficulty h i n t) = Inr prev
      \<and> RMD_ServiceId prev = i \<and> 1 \<le> NumRelaysEma prev"
  proof (cases "map_of (DifficultyStore st) (StringKey i)")
    case None
    let ?m = "TargetNumRelays (Service_GetParams st)"
    obtain d0 where "NewDefaultRelayMiningDifficulty h i ?m ?m = Inr d0"
      by (simp add: NewDefaultRelayMiningDifficulty_def ComputeNewDifficultyTargetHash_def)
    then have g: "GetRelayMiningDifficulty h st i = Inr (d0, False)"
      using None by (simp add: GetRelayMiningDifficulty_def RelayMiningDifficultyKey_def Let_def)
    obtain d where "NewDefaultRelayMiningDifficulty h i n t = Inr d" "RMD_ServiceId d = i" "NumRelaysEma d = n"
      using NewDefault_total [OF assms(3)] by blast
    then show ?thesis using g assms(3) by (intro exI [of _ d0] exI [of _ False] exI [of _ d]) simp
  next
    case (Some d)
    then have "RMD_ServiceId d = i" "1 \<le> NumRelaysEma d"
      using assms(1) keyed_lookup [of RMD_ServiceId "DifficultyStore st" i d]
      by (auto simp: service_inv_def)
    then show ?thesis
      using Some by (intro exI [of _ d] exI [of _ True])
        (simp add: GetRelayMiningDifficulty_def RelayMiningDifficultyKey_def)
  qed
  then obtain d found prev where prev: "GetRelayMiningDifficulty h st i = Inr (d, found)"
    "(if found then Inr d else NewDefaultRelayMiningDifficulty h i n t) = Inr prev"
    "RMD_ServiceId prev = i" "1 \<le> NumRelaysEma prev" by blast
  define e where "e = computeEma emaSmoothingFactor (NumRelaysEma prev) n"
  have e: "1 \<le> e" unfolding e_def by (rule computeEma_pos [OF prev(4) assms(3)])
  obtain hash where hash: "ComputeNewDifficultyTargetHash BaseRelayDifficultyHashBz t e = Inr hash"
    using ComputeNewDifficulty_total [OF e] by blast
  define new where "new = \<lparr>RMD_ServiceId = i, RMD_BlockHeight = nx, NumRelaysEma = e, TargetHash = hash\<rparr>"
  show ?thesis
  proof (rule that)
    show "update_difficulty_step h nx t (st, out) (i, n)
      = Inr (SetRelayMiningDifficulty new (SetRelayMiningDifficultyAtHeight nx new
          (if kv_prefix (StringKey i) (DifficultyHistory st) = []
           then SetRelayMiningDifficultyAtHeight h prev st else st)), out @ [(i, new)])"
      by (simp only: update_difficulty_step_def prod.case prev(1,2) bindR.simps Let_def us
          hash [unfolded e_def] new_def e_def)
  qed (simp_all add: prev(3) e new_def)
qed

section \<open>The update of all difficulties\<close>

definition relays_ok :: "service_state \<Rightarrow> (string \<times> u64) list \<Rightarrow> bool" where
  "relays_ok st m \<longleftrightarrow> list_all (\<lambda>(i, n). GetService st i \<noteq> None \<and> 1 \<le> n) m"

lemma relays_ok_step:
  "relays_ok st m \<Longrightarrow> service_inv st \<Longrightarrow> list_all (\<lambda>(i, n). no_slash i \<and> 1 \<le> n) m"
  unfolding relays_ok_def list_all_iff using GetService_ok(3) by fastforce

text \<open>What the loop keeps: the invariant, the services and the rates, the lookups before the
  current height and, for a service with a history, before the next session start.\<close>

definition update_keeps :: "int \<Rightarrow> int \<Rightarrow> service_state \<Rightarrow> service_state \<Rightarrow> bool" where
  "update_keeps h nx st st' \<longleftrightarrow> service_inv st'
     \<and> ServiceStore st' = ServiceStore st \<and> CuprHistory st' = CuprHistory st
     \<and> ServiceParams st' = ServiceParams st
     \<and> (\<forall>i q. no_slash i \<longrightarrow> 0 \<le> q \<longrightarrow> q < nx
          \<longrightarrow> q < h \<or> kv_prefix (StringKey i) (DifficultyHistory st) \<noteq> []
          \<longrightarrow> latest_at i q (DifficultyHistory st') = latest_at i q (DifficultyHistory st))
     \<and> (\<forall>i. kv_prefix (StringKey i) (DifficultyHistory st) \<noteq> []
          \<longrightarrow> kv_prefix (StringKey i) (DifficultyHistory st') \<noteq> [])"

lemma update_keeps_refl: "service_inv st \<Longrightarrow> update_keeps h nx st st"
  by (simp add: update_keeps_def)

lemma update_keeps_trans:
  "update_keeps h nx a b \<Longrightarrow> update_keeps h nx b c \<Longrightarrow> update_keeps h nx a c"
  unfolding update_keeps_def by metis

lemma kv_prefix_set: "kv_prefix p s \<noteq> [] \<Longrightarrow> kv_prefix p (kv_set k v s) \<noteq> []"
proof -
  assume "kv_prefix p s \<noteq> []"
  then obtain k' v' where "(k', v') \<in> set s" "prefix p k'"
    unfolding kv_prefix_def by (metis (mono_tags, lifting) filter_False prod.collapse)
  then have "k' \<in> fst ` set (kv_set k v s)" by (force simp: fst_set_kv_set)
  then show ?thesis using \<open>prefix p k'\<close> by (force simp: kv_prefix_def filter_empty_conv)
qed

lemma SetDifficultyAt_keeps:
  assumes "service_inv st" and "no_slash (RMD_ServiceId d)" and "0 \<le> e" and "e < 2 ^ 63"
    and "e = h \<and> kv_prefix (StringKey (RMD_ServiceId d)) (DifficultyHistory st) = [] \<or> e = nx"
    and "h \<le> nx" and "nx < 2 ^ 63"
  shows "update_keeps h nx st (SetRelayMiningDifficultyAtHeight e d st)"
proof -
  have ok: "history_ok (DifficultyHistory st)" using assms(1) by (simp add: service_inv_def)
  have "latest_at i q (DifficultyHistory (SetRelayMiningDifficultyAtHeight e d st))
      = latest_at i q (DifficultyHistory st)"
    if "no_slash i" "0 \<le> q" "q < nx" "q < h \<or> kv_prefix (StringKey i) (DifficultyHistory st) \<noteq> []" for i q
    using assms that
    by (intro difficulties.lookup_put_other [OF ok]) auto
  moreover have "kv_prefix p (DifficultyHistory (SetRelayMiningDifficultyAtHeight e d st)) \<noteq> []"
    if "kv_prefix p (DifficultyHistory st) \<noteq> []" for p
    using that by (simp add: SetRelayMiningDifficultyAtHeight_def kv_prefix_set)
  ultimately show ?thesis
    using SetDifficultyAt_inv [OF assms(1-4)]
    by (simp add: update_keeps_def) (simp add: SetRelayMiningDifficultyAtHeight_def)
qed

lemma SetDifficulty_keeps:
  "service_inv st \<Longrightarrow> 1 \<le> NumRelaysEma d \<Longrightarrow> update_keeps h nx st (SetRelayMiningDifficulty d st)"
  using SetDifficulty_inv [of st d]
  by (simp add: update_keeps_def) (simp add: SetRelayMiningDifficulty_def)

lemma update_round_keeps:
  assumes "service_inv st" and "no_slash i" and "1 \<le> n"
    and "0 \<le> h" and "h \<le> nx" and "nx < 2 ^ 63"
  obtains st' new where "update_difficulty_step h nx t (st, out) (i, n) = Inr (st', out @ [(i, new)])"
    and "update_keeps h nx st st'"
    and "map_of (DifficultyHistory st') (history_key i nx)
           = Some (Some \<lparr>DU_EffectiveHeight = nx, DU_Difficulty = Some new\<rparr>)"
    and "\<And>k. k \<noteq> history_key i nx \<Longrightarrow> k \<noteq> history_key i h
           \<Longrightarrow> map_of (DifficultyHistory st') k = map_of (DifficultyHistory st) k"
proof -
  obtain prev new where step: "update_difficulty_step h nx t (st, out) (i, n)
      = Inr (SetRelayMiningDifficulty new (SetRelayMiningDifficultyAtHeight nx new
          (if kv_prefix (StringKey i) (DifficultyHistory st) = []
           then SetRelayMiningDifficultyAtHeight h prev st else st)), out @ [(i, new)])"
    and r: "RMD_ServiceId prev = i" "RMD_ServiceId new = i" "1 \<le> NumRelaysEma new" "RMD_BlockHeight new = nx"
    by (rule update_difficulty_step_total [OF assms(1-3)])
  let ?s1 = "if kv_prefix (StringKey i) (DifficultyHistory st) = []
           then SetRelayMiningDifficultyAtHeight h prev st else st"
  let ?s2 = "SetRelayMiningDifficultyAtHeight nx new ?s1"
  have k1: "update_keeps h nx st ?s1"
    using SetDifficultyAt_keeps [of st prev h h nx] assms r update_keeps_refl by auto
  then have i1: "service_inv ?s1" by (simp add: update_keeps_def)
  have k2: "update_keeps h nx ?s1 ?s2"
    using assms r by (intro SetDifficultyAt_keeps i1) auto
  then have k3: "update_keeps h nx ?s2 (SetRelayMiningDifficulty new ?s2)"
    using r by (intro SetDifficulty_keeps) (simp_all add: update_keeps_def)
  have h: "DifficultyHistory (SetRelayMiningDifficulty new s) = DifficultyHistory s" for s
    by (simp add: SetRelayMiningDifficulty_def)
  show ?thesis
    by (rule that [OF step update_keeps_trans [OF update_keeps_trans [OF k1 k2] k3]])
      (simp_all add: h difficulties.entry_put r)
qed

lemma update_all_keeps:
  assumes "service_inv st" and "list_all (\<lambda>(i, n). no_slash i \<and> 1 \<le> n) es"
    and "0 \<le> h" and "h \<le> nx" and "nx < 2 ^ 63"
  shows "\<exists>st' news. foldR (update_difficulty_step h nx t) (st, out) es = Inr (st', out @ news)
    \<and> update_keeps h nx st st' \<and> map fst news = map fst es"
  using assms(1,2)
proof (induction es arbitrary: st out)
  case Nil
  then show ?case by (auto intro: update_keeps_refl)
next
  case (Cons e es)
  obtain i n where e: "e = (i, n)" by (cases e)
  have n: "no_slash i" "1 \<le> n" using Cons.prems(2) e by simp_all
  obtain st1 new where s: "update_difficulty_step h nx t (st, out) (i, n) = Inr (st1, out @ [(i, new)])"
    "update_keeps h nx st st1"
    by (rule update_round_keeps [OF Cons.prems(1) n assms(3-5)])
  have "service_inv st1" using s(2) by (simp add: update_keeps_def)
  then obtain st' news where r: "foldR (update_difficulty_step h nx t) (st1, out @ [(i, new)]) es
      = Inr (st', (out @ [(i, new)]) @ news)" "update_keeps h nx st1 st'" "map fst news = map fst es"
    using Cons.IH [of st1 "out @ [(i, new)]"] Cons.prems(2) by auto
  show ?case
    using s r update_keeps_trans [OF s(2) r(2)]
    by (intro exI [of _ st'] exI [of _ "(i, new) # news"]) (simp add: e)
qed

lemma UpdateRelayMiningDifficulty_total:
  assumes "heights_fit sh h" and "service_inv st" and "relays_ok st m"
  shows "\<exists>st' out. UpdateRelayMiningDifficulty h sh m st = Inr (st', out)
    \<and> update_keeps h (sess_end (GetParams sh) h + 1) st st'
    \<and> map fst out = map fst (sort_key fst m)"
proof -
  note b = heights_fit_next [OF assms(1)]
  have i: "i64 (sess_end (GetParams sh) h + 1) = sess_end (GetParams sh) h + 1"
    using b by (intro i64_id) (simp add: in_i64_def)
  have "list_all (\<lambda>(i, n). no_slash i \<and> 1 \<le> n) (sort_key fst m)"
    using relays_ok_step [OF assms(3,2)] by (simp add: list_all_iff)
  then show ?thesis
    using update_all_keeps [OF assms(2), of "sort_key fst m" h "sess_end (GetParams sh) h + 1"
        "TargetNumRelays (Service_GetParams st)" "[]"] b
    by (simp add: UpdateRelayMiningDifficulty_def i)
qed

section \<open>Reachable states\<close>

lemma service_step_inv:
  assumes "service_step sdk spendable authority s s'" and "service_inv (fst s)"
  shows "service_inv (fst s')"
  using assms
proof (cases rule: service_step.cases)
  case (add sh h msg)
  then show ?thesis using assms(2) AddService_inv by (metis prod.collapse)
next
  case (transfer tmsg st st' log)
  then show ?thesis using assms(2) TransferService_inv by simp
next
  case (difficulty sh h st m st' out log)
  then show ?thesis
    using assms(2) UpdateRelayMiningDifficulty_total [of sh h st m]
    by (auto simp: relays_ok_def update_keeps_def)
next
  case (update_param pmsg st st' log)
  then show ?thesis
    using assms(2) by (auto simp: Service_UpdateParam_def Let_def res_simps service_inv_def)
next
  case (update_params who params st st' log)
  then show ?thesis
    using assms(2) by (auto simp: Service_UpdateParams_def res_simps service_inv_def)
qed

definition service_genesis_state :: "service_params option \<Rightarrow> service_state \<times> bank_log" where
  "service_genesis_state p = (empty_service_state\<lparr>ServiceParams := p\<rparr>, [])"

lemma service_reachable_inv:
  assumes "(service_step sdk spendable authority)\<^sup>*\<^sup>* (service_genesis_state p) s"
  shows "service_inv (fst s)"
  using assms
proof (induction rule: rtranclp_induct)
  case base
  then show ?case using service_inv_empty by (simp add: service_genesis_state_def service_inv_def)
next
  case (step s s')
  then show ?case by (blast intro: service_step_inv)
qed

end
