(* ===== verification/ServiceClaims.thy ===== *)
theory ServiceClaims
  imports ServiceProps
begin

text \<open>
  The properties of the service module: the rate and the difficulty of sessions in flight, who may
  change a service, and what genesis export keeps.
\<close>

section \<open>Rates of sessions in flight\<close>

text \<open>The rate at a height is on record when an entry at or below it exists, or when the
  service has no history at all, so that its first change will seed one.\<close>

definition rate_on_record :: "service_state \<Rightarrow> string \<Rightarrow> int \<Rightarrow> bool" where
  "rate_on_record st i q \<longleftrightarrow>
     latest_at i q (CuprHistory st) \<noteq> None \<or> \<not> hasServiceComputeUnitsPerRelayHistory st i"

lemma latest_at_no_history:
  assumes "kv_prefix (StringKey i) s = []"
  shows "latest_at i q s = None"
proof -
  have "prefix (StringKey i) k" if "StringKey i \<le> k" "k < StringKey i @ PutUint64 (i64 (q + 1))" for k
    using range_prefix [OF that] by (auto simp: prefix_def)
  then have "kv_range (StringKey i) (StringKey i @ PutUint64 (i64 (q + 1))) s = []"
    using assms unfolding kv_range_def kv_prefix_def filter_empty_conv by blast
  then show ?thesis by (simp add: latest_at_def)
qed

lemma kv_prefix_other:
  assumes "no_slash i" and "no_slash j" and "i \<noteq> j" and "kv_ok s"
  shows "kv_prefix (StringKey i) (kv_set (history_key j h) v s) = [] \<longleftrightarrow> kv_prefix (StringKey i) s = []"
proof -
  have "\<not> prefix (StringKey i) (history_key j h)"
    using assms(1-3) by (simp add: history_key_def key_simps)
  then show ?thesis
    using assms(4) by (auto simp: kv_prefix_def filter_empty_conv set_kv_set)
qed

lemma latest_at_mem: "latest_at i q s = Some v \<Longrightarrow> \<exists>k. (k, v) \<in> set s"
proof -
  assume l: "latest_at i q s = Some v"
  let ?r = "kv_range (StringKey i) (StringKey i @ PutUint64 (i64 (q + 1))) s"
  obtain e rest where r: "rev ?r = e # rest" "snd e = v"
    using l by (auto simp: latest_at_def split: list.splits)
  then have "e \<in> set (rev ?r)" by simp
  then have "e \<in> set s" by (simp add: kv_range_def)
  then show ?thesis using r(2) by (metis prod.collapse)
qed

lemma history_readable:
  assumes "service_inv st" and "latest_at i q (CuprHistory st) = Some v"
  obtains u where "v = Some u" and "0 < CU_ComputeUnitsPerRelay u"
proof -
  obtain k where "(k, v) \<in> set (CuprHistory st)"
    using latest_at_mem [OF assms(2)] by blast
  then have "cupr_entry_ok (k, v)" using assms(1) by (auto simp: service_inv_def)
  then show ?thesis using that by (auto simp: cupr_entry_ok_def split: option.splits)
qed

lemma cuprs_put_other:
  assumes "service_inv st" and "no_slash i" and "no_slash j" and "0 \<le> q" and "q < 2 ^ 63 - 1"
    and "0 \<le> h" and "h < 2 ^ 63" and "i \<noteq> j \<or> q < h"
  shows "latest_at i q (CuprHistory (SetServiceComputeUnitsPerRelayAtHeight h j n st))
    = latest_at i q (CuprHistory st)"
proof -
  have "history_ok (CuprHistory st)" using assms(1) by (simp add: service_inv_def)
  then show ?thesis using cuprs.lookup_put_other [of st i q "(j, n)" h] assms by simp
qed

lemma has_history_put_other:
  assumes "service_inv st" and "no_slash i" and "no_slash j" and "i \<noteq> j"
  shows "hasServiceComputeUnitsPerRelayHistory (SetServiceComputeUnitsPerRelayAtHeight h j n st) i
    = hasServiceComputeUnitsPerRelayHistory st i"
proof -
  have "kv_ok (CuprHistory st)" using assms(1) by (simp add: service_inv_def history_ok_def)
  then show ?thesis
    using assms by (simp add: hasServiceComputeUnitsPerRelayHistory_def kv_prefix_other
        SetServiceComputeUnitsPerRelayAtHeight_def)
qed

lemma rate_entry:
  assumes "service_inv st" and "latest_at i q (CuprHistory st) \<noteq> None"
    and "latest_at i q (CuprHistory st') = latest_at i q (CuprHistory st)"
  shows "GetServiceComputeUnitsPerRelayAtHeight st' i q = GetServiceComputeUnitsPerRelayAtHeight st i q"
proof -
  obtain v where v: "latest_at i q (CuprHistory st) = Some v" using assms(2) by blast
  obtain u where "v = Some u" "0 < CU_ComputeUnitsPerRelay u" by (rule history_readable [OF assms(1) v])
  then show ?thesis using v assms(3) by (simp add: GetServiceComputeUnitsPerRelayAtHeight_def)
qed

lemma rate_same_history:
  assumes "CuprHistory st' = CuprHistory st"
    and "map_option ComputeUnitsPerRelay (GetService st' i) = map_option ComputeUnitsPerRelay (GetService st i)"
  shows "GetServiceComputeUnitsPerRelayAtHeight st' i q = GetServiceComputeUnitsPerRelayAtHeight st i q
    \<and> rate_on_record st' i q = rate_on_record st i q"
  using assms
  by (simp add: GetServiceComputeUnitsPerRelayAtHeight_def rate_on_record_def
      hasServiceComputeUnitsPerRelayHistory_def)

text \<open>Recording an entry of another service leaves the rate alone.\<close>

lemma rate_put_other:
  assumes "service_inv st" and "no_slash i" and "no_slash j" and "i \<noteq> j" and "0 \<le> q" and "q < 2 ^ 63 - 1"
    and "0 \<le> h" and "h < 2 ^ 63"
  shows "GetServiceComputeUnitsPerRelayAtHeight (SetServiceComputeUnitsPerRelayAtHeight h j n st) i q
      = GetServiceComputeUnitsPerRelayAtHeight st i q
    \<and> rate_on_record (SetServiceComputeUnitsPerRelayAtHeight h j n st) i q = rate_on_record st i q"
proof -
  have "GetService (SetServiceComputeUnitsPerRelayAtHeight h j n st) i = GetService st i"
    by (simp add: GetService_def SetServiceComputeUnitsPerRelayAtHeight_def)
  then show ?thesis
    using cuprs_put_other [OF assms(1-3,5-8)] has_history_put_other [OF assms(1-4)] assms(4)
    by (simp add: GetServiceComputeUnitsPerRelayAtHeight_def rate_on_record_def)
qed

lemma kv_prefix_lookup: "kv_prefix p s = [] \<Longrightarrow> prefix p k \<Longrightarrow> map_of s k = None"
  unfolding kv_prefix_def filter_empty_conv map_of_eq_None_iff by blast

text \<open>Recording a change of the service itself: the first one seeds the previous rate.\<close>

lemma rate_own_change:
  assumes "service_inv st" and "service_inv st1" and "CuprHistory st1 = CuprHistory st"
    and "GetService st j = Some found" and "rate_on_record st j q"
    and "1 \<le> q" and "q < nx" and "nx < 2 ^ 63 - 1"
    and "st' = SetServiceComputeUnitsPerRelayAtHeight nx j new
           (if hasServiceComputeUnitsPerRelayHistory st1 j then st1
            else SetServiceComputeUnitsPerRelayAtHeight 1 j (ComputeUnitsPerRelay found) st1)"
  shows "GetServiceComputeUnitsPerRelayAtHeight st' j q = GetServiceComputeUnitsPerRelayAtHeight st j q
    \<and> rate_on_record st' j q"
proof -
  note f = GetService_ok [OF assms(1,4)]
  let ?prev = "ComputeUnitsPerRelay found"
  have pos: "0 < ?prev" using f(2) by (simp add: service_entry_ok_def)
  have has: "hasServiceComputeUnitsPerRelayHistory st1 j = hasServiceComputeUnitsPerRelayHistory st j"
    by (simp add: hasServiceComputeUnitsPerRelayHistory_def assms(3))
  have ok1: "history_ok (CuprHistory st1)" using assms(2) by (simp add: service_inv_def)
  show ?thesis
  proof (cases "hasServiceComputeUnitsPerRelayHistory st j")
    case True
    then have on: "latest_at j q (CuprHistory st) \<noteq> None" using assms(5) by (simp add: rate_on_record_def)
    have st': "st' = SetServiceComputeUnitsPerRelayAtHeight nx j new st1"
      using True by (simp only: assms(9) has if_True)
    have same: "latest_at j q (CuprHistory st') = latest_at j q (CuprHistory st)"
      unfolding st' assms(3) [symmetric]
      by (rule cuprs_put_other [OF assms(2) f(3,3)]) (use assms(6-8) in auto)
    then show ?thesis using rate_entry [OF assms(1) on same] on by (simp add: rate_on_record_def)
  next
    case False
    let ?s = "SetServiceComputeUnitsPerRelayAtHeight 1 j ?prev st1"
    let ?u = "Some \<lparr>CU_EffectiveHeight = 1, CU_ServiceId = j, CU_ComputeUnitsPerRelay = ?prev\<rparr>"
    have none: "kv_prefix (StringKey j) (CuprHistory st1) = []"
      using False has by (simp add: hasServiceComputeUnitsPerRelayHistory_def)
    have "map_of (CuprHistory st1) (history_key j h') = None" for h'
      by (rule kv_prefix_lookup [OF none]) (unfold history_key_def, rule prefixI, rule refl)
    then have one: "latest_at j q (CuprHistory ?s) = Some ?u"
      using cuprs.lookup_put_same [OF ok1, of "(j, ?prev)" 1 q] f(3) assms(6-8) by simp
    have "service_inv ?s" using assms(2) f(3) pos by (intro SetCupr_inv) simp_all
    moreover have st': "st' = SetServiceComputeUnitsPerRelayAtHeight nx j new ?s"
      using False by (simp only: assms(9) has if_False)
    ultimately have now: "latest_at j q (CuprHistory st') = Some ?u"
      unfolding st' using cuprs_put_other [OF _ f(3,3), of ?s q nx new] assms(6-8) by (simp add: one)
    have "GetServiceComputeUnitsPerRelayAtHeight st j q = Some ?prev"
      using none assms(3,4) by (simp add: GetServiceComputeUnitsPerRelayAtHeight_def latest_at_no_history)
    then show ?thesis
      using now pos by (simp add: GetServiceComputeUnitsPerRelayAtHeight_def rate_on_record_def)
  qed
qed

text \<open>C19. Whatever service a message adds or updates, the compute units per relay of every known
  service stay what they were at every height of the session in flight and before it, wherever
  they were on record, and stay on record; a changed rate applies from the next session start. Claims
  are checked at the start of their session, so no claim in flight is priced at another rate.\<close>
theorem rate_pinned_for_sessions_in_flight:
  assumes "(service_step sdk spendable authority)\<^sup>*\<^sup>* (service_genesis_state p) (st, log)"
    and "heights_fit sh h" and "AddService sdk spendable h sh msg (st, log) = Inr (st', log')"
    and "GetService st i \<noteq> None" and "1 \<le> q" and "q \<le> sess_end (GetParams sh) h"
    and "rate_on_record st i q"
  shows "GetServiceComputeUnitsPerRelayAtHeight st' i q = GetServiceComputeUnitsPerRelayAtHeight st i q
    \<and> rate_on_record st' i q
    \<and> (case GetService st (Service_Id (MAS_Service msg)) of None \<Rightarrow> True
       | Some found \<Rightarrow> ComputeUnitsPerRelay found = ComputeUnitsPerRelay (MAS_Service msg)
          \<or> GetServiceComputeUnitsPerRelayAtHeight st' (Service_Id (MAS_Service msg))
               (sess_end (GetParams sh) h + 1) = Some (ComputeUnitsPerRelay (MAS_Service msg)))"
proof -
  let ?j = "Service_Id (MAS_Service msg)" and ?nx = "sess_end (GetParams sh) h + 1"
  have inv: "service_inv st" using service_reachable_inv [OF assms(1)] by simp
  note hs = heights_fit_next [OF assms(2)]
  have q: "0 \<le> q" "q < 2 ^ 63 - 1" using assms(5,6) hs(7) by simp_all
  have i: "no_slash i" using assms(4) GetService_ok(3) [OF inv] by blast
  have "MsgAddService_ValidateBasic sdk msg = Inr ()"
    using assms(3) by (auto simp: AddService_def Let_def res_simps)
  note v = MsgAddService_valid(1) [OF this]
  have j: "no_slash ?j" "0 < ComputeUnitsPerRelay (MAS_Service msg)"
    using v by (simp_all add: service_entry_ok_def)
  have hist: "CuprHistory (SetService s st) = CuprHistory st" for s by (simp add: SetService_def)
  show ?thesis
    using assms(3)
  proof (cases rule: AddService_cases)
    case (update found)
    have "Service_Id found = ?j" using GetService_ok(1) [OF inv update(1)] .
    then have "map_option ComputeUnitsPerRelay (GetService st' i) = map_option ComputeUnitsPerRelay (GetService st i)"
      using update by (auto simp: GetService_SetService updated_service_def)
    then show ?thesis
      using rate_same_history [of st' st i q] update assms(7) by (simp add: hist)
  next
    case (change found b)
    note f = GetService_ok [OF inv change(1)]
    let ?st1 = "SetService (updated_service found (MAS_Service msg)) st"
    have inv1: "service_inv ?st1" by (rule SetService_inv [OF inv updated_service_ok [OF f(2) v]])
    let ?s2 = "if hasServiceComputeUnitsPerRelayHistory ?st1 ?j then ?st1
            else SetServiceComputeUnitsPerRelayAtHeight 1 ?j (ComputeUnitsPerRelay found) ?st1"
    have st': "st' = SetServiceComputeUnitsPerRelayAtHeight ?nx ?j (ComputeUnitsPerRelay (MAS_Service msg)) ?s2"
      using change(6) by (simp add: SnapshotChange_eq [OF assms(2)])
    have inv2: "service_inv ?s2"
      using inv1 f SetCupr_inv [of ?st1 ?j "ComputeUnitsPerRelay found" 1] by (simp add: service_entry_ok_def)
    have "latest_at ?j ?nx (CuprHistory st') = Some (Some \<lparr>CU_EffectiveHeight = ?nx, CU_ServiceId = ?j,
        CU_ComputeUnitsPerRelay = ComputeUnitsPerRelay (MAS_Service msg)\<rparr>)"
      using cuprs.lookup_put_same [of ?s2 "(?j, ComputeUnitsPerRelay (MAS_Service msg))" ?nx ?nx]
        inv2 j(1) hs(6-8) by (simp add: st' service_inv_def)
    then have next_rate: "GetServiceComputeUnitsPerRelayAtHeight st' ?j ?nx
        = Some (ComputeUnitsPerRelay (MAS_Service msg))"
      using j(2) by (simp add: GetServiceComputeUnitsPerRelayAtHeight_def)
    have "GetServiceComputeUnitsPerRelayAtHeight st' i q = GetServiceComputeUnitsPerRelayAtHeight st i q
        \<and> rate_on_record st' i q"
    proof (cases "i = ?j")
      case True
      show ?thesis
        unfolding True
        by (rule rate_own_change [OF inv inv1 hist change(1) assms(7) [unfolded True] assms(5) _ _ st'])
          (use assms(6) hs in auto)
    next
      case False
      have "GetService ?st1 i = GetService st i"
        using False f(1) by (simp add: GetService_SetService updated_service_def)
      then have "GetServiceComputeUnitsPerRelayAtHeight ?st1 i q = GetServiceComputeUnitsPerRelayAtHeight st i q
          \<and> rate_on_record ?st1 i q = rate_on_record st i q"
        by (intro rate_same_history) (simp_all add: hist)
      moreover have "GetServiceComputeUnitsPerRelayAtHeight ?s2 i q = GetServiceComputeUnitsPerRelayAtHeight ?st1 i q
          \<and> rate_on_record ?s2 i q = rate_on_record ?st1 i q"
        using rate_put_other [OF inv1 i j(1) False q] by simp
      moreover have "GetServiceComputeUnitsPerRelayAtHeight st' i q = GetServiceComputeUnitsPerRelayAtHeight ?s2 i q
          \<and> rate_on_record st' i q = rate_on_record ?s2 i q"
        unfolding st' using rate_put_other [OF inv2 i j(1) False q] hs(6-8) by simp
      ultimately show ?thesis using assms(7) by metis
    qed
    then show ?thesis using next_rate change(1) by simp
  next
    case (create fee b)
    let ?st1 = "SetService (MAS_Service msg) st"
    have inv1: "service_inv ?st1" by (rule SetService_inv [OF inv v])
    have ne: "i \<noteq> ?j" using create(1) assms(4) by auto
    have b: "0 \<le> b" "b < 2 ^ 63" using create(4) hs by auto
    have "GetServiceComputeUnitsPerRelayAtHeight ?st1 i q = GetServiceComputeUnitsPerRelayAtHeight st i q
        \<and> rate_on_record ?st1 i q = rate_on_record st i q"
      by (intro rate_same_history) (simp_all add: hist GetService_SetService ne)
    then show ?thesis
      using rate_put_other [OF inv1 i j(1) ne q b] create assms(7) by simp
  qed
qed

definition add_msg :: "u64 \<Rightarrow> msg_add_service" where
  "add_msg cupr = \<lparr>MAS_OwnerAddress = ''o1'', MAS_Service = \<lparr>Service_Id = ''svc1'', Service_Name = ''S'',
     ComputeUnitsPerRelay = cupr, Service_OwnerAddress = ''o1'', Service_Card = None\<rparr>\<rparr>"

definition rich :: "bank_log \<Rightarrow> string \<Rightarrow> coin list" where
  "rich log a = [\<lparr>Denom = ''upokt'', Amount = 1000\<rparr>]"

definition fee_params :: service_params where
  "fee_params = \<lparr>AddServiceFee = Some \<lparr>Denom = ''upokt'', Amount = 10\<rparr>, TargetNumRelays = 100\<rparr>"

definition svc_state :: service_state where
  "svc_state = SetServiceComputeUnitsPerRelayAtHeight 1 ''svc1'' 2
     (SetService (MAS_Service (add_msg 2)) (empty_service_state\<lparr>ServiceParams := Some fee_params\<rparr>))"

definition svc_log :: bank_log where
  "svc_log = [SendFromAccountToModule ''o1'' ''service'' \<lparr>Denom = ''upokt'', Amount = 10\<rparr>]"

lemma witness_heights:
  "heights_fit witness_genesis 5" "heights_fit witness_genesis 15"
  "GetSessionStartHeight (GetParams witness_genesis) 5 = Inr 1"
  "sess_end (GetParams witness_genesis) 15 = 20"
  by code_simp+

lemma add_msg_valid: "MsgAddService_ValidateBasic plain_sdk (add_msg 2) = Inr ()"
  "MsgAddService_ValidateBasic plain_sdk (add_msg 3) = Inr ()"
  by code_simp+

lemma svc_state_reachable:
  "(service_step plain_sdk rich ''gov'')\<^sup>*\<^sup>* (service_genesis_state (Some fee_params)) (svc_state, svc_log)"
proof -
  have "AddService plain_sdk rich 5 witness_genesis (add_msg 2) (service_genesis_state (Some fee_params))
      = Inr (svc_state, svc_log)"
    unfolding AddService_def service_genesis_state_def
    by (simp add: add_msg_valid GetService_def empty_service_state_def fee_params_def rich_def
        Service_GetParams_def AmountOf_def bank_do_def SnapshotServiceComputeUnitsPerRelayCreate_def
        witness_heights svc_state_def svc_log_def Let_def)
      (simp add: plain_sdk_def add_msg_def Service_GetParams_def rich_def AmountOf_def bank_do_def
        SnapshotServiceComputeUnitsPerRelayCreate_def witness_heights Let_def)
  then show ?thesis using service_step.add [OF witness_heights(1)] by blast
qed

lemma svc_state_service: "GetService svc_state ''svc1'' = Some (MAS_Service (add_msg 2))"
  by (simp add: svc_state_def GetService_def SetServiceComputeUnitsPerRelayAtHeight_def
      SetService_def empty_service_state_def ServiceKey_def add_msg_def)

lemma svc_state_history:
  "CuprHistory svc_state = [(history_key ''svc1'' 1,
     Some \<lparr>CU_EffectiveHeight = 1, CU_ServiceId = ''svc1'', CU_ComputeUnitsPerRelay = 2\<rparr>)]"
  by (simp add: svc_state_def SetServiceComputeUnitsPerRelayAtHeight_def SetService_def
      empty_service_state_def)

lemma svc_state_latest:
  assumes "1 \<le> q" and "q < 100"
  shows "latest_at ''svc1'' q (CuprHistory svc_state)
    = Some (Some \<lparr>CU_EffectiveHeight = 1, CU_ServiceId = ''svc1'', CU_ComputeUnitsPerRelay = 2\<rparr>)"
proof -
  have "latest_at ''svc1'' q (kv_set (history_key ''svc1'' 1) v []) = Some v" for v :: "cupr_update option"
    by (rule latest_at_set_eq) (use assms in \<open>auto simp: no_slash_def\<close>)
  then show ?thesis by (simp add: svc_state_history)
qed

theorem rate_pinned_for_sessions_in_flight_witness:
  "\<exists>st'. AddService plain_sdk rich 15 witness_genesis (add_msg 3) (svc_state, svc_log) = Inr (st', svc_log)
    \<and> GetServiceComputeUnitsPerRelayAtHeight st' ''svc1'' 11 = Some 2
    \<and> GetServiceComputeUnitsPerRelayAtHeight st' ''svc1'' 21 = Some 3"
proof -
  have m: "Service_Id (MAS_Service (add_msg c)) = ''svc1''" "ComputeUnitsPerRelay (MAS_Service (add_msg c)) = c"
    "Service_OwnerAddress (MAS_Service (add_msg c)) = ''o1''" for c by (simp_all add: add_msg_def)
  obtain st' where a: "AddService plain_sdk rich 15 witness_genesis (add_msg 3) (svc_state, svc_log)
      = Inr (st', svc_log)"
    by (simp add: AddService_def Let_def add_msg_valid m svc_state_service
        SnapshotChange_eq [OF witness_heights(2)])
  have now: "GetServiceComputeUnitsPerRelayAtHeight svc_state ''svc1'' 11 = Some 2"
    by (simp add: GetServiceComputeUnitsPerRelayAtHeight_def svc_state_latest)
  have "rate_on_record svc_state ''svc1'' 11" by (simp add: rate_on_record_def svc_state_latest)
  then show ?thesis
    using rate_pinned_for_sessions_in_flight [OF svc_state_reachable witness_heights(2) a, of "''svc1''" 11]
      a now by (simp add: svc_state_service witness_heights(4) m)
qed

section \<open>Difficulties of sessions in flight\<close>

lemma difficulty_same:
  assumes "latest_at i q (DifficultyHistory st') = latest_at i q (DifficultyHistory st)"
    and "ServiceParams st' = ServiceParams st"
  shows "GetRelayMiningDifficultyAtHeight st' i q = GetRelayMiningDifficultyAtHeight st i q"
  using assms by (simp add: GetRelayMiningDifficultyAtHeight_def Service_GetParams_def)

text \<open>C20. The difficulty update of the settlement always completes: no division by a zero average
  and no unreadable entry ends it. It visits the services in the order of their IDs,
  and for every service with a history it leaves the difficulty at every height of the session in
  flight as it was; for a service without one, the difficulty before the current height.\<close>
theorem difficulty_update_spares_sessions:
  assumes "(service_step sdk spendable authority)\<^sup>*\<^sup>* (service_genesis_state p) (st, log)"
    and "heights_fit sh h" and "relays_ok st m"
  shows "\<exists>st' out. UpdateRelayMiningDifficulty h sh m st = Inr (st', out)
    \<and> map fst out = sort (map fst m)
    \<and> (\<forall>i q. no_slash i \<longrightarrow> 0 \<le> q \<longrightarrow> q \<le> sess_end (GetParams sh) h
        \<longrightarrow> q < h \<or> kv_prefix (StringKey i) (DifficultyHistory st) \<noteq> []
        \<longrightarrow> GetRelayMiningDifficultyAtHeight st' i q = GetRelayMiningDifficultyAtHeight st i q)"
proof -
  have inv: "service_inv st" using service_reachable_inv [OF assms(1)] by simp
  obtain st' out where u: "UpdateRelayMiningDifficulty h sh m st = Inr (st', out)"
    "update_keeps h (sess_end (GetParams sh) h + 1) st st'" "map fst out = map fst (sort_key fst m)"
    using UpdateRelayMiningDifficulty_total [OF assms(2) inv assms(3)] by blast
  have "map fst (sort_key fst m) = sort (map fst m)"
    by (rule properties_for_sort [symmetric]) (simp_all add: mset_map)
  moreover have "GetRelayMiningDifficultyAtHeight st' i q = GetRelayMiningDifficultyAtHeight st i q"
    if "no_slash i" "0 \<le> q" "q \<le> sess_end (GetParams sh) h"
      "q < h \<or> kv_prefix (StringKey i) (DifficultyHistory st) \<noteq> []" for i q
    using u(2) that by (intro difficulty_same) (auto simp: update_keeps_def)
  ultimately show ?thesis using u by auto
qed

theorem difficulty_update_spares_sessions_witness:
  "\<exists>st' out. UpdateRelayMiningDifficulty 15 witness_genesis [(''svc1'', 500)] svc_state = Inr (st', out)
    \<and> map fst out = [''svc1'']
    \<and> GetRelayMiningDifficultyAtHeight st' ''svc1'' 11 = GetRelayMiningDifficultyAtHeight svc_state ''svc1'' 11"
proof -
  have "relays_ok svc_state [(''svc1'', 500)]" by (simp add: relays_ok_def svc_state_service)
  from difficulty_update_spares_sessions [OF svc_state_reachable witness_heights(2) this]
  show ?thesis by (force simp: witness_heights(4) no_slash_def)
qed

text \<open>The first difficulty update of a service is not deferred to the next session: it records
  at the current height a difficulty scaled by the number of relays just seen, while up to then
  that height answered with the base difficulty. The current height may lie in a
  session in flight, or start one.\<close>
theorem first_difficulty_update_is_immediate:
  assumes "heights_fit sh h" and "service_inv st" and "GetService st i \<noteq> None"
    and "kv_prefix (StringKey i) (DifficultyHistory st) = []"
    and "map_of (DifficultyStore st) (RelayMiningDifficultyKey i) = None"
    and "0 < TargetNumRelays (Service_GetParams st)" and "TargetNumRelays (Service_GetParams st) < n"
    and "n < 2 ^ 63"
  shows "\<exists>st' out before after. UpdateRelayMiningDifficulty h sh [(i, n)] st = Inr (st', out)
    \<and> GetRelayMiningDifficultyAtHeight st i h = Inr before \<and> TargetHash before = BaseRelayDifficultyHashBz
    \<and> GetRelayMiningDifficultyAtHeight st' i h = Inr after
    \<and> TargetHash after = be_bytes 32 (min (256 ^ 32 - 1)
         ((256 ^ 32 - 1) * unat (TargetNumRelays (Service_GetParams st)) div unat n))"
proof -
  note b = heights_fit_next [OF assms(1)]
  let ?t = "TargetNumRelays (Service_GetParams st)" and ?nx = "sess_end (GetParams sh) h + 1"
  have nx: "i64 ?nx = ?nx" using b by (intro i64_id) (simp add: in_i64_def)
  have i: "no_slash i" using assms(2,3) GetService_ok(3) by blast
  have n3: "0 < n" using assms(6,7) by (rule order.strict_trans)
  then have n: "1 \<le> n" "?t \<noteq> n" "0 < n" using assms(7) by (auto simp: word_le_nat_alt word_less_nat_alt)
  have t: "?t < 2 ^ 63" using assms(7,8) by (rule order.strict_trans)
  define hash where "hash = be_bytes 32 (min (256 ^ 32 - 1) ((256 ^ 32 - 1) * unat ?t div unat n))"
  have th: "ComputeNewDifficultyTargetHash BaseRelayDifficultyHashBz ?t n = Inr hash"
    unfolding hash_def by (rule target_hash_scaled [OF assms(6) t n(3) assms(8)])
  define prev where "prev = \<lparr>RMD_ServiceId = i, RMD_BlockHeight = h, NumRelaysEma = n, TargetHash = hash\<rparr>"
  have prev: "NewDefaultRelayMiningDifficulty h i n ?t = Inr prev"
    by (simp add: NewDefaultRelayMiningDifficulty_def th prev_def)
  obtain d0 where "NewDefaultRelayMiningDifficulty h i ?t ?t = Inr d0"
    by (simp add: NewDefaultRelayMiningDifficulty_def ComputeNewDifficultyTargetHash_def)
  then have g: "GetRelayMiningDifficulty h st i = Inr (d0, False)"
    using assms(5) by (simp add: GetRelayMiningDifficulty_def Let_def)
  define e where "e = computeEma emaSmoothingFactor n n"
  have e: "1 \<le> e" unfolding e_def by (rule computeEma_pos [OF n(1,1)])
  obtain hash2 where h2: "ComputeNewDifficultyTargetHash BaseRelayDifficultyHashBz ?t e = Inr hash2"
    using ComputeNewDifficulty_total [OF e] by blast
  define new where "new = \<lparr>RMD_ServiceId = i, RMD_BlockHeight = ?nx, NumRelaysEma = e, TargetHash = hash2\<rparr>"
  have hs: "GetRelayMiningDifficultyHistoryForService st i = Inr []"
    using GetHistoryForService_eq [OF assms(2), of i] assms(4) by auto
  define st' where "st' = SetRelayMiningDifficulty new (SetRelayMiningDifficultyAtHeight ?nx new
      (SetRelayMiningDifficultyAtHeight h prev st))"
  have "update_difficulty_step h ?nx ?t (st, []) (i, n) = Inr (st', [(i, new)])"
    using prev h2 unfolding e_def
    by (simp add: update_difficulty_step_def g hs Let_def st'_def new_def e_def) (simp add: prev_def)
  then have u: "UpdateRelayMiningDifficulty h sh [(i, n)] st = Inr (st', [(i, new)])"
    by (simp add: UpdateRelayMiningDifficulty_def b(2) nx)
  have inv': "service_inv st'"
    using UpdateRelayMiningDifficulty_total [OF assms(1,2), of "[(i, n)]"] assms(3) n(1) u
    by (auto simp: relays_ok_def update_keeps_def)
  have "map_of (DifficultyHistory st') (history_key i h)
      = Some (Some \<lparr>DU_EffectiveHeight = h, DU_Difficulty = Some prev\<rparr>)"
    using i b by (simp add: st'_def SetRelayMiningDifficulty_def difficulties.entry_put new_def prev_def key_simps)
  then have "latest_at i h (DifficultyHistory st') = Some (Some \<lparr>DU_EffectiveHeight = h, DU_Difficulty = Some prev\<rparr>)"
    using inv' b by (intro latest_at_Some [OF _ i]) (auto simp: service_inv_def)
  then have after: "GetRelayMiningDifficultyAtHeight st' i h = Inr prev"
    by (simp add: GetRelayMiningDifficultyAtHeight_def)
  have "GetRelayMiningDifficultyAtHeight st i h = Inr \<lparr>RMD_ServiceId = i, RMD_BlockHeight = 0,
      NumRelaysEma = ?t, TargetHash = BaseRelayDifficultyHashBz\<rparr>"
    by (simp add: GetRelayMiningDifficultyAtHeight_def latest_at_no_history [OF assms(4)])
  then show ?thesis using u after by (simp add: prev_def hash_def)
qed

theorem first_difficulty_update_is_immediate_witness:
  "\<exists>st' out before after. UpdateRelayMiningDifficulty 11 witness_genesis [(''svc1'', 200)] svc_state = Inr (st', out)
    \<and> GetRelayMiningDifficultyAtHeight svc_state ''svc1'' 11 = Inr before
    \<and> TargetHash before = BaseRelayDifficultyHashBz
    \<and> GetRelayMiningDifficultyAtHeight st' ''svc1'' 11 = Inr after
    \<and> TargetHash after = be_bytes 32 (min (256 ^ 32 - 1)
         ((256 ^ 32 - 1) * unat (100 :: u64) div unat (200 :: u64)))"
proof -
  have h: "heights_fit witness_genesis 11" by code_simp
  have s: "DifficultyHistory svc_state = []" "DifficultyStore svc_state = []"
    "TargetNumRelays (Service_GetParams svc_state) = 100" "service_inv svc_state"
    using service_reachable_inv [OF svc_state_reachable]
    by (simp_all add: svc_state_def SetServiceComputeUnitsPerRelayAtHeight_def SetService_def
        empty_service_state_def Service_GetParams_def fee_params_def)
  show ?thesis
    using first_difficulty_update_is_immediate [OF h s(4), of "''svc1''" 200]
    by (simp add: s kv_prefix_def svc_state_service del: be_bytes.simps)
qed

section \<open>Who may change a service\<close>

lemma CuprAtHeight_store:
  "ServiceStore (SetServiceComputeUnitsPerRelayAtHeight h i n st) = ServiceStore st"
  by (simp add: SetServiceComputeUnitsPerRelayAtHeight_def)

text \<open>A stored service only ever changes by a message signed by its owner: an update, which
  keeps its identifier and its owner, or a transfer, which changes nothing but its owner.\<close>
theorem only_owner_changes_service:
  assumes "service_step sdk spendable authority (st, log) (st', log')" and "service_inv st"
    and "GetService st i = Some s" and "GetService st' i \<noteq> Some s"
  shows "(\<exists>sh h msg. AddService sdk spendable h sh msg (st, log) = Inr (st', log')
        \<and> MAS_OwnerAddress msg = Service_OwnerAddress s \<and> Service_Id (MAS_Service msg) = i
        \<and> GetService st' i = Some (updated_service s (MAS_Service msg)) \<and> log' = log)
    \<or> (\<exists>msg. TransferService sdk msg st = Inr st' \<and> MTS_OwnerAddress msg = Service_OwnerAddress s
        \<and> MTS_ServiceId msg = i
        \<and> GetService st' i = Some (s\<lparr>Service_OwnerAddress := MTS_NewOwnerAddress msg\<rparr>))"
  using assms(1)
proof (cases rule: service_step.cases)
  case (add sh h msg)
  have cupr: "GetService (SetServiceComputeUnitsPerRelayAtHeight h' j n x) k = GetService x k" for h' j n x k
    by (simp add: GetService_def CuprAtHeight_store)
  have keep: "Service_Id (updated_service f new) = Service_Id f" for f new by (simp add: updated_service_def)
  show ?thesis
    using add(2)
  proof (cases rule: AddService_cases)
    case (update found)
    then have "GetService st' i = (if i = Service_Id found then Some (updated_service found (MAS_Service msg))
        else GetService st i)" by (simp add: GetService_SetService keep)
    then show ?thesis
      using update assms(3,4) add(2) GetService_ok(1) [OF assms(2) update(1)] by (auto split: if_splits)
  next
    case (change found b)
    then have "GetService st' i = (if i = Service_Id found then Some (updated_service found (MAS_Service msg))
        else GetService st i)"
      by (auto simp: SnapshotChange_eq [OF add(1)] cupr GetService_SetService keep)
    then show ?thesis
      using change assms(3,4) add(2) GetService_ok(1) [OF assms(2) change(1)] by (auto split: if_splits)
  next
    case (create fee b)
    then show ?thesis using assms(3,4) by (auto simp: cupr GetService_SetService split: if_splits)
  qed
next
  case (transfer tmsg)
  obtain f where f: "GetService st (MTS_ServiceId tmsg) = Some f" "Service_OwnerAddress f = MTS_OwnerAddress tmsg"
    "st' = SetService (f\<lparr>Service_OwnerAddress := MTS_NewOwnerAddress tmsg\<rparr>) st"
    using transfer by (auto simp: TransferService_def res_simps split: option.splits if_splits)
  then show ?thesis
    using assms(3,4) transfer GetService_ok(1) [OF assms(2) f(1)]
    by (intro disjI2 exI [of _ tmsg]) (auto simp: GetService_SetService split: if_splits)
next
  case (difficulty sh h m out)
  then have "ServiceStore st' = ServiceStore st"
    using UpdateRelayMiningDifficulty_total [of sh h st m] assms(2)
    by (auto simp: relays_ok_def update_keeps_def)
  then show ?thesis using assms(3,4) by (simp add: GetService_def)
next
  case (update_param pmsg)
  then have "ServiceStore st' = ServiceStore st"
    by (auto simp: Service_UpdateParam_def Let_def res_simps)
  then show ?thesis using assms(3,4) by (simp add: GetService_def)
next
  case (update_params who params)
  then have "ServiceStore st' = ServiceStore st" by (auto simp: Service_UpdateParams_def res_simps)
  then show ?thesis using assms(3,4) by (simp add: GetService_def)
qed

theorem only_owner_changes_service_witness:
  "\<exists>st'. TransferService plain_sdk \<lparr>MTS_OwnerAddress = ''o1'', MTS_ServiceId = ''svc1'', MTS_NewOwnerAddress = ''o2''\<rparr> svc_state
      = Inr st'
    \<and> ((\<exists>sh h msg. AddService plain_sdk rich h sh msg (svc_state, svc_log) = Inr (st', svc_log)
        \<and> MAS_OwnerAddress msg = ''o1'' \<and> Service_Id (MAS_Service msg) = ''svc1''
        \<and> GetService st' ''svc1'' = Some (updated_service (MAS_Service (add_msg 2)) (MAS_Service msg))
        \<and> svc_log = svc_log)
      \<or> (\<exists>msg. TransferService plain_sdk msg svc_state = Inr st' \<and> MTS_OwnerAddress msg = ''o1''
        \<and> MTS_ServiceId msg = ''svc1''
        \<and> GetService st' ''svc1''
            = Some ((MAS_Service (add_msg 2))\<lparr>Service_OwnerAddress := MTS_NewOwnerAddress msg\<rparr>)))"
proof -
  let ?m = "\<lparr>MTS_OwnerAddress = ''o1'', MTS_ServiceId = ''svc1'', MTS_NewOwnerAddress = ''o2''\<rparr>"
  let ?s = "(MAS_Service (add_msg 2))\<lparr>Service_OwnerAddress := ''o2''\<rparr>"
  have o: "Service_OwnerAddress (MAS_Service (add_msg 2)) = ''o1''" by (simp add: add_msg_def)
  have t: "TransferService plain_sdk ?m svc_state = Inr (SetService ?s svc_state)"
    by (simp add: TransferService_def MsgTransferService_ValidateBasic_def svc_state_service o)
      (simp add: plain_sdk_def)
  have inv: "service_inv svc_state" using service_reachable_inv [OF svc_state_reachable] by simp
  have "GetService (SetService ?s svc_state) ''svc1'' \<noteq> Some (MAS_Service (add_msg 2))"
    by (simp add: GetService_SetService) (simp add: add_msg_def)
  from only_owner_changes_service [OF service_step.transfer [OF t] inv svc_state_service this]
  show ?thesis using t unfolding o by blast
qed

section \<open>Genesis\<close>

lemma fold_SetService:
  "fold SetService ss st = st\<lparr>ServiceStore := fold (\<lambda>s. kv_set (ServiceKey (Service_Id s)) s) ss (ServiceStore st)\<rparr>"
  by (induction ss arbitrary: st) (simp_all add: SetService_def)

lemma fold_SetDifficulty:
  "fold SetRelayMiningDifficulty ds st
    = st\<lparr>DifficultyStore := fold (\<lambda>d. kv_set (RelayMiningDifficultyKey (RMD_ServiceId d)) d) ds (DifficultyStore st)\<rparr>"
  by (induction ds arbitrary: st) (simp_all add: SetRelayMiningDifficulty_def)

lemma fold_SetCupr:
  "fold (\<lambda>u. SetServiceComputeUnitsPerRelayAtHeight (CU_EffectiveHeight u) (CU_ServiceId u)
      (CU_ComputeUnitsPerRelay u)) us st
    = st\<lparr>CuprHistory := fold (\<lambda>u. kv_set (history_key (CU_ServiceId u) (CU_EffectiveHeight u)) (Some u)) us
        (CuprHistory st)\<rparr>"
proof (induction us arbitrary: st)
  case (Cons u us)
  have "SetServiceComputeUnitsPerRelayAtHeight (CU_EffectiveHeight u) (CU_ServiceId u)
      (CU_ComputeUnitsPerRelay u) x
    = x\<lparr>CuprHistory := kv_set (history_key (CU_ServiceId u) (CU_EffectiveHeight u)) (Some u) (CuprHistory x)\<rparr>" for x
    by (cases u) (simp add: SetServiceComputeUnitsPerRelayAtHeight_def)
  then show ?case by (simp add: Cons)
qed simp

lemma rebuild_keyed:
  "keyed addr s \<Longrightarrow> fold (\<lambda>a. kv_set (StringKey (addr a)) a) (map snd s) [] = s"
proof -
  assume k: "keyed addr s"
  have "fold (\<lambda>a. kv_set (StringKey (addr a)) a) (map snd s) [] = fold (\<lambda>(k, v). kv_set k v) s []"
    unfolding fold_map by (intro fold_cong) (use k in \<open>auto simp: keyed_def fun_eq_iff\<close>)
  then show ?thesis using k kv_rebuild [of s] by (simp add: keyed_def)
qed

text \<open>C21. Importing an exported genesis restores the services, the current difficulties, the rate history and
  the parameters of a reachable state, and drops its difficulty history, which the exported
  genesis has no field for: after an export the difficulty at a past height is the base
  difficulty.\<close>
theorem service_genesis_roundtrip:
  assumes "(service_step sdk spendable authority)\<^sup>*\<^sup>* (service_genesis_state p) (st, log)"
  shows "\<exists>gs. Service_ExportGenesis st = Inr gs
    \<and> Service_InitGenesis gs empty_service_state
        = st\<lparr>DifficultyHistory := [], ServiceParams := Some (Service_GetParams st)\<rparr>"
proof -
  have inv: "service_inv st" using service_reachable_inv [OF assms] by simp
  let ?us = "map (the \<circ> snd) (CuprHistory st)"
  have entries: "\<forall>e \<in> set (CuprHistory st). cupr_entry_ok e" "kv_ok (CuprHistory st)"
    using inv by (simp_all add: service_inv_def history_ok_def)
  then have some: "\<forall>e \<in> set (CuprHistory st). snd e \<noteq> None"
    by (auto simp: cupr_entry_ok_def split: option.splits)
  have exp: "GetAllServiceComputeUnitsPerRelayHistory st = Inr ?us"
    using foldR_unmarshal [OF some, of "[]"] by (simp add: GetAllServiceComputeUnitsPerRelayHistory_def)
  have "fold (\<lambda>u. kv_set (history_key (CU_ServiceId u) (CU_EffectiveHeight u)) (Some u)) ?us []
      = fold (\<lambda>(k, v). kv_set k v) (CuprHistory st) []"
    unfolding fold_map
  proof (intro fold_cong refl ext)
    fix e acc assume "e \<in> set (CuprHistory st)"
    then have "cupr_entry_ok e" using entries by blast
    then show "((\<lambda>u. kv_set (history_key (CU_ServiceId u) (CU_EffectiveHeight u)) (Some u)) \<circ> (the \<circ> snd)) e acc
        = (case e of (k, v) \<Rightarrow> kv_set k v) acc"
      by (auto simp: cupr_entry_ok_def split: prod.splits option.splits)
  qed
  then have cu: "fold (\<lambda>u. kv_set (history_key (CU_ServiceId u) (CU_EffectiveHeight u)) (Some u)) ?us []
      = CuprHistory st"
    using kv_rebuild [OF entries(2)] by simp
  have ss: "fold (\<lambda>s. kv_set (ServiceKey (Service_Id s)) s) (map snd (ServiceStore st)) [] = ServiceStore st"
    and ds: "fold (\<lambda>d. kv_set (RelayMiningDifficultyKey (RMD_ServiceId d)) d) (map snd (DifficultyStore st)) []
      = DifficultyStore st"
    using inv rebuild_keyed [of Service_Id "ServiceStore st"] rebuild_keyed [of RMD_ServiceId "DifficultyStore st"]
    by (simp_all add: ServiceKey_def RelayMiningDifficultyKey_def service_inv_def)
  show ?thesis
    by (simp add: Service_ExportGenesis_def exp Service_InitGenesis_def Let_def fold_SetService
        fold_SetDifficulty fold_SetCupr empty_service_state_def ss ds cu del: fold_map fold_simps)
qed

theorem service_genesis_roundtrip_witness:
  "\<exists>gs. Service_ExportGenesis svc_state = Inr gs
    \<and> Service_InitGenesis gs empty_service_state
        = svc_state\<lparr>DifficultyHistory := [], ServiceParams := Some (Service_GetParams svc_state)\<rparr>"
  by (rule service_genesis_roundtrip [OF svc_state_reachable])

definition add_msg2 :: msg_add_service where
  "add_msg2 = \<lparr>MAS_OwnerAddress = ''o1'', MAS_Service = (MAS_Service (add_msg 2))\<lparr>Service_Id := ''svc2''\<rparr>\<rparr>"

text \<open>Adding services does not check that their names differ, and validating a genesis does: a state
  with two services of the same name is reachable, and the genesis exported from it is
  rejected.\<close>
theorem exported_genesis_may_not_validate:
  "\<exists>st log gs. (service_step plain_sdk rich ''gov'')\<^sup>*\<^sup>* (service_genesis_state (Some fee_params)) (st, log)
    \<and> Service_ExportGenesis st = Inr gs
    \<and> GenesisState_Validate (isBech32 plain_sdk) gs = Inl (Service ErrServiceDuplicateIndex)"
proof -
  let ?s = "MAS_Service (add_msg 2)"
  let ?st = "SetServiceComputeUnitsPerRelayAtHeight 1 ''svc2'' 2 (SetService (?s\<lparr>Service_Id := ''svc2''\<rparr>) svc_state)"
  have v: "MsgAddService_ValidateBasic plain_sdk add_msg2 = Inr ()" by code_simp
  have m: "MAS_Service add_msg2 = ?s\<lparr>Service_Id := ''svc2''\<rparr>" "MAS_OwnerAddress add_msg2 = ''o1''"
    "ComputeUnitsPerRelay ?s = 2" by (simp_all add: add_msg2_def add_msg_def)
  have none: "GetService svc_state ''svc2'' = None"
    by (simp add: svc_state_def GetService_def SetServiceComputeUnitsPerRelayAtHeight_def
        SetService_def empty_service_state_def ServiceKey_def add_msg_def)
  have fee: "AddServiceFee (Service_GetParams svc_state) = Some \<lparr>Denom = ''upokt'', Amount = 10\<rparr>"
    by (simp add: svc_state_def SetServiceComputeUnitsPerRelayAtHeight_def SetService_def
        empty_service_state_def Service_GetParams_def fee_params_def)
  have ad: "isBech32 plain_sdk ''o1''" "bankAccepts plain_sdk l c" for l c by (simp_all add: plain_sdk_def)
  have "AddService plain_sdk rich 5 witness_genesis add_msg2 (svc_state, svc_log)
      = Inr (?st, svc_log @ svc_log)"
    by (simp add: AddService_def Let_def v m none fee ad rich_def AmountOf_def bank_do_def
        SnapshotServiceComputeUnitsPerRelayCreate_def witness_heights) (simp add: svc_log_def)
  then have reach: "(service_step plain_sdk rich ''gov'')\<^sup>*\<^sup>* (service_genesis_state (Some fee_params))
      (?st, svc_log @ svc_log)"
    using svc_state_reachable service_step.add [OF witness_heights(1)] by (meson rtranclp.rtrancl_into_rtrancl)
  have inv: "service_inv ?st" using service_reachable_inv [OF reach] by simp
  have "\<forall>e \<in> set (CuprHistory ?st). snd e \<noteq> None"
    using inv by (auto simp: service_inv_def cupr_entry_ok_def split: option.splits)
  then obtain gs where gs: "Service_ExportGenesis ?st = Inr gs"
    using foldR_unmarshal [of "CuprHistory ?st" "[]"]
    by (simp add: Service_ExportGenesis_def GetAllServiceComputeUnitsPerRelayHistory_def)
  have "ServiceList gs = [?s, ?s\<lparr>Service_Id := ''svc2''\<rparr>]"
    using gs by (auto simp: Service_ExportGenesis_def res_simps CuprAtHeight_store)
      (simp add: svc_state_def SetServiceComputeUnitsPerRelayAtHeight_def
        SetService_def empty_service_state_def ServiceKey_def StringKey_def add_msg_def)
  moreover have "validateServiceList (isBech32 plain_sdk) [?s, ?s\<lparr>Service_Id := ''svc2''\<rparr>]
      = Inl (Service ErrServiceDuplicateIndex)" by code_simp
  ultimately show ?thesis using reach gs by (auto simp: GenesisState_Validate_def)
qed

end
