(* ===== verification/SupplierStore.thy ===== *)
theory SupplierStore
  imports ServiceClaims
begin

text \<open>
  The supplier module's store (\<open>x/supplier/keeper/supplier.go\<close>, \<open>supplier_index.go\<close>,
  \<open>service_config.go\<close>, \<open>x/supplier/types/keys.go\<close>): suppliers are stored without
  their service configurations, which live in a primary store of their own with three indexes
  into it; unbonding suppliers have an index too. Every key is a byte string.
\<close>

section \<open>Keys\<close>

definition SupplierOperatorKey :: "string \<Rightarrow> string" where
  "SupplierOperatorKey supplierOperatorAddr = StringKey supplierOperatorAddr"

definition SupplierOperatorServiceKey :: "string \<Rightarrow> string \<Rightarrow> string" where
  "SupplierOperatorServiceKey supplierOperatorAddr serviceId =
     StringKey supplierOperatorAddr @ StringKey serviceId"

definition ServiceConfigUpdateKey :: "service_config_update \<Rightarrow> string" where
  "ServiceConfigUpdateKey u =
     StringKey (ServiceId (SCU_Service u)) @ IntKey (ActivationHeight u) @ StringKey (SCU_OperatorAddress u)"

definition SupplierServiceConfigUpdateKey :: "service_config_update \<Rightarrow> string" where
  "SupplierServiceConfigUpdateKey u =
     StringKey (SCU_OperatorAddress u) @ StringKey (ServiceId (SCU_Service u)) @ IntKey (ActivationHeight u)"

definition ServiceConfigUpdateActivationHeightKey :: "service_config_update \<Rightarrow> string" where
  "ServiceConfigUpdateActivationHeightKey u =
     IntKey (ActivationHeight u) @ StringKey (ServiceId (SCU_Service u)) @ StringKey (SCU_OperatorAddress u)"

definition ServiceConfigUpdateDeactivationHeightKey :: "service_config_update \<Rightarrow> string" where
  "ServiceConfigUpdateDeactivationHeightKey u =
     IntKey (DeactivationHeight u) @ StringKey (ServiceId (SCU_Service u))
       @ StringKey (SCU_OperatorAddress u) @ IntKey (ActivationHeight u)"

section \<open>State\<close>

record supplier_params =
  Supplier_MinStake :: "coin option"
  StakingFee :: "coin option"

record supplier_state =
  SupplierStore :: "(string, supplier) kv"
  ConfigUpdates :: "(string, service_config_update) kv"
  OperatorIndex :: "(string, string) kv"
  ActivationIndex :: "(string, string) kv"
  DeactivationIndex :: "(string, string) kv"
  UnstakingIndex :: "(string, string) kv"
  SupplierParams :: "supplier_params option"

definition Supplier_GetParams :: "supplier_state \<Rightarrow> supplier_params" where
  "Supplier_GetParams st =
     (case SupplierParams st of None \<Rightarrow> \<lparr>Supplier_MinStake = None, StakingFee = None\<rparr> | Some p \<Rightarrow> p)"

section \<open>Indexes\<close>

text \<open>The first pass of the removal: one entry of the operator index. An entry whose primary record
  is gone is skipped.\<close>

definition remove_config_entry :: "string \<times> string \<Rightarrow> supplier_state \<Rightarrow> supplier_state" where
  "remove_config_entry e st =
     (case map_of (ConfigUpdates st) (snd e) of
        None \<Rightarrow> st
      | Some u \<Rightarrow> st\<lparr>
          ActivationIndex := kv_del (ServiceConfigUpdateActivationHeightKey u) (ActivationIndex st),
          DeactivationIndex := kv_del (ServiceConfigUpdateDeactivationHeightKey u) (DeactivationIndex st),
          ConfigUpdates := kv_del (snd e) (ConfigUpdates st)\<rparr>)"

definition removeSupplierServiceConfigUpdateIndexes :: "string \<Rightarrow> supplier_state \<Rightarrow> supplier_state" where
  "removeSupplierServiceConfigUpdateIndexes supplierOperatorAddress st =
     (let entries = kv_prefix (StringKey supplierOperatorAddress) (OperatorIndex st);
          st1 = fold remove_config_entry entries st
      in st1\<lparr>OperatorIndex := fold kv_del (map fst entries) (OperatorIndex st1)\<rparr>)"

definition index_config_update :: "service_config_update \<Rightarrow> supplier_state \<Rightarrow> supplier_state" where
  "index_config_update u st =
     (let pk = ServiceConfigUpdateKey u in st\<lparr>
        ConfigUpdates := kv_set pk u (ConfigUpdates st),
        OperatorIndex := kv_set (SupplierServiceConfigUpdateKey u) pk (OperatorIndex st),
        ActivationIndex := kv_set (ServiceConfigUpdateActivationHeightKey u) pk (ActivationIndex st),
        DeactivationIndex := (if DeactivationHeight u \<noteq> 0
           then kv_set (ServiceConfigUpdateDeactivationHeightKey u) pk (DeactivationIndex st)
           else DeactivationIndex st)\<rparr>)"

definition indexSupplierServiceConfigUpdates :: "supplier \<Rightarrow> supplier_state \<Rightarrow> supplier_state" where
  "indexSupplierServiceConfigUpdates s st =
     fold index_config_update (ServiceConfigHistory s)
       (removeSupplierServiceConfigUpdateIndexes (OperatorAddress s) st)"

definition indexSupplierUnstakingHeight :: "supplier \<Rightarrow> supplier_state \<Rightarrow> supplier_state" where
  "indexSupplierUnstakingHeight s st =
     (let supplierOperatorKey = SupplierOperatorKey (OperatorAddress s)
      in st\<lparr>UnstakingIndex :=
           (if Supplier_IsUnbonding s
            then kv_set supplierOperatorKey (OperatorAddress s) (UnstakingIndex st)
            else kv_del supplierOperatorKey (UnstakingIndex st))\<rparr>)"

definition removeSupplierUnstakingHeightIndex :: "string \<Rightarrow> supplier_state \<Rightarrow> supplier_state" where
  "removeSupplierUnstakingHeightIndex supplierOperatorAddress st =
     st\<lparr>UnstakingIndex := kv_del (SupplierOperatorKey supplierOperatorAddress) (UnstakingIndex st)\<rparr>"

text \<open>An empty service ID stands for all services.\<close>

definition getSupplierServiceConfigUpdates ::
    "supplier_state \<Rightarrow> string \<Rightarrow> string \<Rightarrow> service_config_update list" where
  "getSupplierServiceConfigUpdates st supplierOperatorAddress serviceId =
     (let key = (if serviceId = '''' then SupplierOperatorKey supplierOperatorAddress
                 else SupplierOperatorServiceKey supplierOperatorAddress serviceId)
      in List.map_filter (\<lambda>e. map_of (ConfigUpdates st) (snd e)) (kv_prefix key (OperatorIndex st)))"

section \<open>Suppliers\<close>

definition SetDehydratedSupplier :: "supplier \<Rightarrow> supplier_state \<Rightarrow> supplier_state" where
  "SetDehydratedSupplier s st =
     st\<lparr>SupplierStore := kv_set (SupplierOperatorKey (OperatorAddress s))
          (s\<lparr>Services := [], ServiceConfigHistory := []\<rparr>) (SupplierStore st)\<rparr>"

definition SetAndIndexDehydratedSupplier :: "supplier \<Rightarrow> supplier_state \<Rightarrow> supplier_state" where
  "SetAndIndexDehydratedSupplier s st =
     SetDehydratedSupplier s (indexSupplierUnstakingHeight s (indexSupplierServiceConfigUpdates s st))"

definition GetDehydratedSupplier :: "supplier_state \<Rightarrow> string \<Rightarrow> supplier option" where
  "GetDehydratedSupplier st supplierOperatorAddr =
     map_of (SupplierStore st) (SupplierOperatorKey supplierOperatorAddr)"

definition hydrateFullSupplierServiceConfigs :: "supplier_state \<Rightarrow> int \<Rightarrow> supplier \<Rightarrow> supplier" where
  "hydrateFullSupplierServiceConfigs st currentHeight s =
     (let history = getSupplierServiceConfigUpdates st (OperatorAddress s) '''';
          s' = s\<lparr>ServiceConfigHistory := history\<rparr>
      in s'\<lparr>Services := Supplier_GetActiveServiceConfigs s' currentHeight\<rparr>)"

definition hydratePartialDehydratedSupplierServiceConfigs ::
    "supplier_state \<Rightarrow> int \<Rightarrow> supplier \<Rightarrow> supplier" where
  "hydratePartialDehydratedSupplierServiceConfigs st currentHeight s =
     (let history = getSupplierServiceConfigUpdates st (OperatorAddress s) '''';
          activeServices = GetActiveServiceConfigsFromHistory history currentHeight
      in s\<lparr>Services := map (\<lambda>c. c\<lparr>RevShare := []\<rparr>) activeServices, ServiceConfigHistory := []\<rparr>)"

definition GetSupplier :: "supplier_state \<Rightarrow> int \<Rightarrow> string \<Rightarrow> supplier option" where
  "GetSupplier st currentHeight supplierOperatorAddr =
     map_option (hydrateFullSupplierServiceConfigs st currentHeight)
       (GetDehydratedSupplier st supplierOperatorAddr)"

definition RemoveSupplier :: "string \<Rightarrow> supplier_state \<Rightarrow> supplier_state" where
  "RemoveSupplier supplierOperatorAddress st =
     (let st1 = removeSupplierServiceConfigUpdateIndexes supplierOperatorAddress st;
          st2 = removeSupplierUnstakingHeightIndex supplierOperatorAddress st1
      in st2\<lparr>SupplierStore := kv_del (SupplierOperatorKey supplierOperatorAddress) (SupplierStore st2)\<rparr>)"

definition GetAllSuppliers :: "supplier_state \<Rightarrow> int \<Rightarrow> supplier list" where
  "GetAllSuppliers st currentHeight =
     map (\<lambda>e. hydrateFullSupplierServiceConfigs st currentHeight (snd e)) (SupplierStore st)"

text \<open>The values of the unstaking index: the operator addresses.\<close>

definition GetAllUnstakingSuppliersIterator :: "supplier_state \<Rightarrow> string list" where
  "GetAllUnstakingSuppliersIterator st = map snd (UnstakingIndex st)"

definition GetSupplierActiveServiceConfig ::
    "supplier_state \<Rightarrow> int \<Rightarrow> supplier \<Rightarrow> string \<Rightarrow> supplier_service_config list" where
  "GetSupplierActiveServiceConfig st currentHeight s serviceId =
     GetActiveServiceConfigsFromHistory
       (getSupplierServiceConfigUpdates st (OperatorAddress s) serviceId) currentHeight"

text \<open>The single-supplier query: the operator address and the dehydrated flag.\<close>

definition Query_Supplier :: "supplier_state \<Rightarrow> int \<Rightarrow> (string \<times> bool) option \<Rightarrow> supplier res" where
  "Query_Supplier st currentHeight req =
     (case req of None \<Rightarrow> Inl (Status InvalidArgument ErrFmt)
      | Some (operatorAddress, dehydratedFlag) \<Rightarrow>
          (case GetDehydratedSupplier st operatorAddress of
             None \<Rightarrow> Inl (Status NotFound (Supplier ErrSupplierNotFound))
           | Some s \<Rightarrow> Inr (if dehydratedFlag
               then hydratePartialDehydratedSupplierServiceConfigs st currentHeight s
               else hydrateFullSupplierServiceConfigs st currentHeight s)))"

section \<open>Iterators over configurations\<close>

text \<open>A range of the primary store, and the primary keys an index lists.\<close>

definition GetServiceConfigUpdatesIterator ::
    "supplier_state \<Rightarrow> string \<Rightarrow> int \<Rightarrow> service_config_update list" where
  "GetServiceConfigUpdatesIterator st serviceId currentHeight =
     map snd (kv_range (StringKey serviceId)
       (StringKey serviceId @ PutUint64 (i64 (currentHeight + 1))) (ConfigUpdates st))"

definition serviceConfigUpdateFromPrimaryKey :: "supplier_state \<Rightarrow> string \<Rightarrow> service_config_update option" where
  "serviceConfigUpdateFromPrimaryKey st primaryKey = map_of (ConfigUpdates st) primaryKey"

definition GetActivatedServiceConfigUpdatesIterator :: "supplier_state \<Rightarrow> int \<Rightarrow> string list" where
  "GetActivatedServiceConfigUpdatesIterator st activationHeight =
     map snd (kv_prefix (IntKey activationHeight) (ActivationIndex st))"

definition GetDeactivatedServiceConfigUpdatesIterator :: "supplier_state \<Rightarrow> int \<Rightarrow> string list" where
  "GetDeactivatedServiceConfigUpdatesIterator st deactivationHeight =
     map snd (kv_prefix (IntKey deactivationHeight) (DeactivationIndex st))"

definition GetDeactivatedServiceConfigUpdatesRangeIterator :: "supplier_state \<Rightarrow> int \<Rightarrow> string list" where
  "GetDeactivatedServiceConfigUpdatesRangeIterator st maxDeactivationHeight =
     map snd (filter (\<lambda>e. fst e < PutUint64 (i64 (maxDeactivationHeight + 1))) (DeactivationIndex st))"

definition deleteDeactivatedServiceConfigUpdate ::
    "service_config_update \<Rightarrow> supplier_state \<Rightarrow> supplier_state" where
  "deleteDeactivatedServiceConfigUpdate u st = st\<lparr>
     ConfigUpdates := kv_del (ServiceConfigUpdateKey u) (ConfigUpdates st),
     OperatorIndex := kv_del (SupplierServiceConfigUpdateKey u) (OperatorIndex st),
     ActivationIndex := kv_del (ServiceConfigUpdateActivationHeightKey u) (ActivationIndex st),
     DeactivationIndex := kv_del (ServiceConfigUpdateDeactivationHeightKey u) (DeactivationIndex st)\<rparr>"

section \<open>Repairs\<close>

text \<open>The move of the operator index to its current key format: every entry present when the
  iterator was opened is deleted after the new ones are set.\<close>

definition migrate_operator_entry ::
    "supplier_state \<Rightarrow> string \<times> string \<Rightarrow> (string, string) kv \<Rightarrow> (string, string) kv" where
  "migrate_operator_entry st e idx =
     (case map_of (ConfigUpdates st) (snd e) of None \<Rightarrow> idx
      | Some u \<Rightarrow> kv_set (SupplierServiceConfigUpdateKey u) (snd e) idx)"

definition MigrateSupplierServiceConfigIndexes :: "supplier_state \<Rightarrow> supplier_state" where
  "MigrateSupplierServiceConfigIndexes st =
     (let entries = OperatorIndex st;
          idx = fold (migrate_operator_entry st) entries (OperatorIndex st)
      in st\<lparr>OperatorIndex := fold kv_del (map fst entries) idx\<rparr>)"

text \<open>\<open>CleanupOrphanedServiceConfigIndexes\<close>: index entries whose primary record is gone.\<close>

definition cleanOrphanedIndex :: "(string, string) kv \<Rightarrow> string list \<Rightarrow> (string, string) kv \<times> nat" where
  "cleanOrphanedIndex indexStore validKeys =
     (let toDelete = map fst (filter (\<lambda>e. snd e \<notin> set validKeys) indexStore)
      in (fold kv_del toDelete indexStore, length toDelete))"

definition CleanupOrphanedServiceConfigIndexes :: "supplier_state \<Rightarrow> supplier_state \<times> nat \<times> nat \<times> nat" where
  "CleanupOrphanedServiceConfigIndexes st =
     (let validKeys = map fst (ConfigUpdates st);
          act = cleanOrphanedIndex (ActivationIndex st) validKeys;
          deact = cleanOrphanedIndex (DeactivationIndex st) validKeys;
          supp = cleanOrphanedIndex (OperatorIndex st) validKeys
      in (st\<lparr>ActivationIndex := fst act, DeactivationIndex := fst deact, OperatorIndex := fst supp\<rparr>,
          snd act, snd deact, snd supp))"

definition hasDuplicateRevShareAddresses :: "revenue_share option list \<Rightarrow> bool" where
  "hasDuplicateRevShareAddresses revShares \<longleftrightarrow>
     \<not> distinct (map RevShareAddress (List.map_filter (\<lambda>r. r) revShares))"

text \<open>The sum is a \<open>uint64\<close>; addresses keep the order of their first occurrence.\<close>

definition mergeRevShareDuplicates :: "revenue_share option list \<Rightarrow> revenue_share option list" where
  "mergeRevShareDuplicates revShares =
     (let shares = List.map_filter (\<lambda>r. r) revShares;
          order = rev (remdups (rev (map RevShareAddress shares)))
      in map (\<lambda>addr. Some \<lparr>RevShareAddress = addr,
           RevSharePercentage =
             sum_list (map RevSharePercentage (filter (\<lambda>r. RevShareAddress r = addr) shares))\<rparr>) order)"

definition deduplicateSupplierConfigHistory :: "supplier \<Rightarrow> supplier \<times> bool" where
  "deduplicateSupplierConfigHistory s =
     (s\<lparr>ServiceConfigHistory := map (\<lambda>u.
          if hasDuplicateRevShareAddresses (RevShare (SCU_Service u))
          then u\<lparr>SCU_Service := (SCU_Service u)\<lparr>RevShare :=
                 mergeRevShareDuplicates (RevShare (SCU_Service u))\<rparr>\<rparr>
          else u) (ServiceConfigHistory s)\<rparr>,
      list_ex (\<lambda>u. hasDuplicateRevShareAddresses (RevShare (SCU_Service u))) (ServiceConfigHistory s))"

definition DeduplicateSupplierRevShareAddresses :: "int \<Rightarrow> supplier_state \<Rightarrow> supplier_state \<times> nat" where
  "DeduplicateSupplierRevShareAddresses currentHeight st =
     fold (\<lambda>s (st, modifiedCount).
         case deduplicateSupplierConfigHistory s of (s', modified) \<Rightarrow>
           if modified then (SetAndIndexDehydratedSupplier s' st, modifiedCount + 1)
           else (st, modifiedCount))
       (GetAllSuppliers st currentHeight) (st, 0)"

section \<open>Genesis\<close>

record supplier_genesis =
  SupplierList :: "supplier list"
  GenesisSupplierParams :: supplier_params

definition genesis_supplier :: "supplier \<Rightarrow> supplier" where
  "genesis_supplier s =
     (if length (ServiceConfigHistory s) = 0
      then s\<lparr>ServiceConfigHistory := map (\<lambda>c. \<lparr>SCU_OperatorAddress = OperatorAddress s,
             SCU_Service = c, ActivationHeight = 1, DeactivationHeight = 0\<rparr>) (Services s)\<rparr>
      else s)"

definition Supplier_InitGenesis :: "supplier_genesis \<Rightarrow> supplier_state \<Rightarrow> supplier_state" where
  "Supplier_InitGenesis gs st =
     (fold (\<lambda>s. SetAndIndexDehydratedSupplier (genesis_supplier s)) (SupplierList gs) st)
       \<lparr>SupplierParams := Some (GenesisSupplierParams gs)\<rparr>"

definition Supplier_ExportGenesis :: "supplier_state \<Rightarrow> int \<Rightarrow> supplier_genesis" where
  "Supplier_ExportGenesis st currentHeight =
     \<lparr>SupplierList = GetAllSuppliers st currentHeight, GenesisSupplierParams = Supplier_GetParams st\<rparr>"

definition empty_supplier_state :: supplier_state where
  "empty_supplier_state = \<lparr>SupplierStore = [], ConfigUpdates = [], OperatorIndex = [],
     ActivationIndex = [], DeactivationIndex = [], UnstakingIndex = [], SupplierParams = None\<rparr>"

end
