(* ===== verification/SupplierHandlers.thy ===== *)
theory SupplierHandlers
  imports SupplierStore
begin

text \<open>
  The supplier module's messages (\<open>x/supplier/keeper/msg_server_stake_supplier.go\<close>,
  \<open>msg_server_unstake_supplier.go\<close>, \<open>msg_server_update_param.go\<close>,
  \<open>msg_update_params.go\<close>) and its parameters. The height, the shared state and the service
  state are read-only arguments; the module's state and the bank log are threaded. Whether an
  account is a module account, and how a URL parses, are parameters.
\<close>

type_synonym supplier_ctx = "supplier_state \<times> bank_log"

section \<open>Stateless checks\<close>

record msg_stake_supplier =
  MSS_Signer :: string
  MSS_OwnerAddress :: string
  MSS_OperatorAddress :: string
  MSS_Stake :: "coin option"
  MSS_Services :: "supplier_service_config option list"

definition ValidatePositiveuPOKT :: "sdk \<Rightarrow> coin \<Rightarrow> unit res" where
  "ValidatePositiveuPOKT sdk coinStr =
     (case parseCoinNormalized sdk coinStr of (c, failed) \<Rightarrow>
        if failed then Inl ErrFmt
        else if \<not> coinIsValid sdk c then Inl ErrFmt
        else if Amount c = 0 \<or> Amount c < 0 then Inl ErrFmt
        else if Denom c \<noteq> DenomuPOKT then Inl ErrFmt
        else Inr ())"

definition MSS_IsSigner :: "msg_stake_supplier \<Rightarrow> string \<Rightarrow> bool" where
  "MSS_IsSigner msg address \<longleftrightarrow> address = MSS_Signer msg"

definition MsgStakeSupplier_ValidateBasic ::
    "sdk \<Rightarrow> (string \<Rightarrow> (string \<times> string) option) \<Rightarrow> msg_stake_supplier \<Rightarrow> unit res" where
  "MsgStakeSupplier_ValidateBasic sdk urlParse msg =
     (if \<not> isBech32 sdk (MSS_OwnerAddress msg) then Inl (Supplier ErrSupplierInvalidAddress)
      else if \<not> isBech32 sdk (MSS_OperatorAddress msg) then Inl (Supplier ErrSupplierInvalidAddress)
      else if \<not> isBech32 sdk (MSS_Signer msg) then Inl (Supplier ErrSupplierInvalidAddress)
      else bindR (case MSS_Stake msg of None \<Rightarrow> Inr ()
             | Some c \<Rightarrow> mapErr (\<lambda>_. Supplier ErrSupplierInvalidStake) (ValidatePositiveuPOKT sdk c)) (\<lambda>_.
        if length (MSS_Services msg) \<noteq> 0 \<and> \<not> MSS_IsSigner msg (MSS_OperatorAddress msg)
          then Inl (Supplier ErrSupplierInvalidServiceConfig)
        else if length (MSS_Services msg) \<noteq> 0
          then mapErr (\<lambda>_. Supplier ErrSupplierInvalidServiceConfig)
                 (ValidateSupplierServiceConfigs (isBech32 sdk) urlParse (MSS_Services msg))
        else Inr ()))"

definition MsgUnstakeSupplier_ValidateBasic :: "sdk \<Rightarrow> string \<Rightarrow> string \<Rightarrow> unit res" where
  "MsgUnstakeSupplier_ValidateBasic sdk signer operatorAddress =
     (if \<not> isBech32 sdk signer then Inl (Supplier ErrSupplierInvalidAddress)
      else if \<not> isBech32 sdk operatorAddress then Inl (Supplier ErrSupplierInvalidAddress)
      else Inr ())"

section \<open>Creating and updating a supplier\<close>

definition msg_services :: "msg_stake_supplier \<Rightarrow> supplier_service_config list" where
  "msg_services msg = List.map_filter (\<lambda>c. c) (MSS_Services msg)"

definition new_config_updates ::
    "string \<Rightarrow> int \<Rightarrow> supplier_service_config list \<Rightarrow> service_config_update list" where
  "new_config_updates operatorAddress nextSessionStartHeight services =
     map (\<lambda>c. \<lparr>SCU_OperatorAddress = operatorAddress, SCU_Service = c,
        ActivationHeight = nextSessionStartHeight, DeactivationHeight = 0\<rparr>) services"

definition createSupplier :: "int \<Rightarrow> shared_state \<Rightarrow> msg_stake_supplier \<Rightarrow> coin \<Rightarrow> supplier res" where
  "createSupplier currentHeight sh msg stake =
     bindR (GetNextSessionStartHeight (GetParams sh) currentHeight) (\<lambda>nextSessionStartHeight.
       Inr \<lparr>OwnerAddress = MSS_OwnerAddress msg, OperatorAddress = MSS_OperatorAddress msg,
            Supplier_Stake = stake, Services = [], Supplier_UnstakeSessionEndHeight = 0,
            ServiceConfigHistory = new_config_updates (MSS_OperatorAddress msg)
              nextSessionStartHeight (msg_services msg)\<rparr>)"

text \<open>The old entries that stay: those the new configuration does not replace before they
  activate, closed at the boundary when they are open.\<close>

definition close_config :: "int \<Rightarrow> service_config_update \<Rightarrow> service_config_update" where
  "close_config nextSessionStartHeight u =
     (if DeactivationHeight u = 0 then u\<lparr>DeactivationHeight := nextSessionStartHeight\<rparr> else u)"

definition kept_configs ::
    "int \<Rightarrow> string list \<Rightarrow> service_config_update list \<Rightarrow> service_config_update list" where
  "kept_configs nextSessionStartHeight updatedServices history =
     map (close_config nextSessionStartHeight)
       (filter (\<lambda>u. \<not> (ActivationHeight u = nextSessionStartHeight
                      \<and> ServiceId (SCU_Service u) \<in> set updatedServices)) history)"

definition updateSupplier :: "int \<Rightarrow> shared_state \<Rightarrow> msg_stake_supplier \<Rightarrow> supplier \<Rightarrow> supplier res" where
  "updateSupplier currentHeight sh msg s =
     (let stake = (case MSS_Stake msg of None \<Rightarrow> Supplier_Stake s | Some c \<Rightarrow> c);
          s' = s\<lparr>Supplier_Stake := stake, OwnerAddress := MSS_OwnerAddress msg\<rparr>
      in if length (MSS_Services msg) = 0 then Inr s'
         else bindR (GetNextSessionStartHeight (GetParams sh) currentHeight) (\<lambda>nextSessionStartHeight.
           Inr (s'\<lparr>ServiceConfigHistory :=
              new_config_updates (MSS_OperatorAddress msg) nextSessionStartHeight (msg_services msg)
              @ kept_configs nextSessionStartHeight (map ServiceId (msg_services msg))
                  (ServiceConfigHistory s')\<rparr>)))"

text \<open>The supplier to store, and the stake it had before.\<close>

definition staked_supplier ::
    "int \<Rightarrow> shared_state \<Rightarrow> msg_stake_supplier \<Rightarrow> supplier option \<Rightarrow> (supplier \<times> coin) res" where
  "staked_supplier currentHeight sh msg found =
     (case found of
        None \<Rightarrow>
          (case MSS_Stake msg of
             None \<Rightarrow> Inl (Status InvalidArgument (Supplier ErrSupplierInvalidStake))
           | Some stake \<Rightarrow> bindR (createSupplier currentHeight sh msg stake) (\<lambda>s.
               Inr (s, \<lparr>Denom = DenomuPOKT, Amount = 0\<rparr>)))
      | Some s \<Rightarrow>
          if \<not> MSS_IsSigner msg (OwnerAddress s) \<and> \<not> MSS_IsSigner msg (OperatorAddress s)
            then Inl (Status InvalidArgument (Shared ErrSharedUnauthorizedSupplierUpdate))
          else if \<not> HasOwner s (MSS_OwnerAddress msg) \<and> \<not> MSS_IsSigner msg (OwnerAddress s)
            then Inl (Status InvalidArgument (Shared ErrSharedUnauthorizedSupplierUpdate))
          else if \<not> HasOperator s (MSS_OperatorAddress msg)
            then Inl (Status InvalidArgument (Shared ErrSharedUnauthorizedSupplierUpdate))
          else if \<not> MSS_IsSigner msg (OperatorAddress s) \<and> length (MSS_Services msg) > 0
            then Inl (Status InvalidArgument (Shared ErrSharedUnauthorizedSupplierUpdate))
          else bindR (mapErr (Status InvalidArgument) (updateSupplier currentHeight sh msg s)) (\<lambda>s'.
            if Supplier_UnstakeSessionEndHeight s' \<noteq> 0 then
              (if \<not> MSS_IsSigner msg (OwnerAddress s)
               then Inl (Status PermissionDenied (Shared ErrSharedUnauthorizedSupplierUpdate))
               else Inr (s'\<lparr>Supplier_UnstakeSessionEndHeight := 0\<rparr>, Supplier_Stake s))
            else Inr (s', Supplier_Stake s)))"

section \<open>Staking\<close>

text \<open>\<open>Coin.Sub\<close> panics where \<open>SafeSub\<close> fails.\<close>

definition Coin_Sub :: "sdk \<Rightarrow> coin \<Rightarrow> coin \<Rightarrow> coin res" where
  "Coin_Sub sdk a b = (case coinSafeSub sdk a b of Inl e \<Rightarrow> Inl Panic | Inr c \<Rightarrow> Inr c)"

text \<open>The new stake is the message's, or the stored one when the message has none.\<close>

definition reconcileSupplierStakeDiff ::
    "sdk \<Rightarrow> supplier_params \<Rightarrow> msg_stake_supplier \<Rightarrow> coin \<Rightarrow> coin \<Rightarrow> bank_log \<Rightarrow> bank_log res" where
  "reconcileSupplierStakeDiff sdk p msg newStake currentStake log =
     (if \<not> isBech32 sdk (MSS_Signer msg) then Inl ErrExt
      else if \<not> isBech32 sdk (MSS_OwnerAddress msg) then Inl ErrExt
      else if Amount currentStake < Amount newStake then
        bindR (Coin_Sub sdk newStake currentStake) (\<lambda>coinsToEscrow.
          bank_do sdk (SendFromAccountToModule (MSS_Signer msg) ''supplier'' coinsToEscrow) log)
      else case Supplier_MinStake p of None \<Rightarrow> Inl Panic
      | Some minStake \<Rightarrow>
          if Amount newStake < Amount minStake then Inl (Supplier ErrSupplierInvalidStake)
          else if Amount currentStake > Amount newStake then
            bindR (Coin_Sub sdk currentStake newStake) (\<lambda>coinsToUnescrow.
              bank_do sdk (SendFromModuleToAccount ''supplier'' (MSS_OwnerAddress msg) coinsToUnescrow) log)
          else Inr log)"

definition supplier_service_exists :: "service_state \<Rightarrow> supplier_service_config option \<Rightarrow> unit res" where
  "supplier_service_exists svc c =
     (case c of None \<Rightarrow> Inl Panic
      | Some sc \<Rightarrow>
          if GetService svc (ServiceId sc) = None
          then Inl (Status InvalidArgument (Supplier ErrSupplierServiceNotFound)) else Inr ())"

definition StakeSupplier ::
    "sdk \<Rightarrow> (string \<Rightarrow> (string \<times> string) option) \<Rightarrow> (string \<Rightarrow> bool) \<Rightarrow> int \<Rightarrow> shared_state
     \<Rightarrow> service_state \<Rightarrow> msg_stake_supplier \<Rightarrow> supplier_ctx \<Rightarrow> supplier_ctx res" where
  "StakeSupplier sdk urlParse isModuleAccount height sh svc msg = (\<lambda>(st, log).
     bindR (mapErr (Status InvalidArgument) (MsgStakeSupplier_ValidateBasic sdk urlParse msg)) (\<lambda>_.
     if isModuleAccount (MSS_OwnerAddress msg)
       then Inl (Status InvalidArgument (Supplier ErrSupplierInvalidAddress))
     else bindR (forR (supplier_service_exists svc) (MSS_Services msg)) (\<lambda>_.
     bindR (staked_supplier height sh msg (GetSupplier st height (MSS_OperatorAddress msg)))
       (\<lambda>(s, supplierCurrentStake).
     let p = Supplier_GetParams st; stake = Supplier_Stake s
     in case Supplier_MinStake p of None \<Rightarrow> Inl Panic
     | Some minStake \<Rightarrow>
         if Amount stake < Amount minStake
           then Inl (Status InvalidArgument (Supplier ErrSupplierInvalidStake))
         else if \<not> isBech32 sdk (MSS_Signer msg) then Inl (Status InvalidArgument ErrExt)
         else bindR (mapErr (Status Internal)
                (reconcileSupplierStakeDiff sdk p msg stake supplierCurrentStake log)) (\<lambda>log1.
         case StakingFee p of None \<Rightarrow> Inl Panic
         | Some fee \<Rightarrow>
             bindR (mapErr (Status FailedPrecondition) (bank_do sdk
                (SendFromAccountToModule (MSS_Signer msg) ''supplier'' fee) log1)) (\<lambda>log2.
             let st' = SetAndIndexDehydratedSupplier s st
             in bindR (Keeper_GetSessionEndHeight sh height) (\<lambda>_. Inr (st', log2))))))))"

section \<open>Unstaking\<close>

definition unstaked_supplier :: "int \<Rightarrow> int \<Rightarrow> supplier \<Rightarrow> supplier" where
  "unstaked_supplier sessionEndHeight nextSessionStartHeight s =
     s\<lparr>Supplier_UnstakeSessionEndHeight := uint64_of sessionEndHeight,
       ServiceConfigHistory := map (\<lambda>u. u\<lparr>DeactivationHeight := nextSessionStartHeight\<rparr>)
         (ServiceConfigHistory s)\<rparr>"

definition UnstakeSupplier ::
    "sdk \<Rightarrow> int \<Rightarrow> shared_state \<Rightarrow> string \<Rightarrow> string \<Rightarrow> supplier_ctx \<Rightarrow> supplier_ctx res" where
  "UnstakeSupplier sdk currentHeight sh signer operatorAddress = (\<lambda>(st, log).
     bindR (mapErr (Status InvalidArgument)
              (MsgUnstakeSupplier_ValidateBasic sdk signer operatorAddress)) (\<lambda>_.
     case GetSupplier st currentHeight operatorAddress of
       None \<Rightarrow> Inl (Status NotFound (Supplier ErrSupplierNotFound))
     | Some s \<Rightarrow>
         if \<not> HasOperator s signer \<and> \<not> HasOwner s signer
           then Inl (Status PermissionDenied (Shared ErrSharedUnauthorizedSupplierUpdate))
         else if Supplier_IsUnbonding s
           then Inl (Status FailedPrecondition (Supplier ErrSupplierIsUnstaking))
         else bindR (GetSessionEndHeight (GetParams sh) currentHeight) (\<lambda>sessionEndHeight.
           bindR (GetNextSessionStartHeight (GetParams sh) currentHeight) (\<lambda>nextSessionStartHeight.
           Inr (SetAndIndexDehydratedSupplier
                  (unstaked_supplier sessionEndHeight nextSessionStartHeight s) st, log)))))"

section \<open>Parameters\<close>

definition Supplier_SetParams :: "supplier_params \<Rightarrow> supplier_state \<Rightarrow> supplier_state" where
  "Supplier_SetParams p st = st\<lparr>SupplierParams := Some p\<rparr>"

definition paramAsPositiveuPOKT :: "coin option \<Rightarrow> coin res" where
  "paramAsPositiveuPOKT paramCoin =
     (case paramCoin of None \<Rightarrow> Inl (Supplier ErrSupplierParamInvalid)
      | Some c \<Rightarrow>
          if Denom c \<noteq> DenomuPOKT then Inl (Supplier ErrSupplierParamInvalid)
          else if Amount c < 0 then Inl (Supplier ErrSupplierParamInvalid)
          else Inr c)"

definition Supplier_ValidateMinStake :: "coin option \<Rightarrow> unit res" where
  "Supplier_ValidateMinStake minStake =
     bindR (paramAsPositiveuPOKT minStake) (\<lambda>c.
       if Amount c = 0 then Inl (Supplier ErrSupplierParamInvalid) else Inr ())"

definition ValidateStakingFee :: "coin option \<Rightarrow> unit res" where
  "ValidateStakingFee stakingFee = bindR (paramAsPositiveuPOKT stakingFee) (\<lambda>_. Inr ())"

definition Supplier_Params_Validate :: "supplier_params \<Rightarrow> unit res" where
  "Supplier_Params_Validate p =
     bindR (Supplier_ValidateMinStake (Supplier_MinStake p)) (\<lambda>_.
     bindR (ValidateStakingFee (StakingFee p)) (\<lambda>_. Inr ()))"

text \<open>\<open>AsType\<close> is nil or holds a coin, itself possibly nil.\<close>

record msg_supplier_update_param =
  MSU_Sup_Authority :: string
  MSU_Sup_Name :: string
  MSU_Sup_AsType :: "coin option option"

definition MsgSupplierUpdateParam_ValidateBasic :: "sdk \<Rightarrow> msg_supplier_update_param \<Rightarrow> unit res" where
  "MsgSupplierUpdateParam_ValidateBasic sdk msg =
     (if \<not> isBech32 sdk (MSU_Sup_Authority msg) then Inl ErrExt
      else case MSU_Sup_AsType msg of None \<Rightarrow> Inl (Supplier ErrSupplierParamInvalid)
      | Some asCoin \<Rightarrow>
          if MSU_Sup_Name msg = ''min_stake'' then Supplier_ValidateMinStake asCoin
          else if MSU_Sup_Name msg = ''staking_fee'' then ValidateStakingFee asCoin
          else Inl (Supplier ErrSupplierParamInvalid))"

definition Supplier_UpdateParam ::
    "sdk \<Rightarrow> string \<Rightarrow> msg_supplier_update_param \<Rightarrow> supplier_state \<Rightarrow> supplier_state res" where
  "Supplier_UpdateParam sdk authority msg st =
     bindR (mapErr (Status InvalidArgument) (MsgSupplierUpdateParam_ValidateBasic sdk msg)) (\<lambda>_.
     if authority \<noteq> MSU_Sup_Authority msg
       then Inl (Status InvalidArgument (Supplier ErrSupplierInvalidSigner))
     else
       let asCoin = (case MSU_Sup_AsType msg of None \<Rightarrow> None | Some c \<Rightarrow> c)
       in bindR
         (if MSU_Sup_Name msg = ''min_stake''
            then Inr ((Supplier_GetParams st)\<lparr>Supplier_MinStake := asCoin\<rparr>)
          else if MSU_Sup_Name msg = ''staking_fee''
            then Inr ((Supplier_GetParams st)\<lparr>StakingFee := asCoin\<rparr>)
          else Inl (Status InvalidArgument (Supplier ErrSupplierParamInvalid))) (\<lambda>params.
       bindR (mapErr (Status InvalidArgument) (Supplier_Params_Validate params)) (\<lambda>_.
       Inr (Supplier_SetParams params st))))"

definition Supplier_UpdateParams ::
    "sdk \<Rightarrow> string \<Rightarrow> string \<Rightarrow> supplier_params \<Rightarrow> supplier_state \<Rightarrow> supplier_state res" where
  "Supplier_UpdateParams sdk authority msgAuthority params st =
     (if \<not> isBech32 sdk msgAuthority then Inl (Status InvalidArgument ErrExt)
      else bindR (mapErr (Status InvalidArgument) (Supplier_Params_Validate params)) (\<lambda>_.
        if authority \<noteq> msgAuthority
          then Inl (Status PermissionDenied (Supplier ErrSupplierInvalidSigner))
        else Inr (Supplier_SetParams params st)))"

section \<open>Genesis validation\<close>

definition genesis_supplier_valid ::
    "sdk \<Rightarrow> (string \<Rightarrow> (string \<times> string) option) \<Rightarrow> supplier \<Rightarrow> unit res" where
  "genesis_supplier_valid sdk urlParse s =
     bindR (validate_stake_coin sdk (Supplier ErrSupplierInvalidStake) (Some (Supplier_Stake s))) (\<lambda>_.
     bindR (mapErr (\<lambda>_. Supplier ErrSupplierInvalidServiceConfig)
        (ValidateSupplierServiceConfigs (isBech32 sdk) urlParse (map Some (Services s)))) (\<lambda>_.
     if \<not> isBech32 sdk (OwnerAddress s) then Inl (Supplier ErrSupplierInvalidAddress)
     else if \<not> isBech32 sdk (OperatorAddress s) then Inl (Supplier ErrSupplierInvalidAddress)
     else Inr ()))"

definition Supplier_GenesisState_Validate ::
    "sdk \<Rightarrow> (string \<Rightarrow> (string \<times> string) option) \<Rightarrow> supplier_genesis \<Rightarrow> unit res" where
  "Supplier_GenesisState_Validate sdk urlParse gs =
     bindR (foldR (\<lambda>seen s.
        let supplierOperatorAddr = SupplierOperatorKey (OperatorAddress s)
        in if supplierOperatorAddr \<in> set seen then Inl ErrFmt
           else Inr (supplierOperatorAddr # seen)) [] (SupplierList gs)) (\<lambda>_.
     bindR (forR (genesis_supplier_valid sdk urlParse) (SupplierList gs)) (\<lambda>_.
     Supplier_Params_Validate (GenesisSupplierParams gs)))"

end
