(* ===== verification/SupplierBlockers.thy ===== *)
theory SupplierBlockers
  imports SupplierHandlers
begin

text \<open>
  The supplier module's block hooks (\<open>x/supplier/keeper/unbond_suppliers.go\<close>,
  \<open>activate_services.go\<close>, \<open>prune_supplier_service_config_history.go\<close>,
  \<open>x/supplier/module/abci.go\<close>). Iterators walk the entries present when they were opened
  and read the records as they are when they are reached. \<open>accAddressString\<close> is the text of
  a parsed address, \<open>AccAddressFromBech32(a).String()\<close>: decoding accepts more than one text
  for an address, so it need not be the text that was parsed.
\<close>

section \<open>Unbonding\<close>

text \<open>A payout the bank refuses is logged and leaves the coins in the module's pool.\<close>

definition release_supplier_stake ::
    "sdk \<Rightarrow> int \<Rightarrow> shared_state \<Rightarrow> supplier \<Rightarrow> bank_log \<Rightarrow> bank_log res" where
  "release_supplier_stake sdk currentHeight sh s log =
     (if Amount (Supplier_Stake s) > 0 then
        (case bank_do sdk (SendFromModuleToAccount ''supplier'' (OwnerAddress s) (Supplier_Stake s)) log of
           Inr log' \<Rightarrow> Inr log'
         | Inl e \<Rightarrow> bindR (GetSessionEndHeight (GetParams sh) currentHeight) (\<lambda>_. Inr log))
      else Inr log)"

definition unbond_supplier_step ::
    "sdk \<Rightarrow> (string \<Rightarrow> string) \<Rightarrow> int \<Rightarrow> shared_state \<Rightarrow> supplier_ctx \<times> nat \<Rightarrow> string
     \<Rightarrow> (supplier_ctx \<times> nat) res" where
  "unbond_supplier_step sdk accAddressString currentHeight sh = (\<lambda>((st, log), n) supplierAddress.
     case GetDehydratedSupplier st supplierAddress of None \<Rightarrow> Inl ErrFmt
     | Some s \<Rightarrow>
         if \<not> Supplier_IsUnbonding s
           then Inr ((removeSupplierUnstakingHeightIndex (OperatorAddress s) st, log), n)
         else
           let unstakeParams = GetParamsAtHeight sh (int64_of (Supplier_UnstakeSessionEndHeight s));
               unbondingEndHeight = GetSupplierUnbondingEndHeight unstakeParams s
           in if unbondingEndHeight > currentHeight then Inr ((st, log), n)
           else if \<not> isBech32 sdk (OwnerAddress s) then Inl ErrExt
           else if \<not> isBech32 sdk (OperatorAddress s) then Inl ErrExt
           else bindR (release_supplier_stake sdk currentHeight sh s log) (\<lambda>log'.
             let st' = RemoveSupplier (accAddressString (OperatorAddress s)) st
             in bindR (GetSessionEndHeight (GetParams sh) currentHeight) (\<lambda>_.
                  Inr ((st', log'), n + 1))))"

definition EndBlockerUnbondSuppliers ::
    "sdk \<Rightarrow> (string \<Rightarrow> string) \<Rightarrow> int \<Rightarrow> shared_state \<Rightarrow> supplier_ctx \<Rightarrow> (supplier_ctx \<times> nat) res" where
  "EndBlockerUnbondSuppliers sdk accAddressString currentHeight sh s =
     bindR (IsSessionEndHeight (GetParams sh) currentHeight) (\<lambda>atEnd.
     if \<not> atEnd then Inr (s, 0)
     else foldR (unbond_supplier_step sdk accAddressString currentHeight sh) (s, 0)
            (GetAllUnstakingSuppliersIterator (fst s)))"

section \<open>Activation\<close>

text \<open>Activation writes nothing: a configuration is active by its heights alone. The hook counts
  the suppliers it emitted an event for; orphaned index entries are skipped.\<close>

definition activated_operators :: "supplier_state \<Rightarrow> int \<Rightarrow> string list" where
  "activated_operators st currentHeight =
     map SCU_OperatorAddress (List.map_filter (serviceConfigUpdateFromPrimaryKey st)
       (GetActivatedServiceConfigUpdatesIterator st currentHeight))"

definition BeginBlockerActivateSupplierServices :: "int \<Rightarrow> shared_state \<Rightarrow> supplier_state \<Rightarrow> nat res" where
  "BeginBlockerActivateSupplierServices currentHeight sh st =
     bindR (IsSessionStartHeight (GetParams sh) currentHeight) (\<lambda>atStart.
     if \<not> atStart then Inr 0
     else bindR (GetSessionNumber (GetParams sh) currentHeight) (\<lambda>_.
       Inr (length (remdups (activated_operators st currentHeight)))))"

section \<open>Pruning\<close>

text \<open>The state threads the suppliers whose history was pruned.\<close>

definition prune_config_step ::
    "int \<Rightarrow> shared_state \<Rightarrow> supplier_state \<times> string list \<Rightarrow> string \<Rightarrow> (supplier_state \<times> string list) res" where
  "prune_config_step currentHeight sh = (\<lambda>(st, pruned) primaryKey.
     case serviceConfigUpdateFromPrimaryKey st primaryKey of None \<Rightarrow> Inr (st, pruned)
     | Some u \<Rightarrow>
         let lastActiveHeight = i64 (DeactivationHeight u - 1);
             sharedParams = GetParamsAtHeight sh lastActiveHeight
         in bindR (GetProofWindowCloseHeight sharedParams lastActiveHeight) (\<lambda>proofWindowCloseHeight.
            if currentHeight \<le> proofWindowCloseHeight then Inr (st, pruned)
            else Inr (deleteDeactivatedServiceConfigUpdate u st,
                      List.insert (SCU_OperatorAddress u) pruned)))"

definition EndBlockerPruneSupplierServiceConfigHistory ::
    "int \<Rightarrow> shared_state \<Rightarrow> supplier_state \<Rightarrow> (supplier_state \<times> nat) res" where
  "EndBlockerPruneSupplierServiceConfigHistory currentHeight sh st =
     bindR (foldR (prune_config_step currentHeight sh) (st, [])
              (GetDeactivatedServiceConfigUpdatesRangeIterator st currentHeight)) (\<lambda>(st', pruned).
       Inr (st', length pruned))"

section \<open>The hooks\<close>

definition Supplier_EndBlocker ::
    "sdk \<Rightarrow> (string \<Rightarrow> string) \<Rightarrow> int \<Rightarrow> shared_state \<Rightarrow> supplier_ctx \<Rightarrow> supplier_ctx res" where
  "Supplier_EndBlocker sdk accAddressString currentHeight sh s =
     bindR (EndBlockerUnbondSuppliers sdk accAddressString currentHeight sh s) (\<lambda>(s1, numUnbondedSuppliers).
     bindR (EndBlockerPruneSupplierServiceConfigHistory currentHeight sh (fst s1)) (\<lambda>(st2, numPruned).
     Inr (st2, snd s1)))"

definition Supplier_BeginBlocker :: "int \<Rightarrow> shared_state \<Rightarrow> supplier_ctx \<Rightarrow> supplier_ctx res" where
  "Supplier_BeginBlocker currentHeight sh s =
     bindR (BeginBlockerActivateSupplierServices currentHeight sh (fst s)) (\<lambda>_. Inr s)"

end
