(* ===== verification/SupplierInv.thy ===== *)
theory SupplierInv
  imports SupplierBlockers
begin

text \<open>
  The invariant of the supplier store: every stored configuration sits under its own primary key,
  each of the three indexes holds exactly the keys of the configurations it selects, unbonding
  suppliers are exactly the ones of the unstaking index, and every configuration belongs to a
  stored supplier. An index is a \<open>config_index\<close>, a key function that determines the primary
  key; its laws are proved once and used for all three. Under the invariant the store is a map of
  suppliers and a set of configurations (\<open>configs\<close>), and each operation is an operation on that
  set.
\<close>

section \<open>Configurations under their primary keys\<close>

definition config_ok :: "service_config_update \<Rightarrow> bool" where
  "config_ok u \<longleftrightarrow> no_slash (SCU_OperatorAddress u) \<and> no_slash (ServiceId (SCU_Service u))
     \<and> 0 \<le> ActivationHeight u \<and> ActivationHeight u < 2 ^ 63
     \<and> 0 \<le> DeactivationHeight u \<and> DeactivationHeight u < 2 ^ 63"

definition prim_ok :: "(string, service_config_update) kv \<Rightarrow> bool" where
  "prim_ok prim \<longleftrightarrow> kv_ok prim
     \<and> (\<forall>(k, u) \<in> set prim. k = ServiceConfigUpdateKey u \<and> config_ok u)"

lemma prim_okD:
  assumes "prim_ok prim" and "map_of prim k = Some u"
  shows "k = ServiceConfigUpdateKey u" and "config_ok u"
  using assms by (auto simp: prim_ok_def dest!: map_of_SomeD)

lemma prim_ok_set: "prim_ok prim \<Longrightarrow> config_ok u \<Longrightarrow> prim_ok (kv_set (ServiceConfigUpdateKey u) u prim)"
  by (auto simp: prim_ok_def kv_simps set_kv_set)

lemma prim_ok_del: "prim_ok prim \<Longrightarrow> prim_ok (kv_del k prim)"
  by (auto simp: prim_ok_def kv_simps) (auto simp: kv_del_def)

lemma kv_del_absent: "map_of s k = None \<Longrightarrow> kv_del k s = s"
  by (force simp: kv_del_def map_of_eq_None_iff filter_id_conv)

lemma IntKey_split [key_simps]:
  "0 \<le> a \<Longrightarrow> a < 2 ^ 63 \<Longrightarrow> 0 \<le> b \<Longrightarrow> b < 2 ^ 63 \<Longrightarrow> IntKey a @ x = IntKey b @ y \<longleftrightarrow> a = b \<and> x = y"
  by (auto simp: IntKey_def append_eq_append_conv PutUint64_eq_iff)

lemma IntKey_eq_iff [key_simps]:
  "0 \<le> a \<Longrightarrow> a < 2 ^ 63 \<Longrightarrow> 0 \<le> b \<Longrightarrow> b < 2 ^ 63 \<Longrightarrow> IntKey a = IntKey b \<longleftrightarrow> a = b"
  using IntKey_split [of a b "[]" "[]"] by simp

lemmas config_key_defs = ServiceConfigUpdateKey_def SupplierServiceConfigUpdateKey_def
  ServiceConfigUpdateActivationHeightKey_def ServiceConfigUpdateDeactivationHeightKey_def

lemma ServiceConfigUpdateKey_eq_iff:
  assumes "config_ok u" and "config_ok v"
  shows "ServiceConfigUpdateKey u = ServiceConfigUpdateKey v \<longleftrightarrow>
    SCU_OperatorAddress u = SCU_OperatorAddress v
    \<and> ServiceId (SCU_Service u) = ServiceId (SCU_Service v) \<and> ActivationHeight u = ActivationHeight v"
  using assms by (auto simp: config_ok_def ServiceConfigUpdateKey_def key_simps)

section \<open>Indexes\<close>

locale config_index =
  fixes key :: "service_config_update \<Rightarrow> string" and sel :: "service_config_update \<Rightarrow> bool"
  assumes key_determines: "config_ok u \<Longrightarrow> config_ok v \<Longrightarrow> key u = key v
    \<Longrightarrow> ServiceConfigUpdateKey u = ServiceConfigUpdateKey v"
begin

definition exact :: "(string, service_config_update) kv \<Rightarrow> (string, string) kv \<Rightarrow> bool" where
  "exact prim idx \<longleftrightarrow> kv_ok idx \<and> (\<forall>k pk. map_of idx k = Some pk \<longleftrightarrow>
     (\<exists>u. map_of prim pk = Some u \<and> sel u \<and> key u = k))"

lemma exactD: "exact prim idx \<Longrightarrow> map_of idx k = Some pk \<longleftrightarrow>
    (\<exists>u. map_of prim pk = Some u \<and> sel u \<and> key u = k)"
  by (simp add: exact_def)

lemma exact_Nil: "exact [] []"
  by (simp add: exact_def)

lemma exact_insert:
  assumes "prim_ok prim" and "exact prim idx" and "config_ok u"
    and "map_of prim (ServiceConfigUpdateKey u) = None"
  shows "exact (kv_set (ServiceConfigUpdateKey u) u prim)
    (if sel u then kv_set (key u) (ServiceConfigUpdateKey u) idx else idx)"
proof -
  let ?pk = "ServiceConfigUpdateKey u"
  have other: "map_of idx (key u) = Some pk \<Longrightarrow> sel u \<Longrightarrow> False" for pk
    using exactD [OF assms(2)] prim_okD [OF assms(1)] key_determines [OF _ assms(3)] assms(4)
    by fastforce
  have none: "map_of idx k \<noteq> Some ?pk" for k
    using exactD [OF assms(2)] assms(4) by simp
  have "map_of (if sel u then kv_set (key u) ?pk idx else idx) k = Some pk \<longleftrightarrow>
      (\<exists>v. map_of (kv_set ?pk u prim) pk = Some v \<and> sel v \<and> key v = k)" for k pk
  proof (cases "pk = ?pk")
    case True
    then show ?thesis using none by (auto simp: kv_simps)
  next
    case False
    then have "(\<exists>v. map_of (kv_set ?pk u prim) pk = Some v \<and> sel v \<and> key v = k) \<longleftrightarrow> map_of idx k = Some pk"
      using exactD [OF assms(2)] by (simp add: kv_simps)
    then show ?thesis using False other by (auto simp: kv_simps)
  qed
  then show ?thesis using assms(2) by (simp add: exact_def kv_simps)
qed

lemma exact_delete:
  assumes "prim_ok prim" and "exact prim idx" and "map_of prim pk = Some u"
  shows "exact (kv_del pk prim) (kv_del (key u) idx)"
proof -
  note u = prim_okD [OF assms(1,3)]
  have "map_of (kv_del (key u) idx) k = Some pk' \<longleftrightarrow>
      (\<exists>v. map_of (kv_del pk prim) pk' = Some v \<and> sel v \<and> key v = k)" for k pk'
  proof (cases "k = key u")
    case True
    have "pk' = pk" if "map_of prim pk' = Some v" "key v = key u" for v
      using prim_okD [OF assms(1) that(1)] key_determines [OF _ u(2) that(2)] u(1) by simp
    then show ?thesis using True by (auto simp: kv_simps)
  next
    case False
    then show ?thesis using exactD [OF assms(2), of k pk'] assms(3) by (auto simp: kv_simps)
  qed
  then show ?thesis using assms(2) by (simp add: exact_def kv_simps)
qed

text \<open>Every entry of the index leads to its configuration.\<close>

lemma entry_config:
  assumes "exact prim idx" and "(k, pk) \<in> set idx"
  obtains u where "map_of prim pk = Some u" and "sel u" and "key u = k"
proof -
  have "kv_ok idx" using assms(1) by (simp add: exact_def)
  then have "map_of idx k = Some pk" using assms(2) by (simp add: kv_ok_map_of)
  then show ?thesis using exactD [OF assms(1)] that by blast
qed

lemma config_entry:
  "exact prim idx \<Longrightarrow> map_of prim pk = Some u \<Longrightarrow> sel u \<Longrightarrow> (key u, pk) \<in> set idx"
  using exactD [of prim idx "key u" pk] by (auto dest!: map_of_SomeD)

text \<open>The configurations a scan of the index yields.\<close>

lemma scan_configs:
  assumes "prim_ok prim" and "exact prim idx"
  shows "set (List.map_filter (\<lambda>e. map_of prim (snd e)) (filter P idx))
    = {u. map_of prim (ServiceConfigUpdateKey u) = Some u \<and> sel u \<and> P (key u, ServiceConfigUpdateKey u)}"
    (is "?l = ?r")
proof (rule set_eqI)
  fix u
  have "u \<in> ?l \<longleftrightarrow> (\<exists>e \<in> set idx. P e \<and> map_of prim (snd e) = Some u)"
    by (force simp: map_filter_def)
  also have "\<dots> \<longleftrightarrow> u \<in> ?r"
  proof
    assume "\<exists>e \<in> set idx. P e \<and> map_of prim (snd e) = Some u"
    then obtain k pk where e: "(k, pk) \<in> set idx" "P (k, pk)" "map_of prim pk = Some u" by force
    obtain v where v: "map_of prim pk = Some v" "sel v" "key v = k" by (rule entry_config [OF assms(2) e(1)])
    then show "u \<in> ?r" using e prim_okD [OF assms(1) e(3)] by auto
  next
    assume "u \<in> ?r"
    then show "\<exists>e \<in> set idx. P e \<and> map_of prim (snd e) = Some u"
      using config_entry [OF assms(2)] by force
  qed
  finally show "u \<in> ?l \<longleftrightarrow> u \<in> ?r" .
qed

end

interpretation oidx: config_index SupplierServiceConfigUpdateKey "\<lambda>u. True"
  by unfold_locales
    (auto simp: config_ok_def config_key_defs key_simps)

interpretation aidx: config_index ServiceConfigUpdateActivationHeightKey "\<lambda>u. True"
  by unfold_locales (auto simp: config_ok_def config_key_defs key_simps)

interpretation didx: config_index ServiceConfigUpdateDeactivationHeightKey "\<lambda>u. DeactivationHeight u \<noteq> 0"
  by unfold_locales (auto simp: config_ok_def config_key_defs key_simps)

section \<open>The invariant\<close>

definition config_indexes_ok :: "supplier_state \<Rightarrow> bool" where
  "config_indexes_ok st \<longleftrightarrow> prim_ok (ConfigUpdates st)
     \<and> oidx.exact (ConfigUpdates st) (OperatorIndex st)
     \<and> aidx.exact (ConfigUpdates st) (ActivationIndex st)
     \<and> didx.exact (ConfigUpdates st) (DeactivationIndex st)"

definition supplier_entry_ok :: "supplier \<Rightarrow> bool" where
  "supplier_entry_ok s \<longleftrightarrow> Services s = [] \<and> ServiceConfigHistory s = [] \<and> no_slash (OperatorAddress s)"

definition unstaking_exact :: "supplier_state \<Rightarrow> bool" where
  "unstaking_exact st \<longleftrightarrow> kv_ok (UnstakingIndex st) \<and> (\<forall>k a. map_of (UnstakingIndex st) k = Some a \<longleftrightarrow>
     (\<exists>s. map_of (SupplierStore st) k = Some s \<and> Supplier_IsUnbonding s \<and> OperatorAddress s = a))"

definition sup_inv :: "supplier_state \<Rightarrow> bool" where
  "sup_inv st \<longleftrightarrow> keyed OperatorAddress (SupplierStore st)
     \<and> (\<forall>e \<in> set (SupplierStore st). supplier_entry_ok (snd e))
     \<and> config_indexes_ok st \<and> unstaking_exact st
     \<and> (\<forall>k u. map_of (ConfigUpdates st) k = Some u
          \<longrightarrow> GetDehydratedSupplier st (SCU_OperatorAddress u) \<noteq> None)"

text \<open>The set of configurations.\<close>

definition configs :: "supplier_state \<Rightarrow> service_config_update set" where
  "configs st = set (map snd (ConfigUpdates st))"

lemma in_configs_iff:
  assumes "prim_ok (ConfigUpdates st)"
  shows "u \<in> configs st \<longleftrightarrow> map_of (ConfigUpdates st) (ServiceConfigUpdateKey u) = Some u"
proof
  assume "u \<in> configs st"
  then obtain k where k: "(k, u) \<in> set (ConfigUpdates st)" by (auto simp: configs_def)
  then have "k = ServiceConfigUpdateKey u" using assms by (auto simp: prim_ok_def)
  then show "map_of (ConfigUpdates st) (ServiceConfigUpdateKey u) = Some u"
    using assms k kv_ok_map_of [of "ConfigUpdates st"] by (simp add: prim_ok_def)
qed (force simp: configs_def dest!: map_of_SomeD)

lemma map_of_configs:
  "prim_ok (ConfigUpdates st) \<Longrightarrow> map_of (ConfigUpdates st) pk = Some u
    \<longleftrightarrow> u \<in> configs st \<and> pk = ServiceConfigUpdateKey u"
  using in_configs_iff prim_okD(1) by blast

lemma configs_ok: "config_indexes_ok st \<Longrightarrow> u \<in> configs st \<Longrightarrow> config_ok u"
  by (auto simp: config_indexes_ok_def in_configs_iff dest: prim_okD)

lemma configs_key_inject:
  "config_indexes_ok st \<Longrightarrow> u \<in> configs st \<Longrightarrow> v \<in> configs st
    \<Longrightarrow> ServiceConfigUpdateKey u = ServiceConfigUpdateKey v \<Longrightarrow> u = v"
  by (auto simp: config_indexes_ok_def in_configs_iff)

lemma sup_inv_empty: "sup_inv empty_supplier_state"
  by (simp add: sup_inv_def empty_supplier_state_def config_indexes_ok_def prim_ok_def unstaking_exact_def
      oidx.exact_Nil aidx.exact_Nil didx.exact_Nil)

section \<open>Removing an operator's configurations\<close>

text \<open>What a write to the configuration stores leaves alone.\<close>

definition same_suppliers :: "supplier_state \<Rightarrow> supplier_state \<Rightarrow> bool" where
  "same_suppliers st st' \<longleftrightarrow> SupplierStore st' = SupplierStore st \<and> UnstakingIndex st' = UnstakingIndex st
     \<and> SupplierParams st' = SupplierParams st"

lemma same_suppliers_refl [simp]: "same_suppliers st st"
  by (simp add: same_suppliers_def)

lemma same_suppliers_trans: "same_suppliers a b \<Longrightarrow> same_suppliers b c \<Longrightarrow> same_suppliers a c"
  by (simp add: same_suppliers_def)

definition removal_ok :: "supplier_state \<Rightarrow> bool" where
  "removal_ok st \<longleftrightarrow> prim_ok (ConfigUpdates st) \<and> aidx.exact (ConfigUpdates st) (ActivationIndex st)
     \<and> didx.exact (ConfigUpdates st) (DeactivationIndex st)"

lemma remove_config_entry_ok:
  assumes "removal_ok st"
  shows "removal_ok (remove_config_entry e st)"
    and "ConfigUpdates (remove_config_entry e st) = kv_del (snd e) (ConfigUpdates st)"
    and "OperatorIndex (remove_config_entry e st) = OperatorIndex st"
    and "same_suppliers st (remove_config_entry e st)"
  using assms
  by (auto simp: removal_ok_def remove_config_entry_def kv_del_absent same_suppliers_def prim_ok_del
      aidx.exact_delete didx.exact_delete split: option.splits)

lemma fold_remove_config_entry:
  assumes "removal_ok st"
  shows "removal_ok (fold remove_config_entry es st)
    \<and> ConfigUpdates (fold remove_config_entry es st) = kv_del_all (map snd es) (ConfigUpdates st)
    \<and> OperatorIndex (fold remove_config_entry es st) = OperatorIndex st
    \<and> same_suppliers st (fold remove_config_entry es st)"
  using assms
proof (induction es arbitrary: st)
  case Nil
  then show ?case by (simp add: kv_del_all_def)
next
  case (Cons e es)
  then show ?case
    using remove_config_entry_ok [OF Cons.prems, of e] same_suppliers_trans
    by (auto simp: kv_del_all_def)
qed

lemma map_of_kv_del_all: "map_of (kv_del_all ks s) k = (if k \<in> set ks then None else map_of s k)"
  by (induction ks arbitrary: s) (auto simp: kv_del_all_def kv_simps)

lemma prim_ok_kv_del_all: "prim_ok s \<Longrightarrow> prim_ok (kv_del_all ks s)"
  by (induction ks arbitrary: s) (auto simp: kv_del_all_def prim_ok_del)

lemma operator_prefix:
  "config_ok u \<Longrightarrow> no_slash op \<Longrightarrow>
    prefix (StringKey op) (SupplierServiceConfigUpdateKey u) \<longleftrightarrow> SCU_OperatorAddress u = op"
  by (auto simp: config_ok_def SupplierServiceConfigUpdateKey_def StringKey_prefix_iff)

text \<open>The configurations a prefix scan of the operator index finds; for an operator address without the
  separator, those of the operator.\<close>

definition scanned :: "string \<Rightarrow> service_config_update \<Rightarrow> bool" where
  "scanned op u \<longleftrightarrow> prefix (StringKey op) (SupplierServiceConfigUpdateKey u)"

lemma removeSupplierServiceConfigUpdateIndexes_any:
  fixes op :: string
  assumes ok: "config_indexes_ok st"
  defines "st' \<equiv> removeSupplierServiceConfigUpdateIndexes op st"
  shows "config_indexes_ok st'" and "same_suppliers st st'"
    and "configs st' = {u \<in> configs st. \<not> scanned op u}"
proof -
  let ?C = "ConfigUpdates st" and ?I = "OperatorIndex st"
  let ?es = "kv_prefix (StringKey op) ?I"
  let ?st1 = "fold remove_config_entry ?es st"
  have r: "removal_ok st" and prim: "prim_ok ?C" and ex: "oidx.exact ?C ?I"
    using ok by (simp_all add: config_indexes_ok_def removal_ok_def)
  note f = fold_remove_config_entry [OF r, of ?es]
  have st': "ConfigUpdates st' = kv_del_all (map snd ?es) ?C" "OperatorIndex st' = kv_del_all (map fst ?es) ?I"
    "ActivationIndex st' = ActivationIndex ?st1" "DeactivationIndex st' = DeactivationIndex ?st1"
    "same_suppliers st st'"
    using f by (simp_all add: st'_def removeSupplierServiceConfigUpdateIndexes_def Let_def kv_del_all_def
        same_suppliers_def)
  have mem: "pk \<in> snd ` set ?es \<longleftrightarrow> scanned op u" if u: "map_of ?C pk = Some u" for pk u
  proof
    assume "pk \<in> snd ` set ?es"
    then obtain k where k: "(k, pk) \<in> set ?I" "prefix (StringKey op) k" by (auto simp: kv_prefix_def)
    obtain v where v: "map_of ?C pk = Some v" "SupplierServiceConfigUpdateKey v = k"
      by (rule oidx.entry_config [OF ex k(1)])
    then show "scanned op u" using u k(2) by (simp add: scanned_def)
  next
    assume a: "scanned op u"
    have "(SupplierServiceConfigUpdateKey u, pk) \<in> set ?I" using oidx.config_entry [OF ex u] by simp
    then show "pk \<in> snd ` set ?es" using a by (force simp: kv_prefix_def scanned_def)
  qed
  have C': "map_of (ConfigUpdates st') pk = Some u \<longleftrightarrow> map_of ?C pk = Some u \<and> \<not> scanned op u"
    for pk u using mem by (auto simp: st' map_of_kv_del_all)
  have prim': "prim_ok (ConfigUpdates st')" by (simp add: st' prim prim_ok_kv_del_all)
  have keys: "k \<in> fst ` set ?es \<longleftrightarrow> prefix (StringKey op) k" if "map_of ?I k = Some pk" for k pk
    using that by (force simp: kv_prefix_def dest: map_of_SomeD)
  have "oidx.exact (ConfigUpdates st') (OperatorIndex st')"
    unfolding oidx.exact_def
  proof (intro conjI allI)
    show "kv_ok (OperatorIndex st')"
      using ex by (simp add: st' kv_del_all_eq kv_ok_filter oidx.exact_def)
    fix k pk
    have "map_of (OperatorIndex st') k = Some pk \<longleftrightarrow> map_of ?I k = Some pk \<and> \<not> prefix (StringKey op) k"
      using keys by (auto simp: st' map_of_kv_del_all)
    also have "\<dots> \<longleftrightarrow> (\<exists>u. map_of ?C pk = Some u \<and> SupplierServiceConfigUpdateKey u = k
        \<and> \<not> scanned op u)"
      using oidx.exactD [OF ex, of k pk] by (auto simp: scanned_def)
    finally show "map_of (OperatorIndex st') k = Some pk \<longleftrightarrow>
        (\<exists>u. map_of (ConfigUpdates st') pk = Some u \<and> True \<and> SupplierServiceConfigUpdateKey u = k)"
      using C' by auto
  qed
  then show "config_indexes_ok st'"
    using prim' f by (auto simp: config_indexes_ok_def st' removal_ok_def)
  show "same_suppliers st st'" by (rule st')
  show "configs st' = {u \<in> configs st. \<not> scanned op u}"
    using C' by (auto simp: in_configs_iff [OF prim'] in_configs_iff [OF prim])
qed

lemma scanned_configs:
  assumes "config_indexes_ok st" and "no_slash op"
  shows "{u \<in> configs st. \<not> scanned op u} = {u \<in> configs st. SCU_OperatorAddress u \<noteq> op}"
proof -
  have "prim_ok (ConfigUpdates st)" using assms(1) by (simp add: config_indexes_ok_def)
  then have "config_ok u" if "u \<in> configs st" for u
    using that in_configs_iff [of st u] prim_okD(2) by blast
  then show ?thesis using operator_prefix [OF _ assms(2)] by (auto simp: scanned_def)
qed

lemma removeSupplierServiceConfigUpdateIndexes_ok:
  assumes ok: "config_indexes_ok st" and op: "no_slash op"
  defines "st' \<equiv> removeSupplierServiceConfigUpdateIndexes op st"
  shows "config_indexes_ok st'" and "same_suppliers st st'"
    and "configs st' = {u \<in> configs st. SCU_OperatorAddress u \<noteq> op}"
  using removeSupplierServiceConfigUpdateIndexes_any [OF ok, of op] scanned_configs [OF ok op]
  by (simp_all add: st'_def)

section \<open>Indexing a history\<close>

definition history_wf :: "string \<Rightarrow> service_config_update list \<Rightarrow> bool" where
  "history_wf op hist \<longleftrightarrow> (\<forall>u \<in> set hist. config_ok u \<and> SCU_OperatorAddress u = op)
     \<and> distinct (map ServiceConfigUpdateKey hist)"

lemma index_config_update_ok:
  assumes ok: "config_indexes_ok st" and u: "config_ok u"
    and new: "map_of (ConfigUpdates st) (ServiceConfigUpdateKey u) = None"
  shows "config_indexes_ok (index_config_update u st)" and "same_suppliers st (index_config_update u st)"
    and "configs (index_config_update u st) = insert u (configs st)"
proof -
  have p: "prim_ok (ConfigUpdates st)" and e: "oidx.exact (ConfigUpdates st) (OperatorIndex st)"
    "aidx.exact (ConfigUpdates st) (ActivationIndex st)" "didx.exact (ConfigUpdates st) (DeactivationIndex st)"
    using ok by (simp_all add: config_indexes_ok_def)
  show "config_indexes_ok (index_config_update u st)"
    using oidx.exact_insert [OF p e(1) u new] aidx.exact_insert [OF p e(2) u new]
      didx.exact_insert [OF p e(3) u new] prim_ok_set [OF p u]
    by (auto simp: config_indexes_ok_def index_config_update_def Let_def)
  show "same_suppliers st (index_config_update u st)"
    by (simp add: same_suppliers_def index_config_update_def Let_def)
  have k: "kv_ok (ConfigUpdates st)" using p by (simp add: prim_ok_def)
  have "\<forall>e \<in> set (ConfigUpdates st). fst e \<noteq> ServiceConfigUpdateKey u"
    using new by (force simp: map_of_eq_None_iff)
  then show "configs (index_config_update u st) = insert u (configs st)"
    by (force simp: configs_def index_config_update_def Let_def set_kv_set [OF k])
qed

lemma fold_index_config_update:
  assumes "config_indexes_ok st" and "\<forall>u \<in> set us. config_ok u"
    and "distinct (map ServiceConfigUpdateKey us)"
    and "\<forall>u \<in> set us. map_of (ConfigUpdates st) (ServiceConfigUpdateKey u) = None"
  shows "config_indexes_ok (fold index_config_update us st)
    \<and> same_suppliers st (fold index_config_update us st)
    \<and> configs (fold index_config_update us st) = set us \<union> configs st"
  using assms
proof (induction us arbitrary: st)
  case Nil
  then show ?case by simp
next
  case (Cons u us)
  have u: "config_ok u" "map_of (ConfigUpdates st) (ServiceConfigUpdateKey u) = None"
    using Cons.prems by simp_all
  note i = index_config_update_ok [OF Cons.prems(1) u]
  have "ServiceConfigUpdateKey v \<noteq> ServiceConfigUpdateKey u" if "v \<in> set us" for v
    using that Cons.prems(3) by (metis distinct.simps(2) imageI list.set_map list.simps(9))
  then have "\<forall>v \<in> set us. map_of (ConfigUpdates (index_config_update u st)) (ServiceConfigUpdateKey v) = None"
    using Cons.prems(4) by (simp add: index_config_update_def Let_def kv_simps)
  then show ?case
    using Cons.IH [OF i(1)] Cons.prems(2,3) i same_suppliers_trans [OF i(2)] by auto
qed

lemma indexSupplierServiceConfigUpdates_ok:
  assumes ok: "config_indexes_ok st" and op: "no_slash (OperatorAddress s)"
    and wf: "history_wf (OperatorAddress s) (ServiceConfigHistory s)"
  defines "st' \<equiv> indexSupplierServiceConfigUpdates s st"
  shows "config_indexes_ok st'" and "same_suppliers st st'"
    and "configs st' = {u \<in> configs st. SCU_OperatorAddress u \<noteq> OperatorAddress s} \<union> set (ServiceConfigHistory s)"
proof -
  let ?st1 = "removeSupplierServiceConfigUpdateIndexes (OperatorAddress s) st"
  note r = removeSupplierServiceConfigUpdateIndexes_ok [OF ok op]
  have p: "prim_ok (ConfigUpdates ?st1)" using r(1) by (simp add: config_indexes_ok_def)
  have new: "map_of (ConfigUpdates ?st1) (ServiceConfigUpdateKey u) = None"
    if "u \<in> set (ServiceConfigHistory s)" for u
  proof (rule ccontr)
    assume "\<not> ?thesis"
    then obtain v where v: "v \<in> configs ?st1" "ServiceConfigUpdateKey u = ServiceConfigUpdateKey v"
      using map_of_configs [OF p] by blast
    have "config_ok v" "SCU_OperatorAddress v \<noteq> OperatorAddress s"
      using configs_ok [OF r(1) v(1)] v(1) r(3) by auto
    then show False
      using v(2) wf that by (auto simp: history_wf_def ServiceConfigUpdateKey_eq_iff)
  qed
  have "config_indexes_ok st' \<and> same_suppliers ?st1 st' \<and> configs st' = set (ServiceConfigHistory s) \<union> configs ?st1"
    unfolding st'_def indexSupplierServiceConfigUpdates_def
    using fold_index_config_update [OF r(1)] wf new by (auto simp: history_wf_def)
  then show "config_indexes_ok st'" and "same_suppliers st st'"
    and "configs st' = {u \<in> configs st. SCU_OperatorAddress u \<noteq> OperatorAddress s} \<union> set (ServiceConfigHistory s)"
    using r(2,3) same_suppliers_trans by auto
qed

section \<open>Operations on the store\<close>

definition dehydrated :: "supplier \<Rightarrow> supplier" where
  "dehydrated s = s\<lparr>Services := [], ServiceConfigHistory := []\<rparr>"

lemma dehydrated_sels [simp]:
  "OperatorAddress (dehydrated s) = OperatorAddress s" "OwnerAddress (dehydrated s) = OwnerAddress s"
  "Supplier_Stake (dehydrated s) = Supplier_Stake s"
  "Supplier_UnstakeSessionEndHeight (dehydrated s) = Supplier_UnstakeSessionEndHeight s"
  "Services (dehydrated s) = []" "ServiceConfigHistory (dehydrated s) = []"
  "Supplier_IsUnbonding (dehydrated s) = Supplier_IsUnbonding s"
  by (simp_all add: dehydrated_def Supplier_IsUnbonding_def)

definition supplier_wf :: "supplier \<Rightarrow> bool" where
  "supplier_wf s \<longleftrightarrow> no_slash (OperatorAddress s) \<and> history_wf (OperatorAddress s) (ServiceConfigHistory s)"

lemma GetDehydratedSupplier_ok:
  assumes "sup_inv st" and "GetDehydratedSupplier st op = Some s"
  shows "OperatorAddress s = op" and "supplier_entry_ok s" and "no_slash op"
proof -
  have k: "keyed OperatorAddress (SupplierStore st)" "\<forall>e \<in> set (SupplierStore st). supplier_entry_ok (snd e)"
    using assms(1) by (simp_all add: sup_inv_def)
  have m: "map_of (SupplierStore st) (StringKey op) = Some s"
    using assms(2) by (simp add: GetDehydratedSupplier_def SupplierOperatorKey_def)
  show "OperatorAddress s = op" using keyed_lookup [OF k(1) m] by simp
  moreover show "supplier_entry_ok s" using keyed_lookup [OF k(1) m] k(2) by force
  ultimately show "no_slash op" by (auto simp: supplier_entry_ok_def)
qed

lemma SetAndIndex_ok:
  assumes inv: "sup_inv st" and wf: "supplier_wf s"
  defines "st' \<equiv> SetAndIndexDehydratedSupplier s st"
  shows "sup_inv st'"
    and "configs st' = {u \<in> configs st. SCU_OperatorAddress u \<noteq> OperatorAddress s} \<union> set (ServiceConfigHistory s)"
    and "SupplierStore st' = kv_set (StringKey (OperatorAddress s)) (dehydrated s) (SupplierStore st)"
    and "SupplierParams st' = SupplierParams st"
proof -
  have ok: "config_indexes_ok st" using inv by (simp add: sup_inv_def)
  let ?st1 = "indexSupplierServiceConfigUpdates s st"
  have op: "no_slash (OperatorAddress s)" and hw: "history_wf (OperatorAddress s) (ServiceConfigHistory s)"
    using wf by (simp_all add: supplier_wf_def)
  note i = indexSupplierServiceConfigUpdates_ok [OF ok op hw]
  show store: "SupplierStore st' = kv_set (StringKey (OperatorAddress s)) (dehydrated s) (SupplierStore st)"
    and "SupplierParams st' = SupplierParams st"
    using i(2) by (simp_all add: st'_def SetAndIndexDehydratedSupplier_def SetDehydratedSupplier_def
        indexSupplierUnstakingHeight_def Let_def SupplierOperatorKey_def same_suppliers_def dehydrated_def)
  have cfg: "ConfigUpdates st' = ConfigUpdates ?st1" "OperatorIndex st' = OperatorIndex ?st1"
    "ActivationIndex st' = ActivationIndex ?st1" "DeactivationIndex st' = DeactivationIndex ?st1"
    by (simp_all add: st'_def SetAndIndexDehydratedSupplier_def SetDehydratedSupplier_def
        indexSupplierUnstakingHeight_def Let_def)
  then show c: "configs st' = {u \<in> configs st. SCU_OperatorAddress u \<noteq> OperatorAddress s} \<union> set (ServiceConfigHistory s)"
    using i(3) by (simp add: configs_def)
  have un: "UnstakingIndex st' = (if Supplier_IsUnbonding s
      then kv_set (StringKey (OperatorAddress s)) (OperatorAddress s) (UnstakingIndex st)
      else kv_del (StringKey (OperatorAddress s)) (UnstakingIndex st))"
    using i(2) by (simp add: st'_def SetAndIndexDehydratedSupplier_def SetDehydratedSupplier_def
        indexSupplierUnstakingHeight_def Let_def SupplierOperatorKey_def same_suppliers_def)
  have prim': "prim_ok (ConfigUpdates st')" using i(1) by (simp add: cfg config_indexes_ok_def)
  have prim: "prim_ok (ConfigUpdates st)" using ok by (simp add: config_indexes_ok_def)
  have owner: "GetDehydratedSupplier st' (SCU_OperatorAddress u) \<noteq> None"
    if "map_of (ConfigUpdates st') k = Some u" for k u
  proof -
    have "u \<in> configs st'" using that map_of_configs [OF prim'] by blast
    then consider "u \<in> configs st" | "SCU_OperatorAddress u = OperatorAddress s"
      using c hw by (auto simp: history_wf_def)
    then show ?thesis
      using inv in_configs_iff [OF prim]
      by cases (auto simp: sup_inv_def GetDehydratedSupplier_def SupplierOperatorKey_def store kv_simps)
  qed
  have kd: "keyed OperatorAddress (SupplierStore st)" using inv by (simp add: sup_inv_def)
  have ks: "keyed OperatorAddress (SupplierStore st')"
    unfolding store using keyed_set [OF kd, of "dehydrated s"] by simp
  moreover have "\<forall>e \<in> set (SupplierStore st'). supplier_entry_ok (snd e)"
    using inv op set_keyed [OF kd, of "dehydrated s"]
    by (auto simp: sup_inv_def store supplier_entry_ok_def)
  moreover have "config_indexes_ok st'" using i(1) by (simp add: config_indexes_ok_def cfg)
  moreover have "unstaking_exact st'"
    using inv by (auto simp: sup_inv_def unstaking_exact_def un store kv_simps)
  ultimately show "sup_inv st'" using owner by (simp add: sup_inv_def)
qed

lemma RemoveSupplier_any:
  fixes op :: string
  assumes inv: "sup_inv st"
  defines "st' \<equiv> RemoveSupplier op st"
  shows "sup_inv st'" and "configs st' = {u \<in> configs st. \<not> scanned op u}"
    and "SupplierStore st' = kv_del (StringKey op) (SupplierStore st)"
    and "SupplierParams st' = SupplierParams st"
proof -
  have ok: "config_indexes_ok st" using inv by (simp add: sup_inv_def)
  let ?st1 = "removeSupplierServiceConfigUpdateIndexes op st"
  note r = removeSupplierServiceConfigUpdateIndexes_any [OF ok, of op]
  show store: "SupplierStore st' = kv_del (StringKey op) (SupplierStore st)"
    and "SupplierParams st' = SupplierParams st"
    using r(2) by (simp_all add: st'_def RemoveSupplier_def removeSupplierUnstakingHeightIndex_def
        Let_def SupplierOperatorKey_def same_suppliers_def)
  have cfg: "ConfigUpdates st' = ConfigUpdates ?st1" "OperatorIndex st' = OperatorIndex ?st1"
    "ActivationIndex st' = ActivationIndex ?st1" "DeactivationIndex st' = DeactivationIndex ?st1"
    by (simp_all add: st'_def RemoveSupplier_def removeSupplierUnstakingHeightIndex_def Let_def)
  show c: "configs st' = {u \<in> configs st. \<not> scanned op u}"
    using r(3) by (simp add: configs_def cfg)
  have un: "UnstakingIndex st' = kv_del (StringKey op) (UnstakingIndex st)"
    using r(2) by (simp add: st'_def RemoveSupplier_def removeSupplierUnstakingHeightIndex_def Let_def
        SupplierOperatorKey_def same_suppliers_def)
  have prim: "prim_ok (ConfigUpdates st)" "prim_ok (ConfigUpdates st')"
    using ok r(1) by (simp_all add: cfg config_indexes_ok_def)
  have owner: "GetDehydratedSupplier st' (SCU_OperatorAddress u) \<noteq> None"
    if "map_of (ConfigUpdates st') k = Some u" for k u
  proof -
    have u: "u \<in> configs st" "\<not> scanned op u"
      using that map_of_configs [OF prim(2)] c by auto
    then have "config_ok u" using in_configs_iff [OF prim(1)] prim_okD(2) [OF prim(1)] by blast
    then have "SCU_OperatorAddress u \<noteq> op"
      using u(2) operator_prefix [of u op] by (auto simp: scanned_def config_ok_def)
    then show ?thesis
      using inv in_configs_iff [OF prim(1)] u(1)
      by (auto simp: sup_inv_def GetDehydratedSupplier_def SupplierOperatorKey_def store kv_simps)
  qed
  have "keyed OperatorAddress (SupplierStore st')" "\<forall>e \<in> set (SupplierStore st'). supplier_entry_ok (snd e)"
    using inv by (auto simp: sup_inv_def store keyed_def kv_simps) (auto simp: kv_del_def)
  moreover have "config_indexes_ok st'" using r(1) by (simp add: config_indexes_ok_def cfg)
  moreover have "unstaking_exact st'"
    using inv by (auto simp: sup_inv_def unstaking_exact_def un store kv_simps)
  ultimately show "sup_inv st'" using owner by (simp add: sup_inv_def)
qed

lemma RemoveSupplier_ok:
  assumes inv: "sup_inv st" and op: "no_slash op"
  defines "st' \<equiv> RemoveSupplier op st"
  shows "sup_inv st'" and "configs st' = {u \<in> configs st. SCU_OperatorAddress u \<noteq> op}"
    and "SupplierStore st' = kv_del (StringKey op) (SupplierStore st)"
    and "SupplierParams st' = SupplierParams st"
  using RemoveSupplier_any [OF inv, of op] inv scanned_configs [OF _ op]
  by (simp_all add: st'_def sup_inv_def)

lemma deleteDeactivatedServiceConfigUpdate_ok:
  assumes inv: "sup_inv st" and u: "u \<in> configs st"
  defines "st' \<equiv> deleteDeactivatedServiceConfigUpdate u st"
  shows "sup_inv st'" and "configs st' = configs st - {u}" and "same_suppliers st st'"
proof -
  have ok: "config_indexes_ok st" using inv by (simp add: sup_inv_def)
  have p: "prim_ok (ConfigUpdates st)" and e: "oidx.exact (ConfigUpdates st) (OperatorIndex st)"
    "aidx.exact (ConfigUpdates st) (ActivationIndex st)" "didx.exact (ConfigUpdates st) (DeactivationIndex st)"
    using ok by (simp_all add: config_indexes_ok_def)
  have m: "map_of (ConfigUpdates st) (ServiceConfigUpdateKey u) = Some u" using u in_configs_iff [OF p] by simp
  have ok': "config_indexes_ok st'"
    using oidx.exact_delete [OF p e(1) m] aidx.exact_delete [OF p e(2) m] didx.exact_delete [OF p e(3) m]
    by (simp add: config_indexes_ok_def st'_def deleteDeactivatedServiceConfigUpdate_def prim_ok_del p)
  then have p': "prim_ok (ConfigUpdates st')" by (simp add: config_indexes_ok_def)
  have C': "ConfigUpdates st' = kv_del (ServiceConfigUpdateKey u) (ConfigUpdates st)"
    by (simp add: st'_def deleteDeactivatedServiceConfigUpdate_def)
  show "configs st' = configs st - {u}"
    by (auto simp: in_configs_iff [OF p] in_configs_iff [OF p'] C' kv_simps m split: if_splits)
  show same: "same_suppliers st st'"
    by (simp add: st'_def deleteDeactivatedServiceConfigUpdate_def same_suppliers_def)
  show "sup_inv st'"
    using inv ok' same
    by (auto simp: sup_inv_def same_suppliers_def unstaking_exact_def C' kv_simps GetDehydratedSupplier_def
        split: if_splits)
qed

section \<open>Reads\<close>

lemma getSupplierServiceConfigUpdates_all:
  assumes "config_indexes_ok st" and "no_slash op"
  shows "set (getSupplierServiceConfigUpdates st op '''') = {u \<in> configs st. SCU_OperatorAddress u = op}"
proof -
  have p: "prim_ok (ConfigUpdates st)" and e: "oidx.exact (ConfigUpdates st) (OperatorIndex st)"
    using assms(1) by (simp_all add: config_indexes_ok_def)
  show ?thesis
    using oidx.scan_configs [OF p e, of "\<lambda>e. prefix (StringKey op) (fst e)"]
      operator_prefix [OF configs_ok [OF assms(1)] assms(2)]
    by (auto simp: getSupplierServiceConfigUpdates_def SupplierOperatorKey_def kv_prefix_def
        in_configs_iff [OF p, symmetric])
qed

lemma distinct_map_filter_lookup:
  assumes "distinct (map snd es)"
    and "\<And>e u. e \<in> set es \<Longrightarrow> f (snd e) = Some u \<Longrightarrow> g u = snd e"
  shows "distinct (map g (List.map_filter (\<lambda>e. f (snd e)) es))"
  using assms
proof (induction es)
  case Nil
  then show ?case by (simp add: map_filter_def)
next
  case (Cons e es)
  have "snd e \<notin> g ` set (List.map_filter (\<lambda>e. f (snd e)) es)"
    using Cons.prems by (force simp: map_filter_def)
  moreover have "distinct (map g (List.map_filter (\<lambda>e. f (snd e)) es))"
    using Cons.IH Cons.prems by simp
  moreover have "g u = snd e" if "f (snd e) = Some u" for u using Cons.prems(2) that by simp
  ultimately show ?case
    by (cases "f (snd e)") (simp_all add: map_filter_simps)
qed

lemma distinct_index_values:
  assumes "prim_ok prim" and "oidx.exact prim idx"
  shows "distinct (map snd idx)"
proof -
  have "inj_on snd (set idx)"
  proof (rule inj_onI)
    fix e f assume a: "e \<in> set idx" "f \<in> set idx" "snd e = snd f"
    obtain k pk where e: "e = (k, pk)" by (cases e)
    obtain k' where f: "f = (k', pk)" using a(3) e by (cases f) auto
    obtain u where "map_of prim pk = Some u" "SupplierServiceConfigUpdateKey u = k"
      using a(1) e oidx.entry_config [OF assms(2)] by metis
    moreover obtain v where "map_of prim pk = Some v" "SupplierServiceConfigUpdateKey v = k'"
      using a(2) f oidx.entry_config [OF assms(2)] by metis
    ultimately show "e = f" using e f by simp
  qed
  moreover have "distinct idx" using assms(2) kv_ok_distinct by (auto simp: oidx.exact_def distinct_map)
  ultimately show ?thesis by (simp add: distinct_map)
qed

lemma getSupplierServiceConfigUpdates_wf:
  assumes ok: "config_indexes_ok st" and "no_slash op"
  shows "history_wf op (getSupplierServiceConfigUpdates st op '''')"
proof -
  have p: "prim_ok (ConfigUpdates st)" and e: "oidx.exact (ConfigUpdates st) (OperatorIndex st)"
    using ok by (simp_all add: config_indexes_ok_def)
  have "distinct (map snd (kv_prefix (StringKey op) (OperatorIndex st)))"
    using distinct_index_values [OF p e] by (simp add: kv_prefix_def distinct_map_filter)
  then have "distinct (map ServiceConfigUpdateKey (getSupplierServiceConfigUpdates st op ''''))"
    unfolding getSupplierServiceConfigUpdates_def Let_def SupplierOperatorKey_def
    using prim_okD(1) [OF p] by (intro distinct_map_filter_lookup) auto
  then show ?thesis
    using getSupplierServiceConfigUpdates_all [OF assms] configs_ok [OF ok]
    by (auto simp: history_wf_def)
qed

text \<open>A stored supplier as its handlers read it.\<close>

lemma GetSupplier_cases:
  assumes "sup_inv st" and "GetSupplier st h op = Some s"
  obtains d where "GetDehydratedSupplier st op = Some d" and "dehydrated s = d"
    and "OperatorAddress s = op" and "supplier_wf s"
    and "set (ServiceConfigHistory s) = {u \<in> configs st. SCU_OperatorAddress u = op}"
proof -
  from assms(2) obtain d where d: "GetDehydratedSupplier st op = Some d"
    and s: "s = hydrateFullSupplierServiceConfigs st h d" by (auto simp: GetSupplier_def)
  have ok: "config_indexes_ok st" using assms(1) by (simp add: sup_inv_def)
  note g = GetDehydratedSupplier_ok [OF assms(1) d]
  have "dehydrated s = d" "OperatorAddress s = op"
    using g by (simp_all add: s hydrateFullSupplierServiceConfigs_def Let_def dehydrated_def supplier_entry_ok_def)
  moreover have "ServiceConfigHistory s = getSupplierServiceConfigUpdates st op ''''"
    using g by (simp add: s hydrateFullSupplierServiceConfigs_def Let_def)
  ultimately show ?thesis
    using that [OF d] getSupplierServiceConfigUpdates_wf [OF ok g(3)] g(3)
      getSupplierServiceConfigUpdates_all [OF ok g(3)]
    by (simp add: supplier_wf_def)
qed

end
