(* ===== verification/SupplierSteps.thy ===== *)
theory SupplierSteps
  imports SupplierInv
begin

text \<open>
  Every operation of the supplier module keeps the store's invariant and never records more stake
  than the module's account holds. The supplier store is an \<open>actor_store\<close> whose entries are
  suppliers without their configurations.
\<close>

section \<open>The store of suppliers\<close>

lemma remove_config_entry_store: "SupplierStore (remove_config_entry e st) = SupplierStore st"
  by (simp add: remove_config_entry_def split: option.splits)

lemma fold_remove_store: "SupplierStore (fold remove_config_entry es st) = SupplierStore st"
  by (induction es arbitrary: st) (simp_all add: remove_config_entry_store)

lemma removeIndexes_store:
  "SupplierStore (removeSupplierServiceConfigUpdateIndexes op st) = SupplierStore st"
  by (simp add: removeSupplierServiceConfigUpdateIndexes_def Let_def fold_remove_store)

lemma fold_index_store: "SupplierStore (fold index_config_update us st) = SupplierStore st"
  by (induction us arbitrary: st) (simp_all add: index_config_update_def Let_def)

lemma SetAndIndex_store:
  "SupplierStore (SetAndIndexDehydratedSupplier s st)
    = kv_set (StringKey (OperatorAddress s)) (dehydrated s) (SupplierStore st)"
  by (simp add: SetAndIndexDehydratedSupplier_def SetDehydratedSupplier_def indexSupplierUnstakingHeight_def
      Let_def indexSupplierServiceConfigUpdates_def fold_index_store removeIndexes_store
      SupplierOperatorKey_def dehydrated_def)

lemma RemoveSupplier_store:
  "SupplierStore (RemoveSupplier op st) = kv_del (StringKey op) (SupplierStore st)"
  by (simp add: RemoveSupplier_def removeSupplierUnstakingHeightIndex_def Let_def removeIndexes_store
      SupplierOperatorKey_def)

interpretation sups: actor_store SupplierStore SetAndIndexDehydratedSupplier
    "\<lambda>s. RemoveSupplier (OperatorAddress s)" OperatorAddress Supplier_Stake dehydrated
  by unfold_locales (simp_all add: SetAndIndex_store RemoveSupplier_store)

lemma GetDehydratedSupplier_find: "GetDehydratedSupplier st x = sups.find st x"
  by (simp add: GetDehydratedSupplier_def sups.find_def SupplierOperatorKey_def)

lemma sup_inv_store_ok: "sup_inv st \<Longrightarrow> sups.store_ok st"
  by (simp add: sup_inv_def sups.store_ok_def)

lemma GetSupplier_None_iff: "GetSupplier st h op = None \<longleftrightarrow> GetDehydratedSupplier st op = None"
  by (simp add: GetSupplier_def)

section \<open>What is kept of the stored suppliers\<close>

definition bech32_no_slash :: "sdk \<Rightarrow> bool" where
  "bech32_no_slash sdk \<longleftrightarrow> (\<forall>a. isBech32 sdk a \<longrightarrow> no_slash a)"

text \<open>
  Addresses that decode, an operator address that is its own canonical text, a positive stake. The
  handlers do not check that an operator address is canonical: with the identity in place of
  \<open>accAddressString\<close> the invariants say nothing about it, and that is what every run keeps.
\<close>

definition staked_ok :: "sdk \<Rightarrow> (string \<Rightarrow> string) \<Rightarrow> supplier \<Rightarrow> bool" where
  "staked_ok sdk accAddressString s \<longleftrightarrow> isBech32 sdk (OwnerAddress s) \<and> isBech32 sdk (OperatorAddress s)
     \<and> accAddressString (OperatorAddress s) = OperatorAddress s
     \<and> Denom (Supplier_Stake s) = DenomuPOKT \<and> 0 < Amount (Supplier_Stake s)"

definition supplier_params_ok :: "supplier_state \<Rightarrow> bool" where
  "supplier_params_ok st \<longleftrightarrow> (\<forall>p. SupplierParams st = Some p \<longrightarrow> Supplier_Params_Validate p = Inr ())"

definition supplier_escrow :: "supplier_ctx \<Rightarrow> int" where
  "supplier_escrow s = inflow ''supplier'' (snd s) - sups.stakes (fst s)"

definition supplier_state_inv :: "sdk \<Rightarrow> (string \<Rightarrow> string) \<Rightarrow> supplier_state \<Rightarrow> bool" where
  "supplier_state_inv sdk accAddressString st \<longleftrightarrow> sup_inv st
     \<and> (\<forall>op d. GetDehydratedSupplier st op = Some d \<longrightarrow> staked_ok sdk accAddressString d)
     \<and> supplier_params_ok st"

definition supplier_chain_inv :: "sdk \<Rightarrow> (string \<Rightarrow> string) \<Rightarrow> supplier_ctx \<Rightarrow> bool" where
  "supplier_chain_inv sdk accAddressString s \<longleftrightarrow>
     supplier_state_inv sdk accAddressString (fst s) \<and> 0 \<le> supplier_escrow s"

lemma supplier_chain_inv_iff:
  "supplier_chain_inv sdk f s \<longleftrightarrow> sup_inv (fst s)
     \<and> (\<forall>op d. GetDehydratedSupplier (fst s) op = Some d \<longrightarrow> staked_ok sdk f d)
     \<and> supplier_params_ok (fst s) \<and> 0 \<le> supplier_escrow s"
  by (simp add: supplier_chain_inv_def supplier_state_inv_def)

lemma staked_ok_dehydrated: "staked_ok sdk f (dehydrated s) \<longleftrightarrow> staked_ok sdk f s"
  by (simp add: staked_ok_def)

lemma state_inv_put:
  assumes inv: "supplier_state_inv sdk f st" and wf: "supplier_wf s" and ok: "staked_ok sdk f s"
  shows "supplier_state_inv sdk f (SetAndIndexDehydratedSupplier s st)"
proof -
  have si: "sup_inv st" using inv by (simp add: supplier_state_inv_def)
  note k = SetAndIndex_ok [OF si wf]
  have "staked_ok sdk f d" if "GetDehydratedSupplier (SetAndIndexDehydratedSupplier s st) op = Some d" for op d
    using that inv ok staked_ok_dehydrated [of sdk f s]
    by (auto simp: GetDehydratedSupplier_find sups.find_put supplier_state_inv_def split: if_splits)
  then show ?thesis
    using inv k(1,4) by (simp add: supplier_state_inv_def supplier_params_ok_def)
qed

section \<open>Histories the handlers build\<close>

definition next_start_ok :: "shared_state \<Rightarrow> int \<Rightarrow> bool" where
  "next_start_ok sh h \<longleftrightarrow> (\<exists>b. GetNextSessionStartHeight (GetParams sh) h = Inr b \<and> 0 < b \<and> b < 2 ^ 63)"

lemma next_start_ok_bounded:
  assumes "params_bounded (GetParams sh)" and "height_bounded h"
  shows "next_start_ok sh h"
proof -
  note b = sess_start_bounds [OF assms]
  have "in_i64 (sess_end (GetParams sh) h + 1)"
    using b assms(2) by (simp add: in_i64_def height_bounded_def)
  then show ?thesis
    using b assms(2) by (simp add: next_start_ok_def GetNextSessionStartHeight_def
        GetSessionEndHeight_eq [OF assms] i64_id height_bounded_def)
qed

lemma supplier_services_valid:
  assumes "foldR (supplier_service_step f g) seen cs = Inr out"
  shows "list_all (\<lambda>c. c \<noteq> None \<and> no_slash (ServiceId (the c))) cs
    \<and> distinct (map (ServiceId \<circ> the) cs) \<and> set (map (ServiceId \<circ> the) cs) \<inter> set seen = {}"
  using assms
proof (induction cs arbitrary: seen)
  case Nil
  then show ?case by simp
next
  case (Cons c cs)
  then obtain s1 where s1: "supplier_service_step f g seen c = Inr s1"
    "foldR (supplier_service_step f g) s1 cs = Inr out" by (auto simp: res_simps)
  from s1(1) obtain sc where "c = Some sc" "s1 = ServiceId sc # seen" "ServiceId sc \<notin> set seen"
    "IsValidServiceId (ServiceId sc) = Inr ()"
    by (auto simp: supplier_service_step_def res_simps split: option.splits if_splits)
  then show ?case using Cons.IH [OF s1(2)] by (auto simp: IsValidServiceId_no_slash)
qed

lemma map_filter_all_Some: "list_all (\<lambda>c. c \<noteq> None) cs \<Longrightarrow> List.map_filter (\<lambda>c. c) cs = map the cs"
  by (induction cs) (auto simp: map_filter_simps)

lemma msg_services_ok:
  assumes "MsgStakeSupplier_ValidateBasic sdk urlParse msg = Inr ()"
  shows "\<forall>c \<in> set (msg_services msg). no_slash (ServiceId c)"
    and "distinct (map ServiceId (msg_services msg))"
    and "MSS_Services msg = map Some (msg_services msg)"
    and "MSS_Services msg \<noteq> [] \<longrightarrow> MSS_Signer msg = MSS_OperatorAddress msg"
proof -
  have "\<exists>out. foldR (supplier_service_step (isBech32 sdk) urlParse) [] (MSS_Services msg) = Inr out"
    using assms by (cases "MSS_Services msg = []")
      (auto simp: MsgStakeSupplier_ValidateBasic_def ValidateSupplierServiceConfigs_def res_simps
        split: option.splits if_splits)
  then have v: "list_all (\<lambda>c. c \<noteq> None \<and> no_slash (ServiceId (the c))) (MSS_Services msg)"
    "distinct (map (ServiceId \<circ> the) (MSS_Services msg))"
    using supplier_services_valid by blast+
  then have m: "msg_services msg = map the (MSS_Services msg)"
    by (simp add: msg_services_def map_filter_all_Some list_all_iff)
  show "\<forall>c \<in> set (msg_services msg). no_slash (ServiceId c)" using v(1) by (auto simp: m list_all_iff)
  show "distinct (map ServiceId (msg_services msg))" using v(2) by (simp add: m)
  show "MSS_Services msg = map Some (msg_services msg)"
    using v(1) by (auto simp: m list_all_iff intro!: map_idI [symmetric])
  show "MSS_Services msg \<noteq> [] \<longrightarrow> MSS_Signer msg = MSS_OperatorAddress msg"
    using assms by (auto simp: MsgStakeSupplier_ValidateBasic_def MSS_IsSigner_def res_simps split: if_splits)
qed

lemma new_config_updates_wf:
  assumes "\<forall>c \<in> set cs. no_slash (ServiceId c)" and "distinct (map ServiceId cs)"
    and "no_slash op" and "0 < b" and "b < 2 ^ 63"
  shows "history_wf op (new_config_updates op b cs)"
proof -
  have ok: "\<forall>u \<in> set (new_config_updates op b cs). config_ok u \<and> SCU_OperatorAddress u = op"
    using assms by (auto simp: new_config_updates_def config_ok_def)
  moreover have "distinct (map ServiceConfigUpdateKey (new_config_updates op b cs))"
  proof -
    have "distinct (map (\<lambda>u. ServiceId (SCU_Service u)) (new_config_updates op b cs))"
      using assms(2) by (simp add: new_config_updates_def comp_def)
    then have "inj_on (\<lambda>u. ServiceId (SCU_Service u)) (set (new_config_updates op b cs))"
      "distinct (new_config_updates op b cs)" by (simp_all add: distinct_map)
    moreover from this have "inj_on ServiceConfigUpdateKey (set (new_config_updates op b cs))"
      using ok by (auto simp: inj_on_def ServiceConfigUpdateKey_eq_iff)
    ultimately show ?thesis by (simp add: distinct_map)
  qed
  ultimately show ?thesis by (simp add: history_wf_def)
qed

lemma close_config_sels [simp]:
  "SCU_OperatorAddress (close_config b u) = SCU_OperatorAddress u" "SCU_Service (close_config b u) = SCU_Service u"
  "ActivationHeight (close_config b u) = ActivationHeight u"
  "ServiceConfigUpdateKey (close_config b u) = ServiceConfigUpdateKey u"
  by (simp_all add: close_config_def ServiceConfigUpdateKey_def)

lemma update_history_wf:
  assumes cs: "\<forall>c \<in> set cs. no_slash (ServiceId c)" "distinct (map ServiceId cs)"
    and op: "no_slash op" and b: "0 < b" "b < 2 ^ 63" and hist: "history_wf op hist"
  shows "history_wf op (new_config_updates op b cs @ kept_configs b (map ServiceId cs) hist)"
proof -
  let ?N = "new_config_updates op b cs" and ?K = "kept_configs b (map ServiceId cs) hist"
  note n = new_config_updates_wf [OF cs op b]
  have ok: "config_ok u \<and> SCU_OperatorAddress u = op" if "u \<in> set ?K" for u
    using that hist b by (auto simp: kept_configs_def history_wf_def close_config_def config_ok_def)
  have "map ServiceConfigUpdateKey ?K = map ServiceConfigUpdateKey (filter (\<lambda>u. \<not> (ActivationHeight u = b
      \<and> ServiceId (SCU_Service u) \<in> set (map ServiceId cs))) hist)"
    by (simp add: kept_configs_def comp_def)
  then have d: "distinct (map ServiceConfigUpdateKey ?K)"
    using hist by (simp add: history_wf_def distinct_map_filter)
  have "ServiceConfigUpdateKey u \<noteq> ServiceConfigUpdateKey v" if u: "u \<in> set ?N" and v: "v \<in> set ?K" for u v
  proof -
    have "ActivationHeight u = b \<and> ServiceId (SCU_Service u) \<in> set (map ServiceId cs)"
      using u by (auto simp: new_config_updates_def)
    moreover have "\<not> (ActivationHeight v = b \<and> ServiceId (SCU_Service v) \<in> set (map ServiceId cs))"
      using v by (auto simp: kept_configs_def)
    moreover have "config_ok u" "config_ok v" using u v n ok by (auto simp: history_wf_def)
    ultimately show ?thesis by (auto simp: ServiceConfigUpdateKey_eq_iff)
  qed
  then have "set (map ServiceConfigUpdateKey ?N) \<inter> set (map ServiceConfigUpdateKey ?K) = {}" by auto
  then show ?thesis using n d ok by (auto simp: history_wf_def)
qed

section \<open>Staking\<close>

lemma updateSupplier_Inr:
  assumes "updateSupplier h sh msg s = Inr s'"
  shows "OwnerAddress s' = MSS_OwnerAddress msg" and "OperatorAddress s' = OperatorAddress s"
    and "Supplier_Stake s' = (case MSS_Stake msg of None \<Rightarrow> Supplier_Stake s | Some c \<Rightarrow> c)"
    and "Supplier_UnstakeSessionEndHeight s' = Supplier_UnstakeSessionEndHeight s"
  using assms by (auto simp: updateSupplier_def Let_def res_simps split: if_splits)

lemma updateSupplier_history:
  assumes "updateSupplier h sh msg s = Inr s'" and "GetNextSessionStartHeight (GetParams sh) h = Inr b"
  shows "ServiceConfigHistory s' = (if MSS_Services msg = [] then ServiceConfigHistory s
    else new_config_updates (MSS_OperatorAddress msg) b (msg_services msg)
      @ kept_configs b (map ServiceId (msg_services msg)) (ServiceConfigHistory s))"
  using assms by (auto simp: updateSupplier_def Let_def res_simps split: if_splits)

lemma staked_supplier_Inr:
  assumes st: "staked_supplier h sh msg found = Inr (s, cur)"
    and v: "MsgStakeSupplier_ValidateBasic sdk urlParse msg = Inr ()"
    and slash: "bech32_no_slash sdk" and nx: "next_start_ok sh h"
    and f: "\<And>s0. found = Some s0 \<Longrightarrow> supplier_wf s0 \<and> OperatorAddress s0 = MSS_OperatorAddress msg"
  shows "supplier_wf s" and "OperatorAddress s = MSS_OperatorAddress msg" and "OwnerAddress s = MSS_OwnerAddress msg"
    and "case found of
        None \<Rightarrow> MSS_Stake msg = Some (Supplier_Stake s) \<and> cur = \<lparr>Denom = DenomuPOKT, Amount = 0\<rparr>
      | Some s0 \<Rightarrow> cur = Supplier_Stake s0
          \<and> Supplier_Stake s = (case MSS_Stake msg of None \<Rightarrow> Supplier_Stake s0 | Some c \<Rightarrow> c)"
proof -
  obtain b where b: "GetNextSessionStartHeight (GetParams sh) h = Inr b" "0 < b" "b < 2 ^ 63"
    using nx by (auto simp: next_start_ok_def)
  have op: "no_slash (MSS_OperatorAddress msg)"
    using v slash by (auto simp: MsgStakeSupplier_ValidateBasic_def bech32_no_slash_def split: if_splits)
  note ms = msg_services_ok [OF v]
  have "supplier_wf s \<and> OperatorAddress s = MSS_OperatorAddress msg \<and> OwnerAddress s = MSS_OwnerAddress msg
    \<and> (case found of
        None \<Rightarrow> MSS_Stake msg = Some (Supplier_Stake s) \<and> cur = \<lparr>Denom = DenomuPOKT, Amount = 0\<rparr>
      | Some s0 \<Rightarrow> cur = Supplier_Stake s0
          \<and> Supplier_Stake s = (case MSS_Stake msg of None \<Rightarrow> Supplier_Stake s0 | Some c \<Rightarrow> c))"
  proof (cases found)
    case None
    then show ?thesis
      using st b new_config_updates_wf [OF ms(1,2) op b(2,3)] op
      by (auto simp: staked_supplier_def createSupplier_def supplier_wf_def split: option.splits)
  next
    case (Some s0)
    from st Some obtain s1 where u: "updateSupplier h sh msg s0 = Inr s1"
      and s: "s = s1 \<or> s = s1\<lparr>Supplier_UnstakeSessionEndHeight := 0\<rparr>" and cur: "cur = Supplier_Stake s0"
      by (auto simp: staked_supplier_def res_simps split: if_splits)
    have "history_wf (MSS_OperatorAddress msg) (ServiceConfigHistory s1)"
      using updateSupplier_history [OF u b(1)] update_history_wf [OF ms(1,2) op b(2,3)] f [OF Some]
      by (auto simp: supplier_wf_def)
    then show ?thesis
      using updateSupplier_Inr [OF u] f [OF Some] op s cur Some by (auto simp: supplier_wf_def)
  qed
  then show "supplier_wf s" and "OperatorAddress s = MSS_OperatorAddress msg"
    and "OwnerAddress s = MSS_OwnerAddress msg"
    and "case found of
        None \<Rightarrow> MSS_Stake msg = Some (Supplier_Stake s) \<and> cur = \<lparr>Denom = DenomuPOKT, Amount = 0\<rparr>
      | Some s0 \<Rightarrow> cur = Supplier_Stake s0
          \<and> Supplier_Stake s = (case MSS_Stake msg of None \<Rightarrow> Supplier_Stake s0 | Some c \<Rightarrow> c)"
    by auto
qed

lemma Coin_Sub_Inr:
  "sdk_ok sdk \<Longrightarrow> Coin_Sub sdk a b = Inr c \<Longrightarrow> Denom a = Denom b \<and> Amount c = Amount a - Amount b"
  using sdk_okD(3) [of sdk a b c] by (auto simp: Coin_Sub_def split: sum.splits)

lemma reconcile_inflow:
  assumes "reconcileSupplierStakeDiff sdk p msg new cur log = Inr log'" and "sdk_ok sdk"
  shows "inflow ''supplier'' log' = inflow ''supplier'' log + Amount new - Amount cur"
  using assms
  by (auto simp: reconcileSupplierStakeDiff_def res_simps dest!: Coin_Sub_Inr split: if_splits option.splits)

lemma ValidatePositiveuPOKT_ok:
  assumes "sdk_ok sdk" and "ValidatePositiveuPOKT sdk c = Inr ()"
  shows "Denom c = DenomuPOKT" and "0 < Amount c"
  using assms(2) sdk_okD(1) [OF assms(1), of c]
  by (cases "parseCoinNormalized sdk c"; auto simp: ValidatePositiveuPOKT_def split: if_splits)+

lemma msg_stake_ok:
  assumes "sdk_ok sdk" and "MsgStakeSupplier_ValidateBasic sdk urlParse msg = Inr ()"
    and "MSS_Stake msg = Some c"
  shows "Denom c = DenomuPOKT" and "0 < Amount c"
proof -
  have "ValidatePositiveuPOKT sdk c = Inr ()"
    using assms(2,3) by (auto simp: MsgStakeSupplier_ValidateBasic_def res_simps split: if_splits)
  then show "Denom c = DenomuPOKT" and "0 < Amount c" using ValidatePositiveuPOKT_ok [OF assms(1)] by auto
qed

text \<open>What a successful \<open>StakeSupplier\<close> did.\<close>

lemma StakeSupplier_Inr:
  assumes "StakeSupplier sdk urlParse isMod h sh svc msg (st, log) = Inr (st', log')"
  obtains s cur log1 minStake fee where
    "MsgStakeSupplier_ValidateBasic sdk urlParse msg = Inr ()"
    and "staked_supplier h sh msg (GetSupplier st h (MSS_OperatorAddress msg)) = Inr (s, cur)"
    and "Supplier_MinStake (Supplier_GetParams st) = Some minStake" and "Amount minStake \<le> Amount (Supplier_Stake s)"
    and "reconcileSupplierStakeDiff sdk (Supplier_GetParams st) msg (Supplier_Stake s) cur log = Inr log1"
    and "StakingFee (Supplier_GetParams st) = Some fee"
    and "log' = log1 @ [SendFromAccountToModule (MSS_Signer msg) ''supplier'' fee]"
    and "st' = SetAndIndexDehydratedSupplier s st"
    and "\<forall>c \<in> set (MSS_Services msg). supplier_service_exists svc c = Inr ()"
    and "\<not> isMod (MSS_OwnerAddress msg)"
  using assms
  by (auto simp: StakeSupplier_def res_simps Let_def split: option.splits if_splits)

lemma StakeSupplier_ok:
  assumes run: "StakeSupplier sdk urlParse isMod h sh svc msg s0 = Inr s0'"
    and sdk: "sdk_ok sdk" "bech32_no_slash sdk" and nx: "next_start_ok sh h"
    and inv: "supplier_state_inv sdk f (fst s0)"
    and canon: "f (MSS_OperatorAddress msg) = MSS_OperatorAddress msg"
  shows "supplier_state_inv sdk f (fst s0')" and "supplier_escrow s0 \<le> supplier_escrow s0'"
    and "GetDehydratedSupplier (fst s0') x = None \<Longrightarrow> GetDehydratedSupplier (fst s0) x = None"
    and "GetDehydratedSupplier (fst s0') (MSS_OperatorAddress msg) \<noteq> None"
proof -
  obtain st log st' log' where s0: "s0 = (st, log)" "s0' = (st', log')" by (cases s0; cases s0')
  from StakeSupplier_Inr [OF run [unfolded s0]] obtain s cur log1 fee where
    v: "MsgStakeSupplier_ValidateBasic sdk urlParse msg = Inr ()"
    and g: "staked_supplier h sh msg (GetSupplier st h (MSS_OperatorAddress msg)) = Inr (s, cur)"
    and r: "reconcileSupplierStakeDiff sdk (Supplier_GetParams st) msg (Supplier_Stake s) cur log = Inr log1"
    and fee: "StakingFee (Supplier_GetParams st) = Some fee"
    and log': "log' = log1 @ [SendFromAccountToModule (MSS_Signer msg) ''supplier'' fee]"
    and st': "st' = SetAndIndexDehydratedSupplier s st" by metis
  have si: "sup_inv st" using inv s0 by (simp add: supplier_state_inv_def)
  have found: "supplier_wf x \<and> OperatorAddress x = MSS_OperatorAddress msg"
    if "GetSupplier st h (MSS_OperatorAddress msg) = Some x" for x
    using GetSupplier_cases [OF si that] by metis
  note i = staked_supplier_Inr [OF g v sdk(2) nx found]
  have stake: "Denom (Supplier_Stake s) = DenomuPOKT \<and> 0 < Amount (Supplier_Stake s)
      \<and> Amount cur = (case sups.find st (OperatorAddress s) of None \<Rightarrow> 0 | Some d \<Rightarrow> Amount (Supplier_Stake d))"
  proof (cases "GetSupplier st h (MSS_OperatorAddress msg)")
    case None
    then have "sups.find st (MSS_OperatorAddress msg) = None"
      using GetSupplier_None_iff by (simp add: GetDehydratedSupplier_find)
    then show ?thesis using None i(2,4) msg_stake_ok [OF sdk(1) v] by simp
  next
    case (Some x)
    obtain d where d: "GetDehydratedSupplier st (MSS_OperatorAddress msg) = Some d" "dehydrated x = d"
      using GetSupplier_cases [OF si Some] by metis
    have "staked_ok sdk f d" using inv d(1) s0 by (auto simp: supplier_state_inv_def)
    then show ?thesis
      using i(2,4) Some d msg_stake_ok [OF sdk(1) v]
      by (auto simp: staked_ok_def GetDehydratedSupplier_find split: option.splits)
  qed
  have "isBech32 sdk (MSS_OwnerAddress msg)" "isBech32 sdk (MSS_OperatorAddress msg)"
    using v by (auto simp: MsgStakeSupplier_ValidateBasic_def split: if_splits)
  then have ok: "staked_ok sdk f s" using stake i(2,3) canon by (simp add: staked_ok_def)
  have "0 \<le> Amount fee"
    using inv s0 fee
    by (auto simp: supplier_state_inv_def supplier_params_ok_def Supplier_GetParams_def Supplier_Params_Validate_def
        ValidateStakingFee_def paramAsPositiveuPOKT_def res_simps split: option.splits if_splits)
  moreover have "sups.stakes st' = sups.stakes st + Amount (Supplier_Stake s) - Amount cur"
    using sups.stakes_put [OF sup_inv_store_ok [OF si], of s] stake by (simp add: st')
  ultimately show "supplier_escrow s0 \<le> supplier_escrow s0'"
    using reconcile_inflow [OF r sdk(1)] by (simp add: log' s0 supplier_escrow_def)
  show "supplier_state_inv sdk f (fst s0')"
    using state_inv_put [OF inv i(1) ok] st' s0 by simp
  show "GetDehydratedSupplier (fst s0') x = None \<Longrightarrow> GetDehydratedSupplier (fst s0) x = None"
    and "GetDehydratedSupplier (fst s0') (MSS_OperatorAddress msg) \<noteq> None"
    using i(2) by (auto simp: s0 st' GetDehydratedSupplier_find sups.find_put split: if_splits)
qed

lemma StakeSupplier_keeps:
  assumes "StakeSupplier sdk urlParse isMod h sh svc msg s0 = Inr s0'"
    and "sdk_ok sdk" and "bech32_no_slash sdk" and "next_start_ok sh h"
    and "supplier_chain_inv sdk f s0" and "f (MSS_OperatorAddress msg) = MSS_OperatorAddress msg"
  shows "supplier_chain_inv sdk f s0'"
  using StakeSupplier_ok(1,2) [where f = f, OF assms(1-4) _ assms(6)] assms(5)
  by (simp add: supplier_chain_inv_def)

section \<open>Unstaking and parameters\<close>

lemma UnstakeSupplier_Inr:
  assumes "UnstakeSupplier sdk h sh signer op (st, log) = Inr (st', log')"
  obtains s e b where "GetSupplier st h op = Some s" and "HasOperator s signer \<or> HasOwner s signer"
    and "\<not> Supplier_IsUnbonding s" and "GetSessionEndHeight (GetParams sh) h = Inr e"
    and "GetNextSessionStartHeight (GetParams sh) h = Inr b" and "log' = log"
    and "st' = SetAndIndexDehydratedSupplier (unstaked_supplier e b s) st"
  using assms by (auto simp: UnstakeSupplier_def res_simps split: option.splits if_splits)

lemma unstaked_supplier_sels [simp]:
  "OperatorAddress (unstaked_supplier e b s) = OperatorAddress s"
  "OwnerAddress (unstaked_supplier e b s) = OwnerAddress s"
  "Supplier_Stake (unstaked_supplier e b s) = Supplier_Stake s"
  by (simp_all add: unstaked_supplier_def)

lemma unstaked_supplier_wf:
  assumes "supplier_wf s" and "0 < b" and "b < 2 ^ 63"
  shows "supplier_wf (unstaked_supplier e b s)"
proof -
  have "ServiceConfigUpdateKey \<circ> DeactivationHeight_update (\<lambda>_. b) = ServiceConfigUpdateKey"
    by (simp add: fun_eq_iff ServiceConfigUpdateKey_def)
  then show ?thesis
    using assms by (auto simp: supplier_wf_def history_wf_def unstaked_supplier_def config_ok_def)
qed

lemma UnstakeSupplier_ok:
  assumes run: "UnstakeSupplier sdk h sh signer op s0 = Inr s0'" and nx: "next_start_ok sh h"
    and inv: "supplier_state_inv sdk f (fst s0)"
  shows "supplier_state_inv sdk f (fst s0')" and "supplier_escrow s0' = supplier_escrow s0"
    and "GetDehydratedSupplier (fst s0') x = None \<longleftrightarrow> GetDehydratedSupplier (fst s0) x = None"
proof -
  obtain st log st' log' where s0: "s0 = (st, log)" "s0' = (st', log')" by (cases s0; cases s0')
  obtain s e b where s: "GetSupplier st h op = Some s" "log' = log"
    and b: "GetNextSessionStartHeight (GetParams sh) h = Inr b"
    and st': "st' = SetAndIndexDehydratedSupplier (unstaked_supplier e b s) st"
    using UnstakeSupplier_Inr [OF run [unfolded s0]] by metis
  have si: "sup_inv st" using inv s0 by (simp add: supplier_state_inv_def)
  obtain d where d: "GetDehydratedSupplier st op = Some d" "dehydrated s = d" "OperatorAddress s = op"
    "supplier_wf s" using GetSupplier_cases [OF si s(1)] by metis
  have "0 < b" "b < 2 ^ 63" using nx b by (auto simp: next_start_ok_def)
  note wf = unstaked_supplier_wf [OF d(4) this, of e]
  have ok: "staked_ok sdk f d" using inv d(1) s0 by (auto simp: supplier_state_inv_def)
  then have "staked_ok sdk f s" using d(2) staked_ok_dehydrated by blast
  then have oku: "staked_ok sdk f (unstaked_supplier e b s)" by (simp add: staked_ok_def)
  have "Supplier_Stake s = Supplier_Stake d" using d(2) by auto
  then have "sups.stakes st' = sups.stakes st"
    using sups.stakes_keep [OF sup_inv_store_ok [OF si], of "unstaked_supplier e b s" d] d
    by (simp add: st' GetDehydratedSupplier_find)
  then show "supplier_escrow s0' = supplier_escrow s0" using s0 s(2) by (simp add: supplier_escrow_def)
  show "supplier_state_inv sdk f (fst s0')"
    using state_inv_put [OF inv wf oku] st' s0 by simp
  show "GetDehydratedSupplier (fst s0') x = None \<longleftrightarrow> GetDehydratedSupplier (fst s0) x = None"
    using d(1,3) by (auto simp: s0 st' GetDehydratedSupplier_find sups.find_put)
qed

lemma UnstakeSupplier_keeps:
  assumes "UnstakeSupplier sdk h sh signer op s0 = Inr s0'" and "next_start_ok sh h"
    and "supplier_chain_inv sdk f s0"
  shows "supplier_chain_inv sdk f s0'"
  using UnstakeSupplier_ok(1,2) [where f = f, OF assms(1,2)] assms(3) by (simp add: supplier_chain_inv_def)

lemma SetParams_ok:
  assumes "supplier_state_inv sdk f st" and "Supplier_Params_Validate p = Inr ()"
  shows "supplier_state_inv sdk f (Supplier_SetParams p st)"
    and "supplier_escrow (Supplier_SetParams p st, log) = supplier_escrow (st, log)"
    and "GetDehydratedSupplier (Supplier_SetParams p st) x = GetDehydratedSupplier st x"
  using assms
  by (simp_all add: supplier_state_inv_def sup_inv_def config_indexes_ok_def unstaking_exact_def
      GetDehydratedSupplier_def supplier_params_ok_def supplier_escrow_def sups.stakes_def
      Supplier_SetParams_def)

lemma SetParams_keeps:
  assumes "supplier_chain_inv sdk f (st, log)" and "Supplier_Params_Validate p = Inr ()"
  shows "supplier_chain_inv sdk f (Supplier_SetParams p st, log)"
  using SetParams_ok(1,2) [where f = f and sdk = sdk, OF _ assms(2)] assms(1) by (simp add: supplier_chain_inv_def)

lemma Supplier_UpdateParam_Inr:
  "Supplier_UpdateParam sdk authority msg st = Inr st' \<Longrightarrow>
    \<exists>p. Supplier_Params_Validate p = Inr () \<and> st' = Supplier_SetParams p st \<and> authority = MSU_Sup_Authority msg"
  by (auto simp: Supplier_UpdateParam_def res_simps Let_def split: if_splits)

lemma Supplier_UpdateParams_Inr:
  "Supplier_UpdateParams sdk authority a p st = Inr st' \<Longrightarrow>
    Supplier_Params_Validate p = Inr () \<and> st' = Supplier_SetParams p st \<and> authority = a"
  by (auto simp: Supplier_UpdateParams_def res_simps split: if_splits)

section \<open>Unbonding\<close>

text \<open>A supplier whose unbonding period, counted with the parameters of its unstaking, is over.\<close>

definition unbonding_due :: "shared_state \<Rightarrow> int \<Rightarrow> supplier \<Rightarrow> bool" where
  "unbonding_due sh h s \<longleftrightarrow> Supplier_IsUnbonding s \<and> GetSupplierUnbondingEndHeight
     (GetParamsAtHeight sh (int64_of (Supplier_UnstakeSessionEndHeight s))) s \<le> h"

text \<open>The payouts the bank accepts, in order.\<close>

definition payout :: "supplier \<Rightarrow> bank_call" where
  "payout s = SendFromModuleToAccount ''supplier'' (OwnerAddress s) (Supplier_Stake s)"

definition pay_stake :: "sdk \<Rightarrow> supplier \<Rightarrow> bank_log \<Rightarrow> bank_log" where
  "pay_stake sdk s log = (if bankAccepts sdk log (payout s) then log @ [payout s] else log)"

lemma session_end_total:
  "NumBlocksPerSession p \<noteq> 0 \<Longrightarrow> \<exists>e. GetSessionEndHeight p h = Inr e"
  using session_heights_total(1) .

lemma release_supplier_stake_eq:
  assumes "0 < Amount (Supplier_Stake s)" and "NumBlocksPerSession (GetParams sh) \<noteq> 0"
  shows "release_supplier_stake sdk h sh s log = Inr (pay_stake sdk s log)"
  using assms session_end_total [OF assms(2), of h]
  by (auto simp: release_supplier_stake_def pay_stake_def payout_def bank_do_def)

lemma unbond_supplier_step_eq:
  assumes "GetDehydratedSupplier st (OperatorAddress s) = Some s" and "Supplier_IsUnbonding s"
    and "staked_ok sdk f s" and "NumBlocksPerSession (GetParams sh) \<noteq> 0"
  shows "unbond_supplier_step sdk f h sh ((st, log), n) (OperatorAddress s)
    = (if unbonding_due sh h s
       then Inr ((RemoveSupplier (OperatorAddress s) st, pay_stake sdk s log), n + 1)
       else Inr ((st, log), n))"
  using assms session_end_total [OF assms(4), of h]
  by (auto simp: unbond_supplier_step_def Let_def unbonding_due_def staked_ok_def release_supplier_stake_eq)

lemma GetDehydrated_RemoveSupplier:
  "GetDehydratedSupplier (RemoveSupplier op st) x = (if x = op then None else GetDehydratedSupplier st x)"
  by (simp add: GetDehydratedSupplier_def RemoveSupplier_store SupplierOperatorKey_def kv_simps)

lemma unbond_loop:
  assumes "\<forall>s \<in> set us. GetDehydratedSupplier st (OperatorAddress s) = Some s
      \<and> Supplier_IsUnbonding s \<and> staked_ok sdk f s"
    and "distinct (map OperatorAddress us)" and "NumBlocksPerSession (GetParams sh) \<noteq> 0"
  shows "foldR (unbond_supplier_step sdk f h sh) ((st, log), n) (map OperatorAddress us)
    = Inr ((fold (\<lambda>s. RemoveSupplier (OperatorAddress s)) (filter (unbonding_due sh h) us) st,
            fold (pay_stake sdk) (filter (unbonding_due sh h) us) log),
           n + length (filter (unbonding_due sh h) us))"
  using assms
proof (induction us arbitrary: st log n)
  case Nil
  then show ?case by simp
next
  case (Cons s us)
  have e: "unbond_supplier_step sdk f h sh ((st, log), n) (OperatorAddress s)
    = (if unbonding_due sh h s
       then Inr ((RemoveSupplier (OperatorAddress s) st, pay_stake sdk s log), n + 1)
       else Inr ((st, log), n))"
    using Cons.prems by (intro unbond_supplier_step_eq) auto
  show ?case
  proof (cases "unbonding_due sh h s")
    case True
    have "OperatorAddress t \<noteq> OperatorAddress s" if "t \<in> set us" for t
      using that Cons.prems(2) by (metis distinct.simps(2) imageI list.set_map list.simps(9))
    then have "\<forall>t \<in> set us. GetDehydratedSupplier (RemoveSupplier (OperatorAddress s) st) (OperatorAddress t) = Some t
        \<and> Supplier_IsUnbonding t \<and> staked_ok sdk f t"
      using Cons.prems(1) unfolding GetDehydrated_RemoveSupplier by simp
    note IH = Cons.IH [OF this _ Cons.prems(3), of "pay_stake sdk s log" "n + 1"]
    show ?thesis using IH Cons.prems(2) True by (simp add: e)
  next
    case False
    then show ?thesis using Cons.IH [OF _ _ Cons.prems(3), of st log n] Cons.prems(1,2) by (simp add: e)
  qed
qed

text \<open>The unstaking index lists the unbonding suppliers in the order of the store.\<close>

definition stored_suppliers :: "supplier_state \<Rightarrow> supplier list" where
  "stored_suppliers st = map snd (SupplierStore st)"

lemma map_of_map_filter:
  "distinct (map fst s) \<Longrightarrow> map_of (map (\<lambda>(k, v). (k, g v)) (filter (\<lambda>e. P (snd e)) s)) k
    = (case map_of s k of None \<Rightarrow> None | Some v \<Rightarrow> if P v then Some (g v) else None)"
  by (induction s) (auto split: option.splits simp: map_of_eq_None_iff[symmetric])

lemma unstaking_list:
  assumes "sup_inv st"
  shows "GetAllUnstakingSuppliersIterator st
    = map OperatorAddress (filter Supplier_IsUnbonding (stored_suppliers st))"
proof -
  let ?s = "SupplierStore st"
  let ?m = "map (\<lambda>(k, v). (k, OperatorAddress v)) (filter (\<lambda>e. Supplier_IsUnbonding (snd e)) ?s)"
  have ok: "kv_ok ?s" and ex: "unstaking_exact st"
    using assms by (simp_all add: sup_inv_def keyed_def)
  have fst_m: "map fst ?m = map fst (filter (\<lambda>e. Supplier_IsUnbonding (snd e)) ?s)"
    by (simp add: case_prod_beta comp_def)
  have m: "kv_ok ?m"
    using kv_ok_filter [OF ok, of "\<lambda>e. Supplier_IsUnbonding (snd e)"] unfolding kv_ok_def fst_m .
  have "map_of (UnstakingIndex st) k = map_of ?m k" for k
  proof (rule option.expand)
    have mm: "map_of ?m k = (case map_of ?s k of None \<Rightarrow> None
        | Some v \<Rightarrow> if Supplier_IsUnbonding v then Some (OperatorAddress v) else None)"
      using kv_ok_distinct [OF ok] by (rule map_of_map_filter)
    have ix: "map_of (UnstakingIndex st) k = Some a \<longleftrightarrow>
        (\<exists>s. map_of ?s k = Some s \<and> Supplier_IsUnbonding s \<and> OperatorAddress s = a)" for a
      using ex by (simp add: unstaking_exact_def)
    then have same: "map_of (UnstakingIndex st) k = Some a \<longleftrightarrow> map_of ?m k = Some a" for a
      unfolding mm by (auto split: option.splits)
    then show "(map_of (UnstakingIndex st) k = None) = (map_of ?m k = None)" by (metis not_None_eq)
    show "the (map_of (UnstakingIndex st) k) = the (map_of ?m k)"
      if "map_of (UnstakingIndex st) k \<noteq> None" "map_of ?m k \<noteq> None"
      using that same by (metis not_None_eq)
  qed
  then have "UnstakingIndex st = ?m"
    using ex m by (intro kv_ext) (auto simp: unstaking_exact_def)
  then show ?thesis
    by (simp add: GetAllUnstakingSuppliersIterator_def stored_suppliers_def filter_map comp_def case_prod_beta)
qed

lemma stored_find:
  assumes "sup_inv st"
  shows "s \<in> set (stored_suppliers st) \<longleftrightarrow> GetDehydratedSupplier st (OperatorAddress s) = Some s"
proof -
  have k: "keyed OperatorAddress (SupplierStore st)" using assms by (simp add: sup_inv_def)
  then have ok: "kv_ok (SupplierStore st)" by (simp add: keyed_def)
  show ?thesis
  proof
    assume "s \<in> set (stored_suppliers st)"
    then obtain key where e: "(key, s) \<in> set (SupplierStore st)" by (auto simp: stored_suppliers_def)
    then have "key = StringKey (OperatorAddress s)" using k by (auto simp: keyed_def)
    then show "GetDehydratedSupplier st (OperatorAddress s) = Some s"
      using e kv_ok_map_of [OF ok] by (simp add: GetDehydratedSupplier_def SupplierOperatorKey_def)
  next
    assume "GetDehydratedSupplier st (OperatorAddress s) = Some s"
    then show "s \<in> set (stored_suppliers st)"
      by (force simp: GetDehydratedSupplier_def stored_suppliers_def dest!: map_of_SomeD)
  qed
qed

lemma stored_distinct:
  assumes "sup_inv st"
  shows "distinct (map OperatorAddress (stored_suppliers st))"
proof -
  have k: "keyed OperatorAddress (SupplierStore st)" using assms by (simp add: sup_inv_def)
  have "map fst (SupplierStore st) = map StringKey (map OperatorAddress (stored_suppliers st))"
    using k by (auto simp: keyed_def stored_suppliers_def)
  moreover have "distinct (map fst (SupplierStore st))" using k by (simp add: keyed_def kv_ok_distinct)
  ultimately have "distinct (map StringKey (map OperatorAddress (stored_suppliers st)))" by (simp only:)
  then show ?thesis using distinct_map by blast
qed

definition due_suppliers :: "shared_state \<Rightarrow> int \<Rightarrow> supplier_state \<Rightarrow> supplier list" where
  "due_suppliers sh h st = filter (unbonding_due sh h) (stored_suppliers st)"

lemma due_is_unbonding:
  "filter (\<lambda>s. Supplier_IsUnbonding s \<and> unbonding_due sh h s) us = filter (unbonding_due sh h) us"
  by (auto simp: unbonding_due_def intro!: filter_cong)

lemma EndBlockerUnbondSuppliers_eq:
  assumes inv: "supplier_chain_inv sdk f (st, log)" and n: "NumBlocksPerSession (GetParams sh) \<noteq> 0"
  shows "EndBlockerUnbondSuppliers sdk f h sh (st, log)
    = (if IsSessionEndHeight (GetParams sh) h = Inr True
       then Inr ((fold (\<lambda>s. RemoveSupplier (OperatorAddress s)) (due_suppliers sh h st) st,
                  fold (pay_stake sdk) (due_suppliers sh h st) log), length (due_suppliers sh h st))
       else Inr ((st, log), 0))"
proof -
  obtain b where b: "IsSessionEndHeight (GetParams sh) h = Inr b" using session_heights_total(3) [OF n] by blast
  have si: "sup_inv st" using inv by (simp add: supplier_chain_inv_iff)
  let ?us = "filter Supplier_IsUnbonding (stored_suppliers st)"
  have "\<forall>s \<in> set ?us. GetDehydratedSupplier st (OperatorAddress s) = Some s
      \<and> Supplier_IsUnbonding s \<and> staked_ok sdk f s"
    using inv stored_find [OF si] by (auto simp: supplier_chain_inv_iff)
  moreover have "distinct (map OperatorAddress ?us)" using stored_distinct [OF si] by (simp add: distinct_map_filter)
  ultimately show ?thesis
    using unbond_loop [of ?us st sdk f sh h log 0] n b
    by (simp add: EndBlockerUnbondSuppliers_def unstaking_list [OF si] due_suppliers_def due_is_unbonding)
qed

lemma fold_RemoveSupplier_ok:
  assumes "sup_inv st" and "\<forall>s \<in> set us. no_slash (OperatorAddress s)"
  defines "st' \<equiv> fold (\<lambda>s. RemoveSupplier (OperatorAddress s)) us st"
  shows "sup_inv st' \<and> configs st' = {u \<in> configs st. SCU_OperatorAddress u \<notin> OperatorAddress ` set us}
    \<and> (\<forall>x. GetDehydratedSupplier st' x
         = (if x \<in> OperatorAddress ` set us then None else GetDehydratedSupplier st x))
    \<and> SupplierParams st' = SupplierParams st"
  using assms(1,2) unfolding st'_def
proof (induction us arbitrary: st)
  case Nil
  then show ?case by simp
next
  case (Cons s us)
  have op: "no_slash (OperatorAddress s)" using Cons.prems(2) by simp
  note r = RemoveSupplier_ok [OF Cons.prems(1) op]
  show ?case
    using Cons.IH [OF r(1)] Cons.prems(2) r(2,4)
    by (auto simp: GetDehydrated_RemoveSupplier)
qed

text \<open>Each removal lowers the recorded stakes by what the payout takes out, or by more.\<close>

lemma fold_release_escrow:
  assumes "sup_inv st" and "\<forall>s \<in> set us. no_slash (OperatorAddress s)
      \<and> GetDehydratedSupplier st (OperatorAddress s) = Some s \<and> 0 \<le> Amount (Supplier_Stake s)"
    and "distinct (map OperatorAddress us)"
  shows "supplier_escrow (st, log) \<le> supplier_escrow
     (fold (\<lambda>s. RemoveSupplier (OperatorAddress s)) us st, fold (pay_stake sdk) us log)"
  using assms
proof (induction us arbitrary: st log)
  case Nil
  then show ?case by simp
next
  case (Cons s us)
  let ?st = "RemoveSupplier (OperatorAddress s) st" and ?log = "pay_stake sdk s log"
  have op: "no_slash (OperatorAddress s)" using Cons.prems(2) by simp
  have "OperatorAddress t \<noteq> OperatorAddress s" if "t \<in> set us" for t
    using that Cons.prems(3) by (metis distinct.simps(2) imageI list.set_map list.simps(9))
  then have rest: "\<forall>t \<in> set us. no_slash (OperatorAddress t)
      \<and> GetDehydratedSupplier ?st (OperatorAddress t) = Some t \<and> 0 \<le> Amount (Supplier_Stake t)"
    using Cons.prems(2) unfolding GetDehydrated_RemoveSupplier by simp
  have "sups.stakes ?st = sups.stakes st - Amount (Supplier_Stake s)"
    using sups.stakes_release [OF sup_inv_store_ok [OF Cons.prems(1)], of s s] Cons.prems(2)
    by (simp add: GetDehydratedSupplier_find)
  then have "supplier_escrow (st, log) \<le> supplier_escrow (?st, ?log)"
    using Cons.prems(2) by (simp add: supplier_escrow_def pay_stake_def payout_def)
  also have "\<dots> \<le> supplier_escrow (fold (\<lambda>s. RemoveSupplier (OperatorAddress s)) us ?st, fold (pay_stake sdk) us ?log)"
    using Cons.prems(3) by (intro Cons.IH [OF RemoveSupplier_ok(1) [OF Cons.prems(1) op] rest]) simp
  finally show ?case by simp
qed

lemma EndBlockerUnbondSuppliers_keeps:
  assumes inv: "supplier_chain_inv sdk f s" and n: "NumBlocksPerSession (GetParams sh) \<noteq> 0"
    and run: "EndBlockerUnbondSuppliers sdk f h sh s = Inr (s', k)"
  shows "supplier_chain_inv sdk f s'"
proof -
  obtain st log where s: "s = (st, log)" by (cases s)
  have si: "sup_inv st" using inv s by (simp add: supplier_chain_inv_iff)
  let ?us = "due_suppliers sh h st"
  have us: "\<forall>t \<in> set ?us. no_slash (OperatorAddress t)
      \<and> GetDehydratedSupplier st (OperatorAddress t) = Some t \<and> 0 \<le> Amount (Supplier_Stake t)"
  proof
    fix t assume "t \<in> set ?us"
    then have t: "GetDehydratedSupplier st (OperatorAddress t) = Some t"
      using stored_find [OF si] by (simp add: due_suppliers_def)
    then have "staked_ok sdk f t" using inv s by (auto simp: supplier_chain_inv_iff)
    then show "no_slash (OperatorAddress t) \<and> GetDehydratedSupplier st (OperatorAddress t) = Some t
        \<and> 0 \<le> Amount (Supplier_Stake t)"
      using t GetDehydratedSupplier_ok(3) [OF si t] by (simp add: staked_ok_def)
  qed
  have d: "distinct (map OperatorAddress ?us)"
    using stored_distinct [OF si] by (simp add: due_suppliers_def distinct_map_filter)
  note e = fold_release_escrow [OF si us d, of log sdk]
  let ?st = "fold (\<lambda>s. RemoveSupplier (OperatorAddress s)) ?us st"
  have f: "sup_inv ?st" "SupplierParams ?st = SupplierParams st"
    "GetDehydratedSupplier ?st x = Some t \<Longrightarrow> GetDehydratedSupplier st x = Some t" for x t
    using fold_RemoveSupplier_ok [OF si, of ?us] us by (auto split: if_splits)
  have "s' = (?st, fold (pay_stake sdk) ?us log) \<or> s' = (st, log)"
    using run EndBlockerUnbondSuppliers_eq [OF inv [unfolded s] n, of h] by (auto simp: s split: if_splits)
  moreover have "\<forall>x t. GetDehydratedSupplier ?st x = Some t \<longrightarrow> staked_ok sdk f t"
    using f(3) inv [unfolded s supplier_chain_inv_iff fst_conv] by blast
  ultimately show ?thesis
    using inv e f(1,2) by (auto simp: s supplier_chain_inv_iff supplier_params_ok_def)
qed

section \<open>Unbonding under any operator addresses\<close>

text \<open>
  Whatever texts the operator addresses are stored under, a step of the unbonding loop keeps the
  state well formed and removes no supplier but one that is stored under a canonical text.
\<close>

lemma unbond_supplier_step_keeps:
  assumes inv: "supplier_state_inv sdk (\<lambda>a. a) (fst s)"
    and run: "unbond_supplier_step sdk f h sh (s, n) op = Inr (s', n')"
  shows "supplier_state_inv sdk (\<lambda>a. a) (fst s')"
    and "GetDehydratedSupplier (fst s) x \<noteq> None \<Longrightarrow> x \<notin> range f \<Longrightarrow> GetDehydratedSupplier (fst s') x \<noteq> None"
proof -
  obtain st log where s: "s = (st, log)" by (cases s)
  have si: "sup_inv st" using inv by (simp add: s supplier_state_inv_def)
  obtain d where d: "GetDehydratedSupplier st op = Some d"
    using run by (auto simp: s unbond_supplier_step_def split: option.splits)
  have op: "OperatorAddress d = op" by (rule GetDehydratedSupplier_ok(1) [OF si d])
  have "\<not> Supplier_IsUnbonding d \<Longrightarrow> removeSupplierUnstakingHeightIndex op st = st"
  proof -
    assume n: "\<not> Supplier_IsUnbonding d"
    have "map_of (UnstakingIndex st) (StringKey op) = None"
    proof (rule ccontr)
      assume "\<not> ?thesis"
      then obtain a where "map_of (UnstakingIndex st) (StringKey op) = Some a" by blast
      then show False
        using si d n by (auto simp: sup_inv_def unstaking_exact_def GetDehydratedSupplier_def SupplierOperatorKey_def)
    qed
    then show ?thesis
      by (simp add: removeSupplierUnstakingHeightIndex_def SupplierOperatorKey_def kv_del_absent)
  qed
  then consider "fst s' = st" | "fst s' = RemoveSupplier (f op) st"
    using run d op by (auto simp: s unbond_supplier_step_def Let_def res_simps split: if_splits)
  then have "supplier_state_inv sdk (\<lambda>a. a) (fst s')
    \<and> (GetDehydratedSupplier st x \<noteq> None \<longrightarrow> x \<notin> range f \<longrightarrow> GetDehydratedSupplier (fst s') x \<noteq> None)"
  proof cases
    case 1
    then show ?thesis using inv s by simp
  next
    case 2
    then show ?thesis
      using inv RemoveSupplier_any [OF si, of "f op"]
      by (auto simp: s supplier_state_inv_def supplier_params_ok_def GetDehydrated_RemoveSupplier split: if_splits)
  qed
  then show "supplier_state_inv sdk (\<lambda>a. a) (fst s')"
    and "GetDehydratedSupplier (fst s) x \<noteq> None \<Longrightarrow> x \<notin> range f \<Longrightarrow> GetDehydratedSupplier (fst s') x \<noteq> None"
    by (simp_all add: s)
qed

lemma unbond_loop_keeps:
  assumes "supplier_state_inv sdk (\<lambda>a. a) (fst s)"
    and "foldR (unbond_supplier_step sdk f h sh) (s, n) ops = Inr (s', n')"
  shows "supplier_state_inv sdk (\<lambda>a. a) (fst s')
    \<and> (GetDehydratedSupplier (fst s) x \<noteq> None \<longrightarrow> x \<notin> range f \<longrightarrow> GetDehydratedSupplier (fst s') x \<noteq> None)"
  using assms
proof (induction ops arbitrary: s n)
  case Nil
  then show ?case by simp
next
  case (Cons op ops)
  then obtain s1 n1 where one: "unbond_supplier_step sdk f h sh (s, n) op = Inr (s1, n1)"
    and rest: "foldR (unbond_supplier_step sdk f h sh) (s1, n1) ops = Inr (s', n')"
    by (auto simp: res_simps)
  note k = unbond_supplier_step_keeps [OF Cons.prems(1) one]
  show ?case using Cons.IH [OF k(1) rest] k(2) by blast
qed

lemma EndBlockerUnbond_keeps:
  assumes "supplier_state_inv sdk (\<lambda>a. a) (fst s)" and "EndBlockerUnbondSuppliers sdk f h sh s = Inr (s', k)"
  shows "supplier_state_inv sdk (\<lambda>a. a) (fst s')"
    and "GetDehydratedSupplier (fst s) x \<noteq> None \<Longrightarrow> x \<notin> range f \<Longrightarrow> GetDehydratedSupplier (fst s') x \<noteq> None"
  using assms unbond_loop_keeps [OF assms(1), of f h sh 0 _ s' k x]
  by (auto simp: EndBlockerUnbondSuppliers_def res_simps split: if_splits)

text \<open>Every stored operator address is the canonical text of its address.\<close>

definition canonical_operators :: "(string \<Rightarrow> string) \<Rightarrow> supplier_state \<Rightarrow> bool" where
  "canonical_operators accAddressString st \<longleftrightarrow>
     list_all (\<lambda>s. accAddressString (OperatorAddress s) = OperatorAddress s) (stored_suppliers st)"

lemma canonical_iff:
  assumes "sup_inv st"
  shows "canonical_operators f st \<longleftrightarrow> (\<forall>x. GetDehydratedSupplier st x \<noteq> None \<longrightarrow> f x = x)"
proof
  assume c: "canonical_operators f st"
  show "\<forall>x. GetDehydratedSupplier st x \<noteq> None \<longrightarrow> f x = x"
  proof (intro allI impI)
    fix x assume "GetDehydratedSupplier st x \<noteq> None"
    then obtain s where s: "GetDehydratedSupplier st x = Some s" by blast
    then have "OperatorAddress s = x" by (rule GetDehydratedSupplier_ok(1) [OF assms])
    then show "f x = x" using c s stored_find [OF assms, of s] by (auto simp: canonical_operators_def list_all_iff)
  qed
next
  assume "\<forall>x. GetDehydratedSupplier st x \<noteq> None \<longrightarrow> f x = x"
  then show "canonical_operators f st"
    using stored_find [OF assms] by (auto simp: canonical_operators_def list_all_iff)
qed

lemma canonical_state_inv:
  "supplier_state_inv sdk (\<lambda>a. a) st \<Longrightarrow> canonical_operators f st \<Longrightarrow> supplier_state_inv sdk f st"
  using canonical_iff [of st f] GetDehydratedSupplier_ok(1) [of st]
  by (fastforce simp: supplier_state_inv_def staked_ok_def)

section \<open>Pruning\<close>

text \<open>A deactivated configuration whose last proof window closed before the block.\<close>

definition prunable :: "shared_state \<Rightarrow> int \<Rightarrow> service_config_update \<Rightarrow> bool" where
  "prunable sh h u \<longleftrightarrow> DeactivationHeight u \<noteq> 0 \<and> DeactivationHeight u \<le> h
     \<and> (case GetProofWindowCloseHeight (GetParamsAtHeight sh (DeactivationHeight u - 1)) (DeactivationHeight u - 1) of
          Inl _ \<Rightarrow> False | Inr c \<Rightarrow> c < h)"

definition epochs_total :: "shared_state \<Rightarrow> bool" where
  "epochs_total sh \<longleftrightarrow> (\<forall>h. NumBlocksPerSession (GetParamsAtHeight sh h) \<noteq> 0)"

lemma proof_window_total:
  "NumBlocksPerSession p \<noteq> 0 \<Longrightarrow> \<exists>c. GetProofWindowCloseHeight p h = Inr c"
  using session_end_total [of p h]
  by (auto simp: GetProofWindowCloseHeight_def GetProofWindowOpenHeight_def GetClaimWindowCloseHeight_def
      GetClaimWindowOpenHeight_def)

lemma PutUint64_append_less_iff:
  assumes "length a = length (b :: string)"
  shows "a @ x < b \<longleftrightarrow> a < b"
  using assms
proof (induction a b rule: list_induct2)
  case Nil
  then show ?case by simp
next
  case (Cons c a d b)
  then show ?case by simp
qed

lemma deactivation_key_less:
  assumes "config_ok u" and "0 \<le> h" and "h < 2 ^ 63 - 1"
  shows "ServiceConfigUpdateDeactivationHeightKey u < PutUint64 (i64 (h + 1)) \<longleftrightarrow> DeactivationHeight u \<le> h"
proof -
  have h: "i64 (h + 1) = h + 1" using assms(2,3) by (intro i64_id) (simp add: in_i64_def)
  have "ServiceConfigUpdateDeactivationHeightKey u < PutUint64 (h + 1) \<longleftrightarrow>
      PutUint64 (DeactivationHeight u) < PutUint64 (h + 1)"
    by (simp add: ServiceConfigUpdateDeactivationHeightKey_def IntKey_def PutUint64_append_less_iff)
  also have "\<dots> \<longleftrightarrow> DeactivationHeight u < h + 1"
    using assms by (intro PutUint64_less_iff) (auto simp: config_ok_def)
  finally show ?thesis by (simp add: h)
qed

lemma deactivated_range:
  assumes "config_indexes_ok st" and "0 \<le> h" and "h < 2 ^ 63 - 1"
  shows "set (GetDeactivatedServiceConfigUpdatesRangeIterator st h)
    = ServiceConfigUpdateKey ` {u \<in> configs st. DeactivationHeight u \<noteq> 0 \<and> DeactivationHeight u \<le> h}"
proof -
  have p: "prim_ok (ConfigUpdates st)" and e: "didx.exact (ConfigUpdates st) (DeactivationIndex st)"
    using assms(1) by (simp_all add: config_indexes_ok_def)
  have "pk \<in> set (GetDeactivatedServiceConfigUpdatesRangeIterator st h) \<longleftrightarrow>
      (\<exists>u \<in> configs st. DeactivationHeight u \<noteq> 0 \<and> DeactivationHeight u \<le> h \<and> pk = ServiceConfigUpdateKey u)"
    (is "?l \<longleftrightarrow> ?r") for pk
  proof
    assume ?l
    then obtain k where k: "(k, pk) \<in> set (DeactivationIndex st)" "k < PutUint64 (i64 (h + 1))"
      by (auto simp: GetDeactivatedServiceConfigUpdatesRangeIterator_def)
    obtain u where u: "map_of (ConfigUpdates st) pk = Some u" "DeactivationHeight u \<noteq> 0"
      "ServiceConfigUpdateDeactivationHeightKey u = k" by (rule didx.entry_config [OF e k(1)])
    then show ?r
      using map_of_configs [OF p, of pk u] deactivation_key_less [OF prim_okD(2) [OF p u(1)] assms(2,3)] k(2)
      by auto
  next
    assume ?r
    then obtain u where u: "u \<in> configs st" "DeactivationHeight u \<noteq> 0" "DeactivationHeight u \<le> h"
      "pk = ServiceConfigUpdateKey u" by blast
    have "(ServiceConfigUpdateDeactivationHeightKey u, pk) \<in> set (DeactivationIndex st)"
      using didx.config_entry [OF e] u map_of_configs [OF p] by simp
    moreover have "ServiceConfigUpdateDeactivationHeightKey u < PutUint64 (i64 (h + 1))"
      using deactivation_key_less [OF configs_ok [OF assms(1) u(1)] assms(2,3)] u(3) by simp
    ultimately show ?l by (force simp: GetDeactivatedServiceConfigUpdatesRangeIterator_def)
  qed
  then show ?thesis by blast
qed

lemma IntKey_prefix_iff:
  assumes "0 \<le> a" and "a < 2 ^ 63" and "0 \<le> b" and "b < 2 ^ 63"
  shows "prefix (IntKey a) (IntKey b @ x) \<longleftrightarrow> a = b"
  using IntKey_split [OF assms] by (metis prefixE prefixI append_assoc IntKey_split assms)

lemma activated_range:
  assumes "config_indexes_ok st" and "0 \<le> h" and "h < 2 ^ 63"
  shows "set (GetActivatedServiceConfigUpdatesIterator st h)
    = ServiceConfigUpdateKey ` {u \<in> configs st. ActivationHeight u = h}"
proof -
  have p: "prim_ok (ConfigUpdates st)" and e: "aidx.exact (ConfigUpdates st) (ActivationIndex st)"
    using assms(1) by (simp_all add: config_indexes_ok_def)
  have pre: "prefix (IntKey h) (ServiceConfigUpdateActivationHeightKey u) \<longleftrightarrow> ActivationHeight u = h"
    if "config_ok u" for u
    using that assms(2,3) IntKey_prefix_iff [of h "ActivationHeight u"]
    by (auto simp: ServiceConfigUpdateActivationHeightKey_def config_ok_def)
  have "pk \<in> set (GetActivatedServiceConfigUpdatesIterator st h) \<longleftrightarrow>
      (\<exists>u \<in> configs st. ActivationHeight u = h \<and> pk = ServiceConfigUpdateKey u)" (is "?l \<longleftrightarrow> ?r") for pk
  proof
    assume ?l
    then obtain k where k: "(k, pk) \<in> set (ActivationIndex st)" "prefix (IntKey h) k"
      by (auto simp: GetActivatedServiceConfigUpdatesIterator_def kv_prefix_def)
    obtain u where u: "map_of (ConfigUpdates st) pk = Some u" "ServiceConfigUpdateActivationHeightKey u = k"
      by (rule aidx.entry_config [OF e k(1)])
    then show ?r using map_of_configs [OF p, of pk u] pre [OF prim_okD(2) [OF p u(1)]] k(2) by auto
  next
    assume ?r
    then obtain u where u: "u \<in> configs st" "ActivationHeight u = h" "pk = ServiceConfigUpdateKey u" by blast
    have "(ServiceConfigUpdateActivationHeightKey u, pk) \<in> set (ActivationIndex st)"
      using aidx.config_entry [OF e] u map_of_configs [OF p] by simp
    then show ?l
      using pre [OF configs_ok [OF assms(1) u(1)]] u(2)
      by (force simp: GetActivatedServiceConfigUpdatesIterator_def kv_prefix_def)
  qed
  then show ?thesis by blast
qed

lemma prune_config_step_eq:
  assumes "sup_inv st" and "epochs_total sh" and "u \<in> configs st"
    and "DeactivationHeight u \<noteq> 0" and "DeactivationHeight u \<le> h"
  shows "prune_config_step h sh (st, pruned) (ServiceConfigUpdateKey u)
    = Inr (if prunable sh h u
           then (deleteDeactivatedServiceConfigUpdate u st, List.insert (SCU_OperatorAddress u) pruned)
           else (st, pruned))"
proof -
  have ok: "config_indexes_ok st" using assms(1) by (simp add: sup_inv_def)
  have m: "map_of (ConfigUpdates st) (ServiceConfigUpdateKey u) = Some u"
    using ok assms(3) in_configs_iff by (simp add: config_indexes_ok_def)
  have d: "i64 (DeactivationHeight u - 1) = DeactivationHeight u - 1"
    using configs_ok [OF ok assms(3)] assms(4) by (intro i64_id) (auto simp: config_ok_def in_i64_def)
  have "NumBlocksPerSession (GetParamsAtHeight sh (DeactivationHeight u - 1)) \<noteq> 0"
    using assms(2) by (simp add: epochs_total_def)
  from proof_window_total [OF this] obtain c where "GetProofWindowCloseHeight
      (GetParamsAtHeight sh (DeactivationHeight u - 1)) (DeactivationHeight u - 1) = Inr c" by blast
  then show ?thesis
    using assms(4,5) by (simp add: prune_config_step_def serviceConfigUpdateFromPrimaryKey_def m d Let_def prunable_def)
qed

lemma prune_loop:
  assumes "sup_inv st" and "epochs_total sh"
    and "\<forall>u \<in> configs st. ServiceConfigUpdateKey u \<in> set pks
           \<longrightarrow> DeactivationHeight u \<noteq> 0 \<and> DeactivationHeight u \<le> h"
  shows "\<exists>st' pruned'. foldR (prune_config_step h sh) (st, pruned) pks = Inr (st', pruned') \<and> sup_inv st'
    \<and> configs st' = {u \<in> configs st. \<not> (ServiceConfigUpdateKey u \<in> set pks \<and> prunable sh h u)}
    \<and> same_suppliers st st'"
  using assms
proof (induction pks arbitrary: st pruned)
  case Nil
  then show ?case by simp
next
  case (Cons pk pks)
  have ok: "config_indexes_ok st" using Cons.prems(1) by (simp add: sup_inv_def)
  then have p: "prim_ok (ConfigUpdates st)" by (simp add: config_indexes_ok_def)
  show ?case
  proof (cases "\<exists>u \<in> configs st. ServiceConfigUpdateKey u = pk")
    case False
    then have "map_of (ConfigUpdates st) pk = None" using map_of_configs [OF p] by (metis not_None_eq)
    then have s: "prune_config_step h sh (st, pruned) pk = Inr (st, pruned)"
      by (simp add: prune_config_step_def serviceConfigUpdateFromPrimaryKey_def)
    have "{u \<in> configs st. \<not> (ServiceConfigUpdateKey u \<in> set pks \<and> prunable sh h u)}
        = {u \<in> configs st. \<not> (ServiceConfigUpdateKey u \<in> set (pk # pks) \<and> prunable sh h u)}"
      using False by auto
    then show ?thesis using Cons.IH [OF Cons.prems(1,2), of pruned] Cons.prems(3) s by simp
  next
    case True
    then obtain u where u: "u \<in> configs st" "ServiceConfigUpdateKey u = pk" by blast
    have uniq: "ServiceConfigUpdateKey v = pk \<longleftrightarrow> v = u" "pk = ServiceConfigUpdateKey v \<longleftrightarrow> v = u"
      if "v \<in> configs st" for v
      using configs_key_inject [OF ok that u(1)] u(2) by metis+
    have d: "DeactivationHeight u \<noteq> 0" "DeactivationHeight u \<le> h" using Cons.prems(3) u by auto
    note s = prune_config_step_eq [OF Cons.prems(1,2) u(1) d, of pruned, unfolded u(2)]
    note del = deleteDeactivatedServiceConfigUpdate_ok [OF Cons.prems(1) u(1)]
    show ?thesis
    proof (cases "prunable sh h u")
      case pr: True
      have c: "{v \<in> configs st - {u}. \<not> (ServiceConfigUpdateKey v \<in> set pks \<and> prunable sh h v)}
          = {v \<in> configs st. \<not> (ServiceConfigUpdateKey v \<in> set (pk # pks) \<and> prunable sh h v)}"
        using pr by (auto simp: uniq)
      have "\<exists>st' pruned'. foldR (prune_config_step h sh) (deleteDeactivatedServiceConfigUpdate u st,
          List.insert (SCU_OperatorAddress u) pruned) pks = Inr (st', pruned') \<and> sup_inv st'
        \<and> configs st' = {v \<in> configs st - {u}. \<not> (ServiceConfigUpdateKey v \<in> set pks \<and> prunable sh h v)}
        \<and> same_suppliers (deleteDeactivatedServiceConfigUpdate u st) st'"
        using Cons.IH [OF del(1) Cons.prems(2), of "List.insert (SCU_OperatorAddress u) pruned"]
          Cons.prems(3) by (simp add: del(2))
      then obtain st' pruned' where n: "foldR (prune_config_step h sh) (deleteDeactivatedServiceConfigUpdate u st,
          List.insert (SCU_OperatorAddress u) pruned) pks = Inr (st', pruned')" "sup_inv st'"
        "configs st' = {v \<in> configs st - {u}. \<not> (ServiceConfigUpdateKey v \<in> set pks \<and> prunable sh h v)}"
        "same_suppliers (deleteDeactivatedServiceConfigUpdate u st) st'" by blast
      show ?thesis
        using n(1,2) n(3) [unfolded c] same_suppliers_trans [OF del(3) n(4)] s pr
        by (intro exI [of _ st'] exI [of _ pruned']) simp
    next
      case np: False
      have c: "{v \<in> configs st. \<not> (ServiceConfigUpdateKey v \<in> set pks \<and> prunable sh h v)}
          = {v \<in> configs st. \<not> (ServiceConfigUpdateKey v \<in> set (pk # pks) \<and> prunable sh h v)}"
        using np by (auto simp: uniq)
      show ?thesis using Cons.IH [OF Cons.prems(1,2), of pruned] Cons.prems(3) s np unfolding c by simp
    qed
  qed
qed

lemma EndBlockerPrune_ok:
  assumes "sup_inv st" and "epochs_total sh" and "0 \<le> h" and "h < 2 ^ 63 - 1"
  obtains st' n where "EndBlockerPruneSupplierServiceConfigHistory h sh st = Inr (st', n)" and "sup_inv st'"
    and "configs st' = {u \<in> configs st. \<not> prunable sh h u}" and "same_suppliers st st'"
proof -
  have ok: "config_indexes_ok st" using assms(1) by (simp add: sup_inv_def)
  let ?pks = "GetDeactivatedServiceConfigUpdatesRangeIterator st h"
  have pks: "ServiceConfigUpdateKey u \<in> set ?pks \<longleftrightarrow> DeactivationHeight u \<noteq> 0 \<and> DeactivationHeight u \<le> h"
    if "u \<in> configs st" for u
    using that configs_key_inject [OF ok that] unfolding deactivated_range [OF ok assms(3,4)] by blast
  obtain st' pruned' where l: "foldR (prune_config_step h sh) (st, []) ?pks = Inr (st', pruned')" "sup_inv st'"
    "configs st' = {u \<in> configs st. \<not> (ServiceConfigUpdateKey u \<in> set ?pks \<and> prunable sh h u)}"
    "same_suppliers st st'"
    using prune_loop [OF assms(1,2), of ?pks h "[]"] pks by blast
  have "configs st' = {u \<in> configs st. \<not> prunable sh h u}"
    unfolding l(3) using pks by (auto simp: prunable_def)
  then show ?thesis
    using that l by (simp add: EndBlockerPruneSupplierServiceConfigHistory_def)
qed

end
