(* ===== verification/SupplierChain.thy ===== *)
theory SupplierChain
  imports SupplierSteps
begin

text \<open>
  The supplier module as a transition system: its messages, its parameter updates and its block
  hooks at any height, against any shared and service state. A staking message is taken as the
  handler takes it, under any operator address that decodes. What surrounds the module is
  constrained: heights below the largest \<open>int64\<close>, a next session start that is a positive one
  (\<open>next_start_ok\<close>, which bounded parameters give), and sessions of at least one block in every
  epoch the end blocker reads (\<open>epochs_total\<close>), as validated shared parameters have. Slashing
  is a transition of the tokenomics module and not one of these.

  In every reachable state the stores and indexes are well formed. The books are balanced in every
  reachable state whose stored operator addresses are canonical; under another text the end blocker
  pays a stake again and again (\<open>noncanonical_operator_is_paid_again\<close>).
\<close>

inductive supplier_step ::
    "sdk \<Rightarrow> (string \<Rightarrow> (string \<times> string) option) \<Rightarrow> (string \<Rightarrow> bool) \<Rightarrow> (string \<Rightarrow> string) \<Rightarrow> string
     \<Rightarrow> supplier_ctx \<Rightarrow> supplier_ctx \<Rightarrow> bool"
  for sdk urlParse isModuleAccount accAddressString authority where
  stake: "StakeSupplier sdk urlParse isModuleAccount h sh svc msg s = Inr s' \<Longrightarrow> next_start_ok sh h
    \<Longrightarrow> supplier_step sdk urlParse isModuleAccount accAddressString authority s s'"
| unstake: "UnstakeSupplier sdk h sh signer op s = Inr s' \<Longrightarrow> next_start_ok sh h
    \<Longrightarrow> supplier_step sdk urlParse isModuleAccount accAddressString authority s s'"
| update_param: "Supplier_UpdateParam sdk authority pmsg st = Inr st'
    \<Longrightarrow> supplier_step sdk urlParse isModuleAccount accAddressString authority (st, log) (st', log)"
| update_params: "Supplier_UpdateParams sdk authority a p st = Inr st'
    \<Longrightarrow> supplier_step sdk urlParse isModuleAccount accAddressString authority (st, log) (st', log)"
| begin_block: "Supplier_BeginBlocker h sh s = Inr s'
    \<Longrightarrow> supplier_step sdk urlParse isModuleAccount accAddressString authority s s'"
| end_block: "Supplier_EndBlocker sdk accAddressString h sh s = Inr s'
    \<Longrightarrow> NumBlocksPerSession (GetParams sh) \<noteq> 0 \<Longrightarrow> epochs_total sh \<Longrightarrow> 0 \<le> h \<Longrightarrow> h < 2 ^ 63 - 1
    \<Longrightarrow> supplier_step sdk urlParse isModuleAccount accAddressString authority s s'"

inductive_cases supplier_stepE: "supplier_step sdk urlParse isMod f authority s s'"

definition genesis_suppliers :: "supplier_params \<Rightarrow> supplier_ctx" where
  "genesis_suppliers p = (empty_supplier_state\<lparr>SupplierParams := Some p\<rparr>, [])"

lemma genesis_suppliers_inv:
  "Supplier_Params_Validate p = Inr () \<Longrightarrow> supplier_chain_inv sdk f (genesis_suppliers p)"
  using sup_inv_empty
  by (simp add: genesis_suppliers_def supplier_chain_inv_iff sup_inv_def config_indexes_ok_def
      unstaking_exact_def empty_supplier_state_def GetDehydratedSupplier_def supplier_params_ok_def
      supplier_escrow_def sups.stakes_def stake_total_def)

lemma Supplier_EndBlocker_total:
  assumes inv: "supplier_chain_inv sdk f s" and n: "NumBlocksPerSession (GetParams sh) \<noteq> 0"
    and e: "epochs_total sh" and h: "0 \<le> h" "h < 2 ^ 63 - 1"
  obtains s' s1 k where "Supplier_EndBlocker sdk f h sh s = Inr s'" and "supplier_chain_inv sdk f s'"
    and "EndBlockerUnbondSuppliers sdk f h sh s = Inr (s1, k)" and "snd s' = snd s1"
    and "configs (fst s') = {u \<in> configs (fst s1). \<not> prunable sh h u}"
    and "same_suppliers (fst s1) (fst s')"
proof -
  obtain st log where s: "s = (st, log)" by (cases s)
  obtain s1 k where u: "EndBlockerUnbondSuppliers sdk f h sh s = Inr (s1, k)"
    using EndBlockerUnbondSuppliers_eq [OF inv [unfolded s] n, of h] by (auto simp: s split: if_splits)
  have i1: "supplier_chain_inv sdk f s1" by (rule EndBlockerUnbondSuppliers_keeps [OF inv n u])
  then have "sup_inv (fst s1)" by (simp add: supplier_chain_inv_iff)
  then obtain st2 m where p: "EndBlockerPruneSupplierServiceConfigHistory h sh (fst s1) = Inr (st2, m)"
    "sup_inv st2" "configs st2 = {u \<in> configs (fst s1). \<not> prunable sh h u}" "same_suppliers (fst s1) st2"
    using EndBlockerPrune_ok [OF _ e h] by metis
  have b: "Supplier_EndBlocker sdk f h sh s = Inr (st2, snd s1)"
    by (cases s1) (use u p in \<open>simp add: Supplier_EndBlocker_def\<close>)
  have "supplier_chain_inv sdk f (st2, snd s1)"
    using i1 p(2,4) by (simp add: supplier_chain_inv_iff same_suppliers_def GetDehydratedSupplier_def
        supplier_params_ok_def supplier_escrow_def sups.stakes_def)
  then show ?thesis using that [OF b _ u] p(3,4) by simp
qed

section \<open>Every reachable state is well formed\<close>

lemma Supplier_EndBlocker_keeps:
  assumes inv: "supplier_state_inv sdk (\<lambda>a. a) (fst s)" and run: "Supplier_EndBlocker sdk f h sh s = Inr s'"
    and e: "epochs_total sh" and h: "0 \<le> h" "h < 2 ^ 63 - 1"
  shows "supplier_state_inv sdk (\<lambda>a. a) (fst s')"
    and "GetDehydratedSupplier (fst s) x \<noteq> None \<Longrightarrow> x \<notin> range f \<Longrightarrow> GetDehydratedSupplier (fst s') x \<noteq> None"
proof -
  obtain s1 k st2 n where u: "EndBlockerUnbondSuppliers sdk f h sh s = Inr (s1, k)"
    and p: "EndBlockerPruneSupplierServiceConfigHistory h sh (fst s1) = Inr (st2, n)" and s': "s' = (st2, snd s1)"
    using run by (auto simp: Supplier_EndBlocker_def res_simps)
  note k = EndBlockerUnbond_keeps [OF inv u]
  have i1: "sup_inv (fst s1)" using k(1) by (simp add: supplier_state_inv_def)
  have q: "sup_inv st2" "same_suppliers (fst s1) st2"
    using EndBlockerPrune_ok [OF i1 e h] p by (metis Inr_inject prod.inject)+
  have g: "GetDehydratedSupplier st2 y = GetDehydratedSupplier (fst s1) y" for y
    using q(2) by (simp add: same_suppliers_def GetDehydratedSupplier_def)
  show "supplier_state_inv sdk (\<lambda>a. a) (fst s')"
    using k(1) q g by (simp add: s' supplier_state_inv_def supplier_params_ok_def same_suppliers_def)
  show "GetDehydratedSupplier (fst s) x \<noteq> None \<Longrightarrow> x \<notin> range f \<Longrightarrow> GetDehydratedSupplier (fst s') x \<noteq> None"
    using k(2) g by (simp add: s')
qed

lemma supplier_step_keeps_state:
  assumes "supplier_step sdk urlParse isMod f authority s s'" and "sdk_ok sdk" and "bech32_no_slash sdk"
    and "supplier_state_inv sdk (\<lambda>a. a) (fst s)"
  shows "supplier_state_inv sdk (\<lambda>a. a) (fst s')
    \<and> (GetDehydratedSupplier (fst s) x \<noteq> None \<longrightarrow> x \<notin> range f \<longrightarrow> GetDehydratedSupplier (fst s') x \<noteq> None)"
  using assms(1)
proof (cases rule: supplier_stepE [consumes 1,
      case_names stake unstake update_param update_params begin_block end_block])
  case (stake h sh svc msg)
  then show ?thesis
    using StakeSupplier_ok [OF stake(1) assms(2,3) stake(2) assms(4)] by auto
next
  case (unstake h sh signer op)
  then show ?thesis using UnstakeSupplier_ok [OF unstake(1,2) assms(4)] by auto
next
  case (update_param pmsg st st' log)
  then show ?thesis using Supplier_UpdateParam_Inr [OF update_param(3)] SetParams_ok(1,3) assms(4) by auto
next
  case (update_params a p st st' log)
  then show ?thesis using Supplier_UpdateParams_Inr [OF update_params(3)] SetParams_ok(1,3) assms(4) by auto
next
  case (begin_block h sh)
  then show ?thesis using assms(4) by (auto simp: Supplier_BeginBlocker_def res_simps)
next
  case (end_block h sh)
  have h: "h < 2 ^ 63 - 1" using end_block(5) by simp
  show ?thesis using Supplier_EndBlocker_keeps [OF assms(4) end_block(1,3,4) h] by auto
qed

lemma supplier_reachable_state:
  assumes "(supplier_step sdk urlParse isMod f authority)\<^sup>*\<^sup>* (genesis_suppliers p) s"
    and "sdk_ok sdk" and "bech32_no_slash sdk" and "Supplier_Params_Validate p = Inr ()"
  shows "supplier_state_inv sdk (\<lambda>a. a) (fst s)"
  using assms(1)
proof (induction rule: rtranclp_induct)
  case base
  show ?case using genesis_suppliers_inv [OF assms(4)] by (simp add: supplier_chain_inv_def)
next
  case (step s s')
  then show ?case using supplier_step_keeps_state [OF step(2) assms(2,3)] by blast
qed

lemma supplier_reachable_sup_inv:
  assumes "(supplier_step sdk urlParse isMod f authority)\<^sup>*\<^sup>* (genesis_suppliers p) (st, log)"
    and "sdk_ok sdk" and "bech32_no_slash sdk" and "Supplier_Params_Validate p = Inr ()"
  shows "sup_inv st"
  using supplier_reachable_state [OF assms] by (simp add: supplier_state_inv_def)

section \<open>The books under canonical addresses\<close>

lemma supplier_step_keeps:
  assumes "supplier_step sdk urlParse isMod f authority s s'" and "sdk_ok sdk" and "bech32_no_slash sdk"
    and "supplier_chain_inv sdk f s" and "canonical_operators f (fst s')"
  shows "supplier_chain_inv sdk f s'"
  using assms(1)
proof (cases rule: supplier_stepE [consumes 1,
      case_names stake unstake update_param update_params begin_block end_block])
  case (stake h sh svc msg)
  have i: "supplier_state_inv sdk (\<lambda>a. a) (fst s)"
    using assms(4) by (auto simp: supplier_chain_inv_def supplier_state_inv_def staked_ok_def)
  note k = StakeSupplier_ok [OF stake(1) assms(2,3) stake(2) i refl]
  have "sup_inv (fst s')" using k(1) by (simp add: supplier_state_inv_def)
  then have "f (MSS_OperatorAddress msg) = MSS_OperatorAddress msg"
    using canonical_iff assms(5) k(4) by blast
  then show ?thesis by (rule StakeSupplier_keeps [OF stake(1) assms(2,3) stake(2) assms(4)])
next
  case (unstake h sh signer op)
  show ?thesis by (rule UnstakeSupplier_keeps [OF unstake(1,2) assms(4)])
next
  case (update_param pmsg st st' log)
  then show ?thesis using Supplier_UpdateParam_Inr [OF update_param(3)] SetParams_keeps assms(4) by metis
next
  case (update_params a p st st' log)
  then show ?thesis using Supplier_UpdateParams_Inr [OF update_params(3)] SetParams_keeps assms(4) by metis
next
  case (begin_block h sh)
  then show ?thesis using assms(4) by (auto simp: Supplier_BeginBlocker_def res_simps)
next
  case (end_block h sh)
  have h: "h < 2 ^ 63 - 1" using end_block(5) by simp
  show ?thesis
    by (rule Supplier_EndBlocker_total [OF assms(4) end_block(2-4) h]) (use end_block(1) in simp)
qed

text \<open>A supplier under a non-canonical text is never removed: if all are canonical now, they always were.\<close>

lemma supplier_reachable_inv:
  assumes "(supplier_step sdk urlParse isMod f authority)\<^sup>*\<^sup>* (genesis_suppliers p) s"
    and "sdk_ok sdk" and "bech32_no_slash sdk" and "Supplier_Params_Validate p = Inr ()"
    and idem: "\<forall>a. f (f a) = f a" and "canonical_operators f (fst s)"
  shows "supplier_chain_inv sdk f s"
  using assms(1,6)
proof (induction rule: rtranclp_induct)
  case base
  show ?case by (rule genesis_suppliers_inv [OF assms(4)])
next
  case (step s s')
  have i: "supplier_state_inv sdk (\<lambda>a. a) (fst s)" by (rule supplier_reachable_state [OF step(1) assms(2-4)])
  note k = supplier_step_keeps_state [OF step(2) assms(2,3) i]
  have si: "sup_inv (fst s)" "sup_inv (fst s')" using i k by (simp_all add: supplier_state_inv_def)
  have "canonical_operators f (fst s)"
    unfolding canonical_iff [OF si(1)]
  proof (intro allI impI)
    fix x assume x: "GetDehydratedSupplier (fst s) x \<noteq> None"
    show "f x = x"
    proof (cases "x \<in> range f")
      case True
      then show ?thesis using idem by auto
    next
      case False
      then show ?thesis using k x step(4) canonical_iff [OF si(2), of f] by blast
    qed
  qed
  then show ?case using supplier_step_keeps [OF step(2) assms(2,3) step(3) step(4)] by blast
qed

end
