(* ===== verification/SupplierProps.thy ===== *)
theory SupplierProps
  imports SupplierChain
begin

text \<open>The properties of the supplier module's state and block hooks, with concrete runs.\<close>

section \<open>A concrete run\<close>

definition sup_sdk :: sdk where
  "sup_sdk = plain_sdk\<lparr>isBech32 := (\<lambda>s. s \<noteq> '''' \<and> no_slash s)\<rparr>"

lemma sup_sdk_ok: "sdk_ok sup_sdk" "bech32_no_slash sup_sdk"
proof -
  have "sdk_ok (plain_sdk\<lparr>isBech32 := g\<rparr>) = sdk_ok plain_sdk" for g by (simp add: sdk_ok_def)
  then show "sdk_ok sup_sdk" using plain_sdk_ok by (simp add: sup_sdk_def)
  show "bech32_no_slash sup_sdk" by (simp add: sup_sdk_def bech32_no_slash_def)
qed

definition sup_params :: supplier_params where
  "sup_params = \<lparr>Supplier_MinStake = Some \<lparr>Denom = ''upokt'', Amount = 100\<rparr>,
     StakingFee = Some \<lparr>Denom = ''upokt'', Amount = 1\<rparr>\<rparr>"

definition sup_config :: "string \<Rightarrow> supplier_service_config" where
  "sup_config sid = \<lparr>ServiceId = sid, Endpoints = [Some \<lparr>Url = ''u'', RpcType = JSON_RPC\<rparr>],
     RevShare = [Some \<lparr>RevShareAddress = ''o1'', RevSharePercentage = 100\<rparr>]\<rparr>"

definition sup_url :: "string \<Rightarrow> (string \<times> string) option" where
  "sup_url u = Some (''http'', ''h'')"

definition sup_msg :: "string \<Rightarrow> string \<Rightarrow> int \<Rightarrow> string list \<Rightarrow> msg_stake_supplier" where
  "sup_msg signer op n sids = \<lparr>MSS_Signer = signer, MSS_OwnerAddress = ''o1'', MSS_OperatorAddress = op,
     MSS_Stake = Some \<lparr>Denom = ''upokt'', Amount = n\<rparr>, MSS_Services = map (\<lambda>i. Some (sup_config i)) sids\<rparr>"

definition sup_services :: service_state where
  "sup_services = SetService (\<lparr>Service_Id = ''svc2'', Service_Name = ''two'', ComputeUnitsPerRelay = 3,
     Service_OwnerAddress = ''o1'', Service_Card = None\<rparr>) svc_state"

definition sup_stake :: "int \<Rightarrow> msg_stake_supplier \<Rightarrow> supplier_ctx \<Rightarrow> supplier_ctx res" where
  "sup_stake h msg = StakeSupplier sup_sdk sup_url (\<lambda>a. False) h witness_genesis sup_services msg"

text \<open>\<open>p1\<close> stakes for \<open>svc1\<close> and \<open>p2\<close> for \<open>svc2\<close>; \<open>p1\<close> unstakes in the first session.\<close>

definition sup_run :: "supplier_ctx res" where
  "sup_run =
     bindR (sup_stake 2 (sup_msg ''p1'' ''p1'' 500 [''svc1'']) (genesis_suppliers sup_params)) (\<lambda>s1.
     bindR (sup_stake 3 (sup_msg ''p2'' ''p2'' 700 [''svc2'']) s1) (\<lambda>s2.
     UnstakeSupplier sup_sdk 4 witness_genesis ''o1'' ''p1'' s2))"

lemma sup_run_reachable:
  assumes "sup_run = Inr s"
  shows "(supplier_step sup_sdk sup_url (\<lambda>a. False) f x)\<^sup>*\<^sup>* (genesis_suppliers sup_params) s"
proof -
  have nx: "next_start_ok witness_genesis h" if "h = 2 \<or> h = 3 \<or> h = 4" for h
    using that by (intro next_start_ok_bounded)
      (auto simp: witness_genesis_def GetParams_def NewParams_def params_bounded_def height_bounded_def)
  from assms obtain s1 s2 where r:
    "sup_stake 2 (sup_msg ''p1'' ''p1'' 500 [''svc1'']) (genesis_suppliers sup_params) = Inr s1"
    "sup_stake 3 (sup_msg ''p2'' ''p2'' 700 [''svc2'']) s1 = Inr s2"
    "UnstakeSupplier sup_sdk 4 witness_genesis ''o1'' ''p1'' s2 = Inr s"
    by (auto simp: sup_run_def res_simps)
  let ?step = "supplier_step sup_sdk sup_url (\<lambda>a. False) f x"
  have "?step (genesis_suppliers sup_params) s1"
    using r(1) nx by (auto simp: sup_stake_def intro: supplier_step.stake)
  moreover have "?step s1 s2" using r(2) nx by (auto simp: sup_stake_def intro: supplier_step.stake)
  moreover have "?step s2 s" using r(3) nx by (auto intro: supplier_step.unstake)
  ultimately show ?thesis by (meson converse_rtranclp_into_rtranclp rtranclp.rtrancl_refl)
qed

text \<open>\<open>P1\<close> is another text of the address \<open>p1\<close>.\<close>

definition upper_string :: "string \<Rightarrow> string" where
  "upper_string a = (if a = ''P1'' then ''p1'' else a)"

lemma upper_idem: "\<forall>a. upper_string (upper_string a) = upper_string a"
  by (simp add: upper_string_def)

lemma sup_params_valid: "Supplier_Params_Validate sup_params = Inr ()"
  by code_simp

lemma sup_run_Inr:
  obtains st log where "sup_run = Inr (st, log)"
    and "stake_total Supplier_Stake (SupplierStore st) = 1200"
    and "map OperatorAddress (filter Supplier_IsUnbonding (stored_suppliers st)) = [''p1'']"
    and "map OperatorAddress (stored_suppliers st) = [''p1'', ''p2'']"
    and "map (\<lambda>u. (SCU_OperatorAddress u, DeactivationHeight u)) (map snd (ConfigUpdates st))
      = [(''p1'', 11), (''p2'', 0)]"
proof -
  have "case sup_run of Inl _ \<Rightarrow> False | Inr (st, log) \<Rightarrow>
      stake_total Supplier_Stake (SupplierStore st) = 1200
      \<and> map OperatorAddress (filter Supplier_IsUnbonding (stored_suppliers st)) = [''p1'']
      \<and> map OperatorAddress (stored_suppliers st) = [''p1'', ''p2'']
      \<and> map (\<lambda>u. (SCU_OperatorAddress u, DeactivationHeight u)) (map snd (ConfigUpdates st))
        = [(''p1'', 11), (''p2'', 0)]"
    by code_simp
  then show ?thesis using that by (auto split: sum.splits prod.splits)
qed

lemma sup_run_canonical: "sup_run = Inr (st, log) \<Longrightarrow> canonical_operators upper_string st"
proof -
  assume r: "sup_run = Inr (st, log)"
  have "map OperatorAddress (stored_suppliers st) = [''p1'', ''p2'']"
    by (rule sup_run_Inr) (metis r Inr_inject prod.inject)
  then have "list_all (\<lambda>x. upper_string x = x) (map OperatorAddress (stored_suppliers st))"
    by (simp add: upper_string_def)
  then show ?thesis by (simp add: canonical_operators_def list.pred_map comp_def)
qed

section \<open>Solvency\<close>

text \<open>C22. From genesis on, whatever supplier messages, parameter updates and block hooks run, the stakes
  recorded for suppliers never exceed what the supplier module account has received net of what it
  paid out, in every reachable state in which all stored operator addresses are the canonical text
  of their address (the canonical text being its own canonical text). Staking fees and refused
  payouts stay in the account on top. The staking handler does not enforce the condition, and
  without it the conclusion fails: \<open>noncanonical_operator_is_paid_again\<close>. Slashing is a
  transition of the tokenomics module and not part of these runs.\<close>
theorem supplier_stakes_are_covered:
  assumes "(supplier_step sdk urlParse isMod accAddressString authority)\<^sup>*\<^sup>* (genesis_suppliers p) (st, log)"
    and "sdk_ok sdk" and "bech32_no_slash sdk" and "Supplier_Params_Validate p = Inr ()"
    and "\<forall>a. accAddressString (accAddressString a) = accAddressString a"
    and "canonical_operators accAddressString st"
  shows "stake_total Supplier_Stake (SupplierStore st) \<le> inflow ''supplier'' log"
  using supplier_reachable_inv [OF assms(1-5)] assms(6)
  by (simp add: supplier_chain_inv_def supplier_escrow_def sups.stakes_def)

theorem supplier_stakes_are_covered_witness:
  "\<exists>st log. sup_run = Inr (st, log) \<and> stake_total Supplier_Stake (SupplierStore st) = 1200
    \<and> 1200 \<le> inflow ''supplier'' log"
proof -
  obtain st log where r: "sup_run = Inr (st, log)" "stake_total Supplier_Stake (SupplierStore st) = 1200"
    by (rule sup_run_Inr)
  then show ?thesis
    using supplier_stakes_are_covered [OF sup_run_reachable [OF r(1), of upper_string "''gov''"] sup_sdk_ok
        sup_params_valid upper_idem sup_run_canonical [OF r(1)]]
    by auto
qed

section \<open>Indexes\<close>

text \<open>C23. In every reachable state the three indexes into the service configurations lead only to stored
  configurations, so the clean-up of orphaned entries that one upgrade runs finds nothing and
  changes nothing; and each index scan returns exactly the configurations it stands for: those of
  an operator, those activating at a height, those deactivated by a height.\<close>
theorem configuration_indexes_are_exact:
  assumes "(supplier_step sdk urlParse isMod accAddressString authority)\<^sup>*\<^sup>* (genesis_suppliers p) (st, log)"
    and "sdk_ok sdk" and "bech32_no_slash sdk" and "Supplier_Params_Validate p = Inr ()"
    and "isBech32 sdk op" and "0 \<le> h" and "h < 2 ^ 63 - 1"
  shows "CleanupOrphanedServiceConfigIndexes st = (st, 0, 0, 0)
    \<and> set (getSupplierServiceConfigUpdates st op '''') = {u \<in> configs st. SCU_OperatorAddress u = op}
    \<and> set (GetActivatedServiceConfigUpdatesIterator st h)
        = ServiceConfigUpdateKey ` {u \<in> configs st. ActivationHeight u = h}
    \<and> set (GetDeactivatedServiceConfigUpdatesRangeIterator st h)
        = ServiceConfigUpdateKey ` {u \<in> configs st. DeactivationHeight u \<noteq> 0 \<and> DeactivationHeight u \<le> h}"
proof (intro conjI)
  have ok: "config_indexes_ok st"
    using supplier_reachable_sup_inv [OF assms(1-4)] by (simp add: sup_inv_def)
  then have p: "prim_ok (ConfigUpdates st)" and e: "oidx.exact (ConfigUpdates st) (OperatorIndex st)"
    "aidx.exact (ConfigUpdates st) (ActivationIndex st)" "didx.exact (ConfigUpdates st) (DeactivationIndex st)"
    by (simp_all add: config_indexes_ok_def)
  have none: "cleanOrphanedIndex idx (map fst (ConfigUpdates st)) = (idx, 0)"
    if "\<And>k pk. (k, pk) \<in> set idx \<Longrightarrow> map_of (ConfigUpdates st) pk \<noteq> None" for idx
  proof -
    have "filter (\<lambda>e. snd e \<notin> set (map fst (ConfigUpdates st))) idx = []"
      using that by (auto simp: filter_empty_conv map_of_eq_None_iff)
    then show ?thesis by (simp add: cleanOrphanedIndex_def)
  qed
  have "map_of (ConfigUpdates st) pk \<noteq> None" if "(k, pk) \<in> set (OperatorIndex st)" for k pk
    by (rule oidx.entry_config [OF e(1) that]) simp
  moreover have "map_of (ConfigUpdates st) pk \<noteq> None" if "(k, pk) \<in> set (ActivationIndex st)" for k pk
    by (rule aidx.entry_config [OF e(2) that]) simp
  moreover have "map_of (ConfigUpdates st) pk \<noteq> None" if "(k, pk) \<in> set (DeactivationIndex st)" for k pk
    by (rule didx.entry_config [OF e(3) that]) simp
  ultimately show "CleanupOrphanedServiceConfigIndexes st = (st, 0, 0, 0)"
    by (simp add: CleanupOrphanedServiceConfigIndexes_def Let_def none)
  show "set (getSupplierServiceConfigUpdates st op '''') = {u \<in> configs st. SCU_OperatorAddress u = op}"
    using assms(3,5) by (intro getSupplierServiceConfigUpdates_all [OF ok]) (simp add: bech32_no_slash_def)
  show "set (GetDeactivatedServiceConfigUpdatesRangeIterator st h)
      = ServiceConfigUpdateKey ` {u \<in> configs st. DeactivationHeight u \<noteq> 0 \<and> DeactivationHeight u \<le> h}"
    by (rule deactivated_range [OF ok assms(6,7)])
  show "set (GetActivatedServiceConfigUpdatesIterator st h)
      = ServiceConfigUpdateKey ` {u \<in> configs st. ActivationHeight u = h}"
    by (rule activated_range [OF ok assms(6)]) (use assms(7) in simp)
qed

theorem configuration_indexes_are_exact_witness:
  "\<exists>st log. sup_run = Inr (st, log) \<and> CleanupOrphanedServiceConfigIndexes st = (st, 0, 0, 0)
    \<and> {u \<in> configs st. SCU_OperatorAddress u = ''p2''} \<noteq> {}
    \<and> set (getSupplierServiceConfigUpdates st ''p2'' '''') = {u \<in> configs st. SCU_OperatorAddress u = ''p2''}"
proof -
  obtain st log where r: "sup_run = Inr (st, log)"
    "map (\<lambda>u. (SCU_OperatorAddress u, DeactivationHeight u)) (map snd (ConfigUpdates st))
      = [(''p1'', 11), (''p2'', 0)]" by (rule sup_run_Inr)
  then have "(''p2'', 0) \<in> set (map (\<lambda>u. (SCU_OperatorAddress u, DeactivationHeight u)) (map snd (ConfigUpdates st)))"
    by simp
  then have "{u \<in> configs st. SCU_OperatorAddress u = ''p2''} \<noteq> {}" by (force simp: configs_def)
  moreover have "isBech32 sup_sdk ''p2''" by (simp add: sup_sdk_def no_slash_def)
  note c = configuration_indexes_are_exact [OF sup_run_reachable [OF r(1), of upper_string "''gov''"] sup_sdk_ok
      sup_params_valid this, of 5]
  have "CleanupOrphanedServiceConfigIndexes st = (st, 0, 0, 0)
    \<and> set (getSupplierServiceConfigUpdates st ''p2'' '''') = {u \<in> configs st. SCU_OperatorAddress u = ''p2''}"
    using c by simp
  ultimately show ?thesis using r(1) by blast
qed

section \<open>The end blocker\<close>

lemma due_stored:
  assumes "sup_inv st"
  shows "x \<in> OperatorAddress ` set (due_suppliers sh h st) \<longleftrightarrow>
    (\<exists>s. GetDehydratedSupplier st x = Some s \<and> unbonding_due sh h s)"
proof
  assume "x \<in> OperatorAddress ` set (due_suppliers sh h st)"
  then show "\<exists>s. GetDehydratedSupplier st x = Some s \<and> unbonding_due sh h s"
    using stored_find [OF assms] by (auto simp: due_suppliers_def)
next
  assume "\<exists>s. GetDehydratedSupplier st x = Some s \<and> unbonding_due sh h s"
  then obtain s where s: "GetDehydratedSupplier st x = Some s" "unbonding_due sh h s" by blast
  then have "OperatorAddress s = x" using GetDehydratedSupplier_ok [OF assms] by blast
  then show "x \<in> OperatorAddress ` set (due_suppliers sh h st)"
    using s stored_find [OF assms] by (force simp: due_suppliers_def)
qed

text \<open>C24. In every reachable state in which all stored operator addresses are the canonical text of
  their address, and with sessions of at least one block in the live parameters and in every epoch
  on record, the supplier end blocker returns without an error, whatever the bank accepts: it never
  halts the chain. At a session end it removes exactly the suppliers whose unbonding period is over
  and pays each of them its stake once, in store order, skipping only payouts the bank refuses; at
  any other height it removes none and pays nothing. The staking handler does not enforce the
  condition on the addresses; \<open>noncanonical_operator_is_paid_again\<close> shows what happens
  otherwise.\<close>
theorem end_blocker_releases_due_suppliers:
  assumes "(supplier_step sdk urlParse isMod accAddressString authority)\<^sup>*\<^sup>* (genesis_suppliers p) (st, log)"
    and "sdk_ok sdk" and "bech32_no_slash sdk" and "Supplier_Params_Validate p = Inr ()"
    and "\<forall>a. accAddressString (accAddressString a) = accAddressString a"
    and "canonical_operators accAddressString st"
    and "NumBlocksPerSession (GetParams sh) \<noteq> 0" and "epochs_total sh" and "0 \<le> h" and "h < 2 ^ 63 - 1"
  shows "\<exists>st'. Supplier_EndBlocker sdk accAddressString h sh (st, log) = Inr (st',
      if IsSessionEndHeight (GetParams sh) h = Inr True
      then fold (pay_stake sdk) (filter (unbonding_due sh h) (stored_suppliers st)) log else log)
    \<and> (\<forall>op. GetDehydratedSupplier st' op = (case GetDehydratedSupplier st op of None \<Rightarrow> None
        | Some s \<Rightarrow> if IsSessionEndHeight (GetParams sh) h = Inr True \<and> unbonding_due sh h s
            then None else Some s))"
proof -
  have inv: "supplier_chain_inv sdk accAddressString (st, log)" using supplier_reachable_inv [OF assms(1-5)] assms(6) by simp
  then have si: "sup_inv st" by (simp add: supplier_chain_inv_iff)
  obtain s' s1 k where b: "Supplier_EndBlocker sdk accAddressString h sh (st, log) = Inr s'"
    "EndBlockerUnbondSuppliers sdk accAddressString h sh (st, log) = Inr (s1, k)" "snd s' = snd s1"
    "same_suppliers (fst s1) (fst s')"
    by (rule Supplier_EndBlocker_total [OF inv assms(7-10)])
  have us: "\<forall>t \<in> set (due_suppliers sh h st). no_slash (OperatorAddress t)"
    using stored_find [OF si] GetDehydratedSupplier_ok(3) [OF si] by (auto simp: due_suppliers_def)
  note f = fold_RemoveSupplier_ok [OF si us]
  have g: "GetDehydratedSupplier (fst s') op = GetDehydratedSupplier (fst s1) op" for op
    using b(4) by (simp add: same_suppliers_def GetDehydratedSupplier_def)
  note u = EndBlockerUnbondSuppliers_eq [OF inv assms(7), of h, unfolded b(2)]
  show ?thesis
  proof (cases "IsSessionEndHeight (GetParams sh) h = Inr True")
    case True
    then have s1: "s1 = (fold (\<lambda>s. RemoveSupplier (OperatorAddress s)) (due_suppliers sh h st) st,
        fold (pay_stake sdk) (due_suppliers sh h st) log)" using u by simp
    have "GetDehydratedSupplier (fst s') op = (case GetDehydratedSupplier st op of None \<Rightarrow> None
        | Some s \<Rightarrow> if unbonding_due sh h s then None else Some s)" for op
      using f due_stored [OF si, of op sh h] by (auto simp: g s1 split: option.splits)
    moreover have "s' = (fst s', fold (pay_stake sdk) (filter (unbonding_due sh h) (stored_suppliers st)) log)"
      using b(3) s1 by (cases s') (simp add: due_suppliers_def)
    ultimately show ?thesis using b(1) True by (intro exI [of _ "fst s'"]) (simp split: option.splits)
  next
    case False
    then have s1: "s1 = (st, log)" using u by simp
    then have "s' = (fst s', log)" using b(3) by (cases s') simp
    then show ?thesis using b(1) False g s1
      by (intro exI [of _ "fst s'"]) (auto split: option.splits)
  qed
qed

theorem end_blocker_releases_due_suppliers_witness:
  "\<exists>st log st'. sup_run = Inr (st, log)
    \<and> Supplier_EndBlocker sup_sdk upper_string 20 witness_genesis (st, log) = Inr (st',
        log @ [SendFromModuleToAccount ''supplier'' ''o1'' \<lparr>Denom = ''upokt'', Amount = 500\<rparr>])
    \<and> GetDehydratedSupplier st' ''p1'' = None \<and> GetDehydratedSupplier st' ''p2'' \<noteq> None"
proof -
  have "case sup_run of Inl _ \<Rightarrow> False | Inr (st, log) \<Rightarrow>
      IsSessionEndHeight (GetParams witness_genesis) 20 = Inr True
      \<and> fold (pay_stake sup_sdk) (filter (unbonding_due witness_genesis 20) (stored_suppliers st)) log
        = log @ [SendFromModuleToAccount ''supplier'' ''o1'' \<lparr>Denom = ''upokt'', Amount = 500\<rparr>]
      \<and> (case GetDehydratedSupplier st ''p1'' of None \<Rightarrow> False | Some s \<Rightarrow> unbonding_due witness_genesis 20 s)
      \<and> (case GetDehydratedSupplier st ''p2'' of None \<Rightarrow> False | Some s \<Rightarrow> \<not> unbonding_due witness_genesis 20 s)"
    by code_simp
  then obtain st log where r: "sup_run = Inr (st, log)"
    and e: "IsSessionEndHeight (GetParams witness_genesis) 20 = Inr True"
    and pay: "fold (pay_stake sup_sdk) (filter (unbonding_due witness_genesis 20) (stored_suppliers st)) log
        = log @ [SendFromModuleToAccount ''supplier'' ''o1'' \<lparr>Denom = ''upokt'', Amount = 500\<rparr>]"
    and g: "case GetDehydratedSupplier st ''p1'' of None \<Rightarrow> False | Some s \<Rightarrow> unbonding_due witness_genesis 20 s"
      "case GetDehydratedSupplier st ''p2'' of None \<Rightarrow> False | Some s \<Rightarrow> \<not> unbonding_due witness_genesis 20 s"
    by (auto split: sum.splits prod.splits)
  have n: "NumBlocksPerSession (GetParams witness_genesis) \<noteq> 0" by code_simp
  have t: "epochs_total witness_genesis"
    by (simp add: epochs_total_def GetParamsAtHeight_def witness_genesis_def kv_rev_below_def GetParams_def
        NewParams_def)
  obtain st' where b: "Supplier_EndBlocker sup_sdk upper_string 20 witness_genesis (st, log) = Inr (st',
      if IsSessionEndHeight (GetParams witness_genesis) 20 = Inr True
      then fold (pay_stake sup_sdk) (filter (unbonding_due witness_genesis 20) (stored_suppliers st)) log else log)"
    "\<forall>op. GetDehydratedSupplier st' op = (case GetDehydratedSupplier st op of None \<Rightarrow> None
        | Some s \<Rightarrow> if IsSessionEndHeight (GetParams witness_genesis) 20 = Inr True
            \<and> unbonding_due witness_genesis 20 s then None else Some s)"
    using end_blocker_releases_due_suppliers [OF sup_run_reachable [OF r, of upper_string "''gov''"] sup_sdk_ok
      sup_params_valid upper_idem sup_run_canonical [OF r] n t, of 20] by auto
  have "GetDehydratedSupplier st' ''p1'' = None" "GetDehydratedSupplier st' ''p2'' \<noteq> None"
    using g b(2) e by (auto split: option.splits)
  then show ?thesis using r b(1) pay e by auto
qed

end
