(* ===== verification/SupplierClaims.thy ===== *)
theory SupplierClaims
  imports SupplierProps
begin

text \<open>
  Further properties of the supplier module: pruning, the payout to a supplier stored under a
  non-canonical address, genesis export and import, who may change a supplier, and what a change
  of services does to the session in flight.
\<close>

section \<open>Pruning\<close>

text \<open>C25. In every reachable state the pruning hook returns without an error and deletes exactly the
  deactivated configurations whose last active height had its proof window, counted with the
  parameters in effect at that height, close before the block. A configuration that a claim or a
  proof may still refer to is never deleted, one that was never deactivated neither, and the
  suppliers themselves are untouched.\<close>
theorem pruning_spares_open_proof_windows:
  assumes "(supplier_step sdk urlParse isMod accAddressString authority)\<^sup>*\<^sup>* (genesis_suppliers p) (st, log)"
    and "sdk_ok sdk" and "bech32_no_slash sdk" and "Supplier_Params_Validate p = Inr ()"
    and "epochs_total sh" and "0 \<le> h" and "h < 2 ^ 63 - 1"
  shows "\<exists>st' n. EndBlockerPruneSupplierServiceConfigHistory h sh st = Inr (st', n)
    \<and> configs st' = {u \<in> configs st. DeactivationHeight u = 0 \<or> h < DeactivationHeight u
        \<or> (\<exists>c. GetProofWindowCloseHeight (GetParamsAtHeight sh (DeactivationHeight u - 1)) (DeactivationHeight u - 1)
             = Inr c \<and> h \<le> c)}
    \<and> (\<forall>op. GetDehydratedSupplier st' op = GetDehydratedSupplier st op)"
proof -
  have si: "sup_inv st"
    by (rule supplier_reachable_sup_inv [OF assms(1-4)])
  obtain st' n where p: "EndBlockerPruneSupplierServiceConfigHistory h sh st = Inr (st', n)"
    "configs st' = {u \<in> configs st. \<not> prunable sh h u}" "same_suppliers st st'"
    by (rule EndBlockerPrune_ok [OF si assms(5-7)])
  have "\<not> prunable sh h u \<longleftrightarrow> DeactivationHeight u = 0 \<or> h < DeactivationHeight u
        \<or> (\<exists>c. GetProofWindowCloseHeight (GetParamsAtHeight sh (DeactivationHeight u - 1)) (DeactivationHeight u - 1)
             = Inr c \<and> h \<le> c)" for u
    using proof_window_total [of "GetParamsAtHeight sh (DeactivationHeight u - 1)" "DeactivationHeight u - 1"] assms(5)
    by (auto simp: prunable_def epochs_total_def not_le not_less)
  then show ?thesis
    using p by (simp add: same_suppliers_def GetDehydratedSupplier_def)
qed

lemma witness_epochs_total: "epochs_total witness_genesis"
  by (simp add: epochs_total_def GetParamsAtHeight_def witness_genesis_def kv_rev_below_def GetParams_def
      NewParams_def)

theorem pruning_spares_open_proof_windows_witness:
  "\<exists>st log st20 st21 m n. sup_run = Inr (st, log)
    \<and> EndBlockerPruneSupplierServiceConfigHistory 20 witness_genesis st = Inr (st20, m)
    \<and> EndBlockerPruneSupplierServiceConfigHistory 21 witness_genesis st = Inr (st21, n)
    \<and> SCU_OperatorAddress ` configs st20 = {''p1'', ''p2''} \<and> SCU_OperatorAddress ` configs st21 = {''p2''}"
proof -
  obtain st log where r: "sup_run = Inr (st, log)"
    "map (\<lambda>u. (SCU_OperatorAddress u, DeactivationHeight u)) (map snd (ConfigUpdates st))
      = [(''p1'', 11), (''p2'', 0)]" by (rule sup_run_Inr)
  then obtain a b k1 k2 where c: "ConfigUpdates st = [(k1, a), (k2, b)]"
    "SCU_OperatorAddress a = ''p1''" "DeactivationHeight a = 11" "SCU_OperatorAddress b = ''p2''" "DeactivationHeight b = 0"
    by (auto simp: map_eq_Cons_conv)
  then have cf: "configs st = {a, b}" by (simp add: configs_def)
  have w: "GetProofWindowCloseHeight (GetParamsAtHeight witness_genesis 10) 10 = Inr 20" by code_simp
  note pr = pruning_spares_open_proof_windows [OF sup_run_reachable [OF r(1), of upper_string "''gov''"] sup_sdk_ok
      sup_params_valid witness_epochs_total]
  let ?keep = "\<lambda>h. {u \<in> configs st. DeactivationHeight u = 0 \<or> h < DeactivationHeight u
        \<or> (\<exists>c. GetProofWindowCloseHeight (GetParamsAtHeight witness_genesis (DeactivationHeight u - 1))
             (DeactivationHeight u - 1) = Inr c \<and> h \<le> c)}"
  have "a \<noteq> b" using c by auto
  then have "?keep 20 = {a, b}" "?keep 21 = {b}" using c(3,5) w unfolding cf by auto
  then obtain st20 m st21 n where
    p20: "EndBlockerPruneSupplierServiceConfigHistory 20 witness_genesis st = Inr (st20, m)" "configs st20 = {a, b}"
    and p21: "EndBlockerPruneSupplierServiceConfigHistory 21 witness_genesis st = Inr (st21, n)" "configs st21 = {b}"
    using pr [of 20] pr [of 21] by auto
  show ?thesis using r(1) p20 p21 c by auto
qed

section \<open>Non-canonical operator addresses\<close>

text \<open>C26. The end blocker removes the supplier stored under the canonical text of the operator address.
  If a due supplier is stored under another text that decodes (Bech32 admits an upper-case form),
  the payout is made and nothing is removed: the supplier stays stored and listed as unbonding, so
  that every later session end pays its stake again, out of the other suppliers' stakes.\<close>
theorem noncanonical_operator_is_paid_again:
  assumes "sup_inv st" and "GetAllUnstakingSuppliersIterator st = [op]"
    and "GetDehydratedSupplier st op = Some s" and "unbonding_due sh h s" and "0 < Amount (Supplier_Stake s)"
    and "isBech32 sdk op" and "isBech32 sdk (OwnerAddress s)" and "bankAccepts sdk log (payout s)"
    and "accAddressString op \<noteq> op" and "no_slash (accAddressString op)"
    and "IsSessionEndHeight (GetParams sh) h = Inr True" and "NumBlocksPerSession (GetParams sh) \<noteq> 0"
  shows "\<exists>st'. EndBlockerUnbondSuppliers sdk accAddressString h sh (st, log) = Inr ((st', log @ [payout s]), 1)
    \<and> GetDehydratedSupplier st' op = Some s \<and> GetAllUnstakingSuppliersIterator st' = [op] \<and> sup_inv st'"
proof -
  let ?st = "RemoveSupplier (accAddressString op) st"
  have op: "OperatorAddress s = op" by (rule GetDehydratedSupplier_ok(1) [OF assms(1,3)])
  obtain e where e: "GetSessionEndHeight (GetParams sh) h = Inr e" using session_end_total [OF assms(12)] by blast
  have "unbond_supplier_step sdk accAddressString h sh ((st, log), 0) op = Inr ((?st, log @ [payout s]), 1)"
    using assms(3-8) op e release_supplier_stake_eq [OF assms(5,12), of sdk h log]
    by (simp add: unbond_supplier_step_def unbonding_due_def Let_def pay_stake_def)
  then have run: "EndBlockerUnbondSuppliers sdk accAddressString h sh (st, log) = Inr ((?st, log @ [payout s]), 1)"
    using assms(2,11) by (simp add: EndBlockerUnbondSuppliers_def)
  note r = RemoveSupplier_ok [OF assms(1,10)]
  have g: "GetDehydratedSupplier ?st x = (if x = accAddressString op then None else GetDehydratedSupplier st x)" for x
    by (rule GetDehydrated_RemoveSupplier)
  have "filter Supplier_IsUnbonding (stored_suppliers st) = [s]"
  proof -
    obtain t where t: "filter Supplier_IsUnbonding (stored_suppliers st) = [t]" "OperatorAddress t = op"
      using assms(2) unfolding unstaking_list [OF assms(1)] by (auto simp: map_eq_Cons_conv)
    then have "t \<in> set (filter Supplier_IsUnbonding (stored_suppliers st))" by simp
    then have "t \<in> set (stored_suppliers st)" by simp
    then show ?thesis using t stored_find [OF assms(1)] assms(3) by simp
  qed
  moreover have "stored_suppliers ?st = filter (\<lambda>t. OperatorAddress t \<noteq> accAddressString op) (stored_suppliers st)"
  proof -
    have k: "fst e \<noteq> StringKey x \<longleftrightarrow> OperatorAddress (snd e) \<noteq> x" if "e \<in> set (SupplierStore st)" for e x
      using assms(1) that by (auto simp: sup_inv_def keyed_def)
    have "filter (\<lambda>e. fst e \<noteq> StringKey (accAddressString op)) (SupplierStore st)
        = filter (\<lambda>e. OperatorAddress (snd e) \<noteq> accAddressString op) (SupplierStore st)"
      using k by (intro filter_cong) auto
    then show ?thesis by (simp add: stored_suppliers_def r(3) kv_del_def filter_map comp_def)
  qed
  ultimately have "filter Supplier_IsUnbonding (stored_suppliers ?st)
      = filter (\<lambda>t. OperatorAddress t \<noteq> accAddressString op) [s]"
    by (metis (no_types, lifting) filter_filter filter_cong conj_commute)
  then have "filter Supplier_IsUnbonding (stored_suppliers ?st) = [s]" using op assms(9) by simp
  then have "GetAllUnstakingSuppliersIterator ?st = [op]" by (simp add: unstaking_list [OF r(1)] op)
  then show ?thesis using run g assms(3,9) r(1) by auto
qed

text \<open>With \<open>P1\<close> as another text of \<open>p1\<close>, the owner stakes under it, without services, and unstakes.\<close>

definition upper_run :: "supplier_ctx res" where
  "upper_run =
     bindR (sup_stake 2 (sup_msg ''p2'' ''p2'' 700 [''svc2'']) (genesis_suppliers sup_params)) (\<lambda>s1.
     bindR (sup_stake 3 (sup_msg ''o1'' ''P1'' 500 []) s1) (\<lambda>s2.
     UnstakeSupplier sup_sdk 4 witness_genesis ''o1'' ''P1'' s2))"

lemma upper_run_inv:
  assumes "upper_run = Inr (st, log)"
  shows "sup_inv st"
proof -
  have nx: "next_start_ok witness_genesis h" if "h = 2 \<or> h = 3 \<or> h = 4" for h
    using that by (intro next_start_ok_bounded)
      (auto simp: witness_genesis_def GetParams_def NewParams_def params_bounded_def height_bounded_def)
  let ?inv = "supplier_chain_inv sup_sdk (\<lambda>a. a)"
  from assms obtain s1 s2 where r:
    "sup_stake 2 (sup_msg ''p2'' ''p2'' 700 [''svc2'']) (genesis_suppliers sup_params) = Inr s1"
    "sup_stake 3 (sup_msg ''o1'' ''P1'' 500 []) s1 = Inr s2"
    "UnstakeSupplier sup_sdk 4 witness_genesis ''o1'' ''P1'' s2 = Inr (st, log)"
    by (auto simp: upper_run_def res_simps)
  have "?inv s1"
    using r(1) nx genesis_suppliers_inv [OF sup_params_valid]
    by (auto simp: sup_stake_def intro: StakeSupplier_keeps [OF _ sup_sdk_ok])
  then have "?inv s2"
    using r(2) nx by (auto simp: sup_stake_def intro: StakeSupplier_keeps [OF _ sup_sdk_ok])
  then have "?inv (st, log)" using r(3) nx by (auto intro: UnstakeSupplier_keeps)
  then show ?thesis by (simp add: supplier_chain_inv_iff)
qed

theorem noncanonical_operator_is_paid_again_witness:
  "\<exists>st log st1 st2 pay. upper_run = Inr (st, log)
    \<and> pay = SendFromModuleToAccount ''supplier'' ''o1'' \<lparr>Denom = ''upokt'', Amount = 500\<rparr>
    \<and> EndBlockerUnbondSuppliers sup_sdk upper_string 20 witness_genesis (st, log) = Inr ((st1, log @ [pay]), 1)
    \<and> EndBlockerUnbondSuppliers sup_sdk upper_string 30 witness_genesis (st1, log @ [pay])
        = Inr ((st2, (log @ [pay]) @ [pay]), 1)"
proof -
  let ?pay = "SendFromModuleToAccount ''supplier'' ''o1'' \<lparr>Denom = ''upokt'', Amount = 500\<rparr>"
  have "case upper_run of Inl _ \<Rightarrow> False | Inr (st, log) \<Rightarrow>
      GetAllUnstakingSuppliersIterator st = [''P1'']
      \<and> (case GetDehydratedSupplier st ''P1'' of None \<Rightarrow> False | Some s \<Rightarrow>
          unbonding_due witness_genesis 20 s \<and> unbonding_due witness_genesis 30 s \<and> payout s = ?pay
          \<and> 0 < Amount (Supplier_Stake s) \<and> isBech32 sup_sdk (OwnerAddress s))"
    by code_simp
  then obtain st log s where r: "upper_run = Inr (st, log)" "GetAllUnstakingSuppliersIterator st = [''P1'']"
    "GetDehydratedSupplier st ''P1'' = Some s" "unbonding_due witness_genesis 20 s"
    "unbonding_due witness_genesis 30 s" "payout s = ?pay" "0 < Amount (Supplier_Stake s)"
    "isBech32 sup_sdk (OwnerAddress s)"
    by (auto split: sum.splits prod.splits option.splits)
  have o: "isBech32 sup_sdk ''P1''" "\<And>l. bankAccepts sup_sdk l (payout s)" "upper_string ''P1'' \<noteq> ''P1''"
    "no_slash (upper_string ''P1'')"
    by (simp_all add: sup_sdk_def plain_sdk_def upper_string_def no_slash_def)
  have n: "NumBlocksPerSession (GetParams witness_genesis) \<noteq> 0" by code_simp
  have e: "IsSessionEndHeight (GetParams witness_genesis) 20 = Inr True"
    "IsSessionEndHeight (GetParams witness_genesis) 30 = Inr True" by code_simp+
  obtain st1 where one: "EndBlockerUnbondSuppliers sup_sdk upper_string 20 witness_genesis (st, log)
      = Inr ((st1, log @ [?pay]), 1)" "GetDehydratedSupplier st1 ''P1'' = Some s"
    "GetAllUnstakingSuppliersIterator st1 = [''P1'']" "sup_inv st1"
    using noncanonical_operator_is_paid_again [where accAddressString = upper_string, OF upper_run_inv [OF r(1)] r(2,3,4,7) o(1) r(8) o(2-4) e(1) n] r(6)
    by auto
  show ?thesis
    using noncanonical_operator_is_paid_again [where accAddressString = upper_string, OF one(4,3,2) r(5,7) o(1) r(8) o(2-4) e(2) n, of "log @ [?pay]"]
      r(1,6) one(1) by auto
qed

text \<open>C27. When a supplier due for removal is stored under a non-canonical text and the supplier under the
  canonical text of the same address comes next in the unstaking index, the end blocker fails,
  whatever the bank accepts: removing the first deletes the record of the second, which the
  iterator opened before still returns. An error of the end blocker halts the chain, and at every
  later attempt the same block meets the same state.\<close>
theorem twin_operators_halt_the_end_blocker:
  assumes "sup_inv st" and "GetAllUnstakingSuppliersIterator st = op # accAddressString op # ops"
    and "GetDehydratedSupplier st op = Some s" and "unbonding_due sh h s"
    and "isBech32 sdk op" and "isBech32 sdk (OwnerAddress s)"
    and "IsSessionEndHeight (GetParams sh) h = Inr True" and "NumBlocksPerSession (GetParams sh) \<noteq> 0"
  shows "Supplier_EndBlocker sdk accAddressString h sh (st, log) = Inl ErrFmt"
proof -
  have op: "OperatorAddress s = op" by (rule GetDehydratedSupplier_ok(1) [OF assms(1,3)])
  obtain e where e: "GetSessionEndHeight (GetParams sh) h = Inr e" using session_end_total [OF assms(8)] by blast
  have "release_supplier_stake sdk h sh s log = Inr (if 0 < Amount (Supplier_Stake s) then pay_stake sdk s log else log)"
    using release_supplier_stake_eq [OF _ assms(8), of s sdk h log] by (simp add: release_supplier_stake_def)
  then obtain log' where "unbond_supplier_step sdk accAddressString h sh ((st, log), 0) op
      = Inr ((RemoveSupplier (accAddressString op) st, log'), 1)"
    using assms(3-6) op e by (simp add: unbond_supplier_step_def unbonding_due_def Let_def)
  moreover have "unbond_supplier_step sdk accAddressString h sh
      ((RemoveSupplier (accAddressString op) st, log'), 1) (accAddressString op) = Inl ErrFmt"
    by (simp add: unbond_supplier_step_def GetDehydrated_RemoveSupplier)
  ultimately show ?thesis
    using assms(2,7) by (simp add: Supplier_EndBlocker_def EndBlockerUnbondSuppliers_def)
qed

text \<open>One operator stakes under both texts of its address and unstakes both.\<close>

definition twin_run :: "supplier_ctx res" where
  "twin_run =
     bindR (sup_stake 2 (sup_msg ''p1'' ''p1'' 700 [''svc1'']) (genesis_suppliers sup_params)) (\<lambda>s1.
     bindR (sup_stake 3 (sup_msg ''o1'' ''P1'' 500 []) s1) (\<lambda>s2.
     bindR (UnstakeSupplier sup_sdk 4 witness_genesis ''o1'' ''P1'' s2) (\<lambda>s3.
     UnstakeSupplier sup_sdk 4 witness_genesis ''o1'' ''p1'' s3)))"

lemma twin_run_reachable:
  assumes "twin_run = Inr s"
  shows "(supplier_step sup_sdk sup_url (\<lambda>a. False) f x)\<^sup>*\<^sup>* (genesis_suppliers sup_params) s"
proof -
  have nx: "next_start_ok witness_genesis h" if "h = 2 \<or> h = 3 \<or> h = 4" for h
    using that by (intro next_start_ok_bounded)
      (auto simp: witness_genesis_def GetParams_def NewParams_def params_bounded_def height_bounded_def)
  from assms obtain s1 s2 s3 where r:
    "sup_stake 2 (sup_msg ''p1'' ''p1'' 700 [''svc1'']) (genesis_suppliers sup_params) = Inr s1"
    "sup_stake 3 (sup_msg ''o1'' ''P1'' 500 []) s1 = Inr s2"
    "UnstakeSupplier sup_sdk 4 witness_genesis ''o1'' ''P1'' s2 = Inr s3"
    "UnstakeSupplier sup_sdk 4 witness_genesis ''o1'' ''p1'' s3 = Inr s"
    by (auto simp: twin_run_def res_simps)
  let ?step = "supplier_step sup_sdk sup_url (\<lambda>a. False) f x"
  have "?step (genesis_suppliers sup_params) s1" "?step s1 s2"
    using r(1,2) nx by (auto simp: sup_stake_def intro: supplier_step.stake)
  moreover have "?step s2 s3" "?step s3 s" using r(3,4) nx by (auto intro: supplier_step.unstake)
  ultimately show ?thesis by (meson converse_rtranclp_into_rtranclp rtranclp.rtrancl_refl)
qed

theorem twin_operators_halt_the_end_blocker_witness:
  "\<exists>st log. twin_run = Inr (st, log)
    \<and> (supplier_step sup_sdk sup_url (\<lambda>a. False) upper_string ''gov'')\<^sup>*\<^sup>* (genesis_suppliers sup_params) (st, log)
    \<and> Supplier_EndBlocker sup_sdk upper_string 20 witness_genesis (st, log) = Inl ErrFmt"
proof -
  have "case twin_run of Inl _ \<Rightarrow> False | Inr (st, log) \<Rightarrow>
      GetAllUnstakingSuppliersIterator st = [''P1'', ''p1'']
      \<and> (case GetDehydratedSupplier st ''P1'' of None \<Rightarrow> False | Some s \<Rightarrow>
          unbonding_due witness_genesis 20 s \<and> isBech32 sup_sdk (OwnerAddress s))"
    by code_simp
  then obtain st log s where r: "twin_run = Inr (st, log)"
    "GetAllUnstakingSuppliersIterator st = [''P1'', ''p1'']"
    "GetDehydratedSupplier st ''P1'' = Some s" "unbonding_due witness_genesis 20 s"
    "isBech32 sup_sdk (OwnerAddress s)"
    by (auto split: sum.splits prod.splits option.splits)
  note reach = twin_run_reachable [OF r(1), of upper_string "''gov''"]
  have "sup_inv st" by (rule supplier_reachable_sup_inv [OF reach sup_sdk_ok sup_params_valid])
  moreover have "isBech32 sup_sdk ''P1''" by (simp add: sup_sdk_def no_slash_def)
  moreover have "IsSessionEndHeight (GetParams witness_genesis) 20 = Inr True"
    "NumBlocksPerSession (GetParams witness_genesis) \<noteq> 0" by code_simp+
  moreover have "upper_string ''P1'' = ''p1''" by (simp add: upper_string_def)
  ultimately show ?thesis
    using twin_operators_halt_the_end_blocker [of st "''P1''" upper_string "[]" s witness_genesis 20 sup_sdk log]
      reach r by auto
qed

section \<open>Genesis\<close>

text \<open>The store is canonical: suppliers, configurations and parameters determine every index.\<close>

lemma sup_inv_ext:
  assumes a: "sup_inv a" and b: "sup_inv b" and "SupplierStore a = SupplierStore b"
    and "configs a = configs b" and "SupplierParams a = SupplierParams b"
  shows "a = b"
proof -
  have opt: "x = y" if "\<And>v. x = Some v \<longleftrightarrow> y = Some v" for x y :: "'v option"
    using that by (metis not_None_eq)
  have pa: "prim_ok (ConfigUpdates a)" and pb: "prim_ok (ConfigUpdates b)"
    using a b by (simp_all add: sup_inv_def config_indexes_ok_def)
  have "map_of (ConfigUpdates a) k = map_of (ConfigUpdates b) k" for k
    by (rule opt) (simp add: map_of_configs [OF pa] map_of_configs [OF pb] assms(4))
  then have C: "ConfigUpdates a = ConfigUpdates b"
    using pa pb by (intro kv_ext) (auto simp: prim_ok_def)
  have "map_of (OperatorIndex a) k = map_of (OperatorIndex b) k" for k
    using a b C by (intro opt) (simp add: sup_inv_def config_indexes_ok_def oidx.exact_def)
  then have O: "OperatorIndex a = OperatorIndex b"
    using a b by (intro kv_ext) (auto simp: sup_inv_def config_indexes_ok_def oidx.exact_def)
  have "map_of (ActivationIndex a) k = map_of (ActivationIndex b) k" for k
    using a b C by (intro opt) (simp add: sup_inv_def config_indexes_ok_def aidx.exact_def)
  then have A: "ActivationIndex a = ActivationIndex b"
    using a b by (intro kv_ext) (auto simp: sup_inv_def config_indexes_ok_def aidx.exact_def)
  have "map_of (DeactivationIndex a) k = map_of (DeactivationIndex b) k" for k
    using a b C by (intro opt) (simp add: sup_inv_def config_indexes_ok_def didx.exact_def)
  then have D: "DeactivationIndex a = DeactivationIndex b"
    using a b by (intro kv_ext) (auto simp: sup_inv_def config_indexes_ok_def didx.exact_def)
  have "map_of (UnstakingIndex a) k = map_of (UnstakingIndex b) k" for k
    using a b assms(3) by (intro opt) (simp add: sup_inv_def unstaking_exact_def)
  then have U: "UnstakingIndex a = UnstakingIndex b"
    using a b by (intro kv_ext) (auto simp: sup_inv_def unstaking_exact_def)
  show ?thesis using assms(3,5) C O A D U by simp
qed

lemma fold_SetAndIndex_ok:
  assumes "sup_inv st" and "\<forall>s \<in> set ss. supplier_wf s" and "distinct (map OperatorAddress ss)"
  defines "st' \<equiv> fold SetAndIndexDehydratedSupplier ss st"
  shows "sup_inv st' \<and> SupplierParams st' = SupplierParams st
    \<and> configs st' = {u \<in> configs st. SCU_OperatorAddress u \<notin> OperatorAddress ` set ss}
        \<union> (\<Union>s \<in> set ss. set (ServiceConfigHistory s))
    \<and> map_of (SupplierStore st') = map_of (SupplierStore st)
        ++ map_of (map (\<lambda>s. (StringKey (OperatorAddress s), dehydrated s)) ss)"
  using assms(1-3) unfolding st'_def
proof (induction ss arbitrary: st)
  case Nil
  then show ?case by simp
next
  case (Cons s ss)
  have wf: "supplier_wf s" using Cons.prems(2) by simp
  note k = SetAndIndex_ok [OF Cons.prems(1) wf]
  have IH: "sup_inv (fold SetAndIndexDehydratedSupplier (s # ss) st)
    \<and> SupplierParams (fold SetAndIndexDehydratedSupplier (s # ss) st) = SupplierParams st
    \<and> configs (fold SetAndIndexDehydratedSupplier (s # ss) st)
        = {u \<in> configs (SetAndIndexDehydratedSupplier s st). SCU_OperatorAddress u \<notin> OperatorAddress ` set ss}
        \<union> (\<Union>s \<in> set ss. set (ServiceConfigHistory s))
    \<and> map_of (SupplierStore (fold SetAndIndexDehydratedSupplier (s # ss) st))
        = map_of (SupplierStore (SetAndIndexDehydratedSupplier s st))
        ++ map_of (map (\<lambda>s. (StringKey (OperatorAddress s), dehydrated s)) ss)"
    using Cons.IH [OF k(1)] Cons.prems(2,3) k(4) by simp
  have hist: "SCU_OperatorAddress u = OperatorAddress s" if "u \<in> set (ServiceConfigHistory s)" for u
    using wf that by (simp add: supplier_wf_def history_wf_def)
  have "OperatorAddress s \<notin> OperatorAddress ` set ss" using Cons.prems(3) by simp
  then have c: "{u \<in> configs (SetAndIndexDehydratedSupplier s st). SCU_OperatorAddress u \<notin> OperatorAddress ` set ss}
      = {u \<in> configs st. SCU_OperatorAddress u \<notin> OperatorAddress ` set (s # ss)} \<union> set (ServiceConfigHistory s)"
    unfolding k(2) using hist by auto
  have "map_of (map (\<lambda>s. (StringKey (OperatorAddress s), dehydrated s)) ss) (StringKey (OperatorAddress s)) = None"
    using \<open>OperatorAddress s \<notin> _\<close> by (auto simp: map_of_eq_None_iff)
  then have m: "map_of (SupplierStore (SetAndIndexDehydratedSupplier s st))
        ++ map_of (map (\<lambda>s. (StringKey (OperatorAddress s), dehydrated s)) ss)
      = map_of (SupplierStore st) ++ map_of (map (\<lambda>s. (StringKey (OperatorAddress s), dehydrated s)) (s # ss))"
    unfolding k(3) by (auto simp: kv_simps map_add_def fun_eq_iff split: option.splits)
  from IH have i: "sup_inv (fold SetAndIndexDehydratedSupplier (s # ss) st)"
    "SupplierParams (fold SetAndIndexDehydratedSupplier (s # ss) st) = SupplierParams st" by blast+
  note cc = IH [THEN conjunct2, THEN conjunct2, THEN conjunct1, unfolded c]
  note mm = IH [THEN conjunct2, THEN conjunct2, THEN conjunct2, unfolded m]
  show ?case
  proof (intro conjI)
    show "configs (fold SetAndIndexDehydratedSupplier (s # ss) st)
        = {u \<in> configs st. SCU_OperatorAddress u \<notin> OperatorAddress ` set (s # ss)}
          \<union> (\<Union>s \<in> set (s # ss). set (ServiceConfigHistory s))"
      unfolding cc by auto
  qed (fact i mm)+
qed

lemma GetAllSuppliers_eq: "GetAllSuppliers st h = map (hydrateFullSupplierServiceConfigs st h) (stored_suppliers st)"
  by (simp add: GetAllSuppliers_def stored_suppliers_def comp_def)

lemma hydrate_sels [simp]:
  "OperatorAddress (hydrateFullSupplierServiceConfigs st h s) = OperatorAddress s"
  "ServiceConfigHistory (hydrateFullSupplierServiceConfigs st h s)
    = getSupplierServiceConfigUpdates st (OperatorAddress s) ''''"
  by (simp_all add: hydrateFullSupplierServiceConfigs_def Let_def)

lemma hydrate_dehydrated:
  "supplier_entry_ok s \<Longrightarrow> dehydrated (hydrateFullSupplierServiceConfigs st h s) = s"
  by (simp add: hydrateFullSupplierServiceConfigs_def Let_def dehydrated_def supplier_entry_ok_def)

lemma hydrate_genesis:
  "genesis_supplier (hydrateFullSupplierServiceConfigs st h s) = hydrateFullSupplierServiceConfigs st h s"
  by (auto simp: genesis_supplier_def hydrateFullSupplierServiceConfigs_def Let_def
      Supplier_GetActiveServiceConfigs_def)

text \<open>Exporting the supplier module's state at any height and importing it into an empty store gives
  the same state: suppliers, configurations, activation and deactivation heights, unbonding
  suppliers, parameters and every index.\<close>
theorem supplier_genesis_roundtrip:
  assumes "(supplier_step sdk urlParse isMod accAddressString authority)\<^sup>*\<^sup>* (genesis_suppliers p) (st, log)"
    and "sdk_ok sdk" and "bech32_no_slash sdk" and "Supplier_Params_Validate p = Inr ()"
    and "SupplierParams st \<noteq> None"
  shows "Supplier_InitGenesis (Supplier_ExportGenesis st h) empty_supplier_state = st"
proof -
  have inv: "sup_inv st"
    by (rule supplier_reachable_sup_inv [OF assms(1-4)])
  then have ok: "config_indexes_ok st" by (simp add: sup_inv_def)
  let ?ss = "GetAllSuppliers st h"
  have stored: "GetDehydratedSupplier st (OperatorAddress s) = Some s" if "s \<in> set (stored_suppliers st)" for s
    using stored_find [OF inv] that by simp
  have entry: "supplier_entry_ok s" "no_slash (OperatorAddress s)" if "s \<in> set (stored_suppliers st)" for s
    using GetDehydratedSupplier_ok [OF inv stored [OF that]] by auto
  have wf: "\<forall>s \<in> set ?ss. supplier_wf s"
    using entry(2) getSupplierServiceConfigUpdates_wf [OF ok] by (auto simp: GetAllSuppliers_eq supplier_wf_def)
  have d: "distinct (map OperatorAddress ?ss)"
    using stored_distinct [OF inv] by (simp add: GetAllSuppliers_eq comp_def)
  let ?st = "fold SetAndIndexDehydratedSupplier ?ss empty_supplier_state"
  note f = fold_SetAndIndex_ok [OF sup_inv_empty wf d]
  have g: "Supplier_InitGenesis (Supplier_ExportGenesis st h) empty_supplier_state
      = ?st\<lparr>SupplierParams := SupplierParams st\<rparr>"
    using assms(5) by (auto simp: Supplier_InitGenesis_def Supplier_ExportGenesis_def GetAllSuppliers_eq
        fold_map comp_def hydrate_genesis Supplier_GetParams_def)
  have e: "configs empty_supplier_state = {}" "SupplierStore empty_supplier_state = []"
    by (simp_all add: configs_def empty_supplier_state_def)
  have "map (\<lambda>s. (StringKey (OperatorAddress s), dehydrated s)) ?ss
      = map (\<lambda>s. (StringKey (OperatorAddress s), s)) (stored_suppliers st)"
    using entry(1) by (simp add: GetAllSuppliers_eq hydrate_dehydrated)
  also have "\<dots> = SupplierStore st"
    using inv by (auto simp: stored_suppliers_def sup_inv_def keyed_def intro!: map_idI)
  finally have "map_of (SupplierStore ?st) = map_of (SupplierStore st)" using f e by simp
  then have store: "SupplierStore ?st = SupplierStore st"
    using f inv by (intro kv_ext) (auto simp: sup_inv_def keyed_def)
  have "(\<Union>s \<in> set ?ss. set (ServiceConfigHistory s))
      = (\<Union>s \<in> set (stored_suppliers st). {u \<in> configs st. SCU_OperatorAddress u = OperatorAddress s})"
    using getSupplierServiceConfigUpdates_all [OF ok] entry(2) by (simp add: GetAllSuppliers_eq)
  also have "\<dots> = configs st"
  proof -
    have "\<exists>s \<in> set (stored_suppliers st). SCU_OperatorAddress u = OperatorAddress s" if "u \<in> configs st" for u
    proof -
      have "GetDehydratedSupplier st (SCU_OperatorAddress u) \<noteq> None"
        using inv that in_configs_iff [of st u] ok by (auto simp: sup_inv_def config_indexes_ok_def)
      then obtain s where "GetDehydratedSupplier st (SCU_OperatorAddress u) = Some s" by blast
      then show ?thesis using GetDehydratedSupplier_ok(1) [OF inv] stored_find [OF inv, of s] by metis
    qed
    then show ?thesis by blast
  qed
  finally have c: "configs ?st = configs st" using f e by simp
  let ?st' = "?st\<lparr>SupplierParams := SupplierParams st\<rparr>"
  have "sup_inv ?st" using f by blast
  then have "sup_inv ?st'"
    by (simp add: sup_inv_def config_indexes_ok_def unstaking_exact_def GetDehydratedSupplier_def)
  moreover have "configs ?st' = configs st" using c by (simp add: configs_def)
  ultimately show ?thesis unfolding g using store inv by (intro sup_inv_ext) simp_all
qed

theorem supplier_genesis_roundtrip_witness:
  "\<exists>st log. sup_run = Inr (st, log) \<and> length (GetAllSuppliers st 5) = 2
    \<and> Supplier_InitGenesis (Supplier_ExportGenesis st 5) empty_supplier_state = st"
proof -
  have "case sup_run of Inl _ \<Rightarrow> False | Inr (st, log) \<Rightarrow>
      SupplierParams st = Some sup_params \<and> length (GetAllSuppliers st 5) = 2" by code_simp
  then obtain st log where r: "sup_run = Inr (st, log)" "SupplierParams st = Some sup_params"
    "length (GetAllSuppliers st 5) = 2" by (auto split: sum.splits prod.splits)
  then show ?thesis
    using supplier_genesis_roundtrip [OF sup_run_reachable [OF r(1), of upper_string "''gov''"] sup_sdk_ok
      sup_params_valid, of 5] by auto
qed

end
