(* ===== verification/SupplierTimeline.thy ===== *)
theory SupplierTimeline
  imports SupplierClaims
begin

text \<open>
  Who may change a supplier, and what the change does to its service configurations at each
  height: a change of services takes effect at the next session start; unstaking rewrites every
  deactivation height, those of configurations dropped before included.
\<close>

section \<open>Authorization\<close>

lemma staked_supplier_auth:
  assumes "staked_supplier h sh msg (Some s0) = Inr (s, cur)"
  shows "MSS_Signer msg = OwnerAddress s0 \<or> MSS_Signer msg = OperatorAddress s0"
    and "OwnerAddress s \<noteq> OwnerAddress s0 \<Longrightarrow> MSS_Signer msg = OwnerAddress s0"
    and "MSS_Services msg \<noteq> [] \<Longrightarrow> MSS_Signer msg = OperatorAddress s0"
    and "Supplier_IsUnbonding s0 \<Longrightarrow> MSS_Signer msg = OwnerAddress s0"
    and "\<not> Supplier_IsUnbonding s"
proof -
  have signer: "MSS_IsSigner msg x \<longleftrightarrow> MSS_Signer msg = x" for x by (auto simp: MSS_IsSigner_def)
  let ?own = "MSS_IsSigner msg (OwnerAddress s0)" and ?oper = "MSS_IsSigner msg (OperatorAddress s0)"
  have g: "?own \<or> ?oper" "HasOwner s0 (MSS_OwnerAddress msg) \<or> ?own" "?oper \<or> MSS_Services msg = []"
    using assms by (simp_all add: staked_supplier_def split: if_splits)
  have "bindR (mapErr (Status InvalidArgument) (updateSupplier h sh msg s0)) (\<lambda>s'.
      if Supplier_UnstakeSessionEndHeight s' \<noteq> 0 then
        (if \<not> ?own then Inl (Status PermissionDenied (Shared ErrSharedUnauthorizedSupplierUpdate))
         else Inr (s'\<lparr>Supplier_UnstakeSessionEndHeight := 0\<rparr>, Supplier_Stake s0))
      else Inr (s', Supplier_Stake s0)) = Inr (s, cur)"
    using assms by (simp add: staked_supplier_def split: if_splits)
  then obtain s1 where u: "updateSupplier h sh msg s0 = Inr s1"
    and c: "(if Supplier_UnstakeSessionEndHeight s1 \<noteq> 0 then
        (if \<not> ?own then Inl (Status PermissionDenied (Shared ErrSharedUnauthorizedSupplierUpdate))
         else Inr (s1\<lparr>Supplier_UnstakeSessionEndHeight := 0\<rparr>, Supplier_Stake s0))
      else Inr (s1, Supplier_Stake s0)) = Inr (s, cur)"
    unfolding bindR_Inr_iff mapErr_Inr_iff by blast
  have a1: "MSS_Signer msg = OwnerAddress s0 \<or> MSS_Signer msg = OperatorAddress s0"
    and a2: "OwnerAddress s0 = MSS_OwnerAddress msg \<or> MSS_Signer msg = OwnerAddress s0"
    and a3: "MSS_Services msg \<noteq> [] \<longrightarrow> MSS_Signer msg = OperatorAddress s0"
    using g unfolding signer HasOwner_def by blast+
  have s: "OwnerAddress s = OwnerAddress s1" "Supplier_UnstakeSessionEndHeight s = 0"
    "Supplier_UnstakeSessionEndHeight s1 \<noteq> 0 \<longrightarrow> MSS_Signer msg = OwnerAddress s0"
    using c by (simp_all add: signer [symmetric] split: if_splits) auto
  note i = updateSupplier_Inr [OF u]
  show "MSS_Signer msg = OwnerAddress s0 \<or> MSS_Signer msg = OperatorAddress s0" by (rule a1)
  show "OwnerAddress s \<noteq> OwnerAddress s0 \<Longrightarrow> MSS_Signer msg = OwnerAddress s0" using a2 i(1) s(1) by auto
  show "MSS_Services msg \<noteq> [] \<Longrightarrow> MSS_Signer msg = OperatorAddress s0" using a3 by simp
  show "Supplier_IsUnbonding s0 \<Longrightarrow> MSS_Signer msg = OwnerAddress s0"
    using s(3) i(4) by (simp add: Supplier_IsUnbonding_def)
  show "\<not> Supplier_IsUnbonding s" using s(2) by (simp add: Supplier_IsUnbonding_def)
qed

text \<open>C29. A staking message that succeeds on a stored supplier is signed by its owner or its operator;
  only the stored owner changes the owner address or cancels an unbonding in progress, only the
  operator changes the service configurations; and no other supplier is touched.\<close>
theorem only_owner_and_operator_change_supplier:
  assumes "StakeSupplier sdk urlParse isMod h sh svc msg (st, log) = Inr (st', log')"
    and "sup_inv st" and "sdk_ok sdk" and "bech32_no_slash sdk" and "next_start_ok sh h"
    and "GetSupplier st h (MSS_OperatorAddress msg) = Some s0"
    and "GetSupplier st' h (MSS_OperatorAddress msg) = Some s1"
  shows "(MSS_Signer msg = OwnerAddress s0 \<or> MSS_Signer msg = OperatorAddress s0)
    \<and> (OwnerAddress s1 \<noteq> OwnerAddress s0 \<longrightarrow> MSS_Signer msg = OwnerAddress s0)
    \<and> (configs st' \<noteq> configs st \<longrightarrow> MSS_Signer msg = OperatorAddress s0)
    \<and> (Supplier_IsUnbonding s0 \<longrightarrow> MSS_Signer msg = OwnerAddress s0) \<and> \<not> Supplier_IsUnbonding s1
    \<and> (\<forall>x. x \<noteq> MSS_OperatorAddress msg \<longrightarrow> GetDehydratedSupplier st' x = GetDehydratedSupplier st x)
    \<and> {u \<in> configs st'. SCU_OperatorAddress u \<noteq> MSS_OperatorAddress msg}
        = {u \<in> configs st. SCU_OperatorAddress u \<noteq> MSS_OperatorAddress msg}"
proof -
  obtain s cur where v: "MsgStakeSupplier_ValidateBasic sdk urlParse msg = Inr ()"
    and g: "staked_supplier h sh msg (Some s0) = Inr (s, cur)"
    and st': "st' = SetAndIndexDehydratedSupplier s st"
    using StakeSupplier_Inr [OF assms(1)] assms(6) by metis
  obtain d0 where d0: "OperatorAddress s0 = MSS_OperatorAddress msg" "supplier_wf s0"
    "set (ServiceConfigHistory s0) = {u \<in> configs st. SCU_OperatorAddress u = MSS_OperatorAddress msg}"
    using GetSupplier_cases [OF assms(2,6)] by metis
  have i: "supplier_wf s" "OperatorAddress s = MSS_OperatorAddress msg"
    using staked_supplier_Inr [OF g v assms(4,5)] d0 by auto
  note k = SetAndIndex_ok [OF assms(2) i(1), folded st', unfolded i(2)]
  note a = staked_supplier_auth [OF g]
  have s1: "dehydrated s1 = dehydrated s"
  proof -
    obtain d1 where "GetDehydratedSupplier st' (MSS_OperatorAddress msg) = Some d1" "dehydrated s1 = d1"
      using GetSupplier_cases [OF k(1) assms(7)] by metis
    then show ?thesis by (simp add: GetDehydratedSupplier_def k(3) SupplierOperatorKey_def kv_simps)
  qed
  have same: "configs st' = configs st" if "MSS_Services msg = []"
  proof -
    have "ServiceConfigHistory s = ServiceConfigHistory s0"
      using g that by (auto simp: staked_supplier_def updateSupplier_def Let_def res_simps split: if_splits)
    then show ?thesis using k(2) d0(3) by auto
  qed
  have other: "GetDehydratedSupplier st' x = GetDehydratedSupplier st x" if "x \<noteq> MSS_OperatorAddress msg" for x
    using that by (simp add: GetDehydratedSupplier_def k(3) SupplierOperatorKey_def kv_simps)
  have rest: "{u \<in> configs st'. SCU_OperatorAddress u \<noteq> MSS_OperatorAddress msg}
        = {u \<in> configs st. SCU_OperatorAddress u \<noteq> MSS_OperatorAddress msg}"
    using i(1,2) unfolding k(2) by (auto simp: supplier_wf_def history_wf_def)
  have "OwnerAddress s1 = OwnerAddress s" "Supplier_IsUnbonding s1 = Supplier_IsUnbonding s"
    using s1 by (metis dehydrated_sels)+
  then show ?thesis using a same other rest by auto
qed

text \<open>The owner raises the stake of \<open>p2\<close>.\<close>

theorem only_owner_and_operator_change_supplier_witness:
  "\<exists>st log st' log' s0 s1. sup_run = Inr (st, log) \<and> GetSupplier st 5 ''p2'' = Some s0
    \<and> sup_stake 5 (sup_msg ''o1'' ''p2'' 900 []) (st, log) = Inr (st', log')
    \<and> GetSupplier st' 5 ''p2'' = Some s1 \<and> Amount (Supplier_Stake s1) = 900
    \<and> OwnerAddress s0 = ''o1'' \<and> configs st' = configs st
    \<and> GetDehydratedSupplier st' ''p1'' = GetDehydratedSupplier st ''p1''"
proof -
  have "case bindR sup_run (\<lambda>s. bindR (sup_stake 5 (sup_msg ''o1'' ''p2'' 900 []) s) (\<lambda>s'. Inr (s, s'))) of
        Inl _ \<Rightarrow> False
      | Inr (s, s') \<Rightarrow>
        (case GetSupplier (fst s) 5 ''p2'' of None \<Rightarrow> False
          | Some s0 \<Rightarrow> OwnerAddress s0 = ''o1'' \<and> OperatorAddress s0 = ''p2'')
        \<and> (case GetSupplier (fst s') 5 ''p2'' of None \<Rightarrow> False | Some s1 \<Rightarrow> Amount (Supplier_Stake s1) = 900)"
    by code_simp
  then obtain s s' s0 s1 where c: "bindR sup_run (\<lambda>s. bindR (sup_stake 5 (sup_msg ''o1'' ''p2'' 900 []) s)
      (\<lambda>s'. Inr (s, s'))) = Inr (s, s')"
    "GetSupplier (fst s) 5 ''p2'' = Some s0" "OwnerAddress s0 = ''o1''" "OperatorAddress s0 = ''p2''"
    "GetSupplier (fst s') 5 ''p2'' = Some s1" "Amount (Supplier_Stake s1) = 900"
    by (auto split: sum.splits option.splits)
  obtain st log st' log' where s: "s = (st, log)" "s' = (st', log')" by (cases s; cases s')
  have r: "sup_run = Inr (st, log)" "sup_stake 5 (sup_msg ''o1'' ''p2'' 900 []) (st, log) = Inr (st', log')"
    "GetSupplier st 5 ''p2'' = Some s0" "OwnerAddress s0 = ''o1''" "OperatorAddress s0 = ''p2''"
    "GetSupplier st' 5 ''p2'' = Some s1" "Amount (Supplier_Stake s1) = 900"
    using c by (auto simp: s res_simps)
  have si: "sup_inv st"
    by (rule supplier_reachable_sup_inv [OF sup_run_reachable [OF r(1), of upper_string "''gov''"]
      sup_sdk_ok sup_params_valid])
  have nx: "next_start_ok witness_genesis 5"
    by (intro next_start_ok_bounded)
      (auto simp: witness_genesis_def GetParams_def NewParams_def params_bounded_def height_bounded_def)
  have m: "MSS_OperatorAddress (sup_msg ''o1'' ''p2'' 900 []) = ''p2''" "MSS_Signer (sup_msg ''o1'' ''p2'' 900 []) = ''o1''"
    by (simp_all add: sup_msg_def)
  note c = only_owner_and_operator_change_supplier
      [OF r(2) [unfolded sup_stake_def] si sup_sdk_ok nx, unfolded m, OF r(3,6)]
  have "''o1'' \<noteq> OperatorAddress s0" using r(5) by simp
  then have "configs st' = configs st" using c by blast
  moreover have "GetDehydratedSupplier st' ''p1'' = GetDehydratedSupplier st ''p1''" using c by simp
  ultimately show ?thesis using r by blast
qed

section \<open>Changing services\<close>

definition schedules_by :: "int \<Rightarrow> string \<Rightarrow> supplier_state \<Rightarrow> bool" where
  "schedules_by b op st \<longleftrightarrow> (\<forall>u \<in> configs st. SCU_OperatorAddress u = op
     \<longrightarrow> ActivationHeight u \<le> b \<and> DeactivationHeight u \<le> b)"

lemma GetSupplier_services:
  assumes "sup_inv st" and "GetSupplier st q op = Some s"
  shows "set (Services s) = SCU_Service ` {u \<in> configs st. SCU_OperatorAddress u = op \<and> SCU_IsActive u q}"
proof -
  have "set (ServiceConfigHistory s) = {u \<in> configs st. SCU_OperatorAddress u = op}"
    using GetSupplier_cases [OF assms] by metis
  moreover have "Services s = Supplier_GetActiveServiceConfigs s q"
    using assms(2) by (auto simp: GetSupplier_def hydrateFullSupplierServiceConfigs_def Let_def
        Supplier_GetActiveServiceConfigs_def)
  ultimately show ?thesis
    by (auto simp: Supplier_GetActiveServiceConfigs_def GetActiveServiceConfigsFromHistory_eq)
qed

lemma GetSupplier_height: "GetSupplier st q op = None \<longleftrightarrow> GetSupplier st h op = None"
  by (simp add: GetSupplier_None_iff)

lemma active_new_configs:
  "b \<noteq> 0 \<Longrightarrow> SCU_Service ` {u \<in> set (new_config_updates op b cs). SCU_IsActive u q} = (if b \<le> q then set cs else {})"
  by (force simp: new_config_updates_def SCU_IsActive_iff)

lemma active_kept_configs:
  assumes "\<forall>u \<in> set hist. ActivationHeight u \<le> b \<and> DeactivationHeight u \<le> b" and "0 < b"
  shows "SCU_Service ` {u \<in> set (kept_configs b ids hist). SCU_IsActive u q}
    = (if q < b then SCU_Service ` {u \<in> set hist. SCU_IsActive u q} else {})"
proof -
  have a: "SCU_IsActive (close_config b u) q \<longleftrightarrow> q < b \<and> SCU_IsActive u q" if "u \<in> set hist" for u
    using that assms by (auto simp: SCU_IsActive_iff close_config_def)
  let ?keep = "\<lambda>u. \<not> (ActivationHeight u = b \<and> ServiceId (SCU_Service u) \<in> set ids)"
  have "set (kept_configs b ids hist) = close_config b ` {u \<in> set hist. ?keep u}"
    by (simp add: kept_configs_def)
  moreover have "{u \<in> f ` {v \<in> S. A v}. P u} = f ` {v \<in> S. A v \<and> P (f v)}" for f :: "'x \<Rightarrow> 'y" and S A P
    by blast
  ultimately have "{u \<in> set (kept_configs b ids hist). SCU_IsActive u q}
      = close_config b ` {u \<in> set hist. ?keep u \<and> SCU_IsActive (close_config b u) q}"
    by simp
  then have "SCU_Service ` {u \<in> set (kept_configs b ids hist). SCU_IsActive u q}
      = SCU_Service ` {u \<in> set hist. ?keep u \<and> SCU_IsActive (close_config b u) q}"
    by (simp only: image_image close_config_sels)
  also have "{u \<in> set hist. ?keep u \<and> SCU_IsActive (close_config b u) q}
      = (if q < b then {u \<in> set hist. SCU_IsActive u q} else {})"
  proof -
    have "?keep u" if "SCU_IsActive u q" "q < b" for u using that by (auto simp: SCU_IsActive_iff)
    then show ?thesis using a by auto
  qed
  also have "SCU_Service ` \<dots> = (if q < b then SCU_Service ` {u \<in> set hist. SCU_IsActive u q} else {})"
    by simp
  finally show ?thesis .
qed

text \<open>When a stored supplier's operator stakes with new services, the services the supplier provides
  at any height before the next session start are exactly those it provided there before the
  message, and from the next session start on they are exactly the new ones. The session in flight
  keeps its suppliers and their configurations. The supplier's schedule does not reach beyond the
  next session start when the message arrives.\<close>
theorem supplier_service_change_spares_session_in_flight:
  assumes "StakeSupplier sdk urlParse isMod h sh svc msg (st, log) = Inr (st', log')"
    and "sup_inv st" and "sdk_ok sdk" and "bech32_no_slash sdk"
    and "GetNextSessionStartHeight (GetParams sh) h = Inr b" and "0 < b" and "b < 2 ^ 63"
    and "GetSupplier st q (MSS_OperatorAddress msg) = Some s" and "MSS_Services msg \<noteq> []"
    and "schedules_by b (MSS_OperatorAddress msg) st"
  shows "\<exists>s'. GetSupplier st' q (MSS_OperatorAddress msg) = Some s'
    \<and> set (Services s') = (if q < b then set (Services s) else set (msg_services msg))"
proof -
  let ?op = "MSS_OperatorAddress msg"
  have nx: "next_start_ok sh h" using assms(5-7) by (simp add: next_start_ok_def)
  obtain s0 where s0: "GetSupplier st h ?op = Some s0" using assms(8) GetSupplier_height by (metis not_None_eq)
  obtain s1 cur where v: "MsgStakeSupplier_ValidateBasic sdk urlParse msg = Inr ()"
    and g: "staked_supplier h sh msg (Some s0) = Inr (s1, cur)"
    and st': "st' = SetAndIndexDehydratedSupplier s1 st"
    using StakeSupplier_Inr [OF assms(1)] s0 by metis
  have d0: "OperatorAddress s0 = ?op" "supplier_wf s0"
    "set (ServiceConfigHistory s0) = {u \<in> configs st. SCU_OperatorAddress u = ?op}"
    using GetSupplier_cases [OF assms(2) s0] by metis+
  have i: "supplier_wf s1" "OperatorAddress s1 = ?op"
    using staked_supplier_Inr [OF g v assms(4) nx] d0 by auto
  note k = SetAndIndex_ok [OF assms(2) i(1), folded st', unfolded i(2)]
  have "ServiceConfigHistory s1 = new_config_updates ?op b (msg_services msg)
      @ kept_configs b (map ServiceId (msg_services msg)) (ServiceConfigHistory s0)"
    using g assms(5,9) by (auto simp: staked_supplier_def updateSupplier_def Let_def res_simps split: if_splits)
  moreover have "{u \<in> configs st'. SCU_OperatorAddress u = ?op} = set (ServiceConfigHistory s1)"
    using i unfolding k(2) by (auto simp: supplier_wf_def history_wf_def)
  ultimately have c: "{u \<in> configs st'. SCU_OperatorAddress u = ?op \<and> SCU_IsActive u q}
      = {u \<in> set (new_config_updates ?op b (msg_services msg)). SCU_IsActive u q}
        \<union> {u \<in> set (kept_configs b (map ServiceId (msg_services msg)) (ServiceConfigHistory s0)). SCU_IsActive u q}"
    by auto
  have sched: "\<forall>u \<in> set (ServiceConfigHistory s0). ActivationHeight u \<le> b \<and> DeactivationHeight u \<le> b"
    using assms(10) d0(3) by (auto simp: schedules_by_def)
  have "GetSupplier st' q ?op \<noteq> None"
    by (simp add: GetSupplier_def GetDehydratedSupplier_def k(3) SupplierOperatorKey_def kv_simps)
  then obtain s' where s': "GetSupplier st' q ?op = Some s'" by blast
  have "set (Services s') = SCU_Service ` {u \<in> configs st'. SCU_OperatorAddress u = ?op \<and> SCU_IsActive u q}"
    by (rule GetSupplier_services [OF k(1) s'])
  also have "\<dots> = (if b \<le> q then set (msg_services msg) else {})
      \<union> (if q < b then SCU_Service ` {u \<in> set (ServiceConfigHistory s0). SCU_IsActive u q} else {})"
    using active_new_configs [of b ?op "msg_services msg" q] active_kept_configs [OF sched assms(6)] assms(6)
    unfolding c image_Un by simp
  also have "SCU_Service ` {u \<in> set (ServiceConfigHistory s0). SCU_IsActive u q} = set (Services s)"
    unfolding GetSupplier_services [OF assms(2,8)] d0(3) by auto
  finally show ?thesis using s' by auto
qed
lemma witness_next_start: "next_start_ok witness_genesis h" if "h = 15 \<or> h = 25"
  using that by (intro next_start_ok_bounded)
    (auto simp: witness_genesis_def GetParams_def NewParams_def params_bounded_def height_bounded_def)

lemma sup_run_inv: "sup_run = Inr (st, log) \<Longrightarrow> supplier_chain_inv sup_sdk (\<lambda>a. a) (st, log)"
  using supplier_reachable_inv [OF sup_run_reachable [of _ "\<lambda>a. a" "''gov''"] sup_sdk_ok sup_params_valid]
  by (simp add: canonical_operators_def list_all_iff)

text \<open>\<open>p2\<close> moves from \<open>svc2\<close> to \<open>svc1\<close> in the second session.\<close>

definition move_msg :: msg_stake_supplier where
  "move_msg = sup_msg ''p2'' ''p2'' 700 [''svc1'']"

definition move_run :: "(supplier_ctx \<times> supplier_ctx) res" where
  "move_run = bindR sup_run (\<lambda>s. bindR (sup_stake 15 move_msg s) (\<lambda>s'. Inr (s, s')))"

lemma move_run_Inr:
  obtains st log st' log' where "sup_run = Inr (st, log)" and "sup_stake 15 move_msg (st, log) = Inr (st', log')"
    and "list_all (\<lambda>u. ActivationHeight u \<le> 21 \<and> DeactivationHeight u \<le> 21) (map snd (ConfigUpdates st))"
    and "map_option Services (GetSupplier st 15 ''p2'') = Some [sup_config ''svc2'']"
    and "map_option Services (GetSupplier st 21 ''p2'') = Some [sup_config ''svc2'']"
    and "filter (\<lambda>u. SCU_OperatorAddress u = ''p2'') (map snd (ConfigUpdates st'))
      = [\<lparr>SCU_OperatorAddress = ''p2'', SCU_Service = sup_config ''svc1'', ActivationHeight = 21, DeactivationHeight = 0\<rparr>,
         \<lparr>SCU_OperatorAddress = ''p2'', SCU_Service = sup_config ''svc2'', ActivationHeight = 11, DeactivationHeight = 21\<rparr>]"
proof -
  have "case move_run of Inl _ \<Rightarrow> False | Inr (s, s') \<Rightarrow>
      list_all (\<lambda>u. ActivationHeight u \<le> 21 \<and> DeactivationHeight u \<le> 21) (map snd (ConfigUpdates (fst s)))
      \<and> map_option Services (GetSupplier (fst s) 15 ''p2'') = Some [sup_config ''svc2'']
      \<and> map_option Services (GetSupplier (fst s) 21 ''p2'') = Some [sup_config ''svc2'']
      \<and> filter (\<lambda>u. SCU_OperatorAddress u = ''p2'') (map snd (ConfigUpdates (fst s')))
      = [\<lparr>SCU_OperatorAddress = ''p2'', SCU_Service = sup_config ''svc1'', ActivationHeight = 21, DeactivationHeight = 0\<rparr>,
         \<lparr>SCU_OperatorAddress = ''p2'', SCU_Service = sup_config ''svc2'', ActivationHeight = 11, DeactivationHeight = 21\<rparr>]"
    by code_simp
  then obtain s s' where c: "move_run = Inr (s, s')"
    "list_all (\<lambda>u. ActivationHeight u \<le> 21 \<and> DeactivationHeight u \<le> 21) (map snd (ConfigUpdates (fst s)))"
    "map_option Services (GetSupplier (fst s) 15 ''p2'') = Some [sup_config ''svc2'']"
    "map_option Services (GetSupplier (fst s) 21 ''p2'') = Some [sup_config ''svc2'']"
    "filter (\<lambda>u. SCU_OperatorAddress u = ''p2'') (map snd (ConfigUpdates (fst s')))
      = [\<lparr>SCU_OperatorAddress = ''p2'', SCU_Service = sup_config ''svc1'', ActivationHeight = 21, DeactivationHeight = 0\<rparr>,
         \<lparr>SCU_OperatorAddress = ''p2'', SCU_Service = sup_config ''svc2'', ActivationHeight = 11, DeactivationHeight = 21\<rparr>]"
    by (auto split: sum.splits)
  then show ?thesis using that by (cases s; cases s') (auto simp: move_run_def res_simps)
qed

theorem supplier_service_change_spares_session_in_flight_witness:
  "\<exists>st log st' log' s15 s21. sup_run = Inr (st, log) \<and> sup_stake 15 move_msg (st, log) = Inr (st', log')
    \<and> GetSupplier st' 15 ''p2'' = Some s15 \<and> set (Services s15) = {sup_config ''svc2''}
    \<and> GetSupplier st' 21 ''p2'' = Some s21 \<and> set (Services s21) = {sup_config ''svc1''}"
proof -
  obtain st log st' log' where r: "sup_run = Inr (st, log)" "sup_stake 15 move_msg (st, log) = Inr (st', log')"
    "list_all (\<lambda>u. ActivationHeight u \<le> 21 \<and> DeactivationHeight u \<le> 21) (map snd (ConfigUpdates st))"
    "map_option Services (GetSupplier st 15 ''p2'') = Some [sup_config ''svc2'']"
    "map_option Services (GetSupplier st 21 ''p2'') = Some [sup_config ''svc2'']"
    by (rule move_run_Inr)
  obtain t15 t21 where t: "GetSupplier st 15 ''p2'' = Some t15" "Services t15 = [sup_config ''svc2'']"
    "GetSupplier st 21 ''p2'' = Some t21" using r(4,5) by auto
  have si: "sup_inv st" using sup_run_inv [OF r(1)] by (simp add: supplier_chain_inv_iff)
  have b: "GetNextSessionStartHeight (GetParams witness_genesis) 15 = Inr 21" by code_simp
  have m: "MSS_OperatorAddress move_msg = ''p2''" "MSS_Services move_msg \<noteq> []"
    "set (msg_services move_msg) = {sup_config ''svc1''}"
    by (simp_all add: move_msg_def sup_msg_def msg_services_def map_filter_def)
  have sched: "schedules_by 21 ''p2'' st" using r(3) by (auto simp: schedules_by_def configs_def list_all_iff)
  note c = supplier_service_change_spares_session_in_flight [OF r(2) [unfolded sup_stake_def] si sup_sdk_ok b,
      unfolded m, OF _ _ _ m(2) sched]
  obtain s15 s21 where "GetSupplier st' 15 ''p2'' = Some s15" "set (Services s15) = {sup_config ''svc2''}"
    "GetSupplier st' 21 ''p2'' = Some s21" "set (Services s21) = {sup_config ''svc1''}"
    using c [OF _ _ t(1)] c [OF _ _ t(3)] t(2) by auto
  then show ?thesis using r(1,2) by blast
qed

section \<open>Unstaking\<close>

text \<open>C30. After a supplier unstakes, the services it provides at a height before the next session start
  are those of all its configurations on record that activated by that height, whatever their
  deactivation heights were; from the next session start on it provides none. So a service the
  operator dropped in an earlier session, whose configuration is kept until its proof window
  closes, is provided again for the rest of the session in flight.\<close>
theorem unstaking_brings_dropped_services_back:
  assumes "UnstakeSupplier sdk h sh signer op (st, log) = Inr (st', log')" and "sup_inv st"
    and "GetNextSessionStartHeight (GetParams sh) h = Inr b" and "0 < b" and "b < 2 ^ 63"
  shows "\<exists>s'. GetSupplier st' q op = Some s'
    \<and> set (Services s') = (if q < b
        then SCU_Service ` {u \<in> configs st. SCU_OperatorAddress u = op \<and> ActivationHeight u \<le> q} else {})"
proof -
  obtain s e where s: "GetSupplier st h op = Some s"
    and st': "st' = SetAndIndexDehydratedSupplier (unstaked_supplier e b s) st"
    using UnstakeSupplier_Inr [OF assms(1)] assms(3) by (metis Inr_inject)
  have d: "OperatorAddress s = op" "supplier_wf s"
    "set (ServiceConfigHistory s) = {u \<in> configs st. SCU_OperatorAddress u = op}"
    using GetSupplier_cases [OF assms(2) s] by metis+
  note k = SetAndIndex_ok [OF assms(2) unstaked_supplier_wf [OF d(2) assms(4,5)], of e, folded st',
      unfolded unstaked_supplier_sels d(1)]
  have "set (ServiceConfigHistory (unstaked_supplier e b s))
      = (\<lambda>u. u\<lparr>DeactivationHeight := b\<rparr>) ` {u \<in> configs st. SCU_OperatorAddress u = op}"
    by (simp add: unstaked_supplier_def d(3))
  then have c: "configs st' = {u \<in> configs st. SCU_OperatorAddress u \<noteq> op}
      \<union> (\<lambda>u. u\<lparr>DeactivationHeight := b\<rparr>) ` {u \<in> configs st. SCU_OperatorAddress u = op}"
    using k(2) by simp
  have "GetSupplier st' q op \<noteq> None"
    by (simp add: GetSupplier_def GetDehydratedSupplier_def k(3) SupplierOperatorKey_def kv_simps)
  then obtain s' where s': "GetSupplier st' q op = Some s'" by blast
  have "set (Services s') = SCU_Service ` {u \<in> configs st'. SCU_OperatorAddress u = op \<and> SCU_IsActive u q}"
    by (rule GetSupplier_services [OF k(1) s'])
  also have "{u \<in> configs st'. SCU_OperatorAddress u = op \<and> SCU_IsActive u q}
      = (\<lambda>u. u\<lparr>DeactivationHeight := b\<rparr>)
        ` {u \<in> configs st. SCU_OperatorAddress u = op \<and> ActivationHeight u \<le> q \<and> q < b}"
  proof -
    have gen: "{v \<in> A \<union> f ` H. Q v \<and> P v} = f ` {u \<in> H. P (f u)}"
      if "\<And>v. v \<in> A \<Longrightarrow> \<not> Q v" "\<And>u. u \<in> H \<Longrightarrow> Q (f u)"
      for A H Q P and f :: "service_config_update \<Rightarrow> service_config_update"
      using that by blast
    have "{u \<in> configs st'. SCU_OperatorAddress u = op \<and> SCU_IsActive u q}
        = (\<lambda>u. u\<lparr>DeactivationHeight := b\<rparr>) ` {u \<in> {u \<in> configs st. SCU_OperatorAddress u = op}.
            SCU_IsActive (u\<lparr>DeactivationHeight := b\<rparr>) q}"
      unfolding c by (rule gen) simp_all
    moreover have "{u \<in> {u \<in> configs st. SCU_OperatorAddress u = op}. SCU_IsActive (u\<lparr>DeactivationHeight := b\<rparr>) q}
        = {u \<in> configs st. SCU_OperatorAddress u = op \<and> ActivationHeight u \<le> q \<and> q < b}"
      using assms(4) by (simp add: SCU_IsActive_iff conj_assoc)
    ultimately show ?thesis by (simp only:)
  qed
  also have "SCU_Service ` \<dots> = (if q < b
        then SCU_Service ` {u \<in> configs st. SCU_OperatorAddress u = op \<and> ActivationHeight u \<le> q} else {})"
    by (auto simp: image_image)
  finally show ?thesis using s' by blast
qed

theorem unstaking_brings_dropped_services_back_witness:
  "\<exists>st' log' s st'' log'' s'. sup_stake 15 move_msg (projr sup_run) = Inr (st', log')
    \<and> GetSupplier st' 25 ''p2'' = Some s \<and> set (Services s) = {sup_config ''svc1''}
    \<and> UnstakeSupplier sup_sdk 25 witness_genesis ''p2'' ''p2'' (st', log') = Inr (st'', log'')
    \<and> GetSupplier st'' 25 ''p2'' = Some s' \<and> set (Services s') = {sup_config ''svc1'', sup_config ''svc2''}"
proof -
  obtain st log st' log' where r: "sup_run = Inr (st, log)" "sup_stake 15 move_msg (st, log) = Inr (st', log')"
    "filter (\<lambda>u. SCU_OperatorAddress u = ''p2'') (map snd (ConfigUpdates st'))
      = [\<lparr>SCU_OperatorAddress = ''p2'', SCU_Service = sup_config ''svc1'', ActivationHeight = 21, DeactivationHeight = 0\<rparr>,
         \<lparr>SCU_OperatorAddress = ''p2'', SCU_Service = sup_config ''svc2'', ActivationHeight = 11, DeactivationHeight = 21\<rparr>]"
    by (rule move_run_Inr)
  have op: "MSS_OperatorAddress move_msg = ''p2''" by (simp add: move_msg_def sup_msg_def)
  have "supplier_chain_inv sup_sdk (\<lambda>a. a) (st', log')"
    using StakeSupplier_keeps [OF r(2) [unfolded sup_stake_def] sup_sdk_ok _ sup_run_inv [OF r(1)]]
      witness_next_start by simp
  then have si: "sup_inv st'" by (simp add: supplier_chain_inv_iff)
  have cf: "{u \<in> configs st'. SCU_OperatorAddress u = ''p2''}
      = {\<lparr>SCU_OperatorAddress = ''p2'', SCU_Service = sup_config ''svc1'', ActivationHeight = 21, DeactivationHeight = 0\<rparr>,
         \<lparr>SCU_OperatorAddress = ''p2'', SCU_Service = sup_config ''svc2'', ActivationHeight = 11, DeactivationHeight = 21\<rparr>}"
    using arg_cong [OF r(3), of set] by (auto simp: configs_def)
  have un: "case bindR move_run (\<lambda>(s, s'). UnstakeSupplier sup_sdk 25 witness_genesis ''p2'' ''p2'' s') of
      Inl _ \<Rightarrow> False | Inr _ \<Rightarrow> True" by code_simp
  then obtain st'' log'' where u: "UnstakeSupplier sup_sdk 25 witness_genesis ''p2'' ''p2'' (st', log') = Inr (st'', log'')"
    by (cases "UnstakeSupplier sup_sdk 25 witness_genesis ''p2'' ''p2'' (st', log')")
      (auto simp: move_run_def r(1,2))
  have b: "GetNextSessionStartHeight (GetParams witness_genesis) 25 = Inr 31" by code_simp
  obtain s' where s': "GetSupplier st'' 25 ''p2'' = Some s'" "set (Services s')
      = SCU_Service ` {u \<in> configs st'. SCU_OperatorAddress u = ''p2'' \<and> ActivationHeight u \<le> 25}"
    using unstaking_brings_dropped_services_back [OF u si b, of 25] by auto
  have "GetSupplier st' 25 ''p2'' \<noteq> None" using UnstakeSupplier_Inr [OF u] by auto
  then obtain s where s: "GetSupplier st' 25 ''p2'' = Some s" by blast
  have q: "{u \<in> configs st'. SCU_OperatorAddress u = ''p2'' \<and> P u}
      = {u \<in> {u \<in> configs st'. SCU_OperatorAddress u = ''p2''}. P u}" for P by blast
  have pick: "{u \<in> insert a S. P u} = (if P a then insert a {u \<in> S. P u} else {u \<in> S. P u})"
    for a :: service_config_update and S P by auto
  have "set (Services s) = {sup_config ''svc1''}" "set (Services s') = {sup_config ''svc1'', sup_config ''svc2''}"
    unfolding GetSupplier_services [OF si s] s'(2) q cf pick by (simp_all add: SCU_IsActive_iff)
  moreover have "sup_stake 15 move_msg (projr sup_run) = Inr (st', log')" by (simp add: r(1,2))
  ultimately show ?thesis using u s s'(1) by blast
qed

end
