(* ===== verification/SessionModule.thy ===== *)
theory SessionModule
  imports SupplierTimeline "HOL-Library.Product_Lexorder"
begin

text \<open>
  The session module (\<open>x/session\<close>): its parameters and their history, the block hashes, and
  the hydration of a session: the header of the session a height belongs to, its identifier, the
  application, and the suppliers picked by pseudorandom weight. Hydration reads the shared,
  application and supplier modules. SHA3-256 is an argument.
\<close>

section \<open>Parameters\<close>

record session_params =
  NumSuppliersPerSession :: u64

definition Session_DefaultParams :: session_params where
  "Session_DefaultParams = \<lparr>NumSuppliersPerSession = 15\<rparr>"

definition ValidateNumSuppliersPerSession :: "u64 \<Rightarrow> unit res" where
  "ValidateNumSuppliersPerSession n = (if n < 1 then Inl (Session ErrSessionParamInvalid) else Inr ())"

definition Session_Params_ValidateBasic :: "session_params \<Rightarrow> unit res" where
  "Session_Params_ValidateBasic p = ValidateNumSuppliersPerSession (NumSuppliersPerSession p)"

text \<open>A history entry is an effective height and parameters, which may be nil. Keys are big-endian
  \<open>uint64\<close>, so their byte order is the unsigned order.\<close>

record session_state =
  Session_Params :: "session_params option"
  Session_ParamsHistory :: "(u64, int \<times> session_params option) kv"
  BlockHashes :: "(string, string) kv"

definition Session_GetParams :: "session_state \<Rightarrow> session_params" where
  "Session_GetParams st =
     (case Session_Params st of None \<Rightarrow> \<lparr>NumSuppliersPerSession = 0\<rparr> | Some p \<Rightarrow> p)"

definition Session_SetParams :: "session_params \<Rightarrow> session_state \<Rightarrow> session_state" where
  "Session_SetParams p st = st\<lparr>Session_Params := Some p\<rparr>"

definition Session_ParamsHistoryKey :: "int \<Rightarrow> u64" where
  "Session_ParamsHistoryKey effectiveHeight = uint64_of effectiveHeight"

definition Session_SetParamsAtHeight :: "int \<Rightarrow> session_params \<Rightarrow> session_state \<Rightarrow> session_state" where
  "Session_SetParamsAtHeight effectiveHeight p st =
     st\<lparr>Session_ParamsHistory := kv_set (Session_ParamsHistoryKey effectiveHeight)
          (effectiveHeight, Some p) (Session_ParamsHistory st)\<rparr>"

definition Session_GetParamsAtHeight :: "session_state \<Rightarrow> int \<Rightarrow> session_params" where
  "Session_GetParamsAtHeight st queryHeight =
     (case kv_rev_below (uint64_of (i64 (queryHeight + 1))) (Session_ParamsHistory st) of
        (k, h, Some p) # rest \<Rightarrow> p
      | _ \<Rightarrow> Session_GetParams st)"

definition Session_HasParamsHistory :: "session_state \<Rightarrow> bool" where
  "Session_HasParamsHistory st \<longleftrightarrow> Session_ParamsHistory st \<noteq> []"

definition Session_GetAllParamsHistory :: "session_state \<Rightarrow> (int \<times> session_params option) list" where
  "Session_GetAllParamsHistory st = map snd (Session_ParamsHistory st)"

definition Session_RecordParamsHistory ::
    "int \<Rightarrow> shared_state \<Rightarrow> session_params \<Rightarrow> session_state \<Rightarrow> session_state res" where
  "Session_RecordParamsHistory currentHeight sh newParams st =
     (let oldParams = Session_GetParams st;
          st1 = (if \<not> Session_HasParamsHistory st
                 then Session_SetParamsAtHeight currentHeight oldParams st else st)
      in bindR (GetSessionEndHeight (GetParamsAtHeight sh currentHeight) currentHeight)
           (\<lambda>currentSessionEndHeight.
             let nextSessionStartHeight = i64 (currentSessionEndHeight + 1)
             in Inr (Session_SetParamsAtHeight nextSessionStartHeight newParams st1)))"

section \<open>Governance messages\<close>

record msg_session_update_param =
  MSSP_Authority :: string
  MSSP_Name :: string
  MSSP_AsUint64 :: "u64 option"

definition MsgSessionUpdateParam_ValidateBasic ::
    "sdk \<Rightarrow> msg_session_update_param \<Rightarrow> unit res" where
  "MsgSessionUpdateParam_ValidateBasic sdk msg =
     (if \<not> isBech32 sdk (MSSP_Authority msg) then Inl ErrExt
      else if MSSP_Name msg = ''num_suppliers_per_session'' then
        (case MSSP_AsUint64 msg of None \<Rightarrow> Inl (Session ErrSessionParamInvalid)
         | Some v \<Rightarrow> ValidateNumSuppliersPerSession v)
      else Inl (Session ErrSessionParamInvalid))"

definition Session_UpdateParam ::
    "sdk \<Rightarrow> string \<Rightarrow> int \<Rightarrow> shared_state \<Rightarrow> msg_session_update_param
     \<Rightarrow> session_state \<Rightarrow> session_state res" where
  "Session_UpdateParam sdk authority currentHeight sh msg st =
     bindR (mapErr (Status InvalidArgument) (MsgSessionUpdateParam_ValidateBasic sdk msg)) (\<lambda>_.
     if authority \<noteq> MSSP_Authority msg
       then Inl (Status InvalidArgument (Supplier ErrSupplierInvalidSigner))
     else if MSSP_Name msg \<noteq> ''num_suppliers_per_session''
       then Inl (Status InvalidArgument (Supplier ErrSupplierParamInvalid))
     else
       let params = (Session_GetParams st)\<lparr>NumSuppliersPerSession :=
                       (case MSSP_AsUint64 msg of None \<Rightarrow> 0 | Some v \<Rightarrow> v)\<rparr>
       in bindR (mapErr (Status InvalidArgument) (Session_Params_ValidateBasic params)) (\<lambda>_.
          bindR (mapErr (Status Internal) (Session_RecordParamsHistory currentHeight sh params st)) (\<lambda>st'.
          Inr (Session_SetParams params st'))))"

definition Session_UpdateParams ::
    "sdk \<Rightarrow> string \<Rightarrow> int \<Rightarrow> shared_state \<Rightarrow> string \<times> session_params
     \<Rightarrow> session_state \<Rightarrow> session_state res" where
  "Session_UpdateParams sdk authority currentHeight sh = (\<lambda>(msgAuthority, params) st.
     if \<not> isBech32 sdk msgAuthority then Inl (Status InvalidArgument ErrExt)
     else bindR (mapErr (Status InvalidArgument) (Session_Params_ValidateBasic params)) (\<lambda>_.
     if authority \<noteq> msgAuthority then Inl (Status PermissionDenied (Session ErrSessionInvalidSigner))
     else bindR (mapErr (Status Internal) (Session_RecordParamsHistory currentHeight sh params st)) (\<lambda>st'.
       Inr (Session_SetParams params st'))))"

section \<open>Genesis\<close>

record session_genesis =
  GS_Params :: session_params
  GS_ParamsHistory :: "(int \<times> session_params option) list"

definition Session_GenesisState_Validate :: "session_genesis \<Rightarrow> unit res" where
  "Session_GenesisState_Validate gs = Session_Params_ValidateBasic (GS_Params gs)"

definition Session_InitGenesis :: "session_genesis \<Rightarrow> session_state \<Rightarrow> session_state" where
  "Session_InitGenesis gs st =
     fold (\<lambda>(effectiveHeight, params) s. case params of None \<Rightarrow> s
             | Some p \<Rightarrow> Session_SetParamsAtHeight effectiveHeight p s)
       (GS_ParamsHistory gs) (Session_SetParams (GS_Params gs) st)"

definition Session_ExportGenesis :: "session_state \<Rightarrow> session_genesis" where
  "Session_ExportGenesis st =
     \<lparr>GS_Params = Session_GetParams st, GS_ParamsHistory = Session_GetAllParamsHistory st\<rparr>"

section \<open>Block hashes\<close>

text \<open>\<open>fmt.Sprintf("%d", n)\<close>.\<close>

fun nat_decimal :: "nat \<Rightarrow> string" where
  "nat_decimal n = (if n < 10 then [char_of (48 + n)] else nat_decimal (n div 10) @ [char_of (48 + n mod 10)])"

declare nat_decimal.simps [simp del]

definition int_decimal :: "int \<Rightarrow> string" where
  "int_decimal n = (if n < 0 then ''-'' @ nat_decimal (nat (- n)) else nat_decimal (nat n))"

definition BlockHashKey :: "int \<Rightarrow> string" where
  "BlockHashKey blockHeight = int_decimal blockHeight @ ''/''"

definition StoreBlockHash :: "int \<Rightarrow> string \<Rightarrow> session_state \<Rightarrow> session_state" where
  "StoreBlockHash height hash st =
     st\<lparr>BlockHashes := kv_set (BlockHashKey height) hash (BlockHashes st)\<rparr>"

text \<open>A missing hash is a nil slice.\<close>

definition GetBlockHash :: "session_state \<Rightarrow> int \<Rightarrow> string" where
  "GetBlockHash st height =
     (if height \<le> 0 then []
      else case map_of (BlockHashes st) (BlockHashKey height) of None \<Rightarrow> [] | Some hash \<Rightarrow> hash)"

section \<open>Sessions\<close>

record session_header =
  SH_ApplicationAddress :: string
  SH_ServiceId :: string
  SH_SessionId :: string
  SH_SessionStartBlockHeight :: int
  SH_SessionEndBlockHeight :: int

definition SessionHeader_ValidateBasic :: "sdk \<Rightarrow> session_header \<Rightarrow> unit res" where
  "SessionHeader_ValidateBasic sdk sh =
     (if \<not> isBech32 sdk (SH_ApplicationAddress sh) then Inl (Session ErrSessionInvalidAppAddress)
      else if length (SH_SessionId sh) = 0 then Inl (Session ErrSessionInvalidSessionId)
      else bindR (IsValidServiceId (SH_ServiceId sh)) (\<lambda>_.
        if SH_SessionStartBlockHeight sh \<le> 0 then Inl (Session ErrSessionInvalidBlockHeight)
        else if SH_SessionEndBlockHeight sh \<le> SH_SessionStartBlockHeight sh
          then Inl (Session ErrSessionInvalidBlockHeight)
        else Inr ()))"

record session =
  Session_Header :: "session_header option"
  Session_Id :: string
  SessionNumber :: int
  Session_NumBlocksPerSession :: int
  Session_Application :: "application option"
  Session_Suppliers :: "supplier list"

record session_hydrator =
  sessionHeader :: session_header
  hydrated :: session
  blockHeight :: int
  sessionIDBz :: string

text \<open>What one hydration reads: the block height of its context and the modules' stores.\<close>

record session_env =
  E_Height :: int
  E_Shared :: shared_state
  E_Apps :: app_state
  E_Suppliers :: supplier_state
  E_Session :: session_state

definition NewSessionHydrator :: "string \<Rightarrow> string \<Rightarrow> int \<Rightarrow> session_hydrator" where
  "NewSessionHydrator appAddress serviceId height =
     \<lparr>sessionHeader = \<lparr>SH_ApplicationAddress = appAddress, SH_ServiceId = serviceId,
         SH_SessionId = [], SH_SessionStartBlockHeight = 0, SH_SessionEndBlockHeight = 0\<rparr>,
      hydrated = \<lparr>Session_Header = None, Session_Id = [], SessionNumber = 0,
         Session_NumBlocksPerSession = 0, Session_Application = None, Session_Suppliers = []\<rparr>,
      blockHeight = height, sessionIDBz = []\<rparr>"

definition hydrateSessionMetadata :: "session_env \<Rightarrow> session_hydrator \<Rightarrow> session_hydrator res" where
  "hydrateSessionMetadata env sh =
     (if blockHeight sh > E_Height env then Inl (Session ErrSessionHydration)
      else
        let sharedParams = GetParamsAtHeight (E_Shared env) (blockHeight sh)
        in bindR (GetSessionNumber sharedParams (blockHeight sh)) (\<lambda>number.
           bindR (GetSessionStartHeight sharedParams (blockHeight sh)) (\<lambda>start.
           bindR (GetSessionEndHeight sharedParams (blockHeight sh)) (\<lambda>end.
           Inr (sh\<lparr>hydrated := (hydrated sh)
                     \<lparr>Session_NumBlocksPerSession := int64_of (NumBlocksPerSession sharedParams),
                      SessionNumber := number\<rparr>,
                   sessionHeader := (sessionHeader sh)
                     \<lparr>SH_SessionStartBlockHeight := start, SH_SessionEndBlockHeight := end\<rparr>\<rparr>)))))"

section \<open>The session identifier\<close>

text \<open>\<open>binary.LittleEndian.PutUint64\<close>.\<close>

definition PutUint64_LE :: "int \<Rightarrow> string" where
  "PutUint64_LE h = rev (PutUint64 h)"

fun concatWithDelimiter :: "string \<Rightarrow> string list \<Rightarrow> string" where
  "concatWithDelimiter delimiter [] = []"
| "concatWithDelimiter delimiter [b] = b"
| "concatWithDelimiter delimiter (b # bs) = b @ delimiter @ concatWithDelimiter delimiter bs"

text \<open>\<open>hex.EncodeToString\<close>.\<close>

definition hex_digit :: "nat \<Rightarrow> char" where
  "hex_digit d = (if d < 10 then char_of (48 + d) else char_of (87 + d))"

definition hex_EncodeToString :: "string \<Rightarrow> string" where
  "hex_EncodeToString bz =
     concat (map (\<lambda>c. [hex_digit (of_char c div 16), hex_digit (of_char c mod 16)]) bz)"

definition getSessionStartBlockHeightBz :: "shared_params \<Rightarrow> int \<Rightarrow> string res" where
  "getSessionStartBlockHeightBz sharedParams height =
     bindR (GetSessionStartHeight sharedParams height) (\<lambda>start. Inr (PutUint64_LE start))"

text \<open>The identifier, and the bytes it is the hash of.\<close>

definition GetSessionId ::
    "(string \<Rightarrow> string) \<Rightarrow> shared_params \<Rightarrow> string \<Rightarrow> string \<Rightarrow> string \<Rightarrow> int \<Rightarrow> (string \<times> string) res" where
  "GetSessionId sha3 sharedParams appAddr serviceId blockHashBz height =
     bindR (getSessionStartBlockHeightBz sharedParams height) (\<lambda>startBz.
       let sessionIdBz = concatWithDelimiter ''.'' [blockHashBz, serviceId, appAddr, startBz]
       in Inr (hex_EncodeToString (sha3 sessionIdBz), sessionIdBz))"

definition hydrateSessionID ::
    "(string \<Rightarrow> string) \<Rightarrow> session_env \<Rightarrow> session_hydrator \<Rightarrow> session_hydrator res" where
  "hydrateSessionID sha3 env sh =
     (let header = sessionHeader sh;
          prevHashBz = GetBlockHash (E_Session env) (SH_SessionStartBlockHeight header)
      in bindR (mapErr (\<lambda>_. Session ErrSessionHydration) (IsValidServiceId (SH_ServiceId header))) (\<lambda>_.
         bindR (GetSessionId sha3 (GetParamsAtHeight (E_Shared env) (blockHeight sh))
                  (SH_ApplicationAddress header) (SH_ServiceId header) prevHashBz (blockHeight sh))
           (\<lambda>(sessionId, idBz). Inr (sh\<lparr>sessionHeader := header\<lparr>SH_SessionId := sessionId\<rparr>,
                                       sessionIDBz := idBz\<rparr>))))"

section \<open>The application\<close>

text \<open>The loop over the active configurations; a nil configuration is a nil dereference.\<close>

fun staked_for :: "string option list \<Rightarrow> string \<Rightarrow> bool res" where
  "staked_for [] serviceId = Inr False"
| "staked_for (None # cs) serviceId = Inl Panic"
| "staked_for (Some c # cs) serviceId = (if c = serviceId then Inr True else staked_for cs serviceId)"

definition hydrateSessionApplication :: "session_env \<Rightarrow> session_hydrator \<Rightarrow> session_hydrator res" where
  "hydrateSessionApplication env sh =
     (let header = sessionHeader sh
      in case GetApplication (E_Apps env) (SH_ApplicationAddress header) of
           None \<Rightarrow> Inl (Session ErrSessionAppNotFound)
         | Some foundApp \<Rightarrow>
             if \<not> App_IsActive foundApp (SH_SessionEndBlockHeight header)
               then Inl (Session ErrSessionAppNotActive)
             else bindR (staked_for (App_GetActiveServiceConfigs foundApp (blockHeight sh))
                           (SH_ServiceId header)) (\<lambda>staked.
               if staked
               then Inr (sh\<lparr>hydrated := (hydrated sh)\<lparr>Session_Application := Some foundApp\<rparr>\<rparr>)
               else Inl (Session ErrSessionAppNotStakedForService)))"

section \<open>The suppliers\<close>

text \<open>\<open>binary.BigEndian.Uint64\<close> of the first eight bytes, converted to \<open>int\<close>.\<close>

definition BigEndian_Uint64 :: "string \<Rightarrow> int" where
  "BigEndian_Uint64 bz = fold (\<lambda>c n. n * 256 + of_char c) (take 8 bz) 0"

definition generateSupplierRandomWeight :: "(string \<Rightarrow> string) \<Rightarrow> string \<Rightarrow> string \<Rightarrow> int" where
  "generateSupplierRandomWeight sha3 supplierOperatorAddress idBz =
     i64 (BigEndian_Uint64 (sha3 (concatWithDelimiter ''.'' [idBz, supplierOperatorAddress])))"

text \<open>\<open>bytes.Compare\<close>, and the comparison of two candidates.\<close>

definition bytes_Compare :: "string \<Rightarrow> string \<Rightarrow> int" where
  "bytes_Compare a b = (if a < b then - 1 else if b < a then 1 else 0)"

definition weightedSupplierSortFn ::
    "(string \<Rightarrow> int) \<Rightarrow> service_config_update \<Rightarrow> service_config_update \<Rightarrow> int" where
  "weightedSupplierSortFn candidatesToRandomWeight a b =
     (let weightA = candidatesToRandomWeight (SCU_OperatorAddress a);
          weightB = candidatesToRandomWeight (SCU_OperatorAddress b)
      in if weightA < weightB then - 1
         else if weightA > weightB then 1
         else bytes_Compare (SCU_OperatorAddress a) (SCU_OperatorAddress b))"

text \<open>\<open>slices.SortFunc\<close> as insertion sort, which is what it runs on at most twelve elements.
  Elements that compare equal keep their order here; above twelve elements the Go order of equal
  elements is unspecified. Elements that compare equal are configurations of one supplier.\<close>

fun insert_cmp :: "('a \<Rightarrow> 'a \<Rightarrow> int) \<Rightarrow> 'a \<Rightarrow> 'a list \<Rightarrow> 'a list" where
  "insert_cmp cmp x [] = [x]"
| "insert_cmp cmp x (y # ys) = (if cmp x y < 0 then x # y # ys else y # insert_cmp cmp x ys)"

definition SortFunc :: "('a \<Rightarrow> 'a \<Rightarrow> int) \<Rightarrow> 'a list \<Rightarrow> 'a list" where
  "SortFunc cmp xs = fold (insert_cmp cmp) xs []"

definition sortCandidateSupplierConfigsBySupplierWeight ::
    "service_config_update list \<Rightarrow> (string \<times> int) list \<Rightarrow> service_config_update list" where
  "sortCandidateSupplierConfigsBySupplierWeight candidateSuppliers candidatesToRandomWeight =
     SortFunc (weightedSupplierSortFn (\<lambda>a. case map_of candidatesToRandomWeight a of
         None \<Rightarrow> 0 | Some w \<Rightarrow> w)) candidateSuppliers"

text \<open>A configuration whose supplier is not stored is skipped.\<close>

definition getServiceConfigsSuppliers ::
    "supplier_state \<Rightarrow> service_config_update list \<Rightarrow> supplier list" where
  "getServiceConfigsSuppliers st candidateServiceConfigUpdates =
     List.map_filter (\<lambda>u. map_option (\<lambda>s. s\<lparr>Services := [SCU_Service u]\<rparr>)
         (GetDehydratedSupplier st (SCU_OperatorAddress u))) candidateServiceConfigUpdates"

text \<open>\<open>make([]T, 0, n)\<close> panics when \<open>n\<close> is negative or the allocation of \<open>n\<close> pointers
  exceeds the address space, \<open>2 ^ 48\<close> bytes on 64-bit Linux.\<close>

definition makeslice_ok :: "int \<Rightarrow> bool" where
  "makeslice_ok n \<longleftrightarrow> 0 \<le> n \<and> n * 8 \<le> 2 ^ 48"

definition session_candidates :: "session_env \<Rightarrow> session_hydrator \<Rightarrow> service_config_update list" where
  "session_candidates env sh =
     filter (\<lambda>u. SCU_IsActive u (blockHeight sh))
       (GetServiceConfigUpdatesIterator (E_Suppliers env) (SH_ServiceId (sessionHeader sh)) (blockHeight sh))"

definition hydrateSessionSuppliers ::
    "(string \<Rightarrow> string) \<Rightarrow> session_env \<Rightarrow> session_hydrator \<Rightarrow> session_hydrator res" where
  "hydrateSessionSuppliers sha3 env sh =
     (let params = Session_GetParamsAtHeight (E_Session env) (blockHeight sh);
          numSuppliersPerSession = int64_of (NumSuppliersPerSession params)
      in if \<not> makeslice_ok (i64 (numSuppliersPerSession * 2)) then Inl Panic
         else
           let candidateSupplierConfigs = session_candidates env sh
           in if length candidateSupplierConfigs = 0 then Inl (Session ErrSessionSuppliersNotFound)
              else if int (length candidateSupplierConfigs) < numSuppliersPerSession
                then Inr (sh\<lparr>hydrated := (hydrated sh)\<lparr>Session_Suppliers :=
                       getServiceConfigsSuppliers (E_Suppliers env) candidateSupplierConfigs\<rparr>\<rparr>)
              else
                let candidatesToRandomWeight = map (\<lambda>u. (SCU_OperatorAddress u,
                       generateSupplierRandomWeight sha3 (SCU_OperatorAddress u) (sessionIDBz sh)))
                       candidateSupplierConfigs;
                    sortedCandidates = sortCandidateSupplierConfigsBySupplierWeight
                       candidateSupplierConfigs candidatesToRandomWeight
                in if numSuppliersPerSession < 0 then Inl Panic
                   else Inr (sh\<lparr>hydrated := (hydrated sh)\<lparr>Session_Suppliers :=
                     getServiceConfigsSuppliers (E_Suppliers env)
                       (take (nat numSuppliersPerSession) sortedCandidates)\<rparr>\<rparr>))"

section \<open>Hydration and the query\<close>

definition HydrateSession ::
    "(string \<Rightarrow> string) \<Rightarrow> session_env \<Rightarrow> session_hydrator \<Rightarrow> session res" where
  "HydrateSession sha3 env sh =
     bindR (hydrateSessionMetadata env sh) (\<lambda>sh1.
     bindR (hydrateSessionID sha3 env sh1) (\<lambda>sh2.
     bindR (hydrateSessionApplication env sh2) (\<lambda>sh3.
     bindR (hydrateSessionSuppliers sha3 env sh3) (\<lambda>sh4.
       Inr ((hydrated sh4)\<lparr>Session_Header := Some (sessionHeader sh4),
                            Session_Id := SH_SessionId (sessionHeader sh4)\<rparr>)))))"

record get_session_request =
  GSR_ApplicationAddress :: string
  GSR_ServiceId :: string
  GSR_BlockHeight :: int

definition GetSessionRequest_ValidateBasic :: "sdk \<Rightarrow> get_session_request \<Rightarrow> unit res" where
  "GetSessionRequest_ValidateBasic sdk req =
     (if \<not> isBech32 sdk (GSR_ApplicationAddress req) then Inl (Session ErrSessionInvalidAppAddress)
      else bindR (IsValidServiceId (GSR_ServiceId req)) (\<lambda>_.
        if GSR_BlockHeight req < 0 then Inl (Session ErrSessionInvalidBlockHeight) else Inr ()))"

definition GetSession ::
    "sdk \<Rightarrow> (string \<Rightarrow> string) \<Rightarrow> session_env \<Rightarrow> get_session_request option \<Rightarrow> session res" where
  "GetSession sdk sha3 env request =
     (case request of None \<Rightarrow> Inl (Status InvalidArgument ErrFmt)
      | Some req \<Rightarrow>
          bindR (mapErr (Status InvalidArgument) (GetSessionRequest_ValidateBasic sdk req)) (\<lambda>_.
          let height = (if GSR_BlockHeight req > 0 then GSR_BlockHeight req else E_Height env)
          in mapErr (Status Internal) (HydrateSession sha3 env
               (NewSessionHydrator (GSR_ApplicationAddress req) (GSR_ServiceId req) height))))"

end
