(* ===== verification/SessionSteps.thy ===== *)
theory SessionSteps
  imports SessionModule
begin

text \<open>
  What hydration computes: the parts of a hydrated session, the candidates as a set of
  configurations, the sort of the candidates as the order of their (weight, address) keys, and the
  parameter history of the session module.
\<close>

section \<open>Sorting by weight\<close>

definition candidate_key :: "(string \<Rightarrow> int) \<Rightarrow> service_config_update \<Rightarrow> int \<times> string" where
  "candidate_key w u = (w (SCU_OperatorAddress u), SCU_OperatorAddress u)"

lemma weightedSupplierSortFn_less:
  "weightedSupplierSortFn w a b < 0 \<longleftrightarrow> candidate_key w a < candidate_key w b"
  by (auto simp: weightedSupplierSortFn_def bytes_Compare_def candidate_key_def less_prod_def' Let_def)

lemma mset_insert_cmp: "mset (insert_cmp cmp x ys) = add_mset x (mset ys)"
  by (induction ys) auto

lemma mset_SortFunc [simp]: "mset (SortFunc cmp xs) = mset xs"
proof -
  have "mset (fold (insert_cmp cmp) xs ys) = mset xs + mset ys" for ys
    by (induction xs arbitrary: ys) (simp_all add: mset_insert_cmp)
  then show ?thesis by (simp add: SortFunc_def)
qed

lemma set_SortFunc [simp]: "set (SortFunc cmp xs) = set xs"
  by (metis mset_SortFunc set_mset_mset)

lemma length_SortFunc [simp]: "length (SortFunc cmp xs) = length xs"
  by (metis mset_SortFunc size_mset)

lemma sorted_SortFunc:
  fixes key :: "'a \<Rightarrow> 'k :: linorder"
  assumes "\<And>a b. cmp a b < 0 \<longleftrightarrow> key a < key b"
  shows "sorted (map key (SortFunc cmp xs))"
proof -
  have set: "set (insert_cmp cmp x ys) = insert x (set ys)" for x ys
    by (induction ys) auto
  have ins: "sorted (map key ys) \<Longrightarrow> sorted (map key (insert_cmp cmp x ys))" for x ys
    by (induction ys) (auto simp: assms set)
  have "sorted (map key ys) \<Longrightarrow> sorted (map key (fold (insert_cmp cmp) xs ys))" for ys
    by (induction xs arbitrary: ys) (simp_all add: ins)
  then show ?thesis by (simp add: SortFunc_def)
qed

text \<open>With one configuration per supplier, the result depends on the set of candidates only.\<close>

lemma SortFunc_candidates:
  assumes "distinct (map SCU_OperatorAddress xs)"
  shows "map (candidate_key w) (SortFunc (weightedSupplierSortFn w) xs)
    = sorted_list_of_set (candidate_key w ` set xs)"
proof -
  let ?s = "SortFunc (weightedSupplierSortFn w) xs"
  have i: "inj_on (candidate_key w) (set xs)" and d: "distinct xs"
    using assms by (auto simp: distinct_map inj_on_def candidate_key_def)
  have "distinct ?s" using d by (metis mset_SortFunc mset_eq_imp_distinct_iff)
  then have "distinct (map (candidate_key w) ?s)" using i by (simp add: distinct_map)
  moreover have "sorted (map (candidate_key w) ?s)"
    by (rule sorted_SortFunc [OF weightedSupplierSortFn_less])
  ultimately have "sorted_list_of_set (set (map (candidate_key w) ?s)) = map (candidate_key w) ?s"
    by (rule sorted_list_of_set.idem_if_sorted_distinct [rotated])
  then show ?thesis by simp
qed

section \<open>The candidates\<close>

lemma config_updates_range:
  assumes ok: "config_indexes_ok st" and svc: "no_slash svc" and h: "0 \<le> h" "h < 2 ^ 63 - 1"
  shows "set (GetServiceConfigUpdatesIterator st svc h)
    = {u \<in> configs st. ServiceId (SCU_Service u) = svc \<and> ActivationHeight u \<le> h}" (is "?l = ?r")
proof (rule set_eqI)
  fix u
  have h1: "i64 (h + 1) = h + 1" using h by (intro i64_id) (simp add: in_i64_def)
  have key: "fst e = ServiceConfigUpdateKey (snd e)" if "e \<in> set (ConfigUpdates st)" for e
    using ok that unfolding config_indexes_ok_def prim_ok_def by auto
  have "u \<in> ?l \<longleftrightarrow> u \<in> snd ` {e \<in> set (ConfigUpdates st). StringKey svc \<le> fst e
      \<and> fst e < StringKey svc @ PutUint64 (h + 1)}"
    by (simp only: GetServiceConfigUpdatesIterator_def kv_range_def h1 set_map set_filter)
  also have "{e \<in> set (ConfigUpdates st). StringKey svc \<le> fst e \<and> fst e < StringKey svc @ PutUint64 (h + 1)}
    = {e \<in> set (ConfigUpdates st). StringKey svc \<le> ServiceConfigUpdateKey (snd e)
        \<and> ServiceConfigUpdateKey (snd e) < StringKey svc @ PutUint64 (h + 1)}"
    by (rule Collect_cong) (simp add: key cong: conj_cong)
  also have "u \<in> snd ` \<dots> \<longleftrightarrow> u \<in> configs st \<and> StringKey svc \<le> ServiceConfigUpdateKey u
      \<and> ServiceConfigUpdateKey u < StringKey svc @ PutUint64 (h + 1)"
    by (simp only: configs_def set_map image_iff mem_Collect_eq) blast
  also have "\<dots> \<longleftrightarrow> u \<in> ?r"
  proof (cases "u \<in> configs st")
    case True
    then have c: "config_ok u" using configs_ok [OF ok] by simp
    let ?rest = "''/'' @ StringKey (SCU_OperatorAddress u)"
    have k: "ServiceConfigUpdateKey u
        = StringKey (ServiceId (SCU_Service u)) @ PutUint64 (ActivationHeight u) @ ?rest"
      by (simp add: ServiceConfigUpdateKey_def IntKey_def)
    have less: "PutUint64 (ActivationHeight u) @ ?rest < PutUint64 (h + 1) \<longleftrightarrow> ActivationHeight u < h + 1"
      using c h PutUint64_less_iff [of "ActivationHeight u" "h + 1"]
      by (simp add: PutUint64_append_less_iff config_ok_def)
    show ?thesis
    proof
      assume "u \<in> configs st \<and> StringKey svc \<le> ServiceConfigUpdateKey u
        \<and> ServiceConfigUpdateKey u < StringKey svc @ PutUint64 (h + 1)"
      then obtain r where r: "ServiceConfigUpdateKey u = StringKey svc @ r" "r < PutUint64 (h + 1)"
        using range_prefix by blast
      then have "ServiceId (SCU_Service u) = svc \<and> PutUint64 (ActivationHeight u) @ ?rest = r"
        using k svc c StringKey_split by (metis config_ok_def)
      then show "u \<in> ?r" using True less r(2) by auto
    next
      assume "u \<in> ?r"
      then show "u \<in> configs st \<and> StringKey svc \<le> ServiceConfigUpdateKey u
        \<and> ServiceConfigUpdateKey u < StringKey svc @ PutUint64 (h + 1)"
        using k less True by (auto simp: key_simps)
    qed
  qed simp
  finally show "u \<in> ?l \<longleftrightarrow> u \<in> ?r" .
qed

definition active_configs :: "supplier_state \<Rightarrow> string \<Rightarrow> int \<Rightarrow> service_config_update set" where
  "active_configs st svc h =
     {u \<in> configs st. ServiceId (SCU_Service u) = svc \<and> SCU_IsActive u h}"

lemma session_candidates_set:
  assumes "config_indexes_ok (E_Suppliers env)" and "no_slash (SH_ServiceId (sessionHeader sh))"
    and "0 \<le> blockHeight sh" and "blockHeight sh < 2 ^ 63 - 1"
  shows "set (session_candidates env sh)
    = active_configs (E_Suppliers env) (SH_ServiceId (sessionHeader sh)) (blockHeight sh)"
  using config_updates_range [OF assms]
  by (auto simp: session_candidates_def active_configs_def SCU_IsActive_iff)

lemma distinct_session_candidates:
  assumes "config_indexes_ok (E_Suppliers env)"
  shows "distinct (session_candidates env sh)"
proof -
  have p: "prim_ok (ConfigUpdates (E_Suppliers env))" using assms by (simp add: config_indexes_ok_def)
  have key: "fst e = ServiceConfigUpdateKey (snd e)" if "e \<in> set (ConfigUpdates (E_Suppliers env))" for e
    using p that unfolding prim_ok_def by auto
  have "inj_on snd (set (ConfigUpdates (E_Suppliers env)))"
    by (rule inj_onI) (simp add: key prod_eq_iff)
  moreover have "distinct (ConfigUpdates (E_Suppliers env))"
    using p by (metis distinct_map kv_ok_distinct prim_ok_def)
  ultimately have "distinct (map snd (ConfigUpdates (E_Suppliers env)))" by (simp add: distinct_map)
  then show ?thesis
    unfolding session_candidates_def GetServiceConfigUpdatesIterator_def kv_range_def
    by (intro distinct_filter distinct_map_filter)
qed

lemma getServiceConfigsSuppliers_eq:
  assumes "\<forall>u \<in> set us. GetDehydratedSupplier st (SCU_OperatorAddress u) \<noteq> None"
  shows "getServiceConfigsSuppliers st us
    = map (\<lambda>u. (the (GetDehydratedSupplier st (SCU_OperatorAddress u)))\<lparr>Services := [SCU_Service u]\<rparr>) us"
  using assms by (induction us) (auto simp: getServiceConfigsSuppliers_def map_filter_simps)

section \<open>The parts of a hydrated session\<close>

definition session_heights :: "shared_state \<Rightarrow> int \<Rightarrow> (int \<times> int \<times> int) res" where
  "session_heights sh h =
     (let p = GetParamsAtHeight sh h
      in bindR (GetSessionNumber p h) (\<lambda>n. bindR (GetSessionStartHeight p h) (\<lambda>s.
         bindR (GetSessionEndHeight p h) (\<lambda>e. Inr (n, s, e)))))"

text \<open>Everything a successful hydration establishes.\<close>

lemma HydrateSession_Inr:
  assumes "HydrateSession sha3 env (NewSessionHydrator app svc h) = Inr s"
  obtains n start end' sid idBz a sh3 where "h \<le> E_Height env"
    and "session_heights (E_Shared env) h = Inr (n, start, end')"
    and "IsValidServiceId svc = Inr ()"
    and "GetSessionId sha3 (GetParamsAtHeight (E_Shared env) h) app svc
          (GetBlockHash (E_Session env) start) h = Inr (sid, idBz)"
    and "GetApplication (E_Apps env) app = Some a" and "App_IsActive a end'"
    and "staked_for (App_GetActiveServiceConfigs a h) svc = Inr True"
    and "sessionHeader sh3 = \<lparr>SH_ApplicationAddress = app, SH_ServiceId = svc, SH_SessionId = sid,
          SH_SessionStartBlockHeight = start, SH_SessionEndBlockHeight = end'\<rparr>"
    and "blockHeight sh3 = h" and "sessionIDBz sh3 = idBz"
    and "hydrateSessionSuppliers sha3 env sh3
          = Inr (sh3\<lparr>hydrated := (hydrated sh3)\<lparr>Session_Suppliers := Session_Suppliers s\<rparr>\<rparr>)"
    and "Session_Header s = Some (sessionHeader sh3)" and "Session_Id s = sid"
    and "SessionNumber s = n" and "Session_Application s = Some a"
    and "Session_NumBlocksPerSession s = int64_of (NumBlocksPerSession (GetParamsAtHeight (E_Shared env) h))"
proof -
  let ?p = "GetParamsAtHeight (E_Shared env) h"
  obtain sh1 sh2 sh3 sh4 where steps: "hydrateSessionMetadata env (NewSessionHydrator app svc h) = Inr sh1"
    "hydrateSessionID sha3 env sh1 = Inr sh2" "hydrateSessionApplication env sh2 = Inr sh3"
    "hydrateSessionSuppliers sha3 env sh3 = Inr sh4"
    and s: "s = (hydrated sh4)\<lparr>Session_Header := Some (sessionHeader sh4),
                                Session_Id := SH_SessionId (sessionHeader sh4)\<rparr>"
    using assms unfolding HydrateSession_def by (auto simp: res_simps)
  obtain n start end' where m: "h \<le> E_Height env" "GetSessionNumber ?p h = Inr n"
    "GetSessionStartHeight ?p h = Inr start" "GetSessionEndHeight ?p h = Inr end'"
    "blockHeight sh1 = h" "sessionHeader sh1 = \<lparr>SH_ApplicationAddress = app, SH_ServiceId = svc,
       SH_SessionId = [], SH_SessionStartBlockHeight = start, SH_SessionEndBlockHeight = end'\<rparr>"
    "SessionNumber (hydrated sh1) = n"
    "Session_NumBlocksPerSession (hydrated sh1) = int64_of (NumBlocksPerSession ?p)"
    using steps(1) unfolding hydrateSessionMetadata_def NewSessionHydrator_def
    by (auto simp: res_simps Let_def split: if_splits)
  obtain sid idBz where i: "IsValidServiceId svc = Inr ()"
    "GetSessionId sha3 ?p app svc (GetBlockHash (E_Session env) start) h = Inr (sid, idBz)"
    "blockHeight sh2 = h" "sessionIDBz sh2 = idBz" "hydrated sh2 = hydrated sh1"
    "sessionHeader sh2 = \<lparr>SH_ApplicationAddress = app, SH_ServiceId = svc,
       SH_SessionId = sid, SH_SessionStartBlockHeight = start, SH_SessionEndBlockHeight = end'\<rparr>"
    using steps(2) m unfolding hydrateSessionID_def by (auto simp: res_simps Let_def)
  obtain a where a: "GetApplication (E_Apps env) app = Some a" "App_IsActive a end'"
    "staked_for (App_GetActiveServiceConfigs a h) svc = Inr True"
    "sh3 = sh2\<lparr>hydrated := (hydrated sh2)\<lparr>Session_Application := Some a\<rparr>\<rparr>"
    using steps(3) i unfolding hydrateSessionApplication_def
    by (auto simp: res_simps Let_def split: option.splits if_splits)
  obtain ss where ss: "sh4 = sh3\<lparr>hydrated := (hydrated sh3)\<lparr>Session_Suppliers := ss\<rparr>\<rparr>"
    using steps(4) unfolding hydrateSessionSuppliers_def by (auto simp: Let_def split: if_splits)
  have "session_heights (E_Shared env) h = Inr (n, start, end')"
    using m by (simp add: session_heights_def)
  then show ?thesis
    using that [of n start end' sid idBz a sh3] m i a steps(4) by (simp add: s ss)
qed

lemma suppliers_update_inject [simp]:
  "sh\<lparr>hydrated := (hydrated sh)\<lparr>Session_Suppliers := a\<rparr>\<rparr>
    = sh\<lparr>hydrated := (hydrated sh)\<lparr>Session_Suppliers := b\<rparr>\<rparr> \<longleftrightarrow> a = b"
  by (auto dest: arg_cong [where f = "\<lambda>s. Session_Suppliers (hydrated s)"])

lemma hydrateSessionSuppliers_cases:
  assumes "hydrateSessionSuppliers sha3 env sh = Inr (sh\<lparr>hydrated := (hydrated sh)\<lparr>Session_Suppliers := ss\<rparr>\<rparr>)"
    and "n = int64_of (NumSuppliersPerSession (Session_GetParamsAtHeight (E_Session env) (blockHeight sh)))"
    and "w = (\<lambda>op. generateSupplierRandomWeight sha3 op (sessionIDBz sh))"
  obtains "session_candidates env sh \<noteq> []" and "0 \<le> n" and "int (length (session_candidates env sh)) < n"
      and "ss = getServiceConfigsSuppliers (E_Suppliers env) (session_candidates env sh)"
    | "session_candidates env sh \<noteq> []" and "0 \<le> n" and "n \<le> int (length (session_candidates env sh))"
      and "ss = getServiceConfigsSuppliers (E_Suppliers env)
            (take (nat n) (SortFunc (weightedSupplierSortFn w) (session_candidates env sh)))"
proof -
  let ?cs = "session_candidates env sh"
  let ?ws = "map (\<lambda>u. (SCU_OperatorAddress u, w (SCU_OperatorAddress u))) ?cs"
  have lookup: "map_of ?ws (SCU_OperatorAddress u) = Some (w (SCU_OperatorAddress u))" if "u \<in> set ?cs" for u
  proof -
    have "map_of (map (\<lambda>v. (SCU_OperatorAddress v, w (SCU_OperatorAddress v))) us) (SCU_OperatorAddress u)
        = Some (w (SCU_OperatorAddress u))" if "u \<in> set us" for us
      using that by (induction us) auto
    then show ?thesis using that .
  qed
  have "fold (insert_cmp (weightedSupplierSortFn (\<lambda>a. case map_of ?ws a of None \<Rightarrow> 0 | Some w \<Rightarrow> w))) xs ys
      = fold (insert_cmp (weightedSupplierSortFn w)) xs ys"
    if "set xs \<subseteq> set ?cs" "set ys \<subseteq> set ?cs" for xs ys
    using that
  proof (induction xs arbitrary: ys)
    case Nil
    then show ?case by simp
  next
    case (Cons x xs)
    let ?f = "weightedSupplierSortFn (\<lambda>a. case map_of ?ws a of None \<Rightarrow> 0 | Some w \<Rightarrow> w)"
    have f: "?f x y = weightedSupplierSortFn w x y" if "y \<in> set ys" for y
      using Cons.prems that lookup [of x] lookup [of y] by (auto simp: weightedSupplierSortFn_def)
    have "insert_cmp ?f x ys = insert_cmp (weightedSupplierSortFn w) x ys"
      using f by (induction ys) auto
    moreover have "set (insert_cmp (weightedSupplierSortFn w) x ys) \<subseteq> set ?cs"
      using Cons.prems mset_insert_cmp [of "weightedSupplierSortFn w" x ys]
      by (metis insert_subset list.set(2) set_mset_add_mset_insert set_mset_mset)
    ultimately show ?case using Cons by simp
  qed
  then have sort: "sortCandidateSupplierConfigsBySupplierWeight ?cs ?ws
      = SortFunc (weightedSupplierSortFn w) ?cs"
    by (simp add: sortCandidateSupplierConfigsBySupplierWeight_def SortFunc_def)
  show ?thesis
    using assms(1) sort that
    by (auto simp: hydrateSessionSuppliers_def Let_def assms(2,3) split: if_splits)
qed

end
