(* ===== verification/SessionProps.thy ===== *)
theory SessionProps
  imports SessionSteps
begin

text \<open>
  What the session module guarantees: which suppliers a session has, that the header of a session
  does not depend on the height it is asked at, when a header is valid, and what a change of the
  module's parameters does to sessions in flight.
\<close>

section \<open>Which suppliers\<close>

lemma getServiceConfigsSuppliers_stored:
  assumes inv: "sup_inv st" and c: "set us \<subseteq> configs st"
  shows "map OperatorAddress (getServiceConfigsSuppliers st us) = map SCU_OperatorAddress us"
    and "x \<in> set (getServiceConfigsSuppliers st us) \<Longrightarrow>
      \<exists>u \<in> set us. OperatorAddress x = SCU_OperatorAddress u \<and> Services x = [SCU_Service u]"
proof -
  have prim: "prim_ok (ConfigUpdates st)" using inv by (simp add: sup_inv_def config_indexes_ok_def)
  have "GetDehydratedSupplier st (SCU_OperatorAddress u) \<noteq> None" if "u \<in> set us" for u
    using inv c that map_of_configs [OF prim, of "ServiceConfigUpdateKey u" u] unfolding sup_inv_def by blast
  then have stored: "\<forall>u \<in> set us. GetDehydratedSupplier st (SCU_OperatorAddress u) \<noteq> None" by blast
  note eq = getServiceConfigsSuppliers_eq [OF stored]
  have op: "OperatorAddress (the (GetDehydratedSupplier st (SCU_OperatorAddress u))) = SCU_OperatorAddress u"
    if "u \<in> set us" for u
    using stored that GetDehydratedSupplier_ok(1) [OF inv] by fastforce
  show "map OperatorAddress (getServiceConfigsSuppliers st us) = map SCU_OperatorAddress us"
    by (simp add: eq op)
  show "\<exists>u \<in> set us. OperatorAddress x = SCU_OperatorAddress u \<and> Services x = [SCU_Service u]"
    if "x \<in> set (getServiceConfigsSuppliers st us)"
    using that op by (auto simp: eq)
qed

text \<open>C31. The suppliers of a hydrated session are those with an active configuration for the service
  at the queried height: all of them when they are fewer than the session size in effect, and else
  the ones that come first in the order of weight and address. They depend on the set of
  configurations only, not on how the store lists them, and each carries the configuration it was
  picked for. A supplier has one active configuration per service here.\<close>
theorem session_suppliers_are_the_lightest:
  assumes "(supplier_step sdk urlParse isMod f authority)\<^sup>*\<^sup>* (genesis_suppliers p) (E_Suppliers env, log)"
    and "sdk_ok sdk" and "bech32_no_slash sdk" and "Supplier_Params_Validate p = Inr ()"
    and "HydrateSession sha3 env (NewSessionHydrator app svc h) = Inr s"
    and "0 \<le> h" and "h < 2 ^ 63 - 1"
    and "inj_on SCU_OperatorAddress (active_configs (E_Suppliers env) svc h)"
  shows "\<exists>header bz. Session_Header s = Some header
    \<and> GetSessionId sha3 (GetParamsAtHeight (E_Shared env) h) app svc
        (GetBlockHash (E_Session env) (SH_SessionStartBlockHeight header)) h = Inr (Session_Id s, bz)
    \<and> (let C = active_configs (E_Suppliers env) svc h;
           n = int64_of (NumSuppliersPerSession (Session_GetParamsAtHeight (E_Session env) h));
           key = candidate_key (\<lambda>op. generateSupplierRandomWeight sha3 op bz)
       in C \<noteq> {} \<and> (if int (card C) < n
           then set (map OperatorAddress (Session_Suppliers s)) = SCU_OperatorAddress ` C
             \<and> length (Session_Suppliers s) = card C
           else map OperatorAddress (Session_Suppliers s)
             = map snd (take (nat n) (sorted_list_of_set (key ` C))))
         \<and> (\<forall>x \<in> set (Session_Suppliers s).
              \<exists>u \<in> C. OperatorAddress x = SCU_OperatorAddress u \<and> Services x = [SCU_Service u]))"
proof -
  have inv: "sup_inv (E_Suppliers env)"
    by (rule supplier_reachable_sup_inv [OF assms(1-4)])
  then have ix: "config_indexes_ok (E_Suppliers env)" by (simp add: sup_inv_def)
  from HydrateSession_Inr [OF assms(5)] obtain n0 start end' sid idBz a sh3 where
    v: "IsValidServiceId svc = Inr ()"
    and sid: "GetSessionId sha3 (GetParamsAtHeight (E_Shared env) h) app svc
          (GetBlockHash (E_Session env) start) h = Inr (sid, idBz)"
    and hd: "sessionHeader sh3 = \<lparr>SH_ApplicationAddress = app, SH_ServiceId = svc, SH_SessionId = sid,
          SH_SessionStartBlockHeight = start, SH_SessionEndBlockHeight = end'\<rparr>"
    and bh: "blockHeight sh3 = h" and bz: "sessionIDBz sh3 = idBz"
    and sup: "hydrateSessionSuppliers sha3 env sh3
          = Inr (sh3\<lparr>hydrated := (hydrated sh3)\<lparr>Session_Suppliers := Session_Suppliers s\<rparr>\<rparr>)"
    and s: "Session_Header s = Some (sessionHeader sh3)" "Session_Id s = sid" by metis
  let ?C = "active_configs (E_Suppliers env) svc h" and ?cs = "session_candidates env sh3"
  let ?n = "int64_of (NumSuppliersPerSession (Session_GetParamsAtHeight (E_Session env) h))"
  let ?w = "\<lambda>op. generateSupplierRandomWeight sha3 op idBz"
  let ?sorted = "SortFunc (weightedSupplierSortFn ?w) ?cs"
  have C: "set ?cs = ?C"
    using session_candidates_set [OF ix, of sh3] IsValidServiceId_no_slash [OF v] assms(6,7)
    by (simp add: hd bh)
  have ds: "distinct (map SCU_OperatorAddress ?cs)"
    using distinct_session_candidates [OF ix, of sh3] assms(8) by (simp add: distinct_map C)
  have len: "length ?cs = card ?C"
    using distinct_session_candidates [OF ix, of sh3] distinct_card C by metis
  have sub: "?C \<subseteq> configs (E_Suppliers env)" by (auto simp: active_configs_def)
  have key: "map SCU_OperatorAddress ?sorted = map snd (sorted_list_of_set (candidate_key ?w ` ?C))"
    using arg_cong [OF SortFunc_candidates [OF ds, of ?w], of "map snd"]
    by (simp add: C comp_def candidate_key_def)
  have taken: "set (take (nat ?n) ?sorted) \<subseteq> ?C" using C set_take_subset [of "nat ?n" ?sorted] by simp
  note cases = hydrateSessionSuppliers_cases [OF sup refl refl]
  have "?C \<noteq> {} \<and> (if int (card ?C) < ?n
        then set (map OperatorAddress (Session_Suppliers s)) = SCU_OperatorAddress ` ?C
          \<and> length (Session_Suppliers s) = card ?C
        else map OperatorAddress (Session_Suppliers s)
          = map snd (take (nat ?n) (sorted_list_of_set (candidate_key ?w ` ?C))))
      \<and> (\<forall>x \<in> set (Session_Suppliers s).
           \<exists>u \<in> ?C. OperatorAddress x = SCU_OperatorAddress u \<and> Services x = [SCU_Service u])"
  proof (cases rule: cases)
    case 1
    have us: "set ?cs \<subseteq> configs (E_Suppliers env)" using sub C by simp
    note st = getServiceConfigsSuppliers_stored [OF inv us, folded 1(4)]
    have "length (Session_Suppliers s) = card ?C" using arg_cong [OF st(1), of length] len by simp
    moreover have "set (map OperatorAddress (Session_Suppliers s)) = SCU_OperatorAddress ` ?C"
      by (simp only: st(1) set_map C)
    ultimately show ?thesis using 1(1,3) len st(2) C by (auto simp: bh)
  next
    case 2
    have us: "set (take (nat ?n) ?sorted) \<subseteq> configs (E_Suppliers env)" using sub taken by blast
    have ss: "Session_Suppliers s = getServiceConfigsSuppliers (E_Suppliers env) (take (nat ?n) ?sorted)"
      using 2(4) by (simp add: bh bz)
    note st = getServiceConfigsSuppliers_stored [OF inv us, folded ss]
    have "map OperatorAddress (Session_Suppliers s)
        = map snd (take (nat ?n) (sorted_list_of_set (candidate_key ?w ` ?C)))"
      by (simp add: st(1) take_map [symmetric] key)
    moreover have "\<not> int (card ?C) < ?n" using 2(3) len by (simp add: bh)
    moreover have "?C \<noteq> {}" using 2(1) C by (metis set_empty)
    ultimately show ?thesis using st(2) taken by (metis (no_types, lifting) subsetD)
  qed
  moreover have "GetSessionId sha3 (GetParamsAtHeight (E_Shared env) h) app svc
        (GetBlockHash (E_Session env) (SH_SessionStartBlockHeight (sessionHeader sh3))) h
      = Inr (Session_Id s, idBz)"
    using sid by (simp add: hd s)
  ultimately show ?thesis
    using s(1) unfolding Let_def by blast
qed

section \<open>The header\<close>

lemma session_heights_Inr:
  assumes "session_heights sh h = Inr (n, s, e)"
  shows "GetSessionNumber (GetParamsAtHeight sh h) h = Inr n"
    and "GetSessionStartHeight (GetParamsAtHeight sh h) h = Inr s"
    and "GetSessionEndHeight (GetParamsAtHeight sh h) h = Inr e"
  using assms by (auto simp: session_heights_def res_simps Let_def)

lemma GetSessionId_start:
  assumes "GetSessionStartHeight p h = Inr s" and "GetSessionStartHeight p' h' = Inr s"
  shows "GetSessionId sha3 p app svc hash h = GetSessionId sha3 p' app svc hash h'"
  using assms by (simp add: GetSessionId_def getSessionStartBlockHeightBz_def)

text \<open>What concerns the header.\<close>

lemma HydrateSession_header:
  assumes "HydrateSession sha3 env (NewSessionHydrator app svc h) = Inr s"
  obtains n start end' sid idBz where "session_heights (E_Shared env) h = Inr (n, start, end')"
    and "IsValidServiceId svc = Inr ()"
    and "GetSessionId sha3 (GetParamsAtHeight (E_Shared env) h) app svc
          (GetBlockHash (E_Session env) start) h = Inr (sid, idBz)"
    and "Session_Header s = Some \<lparr>SH_ApplicationAddress = app, SH_ServiceId = svc, SH_SessionId = sid,
          SH_SessionStartBlockHeight = start, SH_SessionEndBlockHeight = end'\<rparr>"
    and "Session_Id s = sid" and "SessionNumber s = n"
  by (rule HydrateSession_Inr [OF assms]) (rule that, simp_all)

text \<open>C32. Whatever governance has done to the session length, the header of a session, its identifier
  included, and its number are the same for every height of the session at which it is asked for.\<close>
theorem session_header_is_stable:
  assumes "shared_reachable isB authority (c, E_Shared env)" and "1 \<le> h" and "h < 2 ^ 61"
    and "HydrateSession sha3 env (NewSessionHydrator app svc h) = Inr s"
    and "Session_Header s = Some header"
    and "SH_SessionStartBlockHeight header \<le> h'" and "h' \<le> SH_SessionEndBlockHeight header"
    and "HydrateSession sha3 env (NewSessionHydrator app svc h') = Inr s'"
  shows "SH_SessionStartBlockHeight header \<le> h \<and> h \<le> SH_SessionEndBlockHeight header
    \<and> Session_Header s' = Some header \<and> Session_Id s' = Session_Id s \<and> SessionNumber s' = SessionNumber s"
proof -
  let ?sh = "E_Shared env"
  have inv: "grid_inv c ?sh" using reachable_grid_inv [OF assms(1)] by simp
  let ?es = "state_epochs ?sh"
  have ok: "epochs_ok ?es" using inv by (simp add: grid_inv_def Let_def)
  have hb: "height_bounded h" using assms(2,3) by (simp add: height_bounded_def)
  note hs = resolved_code [OF inv hb]
  obtain n st e sid idBz where
    a: "session_heights ?sh h = Inr (n, st, e)" "IsValidServiceId svc = Inr ()"
    "GetSessionId sha3 (GetParamsAtHeight ?sh h) app svc (GetBlockHash (E_Session env) st) h = Inr (sid, idBz)"
    "Session_Header s = Some \<lparr>SH_ApplicationAddress = app, SH_ServiceId = svc, SH_SessionId = sid,
          SH_SessionStartBlockHeight = st, SH_SessionEndBlockHeight = e\<rparr>" "Session_Id s = sid" "SessionNumber s = n"
    by (rule HydrateSession_header [OF assms(4)])
  obtain n' st' e' sid' idBz' where
    b: "session_heights ?sh h' = Inr (n', st', e')" "IsValidServiceId svc = Inr ()"
    "GetSessionId sha3 (GetParamsAtHeight ?sh h') app svc (GetBlockHash (E_Session env) st') h' = Inr (sid', idBz')"
    "Session_Header s' = Some \<lparr>SH_ApplicationAddress = app, SH_ServiceId = svc, SH_SessionId = sid',
          SH_SessionStartBlockHeight = st', SH_SessionEndBlockHeight = e'\<rparr>" "Session_Id s' = sid'" "SessionNumber s' = n'"
    by (rule HydrateSession_header [OF assms(8)])
  note ha = session_heights_Inr [OF a(1)]
  have sa: "st = hist_start ?es h" "e = hist_end ?es h" "n = hist_number ?es h" using ha hs by simp_all
  note header = assms(5) [unfolded a(4), simplified, symmetric]
  have r: "hist_start ?es h \<le> h'" "h' \<le> hist_end ?es h" using assms(6,7) header sa by simp_all
  have bd: "1 \<le> hist_start ?es h" by (rule hist.first_le [OF ok assms(2)])
  have hb': "height_bounded h'"
    using r bd hist_end_bound [OF inv hb] assms(3) by (simp add: height_bounded_def)
  note hs' = resolved_code [OF inv hb'] and hb1 = session_heights_Inr [OF b(1)]
  have sb: "st' = st" "e' = e" "n' = n"
    using hb1 hs' hist.same [OF ok assms(2) r] sa by simp_all
  have "GetSessionId sha3 (GetParamsAtHeight ?sh h) app svc (GetBlockHash (E_Session env) st) h
      = GetSessionId sha3 (GetParamsAtHeight ?sh h') app svc (GetBlockHash (E_Session env) st) h'"
    by (rule GetSessionId_start [OF ha(2)]) (simp add: hb1(2) sb(1))
  then have "sid' = sid" using a(3) b(3) sb(1) by simp
  then show ?thesis
    using a b sb header sa hist.start_le [OF ok assms(2)] hist_end_bound [OF inv hb] by simp
qed

text \<open>The header of a hydrated session passes the validation that claims and proofs put it through
  exactly if its session is longer than one block. The shared parameters may set a length of one
  block, with which no header is valid and no relay can be claimed.\<close>
theorem hydrated_header_valid_iff:
  assumes "shared_reachable isB authority (c, E_Shared env)" and "1 \<le> h" and "h < 2 ^ 61"
    and "HydrateSession sha3 env (NewSessionHydrator app svc h) = Inr s"
    and "isBech32 sdk app" and "\<And>bz. sha3 bz \<noteq> []"
  shows "\<exists>header. Session_Header s = Some header
    \<and> (SessionHeader_ValidateBasic sdk header = Inr ()
         \<longleftrightarrow> 1 < uint (NumBlocksPerSession (GetParamsAtHeight (E_Shared env) h)))"
proof -
  let ?sh = "E_Shared env" and ?p = "GetParamsAtHeight (E_Shared env) h"
  have inv: "grid_inv c ?sh" using reachable_grid_inv [OF assms(1)] by simp
  have hb: "height_bounded h" using assms(2,3) by (simp add: height_bounded_def)
  note p = resolved_params(1) [OF inv hb]
  obtain n st e sid idBz where
    a: "session_heights ?sh h = Inr (n, st, e)" "IsValidServiceId svc = Inr ()"
    "GetSessionId sha3 ?p app svc (GetBlockHash (E_Session env) st) h = Inr (sid, idBz)"
    "Session_Header s = Some \<lparr>SH_ApplicationAddress = app, SH_ServiceId = svc, SH_SessionId = sid,
          SH_SessionStartBlockHeight = st, SH_SessionEndBlockHeight = e\<rparr>"
    by (rule HydrateSession_header [OF assms(4)])
  have st: "st = sess_start ?p h" "e = sess_end ?p h"
    using session_heights_Inr [OF a(1)] GetSessionStartHeight_eq [OF p hb] GetSessionEndHeight_eq [OF p hb]
    by simp_all
  have "1 \<le> st" using sess_start_bounds [OF p hb] st assms(2) by simp
  moreover have "e = st + uint (NumBlocksPerSession ?p) - 1"
    by (simp add: st sess_end_def)
  moreover have "sid \<noteq> []"
    using a(3) assms(6) by (auto simp: GetSessionId_def res_simps hex_EncodeToString_def Let_def)
  ultimately show ?thesis
    using a assms(5) by (auto simp: SessionHeader_ValidateBasic_def)
qed

section \<open>The parameter history\<close>

definition session_history_ok :: "session_state \<Rightarrow> bool" where
  "session_history_ok st \<longleftrightarrow> kv_ok (Session_ParamsHistory st)
     \<and> (\<forall>(k, h, p) \<in> set (Session_ParamsHistory st). k = uint64_of h \<and> height_bounded h \<and> p \<noteq> None)"

lemma kv_rev_below_set:
  assumes "kv_ok s" and "\<not> k < e"
  shows "kv_rev_below e (kv_set k v s) = kv_rev_below e s"
proof -
  have "filter (\<lambda>f. fst f < e) (kv_set k v s) = filter (\<lambda>f. fst f < e) s"
    using assms
  proof (induction k v s rule: kv_set.induct)
    case (1 k v)
    then show ?case by simp
  next
    case (2 k v k' v' s)
    then show ?case by (cases "k = k'") auto
  qed
  then show ?thesis by (simp add: kv_rev_below_def)
qed

lemma kv_rev_below_top:
  assumes "kv_ok s" and "k < e" and "\<And>k'. k' \<in> fst ` set s \<Longrightarrow> k' < e \<Longrightarrow> k' \<le> k"
  shows "\<exists>rest. kv_rev_below e (kv_set k v s) = (k, v) # rest"
proof -
  have "\<exists>rest. filter (\<lambda>f. fst f < e) (kv_set k v s) = rest @ [(k, v)]"
    using assms
  proof (induction k v s rule: kv_set.induct)
    case (1 k v)
    then show ?case by simp
  next
    case (2 k v k' v' s)
    have above: "filter (\<lambda>f. fst f < e) s = []" if "k \<le> k'"
      unfolding filter_empty_conv
    proof
      fix f assume "f \<in> set s"
      then have "k' < fst f" "fst f < e \<Longrightarrow> fst f \<le> k" using "2.prems"(1,3) by auto
      then show "\<not> fst f < e" using that by auto
    qed
    consider "k < k'" | "k = k'" | "k' < k" by (rule linorder_cases)
    then show ?case
    proof cases
      case 1
      then have "\<not> k' < e" using "2.prems"(3) [of k'] by auto
      with 1 show ?thesis using above "2.prems"(2) by simp
    next
      case 2
      then show ?thesis using above "2.prems"(2) by simp
    next
      case 3
      have "\<exists>rest. filter (\<lambda>f. fst f < e) (kv_set k v s) = rest @ [(k, v)]"
        using "2.IH" 3 "2.prems" by auto
      then show ?thesis using 3 by (auto split: if_splits)
    qed
  qed
  then obtain rest where "filter (\<lambda>f. fst f < e) (kv_set k v s) = rest @ [(k, v)]" by blast
  then show ?thesis by (simp add: kv_rev_below_def)
qed

lemma next_height_key: "height_bounded h \<Longrightarrow> i64 (h + 1) = h + 1"
  by (intro i64_id) (simp add: in_i64_def height_bounded_def)

lemma Session_UpdateParams_Inr:
  assumes "Session_UpdateParams sdk authority c sh (a, new) st = Inr st'"
    and "GetSessionEndHeight (GetParamsAtHeight sh c) c = Inr e" and "in_i64 (e + 1)"
  shows "st' = Session_SetParams new (Session_SetParamsAtHeight (e + 1) new
      (if Session_HasParamsHistory st then st else Session_SetParamsAtHeight c (Session_GetParams st) st))"
    and "Session_Params_ValidateBasic new = Inr ()" and "a = authority"
  using assms unfolding Session_UpdateParams_def
  by (auto simp: res_simps Session_RecordParamsHistory_def i64_id Let_def split: if_splits)

lemma Session_UpdateParam_Inr:
  assumes "Session_UpdateParam sdk authority c sh msg st = Inr st'"
    and "GetSessionEndHeight (GetParamsAtHeight sh c) c = Inr e" and "in_i64 (e + 1)"
  obtains new where "st' = Session_SetParams new (Session_SetParamsAtHeight (e + 1) new
      (if Session_HasParamsHistory st then st else Session_SetParamsAtHeight c (Session_GetParams st) st))"
  using assms unfolding Session_UpdateParam_def
  by (auto simp: res_simps Session_RecordParamsHistory_def i64_id Let_def split: if_splits)

lemma recorded_end:
  assumes "params_bounded (GetParamsAtHeight sh c)" and "chain_height c"
    and "GetSessionEndHeight (GetParamsAtHeight sh c) c = Inr e"
  shows "c \<le> e" and "height_bounded e" and "height_bounded (e + 1)" and "in_i64 (e + 1)"
proof -
  have hb: "height_bounded c" using assms(2) by (rule chain_height_bounded)
  have e: "e = sess_end (GetParamsAtHeight sh c) c"
    using assms(3) GetSessionEndHeight_eq [OF assms(1) hb] by simp
  note b = sess_start_bounds [OF assms(1) hb]
  show "c \<le> e" "height_bounded e" "height_bounded (e + 1)" "in_i64 (e + 1)"
    using b assms(2) by (auto simp: e chain_height_def height_bounded_def in_i64_def)
qed

lemma session_history_ok_set:
  assumes "session_history_ok st" and "height_bounded h"
  shows "session_history_ok (Session_SetParamsAtHeight h p st)"
  using assms unfolding session_history_ok_def Session_SetParamsAtHeight_def Session_ParamsHistoryKey_def
  by (auto simp: kv_simps set_kv_set)

lemma session_history_ok_SetParams [simp]:
  "session_history_ok (Session_SetParams p st) = session_history_ok st"
  "session_history_ok (StoreBlockHash h x st) = session_history_ok st"
  by (simp_all add: session_history_ok_def Session_SetParams_def StoreBlockHash_def)

text \<open>The session module as a transition system: the parameter updates and the end of a block.\<close>

inductive session_step :: "sdk \<Rightarrow> string \<Rightarrow> session_state \<Rightarrow> session_state \<Rightarrow> bool"
  for sdk authority where
  update_param: "Session_UpdateParam sdk authority c sh msg st = Inr st' \<Longrightarrow> chain_height c
    \<Longrightarrow> params_bounded (GetParamsAtHeight sh c) \<Longrightarrow> session_step sdk authority st st'"
| update_params: "Session_UpdateParams sdk authority c sh m st = Inr st' \<Longrightarrow> chain_height c
    \<Longrightarrow> params_bounded (GetParamsAtHeight sh c) \<Longrightarrow> session_step sdk authority st st'"
| end_block: "session_step sdk authority st (StoreBlockHash h hash st)"

definition session_genesis_state :: "session_params \<Rightarrow> session_state" where
  "session_genesis_state p = \<lparr>Session_Params = Some p, Session_ParamsHistory = [], BlockHashes = []\<rparr>"

lemma session_reachable_history_ok:
  assumes "(session_step sdk authority)\<^sup>*\<^sup>* (session_genesis_state p) st"
  shows "session_history_ok st"
  using assms
proof (induction rule: rtranclp_induct)
  case base
  then show ?case by (simp add: session_genesis_state_def session_history_ok_def)
next
  case (step st st')
  have recorded: "session_history_ok (Session_SetParams new (Session_SetParamsAtHeight (e + 1) new
      (if Session_HasParamsHistory st then st else Session_SetParamsAtHeight c (Session_GetParams st) st)))"
    if "chain_height c" "height_bounded (e + 1)" for c e new
    using that step.IH chain_height_bounded by (simp add: session_history_ok_set)
  from step(2) show ?case
  proof cases
    case (update_param c sh msg)
    obtain e where e: "GetSessionEndHeight (GetParamsAtHeight sh c) c = Inr e"
      using GetSessionEndHeight_eq [OF update_param(3) chain_height_bounded [OF update_param(2)]] by blast
    note r = recorded_end [OF update_param(3,2) e]
    show ?thesis
      by (rule Session_UpdateParam_Inr [OF update_param(1) e r(4)]) (simp only: recorded update_param(2) r(3))
  next
    case (update_params c sh m)
    obtain a new where m: "m = (a, new)" by (cases m)
    obtain e where e: "GetSessionEndHeight (GetParamsAtHeight sh c) c = Inr e"
      using GetSessionEndHeight_eq [OF update_params(3) chain_height_bounded [OF update_params(2)]] by blast
    note r = recorded_end [OF update_params(3,2) e]
    show ?thesis
      using Session_UpdateParams_Inr(1) [OF update_params(1) [unfolded m] e r(4)] recorded update_params(2) r(3)
      by simp
  next
    case (end_block h hash)
    then show ?thesis using step.IH by simp
  qed
qed

text \<open>Once the module has a parameter history, an update leaves the session size at every height up to
  the end of the current session what it was, provided an entry of the history covers the height,
  and takes effect at the next session start.\<close>
theorem session_params_update_spares_session_in_flight:
  assumes "(session_step sdk authority)\<^sup>*\<^sup>* (session_genesis_state p) st"
    and "chain_height c" and "params_bounded (GetParamsAtHeight sh c)"
    and "Session_UpdateParams sdk authority c sh (a, new) st = Inr st'"
    and "GetSessionEndHeight (GetParamsAtHeight sh c) c = Inr e"
    and "(uint64_of h0, h0, q) \<in> set (Session_ParamsHistory st)" and "h0 \<le> h" and "h \<le> e"
    and "\<forall>x \<in> set (Session_ParamsHistory st). fst (snd x) \<le> e + 1"
  shows "Session_GetParamsAtHeight st' h = Session_GetParamsAtHeight st h
    \<and> Session_GetParamsAtHeight st' (e + 1) = new"
proof -
  have ok: "session_history_ok st" by (rule session_reachable_history_ok [OF assms(1)])
  then have kv: "kv_ok (Session_ParamsHistory st)" by (simp add: session_history_ok_def)
  note r = recorded_end [OF assms(3,2,5)]
  have h0: "height_bounded h0" using ok assms(6) by (auto simp: session_history_ok_def)
  then have hb: "height_bounded h" "height_bounded (h + 1)"
    using assms(7,8) r by (auto simp: height_bounded_def)
  have st': "st' = Session_SetParams new (Session_SetParamsAtHeight (e + 1) new st)"
    using Session_UpdateParams_Inr(1) [OF assms(4,5) r(4)] assms(6)
    by (auto simp: Session_HasParamsHistory_def)
  have "\<not> uint64_of (e + 1) < uint64_of (h + 1)"
    using uint64_of_height(1) [OF r(3) hb(2)] assms(8) by simp
  then have same: "kv_rev_below (uint64_of (h + 1)) (Session_ParamsHistory st')
      = kv_rev_below (uint64_of (h + 1)) (Session_ParamsHistory st)"
    by (simp add: st' Session_SetParams_def Session_SetParamsAtHeight_def Session_ParamsHistoryKey_def
        kv_rev_below_set [OF kv])
  have "uint64_of h0 < uint64_of (h + 1)" using uint64_of_height(1) [OF h0 hb(2)] assms(7) by simp
  then have "(uint64_of h0, h0, q) \<in> set (kv_rev_below (uint64_of (h + 1)) (Session_ParamsHistory st))"
    using assms(6) by (simp add: kv_rev_below_def)
  then obtain k h1 q1 rest where
    rev: "kv_rev_below (uint64_of (h + 1)) (Session_ParamsHistory st) = (k, h1, q1) # rest"
    by (cases "kv_rev_below (uint64_of (h + 1)) (Session_ParamsHistory st)") auto
  then have "(k, h1, q1) \<in> set (Session_ParamsHistory st)"
    by (metis (no_types, lifting) kv_rev_below_def list.set_intros(1) mem_Collect_eq set_filter set_rev)
  then obtain p1 where "q1 = Some p1" using ok by (auto simp: session_history_ok_def)
  then have first: "Session_GetParamsAtHeight st' h = Session_GetParamsAtHeight st h"
    using same rev by (simp add: Session_GetParamsAtHeight_def next_height_key [OF hb(1)])
  have e2: "height_bounded (e + 2)"
    using assms(2) sess_start_bounds [OF assms(3) chain_height_bounded [OF assms(2)]]
      GetSessionEndHeight_eq [OF assms(3) chain_height_bounded [OF assms(2)]] assms(5)
    by (auto simp: chain_height_def height_bounded_def)
  have below: "k' \<le> uint64_of (e + 1)" if k: "k' \<in> fst ` set (Session_ParamsHistory st)" for k'
  proof -
    obtain x where "x \<in> set (Session_ParamsHistory st)" "k' = fst x" using k by blast
    then have "(k', fst (snd x), snd (snd x)) \<in> set (Session_ParamsHistory st)" by simp
    then obtain h' q' where x: "(k', h', q') \<in> set (Session_ParamsHistory st)" by blast
    then have k': "k' = uint64_of h'" "height_bounded h'" using ok by (auto simp: session_history_ok_def)
    have "h' \<le> e + 1" using assms(9) x by force
    then show ?thesis using uint64_of_height(1) [OF r(3) k'(2)] k'(1) by (simp add: not_less [symmetric])
  qed
  have "uint64_of (e + 1) < uint64_of (e + 2)" using uint64_of_height(1) [OF r(3) e2] by simp
  from kv_rev_below_top [OF kv this below, of "(e + 1, Some new)"]
  obtain rest' where "kv_rev_below (uint64_of (e + 2)) (Session_ParamsHistory st')
      = (uint64_of (e + 1), e + 1, Some new) # rest'"
    by (auto simp: st' Session_SetParams_def Session_SetParamsAtHeight_def Session_ParamsHistoryKey_def)
  then have "Session_GetParamsAtHeight st' (e + 1) = new"
    using next_height_key [OF r(3)] by (simp add: Session_GetParamsAtHeight_def add.assoc)
  with first show ?thesis by simp
qed

text \<open>The first update of a module without a parameter history answers every height before its own
  block with the new parameters. Up to the end of the session the block itself and the later ones
  keep the old ones, so the session in flight changes size at its start height, the height claims
  and proofs are checked at, when the update arrives after its first block.\<close>
theorem first_session_params_update_rewrites_the_past:
  assumes "Session_ParamsHistory st = []"
    and "chain_height c" and "params_bounded (GetParamsAtHeight sh c)"
    and "Session_UpdateParams sdk authority c sh (a, new) st = Inr st'"
    and "GetSessionEndHeight (GetParamsAtHeight sh c) c = Inr e" and "1 \<le> h" and "h < 2 ^ 61"
  shows "Session_GetParamsAtHeight st h = Session_GetParams st
    \<and> Session_GetParamsAtHeight st' h = (if c \<le> h \<and> h \<le> e then Session_GetParams st else new)"
proof -
  note r = recorded_end [OF assms(3,2,5)]
  have hb: "height_bounded h" "height_bounded (h + 1)" using assms(6,7) by (auto simp: height_bounded_def)
  have c: "height_bounded c" using assms(2) by (rule chain_height_bounded)
  have less: "uint64_of c < uint64_of (e + 1)" "\<not> uint64_of (e + 1) < uint64_of c"
    "uint64_of (e + 1) \<noteq> uint64_of c"
    using uint64_of_height(1) [OF c r(3)] uint64_of_height(1) [OF r(3) c] r(1) by auto
  have st': "Session_ParamsHistory st'
      = [(uint64_of c, c, Some (Session_GetParams st)), (uint64_of (e + 1), e + 1, Some new)]"
    "Session_GetParams st' = new"
    using Session_UpdateParams_Inr(1) [OF assms(4,5) r(4)] assms(1) less
    by (simp_all add: Session_HasParamsHistory_def Session_SetParams_def Session_SetParamsAtHeight_def
        Session_ParamsHistoryKey_def Session_GetParams_def)
  have below: "uint64_of c < uint64_of (h + 1) \<longleftrightarrow> c \<le> h" "uint64_of (e + 1) < uint64_of (h + 1) \<longleftrightarrow> e + 1 \<le> h"
    using uint64_of_height(1) [OF c hb(2)] uint64_of_height(1) [OF r(3) hb(2)] by auto
  have "Session_GetParamsAtHeight st' h = (if c \<le> h \<and> h \<le> e then Session_GetParams st else new)"
    using r(1) below st' by (auto simp: Session_GetParamsAtHeight_def kv_rev_below_def next_height_key [OF hb(1)])
  then show ?thesis using assms(1) by (simp add: Session_GetParamsAtHeight_def kv_rev_below_def)
qed

end
