(* ===== verification/SessionClaims.thy ===== *)
theory SessionClaims
  imports SessionProps
begin

text \<open>
  Further properties of the session module on concrete runs of the chain's modules: a supplier that
  unstakes can push another one out of the session in flight.
\<close>

section \<open>A concrete run\<close>

text \<open>\<open>p1\<close> and \<open>p2\<close> stake for \<open>svc1\<close> in the first session; in the second, \<open>p1\<close> stakes
  for it again.\<close>

definition two_suppliers :: "supplier_ctx res" where
  "two_suppliers =
     bindR (sup_stake 2 (sup_msg ''p1'' ''p1'' 500 [''svc1'']) (genesis_suppliers sup_params)) (\<lambda>s1.
     bindR (sup_stake 3 (sup_msg ''p2'' ''p2'' 700 [''svc1'']) s1) (\<lambda>s2.
     sup_stake 12 (sup_msg ''p1'' ''p1'' 500 [''svc1'']) s2))"

definition unstaked_p1 :: "supplier_ctx res" where
  "unstaked_p1 = bindR two_suppliers (UnstakeSupplier sup_sdk 22 witness_genesis ''o1'' ''p1'')"

definition session_apps :: app_state where
  "session_apps = (case StakeApplication plain_sdk 3 witness_genesis (stake_msg ''a2'' 700)
       (app_genesis (Some run_params)) of Inr (st, log) \<Rightarrow> st
     | Inl e \<Rightarrow> fst (app_genesis None))"

definition session_store :: session_state where
  "session_store = StoreBlockHash 21 ''hash''
     \<lparr>Session_Params = Some \<lparr>NumSuppliersPerSession = 2\<rparr>, Session_ParamsHistory = [], BlockHashes = []\<rparr>"

definition run_env :: "supplier_state \<Rightarrow> session_env" where
  "run_env st = \<lparr>E_Height = 22, E_Shared = witness_genesis, E_Apps = session_apps,
     E_Suppliers = st, E_Session = session_store\<rparr>"

definition run_sessionIDBz :: string where
  "run_sessionIDBz = concatWithDelimiter ''.'' [''hash'', ''svc1'', ''a2'', PutUint64_LE 21]"

definition run_hydrator :: "(string \<Rightarrow> string) \<Rightarrow> session_hydrator" where
  "run_hydrator sha3 =
     (let sh = NewSessionHydrator ''a2'' ''svc1'' 22
      in sh\<lparr>sessionHeader := (sessionHeader sh)\<lparr>SH_SessionId := hex_EncodeToString (sha3 run_sessionIDBz),
              SH_SessionStartBlockHeight := 21, SH_SessionEndBlockHeight := 30\<rparr>,
            hydrated := (hydrated sh)\<lparr>SessionNumber := 3, Session_NumBlocksPerSession := 10,
              Session_Application := GetApplication session_apps ''a2''\<rparr>,
            sessionIDBz := run_sessionIDBz\<rparr>)"

lemma run_hydration:
  "HydrateSession sha3 (run_env st) (NewSessionHydrator ''a2'' ''svc1'' 22)
    = bindR (hydrateSessionSuppliers sha3 (run_env st) (run_hydrator sha3)) (\<lambda>sh4.
       Inr ((hydrated sh4)\<lparr>Session_Header := Some (sessionHeader sh4),
                            Session_Id := SH_SessionId (sessionHeader sh4)\<rparr>))"
proof -
  let ?sh = "NewSessionHydrator ''a2'' ''svc1'' 22" and ?h = "run_hydrator sha3"
  have m: "GetSessionNumber (GetParamsAtHeight witness_genesis 22) 22 = Inr 3"
    "GetSessionStartHeight (GetParamsAtHeight witness_genesis 22) 22 = Inr 21"
    "GetSessionEndHeight (GetParamsAtHeight witness_genesis 22) 22 = Inr 30"
    "int64_of (NumBlocksPerSession (GetParamsAtHeight witness_genesis 22)) = 10"
    by code_simp+
  have i: "GetBlockHash session_store 21 = ''hash''" "IsValidServiceId ''svc1'' = Inr ()" by code_simp+
  have a: "case GetApplication session_apps ''a2'' of None \<Rightarrow> False | Some a \<Rightarrow> App_IsActive a 30
      \<and> staked_for (App_GetActiveServiceConfigs a 22) ''svc1'' = Inr True"
    by code_simp
  then obtain app where app: "GetApplication session_apps ''a2'' = Some app" "App_IsActive app 30"
    "staked_for (App_GetActiveServiceConfigs app 22) ''svc1'' = Inr True"
    by (auto split: option.splits)
  show ?thesis
    using m i app
    by (simp add: HydrateSession_def hydrateSessionMetadata_def hydrateSessionID_def GetSessionId_def
        getSessionStartBlockHeightBz_def hydrateSessionApplication_def run_env_def NewSessionHydrator_def
        Let_def run_hydrator_def run_sessionIDBz_def)
qed

lemma run_candidates:
  "session_candidates (run_env st) (run_hydrator sha3)
    = filter (\<lambda>u. SCU_IsActive u 22) (GetServiceConfigUpdatesIterator st ''svc1'' 22)"
  by (simp add: session_candidates_def run_env_def run_hydrator_def NewSessionHydrator_def Let_def)

text \<open>The operators of the sorted candidates.\<close>

definition operator_cmp :: "(string \<Rightarrow> int) \<Rightarrow> string \<Rightarrow> string \<Rightarrow> int" where
  "operator_cmp w a b = (if w a < w b then - 1 else if w b < w a then 1 else bytes_Compare a b)"

lemma SortFunc_operators:
  "map SCU_OperatorAddress (SortFunc (weightedSupplierSortFn w) us)
    = SortFunc (operator_cmp w) (map SCU_OperatorAddress us)"
proof -
  have "map SCU_OperatorAddress (insert_cmp (weightedSupplierSortFn w) u vs)
      = insert_cmp (operator_cmp w) (SCU_OperatorAddress u) (map SCU_OperatorAddress vs)" for u vs
    by (induction vs) (simp_all add: weightedSupplierSortFn_def operator_cmp_def Let_def)
  then have "map SCU_OperatorAddress (fold (insert_cmp (weightedSupplierSortFn w)) us vs)
      = fold (insert_cmp (operator_cmp w)) (map SCU_OperatorAddress us) (map SCU_OperatorAddress vs)" for vs
    by (induction us arbitrary: vs) simp_all
  from this [of "[]"] show ?thesis by (simp add: SortFunc_def)
qed

text \<open>The suppliers of the run's session, from the operators of its candidates.\<close>

lemma run_session:
  assumes inv: "sup_inv st" and ops: "map SCU_OperatorAddress
      (filter (\<lambda>u. SCU_IsActive u 22) (GetServiceConfigUpdatesIterator st ''svc1'' 22)) = ops"
    and len: "2 \<le> length ops"
  obtains s where "HydrateSession sha3 (run_env st) (NewSessionHydrator ''a2'' ''svc1'' 22) = Inr s"
    and "Session_Header s = Some (sessionHeader (run_hydrator sha3))"
    and "map OperatorAddress (Session_Suppliers s) = take 2 (SortFunc
      (operator_cmp (\<lambda>op. generateSupplierRandomWeight sha3 op run_sessionIDBz)) ops)"
proof -
  let ?sh = "run_hydrator sha3" and ?cs = "session_candidates (run_env st) (run_hydrator sha3)"
  have l: "2 \<le> length ?cs" using len ops by (metis length_map run_candidates)
  have n: "int64_of (NumSuppliersPerSession (Session_GetParamsAtHeight session_store 22)) = 2" by code_simp
  have e: "E_Session (run_env st) = session_store" "blockHeight ?sh = 22" "sessionIDBz ?sh = run_sessionIDBz"
    "E_Suppliers (run_env st) = st"
    by (simp_all add: run_env_def run_hydrator_def Let_def NewSessionHydrator_def)
  have "?cs \<noteq> []" using l by auto
  then obtain ss where ss: "hydrateSessionSuppliers sha3 (run_env st) ?sh
      = Inr (?sh\<lparr>hydrated := (hydrated ?sh)\<lparr>Session_Suppliers := ss\<rparr>\<rparr>)"
    using l by (auto simp: hydrateSessionSuppliers_def e n makeslice_ok_def i64_def Let_def)
  have "set ?cs \<subseteq> configs st"
    by (auto simp: run_candidates GetServiceConfigUpdatesIterator_def configs_def kv_range_def)
  then have c: "set (take 2 (SortFunc f ?cs)) \<subseteq> configs st" for f
    using set_take_subset [of 2 "SortFunc f ?cs"] by simp
  have "map OperatorAddress ss = map SCU_OperatorAddress (take 2 (SortFunc
      (weightedSupplierSortFn (\<lambda>op. generateSupplierRandomWeight sha3 op run_sessionIDBz)) ?cs))"
    by (rule hydrateSessionSuppliers_cases [OF ss refl refl])
      (use l getServiceConfigsSuppliers_stored(1) [OF inv c] in \<open>simp_all add: e n\<close>)
  then show ?thesis
    using that run_hydration [of sha3 st] ops by (simp add: ss take_map [symmetric] SortFunc_operators run_candidates)
qed

lemma run_operators:
  obtains s s' where "two_suppliers = Inr s" and "UnstakeSupplier sup_sdk 22 witness_genesis ''o1'' ''p1'' s = Inr s'"
    and "map SCU_OperatorAddress (filter (\<lambda>u. SCU_IsActive u 22)
      (GetServiceConfigUpdatesIterator (fst s) ''svc1'' 22)) = [''p2'', ''p1'']"
    and "map SCU_OperatorAddress (filter (\<lambda>u. SCU_IsActive u 22)
      (GetServiceConfigUpdatesIterator (fst s') ''svc1'' 22)) = [''p1'', ''p2'', ''p1'']"
proof -
  have "case two_suppliers of Inl e \<Rightarrow> False | Inr s \<Rightarrow>
      (case UnstakeSupplier sup_sdk 22 witness_genesis ''o1'' ''p1'' s of Inl e \<Rightarrow> False | Inr s' \<Rightarrow>
        map SCU_OperatorAddress (filter (\<lambda>u. SCU_IsActive u 22)
          (GetServiceConfigUpdatesIterator (fst s) ''svc1'' 22)) = [''p2'', ''p1'']
      \<and> map SCU_OperatorAddress (filter (\<lambda>u. SCU_IsActive u 22)
          (GetServiceConfigUpdatesIterator (fst s') ''svc1'' 22)) = [''p1'', ''p2'', ''p1''])"
    by code_simp
  then show ?thesis using that by (auto split: sum.splits)
qed

lemma two_suppliers_reachable:
  assumes "two_suppliers = Inr s"
  shows "(supplier_step sup_sdk sup_url (\<lambda>a. False) (\<lambda>a. a) x)\<^sup>*\<^sup>* (genesis_suppliers sup_params) s"
proof -
  have nx: "next_start_ok witness_genesis h" if "h = 2 \<or> h = 3 \<or> h = 12" for h
    using that by (intro next_start_ok_bounded)
      (auto simp: witness_genesis_def GetParams_def NewParams_def params_bounded_def height_bounded_def)
  from assms obtain s1 s2 where r:
    "sup_stake 2 (sup_msg ''p1'' ''p1'' 500 [''svc1'']) (genesis_suppliers sup_params) = Inr s1"
    "sup_stake 3 (sup_msg ''p2'' ''p2'' 700 [''svc1'']) s1 = Inr s2"
    "sup_stake 12 (sup_msg ''p1'' ''p1'' 500 [''svc1'']) s2 = Inr s"
    by (auto simp: two_suppliers_def res_simps)
  let ?step = "supplier_step sup_sdk sup_url (\<lambda>a. False) (\<lambda>a. a) x"
  have "?step (genesis_suppliers sup_params) s1"
    using r(1) nx by (auto simp: sup_stake_def intro: supplier_step.stake)
  moreover have "?step s1 s2" using r(2) nx by (auto simp: sup_stake_def intro: supplier_step.stake)
  moreover have "?step s2 s" using r(3) nx by (auto simp: sup_stake_def intro: supplier_step.stake)
  ultimately show ?thesis by (meson converse_rtranclp_into_rtranclp rtranclp.rtrancl_refl)
qed

text \<open>C33. A supplier that stakes again for a service it already serves has two configurations on record,
  the one it replaced and the one in force. When it unstakes in the next session both are active
  for the rest of that session, so it is a candidate twice and, when its weight comes first, takes
  both places of a two-supplier session: the other supplier, which was in the session and may have
  served relays in it, no longer is.\<close>
theorem unstaking_evicts_a_session_supplier:
  assumes "generateSupplierRandomWeight sha3 ''p1'' run_sessionIDBz
      < generateSupplierRandomWeight sha3 ''p2'' run_sessionIDBz"
  shows "\<exists>s s' before after. two_suppliers = Inr s
    \<and> (supplier_step sup_sdk sup_url (\<lambda>a. False) (\<lambda>a. a) x)\<^sup>*\<^sup>* (genesis_suppliers sup_params) s
    \<and> UnstakeSupplier sup_sdk 22 witness_genesis ''o1'' ''p1'' s = Inr s'
    \<and> HydrateSession sha3 (run_env (fst s)) (NewSessionHydrator ''a2'' ''svc1'' 22) = Inr before
    \<and> HydrateSession sha3 (run_env (fst s')) (NewSessionHydrator ''a2'' ''svc1'' 22) = Inr after
    \<and> Session_Header before = Session_Header after
    \<and> map OperatorAddress (Session_Suppliers before) = [''p1'', ''p2'']
    \<and> map OperatorAddress (Session_Suppliers after) = [''p1'', ''p1'']"
proof -
  obtain s s' where run: "two_suppliers = Inr s"
    "UnstakeSupplier sup_sdk 22 witness_genesis ''o1'' ''p1'' s = Inr s'"
    and ops: "map SCU_OperatorAddress (filter (\<lambda>u. SCU_IsActive u 22)
      (GetServiceConfigUpdatesIterator (fst s) ''svc1'' 22)) = [''p2'', ''p1'']"
    "map SCU_OperatorAddress (filter (\<lambda>u. SCU_IsActive u 22)
      (GetServiceConfigUpdatesIterator (fst s') ''svc1'' 22)) = [''p1'', ''p2'', ''p1'']"
    by (rule run_operators)
  note reach = two_suppliers_reachable [OF run(1), of x]
  have inv: "supplier_chain_inv sup_sdk (\<lambda>a. a) s"
    using supplier_reachable_inv [OF reach sup_sdk_ok sup_params_valid]
    by (simp add: canonical_operators_def list_all_iff)
  moreover have "next_start_ok witness_genesis 22"
    by (rule next_start_ok_bounded)
      (simp_all add: witness_genesis_def GetParams_def NewParams_def params_bounded_def height_bounded_def)
  ultimately have inv': "supplier_chain_inv sup_sdk (\<lambda>a. a) s'" by (rule UnstakeSupplier_keeps [OF run(2), rotated])
  obtain before where b: "HydrateSession sha3 (run_env (fst s)) (NewSessionHydrator ''a2'' ''svc1'' 22) = Inr before"
    "Session_Header before = Some (sessionHeader (run_hydrator sha3))"
    "map OperatorAddress (Session_Suppliers before) = [''p1'', ''p2'']"
    by (rule run_session [of _ _ sha3, OF _ ops(1)])
      (use inv assms in \<open>simp_all add: supplier_chain_inv_iff SortFunc_def operator_cmp_def bytes_Compare_def\<close>)
  obtain after where a: "HydrateSession sha3 (run_env (fst s')) (NewSessionHydrator ''a2'' ''svc1'' 22) = Inr after"
    "Session_Header after = Some (sessionHeader (run_hydrator sha3))"
    "map OperatorAddress (Session_Suppliers after) = [''p1'', ''p1'']"
    by (rule run_session [of _ _ sha3, OF _ ops(2)])
      (use inv' assms in \<open>simp_all add: supplier_chain_inv_iff SortFunc_def operator_cmp_def bytes_Compare_def\<close>)
  show ?thesis using run reach b a by metis
qed

theorem unstaking_evicts_a_session_supplier_witness:
  "\<exists>s s' after. two_suppliers = Inr s
    \<and> UnstakeSupplier sup_sdk 22 witness_genesis ''o1'' ''p1'' s = Inr s'
    \<and> HydrateSession rev (run_env (fst s')) (NewSessionHydrator ''a2'' ''svc1'' 22) = Inr after
    \<and> map OperatorAddress (Session_Suppliers after) = [''p1'', ''p1'']"
proof -
  have "generateSupplierRandomWeight rev ''p1'' run_sessionIDBz
      < generateSupplierRandomWeight rev ''p2'' run_sessionIDBz" by code_simp
  from unstaking_evicts_a_session_supplier [OF this, of "''''"]
  obtain s s' after where "two_suppliers = Inr s"
    "UnstakeSupplier sup_sdk 22 witness_genesis ''o1'' ''p1'' s = Inr s'"
    "HydrateSession rev (run_env (fst s')) (NewSessionHydrator ''a2'' ''svc1'' 22) = Inr after"
    "map OperatorAddress (Session_Suppliers after) = [''p1'', ''p1'']"
    by (elim exE conjE)
  then show ?thesis by (intro exI conjI)
qed

section \<open>Witnesses\<close>

lemma res_run:
  assumes "case r of Inl e \<Rightarrow> False | Inr x \<Rightarrow> P x"
  obtains x where "r = Inr x" and "P x"
  using assms by (cases r) auto

lemma run_sessions:
  obtains st log s s' header where "two_suppliers = Inr (st, log)"
    and "HydrateSession rev (run_env st) (NewSessionHydrator ''a2'' ''svc1'' 22) = Inr s"
    and "HydrateSession rev (run_env st) (NewSessionHydrator ''a2'' ''svc1'' 21) = Inr s'"
    and "Session_Header s = Some header"
    and "SH_SessionStartBlockHeight header = 21" and "SH_SessionEndBlockHeight header = 30"
proof -
  let ?s = "\<lambda>st. HydrateSession rev (run_env st) (NewSessionHydrator ''a2'' ''svc1'' 22)"
  let ?s' = "\<lambda>st. HydrateSession rev (run_env st) (NewSessionHydrator ''a2'' ''svc1'' 21)"
  have run: "case two_suppliers of Inl e \<Rightarrow> False | Inr (st, log) \<Rightarrow>
      (case ?s st of Inl e \<Rightarrow> False | Inr s \<Rightarrow>
        (case Session_Header s of None \<Rightarrow> False
         | Some h \<Rightarrow> SH_SessionStartBlockHeight h = 21 \<and> SH_SessionEndBlockHeight h = 30))
    \<and> (case ?s' st of Inl e \<Rightarrow> False | Inr s \<Rightarrow> True)"
    by code_simp
  then obtain st log where st: "two_suppliers = Inr (st, log)"
    and inner: "case ?s st of Inl e \<Rightarrow> False | Inr s \<Rightarrow>
        (case Session_Header s of None \<Rightarrow> False
         | Some h \<Rightarrow> SH_SessionStartBlockHeight h = 21 \<and> SH_SessionEndBlockHeight h = 30)"
    and other: "case ?s' st of Inl e \<Rightarrow> False | Inr s \<Rightarrow> True"
    by (elim res_run) (auto split: prod.splits)
  obtain s where s: "?s st = Inr s" and header: "case Session_Header s of None \<Rightarrow> False
      | Some h \<Rightarrow> SH_SessionStartBlockHeight h = 21 \<and> SH_SessionEndBlockHeight h = 30"
    using inner by (elim res_run)
  obtain s' where "?s' st = Inr s'" using other by (elim res_run)
  with st s header show ?thesis using that by (auto split: option.splits)
qed

theorem session_suppliers_are_the_lightest_witness:
  "\<exists>st s. HydrateSession rev (run_env st) (NewSessionHydrator ''a2'' ''svc1'' 22) = Inr s
    \<and> active_configs st ''svc1'' 22 \<noteq> {}
    \<and> (\<forall>x \<in> set (Session_Suppliers s). \<exists>u \<in> active_configs st ''svc1'' 22.
          OperatorAddress x = SCU_OperatorAddress u \<and> Services x = [SCU_Service u])"
proof -
  obtain st log s where r: "two_suppliers = Inr (st, log)"
    "HydrateSession rev (run_env st) (NewSessionHydrator ''a2'' ''svc1'' 22) = Inr s"
    by (rule run_sessions)
  have env: "E_Suppliers (run_env st) = st" by (simp add: run_env_def)
  have reach: "(supplier_step sup_sdk sup_url (\<lambda>a. False) (\<lambda>a. a) '''')\<^sup>*\<^sup>*
      (genesis_suppliers sup_params) (E_Suppliers (run_env st), log)"
    using two_suppliers_reachable [OF r(1)] by (simp add: env)
  have "sup_inv st"
    by (rule supplier_reachable_sup_inv [OF two_suppliers_reachable [OF r(1)] sup_sdk_ok sup_params_valid])
  then have ix: "config_indexes_ok (E_Suppliers (run_env st))" by (simp add: env sup_inv_def)
  have C: "set (session_candidates (run_env st) (run_hydrator rev)) = active_configs st ''svc1'' 22"
    using session_candidates_set [OF ix, of "run_hydrator rev"]
    by (simp add: env run_hydrator_def NewSessionHydrator_def Let_def no_slash_def)
  have "distinct (map SCU_OperatorAddress (session_candidates (run_env st) (run_hydrator rev)))"
  proof (rule run_operators)
    fix s assume "two_suppliers = Inr s"
      and ops: "map SCU_OperatorAddress (filter (\<lambda>u. SCU_IsActive u 22)
        (GetServiceConfigUpdatesIterator (fst s) ''svc1'' 22)) = [''p2'', ''p1'']"
    then have "fst s = st" using r(1) by (metis Inr_inject fst_conv)
    then show ?thesis using ops by (simp only: run_candidates) simp
  qed
  then have "inj_on SCU_OperatorAddress (active_configs (E_Suppliers (run_env st)) ''svc1'' 22)"
    by (simp add: distinct_map C env)
  from session_suppliers_are_the_lightest [OF reach sup_sdk_ok sup_params_valid r(2) _ _ this]
  show ?thesis using r(2) by (auto simp: env Let_def)
qed

theorem session_header_is_stable_witness:
  "\<exists>st s s' header. HydrateSession rev (run_env st) (NewSessionHydrator ''a2'' ''svc1'' 22) = Inr s
    \<and> HydrateSession rev (run_env st) (NewSessionHydrator ''a2'' ''svc1'' 21) = Inr s'
    \<and> Session_Header s = Some header \<and> Session_Header s' = Some header"
proof -
  obtain st log s s' header where r:
    "HydrateSession rev (run_env st) (NewSessionHydrator ''a2'' ''svc1'' 22) = Inr s"
    "HydrateSession rev (run_env st) (NewSessionHydrator ''a2'' ''svc1'' 21) = Inr s'"
    "Session_Header s = Some header"
    "SH_SessionStartBlockHeight header = 21" "SH_SessionEndBlockHeight header = 30"
    by (rule run_sessions)
  have "shared_reachable (\<lambda>_. True) ''gov'' (1, E_Shared (run_env st))"
    using genesis_reachable by (simp add: run_env_def witness_genesis_def)
  from session_header_is_stable [OF this _ _ r(1,3) _ _ r(2)] show ?thesis using r by auto
qed

theorem hydrated_header_valid_iff_witness:
  "\<exists>st s header. HydrateSession (\<lambda>bz. ''x'' @ rev bz) (run_env st) (NewSessionHydrator ''a2'' ''svc1'' 22) = Inr s
    \<and> Session_Header s = Some header \<and> SessionHeader_ValidateBasic plain_sdk header = Inr ()"
proof -
  have "case two_suppliers of Inl e \<Rightarrow> False | Inr (st, log) \<Rightarrow>
    (case HydrateSession (\<lambda>bz. ''x'' @ rev bz) (run_env st) (NewSessionHydrator ''a2'' ''svc1'' 22) of
       Inl e \<Rightarrow> False | Inr s \<Rightarrow> True)"
    by code_simp
  then obtain st s where
    s: "HydrateSession (\<lambda>bz. ''x'' @ rev bz) (run_env st) (NewSessionHydrator ''a2'' ''svc1'' 22) = Inr s"
    by (auto split: sum.splits prod.splits)
  have "shared_reachable (\<lambda>_. True) ''gov'' (1, E_Shared (run_env st))"
    using genesis_reachable by (simp add: run_env_def witness_genesis_def)
  from hydrated_header_valid_iff [OF this _ _ s, of plain_sdk]
  obtain header where h: "Session_Header s = Some header" "SessionHeader_ValidateBasic plain_sdk header = Inr ()
      \<longleftrightarrow> 1 < uint (NumBlocksPerSession (GetParamsAtHeight (E_Shared (run_env st)) 22))"
    by (auto simp: plain_sdk_def)
  have "NumBlocksPerSession (GetParamsAtHeight (E_Shared (run_env st)) 22) = 10"
    by (simp add: run_env_def witness_genesis_def GetParamsAtHeight_def kv_rev_below_def GetParams_def NewParams_def)
  then show ?thesis using s h by auto
qed

text \<open>Two updates of the session size, in the first and the third session.\<close>

definition first_sizes :: "session_state res" where
  "first_sizes = Session_UpdateParams plain_sdk ''gov'' 5 witness_genesis (''gov'', \<lparr>NumSuppliersPerSession = 7\<rparr>)
     (session_genesis_state \<lparr>NumSuppliersPerSession = 2\<rparr>)"

definition second_sizes :: "session_state \<Rightarrow> session_state res" where
  "second_sizes = Session_UpdateParams plain_sdk ''gov'' 25 witness_genesis (''gov'', \<lparr>NumSuppliersPerSession = 9\<rparr>)"

lemma sizes_params:
  "params_bounded (GetParamsAtHeight witness_genesis c)"
  "GetSessionEndHeight (GetParamsAtHeight witness_genesis 5) 5 = Inr 10"
  "GetSessionEndHeight (GetParamsAtHeight witness_genesis 25) 25 = Inr 30"
  "chain_height 5" "chain_height 25"
proof -
  show "params_bounded (GetParamsAtHeight witness_genesis c)"
    by (simp add: witness_genesis_def GetParamsAtHeight_def kv_rev_below_def GetParams_def NewParams_def
        params_bounded_def)
qed (code_simp+)

theorem first_session_params_update_rewrites_the_past_witness:
  "\<exists>st'. first_sizes = Inr st' \<and> Session_GetParamsAtHeight st' 4 = \<lparr>NumSuppliersPerSession = 7\<rparr>
    \<and> Session_GetParamsAtHeight st' 5 = \<lparr>NumSuppliersPerSession = 2\<rparr>"
proof -
  have "case first_sizes of Inl e \<Rightarrow> False | Inr st \<Rightarrow> True" by code_simp
  then obtain st' where st': "first_sizes = Inr st'" by (auto split: sum.splits)
  have e: "Session_ParamsHistory (session_genesis_state p) = []" for p by (simp add: session_genesis_state_def)
  note t = first_session_params_update_rewrites_the_past [OF e sizes_params(4,1) st' [unfolded first_sizes_def]
      sizes_params(2)]
  have "Session_GetParamsAtHeight st' 4 = \<lparr>NumSuppliersPerSession = 7\<rparr>" using t [of 4] by simp
  moreover have "Session_GetParamsAtHeight st' 5 = \<lparr>NumSuppliersPerSession = 2\<rparr>"
    using t [of 5] by (simp add: session_genesis_state_def Session_GetParams_def)
  ultimately show ?thesis using st' by blast
qed

theorem session_params_update_spares_session_in_flight_witness:
  "\<exists>st st'. first_sizes = Inr st \<and> second_sizes st = Inr st'
    \<and> Session_GetParamsAtHeight st' 21 = Session_GetParamsAtHeight st 21
    \<and> Session_GetParamsAtHeight st' 31 = \<lparr>NumSuppliersPerSession = 9\<rparr>"
proof -
  have "case first_sizes of Inl e \<Rightarrow> False | Inr st \<Rightarrow>
      Session_ParamsHistory st = [(uint64_of 5, 5, Some \<lparr>NumSuppliersPerSession = 2\<rparr>),
        (uint64_of 11, 11, Some \<lparr>NumSuppliersPerSession = 7\<rparr>)]
      \<and> (case second_sizes st of Inl e \<Rightarrow> False | Inr st' \<Rightarrow> True)"
    by code_simp
  then obtain st st' where r: "first_sizes = Inr st" "second_sizes st = Inr st'"
    and h: "Session_ParamsHistory st = [(uint64_of 5, 5, Some \<lparr>NumSuppliersPerSession = 2\<rparr>),
        (uint64_of 11, 11, Some \<lparr>NumSuppliersPerSession = 7\<rparr>)]"
    by (auto split: sum.splits)
  have "(session_step plain_sdk ''gov'')\<^sup>*\<^sup>* (session_genesis_state \<lparr>NumSuppliersPerSession = 2\<rparr>) st"
    using r(1) sizes_params by (auto simp: first_sizes_def intro: session_step.update_params)
  note t = session_params_update_spares_session_in_flight [OF this sizes_params(5,1)
      r(2) [unfolded second_sizes_def] sizes_params(3), of 11 "Some \<lparr>NumSuppliersPerSession = 7\<rparr>" 21]
  have "Session_GetParamsAtHeight st' 21 = Session_GetParamsAtHeight st 21
      \<and> Session_GetParamsAtHeight st' (30 + 1) = \<lparr>NumSuppliersPerSession = 9\<rparr>"
    by (rule t) (simp_all add: h)
  then show ?thesis using r by auto
qed

end
