(* ===== verification/ProofStore.thy ===== *)
theory ProofStore
  imports SessionClaims Complex_Main
begin

text \<open>
  The proof module's data and stores (\<open>x/proof/types\<close>, \<open>x/proof/keeper/claim.go\<close>,
  \<open>x/proof/keeper/proof.go\<close>): parameters, claims and proofs, each in a primary store keyed by
  session and supplier with an index by supplier and an index by session end height, the queries,
  genesis and the governance messages. A float64 is a rational, an infinity or a NaN.
\<close>

section \<open>Floating point values\<close>

datatype f64 = NaN | Fin rat | PosInf | NegInf

text \<open>Comparisons with a NaN are false.\<close>

fun f64_less :: "f64 \<Rightarrow> f64 \<Rightarrow> bool" where
  "f64_less NaN y = False"
| "f64_less x NaN = False"
| "f64_less (Fin a) (Fin b) = (a < b)"
| "f64_less PosInf y = False"
| "f64_less x NegInf = False"
| "f64_less NegInf y = True"
| "f64_less x PosInf = True"

fun f64_le :: "f64 \<Rightarrow> f64 \<Rightarrow> bool" where
  "f64_le NaN y = False"
| "f64_le x NaN = False"
| "f64_le x y = (\<not> f64_less y x)"

section \<open>Parameters\<close>

record proof_params =
  ProofRequestProbability :: f64
  ProofRequirementThreshold :: "coin option"
  ProofMissingPenalty :: "coin option"
  ProofSubmissionFee :: "coin option"

definition upokt :: "int \<Rightarrow> coin" where
  "upokt n = \<lparr>Denom = DenomuPOKT, Amount = n\<rparr>"

definition Proof_DefaultParams :: proof_params where
  "Proof_DefaultParams = \<lparr>ProofRequestProbability = Fin (1 / 4),
     ProofRequirementThreshold = Some (upokt 20000000),
     ProofMissingPenalty = Some (upokt 320000000), ProofSubmissionFee = Some (upokt 0)\<rparr>"

definition ValidateProofRequestProbability :: "f64 \<Rightarrow> unit res" where
  "ValidateProofRequestProbability p =
     (if f64_less p (Fin 0) \<or> f64_less (Fin 1) p then Inl (Proof ErrProofParamInvalid) else Inr ())"

definition ValidateProofRequirementThreshold :: "coin option \<Rightarrow> unit res" where
  "ValidateProofRequirementThreshold threshold =
     (case threshold of None \<Rightarrow> Inl (Proof ErrProofParamInvalid)
      | Some c \<Rightarrow> if Denom c \<noteq> DenomuPOKT then Inl (Proof ErrProofParamInvalid)
                  else if Amount c < 0 then Inl (Proof ErrProofParamInvalid) else Inr ())"

definition ValidateProofMissingPenalty :: "coin option \<Rightarrow> unit res" where
  "ValidateProofMissingPenalty penalty =
     (case penalty of None \<Rightarrow> Inl (Proof ErrProofParamInvalid)
      | Some c \<Rightarrow> if Denom c \<noteq> DenomuPOKT then Inl (Proof ErrProofParamInvalid)
                  else if Amount c < 0 then Inl (Proof ErrProofParamInvalid) else Inr ())"

definition DefaultMinProofSubmissionFee :: coin where
  "DefaultMinProofSubmissionFee = upokt 0"

definition ValidateProofSubmissionFee :: "coin option \<Rightarrow> unit res" where
  "ValidateProofSubmissionFee fee =
     (case fee of None \<Rightarrow> Inl (Proof ErrProofParamInvalid)
      | Some c \<Rightarrow> if Denom c \<noteq> DenomuPOKT then Inl (Proof ErrProofParamInvalid)
                  else if Amount c < Amount DefaultMinProofSubmissionFee
                    then Inl (Proof ErrProofParamInvalid) else Inr ())"

definition Proof_Params_ValidateBasic :: "proof_params \<Rightarrow> unit res" where
  "Proof_Params_ValidateBasic p =
     bindR (ValidateProofRequestProbability (ProofRequestProbability p)) (\<lambda>_.
     bindR (ValidateProofRequirementThreshold (ProofRequirementThreshold p)) (\<lambda>_.
     bindR (ValidateProofMissingPenalty (ProofMissingPenalty p)) (\<lambda>_.
       ValidateProofSubmissionFee (ProofSubmissionFee p))))"

section \<open>Claims and proofs\<close>

datatype claim_proof_status = PENDING_VALIDATION | VALIDATED | INVALID

record claim =
  Claim_SupplierOperatorAddress :: string
  Claim_SessionHeader :: "session_header option"
  Claim_RootHash :: string
  Claim_ProofValidationStatus :: claim_proof_status

record submitted_proof =
  Proof_SupplierOperatorAddress :: string
  Proof_SessionHeader :: "session_header option"
  Proof_ClosestMerkleProof :: string

text \<open>The generated getters of a session header return zero values on nil.\<close>

definition GetHeaderSessionId :: "session_header option \<Rightarrow> string" where
  "GetHeaderSessionId h = (case h of None \<Rightarrow> [] | Some sh \<Rightarrow> SH_SessionId sh)"

definition GetHeaderServiceId :: "session_header option \<Rightarrow> string" where
  "GetHeaderServiceId h = (case h of None \<Rightarrow> [] | Some sh \<Rightarrow> SH_ServiceId sh)"

definition GetHeaderApplicationAddress :: "session_header option \<Rightarrow> string" where
  "GetHeaderApplicationAddress h = (case h of None \<Rightarrow> [] | Some sh \<Rightarrow> SH_ApplicationAddress sh)"

definition GetHeaderStartHeight :: "session_header option \<Rightarrow> int" where
  "GetHeaderStartHeight h = (case h of None \<Rightarrow> 0 | Some sh \<Rightarrow> SH_SessionStartBlockHeight sh)"

definition GetHeaderEndHeight :: "session_header option \<Rightarrow> int" where
  "GetHeaderEndHeight h = (case h of None \<Rightarrow> 0 | Some sh \<Rightarrow> SH_SessionEndBlockHeight sh)"

lemmas header_getters = GetHeaderSessionId_def GetHeaderServiceId_def
  GetHeaderApplicationAddress_def GetHeaderStartHeight_def GetHeaderEndHeight_def

section \<open>Keys\<close>

text \<open>\<open>bytes.Join\<close> with a slash.\<close>

definition KeyComposite :: "string list \<Rightarrow> string" where
  "KeyComposite keys = concatWithDelimiter ''/'' keys"

definition ClaimPrimaryKey :: "string \<Rightarrow> string \<Rightarrow> string" where
  "ClaimPrimaryKey sessionId supplierOperatorAddr = KeyComposite [sessionId, supplierOperatorAddr]"

definition ClaimSupplierOperatorAddressKey :: "string \<Rightarrow> string \<Rightarrow> string" where
  "ClaimSupplierOperatorAddressKey supplierOperatorAddr primaryKey =
     KeyComposite [supplierOperatorAddr, primaryKey]"

definition ClaimSupplierEndSessionHeightKey :: "int \<Rightarrow> string \<Rightarrow> string" where
  "ClaimSupplierEndSessionHeightKey sessionEndHeight primaryKey =
     KeyComposite [PutUint64 sessionEndHeight, primaryKey]"

definition ProofPrimaryKey :: "string \<Rightarrow> string \<Rightarrow> string" where
  "ProofPrimaryKey sessionId supplierOperatorAddr = KeyComposite [sessionId, supplierOperatorAddr]"

definition ProofSupplierOperatorAddressKey :: "string \<Rightarrow> string \<Rightarrow> string" where
  "ProofSupplierOperatorAddressKey supplierOperatorAddr primaryKey =
     KeyComposite [supplierOperatorAddr, primaryKey]"

definition ProofSupplierEndSessionHeightKey :: "int \<Rightarrow> string \<Rightarrow> string" where
  "ProofSupplierEndSessionHeightKey sessionEndHeight primaryKey =
     KeyComposite [PutUint64 sessionEndHeight, primaryKey]"

section \<open>Stores\<close>

record proof_state =
  Claims :: "(string, claim) kv"
  ClaimAddressIndex :: "(string, string) kv"
  ClaimHeightIndex :: "(string, string) kv"
  Proofs :: "(string, submitted_proof) kv"
  ProofAddressIndex :: "(string, string) kv"
  ProofHeightIndex :: "(string, string) kv"
  Proof_ParamsStore :: "proof_params option"

definition Proof_GetParams :: "proof_state \<Rightarrow> proof_params" where
  "Proof_GetParams st =
     (case Proof_ParamsStore st of
        None \<Rightarrow> \<lparr>ProofRequestProbability = Fin 0, ProofRequirementThreshold = None,
                  ProofMissingPenalty = None, ProofSubmissionFee = None\<rparr>
      | Some p \<Rightarrow> p)"

definition Proof_SetParams :: "proof_params \<Rightarrow> proof_state \<Rightarrow> proof_state" where
  "Proof_SetParams p st = st\<lparr>Proof_ParamsStore := Some p\<rparr>"

definition claim_key :: "claim \<Rightarrow> string" where
  "claim_key c = ClaimPrimaryKey (GetHeaderSessionId (Claim_SessionHeader c))
                   (Claim_SupplierOperatorAddress c)"

definition proof_key :: "submitted_proof \<Rightarrow> string" where
  "proof_key p = ProofPrimaryKey (GetHeaderSessionId (Proof_SessionHeader p))
                   (Proof_SupplierOperatorAddress p)"

definition UpsertClaim :: "claim \<Rightarrow> proof_state \<Rightarrow> proof_state" where
  "UpsertClaim c st =
     (let primaryKey = claim_key c in
      st\<lparr>Claims := kv_set primaryKey c (Claims st),
         ClaimAddressIndex := kv_set
           (ClaimSupplierOperatorAddressKey (Claim_SupplierOperatorAddress c) primaryKey) primaryKey
           (ClaimAddressIndex st),
         ClaimHeightIndex := kv_set
           (ClaimSupplierEndSessionHeightKey (GetHeaderEndHeight (Claim_SessionHeader c)) primaryKey)
           primaryKey (ClaimHeightIndex st)\<rparr>)"

definition getClaimByPrimaryKey :: "proof_state \<Rightarrow> string \<Rightarrow> claim option" where
  "getClaimByPrimaryKey st primaryKey = map_of (Claims st) primaryKey"

definition GetClaim :: "proof_state \<Rightarrow> string \<Rightarrow> string \<Rightarrow> claim option" where
  "GetClaim st sessionId supplierOperatorAddr =
     getClaimByPrimaryKey st (ClaimPrimaryKey sessionId supplierOperatorAddr)"

definition RemoveClaim :: "string \<Rightarrow> string \<Rightarrow> proof_state \<Rightarrow> proof_state" where
  "RemoveClaim sessionId supplierOperatorAddr st =
     (let primaryKey = ClaimPrimaryKey sessionId supplierOperatorAddr in
      case getClaimByPrimaryKey st primaryKey of
        None \<Rightarrow> st
      | Some found \<Rightarrow>
          st\<lparr>Claims := kv_del primaryKey (Claims st),
             ClaimAddressIndex := kv_del
               (ClaimSupplierOperatorAddressKey (Claim_SupplierOperatorAddress found) primaryKey)
               (ClaimAddressIndex st),
             ClaimHeightIndex := kv_del
               (ClaimSupplierEndSessionHeightKey (GetHeaderEndHeight (Claim_SessionHeader found)) primaryKey)
               (ClaimHeightIndex st)\<rparr>)"

text \<open>The iterator over the height index: each entry with the claim its primary key leads to, or
  an error when there is none.\<close>

definition GetSessionEndHeightClaimsIterator :: "proof_state \<Rightarrow> int \<Rightarrow> (string \<times> claim res) list" where
  "GetSessionEndHeightClaimsIterator st sessionEndHeight =
     map (\<lambda>(k, primaryKey). (k, case map_of (Claims st) primaryKey of
            None \<Rightarrow> Inl ErrFmt | Some c \<Rightarrow> Inr c))
       (kv_prefix (ClaimSupplierEndSessionHeightKey sessionEndHeight []) (ClaimHeightIndex st))"

definition GetAllClaims :: "proof_state \<Rightarrow> claim list" where
  "GetAllClaims st = map snd (Claims st)"

definition UpsertProof :: "submitted_proof \<Rightarrow> proof_state \<Rightarrow> proof_state" where
  "UpsertProof p st =
     (let primaryKey = proof_key p in
      st\<lparr>Proofs := kv_set primaryKey p (Proofs st),
         ProofAddressIndex := kv_set
           (ProofSupplierOperatorAddressKey (Proof_SupplierOperatorAddress p) primaryKey) primaryKey
           (ProofAddressIndex st),
         ProofHeightIndex := kv_set
           (ProofSupplierEndSessionHeightKey (GetHeaderEndHeight (Proof_SessionHeader p)) primaryKey)
           primaryKey (ProofHeightIndex st)\<rparr>)"

definition getProofByPrimaryKey :: "proof_state \<Rightarrow> string \<Rightarrow> submitted_proof option" where
  "getProofByPrimaryKey st primaryKey = map_of (Proofs st) primaryKey"

definition GetProof :: "proof_state \<Rightarrow> string \<Rightarrow> string \<Rightarrow> submitted_proof option" where
  "GetProof st sessionId supplierOperatorAddr =
     getProofByPrimaryKey st (ProofPrimaryKey sessionId supplierOperatorAddr)"

definition RemoveProof :: "string \<Rightarrow> string \<Rightarrow> proof_state \<Rightarrow> proof_state" where
  "RemoveProof sessionId supplierOperatorAddr st =
     (let primaryKey = ProofPrimaryKey sessionId supplierOperatorAddr in
      case getProofByPrimaryKey st primaryKey of
        None \<Rightarrow> st
      | Some found \<Rightarrow>
          st\<lparr>Proofs := kv_del primaryKey (Proofs st),
             ProofAddressIndex := kv_del
               (ProofSupplierOperatorAddressKey (Proof_SupplierOperatorAddress found) primaryKey)
               (ProofAddressIndex st),
             ProofHeightIndex := kv_del
               (ProofSupplierEndSessionHeightKey (GetHeaderEndHeight (Proof_SessionHeader found)) primaryKey)
               (ProofHeightIndex st)\<rparr>)"

definition GetAllProofs :: "proof_state \<Rightarrow> submitted_proof list" where
  "GetAllProofs st = map snd (Proofs st)"

section \<open>Queries\<close>

text \<open>The filters of the list queries. \<open>query.Paginate\<close> picks the page among the entries of
  the store, an argument here.\<close>

datatype claim_filter =
    BySupplier string
  | BySessionEndHeight u64
  | BySessionId string
  | NoFilter

type_synonym pager = "(string \<times> string) list \<Rightarrow> (string \<times> string) list"

definition QueryAll_ValidateBasic :: "sdk \<Rightarrow> claim_filter \<Rightarrow> unit res" where
  "QueryAll_ValidateBasic sdk flt =
     (case flt of
        BySupplier a \<Rightarrow> if isBech32 sdk a then Inr () else Inl (Proof ErrProofInvalidAddress)
      | BySessionId i \<Rightarrow> if i = [] then Inl (Proof ErrProofInvalidSessionId) else Inr ()
      | _ \<Rightarrow> Inr ())"

text \<open>The primary keys a page of entries leads to: the values of an index, the keys of the
  primary store.\<close>

definition index_page :: "pager \<Rightarrow> string \<Rightarrow> (string, string) kv \<Rightarrow> string list" where
  "index_page page p idx = map snd (page (kv_prefix p idx))"

definition primary_page :: "pager \<Rightarrow> string \<Rightarrow> (string, 'v) kv \<Rightarrow> string list" where
  "primary_page page p s = map fst (page (map (\<lambda>(k, v). (k, k)) (kv_prefix p s)))"

definition AllClaims :: "pager \<Rightarrow> proof_state \<Rightarrow> claim_filter option \<Rightarrow> claim list res" where
  "AllClaims page st req =
     (case req of None \<Rightarrow> Inl (Status InvalidArgument ErrFmt)
      | Some flt \<Rightarrow>
          Inr (List.map_filter (getClaimByPrimaryKey st)
            (case flt of
               BySupplier a \<Rightarrow> index_page page a (ClaimAddressIndex st)
             | BySessionEndHeight h \<Rightarrow> index_page page (PutUint64 (uint h)) (ClaimHeightIndex st)
             | BySessionId i \<Rightarrow> primary_page page i (Claims st)
             | NoFilter \<Rightarrow> primary_page page [] (Claims st))))"

text \<open>The height filter of proofs is the decimal text of the height.\<close>

definition AllProofs :: "sdk \<Rightarrow> pager \<Rightarrow> proof_state \<Rightarrow> claim_filter option \<Rightarrow> submitted_proof list res" where
  "AllProofs sdk page st req =
     (case req of None \<Rightarrow> Inl (Status InvalidArgument ErrFmt)
      | Some flt \<Rightarrow>
          bindR (mapErr (Status InvalidArgument) (QueryAll_ValidateBasic sdk flt)) (\<lambda>_.
          Inr (List.map_filter (getProofByPrimaryKey st)
            (case flt of
               BySupplier a \<Rightarrow> index_page page a (ProofAddressIndex st)
             | BySessionEndHeight h \<Rightarrow> index_page page (int_decimal (uint h)) (ProofHeightIndex st)
             | BySessionId i \<Rightarrow> primary_page page i (Proofs st)
             | NoFilter \<Rightarrow> primary_page page [] (Proofs st)))))"

text \<open>The single queries, on a session identifier and a supplier.\<close>

definition QueryGet_ValidateBasic :: "sdk \<Rightarrow> string \<times> string \<Rightarrow> unit res" where
  "QueryGet_ValidateBasic sdk = (\<lambda>(sessionId, supplierOperatorAddress).
     if \<not> isBech32 sdk supplierOperatorAddress then Inl (Proof ErrProofInvalidAddress)
     else if sessionId = [] then Inl (Proof ErrProofInvalidSessionId)
     else Inr ())"

definition Query_Claim :: "sdk \<Rightarrow> proof_state \<Rightarrow> (string \<times> string) option \<Rightarrow> claim res" where
  "Query_Claim sdk st req =
     (case req of None \<Rightarrow> Inl (Status InvalidArgument (Proof ErrProofInvalidQueryRequest))
      | Some r \<Rightarrow>
          bindR (mapErr (Status InvalidArgument) (QueryGet_ValidateBasic sdk r)) (\<lambda>_.
          case GetClaim st (fst r) (snd r) of
            None \<Rightarrow> Inl (Status NotFound (Proof ErrProofClaimNotFound))
          | Some c \<Rightarrow> Inr c))"

definition Query_Proof :: "sdk \<Rightarrow> proof_state \<Rightarrow> (string \<times> string) option \<Rightarrow> submitted_proof res" where
  "Query_Proof sdk st req =
     (case req of None \<Rightarrow> Inl (Status InvalidArgument (Proof ErrProofInvalidQueryRequest))
      | Some r \<Rightarrow>
          bindR (mapErr (Status InvalidArgument) (QueryGet_ValidateBasic sdk r)) (\<lambda>_.
          case GetProof st (fst r) (snd r) of
            None \<Rightarrow> Inl (Status NotFound (Proof ErrProofProofNotFound))
          | Some p \<Rightarrow> Inr p))"

section \<open>Governance messages\<close>

datatype proof_param_value = PP_Bytes string | PP_Coin "coin option" | PP_Float f64

record msg_proof_update_param =
  MPUP_Authority :: string
  MPUP_Name :: string
  MPUP_AsType :: "proof_param_value option"

definition GetAsFloat :: "proof_param_value option \<Rightarrow> f64" where
  "GetAsFloat v = (case v of Some (PP_Float x) \<Rightarrow> x | _ \<Rightarrow> Fin 0)"

definition GetAsCoin :: "proof_param_value option \<Rightarrow> coin option" where
  "GetAsCoin v = (case v of Some (PP_Coin c) \<Rightarrow> c | _ \<Rightarrow> None)"

definition paramTypeIsFloat :: "proof_param_value option \<Rightarrow> unit res" where
  "paramTypeIsFloat v = (case v of Some (PP_Float x) \<Rightarrow> Inr () | _ \<Rightarrow> Inl (Proof ErrProofParamInvalid))"

definition paramTypeIsCoin :: "proof_param_value option \<Rightarrow> unit res" where
  "paramTypeIsCoin v = (case v of Some (PP_Coin c) \<Rightarrow> Inr () | _ \<Rightarrow> Inl (Proof ErrProofParamInvalid))"

definition MsgProofUpdateParam_ValidateBasic :: "sdk \<Rightarrow> msg_proof_update_param \<Rightarrow> unit res" where
  "MsgProofUpdateParam_ValidateBasic sdk msg =
     (let v = MPUP_AsType msg; name = MPUP_Name msg in
      if \<not> isBech32 sdk (MPUP_Authority msg) then Inl (Proof ErrProofInvalidAddress)
      else if v = None then Inl (Proof ErrProofParamInvalid)
      else if name = ''proof_request_probability''
        then bindR (paramTypeIsFloat v) (\<lambda>_. ValidateProofRequestProbability (GetAsFloat v))
      else if name = ''proof_requirement_threshold''
        then bindR (paramTypeIsCoin v) (\<lambda>_. ValidateProofRequirementThreshold (GetAsCoin v))
      else if name = ''proof_missing_penalty''
        then bindR (paramTypeIsCoin v) (\<lambda>_. ValidateProofMissingPenalty (GetAsCoin v))
      else if name = ''proof_submission_fee''
        then bindR (paramTypeIsCoin v) (\<lambda>_. ValidateProofSubmissionFee (GetAsCoin v))
      else Inl (Proof ErrProofParamNameInvalid))"

definition Proof_patch_param :: "string \<Rightarrow> proof_param_value option \<Rightarrow> proof_params \<Rightarrow> proof_params option" where
  "Proof_patch_param name v p =
     (if name = ''proof_request_probability'' then Some (p\<lparr>ProofRequestProbability := GetAsFloat v\<rparr>)
      else if name = ''proof_requirement_threshold'' then Some (p\<lparr>ProofRequirementThreshold := GetAsCoin v\<rparr>)
      else if name = ''proof_missing_penalty'' then Some (p\<lparr>ProofMissingPenalty := GetAsCoin v\<rparr>)
      else if name = ''proof_submission_fee'' then Some (p\<lparr>ProofSubmissionFee := GetAsCoin v\<rparr>)
      else None)"

definition Proof_UpdateParam ::
    "sdk \<Rightarrow> string \<Rightarrow> msg_proof_update_param \<Rightarrow> proof_state \<Rightarrow> proof_state res" where
  "Proof_UpdateParam sdk authority msg st =
     bindR (mapErr (Status InvalidArgument) (MsgProofUpdateParam_ValidateBasic sdk msg)) (\<lambda>_.
     if authority \<noteq> MPUP_Authority msg then Inl (Status InvalidArgument (Proof ErrProofInvalidSigner))
     else case Proof_patch_param (MPUP_Name msg) (MPUP_AsType msg) (Proof_GetParams st) of
       None \<Rightarrow> Inl (Status InvalidArgument (Proof ErrProofParamInvalid))
     | Some params \<Rightarrow>
         bindR (mapErr (Status InvalidArgument) (Proof_Params_ValidateBasic params)) (\<lambda>_.
         Inr (Proof_SetParams params st)))"

definition Proof_UpdateParams ::
    "sdk \<Rightarrow> string \<Rightarrow> string \<times> proof_params \<Rightarrow> proof_state \<Rightarrow> proof_state res" where
  "Proof_UpdateParams sdk authority = (\<lambda>(msgAuthority, params) st.
     if \<not> isBech32 sdk msgAuthority then Inl (Status InvalidArgument (Proof ErrProofInvalidAddress))
     else bindR (mapErr (Status InvalidArgument) (Proof_Params_ValidateBasic params)) (\<lambda>_.
     if authority \<noteq> msgAuthority then Inl (Status PermissionDenied (Proof ErrProofInvalidSigner))
     else Inr (Proof_SetParams params st)))"

section \<open>Genesis\<close>

record proof_genesis =
  GP_Params :: proof_params
  GP_ClaimList :: "claim list"
  GP_ProofList :: "submitted_proof list"

definition Proof_GenesisState_Validate :: "proof_genesis \<Rightarrow> unit res" where
  "Proof_GenesisState_Validate gs =
     bindR (foldR (\<lambda>seen c. if Claim_RootHash c = [] then Inl ErrFmt
                   else if claim_key c \<in> set seen then Inl ErrFmt
                   else Inr (claim_key c # seen)) [] (GP_ClaimList gs)) (\<lambda>_.
     bindR (foldR (\<lambda>seen p. if proof_key p \<in> set seen then Inl ErrFmt
                   else Inr (proof_key p # seen)) [] (GP_ProofList gs)) (\<lambda>_.
       Proof_Params_ValidateBasic (GP_Params gs)))"

definition Proof_InitGenesis :: "proof_genesis \<Rightarrow> proof_state \<Rightarrow> proof_state" where
  "Proof_InitGenesis gs st =
     Proof_SetParams (GP_Params gs)
       (fold UpsertProof (GP_ProofList gs) (fold UpsertClaim (GP_ClaimList gs) st))"

definition Proof_ExportGenesis :: "proof_state \<Rightarrow> proof_genesis" where
  "Proof_ExportGenesis st =
     \<lparr>GP_Params = Proof_GetParams st, GP_ClaimList = GetAllClaims st, GP_ProofList = GetAllProofs st\<rparr>"

end
