(* ===== verification/ProofAmounts.thy ===== *)
theory ProofAmounts
  imports ProofStore
begin

text \<open>
  What a claim is worth and whether it needs a proof (\<open>x/proof/types/claim.go\<close>, the
  requirement check of \<open>x/proof/keeper/msg_server_submit_proof.go\<close>, \<open>pkg/crypto/rand\<close>).
  The sum and count of a Merkle sum root, SHA-256, the wire format of a claim and Go's seeded
  generator are arguments. Rationals are numerator and denominator; \<open>div\<close> on them rounds
  down as \<open>big.Int.Div\<close> does on a normalised \<open>big.Rat\<close>.
\<close>

section \<open>Code outside the repository\<close>

record claim_deps =
  rootSum :: "string \<Rightarrow> u64 res"
  rootCount :: "string \<Rightarrow> u64 res"
  sha256 :: "string \<Rightarrow> string"
  marshalClaim :: "claim \<Rightarrow> string res"
  randFloat64 :: "int \<Rightarrow> f64"

section \<open>Relays and compute units\<close>

text \<open>\<open>big.Rat.Inv\<close> panics on zero.\<close>

definition GetRelayDifficultyProbability :: "string \<Rightarrow> int \<times> int" where
  "GetRelayDifficultyProbability relayDifficultyHash =
     (int (bytesToBigInt relayDifficultyHash), int (bytesToBigInt BaseRelayDifficultyHashBz))"

definition GetRelayDifficultyMultiplier :: "string \<Rightarrow> (int \<times> int) res" where
  "GetRelayDifficultyMultiplier relayDifficultyHash =
     (case GetRelayDifficultyProbability relayDifficultyHash of (num, den) \<Rightarrow>
        if num = 0 then Inl Panic else Inr (den, num))"

definition GetNumClaimedComputeUnits :: "claim_deps \<Rightarrow> claim \<Rightarrow> u64 res" where
  "GetNumClaimedComputeUnits ext c = rootSum ext (Claim_RootHash c)"

definition GetNumRelays :: "claim_deps \<Rightarrow> claim \<Rightarrow> u64 res" where
  "GetNumRelays ext c = rootCount ext (Claim_RootHash c)"

definition getNumEstimatedComputeUnitsRat ::
    "claim_deps \<Rightarrow> claim \<Rightarrow> relay_mining_difficulty \<Rightarrow> (int \<times> int) res" where
  "getNumEstimatedComputeUnitsRat ext c difficulty =
     (if GetHeaderServiceId (Claim_SessionHeader c) \<noteq> RMD_ServiceId difficulty
        then Inl (Proof ErrProofInvalidRelayDifficulty)
      else bindR (GetNumClaimedComputeUnits ext c) (\<lambda>numComputeUnits.
           bindR (GetRelayDifficultyMultiplier (TargetHash difficulty)) (\<lambda>(num, den).
           Inr (num * uint numComputeUnits, den))))"

text \<open>\<open>big.Int.Uint64\<close> keeps the low 64 bits.\<close>

definition GetNumEstimatedComputeUnits ::
    "claim_deps \<Rightarrow> claim \<Rightarrow> relay_mining_difficulty \<Rightarrow> u64 res" where
  "GetNumEstimatedComputeUnits ext c difficulty =
     bindR (getNumEstimatedComputeUnitsRat ext c difficulty) (\<lambda>(num, den).
       Inr (word_of_int (num div den)))"

definition GetNumEstimatedRelays ::
    "claim_deps \<Rightarrow> claim \<Rightarrow> relay_mining_difficulty \<Rightarrow> u64 res" where
  "GetNumEstimatedRelays ext c difficulty =
     bindR (GetNumRelays ext c) (\<lambda>numRelays.
     if numRelays = 0 then Inr 0
     else bindR (GetNumClaimedComputeUnits ext c) (\<lambda>numClaimedComputeUnits.
       let computeUnitsPerRelay = numClaimedComputeUnits div numRelays
       in if computeUnitsPerRelay = 0 then Inr 0
          else bindR (GetNumEstimatedComputeUnits ext c difficulty) (\<lambda>numEstimatedComputeUnits.
            Inr (numEstimatedComputeUnits div computeUnitsPerRelay))))"

section \<open>The claimed amount\<close>

text \<open>\<open>big.Rat.SetFrac64\<close> panics on a zero denominator; \<open>math.NewIntFromBigInt\<close>
  panics above 256 bits.\<close>

definition GetClaimeduPOKT ::
    "claim_deps \<Rightarrow> claim \<Rightarrow> shared_params \<Rightarrow> relay_mining_difficulty \<Rightarrow> coin res" where
  "GetClaimeduPOKT ext c sharedParams difficulty =
     bindR (getNumEstimatedComputeUnitsRat ext c difficulty) (\<lambda>(num, den).
     let multiplier = int64_of (ComputeUnitsToTokensMultiplier sharedParams);
         granularity = int64_of (ComputeUnitCostGranularity sharedParams)
     in if granularity = 0 then Inl Panic
        else let upoktAmount = (num * multiplier) div (den * granularity)
             in if upoktAmount < 0 then Inl (Proof ErrProofInvalidClaimedAmount)
                else if 2 ^ 256 \<le> upoktAmount then Inl Panic
                else Inr (upokt upoktAmount))"

section \<open>Sampling\<close>

text \<open>\<open>binary.Varint\<close>: little-endian groups of seven bits, at most ten bytes, then zigzag.
  An unterminated or overlong value reads as 0.\<close>

fun Uvarint_from :: "nat \<Rightarrow> int \<Rightarrow> string \<Rightarrow> int" where
  "Uvarint_from i x [] = 0"
| "Uvarint_from i x (b # bs) =
     (if i = 10 then 0
      else if (of_char b :: int) < 128 then
        (if i = 9 \<and> (of_char b :: int) > 1 then 0 else x + of_char b * 2 ^ (7 * i))
      else Uvarint_from (Suc i) (x + (of_char b mod 128) * 2 ^ (7 * i)) bs)"

definition Varint :: "string \<Rightarrow> int" where
  "Varint bz = (let ux = Uvarint_from 0 0 bz in if odd ux then - (ux div 2) - 1 else ux div 2)"

definition SeededFloat64 :: "claim_deps \<Rightarrow> string list \<Rightarrow> f64" where
  "SeededFloat64 ext seedParts = randFloat64 ext (Varint (sha256 ext (concat seedParts)))"

definition Claim_GetHash :: "claim_deps \<Rightarrow> claim \<Rightarrow> string res" where
  "Claim_GetHash ext c = bindR (marshalClaim ext c) (\<lambda>claimBz. Inr (sha256 ext claimBz))"

definition GetProofRequirementSampleValue :: "claim_deps \<Rightarrow> claim \<Rightarrow> string \<Rightarrow> f64 res" where
  "GetProofRequirementSampleValue ext c proofRequirementSeedBlockHash =
     bindR (Claim_GetHash ext c) (\<lambda>claimHash.
       Inr (SeededFloat64 ext [claimHash @ proofRequirementSeedBlockHash]))"

section \<open>Is a proof required?\<close>

datatype proof_requirement = NOT_REQUIRED | PROBABILISTIC | THRESHOLD

text \<open>The claim and proof modules' queriers resolve the shared parameters at the session's end.\<close>

definition Querier_GetEarliestSupplierClaimCommitHeight :: "shared_state \<Rightarrow> int \<Rightarrow> string \<Rightarrow> int res" where
  "Querier_GetEarliestSupplierClaimCommitHeight sh queryHeight supplierOperatorAddr =
     GetEarliestSupplierClaimCommitHeight (GetParamsAtHeight sh queryHeight) queryHeight [] supplierOperatorAddr"

definition Querier_GetEarliestSupplierProofCommitHeight :: "shared_state \<Rightarrow> int \<Rightarrow> string \<Rightarrow> int res" where
  "Querier_GetEarliestSupplierProofCommitHeight sh queryHeight supplierOperatorAddr =
     GetEarliestSupplierProofCommitHeight (GetParamsAtHeight sh queryHeight) queryHeight [] supplierOperatorAddr"

definition getProofRequirementSeedBlockHash ::
    "shared_state \<Rightarrow> session_state \<Rightarrow> claim \<Rightarrow> string res" where
  "getProofRequirementSeedBlockHash sh ss c =
     (let sessionEndHeight = GetHeaderEndHeight (Claim_SessionHeader c)
      in bindR (GetEarliestSupplierProofCommitHeight (GetParamsAtHeight sh sessionEndHeight)
                  sessionEndHeight [] (Claim_SupplierOperatorAddress c)) (\<lambda>h.
         Inr (GetBlockHash ss (i64 (h - 1)))))"

text \<open>The deferred telemetry call dereferences the claim's session header.\<close>

definition ProofRequirementForClaim ::
    "claim_deps \<Rightarrow> shared_state \<Rightarrow> service_state \<Rightarrow> session_state \<Rightarrow> proof_params \<Rightarrow> claim
     \<Rightarrow> proof_requirement res" where
  "ProofRequirementForClaim ext sh svc ss proofParams c =
     (if Claim_SessionHeader c = None then Inl Panic
      else let serviceId = GetHeaderServiceId (Claim_SessionHeader c);
          sessionStartHeight = GetHeaderStartHeight (Claim_SessionHeader c);
          sharedParams = GetParamsAtHeight sh sessionStartHeight
      in bindR (GetRelayMiningDifficultyAtHeight svc serviceId sessionStartHeight) (\<lambda>difficulty.
         bindR (GetClaimeduPOKT ext c sharedParams difficulty) (\<lambda>claimeduPOKT.
         case ProofRequirementThreshold proofParams of
           None \<Rightarrow> Inl Panic
         | Some threshold \<Rightarrow>
             if Amount claimeduPOKT \<ge> Amount threshold then Inr THRESHOLD
             else bindR (getProofRequirementSeedBlockHash sh ss c) (\<lambda>seedBlockHash.
                  bindR (GetProofRequirementSampleValue ext c seedBlockHash) (\<lambda>sample.
                  if f64_le sample (ProofRequestProbability proofParams)
                  then Inr PROBABILISTIC else Inr NOT_REQUIRED)))))"

end
