(* ===== verification/RelayRings.thy ===== *)
theory RelayRings
  imports ProofAmounts
begin

text \<open>
  Relays and their signatures (\<open>x/service/types/relay.go\<close>, \<open>pkg/crypto/rings\<close>,
  \<open>x/proof/types/account_query_client.go\<close>): the basic validation of requests and responses,
  the ring of an application at a session's end, and the verification of a request against it and of
  a response against the supplier's key. Curves, ring signatures and the wire format are arguments.
\<close>

section \<open>Relays\<close>

record relay_miner_error =
  RME_Codespace :: string
  RME_Code :: "32 word"
  RME_Description :: string
  RME_Message :: string

record relay_request =
  RReq_SessionHeader :: "session_header option"
  RReq_Signature :: string
  RReq_SupplierOperatorAddress :: string
  RReq_Payload :: string

record relay_response =
  RRes_SessionHeader :: "session_header option"
  RRes_SupplierOperatorSignature :: string
  RRes_Payload :: string
  RRes_PayloadHash :: "string option"
  RRes_RelayMinerError :: "relay_miner_error option"

record relay =
  Relay_Req :: "relay_request option"
  Relay_Res :: "relay_response option"

text \<open>A nil request or response has zero metadata.\<close>

definition RelayRequest_ValidateBasic :: "sdk \<Rightarrow> relay_request option \<Rightarrow> unit res" where
  "RelayRequest_ValidateBasic sdk req =
     (case req of None \<Rightarrow> Inl (Service ErrServiceInvalidRelayRequest)
      | Some r \<Rightarrow>
         (case RReq_SessionHeader r of None \<Rightarrow> Inl (Service ErrServiceInvalidRelayRequest)
          | Some h \<Rightarrow>
              bindR (mapErr (\<lambda>_. Service ErrServiceInvalidRelayRequest) (SessionHeader_ValidateBasic sdk h)) (\<lambda>_.
              if length (RReq_Signature r) = 0 then Inl (Service ErrServiceInvalidRelayRequest)
              else if RReq_SupplierOperatorAddress r = [] then Inl (Service ErrServiceInvalidRelayRequest)
              else Inr ())))"

definition RelayResponse_ValidateBasic :: "sdk \<Rightarrow> relay_response option \<Rightarrow> unit res" where
  "RelayResponse_ValidateBasic sdk res =
     (case res of None \<Rightarrow> Inl (Service ErrServiceInvalidRelayResponse)
      | Some r \<Rightarrow>
         (case RRes_SessionHeader r of None \<Rightarrow> Inl (Service ErrServiceInvalidRelayResponse)
          | Some h \<Rightarrow>
              bindR (mapErr (\<lambda>_. Service ErrServiceInvalidRelayResponse) (SessionHeader_ValidateBasic sdk h)) (\<lambda>_.
              if length (RRes_SupplierOperatorSignature r) = 0 then Inl (Service ErrServiceInvalidRelayResponse)
              else Inr ())))"

section \<open>Code outside the repository\<close>

text \<open>Accounts, public keys and ring signatures, the wire format of relay messages.
  \<open>accountOf\<close> is the account keeper: \<open>None\<close> is no account, \<open>Some None\<close> an account without a
  public key. Deserialised signatures have type \<open>'r\<close>.\<close>

record pub_key =
  IsSecp256k1 :: bool
  KeyBytes :: string

record 'r relay_deps =
  accountOf :: "string \<Rightarrow> pub_key option option"
  decodeToPoint :: "string \<Rightarrow> string res"
  deserializeRingSig :: "string \<Rightarrow> 'r res"
  ringSigPublicKeys :: "'r \<Rightarrow> string list"
  ringSigVerify :: "'r \<Rightarrow> string \<Rightarrow> bool"
  verifySignature :: "pub_key \<Rightarrow> string \<Rightarrow> string \<Rightarrow> bool"
  marshalRequest :: "relay_request \<Rightarrow> string res"
  marshalResponse :: "relay_response \<Rightarrow> string res"
  relayHash :: "string \<Rightarrow> string"
  PlaceholderRingAddress :: string
  PlaceholderRingPubKey :: pub_key

definition RelayRequest_GetSignableBytesHash :: "'r relay_deps \<Rightarrow> relay_request \<Rightarrow> string res" where
  "RelayRequest_GetSignableBytesHash rx req =
     bindR (marshalRequest rx (req\<lparr>RReq_Signature := []\<rparr>)) (\<lambda>requestBz. Inr (relayHash rx requestBz))"

definition RelayResponse_GetSignableBytesHash :: "'r relay_deps \<Rightarrow> relay_response \<Rightarrow> string res" where
  "RelayResponse_GetSignableBytesHash rx res =
     (let res1 = res\<lparr>RRes_SupplierOperatorSignature := []\<rparr>;
          res2 = (if RRes_PayloadHash res1 \<noteq> None then res1\<lparr>RRes_Payload := []\<rparr> else res1)
      in bindR (marshalResponse rx res2) (\<lambda>responseBz. Inr (relayHash rx responseBz)))"

text \<open>A nil response is dereferenced.\<close>

definition VerifySupplierOperatorSignature ::
    "'r relay_deps \<Rightarrow> relay_response option \<Rightarrow> pub_key \<Rightarrow> unit res" where
  "VerifySupplierOperatorSignature rx res supplierOperatorPubKey =
     (case res of None \<Rightarrow> Inl Panic
      | Some r \<Rightarrow>
          bindR (RelayResponse_GetSignableBytesHash rx r) (\<lambda>signableBz.
          if \<not> verifySignature rx supplierOperatorPubKey signableBz (RRes_SupplierOperatorSignature r)
          then Inl (Service ErrServiceInvalidRelayResponse) else Inr ()))"

definition UpdatePayloadHash :: "'r relay_deps \<Rightarrow> relay_response \<Rightarrow> relay_response res" where
  "UpdatePayloadHash rx res =
     (if length (RRes_Payload res) = 0 then Inl (Service ErrServiceInvalidRelayResponse)
      else Inr (res\<lparr>RRes_PayloadHash := Some (relayHash rx (RRes_Payload res))\<rparr>))"

definition GetPubKeyFromAddress :: "sdk \<Rightarrow> 'r relay_deps \<Rightarrow> string \<Rightarrow> pub_key res" where
  "GetPubKeyFromAddress sdk rx address =
     (if \<not> isBech32 sdk address then Inl ErrExt
      else case accountOf rx address of
        None \<Rightarrow> Inl (Proof ErrProofAccNotFound)
      | Some None \<Rightarrow> Inl (Proof ErrProofPubKeyNotFound)
      | Some (Some k) \<Rightarrow> Inr k)"

section \<open>The ring of an application\<close>

text \<open>The gateways undelegated at or after the target height are added back, each once. The
  pending undelegations are a Go map; the order is that of the heights here, and the addresses are
  sorted afterwards.\<close>

definition ring_add_back :: "string list \<times> string list \<Rightarrow> string \<Rightarrow> string list \<times> string list" where
  "ring_add_back = (\<lambda>(active, added) g.
     if g \<in> set added then (active, added) else (active @ [g], g # added))"

definition GetRingAddressesAtSessionEndHeight :: "application \<Rightarrow> u64 \<Rightarrow> string list" where
  "GetRingAddressesAtSessionEndHeight app targetSessionEndHeight =
     fst (foldl (\<lambda>acc (h, gateways). if h < targetSessionEndHeight then acc
                  else foldl ring_add_back acc gateways)
            (DelegateeGatewayAddresses app, []) (PendingUndelegations app))"

definition GetRingAddressesAtBlock :: "shared_params \<Rightarrow> application \<Rightarrow> int \<Rightarrow> string list res" where
  "GetRingAddressesAtBlock sharedParams app atHeight =
     bindR (GetSessionEndHeight sharedParams atHeight) (\<lambda>targetSessionEndHeight.
       Inr (GetRingAddressesAtSessionEndHeight app (uint64_of targetSessionEndHeight)))"

definition addressesToPubKeys :: "sdk \<Rightarrow> 'r relay_deps \<Rightarrow> string list \<Rightarrow> pub_key list res" where
  "addressesToPubKeys sdk rx addresses =
     foldR (\<lambda>ks a. if a = PlaceholderRingAddress rx then Inr (ks @ [PlaceholderRingPubKey rx])
              else bindR (GetPubKeyFromAddress sdk rx a) (\<lambda>k. Inr (ks @ [k]))) [] addresses"

text \<open>The ring client reads the live shared parameters.\<close>

definition getRingPubKeysForAddress ::
    "sdk \<Rightarrow> 'r relay_deps \<Rightarrow> shared_state \<Rightarrow> app_state \<Rightarrow> string \<Rightarrow> int \<Rightarrow> pub_key list res" where
  "getRingPubKeysForAddress sdk rx sh apps appAddress atHeight =
     (case GetApplication apps appAddress of None \<Rightarrow> Inl (Proof ErrProofApplicationNotFound)
      | Some app \<Rightarrow>
          bindR (GetRingAddressesAtBlock (GetParams sh) app atHeight) (\<lambda>gateways.
          let delegatees = (if length gateways = 0 then [PlaceholderRingAddress rx] else gateways)
          in addressesToPubKeys sdk rx (sort (appAddress # delegatees))))"

definition pointsFromPublicKeys :: "'r relay_deps \<Rightarrow> pub_key list \<Rightarrow> string list res" where
  "pointsFromPublicKeys rx publicKeys =
     foldR (\<lambda>ps k. if \<not> IsSecp256k1 k then Inl (Rings ErrRingsNotSecp256k1Curve)
              else bindR (decodeToPoint rx (KeyBytes k)) (\<lambda>p. Inr (ps @ [p]))) [] publicKeys"

definition getRingPointsForAddressAtHeight ::
    "sdk \<Rightarrow> 'r relay_deps \<Rightarrow> shared_state \<Rightarrow> app_state \<Rightarrow> string \<Rightarrow> int \<Rightarrow> string list res" where
  "getRingPointsForAddressAtHeight sdk rx sh apps appAddress atHeight =
     bindR (getRingPubKeysForAddress sdk rx sh apps appAddress atHeight) (\<lambda>ringPubKeys.
       pointsFromPublicKeys rx ringPubKeys)"

definition ringPointsContain :: "'r relay_deps \<Rightarrow> string list \<Rightarrow> 'r \<Rightarrow> bool" where
  "ringPointsContain rx ringPoints ringSig \<longleftrightarrow>
     list_all (\<lambda>k. k \<in> set ringPoints) (ringSigPublicKeys rx ringSig)"

text \<open>A nil request has zero metadata, and a nil header is dereferenced. An absent signature and an
  empty one are not told apart.\<close>

definition VerifyRelayRequestSignature ::
    "sdk \<Rightarrow> 'r relay_deps \<Rightarrow> shared_state \<Rightarrow> app_state \<Rightarrow> relay_request option \<Rightarrow> unit res" where
  "VerifyRelayRequestSignature sdk rx sh apps req =
     (case req of None \<Rightarrow> Inl Panic
      | Some r \<Rightarrow>
     (case RReq_SessionHeader r of None \<Rightarrow> Inl Panic
      | Some header \<Rightarrow>
         bindR (mapErr (\<lambda>_. Rings ErrRingClientInvalidRelayRequest) (SessionHeader_ValidateBasic sdk header)) (\<lambda>_.
         if RReq_Signature r = [] then Inl (Rings ErrRingClientInvalidRelayRequest)
         else
         bindR (mapErr (\<lambda>_. Rings ErrRingClientInvalidRelayRequestSignature)
                  (deserializeRingSig rx (RReq_Signature r))) (\<lambda>ringSig.
         bindR (mapErr (\<lambda>_. Rings ErrRingClientInvalidRelayRequest)
                  (getRingPointsForAddressAtHeight sdk rx sh apps (SH_ApplicationAddress header)
                     (SH_SessionEndBlockHeight header))) (\<lambda>points.
         if \<not> ringPointsContain rx points ringSig
           then Inl (Rings ErrRingClientInvalidRelayRequestSignature)
         else
         bindR (mapErr (\<lambda>_. Rings ErrRingClientInvalidRelayRequest)
                  (RelayRequest_GetSignableBytesHash rx r)) (\<lambda>signableBz.
         if \<not> ringSigVerify rx ringSig signableBz
           then Inl (Rings ErrRingClientInvalidRelayRequestSignature)
         else Inr ()))))))"

end
