(* ===== verification/ProofHandlers.thy ===== *)
theory ProofHandlers
  imports RelayRings
begin

text \<open>
  The proof module's messages (\<open>x/proof/keeper/session.go\<close>, \<open>service.go\<close>,
  \<open>msg_server_create_claim.go\<close>, \<open>msg_server_submit_proof.go\<close>,
  \<open>proof_validation.go\<close>): creating a claim and submitting a proof, with every check they make
  against the session, the windows, the Merkle root, the relay and the difficulty. The events are
  part of the result.
\<close>

section \<open>What a message reads\<close>

record proof_env =
  PE_Session :: session_env
  PE_Service :: service_state

abbreviation env_shared :: "proof_env \<Rightarrow> shared_state" where
  "env_shared env \<equiv> E_Shared (PE_Session env)"

abbreviation env_height :: "proof_env \<Rightarrow> int" where
  "env_height env \<equiv> E_Height (PE_Session env)"

definition TrieRootSize :: nat where "TrieRootSize = 48"

definition RelayHasherSize :: nat where "RelayHasherSize = 32"

section \<open>Sessions and windows\<close>

definition foundSupplier :: "supplier list \<Rightarrow> string \<Rightarrow> bool" where
  "foundSupplier suppliers supplierOperatorAddr =
     list_ex (\<lambda>s. OperatorAddress s = supplierOperatorAddr) suppliers"

definition queryAndValidateSessionHeader ::
    "sdk \<Rightarrow> (string \<Rightarrow> string) \<Rightarrow> session_env \<Rightarrow> session_header option \<Rightarrow> string \<Rightarrow> session res" where
  "queryAndValidateSessionHeader sdk sha3 env header supplierOperatorAddr =
     bindR (mapErr (\<lambda>_. ErrFmt) (GetSession sdk sha3 env
              (Some \<lparr>GSR_ApplicationAddress = GetHeaderApplicationAddress header,
                     GSR_ServiceId = GetHeaderServiceId header,
                     GSR_BlockHeight = GetHeaderStartHeight header\<rparr>))) (\<lambda>onChainSession.
     if GetHeaderSessionId header \<noteq> Session_Id onChainSession
       then Inl (Proof ErrProofInvalidSessionId)
     else if \<not> foundSupplier (Session_Suppliers onChainSession) supplierOperatorAddr
       then Inl (Proof ErrProofNotFound)
     else Inr onChainSession)"

definition validateClaimWindow ::
    "shared_state \<Rightarrow> int \<Rightarrow> session_header option \<Rightarrow> string \<Rightarrow> unit res" where
  "validateClaimWindow sh currentHeight header supplierOperatorAddr =
     (let sessionEndHeight = GetHeaderEndHeight header;
          sharedParams = GetParamsAtHeight sh sessionEndHeight
      in bindR (GetClaimWindowOpenHeight sharedParams sessionEndHeight) (\<lambda>claimWindowOpenHeight.
         bindR (GetClaimWindowCloseHeight sharedParams sessionEndHeight) (\<lambda>claimWindowCloseHeight.
         bindR (Querier_GetEarliestSupplierClaimCommitHeight sh sessionEndHeight supplierOperatorAddr)
           (\<lambda>earliestClaimCommitHeight.
         if currentHeight < earliestClaimCommitHeight then Inl (Proof ErrProofClaimOutsideOfWindow)
         else if currentHeight > claimWindowCloseHeight then Inl (Proof ErrProofClaimOutsideOfWindow)
         else Inr ()))))"

definition validateProofWindow ::
    "shared_state \<Rightarrow> int \<Rightarrow> session_header option \<Rightarrow> string \<Rightarrow> unit res" where
  "validateProofWindow sh currentHeight header supplierOperatorAddr =
     (let sessionEndHeight = GetHeaderEndHeight header;
          sharedParams = GetParamsAtHeight sh sessionEndHeight
      in bindR (GetProofWindowOpenHeight sharedParams sessionEndHeight) (\<lambda>proofWindowOpenHeight.
         bindR (GetProofWindowCloseHeight sharedParams sessionEndHeight) (\<lambda>proofWindowCloseHeight.
         bindR (Querier_GetEarliestSupplierProofCommitHeight sh sessionEndHeight supplierOperatorAddr)
           (\<lambda>earliestProofCommitHeight.
         if currentHeight < earliestProofCommitHeight then Inl (Proof ErrProofProofOutsideOfWindow)
         else if currentHeight > proofWindowCloseHeight then Inl (Proof ErrProofProofOutsideOfWindow)
         else Inr ()))))"

definition getServiceComputeUnitsPerRelay :: "service_state \<Rightarrow> string \<Rightarrow> int \<Rightarrow> u64 res" where
  "getServiceComputeUnitsPerRelay svc serviceId sessionStartHeight =
     (case GetServiceComputeUnitsPerRelayAtHeight svc serviceId sessionStartHeight of
        None \<Rightarrow> Inl (Proof ErrProofServiceNotFound) | Some cupr \<Rightarrow> Inr cupr)"

section \<open>Creating a claim\<close>

record msg_create_claim =
  MCC_SupplierOperatorAddress :: string
  MCC_SessionHeader :: "session_header option"
  MCC_RootHash :: string

definition MsgCreateClaim_ValidateBasic :: "sdk \<Rightarrow> claim_deps \<Rightarrow> msg_create_claim \<Rightarrow> unit res" where
  "MsgCreateClaim_ValidateBasic sdk ext msg =
     (if \<not> isBech32 sdk (MCC_SupplierOperatorAddress msg) then Inl (Proof ErrProofInvalidAddress)
      else case MCC_SessionHeader msg of None \<Rightarrow> Inl (Proof ErrProofInvalidSessionHeader)
      | Some header \<Rightarrow>
          bindR (mapErr (\<lambda>_. Proof ErrProofInvalidSessionHeader) (SessionHeader_ValidateBasic sdk header)) (\<lambda>_.
          if length (MCC_RootHash msg) \<noteq> TrieRootSize then Inl (Proof ErrProofInvalidClaimRootHash)
          else
          bindR (mapErr (\<lambda>_. Proof ErrProofInvalidClaimRootHash) (rootCount ext (MCC_RootHash msg))) (\<lambda>count.
          if count = 0 then Inl (Proof ErrProofInvalidClaimRootHash)
          else
          bindR (mapErr (\<lambda>_. Proof ErrProofInvalidClaimRootHash) (rootSum ext (MCC_RootHash msg))) (\<lambda>sum.
          if sum = 0 then Inl (Proof ErrProofInvalidClaimRootHash) else Inr ()))))"

text \<open>The event of a created (or updated) claim or proof.\<close>

record claim_event =
  CE_IsUpdate :: bool
  CE_NumRelays :: u64
  CE_NumClaimedComputeUnits :: u64
  CE_NumEstimatedComputeUnits :: u64
  CE_NumEstimatedRelays :: u64
  CE_ClaimedUpokt :: coin
  CE_SessionHeader :: "session_header option"
  CE_ProofStatus :: claim_proof_status
  CE_SupplierOperatorAddress :: string

definition CreateClaim ::
    "sdk \<Rightarrow> (string \<Rightarrow> string) \<Rightarrow> claim_deps \<Rightarrow> proof_env \<Rightarrow> msg_create_claim
     \<Rightarrow> proof_state \<Rightarrow> (proof_state \<times> claim_event) res" where
  "CreateClaim sdk sha3 ext env msg st =
     bindR (mapErr (Status InvalidArgument) (MsgCreateClaim_ValidateBasic sdk ext msg)) (\<lambda>_.
     bindR (mapErr (Status InvalidArgument) (queryAndValidateSessionHeader sdk sha3 (PE_Session env)
              (MCC_SessionHeader msg) (MCC_SupplierOperatorAddress msg))) (\<lambda>session.
     let claim = \<lparr>Claim_SupplierOperatorAddress = MCC_SupplierOperatorAddress msg,
                   Claim_SessionHeader = MCC_SessionHeader msg,
                   Claim_RootHash = MCC_RootHash msg,
                   Claim_ProofValidationStatus = PENDING_VALIDATION\<rparr>;
         header = Claim_SessionHeader claim
     in
     bindR (mapErr (Status FailedPrecondition) (validateClaimWindow (env_shared env) (env_height env)
              header (Claim_SupplierOperatorAddress claim))) (\<lambda>_.
     bindR (mapErr (\<lambda>_. Status Internal (Proof ErrProofInvalidClaimRootHash)) (GetNumRelays ext claim))
       (\<lambda>numRelays.
     bindR (mapErr (\<lambda>_. Status Internal (Proof ErrProofInvalidClaimRootHash))
              (GetNumClaimedComputeUnits ext claim)) (\<lambda>numClaimComputeUnits.
     let sessionStartHeight = GetHeaderStartHeight header in
     bindR (mapErr (\<lambda>_. Status NotFound (Proof ErrProofServiceNotFound))
              (getServiceComputeUnitsPerRelay (PE_Service env) (GetHeaderServiceId header) sessionStartHeight))
       (\<lambda>serviceComputeUnitsPerRelay.
     let numExpectedComputeUnitsToClaim = numRelays * serviceComputeUnitsPerRelay in
     if numClaimComputeUnits \<noteq> numExpectedComputeUnitsToClaim
       then Inl (Status InvalidArgument (Proof ErrProofComputeUnitsMismatch))
     else
     let isExistingClaim = (GetClaim st (GetHeaderSessionId header)
                              (Claim_SupplierOperatorAddress claim) \<noteq> None);
         st1 = UpsertClaim claim st;
         serviceId = GetHeaderServiceId (Session_Header session);
         sharedParams = GetParamsAtHeight (env_shared env) sessionStartHeight
     in
     bindR (GetRelayMiningDifficultyAtHeight (PE_Service env) serviceId sessionStartHeight)
       (\<lambda>relayMiningDifficulty.
     bindR (mapErr (\<lambda>_. Status Internal (Proof ErrProofInvalidClaimRootHash))
              (GetClaimeduPOKT ext claim sharedParams relayMiningDifficulty)) (\<lambda>claimedUPOKT.
     bindR (mapErr (\<lambda>_. Status Internal (Proof ErrProofInvalidClaimRootHash))
              (GetNumEstimatedRelays ext claim relayMiningDifficulty)) (\<lambda>numEstimatedRelays.
       Inr (st1, \<lparr>CE_IsUpdate = isExistingClaim, CE_NumRelays = numRelays,
          CE_NumClaimedComputeUnits = numClaimComputeUnits,
          CE_NumEstimatedComputeUnits = numExpectedComputeUnitsToClaim,
          CE_NumEstimatedRelays = numEstimatedRelays, CE_ClaimedUpokt = claimedUPOKT,
          CE_SessionHeader = header, CE_ProofStatus = PENDING_VALIDATION,
          CE_SupplierOperatorAddress = Claim_SupplierOperatorAddress claim\<rparr>))))))))))"

section \<open>Well-formed proofs\<close>

text \<open>Sparse Merkle closest proofs: compact ones of type \<open>'c\<close>, decompacted ones of type
  \<open>'d\<close>.\<close>

record ('c, 'd) smt_deps =
  unmarshalClosest :: "string \<Rightarrow> 'c res"
  decompactClosest :: "'c \<Rightarrow> 'd res"
  closestPath :: "'d \<Rightarrow> string"
  closestValueHash :: "'d \<Rightarrow> string"
  verifyClosest :: "'d \<Rightarrow> string \<Rightarrow> bool res"
  unmarshalRelay :: "string \<Rightarrow> relay res"
  trieHash :: "string \<Rightarrow> string"

definition compareSessionHeaders :: "session_header option \<Rightarrow> session_header option \<Rightarrow> unit res" where
  "compareSessionHeaders expected h =
     (if GetHeaderApplicationAddress h \<noteq> GetHeaderApplicationAddress expected then Inl (Proof ErrProofInvalidRelay)
      else if GetHeaderServiceId h \<noteq> GetHeaderServiceId expected then Inl (Proof ErrProofInvalidRelay)
      else if GetHeaderStartHeight h \<noteq> GetHeaderStartHeight expected then Inl (Proof ErrProofInvalidRelay)
      else if GetHeaderEndHeight h \<noteq> GetHeaderEndHeight expected then Inl (Proof ErrProofInvalidRelay)
      else if GetHeaderSessionId h \<noteq> GetHeaderSessionId expected then Inl (Proof ErrProofInvalidRelay)
      else Inr ())"

text \<open>The error message of a relay that misses the target prints its multiplier, which panics when
  the relay's hash is zero (or the target is).\<close>

definition validateRelayDifficulty :: "'r relay_deps \<Rightarrow> string \<Rightarrow> string \<Rightarrow> unit res" where
  "validateRelayDifficulty rx relayBz serviceRelayDifficultyTargetHash =
     (if length serviceRelayDifficultyTargetHash \<noteq> RelayHasherSize then Inl (Proof ErrProofInvalidRelay)
      else let h = relayHash rx relayBz in
        if IsRelayVolumeApplicable h serviceRelayDifficultyTargetHash then Inr ()
        else bindR (GetRelayDifficultyMultiplier h) (\<lambda>_.
             bindR (GetRelayDifficultyMultiplier serviceRelayDifficultyTargetHash) (\<lambda>_.
             Inl (Proof ErrProofInvalidRelay))))"

definition validateSessionClaim :: "proof_state \<Rightarrow> session_header option \<Rightarrow> string \<Rightarrow> unit res" where
  "validateSessionClaim st header supplierOperatorAddr =
     (case GetClaim st (GetHeaderSessionId header) supplierOperatorAddr of
        None \<Rightarrow> Inl (Proof ErrProofClaimNotFound)
      | Some foundClaim \<Rightarrow>
          let claimHeader = Claim_SessionHeader foundClaim in
          if GetHeaderStartHeight claimHeader \<noteq> GetHeaderStartHeight header
            then Inl (Proof ErrProofInvalidSessionStartHeight)
          else if GetHeaderEndHeight claimHeader \<noteq> GetHeaderEndHeight header
            then Inl (Proof ErrProofInvalidSessionEndHeight)
          else if GetHeaderApplicationAddress claimHeader \<noteq> GetHeaderApplicationAddress header
            then Inl (Proof ErrProofInvalidAddress)
          else if GetHeaderServiceId claimHeader \<noteq> GetHeaderServiceId header
            then Inl (Proof ErrProofInvalidService)
          else Inr ())"

text \<open>The relay a closest proof carries, decoded in three steps shared by both validations.\<close>

definition closest_proof_of :: "('c, 'd) smt_deps \<Rightarrow> string \<Rightarrow> 'd res" where
  "closest_proof_of sx closestMerkleProof =
     bindR (mapErr (\<lambda>_. Proof ErrProofInvalidProof) (unmarshalClosest sx closestMerkleProof)) (\<lambda>compact.
     mapErr (\<lambda>_. Proof ErrProofInvalidProof) (decompactClosest sx compact))"

definition relay_of :: "('c, 'd) smt_deps \<Rightarrow> 'd \<Rightarrow> relay res" where
  "relay_of sx closest =
     mapErr (\<lambda>_. Proof ErrProofInvalidRelay) (unmarshalRelay sx (closestValueHash sx closest))"

definition EnsureWellFormedProof ::
    "sdk \<Rightarrow> (string \<Rightarrow> string) \<Rightarrow> 'r relay_deps \<Rightarrow> ('c, 'd) smt_deps \<Rightarrow> proof_env \<Rightarrow> proof_state
     \<Rightarrow> submitted_proof \<Rightarrow> unit res" where
  "EnsureWellFormedProof sdk sha3 rx sx env st p =
     (let supplierOperatorAddr = Proof_SupplierOperatorAddress p in
     bindR (queryAndValidateSessionHeader sdk sha3 (PE_Session env) (Proof_SessionHeader p)
              supplierOperatorAddr) (\<lambda>onChainSession.
     let header = Session_Header onChainSession in
     bindR (validateProofWindow (env_shared env) (env_height env) header supplierOperatorAddr) (\<lambda>_.
     if length (Proof_ClosestMerkleProof p) = 0 then Inl (Proof ErrProofInvalidProof)
     else
     bindR (closest_proof_of sx (Proof_ClosestMerkleProof p)) (\<lambda>closest.
     bindR (relay_of sx closest) (\<lambda>rel.
     bindR (RelayRequest_ValidateBasic sdk (Relay_Req rel)) (\<lambda>_.
     case Relay_Req rel of None \<Rightarrow> Inl Panic
     | Some relayReq \<Rightarrow>
     if supplierOperatorAddr \<noteq> RReq_SupplierOperatorAddress relayReq
       then Inl (Proof ErrProofSupplierMismatch)
     else
     bindR (RelayResponse_ValidateBasic sdk (Relay_Res rel)) (\<lambda>_.
     case Relay_Res rel of None \<Rightarrow> Inl Panic
     | Some relayRes \<Rightarrow>
     bindR (compareSessionHeaders header (RReq_SessionHeader relayReq)) (\<lambda>_.
     bindR (compareSessionHeaders header (RRes_SessionHeader relayRes)) (\<lambda>_.
     bindR (GetRelayMiningDifficultyAtHeight (PE_Service env) (GetHeaderServiceId header)
              (GetHeaderStartHeight header)) (\<lambda>serviceRelayDifficulty.
     bindR (mapErr (\<lambda>_. Proof ErrProofInvalidRelayDifficulty)
              (validateRelayDifficulty rx (closestValueHash sx closest) (TargetHash serviceRelayDifficulty))) (\<lambda>_.
       validateSessionClaim st header supplierOperatorAddr)))))))))))"

section \<open>Submitting a proof\<close>

record msg_submit_proof =
  MSP_SupplierOperatorAddress :: string
  MSP_SessionHeader :: "session_header option"
  MSP_Proof :: string

definition MsgSubmitProof_ValidateBasic :: "sdk \<Rightarrow> msg_submit_proof \<Rightarrow> unit res" where
  "MsgSubmitProof_ValidateBasic sdk msg =
     (if \<not> isBech32 sdk (MSP_SupplierOperatorAddress msg) then Inl ErrExt
      else case MSP_SessionHeader msg of None \<Rightarrow> Inl (Proof ErrProofInvalidSessionHeader)
      | Some header \<Rightarrow>
          bindR (mapErr (\<lambda>_. Proof ErrProofInvalidSessionHeader) (SessionHeader_ValidateBasic sdk header)) (\<lambda>_.
          if length (MSP_Proof msg) = 0 then Inl (Proof ErrProofInvalidProof) else Inr ()))"

definition newProofFromMsg :: "msg_submit_proof \<Rightarrow> submitted_proof" where
  "newProofFromMsg msg =
     \<lparr>Proof_SupplierOperatorAddress = MSP_SupplierOperatorAddress msg,
      Proof_SessionHeader = MSP_SessionHeader msg, Proof_ClosestMerkleProof = MSP_Proof msg\<rparr>"

definition deductProofSubmissionFee ::
    "sdk \<Rightarrow> (bank_log \<Rightarrow> string \<Rightarrow> coin list) \<Rightarrow> proof_params \<Rightarrow> string \<Rightarrow> bank_log \<Rightarrow> bank_log res" where
  "deductProofSubmissionFee sdk spendable params supplierOperatorAddress lg =
     (if \<not> isBech32 sdk supplierOperatorAddress then Inl ErrExt
      else if length (spendable lg supplierOperatorAddress) = 0 then Inl (Proof ErrProofNotEnoughFunds)
      else case ProofSubmissionFee params of None \<Rightarrow> Inl Panic
      | Some fee \<Rightarrow>
          if AmountOf (spendable lg supplierOperatorAddress) ''upokt'' \<le> Amount fee
            then Inl (Proof ErrProofNotEnoughFunds)
          else mapErr (\<lambda>_. Proof ErrProofFailedToDeductFee)
                 (bank_do sdk (SendFromAccountToModule supplierOperatorAddress ''proof'' fee) lg))"

definition SubmitProof ::
    "sdk \<Rightarrow> (bank_log \<Rightarrow> string \<Rightarrow> coin list) \<Rightarrow> (string \<Rightarrow> string) \<Rightarrow> claim_deps \<Rightarrow> 'r relay_deps
     \<Rightarrow> ('c, 'd) smt_deps \<Rightarrow> proof_env \<Rightarrow> msg_submit_proof
     \<Rightarrow> proof_state \<times> bank_log \<Rightarrow> (proof_state \<times> bank_log \<times> claim_event) res" where
  "SubmitProof sdk spendable sha3 ext rx sx env msg = (\<lambda>(st, lg).
     bindR (mapErr (Status InvalidArgument) (MsgSubmitProof_ValidateBasic sdk msg)) (\<lambda>_.
     let header = MSP_SessionHeader msg;
         supplierOperatorAddress = MSP_SupplierOperatorAddress msg;
         p = newProofFromMsg msg in
     bindR (mapErr (Status FailedPrecondition) (EnsureWellFormedProof sdk sha3 rx sx env st p)) (\<lambda>_.
     case GetClaim st (GetHeaderSessionId header) supplierOperatorAddress of
       None \<Rightarrow> Inl (Status FailedPrecondition (Proof ErrProofClaimNotFound))
     | Some claim \<Rightarrow>
     bindR (mapErr (Status FailedPrecondition)
              (deductProofSubmissionFee sdk spendable (Proof_GetParams st) supplierOperatorAddress lg)) (\<lambda>lg'.
     bindR (mapErr (Status Internal) (ProofRequirementForClaim ext (env_shared env) (PE_Service env)
              (E_Session (PE_Session env)) (Proof_GetParams st) claim)) (\<lambda>proofRequirement.
     if proofRequirement = NOT_REQUIRED then Inl (Status FailedPrecondition (Proof ErrProofNotRequired))
     else
     bindR (mapErr (\<lambda>_. Status Internal (Proof ErrProofInvalidClaimRootHash)) (GetNumRelays ext claim))
       (\<lambda>numRelays.
     bindR (mapErr (\<lambda>_. Status Internal (Proof ErrProofInvalidClaimRootHash))
              (GetNumClaimedComputeUnits ext claim)) (\<lambda>numClaimComputeUnits.
     let sessionStartHeight = GetHeaderStartHeight header;
         sharedParams = GetParamsAtHeight (env_shared env) sessionStartHeight in
     bindR (GetRelayMiningDifficultyAtHeight (PE_Service env) (GetHeaderServiceId header) sessionStartHeight)
       (\<lambda>relayMiningDifficulty.
     bindR (mapErr (\<lambda>_. Status Internal (Proof ErrProofInvalidClaimRootHash))
              (GetClaimeduPOKT ext claim sharedParams relayMiningDifficulty)) (\<lambda>claimedUPOKT.
     bindR (mapErr (\<lambda>_. Status Internal (Proof ErrProofInvalidClaimRootHash))
              (GetNumEstimatedComputeUnits ext claim relayMiningDifficulty)) (\<lambda>numEstimatedComputeUnits.
     bindR (mapErr (\<lambda>_. Status Internal (Proof ErrProofInvalidClaimRootHash))
              (GetNumEstimatedRelays ext claim relayMiningDifficulty)) (\<lambda>numEstimatedRelays.
     let isExistingProof = (GetProof st (GetHeaderSessionId (Proof_SessionHeader p))
                              (Proof_SupplierOperatorAddress p) \<noteq> None) in
       Inr (UpsertProof p st, lg', \<lparr>CE_IsUpdate = isExistingProof, CE_NumRelays = numRelays,
          CE_NumClaimedComputeUnits = numClaimComputeUnits,
          CE_NumEstimatedComputeUnits = numEstimatedComputeUnits,
          CE_NumEstimatedRelays = numEstimatedRelays, CE_ClaimedUpokt = claimedUPOKT,
          CE_SessionHeader = Claim_SessionHeader claim, CE_ProofStatus = PENDING_VALIDATION,
          CE_SupplierOperatorAddress = supplierOperatorAddress\<rparr>))))))))))))"

section \<open>Signatures and the closest path\<close>

definition GetPathForProof :: "('c, 'd) smt_deps \<Rightarrow> string \<Rightarrow> string \<Rightarrow> string" where
  "GetPathForProof sx blockHash sessionId = trieHash sx (blockHash @ sessionId)"

definition validateClosestPath ::
    "('c, 'd) smt_deps \<Rightarrow> shared_state \<Rightarrow> session_state \<Rightarrow> 'd \<Rightarrow> session_header option \<Rightarrow> string \<Rightarrow> unit res" where
  "validateClosestPath sx sh ss closest header supplierOperatorAddr =
     bindR (Querier_GetEarliestSupplierProofCommitHeight sh (GetHeaderEndHeight header) supplierOperatorAddr)
       (\<lambda>earliestSupplierProofCommitHeight.
     let proofPathSeedBlockHash = GetBlockHash ss (i64 (earliestSupplierProofCommitHeight - 1));
         expectedProofPath = GetPathForProof sx proofPathSeedBlockHash (GetHeaderSessionId header)
     in if closestPath sx closest \<noteq> expectedProofPath then Inl (Proof ErrProofInvalidProof) else Inr ())"

definition verifyClosestProof :: "('c, 'd) smt_deps \<Rightarrow> 'd \<Rightarrow> string \<Rightarrow> unit res" where
  "verifyClosestProof sx closest claimRootHash =
     bindR (verifyClosest sx closest claimRootHash) (\<lambda>valid.
       if \<not> valid then Inl (Proof ErrProofInvalidProof) else Inr ())"

definition EnsureValidProofSignaturesAndClosestPath ::
    "sdk \<Rightarrow> 'r relay_deps \<Rightarrow> ('c, 'd) smt_deps \<Rightarrow> session_env \<Rightarrow> claim \<Rightarrow> submitted_proof \<Rightarrow> unit res" where
  "EnsureValidProofSignaturesAndClosestPath sdk rx sx env c p =
     bindR (GetPubKeyFromAddress sdk rx (Proof_SupplierOperatorAddress p)) (\<lambda>supplierOperatorPubKey.
     bindR (closest_proof_of sx (Proof_ClosestMerkleProof p)) (\<lambda>closest.
     bindR (relay_of sx closest) (\<lambda>rel.
     bindR (VerifyRelayRequestSignature sdk rx (E_Shared env) (E_Apps env) (Relay_Req rel)) (\<lambda>_.
     bindR (VerifySupplierOperatorSignature rx (Relay_Res rel) supplierOperatorPubKey) (\<lambda>_.
     bindR (validateClosestPath sx (E_Shared env) (E_Session env) closest (Proof_SessionHeader p)
              (Proof_SupplierOperatorAddress p)) (\<lambda>_.
       verifyClosestProof sx closest (Claim_RootHash c)))))))"

end
