(* ===== verification/ProofValidation.thy ===== *)
theory ProofValidation
  imports ProofHandlers
begin

text \<open>
  The proof module's end blocker (\<open>x/proof/keeper/validate_proofs.go\<close>): all stored proofs are
  validated concurrently, each marks its claim, and the processed proofs are removed. A goroutine
  reads its claim and checks the proof without the lock, then writes under it: two steps, which the
  goroutines take in any order. \<open>ValidateSubmittedProofs\<close> is the run in the order of the
  store; \<open>validation_step\<close> is every other one.
\<close>

section \<open>One goroutine\<close>

datatype task =
    Todo submitted_proof
  | Checked claim claim_proof_status submitted_proof
  | Finished

record coordinator =
  VC_Store :: proof_state
  VC_Processed :: "(string \<times> string) list"
  VC_NumValid :: u64
  VC_NumInvalid :: u64

type_synonym proof_check = "claim \<Rightarrow> submitted_proof \<Rightarrow> unit res"

text \<open>The unlocked half. A panic of the check ends the node.\<close>

definition validateProof_read :: "proof_check \<Rightarrow> proof_state \<Rightarrow> submitted_proof \<Rightarrow> task res" where
  "validateProof_read check st p =
     (case GetClaim st (GetHeaderSessionId (Proof_SessionHeader p)) (Proof_SupplierOperatorAddress p) of
        None \<Rightarrow> Inr Finished
      | Some c \<Rightarrow>
          (case check c p of
             Inl Panic \<Rightarrow> Inl Panic
           | Inl e \<Rightarrow> Inr (Checked c INVALID p)
           | Inr u \<Rightarrow> Inr (Checked c VALIDATED p)))"

text \<open>The half under the lock.\<close>

definition validateProof_write ::
    "claim \<Rightarrow> claim_proof_status \<Rightarrow> submitted_proof \<Rightarrow> coordinator \<Rightarrow> coordinator" where
  "validateProof_write c proofStatus p vc =
     \<lparr>VC_Store = UpsertClaim (c\<lparr>Claim_ProofValidationStatus := proofStatus\<rparr>) (VC_Store vc),
      VC_Processed = VC_Processed vc @
        [(Proof_SupplierOperatorAddress p, GetHeaderSessionId (Proof_SessionHeader p))],
      VC_NumValid = (if proofStatus = INVALID then VC_NumValid vc else VC_NumValid vc + 1),
      VC_NumInvalid = (if proofStatus = INVALID then VC_NumInvalid vc + 1 else VC_NumInvalid vc)\<rparr>"

definition validateProof :: "proof_check \<Rightarrow> coordinator \<Rightarrow> submitted_proof \<Rightarrow> coordinator res" where
  "validateProof check vc p =
     bindR (validateProof_read check (VC_Store vc) p) (\<lambda>t.
       case t of Checked c s q \<Rightarrow> Inr (validateProof_write c s q vc) | _ \<Rightarrow> Inr vc)"

section \<open>The end blocker\<close>

definition new_coordinator :: "proof_state \<Rightarrow> coordinator" where
  "new_coordinator st = \<lparr>VC_Store = st, VC_Processed = [], VC_NumValid = 0, VC_NumInvalid = 0\<rparr>"

definition remove_processed :: "(string \<times> string) list \<Rightarrow> proof_state \<Rightarrow> proof_state" where
  "remove_processed processed st =
     fold (\<lambda>(supplierOperatorAddr, sessionId). RemoveProof sessionId supplierOperatorAddr) processed st"

definition ValidateSubmittedProofs :: "proof_check \<Rightarrow> proof_state \<Rightarrow> (proof_state \<times> u64 \<times> u64) res" where
  "ValidateSubmittedProofs check st =
     bindR (foldR (validateProof check) (new_coordinator st) (GetAllProofs st)) (\<lambda>vc.
       Inr (remove_processed (VC_Processed vc) (VC_Store vc), VC_NumValid vc, VC_NumInvalid vc))"

definition proof_check_of ::
    "sdk \<Rightarrow> 'r relay_deps \<Rightarrow> ('c, 'd) smt_deps \<Rightarrow> session_env \<Rightarrow> proof_check" where
  "proof_check_of sdk rx sx env = EnsureValidProofSignaturesAndClosestPath sdk rx sx env"

definition Proof_EndBlocker ::
    "sdk \<Rightarrow> 'r relay_deps \<Rightarrow> ('c, 'd) smt_deps \<Rightarrow> session_env \<Rightarrow> proof_state \<Rightarrow> proof_state res" where
  "Proof_EndBlocker sdk rx sx env st =
     bindR (ValidateSubmittedProofs (proof_check_of sdk rx sx env) st) (\<lambda>(st', numValid, numInvalid).
       Inr st')"

section \<open>All interleavings\<close>

text \<open>One step of one goroutine: the task at index \<open>i\<close> of the list advances.\<close>

inductive validation_step ::
    "proof_check \<Rightarrow> coordinator \<times> task list \<Rightarrow> coordinator \<times> task list \<Rightarrow> bool"
  for check :: proof_check
where
  read_claim: "i < length ts \<Longrightarrow> ts ! i = Todo p \<Longrightarrow> validateProof_read check (VC_Store vc) p = Inr t
           \<Longrightarrow> validation_step check (vc, ts) (vc, ts[i := t])"
| write_claim: "i < length ts \<Longrightarrow> ts ! i = Checked c s p
           \<Longrightarrow> validation_step check (vc, ts) (validateProof_write c s p vc, ts[i := Finished])"

text \<open>A schedule of the block: from all tasks to none left.\<close>

definition validation_run :: "proof_check \<Rightarrow> proof_state \<Rightarrow> coordinator \<Rightarrow> bool" where
  "validation_run check st vc \<longleftrightarrow>
     (\<exists>ts. (validation_step check)\<^sup>*\<^sup>* (new_coordinator st, map Todo (GetAllProofs st)) (vc, ts)
        \<and> list_all (\<lambda>t. t = Finished) ts)"

end
