(* ===== verification/ProofInv.thy ===== *)
theory ProofInv
  imports ProofValidation
begin

text \<open>
  The invariant of the proof module's stores: every claim and every proof sits under its own
  primary key and is listed under its supplier and under its session end height, and every proof has
  a claim. The address index is exact; the height index may hold more than the claims' own heights,
  because claiming again with another end height leaves the old entry.
\<close>

section \<open>Keys\<close>

lemma KeyComposite2 [simp]: "KeyComposite [a, b] = a @ ''/'' @ b"
  by (simp add: KeyComposite_def)

text \<open>An indexed store: the primary entries, and two indexes that lead to the primary keys.\<close>

lemma primary_key_inject:
  assumes "no_slash a" and "no_slash b"
  shows "ClaimPrimaryKey a x = ClaimPrimaryKey b y \<longleftrightarrow> a = b \<and> x = y"
  using slash_split [OF assms] by (simp add: ClaimPrimaryKey_def)

lemma height_key_inject:
  "ClaimSupplierEndSessionHeightKey h k = ClaimSupplierEndSessionHeightKey h' k'
     \<longleftrightarrow> PutUint64 h = PutUint64 h' \<and> k = k'"
  by (simp add: ClaimSupplierEndSessionHeightKey_def append_eq_append_conv)

lemma address_key_inject:
  assumes "no_slash a" and "no_slash b"
  shows "ClaimSupplierOperatorAddressKey a k = ClaimSupplierOperatorAddressKey b k'
     \<longleftrightarrow> a = b \<and> k = k'"
  using slash_split [OF assms] by (simp add: ClaimSupplierOperatorAddressKey_def)

lemma proof_keys_are_claim_keys:
  "ProofPrimaryKey = ClaimPrimaryKey"
  "ProofSupplierOperatorAddressKey = ClaimSupplierOperatorAddressKey"
  "ProofSupplierEndSessionHeightKey = ClaimSupplierEndSessionHeightKey"
  by (simp_all add: fun_eq_iff ProofPrimaryKey_def ClaimPrimaryKey_def
    ProofSupplierOperatorAddressKey_def ClaimSupplierOperatorAddressKey_def
    ProofSupplierEndSessionHeightKey_def ClaimSupplierEndSessionHeightKey_def)

lemma kv_set_same: "kv_ok s \<Longrightarrow> map_of s k = Some v \<Longrightarrow> kv_set k v s = s"
  by (rule kv_ext) (auto simp: kv_simps fun_eq_iff)

section \<open>Indexed stores\<close>

text \<open>
  The contract of the three stores claims and proofs are kept in: a record with an address, a
  session and a height, stored under its primary key and listed in both indexes.
\<close>

locale indexed_store =
  fixes addr :: "'a \<Rightarrow> string" and sess :: "'a \<Rightarrow> string" and height :: "'a \<Rightarrow> int"
    and prim :: "'s \<Rightarrow> (string, 'a) kv" and aidx :: "'s \<Rightarrow> (string, string) kv"
    and hidx :: "'s \<Rightarrow> (string, string) kv"
    and upsert :: "'a \<Rightarrow> 's \<Rightarrow> 's" and remove :: "string \<Rightarrow> string \<Rightarrow> 's \<Rightarrow> 's"
  assumes prim_upsert: "prim (upsert a s) = kv_set (ClaimPrimaryKey (sess a) (addr a)) a (prim s)"
    and aidx_upsert: "aidx (upsert a s) = kv_set (ClaimSupplierOperatorAddressKey (addr a)
          (ClaimPrimaryKey (sess a) (addr a))) (ClaimPrimaryKey (sess a) (addr a)) (aidx s)"
    and hidx_upsert: "hidx (upsert a s) = kv_set (ClaimSupplierEndSessionHeightKey (height a)
          (ClaimPrimaryKey (sess a) (addr a))) (ClaimPrimaryKey (sess a) (addr a)) (hidx s)"
    and remove_none: "map_of (prim s) (ClaimPrimaryKey i x) = None \<Longrightarrow> remove i x s = s"
    and prim_remove: "map_of (prim s) (ClaimPrimaryKey i x) = Some a
          \<Longrightarrow> prim (remove i x s) = kv_del (ClaimPrimaryKey i x) (prim s)"
    and aidx_remove: "map_of (prim s) (ClaimPrimaryKey i x) = Some a
          \<Longrightarrow> aidx (remove i x s) = kv_del (ClaimSupplierOperatorAddressKey (addr a)
                (ClaimPrimaryKey i x)) (aidx s)"
    and hidx_remove: "map_of (prim s) (ClaimPrimaryKey i x) = Some a
          \<Longrightarrow> hidx (remove i x s) = kv_del (ClaimSupplierEndSessionHeightKey (height a)
                (ClaimPrimaryKey i x)) (hidx s)"
begin

definition pkey :: "'a \<Rightarrow> string" where
  "pkey a = ClaimPrimaryKey (sess a) (addr a)"

definition named :: "'a \<Rightarrow> bool" where
  "named a \<longleftrightarrow> no_slash (sess a) \<and> no_slash (addr a)"

definition listed :: "'s \<Rightarrow> 'a \<Rightarrow> bool" where
  "listed s a \<longleftrightarrow>
     map_of (aidx s) (ClaimSupplierOperatorAddressKey (addr a) (pkey a)) = Some (pkey a)
   \<and> map_of (hidx s) (ClaimSupplierEndSessionHeightKey (height a) (pkey a)) = Some (pkey a)"

definition store_ok :: "'s \<Rightarrow> bool" where
  "store_ok s \<longleftrightarrow> kv_ok (prim s) \<and> kv_ok (aidx s) \<and> kv_ok (hidx s)
     \<and> (\<forall>(k, a) \<in> set (prim s). k = pkey a \<and> named a \<and> listed s a)
     \<and> (\<forall>(k, v) \<in> set (aidx s). \<exists>a. map_of (prim s) v = Some a
          \<and> k = ClaimSupplierOperatorAddressKey (addr a) v)
     \<and> (\<forall>(k, v) \<in> set (hidx s). \<exists>h. k = ClaimSupplierEndSessionHeightKey h v)"

lemma named_pkey: "named a \<Longrightarrow> named b \<Longrightarrow> pkey a = pkey b \<longleftrightarrow> sess a = sess b \<and> addr a = addr b"
  by (simp add: named_def pkey_def primary_key_inject)

lemma store_okD:
  assumes "store_ok s"
  shows "kv_ok (prim s)" and "kv_ok (aidx s)" and "kv_ok (hidx s)"
    and "(k, a) \<in> set (prim s) \<Longrightarrow> k = pkey a \<and> named a \<and> listed s a"
  using assms by (auto simp: store_ok_def)

lemma stored:
  "store_ok s \<Longrightarrow> map_of (prim s) k = Some a \<Longrightarrow> k = pkey a \<and> named a \<and> listed s a"
  by (auto simp: store_ok_def dest!: map_of_SomeD)

lemma lookup_upsert: "map_of (prim (upsert a s)) k = (if k = pkey a then Some a else map_of (prim s) k)"
  by (simp add: prim_upsert kv_simps pkey_def)

lemma lookup_remove:
  "map_of (prim (remove i x s)) k = (if k = ClaimPrimaryKey i x then None else map_of (prim s) k)"
  by (cases "map_of (prim s) (ClaimPrimaryKey i x)") (simp_all add: remove_none prim_remove kv_simps)

lemma store_ok_upsert:
  assumes ok: "store_ok s" and a: "named a"
  shows "store_ok (upsert a s)"
proof -
  have kv: "kv_ok (prim s)" "kv_ok (aidx s)" "kv_ok (hidx s)" using ok by (simp_all add: store_ok_def)
  let ?ak = "ClaimSupplierOperatorAddressKey (addr a) (pkey a)"
  let ?hk = "ClaimSupplierEndSessionHeightKey (height a) (pkey a)"
  have up: "prim (upsert a s) = kv_set (pkey a) a (prim s)" "aidx (upsert a s) = kv_set ?ak (pkey a) (aidx s)"
    "hidx (upsert a s) = kv_set ?hk (pkey a) (hidx s)"
    by (simp_all add: prim_upsert aidx_upsert hidx_upsert pkey_def)
  have old: "listed (upsert a s) b" if "named b" "listed s b" "pkey b \<noteq> pkey a" for b
    using that a unfolding listed_def named_def up kv_simps
    by (simp add: address_key_inject height_key_inject)
  have new: "listed (upsert a s) a" by (simp add: listed_def up kv_simps)
  have p: "k = pkey b \<and> named b \<and> listed (upsert a s) b" if "(k, b) \<in> set (prim (upsert a s))" for k b
    using that kv ok a new old [of b] by (auto simp: up set_kv_set store_ok_def)
  have q: "\<exists>b. map_of (prim (upsert a s)) v = Some b \<and> k = ClaimSupplierOperatorAddressKey (addr b) v"
    if "(k, v) \<in> set (aidx (upsert a s))" for k v
  proof (cases "(k, v) \<in> set (aidx s)")
    case True
    then obtain b where b: "map_of (prim s) v = Some b" "k = ClaimSupplierOperatorAddressKey (addr b) v"
      using ok by (auto simp: store_ok_def)
    then have "v = pkey b" "named b" using stored [OF ok b(1)] by simp_all
    then show ?thesis using a b by (auto simp: lookup_upsert named_pkey)
  next
    case False
    then show ?thesis using that kv by (auto simp: up set_kv_set kv_simps)
  qed
  have r: "\<exists>h. k = ClaimSupplierEndSessionHeightKey h v" if "(k, v) \<in> set (hidx (upsert a s))" for k v
    using that kv ok by (auto simp: up set_kv_set store_ok_def)
  have "kv_ok (prim (upsert a s))" "kv_ok (aidx (upsert a s))" "kv_ok (hidx (upsert a s))"
    using kv by (simp_all add: up kv_simps)
  then show ?thesis using p q r unfolding store_ok_def by blast
qed

lemma store_ok_remove:
  assumes ok: "store_ok s"
  shows "store_ok (remove i x s)"
proof (cases "map_of (prim s) (ClaimPrimaryKey i x)")
  case None
  then show ?thesis using ok by (simp add: remove_none)
next
  case (Some a)
  have K: "ClaimPrimaryKey i x = pkey a" and a: "named a" using stored [OF ok Some] by simp_all
  have kv: "kv_ok (prim s)" "kv_ok (aidx s)" "kv_ok (hidx s)" using ok by (simp_all add: store_ok_def)
  have rm: "prim (remove i x s) = kv_del (pkey a) (prim s)"
    "aidx (remove i x s) = kv_del (ClaimSupplierOperatorAddressKey (addr a) (pkey a)) (aidx s)"
    "hidx (remove i x s) = kv_del (ClaimSupplierEndSessionHeightKey (height a) (pkey a)) (hidx s)"
    using Some by (simp_all add: prim_remove aidx_remove hidx_remove K)
  have old: "listed (remove i x s) b" if "named b" "listed s b" "pkey b \<noteq> pkey a" for b
    using that a unfolding listed_def named_def rm kv_simps
    by (simp add: address_key_inject height_key_inject)
  have p: "k = pkey b \<and> named b \<and> listed (remove i x s) b" if "(k, b) \<in> set (prim (remove i x s))" for k b
    using that ok old [of b] by (auto simp: rm kv_del_def store_ok_def)
  have q: "\<exists>b. map_of (prim (remove i x s)) v = Some b \<and> k = ClaimSupplierOperatorAddressKey (addr b) v"
    if kv': "(k, v) \<in> set (aidx (remove i x s))" for k v
  proof -
    have s: "(k, v) \<in> set (aidx s)" and n: "k \<noteq> ClaimSupplierOperatorAddressKey (addr a) (pkey a)"
      using kv' by (auto simp: rm kv_del_def)
    obtain b where b: "map_of (prim s) v = Some b" "k = ClaimSupplierOperatorAddressKey (addr b) v"
      using ok s by (auto simp: store_ok_def)
    then have vb: "v = pkey b" "named b" using stored [OF ok b(1)] by simp_all
    have "v \<noteq> pkey a"
    proof
      assume v: "v = pkey a"
      then have "addr b = addr a" using vb a by (simp add: named_pkey)
      then show False using n b(2) v by simp
    qed
    then show ?thesis using b K by (auto simp: lookup_remove)
  qed
  have r: "\<exists>h. k = ClaimSupplierEndSessionHeightKey h v" if "(k, v) \<in> set (hidx (remove i x s))" for k v
    using that ok by (auto simp: rm kv_del_def store_ok_def)
  have "kv_ok (prim (remove i x s))" "kv_ok (aidx (remove i x s))" "kv_ok (hidx (remove i x s))"
    using kv by (simp_all add: rm kv_simps)
  then show ?thesis using p q r unfolding store_ok_def by blast
qed

text \<open>Replacing a record by one with the same key and height leaves the indexes as they are.\<close>

lemma upsert_same:
  assumes "store_ok s" and "map_of (prim s) (pkey a) = Some b" and "height a = height b" and "named a"
  shows "aidx (upsert a s) = aidx s" and "hidx (upsert a s) = hidx s"
proof -
  have b: "pkey a = pkey b" "named b" "listed s b" using stored [OF assms(1,2)] by simp_all
  have kv: "kv_ok (aidx s)" "kv_ok (hidx s)" using assms(1) by (simp_all add: store_ok_def)
  have up: "aidx (upsert a s) = kv_set (ClaimSupplierOperatorAddressKey (addr a) (pkey a)) (pkey a) (aidx s)"
    "hidx (upsert a s) = kv_set (ClaimSupplierEndSessionHeightKey (height a) (pkey a)) (pkey a) (hidx s)"
    by (simp_all add: aidx_upsert hidx_upsert pkey_def)
  have "addr a = addr b" using b(1,2) assms(4) by (simp add: named_pkey)
  show "hidx (upsert a s) = hidx s"
    using b assms(3) kv(2) by (simp add: up listed_def kv_set_same)
  show "aidx (upsert a s) = aidx s"
    using b kv(1) \<open>addr a = addr b\<close> by (simp add: up listed_def kv_set_same)
qed

end


section \<open>The two instances\<close>

abbreviation claim_session :: "claim \<Rightarrow> string" where
  "claim_session c \<equiv> GetHeaderSessionId (Claim_SessionHeader c)"

abbreviation claim_end :: "claim \<Rightarrow> int" where
  "claim_end c \<equiv> GetHeaderEndHeight (Claim_SessionHeader c)"

abbreviation proof_session :: "submitted_proof \<Rightarrow> string" where
  "proof_session p \<equiv> GetHeaderSessionId (Proof_SessionHeader p)"

abbreviation proof_end :: "submitted_proof \<Rightarrow> int" where
  "proof_end p \<equiv> GetHeaderEndHeight (Proof_SessionHeader p)"

interpretation cs: indexed_store Claim_SupplierOperatorAddress claim_session claim_end
  Claims ClaimAddressIndex ClaimHeightIndex UpsertClaim RemoveClaim
  by unfold_locales
    (simp_all add: UpsertClaim_def RemoveClaim_def claim_key_def getClaimByPrimaryKey_def Let_def)

interpretation ps: indexed_store Proof_SupplierOperatorAddress proof_session proof_end
  Proofs ProofAddressIndex ProofHeightIndex UpsertProof RemoveProof
  by unfold_locales
    (simp_all add: UpsertProof_def RemoveProof_def proof_key_def getProofByPrimaryKey_def Let_def
      proof_keys_are_claim_keys)

lemma claim_pkey [simp]: "cs.pkey c = claim_key c"
  by (simp add: cs.pkey_def claim_key_def)

lemma proof_pkey [simp]: "ps.pkey p = proof_key p"
  by (simp add: ps.pkey_def proof_key_def proof_keys_are_claim_keys)

lemma UpsertClaim_frame [simp]:
  "Proofs (UpsertClaim c st) = Proofs st" "ProofAddressIndex (UpsertClaim c st) = ProofAddressIndex st"
  "ProofHeightIndex (UpsertClaim c st) = ProofHeightIndex st"
  "Proof_ParamsStore (UpsertClaim c st) = Proof_ParamsStore st"
  by (simp_all add: UpsertClaim_def Let_def)

lemma UpsertProof_frame [simp]:
  "Claims (UpsertProof p st) = Claims st" "ClaimAddressIndex (UpsertProof p st) = ClaimAddressIndex st"
  "ClaimHeightIndex (UpsertProof p st) = ClaimHeightIndex st"
  "Proof_ParamsStore (UpsertProof p st) = Proof_ParamsStore st"
  by (simp_all add: UpsertProof_def Let_def)

lemma RemoveClaim_frame [simp]:
  "Proofs (RemoveClaim i x st) = Proofs st" "ProofAddressIndex (RemoveClaim i x st) = ProofAddressIndex st"
  "ProofHeightIndex (RemoveClaim i x st) = ProofHeightIndex st"
  "Proof_ParamsStore (RemoveClaim i x st) = Proof_ParamsStore st"
  by (simp_all add: RemoveClaim_def Let_def split: option.splits)

lemma RemoveProof_frame [simp]:
  "Claims (RemoveProof i x st) = Claims st" "ClaimAddressIndex (RemoveProof i x st) = ClaimAddressIndex st"
  "ClaimHeightIndex (RemoveProof i x st) = ClaimHeightIndex st"
  "Proof_ParamsStore (RemoveProof i x st) = Proof_ParamsStore st"
  by (simp_all add: RemoveProof_def Let_def split: option.splits)

lemma claim_store_cong:
  assumes "Claims t = Claims s" and "ClaimAddressIndex t = ClaimAddressIndex s"
    and "ClaimHeightIndex t = ClaimHeightIndex s"
  shows "cs.store_ok t \<longleftrightarrow> cs.store_ok s"
  using assms by (simp add: cs.store_ok_def cs.listed_def)

lemma proof_store_cong:
  assumes "Proofs t = Proofs s" and "ProofAddressIndex t = ProofAddressIndex s"
    and "ProofHeightIndex t = ProofHeightIndex s"
  shows "ps.store_ok t \<longleftrightarrow> ps.store_ok s"
  using assms by (simp add: ps.store_ok_def ps.listed_def)

text \<open>Both stores are well-formed and every proof has a claim.\<close>

definition proof_stores_ok :: "proof_state \<Rightarrow> bool" where
  "proof_stores_ok st \<longleftrightarrow> cs.store_ok st \<and> ps.store_ok st
     \<and> fst ` set (Proofs st) \<subseteq> fst ` set (Claims st)"

lemma proof_stores_okD:
  assumes "proof_stores_ok st"
  shows "cs.store_ok st" and "ps.store_ok st"
    and "map_of (Proofs st) k = Some p \<Longrightarrow> \<exists>c. map_of (Claims st) k = Some c"
  using assms by (auto simp: proof_stores_ok_def dest!: map_of_SomeD)
    (metis (no_types, lifting) fst_conv image_eqI map_of_eq_None_iff not_Some_eq subsetD)

lemma proof_stores_ok_upsert_claim:
  assumes "proof_stores_ok st" and "cs.named c"
  shows "proof_stores_ok (UpsertClaim c st)"
proof -
  have "ps.store_ok (UpsertClaim c st)"
    using assms(1) proof_store_cong [of "UpsertClaim c st" st] by (simp add: proof_stores_ok_def)
  moreover have "fst ` set (Claims (UpsertClaim c st)) = insert (claim_key c) (fst ` set (Claims st))"
    by (simp add: cs.prim_upsert fst_set_kv_set claim_key_def)
  ultimately show ?thesis
    using assms cs.store_ok_upsert by (auto simp: proof_stores_ok_def)
qed

lemma proof_stores_ok_upsert_proof:
  assumes "proof_stores_ok st" and "ps.named p" and "map_of (Claims st) (proof_key p) \<noteq> None"
  shows "proof_stores_ok (UpsertProof p st)"
proof -
  have "cs.store_ok (UpsertProof p st)"
    using assms(1) claim_store_cong [of "UpsertProof p st" st] by (simp add: proof_stores_ok_def)
  moreover have "fst ` set (Proofs (UpsertProof p st)) = insert (proof_key p) (fst ` set (Proofs st))"
    by (simp add: ps.prim_upsert fst_set_kv_set proof_key_def proof_keys_are_claim_keys)
  moreover have "proof_key p \<in> fst ` set (Claims st)"
    using assms(3) by (metis map_of_eq_None_iff)
  ultimately show ?thesis
    using assms ps.store_ok_upsert by (auto simp: proof_stores_ok_def)
qed

lemma proof_stores_ok_params [simp]: "proof_stores_ok (Proof_SetParams p st) \<longleftrightarrow> proof_stores_ok st"
  using claim_store_cong [of "Proof_SetParams p st" st] proof_store_cong [of "Proof_SetParams p st" st]
  by (simp add: proof_stores_ok_def Proof_SetParams_def)

end
