(* ===== verification/ProofBlock.thy ===== *)
theory ProofBlock
  imports ProofInv
begin

text \<open>
  What the proof module's end blocker does, in whatever order its goroutines run: every claim
  with a proof gets the verdict on that proof, every proof is removed, nothing else changes.
\<close>

section \<open>The abstract result\<close>

definition verdict :: "proof_check \<Rightarrow> claim \<Rightarrow> submitted_proof \<Rightarrow> claim_proof_status" where
  "verdict check c p = (case check c p of Inl e \<Rightarrow> INVALID | Inr u \<Rightarrow> VALIDATED)"

definition mark :: "proof_check \<Rightarrow> proof_state \<Rightarrow> string \<Rightarrow> claim \<Rightarrow> claim" where
  "mark check st k c =
     (case map_of (Proofs st) k of None \<Rightarrow> c
      | Some p \<Rightarrow> c\<lparr>Claim_ProofValidationStatus := verdict check c p\<rparr>)"

definition marked_claims :: "proof_check \<Rightarrow> proof_state \<Rightarrow> (string, claim) kv" where
  "marked_claims check st = map (\<lambda>(k, c). (k, mark check st k c)) (Claims st)"

lemma map_of_map_keyed: "map_of (map (\<lambda>(k, c). (k, f k c)) xs) k = map_option (f k) (map_of xs k)"
  by (induction xs) auto

lemma map_of_marked_claims:
  "map_of (marked_claims check st) k = map_option (mark check st k) (map_of (Claims st) k)"
  unfolding marked_claims_def by (rule map_of_map_keyed)

lemma kv_ok_marked_claims: "kv_ok (Claims st) \<Longrightarrow> kv_ok (marked_claims check st)"
  unfolding marked_claims_def kv_ok_def by (simp add: comp_def case_prod_beta)

lemma upsert_status:
  assumes "cs.store_ok s" and "map_of (Claims s) k = Some c"
  shows "k = claim_key c"
    and "UpsertClaim (c\<lparr>Claim_ProofValidationStatus := x\<rparr>) s
         = s\<lparr>Claims := kv_set k (c\<lparr>Claim_ProofValidationStatus := x\<rparr>) (Claims s)\<rparr>"
proof -
  let ?c = "c\<lparr>Claim_ProofValidationStatus := x\<rparr>"
  have c: "k = cs.pkey c" "cs.named c" using cs.stored [OF assms] by simp_all
  then show k: "k = claim_key c" by simp
  have pk: "cs.pkey ?c = k" "cs.named ?c" using c by (simp_all add: claim_key_def cs.named_def)
  have i: "ClaimAddressIndex (UpsertClaim ?c s) = ClaimAddressIndex s"
    "ClaimHeightIndex (UpsertClaim ?c s) = ClaimHeightIndex s"
    using cs.upsert_same [of s ?c c] assms pk by simp_all
  have "Claims (UpsertClaim ?c s) = kv_set k ?c (Claims s)"
    using pk(1) cs.prim_upsert [of ?c s] by (simp add: cs.pkey_def claim_key_def)
  with i show "UpsertClaim ?c s = s\<lparr>Claims := kv_set k ?c (Claims s)\<rparr>"
    by (intro proof_state.equality) simp_all
qed

section \<open>The invariant of a run\<close>

definition pair_of :: "submitted_proof \<Rightarrow> string \<times> string" where
  "pair_of p = (Proof_SupplierOperatorAddress p, proof_session p)"

definition claim_of :: "proof_state \<Rightarrow> submitted_proof \<Rightarrow> claim option" where
  "claim_of st p = map_of (Claims st) (proof_key p)"

text \<open>What a finished task has added to the processed proofs and to the two counters.\<close>

definition done_pair :: "proof_state \<Rightarrow> submitted_proof \<Rightarrow> task \<Rightarrow> (string \<times> string) multiset" where
  "done_pair st p t = (if t = Finished \<and> claim_of st p \<noteq> None then {# pair_of p #} else {#})"

definition done_count :: "(claim_proof_status \<Rightarrow> bool) \<Rightarrow> proof_check \<Rightarrow> proof_state \<Rightarrow> submitted_proof \<Rightarrow> task \<Rightarrow> u64" where
  "done_count P check st p t =
     (case claim_of st p of None \<Rightarrow> 0
      | Some c \<Rightarrow> if t = Finished \<and> P (verdict check c p) then 1 else 0)"

fun task_ok :: "proof_check \<Rightarrow> proof_state \<Rightarrow> submitted_proof \<Rightarrow> claim option \<Rightarrow> task \<Rightarrow> bool" where
  "task_ok check st p cur (Todo q) \<longleftrightarrow> q = p \<and> cur = claim_of st p"
| "task_ok check st p cur (Checked c s q) \<longleftrightarrow>
     q = p \<and> claim_of st p = Some c \<and> check c p \<noteq> Inl Panic \<and> s = verdict check c p \<and> cur = Some c"
| "task_ok check st p cur Finished \<longleftrightarrow> (\<forall>c. claim_of st p = Some c \<longrightarrow> check c p \<noteq> Inl Panic) \<and> cur = map_option (mark check st (proof_key p)) (claim_of st p)"

definition run_inv :: "proof_check \<Rightarrow> proof_state \<Rightarrow> coordinator \<times> task list \<Rightarrow> bool" where
  "run_inv check st = (\<lambda>(vc, ts).
     let ps = GetAllProofs st; n = length ps; s = VC_Store vc in
     length ts = n
   \<and> (\<forall>i < n. task_ok check st (ps ! i) (map_of (Claims s) (proof_key (ps ! i))) (ts ! i))
   \<and> (\<forall>k. k \<notin> proof_key ` set ps \<longrightarrow> map_of (Claims s) k = map_of (Claims st) k)
   \<and> cs.store_ok s \<and> s\<lparr>Claims := Claims st\<rparr> = st
   \<and> mset (VC_Processed vc) = (\<Sum>i < n. done_pair st (ps ! i) (ts ! i))
   \<and> VC_NumValid vc = (\<Sum>i < n. done_count (\<lambda>x. x \<noteq> INVALID) check st (ps ! i) (ts ! i))
   \<and> VC_NumInvalid vc = (\<Sum>i < n. done_count (\<lambda>x. x = INVALID) check st (ps ! i) (ts ! i)))"

lemma sum_list_update:
  fixes f :: "nat \<Rightarrow> 'a \<Rightarrow> 'b :: comm_monoid_add"
  assumes "i < n" and "length ts = n" and "f i (ts ! i) = 0"
  shows "(\<Sum>j < n. f j (ts[i := t] ! j)) = (\<Sum>j < n. f j (ts ! j)) + f i t"
proof -
  have split: "(\<Sum>j < n. g j) = g i + (\<Sum>j \<in> {..<n} - {i}. g j)" for g :: "nat \<Rightarrow> 'b"
    using assms(1) by (intro sum.remove) simp_all
  have "(\<Sum>j \<in> {..<n} - {i}. f j (ts[i := t] ! j)) = (\<Sum>j \<in> {..<n} - {i}. f j (ts ! j))"
    by (rule sum.cong) auto
  then show ?thesis
    using split [of "\<lambda>j. f j (ts[i := t] ! j)"] split [of "\<lambda>j. f j (ts ! j)"] assms
    by (simp add: add.commute)
qed

lemma stored_proof_at:
  assumes "ps.store_ok st" and "i < length (GetAllProofs st)"
  shows "map_of (Proofs st) (proof_key (GetAllProofs st ! i)) = Some (GetAllProofs st ! i)"
proof -
  have e: "Proofs st ! i \<in> set (Proofs st)" using assms(2) by (simp add: GetAllProofs_def)
  obtain k p where kp: "Proofs st ! i = (k, p)" by (cases "Proofs st ! i")
  have "k = proof_key p" using ps.store_okD(4) [OF assms(1), of k p] e kp by simp
  then show ?thesis
    using e kp assms ps.store_okD(1) [OF assms(1)]
    by (simp add: GetAllProofs_def kv_ok_distinct map_of_is_SomeI)
qed

lemma proof_keys_distinct:
  assumes "ps.store_ok st" and "i < length (GetAllProofs st)" and "j < length (GetAllProofs st)"
    and "proof_key (GetAllProofs st ! i) = proof_key (GetAllProofs st ! j)"
  shows "GetAllProofs st ! i = GetAllProofs st ! j" and "i = j"
proof -
  show eq: "GetAllProofs st ! i = GetAllProofs st ! j"
    using stored_proof_at [OF assms(1,2)] stored_proof_at [OF assms(1,3)] assms(4) by (metis option.inject)
  have k: "fst (Proofs st ! l) = proof_key (GetAllProofs st ! l)" if "l < length (GetAllProofs st)" for l
    using that ps.store_okD(4) [OF assms(1), of "fst (Proofs st ! l)" "snd (Proofs st ! l)"]
    by (simp add: GetAllProofs_def)
  have n: "i < length (map fst (Proofs st))" "j < length (map fst (Proofs st))"
    using assms(2,3) by (simp_all add: GetAllProofs_def)
  have "map fst (Proofs st) ! i = map fst (Proofs st) ! j"
    using n k [OF assms(2)] k [OF assms(3)] assms(4) by (metis length_map nth_map)
  then show "i = j"
    using n kv_ok_distinct [OF ps.store_okD(1) [OF assms(1)]] by (metis nth_eq_iff_index_eq)
qed

lemma GetClaim_of_proof:
  "GetClaim s (proof_session p) (Proof_SupplierOperatorAddress p) = map_of (Claims s) (proof_key p)"
  by (simp add: GetClaim_def getClaimByPrimaryKey_def proof_key_def proof_keys_are_claim_keys)

lemma read_task:
  assumes "validateProof_read check s p = Inr t"
    and "map_of (Claims s) (proof_key p) = claim_of st p"
  shows "task_ok check st p (map_of (Claims s) (proof_key p)) t"
    and "done_pair st p t = {#}" and "done_count P check st p t = 0"
  using assms
  by (auto simp: validateProof_read_def GetClaim_of_proof done_pair_def done_count_def verdict_def
      split: option.splits sum.splits go_error.splits if_splits)

lemma not_done [simp]:
  "t \<noteq> Finished \<Longrightarrow> done_pair st p t = {#}" "t \<noteq> Finished \<Longrightarrow> done_count P check st p t = 0"
  by (simp_all add: done_pair_def done_count_def split: option.splits)

lemma read_total:
  assumes "map_of (Claims s) (proof_key p) = claim_of st p"
    and "\<And>c. claim_of st p = Some c \<Longrightarrow> check c p \<noteq> Inl Panic"
  obtains t where "validateProof_read check s p = Inr t"
proof (cases "claim_of st p")
  case None
  then show ?thesis using that assms(1) by (simp add: validateProof_read_def GetClaim_of_proof)
next
  case (Some c)
  then have np: "check c p \<noteq> Inl Panic" using assms(2) by simp
  show ?thesis
  proof (cases "check c p")
    case (Inl e)
    then show ?thesis
      using that np Some assms(1) by (cases e) (simp_all add: validateProof_read_def GetClaim_of_proof)
  next
    case (Inr u)
    then show ?thesis using that Some assms(1) by (simp add: validateProof_read_def GetClaim_of_proof)
  qed
qed

lemma run_inv_init:
  assumes "proof_stores_ok st"
  shows "run_inv check st (new_coordinator st, map Todo (GetAllProofs st))"
  using proof_stores_okD(1) [OF assms]
  by (simp add: run_inv_def Let_def new_coordinator_def claim_of_def)

lemma run_inv_read:
  assumes inv: "run_inv check st (vc, ts)" and i: "i < length ts" and t: "ts ! i = Todo p"
    and r: "validateProof_read check (VC_Store vc) p = Inr t"
  shows "run_inv check st (vc, ts[i := t])"
proof -
  let ?ps = "GetAllProofs st"
  have n: "length ts = length ?ps" "i < length ?ps" using inv i by (simp_all add: run_inv_def Let_def)
  have "task_ok check st (?ps ! i) (map_of (Claims (VC_Store vc)) (proof_key (?ps ! i))) (Todo p)"
    using inv n(2) t unfolding run_inv_def Let_def by fastforce
  then have p: "p = ?ps ! i" "map_of (Claims (VC_Store vc)) (proof_key p) = claim_of st p" by simp_all
  note rt = read_task [OF r p(2)]
  have "(\<Sum>j < length ?ps. done_pair st (?ps ! j) (ts[i := t] ! j))
      = (\<Sum>j < length ?ps. done_pair st (?ps ! j) (ts ! j)) + done_pair st (?ps ! i) t"
    using n t by (intro sum_list_update [of _ _ _ "\<lambda>j. done_pair st (?ps ! j)"]) (simp_all add: done_pair_def)
  moreover have "(\<Sum>j < length ?ps. done_count P check st (?ps ! j) (ts[i := t] ! j))
      = (\<Sum>j < length ?ps. done_count P check st (?ps ! j) (ts ! j)) + done_count P check st (?ps ! i) t" for P
    using n t by (intro sum_list_update [of _ _ _ "\<lambda>j. done_count P check st (?ps ! j)"])
      (simp_all add: done_count_def split: option.splits)
  moreover have "task_ok check st (?ps ! j) (map_of (Claims (VC_Store vc)) (proof_key (?ps ! j))) (ts[i := t] ! j)"
    if "j < length ?ps" for j
  proof (cases "j = i")
    case True
    then show ?thesis using rt(1) p(1) n by simp
  next
    case False
    then show ?thesis using inv that n by (simp add: run_inv_def Let_def)
  qed
  ultimately show ?thesis
    using inv rt p n by (simp add: run_inv_def Let_def)
qed

lemma run_inv_write:
  assumes ok: "proof_stores_ok st" and inv: "run_inv check st (vc, ts)" and i: "i < length ts"
    and t: "ts ! i = Checked c s p"
  shows "run_inv check st (validateProof_write c s p vc, ts[i := Finished])"
proof -
  let ?ps = "GetAllProofs st" and ?s = "VC_Store vc"
  let ?c = "c\<lparr>Claim_ProofValidationStatus := s\<rparr>" and ?k = "proof_key (GetAllProofs st ! i)"
  have n: "length ts = length ?ps" "i < length ?ps" using inv i by (simp_all add: run_inv_def Let_def)
  have "task_ok check st (?ps ! i) (map_of (Claims ?s) ?k) (Checked c s p)"
    using inv n(2) t unfolding run_inv_def Let_def by fastforce
  then have p: "p = ?ps ! i" "claim_of st p = Some c" "s = verdict check c p" "map_of (Claims ?s) ?k = Some c"
    "check c p \<noteq> Inl Panic"
    by simp_all
  have sok: "cs.store_ok ?s" and frame: "?s\<lparr>Claims := Claims st\<rparr> = st"
    using inv by (simp_all add: run_inv_def Let_def)
  have store: "UpsertClaim ?c ?s = ?s\<lparr>Claims := kv_set ?k ?c (Claims ?s)\<rparr>"
    and ck: "?k = claim_key c" using upsert_status [OF sok p(4)] by simp_all
  have look: "map_of (Claims (UpsertClaim ?c ?s)) l = (if l = ?k then Some ?c else map_of (Claims ?s) l)" for l
    by (simp add: store kv_simps)
  have sok': "cs.store_ok (UpsertClaim ?c ?s)"
    using sok cs.stored [OF sok p(4)] by (intro cs.store_ok_upsert) (simp_all add: cs.named_def)
  have frame': "(UpsertClaim ?c ?s)\<lparr>Claims := Claims st\<rparr> = st" using frame by (simp add: store)
  have mk: "mark check st ?k c = ?c"
    using stored_proof_at [OF proof_stores_okD(2) [OF ok] n(2)] p by (simp add: mark_def)
  have tasks: "task_ok check st (?ps ! j) (map_of (Claims (UpsertClaim ?c ?s)) (proof_key (?ps ! j)))
      (ts[i := Finished] ! j)" if j: "j < length ?ps" for j
  proof (cases "j = i")
    case True
    then show ?thesis using n mk p(1,2,5) by (simp add: look)
  next
    case False
    then have "proof_key (?ps ! j) \<noteq> ?k"
      using proof_keys_distinct(2) [OF proof_stores_okD(2) [OF ok] j n(2)] by blast
    then show ?thesis using inv j n False by (simp add: look run_inv_def Let_def)
  qed
  have pairs: "(\<Sum>j < length ?ps. done_pair st (?ps ! j) (ts[i := Finished] ! j))
      = (\<Sum>j < length ?ps. done_pair st (?ps ! j) (ts ! j)) + done_pair st (?ps ! i) Finished"
    using n t by (intro sum_list_update [of _ _ _ "\<lambda>j. done_pair st (?ps ! j)"]) (simp_all add: done_pair_def)
  have counts: "(\<Sum>j < length ?ps. done_count P check st (?ps ! j) (ts[i := Finished] ! j))
      = (\<Sum>j < length ?ps. done_count P check st (?ps ! j) (ts ! j)) + done_count P check st (?ps ! i) Finished" for P
    using n t by (intro sum_list_update [of _ _ _ "\<lambda>j. done_count P check st (?ps ! j)"])
      (simp_all add: done_count_def split: option.splits)
  have dp: "done_pair st (?ps ! i) Finished = {# pair_of p #}"
    "done_count P check st (?ps ! i) Finished = (if P s then 1 else 0)" for P
    using p by (simp_all add: done_pair_def done_count_def)
  have other: "map_of (Claims (UpsertClaim ?c ?s)) k = map_of (Claims st) k" if "k \<notin> proof_key ` set ?ps" for k
    using inv that n by (auto simp: look run_inv_def Let_def)
  show ?thesis
    using inv n tasks other sok' frame' pairs counts dp p(1)
    by (simp add: run_inv_def Let_def validateProof_write_def pair_of_def)
qed

lemma run_inv_steps:
  assumes ok: "proof_stores_ok st" and steps: "(validation_step check)\<^sup>*\<^sup>* x y" and inv: "run_inv check st x"
  shows "run_inv check st y"
  using steps inv
proof (induction rule: rtranclp_induct)
  case base
  then show ?case .
next
  case (step y z)
  from step(2) step.IH [OF step.prems] show ?case
    by (cases rule: validation_step.cases) (auto intro: run_inv_read run_inv_write [OF ok])
qed

section \<open>Every schedule ends in the same state\<close>

text \<open>What a complete schedule leaves: the claims are marked, and the processed proofs and the
  counters are sums over the proofs, which have no order.\<close>

lemma run_result:
  assumes ok: "proof_stores_ok st" and run: "validation_run check st vc"
  shows "VC_Store vc = st\<lparr>Claims := marked_claims check st\<rparr>"
    and "mset (VC_Processed vc) = (\<Sum>i < length (GetAllProofs st). done_pair st (GetAllProofs st ! i) Finished)"
    and "VC_NumValid vc = (\<Sum>i < length (GetAllProofs st).
           done_count (\<lambda>x. x \<noteq> INVALID) check st (GetAllProofs st ! i) Finished)"
    and "VC_NumInvalid vc = (\<Sum>i < length (GetAllProofs st).
           done_count (\<lambda>x. x = INVALID) check st (GetAllProofs st ! i) Finished)"
proof -
  let ?ps = "GetAllProofs st" and ?s = "VC_Store vc"
  obtain ts where steps: "(validation_step check)\<^sup>*\<^sup>* (new_coordinator st, map Todo ?ps) (vc, ts)"
    and fin: "list_all (\<lambda>t. t = Finished) ts" using run by (auto simp: validation_run_def)
  have inv: "run_inv check st (vc, ts)"
    using run_inv_steps [OF ok steps run_inv_init [OF ok]] .
  have n: "length ts = length ?ps" using inv by (simp add: run_inv_def Let_def)
  have f: "ts ! i = Finished" if "i < length ?ps" for i
    using fin that n by (simp add: list_all_length)
  have sums: "(\<Sum>i < length ?ps. g i (ts ! i)) = (\<Sum>i < length ?ps. g i Finished)"
    for g :: "nat \<Rightarrow> task \<Rightarrow> 'z :: comm_monoid_add" by (rule sum.cong) (simp_all add: f)
  have "map_of (Claims ?s) k = map_of (marked_claims check st) k" for k
  proof (cases "k \<in> proof_key ` set ?ps")
    case True
    then obtain i where i: "i < length ?ps" "k = proof_key (?ps ! i)" by (auto simp: in_set_conv_nth)
    then have "task_ok check st (?ps ! i) (map_of (Claims ?s) k) (ts ! i)"
      using inv by (simp add: run_inv_def Let_def)
    then show ?thesis using i f by (simp add: claim_of_def map_of_marked_claims)
  next
    case False
    have "map_of (Proofs st) k = None"
    proof (rule ccontr)
      assume "map_of (Proofs st) k \<noteq> None"
      then obtain p where p: "map_of (Proofs st) k = Some p" by auto
      then have "k = proof_key p" "p \<in> set ?ps"
        using ps.stored [OF proof_stores_okD(2) [OF ok] p]
        by (auto simp: GetAllProofs_def dest!: map_of_SomeD intro: rev_image_eqI)
      then show False using False by blast
    qed
    then have "mark check st k c = c" for c by (simp add: mark_def)
    then show ?thesis
      using inv False by (cases "map_of (Claims st) k") (simp_all add: run_inv_def Let_def map_of_marked_claims)
  qed
  moreover have "kv_ok (Claims ?s)" using inv by (simp add: run_inv_def Let_def cs.store_ok_def)
  moreover have "kv_ok (marked_claims check st)"
    using cs.store_okD(1) [OF proof_stores_okD(1) [OF ok]] by (rule kv_ok_marked_claims)
  ultimately have c: "Claims ?s = marked_claims check st" by (intro kv_ext) auto
  have "?s\<lparr>Claims := Claims st\<rparr> = st" using inv by (simp add: run_inv_def Let_def)
  then have "?s\<lparr>Claims := Claims st\<rparr>\<lparr>Claims := Claims ?s\<rparr> = st\<lparr>Claims := Claims ?s\<rparr>" by simp
  moreover have "?s\<lparr>Claims := Claims st\<rparr>\<lparr>Claims := Claims ?s\<rparr> = ?s"
    by (intro proof_state.equality) simp_all
  ultimately show "?s = st\<lparr>Claims := marked_claims check st\<rparr>" by (simp add: c)
  show "mset (VC_Processed vc) = (\<Sum>i < length ?ps. done_pair st (?ps ! i) Finished)"
    using inv sums [of "\<lambda>i. done_pair st (?ps ! i)"] by (simp add: run_inv_def Let_def)
  show "VC_NumValid vc = (\<Sum>i < length ?ps. done_count (\<lambda>x. x \<noteq> INVALID) check st (?ps ! i) Finished)"
    using inv sums [of "\<lambda>i. done_count (\<lambda>x. x \<noteq> INVALID) check st (?ps ! i)"]
    by (simp add: run_inv_def Let_def)
  show "VC_NumInvalid vc = (\<Sum>i < length ?ps. done_count (\<lambda>x. x = INVALID) check st (?ps ! i) Finished)"
    using inv sums [of "\<lambda>i. done_count (\<lambda>x. x = INVALID) check st (?ps ! i)"]
    by (simp add: run_inv_def Let_def)
qed

text \<open>The run in the order of the store is one of the schedules, and it exists when any does.\<close>

lemma replicate_Suc_append: "replicate k x @ x # xs = replicate (Suc k) x @ xs"
  by (induction k) simp_all

lemma sequential_run:
  assumes ok: "proof_stores_ok st"
    and nopanic: "\<And>p c. p \<in> set rest \<Longrightarrow> claim_of st p = Some c \<Longrightarrow> check c p \<noteq> Inl Panic"
    and steps: "(validation_step check)\<^sup>*\<^sup>* (new_coordinator st, map Todo (GetAllProofs st))
                  (vc, replicate k Finished @ map Todo rest)"
  shows "\<exists>vc'. foldR (validateProof check) vc rest = Inr vc' \<and> validation_run check st vc'"
  using nopanic steps
proof (induction rest arbitrary: vc k)
  case Nil
  then show ?case by (auto simp: validation_run_def list_all_iff intro!: exI [of _ "replicate k Finished"])
next
  case (Cons p rest)
  let ?ts = "replicate k Finished @ map Todo (p # rest)"
  have inv: "run_inv check st (vc, ?ts)"
    using run_inv_steps [OF ok Cons.prems(2) run_inv_init [OF ok]] .
  have n: "k < length (GetAllProofs st)" using inv by (simp add: run_inv_def Let_def)
  have "task_ok check st (GetAllProofs st ! k)
      (map_of (Claims (VC_Store vc)) (proof_key (GetAllProofs st ! k))) (?ts ! k)"
    using inv n unfolding run_inv_def Let_def by blast
  then have cur: "map_of (Claims (VC_Store vc)) (proof_key p) = claim_of st p"
    by (simp add: nth_append)
  have upd: "?ts[k := t] = replicate k Finished @ t # map Todo rest" for t by (simp add: list_update_append)
  have at: "k < length ?ts" "?ts ! k = Todo p" by (simp_all add: nth_append)
  obtain t where t: "validateProof_read check (VC_Store vc) p = Inr t"
    using read_total [OF cur] Cons.prems(1) [of p] by auto
  have s1: "(validation_step check)\<^sup>*\<^sup>* (new_coordinator st, map Todo (GetAllProofs st)) (vc, ?ts[k := t])"
    using Cons.prems(2) validation_step.read_claim [OF at t] by (rule rtranclp.rtrancl_into_rtrancl)
  have todo: "(\<exists>c s. t = Checked c s p) \<or> t = Finished"
    using t by (auto simp: validateProof_read_def split: option.splits sum.splits go_error.splits)
  obtain vc1 where vc1: "validateProof check vc p = Inr vc1"
    and s2: "(validation_step check)\<^sup>*\<^sup>* (new_coordinator st, map Todo (GetAllProofs st))
               (vc1, replicate k Finished @ Finished # map Todo rest)"
  proof (cases "t = Finished")
    case True
    then show ?thesis using that [of vc] t s1 upd by (simp add: validateProof_def)
  next
    case False
    then obtain c s where cs: "t = Checked c s p" using todo by blast
    have at2: "k < length (?ts[k := t])" "?ts[k := t] ! k = Checked c s p" using cs by simp_all
    have "(validation_step check)\<^sup>*\<^sup>* (new_coordinator st, map Todo (GetAllProofs st))
            (validateProof_write c s p vc, (?ts[k := t])[k := Finished])"
      using s1 validation_step.write_claim [OF at2] by (rule rtranclp.rtrancl_into_rtrancl)
    then show ?thesis
      using that [of "validateProof_write c s p vc"] t cs upd
      by (simp add: validateProof_def)
  qed
  have "\<exists>vc'. foldR (validateProof check) vc1 rest = Inr vc' \<and> validation_run check st vc'"
    using Cons.IH [OF _ s2 [unfolded replicate_Suc_append]] Cons.prems(1) by simp
  then show ?case using vc1 by simp
qed

lemma sequential_steps:
  assumes "foldR (validateProof check) vc rest = Inr vc'"
  shows "(validation_step check)\<^sup>*\<^sup>* (vc, replicate k Finished @ map Todo rest)
           (vc', replicate (k + length rest) Finished)"
  using assms
proof (induction rest arbitrary: vc k)
  case Nil
  then show ?case by simp
next
  case (Cons p rest)
  let ?ts = "replicate k Finished @ Todo p # map Todo rest"
  obtain t vc1 where t: "validateProof_read check (VC_Store vc) p = Inr t"
    and vc1: "(case t of Checked c s q \<Rightarrow> Inr (validateProof_write c s q vc) | _ \<Rightarrow> Inr vc) = (Inr vc1 :: coordinator res)"
    and rest: "foldR (validateProof check) vc1 rest = Inr vc'"
  proof -
    obtain vc1 where v: "validateProof check vc p = Inr vc1" "foldR (validateProof check) vc1 rest = Inr vc'"
      using Cons.prems by (auto simp: res_simps)
    then show ?thesis using that by (auto simp: validateProof_def [of check vc p] res_simps)
  qed
  have upd: "?ts[k := x] = replicate k Finished @ x # map Todo rest" for x by (simp add: list_update_append)
  have s1: "validation_step check (vc, ?ts) (vc, ?ts[k := t])"
    by (rule validation_step.read_claim [OF _ _ t]) (simp_all add: nth_append)
  have todo: "(\<exists>c s. t = Checked c s p) \<or> t = Finished"
    using t by (auto simp: validateProof_read_def split: option.splits sum.splits go_error.splits)
  have s2: "(validation_step check)\<^sup>*\<^sup>* (vc, ?ts[k := t]) (vc1, replicate (Suc k) Finished @ map Todo rest)"
  proof (cases "t = Finished")
    case True
    then show ?thesis using vc1 by (simp add: upd replicate_Suc_append del: replicate_Suc)
  next
    case False
    then obtain c s where cs: "t = Checked c s p" using todo by blast
    have "validation_step check (vc, ?ts[k := t]) (validateProof_write c s p vc, (?ts[k := t])[k := Finished])"
      by (rule validation_step.write_claim) (simp_all add: cs)
    then show ?thesis
      using vc1 cs
      by (auto simp: upd list_update_append replicate_Suc_append simp del: replicate_Suc
          intro: r_into_rtranclp)
  qed
  show ?case
    using converse_rtranclp_into_rtranclp [OF s1 rtranclp_trans [OF s2 Cons.IH [OF rest, of "Suc k"]]]
    by simp
qed

lemma sequential_result:
  assumes "foldR (validateProof check) (new_coordinator st) (GetAllProofs st) = Inr vc"
  shows "validation_run check st vc"
  using sequential_steps [OF assms, of 0]
  by (auto simp: validation_run_def list_all_iff intro!: exI [of _ "replicate (length (GetAllProofs st)) Finished"])

lemma run_has_no_panic:
  assumes ok: "proof_stores_ok st" and run: "validation_run check st vc"
    and p: "p \<in> set (GetAllProofs st)" and c: "claim_of st p = Some c"
  shows "check c p \<noteq> Inl Panic"
proof -
  obtain ts where steps: "(validation_step check)\<^sup>*\<^sup>* (new_coordinator st, map Todo (GetAllProofs st)) (vc, ts)"
    and fin: "list_all (\<lambda>t. t = Finished) ts" using run by (auto simp: validation_run_def)
  have inv: "run_inv check st (vc, ts)"
    using run_inv_steps [OF ok steps run_inv_init [OF ok]] .
  obtain i where i: "i < length (GetAllProofs st)" "p = GetAllProofs st ! i"
    using p by (auto simp: in_set_conv_nth)
  have "task_ok check st p (map_of (Claims (VC_Store vc)) (proof_key p)) (ts ! i)"
    using inv i unfolding run_inv_def Let_def by blast
  moreover have "ts ! i = Finished"
    using fin i inv by (simp add: list_all_length run_inv_def Let_def)
  ultimately show ?thesis using c by simp
qed

lemma sequential_exists:
  assumes ok: "proof_stores_ok st"
    and nopanic: "\<And>p c. p \<in> set (GetAllProofs st) \<Longrightarrow> claim_of st p = Some c \<Longrightarrow> check c p \<noteq> Inl Panic"
  obtains vc where "foldR (validateProof check) (new_coordinator st) (GetAllProofs st) = Inr vc"
    and "validation_run check st vc"
  using sequential_run [OF ok, of "GetAllProofs st" check "new_coordinator st" 0] nopanic by auto

section \<open>Removing the processed proofs\<close>

lemma kv_del_commute: "kv_del a (kv_del b s) = kv_del b (kv_del a s)"
  by (simp add: kv_del_def) (metis (no_types, lifting) conj_commute filter_cong)

lemma RemoveProof_key:
  "ProofPrimaryKey i x = ProofPrimaryKey j y \<Longrightarrow> RemoveProof i x st = RemoveProof j y st"
  by (simp add: RemoveProof_def Let_def)

lemma RemoveProof_commute:
  "RemoveProof i x (RemoveProof j y st) = RemoveProof j y (RemoveProof i x st)"
proof (cases "ProofPrimaryKey i x = ProofPrimaryKey j y")
  case True
  then show ?thesis by (simp add: RemoveProof_key [OF True])
next
  case False
  then show ?thesis
    by (cases "map_of (Proofs st) (ProofPrimaryKey i x)"; cases "map_of (Proofs st) (ProofPrimaryKey j y)")
      (simp_all add: RemoveProof_def Let_def getProofByPrimaryKey_def kv_simps kv_del_commute)
qed

lemma remove_processed_order:
  assumes "mset xs = mset ys"
  shows "remove_processed xs st = remove_processed ys st"
proof -
  have "fold (\<lambda>(a, i). RemoveProof i a) xs = fold (\<lambda>(a, i). RemoveProof i a) ys"
    by (rule fold_multiset_equiv [OF _ assms]) (auto simp: fun_eq_iff RemoveProof_commute)
  then show ?thesis by (simp add: remove_processed_def)
qed

end
