(* ===== verification/ProofChain.thy ===== *)
theory ProofChain
  imports ProofBlock
begin

text \<open>
  The proof module as a transition system: claims, proofs, governance updates, and the end of a
  block, where the stored proofs are validated and the tokenomics module then removes claims. What
  an accepted message has checked, and the invariants every reachable state keeps.
\<close>

section \<open>What accepted messages have checked\<close>

lemma hex_digit_no_slash: "d < 16 \<Longrightarrow> hex_digit d \<noteq> CHR ''/''"
proof -
  assume "d < 16"
  then have "d \<in> set [0..<16]" by simp
  moreover have "list_all (\<lambda>d. hex_digit d \<noteq> CHR ''/'') [0..<16]" by code_simp
  ultimately show ?thesis by (simp add: list_all_iff)
qed

lemma no_slash_hex: "no_slash (hex_EncodeToString bz)"
proof -
  have c: "(of_char c :: nat) < 256" for c :: char
    using of_char_mod_256 [of c, where ?'a = nat] by (metis mod_less_divisor zero_less_numeral)
  have "(of_char c div 16 :: nat) < 16" for c :: char using c [of c] by linarith
  then have "hex_digit (of_char c div 16) \<noteq> CHR ''/'' \<and> hex_digit (of_char c mod 16) \<noteq> CHR ''/''" for c :: char
    by (simp add: hex_digit_no_slash)
  then show ?thesis by (auto simp: no_slash_def hex_EncodeToString_def) metis+
qed

lemma case_option_Inl_iff [res_simps]:
  "(case x of None \<Rightarrow> Inl e | Some y \<Rightarrow> f y) = Inr z \<longleftrightarrow> (\<exists>y. x = Some y \<and> f y = Inr z)"
  by (cases x) simp_all

text \<open>The header checked is the session at the header's start height; of the header itself only the
  identifier is compared.\<close>

lemma queryAndValidateSessionHeader_Inr:
  assumes "queryAndValidateSessionHeader sdk sha3 env header x = Inr s"
  shows "GetSession sdk sha3 env (Some \<lparr>GSR_ApplicationAddress = GetHeaderApplicationAddress header,
           GSR_ServiceId = GetHeaderServiceId header, GSR_BlockHeight = GetHeaderStartHeight header\<rparr>) = Inr s"
    and "GetHeaderSessionId header = Session_Id s"
    and "\<exists>z \<in> set (Session_Suppliers s). OperatorAddress z = x"
  using assms
  by (auto simp: queryAndValidateSessionHeader_def res_simps foundSupplier_def list_ex_iff)

lemma GetSession_Inr:
  assumes "GetSession sdk sha3 env (Some req) = Inr s"
  obtains h where "h = (if GSR_BlockHeight req > 0 then GSR_BlockHeight req else E_Height env)"
    and "HydrateSession sha3 env (NewSessionHydrator (GSR_ApplicationAddress req) (GSR_ServiceId req) h) = Inr s"
    and "GetSessionRequest_ValidateBasic sdk req = Inr ()"
  using assms by (auto simp: GetSession_def res_simps Let_def)

lemma session_id_no_slash:
  assumes "queryAndValidateSessionHeader sdk sha3 env header x = Inr s"
  shows "no_slash (GetHeaderSessionId header)"
proof -
  note q = queryAndValidateSessionHeader_Inr [OF assms]
  obtain h where "HydrateSession sha3 env (NewSessionHydrator (GetHeaderApplicationAddress header)
      (GetHeaderServiceId header) h) = Inr s"
    using q(1) by (elim GetSession_Inr) simp
  then obtain start idBz where "GetSessionId sha3 (GetParamsAtHeight (E_Shared env) h)
      (GetHeaderApplicationAddress header) (GetHeaderServiceId header)
      (GetBlockHash (E_Session env) start) h = Inr (Session_Id s, idBz)"
    by (rule HydrateSession_Inr) simp
  then have "\<exists>bz. Session_Id s = hex_EncodeToString bz"
    by (auto simp: GetSessionId_def res_simps Let_def intro: sym)
  then show ?thesis using q(2) no_slash_hex by auto
qed

lemma header_some [simp]:
  "GetHeaderSessionId (Some h) = SH_SessionId h" "GetHeaderServiceId (Some h) = SH_ServiceId h"
  "GetHeaderApplicationAddress (Some h) = SH_ApplicationAddress h"
  "GetHeaderStartHeight (Some h) = SH_SessionStartBlockHeight h"
  "GetHeaderEndHeight (Some h) = SH_SessionEndBlockHeight h"
  by (simp_all add: header_getters)

text \<open>The claim a message makes, and all that its acceptance implies.\<close>

definition claim_of_msg :: "msg_create_claim \<Rightarrow> claim" where
  "claim_of_msg msg = \<lparr>Claim_SupplierOperatorAddress = MCC_SupplierOperatorAddress msg,
     Claim_SessionHeader = MCC_SessionHeader msg, Claim_RootHash = MCC_RootHash msg,
     Claim_ProofValidationStatus = PENDING_VALIDATION\<rparr>"

lemma CreateClaim_Inr:
  assumes "CreateClaim sdk sha3 ext env msg st = Inr (st', ev)"
  obtains header s numRelays cupr difficulty where "MCC_SessionHeader msg = Some header"
    and "MsgCreateClaim_ValidateBasic sdk ext msg = Inr ()"
    and "queryAndValidateSessionHeader sdk sha3 (PE_Session env) (Some header)
           (MCC_SupplierOperatorAddress msg) = Inr s"
    and "validateClaimWindow (env_shared env) (env_height env) (Some header)
           (MCC_SupplierOperatorAddress msg) = Inr ()"
    and "rootCount ext (MCC_RootHash msg) = Inr numRelays"
    and "GetServiceComputeUnitsPerRelayAtHeight (PE_Service env) (SH_ServiceId header)
           (SH_SessionStartBlockHeight header) = Some cupr"
    and "rootSum ext (MCC_RootHash msg) = Inr (numRelays * cupr)"
    and "GetRelayMiningDifficultyAtHeight (PE_Service env) (GetHeaderServiceId (Session_Header s))
           (SH_SessionStartBlockHeight header) = Inr difficulty"
    and "GetClaimeduPOKT ext (claim_of_msg msg) (GetParamsAtHeight (env_shared env)
           (SH_SessionStartBlockHeight header)) difficulty = Inr (CE_ClaimedUpokt ev)"
    and "st' = UpsertClaim (claim_of_msg msg) st"
    and "CE_IsUpdate ev \<longleftrightarrow> GetClaim st (SH_SessionId header) (MCC_SupplierOperatorAddress msg) \<noteq> None"
    and "CE_NumRelays ev = numRelays" and "CE_NumClaimedComputeUnits ev = numRelays * cupr"
    and "CE_NumEstimatedComputeUnits ev = numRelays * cupr"
proof -
  have "\<exists>header. MCC_SessionHeader msg = Some header"
    using assms by (auto simp: CreateClaim_def res_simps MsgCreateClaim_ValidateBasic_def Let_def
      split: option.splits if_splits)
  then show ?thesis
    using that assms
    by (auto simp: CreateClaim_def res_simps Let_def GetNumRelays_def GetNumClaimedComputeUnits_def
      getServiceComputeUnitsPerRelay_def claim_of_msg_def split: option.splits if_splits)
qed

lemma claim_key_of_msg:
  "MCC_SessionHeader msg = Some header \<Longrightarrow>
     claim_key (claim_of_msg msg) = ClaimPrimaryKey (SH_SessionId header) (MCC_SupplierOperatorAddress msg)"
  by (simp add: claim_key_def claim_of_msg_def)

lemma CreateClaim_named:
  assumes "CreateClaim sdk sha3 ext env msg st = Inr (st', ev)" and "bech32_no_slash sdk"
  shows "cs.named (claim_of_msg msg)"
  using assms(1)
proof (rule CreateClaim_Inr)
  fix header s
  assume h: "MCC_SessionHeader msg = Some header"
    and v: "MsgCreateClaim_ValidateBasic sdk ext msg = Inr ()"
    and q: "queryAndValidateSessionHeader sdk sha3 (PE_Session env) (Some header)
        (MCC_SupplierOperatorAddress msg) = Inr s"
  have "isBech32 sdk (MCC_SupplierOperatorAddress msg)"
    using v by (auto simp: MsgCreateClaim_ValidateBasic_def split: if_splits)
  then show ?thesis
    using session_id_no_slash [OF q] assms(2) h
    by (simp add: cs.named_def claim_of_msg_def bech32_no_slash_def)
qed

text \<open>An accepted proof.\<close>

lemma EnsureWellFormedProof_Inr:
  assumes "EnsureWellFormedProof sdk sha3 rx sx env st p = Inr ()"
  obtains s where "queryAndValidateSessionHeader sdk sha3 (PE_Session env) (Proof_SessionHeader p)
           (Proof_SupplierOperatorAddress p) = Inr s"
    and "validateProofWindow (env_shared env) (env_height env) (Session_Header s)
           (Proof_SupplierOperatorAddress p) = Inr ()"
    and "validateSessionClaim st (Session_Header s) (Proof_SupplierOperatorAddress p) = Inr ()"
  using assms
  by (auto simp: EnsureWellFormedProof_def res_simps Let_def)

lemma SubmitProof_Inr:
  assumes "SubmitProof sdk spendable sha3 ext rx sx env msg (st, lg) = Inr (st', lg', ev)"
  obtains header c requirement where "MSP_SessionHeader msg = Some header"
    and "isBech32 sdk (MSP_SupplierOperatorAddress msg)"
    and "EnsureWellFormedProof sdk sha3 rx sx env st (newProofFromMsg msg) = Inr ()"
    and "GetClaim st (SH_SessionId header) (MSP_SupplierOperatorAddress msg) = Some c"
    and "deductProofSubmissionFee sdk spendable (Proof_GetParams st) (MSP_SupplierOperatorAddress msg) lg = Inr lg'"
    and "ProofRequirementForClaim ext (env_shared env) (PE_Service env) (E_Session (PE_Session env))
           (Proof_GetParams st) c = Inr requirement" and "requirement \<noteq> NOT_REQUIRED"
    and "st' = UpsertProof (newProofFromMsg msg) st"
proof -
  have "\<exists>header. MSP_SessionHeader msg = Some header" and "isBech32 sdk (MSP_SupplierOperatorAddress msg)"
    using assms by (auto simp: SubmitProof_def res_simps MsgSubmitProof_ValidateBasic_def Let_def
      split: option.splits if_splits)
  then show ?thesis
    using that assms
    by (auto simp: SubmitProof_def res_simps Let_def split: option.splits if_splits)
qed

lemma proof_key_of_msg:
  "MSP_SessionHeader msg = Some header \<Longrightarrow>
     proof_key (newProofFromMsg msg) = ClaimPrimaryKey (SH_SessionId header) (MSP_SupplierOperatorAddress msg)"
  by (simp add: proof_key_def newProofFromMsg_def proof_keys_are_claim_keys)

section \<open>The end of a block\<close>

lemma remove_processed_frame [simp]:
  "Claims (remove_processed xs st) = Claims st"
  "ClaimAddressIndex (remove_processed xs st) = ClaimAddressIndex st"
  "ClaimHeightIndex (remove_processed xs st) = ClaimHeightIndex st"
  "Proof_ParamsStore (remove_processed xs st) = Proof_ParamsStore st"
  by (induction xs arbitrary: st) (auto simp: remove_processed_def)

lemma remove_processed_store_ok: "ps.store_ok st \<Longrightarrow> ps.store_ok (remove_processed xs st)"
  by (induction xs arbitrary: st) (auto simp: remove_processed_def intro: ps.store_ok_remove)

lemma remove_processed_lookup:
  "map_of (Proofs (remove_processed xs st)) k
     = (if \<exists>(a, i) \<in> set xs. k = ClaimPrimaryKey i a then None else map_of (Proofs st) k)"
proof (induction xs arbitrary: st)
  case Nil
  then show ?case by (simp add: remove_processed_def)
next
  case (Cons x xs)
  obtain a i where x: "x = (a, i)" by (cases x)
  have "remove_processed (x # xs) st = remove_processed xs (RemoveProof i a st)"
    by (simp add: remove_processed_def x)
  then show ?case using Cons.IH [of "RemoveProof i a st"] by (auto simp: x ps.lookup_remove)
qed

lemma processed_all:
  assumes ok: "proof_stores_ok st" and run: "validation_run check st vc"
    and k: "map_of (Proofs st) k = Some p"
  shows "\<exists>(a, i) \<in> set (VC_Processed vc). k = ClaimPrimaryKey i a"
proof -
  have kp: "k = proof_key p" using ps.stored [OF proof_stores_okD(2) [OF ok] k] by simp
  have "p \<in> set (GetAllProofs st)"
    using k by (auto simp: GetAllProofs_def dest!: map_of_SomeD intro: rev_image_eqI)
  then obtain j where j: "j < length (GetAllProofs st)" "p = GetAllProofs st ! j"
    by (auto simp: in_set_conv_nth)
  have "claim_of st p \<noteq> None"
    using proof_stores_okD(3) [OF ok k] by (auto simp: claim_of_def kp)
  then have "pair_of p \<in># done_pair st (GetAllProofs st ! j) Finished" using j by (simp add: done_pair_def)
  moreover have "done_pair st (GetAllProofs st ! j) Finished \<subseteq># mset (VC_Processed vc)"
    unfolding run_result(2) [OF ok run] using j
    by (subst sum.remove [of "{..<length (GetAllProofs st)}" j]) simp_all
  ultimately have "pair_of p \<in># mset (VC_Processed vc)" by (rule mset_subset_eqD [rotated])
  then have "pair_of p \<in> set (VC_Processed vc)" by simp
  then show ?thesis by (auto simp: pair_of_def kp proof_key_def proof_keys_are_claim_keys intro!: bexI [of _ "pair_of p"])
qed

lemma kv_empty: "(\<And>k. map_of s k = None) \<Longrightarrow> s = []"
  by (simp add: map_of_eq_empty_iff [symmetric] fun_eq_iff)

lemma ValidateSubmittedProofs_Inr:
  assumes ok: "proof_stores_ok st" and v: "ValidateSubmittedProofs check st = Inr (st', nv, ni)"
  obtains vc where "validation_run check st vc" and "st' = remove_processed (VC_Processed vc) (VC_Store vc)"
    and "nv = VC_NumValid vc" and "ni = VC_NumInvalid vc"
proof -
  obtain vc where vc: "foldR (validateProof check) (new_coordinator st) (GetAllProofs st) = Inr vc"
    and r: "st' = remove_processed (VC_Processed vc) (VC_Store vc)" "nv = VC_NumValid vc" "ni = VC_NumInvalid vc"
    using v by (auto simp: ValidateSubmittedProofs_def res_simps)
  have "validation_run check st vc" using sequential_result [OF vc] .
  then show ?thesis using that r by blast
qed

text \<open>The validated store: claims marked, proofs gone, indexes and parameters as they were.\<close>

lemma validated_store:
  assumes ok: "proof_stores_ok st" and v: "ValidateSubmittedProofs check st = Inr (st', nv, ni)"
  shows "Claims st' = marked_claims check st" and "Proofs st' = []" and "ProofAddressIndex st' = []"
    and "ClaimAddressIndex st' = ClaimAddressIndex st" and "ClaimHeightIndex st' = ClaimHeightIndex st"
    and "Proof_ParamsStore st' = Proof_ParamsStore st" and "ps.store_ok st'"
proof -
  obtain vc where vc: "validation_run check st vc" "st' = remove_processed (VC_Processed vc) (VC_Store vc)"
    by (rule ValidateSubmittedProofs_Inr [OF ok v])
  note store = run_result(1) [OF ok vc(1)]
  show "Claims st' = marked_claims check st" "ClaimAddressIndex st' = ClaimAddressIndex st"
    "ClaimHeightIndex st' = ClaimHeightIndex st" "Proof_ParamsStore st' = Proof_ParamsStore st"
    by (simp_all add: vc(2) store)
  have "ps.store_ok (VC_Store vc)"
    using proof_stores_okD(2) [OF ok] by (simp add: store ps.store_ok_def ps.listed_def)
  then show s: "ps.store_ok st'" by (simp add: vc(2) remove_processed_store_ok)
  have "map_of (Proofs st') k = None" for k
    using processed_all [OF ok vc(1), of k]
    by (cases "map_of (Proofs st) k") (auto simp: vc(2) remove_processed_lookup store)
  then show p: "Proofs st' = []" by (rule kv_empty)
  show "ProofAddressIndex st' = []"
  proof (rule ccontr)
    assume "ProofAddressIndex st' \<noteq> []"
    then obtain k v xs where "ProofAddressIndex st' = (k, v) # xs" by (metis list.exhaust surj_pair)
    then have "\<exists>p. map_of (Proofs st') v = Some p" using s by (auto simp: ps.store_ok_def)
    then show False by (simp add: p)
  qed
qed

lemma listed_cong:
  assumes "claim_key d = claim_key c" and "Claim_SupplierOperatorAddress d = Claim_SupplierOperatorAddress c"
    and "claim_end d = claim_end c" and "ClaimAddressIndex t = ClaimAddressIndex s"
    and "ClaimHeightIndex t = ClaimHeightIndex s"
  shows "cs.listed t d = cs.listed s c"
  using assms by (simp add: cs.listed_def)

lemma mark_same [simp]:
  "Claim_SessionHeader (mark check st k c) = Claim_SessionHeader c"
  "Claim_SupplierOperatorAddress (mark check st k c) = Claim_SupplierOperatorAddress c"
  "Claim_RootHash (mark check st k c) = Claim_RootHash c" "claim_key (mark check st k c) = claim_key c"
  "cs.named (mark check st k c) = cs.named c"
  by (simp_all add: mark_def claim_key_def cs.named_def split: option.splits)

lemma validated_store_ok:
  assumes ok: "proof_stores_ok st" and v: "ValidateSubmittedProofs check st = Inr (st', nv, ni)"
  shows "proof_stores_ok st'"
proof -
  note vs = validated_store [OF ok v]
  have cok: "cs.store_ok st" by (rule proof_stores_okD(1) [OF ok])
  have l: "cs.listed st' (mark check st k c) = cs.listed st c" for k c
    by (rule listed_cong) (simp_all add: vs)
  have "cs.store_ok st'"
    unfolding cs.store_ok_def
  proof (intro conjI ballI; clarify?)
    show "kv_ok (Claims st')" using cs.store_okD(1) [OF cok] by (simp add: vs kv_ok_marked_claims)
    show "kv_ok (ClaimAddressIndex st')" "kv_ok (ClaimHeightIndex st')"
      using cs.store_okD(2,3) [OF cok] by (simp_all add: vs)
  next
    fix k c assume "(k, c) \<in> set (Claims st')"
    then obtain d where "(k, d) \<in> set (Claims st)" "c = mark check st k d"
      by (auto simp: vs marked_claims_def)
    then show "k = cs.pkey c \<and> cs.named c \<and> cs.listed st' c"
      using cs.store_okD(4) [OF cok] l by simp
  next
    fix k v assume "(k, v) \<in> set (ClaimAddressIndex st')"
    then obtain d where "map_of (Claims st) v = Some d"
      "k = ClaimSupplierOperatorAddressKey (Claim_SupplierOperatorAddress d) v"
      using cok by (auto simp: vs cs.store_ok_def)
    then show "\<exists>c. map_of (Claims st') v = Some c
        \<and> k = ClaimSupplierOperatorAddressKey (Claim_SupplierOperatorAddress c) v"
      by (simp add: vs map_of_marked_claims)
  next
    fix k v assume "(k, v) \<in> set (ClaimHeightIndex st')"
    then show "\<exists>h. k = ClaimSupplierEndSessionHeightKey h v"
      using cok by (auto simp: vs cs.store_ok_def)
  qed
  then show ?thesis using vs(2,7) by (simp add: proof_stores_ok_def)
qed

section \<open>The module's steps\<close>

definition remove_claims :: "(string \<times> string) list \<Rightarrow> proof_state \<Rightarrow> proof_state" where
  "remove_claims removed st = fold (\<lambda>(sessionId, supplier). RemoveClaim sessionId supplier) removed st"

lemma remove_claims_frame [simp]:
  "Proofs (remove_claims rs st) = Proofs st" "ProofAddressIndex (remove_claims rs st) = ProofAddressIndex st"
  "ProofHeightIndex (remove_claims rs st) = ProofHeightIndex st"
  "Proof_ParamsStore (remove_claims rs st) = Proof_ParamsStore st"
  by (induction rs arbitrary: st) (auto simp: remove_claims_def)

lemma remove_claims_store_ok: "cs.store_ok st \<Longrightarrow> cs.store_ok (remove_claims rs st)"
  by (induction rs arbitrary: st) (auto simp: remove_claims_def intro: cs.store_ok_remove)

lemma remove_claims_lookup:
  "map_of (Claims (remove_claims rs st)) k = Some c \<Longrightarrow> map_of (Claims st) k = Some c"
proof (induction rs arbitrary: st)
  case Nil
  then show ?case by (simp add: remove_claims_def)
next
  case (Cons r rs)
  obtain i x where r: "r = (i, x)" by (cases r)
  have "remove_claims (r # rs) st = remove_claims rs (RemoveClaim i x st)"
    by (simp add: remove_claims_def r)
  then show ?case using Cons.IH [of "RemoveClaim i x st"] Cons.prems
    by (auto simp: cs.lookup_remove split: if_splits)
qed

text \<open>The external functions and accounts are fixed; what a step reads of the other modules is
  arbitrary. At the end of a block the stored proofs are validated, in some schedule, and then the
  tokenomics module removes the claims it has dealt with.\<close>

inductive proof_step ::
    "sdk \<Rightarrow> (bank_log \<Rightarrow> string \<Rightarrow> coin list) \<Rightarrow> (string \<Rightarrow> string) \<Rightarrow> claim_deps \<Rightarrow> 'r relay_deps
     \<Rightarrow> ('c, 'd) smt_deps \<Rightarrow> string \<Rightarrow> proof_state \<Rightarrow> proof_state \<Rightarrow> bool"
  for sdk spendable sha3 ext rx sx authority
where
  create: "CreateClaim sdk sha3 ext env msg st = Inr (st', ev)
      \<Longrightarrow> proof_step sdk spendable sha3 ext rx sx authority st st'"
| submit: "SubmitProof sdk spendable sha3 ext rx sx env pmsg (st, lg) = Inr (st', lg', ev)
      \<Longrightarrow> proof_step sdk spendable sha3 ext rx sx authority st st'"
| update_param: "Proof_UpdateParam sdk authority umsg st = Inr st'
      \<Longrightarrow> proof_step sdk spendable sha3 ext rx sx authority st st'"
| update_params: "Proof_UpdateParams sdk authority upd st = Inr st'
      \<Longrightarrow> proof_step sdk spendable sha3 ext rx sx authority st st'"
| end_block: "ValidateSubmittedProofs (proof_check_of sdk rx sx env') st = Inr (st1, nv, ni)
      \<Longrightarrow> proof_step sdk spendable sha3 ext rx sx authority st (remove_claims removed st1)"

definition empty_proof_state :: "proof_params \<Rightarrow> proof_state" where
  "empty_proof_state p = \<lparr>Claims = [], ClaimAddressIndex = [], ClaimHeightIndex = [], Proofs = [],
     ProofAddressIndex = [], ProofHeightIndex = [], Proof_ParamsStore = Some p\<rparr>"

section \<open>The invariant\<close>

text \<open>A claim on record is well-typed: it has a valid session header, a supplier address, a root of the right
  length whose count is positive and whose sum is that count times a rate.\<close>

definition claim_typed :: "sdk \<Rightarrow> claim_deps \<Rightarrow> claim \<Rightarrow> bool" where
  "claim_typed sdk ext c \<longleftrightarrow>
     (\<exists>h. Claim_SessionHeader c = Some h \<and> SessionHeader_ValidateBasic sdk h = Inr ())
   \<and> isBech32 sdk (Claim_SupplierOperatorAddress c)
   \<and> length (Claim_RootHash c) = TrieRootSize
   \<and> (\<exists>n cupr. rootCount ext (Claim_RootHash c) = Inr n \<and> n \<noteq> 0
        \<and> rootSum ext (Claim_RootHash c) = Inr (n * cupr) \<and> n * cupr \<noteq> 0)"

definition proof_inv :: "sdk \<Rightarrow> claim_deps \<Rightarrow> proof_state \<Rightarrow> bool" where
  "proof_inv sdk ext st \<longleftrightarrow> proof_stores_ok st
     \<and> (\<forall>k c. map_of (Claims st) k = Some c \<longrightarrow> claim_typed sdk ext c)
     \<and> Proof_Params_ValidateBasic (Proof_GetParams st) = Inr ()"

lemma MsgCreateClaim_typed:
  assumes "CreateClaim sdk sha3 ext env msg st = Inr (st', ev)"
  shows "claim_typed sdk ext (claim_of_msg msg)"
  using assms
proof (rule CreateClaim_Inr)
  fix header numRelays cupr
  assume h: "MCC_SessionHeader msg = Some header" "MsgCreateClaim_ValidateBasic sdk ext msg = Inr ()"
    and r: "rootCount ext (MCC_RootHash msg) = Inr numRelays"
      "rootSum ext (MCC_RootHash msg) = Inr (numRelays * cupr)"
  show ?thesis
    using h r by (auto simp: MsgCreateClaim_ValidateBasic_def claim_typed_def claim_of_msg_def res_simps)
qed

lemma claim_typed_status [simp]:
  "claim_typed sdk ext (c\<lparr>Claim_ProofValidationStatus := s\<rparr>) = claim_typed sdk ext c"
  by (simp add: claim_typed_def)

lemma params_frame [simp]:
  "Proof_GetParams (UpsertClaim c st) = Proof_GetParams st" "Proof_GetParams (UpsertProof p st) = Proof_GetParams st"
  "Proof_GetParams (Proof_SetParams q st) = q" "Claims (Proof_SetParams q st) = Claims st"
  "Proofs (Proof_SetParams q st) = Proofs st"
  by (simp_all add: Proof_GetParams_def Proof_SetParams_def)

theorem proof_step_inv:
  assumes step: "proof_step sdk spendable sha3 ext rx sx authority st st'"
    and inv: "proof_inv sdk ext st" and b: "bech32_no_slash sdk"
  shows "proof_inv sdk ext st'"
  using step
proof cases
  case (create env msg ev)
  have st': "st' = UpsertClaim (claim_of_msg msg) st" by (rule CreateClaim_Inr [OF create])
  then show ?thesis
    using inv CreateClaim_named [OF create b] MsgCreateClaim_typed [OF create]
    by (auto simp: proof_inv_def proof_stores_ok_upsert_claim cs.lookup_upsert split: if_splits)
next
  case (submit env pmsg lg lg' ev)
  obtain header c where s: "MSP_SessionHeader pmsg = Some header" "isBech32 sdk (MSP_SupplierOperatorAddress pmsg)"
    "EnsureWellFormedProof sdk sha3 rx sx env st (newProofFromMsg pmsg) = Inr ()"
    "GetClaim st (SH_SessionId header) (MSP_SupplierOperatorAddress pmsg) = Some c"
    "st' = UpsertProof (newProofFromMsg pmsg) st"
    by (rule SubmitProof_Inr [OF submit]) blast
  obtain sn where "queryAndValidateSessionHeader sdk sha3 (PE_Session env)
      (Proof_SessionHeader (newProofFromMsg pmsg)) (Proof_SupplierOperatorAddress (newProofFromMsg pmsg)) = Inr sn"
    by (rule EnsureWellFormedProof_Inr [OF s(3)])
  from session_id_no_slash [OF this] have "ps.named (newProofFromMsg pmsg)"
    using s(2) b by (simp add: ps.named_def newProofFromMsg_def bech32_no_slash_def)
  moreover have "map_of (Claims st) (proof_key (newProofFromMsg pmsg)) \<noteq> None"
    using s(4) by (simp add: proof_key_of_msg [OF s(1)] GetClaim_def getClaimByPrimaryKey_def)
  ultimately show ?thesis
    using inv by (simp add: proof_inv_def proof_stores_ok_upsert_proof s(5))
next
  case (update_param umsg)
  then show ?thesis
    using inv by (auto simp: Proof_UpdateParam_def proof_inv_def res_simps)
next
  case (update_params upd)
  then show ?thesis
    using inv by (auto simp: Proof_UpdateParams_def proof_inv_def res_simps split: prod.splits)
next
  case (end_block env' st1 nv ni removed)
  let ?check = "proof_check_of sdk rx sx env'"
  have ok: "proof_stores_ok st" using inv by (simp add: proof_inv_def)
  note vs = validated_store [OF ok end_block(2)]
  have "proof_stores_ok st1" by (rule validated_store_ok [OF ok end_block(2)])
  then have "proof_stores_ok st'"
    using vs(2) proof_store_cong [of st' st1]
    by (simp add: proof_stores_ok_def end_block(1) remove_claims_store_ok)
  moreover have "claim_typed sdk ext c" if "map_of (Claims st') k = Some c" for k c
  proof -
    have "map_of (marked_claims ?check st) k = Some c"
      using remove_claims_lookup [OF that [unfolded end_block(1)]] unfolding vs(1) .
    then obtain d where "map_of (Claims st) k = Some d" "c = mark ?check st k d"
      by (auto simp: map_of_marked_claims)
    then show ?thesis using inv by (auto simp: proof_inv_def mark_def split: option.splits)
  qed
  moreover have "Proof_GetParams st' = Proof_GetParams st" by (simp add: Proof_GetParams_def end_block(1) vs)
  ultimately show ?thesis using inv by (simp add: proof_inv_def)
qed

lemma empty_proof_inv: "Proof_Params_ValidateBasic p = Inr () \<Longrightarrow> proof_inv sdk ext (empty_proof_state p)"
  by (simp add: proof_inv_def proof_stores_ok_def cs.store_ok_def ps.store_ok_def empty_proof_state_def
    Proof_GetParams_def)

lemma proof_reachable_inv:
  assumes "(proof_step sdk spendable sha3 ext rx sx authority)\<^sup>*\<^sup>* (empty_proof_state p) st"
    and "Proof_Params_ValidateBasic p = Inr ()" and "bech32_no_slash sdk"
  shows "proof_inv sdk ext st"
  using assms(1)
  by (induction rule: rtranclp_induct) (auto intro: empty_proof_inv [OF assms(2)] proof_step_inv [OF _ _ assms(3)])

end
