(* ===== verification/FloatDecimal.thy ===== *)
theory FloatDecimal
  imports ProofChain
begin

text \<open>
  The float64 arithmetic of the tokenomics parameters and its way into exact rationals
  (\<open>pkg/encoding/decimal.go\<close>, \<open>x/tokenomics/types/mint_allocation_percentage.go\<close>). The sum,
  product and quotient of two float64 are the exact ones rounded to the nearest float64, ties to
  even: 53 significant bits down to the exponent \<open>-1074\<close>, an infinity from
  \<open>2 ^ 1024\<close> on. A negative zero is not told apart from zero. A float64 becomes a rational
  through its shortest decimal form: the decimal with the fewest digits that rounds to it.
\<close>

section \<open>Rounding to a float64\<close>

definition pow_rat :: "rat \<Rightarrow> int \<Rightarrow> rat" where
  "pow_rat b k = (if 0 \<le> k then b ^ nat k else 1 / b ^ nat (- k))"

text \<open>The \<open>e\<close> with \<open>2 ^ e \<le> r < 2 ^ (e + 1)\<close>, for a positive rational.\<close>

definition floor_log2 :: "rat \<Rightarrow> int" where
  "floor_log2 r =
     (case quotient_of r of (p, q) \<Rightarrow>
        let k = int (bits (nat p)) - int (bits (nat q))
        in if pow_rat 2 k \<le> r then k else k - 1)"

definition round_half_even :: "rat \<Rightarrow> int" where
  "round_half_even x =
     (let n = \<lfloor>x\<rfloor>; f = x - of_int n
      in if f < 1 / 2 then n else if f > 1 / 2 then n + 1 else if even n then n else n + 1)"

definition round_pos :: "rat \<Rightarrow> f64" where
  "round_pos r =
     (let e = max (floor_log2 r - 52) (- 1074);
          v = of_int (round_half_even (r / pow_rat 2 e)) * pow_rat 2 e
      in if 2 ^ 1024 \<le> v then PosInf else Fin v)"

fun f64_neg :: "f64 \<Rightarrow> f64" where
  "f64_neg NaN = NaN"
| "f64_neg (Fin r) = Fin (- r)"
| "f64_neg PosInf = NegInf"
| "f64_neg NegInf = PosInf"

definition f64_round :: "rat \<Rightarrow> f64" where
  "f64_round r = (if r = 0 then Fin 0 else if 0 < r then round_pos r else f64_neg (round_pos (- r)))"

text \<open>Multiplication by a positive finite constant, division by one, subtraction of one, absolute
  value, and the equality test, as the code uses them.\<close>

fun f64_scale :: "f64 \<Rightarrow> rat \<Rightarrow> f64" where
  "f64_scale (Fin r) c = f64_round (r * c)"
| "f64_scale x c = x"

fun f64_minus1 :: "f64 \<Rightarrow> f64" where
  "f64_minus1 (Fin r) = f64_round (r - 1)"
| "f64_minus1 x = x"

fun f64_abs :: "f64 \<Rightarrow> f64" where
  "f64_abs NaN = NaN"
| "f64_abs (Fin r) = Fin \<bar>r\<bar>"
| "f64_abs _ = PosInf"

fun f64_eq :: "f64 \<Rightarrow> f64 \<Rightarrow> bool" where
  "f64_eq NaN y = False"
| "f64_eq x y = (x = y)"

text \<open>\<open>math.Round\<close> rounds half away from zero. Converting a value outside of the int64 range
  gives \<open>math.MinInt64\<close>, as the amd64 instruction does (the language leaves it to the
  implementation).\<close>

fun f64_Round_int64 :: "f64 \<Rightarrow> int" where
  "f64_Round_int64 (Fin r) =
     (let n = (if r < 0 then - \<lfloor>- r + 1 / 2\<rfloor> else \<lfloor>r + 1 / 2\<rfloor>)
      in if in_i64 n then n else - (2 ^ 63))"
| "f64_Round_int64 x = - (2 ^ 63)"

section \<open>Shortest decimals\<close>

fun digits10 :: "nat \<Rightarrow> nat" where
  "digits10 n = (if n = 0 then 0 else Suc (digits10 (n div 10)))"

declare digits10.simps [simp del]

text \<open>The \<open>k\<close> with \<open>10 ^ (k - 1) \<le> r < 10 ^ k\<close>, for a positive rational.\<close>

definition dec_exp :: "rat \<Rightarrow> int" where
  "dec_exp r =
     (if 1 \<le> r then int (digits10 (nat \<lfloor>r\<rfloor>))
      else let k = 1 - int (digits10 (nat \<lfloor>1 / r\<rfloor>)) in if pow_rat 10 k \<le> r then k + 1 else k)"

text \<open>The decimals with \<open>n\<close> digits next to \<open>r\<close>, the nearer one first.\<close>

definition decimals_near :: "rat \<Rightarrow> nat \<Rightarrow> rat list" where
  "decimals_near r n =
     (let u = pow_rat 10 (dec_exp r - int n); lo = of_int \<lfloor>r / u\<rfloor> * u; hi = lo + u
      in if hi - r < r - lo then [hi, lo] else [lo, hi])"

text \<open>Seventeen digits tell all float64 apart. The value itself is the answer were they not to.\<close>

definition shortest_decimal :: "rat \<Rightarrow> rat" where
  "shortest_decimal r =
     (case find (\<lambda>d. f64_round d = Fin r) (concat (map (decimals_near r) [1..<18])) of
        Some d \<Rightarrow> d | None \<Rightarrow> r)"

text \<open>\<open>FormatFloat\<close> writes a NaN and the infinities as words, which are no rationals.\<close>

fun Float64ToRat :: "f64 \<Rightarrow> rat res" where
  "Float64ToRat (Fin r) =
     Inr (if r = 0 then 0 else if 0 < r then shortest_decimal r else - shortest_decimal (- r))"
| "Float64ToRat x = Inl ErrFmt"

section \<open>What the conversion preserves\<close>

lemma pow_rat_pos: "0 < b \<Longrightarrow> 0 < pow_rat b k"
  by (simp add: pow_rat_def)

lemma pow_rat_less_one_iff_aux: "k < 0 \<Longrightarrow> pow_rat 10 k < 1"
  by (simp add: pow_rat_def)

lemma pow_rat_split: "0 \<le> k \<Longrightarrow> pow_rat 10 (- k) * of_int (10 ^ nat k) = 1"
  by (simp add: pow_rat_def)

lemma shortest_decimal_cases:
  obtains "shortest_decimal r = r"
  | n where "1 \<le> n" and "shortest_decimal r \<in> set (decimals_near r n)"
    and "f64_round (shortest_decimal r) = Fin r"
proof (cases "find (\<lambda>d. f64_round d = Fin r) (concat (map (decimals_near r) [1..<18]))")
  case None
  then show ?thesis using that(1) by (simp add: shortest_decimal_def)
next
  case (Some d)
  then have s: "shortest_decimal r = d" by (simp add: shortest_decimal_def)
  from Some obtain i where "i < length (concat (map (decimals_near r) [1..<18]))"
    and "f64_round d = Fin r" and "d = concat (map (decimals_near r) [1..<18]) ! i"
    by (auto simp: find_Some_iff)
  then have "d \<in> set (concat (map (decimals_near r) [1..<18]))" by (metis nth_mem)
  then obtain n where "n \<in> set [1..<18]" and "d \<in> set (decimals_near r n)" by auto
  then show ?thesis using that(2) [of n] s \<open>f64_round d = Fin r\<close> by simp
qed

lemma decimals_near_nonneg:
  assumes "0 < r" and "d \<in> set (decimals_near r n)" shows "0 \<le> d"
proof -
  let ?u = "pow_rat 10 (dec_exp r - int n)"
  have "0 < ?u" by (simp add: pow_rat_pos)
  moreover from this have "0 \<le> \<lfloor>r / ?u\<rfloor>" using assms(1) by (simp add: divide_nonneg_pos)
  ultimately have "0 \<le> of_int \<lfloor>r / ?u\<rfloor> * ?u" and "0 \<le> of_int \<lfloor>r / ?u\<rfloor> * ?u + ?u" by simp_all
  then show ?thesis using assms(2) by (auto simp: decimals_near_def Let_def split: if_splits)
qed

lemma shortest_decimal_nonneg: assumes "0 < r" shows "0 \<le> shortest_decimal r"
proof (rule shortest_decimal_cases [of r])
  show ?thesis if "shortest_decimal r = r" using that assms by simp
  show ?thesis if "shortest_decimal r \<in> set (decimals_near r n)" for n
    using decimals_near_nonneg [OF assms that] .
qed

lemma Float64ToRat_nonneg:
  assumes "Float64ToRat x = Inr q" and "\<not> f64_less x (Fin 0)" shows "0 \<le> q"
proof (cases x)
  case (Fin r)
  then have r: "0 \<le> r" using assms(2) by simp
  show ?thesis
  proof (cases "r = 0")
    case True then show ?thesis using assms(1) Fin by simp
  next
    case False
    then have "0 < r" and q: "q = shortest_decimal r" using assms(1) Fin r by auto
    then show ?thesis by (simp add: shortest_decimal_nonneg)
  qed
qed (use assms in simp_all)

lemma dec_exp_le_zero: assumes "0 < r" "r < 1" shows "dec_exp r \<le> 0"
proof -
  have "1 \<le> 1 / r" using assms by simp
  then have "1 \<le> \<lfloor>1 / r\<rfloor>" by (simp add: le_floor_iff)
  then have f: "1 \<le> nat \<lfloor>1 / r\<rfloor>" by linarith
  have pos: "1 \<le> digits10 n" if "1 \<le> n" for n using that by (subst digits10.simps) simp
  note d = pos [OF f]
  show ?thesis
  proof (cases "digits10 (nat \<lfloor>1 / r\<rfloor>) = 1")
    case True
    then show ?thesis using assms by (simp add: dec_exp_def Let_def pow_rat_def)
  next
    case False
    then show ?thesis using d assms by (simp add: dec_exp_def Let_def)
  qed
qed

lemma decimals_near_le_one:
  assumes "0 < r" and "r < 1" and "1 \<le> n" and "d \<in> set (decimals_near r n)" shows "d \<le> 1"
proof -
  define k where "k = nat (int n - dec_exp r)"
  have k: "0 \<le> int n - dec_exp r" using dec_exp_le_zero [OF assms(1,2)] by linarith
  define u :: rat where "u = pow_rat 10 (dec_exp r - int n)"
  have u: "0 < u" by (simp add: u_def pow_rat_pos)
  have one: "u * of_int (10 ^ k) = 1"
    using pow_rat_split [OF k] by (simp add: u_def k_def)
  have "r / u < of_int (10 ^ k)" using one u assms(2) by (simp add: pos_divide_less_eq mult.commute)
  then have "\<lfloor>r / u\<rfloor> < 10 ^ k" by (simp add: floor_less_iff)
  then have "\<lfloor>r / u\<rfloor> + 1 \<le> 10 ^ k" by simp
  then have "of_int (\<lfloor>r / u\<rfloor> + 1) * u \<le> of_int (10 ^ k) * u"
    using u by (intro mult_right_mono) (simp_all only: of_int_le_iff less_imp_le)
  then have hi: "of_int \<lfloor>r / u\<rfloor> * u + u \<le> 1" using one by (simp add: algebra_simps)
  have "d = of_int \<lfloor>r / u\<rfloor> * u \<or> d = of_int \<lfloor>r / u\<rfloor> * u + u"
    using assms(4) by (auto simp: decimals_near_def Let_def u_def split: if_splits)
  then show ?thesis using hi u by linarith
qed

lemma bits_one [simp]: "bits 1 = 1" "bits (Suc 0) = 1"
  by (simp_all add: bits.simps)

lemma f64_round_one: "f64_round 1 = Fin 1"
proof -
  have l: "floor_log2 1 = 0" by (simp add: floor_log2_def Let_def pow_rat_def)
  show ?thesis
    by (simp add: f64_round_def round_pos_def l Let_def pow_rat_def round_half_even_def)
qed

lemma shortest_decimal_one: "shortest_decimal 1 = 1"
proof -
  have "dec_exp 1 = 1" by (simp add: dec_exp_def digits10.simps)
  then have "decimals_near 1 1 = [1, 2]" by (simp add: decimals_near_def Let_def pow_rat_def)
  moreover have "[1..<18] = 1 # [2..<18]" by (simp add: upt_conv_Cons)
  ultimately show ?thesis by (simp add: shortest_decimal_def f64_round_one)
qed

lemma Float64ToRat_le_one:
  assumes "Float64ToRat x = Inr q" and "\<not> f64_less (Fin 1) x" shows "q \<le> 1"
proof (cases x)
  case (Fin r)
  then have r: "r \<le> 1" using assms(2) by simp
  consider "r = 0" | "r < 0" | "r = 1" | "0 < r" "r < 1" using r by force
  then show ?thesis
  proof cases
    case 1 then show ?thesis using assms(1) Fin by simp
  next
    case 2
    then have q: "q = - shortest_decimal (- r)" using assms(1) Fin by auto
    then show ?thesis using shortest_decimal_nonneg [of "- r"] 2 by simp
  next
    case 3 then show ?thesis using assms(1) Fin by (simp add: shortest_decimal_one)
  next
    case 4
    then have q: "q = shortest_decimal r" using assms(1) Fin by auto
    show ?thesis unfolding q
      by (rule shortest_decimal_cases [of r]) (use 4 decimals_near_le_one in auto)
  qed
qed (use assms in simp_all)

lemma Float64ToRat_finite_iff: "(\<exists>q. Float64ToRat x = Inr q) \<longleftrightarrow> (\<exists>r. x = Fin r)"
  by (cases x) auto

end
