(* ===== verification/TokParams.thy ===== *)
theory TokParams
  imports FloatDecimal
begin

text \<open>
  The tokenomics module's parameters (\<open>x/tokenomics/types/params.go\<close>,
  \<open>mint_allocation_percentage.go\<close>, \<open>mint_equals_burn_claim_distribution.go\<close>, the two
  update messages, \<open>x/tokenomics/keeper/params.go\<close>, the message handlers and genesis). The two
  allocation messages, \<open>MintAllocationPercentages\<close> and
  \<open>MintEqualsBurnClaimDistribution\<close>, have the same fields and share a record.
\<close>

section \<open>Parameters\<close>

record allocation =
  Alloc_Dao :: f64
  Alloc_Proposer :: f64
  Alloc_Supplier :: f64
  Alloc_SourceOwner :: f64
  Alloc_Application :: f64

record tok_params =
  MintAllocationPercentages :: allocation
  DaoRewardAddress :: string
  GlobalInflationPerClaim :: f64
  MintEqualsBurnClaimDistribution :: allocation
  MintRatio :: f64
  OverservicingBonusMultiplier :: u64

definition zero_allocation :: allocation where
  "zero_allocation = \<lparr>Alloc_Dao = Fin 0, Alloc_Proposer = Fin 0, Alloc_Supplier = Fin 0,
     Alloc_SourceOwner = Fin 0, Alloc_Application = Fin 0\<rparr>"

definition default_allocation :: allocation where
  "default_allocation = \<lparr>Alloc_Dao = f64_round (1 / 10), Alloc_Proposer = f64_round (5 / 100),
     Alloc_Supplier = f64_round (7 / 10), Alloc_SourceOwner = f64_round (15 / 100),
     Alloc_Application = Fin 0\<rparr>"

definition Tok_zeroParams :: tok_params where
  "Tok_zeroParams = \<lparr>MintAllocationPercentages = zero_allocation, DaoRewardAddress = '''',
     GlobalInflationPerClaim = Fin 0, MintEqualsBurnClaimDistribution = zero_allocation,
     MintRatio = Fin 0, OverservicingBonusMultiplier = 0\<rparr>"

definition Tok_DefaultParams :: tok_params where
  "Tok_DefaultParams = \<lparr>MintAllocationPercentages = default_allocation,
     DaoRewardAddress = ''pokt1eeeksh2tvkh7wzmfrljnhw4wrhs55lcuvmekkw'',
     GlobalInflationPerClaim = f64_round (1 / 10),
     MintEqualsBurnClaimDistribution = default_allocation,
     MintRatio = Fin 1, OverservicingBonusMultiplier = 1\<rparr>"

section \<open>Validation\<close>

definition validateParamValueGTEZero :: "f64 \<Rightarrow> unit res" where
  "validateParamValueGTEZero v =
     (if f64_less v (Fin 0) then Inl (Tokenomics ErrTokenomicsParamInvalid) else Inr ())"

definition basisPointsTotal :: rat where "basisPointsTotal = 10000"

text \<open>Each share is rounded to a basis point; the int64 sum becomes a float64 again.\<close>

definition basis_points :: "f64 \<Rightarrow> int" where
  "basis_points x = f64_Round_int64 (f64_scale x basisPointsTotal)"

definition sum_basis_points :: "allocation \<Rightarrow> int" where
  "sum_basis_points m =
     i64 (i64 (i64 (i64 (basis_points (Alloc_Dao m) + basis_points (Alloc_Proposer m))
       + basis_points (Alloc_Supplier m)) + basis_points (Alloc_SourceOwner m))
       + basis_points (Alloc_Application m))"

definition Allocation_Sum :: "allocation \<Rightarrow> f64" where
  "Allocation_Sum m = f64_scale (f64_round (of_int (sum_basis_points m))) (1 / basisPointsTotal)"

definition validate_allocation_sum :: "allocation \<Rightarrow> unit res" where
  "validate_allocation_sum m =
     (if f64_less (f64_round (1 / 10 ^ 10)) (f64_abs (f64_minus1 (Allocation_Sum m)))
      then Inl (Tokenomics ErrTokenomicsParamInvalid) else Inr ())"

definition ValidateMintAllocationPercentages :: "allocation \<Rightarrow> unit res" where
  "ValidateMintAllocationPercentages m =
     bindR (validateParamValueGTEZero (Alloc_Dao m)) (\<lambda>_.
     bindR (validateParamValueGTEZero (Alloc_Proposer m)) (\<lambda>_.
     bindR (validateParamValueGTEZero (Alloc_Supplier m)) (\<lambda>_.
     bindR (validateParamValueGTEZero (Alloc_SourceOwner m)) (\<lambda>_.
     bindR (validateParamValueGTEZero (Alloc_Application m)) (\<lambda>_.
       validate_allocation_sum m)))))"

definition ValidateDaoRewardAddress :: "sdk \<Rightarrow> string \<Rightarrow> unit res" where
  "ValidateDaoRewardAddress sdk a =
     (if \<not> isBech32 sdk a then Inl (Tokenomics ErrTokenomicsParamInvalid) else Inr ())"

definition ValidateGlobalInflationPerClaim :: "f64 \<Rightarrow> unit res" where
  "ValidateGlobalInflationPerClaim v =
     (if f64_less v (Fin 0) then Inl (Tokenomics ErrTokenomicsParamInvalid) else Inr ())"

definition ValidateMintEqualsBurnClaimDistribution :: "allocation \<Rightarrow> unit res" where
  "ValidateMintEqualsBurnClaimDistribution m =
     bindR (validateParamValueGTEZero (Alloc_Dao m)) (\<lambda>_.
     bindR (validateParamValueGTEZero (Alloc_Proposer m)) (\<lambda>_.
     bindR (validateParamValueGTEZero (Alloc_Supplier m)) (\<lambda>_.
     bindR (validateParamValueGTEZero (Alloc_SourceOwner m)) (\<lambda>_.
     bindR (validateParamValueGTEZero (Alloc_Application m)) (\<lambda>_.
       validate_allocation_sum m)))))"

definition ValidateMintRatio :: "f64 \<Rightarrow> unit res" where
  "ValidateMintRatio v =
     (if f64_le v (Fin 0) \<or> f64_less (Fin 1) v then Inl (Tokenomics ErrTokenomicsParamInvalid)
      else Inr ())"

definition MaxOverservicingBonusMultiplier :: u64 where "MaxOverservicingBonusMultiplier = 1000"

definition ValidateOverservicingBonusMultiplier :: "u64 \<Rightarrow> unit res" where
  "ValidateOverservicingBonusMultiplier v =
     (if v > MaxOverservicingBonusMultiplier then Inl (Tokenomics ErrTokenomicsParamInvalid)
      else Inr ())"

text \<open>\<open>ValidateBasic\<close> has a pointer receiver and may replace the distribution; the
  parameters as it leaves them are the result.\<close>

definition Tok_Params_ValidateBasic :: "sdk \<Rightarrow> tok_params \<Rightarrow> tok_params res" where
  "Tok_Params_ValidateBasic sdk p =
     bindR (ValidateMintAllocationPercentages (MintAllocationPercentages p)) (\<lambda>_.
     bindR (ValidateDaoRewardAddress sdk (DaoRewardAddress p)) (\<lambda>_.
     bindR (ValidateGlobalInflationPerClaim (GlobalInflationPerClaim p)) (\<lambda>_.
     bindR (ValidateMintEqualsBurnClaimDistribution (MintEqualsBurnClaimDistribution p)) (\<lambda>_.
     bindR (ValidateMintRatio (MintRatio p)) (\<lambda>_.
     bindR (ValidateOverservicingBonusMultiplier (OverservicingBonusMultiplier p)) (\<lambda>_.
       Inr (if f64_eq (Allocation_Sum (MintEqualsBurnClaimDistribution p)) (Fin 0)
            then p\<lparr>MintEqualsBurnClaimDistribution := default_allocation\<rparr> else p)))))))"

text \<open>The handlers log a violation of this and apply the parameters all the same.\<close>

definition CheckAntiCollusionInvariant :: "tok_params \<Rightarrow> unit res" where
  "CheckAntiCollusionInvariant p =
     bindR (mapErr (\<lambda>_. Tokenomics ErrTokenomicsParamInvalid) (Float64ToRat (MintRatio p))) (\<lambda>mintRatioRat.
     bindR (mapErr (\<lambda>_. Tokenomics ErrTokenomicsParamInvalid)
              (Float64ToRat (Alloc_Supplier (MintEqualsBurnClaimDistribution p)))) (\<lambda>supplierShareRat.
       if mintRatioRat * supplierShareRat \<ge> 1 then Inl (Tokenomics ErrTokenomicsParamInvalid)
       else Inr ()))"

section \<open>Store\<close>

record tok_state =
  TokParamsStore :: "tok_params option"

definition Tok_GetParams :: "tok_state \<Rightarrow> tok_params" where
  "Tok_GetParams st = (case TokParamsStore st of None \<Rightarrow> Tok_zeroParams | Some p \<Rightarrow> p)"

definition Tok_SetParams :: "tok_params \<Rightarrow> tok_state \<Rightarrow> tok_state" where
  "Tok_SetParams p st = st\<lparr>TokParamsStore := Some p\<rparr>"

section \<open>Governance messages\<close>

datatype tok_param_value =
    TP_MintAllocationPercentages "allocation option"
  | TP_MintEqualsBurnClaimDistribution "allocation option"
  | TP_String string
  | TP_Float f64
  | TP_Uint64 u64

text \<open>A parameter whose value has the wrong type is refused; a nil inner message is dereferenced.\<close>

definition MsgTokUpdateParam_ValidateBasic :: "sdk \<Rightarrow> string \<Rightarrow> string \<Rightarrow> tok_param_value option \<Rightarrow> unit res" where
  "MsgTokUpdateParam_ValidateBasic sdk authority name asType =
     (if \<not> isBech32 sdk authority then Inl (Tokenomics ErrTokenomicsAuthorityAddressInvalid)
      else case asType of None \<Rightarrow> Inl (Tokenomics ErrTokenomicsParamsInvalid)
      | Some v \<Rightarrow>
        if name = ''mint_allocation_percentages'' then
          (case v of TP_MintAllocationPercentages None \<Rightarrow> Inl Panic
           | TP_MintAllocationPercentages (Some m) \<Rightarrow> ValidateMintAllocationPercentages m
           | _ \<Rightarrow> Inl (Tokenomics ErrTokenomicsParamInvalid))
        else if name = ''mint_equals_burn_claim_distribution'' then
          (case v of TP_MintEqualsBurnClaimDistribution None \<Rightarrow> Inl Panic
           | TP_MintEqualsBurnClaimDistribution (Some m) \<Rightarrow> ValidateMintEqualsBurnClaimDistribution m
           | _ \<Rightarrow> Inl (Tokenomics ErrTokenomicsParamInvalid))
        else if name = ''dao_reward_address'' then
          (case v of TP_String a \<Rightarrow> ValidateDaoRewardAddress sdk a
           | _ \<Rightarrow> Inl (Tokenomics ErrTokenomicsParamInvalid))
        else if name = ''global_inflation_per_claim'' then
          (case v of TP_Float x \<Rightarrow> ValidateGlobalInflationPerClaim x
           | _ \<Rightarrow> Inl (Tokenomics ErrTokenomicsParamInvalid))
        else if name = ''mint_ratio'' then
          (case v of TP_Float x \<Rightarrow> ValidateMintRatio x
           | _ \<Rightarrow> Inl (Tokenomics ErrTokenomicsParamInvalid))
        else if name = ''overservicing_bonus_multiplier'' then
          (case v of TP_Uint64 n \<Rightarrow> ValidateOverservicingBonusMultiplier n
           | _ \<Rightarrow> Inl (Tokenomics ErrTokenomicsParamInvalid))
        else Inl (Tokenomics ErrTokenomicsParamNameInvalid))"

text \<open>The getters of the oneof return zero values for another case; the first two are
  dereferenced.\<close>

definition Tok_patch_param :: "string \<Rightarrow> tok_param_value \<Rightarrow> tok_params \<Rightarrow> tok_params res" where
  "Tok_patch_param name v p =
     (if name = ''mint_allocation_percentages'' then
        (case v of TP_MintAllocationPercentages (Some m) \<Rightarrow> Inr (p\<lparr>MintAllocationPercentages := m\<rparr>)
         | _ \<Rightarrow> Inl Panic)
      else if name = ''dao_reward_address'' then
        Inr (p\<lparr>DaoRewardAddress := (case v of TP_String a \<Rightarrow> a | _ \<Rightarrow> '''')\<rparr>)
      else if name = ''global_inflation_per_claim'' then
        Inr (p\<lparr>GlobalInflationPerClaim := (case v of TP_Float x \<Rightarrow> x | _ \<Rightarrow> Fin 0)\<rparr>)
      else if name = ''mint_equals_burn_claim_distribution'' then
        (case v of TP_MintEqualsBurnClaimDistribution (Some m) \<Rightarrow>
             Inr (p\<lparr>MintEqualsBurnClaimDistribution := m\<rparr>)
         | _ \<Rightarrow> Inl Panic)
      else if name = ''mint_ratio'' then
        Inr (p\<lparr>MintRatio := (case v of TP_Float x \<Rightarrow> x | _ \<Rightarrow> Fin 0)\<rparr>)
      else if name = ''overservicing_bonus_multiplier'' then
        Inr (p\<lparr>OverservicingBonusMultiplier := (case v of TP_Uint64 n \<Rightarrow> n | _ \<Rightarrow> 0)\<rparr>)
      else Inl (Status InvalidArgument (Tokenomics ErrTokenomicsParamInvalid)))"

definition Tok_UpdateParam ::
    "sdk \<Rightarrow> string \<Rightarrow> string \<Rightarrow> string \<Rightarrow> tok_param_value option \<Rightarrow> tok_state \<Rightarrow> tok_state res" where
  "Tok_UpdateParam sdk authority msgAuthority name asType st =
     bindR (mapErr (Status InvalidArgument)
              (MsgTokUpdateParam_ValidateBasic sdk msgAuthority name asType)) (\<lambda>_.
     if authority \<noteq> msgAuthority
       then Inl (Status PermissionDenied (Tokenomics ErrTokenomicsInvalidAuthoritySigner))
     else case asType of None \<Rightarrow> Inl Panic
     | Some v \<Rightarrow>
         bindR (Tok_patch_param name v (Tok_GetParams st)) (\<lambda>params.
         bindR (mapErr (Status InvalidArgument) (Tok_Params_ValidateBasic sdk params)) (\<lambda>params'.
         Inr (Tok_SetParams params' st))))"

definition Tok_UpdateParams ::
    "sdk \<Rightarrow> string \<Rightarrow> string \<Rightarrow> tok_params \<Rightarrow> tok_state \<Rightarrow> tok_state res" where
  "Tok_UpdateParams sdk authority msgAuthority params st =
     (if \<not> isBech32 sdk msgAuthority
        then Inl (Status InvalidArgument (Tokenomics ErrTokenomicsAuthorityAddressInvalid))
      else bindR (mapErr (Status InvalidArgument) (Tok_Params_ValidateBasic sdk params)) (\<lambda>params'.
      if msgAuthority \<noteq> authority
        then Inl (Status PermissionDenied (Tokenomics ErrTokenomicsInvalidAuthoritySigner))
      else Inr (Tok_SetParams params' st)))"

section \<open>Genesis\<close>

definition Tok_GenesisState_Validate :: "sdk \<Rightarrow> tok_params \<Rightarrow> unit res" where
  "Tok_GenesisState_Validate sdk p = bindR (Tok_Params_ValidateBasic sdk p) (\<lambda>_. Inr ())"

definition Tok_InitGenesis :: "tok_params \<Rightarrow> tok_state \<Rightarrow> tok_state" where
  "Tok_InitGenesis genParams st = Tok_SetParams genParams st"

definition Tok_ExportGenesis :: "tok_state \<Rightarrow> tok_params" where
  "Tok_ExportGenesis st = Tok_GetParams st"

end
