(* ===== verification/TokTypes.thy ===== *)
theory TokTypes
  imports TokParams "HOL-Library.Product_Lexorder"
begin

text \<open>
  What settlement queues up (\<open>x/tokenomics/types/settlement_result.go\<close>,
  \<open>x/tokenomics/token_logic_module/settlement_results.go\<close>): the reasons of settlement
  operations, in the order of their protobuf numbers, mints, burns and transfers, and the result of
  one claim; the events settlement emits, and the arithmetic on amounts and maps it shares.
\<close>

section \<open>Settlement operation reasons\<close>

datatype settlement_op_reason =
    UNSPECIFIED
  | TLM_RELAY_BURN_EQUALS_MINT_SUPPLIER_STAKE_MINT
  | TLM_RELAY_BURN_EQUALS_MINT_APPLICATION_STAKE_BURN
  | TLM_GLOBAL_MINT_INFLATION
  | TLM_RELAY_BURN_EQUALS_MINT_SUPPLIER_SHAREHOLDER_REWARD_DISTRIBUTION
  | TLM_GLOBAL_MINT_DAO_REWARD_DISTRIBUTION
  | TLM_GLOBAL_MINT_SUPPLIER_SHAREHOLDER_REWARD_DISTRIBUTION
  | TLM_GLOBAL_MINT_SOURCE_OWNER_REWARD_DISTRIBUTION
  | TLM_GLOBAL_MINT_APPLICATION_REWARD_DISTRIBUTION
  | TLM_GLOBAL_MINT_REIMBURSEMENT_REQUEST_ESCROW_DAO_TRANSFER
  | UNSPECIFIED_TLM_SUPPLIER_SLASH_MODULE_TRANSFER
  | UNSPECIFIED_TLM_SUPPLIER_SLASH_STAKE_BURN
  | TLM_GLOBAL_MINT_SUPPLIER_SHAREHOLDER_REWARD_MODULE_TRANSFER
  | TLM_GLOBAL_MINT_REIMBURSEMENT_REQUEST_ESCROW_MODULE_TRANSFER
  | TLM_RELAY_BURN_EQUALS_MINT_DAO_REWARD_DISTRIBUTION
  | TLM_RELAY_BURN_EQUALS_MINT_SOURCE_OWNER_REWARD_DISTRIBUTION
  | TLM_RELAY_BURN_EQUALS_MINT_APPLICATION_REWARD_DISTRIBUTION
  | TLM_RELAY_BURN_EQUALS_MINT_TOKENOMICS_CLAIM_DISTRIBUTION_MINT
  | TLM_RELAY_BURN_EQUALS_MINT_VALIDATOR_REWARD_DISTRIBUTION
  | TLM_GLOBAL_MINT_VALIDATOR_REWARD_DISTRIBUTION
  | TLM_RELAY_BURN_EQUALS_MINT_DELEGATOR_REWARD_DISTRIBUTION
  | TLM_GLOBAL_MINT_DELEGATOR_REWARD_DISTRIBUTION

fun op_number :: "settlement_op_reason \<Rightarrow> nat" where
  "op_number UNSPECIFIED = 0"
| "op_number TLM_RELAY_BURN_EQUALS_MINT_SUPPLIER_STAKE_MINT = 1"
| "op_number TLM_RELAY_BURN_EQUALS_MINT_APPLICATION_STAKE_BURN = 2"
| "op_number TLM_GLOBAL_MINT_INFLATION = 3"
| "op_number TLM_RELAY_BURN_EQUALS_MINT_SUPPLIER_SHAREHOLDER_REWARD_DISTRIBUTION = 4"
| "op_number TLM_GLOBAL_MINT_DAO_REWARD_DISTRIBUTION = 5"
| "op_number TLM_GLOBAL_MINT_SUPPLIER_SHAREHOLDER_REWARD_DISTRIBUTION = 7"
| "op_number TLM_GLOBAL_MINT_SOURCE_OWNER_REWARD_DISTRIBUTION = 8"
| "op_number TLM_GLOBAL_MINT_APPLICATION_REWARD_DISTRIBUTION = 9"
| "op_number TLM_GLOBAL_MINT_REIMBURSEMENT_REQUEST_ESCROW_DAO_TRANSFER = 10"
| "op_number UNSPECIFIED_TLM_SUPPLIER_SLASH_MODULE_TRANSFER = 11"
| "op_number UNSPECIFIED_TLM_SUPPLIER_SLASH_STAKE_BURN = 12"
| "op_number TLM_GLOBAL_MINT_SUPPLIER_SHAREHOLDER_REWARD_MODULE_TRANSFER = 13"
| "op_number TLM_GLOBAL_MINT_REIMBURSEMENT_REQUEST_ESCROW_MODULE_TRANSFER = 14"
| "op_number TLM_RELAY_BURN_EQUALS_MINT_DAO_REWARD_DISTRIBUTION = 15"
| "op_number TLM_RELAY_BURN_EQUALS_MINT_SOURCE_OWNER_REWARD_DISTRIBUTION = 17"
| "op_number TLM_RELAY_BURN_EQUALS_MINT_APPLICATION_REWARD_DISTRIBUTION = 18"
| "op_number TLM_RELAY_BURN_EQUALS_MINT_TOKENOMICS_CLAIM_DISTRIBUTION_MINT = 19"
| "op_number TLM_RELAY_BURN_EQUALS_MINT_VALIDATOR_REWARD_DISTRIBUTION = 20"
| "op_number TLM_GLOBAL_MINT_VALIDATOR_REWARD_DISTRIBUTION = 21"
| "op_number TLM_RELAY_BURN_EQUALS_MINT_DELEGATOR_REWARD_DISTRIBUTION = 23"
| "op_number TLM_GLOBAL_MINT_DELEGATOR_REWARD_DISTRIBUTION = 24"

lemma op_number_inject: "op_number a = op_number b \<Longrightarrow> a = b"
  by (cases a; cases b) simp_all

text \<open>Reasons are ordered by number, as sorting a slice of them does.\<close>

instantiation settlement_op_reason :: linorder
begin

definition less_eq_settlement_op_reason :: "settlement_op_reason \<Rightarrow> settlement_op_reason \<Rightarrow> bool" where
  "less_eq_settlement_op_reason a b \<longleftrightarrow> op_number a \<le> op_number b"

definition less_settlement_op_reason :: "settlement_op_reason \<Rightarrow> settlement_op_reason \<Rightarrow> bool" where
  "less_settlement_op_reason a b \<longleftrightarrow> op_number a < op_number b"

instance
  by intro_classes (auto simp: less_eq_settlement_op_reason_def less_settlement_op_reason_def
      dest: op_number_inject)

end

section \<open>Queued operations\<close>

record mint_burn_op =
  MB_OpReason :: settlement_op_reason
  MB_DestinationModule :: string
  MB_Coin :: coin

record mod_to_mod =
  MM_OpReason :: settlement_op_reason
  MM_SenderModule :: string
  MM_RecipientModule :: string
  MM_Coin :: coin

record mod_to_acct =
  MA_OpReason :: settlement_op_reason
  MA_SenderModule :: string
  MA_RecipientAddress :: string
  MA_Coin :: coin

record claim_settlement_result =
  SR_Claim :: claim
  SR_Mints :: "mint_burn_op list"
  SR_Burns :: "mint_burn_op list"
  SR_ModToModTransfers :: "mod_to_mod list"
  SR_ModToAcctTransfers :: "mod_to_acct list"

definition zero_claim :: claim where
  "zero_claim = \<lparr>Claim_SupplierOperatorAddress = '''', Claim_SessionHeader = None,
     Claim_RootHash = '''', Claim_ProofValidationStatus = PENDING_VALIDATION\<rparr>"

definition NewClaimSettlementResult :: "claim \<Rightarrow> claim_settlement_result" where
  "NewClaimSettlementResult c = \<lparr>SR_Claim = c, SR_Mints = [], SR_Burns = [],
     SR_ModToModTransfers = [], SR_ModToAcctTransfers = []\<rparr>"

definition AppendMint :: "mint_burn_op \<Rightarrow> claim_settlement_result \<Rightarrow> claim_settlement_result" where
  "AppendMint m r = r\<lparr>SR_Mints := SR_Mints r @ [m]\<rparr>"

definition AppendBurn :: "mint_burn_op \<Rightarrow> claim_settlement_result \<Rightarrow> claim_settlement_result" where
  "AppendBurn b r = r\<lparr>SR_Burns := SR_Burns r @ [b]\<rparr>"

definition AppendModToModTransfer :: "mod_to_mod \<Rightarrow> claim_settlement_result \<Rightarrow> claim_settlement_result" where
  "AppendModToModTransfer t r = r\<lparr>SR_ModToModTransfers := SR_ModToModTransfers r @ [t]\<rparr>"

definition AppendModToAcctTransfer :: "mod_to_acct \<Rightarrow> claim_settlement_result \<Rightarrow> claim_settlement_result" where
  "AppendModToAcctTransfer t r = r\<lparr>SR_ModToAcctTransfers := SR_ModToAcctTransfers r @ [t]\<rparr>"

definition validateOpReason :: "settlement_op_reason \<Rightarrow> unit res" where
  "validateOpReason opReason =
     (if opReason = UNSPECIFIED then Inl (Tokenomics ErrTokenomicsSettlementBurn) else Inr ())"

text \<open>The batch results. A result without a session header stands for no claim.\<close>

definition has_claim :: "claim_settlement_result \<Rightarrow> bool" where
  "has_claim r \<longleftrightarrow> Claim_SessionHeader (SR_Claim r) \<noteq> None"

definition GetNumClaims :: "claim_settlement_result list \<Rightarrow> u64" where
  "GetNumClaims rs = of_nat (length (filter has_claim rs))"

definition Result_GetSessionEndHeight :: "claim_settlement_result \<Rightarrow> int" where
  "Result_GetSessionEndHeight r = GetHeaderEndHeight (Claim_SessionHeader (SR_Claim r))"

text \<open>\<open>errors.Join\<close> keeps adding errors up while the other results are counted; a non-nil
  error is all the caller looks at.\<close>

fun add_relays :: "string \<Rightarrow> u64 \<Rightarrow> (string, u64) kv \<Rightarrow> (string, u64) kv" where
  "add_relays serviceId n m = kv_set serviceId ((case map_of m serviceId of None \<Rightarrow> 0 | Some k \<Rightarrow> k) + n) m"

definition relays_step :: "claim_deps \<Rightarrow> (string, u64) kv \<times> bool \<Rightarrow> claim_settlement_result
    \<Rightarrow> (string, u64) kv \<times> bool" where
  "relays_step ext = (\<lambda>(m, failed) r.
     if \<not> has_claim r then (m, failed)
     else case GetNumRelays ext (SR_Claim r) of
       Inl e \<Rightarrow> (m, True)
     | Inr numRelays \<Rightarrow>
         (add_relays (GetHeaderServiceId (Claim_SessionHeader (SR_Claim r))) numRelays m, failed))"

definition GetRelaysPerServiceMap :: "claim_deps \<Rightarrow> claim_settlement_result list \<Rightarrow> (string, u64) kv res" where
  "GetRelaysPerServiceMap ext rs =
     (case foldl (relays_step ext) ([], False) rs of (m, failed) \<Rightarrow>
        if failed then Inl ErrFmt else Inr m)"

text \<open>Total amounts per recipient, for the settlement event.\<close>

definition add_coin_to :: "sdk \<Rightarrow> (string, coin) kv \<Rightarrow> mod_to_acct \<Rightarrow> (string, coin) kv res" where
  "add_coin_to sdk m t =
     (case map_of m (MA_RecipientAddress t) of
        None \<Rightarrow> Inr (kv_set (MA_RecipientAddress t) (MA_Coin t) m)
      | Some c \<Rightarrow> bindR (coinAdd sdk c (MA_Coin t)) (\<lambda>total.
          Inr (kv_set (MA_RecipientAddress t) total m)))"

definition GetRewardDistribution :: "sdk \<Rightarrow> claim_settlement_result \<Rightarrow> (string, coin) kv res" where
  "GetRewardDistribution sdk r = foldR (add_coin_to sdk) [] (SR_ModToAcctTransfers r)"

section \<open>Events\<close>

record validator_reward_summary =
  VS_SessionEndHeight :: int
  VS_OpReason :: settlement_op_reason
  VS_Operator :: string
  VS_AccAddr :: string
  VS_CommissionRate :: "int option"
  VS_PoolShare :: int
  VS_Commission :: int
  VS_SelfDelegationReward :: int
  VS_DelegatorsReward :: int
  VS_TotalDelegatedStake :: int
  VS_NumDelegators :: nat

datatype expiration_reason = EXPIRATION_REASON_UNSPECIFIED | PROOF_MISSING | PROOF_INVALID

text \<open>The amounts of an event are coins here; the code renders them as strings.\<close>

datatype tok_event =
    EventSupplierRevShareFallbackDistribution supplier string int coin settlement_op_reason u64
  | EventValidatorRewardDistribution validator_reward_summary
  | EventApplicationReimbursementRequest application supplier string string coin
  | EventApplicationOverserviced application supplier coin coin string int bool
  | EventTokApplicationUnbondingBegin application int int
  | EventClaimExpired expiration_reason u64 u64 u64 u64 coin claim
  | EventClaimSettled u64 u64 u64 u64 coin proof_requirement claim "(string, coin) kv"
      "mod_to_acct list" coin f64 string coin coin coin
  | EventClaimDiscarded claim
  | EventTokSupplierUnbondingBegin supplier int int
  | EventSupplierSlashed claim coin coin
  | EventSettlementBatch int string string settlement_op_reason coin nat string

section \<open>Amounts\<close>

text \<open>\<open>NewCoin\<close> panics on a negative amount.\<close>

definition NewCoin :: "int \<Rightarrow> coin res" where
  "NewCoin n = (if n < 0 then Inl Panic else Inr (upokt n))"

text \<open>\<open>big.Int.Quo\<close> of numerator and denominator: truncation towards zero.\<close>

definition rat_quo :: "rat \<Rightarrow> int" where
  "rat_quo r = (if r < 0 then - \<lfloor>- r\<rfloor> else \<lfloor>r\<rfloor>)"

lemma rat_quo_nonneg: "0 \<le> r \<Longrightarrow> rat_quo r = \<lfloor>r\<rfloor>"
  by (simp add: rat_quo_def)

lemma rat_quo_ge_zero: "0 \<le> r \<Longrightarrow> 0 \<le> rat_quo r"
  by (simp add: rat_quo_def)

lemma rat_quo_le: "0 \<le> r \<Longrightarrow> of_int (rat_quo r) \<le> r"
  by (simp add: rat_quo_def)

lemma rat_quo_mono: "0 \<le> r \<Longrightarrow> r \<le> s \<Longrightarrow> rat_quo r \<le> rat_quo s"
  by (simp add: rat_quo_def floor_mono)

text \<open>A map from addresses to amounts, and its total.\<close>

type_synonym amounts = "(string, int) kv"

definition addReward :: "string \<Rightarrow> int \<Rightarrow> amounts \<Rightarrow> amounts" where
  "addReward addr amount m =
     (case map_of m addr of None \<Rightarrow> kv_set addr amount m | Some n \<Rightarrow> kv_set addr (n + amount) m)"

definition amount_total :: "('a \<times> int) list \<Rightarrow> int" where
  "amount_total m = sum_list (map snd m)"

lemma amount_total_simps [simp]: "amount_total [] = 0" "amount_total (e # m) = snd e + amount_total m"
  "amount_total (m @ m') = amount_total m + amount_total m'"
  by (simp_all add: amount_total_def)

lemma amount_total_kv_set:
  "kv_ok m \<Longrightarrow> amount_total (kv_set k v m) = amount_total m + v - (case map_of m k of None \<Rightarrow> 0 | Some w \<Rightarrow> w)"
proof (induction k v m rule: kv_set.induct)
  case (1 k v)
  then show ?case by simp
next
  case (2 k v k' v' m)
  have "k < k' \<Longrightarrow> map_of m k = None"
    using "2.prems" by (force simp: map_of_eq_None_iff)
  then show ?case using 2 by (auto split: option.splits)
qed

lemma kv_ok_addReward: "kv_ok m \<Longrightarrow> kv_ok (addReward a n m)"
  by (auto simp: addReward_def kv_simps split: option.splits)

lemma amount_total_addReward: "kv_ok m \<Longrightarrow> amount_total (addReward a n m) = amount_total m + n"
  by (auto simp: addReward_def amount_total_kv_set split: option.splits)

lemma map_of_addReward:
  "map_of (addReward a n m) x = (if x = a then Some (case map_of m a of None \<Rightarrow> n | Some k \<Rightarrow> k + n)
     else map_of m x)"
  by (auto simp: addReward_def kv_simps split: option.splits)

lemma addReward_nonneg:
  "kv_ok m \<Longrightarrow> \<forall>e \<in> set m. 0 \<le> snd e \<Longrightarrow> 0 \<le> n \<Longrightarrow> \<forall>e \<in> set (addReward a n m). 0 \<le> snd e"
  by (auto simp: addReward_def set_kv_set split: option.splits dest!: map_of_SomeD)

end
