(* ===== verification/TokRewards.thy ===== *)
theory TokRewards
  imports TokTypes
begin

text \<open>
  How rewards are split (\<open>x/tokenomics/token_logic_module\<close>: \<open>distribution_sorting.go\<close>,
  \<open>distribution_validator.go\<close>, \<open>distribution_supplier.go\<close>): proportionally by stake with the
  largest remainder method, first over validators, then over each validator's delegators after its
  commission, and by percentage over a supplier's revenue shareholders. Maps from addresses are
  stores sorted by address. The staking module is an argument.
\<close>

section \<open>The staking module\<close>

text \<open>A commission rate is a decimal with 18 places, or nil. \<open>SK_AccAddress\<close> turns a
  validator's operator address into the account address with the same bytes, and
  \<open>SK_Account\<close> renders a parsed account address; both fail on a malformed one. The tokens a
  number of shares is worth are truncated.\<close>

record validator =
  Val_Operator :: string
  Val_BondedTokens :: int
  Val_CommissionRate :: "int option"

record delegation =
  Del_Address :: string
  Del_Shares :: int

record staking =
  SK_BondedValidators :: "validator list res"
  SK_ValidatorDelegations :: "string \<Rightarrow> delegation list res"
  SK_AccAddress :: "string \<Rightarrow> string option"
  SK_Account :: "string \<Rightarrow> string option"
  SK_TokensFromShares :: "validator \<Rightarrow> int \<Rightarrow> int"

section \<open>The largest remainder method\<close>

record address_reward =
  AR_Address :: string
  AR_Stake :: int
  AR_BaseReward :: int
  AR_Fraction :: rat

definition address_reward_of :: "int \<Rightarrow> int \<Rightarrow> string \<times> int \<Rightarrow> address_reward" where
  "address_reward_of totalBondedTokens totalRewardAmount = (\<lambda>(addr, stake).
     let exactReward = of_int (stake * totalRewardAmount) / of_int totalBondedTokens;
         baseReward = rat_quo exactReward
     in \<lparr>AR_Address = addr, AR_Stake = stake, AR_BaseReward = baseReward,
          AR_Fraction = exactReward - of_int baseReward\<rparr>)"

text \<open>\<open>big.Rat.SetFrac\<close> panics on a zero denominator.\<close>

definition calculateAddressRewards :: "amounts \<Rightarrow> int \<Rightarrow> int \<Rightarrow> address_reward list res" where
  "calculateAddressRewards stakeAmounts totalBondedTokens totalRewardAmount =
     (if stakeAmounts \<noteq> [] \<and> totalBondedTokens = 0 then Inl Panic
      else Inr (map (address_reward_of totalBondedTokens totalRewardAmount) stakeAmounts))"

definition sortAddressesByFractionDesc :: "address_reward list \<Rightarrow> string list" where
  "sortAddressesByFractionDesc rewardData =
     map AR_Address (sort_key (\<lambda>d. (- AR_Fraction d, AR_Address d))
       (filter (\<lambda>d. 0 < AR_Fraction d) rewardData))"

definition calculateBaseProportionalRewards :: "address_reward list \<Rightarrow> amounts" where
  "calculateBaseProportionalRewards rewardData =
     fold (\<lambda>d m. kv_set (AR_Address d) (AR_BaseReward d) m) rewardData []"

fun add_remainders :: "int \<Rightarrow> int \<Rightarrow> int \<Rightarrow> string list \<Rightarrow> amounts \<Rightarrow> amounts" where
  "add_remainders baseTokensPerAddr extraTokensNeeded i [] m = m"
| "add_remainders baseTokensPerAddr extraTokensNeeded i (a # as) m =
     (let tokensForThisAddr = (if i < extraTokensNeeded then baseTokensPerAddr + 1 else baseTokensPerAddr)
      in add_remainders baseTokensPerAddr extraTokensNeeded (i + 1) as
           (if tokensForThisAddr > 0 then addReward a tokensForThisAddr m else m))"

definition distributeRemainderTokens :: "amounts \<Rightarrow> address_reward list \<Rightarrow> int \<Rightarrow> amounts" where
  "distributeRemainderTokens rewardAmounts rewardData tokensToDistribute =
     (let addrs = sortAddressesByFractionDesc rewardData; numAddresses = int (length addrs)
      in if numAddresses = 0 then rewardAmounts
         else add_remainders (tokensToDistribute div numAddresses) (tokensToDistribute mod numAddresses)
                0 addrs rewardAmounts)"

definition applyLargestRemainderMethod :: "amounts \<Rightarrow> address_reward list \<Rightarrow> int \<Rightarrow> amounts" where
  "applyLargestRemainderMethod rewardAmounts rewardData totalRewardAmount =
     (let remainder = i64 (totalRewardAmount - amount_total rewardAmounts)
      in if remainder > 0 then distributeRemainderTokens rewardAmounts rewardData remainder
         else rewardAmounts)"

definition calculateProportionalRewards :: "amounts \<Rightarrow> int \<Rightarrow> int \<Rightarrow> amounts res" where
  "calculateProportionalRewards stakeAmounts totalBondedTokens totalRewardAmount =
     bindR (calculateAddressRewards stakeAmounts totalBondedTokens totalRewardAmount) (\<lambda>rewardData.
       Inr (applyLargestRemainderMethod (calculateBaseProportionalRewards rewardData) rewardData
              totalRewardAmount))"

section \<open>Validators and their delegators\<close>

text \<open>Entries, stakes and their total; a validator that does not parse, has no tokens or repeats
  an address is skipped.\<close>

definition build_stakes_step :: "staking \<Rightarrow> (validator \<times> string) list \<times> amounts \<times> int \<Rightarrow> validator
    \<Rightarrow> (validator \<times> string) list \<times> amounts \<times> int" where
  "build_stakes_step sk = (\<lambda>(entries, stakes, stakeSum) v.
     case SK_AccAddress sk (Val_Operator v) of
       None \<Rightarrow> (entries, stakes, stakeSum)
     | Some accAddr \<Rightarrow>
         if Val_BondedTokens v = 0 then (entries, stakes, stakeSum)
         else if map_of stakes accAddr \<noteq> None then (entries, stakes, stakeSum)
         else (entries @ [(v, accAddr)], kv_set accAddr (Val_BondedTokens v) stakes,
               stakeSum + Val_BondedTokens v))"

definition buildValidatorStakes :: "staking \<Rightarrow> validator list
    \<Rightarrow> (validator \<times> string) list \<times> amounts \<times> int" where
  "buildValidatorStakes sk validators =
     (case foldl (build_stakes_step sk) ([], [], 0) validators of (entries, stakes, stakeSum) \<Rightarrow>
        (sort_key snd entries, stakes, stakeSum))"

definition calculateCommission :: "int \<Rightarrow> int option \<Rightarrow> int" where
  "calculateCommission poolShare commissionRate =
     (case commissionRate of None \<Rightarrow> 0
      | Some rate \<Rightarrow>
          if \<not> 0 < rate then 0
          else if rate \<ge> 10 ^ 18 then poolShare
          else (rate * poolShare) sdiv 10 ^ 18)"

definition delegation_step :: "staking \<Rightarrow> validator \<Rightarrow> amounts \<times> int \<Rightarrow> delegation \<Rightarrow> amounts \<times> int" where
  "delegation_step sk v = (\<lambda>(stakes, stakeSum) d.
     case SK_Account sk (Del_Address d) of
       None \<Rightarrow> (stakes, stakeSum)
     | Some delegatorAddr \<Rightarrow>
         if Del_Shares d = 0 then (stakes, stakeSum)
         else let delegatedTokens = SK_TokensFromShares sk v (Del_Shares d) in
           if delegatedTokens = 0 then (stakes, stakeSum)
           else (addReward delegatorAddr delegatedTokens stakes, stakeSum + delegatedTokens))"

definition collectValidatorDelegationStakes :: "staking \<Rightarrow> validator \<Rightarrow> string \<Rightarrow> amounts \<times> int \<times> bool" where
  "collectValidatorDelegationStakes sk v validatorAccAddr =
     (case SK_AccAddress sk (Val_Operator v) of
        None \<Rightarrow> ([], 0, False)
      | Some valAddr \<Rightarrow>
          (case SK_ValidatorDelegations sk valAddr of
             Inl e \<Rightarrow> ([], 0, False)
           | Inr delegations \<Rightarrow>
               if length delegations = 0 then ([], 0, True)
               else (case foldl (delegation_step sk v) ([], 0) delegations of (stakes, stakeSum) \<Rightarrow>
                 (stakes, stakeSum, True))))"

definition addRewards :: "amounts \<Rightarrow> amounts \<Rightarrow> amounts" where
  "addRewards rewards m = fold (\<lambda>(a, n). addReward a n) (sort_key fst rewards) m"

text \<open>One validator: its commission, then the rest to its delegators, or to itself when it has
  none; a zero pool share is skipped.\<close>

definition distribute_pool_share :: "staking \<Rightarrow> settlement_op_reason \<Rightarrow> int \<Rightarrow> amounts
    \<Rightarrow> amounts \<times> tok_event list \<Rightarrow> validator \<times> string \<Rightarrow> (amounts \<times> tok_event list) res" where
  "distribute_pool_share sk opReason sessionEndHeight validatorPoolShares = (\<lambda>(rewards, events) (v, accAddr).
     case map_of validatorPoolShares accAddr of None \<Rightarrow> Inl Panic
     | Some poolShare \<Rightarrow>
       if poolShare = 0 then Inr (rewards, events)
       else
         let commission = calculateCommission poolShare (Val_CommissionRate v);
             rewards1 = (if commission > 0 then addReward accAddr commission rewards else rewards);
             remainder = poolShare - commission;
             summary = (\<lambda>self dels stake n. EventValidatorRewardDistribution
               \<lparr>VS_SessionEndHeight = sessionEndHeight, VS_OpReason = opReason,
                VS_Operator = Val_Operator v, VS_AccAddr = accAddr,
                VS_CommissionRate = Val_CommissionRate v, VS_PoolShare = poolShare,
                VS_Commission = commission, VS_SelfDelegationReward = self,
                VS_DelegatorsReward = dels, VS_TotalDelegatedStake = stake, VS_NumDelegators = n\<rparr>)
         in if \<not> remainder > 0 then Inr (rewards1, events @ [summary 0 0 0 0])
            else (case collectValidatorDelegationStakes sk v accAddr of (stakes, stakeSum, ok) \<Rightarrow>
              if \<not> ok \<or> length stakes = 0 \<or> stakeSum = 0
              then Inr (addReward accAddr remainder rewards1, events @ [summary remainder 0 0 0])
              else bindR (calculateProportionalRewards stakes stakeSum remainder) (\<lambda>delegatorRewards.
                let self = (case map_of delegatorRewards accAddr of None \<Rightarrow> 0 | Some n \<Rightarrow> n);
                    others = length (filter (\<lambda>e. fst e \<noteq> accAddr) delegatorRewards)
                in Inr (addRewards delegatorRewards rewards1,
                        events @ [summary self (remainder - self) stakeSum others]))))"

definition delegator_reason :: "settlement_op_reason \<Rightarrow> settlement_op_reason" where
  "delegator_reason opReason =
     (if opReason = TLM_RELAY_BURN_EQUALS_MINT_VALIDATOR_REWARD_DISTRIBUTION
        then TLM_RELAY_BURN_EQUALS_MINT_DELEGATOR_REWARD_DISTRIBUTION
      else if opReason = TLM_GLOBAL_MINT_VALIDATOR_REWARD_DISTRIBUTION
        then TLM_GLOBAL_MINT_DELEGATOR_REWARD_DISTRIBUTION
      else opReason)"

definition Tokenomics_ModuleName :: string where "Tokenomics_ModuleName = ''tokenomics''"

definition queue_reward :: "string set \<Rightarrow> settlement_op_reason \<Rightarrow> claim_settlement_result
    \<Rightarrow> string \<times> int \<Rightarrow> claim_settlement_result res" where
  "queue_reward validatorAccAddresses opReason result = (\<lambda>(addr, amount).
     if amount = 0 then Inr result
     else bindR (NewCoin amount) (\<lambda>rewardCoin.
       Inr (AppendModToAcctTransfer
         \<lparr>MA_OpReason = (if addr \<in> validatorAccAddresses then opReason else delegator_reason opReason),
          MA_SenderModule = Tokenomics_ModuleName, MA_RecipientAddress = addr, MA_Coin = rewardCoin\<rparr>
         result)))"

definition queueRewardTransfers :: "claim_settlement_result \<Rightarrow> amounts \<Rightarrow> string set
    \<Rightarrow> settlement_op_reason \<Rightarrow> claim_settlement_result res" where
  "queueRewardTransfers result rewardAmounts validatorAccAddresses opReason =
     foldR (queue_reward validatorAccAddresses opReason) result (sort_key fst rewardAmounts)"

definition distributeRewardsToValidatorsAndDelegators ::
    "staking \<Rightarrow> claim_settlement_result \<Rightarrow> validator list \<Rightarrow> int \<Rightarrow> settlement_op_reason \<Rightarrow> int
     \<Rightarrow> (claim_settlement_result \<times> tok_event list) res" where
  "distributeRewardsToValidatorsAndDelegators sk result validators totalRewardAmount opReason sessionEndHeight =
     (case buildValidatorStakes sk validators of (entries, stakeAmounts, stakeSum) \<Rightarrow>
        if length entries = 0 then Inr (result, [])
        else bindR (calculateProportionalRewards stakeAmounts stakeSum totalRewardAmount) (\<lambda>poolShares.
             bindR (foldR (distribute_pool_share sk opReason sessionEndHeight poolShares) ([], []) entries)
               (\<lambda>(rewardAmounts, events).
             bindR (queueRewardTransfers result rewardAmounts (snd ` set entries) opReason) (\<lambda>result'.
             Inr (result', events)))))"

text \<open>Nothing is distributed without a reward, without bonded validators or without bonded tokens.\<close>

definition DistributeValidatorRewards ::
    "staking \<Rightarrow> claim_settlement_result \<Rightarrow> coin \<Rightarrow> settlement_op_reason \<Rightarrow> int
     \<Rightarrow> (claim_settlement_result \<times> tok_event list) res" where
  "DistributeValidatorRewards sk result totalValidatorRewardCoin opReason sessionEndHeight =
     (if Amount totalValidatorRewardCoin = 0 then Inr (result, [])
      else case SK_BondedValidators sk of
        Inl e \<Rightarrow> Inl (Tokenomics ErrTokenomicsConstraint)
      | Inr validators \<Rightarrow>
          if length validators = 0 then Inr (result, [])
          else if sum_list (map Val_BondedTokens validators) = 0 then Inr (result, [])
          else distributeRewardsToValidatorsAndDelegators sk result validators
                 (Amount totalValidatorRewardCoin) opReason sessionEndHeight)"

section \<open>A supplier's shareholders\<close>

definition share_sum_step :: "string list \<times> u64 \<Rightarrow> revenue_share option \<Rightarrow> (string list \<times> u64) res" where
  "share_sum_step = (\<lambda>(seen, sumPct) rs.
     case rs of None \<Rightarrow> Inl ErrFmt
     | Some s \<Rightarrow> if RevShareAddress s \<in> set seen then Inl ErrFmt
                 else Inr (RevShareAddress s # seen, sumPct + RevSharePercentage s))"

definition share_amount :: "int \<Rightarrow> revenue_share \<Rightarrow> int" where
  "share_amount amountToDistribute s =
     rat_quo (of_int amountToDistribute * (of_int (int64_of (RevSharePercentage s)) / 100))"

definition GetSupplierShareholderAmountMap :: "revenue_share option list \<Rightarrow> int \<Rightarrow> amounts res" where
  "GetSupplierShareholderAmountMap serviceRevShare amountToDistribute =
     (if length serviceRevShare = 0 then Inl ErrFmt
      else bindR (foldR share_sum_step ([], 0) serviceRevShare) (\<lambda>(seen, sumPct).
        if sumPct \<noteq> requiredRevSharePercentageSum then Inl ErrFmt
        else let shares = map the serviceRevShare;
                 shareAmountMap = fold (\<lambda>s m. kv_set (RevShareAddress s) (share_amount amountToDistribute s) m)
                   shares [];
                 totalDistributed = sum_list (map (share_amount amountToDistribute) shares);
                 remainder = amountToDistribute - totalDistributed
             in if remainder < 0 then Inl ErrFmt
                else Inr (addReward (RevShareAddress (hd shares)) remainder shareAmountMap)))"

definition Supplier_ModuleName :: string where "Supplier_ModuleName = ''supplier''"

definition queue_share :: "settlement_op_reason \<Rightarrow> claim_settlement_result \<Rightarrow> string \<times> int
    \<Rightarrow> claim_settlement_result res" where
  "queue_share opReason result = (\<lambda>(addr, shareAmount).
     if shareAmount = 0 then Inr result
     else bindR (NewCoin shareAmount) (\<lambda>c.
       Inr (AppendModToAcctTransfer \<lparr>MA_OpReason = opReason, MA_SenderModule = Supplier_ModuleName,
              MA_RecipientAddress = addr, MA_Coin = c\<rparr> result)))"

definition observed_sum :: "revenue_share option list \<Rightarrow> u64" where
  "observed_sum shares = sum_list (map (\<lambda>rs. case rs of None \<Rightarrow> 0 | Some s \<Rightarrow> RevSharePercentage s) shares)"

definition payRevShareFallbackToOwner :: "claim_settlement_result \<Rightarrow> settlement_op_reason \<Rightarrow> supplier
    \<Rightarrow> string \<Rightarrow> int \<Rightarrow> revenue_share option list \<Rightarrow> (claim_settlement_result \<times> tok_event list) res" where
  "payRevShareFallbackToOwner result opReason s serviceId amountToDistribute shares =
     (if OwnerAddress s = '''' then Inl (Tokenomics ErrTokenomicsConstraint)
      else bindR (NewCoin amountToDistribute) (\<lambda>fallbackCoin.
        Inr (AppendModToAcctTransfer \<lparr>MA_OpReason = opReason, MA_SenderModule = Supplier_ModuleName,
               MA_RecipientAddress = OwnerAddress s, MA_Coin = fallbackCoin\<rparr> result,
             [EventSupplierRevShareFallbackDistribution s serviceId (Result_GetSessionEndHeight result)
                fallbackCoin opReason (observed_sum shares)])))"

text \<open>A nil list and an empty one are the same once stored. A panic is no error the fallback sees.\<close>

definition distributeSupplierRewardsToShareholders :: "claim_settlement_result \<Rightarrow> settlement_op_reason
    \<Rightarrow> supplier \<Rightarrow> string \<Rightarrow> int \<Rightarrow> (claim_settlement_result \<times> tok_event list) res" where
  "distributeSupplierRewardsToShareholders result opReason s serviceId amountToDistribute =
     (let serviceRevShares = (case find (\<lambda>svc. ServiceId svc = serviceId) (Services s) of
            None \<Rightarrow> [] | Some svc \<Rightarrow> RevShare svc)
      in if serviceRevShares = [] then Inl (Tokenomics ErrTokenomicsConstraint)
         else case GetSupplierShareholderAmountMap serviceRevShares amountToDistribute of
           Inl e \<Rightarrow> payRevShareFallbackToOwner result opReason s serviceId amountToDistribute serviceRevShares
         | Inr shareAmountMap \<Rightarrow>
             bindR (foldR (queue_share opReason) result (sort_key fst shareAmountMap)) (\<lambda>result'.
               Inr (result', [])))"

end
