(* ===== verification/TokShares.thy ===== *)
theory TokShares
  imports TokRewards
begin

text \<open>
  What the splits of a reward guarantee: the largest remainder method hands out the whole reward, to
  each stakeholder its exact share rounded down or up, whatever the order of the map it is given; a
  validator's commission never exceeds its pool share; the shareholders of a supplier get the whole
  amount, and so do the validators and delegators together.
\<close>

section \<open>Maps built by assignment\<close>

lemma fold_kv_set:
  assumes "kv_ok m" and "distinct (map f xs)" and "f ` set xs \<inter> fst ` set m = {}"
  shows "kv_ok (fold (\<lambda>x m. kv_set (f x) (g x) m) xs m)"
    and "amount_total (fold (\<lambda>x m. kv_set (f x) (g x) m) xs m) = amount_total m + sum_list (map g xs)"
    and "map_of (fold (\<lambda>x m. kv_set (f x) (g x) m) xs m) a
      = (case find (\<lambda>x. f x = a) xs of Some x \<Rightarrow> Some (g x) | None \<Rightarrow> map_of m a)"
proof -
  have "kv_ok (fold (\<lambda>x m. kv_set (f x) (g x) m) xs m)
    \<and> amount_total (fold (\<lambda>x m. kv_set (f x) (g x) m) xs m) = amount_total m + sum_list (map g xs)
    \<and> map_of (fold (\<lambda>x m. kv_set (f x) (g x) m) xs m) a
      = (case find (\<lambda>x. f x = a) xs of Some x \<Rightarrow> Some (g x) | None \<Rightarrow> map_of m a)"
    using assms
  proof (induction xs arbitrary: m)
    case Nil
    then show ?case by simp
  next
    case (Cons x xs)
    have n: "map_of m (f x) = None" using Cons.prems(3) by (auto simp: map_of_eq_None_iff)
    have d: "f ` set xs \<inter> fst ` set (kv_set (f x) (g x) m) = {}"
      using Cons.prems by (auto simp: fst_set_kv_set)
    have x: "find (\<lambda>y. f y = f x) xs = None" using Cons.prems(2) by (simp add: find_None_iff) (metis image_eqI)
    show ?case
      using Cons.IH [OF kv_ok_kv_set [OF Cons.prems(1)] _ d] Cons.prems n x
      by (auto simp: amount_total_kv_set kv_simps split: option.splits)
  qed
  then show "kv_ok (fold (\<lambda>x m. kv_set (f x) (g x) m) xs m)"
    and "amount_total (fold (\<lambda>x m. kv_set (f x) (g x) m) xs m) = amount_total m + sum_list (map g xs)"
    and "map_of (fold (\<lambda>x m. kv_set (f x) (g x) m) xs m) a
      = (case find (\<lambda>x. f x = a) xs of Some x \<Rightarrow> Some (g x) | None \<Rightarrow> map_of m a)"
    by blast+
qed

lemma amount_nonneg: "\<forall>e \<in> set m. 0 \<le> snd e \<Longrightarrow> 0 \<le> amount_total m"
  by (induction m) auto

lemma amount_le_total: "\<forall>e \<in> set m. 0 \<le> snd e \<Longrightarrow> (a, n) \<in> set m \<Longrightarrow> n \<le> amount_total m"
  by (induction m) (use amount_nonneg in fastforce)+

section \<open>The largest remainder method\<close>

lemma address_reward_fields [simp]:
  "AR_Address (address_reward_of S R e) = fst e" "AR_Stake (address_reward_of S R e) = snd e"
  "AR_BaseReward (address_reward_of S R e) = rat_quo (of_int (snd e * R) / of_int S)"
  "AR_Fraction (address_reward_of S R e)
     = of_int (snd e * R) / of_int S - of_int (rat_quo (of_int (snd e * R) / of_int S))"
  by (simp_all add: address_reward_of_def Let_def split: prod.splits)

lemma fraction_bounds:
  assumes "0 \<le> snd e" and "0 \<le> R" and "0 < S"
  shows "0 \<le> AR_Fraction (address_reward_of S R e)" and "AR_Fraction (address_reward_of S R e) < 1"
proof -
  have "0 \<le> (of_int (snd e * R) / of_int S :: rat)" using assms by simp
  then show "0 \<le> AR_Fraction (address_reward_of S R e)" and "AR_Fraction (address_reward_of S R e) < 1"
    by (simp_all add: rat_quo_nonneg) linarith+
qed

lemma sum_exact:
  "sum_list (map (\<lambda>e. of_int (snd e * R) / of_int S :: rat) xs) = of_int (amount_total xs * R) / of_int S"
  by (induction xs) (simp_all add: add_divide_distrib distrib_right)

lemma sum_fractions:
  assumes "0 < S" and "S = amount_total xs"
  shows "sum_list (map (\<lambda>e. AR_Fraction (address_reward_of S R e)) xs)
     = of_int (R - sum_list (map (\<lambda>e. AR_BaseReward (address_reward_of S R e)) xs))"
proof -
  have "sum_list (map (\<lambda>e. AR_Fraction (address_reward_of S R e)) ys)
    = of_int (amount_total ys * R) / of_int S
      - of_int (sum_list (map (\<lambda>e. AR_BaseReward (address_reward_of S R e)) ys))" for ys
    by (induction ys) (simp_all add: add_divide_distrib distrib_right)
  from this [of xs] show ?thesis using assms by simp
qed

lemma sum_less_count:
  fixes f :: "'a \<Rightarrow> rat"
  assumes "\<And>x. x \<in> set xs \<Longrightarrow> 0 \<le> f x \<and> f x < 1"
  shows "sum_list (map f xs) \<le> of_nat (length (filter (\<lambda>x. 0 < f x) xs))"
    and "0 < sum_list (map f xs) \<Longrightarrow> sum_list (map f xs) < of_nat (length (filter (\<lambda>x. 0 < f x) xs))"
  using assms
proof (induction xs)
  case (Cons x xs)
  {
    case 1
    then show ?case using Cons.IH(1) by (auto simp: less_le not_less) (metis add_mono le_less)
  next
    case 2
    have x: "0 \<le> f x" "f x < 1" using 2(2) by auto
    have le: "sum_list (map f xs) \<le> of_nat (length (filter (\<lambda>x. 0 < f x) xs))"
      using Cons.IH(1) 2(2) by auto
    show ?case
    proof (cases "0 < f x")
      case True
      then show ?thesis using x le by simp
    next
      case False
      then have "f x = 0" using x by simp
      then show ?thesis using 2 Cons.IH(2) by simp
    qed
  }
qed simp_all

text \<open>With less than one token per address left, the first addresses get one each.\<close>

lemma add_remainders_total:
  assumes "kv_ok m"
  shows "amount_total (add_remainders 0 k i as m) = amount_total m + max 0 (min (int (length as)) (k - i))"
    and "kv_ok (add_remainders 0 k i as m)"
  using assms
proof (induction "0::int" k i as m rule: add_remainders.induct)
  case (2 k i a as m)
  {
    case 1
    then show ?case using 2 by (auto simp: Let_def amount_total_addReward kv_ok_addReward)
  next
    case 2
    then show ?case using "2.hyps" by (auto simp: Let_def kv_ok_addReward)
  }
qed simp_all

lemma add_remainders_other: "a \<notin> set as \<Longrightarrow> map_of (add_remainders b k i as m) a = map_of m a"
  by (induction b k i as m rule: add_remainders.induct) (auto simp: Let_def map_of_addReward)

lemma add_remainders_one:
  assumes "distinct as" and "map_of m a = Some n"
  shows "map_of (add_remainders 0 k i as m) a = Some n \<or> map_of (add_remainders 0 k i as m) a = Some (n + 1)"
  using assms
proof (induction "0::int" k i as m rule: add_remainders.induct)
  case (2 k i b as m)
  show ?case
  proof (cases "a = b")
    case True
    then show ?thesis using 2 by (auto simp: Let_def add_remainders_other map_of_addReward)
  next
    case False
    then show ?thesis using 2 by (auto simp: Let_def map_of_addReward)
  qed
qed simp

definition base_rewards :: "int \<Rightarrow> int \<Rightarrow> amounts \<Rightarrow> amounts" where
  "base_rewards S R xs = calculateBaseProportionalRewards (map (address_reward_of S R) xs)"

lemma base_rewards_fold:
  "base_rewards S R xs
    = fold (\<lambda>e m. kv_set (fst e) (AR_BaseReward (address_reward_of S R e)) m) xs []"
  by (simp add: base_rewards_def calculateBaseProportionalRewards_def fold_map comp_def)

lemma find_map_of:
  "distinct (map fst xs) \<Longrightarrow> find (\<lambda>e. fst e = a) xs = (case map_of xs a of None \<Rightarrow> None | Some s \<Rightarrow> Some (a, s))"
  by (induction xs) (auto simp: find_None_iff split: option.splits)

lemma base_rewards:
  assumes "distinct (map fst xs)"
  shows "kv_ok (base_rewards S R xs)"
    and "amount_total (base_rewards S R xs)
      = sum_list (map (\<lambda>e. AR_BaseReward (address_reward_of S R e)) xs)"
    and "map_of (base_rewards S R xs) a
      = map_option (\<lambda>s. rat_quo (of_int (s * R) / of_int S)) (map_of xs a)"
  using assms fold_kv_set [of "[]" fst xs "\<lambda>e. AR_BaseReward (address_reward_of S R e)"]
  by (auto simp: base_rewards_fold find_map_of split: option.splits)

definition by_fraction :: "int \<Rightarrow> int \<Rightarrow> amounts \<Rightarrow> string list" where
  "by_fraction S R xs = sortAddressesByFractionDesc (map (address_reward_of S R) xs)"

lemma by_fraction_set:
  "set (by_fraction S R xs) = {fst e | e. e \<in> set xs \<and> 0 < AR_Fraction (address_reward_of S R e)}"
proof -
  have "set (by_fraction S R xs) = AR_Address ` {d \<in> address_reward_of S R ` set xs. 0 < AR_Fraction d}"
    by (simp add: by_fraction_def sortAddressesByFractionDesc_def del: address_reward_fields(4))
  also have "\<dots> = fst ` {e \<in> set xs. 0 < AR_Fraction (address_reward_of S R e)}"
    by (force simp del: address_reward_fields(4) simp: image_iff)
  finally show ?thesis by (force simp del: address_reward_fields)
qed

lemma by_fraction_length:
  "length (by_fraction S R xs) = length (filter (\<lambda>e. 0 < AR_Fraction (address_reward_of S R e)) xs)"
  by (simp add: by_fraction_def sortAddressesByFractionDesc_def filter_map comp_def
      del: address_reward_fields(4))

lemma by_fraction_distinct: assumes "distinct (map fst xs)" shows "distinct (by_fraction S R xs)"
proof -
  let ?k = "\<lambda>d. (- AR_Fraction d, AR_Address d)"
  let ?data = "filter (\<lambda>d. 0 < AR_Fraction d) (map (address_reward_of S R) xs)"
  have "map AR_Address (map (address_reward_of S R) xs) = map fst xs" by simp
  then have "distinct (map AR_Address ?data)" using assms by (metis distinct_map_filter)
  moreover have "mset (map AR_Address (sort_key ?k ?data)) = mset (map AR_Address ?data)" by simp
  ultimately have "distinct (map AR_Address (sort_key ?k ?data))" by (metis mset_eq_imp_distinct_iff)
  then show ?thesis by (simp add: by_fraction_def sortAddressesByFractionDesc_def)
qed

lemma proportional_rewards_eq:
  assumes "S \<noteq> 0"
  shows "calculateProportionalRewards xs S R
    = Inr (applyLargestRemainderMethod (base_rewards S R xs) (map (address_reward_of S R) xs) R)"
  using assms by (simp add: calculateProportionalRewards_def calculateAddressRewards_def base_rewards_def)

text \<open>The remainder is fewer tokens than there are addresses with a fraction.\<close>

lemma lrm_remainder:
  assumes "distinct (map fst xs)" and "\<forall>e \<in> set xs. 0 \<le> snd e" and "S = amount_total xs"
    and "0 < S" and "0 \<le> R" and "int (length xs) < 2 ^ 63"
  defines "rem \<equiv> R - amount_total (base_rewards S R xs)"
  shows "0 \<le> rem" and "rem \<le> int (length (by_fraction S R xs))"
    and "0 < rem \<Longrightarrow> rem < int (length (by_fraction S R xs))" and "i64 rem = rem"
proof -
  let ?f = "\<lambda>e. AR_Fraction (address_reward_of S R e)"
  have f: "0 \<le> ?f e \<and> ?f e < 1" if "e \<in> set xs" for e
    using fraction_bounds [of e R S] assms(2,4,5) that by blast
  have rem: "of_int rem = sum_list (map ?f xs)"
    using sum_fractions [OF assms(4,3), of R] base_rewards(2) [OF assms(1), of S R] by (simp add: rem_def)
  have "0 \<le> sum_list (map ?f xs)" using f by (intro sum_list_nonneg) auto
  then show nn: "0 \<le> rem" using rem by linarith
  have "(of_int rem :: rat) \<le> of_int (int (length (by_fraction S R xs)))"
    using sum_less_count(1) [of xs ?f] f rem by (simp add: by_fraction_length)
  then show le: "rem \<le> int (length (by_fraction S R xs))" by (simp only: of_int_le_iff)
  show "rem < int (length (by_fraction S R xs))" if "0 < rem"
  proof -
    have "(0::rat) < of_int rem" using that by simp
    then have "(of_int rem :: rat) < of_int (int (length (by_fraction S R xs)))"
      using sum_less_count(2) [of xs ?f] f rem by (simp add: by_fraction_length)
    then show ?thesis by (simp only: of_int_less_iff)
  qed
  have "length (by_fraction S R xs) \<le> length xs" by (simp add: by_fraction_length)
  then have "rem < 2 ^ 63" using le assms(6) by linarith
  then show "i64 rem = rem" using nn by (simp add: i64_id in_i64_nonneg)
qed

lemma lrm_result:
  assumes "distinct (map fst xs)" and "\<forall>e \<in> set xs. 0 \<le> snd e" and "S = amount_total xs"
    and "0 < S" and "0 \<le> R" and "int (length xs) < 2 ^ 63"
  shows "calculateProportionalRewards xs S R
    = Inr (add_remainders 0 (R - amount_total (base_rewards S R xs)) 0 (by_fraction S R xs)
        (base_rewards S R xs))"
proof -
  let ?rem = "R - amount_total (base_rewards S R xs)"
  note rem = lrm_remainder [OF assms]
  have z: "add_remainders 0 0 i as m = m" if "0 \<le> i" for i as m
    using that by (induction as arbitrary: i) (simp_all add: Let_def)
  show ?thesis
  proof (cases "0 < ?rem")
    case True
    then show ?thesis
      using rem assms(4)
      by (simp add: proportional_rewards_eq applyLargestRemainderMethod_def distributeRemainderTokens_def
          Let_def by_fraction_def)
  next
    case False
    then show ?thesis
      using rem assms(4) z [of 0]
      by (simp add: proportional_rewards_eq applyLargestRemainderMethod_def)
  qed
qed

lemma lrm_conserves:
  assumes "distinct (map fst xs)" and "\<forall>e \<in> set xs. 0 \<le> snd e" and "S = amount_total xs"
    and "0 < S" and "0 \<le> R" and "int (length xs) < 2 ^ 63"
    and "calculateProportionalRewards xs S R = Inr m"
  shows "kv_ok m" and "amount_total m = R"
    and "map_of xs a = None \<Longrightarrow> map_of m a = None"
    and "map_of xs a = Some s \<Longrightarrow> \<exists>n. map_of m a = Some n \<and> 0 \<le> n
      \<and> \<bar>of_int n - of_int (s * R) / of_int S\<bar> < (1 :: rat)"
proof -
  let ?b = "base_rewards S R xs" and ?as = "by_fraction S R xs"
  let ?rem = "R - amount_total ?b"
  note b = base_rewards [OF assms(1), of S R]
  have m: "m = add_remainders 0 ?rem 0 ?as ?b" using assms(7) lrm_result [OF assms(1-6)] by simp
  note t = add_remainders_total [OF b(1), of ?rem 0 ?as, folded m]
  show "kv_ok m" by (rule t(2))
  show "amount_total m = R" using t(1) lrm_remainder(1,2) [OF assms(1-6)] by simp
  show "map_of m a = None" if "map_of xs a = None"
  proof -
    have "a \<notin> fst ` set xs" using that by (simp add: map_of_eq_None_iff)
    then have "a \<notin> set ?as" unfolding by_fraction_set by force
    then show ?thesis using that b(3) by (simp add: m add_remainders_other)
  qed
  show "\<exists>n. map_of m a = Some n \<and> 0 \<le> n \<and> \<bar>of_int n - of_int (s * R) / of_int S\<bar> < (1 :: rat)"
    if s: "map_of xs a = Some s"
  proof -
    define q :: rat where "q = of_int (s * R) / of_int S"
    have mem: "(a, s) \<in> set xs" using s by (rule map_of_SomeD)
    then have q0: "0 \<le> q" using assms(2,4,5) by (auto simp: q_def)
    have ba: "map_of ?b a = Some \<lfloor>q\<rfloor>" using b(3) [of a] s q0 by (simp add: q_def rat_quo_nonneg)
    show ?thesis
    proof (cases "a \<in> set ?as")
      case True
      then obtain s' where "(a, s') \<in> set xs" and f: "0 < AR_Fraction (address_reward_of S R (a, s'))"
        by (auto simp: by_fraction_set simp del: address_reward_fields(4))
      then have "s' = s" using mem assms(1) by (metis eq_key_imp_eq_value)
      then have "of_int \<lfloor>q\<rfloor> < q" using f q0 by (simp add: q_def rat_quo_nonneg)
      moreover have "q < of_int \<lfloor>q\<rfloor> + 1" by linarith
      moreover have "0 \<le> \<lfloor>q\<rfloor>" using q0 by simp
      ultimately show ?thesis
        using add_remainders_one [OF by_fraction_distinct [OF assms(1), of S R] ba, of ?rem 0]
        unfolding m [symmetric] q_def [symmetric] by (elim disjE) auto
    next
      case False
      then have "map_of m a = Some \<lfloor>q\<rfloor>" using ba by (simp add: m add_remainders_other)
      moreover have "of_int \<lfloor>q\<rfloor> \<le> q" "q < of_int \<lfloor>q\<rfloor> + 1" by linarith+
      moreover have "0 \<le> \<lfloor>q\<rfloor>" using q0 by simp
      ultimately show ?thesis unfolding q_def [symmetric] by auto
    qed
  qed
qed

section \<open>The order of the map does not matter\<close>

lemma by_fraction_perm:
  assumes "mset xs = mset ys" and "distinct (map fst xs)"
  shows "by_fraction S R xs = by_fraction S R ys"
proof -
  let ?k = "\<lambda>d. (- AR_Fraction d, AR_Address d)"
  let ?data = "\<lambda>xs. filter (\<lambda>d. 0 < AR_Fraction d) (map (address_reward_of S R) xs)"
  have "mset (?data xs) = mset (sort_key ?k (?data ys))"
    using assms(1) by (simp flip: mset_map mset_filter) (metis mset_filter mset_map)
  moreover have "inj_on ?k (set (?data xs))"
    by (rule inj_onI) (use assms(2) in \<open>auto dest: eq_key_imp_eq_value simp del: address_reward_fields(4)\<close>)
  ultimately have "sort_key ?k (?data xs) = sort_key ?k (?data ys)"
    by (rule sort_key_inj_key_eq) simp
  then show ?thesis by (simp add: by_fraction_def sortAddressesByFractionDesc_def)
qed

lemma base_rewards_perm:
  assumes "mset xs = mset ys" and "distinct (map fst xs)"
  shows "base_rewards S R xs = base_rewards S R ys"
proof -
  have d: "distinct (map fst ys)" using assms by (metis mset_map mset_eq_imp_distinct_iff)
  have "map_of xs = map_of ys" using assms d by (metis map_of_inject_set mset_eq_setD)
  then show ?thesis
    by (intro kv_ext) (use base_rewards [OF assms(2)] base_rewards [OF d] in \<open>auto simp: fun_eq_iff\<close>)
qed


lemma proportional_rewards_perm:
  assumes "mset xs = mset ys" and "distinct (map fst xs)"
  shows "calculateProportionalRewards xs S R = calculateProportionalRewards ys S R"
proof -
  have e: "xs = [] \<longleftrightarrow> ys = []" using assms(1) by auto
  show ?thesis
  proof (cases "S = 0")
    case True
    then show ?thesis
      using e by (auto simp: calculateProportionalRewards_def calculateAddressRewards_def)
  next
    case False
    then show ?thesis
      using by_fraction_perm [OF assms] base_rewards_perm [OF assms]
      by (simp add: proportional_rewards_eq applyLargestRemainderMethod_def
          distributeRemainderTokens_def Let_def flip: by_fraction_def)
  qed
qed

section \<open>Shareholders\<close>

lemma share_sum_run:
  assumes "foldR share_sum_step (seen, n) shares = Inr (seen', n')"
  shows "None \<notin> set shares" and "distinct (map (\<lambda>s. RevShareAddress (the s)) shares)"
    and "set seen \<inter> (\<lambda>s. RevShareAddress (the s)) ` set shares = {}"
    and "n' = n + sum_list (map (\<lambda>s. RevSharePercentage (the s)) shares)"
proof -
  have "None \<notin> set shares \<and> distinct (map (\<lambda>s. RevShareAddress (the s)) shares)
    \<and> set seen \<inter> (\<lambda>s. RevShareAddress (the s)) ` set shares = {}
    \<and> n' = n + sum_list (map (\<lambda>s. RevSharePercentage (the s)) shares)"
    using assms
  proof (induction shares arbitrary: seen n)
    case (Cons rs shares)
    then obtain s where rs: "rs = Some s" "RevShareAddress s \<notin> set seen"
      and rest: "foldR share_sum_step (RevShareAddress s # seen, n + RevSharePercentage s) shares
        = Inr (seen', n')"
      by (auto simp: share_sum_step_def res_simps split: option.splits if_splits)
    show ?case using Cons.IH [OF rest] rs by (auto simp: add.assoc)
  qed simp
  then show "None \<notin> set shares" and "distinct (map (\<lambda>s. RevShareAddress (the s)) shares)"
    and "set seen \<inter> (\<lambda>s. RevShareAddress (the s)) ` set shares = {}"
    and "n' = n + sum_list (map (\<lambda>s. RevSharePercentage (the s)) shares)"
    by blast+
qed

lemma find_nth_key:
  "distinct (map f xs) \<Longrightarrow> i < length xs \<Longrightarrow> find (\<lambda>x. f x = f (xs ! i)) xs = Some (xs ! i)"
proof (induction xs arbitrary: i)
  case (Cons x xs)
  then show ?case by (cases i) (auto simp: image_iff)
qed simp

text \<open>The shareholders get the whole amount; each at least its percentage rounded down, and all but
  the first exactly that.\<close>

lemma shareholders_conserve:
  assumes "GetSupplierShareholderAmountMap shares n = Inr m"
  shows "kv_ok m" and "amount_total m = n"
    and "distinct (map (\<lambda>s. RevShareAddress (the s)) shares)" and "None \<notin> set shares"
    and "i < length shares \<Longrightarrow> map_of m (RevShareAddress (the (shares ! i)))
      = Some (share_amount n (the (shares ! i))
          + (if i = 0 then n - sum_list (map (share_amount n) (map the shares)) else 0))"
    and "sum_list (map (share_amount n) (map the shares)) \<le> n"
proof -
  let ?ss = "map the shares"
  let ?m = "fold (\<lambda>s m. kv_set (RevShareAddress s) (share_amount n s) m) ?ss []"
  let ?r = "n - sum_list (map (share_amount n) ?ss)"
  from assms obtain seen' where run: "foldR share_sum_step ([], 0) shares = Inr (seen', requiredRevSharePercentageSum)"
    and r: "0 \<le> ?r" and m: "m = addReward (RevShareAddress (hd ?ss)) ?r ?m" and ne: "shares \<noteq> []"
    by (auto simp: GetSupplierShareholderAmountMap_def res_simps Let_def split: if_splits)
  note sr = share_sum_run [OF run]
  show d: "distinct (map (\<lambda>s. RevShareAddress (the s)) shares)" and "None \<notin> set shares" by (fact sr)+
  have d': "distinct (map RevShareAddress ?ss)" using d by (simp add: comp_def)
  have e: "kv_ok ([] :: amounts)" "RevShareAddress ` set ?ss \<inter> fst ` set ([] :: amounts) = {}" by simp_all
  note f = fold_kv_set [OF e(1) d' e(2), of "share_amount n"]
  show "kv_ok m" unfolding m by (intro kv_ok_addReward f(1))
  show "amount_total m = n" unfolding m using f(1,2) by (simp add: amount_total_addReward comp_def)
  show "sum_list (map (share_amount n) ?ss) \<le> n" using r by simp
  show "map_of m (RevShareAddress (the (shares ! i)))
      = Some (share_amount n (the (shares ! i)) + (if i = 0 then ?r else 0))" if i: "i < length shares"
  proof -
    have g: "map_of ?m (RevShareAddress (the (shares ! j))) = Some (share_amount n (the (shares ! j)))"
      if j: "j < length shares" for j
    proof -
      have "find (\<lambda>x. RevShareAddress x = RevShareAddress (the (shares ! j))) ?ss = Some (the (shares ! j))"
        using find_nth_key [OF d', of j] j by simp
      then show ?thesis using f(3) by simp
    qed
    have hd: "RevShareAddress (hd ?ss) = RevShareAddress (the (shares ! 0))"
      using ne by (simp add: hd_map hd_conv_nth)
    have "RevShareAddress (the (shares ! i)) = RevShareAddress (the (shares ! 0)) \<longleftrightarrow> i = 0"
      using d' i ne by (metis (no_types, lifting) length_map nth_eq_iff_index_eq nth_map length_greater_0_conv)
    then show ?thesis using g [OF i] g [of 0] ne by (auto simp: m map_of_addReward hd)
  qed
qed

end
