(* ===== verification/TokValidators.thy ===== *)
theory TokValidators
  imports TokShares
begin

text \<open>
  The distribution to validators and delegators hands out the whole reward whenever a bonded
  validator with tokens and a proper address exists, and never fails then. What is documented of the
  staking module is \<open>staking_ok\<close>: tokens and shares are not negative, and there are fewer than
  \<open>2 ^ 63\<close> validators and delegations.
\<close>

definition staking_ok :: "staking \<Rightarrow> bool" where
  "staking_ok sk \<longleftrightarrow>
     (\<forall>vs. SK_BondedValidators sk = Inr vs \<longrightarrow>
        int (length vs) < 2 ^ 63 \<and> (\<forall>v \<in> set vs. 0 \<le> Val_BondedTokens v))
   \<and> (\<forall>a ds. SK_ValidatorDelegations sk a = Inr ds \<longrightarrow>
        int (length ds) < 2 ^ 63 \<and> (\<forall>d \<in> set ds. 0 \<le> Del_Shares d))
   \<and> (\<forall>v n. 0 \<le> n \<longrightarrow> 0 \<le> SK_TokensFromShares sk v n)"

text \<open>A map of amounts as the code keeps it.\<close>

definition amounts_ok :: "amounts \<Rightarrow> bool" where
  "amounts_ok m \<longleftrightarrow> kv_ok m \<and> (\<forall>e \<in> set m. 0 \<le> snd e)"

lemma amounts_ok_Nil [simp]: "amounts_ok []"
  by (simp add: amounts_ok_def)

lemma amounts_ok_addReward: "amounts_ok m \<Longrightarrow> 0 \<le> n \<Longrightarrow> amounts_ok (addReward a n m)"
  using addReward_nonneg [of m n a] by (simp add: amounts_ok_def kv_ok_addReward)

lemma amounts_ok_distinct: "amounts_ok m \<Longrightarrow> distinct (map fst m)"
  by (simp add: amounts_ok_def kv_ok_distinct)

lemma sum_list_mset_eq: "mset xs = mset ys \<Longrightarrow> sum_list xs = (sum_list ys :: int)"
  using sum_mset_sum_list [of xs] sum_mset_sum_list [of ys] by simp

lemma total_by_keys:
  assumes "kv_ok m" and "distinct as" and "set as = fst ` set m"
  shows "sum_list (map (\<lambda>a. the (map_of m a)) as) = amount_total m"
proof -
  have d: "distinct (map fst m)" using assms(1) by (rule kv_ok_distinct)
  have "mset as = mset (map fst m)"
    using assms(2,3) d by (simp add: set_eq_iff_mset_eq_distinct flip: set_map)
  then have "mset (map (\<lambda>a. the (map_of m a)) as) = mset (map (\<lambda>a. the (map_of m a)) (map fst m))"
    by (simp only: mset_map)
  then have "sum_list (map (\<lambda>a. the (map_of m a)) as) = sum_list (map (\<lambda>a. the (map_of m a)) (map fst m))"
    by (rule sum_list_mset_eq)
  also have "map (\<lambda>a. the (map_of m a)) (map fst m) = map snd m" using d by (auto simp: map_of_is_SomeI)
  finally show ?thesis by (simp add: amount_total_def)
qed

section \<open>The stakes of the validators\<close>

definition stakes_inv :: "(validator \<times> string) list \<times> amounts \<times> int \<Rightarrow> bool" where
  "stakes_inv = (\<lambda>(entries, stakes, s). amounts_ok stakes \<and> amount_total stakes = s
     \<and> distinct (map snd entries) \<and> snd ` set entries = fst ` set stakes
     \<and> (\<forall>e \<in> set stakes. 0 < snd e) \<and> length stakes = length entries)"

lemma stakes_inv_step:
  assumes "stakes_inv t" and "0 \<le> Val_BondedTokens v" shows "stakes_inv (build_stakes_step sk t v)"
proof -
  obtain entries stakes s where t: "t = (entries, stakes, s)" by (cases t)
  show ?thesis
  proof (cases "SK_AccAddress sk (Val_Operator v)")
    case None
    then show ?thesis using assms by (simp add: t build_stakes_step_def)
  next
    case (Some a)
    show ?thesis
    proof (cases "Val_BondedTokens v = 0 \<or> map_of stakes a \<noteq> None")
      case True
      then show ?thesis using assms Some by (auto simp: t build_stakes_step_def)
    next
      case False
      then have n: "map_of stakes a = None" and p: "0 < Val_BondedTokens v" using assms(2) by auto
      have k: "a \<notin> fst ` set stakes" using n by (simp add: map_of_eq_None_iff)
      have l: "length (kv_set a x m) = Suc (length m)" if "a \<notin> fst ` set m" for x and m :: amounts
        using that by (induction a x m rule: kv_set.induct) auto
      show ?thesis
        using assms Some n p k l [OF k]
        by (auto simp: t build_stakes_step_def stakes_inv_def amounts_ok_def kv_simps amount_total_kv_set
            set_kv_set fst_set_kv_set)
    qed
  qed
qed

lemma buildValidatorStakes_inv:
  assumes "\<forall>v \<in> set vs. 0 \<le> Val_BondedTokens v" and "buildValidatorStakes sk vs = (entries, stakes, s)"
  shows "amounts_ok stakes" and "amount_total stakes = s" and "distinct (map snd entries)"
    and "snd ` set entries = fst ` set stakes" and "entries \<noteq> [] \<Longrightarrow> 0 < s"
    and "length stakes \<le> length vs"
proof -
  obtain es where f: "foldl (build_stakes_step sk) ([], [], 0) vs = (es, stakes, s)"
    and e: "entries = sort_key snd es"
    using assms(2) by (auto simp: buildValidatorStakes_def split: prod.splits)
  have i: "stakes_inv t \<Longrightarrow> stakes_inv (foldl (build_stakes_step sk) t vs)" for t
    using assms(1)
  proof (induction vs arbitrary: t)
    case (Cons v vs)
    then show ?case using stakes_inv_step [of t v sk] by simp
  qed simp
  have "stakes_inv (es, stakes, s)" using i [of "([], [], 0)"] f by (simp add: stakes_inv_def)
  then have s: "amounts_ok stakes" "amount_total stakes = s" "distinct (map snd es)"
    "snd ` set es = fst ` set stakes" "\<forall>e \<in> set stakes. 0 < snd e" "length stakes = length es"
    by (auto simp: stakes_inv_def)
  show "amounts_ok stakes" "amount_total stakes = s" by (fact s)+
  have "mset (map snd entries) = mset (map snd es)" by (simp add: e)
  then show "distinct (map snd entries)" using s(3) by (metis mset_eq_imp_distinct_iff)
  show "snd ` set entries = fst ` set stakes" using s(4) by (simp add: e)
  show "0 < s" if "entries \<noteq> []"
  proof -
    have "stakes \<noteq> []" using that s(6) by (auto simp: e)
    then obtain x xs where "stakes = x # xs" by (cases stakes) auto
    moreover from this have "0 \<le> amount_total xs" using s(5) by (intro amount_nonneg) (auto intro: less_imp_le)
    ultimately show ?thesis using s(2,5) by auto
  qed
  have l: "length (fst (build_stakes_step sk t v)) \<le> Suc (length (fst t))" for t v
    by (auto simp: build_stakes_step_def split: prod.splits option.splits)
  have "length (fst (foldl (build_stakes_step sk) t vs)) \<le> length (fst t) + length vs" for t
  proof (induction vs arbitrary: t)
    case (Cons v vs)
    have "length (fst (foldl (build_stakes_step sk) (build_stakes_step sk t v) vs))
      \<le> length (fst (build_stakes_step sk t v)) + length vs" by (rule Cons.IH)
    then show ?case using l [of t v] by simp
  qed simp
  from this [of "([], [], 0)"] show "length stakes \<le> length vs" using f s(6) by simp
qed

lemma eligible_entry:
  assumes "v \<in> set vs" and "SK_AccAddress sk (Val_Operator v) = Some a" and "0 < Val_BondedTokens v"
    and "buildValidatorStakes sk vs = (entries, stakes, s)"
  shows "entries \<noteq> []"
proof -
  have mono: "fst t \<noteq> [] \<Longrightarrow> fst (build_stakes_step sk t w) \<noteq> []" for t w
    by (auto simp: build_stakes_step_def split: prod.splits option.splits)
  have keeps: "fst t \<noteq> [] \<Longrightarrow> fst (foldl (build_stakes_step sk) t ws) \<noteq> []" for t ws
    using mono by (induction ws arbitrary: t) auto
  have step: "fst (build_stakes_step sk t v) \<noteq> []" if "stakes_inv t" for t
    using that assms(2,3)
    by (cases t) (auto simp: build_stakes_step_def stakes_inv_def map_of_eq_None_iff)
  have "fst (foldl (build_stakes_step sk) t vs) \<noteq> []" if "fst t = [] \<longrightarrow> fst (snd t) = []" for t
    using that assms(1)
  proof (induction vs arbitrary: t)
    case (Cons w ws)
    show ?case
    proof (cases "w = v")
      case True
      have "fst (build_stakes_step sk t v) \<noteq> []"
        using Cons.prems(1) assms(2,3) by (cases t) (auto simp: build_stakes_step_def)
      then show ?thesis using keeps True by simp
    next
      case False
      have "fst (build_stakes_step sk t w) = [] \<longrightarrow> fst (snd (build_stakes_step sk t w)) = []"
        using Cons.prems(1) by (auto simp: build_stakes_step_def split: prod.splits option.splits)
      then show ?thesis using Cons.IH Cons.prems(2) False by simp
    qed
  qed simp
  from this [of "([], [], 0)"] have "fst (foldl (build_stakes_step sk) ([], [], 0) vs) \<noteq> []" by simp
  then show ?thesis
    using assms(4) arg_cong [OF length_sort, of "\<lambda>n. n = 0", unfolded length_0_conv]
    by (auto simp: buildValidatorStakes_def split: prod.splits)
qed

section \<open>Commission\<close>

lemma calculateCommission_bounds:
  assumes "0 \<le> p" shows "0 \<le> calculateCommission p r" and "calculateCommission p r \<le> p"
proof -
  have "0 \<le> calculateCommission p r \<and> calculateCommission p r \<le> p"
  proof (cases "\<exists>rate. r = Some rate \<and> 0 < rate \<and> rate < 10 ^ 18")
    case True
    then obtain rate where r: "r = Some rate" "0 < rate" "rate < 10 ^ 18" by blast
    have "0 \<le> rate * p" using r assms by simp
    then have c: "calculateCommission p r = rate * p div 10 ^ 18"
      using r by (simp add: calculateCommission_def signed_divide_int_def sgn_if)
    have "rate * p \<le> 10 ^ 18 * p" using r assms by (intro mult_right_mono) auto
    then have "rate * p div 10 ^ 18 \<le> 10 ^ 18 * p div 10 ^ 18" by (intro zdiv_mono1) auto
    then show ?thesis using c \<open>0 \<le> rate * p\<close> by (simp add: pos_imp_zdiv_nonneg_iff)
  next
    case False
    then show ?thesis using assms by (auto simp: calculateCommission_def split: option.splits)
  qed
  then show "0 \<le> calculateCommission p r" and "calculateCommission p r \<le> p" by blast+
qed

section \<open>Delegations\<close>

lemma collect_delegations_inv:
  assumes "staking_ok sk" and "collectValidatorDelegationStakes sk v x = (stakes, s, ok)"
  shows "amounts_ok stakes" and "amount_total stakes = s" and "int (length stakes) < 2 ^ 63"
proof -
  define I where "I = (\<lambda>(m, n). amounts_ok m \<and> amount_total m = n)"
  have step: "I (delegation_step sk v t d)" if "I t" and "0 \<le> Del_Shares d" for t d
  proof -
    obtain m n where t: "t = (m, n)" by (cases t)
    have "0 \<le> SK_TokensFromShares sk v (Del_Shares d)" using assms(1) that(2) by (simp add: staking_ok_def)
    then show ?thesis
      using that by (auto simp: I_def t delegation_step_def Let_def amounts_ok_addReward
          amount_total_addReward amounts_ok_def [THEN iffD1] split: option.splits)
  qed
  have len: "length (fst (delegation_step sk v t d)) \<le> Suc (length (fst t))" for t d
  proof -
    have l: "length (kv_set a x m) \<le> Suc (length m)" for a x and m :: amounts
      by (induction a x m rule: kv_set.induct) auto
    show ?thesis
      by (cases t) (auto simp: delegation_step_def Let_def addReward_def l split: option.splits)
  qed
  have lens: "length (fst (foldl (delegation_step sk v) t ds)) \<le> length (fst t) + length ds" for t ds
  proof (induction ds arbitrary: t)
    case (Cons d ds)
    have "length (fst (foldl (delegation_step sk v) (delegation_step sk v t d) ds))
      \<le> length (fst (delegation_step sk v t d)) + length ds" by (rule Cons.IH)
    then show ?case using len [of t d] by simp
  qed simp
  have inv: "I (foldl (delegation_step sk v) t ds)" if "I t" and "\<forall>d \<in> set ds. 0 \<le> Del_Shares d" for t ds
    using that step by (induction ds arbitrary: t) auto
  have "amounts_ok stakes \<and> amount_total stakes = s \<and> int (length stakes) < 2 ^ 63"
  proof (cases "\<exists>a ds. SK_AccAddress sk (Val_Operator v) = Some a \<and> SK_ValidatorDelegations sk a = Inr ds
      \<and> ds \<noteq> []")
    case True
    then obtain a ds where a: "SK_AccAddress sk (Val_Operator v) = Some a"
      "SK_ValidatorDelegations sk a = Inr ds" "ds \<noteq> []" by blast
    then have f: "foldl (delegation_step sk v) ([], 0) ds = (stakes, s)"
      using assms(2) by (auto simp: collectValidatorDelegationStakes_def split: prod.splits)
    have ds: "int (length ds) < 2 ^ 63" "\<forall>d \<in> set ds. 0 \<le> Del_Shares d"
      using assms(1) a(2) by (auto simp: staking_ok_def)
    show ?thesis using inv [of "([], 0)" ds] ds lens [of "([], 0)" ds] f by (simp add: I_def)
  next
    case False
    then show ?thesis using assms(2)
      by (auto simp: collectValidatorDelegationStakes_def split: option.splits sum.splits if_splits prod.splits)
  qed
  then show "amounts_ok stakes" and "amount_total stakes = s" and "int (length stakes) < 2 ^ 63" by blast+
qed

section \<open>One pool share\<close>

lemma lrm_ok:
  assumes "amounts_ok xs" and "0 < amount_total xs" and "0 \<le> R" and "int (length xs) < 2 ^ 63"
  obtains m where "calculateProportionalRewards xs (amount_total xs) R = Inr m" and "amounts_ok m"
    and "amount_total m = R" and "fst ` set m = fst ` set xs"
proof -
  have d: "distinct (map fst xs)" using assms(1) by (rule amounts_ok_distinct)
  have nn: "\<forall>e \<in> set xs. 0 \<le> snd e" using assms(1) by (simp add: amounts_ok_def)
  obtain m where m: "calculateProportionalRewards xs (amount_total xs) R = Inr m"
    using lrm_result [OF d nn refl assms(2-4)] by blast
  note l = lrm_conserves [OF d nn refl assms(2-4) m]
  have dom: "map_of m a = None \<longleftrightarrow> map_of xs a = None" for a
  proof (cases "map_of xs a")
    case None
    then show ?thesis using l(3) by simp
  next
    case (Some s)
    then show ?thesis using l(4) [OF Some] by auto
  qed
  have "0 \<le> n" if "(a, n) \<in> set m" for a n
  proof -
    have "map_of m a = Some n" using that kv_ok_distinct [OF l(1)] by simp
    moreover from this obtain s where "map_of xs a = Some s" using dom [of a] by (cases "map_of xs a") auto
    ultimately show ?thesis using l(4) [of a s] by auto
  qed
  then have "amounts_ok m" using l(1) by (auto simp: amounts_ok_def)
  moreover have "fst ` set m = fst ` set xs" using dom by (auto simp: map_of_eq_None_iff)
  ultimately show ?thesis using that m l(2) by blast
qed

lemma addRewards_ok:
  assumes "amounts_ok m" and "amounts_ok rewards"
  shows "amounts_ok (addRewards rewards m)"
    and "amount_total (addRewards rewards m) = amount_total m + amount_total rewards"
proof -
  have f: "amounts_ok (fold (\<lambda>(a, n). addReward a n) xs m')
      \<and> amount_total (fold (\<lambda>(a, n). addReward a n) xs m') = amount_total m' + amount_total xs"
    if "amounts_ok m'" and "\<forall>e \<in> set xs. 0 \<le> snd e" for xs m'
    using that
  proof (induction xs arbitrary: m')
    case (Cons e xs)
    obtain a n where e: "e = (a, n)" by (cases e)
    have "amounts_ok (addReward a n m')" using Cons.prems e by (simp add: amounts_ok_addReward)
    moreover have "amount_total (addReward a n m') = amount_total m' + n"
      using Cons.prems(1) by (simp add: amounts_ok_def amount_total_addReward)
    ultimately show ?case using Cons.IH [of "addReward a n m'"] Cons.prems(2) e by simp
  qed simp
  have s: "amount_total (sort_key fst rewards) = amount_total rewards"
    unfolding amount_total_def by (rule sum_list_mset_eq) simp
  show "amounts_ok (addRewards rewards m)"
    and "amount_total (addRewards rewards m) = amount_total m + amount_total rewards"
    using f [OF assms(1), of "sort_key fst rewards"] assms(2) s by (simp_all add: addRewards_def amounts_ok_def)
qed

lemma distribute_pool_share_ok:
  assumes "staking_ok sk" and "amounts_ok rewards" and "map_of pool (snd e) = Some p" and "0 \<le> p"
  obtains rewards' evs' where "distribute_pool_share sk op h pool (rewards, evs) e = Inr (rewards', evs @ evs')"
    and "amounts_ok rewards'" and "amount_total rewards' = amount_total rewards + p"
proof -
  obtain v a where e: "e = (v, a)" by (cases e)
  have p: "map_of pool a = Some p" using assms(3) e by simp
  let ?c = "calculateCommission p (Val_CommissionRate v)"
  note c = calculateCommission_bounds [OF assms(4), of "Val_CommissionRate v"]
  let ?r1 = "if ?c > 0 then addReward a ?c rewards else rewards"
  have ok1: "amounts_ok ?r1" and t1: "amount_total ?r1 = amount_total rewards + ?c"
    using assms(2) c by (auto simp: amounts_ok_addReward amount_total_addReward amounts_ok_def [THEN iffD1])
  obtain stakes s ok where cl: "collectValidatorDelegationStakes sk v a = (stakes, s, ok)"
    by (cases "collectValidatorDelegationStakes sk v a")
  note st = collect_delegations_inv [OF assms(1) cl]
  consider "p = 0" | "p \<noteq> 0" "p - ?c \<le> 0" | "p \<noteq> 0" "0 < p - ?c" "\<not> ok \<or> length stakes = 0 \<or> s = 0"
    | "p \<noteq> 0" "0 < p - ?c" "ok" "length stakes \<noteq> 0" "s \<noteq> 0" by linarith
  then show ?thesis
  proof cases
    case 1
    then show ?thesis using that assms(2) p e by (auto simp: distribute_pool_share_def)
  next
    case 2
    then have "?c = p" using c by linarith
    have "\<exists>evs'. distribute_pool_share sk op h pool (rewards, evs) e = Inr (?r1, evs @ evs')"
      using 2 p e by (auto simp: distribute_pool_share_def Let_def)
    then show ?thesis using that [of ?r1] ok1 t1 \<open>?c = p\<close> by auto
  next
    case 3
    have "amounts_ok (addReward a (p - ?c) ?r1)" using ok1 3 by (intro amounts_ok_addReward) auto
    moreover have "amount_total (addReward a (p - ?c) ?r1) = amount_total rewards + p"
      using ok1 t1 by (simp add: amount_total_addReward amounts_ok_def)
    ultimately show ?thesis using that 3 p e cl
      by (simp add: distribute_pool_share_def Let_def)
  next
    case 4
    have "0 \<le> s" using st(1,2) amount_nonneg [of stakes] by (auto simp: amounts_ok_def)
    then have "0 < amount_total stakes" and "0 \<le> p - ?c" using 4 st(2) by auto
    then obtain m where m: "calculateProportionalRewards stakes (amount_total stakes) (p - ?c) = Inr m"
      "amounts_ok m" "amount_total m = p - ?c" by (rule lrm_ok [OF st(1) _ _ st(3)])
    have "amounts_ok (addRewards m ?r1)" and "amount_total (addRewards m ?r1) = amount_total rewards + p"
      using addRewards_ok [OF ok1 m(2)] t1 m(3) by auto
    then show ?thesis using that 4 p e cl m(1) st(2)
      by (simp add: distribute_pool_share_def Let_def)
  qed
qed

lemma distribute_pool_shares_ok:
  assumes "staking_ok sk" and "amounts_ok pool" and "amounts_ok rewards" and "\<forall>e \<in> set es. map_of pool (snd e) \<noteq> None"
  obtains rewards' evs' where "foldR (distribute_pool_share sk op h pool) (rewards, evs) es = Inr (rewards', evs')"
    and "amounts_ok rewards'"
    and "amount_total rewards' = amount_total rewards + sum_list (map (\<lambda>a. the (map_of pool a)) (map snd es))"
  using assms(3,4)
proof (induction es arbitrary: rewards evs thesis)
  case Nil
  then show ?case by simp
next
  case (Cons e es)
  obtain p where p: "map_of pool (snd e) = Some p" using Cons.prems(3) by auto
  then have "0 \<le> p" using assms(2) by (auto simp: amounts_ok_def dest!: map_of_SomeD)
  then obtain r1 evs1 where r1: "distribute_pool_share sk op h pool (rewards, evs) e = Inr (r1, evs @ evs1)"
    "amounts_ok r1" "amount_total r1 = amount_total rewards + p"
    by (rule distribute_pool_share_ok [OF assms(1) Cons.prems(2) p])
  have rest: "\<forall>e \<in> set es. map_of pool (snd e) \<noteq> None" using Cons.prems(3) by simp
  obtain r2 evs2 where "foldR (distribute_pool_share sk op h pool) (r1, evs @ evs1) es = Inr (r2, evs2)"
    "amounts_ok r2"
    "amount_total r2 = amount_total r1 + sum_list (map (\<lambda>a. the (map_of pool a)) (map snd es))"
    by (rule Cons.IH [OF _ r1(2) rest])
  then show ?case using Cons.prems(1) r1 p by simp
qed

section \<open>The transfers\<close>

definition acct_total :: "mod_to_acct list \<Rightarrow> int" where
  "acct_total ts = sum_list (map (\<lambda>t. Amount (MA_Coin t)) ts)"

lemma acct_total_simps [simp]: "acct_total [] = 0" "acct_total (t # ts) = Amount (MA_Coin t) + acct_total ts"
  "acct_total (ts @ us) = acct_total ts + acct_total us"
  by (simp_all add: acct_total_def)

text \<open>Transfers out of one module, of positive amounts of the native token.\<close>

definition pays_from :: "string \<Rightarrow> mod_to_acct list \<Rightarrow> bool" where
  "pays_from m ts \<longleftrightarrow> (\<forall>t \<in> set ts. MA_SenderModule t = m \<and> 0 < Amount (MA_Coin t)
     \<and> Denom (MA_Coin t) = DenomuPOKT \<and> MA_OpReason t \<noteq> UNSPECIFIED)"

definition with_acct :: "mod_to_acct list \<Rightarrow> claim_settlement_result \<Rightarrow> claim_settlement_result" where
  "with_acct ts r = r\<lparr>SR_ModToAcctTransfers := SR_ModToAcctTransfers r @ ts\<rparr>"

lemma with_acct_simps [simp]: "with_acct [] r = r"
  "with_acct ts (with_acct us r) = with_acct (us @ ts) r"
  by (simp_all add: with_acct_def)

lemma queue_rewards_ok:
  assumes "\<forall>e \<in> set xs. 0 \<le> snd e" and "op \<noteq> UNSPECIFIED"
  obtains ts where "foldR (queue_reward V op) r xs = Inr (with_acct ts r)"
    and "pays_from Tokenomics_ModuleName ts" and "acct_total ts = amount_total xs"
  using assms(1)
proof (induction xs arbitrary: r thesis)
  case Nil
  then show ?case by (metis acct_total_simps(1) amount_total_simps(1) foldR.simps(1) pays_from_def
        with_acct_simps(1) empty_iff list.set(1))
next
  case (Cons e xs)
  obtain a n where e: "e = (a, n)" by (cases e)
  have rest: "\<forall>e \<in> set xs. 0 \<le> snd e" and n: "0 \<le> n" using Cons.prems(2) e by auto
  show ?case
  proof (cases "n = 0")
    case True
    obtain ts where "foldR (queue_reward V op) r xs = Inr (with_acct ts r)"
      "pays_from Tokenomics_ModuleName ts" "acct_total ts = amount_total xs" by (rule Cons.IH [OF _ rest])
    moreover have "queue_reward V op r e = Inr r" using True e by (simp add: queue_reward_def)
    ultimately show ?thesis using Cons.prems(1) True e by simp
  next
    case False
    define t where "t = \<lparr>MA_OpReason = (if a \<in> V then op else delegator_reason op),
      MA_SenderModule = Tokenomics_ModuleName, MA_RecipientAddress = a, MA_Coin = upokt n\<rparr>"
    have q: "queue_reward V op r e = Inr (with_acct [t] r)"
      using False n e by (simp add: queue_reward_def NewCoin_def AppendModToAcctTransfer_def with_acct_def t_def)
    have t: "pays_from Tokenomics_ModuleName [t]" "Amount (MA_Coin t) = n"
      using False n assms(2) by (auto simp: pays_from_def t_def upokt_def delegator_reason_def)
    obtain ts where "foldR (queue_reward V op) (with_acct [t] r) xs = Inr (with_acct ts (with_acct [t] r))"
      "pays_from Tokenomics_ModuleName ts" "acct_total ts = amount_total xs" by (rule Cons.IH [OF _ rest])
    then show ?thesis using Cons.prems(1) [of "t # ts"] q t e by (simp add: pays_from_def)
  qed
qed

lemma DistributeValidatorRewards_ok:
  assumes "staking_ok sk" and "0 \<le> n" and "SK_BondedValidators sk = Inr vs" and "op \<noteq> UNSPECIFIED"
  obtains ts evs where "DistributeValidatorRewards sk r (upokt n) op h = Inr (with_acct ts r, evs)"
    and "pays_from Tokenomics_ModuleName ts" and "acct_total ts = n \<or> ts = []"
    and "v \<in> set vs \<Longrightarrow> SK_AccAddress sk (Val_Operator v) \<noteq> None \<Longrightarrow> 0 < Val_BondedTokens v
      \<Longrightarrow> acct_total ts = n"
proof -
  have vs: "int (length vs) < 2 ^ 63" "\<forall>v \<in> set vs. 0 \<le> Val_BondedTokens v"
    using assms(1,3) by (auto simp: staking_ok_def)
  have none: "pays_from Tokenomics_ModuleName []" by (simp add: pays_from_def)
  obtain entries stakes s where b: "buildValidatorStakes sk vs = (entries, stakes, s)"
    by (cases "buildValidatorStakes sk vs")
  note inv = buildValidatorStakes_inv [OF vs(2) b]
  have bt: "0 < sum_list (map Val_BondedTokens vs)" if "v \<in> set vs" "0 < Val_BondedTokens v" for v
  proof -
    have "Val_BondedTokens v \<le> sum_list (map Val_BondedTokens vs)"
      using that vs(2) by (intro member_le_sum_list) auto
    then show ?thesis using that(2) by simp
  qed
  show ?thesis
  proof (cases "n = 0 \<or> length vs = 0 \<or> sum_list (map Val_BondedTokens vs) = 0 \<or> entries = []")
    case True
    have "DistributeValidatorRewards sk r (upokt n) op h = Inr (with_acct [] r, [])"
      using True assms(3) b
      by (auto simp: DistributeValidatorRewards_def upokt_def distributeRewardsToValidatorsAndDelegators_def)
    moreover have "n = 0" if "v \<in> set vs" "SK_AccAddress sk (Val_Operator v) \<noteq> None" "0 < Val_BondedTokens v"
      using True that bt [OF that(1,3)] eligible_entry [OF that(1) _ that(3) b] by auto
    ultimately show ?thesis using that [of "[]"] none by auto
  next
    case False
    have "0 < amount_total stakes" using inv(2,5) False by auto
    moreover have "int (length stakes) < 2 ^ 63" using inv(6) vs(1) by linarith
    ultimately obtain pool where pool: "calculateProportionalRewards stakes (amount_total stakes) n = Inr pool"
      "amounts_ok pool" "amount_total pool = n" "fst ` set pool = fst ` set stakes"
      by (rule lrm_ok [OF inv(1) _ assms(2)])
    have dom: "\<forall>e \<in> set entries. map_of pool (snd e) \<noteq> None"
      using inv(4) pool(4) by (auto simp: map_of_eq_None_iff)
    obtain rewards evs where rw: "foldR (distribute_pool_share sk op h pool) ([], []) entries = Inr (rewards, evs)"
      "amounts_ok rewards"
      "amount_total rewards = amount_total ([] :: amounts) + sum_list (map (\<lambda>a. the (map_of pool a)) (map snd entries))"
      by (rule distribute_pool_shares_ok [where op = op and h = h and evs = "[]",
            OF assms(1) pool(2) amounts_ok_Nil dom])
    have "set (map snd entries) = fst ` set pool" using inv(4) pool(4) by simp
    then have total: "amount_total rewards = n"
      using rw(3) total_by_keys [OF _ inv(3)] pool(2,3) by (simp add: amounts_ok_def)
    have nn: "\<forall>e \<in> set (sort_key fst rewards). 0 \<le> snd e" using rw(2) by (simp add: amounts_ok_def)
    obtain ts where ts: "foldR (queue_reward (snd ` set entries) op) r (sort_key fst rewards) = Inr (with_acct ts r)"
      "pays_from Tokenomics_ModuleName ts" "acct_total ts = amount_total (sort_key fst rewards)"
      by (rule queue_rewards_ok [OF nn assms(4)])
    have "amount_total (sort_key fst rewards) = n"
      using total unfolding amount_total_def by (metis mset_map mset_sort sum_list_mset_eq)
    moreover have "DistributeValidatorRewards sk r (upokt n) op h = Inr (with_acct ts r, evs)"
      using False assms(3) b pool(1) inv(2) rw(1) ts(1)
      by (simp add: DistributeValidatorRewards_def upokt_def queueRewardTransfers_def
          distributeRewardsToValidatorsAndDelegators_def)
    ultimately show ?thesis using that ts by auto
  qed
qed

end
