(* ===== verification/TokModules.thy ===== *)
theory TokModules
  imports TokRewards
begin

text \<open>
  The token logic modules (\<open>x/tokenomics/token_logic_module\<close>): burn against mint, global mint and
  its reimbursement requests. A module works on what \<open>TLMContext\<close> points to, the claim's result,
  the application and the validator reward accumulator, and what it changed before it failed stays
  changed; so every step returns the state it leaves beside its outcome. Events are part of it.
\<close>

section \<open>Steps that fail with their changes kept\<close>

type_synonym ('s, 'a) step = "'s \<times> 'a res"

fun thenS :: "('s, unit) step \<Rightarrow> ('s \<Rightarrow> ('s, 'a) step) \<Rightarrow> ('s, 'a) step" where
  "thenS (s, Inl e) f = (s, Inl e)"
| "thenS (s, Inr u) f = f s"

text \<open>A fallible read inside such a step.\<close>

fun getS :: "'s \<Rightarrow> 'b res \<Rightarrow> ('b \<Rightarrow> ('s, 'a) step) \<Rightarrow> ('s, 'a) step" where
  "getS s (Inl e) f = (s, Inl e)"
| "getS s (Inr x) f = f x"

section \<open>The context\<close>

record tlm_context =
  TC_Params :: tok_params
  TC_SettlementCoin :: coin
  TC_SessionHeader :: session_header
  TC_Service :: shared_service
  TC_Supplier :: supplier

record tlm_state =
  TS_Result :: claim_settlement_result
  TS_Application :: application
  TS_Accumulator :: "(settlement_op_reason, int) kv"
  TS_Events :: "tok_event list"

definition accumulateValidatorReward :: "settlement_op_reason \<Rightarrow> int \<Rightarrow> tlm_state \<Rightarrow> tlm_state" where
  "accumulateValidatorReward opReason amount ts =
     ts\<lparr>TS_Accumulator := kv_set opReason
          ((case map_of (TS_Accumulator ts) opReason of None \<Rightarrow> 0 | Some n \<Rightarrow> n) + amount)
          (TS_Accumulator ts)\<rparr>"

definition Application_ModuleName :: string where "Application_ModuleName = ''application''"

definition on_result :: "(claim_settlement_result \<Rightarrow> claim_settlement_result) \<Rightarrow> tlm_state \<Rightarrow> tlm_state" where
  "on_result f ts = ts\<lparr>TS_Result := f (TS_Result ts)\<rparr>"

text \<open>Each step checks an amount and queues nothing when it is zero.\<close>

definition send_to_account :: "settlement_op_reason \<Rightarrow> string \<Rightarrow> int \<Rightarrow> tlm_state \<Rightarrow> (tlm_state, unit) step" where
  "send_to_account opReason recipient amount ts =
     (if amount = 0 then (ts, Inr ())
      else getS ts (NewCoin amount) (\<lambda>c.
        (on_result (AppendModToAcctTransfer \<lparr>MA_OpReason = opReason,
           MA_SenderModule = Tokenomics_ModuleName, MA_RecipientAddress = recipient, MA_Coin = c\<rparr>) ts,
         Inr ())))"

text \<open>The supplier's share goes to the supplier module first, then to its shareholders. When the
  second part fails, the transfer is queued all the same.\<close>

definition send_to_supplier :: "settlement_op_reason \<Rightarrow> settlement_op_reason \<Rightarrow> supplier \<Rightarrow> string \<Rightarrow> int
    \<Rightarrow> tlm_state \<Rightarrow> (tlm_state, unit) step" where
  "send_to_supplier moduleReason shareReason s serviceId amount ts =
     (if amount = 0 then (ts, Inr ())
      else getS ts (NewCoin amount) (\<lambda>c.
        let ts1 = on_result (AppendModToModTransfer \<lparr>MM_OpReason = moduleReason,
               MM_SenderModule = Tokenomics_ModuleName, MM_RecipientModule = Supplier_ModuleName,
               MM_Coin = c\<rparr>) ts
        in getS ts1 (mapErr (\<lambda>_. Tokenomics ErrTokenomicsTLMInternal)
               (distributeSupplierRewardsToShareholders (TS_Result ts1) shareReason s serviceId amount))
             (\<lambda>(r, events). (ts1\<lparr>TS_Result := r, TS_Events := TS_Events ts1 @ events\<rparr>, Inr ()))))"

definition accumulate_proposer :: "settlement_op_reason \<Rightarrow> int \<Rightarrow> tlm_state \<Rightarrow> (tlm_state, unit) step" where
  "accumulate_proposer opReason amount ts =
     (if amount = 0 then (ts, Inr ()) else (accumulateValidatorReward opReason amount ts, Inr ()))"

section \<open>Amounts\<close>

definition calculateAllocationAmount :: "int \<Rightarrow> rat \<Rightarrow> int" where
  "calculateAllocationAmount amountInt allocationPercentageRat =
     rat_quo (of_int amountInt * allocationPercentageRat)"

definition mint_amount :: "int \<Rightarrow> rat \<Rightarrow> int" where
  "mint_amount settlementAmount mintRatioRat = rat_quo (of_int settlementAmount * mintRatioRat)"

text \<open>Rounded up: a positive remainder adds one.\<close>

definition CalculateGlobalPerClaimMintInflationFromSettlementAmount :: "coin \<Rightarrow> rat \<Rightarrow> coin res" where
  "CalculateGlobalPerClaimMintInflationFromSettlementAmount settlementCoin globalInflationPerClaimRat =
     (let newMintAmtRat = of_int (Amount settlementCoin) * globalInflationPerClaimRat;
          q = rat_quo newMintAmtRat
      in NewCoin (if newMintAmtRat - of_int q > 0 then q + 1 else q))"

definition rat_param :: "f64 \<Rightarrow> rat res" where
  "rat_param x = mapErr (\<lambda>_. Tokenomics ErrTokenomicsTLMInternal) (Float64ToRat x)"

text \<open>The five shares of an amount: four are rounded down, the DAO's is the rest.\<close>

record split =
  SP_Supplier :: int
  SP_Proposer :: int
  SP_SourceOwner :: int
  SP_Application :: int
  SP_Dao :: int

definition split_of :: "int \<Rightarrow> rat \<Rightarrow> rat \<Rightarrow> rat \<Rightarrow> rat \<Rightarrow> split" where
  "split_of n supplierRat proposerRat sourceOwnerRat applicationRat =
     (let supplierAmount = calculateAllocationAmount n supplierRat;
          proposerAmount = calculateAllocationAmount n proposerRat;
          sourceOwnerAmount = calculateAllocationAmount n sourceOwnerRat;
          applicationAmount = calculateAllocationAmount n applicationRat
      in \<lparr>SP_Supplier = supplierAmount, SP_Proposer = proposerAmount,
          SP_SourceOwner = sourceOwnerAmount, SP_Application = applicationAmount,
          SP_Dao = n - supplierAmount - proposerAmount - sourceOwnerAmount - applicationAmount\<rparr>)"

definition split_total :: "split \<Rightarrow> int" where
  "split_total sp = SP_Supplier sp + SP_Proposer sp + SP_SourceOwner sp + SP_Application sp + SP_Dao sp"

section \<open>Burn equals mint\<close>

definition processApplicationBurn :: "sdk \<Rightarrow> tlm_context \<Rightarrow> tlm_state \<Rightarrow> (tlm_state, unit) step" where
  "processApplicationBurn sdk tc ts =
     (let ts1 = on_result (AppendBurn \<lparr>MB_OpReason = TLM_RELAY_BURN_EQUALS_MINT_APPLICATION_STAKE_BURN,
            MB_DestinationModule = Application_ModuleName, MB_Coin = TC_SettlementCoin tc\<rparr>) ts
      in case coinSafeSub sdk (App_Stake (TS_Application ts1)) (TC_SettlementCoin tc) of
           Inl Panic \<Rightarrow> (ts1, Inl Panic)
         | Inl e \<Rightarrow> (ts1, Inl (Tokenomics ErrTokenomicsApplicationNewStakeInvalid))
         | Inr newAppStake \<Rightarrow>
             (ts1\<lparr>TS_Application := (TS_Application ts1)\<lparr>App_Stake := newAppStake\<rparr>\<rparr>, Inr ()))"

definition processTokenomicsMint :: "tlm_context \<Rightarrow> tlm_state \<Rightarrow> (tlm_state, unit) step" where
  "processTokenomicsMint tc ts =
     getS ts (rat_param (MintRatio (TC_Params tc))) (\<lambda>mintRatioRat.
       let mintAmount = mint_amount (Amount (TC_SettlementCoin tc)) mintRatioRat
       in if mintAmount = 0 then (ts, Inl (Tokenomics ErrTokenomicsTLMInternal))
          else getS ts (NewCoin mintAmount) (\<lambda>mintCoin.
            (on_result (AppendMint
               \<lparr>MB_OpReason = TLM_RELAY_BURN_EQUALS_MINT_TOKENOMICS_CLAIM_DISTRIBUTION_MINT,
                MB_DestinationModule = Tokenomics_ModuleName, MB_Coin = mintCoin\<rparr>) ts, Inr ())))"

definition processRewardDistribution :: "tlm_context \<Rightarrow> tlm_state \<Rightarrow> (tlm_state, unit) step" where
  "processRewardDistribution tc ts =
     (let dist = MintEqualsBurnClaimDistribution (TC_Params tc) in
      getS ts (rat_param (MintRatio (TC_Params tc))) (\<lambda>mintRatioRat.
      getS ts (rat_param (Alloc_Supplier dist)) (\<lambda>supplierRat.
      getS ts (rat_param (Alloc_Proposer dist)) (\<lambda>proposerRat.
      getS ts (rat_param (Alloc_SourceOwner dist)) (\<lambda>sourceOwnerRat.
      getS ts (rat_param (Alloc_Application dist)) (\<lambda>applicationRat.
      let distributionAmount = mint_amount (Amount (TC_SettlementCoin tc)) mintRatioRat;
          sp = split_of distributionAmount supplierRat proposerRat sourceOwnerRat applicationRat
      in
      thenS (send_to_supplier TLM_RELAY_BURN_EQUALS_MINT_SUPPLIER_SHAREHOLDER_REWARD_DISTRIBUTION
               TLM_RELAY_BURN_EQUALS_MINT_SUPPLIER_SHAREHOLDER_REWARD_DISTRIBUTION
               (TC_Supplier tc) (Service_Id (TC_Service tc)) (SP_Supplier sp) ts) (\<lambda>ts1.
      thenS (accumulate_proposer TLM_RELAY_BURN_EQUALS_MINT_VALIDATOR_REWARD_DISTRIBUTION
               (SP_Proposer sp) ts1) (\<lambda>ts2.
      thenS (send_to_account TLM_RELAY_BURN_EQUALS_MINT_SOURCE_OWNER_REWARD_DISTRIBUTION
               (Service_OwnerAddress (TC_Service tc)) (SP_SourceOwner sp) ts2) (\<lambda>ts3.
      thenS (send_to_account TLM_RELAY_BURN_EQUALS_MINT_DAO_REWARD_DISTRIBUTION
               (DaoRewardAddress (TC_Params tc)) (SP_Dao sp) ts3) (\<lambda>ts4.
      thenS (send_to_account TLM_RELAY_BURN_EQUALS_MINT_APPLICATION_REWARD_DISTRIBUTION
               (App_Address (TS_Application ts4)) (SP_Application sp) ts4) (\<lambda>ts5.
      if split_total sp \<noteq> distributionAmount then (ts5, Inl (Tokenomics ErrTokenomicsConstraint))
      else (ts5, Inr ()))))))))))))"

definition RelayBurnEqualsMint_Process :: "sdk \<Rightarrow> tlm_context \<Rightarrow> tlm_state \<Rightarrow> (tlm_state, unit) step" where
  "RelayBurnEqualsMint_Process sdk tc ts =
     thenS (processApplicationBurn sdk tc ts) (\<lambda>ts1.
     thenS (processTokenomicsMint tc ts1) (\<lambda>ts2.
       processRewardDistribution tc ts2))"

section \<open>Global mint\<close>

text \<open>The new coin is returned; its mint is queued unless there is no inflation. The telemetry call
  converts the settlement amount to an int64, which panics when it does not fit.\<close>

definition processInflationMint :: "tlm_context \<Rightarrow> tlm_state \<Rightarrow> (tlm_state, coin) step" where
  "processInflationMint tc ts =
     (let globalInflationPerClaim = GlobalInflationPerClaim (TC_Params tc) in
      if f64_eq globalInflationPerClaim (Fin 0) then (ts, Inr (upokt 0))
      else getS ts (Float64ToRat globalInflationPerClaim) (\<lambda>globalInflationPerClaimRat.
           getS ts (CalculateGlobalPerClaimMintInflationFromSettlementAmount (TC_SettlementCoin tc)
                      globalInflationPerClaimRat) (\<lambda>newMintCoin.
           if Amount newMintCoin = 0 then (ts, Inl (Tokenomics ErrTokenomicsCoinIsZero))
           else (on_result (AppendMint \<lparr>MB_OpReason = TLM_GLOBAL_MINT_INFLATION,
                   MB_DestinationModule = Tokenomics_ModuleName, MB_Coin = newMintCoin\<rparr>) ts,
                 if in_i64 (Amount (TC_SettlementCoin tc)) then Inr newMintCoin else Inl Panic))))"

text \<open>The transfer to the supplier module carries the reason of the reimbursement escrow.\<close>

definition processMintDistribution :: "tlm_context \<Rightarrow> coin \<Rightarrow> tlm_state \<Rightarrow> (tlm_state, unit) step" where
  "processMintDistribution tc newMintCoin ts =
     (let alloc = MintAllocationPercentages (TC_Params tc) in
      getS ts (rat_param (Alloc_Supplier alloc)) (\<lambda>supplierRat.
      getS ts (rat_param (Alloc_Application alloc)) (\<lambda>applicationRat.
      getS ts (rat_param (Alloc_SourceOwner alloc)) (\<lambda>sourceOwnerRat.
      getS ts (rat_param (Alloc_Proposer alloc)) (\<lambda>proposerRat.
      let sp = split_of (Amount newMintCoin) supplierRat proposerRat sourceOwnerRat applicationRat
      in
      thenS (send_to_supplier TLM_GLOBAL_MINT_REIMBURSEMENT_REQUEST_ESCROW_MODULE_TRANSFER
               TLM_GLOBAL_MINT_SUPPLIER_SHAREHOLDER_REWARD_DISTRIBUTION
               (TC_Supplier tc) (Service_Id (TC_Service tc)) (SP_Supplier sp) ts) (\<lambda>ts1.
      thenS (send_to_account TLM_GLOBAL_MINT_APPLICATION_REWARD_DISTRIBUTION
               (App_Address (TS_Application ts1)) (SP_Application sp) ts1) (\<lambda>ts2.
      thenS (send_to_account TLM_GLOBAL_MINT_SOURCE_OWNER_REWARD_DISTRIBUTION
               (Service_OwnerAddress (TC_Service tc)) (SP_SourceOwner sp) ts2) (\<lambda>ts3.
      thenS (accumulate_proposer TLM_GLOBAL_MINT_VALIDATOR_REWARD_DISTRIBUTION
               (SP_Proposer sp) ts3) (\<lambda>ts4.
      thenS (send_to_account TLM_GLOBAL_MINT_DAO_REWARD_DISTRIBUTION
               (DaoRewardAddress (TC_Params tc)) (SP_Dao sp) ts4) (\<lambda>ts5.
      if split_total sp \<noteq> Amount newMintCoin then (ts5, Inl (Tokenomics ErrTokenomicsConstraint))
      else (ts5, Inr ())))))))))))"

definition GlobalMint_Process :: "tlm_context \<Rightarrow> tlm_state \<Rightarrow> (tlm_state, unit) step" where
  "GlobalMint_Process tc ts =
     (case processInflationMint tc ts of
        (ts1, Inl e) \<Rightarrow> (ts1, Inl e)
      | (ts1, Inr newMintCoin) \<Rightarrow>
          if Amount newMintCoin = 0 then (ts1, Inr ()) else processMintDistribution tc newMintCoin ts1)"

section \<open>Reimbursement requests\<close>

text \<open>The check for zero panics on an amount beyond an int64.\<close>

definition GlobalMintReimbursementRequest_Process ::
    "sdk \<Rightarrow> tlm_context \<Rightarrow> tlm_state \<Rightarrow> (tlm_state, unit) step" where
  "GlobalMintReimbursementRequest_Process sdk tc ts =
     (let globalInflationPerClaim = GlobalInflationPerClaim (TC_Params tc) in
      getS ts (Float64ToRat globalInflationPerClaim) (\<lambda>globalInflationPerClaimRat.
      if f64_eq globalInflationPerClaim (Fin 0) then (ts, Inr ())
      else getS ts (CalculateGlobalPerClaimMintInflationFromSettlementAmount (TC_SettlementCoin tc)
                      globalInflationPerClaimRat) (\<lambda>newMintCoin.
      if \<not> in_i64 (Amount newMintCoin) then (ts, Inl Panic)
      else if Amount newMintCoin = 0 then (ts, Inl (Tokenomics ErrTokenomicsCoinIsZero))
      else getS ts (coinSafeSub sdk (App_Stake (TS_Application ts)) newMintCoin) (\<lambda>newAppStake.
      let ts1 = ts\<lparr>TS_Application := (TS_Application ts)\<lparr>App_Stake := newAppStake\<rparr>\<rparr>;
          ts2 = on_result (AppendModToModTransfer
            \<lparr>MM_OpReason = TLM_GLOBAL_MINT_REIMBURSEMENT_REQUEST_ESCROW_MODULE_TRANSFER,
             MM_SenderModule = Application_ModuleName, MM_RecipientModule = Tokenomics_ModuleName,
             MM_Coin = newMintCoin\<rparr>) ts1;
          ts3 = on_result (AppendModToAcctTransfer
            \<lparr>MA_OpReason = TLM_GLOBAL_MINT_REIMBURSEMENT_REQUEST_ESCROW_DAO_TRANSFER,
             MA_SenderModule = Tokenomics_ModuleName,
             MA_RecipientAddress = DaoRewardAddress (TC_Params tc), MA_Coin = newMintCoin\<rparr>) ts2
      in (ts3\<lparr>TS_Events := TS_Events ts3 @ [EventApplicationReimbursementRequest (TS_Application ts3)
              (TC_Supplier tc) (Service_Id (TC_Service tc)) (SH_SessionId (TC_SessionHeader tc))
              newMintCoin]\<rparr>, Inr ())))))"

section \<open>All modules\<close>

datatype token_logic_module =
  TLMRelayBurnEqualsMint | TLMGlobalMint | TLMGlobalMintReimbursementRequest

definition NewDefaultTokenLogicModules :: "token_logic_module list" where
  "NewDefaultTokenLogicModules =
     [TLMRelayBurnEqualsMint, TLMGlobalMint, TLMGlobalMintReimbursementRequest]"

definition ValidateTLMConfig :: "token_logic_module list \<Rightarrow> unit res" where
  "ValidateTLMConfig tokenLogicModules =
     (if (TLMGlobalMint \<in> set tokenLogicModules)
         \<noteq> (TLMGlobalMintReimbursementRequest \<in> set tokenLogicModules)
      then Inl (Tokenomics ErrTokenomicsConstraint) else Inr ())"

fun TLM_Process :: "sdk \<Rightarrow> tlm_context \<Rightarrow> token_logic_module \<Rightarrow> tlm_state \<Rightarrow> (tlm_state, unit) step" where
  "TLM_Process sdk tc TLMRelayBurnEqualsMint ts = RelayBurnEqualsMint_Process sdk tc ts"
| "TLM_Process sdk tc TLMGlobalMint ts = GlobalMint_Process tc ts"
| "TLM_Process sdk tc TLMGlobalMintReimbursementRequest ts =
     GlobalMintReimbursementRequest_Process sdk tc ts"

text \<open>The loop over the modules wraps an error; a panic is none.\<close>

fun wrapTLM :: "(tlm_state, unit) step \<Rightarrow> (tlm_state, unit) step" where
  "wrapTLM (ts, r) = (ts, mapErr (\<lambda>_. Tokenomics ErrTokenomicsProcessingTLM) r)"

fun run_modules :: "sdk \<Rightarrow> tlm_context \<Rightarrow> token_logic_module list \<Rightarrow> tlm_state \<Rightarrow> (tlm_state, unit) step" where
  "run_modules sdk tc [] ts = (ts, Inr ())"
| "run_modules sdk tc (m # ms) ts = thenS (wrapTLM (TLM_Process sdk tc m ts)) (run_modules sdk tc ms)"

end
