(* ===== verification/TokConserve.thy ===== *)
theory TokConserve
  imports TokValidators TokModules
begin

text \<open>
  Double entry for the token logic modules: whatever a successful run queues for a claim, each module
  account is left with what it is accounted for. The tokenomics account keeps the accumulated validator
  rewards and nothing else, the supplier account keeps nothing, and the application account loses
  exactly what the application's stake loses. When a module fails, the stake has not grown.
\<close>

section \<open>The inflow of a result\<close>

definition mb_total :: "string \<Rightarrow> mint_burn_op list \<Rightarrow> int" where
  "mb_total m ops = sum_list (map (\<lambda>op. if MB_DestinationModule op = m then Amount (MB_Coin op) else 0) ops)"

definition mm_total :: "string \<Rightarrow> mod_to_mod list \<Rightarrow> int" where
  "mm_total m ts = sum_list (map (\<lambda>t. (if MM_RecipientModule t = m then Amount (MM_Coin t) else 0)
     - (if MM_SenderModule t = m then Amount (MM_Coin t) else 0)) ts)"

definition ma_total :: "string \<Rightarrow> mod_to_acct list \<Rightarrow> int" where
  "ma_total m ts = sum_list (map (\<lambda>t. if MA_SenderModule t = m then Amount (MA_Coin t) else 0) ts)"

text \<open>What the operations of a result add to a module's account once they are executed.\<close>

definition result_inflow :: "string \<Rightarrow> claim_settlement_result \<Rightarrow> int" where
  "result_inflow m r = mb_total m (SR_Mints r) - mb_total m (SR_Burns r)
     + mm_total m (SR_ModToModTransfers r) - ma_total m (SR_ModToAcctTransfers r)"

definition results_inflow :: "string \<Rightarrow> claim_settlement_result list \<Rightarrow> int" where
  "results_inflow m rs = sum_list (map (result_inflow m) rs)"

lemma op_totals_simps [simp]:
  "mb_total m [] = 0" "mb_total m (ops @ ops') = mb_total m ops + mb_total m ops'"
  "mb_total m (op # ops) = (if MB_DestinationModule op = m then Amount (MB_Coin op) else 0) + mb_total m ops"
  "mm_total m [] = 0" "mm_total m (ts @ ts') = mm_total m ts + mm_total m ts'"
  "mm_total m (t # ts) = (if MM_RecipientModule t = m then Amount (MM_Coin t) else 0)
     - (if MM_SenderModule t = m then Amount (MM_Coin t) else 0) + mm_total m ts"
  "ma_total m [] = 0" "ma_total m (us @ us') = ma_total m us + ma_total m us'"
  "ma_total m (u # us) = (if MA_SenderModule u = m then Amount (MA_Coin u) else 0) + ma_total m us"
  by (simp_all add: mb_total_def mm_total_def ma_total_def)

lemma results_inflow_simps [simp]: "results_inflow m [] = 0"
  "results_inflow m (r # rs) = result_inflow m r + results_inflow m rs"
  "results_inflow m (rs @ rs') = results_inflow m rs + results_inflow m rs'"
  by (simp_all add: results_inflow_def)

lemma ma_total_pays: "pays_from m' ts \<Longrightarrow> ma_total m ts = (if m = m' then acct_total ts else 0)"
  by (induction ts) (auto simp: pays_from_def)

lemma inflow_with_acct: "result_inflow m (with_acct ts r) = result_inflow m r - ma_total m ts"
  by (simp add: result_inflow_def with_acct_def)

lemma inflow_AppendMint: "result_inflow m (AppendMint op r)
    = result_inflow m r + (if MB_DestinationModule op = m then Amount (MB_Coin op) else 0)"
  by (simp add: result_inflow_def AppendMint_def)

lemma inflow_AppendBurn: "result_inflow m (AppendBurn op r)
    = result_inflow m r - (if MB_DestinationModule op = m then Amount (MB_Coin op) else 0)"
  by (simp add: result_inflow_def AppendBurn_def)

lemma inflow_AppendModToMod: "result_inflow m (AppendModToModTransfer t r)
    = result_inflow m r + (if MM_RecipientModule t = m then Amount (MM_Coin t) else 0)
      - (if MM_SenderModule t = m then Amount (MM_Coin t) else 0)"
  by (simp add: result_inflow_def AppendModToModTransfer_def)

lemma inflow_AppendModToAcct: "result_inflow m (AppendModToAcctTransfer t r)
    = result_inflow m r - (if MA_SenderModule t = m then Amount (MA_Coin t) else 0)"
  by (simp add: result_inflow_def AppendModToAcctTransfer_def)

lemma append_claim [simp]: "SR_Claim (AppendMint op r) = SR_Claim r" "SR_Claim (AppendBurn op r) = SR_Claim r"
  "SR_Claim (AppendModToModTransfer t r) = SR_Claim r" "SR_Claim (AppendModToAcctTransfer u r) = SR_Claim r"
  "SR_Claim (with_acct us r) = SR_Claim r"
  by (simp_all add: AppendMint_def AppendBurn_def AppendModToModTransfer_def AppendModToAcctTransfer_def
      with_acct_def)

lemmas inflow_simps = inflow_with_acct inflow_AppendMint inflow_AppendBurn inflow_AppendModToMod
  inflow_AppendModToAcct

lemma module_names [simp]: "Tokenomics_ModuleName \<noteq> Supplier_ModuleName"
  "Supplier_ModuleName \<noteq> Tokenomics_ModuleName" "Tokenomics_ModuleName \<noteq> Application_ModuleName"
  "Application_ModuleName \<noteq> Tokenomics_ModuleName" "Supplier_ModuleName \<noteq> Application_ModuleName"
  "Application_ModuleName \<noteq> Supplier_ModuleName"
  by (simp_all add: Tokenomics_ModuleName_def Supplier_ModuleName_def Application_ModuleName_def)

section \<open>Well-formed operations\<close>

text \<open>Native coins of a positive amount with a specified reason: what aggregation and the bank take.\<close>

definition coin_ok :: "coin \<Rightarrow> bool" where
  "coin_ok c \<longleftrightarrow> Denom c = DenomuPOKT \<and> 0 < Amount c"

definition result_ok :: "claim_settlement_result \<Rightarrow> bool" where
  "result_ok r \<longleftrightarrow> (\<forall>op \<in> set (SR_Mints r @ SR_Burns r). coin_ok (MB_Coin op) \<and> MB_OpReason op \<noteq> UNSPECIFIED)
     \<and> (\<forall>t \<in> set (SR_ModToModTransfers r). coin_ok (MM_Coin t) \<and> MM_OpReason t \<noteq> UNSPECIFIED)
     \<and> (\<forall>t \<in> set (SR_ModToAcctTransfers r). coin_ok (MA_Coin t) \<and> MA_OpReason t \<noteq> UNSPECIFIED)"

lemma result_ok_simps:
  "result_ok (AppendMint op r) \<longleftrightarrow> result_ok r \<and> coin_ok (MB_Coin op) \<and> MB_OpReason op \<noteq> UNSPECIFIED"
  "result_ok (AppendBurn op r) \<longleftrightarrow> result_ok r \<and> coin_ok (MB_Coin op) \<and> MB_OpReason op \<noteq> UNSPECIFIED"
  "result_ok (AppendModToModTransfer t r) \<longleftrightarrow> result_ok r \<and> coin_ok (MM_Coin t) \<and> MM_OpReason t \<noteq> UNSPECIFIED"
  "result_ok (AppendModToAcctTransfer u r) \<longleftrightarrow> result_ok r \<and> coin_ok (MA_Coin u) \<and> MA_OpReason u \<noteq> UNSPECIFIED"
  by (auto simp: result_ok_def AppendMint_def AppendBurn_def AppendModToModTransfer_def
      AppendModToAcctTransfer_def)

lemma result_ok_with_acct: "result_ok r \<Longrightarrow> pays_from m ts \<Longrightarrow> result_ok (with_acct ts r)"
  by (auto simp: result_ok_def with_acct_def pays_from_def coin_ok_def)

lemma result_ok_new [simp]: "result_ok (NewClaimSettlementResult c)"
  by (simp add: result_ok_def NewClaimSettlementResult_def)

lemma result_inflow_new [simp]: "result_inflow m (NewClaimSettlementResult c) = 0"
  by (simp add: result_inflow_def NewClaimSettlementResult_def)

lemma NewCoin_Inr: "NewCoin n = Inr c \<longleftrightarrow> 0 \<le> n \<and> c = upokt n"
  by (auto simp: NewCoin_def)

lemma upokt_simps [simp]: "Amount (upokt n) = n" "Denom (upokt n) = DenomuPOKT"
  by (simp_all add: upokt_def)

section \<open>A supplier's part\<close>

lemma queue_shares:
  assumes "foldR (queue_share op) r xs = Inr r'" and "op \<noteq> UNSPECIFIED"
  obtains ts where "r' = with_acct ts r" and "pays_from Supplier_ModuleName ts"
    and "acct_total ts = amount_total xs"
  using assms(1)
proof (induction xs arbitrary: r thesis)
  case Nil
  have "pays_from Supplier_ModuleName []" by (simp add: pays_from_def)
  then show ?case using Nil(1) [of "[]"] Nil(2) by simp
next
  case (Cons e xs)
  obtain a n where e: "e = (a, n)" by (cases e)
  from Cons.prems(2) obtain r1 where r1: "queue_share op r e = Inr r1" "foldR (queue_share op) r1 xs = Inr r'"
    by (auto simp: res_simps)
  obtain ts where ts: "r' = with_acct ts r1" "pays_from Supplier_ModuleName ts" "acct_total ts = amount_total xs"
    by (rule Cons.IH [OF _ r1(2)])
  show ?case
  proof (cases "n = 0")
    case True
    then show ?thesis using Cons.prems(1) [of ts] ts r1(1) e by (simp add: queue_share_def)
  next
    case False
    define t where "t = \<lparr>MA_OpReason = op, MA_SenderModule = Supplier_ModuleName,
      MA_RecipientAddress = a, MA_Coin = upokt n\<rparr>"
    have "0 < n" and "r1 = with_acct [t] r"
      using r1(1) False e
      by (auto simp: queue_share_def res_simps NewCoin_Inr with_acct_def AppendModToAcctTransfer_def t_def)
    then show ?thesis using Cons.prems(1) [of "t # ts"] ts e assms(2) by (simp add: pays_from_def t_def)
  qed
qed

lemma distributeSupplierRewards_Inr:
  assumes "distributeSupplierRewardsToShareholders r op s serviceId n = Inr (r', evs)"
    and "op \<noteq> UNSPECIFIED" and "0 < n"
  obtains ts where "r' = with_acct ts r" and "pays_from Supplier_ModuleName ts" and "acct_total ts = n"
proof -
  define shares where "shares = (case find (\<lambda>svc. ServiceId svc = serviceId) (Services s) of
      None \<Rightarrow> [] | Some svc \<Rightarrow> RevShare svc)"
  show ?thesis
  proof (cases "GetSupplierShareholderAmountMap shares n")
    case (Inl e)
    define t where "t = \<lparr>MA_OpReason = op, MA_SenderModule = Supplier_ModuleName,
      MA_RecipientAddress = OwnerAddress s, MA_Coin = upokt n\<rparr>"
    have "r' = with_acct [t] r"
      using assms(1) Inl unfolding distributeSupplierRewardsToShareholders_def Let_def shares_def [symmetric]
      by (auto simp: payRevShareFallbackToOwner_def res_simps NewCoin_Inr with_acct_def
          AppendModToAcctTransfer_def t_def split: if_splits)
    then show ?thesis using that [of "[t]"] assms(2,3) by (simp add: pays_from_def t_def)
  next
    case (Inr m)
    have q: "foldR (queue_share op) r (sort_key fst m) = Inr r'"
      using assms(1) Inr unfolding distributeSupplierRewardsToShareholders_def Let_def shares_def [symmetric]
      by (auto simp: res_simps split: if_splits)
    have "amount_total (sort_key fst m) = n"
      using shareholders_conserve(2) [OF Inr] unfolding amount_total_def
      by (metis mset_map mset_sort sum_list_mset_eq)
    then show ?thesis using queue_shares [OF q assms(2)] that by metis
  qed
qed

section \<open>The balances\<close>

definition acc_total :: "(settlement_op_reason, int) kv \<Rightarrow> int" where
  "acc_total acc = amount_total acc"

text \<open>What each module account is left with, against what it is accounted for.\<close>

definition tokenomics_balance :: "tlm_state \<Rightarrow> int" where
  "tokenomics_balance ts = result_inflow Tokenomics_ModuleName (TS_Result ts) - acc_total (TS_Accumulator ts)"

definition application_balance :: "tlm_state \<Rightarrow> int" where
  "application_balance ts =
     result_inflow Application_ModuleName (TS_Result ts) - Amount (App_Stake (TS_Application ts))"

definition supplier_balance :: "tlm_state \<Rightarrow> int" where
  "supplier_balance ts = result_inflow Supplier_ModuleName (TS_Result ts)"

definition tlm_ok :: "tlm_state \<Rightarrow> bool" where
  "tlm_ok ts \<longleftrightarrow> result_ok (TS_Result ts) \<and> kv_ok (TS_Accumulator ts)
     \<and> (\<forall>e \<in> set (TS_Accumulator ts). 0 \<le> snd e \<and> fst e \<noteq> UNSPECIFIED)"

text \<open>A step that moves \<open>n\<close> out of the tokenomics account, and leaves the rest as it is.\<close>

definition moves :: "int \<Rightarrow> tlm_state \<Rightarrow> tlm_state \<Rightarrow> bool" where
  "moves n ts ts' \<longleftrightarrow> (tlm_ok ts \<longrightarrow> tlm_ok ts'
        \<and> tokenomics_balance ts' = tokenomics_balance ts - n)
     \<and> supplier_balance ts' = supplier_balance ts
     \<and> TS_Application ts' = TS_Application ts
     \<and> result_inflow Application_ModuleName (TS_Result ts') = result_inflow Application_ModuleName (TS_Result ts)
     \<and> SR_Claim (TS_Result ts') = SR_Claim (TS_Result ts)"

lemma moves_zero: "moves 0 ts ts"
  by (simp add: moves_def)

lemma moves_trans: "moves n ts ts' \<Longrightarrow> moves k ts' ts'' \<Longrightarrow> moves (n + k) ts ts''"
  by (auto simp: moves_def)

lemma getS_Inr [res_simps]: "getS s m f = (s', Inr y) \<longleftrightarrow> (\<exists>x. m = Inr x \<and> f x = (s', Inr y))"
  by (cases m) auto

lemma thenS_Inr [res_simps]: "thenS r f = (s', Inr y) \<longleftrightarrow> (\<exists>s u. r = (s, Inr u) \<and> f s = (s', Inr y))"
  by (cases "(r, f)" rule: thenS.cases) auto

lemma send_to_account_moves:
  assumes "send_to_account op a n ts = (ts', Inr u)" and "op \<noteq> UNSPECIFIED"
  shows "moves n ts ts'"
proof (cases "n = 0")
  case True
  then show ?thesis using assms by (simp add: send_to_account_def moves_zero)
next
  case False
  then show ?thesis using assms
    by (auto simp: send_to_account_def res_simps NewCoin_Inr moves_def tokenomics_balance_def
        supplier_balance_def on_result_def inflow_simps tlm_ok_def result_ok_simps coin_ok_def)
qed

lemma send_to_supplier_moves:
  assumes "send_to_supplier mop sop s sid n ts = (ts', Inr u)" and "mop \<noteq> UNSPECIFIED" and "sop \<noteq> UNSPECIFIED"
  shows "moves n ts ts'"
proof (cases "n = 0")
  case True
  then show ?thesis using assms by (simp add: send_to_supplier_def moves_zero)
next
  case False
  define t where "t = \<lparr>MM_OpReason = mop, MM_SenderModule = Tokenomics_ModuleName,
    MM_RecipientModule = Supplier_ModuleName, MM_Coin = upokt n\<rparr>"
  have n: "0 < n" and "\<exists>r evs. distributeSupplierRewardsToShareholders
      (AppendModToModTransfer t (TS_Result ts)) sop s sid n = Inr (r, evs)
      \<and> ts' = ts\<lparr>TS_Result := r, TS_Events := TS_Events ts @ evs\<rparr>"
    using assms(1) False
    by (auto simp: send_to_supplier_def res_simps NewCoin_Inr Let_def on_result_def t_def split: prod.splits)
  then obtain r evs where r: "distributeSupplierRewardsToShareholders
      (AppendModToModTransfer t (TS_Result ts)) sop s sid n = Inr (r, evs)"
    and ts': "ts' = ts\<lparr>TS_Result := r, TS_Events := TS_Events ts @ evs\<rparr>" by blast
  obtain us where us: "r = with_acct us (AppendModToModTransfer t (TS_Result ts))"
    "pays_from Supplier_ModuleName us" "acct_total us = n"
    by (rule distributeSupplierRewards_Inr [OF r assms(3) n])
  show ?thesis
    using us n assms(2)
    by (auto simp: ts' moves_def tokenomics_balance_def supplier_balance_def inflow_simps tlm_ok_def
        ma_total_pays [OF us(2)] t_def result_ok_simps coin_ok_def intro!: result_ok_with_acct)
qed

lemma kv_set_nonneg:
  assumes "kv_ok m" and "\<forall>e \<in> set m. 0 \<le> snd e \<and> fst e \<noteq> UNSPECIFIED" and "(0 :: int) \<le> v"
    and "k \<noteq> UNSPECIFIED"
  shows "\<forall>e \<in> set (kv_set k v m). 0 \<le> snd e \<and> fst e \<noteq> UNSPECIFIED"
  using assms by (auto simp: set_kv_set)

lemma accumulate_moves:
  assumes "accumulate_proposer op n ts = (ts', Inr u)" and "0 \<le> n" and "op \<noteq> UNSPECIFIED"
  shows "moves n ts ts'"
proof (cases "n = 0")
  case True
  then show ?thesis using assms by (simp add: accumulate_proposer_def moves_zero)
next
  case False
  define acc where "acc = TS_Accumulator ts"
  define old where "old = (case map_of acc op of None \<Rightarrow> 0 | Some k \<Rightarrow> k)"
  have ts': "ts' = ts\<lparr>TS_Accumulator := kv_set op (old + n) acc\<rparr>"
    using assms(1) False
    by (auto simp: accumulate_proposer_def accumulateValidatorReward_def old_def acc_def)
  have "\<forall>e \<in> set acc. 0 \<le> snd e \<and> fst e \<noteq> UNSPECIFIED \<Longrightarrow> 0 \<le> old"
    unfolding old_def by (cases "map_of acc op") (force dest: map_of_SomeD)+
  moreover have "kv_ok acc \<Longrightarrow> amount_total (kv_set op (old + n) acc) = amount_total acc + n"
    by (simp add: amount_total_kv_set old_def)
  ultimately show ?thesis
    using assms(2,3) kv_set_nonneg [of acc "old + n" op] unfolding ts' moves_def tlm_ok_def
    by (auto simp: acc_def [symmetric] tokenomics_balance_def supplier_balance_def acc_total_def kv_ok_kv_set)
qed

section \<open>Each module\<close>

text \<open>What an allocation takes is not negative when the share is not.\<close>

lemma calculateAllocationAmount_nonneg: "0 \<le> n \<Longrightarrow> 0 \<le> r \<Longrightarrow> 0 \<le> calculateAllocationAmount n r"
  by (simp add: calculateAllocationAmount_def rat_quo_ge_zero)

lemma split_of_total: "split_total (split_of n a b c d) = n"
  by (simp add: split_of_def split_total_def Let_def)

text \<open>Outside the accounts of suppliers and tokenomics a module may move what leaves the stake.\<close>

definition balanced :: "tlm_state \<Rightarrow> tlm_state \<Rightarrow> bool" where
  "balanced ts ts' \<longleftrightarrow> tlm_ok ts' \<and> tokenomics_balance ts' = tokenomics_balance ts
     \<and> supplier_balance ts' = supplier_balance ts \<and> application_balance ts' = application_balance ts
     \<and> SR_Claim (TS_Result ts') = SR_Claim (TS_Result ts)
     \<and> (\<exists>k. TS_Application ts' = (TS_Application ts)\<lparr>App_Stake := k\<rparr>
          \<and> Amount k \<le> Amount (App_Stake (TS_Application ts))
          \<and> Denom k = Denom (App_Stake (TS_Application ts)))"

lemma balanced_refl: "tlm_ok ts \<Longrightarrow> balanced ts ts"
  by (auto simp: balanced_def intro: exI [of _ "App_Stake (TS_Application ts)"])

lemma balanced_trans:
  assumes "balanced ts ts'" and "balanced ts' ts''"
  shows "balanced ts ts''"
proof -
  obtain k where k: "TS_Application ts' = (TS_Application ts)\<lparr>App_Stake := k\<rparr>"
    "Amount k \<le> Amount (App_Stake (TS_Application ts))" "Denom k = Denom (App_Stake (TS_Application ts))"
    using assms(1) by (auto simp: balanced_def)
  obtain k' where k': "TS_Application ts'' = (TS_Application ts')\<lparr>App_Stake := k'\<rparr>"
    "Amount k' \<le> Amount (App_Stake (TS_Application ts'))" "Denom k' = Denom (App_Stake (TS_Application ts'))"
    using assms(2) by (auto simp: balanced_def)
  have "TS_Application ts'' = (TS_Application ts)\<lparr>App_Stake := k'\<rparr>"
    "Amount k' \<le> Amount (App_Stake (TS_Application ts))" "Denom k' = Denom (App_Stake (TS_Application ts))"
    using k k' by auto
  then show ?thesis using assms unfolding balanced_def by metis
qed

end
