(* ===== verification/TokBalance.thy ===== *)
theory TokBalance
  imports TokConserve
begin

text \<open>
  The token logic modules balance their books: each of the three, and so any sequence of them the
  keeper runs, queues as much out of the tokenomics account as it mints or moves into it, pays on to
  shareholders what it sends to the supplier account, and burns or moves from the application account
  what it takes off the application's stake.
\<close>

section \<open>Parameters\<close>

text \<open>The mint ratio and the proposer's shares are not below zero: no constructor of a coin guards what
  they give.\<close>

definition proposer_shares_ok :: "tok_params \<Rightarrow> bool" where
  "proposer_shares_ok p \<longleftrightarrow> \<not> f64_less (Alloc_Proposer (MintEqualsBurnClaimDistribution p)) (Fin 0)
     \<and> \<not> f64_less (Alloc_Proposer (MintAllocationPercentages p)) (Fin 0)
     \<and> \<not> f64_less (MintRatio p) (Fin 0)"

lemma round_half_even_nonneg: "0 \<le> x \<Longrightarrow> 0 \<le> round_half_even x"
  by (simp add: round_half_even_def Let_def)

lemma f64_round_nonneg: assumes "0 < r" shows "\<not> f64_less (f64_round r) (Fin 0)"
proof -
  define e where "e = max (floor_log2 r - 52) (- 1074)"
  define v where "v = of_int (round_half_even (r / pow_rat 2 e)) * pow_rat 2 e"
  have p: "0 < pow_rat 2 e" by (rule pow_rat_pos) simp
  then have "0 \<le> v" using assms unfolding v_def
    by (intro mult_nonneg_nonneg) (simp_all add: round_half_even_nonneg)
  moreover have "f64_round r = PosInf \<or> f64_round r = Fin v"
    using assms unfolding f64_round_def round_pos_def Let_def e_def [symmetric] v_def [symmetric]
    by (simp del: power_numeral)
  ultimately show ?thesis by auto
qed

lemma default_proposer_share: "\<not> f64_less (Alloc_Proposer default_allocation) (Fin 0)"
  unfolding default_allocation_def allocation.simps by (rule f64_round_nonneg) simp

lemma f64_le_less: "\<not> f64_le x y \<Longrightarrow> \<not> f64_less x y"
  by (cases x; cases y) auto

lemma validated_proposer_shares:
  assumes "Tok_Params_ValidateBasic sdk p = Inr p'" shows "proposer_shares_ok p'"
  using assms default_proposer_share f64_le_less [of "MintRatio p" "Fin 0"]
  unfolding Tok_Params_ValidateBasic_def ValidateMintAllocationPercentages_def
    ValidateMintEqualsBurnClaimDistribution_def validateParamValueGTEZero_def proposer_shares_ok_def
    ValidateMintRatio_def
  by (auto simp: res_simps split: if_splits)

lemma rat_param_nonneg: "rat_param x = Inr q \<Longrightarrow> \<not> f64_less x (Fin 0) \<Longrightarrow> 0 \<le> q"
  by (auto simp: rat_param_def res_simps dest: Float64ToRat_nonneg)

section \<open>What is minted is moved on\<close>

text \<open>A state with \<open>n\<close> more in the tokenomics account and less of the application's stake and account,
  then moved on, is balanced.\<close>

definition funded :: "int \<Rightarrow> coin \<Rightarrow> tlm_state \<Rightarrow> tlm_state \<Rightarrow> bool" where
  "funded n k ts ts' \<longleftrightarrow> tlm_ok ts' \<and> tokenomics_balance ts' = tokenomics_balance ts + n
     \<and> supplier_balance ts' = supplier_balance ts \<and> application_balance ts' = application_balance ts
     \<and> SR_Claim (TS_Result ts') = SR_Claim (TS_Result ts)
     \<and> TS_Application ts' = (TS_Application ts)\<lparr>App_Stake := k\<rparr>
     \<and> Amount k \<le> Amount (App_Stake (TS_Application ts)) \<and> Denom k = Denom (App_Stake (TS_Application ts))"

lemma funded_moves_balanced:
  assumes "funded n k ts ts'" and "moves n ts' ts''" shows "balanced ts ts''"
  using assms unfolding funded_def moves_def balanced_def application_balance_def by (intro conjI exI [of _ k]) auto

section \<open>Burn equals mint\<close>

lemma processRewardDistribution_moves:
  assumes run: "processRewardDistribution tc ts = (ts', Inr u)"
    and r: "rat_param (MintRatio (TC_Params tc)) = Inr r"
    and n: "0 \<le> mint_amount (Amount (TC_SettlementCoin tc)) r"
    and ok: "proposer_shares_ok (TC_Params tc)"
  shows "moves (mint_amount (Amount (TC_SettlementCoin tc)) r) ts ts'"
proof -
  define n where "n = mint_amount (Amount (TC_SettlementCoin tc)) r"
  define dist where "dist = MintEqualsBurnClaimDistribution (TC_Params tc)"
  from run obtain a b c d ts1 ts2 ts3 ts4 where
    b: "rat_param (Alloc_Proposer dist) = Inr b"
    and 1: "send_to_supplier TLM_RELAY_BURN_EQUALS_MINT_SUPPLIER_SHAREHOLDER_REWARD_DISTRIBUTION
      TLM_RELAY_BURN_EQUALS_MINT_SUPPLIER_SHAREHOLDER_REWARD_DISTRIBUTION (TC_Supplier tc)
      (Service_Id (TC_Service tc)) (SP_Supplier (split_of n a b c d)) ts = (ts1, Inr ())"
    and 2: "accumulate_proposer TLM_RELAY_BURN_EQUALS_MINT_VALIDATOR_REWARD_DISTRIBUTION
      (SP_Proposer (split_of n a b c d)) ts1 = (ts2, Inr ())"
    and 3: "send_to_account TLM_RELAY_BURN_EQUALS_MINT_SOURCE_OWNER_REWARD_DISTRIBUTION
      (Service_OwnerAddress (TC_Service tc)) (SP_SourceOwner (split_of n a b c d)) ts2 = (ts3, Inr ())"
    and 4: "send_to_account TLM_RELAY_BURN_EQUALS_MINT_DAO_REWARD_DISTRIBUTION
      (DaoRewardAddress (TC_Params tc)) (SP_Dao (split_of n a b c d)) ts3 = (ts4, Inr ())"
    and 5: "send_to_account TLM_RELAY_BURN_EQUALS_MINT_APPLICATION_REWARD_DISTRIBUTION
      (App_Address (TS_Application ts4)) (SP_Application (split_of n a b c d)) ts4 = (ts', Inr ())"
    unfolding processRewardDistribution_def Let_def dist_def [symmetric]
    by (auto simp: res_simps r n_def [symmetric] split: if_splits)
  have "0 \<le> b"
    using b ok by (auto simp: proposer_shares_ok_def dist_def intro: rat_param_nonneg)
  then have p: "0 \<le> SP_Proposer (split_of n a b c d)"
    using n by (simp add: split_of_def Let_def calculateAllocationAmount_nonneg n_def)
  let ?sp = "split_of n a b c d"
  have "moves (SP_Supplier ?sp + (SP_Proposer ?sp + (SP_SourceOwner ?sp + (SP_Dao ?sp + SP_Application ?sp)))) ts ts'"
    by (intro moves_trans [OF send_to_supplier_moves [OF 1]] moves_trans [OF accumulate_moves [OF 2 p]]
        moves_trans [OF send_to_account_moves [OF 3]] moves_trans [OF send_to_account_moves [OF 4]]
        send_to_account_moves [OF 5]) simp_all
  moreover have "SP_Supplier ?sp + (SP_Proposer ?sp + (SP_SourceOwner ?sp + (SP_Dao ?sp + SP_Application ?sp))) = n"
    using split_of_total [of n a b c d] by (simp add: split_total_def)
  ultimately show ?thesis by (simp add: n_def)
qed

lemma RelayBurnEqualsMint_balanced:
  assumes run: "RelayBurnEqualsMint_Process sdk tc ts = (ts', Inr u)" and sdk: "sdk_ok sdk"
    and ok: "tlm_ok ts" and coin: "coin_ok (TC_SettlementCoin tc)" and p: "proposer_shares_ok (TC_Params tc)"
  shows "balanced ts ts'"
proof -
  let ?S = "TC_SettlementCoin tc"
  obtain ts1 ts2 where 1: "processApplicationBurn sdk tc ts = (ts1, Inr ())"
    and 2: "processTokenomicsMint tc ts1 = (ts2, Inr ())"
    and 3: "processRewardDistribution tc ts2 = (ts', Inr u)"
    using run by (auto simp: RelayBurnEqualsMint_Process_def res_simps)
  obtain k where k: "coinSafeSub sdk (App_Stake (TS_Application ts)) ?S = Inr k"
    and ts1: "ts1 = (on_result (AppendBurn \<lparr>MB_OpReason = TLM_RELAY_BURN_EQUALS_MINT_APPLICATION_STAKE_BURN,
        MB_DestinationModule = Application_ModuleName, MB_Coin = ?S\<rparr>) ts)
        \<lparr>TS_Application := (TS_Application ts)\<lparr>App_Stake := k\<rparr>\<rparr>"
    using 1 by (auto simp: processApplicationBurn_def Let_def on_result_def split: sum.splits go_error.splits)
  obtain r where r: "rat_param (MintRatio (TC_Params tc)) = Inr r"
    and n: "0 < mint_amount (Amount ?S) r"
    and ts2: "ts2 = on_result (AppendMint
        \<lparr>MB_OpReason = TLM_RELAY_BURN_EQUALS_MINT_TOKENOMICS_CLAIM_DISTRIBUTION_MINT,
         MB_DestinationModule = Tokenomics_ModuleName, MB_Coin = upokt (mint_amount (Amount ?S) r)\<rparr>) ts1"
    using 2 by (auto simp: processTokenomicsMint_def Let_def res_simps NewCoin_Inr split: if_splits)
  have m: "moves (mint_amount (Amount ?S) r) ts2 ts'"
    using processRewardDistribution_moves [OF 3 r _ p] n by simp
  have kk: "Amount k = Amount (App_Stake (TS_Application ts)) - Amount ?S"
    "Denom k = Denom (App_Stake (TS_Application ts))"
    using sdk_okD(3) [OF sdk k] by simp_all
  have "funded (mint_amount (Amount ?S) r) k ts ts2"
    using ok coin n kk unfolding funded_def ts1 ts2 coin_ok_def
    by (simp add: on_result_def tlm_ok_def result_ok_simps coin_ok_def
        tokenomics_balance_def supplier_balance_def application_balance_def inflow_simps)
  then show ?thesis using m by (rule funded_moves_balanced)
qed

section \<open>Global mint\<close>

lemma inflation_amount:
  assumes "CalculateGlobalPerClaimMintInflationFromSettlementAmount c r = Inr d"
  shows "Denom d = DenomuPOKT" and "0 \<le> Amount d"
  using assms by (auto simp: CalculateGlobalPerClaimMintInflationFromSettlementAmount_def Let_def NewCoin_Inr
      upokt_def split: if_splits)

lemma processMintDistribution_moves:
  assumes run: "processMintDistribution tc c ts = (ts', Inr u)" and n: "0 \<le> Amount c"
    and ok: "proposer_shares_ok (TC_Params tc)"
  shows "moves (Amount c) ts ts'"
proof -
  define alloc where "alloc = MintAllocationPercentages (TC_Params tc)"
  from run obtain a b d e ts1 ts2 ts3 ts4 where
    b: "rat_param (Alloc_Proposer alloc) = Inr b"
    and 1: "send_to_supplier TLM_GLOBAL_MINT_REIMBURSEMENT_REQUEST_ESCROW_MODULE_TRANSFER
      TLM_GLOBAL_MINT_SUPPLIER_SHAREHOLDER_REWARD_DISTRIBUTION (TC_Supplier tc)
      (Service_Id (TC_Service tc)) (SP_Supplier (split_of (Amount c) a b d e)) ts = (ts1, Inr ())"
    and 2: "send_to_account TLM_GLOBAL_MINT_APPLICATION_REWARD_DISTRIBUTION
      (App_Address (TS_Application ts1)) (SP_Application (split_of (Amount c) a b d e)) ts1 = (ts2, Inr ())"
    and 3: "send_to_account TLM_GLOBAL_MINT_SOURCE_OWNER_REWARD_DISTRIBUTION
      (Service_OwnerAddress (TC_Service tc)) (SP_SourceOwner (split_of (Amount c) a b d e)) ts2 = (ts3, Inr ())"
    and 4: "accumulate_proposer TLM_GLOBAL_MINT_VALIDATOR_REWARD_DISTRIBUTION
      (SP_Proposer (split_of (Amount c) a b d e)) ts3 = (ts4, Inr ())"
    and 5: "send_to_account TLM_GLOBAL_MINT_DAO_REWARD_DISTRIBUTION
      (DaoRewardAddress (TC_Params tc)) (SP_Dao (split_of (Amount c) a b d e)) ts4 = (ts', Inr ())"
    unfolding processMintDistribution_def Let_def alloc_def [symmetric]
    by (auto simp: res_simps split: if_splits)
  let ?sp = "split_of (Amount c) a b d e"
  have "0 \<le> b"
    using b ok by (auto simp: proposer_shares_ok_def alloc_def intro: rat_param_nonneg)
  then have p: "0 \<le> SP_Proposer ?sp"
    using n by (simp add: split_of_def Let_def calculateAllocationAmount_nonneg)
  have "moves (SP_Supplier ?sp + (SP_Application ?sp + (SP_SourceOwner ?sp + (SP_Proposer ?sp + SP_Dao ?sp)))) ts ts'"
    by (intro moves_trans [OF send_to_supplier_moves [OF 1]] moves_trans [OF send_to_account_moves [OF 2]]
        moves_trans [OF send_to_account_moves [OF 3]] moves_trans [OF accumulate_moves [OF 4 p]]
        send_to_account_moves [OF 5]) simp_all
  then show ?thesis using split_of_total [of "Amount c" a b d e] by (simp add: split_total_def algebra_simps)
qed

lemma GlobalMint_balanced:
  assumes run: "GlobalMint_Process tc ts = (ts', Inr u)" and ok: "tlm_ok ts"
    and p: "proposer_shares_ok (TC_Params tc)"
  shows "balanced ts ts'"
proof (cases "f64_eq (GlobalInflationPerClaim (TC_Params tc)) (Fin 0)")
  case True
  then show ?thesis using run ok
    by (simp add: GlobalMint_Process_def processInflationMint_def Let_def balanced_refl)
next
  case False
  then obtain r c ts1 where
    r: "CalculateGlobalPerClaimMintInflationFromSettlementAmount (TC_SettlementCoin tc) r = Inr c"
    and nz: "Amount c \<noteq> 0"
    and ts1: "ts1 = on_result (AppendMint \<lparr>MB_OpReason = TLM_GLOBAL_MINT_INFLATION,
        MB_DestinationModule = Tokenomics_ModuleName, MB_Coin = c\<rparr>) ts"
    and dist: "processMintDistribution tc c ts1 = (ts', Inr u)"
    using run by (auto simp: GlobalMint_Process_def processInflationMint_def Let_def res_simps
        split: prod.splits sum.splits if_splits)
  have c: "Denom c = DenomuPOKT" "0 < Amount c" using inflation_amount [OF r] nz by simp_all
  have "funded (Amount c) (App_Stake (TS_Application ts)) ts ts1"
    using ok c unfolding funded_def ts1
    by (simp add: on_result_def tlm_ok_def result_ok_simps coin_ok_def
        tokenomics_balance_def supplier_balance_def application_balance_def inflow_simps)
  moreover have "moves (Amount c) ts1 ts'"
    using processMintDistribution_moves [OF dist _ p] c by simp
  ultimately show ?thesis by (rule funded_moves_balanced)
qed

section \<open>Reimbursement requests\<close>

lemma GlobalMintReimbursementRequest_balanced:
  assumes run: "GlobalMintReimbursementRequest_Process sdk tc ts = (ts', Inr u)" and sdk: "sdk_ok sdk"
    and ok: "tlm_ok ts"
  shows "balanced ts ts'"
proof (cases "f64_eq (GlobalInflationPerClaim (TC_Params tc)) (Fin 0)")
  case True
  then show ?thesis using run ok
    by (auto simp: GlobalMintReimbursementRequest_Process_def Let_def balanced_refl res_simps)
next
  case False
  obtain r c k where c: "CalculateGlobalPerClaimMintInflationFromSettlementAmount (TC_SettlementCoin tc) r = Inr c"
    and nz: "Amount c \<noteq> 0" and k: "coinSafeSub sdk (App_Stake (TS_Application ts)) c = Inr k"
    and ts': "ts' = (let ts1 = ts\<lparr>TS_Application := (TS_Application ts)\<lparr>App_Stake := k\<rparr>\<rparr>;
          ts2 = on_result (AppendModToModTransfer
            \<lparr>MM_OpReason = TLM_GLOBAL_MINT_REIMBURSEMENT_REQUEST_ESCROW_MODULE_TRANSFER,
             MM_SenderModule = Application_ModuleName, MM_RecipientModule = Tokenomics_ModuleName,
             MM_Coin = c\<rparr>) ts1;
          ts3 = on_result (AppendModToAcctTransfer
            \<lparr>MA_OpReason = TLM_GLOBAL_MINT_REIMBURSEMENT_REQUEST_ESCROW_DAO_TRANSFER,
             MA_SenderModule = Tokenomics_ModuleName,
             MA_RecipientAddress = DaoRewardAddress (TC_Params tc), MA_Coin = c\<rparr>) ts2
      in ts3\<lparr>TS_Events := TS_Events ts3 @ [EventApplicationReimbursementRequest (TS_Application ts3)
              (TC_Supplier tc) (Service_Id (TC_Service tc)) (SH_SessionId (TC_SessionHeader tc)) c]\<rparr>)"
    using run False
    by (auto simp: GlobalMintReimbursementRequest_Process_def Let_def res_simps split: if_splits)
  have kk: "Amount k = Amount (App_Stake (TS_Application ts)) - Amount c"
    "Denom k = Denom (App_Stake (TS_Application ts))"
    using sdk_okD(3) [OF sdk k] by simp_all
  have "funded 0 k ts ts'"
    using ok kk nz inflation_amount [OF c] unfolding funded_def ts' Let_def
    by (simp add: on_result_def tlm_ok_def result_ok_simps coin_ok_def
        tokenomics_balance_def supplier_balance_def application_balance_def inflow_simps)
  then show ?thesis by (rule funded_moves_balanced [OF _ moves_zero])
qed

section \<open>All modules\<close>

lemma TLM_Process_balanced:
  assumes "TLM_Process sdk tc m ts = (ts', Inr u)" and "sdk_ok sdk" and "tlm_ok ts"
    and "coin_ok (TC_SettlementCoin tc)" and "proposer_shares_ok (TC_Params tc)"
  shows "balanced ts ts'"
  using assms by (cases m) (auto intro: RelayBurnEqualsMint_balanced GlobalMint_balanced
      GlobalMintReimbursementRequest_balanced)

lemma wrapTLM_Inr: "wrapTLM r = (ts, Inr u) \<longleftrightarrow> r = (ts, Inr u)"
  by (cases r) (auto simp: res_simps)

lemma run_modules_balanced:
  assumes "run_modules sdk tc ms ts = (ts', Inr u)" and "sdk_ok sdk" and "tlm_ok ts"
    and "coin_ok (TC_SettlementCoin tc)" and "proposer_shares_ok (TC_Params tc)"
  shows "balanced ts ts'"
  using assms(1,3)
proof (induction ms arbitrary: ts)
  case Nil
  then show ?case by (simp add: balanced_refl)
next
  case (Cons m ms)
  obtain ts1 where 1: "TLM_Process sdk tc m ts = (ts1, Inr ())" and 2: "run_modules sdk tc ms ts1 = (ts', Inr u)"
    using Cons.prems(1) by (auto simp: res_simps wrapTLM_Inr)
  have b: "balanced ts ts1"
    by (rule TLM_Process_balanced [OF 1 assms(2) Cons.prems(2) assms(4,5)])
  moreover have "balanced ts1 ts'"
    using b by (intro Cons.IH [OF 2]) (simp add: balanced_def)
  ultimately show ?case by (rule balanced_trans)
qed

end
