(* ===== verification/TokContext.thy ===== *)
theory TokContext
  imports TokModules
begin

text \<open>
  The settlement context (\<open>x/tokenomics/keeper/settlement_context.go\<close>): what a block's settlement
  reads once and keeps, the actors it updates in memory, the number of claiming suppliers and the
  budget of each application and session. The shared parameters at a height and the inflation rate are
  memoised by the code; nothing settlement does changes them, so they are read each time here. A
  cached actor is updated in place; the caches are association lists in the order of insertion.
\<close>

section \<open>The chain as settlement sees it\<close>

record tok_env =
  TE_Height :: int
  TE_Sdk :: sdk
  TE_Claims :: claim_deps
  TE_Staking :: staking
  TE_HasDigestSize :: "string \<Rightarrow> nat \<Rightarrow> bool"
  TE_TLMs :: "token_logic_module list"

record tok_chain =
  TCh_Shared :: shared_state
  TCh_Session :: session_state
  TCh_Apps :: app_state
  TCh_Suppliers :: supplier_state
  TCh_Services :: service_state
  TCh_Proofs :: proof_state
  TCh_Tok :: tok_state
  TCh_Bank :: bank_log
  TCh_Events :: "tok_event list"

definition emit :: "tok_event list \<Rightarrow> tok_chain \<Rightarrow> tok_chain" where
  "emit evs ch = ch\<lparr>TCh_Events := TCh_Events ch @ evs\<rparr>"

section \<open>The context\<close>

record session_budget =
  SB_NumSuppliers :: int
  SB_Floor :: int
  SB_Unused :: int
  SB_TotalExcess :: int
  SB_SpendLimitExceeded :: bool

record settlement_context =
  SC_Suppliers :: "(string \<times> supplier) list"
  SC_Applications :: "(string \<times> application) list"
  SC_InitialStakes :: "(string \<times> coin) list"
  SC_Services :: "(string \<times> shared_service) list"
  SC_Difficulties :: "((string \<times> int) \<times> relay_mining_difficulty) list"
  SC_ComputeUnitsPerRelay :: "((string \<times> int) \<times> u64) list"
  SC_SharedParams :: shared_params
  SC_TokParams :: tok_params
  SC_Accumulator :: "(settlement_op_reason, int) kv"
  SC_SupplierCounts :: "((string \<times> string) \<times> int) list"
  SC_Budgets :: "((string \<times> string) \<times> session_budget) list"

definition NewSettlementContext :: "tok_chain \<Rightarrow> settlement_context" where
  "NewSettlementContext ch = \<lparr>SC_Suppliers = [], SC_Applications = [], SC_InitialStakes = [],
     SC_Services = [], SC_Difficulties = [], SC_ComputeUnitsPerRelay = [],
     SC_SharedParams = GetParams (TCh_Shared ch), SC_TokParams = Tok_GetParams (TCh_Tok ch),
     SC_Accumulator = [], SC_SupplierCounts = [], SC_Budgets = []\<rparr>"

text \<open>A key is replaced where it is, or added at the end.\<close>

fun al_set :: "'k \<Rightarrow> 'v \<Rightarrow> ('k \<times> 'v) list \<Rightarrow> ('k \<times> 'v) list" where
  "al_set k v [] = [(k, v)]"
| "al_set k v ((k', v') # m) = (if k' = k then (k, v) # m else (k', v') # al_set k v m)"

lemma map_of_al_set [simp]: "map_of (al_set k v m) = (map_of m)(k \<mapsto> v)"
  by (induction k v m rule: al_set.induct) (auto simp: fun_eq_iff)

lemma keys_al_set: "map fst (al_set k v m) = (if k \<in> set (map fst m) then map fst m else map fst m @ [k])"
  by (induction k v m rule: al_set.induct) auto

fun lookup_or :: "go_error \<Rightarrow> 'v option \<Rightarrow> 'v res" where
  "lookup_or e None = Inl e"
| "lookup_or e (Some v) = Inr v"

lemma lookup_or_Inr [res_simps]: "lookup_or e x = Inr v \<longleftrightarrow> x = Some v"
  by (cases x) auto

definition GetApplicationInitialStake :: "settlement_context \<Rightarrow> string \<Rightarrow> coin res" where
  "GetApplicationInitialStake sc appAddress =
     lookup_or (Tokenomics ErrTokenomicsApplicationNotFound) (map_of (SC_InitialStakes sc) appAddress)"

definition Ctx_GetRelayMiningDifficulty :: "settlement_context \<Rightarrow> string \<Rightarrow> int
    \<Rightarrow> relay_mining_difficulty res" where
  "Ctx_GetRelayMiningDifficulty sc serviceId sessionStartHeight =
     lookup_or (Tokenomics ErrTokenomicsServiceNotFound)
       (map_of (SC_Difficulties sc) (serviceId, sessionStartHeight))"

definition Ctx_GetServiceComputeUnitsPerRelay :: "settlement_context \<Rightarrow> string \<Rightarrow> int \<Rightarrow> u64 res" where
  "Ctx_GetServiceComputeUnitsPerRelay sc serviceId sessionStartHeight =
     lookup_or (Tokenomics ErrTokenomicsServiceNotFound)
       (map_of (SC_ComputeUnitsPerRelay sc) (serviceId, sessionStartHeight))"

definition Ctx_GetService :: "settlement_context \<Rightarrow> string \<Rightarrow> shared_service res" where
  "Ctx_GetService sc serviceId =
     lookup_or (Tokenomics ErrTokenomicsServiceNotFound) (map_of (SC_Services sc) serviceId)"

definition Ctx_GetApplication :: "settlement_context \<Rightarrow> string \<Rightarrow> application res" where
  "Ctx_GetApplication sc appAddress =
     lookup_or (Tokenomics ErrTokenomicsApplicationNotFound) (map_of (SC_Applications sc) appAddress)"

definition Ctx_GetSupplier :: "settlement_context \<Rightarrow> string \<Rightarrow> supplier res" where
  "Ctx_GetSupplier sc supplierOperatorAddress =
     lookup_or (Tokenomics ErrTokenomicsSupplierNotFound)
       (map_of (SC_Suppliers sc) supplierOperatorAddress)"

section \<open>Caching\<close>

text \<open>The service stays cached when one of the later lookups fails. The difficulty and the compute
  units are kept together.\<close>

definition cacheService :: "tok_chain \<Rightarrow> string \<Rightarrow> settlement_context \<Rightarrow> (settlement_context, unit) step" where
  "cacheService ch serviceId sc =
     (if map_of (SC_Services sc) serviceId \<noteq> None then (sc, Inr ())
      else case GetService (TCh_Services ch) serviceId of
        None \<Rightarrow> (sc, Inl (Tokenomics ErrTokenomicsServiceNotFound))
      | Some service \<Rightarrow> (sc\<lparr>SC_Services := al_set serviceId service (SC_Services sc)\<rparr>, Inr ()))"

definition cacheServiceAndDifficulty :: "tok_chain \<Rightarrow> string \<Rightarrow> int \<Rightarrow> settlement_context
    \<Rightarrow> (settlement_context, unit) step" where
  "cacheServiceAndDifficulty ch serviceId sessionStartHeight sc =
     (let cacheKey = (serviceId, sessionStartHeight) in
      if map_of (SC_Difficulties sc) cacheKey \<noteq> None then (sc, Inr ())
      else thenS (cacheService ch serviceId sc) (\<lambda>sc1.
        getS sc1 (GetRelayMiningDifficultyAtHeight (TCh_Services ch) serviceId sessionStartHeight)
          (\<lambda>difficulty.
        case GetServiceComputeUnitsPerRelayAtHeight (TCh_Services ch) serviceId sessionStartHeight of
          None \<Rightarrow> (sc1, Inl (Tokenomics ErrTokenomicsServiceNotFound))
        | Some computeUnitsPerRelay \<Rightarrow>
            if computeUnitsPerRelay = 0 then (sc1, Inl (Tokenomics ErrTokenomicsServiceNotFound))
            else (sc1\<lparr>SC_Difficulties := al_set cacheKey difficulty (SC_Difficulties sc1),
                      SC_ComputeUnitsPerRelay :=
                        al_set cacheKey computeUnitsPerRelay (SC_ComputeUnitsPerRelay sc1)\<rparr>, Inr ()))))"

definition cacheApplication :: "tok_chain \<Rightarrow> string \<Rightarrow> settlement_context
    \<Rightarrow> (settlement_context, unit) step" where
  "cacheApplication ch appAddress sc =
     (if map_of (SC_Applications sc) appAddress \<noteq> None then (sc, Inr ())
      else case GetApplication (TCh_Apps ch) appAddress of
        None \<Rightarrow> (sc, Inl (Tokenomics ErrTokenomicsApplicationNotFound))
      | Some a \<Rightarrow> (sc\<lparr>SC_Applications := al_set appAddress a (SC_Applications sc),
                      SC_InitialStakes := al_set appAddress (App_Stake a) (SC_InitialStakes sc)\<rparr>, Inr ()))"

definition cacheSupplierServiceConfig :: "int \<Rightarrow> tok_chain \<Rightarrow> supplier \<Rightarrow> string \<Rightarrow> supplier" where
  "cacheSupplierServiceConfig height ch s serviceId =
     (if list_ex (\<lambda>svc. ServiceId svc = serviceId) (Services s) then s
      else s\<lparr>Services := Services s
               @ GetSupplierActiveServiceConfig (TCh_Suppliers ch) height s serviceId\<rparr>)"

definition cacheSupplier :: "int \<Rightarrow> tok_chain \<Rightarrow> string \<Rightarrow> string \<Rightarrow> settlement_context
    \<Rightarrow> (settlement_context, unit) step" where
  "cacheSupplier height ch supplierOperatorAddress serviceId sc =
     (case map_of (SC_Suppliers sc) supplierOperatorAddress of
        Some cached \<Rightarrow>
          (sc\<lparr>SC_Suppliers := al_set supplierOperatorAddress
                (cacheSupplierServiceConfig height ch cached serviceId) (SC_Suppliers sc)\<rparr>, Inr ())
      | None \<Rightarrow>
          (case GetDehydratedSupplier (TCh_Suppliers ch) supplierOperatorAddress of
             None \<Rightarrow> (sc, Inl (Tokenomics ErrTokenomicsSupplierNotFound))
           | Some s \<Rightarrow>
               (sc\<lparr>SC_Suppliers := al_set supplierOperatorAddress
                     (s\<lparr>Services := GetSupplierActiveServiceConfig (TCh_Suppliers ch) height s serviceId\<rparr>)
                     (SC_Suppliers sc)\<rparr>, Inr ())))"

definition ClaimCacheWarmUp :: "int \<Rightarrow> tok_chain \<Rightarrow> claim \<Rightarrow> settlement_context
    \<Rightarrow> (settlement_context, unit) step" where
  "ClaimCacheWarmUp height ch c sc =
     (case Claim_SessionHeader c of
        None \<Rightarrow> (sc, Inl (Tokenomics ErrTokenomicsClaimSessionHeaderNil))
      | Some sh \<Rightarrow>
          thenS (cacheServiceAndDifficulty ch (SH_ServiceId sh) (SH_SessionStartBlockHeight sh) sc) (\<lambda>sc1.
          thenS (cacheApplication ch (SH_ApplicationAddress sh) sc1) (\<lambda>sc2.
            cacheSupplier height ch (Claim_SupplierOperatorAddress c) (SH_ServiceId sh) sc2)))"

section \<open>Supplier counts and budgets\<close>

definition IncrementSupplierCount :: "string \<Rightarrow> string \<Rightarrow> settlement_context \<Rightarrow> settlement_context" where
  "IncrementSupplierCount appAddress sessionId sc =
     sc\<lparr>SC_SupplierCounts := al_set (appAddress, sessionId)
          ((case map_of (SC_SupplierCounts sc) (appAddress, sessionId) of None \<Rightarrow> 0 | Some n \<Rightarrow> n) + 1)
          (SC_SupplierCounts sc)\<rparr>"

definition GetActualSupplierCount :: "settlement_context \<Rightarrow> string \<Rightarrow> string \<Rightarrow> int" where
  "GetActualSupplierCount sc appAddress sessionId =
     (case map_of (SC_SupplierCounts sc) (appAddress, sessionId) of
        None \<Rightarrow> 1 | Some n \<Rightarrow> if n = 0 then 1 else n)"

text \<open>\<open>math.Int.Quo\<close> truncates and panics on zero.\<close>

definition quoInt :: "int \<Rightarrow> int \<Rightarrow> int res" where
  "quoInt a b = (if b = 0 then Inl Panic else Inr (a sdiv b))"

definition budget_floor :: "int \<Rightarrow> coin option \<Rightarrow> int \<Rightarrow> int \<Rightarrow> (int \<times> bool) res" where
  "budget_floor appStake spendLimit numPendingSessions numSuppliers =
     bindR (quoInt appStake numPendingSessions) (\<lambda>stakePerSession.
     bindR (quoInt stakePerSession numSuppliers) (\<lambda>floorAmt.
     case spendLimit of
       None \<Rightarrow> Inr (floorAmt, False)
     | Some limit \<Rightarrow>
         if \<not> Amount limit > 0 then Inr (floorAmt, False)
         else if Denom limit \<noteq> DenomuPOKT then Inl (Tokenomics ErrTokenomicsApplicationNewStakeInvalid)
         else let perSessionBudget = (if Amount limit > stakePerSession then stakePerSession
                                      else Amount limit)
              in bindR (quoInt perSessionBudget numSuppliers) (\<lambda>spendLimitFloor.
                 if spendLimitFloor < floorAmt then Inr (spendLimitFloor, True)
                 else Inr (floorAmt, False))))"

definition getOrInitSessionBudget :: "tok_chain \<Rightarrow> string \<Rightarrow> string \<Rightarrow> int \<Rightarrow> settlement_context
    \<Rightarrow> (settlement_context, session_budget) step" where
  "getOrInitSessionBudget ch appAddress sessionId sessionEndBlockHeight sc =
     (case map_of (SC_Budgets sc) (appAddress, sessionId) of
        Some sb \<Rightarrow> (sc, Inr sb)
      | None \<Rightarrow>
          getS sc (GetApplicationInitialStake sc appAddress) (\<lambda>appStake.
          getS sc (Ctx_GetApplication sc appAddress) (\<lambda>a.
          getS sc (GetNumPendingSessions (GetParamsAtHeight (TCh_Shared ch) sessionEndBlockHeight))
            (\<lambda>numPendingSessions.
          let numSuppliers = GetActualSupplierCount sc appAddress sessionId in
          getS sc (budget_floor (Amount appStake) (PerSessionSpendLimit a) numPendingSessions numSuppliers)
            (\<lambda>(floorAmt, exceeded).
          let sb = \<lparr>SB_NumSuppliers = numSuppliers, SB_Floor = floorAmt, SB_Unused = 0,
                SB_TotalExcess = 0, SB_SpendLimitExceeded = exceeded\<rparr>
          in (sc\<lparr>SC_Budgets := al_set (appAddress, sessionId) sb (SC_Budgets sc)\<rparr>, Inr sb))))))"

definition claimStakeTermsAmount :: "coin \<Rightarrow> rat \<Rightarrow> int res" where
  "claimStakeTermsAmount claimSettlementCoin globalInflationPerClaimRat =
     bindR (CalculateGlobalPerClaimMintInflationFromSettlementAmount claimSettlementCoin
              globalInflationPerClaimRat) (\<lambda>globalInflationCoin.
       Inr (Amount claimSettlementCoin + Amount globalInflationCoin))"

definition claimWillSettle :: "tok_env \<Rightarrow> tok_chain \<Rightarrow> claim \<Rightarrow> bool res" where
  "claimWillSettle env ch c =
     (if Claim_ProofValidationStatus c = VALIDATED then Inr True
      else bindR (ProofRequirementForClaim (TE_Claims env) (TCh_Shared ch) (TCh_Services ch)
                    (TCh_Session ch) (Proof_GetParams (TCh_Proofs ch)) c) (\<lambda>proofRequirement.
        if proofRequirement = NOT_REQUIRED then Inr True
        else Inr (Claim_ProofValidationStatus c = VALIDATED)))"

text \<open>What one claim adds to its group: what it leaves of its floor, or what it asks above it.\<close>

definition fold_into_budget :: "int \<Rightarrow> session_budget \<Rightarrow> session_budget" where
  "fold_into_budget claimStakeAmt sb =
     (if claimStakeAmt < SB_Floor sb then sb\<lparr>SB_Unused := SB_Unused sb + (SB_Floor sb - claimStakeAmt)\<rparr>
      else sb\<lparr>SB_TotalExcess := SB_TotalExcess sb + (claimStakeAmt - SB_Floor sb)\<rparr>)"

text \<open>A claim that will expire is left out.\<close>

definition AccumulateClaimBudget :: "tok_env \<Rightarrow> tok_chain \<Rightarrow> claim \<Rightarrow> settlement_context
    \<Rightarrow> (settlement_context, unit) step" where
  "AccumulateClaimBudget env ch c sc =
     (case Claim_SessionHeader c of
        None \<Rightarrow> (sc, Inl (Tokenomics ErrTokenomicsClaimSessionHeaderNil))
      | Some sh \<Rightarrow>
          getS sc (claimWillSettle env ch c) (\<lambda>willSettle.
          if \<not> willSettle then (sc, Inr ())
          else
            getS sc (Ctx_GetRelayMiningDifficulty sc (SH_ServiceId sh) (SH_SessionStartBlockHeight sh))
              (\<lambda>difficulty.
            getS sc (GetClaimeduPOKT (TE_Claims env) c
                       (GetParamsAtHeight (TCh_Shared ch) (SH_SessionStartBlockHeight sh)) difficulty)
              (\<lambda>claimSettlementCoin.
            getS sc (Float64ToRat (GlobalInflationPerClaim (SC_TokParams sc))) (\<lambda>inflationRat.
            getS sc (claimStakeTermsAmount claimSettlementCoin inflationRat) (\<lambda>claimStakeAmt.
            case getOrInitSessionBudget ch (SH_ApplicationAddress sh) (SH_SessionId sh)
                   (SH_SessionEndBlockHeight sh) sc of
              (sc1, Inl e) \<Rightarrow> (sc1, Inl e)
            | (sc1, Inr sb) \<Rightarrow>
                (sc1\<lparr>SC_Budgets := al_set (SH_ApplicationAddress sh, SH_SessionId sh)
                       (fold_into_budget claimStakeAmt sb) (SC_Budgets sc1)\<rparr>, Inr ())))))))"

section \<open>Limits\<close>

definition supplierAppStakeToMaxSettlementAmount :: "int \<Rightarrow> rat \<Rightarrow> int res" where
  "supplierAppStakeToMaxSettlementAmount stakeAmount globalInflationPerClaimRat =
     (let divisor = 1 + globalInflationPerClaimRat
      in if divisor = 0 then Inl Panic else Inr (rat_quo (of_int stakeAmount / divisor)))"

text \<open>The most a claim may take of the application's stake: its floor, and above a multiplier of 1
  its part of what the others left, up to the multiple of the floor.\<close>

definition max_claimable :: "u64 \<Rightarrow> session_budget \<Rightarrow> int \<Rightarrow> int" where
  "max_claimable multiplier sb minRequiredAppStakeAmt =
     (let effectiveMultiplier = (if multiplier < 1 then 1 else multiplier);
          claimExcess = minRequiredAppStakeAmt - SB_Floor sb;
          uncapped =
            (if effectiveMultiplier > 1 \<and> SB_TotalExcess sb > 0 \<and> claimExcess > 0
             then SB_Floor sb + (SB_Unused sb * claimExcess) sdiv SB_TotalExcess sb
             else SB_Floor sb);
          multiplierCap = SB_Floor sb * uint effectiveMultiplier
      in if uncapped > multiplierCap then multiplierCap else uncapped)"

definition ensureClaimAmountLimits :: "tok_params \<Rightarrow> application \<Rightarrow> supplier \<Rightarrow> coin \<Rightarrow> session_budget
    \<Rightarrow> rat \<Rightarrow> string \<Rightarrow> int \<Rightarrow> (tok_event list \<times> coin) res" where
  "ensureClaimAmountLimits params a s claimSettlementCoin sb inflationRat serviceId sessionEndBlockHeight =
     bindR (claimStakeTermsAmount claimSettlementCoin inflationRat) (\<lambda>minRequiredAppStakeAmt.
     bindR (NewCoin minRequiredAppStakeAmt) (\<lambda>totalClaimedCoin.
     let maxClaimableAmt = max_claimable (OverservicingBonusMultiplier params) sb minRequiredAppStakeAmt;
         requiredAmt = (if minRequiredAppStakeAmt > maxClaimableAmt then maxClaimableAmt
                        else minRequiredAppStakeAmt)
     in bindR (supplierAppStakeToMaxSettlementAmount maxClaimableAmt inflationRat) (\<lambda>maxClaimSettlementAmt.
        if Amount claimSettlementCoin \<le> maxClaimSettlementAmt then Inr ([], claimSettlementCoin)
        else bindR (NewCoin maxClaimSettlementAmt) (\<lambda>maxClaimableCoin.
             bindR (NewCoin requiredAmt) (\<lambda>effectiveBurn.
             Inr ([EventApplicationOverserviced a s totalClaimedCoin effectiveBurn serviceId
                     sessionEndBlockHeight (SB_SpendLimitExceeded sb)], maxClaimableCoin))))))"

end
