(* ===== verification/TokSettle.thy ===== *)
theory TokSettle
  imports TokContext
begin

text \<open>
  Settling claims (\<open>x/tokenomics/keeper/token_logic_modules.go\<close>,
  \<open>settle_pending_claims.go\<close>, \<open>x/tokenomics/types/event_claim_settled.go\<close>): the end heights whose
  claims may be ripe, collecting the ripe claims, sizing the budgets, and settling, expiring or
  discarding each claim. A claim's settlement works on the chain and the context; what it changed in
  them before it failed stays changed, its result is dropped.
\<close>

record settling =
  ST_Chain :: tok_chain
  ST_Ctx :: settlement_context

definition put_ctx :: "settling \<Rightarrow> settlement_context \<Rightarrow> settling" where
  "put_ctx st sc = st\<lparr>ST_Ctx := sc\<rparr>"

text \<open>A step on the context as a step on both.\<close>

fun on_ctx :: "settling \<Rightarrow> (settlement_context, 'a) step \<Rightarrow> ('a \<Rightarrow> settling \<Rightarrow> (settling, 'b) step)
    \<Rightarrow> (settling, 'b) step" where
  "on_ctx st (sc, Inl e) f = (put_ctx st sc, Inl e)"
| "on_ctx st (sc, Inr x) f = f x (put_ctx st sc)"

section \<open>Running the token logic modules\<close>

definition TrieHasherSize :: nat where "TrieHasherSize = 32"

text \<open>The checks on the claim before anything is read from the context.\<close>

definition check_claim_root :: "tok_env \<Rightarrow> claim \<Rightarrow> (session_header \<times> u64 \<times> u64) res" where
  "check_claim_root env c =
     (case Claim_SessionHeader c of
        None \<Rightarrow> Inl (Tokenomics ErrTokenomicsClaimSessionHeaderNil)
      | Some sh \<Rightarrow>
          bindR (mapErr (\<lambda>_. Tokenomics ErrTokenomicsClaimSessionHeaderInvalid)
                   (SessionHeader_ValidateBasic (TE_Sdk env) sh)) (\<lambda>_.
          if \<not> TE_HasDigestSize env (Claim_RootHash c) TrieHasherSize
            then Inl (Tokenomics ErrTokenomicsClaimRootHashInvalid)
          else bindR (mapErr (\<lambda>_. Tokenomics ErrTokenomicsClaimRootHashInvalid)
                        (GetNumClaimedComputeUnits (TE_Claims env) c)) (\<lambda>numClaimComputeUnits.
          if numClaimComputeUnits = 0 then Inl (Tokenomics ErrTokenomicsClaimRootHashInvalid)
          else bindR (mapErr (\<lambda>_. Tokenomics ErrTokenomicsClaimRootHashInvalid)
                        (GetNumRelays (TE_Claims env) c)) (\<lambda>numRelays.
            Inr (sh, numClaimComputeUnits, numRelays)))))"

definition App_settlement_min_stake :: "app_state \<Rightarrow> coin" where
  "App_settlement_min_stake apps =
     (case App_MinStake (App_GetParams apps) of None \<Rightarrow> App_DefaultMinStake | Some c \<Rightarrow> c)"

text \<open>Below the minimum stake, the application starts to unbond at the end of the current session,
  whether or not it was unbonding already.\<close>

definition unbond_below_min_stake :: "tok_env \<Rightarrow> string \<Rightarrow> application \<Rightarrow> settling
    \<Rightarrow> (settling, unit) step" where
  "unbond_below_min_stake env appAddress a st =
     (let sharedParams = SC_SharedParams (ST_Ctx st); ch = ST_Chain st in
      getS st (GetSessionEndHeight sharedParams (TE_Height env)) (\<lambda>sessionEndHeight.
      if \<not> Amount (App_Stake a) < Amount (App_settlement_min_stake (TCh_Apps ch)) then (st, Inr ())
      else let a1 = a\<lparr>App_UnstakeSessionEndHeight := uint64_of sessionEndHeight\<rparr>;
               ev = EventTokApplicationUnbondingBegin a1 sessionEndHeight
                      (GetApplicationUnbondingHeight sharedParams a1);
               ch1 = emit [ev] (ch\<lparr>TCh_Apps := SetApplication a1 (TCh_Apps ch)\<rparr>);
               sc1 = (ST_Ctx st)\<lparr>SC_Applications :=
                        al_set appAddress a1 (SC_Applications (ST_Ctx st))\<rparr>
           in (\<lparr>ST_Chain = ch1, ST_Ctx = sc1\<rparr>, Inr ())))"

text \<open>The modules share the application, the accumulator and the result with their caller, so what
  they changed is kept in the context whether they fail or not.\<close>

definition store_tlm_state :: "string \<Rightarrow> tlm_state \<Rightarrow> settling \<Rightarrow> settling" where
  "store_tlm_state appAddress ts st =
     \<lparr>ST_Chain = emit (TS_Events ts) (ST_Chain st),
      ST_Ctx = (ST_Ctx st)\<lparr>
        SC_Applications := al_set appAddress (TS_Application ts) (SC_Applications (ST_Ctx st)),
        SC_Accumulator := TS_Accumulator ts\<rparr>\<rparr>"

definition run_on_claim :: "tok_env \<Rightarrow> claim_settlement_result \<Rightarrow> session_header \<Rightarrow> coin \<Rightarrow> shared_service
    \<Rightarrow> application \<Rightarrow> supplier \<Rightarrow> settling \<Rightarrow> (settling, coin \<times> claim_settlement_result) step" where
  "run_on_claim env result sh actualSettlementCoin service a s st =
     (if Amount actualSettlementCoin = 0 then (st, Inr (actualSettlementCoin, result))
      else
        let tc = \<lparr>TC_Params = SC_TokParams (ST_Ctx st), TC_SettlementCoin = actualSettlementCoin,
              TC_SessionHeader = sh, TC_Service = service, TC_Supplier = s\<rparr>;
            (ts, outcome) = run_modules (TE_Sdk env) tc (TE_TLMs env)
              \<lparr>TS_Result = result, TS_Application = a, TS_Accumulator = SC_Accumulator (ST_Ctx st),
               TS_Events = []\<rparr>;
            st1 = store_tlm_state (SH_ApplicationAddress sh) ts st
        in case outcome of
             Inl e \<Rightarrow> (st1, Inl e)
           | Inr u \<Rightarrow>
               (case unbond_below_min_stake env (SH_ApplicationAddress sh) (TS_Application ts) st1 of
                  (st2, Inl e) \<Rightarrow> (st2, Inl e)
                | (st2, Inr u) \<Rightarrow> (st2, Inr (actualSettlementCoin, TS_Result ts))))"

definition ProcessTokenLogicModules :: "tok_env \<Rightarrow> claim_settlement_result \<Rightarrow> settling
    \<Rightarrow> (settling, coin \<times> claim_settlement_result) step" where
  "ProcessTokenLogicModules env pendingResult st =
     (let c = SR_Claim pendingResult; sc = ST_Ctx st; sh0 = TCh_Shared (ST_Chain st) in
      getS st (check_claim_root env c) (\<lambda>(sh, numClaimComputeUnits, numRelays).
      let pricingParams = GetParamsAtHeight sh0 (SH_SessionStartBlockHeight sh) in
      getS st (Ctx_GetService sc (SH_ServiceId sh)) (\<lambda>service.
      getS st (Ctx_GetRelayMiningDifficulty sc (SH_ServiceId sh) (SH_SessionStartBlockHeight sh))
        (\<lambda>difficulty.
      getS st (Ctx_GetApplication sc (SH_ApplicationAddress sh)) (\<lambda>a.
      getS st (Ctx_GetSupplier sc (Claim_SupplierOperatorAddress c)) (\<lambda>s.
      getS st (Ctx_GetServiceComputeUnitsPerRelay sc (SH_ServiceId sh) (SH_SessionStartBlockHeight sh))
        (\<lambda>cupr.
      if numClaimComputeUnits \<noteq> numRelays * cupr
        then (st, Inl (Tokenomics ErrTokenomicsClaimRootHashInvalid))
      else
      getS st (GetClaimeduPOKT (TE_Claims env) c pricingParams difficulty) (\<lambda>claimSettlementCoin.
      on_ctx st (getOrInitSessionBudget (ST_Chain st) (SH_ApplicationAddress sh) (SH_SessionId sh)
                   (SH_SessionEndBlockHeight sh) sc) (\<lambda>sb st1.
      getS st1 (Float64ToRat (GlobalInflationPerClaim (SC_TokParams sc))) (\<lambda>inflationRat.
      getS st1 (ensureClaimAmountLimits (SC_TokParams sc) a s claimSettlementCoin sb inflationRat
                  (SH_ServiceId sh) (SH_SessionEndBlockHeight sh)) (\<lambda>(events, actualSettlementCoin).
        run_on_claim env pendingResult sh actualSettlementCoin service a s
          (st1\<lparr>ST_Chain := emit events (ST_Chain st1)\<rparr>))))))))))))"

section \<open>The settlement event\<close>

text \<open>\<open>SetFloat64\<close> gives nil for an infinity or a NaN, and multiplying with nil panics.\<close>

definition computeSettlementBreakdown :: "coin \<Rightarrow> coin \<Rightarrow> f64 \<Rightarrow> (coin \<times> coin \<times> coin) res" where
  "computeSettlementBreakdown claimeduPOKT settledUpokt mintRatio =
     (case Float64ToRat mintRatio of
        Inl e \<Rightarrow> Inl Panic
      | Inr mintRatioRat \<Rightarrow>
          let mintedAmount = rat_quo (of_int (Amount settledUpokt) * mintRatioRat)
          in bindR (NewCoin mintedAmount) (\<lambda>mintedCoin.
             bindR (NewCoin (max 0 (Amount claimeduPOKT - Amount settledUpokt))) (\<lambda>overservicingLossCoin.
             bindR (NewCoin (max 0 (Amount settledUpokt - mintedAmount))) (\<lambda>deflationLossCoin.
             Inr (mintedCoin, overservicingLossCoin, deflationLossCoin)))))"

definition NewEventClaimSettled :: "sdk \<Rightarrow> u64 \<Rightarrow> u64 \<Rightarrow> u64 \<Rightarrow> u64 \<Rightarrow> proof_requirement \<Rightarrow> coin
    \<Rightarrow> claim_settlement_result \<Rightarrow> coin \<Rightarrow> f64 \<Rightarrow> string \<Rightarrow> tok_event res" where
  "NewEventClaimSettled sdk numRelays numComputeUnits numEstimatedComputeUnits numEstimatedRelays
       proofRequirement claimeduPOKT result settledUpokt mintRatio supplierOwnerAddress =
     bindR (GetRewardDistribution sdk result) (\<lambda>rewardDistribution.
     bindR (computeSettlementBreakdown claimeduPOKT settledUpokt mintRatio)
       (\<lambda>(minted, overservicingLoss, deflationLoss).
     Inr (EventClaimSettled numRelays numComputeUnits numEstimatedComputeUnits numEstimatedRelays
            claimeduPOKT proofRequirement (SR_Claim result) rewardDistribution
            (SR_ModToAcctTransfers result) settledUpokt mintRatio supplierOwnerAddress
            minted overservicingLoss deflationLoss)))"

section \<open>One claim\<close>

record claim_settlement_context =
  CS_SettlementResult :: claim_settlement_result
  CS_IsSettled :: bool
  CS_NumClaimRelays :: u64
  CS_NumClaimComputeUnits :: u64

fun expirationReason :: "claim_proof_status \<Rightarrow> expiration_reason" where
  "expirationReason PENDING_VALIDATION = PROOF_MISSING"
| "expirationReason INVALID = PROOF_INVALID"
| "expirationReason VALIDATED = EXPIRATION_REASON_UNSPECIFIED"

definition estimated_relays :: "u64 \<Rightarrow> u64 \<Rightarrow> u64 \<Rightarrow> u64" where
  "estimated_relays numClaimRelays numClaimComputeUnits numEstimatedComputeUnits =
     (if numClaimRelays > 0
      then let computeUnitsPerRelay = numClaimComputeUnits div numClaimRelays
           in if computeUnitsPerRelay > 0 then numEstimatedComputeUnits div computeUnitsPerRelay else 0
      else 0)"

text \<open>What is read of a claim before it is settled or expired.\<close>

record claim_facts =
  CF_NumRelays :: u64
  CF_NumComputeUnits :: u64
  CF_NumEstimatedComputeUnits :: u64
  CF_NumEstimatedRelays :: u64
  CF_ClaimeduPOKT :: coin
  CF_ProofRequirement :: proof_requirement

definition claim_facts_of :: "tok_env \<Rightarrow> tok_chain \<Rightarrow> settlement_context \<Rightarrow> claim \<Rightarrow> claim_facts res" where
  "claim_facts_of env ch sc c =
     (let ext = TE_Claims env;
          serviceId = GetHeaderServiceId (Claim_SessionHeader c);
          startHeight = GetHeaderStartHeight (Claim_SessionHeader c)
      in bindR (GetNumRelays ext c) (\<lambda>numClaimRelays.
         bindR (GetNumClaimedComputeUnits ext c) (\<lambda>numClaimComputeUnits.
         bindR (Ctx_GetRelayMiningDifficulty sc serviceId startHeight) (\<lambda>difficulty.
         bindR (GetNumEstimatedComputeUnits ext c difficulty) (\<lambda>numEstimatedComputeUnits.
         bindR (GetClaimeduPOKT ext c (GetParamsAtHeight (TCh_Shared ch) startHeight) difficulty)
           (\<lambda>claimeduPOKT.
         bindR (ProofRequirementForClaim ext (TCh_Shared ch) (TCh_Services ch) (TCh_Session ch)
                  (Proof_GetParams (TCh_Proofs ch)) c) (\<lambda>proofRequirement.
         Inr \<lparr>CF_NumRelays = numClaimRelays, CF_NumComputeUnits = numClaimComputeUnits,
              CF_NumEstimatedComputeUnits = numEstimatedComputeUnits,
              CF_NumEstimatedRelays =
                estimated_relays numClaimRelays numClaimComputeUnits numEstimatedComputeUnits,
              CF_ClaimeduPOKT = claimeduPOKT, CF_ProofRequirement = proofRequirement\<rparr>)))))))"

definition settleClaim :: "tok_env \<Rightarrow> claim \<Rightarrow> settling \<Rightarrow> (settling, claim_settlement_context) step" where
  "settleClaim env c st =
     on_ctx st (ClaimCacheWarmUp (TE_Height env) (ST_Chain st) c (ST_Ctx st)) (\<lambda>u st1.
     getS st1 (claim_facts_of env (ST_Chain st1) (ST_Ctx st1) c) (\<lambda>cf.
     let result0 = NewClaimSettlementResult c;
         context0 = \<lparr>CS_SettlementResult = result0, CS_IsSettled = False,
           CS_NumClaimRelays = CF_NumRelays cf, CS_NumClaimComputeUnits = CF_NumComputeUnits cf\<rparr>
     in if CF_ProofRequirement cf \<noteq> NOT_REQUIRED \<and> Claim_ProofValidationStatus c \<noteq> VALIDATED
        then (st1\<lparr>ST_Chain := emit [EventClaimExpired (expirationReason (Claim_ProofValidationStatus c))
                (CF_NumRelays cf) (CF_NumComputeUnits cf) (CF_NumEstimatedComputeUnits cf)
                (CF_NumEstimatedRelays cf) (CF_ClaimeduPOKT cf) c] (ST_Chain st1)\<rparr>, Inr context0)
        else case ProcessTokenLogicModules env result0 st1 of
          (st2, Inl e) \<Rightarrow> (st2, Inl e)
        | (st2, Inr (actualSettlementCoin, result)) \<Rightarrow>
            getS st2 (Ctx_GetSupplier (ST_Ctx st2) (Claim_SupplierOperatorAddress c)) (\<lambda>s.
            getS st2 (NewEventClaimSettled (TE_Sdk env) (CF_NumRelays cf) (CF_NumComputeUnits cf)
                        (CF_NumEstimatedComputeUnits cf) (CF_NumEstimatedRelays cf)
                        (CF_ProofRequirement cf) (CF_ClaimeduPOKT cf) result actualSettlementCoin
                        (MintRatio (SC_TokParams (ST_Ctx st2))) (OwnerAddress s)) (\<lambda>ev.
              (st2\<lparr>ST_Chain := emit [ev] (ST_Chain st2)\<rparr>,
               Inr (context0\<lparr>CS_SettlementResult := result, CS_IsSettled := True\<rparr>))))))"

text \<open>A claim without a session header cannot be discarded.\<close>

definition discardFaultyClaim :: "claim \<Rightarrow> tok_chain \<Rightarrow> tok_chain res" where
  "discardFaultyClaim c ch =
     (case Claim_SessionHeader c of None \<Rightarrow> Inl Panic
      | Some sh \<Rightarrow> Inr (emit [EventClaimDiscarded c]
          (ch\<lparr>TCh_Proofs := RemoveClaim (SH_SessionId sh) (Claim_SupplierOperatorAddress c) (TCh_Proofs ch)\<rparr>)))"

section \<open>Candidate session end heights\<close>

definition add_candidate :: "int \<Rightarrow> shared_params \<Rightarrow> int list \<Rightarrow> int list" where
  "add_candidate currentHeight p candidates =
     (let e = i64 (currentHeight - i64 (GetSessionEndToProofWindowCloseBlocks p + 1))
      in if e < 0 then candidates else if e \<in> set candidates then candidates else candidates @ [e])"

definition candidate_step :: "int \<Rightarrow> int list \<times> int \<Rightarrow> int \<Rightarrow> shared_params \<Rightarrow> (int list \<times> int) \<times> bool" where
  "candidate_step currentHeight = (\<lambda>(candidates, nextEffHeight) effHeight p.
     let thisEpochTail = GetSessionEndToProofWindowCloseBlocks p;
         lastSessionEnd = i64 (nextEffHeight - 1);
         lastProofClose = i64 (i64 (lastSessionEnd + thisEpochTail) + 1);
         candidates1 = (if lastProofClose \<ge> currentHeight then add_candidate currentHeight p candidates
                        else candidates)
     in ((candidates1, effHeight), False))"

definition candidateSessionEndHeightsForLiveParams :: "shared_state \<Rightarrow> shared_params \<Rightarrow> int \<Rightarrow> int list" where
  "candidateSessionEndHeightsForLiveParams sh liveParams currentHeight =
     fst (IterateParamsHistoryReverse sh currentHeight (candidate_step currentHeight)
            (add_candidate currentHeight liveParams [], i64 (currentHeight + 1)))"

definition GetExpiringClaimsSessionEndHeights :: "shared_state \<Rightarrow> int \<Rightarrow> int list" where
  "GetExpiringClaimsSessionEndHeights sh currentHeight =
     candidateSessionEndHeightsForLiveParams sh (GetParams sh) currentHeight"

definition GetExpiringClaimsIterator :: "settlement_context \<Rightarrow> proof_state \<Rightarrow> int
    \<Rightarrow> (string \<times> claim res) list" where
  "GetExpiringClaimsIterator sc ps currentHeight =
     GetSessionEndHeightClaimsIterator ps
       (i64 (currentHeight - i64 (GetSessionEndToProofWindowCloseBlocks (SC_SharedParams sc) + 1)))"

section \<open>Collecting ripe claims\<close>

definition is_ripe :: "shared_state \<Rightarrow> int \<Rightarrow> claim \<Rightarrow> bool" where
  "is_ripe sh currentHeight c =
     (let claimSessionEndHeight = GetHeaderEndHeight (Claim_SessionHeader c);
          claimProofWindowCloseHeight = i64 (claimSessionEndHeight
            + GetSessionEndToProofWindowCloseBlocks (GetParamsAtHeight sh claimSessionEndHeight))
      in currentHeight > claimProofWindowCloseHeight)"

definition collect_step :: "shared_state \<Rightarrow> int \<Rightarrow> claim list \<times> settlement_context \<times> nat \<Rightarrow> string \<times> claim res
    \<Rightarrow> (claim list \<times> settlement_context \<times> nat) res" where
  "collect_step sh currentHeight = (\<lambda>(collected, sc, numDiscarded) (k, value).
     case value of
       Inl e \<Rightarrow> Inr (collected, sc, numDiscarded + 1)
     | Inr c \<Rightarrow>
         if \<not> is_ripe sh currentHeight c then Inr (collected, sc, numDiscarded)
         else case Claim_SessionHeader c of None \<Rightarrow> Inl Panic
         | Some h \<Rightarrow> Inr (collected @ [c],
                        IncrementSupplierCount (SH_ApplicationAddress h) (SH_SessionId h) sc,
                        numDiscarded))"

definition collect_claims :: "tok_chain \<Rightarrow> int \<Rightarrow> settlement_context
    \<Rightarrow> (claim list \<times> settlement_context \<times> nat) res" where
  "collect_claims ch currentHeight sc =
     foldR (collect_step (TCh_Shared ch) currentHeight) ([], sc, 0)
       (concat (map (GetSessionEndHeightClaimsIterator (TCh_Proofs ch))
          (candidateSessionEndHeightsForLiveParams (TCh_Shared ch) (SC_SharedParams sc) currentHeight)))"

section \<open>Sizing the budgets\<close>

text \<open>An error leaves the claim out of the budgets; a panic is no error.\<close>

definition budget_step :: "tok_env \<Rightarrow> tok_chain \<Rightarrow> settlement_context \<Rightarrow> claim \<Rightarrow> settlement_context res" where
  "budget_step env ch sc c =
     (case thenS (ClaimCacheWarmUp (TE_Height env) ch c sc) (AccumulateClaimBudget env ch c) of
        (sc1, Inl Panic) \<Rightarrow> Inl Panic
      | (sc1, r) \<Rightarrow> Inr sc1)"

section \<open>Settling the collected claims\<close>

record settlement_progress =
  PR_Settling :: settling
  PR_Settled :: "claim_settlement_result list"
  PR_Expired :: "claim_settlement_result list"
  PR_NumDiscarded :: nat

definition settle_step :: "tok_env \<Rightarrow> settlement_progress \<Rightarrow> claim \<Rightarrow> settlement_progress res" where
  "settle_step env pr c =
     (case settleClaim env c (PR_Settling pr) of
        (st, Inl Panic) \<Rightarrow> Inl Panic
      | (st, Inl e) \<Rightarrow>
          bindR (discardFaultyClaim c (ST_Chain st)) (\<lambda>ch.
            Inr (pr\<lparr>PR_Settling := st\<lparr>ST_Chain := ch\<rparr>, PR_NumDiscarded := PR_NumDiscarded pr + 1\<rparr>))
      | (st, Inr cs) \<Rightarrow>
          (case Claim_SessionHeader c of None \<Rightarrow> Inl Panic
           | Some h \<Rightarrow>
               let ch = (ST_Chain st)\<lparr>TCh_Proofs := RemoveClaim (SH_SessionId h)
                          (Claim_SupplierOperatorAddress c) (TCh_Proofs (ST_Chain st))\<rparr>;
                   pr1 = pr\<lparr>PR_Settling := st\<lparr>ST_Chain := ch\<rparr>\<rparr>
               in Inr (if CS_IsSettled cs
                       then pr1\<lparr>PR_Settled := PR_Settled pr @ [CS_SettlementResult cs]\<rparr>
                       else pr1\<lparr>PR_Expired := PR_Expired pr @ [CS_SettlementResult cs]\<rparr>)))"

section \<open>Writing the actors back\<close>

definition FlushAllActorsToStore :: "settlement_context \<Rightarrow> tok_chain \<Rightarrow> tok_chain" where
  "FlushAllActorsToStore sc ch =
     ch\<lparr>TCh_Apps := fold (\<lambda>e. SetApplication (snd e)) (SC_Applications sc) (TCh_Apps ch),
        TCh_Suppliers := fold (\<lambda>e. SetDehydratedSupplier (snd e)) (SC_Suppliers sc) (TCh_Suppliers ch)\<rparr>"

end
