(* ===== verification/TokExecute.thy ===== *)
theory TokExecute
  imports TokSettle
begin

text \<open>
  Carrying a block's settlement out (\<open>x/tokenomics/keeper/settle_pending_claims.go\<close>,
  \<open>settle_pending_claims_aggregation.go\<close>, \<open>x/tokenomics/module/abci.go\<close>): the queued
  operations of all settled claims summed up by module, recipient and reason and executed in the order
  of their keys, the batched validator rewards, the slashing of suppliers without a required proof,
  and the module's end blocker.
\<close>

section \<open>Aggregation\<close>

text \<open>An aggregated operation: two parties, of which a mint or burn has only one, a reason, a coin
  and the number of operations.\<close>

record aggregated_op =
  AG_Sender :: string
  AG_Recipient :: string
  AG_OpReason :: settlement_op_reason
  AG_Coin :: coin
  AG_NumClaims :: nat

fun nat_dec :: "nat \<Rightarrow> string" where
  "nat_dec n = (if n < 10 then [char_of (48 + n)] else nat_dec (n div 10) @ [char_of (48 + n mod 10)])"

declare nat_dec.simps [simp del]

definition mintBurnOrderKey :: "aggregated_op \<Rightarrow> string" where
  "mintBurnOrderKey op = AG_Sender op @ ''|'' @ nat_dec (op_number (AG_OpReason op))"

definition modToModOrderKey :: "aggregated_op \<Rightarrow> string" where
  "modToModOrderKey op = AG_Sender op @ ''|'' @ AG_Recipient op @ ''|'' @ nat_dec (op_number (AG_OpReason op))"

definition modToAcctOrderKey :: "aggregated_op \<Rightarrow> string" where
  "modToAcctOrderKey op = AG_Sender op @ ''|'' @ AG_Recipient op @ ''|'' @ nat_dec (op_number (AG_OpReason op))"

type_synonym op_key = "string \<times> string \<times> settlement_op_reason"

text \<open>One operation joins its group. An unspecified reason is an error of the whole aggregation.\<close>

definition aggregate_op :: "sdk \<Rightarrow> (op_key, aggregated_op) kv \<Rightarrow> op_key \<times> coin
    \<Rightarrow> (op_key, aggregated_op) kv res" where
  "aggregate_op sdk m = (\<lambda>((sender, recipient, reason), c).
     bindR (mapErr (\<lambda>_. Tokenomics ErrTokenomicsSettlementInternal) (validateOpReason reason)) (\<lambda>_.
     case map_of m (sender, recipient, reason) of
       Some existing \<Rightarrow>
         bindR (coinAdd sdk (AG_Coin existing) c) (\<lambda>c'.
           Inr (kv_set (sender, recipient, reason)
                  (existing\<lparr>AG_Coin := c', AG_NumClaims := AG_NumClaims existing + 1\<rparr>) m))
     | None \<Rightarrow>
         Inr (kv_set (sender, recipient, reason)
                \<lparr>AG_Sender = sender, AG_Recipient = recipient, AG_OpReason = reason, AG_Coin = c,
                 AG_NumClaims = 1\<rparr> m)))"

definition aggregate :: "sdk \<Rightarrow> (op_key \<times> coin) list \<Rightarrow> (op_key, aggregated_op) kv res" where
  "aggregate sdk ops = foldR (aggregate_op sdk) [] ops"

definition mint_burn_ops :: "mint_burn_op list \<Rightarrow> (op_key \<times> coin) list" where
  "mint_burn_ops = map (\<lambda>op. ((MB_DestinationModule op, '''', MB_OpReason op), MB_Coin op))"

definition aggregateMints :: "sdk \<Rightarrow> claim_settlement_result list \<Rightarrow> aggregated_op list res" where
  "aggregateMints sdk results =
     bindR (aggregate sdk (mint_burn_ops (concat (map SR_Mints results)))) (\<lambda>m.
       Inr (sort_key mintBurnOrderKey (map snd m)))"

definition aggregateBurns :: "sdk \<Rightarrow> claim_settlement_result list \<Rightarrow> aggregated_op list res" where
  "aggregateBurns sdk results =
     bindR (aggregate sdk (mint_burn_ops (concat (map SR_Burns results)))) (\<lambda>m.
       Inr (sort_key mintBurnOrderKey (map snd m)))"

definition aggregateModToModTransfers :: "sdk \<Rightarrow> claim_settlement_result list \<Rightarrow> aggregated_op list res" where
  "aggregateModToModTransfers sdk results =
     bindR (aggregate sdk (map (\<lambda>t. ((MM_SenderModule t, MM_RecipientModule t, MM_OpReason t), MM_Coin t))
              (concat (map SR_ModToModTransfers results)))) (\<lambda>m.
       Inr (sort_key modToModOrderKey (map snd m)))"

definition aggregateModToAcctTransfers :: "sdk \<Rightarrow> claim_settlement_result list \<Rightarrow> aggregated_op list res" where
  "aggregateModToAcctTransfers sdk results =
     bindR (aggregate sdk (map (\<lambda>t. ((MA_SenderModule t, MA_RecipientAddress t, MA_OpReason t), MA_Coin t))
              (concat (map SR_ModToAcctTransfers results)))) (\<lambda>m.
       Inr (sort_key modToAcctOrderKey (map snd m)))"

section \<open>Execution\<close>

definition batch_event :: "int \<Rightarrow> aggregated_op \<Rightarrow> string \<Rightarrow> tok_event" where
  "batch_event sessionEndHeight op opType = EventSettlementBatch sessionEndHeight (AG_Sender op)
     (AG_Recipient op) (AG_OpReason op) (AG_Coin op) (AG_NumClaims op) opType"

text \<open>An operation with a zero coin is skipped. The telemetry of mints and burns converts the amount
  to an int64.\<close>

definition execute_op :: "sdk \<Rightarrow> go_error \<Rightarrow> bank_call \<Rightarrow> tok_event \<Rightarrow> tok_chain \<Rightarrow> tok_chain res" where
  "execute_op sdk err call ev ch =
     bindR (mapErr (\<lambda>_. err) (bank_do sdk call (TCh_Bank ch))) (\<lambda>log'.
       Inr (emit [ev] (ch\<lparr>TCh_Bank := log'\<rparr>)))"

definition execute_mint :: "sdk \<Rightarrow> int \<Rightarrow> tok_chain \<Rightarrow> aggregated_op \<Rightarrow> tok_chain res" where
  "execute_mint sdk sessionEndHeight ch op =
     (if Amount (AG_Coin op) = 0 then Inr ch
      else bindR (execute_op sdk (Tokenomics ErrTokenomicsSettlementMint)
                    (MintCoins (AG_Sender op) (AG_Coin op)) (batch_event sessionEndHeight op ''mint'') ch)
             (\<lambda>ch'. if in_i64 (Amount (AG_Coin op)) then Inr ch' else Inl Panic))"

definition execute_burn :: "sdk \<Rightarrow> int \<Rightarrow> tok_chain \<Rightarrow> aggregated_op \<Rightarrow> tok_chain res" where
  "execute_burn sdk sessionEndHeight ch op =
     (if Amount (AG_Coin op) = 0 then Inr ch
      else bindR (execute_op sdk (Tokenomics ErrTokenomicsSettlementBurn)
                    (BurnCoins (AG_Sender op) (AG_Coin op)) (batch_event sessionEndHeight op ''burn'') ch)
             (\<lambda>ch'. if in_i64 (Amount (AG_Coin op)) then Inr ch' else Inl Panic))"

definition execute_mod_to_mod :: "sdk \<Rightarrow> int \<Rightarrow> tok_chain \<Rightarrow> aggregated_op \<Rightarrow> tok_chain res" where
  "execute_mod_to_mod sdk sessionEndHeight ch op =
     (if Amount (AG_Coin op) = 0 then Inr ch
      else execute_op sdk (Tokenomics ErrTokenomicsSettlementTransfer)
             (SendFromModuleToModule (AG_Sender op) (AG_Recipient op) (AG_Coin op))
             (batch_event sessionEndHeight op ''mod_to_mod'') ch)"

definition execute_mod_to_acct :: "sdk \<Rightarrow> int \<Rightarrow> tok_chain \<Rightarrow> aggregated_op \<Rightarrow> tok_chain res" where
  "execute_mod_to_acct sdk sessionEndHeight ch op =
     (if Amount (AG_Coin op) = 0 then Inr ch
      else if \<not> isBech32 sdk (AG_Recipient op) then Inl (Tokenomics ErrTokenomicsSettlementTransfer)
      else execute_op sdk (Tokenomics ErrTokenomicsSettlementTransfer)
             (SendFromModuleToAccount (AG_Sender op) (AG_Recipient op) (AG_Coin op))
             (batch_event sessionEndHeight op ''mod_to_acct'') ch)"

definition first_session_end :: "claim_settlement_result list \<Rightarrow> int" where
  "first_session_end results = (case results of [] \<Rightarrow> 0 | r # rs \<Rightarrow> Result_GetSessionEndHeight r)"

text \<open>All four aggregations come before any operation; then mints, module transfers, payments, burns.\<close>

definition ExecutePendingSettledResults :: "sdk \<Rightarrow> claim_settlement_result list \<Rightarrow> tok_chain
    \<Rightarrow> tok_chain res" where
  "ExecutePendingSettledResults sdk settledResults ch =
     (let sessionEndHeight = first_session_end settledResults in
      bindR (aggregateMints sdk settledResults) (\<lambda>aggMints.
      bindR (aggregateModToModTransfers sdk settledResults) (\<lambda>aggModToMod.
      bindR (aggregateModToAcctTransfers sdk settledResults) (\<lambda>aggModToAcct.
      bindR (aggregateBurns sdk settledResults) (\<lambda>aggBurns.
      bindR (foldR (execute_mint sdk sessionEndHeight) ch aggMints) (\<lambda>ch1.
      bindR (foldR (execute_mod_to_mod sdk sessionEndHeight) ch1 aggModToMod) (\<lambda>ch2.
      bindR (foldR (execute_mod_to_acct sdk sessionEndHeight) ch2 aggModToAcct) (\<lambda>ch3.
        foldR (execute_burn sdk sessionEndHeight) ch3 aggBurns))))))))"

section \<open>Batched validator rewards\<close>

definition flush_step :: "staking \<Rightarrow> int \<Rightarrow> claim_settlement_result \<times> tok_event list
    \<Rightarrow> settlement_op_reason \<times> int \<Rightarrow> (claim_settlement_result \<times> tok_event list) res" where
  "flush_step sk sessionEndHeight = (\<lambda>(result, events) (opReason, totalAmount).
     if totalAmount = 0 then Inr (result, events)
     else bindR (NewCoin totalAmount) (\<lambda>rewardCoin.
          bindR (mapErr (\<lambda>_. Tokenomics ErrTokenomicsSettlementInternal)
                   (DistributeValidatorRewards sk result rewardCoin opReason sessionEndHeight))
            (\<lambda>(result', events'). Inr (result', events @ events'))))"

text \<open>The synthetic result, if it has any transfer, with the events.\<close>

definition FlushBatchedValidatorRewards :: "staking \<Rightarrow> (settlement_op_reason, int) kv \<Rightarrow> int
    \<Rightarrow> (claim_settlement_result option \<times> tok_event list) res" where
  "FlushBatchedValidatorRewards sk accumulator sessionEndHeight =
     (if length accumulator = 0 then Inr (None, [])
      else bindR (foldR (flush_step sk sessionEndHeight) (NewClaimSettlementResult zero_claim, [])
                    (sort_key fst accumulator)) (\<lambda>(batchedResult, events).
           if length (SR_ModToAcctTransfers batchedResult) = 0 then Inr (None, events)
           else Inr (Some batchedResult, events)))"

section \<open>Slashing\<close>

text \<open>What remains of a stake, and what is taken.\<close>

definition slash_amounts :: "sdk \<Rightarrow> coin \<Rightarrow> coin \<Rightarrow> (coin \<times> coin) res" where
  "slash_amounts sdk stake penalty =
     bindR (coinIsLTE sdk penalty stake) (\<lambda>enough.
       if enough then Inr (\<lparr>Denom = Denom stake, Amount = Amount stake - Amount penalty\<rparr>, penalty)
       else bindR (NewCoin (Amount stake)) (\<lambda>wholeStake. Inr (upokt 0, wholeStake)))"

definition isBelowMinStake :: "sdk \<Rightarrow> coin \<Rightarrow> coin \<Rightarrow> bool res" where
  "isBelowMinStake sdk stake minStake = bindR (coinIsLTE sdk minStake stake) (\<lambda>b. Inr (\<not> b))"

text \<open>The force-unstaked supplier: the end of the current session, and the deactivation of the
  configurations it carries in memory.\<close>

definition force_unstake :: "int \<Rightarrow> supplier \<Rightarrow> supplier" where
  "force_unstake unstakeSessionEndHeight s =
     s\<lparr>Supplier_UnstakeSessionEndHeight := uint64_of unstakeSessionEndHeight,
       ServiceConfigHistory := map (\<lambda>u. u\<lparr>DeactivationHeight := unstakeSessionEndHeight\<rparr>)
         (ServiceConfigHistory s)\<rparr>"

definition slashSupplierStake :: "tok_env \<Rightarrow> settling \<Rightarrow> claim_settlement_result \<Rightarrow> settling res" where
  "slashSupplierStake env st result =
     (let sdk = TE_Sdk env; ch = ST_Chain st; sc = ST_Ctx st; c = SR_Claim result;
          operator = Claim_SupplierOperatorAddress c
      in case ProofMissingPenalty (Proof_GetParams (TCh_Proofs ch)) of None \<Rightarrow> Inl Panic
      | Some penalty \<Rightarrow>
      bindR (Ctx_GetSupplier sc operator) (\<lambda>s.
      bindR (slash_amounts sdk (Supplier_Stake s) penalty) (\<lambda>(remainingStakeCoin, slashingCoin).
      bindR (mapErr (\<lambda>_. Tokenomics ErrTokenomicsSettlementInternal)
               (bank_do sdk (SendFromModuleToModule Supplier_ModuleName Tokenomics_ModuleName slashingCoin)
                  (TCh_Bank ch))) (\<lambda>log1.
      bindR (mapErr (\<lambda>_. Tokenomics ErrTokenomicsSettlementInternal)
               (bank_do sdk (BurnCoins Tokenomics_ModuleName slashingCoin) log1)) (\<lambda>log2.
      let s1 = s\<lparr>Supplier_Stake := remainingStakeCoin\<rparr> in
      case Supplier_MinStake (Supplier_GetParams (TCh_Suppliers ch)) of None \<Rightarrow> Inl Panic
      | Some minStake \<Rightarrow>
      bindR (isBelowMinStake sdk (Supplier_Stake s1) minStake) (\<lambda>below.
      bindR (if below \<and> \<not> Supplier_IsUnbonding s1
             then bindR (GetSessionEndHeight (SC_SharedParams sc) (TE_Height env)) (\<lambda>h.
                  let s2 = force_unstake h s1 in Inr (s2, [EventTokSupplierUnbondingBegin s2 h h]))
             else Inr (s1, [])) (\<lambda>(s2, events).
      if Claim_SessionHeader c = None then Inl Panic
      else Inr \<lparr>ST_Chain = emit (events @ [EventSupplierSlashed c slashingCoin remainingStakeCoin])
                  (ch\<lparr>TCh_Bank := log2, TCh_Suppliers := SetDehydratedSupplier s2 (TCh_Suppliers ch)\<rparr>),
                ST_Ctx = sc\<lparr>SC_Suppliers := al_set operator s2 (SC_Suppliers sc)\<rparr>\<rparr>)))))))"

text \<open>The first failure ends the loop; the requirement is looked up for its message only.\<close>

definition slash_step :: "tok_env \<Rightarrow> settling \<Rightarrow> claim_settlement_result \<Rightarrow> settling res" where
  "slash_step env st result =
     (case slashSupplierStake env st result of
        Inr st' \<Rightarrow> Inr st'
      | Inl Panic \<Rightarrow> Inl Panic
      | Inl e \<Rightarrow>
          bindR (mapErr (\<lambda>_. Tokenomics ErrTokenomicsSettlementInternal)
                   (ProofRequirementForClaim (TE_Claims env) (TCh_Shared (ST_Chain st))
                      (TCh_Services (ST_Chain st)) (TCh_Session (ST_Chain st))
                      (Proof_GetParams (TCh_Proofs (ST_Chain st))) (SR_Claim result))) (\<lambda>_.
            Inl (Tokenomics ErrTokenomicsSettlementInternal)))"

definition ExecutePendingExpiredResults :: "tok_env \<Rightarrow> claim_settlement_result list \<Rightarrow> settling
    \<Rightarrow> settling res" where
  "ExecutePendingExpiredResults env expiredResults st = foldR (slash_step env) st expiredResults"

section \<open>A block\<close>

record settlement_outcome =
  SO_Chain :: tok_chain
  SO_Settled :: "claim_settlement_result list"
  SO_Expired :: "claim_settlement_result list"
  SO_NumDiscarded :: nat

text \<open>Collecting, sizing the budgets and settling, before anything is executed.\<close>

definition settle_collected :: "tok_env \<Rightarrow> tok_chain \<Rightarrow> settlement_progress res" where
  "settle_collected env ch =
     bindR (collect_claims ch (TE_Height env) (NewSettlementContext ch)) (\<lambda>(collectedClaims, sc, numDiscarded).
     bindR (foldR (budget_step env ch) sc collectedClaims) (\<lambda>sc1.
       foldR (settle_step env)
         \<lparr>PR_Settling = \<lparr>ST_Chain = ch, ST_Ctx = sc1\<rparr>, PR_Settled = [], PR_Expired = [],
          PR_NumDiscarded = numDiscarded\<rparr> collectedClaims))"

definition SettlePendingClaims :: "tok_env \<Rightarrow> tok_chain \<Rightarrow> settlement_outcome res" where
  "SettlePendingClaims env ch =
     bindR (settle_collected env ch) (\<lambda>pr.
     let sc = ST_Ctx (PR_Settling pr);
         ch1 = FlushAllActorsToStore sc (ST_Chain (PR_Settling pr))
     in bindR (FlushBatchedValidatorRewards (TE_Staking env) (SC_Accumulator sc)
                 (first_session_end (PR_Settled pr))) (\<lambda>(batchedResult, events).
        let settled = (case batchedResult of None \<Rightarrow> PR_Settled pr | Some r \<Rightarrow> PR_Settled pr @ [r]) in
        bindR (ExecutePendingSettledResults (TE_Sdk env) settled (emit events ch1)) (\<lambda>ch2.
        bindR (ExecutePendingExpiredResults env (PR_Expired pr) \<lparr>ST_Chain = ch2, ST_Ctx = sc\<rparr>) (\<lambda>st3.
        Inr \<lparr>SO_Chain = ST_Chain st3, SO_Settled = settled, SO_Expired = PR_Expired pr,
             SO_NumDiscarded = PR_NumDiscarded pr\<rparr>))))"

definition Tok_UpdateRelayMiningDifficulty :: "int \<Rightarrow> (string, u64) kv \<Rightarrow> tok_chain
    \<Rightarrow> (tok_chain \<times> (string \<times> relay_mining_difficulty) list) res" where
  "Tok_UpdateRelayMiningDifficulty height relaysPerServiceMap ch =
     bindR (UpdateRelayMiningDifficulty height (TCh_Shared ch) relaysPerServiceMap (TCh_Services ch))
       (\<lambda>(svc, difficulties). Inr (ch\<lparr>TCh_Services := svc\<rparr>, difficulties))"

definition Tok_EndBlocker :: "tok_env \<Rightarrow> tok_chain \<Rightarrow> tok_chain res" where
  "Tok_EndBlocker env ch =
     bindR (SettlePendingClaims env ch) (\<lambda>so.
     bindR (GetRelaysPerServiceMap (TE_Claims env) (SO_Settled so)) (\<lambda>relaysPerService.
     bindR (Tok_UpdateRelayMiningDifficulty (TE_Height env) relaysPerService (SO_Chain so))
       (\<lambda>(ch', difficulties). Inr ch')))"

end
