(* ===== verification/TokLedger.thy ===== *)
theory TokLedger
  imports TokBalance TokExecute SupplierSteps
begin

text \<open>
  The books of a block's settlement: what the stores will hold once the cached actors are written
  back, against what is queued. The ledger of a store and its cache is developed under the contract of
  an actor store, for applications and suppliers alike; each step of settling a claim is then shown
  to keep the books.
\<close>

section \<open>A store and its cache\<close>

lemma in_al_set: "e \<in> set (al_set k v m) \<Longrightarrow> e = (k, v) \<or> e \<in> set m"
  by (induction k v m rule: al_set.induct) (auto split: if_splits)

lemma distinct_al_set: "distinct (map fst m) \<Longrightarrow> distinct (map fst (al_set k v m))"
  by (simp add: keys_al_set)

context actor_store
begin

definition stake_at :: "'s \<Rightarrow> string \<Rightarrow> int" where
  "stake_at s x = (case find s x of None \<Rightarrow> 0 | Some b \<Rightarrow> Amount (stakeOf b))"

definition pending :: "'s \<Rightarrow> (string \<times> 'a) list \<Rightarrow> int" where
  "pending s m = sum_list (map (\<lambda>e. Amount (stakeOf (snd e)) - stake_at s (fst e)) m)"

text \<open>The total stake after the cache is written back.\<close>

definition ledger :: "'s \<Rightarrow> (string \<times> 'a) list \<Rightarrow> int" where
  "ledger s m = stakes s + pending s m"

definition cache_ok :: "'s \<Rightarrow> (string \<times> 'a) list \<Rightarrow> bool" where
  "cache_ok s m \<longleftrightarrow> distinct (map fst m) \<and> (\<forall>e \<in> set m. addr (snd e) = fst e \<and> find s (fst e) \<noteq> None)"

lemma cache_ok_Nil: "cache_ok s []"
  by (simp add: cache_ok_def)

lemma stake_at_put: "stake_at (put a s) x = (if x = addr a then Amount (stakeOf a) else stake_at s x)"
  by (simp add: stake_at_def find_put stake_stored)

lemma stakes_put_at: "store_ok s \<Longrightarrow> stakes (put a s) = stakes s + Amount (stakeOf a) - stake_at s (addr a)"
  by (simp add: stakes_put stake_at_def)

lemma pending_put_other: "addr a \<notin> fst ` set m \<Longrightarrow> pending (put a s) m = pending s m"
  by (induction m) (auto simp: pending_def stake_at_put)

lemma pending_put: "distinct (map fst m) \<Longrightarrow> addr a \<in> fst ` set m
    \<Longrightarrow> pending (put a s) m = pending s m - (Amount (stakeOf a) - stake_at s (addr a))"
proof (induction m)
  case Nil
  then show ?case by simp
next
  case (Cons e m)
  show ?case
  proof (cases "fst e = addr a")
    case True
    then have "addr a \<notin> fst ` set m" using Cons.prems(1) by auto
    then show ?thesis using True pending_put_other [of a m s] by (simp add: pending_def stake_at_put)
  next
    case False
    then show ?thesis using Cons by (auto simp: pending_def stake_at_put)
  qed
qed

lemma ledger_put: "store_ok s \<Longrightarrow> cache_ok s m \<Longrightarrow> addr a \<in> fst ` set m \<Longrightarrow> ledger (put a s) m = ledger s m"
  by (simp add: ledger_def cache_ok_def stakes_put_at pending_put)

lemma ledger_al_set: "distinct (map fst m) \<Longrightarrow> ledger s (al_set k a m) = ledger s m + Amount (stakeOf a)
    - (case map_of m k of None \<Rightarrow> stake_at s k | Some b \<Rightarrow> Amount (stakeOf b))"
proof (induction k a m rule: al_set.induct)
  case (1 k v)
  then show ?case by (simp add: ledger_def pending_def)
next
  case (2 k v k' v' m)
  then show ?case by (cases "k' = k") (auto simp: ledger_def pending_def)
qed

lemma cache_ok_al_set: "cache_ok s m \<Longrightarrow> addr a = k \<Longrightarrow> find s k \<noteq> None \<Longrightarrow> cache_ok s (al_set k a m)"
  unfolding cache_ok_def by (auto simp: distinct_al_set dest!: in_al_set)

lemma cache_ok_put: "cache_ok s m \<Longrightarrow> cache_ok (put a s) m"
  by (auto simp: cache_ok_def find_put)

lemma cache_addr: "cache_ok s m \<Longrightarrow> map_of m k = Some a \<Longrightarrow> addr a = k \<and> find s k \<noteq> None"
  by (fastforce simp: cache_ok_def dest: map_of_SomeD)

lemma ledger_read: "cache_ok s m \<Longrightarrow> map_of m k = None \<Longrightarrow> find s k = Some b
    \<Longrightarrow> stakeOf a = stakeOf b \<Longrightarrow> ledger s (al_set k a m) = ledger s m"
  by (simp add: ledger_al_set cache_ok_def stake_at_def)

lemma ledger_replace: "cache_ok s m \<Longrightarrow> map_of m k = Some b
    \<Longrightarrow> ledger s (al_set k a m) = ledger s m + Amount (stakeOf a) - Amount (stakeOf b)"
  by (simp add: ledger_al_set cache_ok_def)

text \<open>Writing the cache back.\<close>

lemma flush: "store_ok s \<Longrightarrow> cache_ok s m \<Longrightarrow> store_ok (fold (\<lambda>e. put (snd e)) m s)
    \<and> stakes (fold (\<lambda>e. put (snd e)) m s) = ledger s m
    \<and> (\<forall>x. find (fold (\<lambda>e. put (snd e)) m s) x
         = (case map_of m x of None \<Rightarrow> find s x | Some a \<Rightarrow> Some (stored a)))"
proof (induction m arbitrary: s)
  case Nil
  then show ?case by (simp add: ledger_def pending_def)
next
  case (Cons e m)
  obtain k a where e: "e = (k, a)" by (cases e)
  have k: "addr a = k" "k \<notin> fst ` set m" "cache_ok s m"
    using Cons.prems(2) e by (auto simp: cache_ok_def)
  have "ledger (put a s) m = ledger s (e # m)"
    using k pending_put_other [of a m s] Cons.prems(1) e
    by (simp add: ledger_def stakes_put_at) (simp add: pending_def)
  moreover have "map_of m k = None" using k(2) by (simp add: map_of_eq_None_iff)
  ultimately show ?case
    using Cons.IH [OF store_ok_put [OF Cons.prems(1), of a] cache_ok_put [OF k(3), of a]] k e
    by (auto simp: find_put split: option.splits)
qed

end

lemma SetDehydrated_store:
  "SupplierStore (SetDehydratedSupplier s st)
    = kv_set (StringKey (OperatorAddress s)) (dehydrated s) (SupplierStore st)"
  by (simp add: SetDehydratedSupplier_def SupplierOperatorKey_def dehydrated_def)

interpretation dsups: actor_store SupplierStore SetDehydratedSupplier
    "\<lambda>s. RemoveSupplier (OperatorAddress s)" OperatorAddress Supplier_Stake dehydrated
  by unfold_locales (simp_all add: SetDehydrated_store RemoveSupplier_store)

end
