(* ===== verification/TokBooks.thy ===== *)
theory TokBooks
  imports TokLedger
begin

text \<open>
  The books of settling claims: every cache lookup and budget leaves them as they are; a settled claim
  changes the applications' ledger and the accumulated validator rewards by exactly what its result
  queues; a claim that fails can only have lowered the first and raised the second.
\<close>

section \<open>Steps that fail with their changes kept\<close>

lemma thenS_inv: "P (fst r) \<Longrightarrow> (\<And>s u. r = (s, Inr u) \<Longrightarrow> P s \<Longrightarrow> P (fst (f s))) \<Longrightarrow> P (fst (thenS r f))"
  by (cases "(r, f)" rule: thenS.cases) auto

lemma getS_inv: "P s \<Longrightarrow> (\<And>x. m = Inr x \<Longrightarrow> P (fst (f x))) \<Longrightarrow> P (fst (getS s m f))"
  by (cases m) auto

lemma on_ctx_inv: "P (put_ctx st (fst r)) \<Longrightarrow> (\<And>x sc. r = (sc, Inr x) \<Longrightarrow> P (put_ctx st sc)
    \<Longrightarrow> P (fst (f x (put_ctx st sc)))) \<Longrightarrow> P (fst (on_ctx st r f))"
  by (cases "(st, r, f)" rule: on_ctx.cases) auto

lemma on_ctx_Inr: "on_ctx st r f = (st', Inr y) \<longleftrightarrow> (\<exists>sc x. r = (sc, Inr x) \<and> f x (put_ctx st sc) = (st', Inr y))"
  by (cases "(st, r, f)" rule: on_ctx.cases) auto

section \<open>The books\<close>

definition app_ledger :: "settling \<Rightarrow> int" where
  "app_ledger st = aps.ledger (TCh_Apps (ST_Chain st)) (SC_Applications (ST_Ctx st))"

definition sup_ledger :: "settling \<Rightarrow> int" where
  "sup_ledger st = sups.ledger (TCh_Suppliers (ST_Chain st)) (SC_Suppliers (ST_Ctx st))"

definition accumulator_ok :: "(settlement_op_reason, int) kv \<Rightarrow> bool" where
  "accumulator_ok acc \<longleftrightarrow> kv_ok acc \<and> (\<forall>e \<in> set acc. 0 \<le> snd e \<and> fst e \<noteq> UNSPECIFIED)"

definition settling_ok :: "settling \<Rightarrow> bool" where
  "settling_ok st \<longleftrightarrow> aps.store_ok (TCh_Apps (ST_Chain st)) \<and> sups.store_ok (TCh_Suppliers (ST_Chain st))
     \<and> aps.cache_ok (TCh_Apps (ST_Chain st)) (SC_Applications (ST_Ctx st))
     \<and> sups.cache_ok (TCh_Suppliers (ST_Chain st)) (SC_Suppliers (ST_Ctx st))
     \<and> accumulator_ok (SC_Accumulator (ST_Ctx st)) \<and> proposer_shares_ok (SC_TokParams (ST_Ctx st))"

text \<open>The applications' ledger changes by \<open>a\<close>, the accumulated rewards by \<open>k\<close>, nothing else.\<close>

definition books :: "int \<Rightarrow> int \<Rightarrow> settling \<Rightarrow> settling \<Rightarrow> bool" where
  "books a k st st' \<longleftrightarrow> settling_ok st' \<and> app_ledger st' = app_ledger st + a
     \<and> acc_total (SC_Accumulator (ST_Ctx st')) = acc_total (SC_Accumulator (ST_Ctx st)) + k
     \<and> sup_ledger st' = sup_ledger st \<and> TCh_Bank (ST_Chain st') = TCh_Bank (ST_Chain st)"

lemma books_refl: "settling_ok st \<Longrightarrow> books 0 0 st st"
  by (simp add: books_def)

lemma books_trans: "books a k st st' \<Longrightarrow> books a' k' st' st'' \<Longrightarrow> books (a + a') (k + k') st st''"
  by (simp add: books_def)

section \<open>Quiet steps\<close>

text \<open>Parts of the context that the books do not look at.\<close>

lemma books_other_fields:
  "books a k st (put_ctx st' (sc\<lparr>SC_Services := x\<rparr>)) = books a k st (put_ctx st' sc)"
  "books a k st (put_ctx st' (sc\<lparr>SC_Difficulties := y, SC_ComputeUnitsPerRelay := z\<rparr>)) = books a k st (put_ctx st' sc)"
  "books a k st (put_ctx st' (sc\<lparr>SC_Budgets := b\<rparr>)) = books a k st (put_ctx st' sc)"
  by (simp_all add: books_def put_ctx_def settling_ok_def app_ledger_def sup_ledger_def)

lemma books_emit: "books a k st (st'\<lparr>ST_Chain := emit evs (ST_Chain st')\<rparr>) = books a k st st'"
  by (simp add: books_def emit_def settling_ok_def app_ledger_def sup_ledger_def)

lemma books_proofs: "books a k st (st'\<lparr>ST_Chain := (ST_Chain st')\<lparr>TCh_Proofs := ps\<rparr>\<rparr>) = books a k st st'"
  by (simp add: books_def settling_ok_def app_ledger_def sup_ledger_def)

lemma put_ctx_simps [simp]: "ST_Chain (put_ctx st sc) = ST_Chain st" "ST_Ctx (put_ctx st sc) = sc"
  "put_ctx (put_ctx st sc) sc' = put_ctx st sc'" "put_ctx st (ST_Ctx st) = st"
  by (simp_all add: put_ctx_def)

lemma cacheService_quiet:
  "books a k st (put_ctx st' sc) \<Longrightarrow> books a k st (put_ctx st' (fst (cacheService ch sid sc)))"
  by (auto simp: cacheService_def books_other_fields split: option.split)

lemma cacheServiceAndDifficulty_quiet:
  assumes "books a k st (put_ctx st' sc)"
  shows "books a k st (put_ctx st' (fst (cacheServiceAndDifficulty ch sid h sc)))"
proof -
  let ?P = "\<lambda>sc. books a k st (put_ctx st' sc)"
  have 1: "?P (fst (cacheService ch sid sc))" by (rule cacheService_quiet [OF assms])
  show ?thesis
    unfolding cacheServiceAndDifficulty_def Let_def
    by (auto simp: assms books_other_fields split: option.split intro!: thenS_inv [where P = ?P]
        getS_inv [where P = ?P] 1)
qed

lemma cacheApplication_quiet:
  assumes "books a k st (put_ctx st' sc)"
  shows "books a k st (put_ctx st' (fst (cacheApplication (ST_Chain st') addr sc)))"
proof (cases "map_of (SC_Applications sc) addr = None \<and> GetApplication (TCh_Apps (ST_Chain st')) addr \<noteq> None")
  case True
  then obtain x where new: "map_of (SC_Applications sc) addr = None"
    and x: "aps.find (TCh_Apps (ST_Chain st')) addr = Some x"
    by (auto simp: GetApplication_find)
  have ok: "aps.store_ok (TCh_Apps (ST_Chain st'))"
    "aps.cache_ok (TCh_Apps (ST_Chain st')) (SC_Applications sc)"
    using assms by (simp_all add: books_def settling_ok_def)
  have "aps.cache_ok (TCh_Apps (ST_Chain st')) (al_set addr x (SC_Applications sc))"
    using aps.cache_ok_al_set [OF ok(2) aps.find_addr [OF ok(1) x]] x by simp
  then show ?thesis
    using assms new x aps.ledger_read [OF ok(2) new x, of x]
    by (simp add: cacheApplication_def GetApplication_find books_def settling_ok_def app_ledger_def sup_ledger_def)
next
  case False
  then show ?thesis using assms by (auto simp: cacheApplication_def split: option.split)
qed

lemma cacheSupplier_quiet:
  assumes "books a k st (put_ctx st' sc)"
  shows "books a k st (put_ctx st' (fst (cacheSupplier h (ST_Chain st') addr sid sc)))"
proof -
  let ?S = "TCh_Suppliers (ST_Chain st')"
  have ok: "sups.store_ok ?S" "sups.cache_ok ?S (SC_Suppliers sc)"
    using assms by (simp_all add: books_def settling_ok_def)
  have set: "books a k st (put_ctx st' (sc\<lparr>SC_Suppliers := al_set addr s (SC_Suppliers sc)\<rparr>))"
    if "sups.cache_ok ?S (al_set addr s (SC_Suppliers sc))"
      and "sups.ledger ?S (al_set addr s (SC_Suppliers sc)) = sups.ledger ?S (SC_Suppliers sc)" for s
    using that assms by (simp add: books_def settling_ok_def app_ledger_def sup_ledger_def)
  show ?thesis
  proof (cases "map_of (SC_Suppliers sc) addr")
    case None
    show ?thesis
    proof (cases "sups.find ?S addr")
      case None
      then show ?thesis
        using \<open>map_of (SC_Suppliers sc) addr = None\<close> assms
        by (simp add: cacheSupplier_def GetDehydratedSupplier_find)
    next
      case (Some s)
      let ?s = "s\<lparr>Services := GetSupplierActiveServiceConfig ?S h s sid\<rparr>"
      have "sups.ledger ?S (al_set addr ?s (SC_Suppliers sc)) = sups.ledger ?S (SC_Suppliers sc)"
        by (rule sups.ledger_read [OF ok(2) None Some]) simp
      moreover have "sups.cache_ok ?S (al_set addr ?s (SC_Suppliers sc))"
        using sups.cache_ok_al_set [OF ok(2), of ?s addr] sups.find_addr [OF ok(1) Some] Some by simp
      ultimately show ?thesis
        using None Some set by (simp add: cacheSupplier_def GetDehydratedSupplier_find)
    qed
  next
    case (Some s)
    let ?s = "cacheSupplierServiceConfig h (ST_Chain st') s sid"
    have same: "Supplier_Stake ?s = Supplier_Stake s" "OperatorAddress ?s = OperatorAddress s"
      by (simp_all add: cacheSupplierServiceConfig_def)
    have "sups.ledger ?S (al_set addr ?s (SC_Suppliers sc)) = sups.ledger ?S (SC_Suppliers sc)"
      using sups.ledger_replace [OF ok(2) Some, of ?s] same by simp
    moreover have "sups.cache_ok ?S (al_set addr ?s (SC_Suppliers sc))"
      using sups.cache_ok_al_set [OF ok(2), of ?s addr] sups.cache_addr [OF ok(2) Some] same by simp
    ultimately show ?thesis using Some set by (simp add: cacheSupplier_def)
  qed
qed

lemma ClaimCacheWarmUp_quiet:
  assumes "books a k st (put_ctx st' sc)"
  shows "books a k st (put_ctx st' (fst (ClaimCacheWarmUp h (ST_Chain st') c sc)))"
proof (cases "Claim_SessionHeader c")
  case None
  then show ?thesis using assms by (simp add: ClaimCacheWarmUp_def)
next
  case (Some sh)
  let ?P = "\<lambda>sc. books a k st (put_ctx st' sc)"
  show ?thesis
    unfolding ClaimCacheWarmUp_def Some option.case
    by (intro thenS_inv [where P = ?P] cacheServiceAndDifficulty_quiet assms)
      (auto intro!: thenS_inv [where P = ?P] cacheApplication_quiet cacheSupplier_quiet)
qed

text \<open>A session's budget is all that is added.\<close>

lemma getOrInitSessionBudget_context: "\<exists>b. fst (getOrInitSessionBudget ch appAddr sid h sc) = sc\<lparr>SC_Budgets := b\<rparr>"
proof -
  let ?P = "\<lambda>sc'. \<exists>b. sc' = sc\<lparr>SC_Budgets := b\<rparr>"
  have self: "?P sc" by (rule exI [of _ "SC_Budgets sc"]) simp
  show ?thesis
    unfolding getOrInitSessionBudget_def Let_def
    by (auto simp: self split: option.split intro!: getS_inv [where P = ?P])
qed

section \<open>Modules that fail\<close>

text \<open>Whether it fails or not, a module may only lower the application's stake and raise the
  accumulated rewards.\<close>

definition drift :: "tlm_state \<Rightarrow> tlm_state \<Rightarrow> bool" where
  "drift ts ts' \<longleftrightarrow> accumulator_ok (TS_Accumulator ts')
     \<and> acc_total (TS_Accumulator ts) \<le> acc_total (TS_Accumulator ts')
     \<and> (\<exists>k. TS_Application ts' = (TS_Application ts)\<lparr>App_Stake := k\<rparr>
          \<and> Amount k \<le> Amount (App_Stake (TS_Application ts)))"

lemma drift_refl: "accumulator_ok (TS_Accumulator ts) \<Longrightarrow> drift ts ts"
  by (auto simp: drift_def intro: exI [of _ "App_Stake (TS_Application ts)"])

lemma drift_other_fields [simp]: "drift ts (on_result f ts') = drift ts ts'"
  "drift ts (ts'\<lparr>TS_Result := r, TS_Events := evs\<rparr>) = drift ts ts'"
  "drift ts (ts'\<lparr>TS_Events := evs\<rparr>) = drift ts ts'" "drift ts (ts'\<lparr>TS_Result := r\<rparr>) = drift ts ts'"
  by (simp_all add: drift_def on_result_def)

lemma application_on_result [simp]: "TS_Application (on_result f ts) = TS_Application ts"
  by (simp add: on_result_def)

lemma drift_stake:
  assumes "drift ts ts'" and "Amount c \<le> Amount (App_Stake (TS_Application ts'))"
  shows "drift ts (ts'\<lparr>TS_Application := (TS_Application ts')\<lparr>App_Stake := c\<rparr>\<rparr>)"
proof -
  obtain k where k: "TS_Application ts' = (TS_Application ts)\<lparr>App_Stake := k\<rparr>"
    "Amount k \<le> Amount (App_Stake (TS_Application ts))"
    using assms(1) unfolding drift_def by blast
  then have "(TS_Application ts')\<lparr>App_Stake := c\<rparr> = (TS_Application ts)\<lparr>App_Stake := c\<rparr>"
    "Amount c \<le> Amount (App_Stake (TS_Application ts))"
    using assms(2) by simp_all
  then show ?thesis using assms(1) unfolding drift_def by auto
qed

lemma send_to_account_drift: "drift ts ts' \<Longrightarrow> drift ts (fst (send_to_account op a n ts'))"
  by (auto simp: send_to_account_def intro!: getS_inv [where P = "drift ts"])

lemma send_to_supplier_drift: "drift ts ts' \<Longrightarrow> drift ts (fst (send_to_supplier mop sop s sid n ts'))"
  by (auto simp: send_to_supplier_def Let_def split: prod.split intro!: getS_inv [where P = "drift ts"])

lemma accumulate_drift:
  assumes "drift ts ts'" and "0 \<le> n" and "op \<noteq> UNSPECIFIED"
  shows "drift ts (fst (accumulate_proposer op n ts'))"
proof (cases "n = 0")
  case True
  then show ?thesis using assms(1) by (simp add: accumulate_proposer_def)
next
  case False
  let ?ts = "ts'\<lparr>TS_Result := NewClaimSettlementResult zero_claim\<rparr>"
  have acc: "accumulator_ok (TS_Accumulator ts')" using assms(1) by (simp add: drift_def)
  obtain ts'' where run: "accumulate_proposer op n ?ts = (ts'', Inr ())"
    using False by (simp add: accumulate_proposer_def)
  have ok: "tlm_ok ?ts" using acc by (simp add: tlm_ok_def accumulator_ok_def)
  have m: "moves n ?ts ts''" by (rule accumulate_moves [OF run assms(2,3)])
  have same: "TS_Accumulator (fst (accumulate_proposer op n ts')) = TS_Accumulator ts''"
    "TS_Application (fst (accumulate_proposer op n ts')) = TS_Application ts'"
    "TS_Result ts'' = TS_Result ?ts"
    using run False by (auto simp: accumulate_proposer_def accumulateValidatorReward_def)
  have "accumulator_ok (TS_Accumulator ts'')"
    "acc_total (TS_Accumulator ts'') = acc_total (TS_Accumulator ts') + n"
    using m ok same(3) by (simp_all add: moves_def tlm_ok_def accumulator_ok_def tokenomics_balance_def)
  then show ?thesis using assms(1,2) same by (simp add: drift_def)
qed

text \<open>What a module allocates is not negative.\<close>

lemma split_proposer: "0 \<le> n \<Longrightarrow> 0 \<le> b \<Longrightarrow> 0 \<le> SP_Proposer (split_of n a b c d)"
  by (simp add: split_of_def Let_def calculateAllocationAmount_nonneg)

lemma RelayBurnEqualsMint_drift:
  assumes sdk: "sdk_ok sdk" and acc: "drift ts0 ts" and n: "0 \<le> Amount (TC_SettlementCoin tc)"
    and p: "proposer_shares_ok (TC_Params tc)"
  shows "drift ts0 (fst (RelayBurnEqualsMint_Process sdk tc ts))"
proof -
  let ?P = "drift ts0"
  have stake: "?P ((on_result f ts)\<lparr>TS_Application := (TS_Application ts)\<lparr>App_Stake := k\<rparr>\<rparr>)"
    if "coinSafeSub sdk (App_Stake (TS_Application ts)) (TC_SettlementCoin tc) = Inr k" for f k
    using drift_stake [of ts0 "on_result f ts" k] acc n sdk_okD(3) [OF sdk that] by simp
  have burn: "?P (fst (processApplicationBurn sdk tc ts))"
    using acc stake by (auto simp: processApplicationBurn_def Let_def split: sum.split go_error.split)
  have mint: "?P (fst (processTokenomicsMint tc ts1))" if "?P ts1" for ts1
    using that by (auto simp: processTokenomicsMint_def Let_def intro!: getS_inv [where P = ?P])
  have share: "0 \<le> SP_Proposer (split_of (mint_amount (Amount (TC_SettlementCoin tc)) r) a b c d)"
    if "rat_param (MintRatio (TC_Params tc)) = Inr r"
      and "rat_param (Alloc_Proposer (MintEqualsBurnClaimDistribution (TC_Params tc))) = Inr b" for r a b c d
    using that p n by (intro split_proposer)
      (auto simp: mint_amount_def proposer_shares_ok_def dest!: rat_param_nonneg intro!: rat_quo_ge_zero)
  have dist: "?P (fst (processRewardDistribution tc ts1))" if "?P ts1" for ts1
    unfolding processRewardDistribution_def Let_def
    by (intro getS_inv [where P = ?P] that thenS_inv [where P = ?P] send_to_supplier_drift
        accumulate_drift send_to_account_drift share) (simp_all split: if_split)
  show ?thesis
    unfolding RelayBurnEqualsMint_Process_def
    by (intro thenS_inv [where P = ?P] burn mint dist)
qed

lemma GlobalMint_drift:
  assumes acc: "drift ts0 ts" and p: "proposer_shares_ok (TC_Params tc)"
  shows "drift ts0 (fst (GlobalMint_Process tc ts))"
proof -
  let ?P = "drift ts0"
  have share: "0 \<le> SP_Proposer (split_of (Amount c) a b d e)"
    if "0 \<le> Amount c" and "rat_param (Alloc_Proposer (MintAllocationPercentages (TC_Params tc))) = Inr b" for a b c d e
    using that p by (intro split_proposer) (auto simp: proposer_shares_ok_def dest!: rat_param_nonneg)
  have dist: "?P (fst (processMintDistribution tc c ts1))" if "?P ts1" "0 \<le> Amount c" for c ts1
    unfolding processMintDistribution_def Let_def
    by (intro getS_inv [where P = ?P] that thenS_inv [where P = ?P] send_to_supplier_drift
        accumulate_drift send_to_account_drift share) (simp_all split: if_split)
  have mint: "?P (fst (processInflationMint tc ts))"
    using acc by (auto simp: processInflationMint_def Let_def intro!: getS_inv [where P = ?P])
  have "0 \<le> Amount c" if "processInflationMint tc ts = (ts1, Inr c)" for ts1 c
    using that by (auto simp: processInflationMint_def Let_def res_simps upokt_def
        dest: inflation_amount(2) split: if_splits)
  then show ?thesis
    using mint dist by (auto simp: GlobalMint_Process_def split: prod.splits sum.splits)
qed

lemma GlobalMintReimbursementRequest_drift:
  assumes sdk: "sdk_ok sdk" and acc: "drift ts0 ts"
  shows "drift ts0 (fst (GlobalMintReimbursementRequest_Process sdk tc ts))"
proof -
  let ?P = "drift ts0"
  have stake: "?P (ts\<lparr>TS_Application := (TS_Application ts)\<lparr>App_Stake := k\<rparr>\<rparr>)"
    if "CalculateGlobalPerClaimMintInflationFromSettlementAmount (TC_SettlementCoin tc) r = Inr c"
      and "coinSafeSub sdk (App_Stake (TS_Application ts)) c = Inr k" for r c k
    using sdk_okD(3) [OF sdk that(2)] inflation_amount(2) [OF that(1)] by (intro drift_stake acc) simp
  show ?thesis
    using acc stake
    by (auto simp: GlobalMintReimbursementRequest_Process_def Let_def intro!: getS_inv [where P = ?P])
qed

lemma run_modules_drift:
  assumes "sdk_ok sdk" and "0 \<le> Amount (TC_SettlementCoin tc)" and "proposer_shares_ok (TC_Params tc)"
  shows "drift ts0 ts \<Longrightarrow> drift ts0 (fst (run_modules sdk tc ms ts))"
proof (induction ms arbitrary: ts)
  case Nil
  then show ?case by simp
next
  case (Cons m ms)
  have "drift ts0 (fst (TLM_Process sdk tc m ts))"
    using Cons.prems assms
    by (cases m) (auto intro: RelayBurnEqualsMint_drift GlobalMint_drift GlobalMintReimbursementRequest_drift)
  then have "drift ts0 (fst (wrapTLM (TLM_Process sdk tc m ts)))"
    by (cases "TLM_Process sdk tc m ts") simp
  then show ?case using Cons.IH by (auto intro!: thenS_inv [where P = "drift ts0"])
qed

end
