(* ===== verification/TokSettling.thy ===== *)
theory TokSettling
  imports TokBooks
begin

text \<open>
  Settling a claim and settling all of them: every outcome of a claim is booked, and so, by induction
  over the claims, is everything a block collects.
\<close>

section \<open>Outcomes\<close>

definition loses :: "settling \<Rightarrow> settling \<Rightarrow> bool" where
  "loses st st' \<longleftrightarrow> (\<exists>x k. x \<le> 0 \<and> 0 \<le> k \<and> books x k st st')"

definition booked :: "claim \<Rightarrow> claim_settlement_result \<Rightarrow> settling \<Rightarrow> settling \<Rightarrow> bool" where
  "booked c r st st' \<longleftrightarrow> books (result_inflow Application_ModuleName r) (result_inflow Tokenomics_ModuleName r) st st'
     \<and> result_inflow Application_ModuleName r \<le> 0 \<and> 0 \<le> result_inflow Tokenomics_ModuleName r
     \<and> result_inflow Supplier_ModuleName r = 0 \<and> SR_Claim r = c"

text \<open>What is booked for a claim that succeeds, and what a claim that fails leaves.\<close>

fun outcome_ok :: "('a \<Rightarrow> claim_settlement_result) \<Rightarrow> claim \<Rightarrow> settling \<Rightarrow> (settling, 'a) step \<Rightarrow> bool" where
  "outcome_ok result c st (st', Inl e) = loses st st'"
| "outcome_ok result c st (st', Inr y) = booked c (result y) st st'"

lemma getS_outcome: "(\<And>e. Q (s, Inl e)) \<Longrightarrow> (\<And>x. m = Inr x \<Longrightarrow> Q (f x)) \<Longrightarrow> Q (getS s m f)"
  by (cases m) auto

lemma on_ctx_outcome: "(\<And>e. Q (put_ctx st (fst r), Inl e))
    \<Longrightarrow> (\<And>sc x. r = (sc, Inr x) \<Longrightarrow> Q (f x (put_ctx st sc))) \<Longrightarrow> Q (on_ctx st r f)"
  by (cases "(st, r, f)" rule: on_ctx.cases) auto

lemma loses_books: "books 0 0 st st' \<Longrightarrow> loses st st'"
  unfolding loses_def by (intro exI [of _ 0]) simp

lemma booked_new: "books 0 0 st st' \<Longrightarrow> booked c (NewClaimSettlementResult c) st st'"
  by (simp add: booked_def) (simp add: NewClaimSettlementResult_def)

lemma booked_loses: "booked c r st st' \<Longrightarrow> loses st st'"
  unfolding booked_def loses_def by blast

lemma booked_emit: "booked c r st (st'\<lparr>ST_Chain := emit evs (ST_Chain st')\<rparr>) = booked c r st st'"
  by (simp add: booked_def books_emit)

lemma loses_trans: "books 0 0 st st' \<Longrightarrow> loses st' st'' \<Longrightarrow> loses st st''"
  unfolding loses_def using books_trans [of 0 0 st st'] by force

lemma booked_trans: "books 0 0 st st' \<Longrightarrow> booked c r st' st'' \<Longrightarrow> booked c r st st''"
  unfolding booked_def using books_trans [of 0 0 st st'] by force

lemma outcome_trans: "books 0 0 st st' \<Longrightarrow> outcome_ok res c st' r \<Longrightarrow> outcome_ok res c st r"
  by (cases "(res, c, st', r)" rule: outcome_ok.cases) (auto intro: loses_trans booked_trans)

section \<open>Writing the application back\<close>

lemma store_books:
  assumes ok: "settling_ok st" and a: "map_of (SC_Applications (ST_Ctx st)) addr = Some a"
    and app: "TS_Application ts = a\<lparr>App_Stake := k\<rparr>" and acc: "accumulator_ok (TS_Accumulator ts)"
  shows "books (Amount k - Amount (App_Stake a))
    (acc_total (TS_Accumulator ts) - acc_total (SC_Accumulator (ST_Ctx st))) st (store_tlm_state addr ts st)"
proof -
  let ?S = "TCh_Apps (ST_Chain st)" and ?m = "SC_Applications (ST_Ctx st)"
  have c: "aps.cache_ok ?S ?m" using ok by (simp add: settling_ok_def)
  have "aps.cache_ok ?S (al_set addr (TS_Application ts) ?m)"
    using aps.cache_ok_al_set [OF c, of "TS_Application ts" addr] aps.cache_addr [OF c a] app by simp
  moreover have "aps.ledger ?S (al_set addr (TS_Application ts) ?m)
      = aps.ledger ?S ?m + Amount k - Amount (App_Stake a)"
    using aps.ledger_replace [OF c a, of "TS_Application ts"] app by simp
  ultimately show ?thesis using ok acc
    by (simp add: books_def settling_ok_def store_tlm_state_def app_ledger_def sup_ledger_def emit_def)
qed

lemma unbond_quiet:
  assumes ok: "settling_ok st" and a: "map_of (SC_Applications (ST_Ctx st)) addr = Some a"
  shows "books 0 0 st (fst (unbond_below_min_stake env addr a st))"
proof -
  let ?S = "TCh_Apps (ST_Chain st)" and ?m = "SC_Applications (ST_Ctx st)"
  have s: "aps.store_ok ?S" and c: "aps.cache_ok ?S ?m" using ok by (simp_all add: settling_ok_def)
  have put: "aps.store_ok (SetApplication b ?S)" "aps.cache_ok (SetApplication b ?S) (al_set addr b ?m)"
    "aps.ledger (SetApplication b ?S) (al_set addr b ?m) = aps.ledger ?S ?m"
    if "App_Address b = App_Address a" "App_Stake b = App_Stake a" for b
  proof -
    have c': "aps.cache_ok ?S (al_set addr b ?m)"
      using aps.cache_ok_al_set [OF c, of b addr] aps.cache_addr [OF c a] that by simp
    have "App_Address b \<in> fst ` set (al_set addr b ?m)"
      using aps.cache_addr [OF c a] that keys_al_set [of addr b ?m] by (auto simp: image_iff simp flip: set_map)
    then show "aps.ledger (SetApplication b ?S) (al_set addr b ?m) = aps.ledger ?S ?m"
      using aps.ledger_put [OF s c'] aps.ledger_replace [OF c a, of b] that by simp
    show "aps.store_ok (SetApplication b ?S)" by (rule aps.store_ok_put [OF s])
    show "aps.cache_ok (SetApplication b ?S) (al_set addr b ?m)" by (rule aps.cache_ok_put [OF c'])
  qed
  have "books 0 0 st \<lparr>ST_Chain = emit evs ((ST_Chain st)\<lparr>TCh_Apps := SetApplication b ?S\<rparr>),
      ST_Ctx = (ST_Ctx st)\<lparr>SC_Applications := al_set addr b ?m\<rparr>\<rparr>"
    if "App_Address b = App_Address a" "App_Stake b = App_Stake a" for b evs
    using ok put [OF that] by (simp add: books_def settling_ok_def app_ledger_def sup_ledger_def emit_def)
  then show ?thesis
    unfolding unbond_below_min_stake_def Let_def
    by (intro getS_inv [where P = "books 0 0 st"] books_refl ok) (simp add: books_refl ok)
qed

section \<open>One claim\<close>

lemma run_on_claim_outcome:
  assumes ok: "settling_ok st" and sdk: "sdk_ok (TE_Sdk env)"
    and a: "map_of (SC_Applications (ST_Ctx st)) (SH_ApplicationAddress sh) = Some a"
    and coin: "Denom coin = DenomuPOKT" "0 \<le> Amount coin"
  shows "outcome_ok snd c st (run_on_claim env (NewClaimSettlementResult c) sh coin service a s st)"
proof (cases "Amount coin = 0")
  case True
  then show ?thesis using ok by (simp add: run_on_claim_def booked_new books_refl)
next
  case False
  define ts0 where "ts0 = \<lparr>TS_Result = NewClaimSettlementResult c, TS_Application = a,
    TS_Accumulator = SC_Accumulator (ST_Ctx st), TS_Events = []\<rparr>"
  define tc where "tc = \<lparr>TC_Params = SC_TokParams (ST_Ctx st), TC_SettlementCoin = coin,
    TC_SessionHeader = sh, TC_Service = service, TC_Supplier = s\<rparr>"
  obtain ts r where run: "run_modules (TE_Sdk env) tc (TE_TLMs env) ts0 = (ts, r)"
    by (cases "run_modules (TE_Sdk env) tc (TE_TLMs env) ts0")
  let ?st1 = "store_tlm_state (SH_ApplicationAddress sh) ts st"
  have acc: "accumulator_ok (SC_Accumulator (ST_Ctx st))" and p: "proposer_shares_ok (SC_TokParams (ST_Ctx st))"
    using ok by (simp_all add: settling_ok_def)
  have tlm: "tlm_ok ts0" using acc by (simp add: ts0_def tlm_ok_def accumulator_ok_def)
  have c: "coin_ok coin" using coin False by (simp add: coin_ok_def)
  have "drift ts0 ts"
    using run_modules_drift [OF sdk, of tc ts0 ts0 "TE_TLMs env"] drift_refl [of ts0] acc p coin run
    by (simp add: tc_def ts0_def)
  then obtain k where k: "TS_Application ts = a\<lparr>App_Stake := k\<rparr>" "Amount k \<le> Amount (App_Stake a)"
    and t: "accumulator_ok (TS_Accumulator ts)"
      "acc_total (SC_Accumulator (ST_Ctx st)) \<le> acc_total (TS_Accumulator ts)"
    by (auto simp: drift_def ts0_def)
  note st1 = store_books [OF ok a k(1) t(1)]
  show ?thesis
  proof (cases r)
    case (Inl e)
    have "loses st ?st1"
      unfolding loses_def using k(2) t(2) by (intro exI conjI, rule_tac [3] st1) simp_all
    then show ?thesis
      using False run Inl by (simp add: run_on_claim_def tc_def ts0_def Let_def)
  next
    case (Inr u)
    have b: "balanced ts0 ts"
      using run_modules_balanced [OF _ sdk tlm] run Inr c p by (simp add: tc_def)
    have d: "Amount k - Amount (App_Stake a) = result_inflow Application_ModuleName (TS_Result ts)"
      "acc_total (TS_Accumulator ts) - acc_total (SC_Accumulator (ST_Ctx st))
        = result_inflow Tokenomics_ModuleName (TS_Result ts)"
      using b k by (simp_all add: balanced_def application_balance_def tokenomics_balance_def ts0_def)
    have a1: "map_of (SC_Applications (ST_Ctx ?st1)) (SH_ApplicationAddress sh) = Some (TS_Application ts)"
      by (simp add: store_tlm_state_def)
    obtain st2 q where u: "unbond_below_min_stake env (SH_ApplicationAddress sh) (TS_Application ts) ?st1 = (st2, q)"
      by (cases "unbond_below_min_stake env (SH_ApplicationAddress sh) (TS_Application ts) ?st1")
    have "books 0 0 ?st1 st2"
      using unbond_quiet [OF _ a1, of env] st1 u by (simp add: books_def)
    from books_trans [OF st1 this] have st2: "books (Amount k - Amount (App_Stake a))
      (acc_total (TS_Accumulator ts) - acc_total (SC_Accumulator (ST_Ctx st))) st st2" by simp
    have "booked c (TS_Result ts) st st2"
      using st2 d b k(2) t(2) by (simp add: booked_def balanced_def supplier_balance_def ts0_def)
        (simp add: NewClaimSettlementResult_def)
    moreover have "loses st st2"
      unfolding loses_def using k(2) t(2) by (intro exI conjI, rule_tac [3] st2) simp_all
    ultimately show ?thesis using False run Inr u
      by (cases q) (auto simp: run_on_claim_def tc_def ts0_def Let_def)
  qed
qed

lemma ensureClaimAmountLimits_coin:
  assumes "ensureClaimAmountLimits params a s c sb r sid h = Inr (evs, c')"
    and "Denom c = DenomuPOKT" and "0 \<le> Amount c"
  shows "Denom c' = DenomuPOKT" and "0 \<le> Amount c'"
  using assms by (auto simp: ensureClaimAmountLimits_def Let_def res_simps NewCoin_Inr split: if_splits)

lemma GetClaimeduPOKT_coin:
  assumes "GetClaimeduPOKT ext c p d = Inr coin" shows "Denom coin = DenomuPOKT" and "0 \<le> Amount coin"
  using assms by (auto simp: GetClaimeduPOKT_def Let_def res_simps split: if_splits prod.splits)

lemma ProcessTokenLogicModules_outcome:
  assumes ok: "settling_ok st" and sdk: "sdk_ok (TE_Sdk env)"
  shows "outcome_ok snd c st (ProcessTokenLogicModules env (NewClaimSettlementResult c) st)"
proof -
  let ?Q = "outcome_ok snd c st"
  have fail: "?Q (st', Inl e)" if "books 0 0 st st'" for st' e
    using that by (simp add: loses_books)
  have self: "books 0 0 st st" by (rule books_refl [OF ok])
  have budget: "books 0 0 st (put_ctx st (fst (getOrInitSessionBudget ch x sid h (ST_Ctx st))))" for ch x sid h
    using getOrInitSessionBudget_context [of ch x sid h "ST_Ctx st"] self
    by (auto simp: books_other_fields)
  have budget': "loses st (put_ctx st sc)" if "getOrInitSessionBudget ch x sid h (ST_Ctx st) = (sc, Inr sb)"
    for ch x sid h sc sb using budget [of ch x sid h] that by (simp add: loses_books)
  have claim: "SR_Claim (NewClaimSettlementResult c) = c" by (simp add: NewClaimSettlementResult_def)
  have run: "?Q (run_on_claim env (NewClaimSettlementResult c) sh coin service a s
      ((put_ctx st sc)\<lparr>ST_Chain := emit evs (ST_Chain st)\<rparr>))"
    if sc: "getOrInitSessionBudget ch (SH_ApplicationAddress sh) sid h (ST_Ctx st) = (sc, Inr sb)"
      and a: "map_of (SC_Applications (ST_Ctx st)) (SH_ApplicationAddress sh) = Some a"
      and coin: "GetClaimeduPOKT ext c p d = Inr claimed"
        "ensureClaimAmountLimits params a' s' claimed sb' r sid' h' = Inr (evs, coin)"
    for sh sid h sc sb a coin service s ch evs ext p d claimed params a' s' sb' r sid' h'
  proof -
    have coin': "Denom coin = DenomuPOKT" "0 \<le> Amount coin"
      using ensureClaimAmountLimits_coin [OF coin(2)] GetClaimeduPOKT_coin [OF coin(1)] by simp_all
    let ?st = "(put_ctx st sc)\<lparr>ST_Chain := emit evs (ST_Chain (put_ctx st sc))\<rparr>"
    have b: "books 0 0 st ?st"
      using budget [of ch "SH_ApplicationAddress sh" sid h] sc unfolding books_emit by simp
    have "SC_Applications sc = SC_Applications (ST_Ctx st)"
      using getOrInitSessionBudget_context [of ch "SH_ApplicationAddress sh" sid h "ST_Ctx st"] sc by auto
    then have a': "map_of (SC_Applications (ST_Ctx ?st)) (SH_ApplicationAddress sh) = Some a"
      using a by simp
    have "settling_ok ?st" using b by (simp add: books_def)
    from outcome_trans [OF b run_on_claim_outcome [OF this sdk a' coin', of c service s]] show ?thesis
      by simp
  qed
  show ?thesis
    unfolding ProcessTokenLogicModules_def Let_def claim
    by (intro getS_outcome [where Q = ?Q] fail self)
      (auto simp: res_simps Ctx_GetApplication_def
        intro!: getS_outcome [where Q = ?Q] on_ctx_outcome [where Q = ?Q] loses_books [OF budget] loses_books [OF self],
        (rule budget', assumption)+, (rule run; assumption))
qed

lemma settleClaim_outcome:
  assumes ok: "settling_ok st" and sdk: "sdk_ok (TE_Sdk env)"
  shows "outcome_ok CS_SettlementResult c st (settleClaim env c st)"
proof -
  let ?Q = "outcome_ok CS_SettlementResult c st"
  have warm: "books 0 0 st (put_ctx st (fst (ClaimCacheWarmUp h (ST_Chain st) c (ST_Ctx st))))" for h
    using ClaimCacheWarmUp_quiet [of 0 0 st st "ST_Ctx st" h c] books_refl [OF ok] by simp
  have settle: "?Q (case ProcessTokenLogicModules env (NewClaimSettlementResult c) st1 of
      (st2, Inl e) \<Rightarrow> (st2, Inl e)
    | (st2, Inr (actualSettlementCoin, result)) \<Rightarrow>
        getS st2 (m1 st2) (\<lambda>s. getS st2 (m2 actualSettlementCoin result st2 s) (\<lambda>ev.
          (st2\<lparr>ST_Chain := emit [ev] (ST_Chain st2)\<rparr>,
           Inr \<lparr>CS_SettlementResult = result, CS_IsSettled = True, CS_NumClaimRelays = n,
                CS_NumClaimComputeUnits = k\<rparr>))))"
    if b: "books 0 0 st st1" for st1 m1 m2 n k
  proof -
    obtain st2 r where run: "ProcessTokenLogicModules env (NewClaimSettlementResult c) st1 = (st2, r)"
      by (cases "ProcessTokenLogicModules env (NewClaimSettlementResult c) st1")
    have "settling_ok st1" using b by (simp add: books_def)
    from ProcessTokenLogicModules_outcome [OF this sdk, of c]
    have out: "outcome_ok snd c st (st2, r)" using outcome_trans [OF b] run by simp
    show ?thesis
    proof (cases r)
      case (Inl e)
      then show ?thesis using out run by simp
    next
      case (Inr y)
      have bk: "booked c (snd y) st st2" using out Inr by simp
      then have "loses st st2" by (rule booked_loses)
      with bk show ?thesis
        using run Inr by (cases y) (auto simp: booked_emit intro!: getS_outcome [where Q = ?Q])
    qed
  qed
  obtain sc r where w: "ClaimCacheWarmUp (TE_Height env) (ST_Chain st) c (ST_Ctx st) = (sc, r)"
    by (cases "ClaimCacheWarmUp (TE_Height env) (ST_Chain st) c (ST_Ctx st)")
  have b: "books 0 0 st (put_ctx st sc)" using warm [of "TE_Height env"] w by simp
  show ?thesis
  proof (cases r)
    case (Inl e)
    then show ?thesis using w b by (simp add: settleClaim_def loses_books)
  next
    case (Inr u)
    have expired: "booked c (NewClaimSettlementResult c) st
        ((put_ctx st sc)\<lparr>ST_Chain := emit evs (ST_Chain st)\<rparr>)" for evs
      using booked_emit [where st' = "put_ctx st sc" and st = st] booked_new [OF b] by simp
    show ?thesis
      unfolding settleClaim_def Let_def w Inr on_ctx.simps
      by (intro getS_outcome [where Q = ?Q])
        (auto simp: loses_books [OF b] expired intro!: settle [OF b])
  qed
qed

section \<open>All claims\<close>

text \<open>What the settled results queue is booked; what the discarded claims left is a loss of the
  applications' ledger and a gain of the accumulated rewards.\<close>

definition progress_ok :: "settling \<Rightarrow> settlement_progress \<Rightarrow> bool" where
  "progress_ok st0 pr \<longleftrightarrow> results_inflow Supplier_ModuleName (PR_Settled pr) = 0
     \<and> (\<exists>x k. x \<le> 0 \<and> 0 \<le> k
        \<and> books (results_inflow Application_ModuleName (PR_Settled pr) + x)
            (results_inflow Tokenomics_ModuleName (PR_Settled pr) + k) st0 (PR_Settling pr)
        \<and> (PR_NumDiscarded pr = 0 \<longrightarrow> x = 0 \<and> k = 0))"

lemma settle_step_progress:
  assumes step: "settle_step env pr c = Inr pr'" and pr: "progress_ok st0 pr" and sdk: "sdk_ok (TE_Sdk env)"
  shows "progress_ok st0 pr'"
proof -
  obtain x k where xk: "x \<le> 0" "0 \<le> k" "PR_NumDiscarded pr = 0 \<longrightarrow> x = 0 \<and> k = 0"
    and b: "books (results_inflow Application_ModuleName (PR_Settled pr) + x)
      (results_inflow Tokenomics_ModuleName (PR_Settled pr) + k) st0 (PR_Settling pr)"
    and s: "results_inflow Supplier_ModuleName (PR_Settled pr) = 0"
    using pr unfolding progress_ok_def by (elim conjE exE, intro that) assumption+
  obtain st r where run: "settleClaim env c (PR_Settling pr) = (st, r)" by (cases "settleClaim env c (PR_Settling pr)")
  have "settling_ok (PR_Settling pr)" using b by (simp add: books_def)
  from settleClaim_outcome [OF this sdk, of c] run
  have out: "outcome_ok CS_SettlementResult c (PR_Settling pr) (st, r)" by simp
  show ?thesis
  proof (cases r)
    case (Inl e)
    then have e: "e \<noteq> Panic" using step run by (auto simp: settle_step_def)
    obtain evs ps where pr': "PR_Settling pr' = st\<lparr>ST_Chain := emit evs ((ST_Chain st)\<lparr>TCh_Proofs := ps\<rparr>)\<rparr>"
      "PR_Settled pr' = PR_Settled pr" "PR_NumDiscarded pr' = PR_NumDiscarded pr + 1"
      using step run Inl e
      by (auto simp: settle_step_def discardFaultyClaim_def res_simps split: option.splits go_error.splits)
    obtain y j where y: "y \<le> 0" "0 \<le> j" "books y j (PR_Settling pr) st"
      using out Inl by (auto simp: loses_def)
    have "books (results_inflow Application_ModuleName (PR_Settled pr) + (x + y))
      (results_inflow Tokenomics_ModuleName (PR_Settled pr) + (k + j)) st0 (PR_Settling pr')"
      using books_trans [OF b y(3)] books_emit [where st = st0 and st' = "st\<lparr>ST_Chain := (ST_Chain st)\<lparr>TCh_Proofs := ps\<rparr>\<rparr>"]
        books_proofs [where st = st0 and st' = st] by (simp add: pr'(1) algebra_simps)
    then show ?thesis using s xk y(1,2) pr' unfolding progress_ok_def
      by (intro conjI exI [of _ "x + y"] exI [of _ "k + j"]) auto
  next
    case (Inr cs)
    obtain ps where pr': "PR_Settling pr' = st\<lparr>ST_Chain := (ST_Chain st)\<lparr>TCh_Proofs := ps\<rparr>\<rparr>"
      "PR_NumDiscarded pr' = PR_NumDiscarded pr"
      "PR_Settled pr' = PR_Settled pr @ (if CS_IsSettled cs then [CS_SettlementResult cs] else [])"
      using step run Inr by (auto simp: settle_step_def Let_def split: option.splits if_splits)
    have bk: "booked c (CS_SettlementResult cs) (PR_Settling pr) st" using out Inr by simp
    have "result_inflow m (CS_SettlementResult cs) = 0" if "\<not> CS_IsSettled cs" for m
      using run Inr that
      by (auto simp: settleClaim_def Let_def on_ctx_Inr res_simps split: if_splits prod.splits sum.splits)
    then have "results_inflow m (PR_Settled pr') = results_inflow m (PR_Settled pr) + result_inflow m (CS_SettlementResult cs)" for m
      using pr'(3) by simp
    moreover have "books (results_inflow Application_ModuleName (PR_Settled pr) + x + result_inflow Application_ModuleName (CS_SettlementResult cs))
      (results_inflow Tokenomics_ModuleName (PR_Settled pr) + k + result_inflow Tokenomics_ModuleName (CS_SettlementResult cs)) st0 (PR_Settling pr')"
      using books_trans [OF b] bk books_proofs [where st = st0 and st' = st] by (simp add: booked_def pr'(1))
    ultimately show ?thesis using s xk pr'(2) bk unfolding progress_ok_def
      by (intro conjI exI [of _ x] exI [of _ k]) (auto simp: booked_def algebra_simps)
  qed
qed

lemma foldR_inv: "foldR f s xs = Inr s' \<Longrightarrow> P s \<Longrightarrow> (\<And>s x s'. x \<in> set xs \<Longrightarrow> P s \<Longrightarrow> f s x = Inr s' \<Longrightarrow> P s') \<Longrightarrow> P s'"
proof (induction xs arbitrary: s)
  case Nil
  then show ?case by simp
next
  case (Cons x xs)
  obtain s1 where "f s x = Inr s1" "foldR f s1 xs = Inr s'" using Cons.prems(1) by (auto simp: res_simps)
  then show ?case using Cons.IH [of s1] Cons.prems(2,3) by auto
qed

text \<open>Before any claim is settled the ledgers are the stored stakes.\<close>

definition books_at_start :: "tok_chain \<Rightarrow> settlement_context \<Rightarrow> bool" where
  "books_at_start ch sc \<longleftrightarrow> books 0 0 \<lparr>ST_Chain = ch, ST_Ctx = NewSettlementContext ch\<rparr> \<lparr>ST_Chain = ch, ST_Ctx = sc\<rparr>"

lemma new_context_ok:
  assumes "aps.store_ok (TCh_Apps ch)" and "sups.store_ok (TCh_Suppliers ch)"
    and "proposer_shares_ok (Tok_GetParams (TCh_Tok ch))"
  shows "settling_ok \<lparr>ST_Chain = ch, ST_Ctx = NewSettlementContext ch\<rparr>"
  using assms by (simp add: settling_ok_def NewSettlementContext_def aps.cache_ok_Nil sups.cache_ok_Nil
      accumulator_ok_def)

lemma collect_claims_books:
  assumes "collect_claims ch h sc = Inr (cs, sc', n)" and "books_at_start ch sc"
  shows "books_at_start ch sc'"
proof -
  have "books_at_start ch (fst (snd (cs, sc', n)))"
    using assms(1) unfolding collect_claims_def
  proof (rule foldR_inv [where P = "\<lambda>(cs, sc, n). books_at_start ch sc", simplified split_beta])
    show "books_at_start ch (fst (snd ([], sc, 0)))" using assms(2) by simp
  next
    fix s x s'
    assume "books_at_start ch (fst (snd s))" and "collect_step (TCh_Shared ch) h s x = Inr s'"
    then show "books_at_start ch (fst (snd s'))"
      by (cases s; cases x)
        (auto simp: collect_step_def IncrementSupplierCount_def books_at_start_def books_def settling_ok_def
          app_ledger_def sup_ledger_def split: sum.splits if_splits option.splits)
  qed
  then show ?thesis by simp
qed

lemma budget_step_books:
  assumes "budget_step env ch sc c = Inr sc'" and "books_at_start ch sc"
  shows "books_at_start ch sc'"
proof -
  let ?st = "\<lparr>ST_Chain = ch, ST_Ctx = NewSettlementContext ch\<rparr>"
  let ?P = "\<lambda>sc. books 0 0 ?st (put_ctx ?st sc)"
  have budget: "?P (fst (getOrInitSessionBudget ch x sid h sc))" if "?P sc" for x sid h sc
    using getOrInitSessionBudget_context [of ch x sid h sc] that by (auto simp: books_other_fields)
  have acc: "?P (fst (AccumulateClaimBudget env ch c sc))" if "?P sc" for sc
    using that budget [OF that]
    by (auto simp: AccumulateClaimBudget_def books_other_fields split: option.split prod.split sum.split
        intro!: getS_inv [where P = ?P]) (metis fst_conv)+
  have "?P (fst (thenS (ClaimCacheWarmUp (TE_Height env) ch c sc) (AccumulateClaimBudget env ch c)))"
    using assms(2) ClaimCacheWarmUp_quiet [of 0 0 ?st ?st sc "TE_Height env" c]
    by (intro thenS_inv [where P = ?P] acc) (simp_all add: books_at_start_def put_ctx_def)
  then show ?thesis
    using assms(1) by (auto simp: budget_step_def books_at_start_def put_ctx_def split: prod.splits sum.splits go_error.splits)
qed

lemma settle_start_progress:
  assumes c: "collect_claims ch (TE_Height env) (NewSettlementContext ch) = Inr (cs, sc, n)"
    and b: "foldR (budget_step env ch) sc cs = Inr sc1"
    and ok: "settling_ok \<lparr>ST_Chain = ch, ST_Ctx = NewSettlementContext ch\<rparr>"
  shows "progress_ok \<lparr>ST_Chain = ch, ST_Ctx = NewSettlementContext ch\<rparr>
    \<lparr>PR_Settling = \<lparr>ST_Chain = ch, ST_Ctx = sc1\<rparr>, PR_Settled = [], PR_Expired = [], PR_NumDiscarded = n\<rparr>"
proof -
  have "books_at_start ch (NewSettlementContext ch)" using ok by (simp add: books_at_start_def books_refl)
  then have "books_at_start ch sc" by (rule collect_claims_books [OF c])
  then have "books_at_start ch sc1" by (rule foldR_inv [OF b]) (auto intro: budget_step_books)
  then show ?thesis by (auto simp: progress_ok_def books_at_start_def intro!: exI [of _ "0 :: int"])
qed

lemma settle_collected_progress:
  assumes run: "settle_collected env ch = Inr pr" and sdk: "sdk_ok (TE_Sdk env)"
    and ok: "settling_ok \<lparr>ST_Chain = ch, ST_Ctx = NewSettlementContext ch\<rparr>"
  shows "progress_ok \<lparr>ST_Chain = ch, ST_Ctx = NewSettlementContext ch\<rparr> pr"
proof -
  obtain cs sc n sc1 where c: "collect_claims ch (TE_Height env) (NewSettlementContext ch) = Inr (cs, sc, n)"
    and b: "foldR (budget_step env ch) sc cs = Inr sc1"
    and s: "foldR (settle_step env) \<lparr>PR_Settling = \<lparr>ST_Chain = ch, ST_Ctx = sc1\<rparr>, PR_Settled = [], PR_Expired = [],
      PR_NumDiscarded = n\<rparr> cs = Inr pr"
    using run by (auto simp: settle_collected_def res_simps)
  show ?thesis
    by (rule foldR_inv [OF s, where P = "progress_ok \<lparr>ST_Chain = ch, ST_Ctx = NewSettlementContext ch\<rparr>"])
      (auto intro: settle_step_progress [OF _ _ sdk] settle_start_progress [OF c b ok])
qed

end
