(* ===== verification/TokEscrow.thy ===== *)
theory TokEscrow
  imports TokSettling
begin

text \<open>
  A block's settlement as the module accounts see it: aggregating the queued operations keeps their
  sums, executing them adds those sums to the accounts, slashing takes from the supplier account what
  it takes from the suppliers' stakes.
\<close>

section \<open>Aggregation keeps the sums\<close>

lemma sum_kv_set:
  "kv_ok m \<Longrightarrow> sum_list (map g (kv_set k v m)) = sum_list (map g m) + g (k, v)
     - (case map_of m k of None \<Rightarrow> 0 | Some w \<Rightarrow> (g (k, w) :: int))"
proof (induction k v m rule: kv_set.induct)
  case (1 k v)
  then show ?case by simp
next
  case (2 k v k' v' m)
  have "k < k' \<Longrightarrow> map_of m k = None"
    using "2.prems" by (force simp: map_of_eq_None_iff)
  then show ?case using 2 by (auto split: option.splits)
qed

definition agg_ok :: "(op_key, aggregated_op) kv \<Rightarrow> bool" where
  "agg_ok m \<longleftrightarrow> kv_ok m
     \<and> (\<forall>e \<in> set m. AG_Sender (snd e) = fst (fst e) \<and> AG_Recipient (snd e) = fst (snd (fst e)))"

lemma agg_ok_set:
  assumes "agg_ok m" and "AG_Sender op = fst k" and "AG_Recipient op = fst (snd k)" shows "agg_ok (kv_set k op m)"
proof -
  have "kv_ok m" using assms(1) by (simp add: agg_ok_def)
  then have "e = (k, op) \<or> e \<in> set m" if "e \<in> set (kv_set k op m)" for e
    using that by (simp add: set_kv_set) blast
  then show ?thesis using assms unfolding agg_ok_def by (metis fst_conv snd_conv kv_ok_kv_set)
qed

text \<open>The weighted sum of the operations, before and after they are grouped.\<close>

definition weighted :: "(op_key \<Rightarrow> int) \<Rightarrow> (op_key, aggregated_op) kv \<Rightarrow> int" where
  "weighted w m = sum_list (map (\<lambda>e. w (fst e) * Amount (AG_Coin (snd e))) m)"

lemma aggregate_op_sum:
  assumes "aggregate_op sdk m (k, c) = Inr m'" and "sdk_ok sdk" and "agg_ok m"
  shows "agg_ok m' \<and> weighted w m' = weighted w m + w k * Amount c"
proof -
  obtain s r p where k: "k = (s, r, p)" by (cases k)
  show ?thesis
  proof (cases "map_of m k")
    case None
    then have m': "m' = kv_set k \<lparr>AG_Sender = s, AG_Recipient = r, AG_OpReason = p, AG_Coin = c, AG_NumClaims = 1\<rparr> m"
      using assms(1) k by (auto simp: aggregate_op_def res_simps)
    have "agg_ok m'" unfolding m' using k by (intro agg_ok_set assms(3)) simp_all
    moreover have "weighted w m' = weighted w m + w k * Amount c"
      using assms(3) None by (simp add: m' agg_ok_def weighted_def sum_kv_set)
    ultimately show ?thesis ..
  next
    case (Some old)
    then have "(k, old) \<in> set m" by (rule map_of_SomeD)
    then have o: "AG_Sender old = s" "AG_Recipient old = r" using assms(3) k unfolding agg_ok_def by force+
    have kv: "kv_ok m" using assms(3) by (simp add: agg_ok_def)
    obtain c' where c': "coinAdd sdk (AG_Coin old) c = Inr c'"
      and m': "m' = kv_set k (old\<lparr>AG_Coin := c', AG_NumClaims := AG_NumClaims old + 1\<rparr>) m"
      using assms(1) Some k by (auto simp: aggregate_op_def res_simps)
    have "Amount c' = Amount (AG_Coin old) + Amount c"
      using c' sdk_okD(4) [OF assms(2)] by (auto split: if_splits)
    then have "weighted w m' = weighted w m + w k * Amount c"
      using kv Some by (simp add: m' weighted_def sum_kv_set algebra_simps)
    moreover have "agg_ok m'"
      unfolding m' using k o by (intro agg_ok_set assms(3)) simp_all
    ultimately show ?thesis by simp
  qed
qed

lemma aggregate_sum:
  assumes "aggregate sdk ops = Inr m" and "sdk_ok sdk"
  shows "agg_ok m" and "weighted w m = sum_list (map (\<lambda>(k, c). w k * Amount c) ops)"
proof -
  have "foldR (aggregate_op sdk) m0 ops = Inr m \<Longrightarrow> agg_ok m0
    \<Longrightarrow> agg_ok m \<and> weighted w m = weighted w m0 + sum_list (map (\<lambda>(k, c). w k * Amount c) ops)" for m0
  proof (induction ops arbitrary: m0)
    case Nil
    then show ?case by simp
  next
    case (Cons e ops)
    obtain k c where e: "e = (k, c)" by (cases e)
    obtain m1 where m1: "aggregate_op sdk m0 (k, c) = Inr m1" "foldR (aggregate_op sdk) m1 ops = Inr m"
      using Cons.prems(1) e by (auto simp: res_simps)
    show ?case
      using Cons.IH [OF m1(2)] aggregate_op_sum [OF m1(1) assms(2) Cons.prems(2), of w] e by simp
  qed
  from this [of "[]"] assms(1) show "agg_ok m" and "weighted w m = sum_list (map (\<lambda>(k, c). w k * Amount c) ops)"
    by (simp_all add: aggregate_def agg_ok_def weighted_def)
qed

lemma sum_sort_key: "sum_list (map g (sort_key f xs)) = (sum_list (map g xs) :: int)"
  by (metis mset_map mset_sort sum_mset_sum_list)

text \<open>The aggregated operations in any order have the same sums.\<close>

lemma aggregated_sum:
  assumes "aggregate sdk ops = Inr m" and "sdk_ok sdk"
    and "\<And>k op. AG_Sender op = fst k \<Longrightarrow> AG_Recipient op = fst (snd k) \<Longrightarrow> d op = w k * Amount (AG_Coin op)"
  shows "sum_list (map d (sort_key f (map snd m))) = sum_list (map (\<lambda>(k, c). w k * Amount c) ops)"
proof -
  have "sum_list (map d (map snd m)) = weighted w m"
    using aggregate_sum(1) [OF assms(1,2)] assms(3)
    unfolding weighted_def agg_ok_def map_map o_def by (intro arg_cong [where f = sum_list] map_cong) auto
  then show ?thesis using aggregate_sum(2) [OF assms(1,2), of w] by (simp only: sum_sort_key)
qed

section \<open>Execution\<close>

text \<open>Only the bank log and the events change.\<close>

definition only_bank :: "tok_chain \<Rightarrow> tok_chain \<Rightarrow> bool" where
  "only_bank ch ch' \<longleftrightarrow> ch' = ch\<lparr>TCh_Bank := TCh_Bank ch', TCh_Events := TCh_Events ch'\<rparr>"

lemma only_bank_refl: "only_bank ch ch"
  by (simp add: only_bank_def)

lemma only_bank_trans: "only_bank ch ch' \<Longrightarrow> only_bank ch' ch'' \<Longrightarrow> only_bank ch ch''"
  by (cases ch; cases ch'; cases ch'') (simp add: only_bank_def)

lemma only_bank_fields: "only_bank ch ch' \<Longrightarrow> TCh_Apps ch' = TCh_Apps ch \<and> TCh_Suppliers ch' = TCh_Suppliers ch"
  by (cases ch; cases ch') (simp add: only_bank_def)

definition adds :: "string \<Rightarrow> int \<Rightarrow> tok_chain \<Rightarrow> tok_chain \<Rightarrow> bool" where
  "adds m n ch ch' \<longleftrightarrow> only_bank ch ch' \<and> inflow m (TCh_Bank ch') = inflow m (TCh_Bank ch) + n"

lemma adds_zero: "adds m 0 ch ch"
  by (simp add: adds_def only_bank_refl)

lemma adds_trans: "adds m n ch ch' \<Longrightarrow> adds m k ch' ch'' \<Longrightarrow> adds m (n + k) ch ch''"
  by (auto simp: adds_def intro: only_bank_trans)

lemma execute_op_adds: "execute_op sdk err call ev ch = Inr ch' \<Longrightarrow> adds m (call_inflow m call) ch ch'"
  by (auto simp: execute_op_def res_simps adds_def only_bank_def emit_def)

lemma call_inflow_zero: "Amount c = 0 \<Longrightarrow> call_inflow m (MintCoins m1 c) = 0"
  "Amount c = 0 \<Longrightarrow> call_inflow m (BurnCoins m1 c) = 0"
  "Amount c = 0 \<Longrightarrow> call_inflow m (SendFromModuleToModule m1 m2 c) = 0"
  "Amount c = 0 \<Longrightarrow> call_inflow m (SendFromModuleToAccount m1 a c) = 0"
  by simp_all

lemma execute_adds:
  "execute_mint sdk h ch op = Inr ch' \<Longrightarrow> adds m (call_inflow m (MintCoins (AG_Sender op) (AG_Coin op))) ch ch'"
  "execute_burn sdk h ch op = Inr ch' \<Longrightarrow> adds m (call_inflow m (BurnCoins (AG_Sender op) (AG_Coin op))) ch ch'"
  "execute_mod_to_mod sdk h ch op = Inr ch'
     \<Longrightarrow> adds m (call_inflow m (SendFromModuleToModule (AG_Sender op) (AG_Recipient op) (AG_Coin op))) ch ch'"
  "execute_mod_to_acct sdk h ch op = Inr ch'
     \<Longrightarrow> adds m (call_inflow m (SendFromModuleToAccount (AG_Sender op) (AG_Recipient op) (AG_Coin op))) ch ch'"
  by (auto simp: execute_mint_def execute_burn_def execute_mod_to_mod_def execute_mod_to_acct_def res_simps
      call_inflow_zero adds_zero dest!: execute_op_adds [where m = m] split: if_splits simp del: call_inflow.simps)

lemma execute_all_adds:
  assumes "foldR exec ch ops = Inr ch'" and "\<And>ch op ch'. exec ch op = Inr ch' \<Longrightarrow> adds m (d op) ch ch'"
  shows "adds m (sum_list (map d ops)) ch ch'"
  using assms(1)
proof (induction ops arbitrary: ch)
  case Nil
  then show ?case by (simp add: adds_zero)
next
  case (Cons op ops)
  then obtain ch1 where "exec ch op = Inr ch1" "foldR exec ch1 ops = Inr ch'" by (auto simp: res_simps)
  then show ?case using adds_trans [OF assms(2) Cons.IH] by simp
qed

section \<open>The settled results\<close>

lemma totals_concat:
  "mb_total m (concat (map f rs)) = sum_list (map (\<lambda>r. mb_total m (f r)) rs)"
  "mm_total m (concat (map g rs)) = sum_list (map (\<lambda>r. mm_total m (g r)) rs)"
  "ma_total m (concat (map h rs)) = sum_list (map (\<lambda>r. ma_total m (h r)) rs)"
  by (induction rs) simp_all

lemma results_inflow_totals: "results_inflow m rs
    = mb_total m (concat (map SR_Mints rs)) + mm_total m (concat (map SR_ModToModTransfers rs))
      - ma_total m (concat (map SR_ModToAcctTransfers rs)) - mb_total m (concat (map SR_Burns rs))"
  unfolding totals_concat by (induction rs) (simp_all add: result_inflow_def)

definition one_if :: "bool \<Rightarrow> int" where "one_if b = (if b then 1 else 0)"

lemma one_if_mult: "one_if b * n = (if b then n else 0)" "- one_if b * n = - (if b then n else 0)"
  by (simp_all add: one_if_def)

lemma aggregated_totals:
  "aggregateMints sdk rs = Inr ops \<Longrightarrow> sdk_ok sdk
    \<Longrightarrow> sum_list (map (\<lambda>op. call_inflow m (MintCoins (AG_Sender op) (AG_Coin op))) ops)
      = mb_total m (concat (map SR_Mints rs))"
  "aggregateBurns sdk rs = Inr ops' \<Longrightarrow> sdk_ok sdk
    \<Longrightarrow> sum_list (map (\<lambda>op. call_inflow m (BurnCoins (AG_Sender op) (AG_Coin op))) ops')
      = - mb_total m (concat (map SR_Burns rs))"
  "aggregateModToModTransfers sdk rs = Inr ops'' \<Longrightarrow> sdk_ok sdk
    \<Longrightarrow> sum_list (map (\<lambda>op. call_inflow m (SendFromModuleToModule (AG_Sender op) (AG_Recipient op) (AG_Coin op))) ops'')
      = mm_total m (concat (map SR_ModToModTransfers rs))"
  "aggregateModToAcctTransfers sdk rs = Inr ops''' \<Longrightarrow> sdk_ok sdk
    \<Longrightarrow> sum_list (map (\<lambda>op. call_inflow m (SendFromModuleToAccount (AG_Sender op) (AG_Recipient op) (AG_Coin op))) ops''')
      = - ma_total m (concat (map SR_ModToAcctTransfers rs))"
proof -
  assume a: "aggregateMints sdk rs = Inr ops" and sdk: "sdk_ok sdk"
  obtain g where g: "aggregate sdk (mint_burn_ops (concat (map SR_Mints rs))) = Inr g"
    and ops: "ops = sort_key mintBurnOrderKey (map snd g)"
    using a by (auto simp: aggregateMints_def res_simps)
  show "sum_list (map (\<lambda>op. call_inflow m (MintCoins (AG_Sender op) (AG_Coin op))) ops)
      = mb_total m (concat (map SR_Mints rs))"
    unfolding ops by (subst aggregated_sum [OF g sdk, where w = "\<lambda>k. one_if (fst k = m)"])
      (simp_all add: one_if_mult mint_burn_ops_def mb_total_def o_def)
next
  assume a: "aggregateBurns sdk rs = Inr ops'" and sdk: "sdk_ok sdk"
  obtain g where g: "aggregate sdk (mint_burn_ops (concat (map SR_Burns rs))) = Inr g"
    and ops: "ops' = sort_key mintBurnOrderKey (map snd g)"
    using a by (auto simp: aggregateBurns_def res_simps)
  show "sum_list (map (\<lambda>op. call_inflow m (BurnCoins (AG_Sender op) (AG_Coin op))) ops')
      = - mb_total m (concat (map SR_Burns rs))"
    unfolding ops by (subst aggregated_sum [OF g sdk, where w = "\<lambda>k. - one_if (fst k = m)"])
      (simp_all add: one_if_mult mint_burn_ops_def mb_total_def o_def uminus_sum_list_map if_distrib)
next
  assume a: "aggregateModToModTransfers sdk rs = Inr ops''" and sdk: "sdk_ok sdk"
  obtain g where g: "aggregate sdk (map (\<lambda>t. ((MM_SenderModule t, MM_RecipientModule t, MM_OpReason t), MM_Coin t))
      (concat (map SR_ModToModTransfers rs))) = Inr g"
    and ops: "ops'' = sort_key modToModOrderKey (map snd g)"
    using a by (auto simp: aggregateModToModTransfers_def res_simps)
  show "sum_list (map (\<lambda>op. call_inflow m (SendFromModuleToModule (AG_Sender op) (AG_Recipient op) (AG_Coin op))) ops'')
      = mm_total m (concat (map SR_ModToModTransfers rs))"
    unfolding ops by (subst aggregated_sum [OF g sdk,
        where w = "\<lambda>k. one_if (fst (snd k) = m) - one_if (fst k = m)"])
      (simp_all add: one_if_mult mm_total_def o_def left_diff_distrib)
next
  assume a: "aggregateModToAcctTransfers sdk rs = Inr ops'''" and sdk: "sdk_ok sdk"
  obtain g where g: "aggregate sdk (map (\<lambda>t. ((MA_SenderModule t, MA_RecipientAddress t, MA_OpReason t), MA_Coin t))
      (concat (map SR_ModToAcctTransfers rs))) = Inr g"
    and ops: "ops''' = sort_key modToAcctOrderKey (map snd g)"
    using a by (auto simp: aggregateModToAcctTransfers_def res_simps)
  show "sum_list (map (\<lambda>op. call_inflow m (SendFromModuleToAccount (AG_Sender op) (AG_Recipient op) (AG_Coin op))) ops''')
      = - ma_total m (concat (map SR_ModToAcctTransfers rs))"
    unfolding ops by (subst aggregated_sum [OF g sdk, where w = "\<lambda>k. - one_if (fst k = m)"])
      (simp_all add: one_if_mult ma_total_def o_def uminus_sum_list_map if_distrib)
qed

lemma ExecutePendingSettledResults_adds:
  assumes run: "ExecutePendingSettledResults sdk rs ch = Inr ch'" and sdk: "sdk_ok sdk"
  shows "adds m (results_inflow m rs) ch ch'"
proof -
  define h where "h = first_session_end rs"
  obtain mints transfers pays burns ch1 ch2 ch3
    where a: "aggregateMints sdk rs = Inr mints" "aggregateModToModTransfers sdk rs = Inr transfers"
      "aggregateModToAcctTransfers sdk rs = Inr pays" "aggregateBurns sdk rs = Inr burns"
    and e: "foldR (execute_mint sdk h) ch mints = Inr ch1" "foldR (execute_mod_to_mod sdk h) ch1 transfers = Inr ch2"
      "foldR (execute_mod_to_acct sdk h) ch2 pays = Inr ch3" "foldR (execute_burn sdk h) ch3 burns = Inr ch'"
    using run by (auto simp: ExecutePendingSettledResults_def Let_def res_simps h_def)
  have "adds m (sum_list (map (\<lambda>op. call_inflow m (MintCoins (AG_Sender op) (AG_Coin op))) mints)) ch ch1"
    by (rule execute_all_adds [OF e(1) execute_adds(1)])
  moreover have "adds m (sum_list (map (\<lambda>op. call_inflow m
      (SendFromModuleToModule (AG_Sender op) (AG_Recipient op) (AG_Coin op))) transfers)) ch1 ch2"
    by (rule execute_all_adds [OF e(2) execute_adds(3)])
  moreover have "adds m (sum_list (map (\<lambda>op. call_inflow m
      (SendFromModuleToAccount (AG_Sender op) (AG_Recipient op) (AG_Coin op))) pays)) ch2 ch3"
    by (rule execute_all_adds [OF e(3) execute_adds(4)])
  moreover have "adds m (sum_list (map (\<lambda>op. call_inflow m (BurnCoins (AG_Sender op) (AG_Coin op))) burns)) ch3 ch'"
    by (rule execute_all_adds [OF e(4) execute_adds(2)])
  ultimately have "adds m (mb_total m (concat (map SR_Mints rs)) + (mm_total m (concat (map SR_ModToModTransfers rs))
      + (- ma_total m (concat (map SR_ModToAcctTransfers rs)) + - mb_total m (concat (map SR_Burns rs))))) ch ch'"
    unfolding aggregated_totals(1) [OF a(1) sdk] aggregated_totals(3) [OF a(2) sdk]
      aggregated_totals(4) [OF a(3) sdk] aggregated_totals(2) [OF a(4) sdk]
    by (blast intro: adds_trans)
  then show ?thesis by (simp add: results_inflow_totals algebra_simps)
qed

section \<open>Batched validator rewards\<close>

definition tokenomics_pays :: "claim_settlement_result \<Rightarrow> claim_settlement_result \<Rightarrow> bool" where
  "tokenomics_pays r r' \<longleftrightarrow> (\<exists>ts. r' = with_acct ts r \<and> (\<forall>t \<in> set ts. MA_SenderModule t = Tokenomics_ModuleName))"

lemma tokenomics_pays_refl: "tokenomics_pays r r"
  unfolding tokenomics_pays_def by (intro exI [of _ "[]"]) simp

lemma tokenomics_pays_trans: "tokenomics_pays r r' \<Longrightarrow> tokenomics_pays r' r'' \<Longrightarrow> tokenomics_pays r r''"
  unfolding tokenomics_pays_def by (metis Un_iff set_append with_acct_simps(2))

lemma tokenomics_pays_inflow:
  assumes "tokenomics_pays r r'" and "m \<noteq> Tokenomics_ModuleName"
  shows "result_inflow m r' = result_inflow m r"
proof -
  obtain ts where ts: "r' = with_acct ts r" "\<forall>t \<in> set ts. MA_SenderModule t = Tokenomics_ModuleName"
    using assms(1) unfolding tokenomics_pays_def by blast
  have "ma_total m ts = 0" using ts(2) assms(2) by (induction ts) auto
  then show ?thesis by (simp add: ts(1) inflow_with_acct)
qed

lemma queue_reward_pays: "queue_reward V op r e = Inr r' \<Longrightarrow> tokenomics_pays r r'"
proof -
  assume run: "queue_reward V op r e = Inr r'"
  obtain a n where e: "e = (a, n)" by (cases e)
  show ?thesis
  proof (cases "n = 0")
    case True
    then show ?thesis using run e by (simp add: queue_reward_def tokenomics_pays_refl)
  next
    case False
    then obtain t where "r' = with_acct [t] r" "MA_SenderModule t = Tokenomics_ModuleName"
      using run e by (auto simp: queue_reward_def res_simps with_acct_def AppendModToAcctTransfer_def)
    then show ?thesis unfolding tokenomics_pays_def by (intro exI [of _ "[t]"]) simp
  qed
qed

lemma DistributeValidatorRewards_pays:
  assumes "DistributeValidatorRewards sk r c op h = Inr (r', evs)"
  shows "tokenomics_pays r r'"
proof -
  have "tokenomics_pays r r'" if "foldR (queue_reward V op) r xs = Inr r'" for V xs
    by (rule foldR_inv [OF that tokenomics_pays_refl]) (blast intro: tokenomics_pays_trans queue_reward_pays)
  then show ?thesis
    using assms
    by (auto simp: DistributeValidatorRewards_def distributeRewardsToValidatorsAndDelegators_def
        queueRewardTransfers_def res_simps tokenomics_pays_refl split: if_splits sum.splits prod.splits)
qed

lemma FlushBatchedValidatorRewards_pays:
  assumes "FlushBatchedValidatorRewards sk acc h = Inr (Some r, evs)" and "m \<noteq> Tokenomics_ModuleName"
  shows "result_inflow m r = 0"
proof -
  obtain evs' where run: "foldR (flush_step sk h) (NewClaimSettlementResult zero_claim, []) (sort_key fst acc) = Inr (r, evs')"
    using assms(1) by (auto simp: FlushBatchedValidatorRewards_def res_simps split: if_splits)
  have "tokenomics_pays (NewClaimSettlementResult zero_claim) (fst (r, evs'))"
  proof (rule foldR_inv [OF run])
    show "tokenomics_pays (NewClaimSettlementResult zero_claim) (fst (NewClaimSettlementResult zero_claim, []))"
      by (simp add: tokenomics_pays_refl)
  next
    fix s x s'
    assume s: "tokenomics_pays (NewClaimSettlementResult zero_claim) (fst s)" and "flush_step sk h s x = Inr s'"
    then have "tokenomics_pays (fst s) (fst s')"
      by (cases s; cases x; cases s')
        (auto simp: flush_step_def res_simps tokenomics_pays_refl dest: DistributeValidatorRewards_pays split: if_splits)
    then show "tokenomics_pays (NewClaimSettlementResult zero_claim) (fst s')"
      by (rule tokenomics_pays_trans [OF s])
  qed
  then show ?thesis using tokenomics_pays_inflow [OF _ assms(2)] by fastforce
qed

section \<open>Slashing\<close>

text \<open>After the cache is written back, a cached supplier's stake is its stored one.\<close>

definition synced :: "settling \<Rightarrow> bool" where
  "synced st \<longleftrightarrow> sups.store_ok (TCh_Suppliers (ST_Chain st))
     \<and> (\<forall>k s. map_of (SC_Suppliers (ST_Ctx st)) k = Some s \<longrightarrow> OperatorAddress s = k
          \<and> (\<exists>b. sups.find (TCh_Suppliers (ST_Chain st)) k = Some b \<and> Supplier_Stake b = Supplier_Stake s))"

definition supplier_surplus :: "tok_chain \<Rightarrow> int" where
  "supplier_surplus ch = inflow Supplier_ModuleName (TCh_Bank ch) - sups.stakes (TCh_Suppliers ch)"

definition application_surplus :: "tok_chain \<Rightarrow> int" where
  "application_surplus ch = inflow Application_ModuleName (TCh_Bank ch) - aps.stakes (TCh_Apps ch)"

lemma slash_amounts_total:
  "slash_amounts sdk stake penalty = Inr (remaining, taken) \<Longrightarrow> sdk_ok sdk \<Longrightarrow> Amount remaining + Amount taken = Amount stake"
  by (auto simp: slash_amounts_def res_simps NewCoin_Inr split: if_splits)

lemma slashSupplierStake_surplus:
  assumes run: "slashSupplierStake env st r = Inr st'" and sdk: "sdk_ok (TE_Sdk env)" and ok: "synced st"
  shows "synced st' \<and> supplier_surplus (ST_Chain st') = supplier_surplus (ST_Chain st)
    \<and> application_surplus (ST_Chain st') = application_surplus (ST_Chain st)
    \<and> inflow Tokenomics_ModuleName (TCh_Bank (ST_Chain st')) = inflow Tokenomics_ModuleName (TCh_Bank (ST_Chain st))"
proof -
  let ?op = "Claim_SupplierOperatorAddress (SR_Claim r)"
  let ?S = "TCh_Suppliers (ST_Chain st)"
  define s2 where "s2 = the (map_of (SC_Suppliers (ST_Ctx st')) ?op)"
  obtain penalty s remaining taken where
    s: "map_of (SC_Suppliers (ST_Ctx st)) ?op = Some s"
    and am: "slash_amounts (TE_Sdk env) (Supplier_Stake s) penalty = Inr (remaining, taken)"
    and s2: "OperatorAddress s2 = OperatorAddress s" "Supplier_Stake s2 = remaining"
    and st': "TCh_Bank (ST_Chain st') = TCh_Bank (ST_Chain st)
          @ [SendFromModuleToModule Supplier_ModuleName Tokenomics_ModuleName taken,
             BurnCoins Tokenomics_ModuleName taken]"
      "TCh_Suppliers (ST_Chain st') = SetDehydratedSupplier s2 ?S" "TCh_Apps (ST_Chain st') = TCh_Apps (ST_Chain st)"
      "SC_Suppliers (ST_Ctx st') = al_set ?op s2 (SC_Suppliers (ST_Ctx st))"
    using run unfolding s2_def
    by (auto simp: slashSupplierStake_def Let_def res_simps Ctx_GetSupplier_def force_unstake_def emit_def
        split: option.splits if_splits)
  have store: "sups.store_ok ?S" using ok by (simp add: synced_def)
  obtain b where b: "sups.find ?S ?op = Some b" "Supplier_Stake b = Supplier_Stake s" and o: "OperatorAddress s = ?op"
    using ok s by (auto simp: synced_def)
  have "sups.stakes (SetDehydratedSupplier s2 ?S) = sups.stakes ?S - Amount taken"
    using dsups.stakes_update [OF store, of s2 b] b o s2 slash_amounts_total [OF am sdk] by simp
  moreover have "synced st'"
    using ok dsups.store_ok_put [OF store, of s2] o s2
    by (auto simp: synced_def st' dsups.find_put dehydrated_def split: if_splits)
  ultimately show ?thesis
    by (simp add: st' supplier_surplus_def application_surplus_def inflow_def)
qed

lemma ExecutePendingExpiredResults_surplus:
  assumes run: "ExecutePendingExpiredResults env rs st = Inr st'" and sdk: "sdk_ok (TE_Sdk env)" and ok: "synced st"
  shows "supplier_surplus (ST_Chain st') = supplier_surplus (ST_Chain st)
    \<and> application_surplus (ST_Chain st') = application_surplus (ST_Chain st)
    \<and> inflow Tokenomics_ModuleName (TCh_Bank (ST_Chain st')) = inflow Tokenomics_ModuleName (TCh_Bank (ST_Chain st))"
proof -
  let ?P = "\<lambda>s. synced s \<and> supplier_surplus (ST_Chain s) = supplier_surplus (ST_Chain st)
    \<and> application_surplus (ST_Chain s) = application_surplus (ST_Chain st)
    \<and> inflow Tokenomics_ModuleName (TCh_Bank (ST_Chain s)) = inflow Tokenomics_ModuleName (TCh_Bank (ST_Chain st))"
  have "?P st'"
  proof (rule foldR_inv [OF run [unfolded ExecutePendingExpiredResults_def], where P = ?P])
    show "?P st" using ok by simp
  next
    fix s r s'
    assume "?P s" and step: "slash_step env s r = Inr s'"
    moreover have "slashSupplierStake env s r = Inr s'"
      using step by (auto simp: slash_step_def res_simps split: sum.splits go_error.splits)
    ultimately show "?P s'" using slashSupplierStake_surplus [OF _ sdk] by simp
  qed
  then show ?thesis by simp
qed

section \<open>A block\<close>

text \<open>The chain once the actors are written back and the results are executed.\<close>

lemma settlement_surplus:
  assumes run: "SettlePendingClaims env ch = Inr so" and sdk: "sdk_ok (TE_Sdk env)"
    and ok: "settling_ok \<lparr>ST_Chain = ch, ST_Ctx = NewSettlementContext ch\<rparr>"
  obtains pr where "settle_collected env ch = Inr pr"
    and "progress_ok \<lparr>ST_Chain = ch, ST_Ctx = NewSettlementContext ch\<rparr> pr"
    and "SO_NumDiscarded so = PR_NumDiscarded pr"
    and "supplier_surplus (SO_Chain so) = supplier_surplus ch"
    and "application_surplus (SO_Chain so) = inflow Application_ModuleName (TCh_Bank ch)
      + results_inflow Application_ModuleName (PR_Settled pr) - app_ledger (PR_Settling pr)"
    and "inflow Tokenomics_ModuleName (TCh_Bank (SO_Chain so)) = inflow Tokenomics_ModuleName (TCh_Bank ch)
      + results_inflow Tokenomics_ModuleName (SO_Settled so)"
    and "\<exists>b evs. FlushBatchedValidatorRewards (TE_Staking env) (SC_Accumulator (ST_Ctx (PR_Settling pr)))
        (first_session_end (PR_Settled pr)) = Inr (b, evs)
      \<and> SO_Settled so = (case b of None \<Rightarrow> PR_Settled pr | Some r \<Rightarrow> PR_Settled pr @ [r])"
proof -
  let ?st = "\<lparr>ST_Chain = ch, ST_Ctx = NewSettlementContext ch\<rparr>"
  obtain pr b evs ch2 st3 where pr: "settle_collected env ch = Inr pr"
    and fl: "FlushBatchedValidatorRewards (TE_Staking env) (SC_Accumulator (ST_Ctx (PR_Settling pr)))
        (first_session_end (PR_Settled pr)) = Inr (b, evs)"
    and ex: "ExecutePendingSettledResults (TE_Sdk env) (case b of None \<Rightarrow> PR_Settled pr | Some r \<Rightarrow> PR_Settled pr @ [r])
        (emit evs (FlushAllActorsToStore (ST_Ctx (PR_Settling pr)) (ST_Chain (PR_Settling pr)))) = Inr ch2"
    and sl: "ExecutePendingExpiredResults env (PR_Expired pr) \<lparr>ST_Chain = ch2, ST_Ctx = ST_Ctx (PR_Settling pr)\<rparr> = Inr st3"
    and so: "SO_Chain so = ST_Chain st3" "SO_NumDiscarded so = PR_NumDiscarded pr"
      "SO_Settled so = (case b of None \<Rightarrow> PR_Settled pr | Some r \<Rightarrow> PR_Settled pr @ [r])"
    using run by (auto simp: SettlePendingClaims_def Let_def res_simps)
  define st where "st = PR_Settling pr"
  define ch1 where "ch1 = emit evs (FlushAllActorsToStore (ST_Ctx st) (ST_Chain st))"
  have prog: "progress_ok ?st pr" by (rule settle_collected_progress [OF pr sdk ok])
  then obtain x k where bk: "books x k ?st st" and sup0: "results_inflow Supplier_ModuleName (PR_Settled pr) = 0"
    unfolding progress_ok_def st_def by blast
  have sok: "settling_ok st" using bk by (simp add: books_def)
  let ?A = "TCh_Apps (ST_Chain st)" and ?m = "SC_Applications (ST_Ctx st)"
  let ?S = "TCh_Suppliers (ST_Chain st)" and ?n = "SC_Suppliers (ST_Ctx st)"
  have fa: "aps.stakes (fold (\<lambda>e. SetApplication (snd e)) ?m ?A) = app_ledger st"
    using aps.flush [of ?A ?m] sok by (simp add: settling_ok_def app_ledger_def)
  have fs: "sups.store_ok (fold (\<lambda>e. SetDehydratedSupplier (snd e)) ?n ?S)"
    "sups.stakes (fold (\<lambda>e. SetDehydratedSupplier (snd e)) ?n ?S) = sup_ledger st"
    "sups.find (fold (\<lambda>e. SetDehydratedSupplier (snd e)) ?n ?S) y
       = (case map_of ?n y of None \<Rightarrow> sups.find ?S y | Some a \<Rightarrow> Some (dehydrated a))" for y
    using dsups.flush [of ?S ?n] sok by (simp_all add: settling_ok_def sup_ledger_def)
  have ch1: "TCh_Apps ch1 = fold (\<lambda>e. SetApplication (snd e)) ?m ?A"
    "TCh_Suppliers ch1 = fold (\<lambda>e. SetDehydratedSupplier (snd e)) ?n ?S" "TCh_Bank ch1 = TCh_Bank ch"
    using bk by (simp_all add: ch1_def emit_def FlushAllActorsToStore_def books_def)
  have exec: "adds m (results_inflow m (SO_Settled so)) ch1 ch2" for m
    using ExecutePendingSettledResults_adds [OF ex sdk, of m] so by (simp add: ch1_def st_def)
  then have ch2: "TCh_Apps ch2 = TCh_Apps ch1" "TCh_Suppliers ch2 = TCh_Suppliers ch1"
    using only_bank_fields [of ch1 ch2] unfolding adds_def by blast+
  have bank: "inflow m (TCh_Bank ch2) = inflow m (TCh_Bank ch) + results_inflow m (SO_Settled so)" for m
    using exec [of m] ch1(3) by (simp add: adds_def)
  have other: "results_inflow m (SO_Settled so) = results_inflow m (PR_Settled pr)"
    if "m \<noteq> Tokenomics_ModuleName" for m
    using so(3) FlushBatchedValidatorRewards_pays [OF _ that] fl by (cases b) simp_all
  have "synced \<lparr>ST_Chain = ch2, ST_Ctx = ST_Ctx st\<rparr>"
    using fs(1) fs(3) ch1(2) ch2(2) sups.cache_addr [of ?S ?n] sok
    by (auto simp: synced_def dehydrated_def settling_ok_def)
  from ExecutePendingExpiredResults_surplus [OF sl [folded st_def] sdk this]
  have fin: "supplier_surplus (SO_Chain so) = supplier_surplus ch2"
    "application_surplus (SO_Chain so) = application_surplus ch2"
    "inflow Tokenomics_ModuleName (TCh_Bank (SO_Chain so)) = inflow Tokenomics_ModuleName (TCh_Bank ch2)"
    using so(1) by simp_all
  have start: "app_ledger ?st = aps.stakes (TCh_Apps ch)" "sup_ledger ?st = sups.stakes (TCh_Suppliers ch)"
    by (simp_all add: app_ledger_def sup_ledger_def NewSettlementContext_def aps.ledger_def aps.pending_def
        sups.ledger_def sups.pending_def)
  have s: "supplier_surplus (SO_Chain so) = supplier_surplus ch"
    using fin(1) bank [of Supplier_ModuleName] other [of Supplier_ModuleName] sup0 ch2 ch1 fs(2) bk start(2)
    by (simp add: supplier_surplus_def books_def)
  have a: "application_surplus (SO_Chain so) = inflow Application_ModuleName (TCh_Bank ch)
      + results_inflow Application_ModuleName (PR_Settled pr) - app_ledger (PR_Settling pr)"
    using fin(2) bank [of Application_ModuleName] other [of Application_ModuleName] ch2 ch1 fa
    by (simp add: application_surplus_def st_def)
  have t: "inflow Tokenomics_ModuleName (TCh_Bank (SO_Chain so)) = inflow Tokenomics_ModuleName (TCh_Bank ch)
      + results_inflow Tokenomics_ModuleName (SO_Settled so)"
    using fin(3) bank by simp
  show ?thesis by (rule that [OF pr prog so(2) s a t]) (use fl so(3) in blast)
qed

end
