(* ===== verification/TokOutcomes.thy ===== *)
theory TokOutcomes
  imports TokEscrow
begin

text \<open>
  What becomes of the claims of a block: the ripe ones are collected, and each is settled, expired or
  discarded by its own status and its own requirement, whatever else the block settles; none stays
  in the store.
\<close>

section \<open>What settling a claim leaves alone\<close>

text \<open>The state that the requirement of a claim is computed from, and the claims.\<close>

definition same_rules :: "tok_chain \<Rightarrow> tok_chain \<Rightarrow> bool" where
  "same_rules ch ch' \<longleftrightarrow> TCh_Shared ch' = TCh_Shared ch \<and> TCh_Session ch' = TCh_Session ch
     \<and> TCh_Services ch' = TCh_Services ch
     \<and> Proof_ParamsStore (TCh_Proofs ch') = Proof_ParamsStore (TCh_Proofs ch)"

lemma same_rules_refl: "same_rules ch ch"
  by (simp add: same_rules_def)

lemma same_rules_trans: "same_rules ch ch' \<Longrightarrow> same_rules ch' ch'' \<Longrightarrow> same_rules ch ch''"
  by (simp add: same_rules_def)

definition keeps_rules :: "settling \<Rightarrow> settling \<Rightarrow> bool" where
  "keeps_rules st st' \<longleftrightarrow> same_rules (ST_Chain st) (ST_Chain st')
     \<and> TCh_Proofs (ST_Chain st') = TCh_Proofs (ST_Chain st)"

lemma keeps_rules_refl: "keeps_rules st st"
  by (simp add: keeps_rules_def same_rules_refl)

lemma keeps_rules_trans: "keeps_rules st st' \<Longrightarrow> keeps_rules st' st'' \<Longrightarrow> keeps_rules st st''"
  by (auto simp: keeps_rules_def intro: same_rules_trans)

lemma keeps_rules_simps [simp]:
  "keeps_rules st (put_ctx st' sc) = keeps_rules st st'"
  "keeps_rules st (x\<lparr>ST_Chain := emit evs ch\<rparr>) = keeps_rules st (x\<lparr>ST_Chain := ch\<rparr>)"
  "keeps_rules st (x\<lparr>ST_Chain := ST_Chain st'\<rparr>) = keeps_rules st st'"
  "keeps_rules st (store_tlm_state y ts st') = keeps_rules st st'"
  by (simp_all add: keeps_rules_def same_rules_def emit_def store_tlm_state_def)

lemma unbond_rules: "keeps_rules st (fst (unbond_below_min_stake env x a st))"
  unfolding unbond_below_min_stake_def Let_def
  by (intro getS_inv [where P = "keeps_rules st"])
    (simp_all add: keeps_rules_def same_rules_def emit_def)

lemma run_on_claim_rules: "keeps_rules st (fst (run_on_claim env r sh coin service a s st))"
proof -
  have "keeps_rules st (fst (unbond_below_min_stake env x b (store_tlm_state y ts st)))" for x b y ts
    by (rule keeps_rules_trans [OF _ unbond_rules]) (simp add: keeps_rules_refl)
  then show ?thesis
    by (auto simp: run_on_claim_def Let_def keeps_rules_refl split: prod.split sum.split) (metis fst_conv)+
qed

lemma ProcessTokenLogicModules_rules: "keeps_rules st (fst (ProcessTokenLogicModules env r st))"
proof -
  have "keeps_rules st (fst (run_on_claim env r sh coin service a s st'))" if "keeps_rules st st'" for sh coin service a s st'
    by (rule keeps_rules_trans [OF that run_on_claim_rules])
  then show ?thesis
    unfolding ProcessTokenLogicModules_def Let_def
    by (auto simp: keeps_rules_refl intro!: getS_inv [where P = "keeps_rules st"]
        on_ctx_inv [where P = "keeps_rules st"] split: prod.split)
qed

section \<open>The decision\<close>

definition requirement :: "tok_env \<Rightarrow> tok_chain \<Rightarrow> claim \<Rightarrow> proof_requirement res" where
  "requirement env ch c = ProofRequirementForClaim (TE_Claims env) (TCh_Shared ch) (TCh_Services ch)
     (TCh_Session ch) (Proof_GetParams (TCh_Proofs ch)) c"

lemma requirement_same: "same_rules ch ch' \<Longrightarrow> requirement env ch' c = requirement env ch c"
  by (simp add: requirement_def same_rules_def Proof_GetParams_def)

text \<open>A claim is settled when its proof is valid or none is required of it.\<close>

definition settles :: "tok_env \<Rightarrow> tok_chain \<Rightarrow> claim \<Rightarrow> bool" where
  "settles env ch c \<longleftrightarrow> Claim_ProofValidationStatus c = VALIDATED \<or> requirement env ch c = Inr NOT_REQUIRED"

definition expires :: "tok_env \<Rightarrow> tok_chain \<Rightarrow> claim \<Rightarrow> bool" where
  "expires env ch c \<longleftrightarrow> Claim_ProofValidationStatus c \<noteq> VALIDATED
     \<and> (\<exists>q. requirement env ch c = Inr q \<and> q \<noteq> NOT_REQUIRED)"

lemma settleClaim_rules: "keeps_rules st (fst (settleClaim env c st))"
proof -
  have "keeps_rules st st2" if "ProcessTokenLogicModules env r st1 = (st2, y)" "keeps_rules st st1" for r st1 st2 y
    using keeps_rules_trans [OF that(2) ProcessTokenLogicModules_rules [of st1 env r]] that(1) by simp
  then show ?thesis
    unfolding settleClaim_def Let_def
    by (auto simp: keeps_rules_refl intro!: getS_inv [where P = "keeps_rules st"]
        on_ctx_inv [where P = "keeps_rules st"] split: prod.split sum.split)
qed

lemma settleClaim_decides:
  assumes "settleClaim env c st = (st', Inr cs)"
  shows "if CS_IsSettled cs then settles env (ST_Chain st) c
    else expires env (ST_Chain st) c \<and> CS_SettlementResult cs = NewClaimSettlementResult c"
proof -
  obtain sc cf where sc: "claim_facts_of env (ST_Chain st) sc c = Inr cf"
    and run: "if CF_ProofRequirement cf \<noteq> NOT_REQUIRED \<and> Claim_ProofValidationStatus c \<noteq> VALIDATED
      then \<not> CS_IsSettled cs \<and> CS_SettlementResult cs = NewClaimSettlementResult c else CS_IsSettled cs"
    using assms unfolding settleClaim_def
    by (auto simp: Let_def on_ctx_Inr res_simps put_ctx_def split: if_splits prod.splits sum.splits)
  have "requirement env (ST_Chain st) c = Inr (CF_ProofRequirement cf)"
    using sc by (auto simp: claim_facts_of_def requirement_def Let_def res_simps)
  then show ?thesis using run by (auto simp: settles_def expires_def split: if_splits)
qed
section \<open>All claims of a block\<close>

definition claim_gone :: "proof_state \<Rightarrow> claim \<Rightarrow> bool" where
  "claim_gone ps c \<longleftrightarrow> GetClaim ps (GetHeaderSessionId (Claim_SessionHeader c))
     (Claim_SupplierOperatorAddress c) = None"

lemma GetClaim_RemoveClaim:
  "GetClaim (RemoveClaim i x ps) j y = (if ClaimPrimaryKey j y = ClaimPrimaryKey i x then None else GetClaim ps j y)"
  by (auto simp: GetClaim_def RemoveClaim_def getClaimByPrimaryKey_def Let_def map_of_kv_del split: option.split)

lemma claim_gone_RemoveClaim:
  "claim_gone ps c \<Longrightarrow> claim_gone (RemoveClaim i x ps) c"
  "claim_gone (RemoveClaim (GetHeaderSessionId (Claim_SessionHeader c)) (Claim_SupplierOperatorAddress c) ps) c"
  by (simp_all add: claim_gone_def GetClaim_RemoveClaim)

text \<open>The claims handled so far, of which none is left, and what was decided on each.\<close>

definition decided :: "tok_env \<Rightarrow> tok_chain \<Rightarrow> settlement_progress \<Rightarrow> bool" where
  "decided env ch pr \<longleftrightarrow> same_rules ch (ST_Chain (PR_Settling pr))
     \<and> (\<forall>r \<in> set (PR_Settled pr). settles env ch (SR_Claim r))
     \<and> (\<forall>r \<in> set (PR_Expired pr). expires env ch (SR_Claim r))"

lemma settles_same: "same_rules ch ch' \<Longrightarrow> settles env ch' c = settles env ch c"
  "same_rules ch ch' \<Longrightarrow> expires env ch' c = expires env ch c"
  by (simp_all add: settles_def expires_def requirement_same)

text \<open>One claim: its result is queued as settled or expired, or it is counted as discarded.\<close>

lemma settle_step_decides:
  assumes step: "settle_step env pr c = Inr pr'" and sdk: "sdk_ok (TE_Sdk env)" and ok: "settling_ok (PR_Settling pr)"
    and d: "decided env ch pr"
  shows "decided env ch pr'"
    and "TCh_Proofs (ST_Chain (PR_Settling pr'))
      = RemoveClaim (GetHeaderSessionId (Claim_SessionHeader c)) (Claim_SupplierOperatorAddress c)
          (TCh_Proofs (ST_Chain (PR_Settling pr)))"
    and "length (PR_Settled pr') + length (PR_Expired pr') + PR_NumDiscarded pr'
      = Suc (length (PR_Settled pr) + length (PR_Expired pr) + PR_NumDiscarded pr)"
    and "set (PR_Settled pr' @ PR_Expired pr') \<subseteq> set (PR_Settled pr @ PR_Expired pr) \<union> {r. SR_Claim r = c}"
proof -
  let ?st = "PR_Settling pr"
  let ?ps' = "RemoveClaim (GetHeaderSessionId (Claim_SessionHeader c)) (Claim_SupplierOperatorAddress c)
    (TCh_Proofs (ST_Chain ?st))"
  obtain st r where run: "settleClaim env c ?st = (st, r)" by (cases "settleClaim env c ?st")
  have keep: "keeps_rules ?st st" using settleClaim_rules [of ?st env c] run by simp
  then have pst: "TCh_Proofs (ST_Chain st) = TCh_Proofs (ST_Chain ?st)" by (simp add: keeps_rules_def)
  have ch: "same_rules ch (ST_Chain ?st)" using d by (simp add: decided_def)
  have same: "same_rules ch ((ST_Chain st)\<lparr>TCh_Proofs := ?ps', TCh_Events := evs\<rparr>)" for evs
    using ch keep by (simp add: keeps_rules_def same_rules_def)
  note out = settleClaim_outcome [OF ok sdk, of c] and dec = settleClaim_decides [of env c ?st st]
  have "decided env ch pr' \<and> TCh_Proofs (ST_Chain (PR_Settling pr')) = ?ps'
    \<and> length (PR_Settled pr') + length (PR_Expired pr') + PR_NumDiscarded pr'
        = Suc (length (PR_Settled pr) + length (PR_Expired pr) + PR_NumDiscarded pr)
    \<and> set (PR_Settled pr' @ PR_Expired pr') \<subseteq> set (PR_Settled pr @ PR_Expired pr) \<union> {r. SR_Claim r = c}"
  proof (cases r)
    case (Inl e)
    obtain evs where "ST_Chain (PR_Settling pr') = emit evs ((ST_Chain st)\<lparr>TCh_Proofs := ?ps'\<rparr>)"
      "PR_Settled pr' = PR_Settled pr" "PR_Expired pr' = PR_Expired pr" "PR_NumDiscarded pr' = PR_NumDiscarded pr + 1"
      using step run Inl pst
      by (auto simp: settle_step_def discardFaultyClaim_def res_simps split: option.splits go_error.splits)
    then show ?thesis using d same by (simp add: decided_def emit_def)
  next
    case (Inr cs)
    have claim: "SR_Claim (CS_SettlementResult cs) = c" using out run Inr by (simp add: booked_def)
    have "if CS_IsSettled cs then settles env ch c else expires env ch c"
      using dec [of cs] run Inr settles_same [OF ch] by (auto split: if_splits)
    moreover have pr': "ST_Chain (PR_Settling pr') = (ST_Chain st)\<lparr>TCh_Proofs := ?ps'\<rparr>"
      "PR_NumDiscarded pr' = PR_NumDiscarded pr"
      "PR_Settled pr' = PR_Settled pr @ (if CS_IsSettled cs then [CS_SettlementResult cs] else [])"
      "PR_Expired pr' = PR_Expired pr @ (if CS_IsSettled cs then [] else [CS_SettlementResult cs])"
      using step run Inr pst by (auto simp: settle_step_def Let_def split: option.splits if_splits)
    ultimately show ?thesis
      using d claim same [of "TCh_Events (ST_Chain st)"] by (auto simp: decided_def)
  qed
  then show "decided env ch pr'" and "TCh_Proofs (ST_Chain (PR_Settling pr')) = ?ps'"
    and "length (PR_Settled pr') + length (PR_Expired pr') + PR_NumDiscarded pr'
      = Suc (length (PR_Settled pr) + length (PR_Expired pr) + PR_NumDiscarded pr)"
    and "set (PR_Settled pr' @ PR_Expired pr') \<subseteq> set (PR_Settled pr @ PR_Expired pr) \<union> {r. SR_Claim r = c}"
    by blast+
qed

text \<open>All collected claims.\<close>

definition claim_id :: "claim \<Rightarrow> string" where
  "claim_id c = ClaimPrimaryKey (GetHeaderSessionId (Claim_SessionHeader c)) (Claim_SupplierOperatorAddress c)"

definition handled :: "settlement_progress \<Rightarrow> nat" where
  "handled pr = length (PR_Settled pr) + length (PR_Expired pr) + PR_NumDiscarded pr"

lemma settle_all_decides:
  assumes "foldR (settle_step env) pr cs = Inr pr'" and "sdk_ok (TE_Sdk env)"
    and "progress_ok st0 pr" and "decided env ch pr"
  shows "progress_ok st0 pr' \<and> decided env ch pr' \<and> handled pr' = handled pr + length cs
    \<and> set (PR_Settled pr' @ PR_Expired pr') \<subseteq> set (PR_Settled pr @ PR_Expired pr) \<union> {r. SR_Claim r \<in> set cs}
    \<and> (\<forall>i x. GetClaim (TCh_Proofs (ST_Chain (PR_Settling pr'))) i x
         = (if ClaimPrimaryKey i x \<in> claim_id ` set cs then None
            else GetClaim (TCh_Proofs (ST_Chain (PR_Settling pr))) i x))"
  using assms(1,3,4)
proof (induction cs arbitrary: pr)
  case Nil
  then show ?case by simp
next
  case (Cons c cs)
  obtain pr1 where 1: "settle_step env pr c = Inr pr1" and 2: "foldR (settle_step env) pr1 cs = Inr pr'"
    using Cons.prems(1) by (auto simp: res_simps)
  have ok: "settling_ok (PR_Settling pr)" using Cons.prems(2) by (auto simp: progress_ok_def books_def)
  note d = settle_step_decides [OF 1 assms(2) ok Cons.prems(3)]
  have p: "progress_ok st0 pr1" by (rule settle_step_progress [OF 1 Cons.prems(2) assms(2)])
  note IH = Cons.IH [OF 2 p d(1)]
  have "handled pr' = handled pr + length (c # cs)"
    using IH d(3) by (simp add: handled_def)
  moreover have "set (PR_Settled pr' @ PR_Expired pr')
      \<subseteq> set (PR_Settled pr @ PR_Expired pr) \<union> {r. SR_Claim r \<in> set (c # cs)}"
    using IH d(4) by (force simp del: set_append)
  moreover have "GetClaim (TCh_Proofs (ST_Chain (PR_Settling pr'))) i x
      = (if ClaimPrimaryKey i x \<in> claim_id ` set (c # cs) then None
         else GetClaim (TCh_Proofs (ST_Chain (PR_Settling pr))) i x)" for i x
    using IH by (auto simp: d(2) GetClaim_RemoveClaim claim_id_def)
  ultimately show ?case using IH by blast
qed

text \<open>The ripe claims among those of the candidate heights are collected.\<close>

lemma collect_steps:
  assumes "foldR (collect_step sh h) (cs, sc, n) xs = Inr (cs', sc', n')"
  shows "set cs' = set cs \<union> {c. (\<exists>k. (k, Inr c) \<in> set xs) \<and> is_ripe sh h c}"
  using assms
proof (induction xs arbitrary: cs sc n)
  case Nil
  then show ?case by simp
next
  case (Cons e xs)
  obtain k v where e: "e = (k, v)" by (cases e)
  obtain cs1 sc1 n1 where 1: "collect_step sh h (cs, sc, n) (k, v) = Inr (cs1, sc1, n1)"
    and 2: "foldR (collect_step sh h) (cs1, sc1, n1) xs = Inr (cs', sc', n')"
    using Cons.prems e by (auto simp: res_simps)
  have "set cs1 = set cs \<union> {c. v = Inr c \<and> is_ripe sh h c}"
    using 1 by (auto simp: collect_step_def split: sum.splits if_splits option.splits)
  then show ?case using Cons.IH [OF 2] e by auto
qed

lemma collected_claims:
  assumes "collect_claims ch h sc = Inr (cs, sc', n)"
  shows "c \<in> set cs \<longleftrightarrow> is_ripe (TCh_Shared ch) h c
    \<and> (\<exists>e k. e \<in> set (candidateSessionEndHeightsForLiveParams (TCh_Shared ch) (SC_SharedParams sc) h)
         \<and> (k, Inr c) \<in> set (GetSessionEndHeightClaimsIterator (TCh_Proofs ch) e))"
  using collect_steps [OF assms [unfolded collect_claims_def]] by auto

lemma settle_collected_decides:
  assumes run: "settle_collected env ch = Inr pr" and sdk: "sdk_ok (TE_Sdk env)"
    and ok: "settling_ok \<lparr>ST_Chain = ch, ST_Ctx = NewSettlementContext ch\<rparr>"
  obtains cs sc n where "collect_claims ch (TE_Height env) (NewSettlementContext ch) = Inr (cs, sc, n)"
    and "decided env ch pr" and "handled pr = length cs + n"
    and "\<forall>r \<in> set (PR_Settled pr @ PR_Expired pr). SR_Claim r \<in> set cs"
    and "\<forall>i x. GetClaim (TCh_Proofs (ST_Chain (PR_Settling pr))) i x
         = (if ClaimPrimaryKey i x \<in> claim_id ` set cs then None else GetClaim (TCh_Proofs ch) i x)"
proof -
  let ?st = "\<lparr>ST_Chain = ch, ST_Ctx = NewSettlementContext ch\<rparr>"
  let ?pr0 = "\<lambda>sc n. \<lparr>PR_Settling = \<lparr>ST_Chain = ch, ST_Ctx = sc\<rparr>, PR_Settled = [], PR_Expired = [], PR_NumDiscarded = n\<rparr>"
  obtain cs sc n sc1 where c: "collect_claims ch (TE_Height env) (NewSettlementContext ch) = Inr (cs, sc, n)"
    and b: "foldR (budget_step env ch) sc cs = Inr sc1"
    and s: "foldR (settle_step env) (?pr0 sc1 n) cs = Inr pr"
    using run by (auto simp: settle_collected_def res_simps)
  have "progress_ok ?st (?pr0 sc1 n)" by (rule settle_start_progress [OF c b ok])
  moreover have "decided env ch (?pr0 sc1 n)" by (simp add: decided_def same_rules_refl)
  ultimately have "decided env ch pr \<and> handled pr = handled (?pr0 sc1 n) + length cs
      \<and> set (PR_Settled pr @ PR_Expired pr) \<subseteq> {r. SR_Claim r \<in> set cs}
      \<and> (\<forall>i x. GetClaim (TCh_Proofs (ST_Chain (PR_Settling pr))) i x
         = (if ClaimPrimaryKey i x \<in> claim_id ` set cs then None else GetClaim (TCh_Proofs ch) i x))"
    using settle_all_decides [OF s sdk] by simp
  then show ?thesis
    using that [OF c] by (simp add: handled_def) blast
qed

section \<open>No claim is left behind\<close>

text \<open>The end height of a session is a candidate in the block after its proof window closes, by the
  parameters of its own epoch.\<close>

lemma candidate_step_result:
  "\<not> snd (candidate_step h s h0 p)" "snd (fst (candidate_step h s h0 p)) = h0"
  "e \<in> set (fst s) \<Longrightarrow> e \<in> set (fst (fst (candidate_step h s h0 p)))"
  by (cases s; simp add: candidate_step_def Let_def add_candidate_def)+

lemma iterate_candidates_Cons [simp]: "iterate_history (candidate_step h) s ((k, HEntry h0 (Some p)) # es)
    = iterate_history (candidate_step h) (fst (candidate_step h s h0 p)) es"
  using candidate_step_result(1) [of h s h0 p] by (cases "candidate_step h s h0 p") simp

lemma iterate_candidates_append:
  "iterate_history (candidate_step h) s (xs @ ys)
     = iterate_history (candidate_step h) (iterate_history (candidate_step h) s xs) ys"
proof (induction xs arbitrary: s)
  case (Cons e xs)
  then show ?case by (cases "(candidate_step h, s, e # xs)" rule: iterate_history.cases) (simp_all del: iterate_history.simps(4))
qed simp

lemma candidate_kept: "e \<in> set (fst s) \<Longrightarrow> e \<in> set (fst (iterate_history (candidate_step h) s xs))"
proof (induction xs arbitrary: s)
  case (Cons x xs)
  then show ?case
    by (cases "(candidate_step h, s, x # xs)" rule: iterate_history.cases)
      (simp_all del: iterate_history.simps(4) add: candidate_step_result(3))
qed simp

lemma candidate_next:
  "snd (iterate_history (candidate_step h) (cands, n) (rev (repr es))) = (if es = [] then n else fst (hd es))"
  by (cases es) (auto simp: repr_def iterate_candidates_append candidate_step_result(2)
    simp del: iterate_history.simps(4))

lemma candidate_added:
  assumes "h = e + GetSessionEndToProofWindowCloseBlocks p + 1" and "0 \<le> GetSessionEndToProofWindowCloseBlocks p"
    and "1 \<le> e" and "h < 2 ^ 61" and "e < n" and "n \<le> h + 1"
  shows "e \<in> set (fst (fst (candidate_step h (cands, n) h0 p)))" and "e \<in> set (add_candidate h p cands)"
proof -
  let ?w = "GetSessionEndToProofWindowCloseBlocks p"
  have "i64 (?w + 1) = ?w + 1" "i64 (h - (?w + 1)) = e" "i64 (n - 1) = n - 1" "i64 (n - 1 + ?w) = n - 1 + ?w"
    "i64 (n - 1 + ?w + 1) = n - 1 + ?w + 1"
    using assms by (auto intro!: i64_id simp: in_i64_def)
  then show "e \<in> set (add_candidate h p cands)" and "e \<in> set (fst (fst (candidate_step h (cands, n) h0 p)))"
    using assms by (auto simp: add_candidate_def candidate_step_def Let_def)
qed

lemma window_close_candidate:
  assumes inv: "grid_inv h sh" and h: "chain_height h" and e: "1 \<le> e" "e < h"
    and close: "h = e + GetSessionEndToProofWindowCloseBlocks (GetParamsAtHeight sh e) + 1"
  shows "e \<in> set (candidateSessionEndHeightsForLiveParams sh (GetParams sh) h)"
    and "GetHeaderEndHeight (Claim_SessionHeader c) = e \<Longrightarrow> is_ripe sh h c"
proof -
  let ?p = "GetParamsAtHeight sh e" and ?es = "state_epochs sh"
  have hb: "h < 2 ^ 61" using h by (simp add: chain_height_def)
  have eb: "height_bounded e" and hh: "height_bounded h" using e hb by (simp_all add: height_bounded_def)
  have w: "0 \<le> GetSessionEndToProofWindowCloseBlocks ?p" using close e by simp
  have "i64 (e + GetSessionEndToProofWindowCloseBlocks ?p) = h - 1"
    using close e hb by (subst i64_id) (simp_all add: in_i64_def)
  then show "is_ripe sh h c" if "GetHeaderEndHeight (Claim_SessionHeader c) = e"
    using that by (simp add: is_ripe_def Let_def)
  show "e \<in> set (candidateSessionEndHeightsForLiveParams sh (GetParams sh) h)"
  proof (cases "ParamsHistory sh = []")
    case True
    then have "?p = GetParams sh" by (simp add: GetParamsAtHeight_def kv_rev_below_def)
    then show ?thesis
      using True candidate_added(2) [OF close w e(1) hb, of "h + 1" "[]"] e
      by (simp add: candidateSessionEndHeightsForLiveParams_def IterateParamsHistoryReverse_def kv_rev_below_def)
  next
    case False
    then have es: "ParamsHistory sh = repr ?es" "heights_ok ?es" "?es \<noteq> []" "fst (hd ?es) \<le> e"
      using inv e by (auto simp: grid_inv_def Let_def epochs_ok_def)
    obtain xs h0 q ys where s: "?es = xs @ (h0, q) # ys" "h0 \<le> e" "ys = [] \<or> e < fst (hd ys)"
      using es(3,4) by (rule split_at_height)
    have so: "sorted_wrt (\<lambda>e f. fst e < fst f) ?es"
      using inv by (intro epochs_sorted) (simp add: grid_inv_def epochs_ok_def Let_def)
    then have q: "?p = q" using GetParamsAtHeight_repr [OF es(1,2) eb es(3,4)] s by (simp add: epoch_at_split)
    let ?ys = "filter (\<lambda>e. fst e \<le> h) ys"
    have "\<forall>f \<in> set xs. fst f \<le> h" using so s(1,2) e by (fastforce simp: sorted_wrt_append)
    then have "filter (\<lambda>e. fst e \<le> h) ?es = xs @ (h0, q) # ?ys" using s e by simp
    moreover have "i64 (h + 1) = h + 1" using hb h by (intro i64_id) (simp add: in_i64_def chain_height_def)
    ultimately have k: "kv_rev_below (uint64_of (i64 (h + 1))) (ParamsHistory sh)
        = rev (repr ?ys) @ (uint64_of h0, HEntry h0 (Some q)) # rev (repr xs)"
      unfolding es(1) kv_rev_below_def by (simp add: filter_repr [OF es(2) hh]) (simp add: repr_def)
    obtain cands n where it: "iterate_history (candidate_step h) (add_candidate h (GetParams sh) [], i64 (h + 1)) (rev (repr ?ys)) = (cands, n)"
      by (metis surj_pair)
    have "n = (if ?ys = [] then h + 1 else fst (hd ?ys))"
      using candidate_next [of h "add_candidate h (GetParams sh) []" "i64 (h + 1)" ?ys] it \<open>i64 (h + 1) = h + 1\<close> by simp
    moreover have "e < fst f" if "f \<in> set ys" for f
      using that so s(1,3) by (cases ys) (auto simp: sorted_wrt_append)
    ultimately have "e < n \<and> n \<le> h + 1"
      using e hd_in_set [of ?ys] by (auto simp del: hd_in_set)
    then have "e \<in> set (fst (fst (candidate_step h (cands, n) h0 q)))"
      using candidate_added(1) [OF close w e(1) hb, of n cands h0] q by simp
    then show ?thesis
      using candidate_kept [of e "fst (candidate_step h (cands, n) h0 q)" h "rev (repr xs)"]
      by (simp add: candidateSessionEndHeightsForLiveParams_def IterateParamsHistoryReverse_def k
          iterate_candidates_append it) (simp add: candidate_step_def Let_def)
  qed
qed

text \<open>A stored claim is found under the end height of its session.\<close>

lemma stored_claim_listed:
  assumes "cs.store_ok ps" and "GetClaim ps i x = Some c"
  shows "\<exists>k. (k, Inr c) \<in> set (GetSessionEndHeightClaimsIterator ps (claim_end c))"
    and "claim_id c = ClaimPrimaryKey i x"
proof -
  have m: "map_of (Claims ps) (ClaimPrimaryKey i x) = Some c"
    using assms(2) by (simp add: GetClaim_def getClaimByPrimaryKey_def)
  note st = cs.stored [OF assms(1) m]
  show "claim_id c = ClaimPrimaryKey i x" using st by (simp add: claim_id_def claim_key_def)
  let ?k = "ClaimSupplierEndSessionHeightKey (claim_end c) (ClaimPrimaryKey i x)"
  have "(?k, ClaimPrimaryKey i x) \<in> set (ClaimHeightIndex ps)"
    using st by (auto simp: cs.listed_def dest: map_of_SomeD)
  moreover have "prefix (ClaimSupplierEndSessionHeightKey (claim_end c) []) ?k"
    by (simp add: ClaimSupplierEndSessionHeightKey_def KeyComposite_def prefix_def)
  ultimately show "\<exists>k. (k, Inr c) \<in> set (GetSessionEndHeightClaimsIterator ps (claim_end c))"
    unfolding GetSessionEndHeightClaimsIterator_def kv_prefix_def
    using m by (intro exI [of _ ?k], simp only: set_map set_filter) (rule image_eqI [of _ _ "(?k, ClaimPrimaryKey i x)"], simp_all)
qed

section \<open>The block\<close>

lemma expired_keeps_proofs:
  "ExecutePendingExpiredResults env rs st = Inr st' \<Longrightarrow> TCh_Proofs (ST_Chain st') = TCh_Proofs (ST_Chain st)"
proof -
  have slash: "TCh_Proofs (ST_Chain s') = TCh_Proofs (ST_Chain s)" if "slashSupplierStake env s r = Inr s'" for s r s'
    using that by (auto simp: slashSupplierStake_def Let_def res_simps emit_def split: option.splits if_splits)
  assume run: "ExecutePendingExpiredResults env rs st = Inr st'"
  show ?thesis
  proof (rule foldR_inv [OF run [unfolded ExecutePendingExpiredResults_def],
        where P = "\<lambda>s. TCh_Proofs (ST_Chain s) = TCh_Proofs (ST_Chain st)"])
    fix s r s' assume "TCh_Proofs (ST_Chain s) = TCh_Proofs (ST_Chain st)" and "slash_step env s r = Inr s'"
    then show "TCh_Proofs (ST_Chain s') = TCh_Proofs (ST_Chain st)"
      using slash [of s r s'] by (auto simp: slash_step_def res_simps split: sum.splits go_error.splits)
  qed simp
qed

lemma settled_batch:
  assumes "FlushBatchedValidatorRewards sk acc h = Inr (Some b, evs)" shows "SR_Claim b = zero_claim"
proof -
  obtain evs' where run: "foldR (flush_step sk h) (NewClaimSettlementResult zero_claim, []) (sort_key fst acc) = Inr (b, evs')"
    using assms by (auto simp: FlushBatchedValidatorRewards_def res_simps split: if_splits)
  have "SR_Claim (fst (b, evs')) = zero_claim"
  proof (rule foldR_inv [OF run, where P = "\<lambda>s. SR_Claim (fst s) = zero_claim"])
    fix s x s' assume "SR_Claim (fst s) = zero_claim" and "flush_step sk h s x = Inr s'"
    then show "SR_Claim (fst s') = zero_claim"
      by (cases s; cases x; cases s') (auto simp: flush_step_def res_simps tokenomics_pays_def with_acct_def
          dest!: DistributeValidatorRewards_pays split: if_splits)
  qed (simp add: NewClaimSettlementResult_def)
  then show ?thesis by simp
qed

text \<open>What a block settles, expires and leaves.\<close>

lemma settled_block:
  assumes run: "SettlePendingClaims env ch = Inr so" and sdk: "sdk_ok (TE_Sdk env)"
    and ok: "settling_ok \<lparr>ST_Chain = ch, ST_Ctx = NewSettlementContext ch\<rparr>"
  obtains cs sc n rs bs where "collect_claims ch (TE_Height env) (NewSettlementContext ch) = Inr (cs, sc, n)"
    and "SO_Settled so = rs @ bs" and "length bs \<le> 1" and "\<And>b. b \<in> set bs \<Longrightarrow> SR_Claim b = zero_claim"
    and "\<And>r. r \<in> set rs \<Longrightarrow> SR_Claim r \<in> set cs \<and> settles env ch (SR_Claim r)"
    and "\<And>r. r \<in> set (SO_Expired so) \<Longrightarrow> SR_Claim r \<in> set cs \<and> expires env ch (SR_Claim r)"
    and "length rs + length (SO_Expired so) + SO_NumDiscarded so = length cs + n"
    and "\<And>i x. GetClaim (TCh_Proofs (SO_Chain so)) i x
         = (if ClaimPrimaryKey i x \<in> claim_id ` set cs then None else GetClaim (TCh_Proofs ch) i x)"
proof -
  obtain pr b evs ch2 st3 where pr: "settle_collected env ch = Inr pr"
    and fl: "FlushBatchedValidatorRewards (TE_Staking env) (SC_Accumulator (ST_Ctx (PR_Settling pr)))
        (first_session_end (PR_Settled pr)) = Inr (b, evs)"
    and ex: "ExecutePendingSettledResults (TE_Sdk env) (case b of None \<Rightarrow> PR_Settled pr | Some r \<Rightarrow> PR_Settled pr @ [r])
        (emit evs (FlushAllActorsToStore (ST_Ctx (PR_Settling pr)) (ST_Chain (PR_Settling pr)))) = Inr ch2"
    and sl: "ExecutePendingExpiredResults env (PR_Expired pr) \<lparr>ST_Chain = ch2, ST_Ctx = ST_Ctx (PR_Settling pr)\<rparr> = Inr st3"
    and so: "SO_Chain so = ST_Chain st3" "SO_NumDiscarded so = PR_NumDiscarded pr" "SO_Expired so = PR_Expired pr"
      "SO_Settled so = (case b of None \<Rightarrow> PR_Settled pr | Some r \<Rightarrow> PR_Settled pr @ [r])"
    using run by (auto simp: SettlePendingClaims_def Let_def res_simps)
  obtain cs sc n where c: "collect_claims ch (TE_Height env) (NewSettlementContext ch) = Inr (cs, sc, n)"
    and d: "decided env ch pr" and k: "handled pr = length cs + n"
    and s: "\<forall>r \<in> set (PR_Settled pr @ PR_Expired pr). SR_Claim r \<in> set cs"
    and g: "\<forall>i x. GetClaim (TCh_Proofs (ST_Chain (PR_Settling pr))) i x
         = (if ClaimPrimaryKey i x \<in> claim_id ` set cs then None else GetClaim (TCh_Proofs ch) i x)"
    by (rule settle_collected_decides [OF pr sdk ok])
  define bs where "bs = (case b of None \<Rightarrow> [] | Some r \<Rightarrow> [r])"
  have "only_bank (emit evs (FlushAllActorsToStore (ST_Ctx (PR_Settling pr)) (ST_Chain (PR_Settling pr)))) ch2"
    using ExecutePendingSettledResults_adds [OF ex sdk] by (simp add: adds_def)
  then have "TCh_Proofs ch2 = TCh_Proofs (ST_Chain (PR_Settling pr))"
    by (cases ch2) (simp add: only_bank_def emit_def FlushAllActorsToStore_def)
  then have p: "TCh_Proofs (SO_Chain so) = TCh_Proofs (ST_Chain (PR_Settling pr))"
    using expired_keeps_proofs [OF sl] so(1) by simp
  show ?thesis
  proof (rule that [OF c, of "PR_Settled pr" bs])
    show "SO_Settled so = PR_Settled pr @ bs" "length bs \<le> 1"
      using so(4) by (simp_all add: bs_def split: option.split)
    show "SR_Claim r = zero_claim" if "r \<in> set bs" for r
      using that fl settled_batch by (auto simp: bs_def split: option.splits)
    show "SR_Claim r \<in> set cs \<and> settles env ch (SR_Claim r)" if "r \<in> set (PR_Settled pr)" for r
      using that s d by (simp add: decided_def)
    show "SR_Claim r \<in> set cs \<and> expires env ch (SR_Claim r)" if "r \<in> set (SO_Expired so)" for r
      using that s d so(3) by (simp add: decided_def)
    show "length (PR_Settled pr) + length (SO_Expired so) + SO_NumDiscarded so = length cs + n"
      using k so by (simp add: handled_def)
    show "GetClaim (TCh_Proofs (SO_Chain so)) i x
         = (if ClaimPrimaryKey i x \<in> claim_id ` set cs then None else GetClaim (TCh_Proofs ch) i x)" for i x
      using g p by simp
  qed
qed

section \<open>The validators' part\<close>

lemma flush_steps_pay:
  assumes run: "foldR (flush_step sk h) (r, evs) xs = Inr (r', evs')" and sk: "staking_ok sk"
    and v: "SK_BondedValidators sk = Inr vs" "v \<in> set vs" "SK_AccAddress sk (Val_Operator v) \<noteq> None" "0 < Val_BondedTokens v"
    and xs: "\<forall>e \<in> set xs. 0 \<le> snd e \<and> fst e \<noteq> UNSPECIFIED"
  shows "\<exists>ts. r' = with_acct ts r \<and> pays_from Tokenomics_ModuleName ts \<and> acct_total ts = amount_total xs"
  using run xs
proof (induction xs arbitrary: r evs)
  case Nil
  then have "r' = with_acct [] r" by simp
  then show ?case by (intro exI [of _ "[]"]) (simp add: pays_from_def amount_total_def)
next
  case (Cons e xs)
  obtain op n where e: "e = (op, n)" by (cases e)
  obtain r1 evs1 where 1: "flush_step sk h (r, evs) (op, n) = Inr (r1, evs1)"
    and 2: "foldR (flush_step sk h) (r1, evs1) xs = Inr (r', evs')"
    using Cons.prems(1) e by (auto simp: res_simps)
  have n: "0 \<le> n" "op \<noteq> UNSPECIFIED" using Cons.prems(2) e by auto
  obtain ts evs2 where d: "DistributeValidatorRewards sk r (upokt n) op h = Inr (with_acct ts r, evs2)"
    and ts: "pays_from Tokenomics_ModuleName ts" "acct_total ts = n"
    by (rule DistributeValidatorRewards_ok [OF sk n(1) v(1) n(2), of r h v]) (use v in auto)
  have "\<exists>ts. r1 = with_acct ts r \<and> pays_from Tokenomics_ModuleName ts \<and> acct_total ts = n"
  proof (cases "n = 0")
    case True
    then have "r1 = with_acct [] r" using 1 by (simp add: flush_step_def)
    then show ?thesis using True by (intro exI [of _ "[]"]) (simp add: pays_from_def)
  next
    case False
    then have "r1 = with_acct ts r" using 1 d n by (auto simp: flush_step_def NewCoin_def upokt_def res_simps)
    then show ?thesis using ts by blast
  qed
  then obtain ts1 where ts1: "r1 = with_acct ts1 r" "pays_from Tokenomics_ModuleName ts1" "acct_total ts1 = n" by blast
  have "\<forall>e \<in> set xs. 0 \<le> snd e \<and> fst e \<noteq> UNSPECIFIED" using Cons.prems(2) by simp
  from Cons.IH [OF 2 this] obtain ts2 where ts2: "r' = with_acct ts2 r1" "pays_from Tokenomics_ModuleName ts2"
    "acct_total ts2 = amount_total xs" by blast
  then show ?case using ts1 e
    by (intro exI [of _ "ts1 @ ts2"]) (auto simp: pays_from_def amount_total_def)
qed

end
