(* ===== verification/ProofProps.thy ===== *)
theory ProofProps
  imports ProofChain
begin

text \<open>The properties of the proof module.\<close>

section \<open>Claims\<close>

text \<open>C34. A claim is accepted only from a supplier of the onchain session at the header's start height,
  under that session's identifier, inside the claim window that the header's own end height gives, and
  with a Merkle sum equal to the number of relays times the service's rate at the session start. The
  claim is recorded as pending; every other claim, and all proofs, are untouched.\<close>
theorem accepted_claim_is_checked:
  assumes "CreateClaim sdk sha3 ext env msg st = Inr (st', ev)"
  shows "\<exists>header s numRelays cupr open' close'. MCC_SessionHeader msg = Some header
    \<and> GetSession sdk sha3 (PE_Session env) (Some \<lparr>GSR_ApplicationAddress = SH_ApplicationAddress header,
         GSR_ServiceId = SH_ServiceId header, GSR_BlockHeight = SH_SessionStartBlockHeight header\<rparr>) = Inr s
    \<and> SH_SessionId header = Session_Id s
    \<and> MCC_SupplierOperatorAddress msg \<in> OperatorAddress ` set (Session_Suppliers s)
    \<and> GetClaimWindowOpenHeight (GetParamsAtHeight (env_shared env) (SH_SessionEndBlockHeight header))
         (SH_SessionEndBlockHeight header) = Inr open'
    \<and> GetClaimWindowCloseHeight (GetParamsAtHeight (env_shared env) (SH_SessionEndBlockHeight header))
         (SH_SessionEndBlockHeight header) = Inr close'
    \<and> open' \<le> env_height env \<and> env_height env \<le> close'
    \<and> rootCount ext (MCC_RootHash msg) = Inr numRelays \<and> 0 < numRelays
    \<and> GetServiceComputeUnitsPerRelayAtHeight (PE_Service env) (SH_ServiceId header)
         (SH_SessionStartBlockHeight header) = Some cupr
    \<and> rootSum ext (MCC_RootHash msg) = Inr (numRelays * cupr)
    \<and> (\<forall>k. map_of (Claims st') k = (if k = claim_key (claim_of_msg msg) then Some (claim_of_msg msg)
         else map_of (Claims st) k))
    \<and> Proofs st' = Proofs st"
  using assms
proof (rule CreateClaim_Inr)
  fix header s numRelays cupr
  assume h: "MCC_SessionHeader msg = Some header" "MsgCreateClaim_ValidateBasic sdk ext msg = Inr ()"
    and q: "queryAndValidateSessionHeader sdk sha3 (PE_Session env) (Some header)
        (MCC_SupplierOperatorAddress msg) = Inr s"
    and w: "validateClaimWindow (env_shared env) (env_height env) (Some header)
        (MCC_SupplierOperatorAddress msg) = Inr ()"
    and r: "rootCount ext (MCC_RootHash msg) = Inr numRelays"
      "GetServiceComputeUnitsPerRelayAtHeight (PE_Service env) (SH_ServiceId header)
         (SH_SessionStartBlockHeight header) = Some cupr"
      "rootSum ext (MCC_RootHash msg) = Inr (numRelays * cupr)"
    and st': "st' = UpsertClaim (claim_of_msg msg) st"
  have "0 < numRelays"
    using h r(1) by (auto simp: MsgCreateClaim_ValidateBasic_def res_simps word_greater_zero_iff)
  moreover obtain open' close' where "GetClaimWindowOpenHeight (GetParamsAtHeight (env_shared env)
        (SH_SessionEndBlockHeight header)) (SH_SessionEndBlockHeight header) = Inr open'"
    "GetClaimWindowCloseHeight (GetParamsAtHeight (env_shared env) (SH_SessionEndBlockHeight header))
        (SH_SessionEndBlockHeight header) = Inr close'"
    "open' \<le> env_height env" "env_height env \<le> close'"
    using w by (auto simp: validateClaimWindow_def res_simps Let_def
        Querier_GetEarliestSupplierClaimCommitHeight_def GetEarliestSupplierClaimCommitHeight_def split: if_splits)
  moreover have "MCC_SupplierOperatorAddress msg \<in> OperatorAddress ` set (Session_Suppliers s)"
    using queryAndValidateSessionHeader_Inr(3) [OF q] by (metis image_eqI)
  moreover have "\<forall>k. map_of (Claims st') k = (if k = claim_key (claim_of_msg msg) then Some (claim_of_msg msg)
      else map_of (Claims st) k)" "Proofs st' = Proofs st"
    using cs.lookup_upsert [of "claim_of_msg msg" st] by (simp_all add: st')
  moreover note queryAndValidateSessionHeader_Inr(1,2) [OF q, unfolded header_some]
  ultimately show ?thesis using h(1) r by blast
qed

text \<open>The header of the onchain session is not compared with the message's end height: the same
  claim is accepted again at any later height, with an end height whose claim window is open then.\<close>

definition with_end :: "int \<Rightarrow> msg_create_claim \<Rightarrow> msg_create_claim" where
  "with_end e msg = msg\<lparr>MCC_SessionHeader :=
     map_option (\<lambda>h. h\<lparr>SH_SessionEndBlockHeight := e\<rparr>) (MCC_SessionHeader msg)\<rparr>"

definition at_height :: "int \<Rightarrow> proof_env \<Rightarrow> proof_env" where
  "at_height n env = env\<lparr>PE_Session := (PE_Session env)\<lparr>E_Height := n\<rparr>\<rparr>"

lemma session_candidates_height [simp]:
  "session_candidates (env\<lparr>E_Height := n\<rparr>) = session_candidates env"
  by (simp add: fun_eq_iff session_candidates_def)

lemma HydrateSession_height:
  assumes "HydrateSession sha3 env (NewSessionHydrator app svc h) = Inr s" and "h \<le> n"
  shows "HydrateSession sha3 (env\<lparr>E_Height := n\<rparr>) (NewSessionHydrator app svc h) = Inr s"
proof -
  let ?e = "env\<lparr>E_Height := n\<rparr>"
  have m: "hydrateSessionMetadata ?e (NewSessionHydrator app svc h)
      = hydrateSessionMetadata env (NewSessionHydrator app svc h)"
    using assms by (auto simp: HydrateSession_def hydrateSessionMetadata_def NewSessionHydrator_def)
  have i: "hydrateSessionID sha3 ?e = hydrateSessionID sha3 env"
    "hydrateSessionApplication ?e = hydrateSessionApplication env"
    by (simp_all add: fun_eq_iff hydrateSessionID_def hydrateSessionApplication_def)
  have s: "hydrateSessionSuppliers sha3 ?e = hydrateSessionSuppliers sha3 env"
  proof -
    have "E_Suppliers ?e = E_Suppliers env" "E_Session ?e = E_Session env" by simp_all
    then show ?thesis unfolding fun_eq_iff hydrateSessionSuppliers_def session_candidates_height Let_def by simp
  qed
  show ?thesis using assms(1) by (simp add: HydrateSession_def m i s)
qed

lemma HydrateSession_not_future:
  assumes "HydrateSession sha3 env (NewSessionHydrator app svc h) = Inr s"
  shows "h \<le> E_Height env"
  using assms by (auto simp: HydrateSession_def hydrateSessionMetadata_def NewSessionHydrator_def res_simps
    split: if_splits)

lemma query_later:
  assumes "queryAndValidateSessionHeader sdk sha3 env (Some header) x = Inr s"
    and "0 < SH_SessionStartBlockHeight header" and "E_Height env \<le> n"
  shows "queryAndValidateSessionHeader sdk sha3 (env\<lparr>E_Height := n\<rparr>)
           (Some (header\<lparr>SH_SessionEndBlockHeight := e\<rparr>)) x = Inr s"
proof -
  note q = queryAndValidateSessionHeader_Inr [OF assms(1)]
  obtain h where h: "h = SH_SessionStartBlockHeight header"
    and hyd: "HydrateSession sha3 env (NewSessionHydrator (SH_ApplicationAddress header) (SH_ServiceId header) h) = Inr s"
    and v: "GetSessionRequest_ValidateBasic sdk \<lparr>GSR_ApplicationAddress = SH_ApplicationAddress header,
         GSR_ServiceId = SH_ServiceId header, GSR_BlockHeight = SH_SessionStartBlockHeight header\<rparr> = Inr ()"
    using q(1) assms(2) by (elim GetSession_Inr) simp
  have "h \<le> n" using HydrateSession_not_future [OF hyd] assms(3) by simp
  then show ?thesis
    using HydrateSession_height [OF hyd] q(2,3) assms(2) v h
    by (auto simp: queryAndValidateSessionHeader_def GetSession_def res_simps foundSupplier_def list_ex_iff)
qed

lemma amounts_cong:
  assumes "Claim_RootHash c = Claim_RootHash d"
    and "GetHeaderServiceId (Claim_SessionHeader c) = GetHeaderServiceId (Claim_SessionHeader d)"
  shows "GetClaimeduPOKT ext c p x = GetClaimeduPOKT ext d p x"
    and "GetNumEstimatedRelays ext c x = GetNumEstimatedRelays ext d x"
    and "GetNumRelays ext c = GetNumRelays ext d"
    and "GetNumClaimedComputeUnits ext c = GetNumClaimedComputeUnits ext d"
proof -
  show n: "GetNumRelays ext c = GetNumRelays ext d"
    and u: "GetNumClaimedComputeUnits ext c = GetNumClaimedComputeUnits ext d"
    using assms(1) by (simp_all add: GetNumRelays_def GetNumClaimedComputeUnits_def)
  have r: "getNumEstimatedComputeUnitsRat ext c x = getNumEstimatedComputeUnitsRat ext d x"
    by (simp add: getNumEstimatedComputeUnitsRat_def u assms(2))
  then have e: "GetNumEstimatedComputeUnits ext c x = GetNumEstimatedComputeUnits ext d x"
    by (simp add: GetNumEstimatedComputeUnits_def)
  show "GetClaimeduPOKT ext c p x = GetClaimeduPOKT ext d p x" by (simp add: GetClaimeduPOKT_def r)
  show "GetNumEstimatedRelays ext c x = GetNumEstimatedRelays ext d x"
    unfolding GetNumEstimatedRelays_def n u e ..
qed

lemma estimated_relays_exist:
  assumes "GetClaimeduPOKT ext c p x = Inr coin" and "GetNumRelays ext c = Inr n"
  shows "\<exists>k. GetNumEstimatedRelays ext c x = Inr k"
proof -
  obtain num den where r: "getNumEstimatedComputeUnitsRat ext c x = Inr (num, den)"
    using assms(1) by (auto simp: GetClaimeduPOKT_def res_simps)
  then obtain cu where "GetNumClaimedComputeUnits ext c = Inr cu"
    by (auto simp: getNumEstimatedComputeUnitsRat_def res_simps split: if_splits)
  then show ?thesis
    using assms(2) r by (simp add: GetNumEstimatedRelays_def GetNumEstimatedComputeUnits_def Let_def)
qed

text \<open>What suffices for a claim to be accepted.\<close>

lemma CreateClaim_accepts:
  assumes header: "MCC_SessionHeader msg = Some header"
    and v: "MsgCreateClaim_ValidateBasic sdk ext msg = Inr ()"
    and q: "queryAndValidateSessionHeader sdk sha3 (PE_Session env) (Some header)
           (MCC_SupplierOperatorAddress msg) = Inr s"
    and w: "validateClaimWindow (env_shared env) (env_height env) (Some header)
           (MCC_SupplierOperatorAddress msg) = Inr ()"
    and r: "rootCount ext (MCC_RootHash msg) = Inr numRelays"
      "GetServiceComputeUnitsPerRelayAtHeight (PE_Service env) (SH_ServiceId header)
           (SH_SessionStartBlockHeight header) = Some cupr"
      "rootSum ext (MCC_RootHash msg) = Inr (numRelays * cupr)"
    and d: "GetRelayMiningDifficultyAtHeight (PE_Service env) (GetHeaderServiceId (Session_Header s))
           (SH_SessionStartBlockHeight header) = Inr difficulty"
    and c: "GetClaimeduPOKT ext (claim_of_msg msg) (GetParamsAtHeight (env_shared env)
           (SH_SessionStartBlockHeight header)) difficulty = Inr coin"
  shows "\<exists>ev. CreateClaim sdk sha3 ext env msg st = Inr (UpsertClaim (claim_of_msg msg) st, ev)"
proof -
  have n: "GetNumRelays ext (claim_of_msg msg) = Inr numRelays"
    "GetNumClaimedComputeUnits ext (claim_of_msg msg) = Inr (numRelays * cupr)"
    using r by (simp_all add: GetNumRelays_def GetNumClaimedComputeUnits_def claim_of_msg_def)
  obtain k where "GetNumEstimatedRelays ext (claim_of_msg msg) difficulty = Inr k"
    using estimated_relays_exist [OF c n(1)] ..
  then show ?thesis
    using v q w n r(2) d c header
    by (simp add: CreateClaim_def getServiceComputeUnitsPerRelay_def claim_of_msg_def Let_def)
qed

text \<open>C35. \<open>CreateClaim\<close> compares only the session identifier of the header with the onchain session,
  and takes the window from the end height the message carries. So whenever it accepts a claim, it
  accepts the same claim with another end height \<open>e\<close> at any later block inside the window of
  \<open>e\<close>, in any state of the claim store, one in which the claim has been settled included: the comment
  says the window is that of the onchain session header.\<close>
theorem claim_accepted_again_with_another_end_height:
  assumes claim: "CreateClaim sdk sha3 ext env msg st = Inr (st', ev)"
    and later: "env_height env \<le> n" and header: "MCC_SessionHeader msg = Some header"
    and e: "SH_SessionStartBlockHeight header < e"
    and window: "validateClaimWindow (env_shared env) n (Some (header\<lparr>SH_SessionEndBlockHeight := e\<rparr>))
      (MCC_SupplierOperatorAddress msg) = Inr ()"
  shows "\<exists>ev'. CreateClaim sdk sha3 ext (at_height n env) (with_end e msg) any
    = Inr (UpsertClaim (claim_of_msg (with_end e msg)) any, ev')"
proof -
  let ?h = "header\<lparr>SH_SessionEndBlockHeight := e\<rparr>" and ?m = "with_end e msg"
  obtain s numRelays cupr difficulty where v: "MsgCreateClaim_ValidateBasic sdk ext msg = Inr ()"
    and q: "queryAndValidateSessionHeader sdk sha3 (PE_Session env) (Some header)
           (MCC_SupplierOperatorAddress msg) = Inr s"
    and r: "rootCount ext (MCC_RootHash msg) = Inr numRelays"
      "GetServiceComputeUnitsPerRelayAtHeight (PE_Service env) (SH_ServiceId header)
           (SH_SessionStartBlockHeight header) = Some cupr"
      "rootSum ext (MCC_RootHash msg) = Inr (numRelays * cupr)"
    and d: "GetRelayMiningDifficultyAtHeight (PE_Service env) (GetHeaderServiceId (Session_Header s))
           (SH_SessionStartBlockHeight header) = Inr difficulty"
    and c: "GetClaimeduPOKT ext (claim_of_msg msg) (GetParamsAtHeight (env_shared env)
           (SH_SessionStartBlockHeight header)) difficulty = Inr (CE_ClaimedUpokt ev)"
    by (rule CreateClaim_Inr [OF claim]) (use header that in auto)
  have hv: "SessionHeader_ValidateBasic sdk header = Inr ()"
    using v header by (auto simp: MsgCreateClaim_ValidateBasic_def res_simps)
  have m: "MCC_SessionHeader ?m = Some ?h" "MCC_SupplierOperatorAddress ?m = MCC_SupplierOperatorAddress msg"
    and root: "MCC_RootHash ?m = MCC_RootHash msg"
    by (simp_all add: with_end_def header)
  have hv': "SessionHeader_ValidateBasic sdk ?h = Inr ()"
    using hv e by (auto simp: SessionHeader_ValidateBasic_def res_simps split: if_splits)
  have mv: "MsgCreateClaim_ValidateBasic sdk ext ?m = Inr ()"
    using v header hv hv' unfolding MsgCreateClaim_ValidateBasic_def m root by (simp split: if_splits)
  have pos: "0 < SH_SessionStartBlockHeight header"
    using hv by (auto simp: SessionHeader_ValidateBasic_def res_simps split: if_splits)
  have q': "queryAndValidateSessionHeader sdk sha3 (PE_Session (at_height n env)) (Some ?h)
      (MCC_SupplierOperatorAddress msg) = Inr s"
    using query_later [OF q pos later] by (simp add: at_height_def)
  have a: "GetClaimeduPOKT ext (claim_of_msg ?m) p x = GetClaimeduPOKT ext (claim_of_msg msg) p x" for p x
    by (rule amounts_cong) (simp_all add: claim_of_msg_def header m root)
  have env: "env_shared (at_height n env) = env_shared env" "env_height (at_height n env) = n"
    "PE_Service (at_height n env) = PE_Service env" by (simp_all add: at_height_def)
  show ?thesis
    by (rule CreateClaim_accepts [OF m(1) mv]) (use q' window r d c in \<open>simp_all add: m(2) root env a\<close>)
qed

section \<open>Proofs\<close>

lemma HydrateSession_header_id:
  "HydrateSession sha3 env sh = Inr s \<Longrightarrow> GetHeaderSessionId (Session_Header s) = Session_Id s"
  by (auto simp: HydrateSession_def res_simps header_some)

lemma GetSession_header:
  assumes "GetSession sdk sha3 env (Some req) = Inr s"
  shows "GetHeaderSessionId (Session_Header s) = Session_Id s"
  using assms by (rule GetSession_Inr) (rule HydrateSession_header_id)

lemma validateProofWindow_Inr:
  assumes "validateProofWindow sh h header x = Inr ()"
  obtains open' close' where "GetProofWindowOpenHeight (GetParamsAtHeight sh (GetHeaderEndHeight header))
      (GetHeaderEndHeight header) = Inr open'"
    and "GetProofWindowCloseHeight (GetParamsAtHeight sh (GetHeaderEndHeight header))
      (GetHeaderEndHeight header) = Inr close'" and "open' \<le> h" and "h \<le> close'"
  using assms by (auto simp: validateProofWindow_def res_simps Let_def
      Querier_GetEarliestSupplierProofCommitHeight_def GetEarliestSupplierProofCommitHeight_def split: if_splits)

lemma validateSessionClaim_Inr:
  assumes "validateSessionClaim st header x = Inr ()"
  obtains c where "GetClaim st (GetHeaderSessionId header) x = Some c"
    and "GetHeaderStartHeight (Claim_SessionHeader c) = GetHeaderStartHeight header"
    and "GetHeaderEndHeight (Claim_SessionHeader c) = GetHeaderEndHeight header"
    and "GetHeaderApplicationAddress (Claim_SessionHeader c) = GetHeaderApplicationAddress header"
    and "GetHeaderServiceId (Claim_SessionHeader c) = GetHeaderServiceId header"
  using assms by (auto simp: validateSessionClaim_def Let_def split: option.splits if_splits)

text \<open>C36. A proof is accepted only inside the proof window of the onchain session of its header, from
  a supplier of that session, and for a stored claim whose start and end heights are those of the
  onchain session (so a claim made with another end height can never be proven). The submission fee
  goes to the module's account, and the claim store is untouched.\<close>
theorem submitted_proof_is_for_the_onchain_session:
  assumes "SubmitProof sdk spendable sha3 ext rx sx env msg (st, lg) = Inr (st', lg', ev)"
  shows "\<exists>header s c open' close' fee. MSP_SessionHeader msg = Some header
    \<and> GetSession sdk sha3 (PE_Session env) (Some \<lparr>GSR_ApplicationAddress = SH_ApplicationAddress header,
         GSR_ServiceId = SH_ServiceId header, GSR_BlockHeight = SH_SessionStartBlockHeight header\<rparr>) = Inr s
    \<and> SH_SessionId header = Session_Id s
    \<and> MSP_SupplierOperatorAddress msg \<in> OperatorAddress ` set (Session_Suppliers s)
    \<and> GetProofWindowOpenHeight (GetParamsAtHeight (env_shared env) (GetHeaderEndHeight (Session_Header s)))
         (GetHeaderEndHeight (Session_Header s)) = Inr open'
    \<and> GetProofWindowCloseHeight (GetParamsAtHeight (env_shared env) (GetHeaderEndHeight (Session_Header s)))
         (GetHeaderEndHeight (Session_Header s)) = Inr close'
    \<and> open' \<le> env_height env \<and> env_height env \<le> close'
    \<and> GetClaim st (Session_Id s) (MSP_SupplierOperatorAddress msg) = Some c
    \<and> GetHeaderStartHeight (Claim_SessionHeader c) = GetHeaderStartHeight (Session_Header s)
    \<and> GetHeaderEndHeight (Claim_SessionHeader c) = GetHeaderEndHeight (Session_Header s)
    \<and> ProofSubmissionFee (Proof_GetParams st) = Some fee
    \<and> lg' = lg @ [SendFromAccountToModule (MSP_SupplierOperatorAddress msg) ''proof'' fee]
    \<and> st' = UpsertProof (newProofFromMsg msg) st \<and> Claims st' = Claims st"
  using assms
proof (rule SubmitProof_Inr)
  fix header c
  let ?x = "MSP_SupplierOperatorAddress msg"
  assume h: "MSP_SessionHeader msg = Some header"
    and wf: "EnsureWellFormedProof sdk sha3 rx sx env st (newProofFromMsg msg) = Inr ()"
    and d: "deductProofSubmissionFee sdk spendable (Proof_GetParams st) ?x lg = Inr lg'"
    and st': "st' = UpsertProof (newProofFromMsg msg) st"
  obtain s where "queryAndValidateSessionHeader sdk sha3 (PE_Session env)
      (Proof_SessionHeader (newProofFromMsg msg)) (Proof_SupplierOperatorAddress (newProofFromMsg msg)) = Inr s"
    and "validateProofWindow (env_shared env) (env_height env) (Session_Header s)
      (Proof_SupplierOperatorAddress (newProofFromMsg msg)) = Inr ()"
    and "validateSessionClaim st (Session_Header s) (Proof_SupplierOperatorAddress (newProofFromMsg msg)) = Inr ()"
    by (rule EnsureWellFormedProof_Inr [OF wf])
  then have q: "queryAndValidateSessionHeader sdk sha3 (PE_Session env) (Some header) ?x = Inr s"
    and w: "validateProofWindow (env_shared env) (env_height env) (Session_Header s) ?x = Inr ()"
    and v: "validateSessionClaim st (Session_Header s) ?x = Inr ()"
    by (simp_all add: newProofFromMsg_def h)
  note q' = queryAndValidateSessionHeader_Inr [OF q, unfolded header_some]
  obtain open' close' where "GetProofWindowOpenHeight (GetParamsAtHeight (env_shared env)
      (GetHeaderEndHeight (Session_Header s))) (GetHeaderEndHeight (Session_Header s)) = Inr open'"
    "GetProofWindowCloseHeight (GetParamsAtHeight (env_shared env) (GetHeaderEndHeight (Session_Header s)))
      (GetHeaderEndHeight (Session_Header s)) = Inr close'" "open' \<le> env_height env" "env_height env \<le> close'"
    by (rule validateProofWindow_Inr [OF w])
  moreover obtain c where "GetClaim st (Session_Id s) ?x = Some c"
    "GetHeaderStartHeight (Claim_SessionHeader c) = GetHeaderStartHeight (Session_Header s)"
    "GetHeaderEndHeight (Claim_SessionHeader c) = GetHeaderEndHeight (Session_Header s)"
    by (rule validateSessionClaim_Inr [OF v, unfolded GetSession_header [OF q'(1)]])
  moreover obtain fee where "ProofSubmissionFee (Proof_GetParams st) = Some fee"
    "lg' = lg @ [SendFromAccountToModule ?x ''proof'' fee]"
    using d by (auto simp: deductProofSubmissionFee_def res_simps split: option.splits if_splits)
  moreover have "?x \<in> OperatorAddress ` set (Session_Suppliers s)" using q'(3) by (metis image_eqI)
  ultimately show ?thesis using h q'(1,2) st' UpsertProof_frame(1) by blast
qed

section \<open>The end of a block\<close>

text \<open>C37. However the end blocker's goroutines interleave, and in whatever order the coordinator then
  removes the processed proofs, the stores and both counters end up as in the run that validates the
  proofs one after the other.\<close>
theorem proof_validation_order_independent:
  assumes ok: "(proof_step sdk spendable sha3 ext rx sx authority)\<^sup>*\<^sup>* (empty_proof_state p) st"
    "Proof_Params_ValidateBasic p = Inr ()" "bech32_no_slash sdk"
    and run: "validation_run check st vc" and order: "mset order = mset (VC_Processed vc)"
  shows "ValidateSubmittedProofs check st
    = Inr (remove_processed order (VC_Store vc), VC_NumValid vc, VC_NumInvalid vc)"
proof -
  have inv: "proof_stores_ok st" using proof_reachable_inv [OF ok] by (simp add: proof_inv_def)
  obtain vs where vs: "foldR (validateProof check) (new_coordinator st) (GetAllProofs st) = Inr vs"
    and r: "validation_run check st vs"
    using sequential_exists [OF inv] run_has_no_panic [OF inv run] by metis
  note a = run_result [OF inv r] and b = run_result [OF inv run]
  have "remove_processed (VC_Processed vs) (VC_Store vs) = remove_processed order (VC_Store vc)"
    using remove_processed_order [of "VC_Processed vs" order] order by (simp add: a b)
  then show ?thesis using vs a b by (simp add: ValidateSubmittedProofs_def)
qed

text \<open>C38. The end blocker removes every proof, and changes of the claims only the validation status
  of those that have a proof: \<open>VALIDATED\<close> when the proof's signatures, path and inclusion hold
  against the claim's root, \<open>INVALID\<close> when not.\<close>
theorem end_blocker_marks_proven_claims:
  assumes "(proof_step sdk spendable sha3 ext rx sx authority)\<^sup>*\<^sup>* (empty_proof_state p) st"
    and "Proof_Params_ValidateBasic p = Inr ()" and "bech32_no_slash sdk"
    and "Proof_EndBlocker sdk rx sx env st = Inr st'"
  shows "Proofs st' = [] \<and> ProofAddressIndex st' = [] \<and> Proof_GetParams st' = Proof_GetParams st
    \<and> map_of (Claims st') = (\<lambda>k. map_option (\<lambda>c. case map_of (Proofs st) k of None \<Rightarrow> c
        | Some q \<Rightarrow> c\<lparr>Claim_ProofValidationStatus :=
            (if EnsureValidProofSignaturesAndClosestPath sdk rx sx env c q = Inr () then VALIDATED else INVALID)\<rparr>)
        (map_of (Claims st) k))"
proof -
  have inv: "proof_stores_ok st" using proof_reachable_inv [OF assms(1-3)] by (simp add: proof_inv_def)
  obtain nv ni where v: "ValidateSubmittedProofs (proof_check_of sdk rx sx env) st = Inr (st', nv, ni)"
    using assms(4) by (auto simp: Proof_EndBlocker_def res_simps)
  note vs = validated_store [OF inv v]
  have "verdict (proof_check_of sdk rx sx env) c q = (if EnsureValidProofSignaturesAndClosestPath sdk rx sx env c q
      = Inr () then VALIDATED else INVALID)" for c q
    by (simp add: verdict_def proof_check_of_def split: sum.splits)
  then have m: "mark (proof_check_of sdk rx sx env) st k = (\<lambda>c. case map_of (Proofs st) k of None \<Rightarrow> c
      | Some q \<Rightarrow> c\<lparr>Claim_ProofValidationStatus :=
          (if EnsureValidProofSignaturesAndClosestPath sdk rx sx env c q = Inr () then VALIDATED else INVALID)\<rparr>)" for k
    by (simp add: fun_eq_iff mark_def split: option.split)
  show ?thesis by (simp only: vs Proof_GetParams_def map_of_marked_claims m fun_eq_iff) simp
qed

text \<open>C39. A claim on record as validated has been validated: whenever a step of the module leaves a
  claim \<open>VALIDATED\<close> that was not so before, the step is an end blocker and the claim's stored
  proof passed every check against it.\<close>
theorem only_checked_claims_are_validated:
  assumes "(proof_step sdk spendable sha3 ext rx sx authority)\<^sup>*\<^sup>* (empty_proof_state p) st"
    and "Proof_Params_ValidateBasic p = Inr ()" and "bech32_no_slash sdk"
    and "proof_step sdk spendable sha3 ext rx sx authority st st'"
    and "map_of (Claims st') k = Some c" and "Claim_ProofValidationStatus c = VALIDATED"
  shows "map_of (Claims st) k = Some c
    \<or> (\<exists>env d q. map_of (Claims st) k = Some d \<and> c = d\<lparr>Claim_ProofValidationStatus := VALIDATED\<rparr>
        \<and> map_of (Proofs st) k = Some q
        \<and> EnsureValidProofSignaturesAndClosestPath sdk rx sx env d q = Inr ())"
  using assms(4)
proof cases
  case (create env msg ev)
  have "st' = UpsertClaim (claim_of_msg msg) st" by (rule CreateClaim_Inr [OF create])
  then show ?thesis
    using assms(5,6) by (auto simp: cs.lookup_upsert claim_of_msg_def split: if_splits)
next
  case (submit env pmsg lg lg' ev)
  have "st' = UpsertProof (newProofFromMsg pmsg) st" by (rule SubmitProof_Inr [OF submit])
  then show ?thesis using assms(5) by simp
next
  case (update_param umsg)
  then show ?thesis using assms(5) by (auto simp: Proof_UpdateParam_def res_simps)
next
  case (update_params upd)
  then show ?thesis using assms(5) by (auto simp: Proof_UpdateParams_def res_simps split: prod.splits)
next
  case (end_block env' st1 nv ni removed)
  let ?check = "proof_check_of sdk rx sx env'"
  have ok: "proof_stores_ok st" using proof_reachable_inv [OF assms(1-3)] by (simp add: proof_inv_def)
  have "map_of (marked_claims ?check st) k = Some c"
    using remove_claims_lookup [OF assms(5) [unfolded end_block(1)]]
    unfolding validated_store(1) [OF ok end_block(2)] .
  then obtain d where d: "map_of (Claims st) k = Some d" "c = mark ?check st k d"
    by (auto simp: map_of_marked_claims)
  show ?thesis
  proof (cases "map_of (Proofs st) k")
    case None
    then show ?thesis using d by (simp add: mark_def)
  next
    case (Some q)
    then show ?thesis
      using d assms(6) by (auto simp: mark_def verdict_def proof_check_of_def split: sum.splits)
  qed
qed

text \<open>C40. Every claim on record is well-typed: it has a valid session header and supplier address, a
  root of 48 bytes, a positive number of relays and a positive sum that is that number times a rate;
  every proof on record has a claim; and the parameters on record pass their own validation.\<close>
theorem claims_are_well_typed:
  assumes "(proof_step sdk spendable sha3 ext rx sx authority)\<^sup>*\<^sup>* (empty_proof_state p) st"
    and "Proof_Params_ValidateBasic p = Inr ()" and "bech32_no_slash sdk"
  shows "(\<forall>(k, c) \<in> set (Claims st). k = claim_key c \<and> claim_typed sdk ext c)
    \<and> fst ` set (Proofs st) \<subseteq> fst ` set (Claims st)
    \<and> Proof_Params_ValidateBasic (Proof_GetParams st) = Inr ()"
proof -
  have inv: "proof_inv sdk ext st" by (rule proof_reachable_inv [OF assms])
  then have ok: "cs.store_ok st" by (simp add: proof_inv_def proof_stores_ok_def)
  have "k = claim_key c \<and> claim_typed sdk ext c" if "(k, c) \<in> set (Claims st)" for k c
  proof -
    have "map_of (Claims st) k = Some c"
      using that cs.store_okD(1) [OF ok] by (simp add: kv_ok_distinct)
    then show ?thesis using cs.store_okD(4) [OF ok that] inv by (simp add: proof_inv_def)
  qed
  then show ?thesis using inv by (auto simp: proof_inv_def proof_stores_ok_def)
qed

section \<open>Amounts\<close>

lemma floor_of_product:
  "(b * u * m) div (t * g)
    = \<lfloor>real_of_int u * (real_of_int b / real_of_int t) * (real_of_int m / real_of_int g)\<rfloor>"
proof -
  have "real_of_int (b * u * m) / real_of_int (t * g)
      = real_of_int u * (real_of_int b / real_of_int t) * (real_of_int m / real_of_int g)"
    by (simp add: field_simps)
  then show ?thesis by (metis floor_divide_of_int_eq)
qed

text \<open>The claimed amount is the exact product of the root's sum, the difficulty multiplier and the
  price of a compute unit, rounded down once at the end: no precision is lost in between. It is
  non-negative and fits the 256 bits of an SDK integer.\<close>
theorem claimed_amount_is_rounded_once:
  assumes "GetClaimeduPOKT ext c p difficulty = Inr coin"
  shows "\<exists>cu. rootSum ext (Claim_RootHash c) = Inr cu
    \<and> Amount coin = \<lfloor>real (unat cu) * (real (bytesToBigInt BaseRelayDifficultyHashBz)
          / real (bytesToBigInt (TargetHash difficulty)))
        * (real_of_int (int64_of (ComputeUnitsToTokensMultiplier p))
          / real_of_int (int64_of (ComputeUnitCostGranularity p)))\<rfloor>
    \<and> 0 \<le> Amount coin \<and> Amount coin < 2 ^ 256"
proof -
  let ?B = "int (bytesToBigInt BaseRelayDifficultyHashBz)" and ?T = "int (bytesToBigInt (TargetHash difficulty))"
  let ?m = "int64_of (ComputeUnitsToTokensMultiplier p)" and ?g = "int64_of (ComputeUnitCostGranularity p)"
  obtain cu where cu: "rootSum ext (Claim_RootHash c) = Inr cu"
    and am: "Amount coin = (?B * uint cu * ?m) div (?T * ?g)" "0 \<le> Amount coin" "Amount coin < 2 ^ 256"
    using assms
    by (auto simp: GetClaimeduPOKT_def res_simps Let_def getNumEstimatedComputeUnitsRat_def upokt_def
        GetNumClaimedComputeUnits_def GetRelayDifficultyMultiplier_def GetRelayDifficultyProbability_def
        split: if_splits)
  have "Amount coin = \<lfloor>real (unat cu) * (real_of_int ?B / real_of_int ?T) * (real_of_int ?m / real_of_int ?g)\<rfloor>"
    using am(1) floor_of_product [of ?B "uint cu" ?m ?T ?g] by (simp only: uint_nat of_int_of_nat_eq)
  then show ?thesis using cu am(2,3) unfolding of_int_of_nat_eq by blast
qed

end
