(* ===== verification/ProofClaims.thy ===== *)
theory ProofClaims
  imports ProofProps
begin

text \<open>
  The properties of the proof module at concrete inputs: a run in which the supplier \<open>p1\<close> claims the
  session of blocks 21 to 30 and proves it. Roots are 48 bytes, with the sum in bytes 32 to 39 and the
  count in bytes 40 to 47; cryptography is replaced by simple functions.
\<close>

section \<open>A concrete run\<close>

definition run_root :: string where
  "run_root = replicate 32 CHR ''r'' @ PutUint64 100 @ PutUint64 10"

definition word_of_bytes :: "string \<Rightarrow> u64" where
  "word_of_bytes bz = foldl (\<lambda>a c. 256 * a + of_char c) 0 bz"

definition run_deps :: claim_deps where
  "run_deps = \<lparr>
     rootSum = (\<lambda>r. Inr (word_of_bytes (take 8 (drop 32 r)))),
     rootCount = (\<lambda>r. Inr (word_of_bytes (drop 40 r))),
     sha256 = (\<lambda>s. s), marshalClaim = (\<lambda>c. Inr (Claim_RootHash c)), randFloat64 = (\<lambda>n. Fin 0)\<rparr>"

definition run_services :: service_state where
  "run_services = SetService
     \<lparr>Service_Id = ''svc1'', Service_Name = ''one'', ComputeUnitsPerRelay = 10,
      Service_OwnerAddress = ''o1'', Service_Card = None\<rparr>
     \<lparr>ServiceStore = [], DifficultyStore = [], DifficultyHistory = [], CuprHistory = [],
      ServiceParams = Some \<lparr>AddServiceFee = None, TargetNumRelays = 100\<rparr>\<rparr>"

definition run_proof_env :: "supplier_state \<Rightarrow> int \<Rightarrow> proof_env" where
  "run_proof_env st h = \<lparr>PE_Session = (run_env st)\<lparr>E_Height := h\<rparr>, PE_Service = run_services\<rparr>"

definition run_header :: session_header where
  "run_header = \<lparr>SH_ApplicationAddress = ''a2'', SH_ServiceId = ''svc1'',
     SH_SessionId = hex_EncodeToString (rev run_sessionIDBz),
     SH_SessionStartBlockHeight = 21, SH_SessionEndBlockHeight = 30\<rparr>"

definition run_claim :: msg_create_claim where
  "run_claim = \<lparr>MCC_SupplierOperatorAddress = ''p1'', MCC_SessionHeader = Some run_header,
     MCC_RootHash = run_root\<rparr>"

definition run_proof_params :: proof_params where
  "run_proof_params = \<lparr>ProofRequestProbability = Fin (1 / 4), ProofRequirementThreshold = Some (upokt 1000000),
     ProofMissingPenalty = Some (upokt 10), ProofSubmissionFee = Some (upokt 1000000)\<rparr>"

lemma run_query:
  "case two_suppliers of Inl e \<Rightarrow> False | Inr x \<Rightarrow>
     (case queryAndValidateSessionHeader sup_sdk rev (run_env (fst x)) (Some run_header) ''p1'' of
        Inl e \<Rightarrow> False
      | Inr s \<Rightarrow> Session_Header s = Some run_header)"
  by code_simp

lemma run_session_header:
  obtains sst lg s where "two_suppliers = Inr (sst, lg)"
    and "\<And>h e. 22 \<le> h \<Longrightarrow> queryAndValidateSessionHeader sup_sdk rev ((run_env sst)\<lparr>E_Height := h\<rparr>)
           (Some (run_header\<lparr>SH_SessionEndBlockHeight := e\<rparr>)) ''p1'' = Inr s"
    and "Session_Header s = Some run_header"
proof -
  obtain x where x: "two_suppliers = Inr x"
    and "case queryAndValidateSessionHeader sup_sdk rev (run_env (fst x)) (Some run_header) ''p1'' of
        Inl e \<Rightarrow> False
      | Inr s \<Rightarrow> Session_Header s = Some run_header"
    using run_query by (rule res_run)
  then obtain s where s: "queryAndValidateSessionHeader sup_sdk rev (run_env (fst x)) (Some run_header) ''p1'' = Inr s"
    "Session_Header s = Some run_header"
    by (elim res_run)
  have "0 < SH_SessionStartBlockHeight run_header" "E_Height (run_env (fst x)) = 22"
    by (simp_all add: run_header_def run_env_def)
  then show ?thesis
    using that [of "fst x" "snd x" s] x s query_later [OF s(1)] by simp
qed

lemma run_roots:
  "rootCount run_deps run_root = Inr 10" "rootSum run_deps run_root = Inr 100" "length run_root = 48"
  by code_simp+

lemma base_difficulty:
  "GetRelayDifficultyMultiplier BaseRelayDifficultyHashBz = Inr (256 ^ 32 - 1, 256 ^ 32 - 1)"
  by (simp add: GetRelayDifficultyMultiplier_def GetRelayDifficultyProbability_def bytesToBigInt_Base)

definition run_difficulty :: relay_mining_difficulty where
  "run_difficulty = \<lparr>RMD_ServiceId = ''svc1'', RMD_BlockHeight = 0, NumRelaysEma = 100,
     TargetHash = BaseRelayDifficultyHashBz\<rparr>"

lemma run_service:
  "GetServiceComputeUnitsPerRelayAtHeight run_services ''svc1'' 21 = Some 10"
  "GetRelayMiningDifficultyAtHeight run_services ''svc1'' 21 = Inr run_difficulty"
  by code_simp+

lemma run_shared: "GetParamsAtHeight witness_genesis h = NewParams"
  by (simp add: witness_genesis_def GetParamsAtHeight_def GetParams_def kv_rev_below_def)

definition run_stored :: claim where
  "run_stored = claim_of_msg run_claim"

lemma run_stored_simps:
  "Claim_SupplierOperatorAddress run_stored = ''p1''" "Claim_SessionHeader run_stored = Some run_header"
  "Claim_RootHash run_stored = run_root" "Claim_ProofValidationStatus run_stored = PENDING_VALIDATION"
  by (simp_all add: run_stored_def claim_of_msg_def run_claim_def)

lemma run_header_simps:
  "SH_ApplicationAddress run_header = ''a2''" "SH_ServiceId run_header = ''svc1''"
  "SH_SessionStartBlockHeight run_header = 21" "SH_SessionEndBlockHeight run_header = 30"
  by (simp_all add: run_header_def)

lemma run_amount: "GetClaimeduPOKT run_deps run_stored NewParams run_difficulty = Inr (upokt 4200)"
proof -
  have n: "int64_of (ComputeUnitsToTokensMultiplier NewParams) = 42000000"
    "int64_of (ComputeUnitCostGranularity NewParams) = 1000000" by code_simp+
  show ?thesis
    using run_roots
    by (simp add: GetClaimeduPOKT_def getNumEstimatedComputeUnitsRat_def GetNumClaimedComputeUnits_def
      run_stored_simps run_header_simps header_getters run_difficulty_def base_difficulty n)
qed

lemma run_created:
  obtains sst lg s where "two_suppliers = Inr (sst, lg)"
    and "\<exists>ev. CreateClaim sup_sdk rev run_deps (run_proof_env sst 33) run_claim st = Inr (UpsertClaim run_stored st, ev)"
    and "queryAndValidateSessionHeader sup_sdk rev ((run_env sst)\<lparr>E_Height := 38\<rparr>) (Some run_header) ''p1'' = Inr s"
    and "Session_Header s = Some run_header"
proof (rule run_session_header)
  fix sst lg s
  assume t: "two_suppliers = Inr (sst, lg)"
    and q: "\<And>h e. 22 \<le> h \<Longrightarrow> queryAndValidateSessionHeader sup_sdk rev ((run_env sst)\<lparr>E_Height := h\<rparr>)
           (Some (run_header\<lparr>SH_SessionEndBlockHeight := e\<rparr>)) ''p1'' = Inr s"
    and s: "Session_Header s = Some run_header"
  have q': "queryAndValidateSessionHeader sup_sdk rev ((run_env sst)\<lparr>E_Height := h\<rparr>) (Some run_header) ''p1''
      = Inr s" if "22 \<le> h" for h
    using q [OF that, of 30] by (simp add: run_header_def)
  have v: "MsgCreateClaim_ValidateBasic sup_sdk run_deps run_claim = Inr ()" by code_simp
  have w: "validateClaimWindow witness_genesis 33 (Some run_header) ''p1'' = Inr ()" by code_simp
  have "\<exists>ev. CreateClaim sup_sdk rev run_deps (run_proof_env sst 33) run_claim st
      = Inr (UpsertClaim (claim_of_msg run_claim) st, ev)"
  proof (rule CreateClaim_accepts)
    show "MCC_SessionHeader run_claim = Some run_header" by (simp add: run_claim_def)
    show "rootCount run_deps (MCC_RootHash run_claim) = Inr 10"
      "rootSum run_deps (MCC_RootHash run_claim) = Inr (10 * 10)"
      using run_roots by (simp_all add: run_claim_def)
    show "GetClaimeduPOKT run_deps (claim_of_msg run_claim) (GetParamsAtHeight (env_shared (run_proof_env sst 33))
        (SH_SessionStartBlockHeight run_header)) run_difficulty = Inr (upokt 4200)"
      using run_amount by (simp add: run_proof_env_def run_env_def run_shared run_stored_def)
    show "GetRelayMiningDifficultyAtHeight (PE_Service (run_proof_env sst 33)) (GetHeaderServiceId (Session_Header s))
        (SH_SessionStartBlockHeight run_header) = Inr run_difficulty"
      unfolding s header_some run_header_simps using run_service(2) by (simp add: run_proof_env_def)
  qed (use v w q' run_service in \<open>simp_all add: run_claim_def run_proof_env_def run_env_def run_header_simps\<close>)
  then show ?thesis using that [OF t, of s] q' s by (simp add: run_stored_def)
qed

theorem accepted_claim_is_checked_witness:
  "\<exists>sst (s :: session) ev. CreateClaim sup_sdk rev run_deps (run_proof_env sst 33) run_claim (empty_proof_state run_proof_params)
        = Inr (UpsertClaim run_stored (empty_proof_state run_proof_params), ev)
    \<and> Session_Id s = SH_SessionId run_header \<and> ''p1'' \<in> OperatorAddress ` set (Session_Suppliers s)"
proof (rule run_created)
  fix sst lg s
  assume "\<exists>ev. CreateClaim sup_sdk rev run_deps (run_proof_env sst 33) run_claim (empty_proof_state run_proof_params)
      = Inr (UpsertClaim run_stored (empty_proof_state run_proof_params), ev)"
  then obtain ev where c: "CreateClaim sup_sdk rev run_deps (run_proof_env sst 33) run_claim
      (empty_proof_state run_proof_params) = Inr (UpsertClaim run_stored (empty_proof_state run_proof_params), ev)" ..
  have m: "MCC_SessionHeader run_claim = Some run_header" "MCC_SupplierOperatorAddress run_claim = ''p1''"
    by (simp_all add: run_claim_def)
  from accepted_claim_is_checked [OF c] obtain header and s :: session where h: "MCC_SessionHeader run_claim = Some header"
    "SH_SessionId header = Session_Id s" "MCC_SupplierOperatorAddress run_claim \<in> OperatorAddress ` set (Session_Suppliers s)"
    by (elim exE conjE) (rule that; assumption)
  then have "Session_Id s = SH_SessionId run_header" "''p1'' \<in> OperatorAddress ` set (Session_Suppliers s)"
    using m by (metis option.inject)+
  then show ?thesis using c by blast
qed

theorem claim_accepted_again_with_another_end_height_witness:
  "\<exists>sst ev' ev. CreateClaim sup_sdk rev run_deps (run_proof_env sst 33) run_claim (empty_proof_state run_proof_params)
        = Inr (UpsertClaim run_stored (empty_proof_state run_proof_params), ev)
    \<and> CreateClaim sup_sdk rev run_deps (at_height 43 (run_proof_env sst 33)) (with_end 40 run_claim)
        (empty_proof_state run_proof_params)
      = Inr (UpsertClaim (claim_of_msg (with_end 40 run_claim)) (empty_proof_state run_proof_params), ev')"
proof (rule run_created)
  fix sst lg s
  assume "\<exists>ev. CreateClaim sup_sdk rev run_deps (run_proof_env sst 33) run_claim (empty_proof_state run_proof_params)
      = Inr (UpsertClaim run_stored (empty_proof_state run_proof_params), ev)"
  then obtain ev where c: "CreateClaim sup_sdk rev run_deps (run_proof_env sst 33) run_claim
      (empty_proof_state run_proof_params) = Inr (UpsertClaim run_stored (empty_proof_state run_proof_params), ev)" ..
  have m: "MCC_SessionHeader run_claim = Some run_header" "MCC_SupplierOperatorAddress run_claim = ''p1''"
    by (simp_all add: run_claim_def)
  have w: "validateClaimWindow witness_genesis 43 (Some (run_header\<lparr>SH_SessionEndBlockHeight := 40\<rparr>)) ''p1'' = Inr ()"
    by code_simp
  from claim_accepted_again_with_another_end_height [OF c _ m(1), of 43 40 "empty_proof_state run_proof_params"]
  show ?thesis using c w by (auto simp: m run_header_simps run_proof_env_def run_env_def)
qed

section \<open>The proof\<close>

definition run_relay :: relay where
  "run_relay = \<lparr>
     Relay_Req = Some \<lparr>RReq_SessionHeader = Some run_header, RReq_Signature = ''ring'',
        RReq_SupplierOperatorAddress = ''p1'', RReq_Payload = ''q''\<rparr>,
     Relay_Res = Some \<lparr>RRes_SessionHeader = Some run_header, RRes_SupplierOperatorSignature = ''sig'',
        RRes_Payload = ''a'', RRes_PayloadHash = None, RRes_RelayMinerError = None\<rparr>\<rparr>"

text \<open>Relays hash to zero bytes; the tree's only path is \<open>path\<close>.\<close>

definition run_rx :: "string relay_deps" where
  "run_rx = \<lparr>accountOf = (\<lambda>a. Some (Some \<lparr>IsSecp256k1 = True, KeyBytes = a\<rparr>)), decodeToPoint = Inr,
     deserializeRingSig = Inr, ringSigPublicKeys = (\<lambda>r. [''a2'']), ringSigVerify = (\<lambda>r m. r = ''ring''),
     verifySignature = (\<lambda>k m sig. sig = ''sig''), marshalRequest = (\<lambda>r. Inr (RReq_Payload r)),
     marshalResponse = (\<lambda>r. Inr (RRes_Payload r)), relayHash = (\<lambda>bz. replicate 32 (char_of (0::nat))),
     PlaceholderRingAddress = ''none'', PlaceholderRingPubKey = \<lparr>IsSecp256k1 = True, KeyBytes = ''none''\<rparr>\<rparr>"

definition run_sx :: "(string, string) smt_deps" where
  "run_sx = \<lparr>unmarshalClosest = Inr, decompactClosest = Inr, closestPath = (\<lambda>d. ''path''),
     closestValueHash = (\<lambda>d. d), verifyClosest = (\<lambda>d r. Inr (r = run_root)),
     unmarshalRelay = (\<lambda>bz. Inr run_relay), trieHash = (\<lambda>bz. ''path'')\<rparr>"

definition run_submission :: msg_submit_proof where
  "run_submission = \<lparr>MSP_SupplierOperatorAddress = ''p1'', MSP_SessionHeader = Some run_header, MSP_Proof = ''relay''\<rparr>"

definition run_store :: proof_state where
  "run_store = UpsertClaim run_stored (empty_proof_state run_proof_params)"

definition run_spendable :: "bank_log \<Rightarrow> string \<Rightarrow> coin list" where
  "run_spendable lg a = [upokt 5000000]"

lemma run_store_simps:
  "GetClaim run_store (SH_SessionId run_header) ''p1'' = Some run_stored"
  "Proof_GetParams run_store = run_proof_params"
  by (simp_all add: run_store_def GetClaim_def getClaimByPrimaryKey_def cs.lookup_upsert claim_key_def
      run_stored_simps params_frame empty_proof_state_def Proof_GetParams_def)

lemma run_well_formed:
  assumes "queryAndValidateSessionHeader sup_sdk rev ((run_env sst)\<lparr>E_Height := 38\<rparr>) (Some run_header) ''p1'' = Inr s"
    and "Session_Header s = Some run_header"
  shows "EnsureWellFormedProof sup_sdk rev run_rx run_sx (run_proof_env sst 38) run_store
           (newProofFromMsg run_submission) = Inr ()"
proof -
  let ?d = "''relay''"
  have w: "validateProofWindow witness_genesis 38 (Some run_header) ''p1'' = Inr ()"
    and c: "closest_proof_of run_sx ?d = Inr ?d" and r: "relay_of run_sx ?d = Inr run_relay"
    and vr: "RelayRequest_ValidateBasic sup_sdk (Relay_Req run_relay) = Inr ()"
      "RelayResponse_ValidateBasic sup_sdk (Relay_Res run_relay) = Inr ()"
    and d: "validateRelayDifficulty run_rx (closestValueHash run_sx ?d) BaseRelayDifficultyHashBz = Inr ()"
    by code_simp+
  have v: "validateSessionClaim run_store (Some run_header) ''p1'' = Inr ()"
    by (simp add: validateSessionClaim_def run_store_simps run_stored_simps)
  have env: "PE_Session (run_proof_env sst 38) = (run_env sst)\<lparr>E_Height := 38\<rparr>"
    "env_shared (run_proof_env sst 38) = witness_genesis" "env_height (run_proof_env sst 38) = 38"
    "PE_Service (run_proof_env sst 38) = run_services"
    by (simp_all add: run_proof_env_def run_env_def)
  have p: "Proof_SupplierOperatorAddress (newProofFromMsg run_submission) = ''p1''"
    "Proof_SessionHeader (newProofFromMsg run_submission) = Some run_header"
    "Proof_ClosestMerkleProof (newProofFromMsg run_submission) = ?d"
    by (simp_all add: newProofFromMsg_def run_submission_def)
  have es: "E_Shared (run_env sst) = witness_genesis" by (simp add: run_env_def)
  have t: "TargetHash run_difficulty = BaseRelayDifficultyHashBz" by (simp add: run_difficulty_def)
  have q: "\<exists>rq rs. Relay_Req run_relay = Some rq \<and> RReq_SupplierOperatorAddress rq = ''p1''
      \<and> RReq_SessionHeader rq = Some run_header \<and> Relay_Res run_relay = Some rs \<and> RRes_SessionHeader rs = Some run_header"
    by (simp add: run_relay_def)
  then obtain rq rs where q: "Relay_Req run_relay = Some rq" "RReq_SupplierOperatorAddress rq = ''p1''"
    "RReq_SessionHeader rq = Some run_header" "Relay_Res run_relay = Some rs" "RRes_SessionHeader rs = Some run_header"
    by blast
  have e: "compareSessionHeaders h h = Inr ()" for h by (simp add: compareSessionHeaders_def)
  show ?thesis
    by (simp add: EnsureWellFormedProof_def Let_def p env assms w c r d v t e q run_header_simps
      run_service vr [unfolded q(1,4)] es)
qed

lemma run_submitted:
  assumes "queryAndValidateSessionHeader sup_sdk rev ((run_env sst)\<lparr>E_Height := 38\<rparr>) (Some run_header) ''p1'' = Inr s"
    and "Session_Header s = Some run_header"
  shows "\<exists>ev. SubmitProof sup_sdk run_spendable rev run_deps run_rx run_sx (run_proof_env sst 38) run_submission
    (run_store, []) = Inr (UpsertProof (newProofFromMsg run_submission) run_store,
      [SendFromAccountToModule ''p1'' ''proof'' (upokt 1000000)], ev)"
proof -
  have v: "MsgSubmitProof_ValidateBasic sup_sdk run_submission = Inr ()"
    and b: "getProofRequirementSeedBlockHash witness_genesis session_store run_stored = Inr []"
    by code_simp+
  have p: "ProofRequirementThreshold run_proof_params = Some (upokt 1000000)"
    "ProofRequestProbability run_proof_params = Fin (1 / 4)" "ProofSubmissionFee run_proof_params = Some (upokt 1000000)"
    by (simp_all add: run_proof_params_def)
  have f: "deductProofSubmissionFee sup_sdk run_spendable run_proof_params ''p1'' []
      = Inr [SendFromAccountToModule ''p1'' ''proof'' (upokt 1000000)]"
    by (simp add: deductProofSubmissionFee_def p run_spendable_def upokt_def AmountOf_def DenomuPOKT_def sup_sdk_def plain_sdk_def
        bank_do_def no_slash_def)
  have x: "GetProofRequirementSampleValue run_deps run_stored [] = Inr (Fin 0)"
    by (simp add: GetProofRequirementSampleValue_def Claim_GetHash_def SeededFloat64_def run_deps_def)
  have req: "ProofRequirementForClaim run_deps witness_genesis run_services session_store run_proof_params
      run_stored = Inr PROBABILISTIC"
    by (simp add: ProofRequirementForClaim_def run_stored_simps run_header_simps run_service run_shared run_amount
        upokt_def p b x )
  have n: "GetNumRelays run_deps run_stored = Inr 10" "GetNumClaimedComputeUnits run_deps run_stored = Inr 100"
    using run_roots by (simp_all add: GetNumRelays_def GetNumClaimedComputeUnits_def run_stored_simps)
  obtain cu where cu: "GetNumEstimatedComputeUnits run_deps run_stored run_difficulty = Inr cu"
    by (auto simp: GetNumEstimatedComputeUnits_def getNumEstimatedComputeUnitsRat_def n run_stored_simps run_header_simps
        run_difficulty_def base_difficulty)
  obtain k where k: "GetNumEstimatedRelays run_deps run_stored run_difficulty = Inr k"
    using estimated_relays_exist [OF run_amount n(1)] ..
  have env: "PE_Session (run_proof_env sst 38) = (run_env sst)\<lparr>E_Height := 38\<rparr>"
    "E_Shared (run_env sst) = witness_genesis" "E_Session (run_env sst) = session_store"
    "PE_Service (run_proof_env sst 38) = run_services"
    by (simp_all add: run_proof_env_def run_env_def)
  have m: "MSP_SessionHeader run_submission = Some run_header" "MSP_SupplierOperatorAddress run_submission = ''p1''"
    by (simp_all add: run_submission_def)
  show ?thesis
    by (simp add: SubmitProof_def Let_def v run_well_formed [OF assms] m run_store_simps f env req n run_header_simps run_shared
        run_service run_amount cu k)
qed

definition run_proven :: proof_state where
  "run_proven = UpsertProof (newProofFromMsg run_submission) run_store"

text \<open>The run, from genesis to the submitted proof, and the check of that proof.\<close>

lemma run_params_valid: "Proof_Params_ValidateBasic run_proof_params = Inr ()"
  by code_simp

lemma run_reachable:
  "(proof_step sup_sdk run_spendable rev run_deps run_rx run_sx authority)\<^sup>*\<^sup>*
     (empty_proof_state run_proof_params) run_proven"
proof (rule run_created)
  fix sst lg s
  assume "\<exists>ev. CreateClaim sup_sdk rev run_deps (run_proof_env sst 33) run_claim (empty_proof_state run_proof_params)
      = Inr (UpsertClaim run_stored (empty_proof_state run_proof_params), ev)"
    and q: "queryAndValidateSessionHeader sup_sdk rev ((run_env sst)\<lparr>E_Height := 38\<rparr>) (Some run_header) ''p1'' = Inr s"
      "Session_Header s = Some run_header"
  then have "proof_step sup_sdk run_spendable rev run_deps run_rx run_sx authority (empty_proof_state run_proof_params)
      run_store"
    by (auto simp: run_store_def intro: proof_step.create)
  moreover have "proof_step sup_sdk run_spendable rev run_deps run_rx run_sx authority run_store run_proven"
    using run_submitted [OF q] by (auto simp: run_proven_def intro: proof_step.submit)
  ultimately show ?thesis by (meson converse_rtranclp_into_rtranclp rtranclp.rtrancl_refl)
qed

lemma run_check:
  "EnsureValidProofSignaturesAndClosestPath sup_sdk run_rx run_sx (run_env sst) run_stored
     (newProofFromMsg run_submission) = Inr ()"
  by code_simp

lemma run_proven_simps:
  "Claims run_proven = [(claim_key run_stored, run_stored)]"
  "Proofs run_proven = [(claim_key run_stored, newProofFromMsg run_submission)]"
proof -
  have k: "proof_key (newProofFromMsg run_submission) = claim_key run_stored"
    by (simp add: proof_key_def claim_key_def newProofFromMsg_def run_submission_def run_stored_simps
        proof_keys_are_claim_keys)
  show "Claims run_proven = [(claim_key run_stored, run_stored)]"
    "Proofs run_proven = [(claim_key run_stored, newProofFromMsg run_submission)]"
    by (simp_all add: run_proven_def run_store_def UpsertProof_def UpsertClaim_def Let_def empty_proof_state_def k)
qed

lemma run_validated:
  obtains vc where "foldR (validateProof (proof_check_of sup_sdk run_rx run_sx (run_env sst)))
      (new_coordinator run_proven) (GetAllProofs run_proven) = Inr vc"
proof -
  let ?p = "newProofFromMsg run_submission" and ?check = "proof_check_of sup_sdk run_rx run_sx (run_env sst)"
  have g: "GetClaim run_proven (proof_session ?p) (Proof_SupplierOperatorAddress ?p) = Some run_stored"
    using run_store_simps(1)
    by (simp add: run_proven_def GetClaim_def getClaimByPrimaryKey_def newProofFromMsg_def run_submission_def)
  have "validateProof ?check (new_coordinator run_proven) ?p
      = Inr (validateProof_write run_stored VALIDATED ?p (new_coordinator run_proven))"
    by (simp add: validateProof_def validateProof_read_def new_coordinator_def g proof_check_of_def run_check)
  then show ?thesis using that by (simp add: GetAllProofs_def run_proven_simps)
qed

section \<open>Witnesses\<close>

theorem submitted_proof_is_for_the_onchain_session_witness:
  "\<exists>sst (s :: session) ev. SubmitProof sup_sdk run_spendable rev run_deps run_rx run_sx (run_proof_env sst 38)
      run_submission (run_store, []) = Inr (run_proven, [SendFromAccountToModule ''p1'' ''proof'' (upokt 1000000)], ev)
    \<and> Session_Id s = SH_SessionId run_header \<and> ''p1'' \<in> OperatorAddress ` set (Session_Suppliers s)"
proof (rule run_created)
  fix sst lg s
  assume "queryAndValidateSessionHeader sup_sdk rev ((run_env sst)\<lparr>E_Height := 38\<rparr>) (Some run_header) ''p1'' = Inr s"
    "Session_Header s = Some run_header"
  then obtain ev where c: "SubmitProof sup_sdk run_spendable rev run_deps run_rx run_sx (run_proof_env sst 38)
      run_submission (run_store, []) = Inr (run_proven, [SendFromAccountToModule ''p1'' ''proof'' (upokt 1000000)], ev)"
    using run_submitted by (auto simp: run_proven_def)
  have m: "MSP_SessionHeader run_submission = Some run_header" "MSP_SupplierOperatorAddress run_submission = ''p1''"
    by (simp_all add: run_submission_def)
  from submitted_proof_is_for_the_onchain_session [OF c] obtain header and s :: session
    where h: "MSP_SessionHeader run_submission = Some header" "SH_SessionId header = Session_Id s"
      "MSP_SupplierOperatorAddress run_submission \<in> OperatorAddress ` set (Session_Suppliers s)"
    by (elim exE conjE) (rule that; assumption)
  then have "Session_Id s = SH_SessionId run_header" "''p1'' \<in> OperatorAddress ` set (Session_Suppliers s)"
    using m by (metis option.inject)+
  then show ?thesis using c by blast
qed

theorem proof_validation_order_independent_witness:
  "\<forall>sst. \<exists>vc. validation_run (proof_check_of sup_sdk run_rx run_sx (run_env sst)) run_proven vc
    \<and> ValidateSubmittedProofs (proof_check_of sup_sdk run_rx run_sx (run_env sst)) run_proven
      = Inr (remove_processed (rev (VC_Processed vc)) (VC_Store vc), VC_NumValid vc, VC_NumInvalid vc)" (is "\<forall>sst. ?P sst")
proof
  fix sst
  show "?P sst"
  proof (rule run_validated)
    fix vc assume "foldR (validateProof (proof_check_of sup_sdk run_rx run_sx (run_env sst)))
        (new_coordinator run_proven) (GetAllProofs run_proven) = Inr vc"
    then have r: "validation_run (proof_check_of sup_sdk run_rx run_sx (run_env sst)) run_proven vc"
      by (rule sequential_result)
    show ?thesis
      using r proof_validation_order_independent [OF run_reachable run_params_valid sup_sdk_ok(2) r, of "rev (VC_Processed vc)"]
      by auto
  qed
qed

lemma run_end_block:
  obtains st' nv ni where "ValidateSubmittedProofs (proof_check_of sup_sdk run_rx run_sx (run_env sst)) run_proven
      = Inr (st', nv, ni)"
    and "Proof_EndBlocker sup_sdk run_rx run_sx (run_env sst) run_proven = Inr st'"
  by (rule run_validated [of sst]) (simp add: ValidateSubmittedProofs_def Proof_EndBlocker_def)

theorem end_blocker_marks_proven_claims_witness:
  "\<forall>sst. \<exists>st'. Proof_EndBlocker sup_sdk run_rx run_sx (run_env sst) run_proven = Inr st' \<and> Proofs st' = []
    \<and> map_of (Claims st') (claim_key run_stored) = Some (run_stored\<lparr>Claim_ProofValidationStatus := VALIDATED\<rparr>)" (is "\<forall>sst. ?P sst")
proof
  fix sst
  show "?P sst"
  proof (rule run_end_block)
    fix st' assume "Proof_EndBlocker sup_sdk run_rx run_sx (run_env sst) run_proven = Inr st'"
    from this end_blocker_marks_proven_claims [OF run_reachable run_params_valid sup_sdk_ok(2) this]
    show ?thesis by (auto simp: run_proven_simps run_check)
  qed
qed

theorem only_checked_claims_are_validated_witness:
  "\<exists>env d q. run_stored\<lparr>Claim_ProofValidationStatus := VALIDATED\<rparr> = d\<lparr>Claim_ProofValidationStatus := VALIDATED\<rparr>
    \<and> map_of (Proofs run_proven) (claim_key run_stored) = Some q
    \<and> EnsureValidProofSignaturesAndClosestPath sup_sdk run_rx run_sx env d q = Inr ()"
proof (rule run_end_block)
  fix st' nv ni
  assume v: "ValidateSubmittedProofs (proof_check_of sup_sdk run_rx run_sx (run_env sst)) run_proven = Inr (st', nv, ni)"
    and e: "Proof_EndBlocker sup_sdk run_rx run_sx (run_env sst) run_proven = Inr st'"
  have st: "proof_step sup_sdk run_spendable rev run_deps run_rx run_sx ''gov'' run_proven st'"
    using proof_step.end_block [OF v, of _ _ _ _ "[]"] by (simp add: remove_claims_def)
  have inv: "proof_stores_ok run_proven"
    using proof_reachable_inv [OF run_reachable run_params_valid sup_sdk_ok(2)] by (simp add: proof_inv_def)
  have k: "map_of (Claims st') (claim_key run_stored) = Some (run_stored\<lparr>Claim_ProofValidationStatus := VALIDATED\<rparr>)"
    by (simp add: validated_store [OF inv v] map_of_marked_claims run_proven_simps mark_def verdict_def
        proof_check_of_def run_check)
  have "run_stored \<noteq> run_stored\<lparr>Claim_ProofValidationStatus := VALIDATED\<rparr>"
  proof
    assume "run_stored = run_stored\<lparr>Claim_ProofValidationStatus := VALIDATED\<rparr>"
    then have "Claim_ProofValidationStatus run_stored
        = Claim_ProofValidationStatus (run_stored\<lparr>Claim_ProofValidationStatus := VALIDATED\<rparr>)" by (rule arg_cong)
    then show False by (simp add: run_stored_simps)
  qed
  then have n: "map_of (Claims run_proven) (claim_key run_stored)
      \<noteq> Some (run_stored\<lparr>Claim_ProofValidationStatus := VALIDATED\<rparr>)"
    by (simp add: run_proven_simps)
  from only_checked_claims_are_validated [OF run_reachable run_params_valid sup_sdk_ok(2) st k] n
  show ?thesis by auto
qed

theorem claims_are_well_typed_witness:
  "Claims run_proven = [(claim_key run_stored, run_stored)] \<and> claim_typed sup_sdk run_deps run_stored"
  using claims_are_well_typed [OF run_reachable [of "''gov''"] run_params_valid sup_sdk_ok(2)]
  by (simp add: run_proven_simps)

theorem claimed_amount_is_rounded_once_witness:
  "Amount (upokt 4200) = \<lfloor>real (unat (100 :: u64)) * (real (bytesToBigInt BaseRelayDifficultyHashBz)
      / real (bytesToBigInt BaseRelayDifficultyHashBz)) * (42000000 / 1000000)\<rfloor>"
proof -
  have n: "int64_of (ComputeUnitsToTokensMultiplier NewParams) = 42000000"
    "int64_of (ComputeUnitCostGranularity NewParams) = 1000000" by code_simp+
  have r: "rootSum run_deps (Claim_RootHash run_stored) = Inr 100" "TargetHash run_difficulty = BaseRelayDifficultyHashBz"
    using run_roots by (simp_all add: run_stored_simps run_difficulty_def)
  from claimed_amount_is_rounded_once [OF run_amount, unfolded n r] obtain cu :: u64 where "Inr cu = (Inr 100 :: u64 res)"
    "Amount (upokt 4200) = \<lfloor>real (unat cu) * (real (bytesToBigInt BaseRelayDifficultyHashBz)
      / real (bytesToBigInt BaseRelayDifficultyHashBz)) * (real_of_int 42000000 / real_of_int 1000000)\<rfloor>"
    by (elim exE conjE) (rule that, simp)
  then show ?thesis by (simp only: sum.inject of_int_numeral)
qed

end
