(* ===== verification/TokRuns.thy ===== *)
theory TokRuns
  imports TokOutcomes ProofClaims "HOL-Library.Code_Target_Nat"
begin

text \<open>
  Concrete runs of the settlement for the witnesses: a supplier with one claim of 42000 upokt in the
  session of blocks 21 to 30, settled in block 40 with its proof, expired without, or with a
  distribution that halts the block; and the code equations that let them evaluate.
\<close>
section \<open>Evaluation\<close>

lemma round_pos_code [code]: "round_pos r =
     (let e = max (floor_log2 r - 52) (- 1074);
          v = of_int (round_half_even (r / pow_rat 2 e)) * pow_rat 2 e
      in if 179769313486231590772930519078902473361797697894230657273430081157732675805500963132708477322407536021120113879871393357658789768814416622492847430639474124377767893424865485276302219601246094119453082952085005768838150682342462881473913110540827237163350510684586298239947245938479716304835356329624224137216 \<le> v then PosInf else Fin v)"
  by (simp add: round_pos_def)

lemma pow_rat_code [code]: "pow_rat b k = (let n = \<lfloor>b\<rfloor> in if of_int n = b
    then if 0 \<le> k then of_int (n ^ nat k) else 1 / of_int (n ^ nat (- k))
    else if 0 \<le> k then b ^ nat k else 1 / b ^ nat (- k))"
  by (auto simp: pow_rat_def Let_def)

lemma i64_code [code]: "i64 x = (if - 9223372036854775808 \<le> x \<and> x < 9223372036854775808 then x
    else (x + 9223372036854775808) mod 18446744073709551616 - 9223372036854775808)"
  "in_i64 x \<longleftrightarrow> - 9223372036854775808 \<le> x \<and> x < 9223372036854775808"
  "int64_of w = (let u = uint w in if u < 9223372036854775808 then u else u - 18446744073709551616)"
  by (auto simp: i64_def in_i64_def int64_of_eq Let_def)

lemma decimal_values: "shortest_decimal 1 = 1" "shortest_decimal (1 / 2) = 1 / 2"
  by code_simp+

lemma decimal_half: assumes "r * 2 = 1" shows "shortest_decimal r = r"
proof -
  have "r = 1 / 2" using assms by simp
  then show ?thesis by (simp only: decimal_values(2))
qed

text \<open>The float64 next to 0.50004.\<close>

definition share_50004 :: rat where "share_50004 = 2251979957670343 / 4503599627370496"

lemma decimal_share: "shortest_decimal share_50004 = 50004 / 100000" "share_50004 \<noteq> 0" "0 < share_50004"
  by code_simp+

lemma Float64ToRat_code [code]:
  "Float64ToRat (Fin r) = Inr (if r = 0 then 0 else if r = 1 then 1 else if r = 1 / 2 then 1 / 2
     else if r = share_50004 then 50004 / 100000
     else if 0 < r then shortest_decimal r else - shortest_decimal (- r))"
  "Float64ToRat PosInf = Inl ErrFmt" "Float64ToRat NegInf = Inl ErrFmt" "Float64ToRat NaN = Inl ErrFmt"
proof -
  show "Float64ToRat (Fin r) = Inr (if r = 0 then 0 else if r = 1 then 1 else if r = 1 / 2 then 1 / 2
     else if r = share_50004 then 50004 / 100000 else if 0 < r then shortest_decimal r else - shortest_decimal (- r))"
    using decimal_share by (simp add: decimal_values(1) decimal_half)
qed simp_all

text \<open>At the base difficulty the multiplier is one.\<close>

lemma estimated_base:
  assumes "TargetHash d = BaseRelayDifficultyHashBz"
  shows "getNumEstimatedComputeUnitsRat ext c d =
    (if GetHeaderServiceId (Claim_SessionHeader c) \<noteq> RMD_ServiceId d
       then Inl (Proof ErrProofInvalidRelayDifficulty)
     else bindR (GetNumClaimedComputeUnits ext c) (\<lambda>n. Inr ((256 ^ 32 - 1) * uint n, 256 ^ 32 - 1)))"
  using base_difficulty by (simp add: getNumEstimatedComputeUnitsRat_def assms del: power_numeral)

lemma base_units_code [code]:
  "GetNumEstimatedComputeUnits ext c d =
    (if GetHeaderServiceId (Claim_SessionHeader c) = RMD_ServiceId d \<and> TargetHash d = BaseRelayDifficultyHashBz
     then GetNumClaimedComputeUnits ext c
     else bindR (getNumEstimatedComputeUnitsRat ext c d) (\<lambda>(num, den). Inr (word_of_int (num div den))))"
proof -
  have "(256 ^ 32 - 1 :: int) \<noteq> 0" by simp
  then show ?thesis
    by (cases "GetNumClaimedComputeUnits ext c")
      (auto simp: GetNumEstimatedComputeUnits_def estimated_base simp del: power_numeral)
qed

lemma base_amount_code [code]:
  "GetClaimeduPOKT ext c p d =
    (let multiplier = int64_of (ComputeUnitsToTokensMultiplier p); granularity = int64_of (ComputeUnitCostGranularity p);
       finish = (\<lambda>amount. if amount < 0 then Inl (Proof ErrProofInvalidClaimedAmount)
         else if 115792089237316195423570985008687907853269984665640564039457584007913129639936 \<le> amount then Inl Panic
         else Inr (upokt amount))
     in if GetHeaderServiceId (Claim_SessionHeader c) = RMD_ServiceId d \<and> TargetHash d = BaseRelayDifficultyHashBz
     then bindR (GetNumClaimedComputeUnits ext c) (\<lambda>n.
       if granularity = 0 then Inl Panic else finish ((uint n * multiplier) div granularity))
     else bindR (getNumEstimatedComputeUnitsRat ext c d) (\<lambda>(num, den).
       if granularity = 0 then Inl Panic else finish ((num * multiplier) div (den * granularity))))"
proof (cases "GetHeaderServiceId (Claim_SessionHeader c) = RMD_ServiceId d \<and> TargetHash d = BaseRelayDifficultyHashBz")
  case True
  have "(k * n * m) div (k * g) = (n * m) div (g :: int)" if "k \<noteq> 0" for k n m g
    using that by (simp add: mult.assoc)
  from this [of "256 ^ 32 - 1"] True show ?thesis
    by (cases "GetNumClaimedComputeUnits ext c") (auto simp: GetClaimeduPOKT_def estimated_base Let_def)
next
  case False
  then show ?thesis
    by (auto simp: GetClaimeduPOKT_def Let_def intro!: arg_cong2 [where f = bindR])
qed

section \<open>A concrete block\<close>

definition tok_deps :: claim_deps where
  "tok_deps = \<lparr>rootSum = (\<lambda>r. Inr 1000), rootCount = (\<lambda>r. Inr 100), sha256 = (\<lambda>s. s),
     marshalClaim = (\<lambda>c. Inr (Claim_RootHash c)), randFloat64 = (\<lambda>n. Fin 0)\<rparr>"

definition tok_header :: session_header where
  "tok_header = \<lparr>SH_ApplicationAddress = ''a'', SH_ServiceId = ''s'', SH_SessionId = ''i'',
     SH_SessionStartBlockHeight = 21, SH_SessionEndBlockHeight = 30\<rparr>"

definition tok_supplier :: supplier where
  "tok_supplier = \<lparr>OwnerAddress = ''p'', OperatorAddress = ''p'', Supplier_Stake = upokt 500, Services = [],
     Supplier_UnstakeSessionEndHeight = 0,
     ServiceConfigHistory = [\<lparr>SCU_OperatorAddress = ''p'', SCU_Service = \<lparr>ServiceId = ''s'', Endpoints = [],
       RevShare = [Some \<lparr>RevShareAddress = ''p'', RevSharePercentage = 100\<rparr>]\<rparr>,
       ActivationHeight = 1, DeactivationHeight = 0\<rparr>]\<rparr>"

definition tok_claim :: "claim_proof_status \<Rightarrow> claim" where
  "tok_claim status = \<lparr>Claim_SupplierOperatorAddress = ''p'', Claim_SessionHeader = Some tok_header,
     Claim_RootHash = ''r'', Claim_ProofValidationStatus = status\<rparr>"

definition tok_application :: application where
  "tok_application = \<lparr>App_Address = ''a'', App_Stake = upokt 1000000, App_ServiceConfigs = [''s''],
     DelegateeGatewayAddresses = [], PendingUndelegations = [], App_UnstakeSessionEndHeight = 0,
     PendingTransfer = None, PerSessionSpendLimit = None, App_ServiceConfigHistory = []\<rparr>"

definition half_allocation :: "f64 \<Rightarrow> allocation" where
  "half_allocation x = \<lparr>Alloc_Dao = Fin 0, Alloc_Proposer = Fin (1 / 2), Alloc_Supplier = x,
     Alloc_SourceOwner = Fin 0, Alloc_Application = Fin 0\<rparr>"

definition tok_run_params :: "f64 \<Rightarrow> tok_params" where
  "tok_run_params x = \<lparr>MintAllocationPercentages = half_allocation (Fin (1 / 2)), DaoRewardAddress = ''d'',
     GlobalInflationPerClaim = Fin 0, MintEqualsBurnClaimDistribution = half_allocation x,
     MintRatio = Fin 1, OverservicingBonusMultiplier = 1\<rparr>"

definition tok_run_staking :: staking where
  "tok_run_staking = \<lparr>SK_BondedValidators =
       Inr [\<lparr>Val_Operator = ''v'', Val_BondedTokens = 10, Val_CommissionRate = None\<rparr>],
     SK_ValidatorDelegations = (\<lambda>v. Inr []),
     SK_AccAddress = Some, SK_Account = Some, SK_TokensFromShares = (\<lambda>v n. n)\<rparr>"

definition tok_run_env :: tok_env where
  "tok_run_env = \<lparr>TE_Height = 40, TE_Sdk = plain_sdk, TE_Claims = tok_deps, TE_Staking = tok_run_staking,
     TE_HasDigestSize = (\<lambda>r n. True), TE_TLMs = NewDefaultTokenLogicModules\<rparr>"

definition tok_run_services :: service_state where
  "tok_run_services = SetService
     \<lparr>Service_Id = ''s'', Service_Name = ''s'', ComputeUnitsPerRelay = 10,
      Service_OwnerAddress = ''o'', Service_Card = None\<rparr>
     \<lparr>ServiceStore = [], DifficultyStore = [], DifficultyHistory = [], CuprHistory = [],
      ServiceParams = Some \<lparr>AddServiceFee = None, TargetNumRelays = 100\<rparr>\<rparr>"

definition tok_run_chain :: "claim_proof_status \<Rightarrow> f64 \<Rightarrow> tok_chain" where
  "tok_run_chain status x = \<lparr>TCh_Shared = witness_genesis,
     TCh_Session = session_genesis_state \<lparr>NumSuppliersPerSession = 2\<rparr>,
     TCh_Apps = SetApplication tok_application (fst (app_genesis (Some run_params))),
     TCh_Suppliers = SetAndIndexDehydratedSupplier tok_supplier
       (empty_supplier_state\<lparr>SupplierParams := Some \<lparr>Supplier_MinStake = Some (upokt 100), StakingFee = None\<rparr>\<rparr>),
     TCh_Services = tok_run_services,
     TCh_Proofs = UpsertClaim (tok_claim status)
       (empty_proof_state (run_proof_params\<lparr>ProofRequirementThreshold := Some (upokt 4000)\<rparr>)),
     TCh_Tok = \<lparr>TokParamsStore = Some (tok_run_params x)\<rparr>,
     TCh_Bank = [SendFromAccountToModule ''a'' Application_ModuleName (upokt 1000000),
       SendFromAccountToModule ''p'' Supplier_ModuleName (upokt 500)],
     TCh_Events = []\<rparr>"

definition tok_run :: "claim_proof_status \<Rightarrow> f64 \<Rightarrow> settlement_outcome res" where
  "tok_run status x = SettlePendingClaims tok_run_env (tok_run_chain status x)"

lemma tok_run_settled: "case tok_run VALIDATED (Fin (1 / 2)) of Inl e \<Rightarrow> False
  | Inr so \<Rightarrow> SO_NumDiscarded so = 0 \<and> length (SO_Settled so) = 2 \<and> SO_Expired so = []"
  by code_simp

lemma tok_run_expired: "case tok_run PENDING_VALIDATION (Fin (1 / 2)) of Inl e \<Rightarrow> False
  | Inr so \<Rightarrow> SO_NumDiscarded so = 0 \<and> SO_Settled so = [] \<and> length (SO_Expired so) = 1"
  by code_simp

lemma tok_run_halts: "tok_run VALIDATED (Fin share_50004) = Inl Panic"
  by code_simp

section \<open>The runs start well\<close>

lemma tok_run_start:
  "aps.store_ok (TCh_Apps (tok_run_chain s x))" "sups.store_ok (TCh_Suppliers (tok_run_chain s x))"
  "cs.store_ok (TCh_Proofs (tok_run_chain s x))" "sdk_ok (TE_Sdk tok_run_env)" "staking_ok (TE_Staking tok_run_env)"
proof -
  let ?s = "empty_supplier_state\<lparr>SupplierParams := Some \<lparr>Supplier_MinStake = Some (upokt 100), StakingFee = None\<rparr>\<rparr>"
  have "SupplierStore (indexSupplierUnstakingHeight tok_supplier (indexSupplierServiceConfigUpdates tok_supplier ?s)) = []"
    by code_simp
  then have "sups.store_ok (indexSupplierUnstakingHeight tok_supplier (indexSupplierServiceConfigUpdates tok_supplier ?s))"
    by (simp add: sups.store_ok_def keyed_def)
  then show "sups.store_ok (TCh_Suppliers (tok_run_chain s x))"
    unfolding tok_run_chain_def tok_chain.simps SetAndIndexDehydratedSupplier_def by (rule dsups.store_ok_put)
  show "aps.store_ok (TCh_Apps (tok_run_chain s x))" unfolding tok_run_chain_def tok_chain.simps
    by (rule aps.store_ok_put) (simp add: aps.store_ok_def app_genesis_def keyed_def)
  show "cs.store_ok (TCh_Proofs (tok_run_chain s x))" unfolding tok_run_chain_def tok_chain.simps
    by (rule cs.store_ok_upsert)
      (simp_all add: cs.store_ok_def cs.named_def empty_proof_state_def tok_claim_def tok_header_def no_slash_def)
  show "sdk_ok (TE_Sdk tok_run_env)" by (simp add: tok_run_env_def plain_sdk_ok)
  show "staking_ok (TE_Staking tok_run_env)" by (simp add: tok_run_env_def tok_run_staking_def staking_ok_def)
qed

lemma tok_run_params_simps:
  "Tok_GetParams (TCh_Tok (tok_run_chain s x)) = tok_run_params x"
  "TE_Staking tok_run_env = tok_run_staking" "TE_Height tok_run_env = 40"
  by (simp_all add: tok_run_chain_def tok_run_env_def Tok_GetParams_def)

lemma tok_run_shares: "proposer_shares_ok (Tok_GetParams (TCh_Tok (tok_run_chain s x)))"
  by (simp add: tok_run_params_simps proposer_shares_ok_def tok_run_params_def half_allocation_def)

section \<open>The share of 0.50004 passes validation\<close>

lemma half_points: "basis_points (Fin 0) = 0" "basis_points (Fin (1 / 2)) = 5000" "basis_points (Fin share_50004) = 5000"
  by code_simp+

lemma half_sum: "f64_scale (f64_round 10000) (1 / basisPointsTotal) = Fin 1"
  by code_simp

lemma half_allocation_ok:
  assumes "basis_points x = 5000" shows "validate_allocation_sum (half_allocation x) = Inr ()"
    and "Allocation_Sum (half_allocation x) = Fin 1"
proof -
  have "sum_basis_points (half_allocation x) = 10000"
    using assms half_points by (simp add: sum_basis_points_def half_allocation_def i64_def)
  then show s: "Allocation_Sum (half_allocation x) = Fin 1"
    using half_sum by (simp add: Allocation_Sum_def)
  have "\<not> f64_less (f64_round (1 / 10 ^ 10)) (Fin 0)" by (rule f64_round_nonneg) simp
  then show "validate_allocation_sum (half_allocation x) = Inr ()"
    by (simp add: validate_allocation_sum_def s f64_round_def)
qed

lemma tok_run_params_valid: "Tok_Params_ValidateBasic plain_sdk (tok_run_params (Fin share_50004))
    = Inr (tok_run_params (Fin share_50004))"
  using half_allocation_ok half_points decimal_share(3) 
  by (auto simp: Tok_Params_ValidateBasic_def tok_run_params_def ValidateMintAllocationPercentages_def
   ValidateMintEqualsBurnClaimDistribution_def validateParamValueGTEZero_def ValidateMintRatio_def half_allocation_def
   ValidateDaoRewardAddress_def ValidateGlobalInflationPerClaim_def ValidateOverservicingBonusMultiplier_def plain_sdk_def MaxOverservicingBonusMultiplier_def)

end
