(* ===== verification/TokBudget.thy ===== *)
theory TokBudget
  imports TokContext
begin

text \<open>
  The budget of a session: what the claims of one application and session may take together. The
  supplier's floor is its part of the stake per session, or of the application's spend limit; claims
  below the floor leave their rest to the claims above it, in proportion to what those ask.
\<close>

section \<open>Stake terms\<close>

text \<open>A settlement with its global inflation, rounded up.\<close>

definition stake_terms :: "rat \<Rightarrow> int \<Rightarrow> int" where
  "stake_terms q n = n + \<lceil>of_int n * q\<rceil>"

lemma inflation_coin:
  assumes "0 \<le> Amount c" and "0 \<le> q"
  shows "CalculateGlobalPerClaimMintInflationFromSettlementAmount c q = Inr (upokt \<lceil>of_int (Amount c) * q\<rceil>)"
proof -
  define x where "x = of_int (Amount c) * q"
  have x: "0 \<le> x" using assms by (simp add: x_def)
  have "(if x - of_int \<lfloor>x\<rfloor> > 0 then \<lfloor>x\<rfloor> + 1 else \<lfloor>x\<rfloor>) = \<lceil>x\<rceil>"
    by (auto simp: ceiling_altdef) linarith+
  moreover have "0 \<le> \<lceil>x\<rceil>" using x order_less_le_trans [of "-1" 0 x] by (simp add: zero_le_ceiling)
  ultimately show ?thesis
    unfolding CalculateGlobalPerClaimMintInflationFromSettlementAmount_def Let_def x_def [symmetric]
      rat_quo_nonneg [OF x] by (simp add: NewCoin_def upokt_def)
qed

lemma claimStakeTermsAmount_terms:
  assumes "0 \<le> Amount c" and "0 \<le> q" shows "claimStakeTermsAmount c q = Inr (stake_terms q (Amount c))"
  using inflation_coin [OF assms] by (simp add: claimStakeTermsAmount_def stake_terms_def upokt_def)

lemma stake_terms_nonneg: "0 \<le> n \<Longrightarrow> 0 \<le> q \<Longrightarrow> 0 \<le> stake_terms q n"
  using order_less_le_trans [of "-1 :: rat" 0 "of_int n * q"] by (simp add: stake_terms_def add_nonneg_nonneg zero_le_ceiling)

lemma stake_terms_mono: "m \<le> n \<Longrightarrow> 0 \<le> q \<Longrightarrow> stake_terms q m \<le> stake_terms q n"
  unfolding stake_terms_def by (intro add_mono ceiling_mono mult_right_mono) simp_all

text \<open>The largest settlement that fits a stake, with its inflation, fits.\<close>

lemma stake_terms_max:
  assumes "n \<le> \<lfloor>of_int m / (1 + q)\<rfloor>" and "0 \<le> q" shows "stake_terms q n \<le> m"
proof -
  have "of_int n \<le> of_int m / (1 + q)" using assms(1) by (simp add: le_floor_iff)
  then have "of_int n * (1 + q) \<le> of_int m" using assms(2) by (simp add: pos_le_divide_eq)
  then have "\<lceil>of_int n * q\<rceil> \<le> m - n" by (simp add: ceiling_le_iff distrib_left)
  then show ?thesis by (simp add: stake_terms_def)
qed

section \<open>The floor\<close>

lemma sdiv_nonneg: "0 \<le> a \<Longrightarrow> 0 < b \<Longrightarrow> a sdiv b = a div (b :: int)"
  by (cases "a = 0") (simp_all add: signed_divide_int_def)

lemma times_div_le: "0 < n \<Longrightarrow> n * (a div n) \<le> (a :: int)"
  by (metis add.commute le_add_same_cancel2 mult_div_mod_eq pos_mod_sign)

text \<open>The floors of all suppliers together keep within the stake per session and the spend limit.\<close>

lemma budget_floor_bounds:
  assumes run: "budget_floor stake slim pend n = Inr (f, exceeded)" and "0 \<le> stake" and "0 < pend" and "0 < n"
  shows "0 \<le> f" and "n * f \<le> stake div pend"
    and "slim = Some l \<Longrightarrow> 0 < Amount l \<Longrightarrow> n * f \<le> Amount l"
proof -
  define s where "s = stake div pend"
  have s: "0 \<le> s" using assms(2,3) by (simp add: s_def pos_imp_zdiv_nonneg_iff)
  have base: "quoInt stake pend = Inr s" "quoInt x n = Inr (x div n)" if "0 \<le> x" for x
    using assms(2-4) that by (simp_all add: quoInt_def sdiv_nonneg s_def)
  have le: "n * (x div n) \<le> x" for x by (rule times_div_le [OF assms(4)])
  have mono: "n * (x div n) \<le> y" if "x \<le> y" for x y using le [of x] that by linarith
  have nn: "0 \<le> x div n" if "0 \<le> x" for x using that assms(4) by (simp add: pos_imp_zdiv_nonneg_iff)
  have lt: "n * f' \<le> y" if "f' \<le> g" "n * g \<le> y" for f' g y
    using that mult_left_mono [of f' g n] assms(4) by linarith
  consider "f = s div n" "\<And>l. slim = Some l \<Longrightarrow> 0 < Amount l \<Longrightarrow> f \<le> min s (Amount l) div n"
    | l where "slim = Some l" "0 < Amount l" "f = min s (Amount l) div n"
    using run s unfolding budget_floor_def
    by (auto simp: base res_simps min_def split: option.splits if_splits)
  then show "0 \<le> f" and "n * f \<le> stake div pend"
    and "slim = Some l \<Longrightarrow> 0 < Amount l \<Longrightarrow> n * f \<le> Amount l"
    using s nn mono lt [OF _ mono] unfolding s_def [symmetric] by (cases; auto simp: min_def split: if_splits)+
qed

section \<open>The claims of a session\<close>

definition fresh_budget :: "int \<Rightarrow> int \<Rightarrow> bool \<Rightarrow> session_budget" where
  "fresh_budget n f exceeded = \<lparr>SB_NumSuppliers = n, SB_Floor = f, SB_Unused = 0, SB_TotalExcess = 0,
     SB_SpendLimitExceeded = exceeded\<rparr>"

definition unused :: "int \<Rightarrow> int \<Rightarrow> int" where "unused f t = max 0 (f - t)"

definition excess :: "int \<Rightarrow> int \<Rightarrow> int" where "excess f t = max 0 (t - f)"

lemma fold_budget:
  "SB_Floor (fold fold_into_budget ts sb) = SB_Floor sb"
  "SB_Unused (fold fold_into_budget ts sb) = SB_Unused sb + sum_list (map (unused (SB_Floor sb)) ts)"
  "SB_TotalExcess (fold fold_into_budget ts sb) = SB_TotalExcess sb + sum_list (map (excess (SB_Floor sb)) ts)"
  by (induction ts arbitrary: sb) (auto simp: fold_into_budget_def unused_def excess_def)

definition bonus :: "session_budget \<Rightarrow> int \<Rightarrow> int" where
  "bonus sb t = (if 0 < SB_TotalExcess sb then SB_Unused sb * excess (SB_Floor sb) t div SB_TotalExcess sb else 0)"

text \<open>Whatever the multiplier, a claim takes no more than its floor, less what it leaves of it, and its
  part of what is left.\<close>

lemma max_claimable_le:
  assumes "0 \<le> SB_Unused sb" and "0 \<le> SB_Floor sb"
  shows "min t (max_claimable bm sb t) \<le> SB_Floor sb - unused (SB_Floor sb) t + bonus sb t"
proof -
  have b: "0 \<le> bonus sb t"
    using assms(1) by (simp add: bonus_def excess_def pos_imp_zdiv_nonneg_iff)
  show ?thesis
  proof (cases "0 < SB_TotalExcess sb \<and> 0 < t - SB_Floor sb")
    case True
    then have "(SB_Unused sb * (t - SB_Floor sb)) sdiv SB_TotalExcess sb = bonus sb t"
      using assms(1) by (simp add: bonus_def excess_def sdiv_nonneg)
    then show ?thesis using True b by (auto simp: max_claimable_def Let_def unused_def min_le_iff_disj)
  next
    case False
    then have "max_claimable bm sb t \<le> SB_Floor sb" by (auto simp: max_claimable_def Let_def)
    then show ?thesis using b False by (auto simp: unused_def)
  qed
qed

lemma sum_div_le: "0 < E \<Longrightarrow> sum_list (map (\<lambda>t. g t div E) ts) \<le> sum_list (map g ts) div (E :: int)"
proof (induction ts)
  case (Cons t ts)
  have "g t div E + sum_list (map g ts) div E \<le> (g t + sum_list (map g ts)) div E"
    unfolding div_add1_eq [of "g t" _ E] using Cons.prems by (simp add: pos_imp_zdiv_nonneg_iff)
  then show ?case using Cons by simp
qed simp

lemma bonus_sum:
  assumes "0 \<le> SB_Unused sb" and "SB_TotalExcess sb = sum_list (map (excess (SB_Floor sb)) ts)"
  shows "sum_list (map (bonus sb) ts) \<le> SB_Unused sb"
proof (cases "0 < SB_TotalExcess sb")
  case True
  have "sum_list (map (bonus sb) ts) \<le> sum_list (map (\<lambda>t. SB_Unused sb * excess (SB_Floor sb) t) ts) div SB_TotalExcess sb"
    using sum_div_le [OF True, of "\<lambda>t. SB_Unused sb * excess (SB_Floor sb) t" ts] True
    unfolding bonus_def by (simp only: if_True)
  also have "\<dots> = SB_Unused sb"
    using True assms(2) by (simp add: sum_list_const_mult)
  finally show ?thesis .
next
  case False
  then have "bonus sb = (\<lambda>t. 0)" by (simp add: bonus_def fun_eq_iff)
  then show ?thesis using assms(1) by simp
qed

lemma claims_within_floors:
  assumes "0 \<le> f" and "int (length ts) \<le> n" and "sb = fold fold_into_budget ts (fresh_budget n f exceeded)"
  shows "sum_list (map (\<lambda>t. min t (max_claimable bm sb t)) ts) \<le> n * f"
proof -
  have sb: "SB_Floor sb = f" "SB_Unused sb = sum_list (map (unused f) ts)"
    "SB_TotalExcess sb = sum_list (map (excess f) ts)"
    by (simp_all add: assms(3) fold_budget fresh_budget_def)
  have u: "0 \<le> SB_Unused sb" unfolding sb by (intro sum_list_nonneg) (auto simp: unused_def)
  have "sum_list (map (\<lambda>t. min t (max_claimable bm sb t)) ts)
      \<le> sum_list (map (\<lambda>t. f - unused f t + bonus sb t) ts)"
    using max_claimable_le [OF u, of _ bm] assms(1) sb(1) by (intro sum_list_mono) simp
  also have "\<dots> = int (length ts) * f - SB_Unused sb + sum_list (map (bonus sb) ts)"
    unfolding sb(2) by (induction ts) (auto simp: algebra_simps)
  also have "\<dots> \<le> int (length ts) * f" using bonus_sum [OF u, of ts] sb by simp
  also have "\<dots> \<le> n * f" using assms(1,2) by (intro mult_right_mono)
  finally show ?thesis .
qed

lemma limited_nonneg:
  "ensureClaimAmountLimits params a s c sb q sid h = Inr (evs, c') \<Longrightarrow> 0 \<le> Amount c \<Longrightarrow> 0 \<le> Amount c'"
  by (auto simp: ensureClaimAmountLimits_def Let_def res_simps NewCoin_def upokt_def split: if_splits)

text \<open>What a claim is limited to, in stake terms.\<close>

lemma limited_terms:
  assumes run: "ensureClaimAmountLimits params a s c sb q sid h = Inr (evs, c')"
    and "0 \<le> Amount c" and "0 \<le> q" and "0 \<le> max_claimable (OverservicingBonusMultiplier params) sb (stake_terms q (Amount c))"
  shows "0 \<le> Amount c' \<and> Amount c' \<le> Amount c
    \<and> stake_terms q (Amount c') \<le> min (stake_terms q (Amount c))
        (max_claimable (OverservicingBonusMultiplier params) sb (stake_terms q (Amount c)))"
proof -
  let ?M = "max_claimable (OverservicingBonusMultiplier params) sb (stake_terms q (Amount c))"
  have "1 + q \<noteq> 0" "0 \<le> of_int ?M / (1 + q)" using assms(3,4) by simp_all
  then have mx: "supplierAppStakeToMaxSettlementAmount ?M q = Inr \<lfloor>of_int ?M / (1 + q)\<rfloor>"
    by (simp add: supplierAppStakeToMaxSettlementAmount_def rat_quo_nonneg)
  have "Amount c' \<le> \<lfloor>of_int ?M / (1 + q)\<rfloor>" "0 \<le> Amount c'" "Amount c' \<le> Amount c"
    using run assms(2) unfolding ensureClaimAmountLimits_def
    by (auto simp: claimStakeTermsAmount_terms [OF assms(2,3)] mx Let_def res_simps NewCoin_def upokt_def split: if_splits)
  then show ?thesis using stake_terms_max [OF _ assms(3)] stake_terms_mono [OF _ assms(3)] by simp
qed

lemma unused_sum: "0 \<le> sum_list (map (unused f) ts)"
  by (intro sum_list_nonneg) (auto simp: unused_def)

lemma max_claimable_nonneg:
  assumes "0 \<le> SB_Floor sb" and "0 \<le> SB_Unused sb" shows "0 \<le> max_claimable bm sb t"
proof -
  have "0 \<le> SB_Floor sb * uint bm'" for bm' :: u64 using assms(1) by simp
  moreover have "0 \<le> (SB_Unused sb * (t - SB_Floor sb)) sdiv SB_TotalExcess sb"
    if "0 < SB_TotalExcess sb" "0 < t - SB_Floor sb"
    using that assms(2) by (simp add: sdiv_nonneg pos_imp_zdiv_nonneg_iff)
  ultimately show ?thesis using assms(1) by (auto simp: max_claimable_def Let_def add_nonneg_nonneg)
qed

text \<open>
  The settled amounts of a session's claims, with the global inflation the application pays for each,
  stay within the stake it has for one session, and within its spend limit.
\<close>

lemma session_settlements:
  fixes coin settled :: "'a \<Rightarrow> coin"
  assumes f: "budget_floor stake slim pend n = Inr (f, exceeded)" and pos: "0 \<le> stake" "0 < pend" "0 \<le> q"
    and cs: "int (length cs) \<le> n" "0 < n" "\<forall>c \<in> set cs. 0 \<le> Amount (coin c)"
    and sb: "sb = fold fold_into_budget (map (\<lambda>c. stake_terms q (Amount (coin c))) cs) (fresh_budget n f exceeded)"
    and run: "\<forall>c \<in> set cs. \<exists>a s sid h evs.
      ensureClaimAmountLimits params a s (coin c) sb q sid h = Inr (evs, settled c)"
  shows "sum_list (map (\<lambda>c. stake_terms q (Amount (settled c))) cs) \<le> n * f"
proof -
  let ?t = "\<lambda>c. stake_terms q (Amount (coin c))" and ?bm = "OverservicingBonusMultiplier params"
  have f0: "0 \<le> f" by (rule budget_floor_bounds(1) [OF f pos(1,2) cs(2)])
  have "SB_Floor sb = f" "0 \<le> SB_Unused sb"
    using unused_sum [of f "map ?t cs"] unfolding sb fold_budget by (simp_all add: fresh_budget_def)
  then have nn: "0 \<le> max_claimable ?bm sb t" for t using f0 by (intro max_claimable_nonneg) simp_all
  have "stake_terms q (Amount (settled c)) \<le> min (?t c) (max_claimable ?bm sb (?t c))" if c: "c \<in> set cs" for c
  proof -
    obtain a s sid h evs where "ensureClaimAmountLimits params a s (coin c) sb q sid h = Inr (evs, settled c)"
      using run c by blast
    from limited_terms [OF this _ pos(3) nn] show ?thesis using cs(3) c by blast
  qed
  then have "sum_list (map (\<lambda>c. stake_terms q (Amount (settled c))) cs)
      \<le> sum_list (map (\<lambda>t. min t (max_claimable ?bm sb t)) (map ?t cs))"
    unfolding map_map o_def by (intro sum_list_mono)
  also have "\<dots> \<le> n * f" using cs(1) by (intro claims_within_floors [OF f0 _ sb]) simp
  finally show ?thesis .
qed

end
