(* ===== verification/TokSizing.thy ===== *)
theory TokSizing
  imports TokSettling TokBudget
begin

text \<open>
  Sizing the budgets before settlement. What warming up the caches and accumulating the claims of a
  block leaves as the budget of a session is a function of the chain state and of the session's
  claims: the floor computed once from the stored stake and spend limit, and every claim that will
  settle and whose lookups succeed folded into it, in the order of collection.
\<close>

section \<open>What the context caches\<close>

definition service_known :: "tok_chain \<Rightarrow> string \<Rightarrow> int \<Rightarrow> bool" where
  "service_known ch sid h \<longleftrightarrow> GetService (TCh_Services ch) sid \<noteq> None
     \<and> (case GetRelayMiningDifficultyAtHeight (TCh_Services ch) sid h of Inl e \<Rightarrow> False | Inr d \<Rightarrow> True)
     \<and> (case GetServiceComputeUnitsPerRelayAtHeight (TCh_Services ch) sid h of None \<Rightarrow> False | Some u \<Rightarrow> u \<noteq> 0)"

definition claim_known :: "tok_chain \<Rightarrow> claim \<Rightarrow> bool" where
  "claim_known ch c \<longleftrightarrow> (case Claim_SessionHeader c of None \<Rightarrow> False | Some h \<Rightarrow>
     service_known ch (SH_ServiceId h) (SH_SessionStartBlockHeight h)
     \<and> GetApplication (TCh_Apps ch) (SH_ApplicationAddress h) \<noteq> None
     \<and> GetDehydratedSupplier (TCh_Suppliers ch) (Claim_SupplierOperatorAddress c) \<noteq> None)"

definition cached :: "tok_chain \<Rightarrow> settlement_context \<Rightarrow> bool" where
  "cached ch sc \<longleftrightarrow>
     (\<forall>sid h d. map_of (SC_Difficulties sc) (sid, h) = Some d \<longrightarrow>
        GetRelayMiningDifficultyAtHeight (TCh_Services ch) sid h = Inr d \<and> service_known ch sid h)
   \<and> (\<forall>k s. map_of (SC_Services sc) k = Some s \<longrightarrow> GetService (TCh_Services ch) k = Some s)
   \<and> (\<forall>k a. map_of (SC_Applications sc) k = Some a \<longrightarrow> GetApplication (TCh_Apps ch) k = Some a
        \<and> map_of (SC_InitialStakes sc) k = Some (App_Stake a))
   \<and> (\<forall>k s. map_of (SC_Suppliers sc) k = Some s \<longrightarrow> GetDehydratedSupplier (TCh_Suppliers ch) k \<noteq> None)"

definition same_sizes :: "settlement_context \<Rightarrow> settlement_context \<Rightarrow> bool" where
  "same_sizes sc sc' \<longleftrightarrow> SC_Budgets sc' = SC_Budgets sc \<and> SC_SupplierCounts sc' = SC_SupplierCounts sc
     \<and> SC_TokParams sc' = SC_TokParams sc"

lemma cacheService_cached:
  assumes "cached ch sc" and "cacheService ch sid sc = (sc', r)"
  shows "cached ch sc' \<and> same_sizes sc sc' \<and> (r = Inr () \<longleftrightarrow> GetService (TCh_Services ch) sid \<noteq> None)"
  using assms by (auto simp: cacheService_def cached_def same_sizes_def split: if_splits option.splits)

lemma cacheServiceAndDifficulty_cached:
  assumes c: "cached ch sc" and run: "cacheServiceAndDifficulty ch sid h sc = (sc', r)"
  shows "cached ch sc' \<and> same_sizes sc sc' \<and> (r = Inr () \<longleftrightarrow> service_known ch sid h)
    \<and> (r = Inr () \<longrightarrow> map_of (SC_Difficulties sc') (sid, h) \<noteq> None)"
proof (cases "map_of (SC_Difficulties sc) (sid, h)")
  case None
  obtain sc1 r1 where 1: "cacheService ch sid sc = (sc1, r1)" by (cases "cacheService ch sid sc")
  note s = cacheService_cached [OF c 1]
  show ?thesis
  proof (cases r1)
    case (Inl e)
    then show ?thesis using run None 1 s
      by (auto simp: cacheServiceAndDifficulty_def Let_def service_known_def)
  next
    case (Inr u)
    then have k: "GetService (TCh_Services ch) sid \<noteq> None" using s by (cases u) simp
    show ?thesis
    proof (cases "service_known ch sid h")
      case True
      then obtain d u' where "GetRelayMiningDifficultyAtHeight (TCh_Services ch) sid h = Inr d"
        "GetServiceComputeUnitsPerRelayAtHeight (TCh_Services ch) sid h = Some u'" "u' \<noteq> 0"
        by (auto simp: service_known_def split: sum.splits option.splits)
      then show ?thesis using run None 1 s Inr True
        by (auto simp: cacheServiceAndDifficulty_def Let_def cached_def same_sizes_def split: if_splits)
    next
      case False
      then show ?thesis using run None 1 s Inr k
        by (auto simp: cacheServiceAndDifficulty_def Let_def service_known_def same_sizes_def
            split: sum.splits option.splits if_splits)
    qed
  qed
next
  case (Some d)
  then have "service_known ch sid h" using c by (auto simp: cached_def)
  then show ?thesis using run Some c by (auto simp: cacheServiceAndDifficulty_def same_sizes_def)
qed

lemma cacheApplication_cached:
  assumes "cached ch sc" and "cacheApplication ch addr sc = (sc', r)"
  shows "cached ch sc' \<and> same_sizes sc sc' \<and> (r = Inr () \<longleftrightarrow> GetApplication (TCh_Apps ch) addr \<noteq> None)
    \<and> (r = Inr () \<longrightarrow> map_of (SC_Applications sc') addr \<noteq> None) \<and> SC_Difficulties sc' = SC_Difficulties sc"
  using assms by (auto simp: cacheApplication_def cached_def same_sizes_def split: if_splits option.splits)

lemma cacheSupplier_cached:
  assumes "cached ch sc" and "cacheSupplier h ch addr sid sc = (sc', r)"
  shows "cached ch sc' \<and> same_sizes sc sc' \<and> (r = Inr () \<longleftrightarrow> GetDehydratedSupplier (TCh_Suppliers ch) addr \<noteq> None)
    \<and> SC_Difficulties sc' = SC_Difficulties sc \<and> SC_Applications sc' = SC_Applications sc"
  using assms by (auto simp: cacheSupplier_def cached_def same_sizes_def split: if_splits option.splits)

lemma same_sizes_trans: "same_sizes a b \<Longrightarrow> same_sizes b c \<Longrightarrow> same_sizes a c"
  by (simp add: same_sizes_def)

lemma ClaimCacheWarmUp_cached:
  assumes c: "cached ch sc" and run: "ClaimCacheWarmUp h ch c sc = (sc', r)"
  shows "cached ch sc' \<and> same_sizes sc sc' \<and> (r = Inr () \<longleftrightarrow> claim_known ch c)
    \<and> (\<forall>sh. r = Inr () \<longrightarrow> Claim_SessionHeader c = Some sh \<longrightarrow>
        map_of (SC_Difficulties sc') (SH_ServiceId sh, SH_SessionStartBlockHeight sh) \<noteq> None
        \<and> map_of (SC_Applications sc') (SH_ApplicationAddress sh) \<noteq> None)"
proof (cases "Claim_SessionHeader c")
  case None
  then show ?thesis using assms by (auto simp: ClaimCacheWarmUp_def claim_known_def same_sizes_def)
next
  case (Some sh)
  obtain sc1 r1 where 1: "cacheServiceAndDifficulty ch (SH_ServiceId sh) (SH_SessionStartBlockHeight sh) sc = (sc1, r1)"
    by (cases "cacheServiceAndDifficulty ch (SH_ServiceId sh) (SH_SessionStartBlockHeight sh) sc")
  obtain sc2 r2 where 2: "cacheApplication ch (SH_ApplicationAddress sh) sc1 = (sc2, r2)"
    by (cases "cacheApplication ch (SH_ApplicationAddress sh) sc1")
  obtain sc3 r3 where 3: "cacheSupplier h ch (Claim_SupplierOperatorAddress c) (SH_ServiceId sh) sc2 = (sc3, r3)"
    by (cases "cacheSupplier h ch (Claim_SupplierOperatorAddress c) (SH_ServiceId sh) sc2")
  note k1 = cacheServiceAndDifficulty_cached [OF c 1]
  then have k2: "cached ch sc2 \<and> same_sizes sc1 sc2
    \<and> (r2 = Inr () \<longleftrightarrow> GetApplication (TCh_Apps ch) (SH_ApplicationAddress sh) \<noteq> None)
    \<and> (r2 = Inr () \<longrightarrow> map_of (SC_Applications sc2) (SH_ApplicationAddress sh) \<noteq> None)
    \<and> SC_Difficulties sc2 = SC_Difficulties sc1" using cacheApplication_cached [OF _ 2] by blast
  then have k3: "cached ch sc3 \<and> same_sizes sc2 sc3
    \<and> (r3 = Inr () \<longleftrightarrow> GetDehydratedSupplier (TCh_Suppliers ch) (Claim_SupplierOperatorAddress c) \<noteq> None)
    \<and> SC_Difficulties sc3 = SC_Difficulties sc2 \<and> SC_Applications sc3 = SC_Applications sc2"
    using cacheSupplier_cached [OF _ 3] by blast
  have "(sc', r) = (case r1 of Inl e \<Rightarrow> (sc1, Inl e) | Inr u \<Rightarrow> (case r2 of Inl e \<Rightarrow> (sc2, Inl e) | Inr u \<Rightarrow> (sc3, r3)))"
    using run by (cases r1; cases r2) (auto simp: ClaimCacheWarmUp_def Some 1 2 3)
  moreover have "same_sizes sc sc2" "same_sizes sc sc3" using k1 k2 k3 same_sizes_trans by blast+
  ultimately show ?thesis
    using k1 k2 k3 by (cases r1; cases r2; simp add: claim_known_def Some)
qed

section \<open>The claims of a session and what they ask\<close>

definition in_session :: "string \<Rightarrow> string \<Rightarrow> claim \<Rightarrow> bool" where
  "in_session app sessionId c \<longleftrightarrow> (case Claim_SessionHeader c of None \<Rightarrow> False
     | Some h \<Rightarrow> SH_ApplicationAddress h = app \<and> SH_SessionId h = sessionId)"

definition claimed_coin :: "tok_env \<Rightarrow> tok_chain \<Rightarrow> claim \<Rightarrow> coin res" where
  "claimed_coin env ch c = (case Claim_SessionHeader c of
     None \<Rightarrow> Inl (Tokenomics ErrTokenomicsClaimSessionHeaderNil)
   | Some h \<Rightarrow> bindR (GetRelayMiningDifficultyAtHeight (TCh_Services ch) (SH_ServiceId h) (SH_SessionStartBlockHeight h))
       (GetClaimeduPOKT (TE_Claims env) c (GetParamsAtHeight (TCh_Shared ch) (SH_SessionStartBlockHeight h))))"

definition claim_terms :: "tok_env \<Rightarrow> tok_chain \<Rightarrow> claim \<Rightarrow> int res" where
  "claim_terms env ch c = bindR (claimed_coin env ch c) (\<lambda>coin.
     bindR (Float64ToRat (GlobalInflationPerClaim (Tok_GetParams (TCh_Tok ch)))) (claimStakeTermsAmount coin))"

definition terms_of :: "tok_env \<Rightarrow> tok_chain \<Rightarrow> claim \<Rightarrow> int" where
  "terms_of env ch c = (case claim_terms env ch c of Inl e \<Rightarrow> 0 | Inr t \<Rightarrow> t)"

text \<open>A claim counts for a session's budget when it will settle and can be priced.\<close>

definition budgeted :: "tok_env \<Rightarrow> tok_chain \<Rightarrow> string \<Rightarrow> string \<Rightarrow> claim \<Rightarrow> bool" where
  "budgeted env ch app sessionId c \<longleftrightarrow> in_session app sessionId c \<and> claim_known ch c
     \<and> claimWillSettle env ch c = Inr True \<and> (case claim_terms env ch c of Inl e \<Rightarrow> False | Inr t \<Rightarrow> True)"

definition initial_budget :: "tok_chain \<Rightarrow> string \<Rightarrow> int \<Rightarrow> int \<Rightarrow> session_budget res" where
  "initial_budget ch app numSuppliers sessionEnd = (case GetApplication (TCh_Apps ch) app of
     None \<Rightarrow> Inl (Tokenomics ErrTokenomicsApplicationNotFound)
   | Some a \<Rightarrow> bindR (GetNumPendingSessions (GetParamsAtHeight (TCh_Shared ch) sessionEnd)) (\<lambda>pending.
       bindR (budget_floor (Amount (App_Stake a)) (PerSessionSpendLimit a) pending numSuppliers)
         (\<lambda>(floorAmt, exceeded). Inr (fresh_budget numSuppliers floorAmt exceeded))))"

text \<open>Only a panic depends on the session's end height.\<close>

lemma initial_budget_errors:
  assumes "initial_budget ch app n e = Inl x" and "x \<noteq> Panic"
  shows "initial_budget ch app n e' \<noteq> Inr sb"
proof (cases "GetApplication (TCh_Apps ch) app")
  case None
  then show ?thesis by (simp add: initial_budget_def)
next
  case (Some a)
  have np: "GetNumPendingSessions p = Inl y \<Longrightarrow> y = Panic" for p y
    by (auto simp: GetNumPendingSessions_def Let_def quo64_def split: if_splits)
  have q: "quoInt u v = Inl y \<Longrightarrow> y = Panic" for u v y by (simp add: quoInt_def split: if_splits)
  obtain pend where b: "budget_floor (Amount (App_Stake a)) (PerSessionSpendLimit a) pend n = Inl x"
    using assms Some np by (auto simp: initial_budget_def bindR_Inl_iff)
  then have "\<exists>l. PerSessionSpendLimit a = Some l \<and> 0 < Amount l \<and> Denom l \<noteq> DenomuPOKT"
    using assms(2) q unfolding budget_floor_def
    by (auto simp: quoInt_def Let_def split: if_splits option.splits)
  then have "budget_floor (Amount (App_Stake a)) (PerSessionSpendLimit a) pend' n \<noteq> Inr y" for pend' y
    by (auto simp: budget_floor_def quoInt_def)
  then show ?thesis
    by (cases "GetNumPendingSessions (GetParamsAtHeight (TCh_Shared ch) e')")
      (auto simp: initial_budget_def Some res_simps)
qed

section \<open>One claim\<close>

definition with_claim :: "tok_env \<Rightarrow> tok_chain \<Rightarrow> string \<Rightarrow> int \<Rightarrow> claim \<Rightarrow> session_budget option
    \<Rightarrow> session_budget option" where
  "with_claim env ch app n c old = (case old of
     Some sb \<Rightarrow> Some (fold_into_budget (terms_of env ch c) sb)
   | None \<Rightarrow> (case initial_budget ch app n (claim_end c) of
       Inl e \<Rightarrow> None | Inr sb \<Rightarrow> Some (fold_into_budget (terms_of env ch c) sb)))"

lemma getOrInitSessionBudget_initial:
  assumes c: "cached ch sc" and a: "map_of (SC_Applications sc) app \<noteq> None"
    and new: "map_of (SC_Budgets sc) (app, sid) = None"
  shows "getOrInitSessionBudget ch app sid e sc
    = (case initial_budget ch app (GetActualSupplierCount sc app sid) e of Inl x \<Rightarrow> (sc, Inl x)
       | Inr sb \<Rightarrow> (sc\<lparr>SC_Budgets := al_set (app, sid) sb (SC_Budgets sc)\<rparr>, Inr sb))"
proof -
  obtain x where x: "map_of (SC_Applications sc) app = Some x" using a by blast
  then have "GetApplication (TCh_Apps ch) app = Some x" "map_of (SC_InitialStakes sc) app = Some (App_Stake x)"
    using c by (auto simp: cached_def)
  note st = this
  show ?thesis
  proof (cases "GetNumPendingSessions (GetParamsAtHeight (TCh_Shared ch) e)")
    case (Inl y)
    then show ?thesis using new x st
      by (simp add: getOrInitSessionBudget_def initial_budget_def GetApplicationInitialStake_def Ctx_GetApplication_def)
  next
    case (Inr pend)
    then show ?thesis using new x st
      by (cases "budget_floor (Amount (App_Stake x)) (PerSessionSpendLimit x) pend (GetActualSupplierCount sc app sid)")
        (auto simp: getOrInitSessionBudget_def initial_budget_def GetApplicationInitialStake_def
          Ctx_GetApplication_def Let_def fresh_budget_def)
  qed
qed

lemma AccumulateClaimBudget_budgets:
  assumes c: "cached ch sc" and h: "Claim_SessionHeader c = Some h"
    and d: "map_of (SC_Difficulties sc) (SH_ServiceId h, SH_SessionStartBlockHeight h) \<noteq> None"
    and a: "map_of (SC_Applications sc) (SH_ApplicationAddress h) \<noteq> None"
    and p: "SC_TokParams sc = Tok_GetParams (TCh_Tok ch)" and k: "claim_known ch c"
    and run: "AccumulateClaimBudget env ch c sc = (sc', r)" and np: "r \<noteq> Inl Panic"
  shows "\<exists>b. sc' = sc\<lparr>SC_Budgets := b\<rparr> \<and> (\<forall>app sid. map_of b (app, sid)
      = (if budgeted env ch app sid c
         then with_claim env ch app (GetActualSupplierCount sc app sid) c (map_of (SC_Budgets sc) (app, sid))
         else map_of (SC_Budgets sc) (app, sid)))
    \<and> (budgeted env ch (SH_ApplicationAddress h) (SH_SessionId h) c
        \<longrightarrow> map_of (SC_Budgets sc) (SH_ApplicationAddress h, SH_SessionId h) = None
        \<longrightarrow> initial_budget ch (SH_ApplicationAddress h)
              (GetActualSupplierCount sc (SH_ApplicationAddress h) (SH_SessionId h)) (claim_end c) \<noteq> Inl Panic)"
proof -
  let ?app = "SH_ApplicationAddress h" and ?sid = "SH_SessionId h"
  obtain dd where dd: "map_of (SC_Difficulties sc) (SH_ServiceId h, SH_SessionStartBlockHeight h) = Some dd"
    "GetRelayMiningDifficultyAtHeight (TCh_Services ch) (SH_ServiceId h) (SH_SessionStartBlockHeight h) = Inr dd"
    using d c by (auto simp: cached_def)
  have e: "claim_end c = SH_SessionEndBlockHeight h" by (simp add: h)
  have ins: "in_session app sid c \<longleftrightarrow> app = ?app \<and> sid = ?sid" for app sid by (auto simp: in_session_def h)
  show ?thesis
  proof (cases "claimWillSettle env ch c = Inr True \<and> (\<exists>t. claim_terms env ch c = Inr t)")
    case False
    then have nb: "\<not> budgeted env ch app sid c" for app sid by (auto simp: budgeted_def split: sum.splits)
    have no: False if "claimWillSettle env ch c = Inr True" and "GetClaimeduPOKT (TE_Claims env) c
          (GetParamsAtHeight (TCh_Shared ch) (SH_SessionStartBlockHeight h)) dd = Inr coin"
        and "Float64ToRat (GlobalInflationPerClaim (SC_TokParams sc)) = Inr q" and "claimStakeTermsAmount coin q = Inr t"
      for coin q t
      using False that by (simp add: claim_terms_def claimed_coin_def h dd p)
    have "fst (AccumulateClaimBudget env ch c sc) = sc"
      unfolding AccumulateClaimBudget_def h option.case Ctx_GetRelayMiningDifficulty_def dd(1) lookup_or.simps getS.simps
      by (rule getS_inv [where P = "\<lambda>x. x = sc"], rule refl, split if_split, intro conjI impI)
        (auto intro!: getS_inv [where P = "\<lambda>x. x = sc"] dest: no)
    then have "sc' = sc" using run by simp
    then show ?thesis using nb by (intro exI [of _ "SC_Budgets sc"]) simp
  next
    case True
    then obtain coin q t where t: "GetClaimeduPOKT (TE_Claims env) c
          (GetParamsAtHeight (TCh_Shared ch) (SH_SessionStartBlockHeight h)) dd = Inr coin"
      "Float64ToRat (GlobalInflationPerClaim (SC_TokParams sc)) = Inr q" "claimStakeTermsAmount coin q = Inr t"
      "claim_terms env ch c = Inr t"
      by (auto simp: claim_terms_def claimed_coin_def h dd p res_simps)
    then have tt: "terms_of env ch c = t" by (simp add: terms_of_def)
    have b: "budgeted env ch app sid c \<longleftrightarrow> app = ?app \<and> sid = ?sid" for app sid
      using True k ins by (simp add: budgeted_def t(4))
    have acc: "(sc', r) = (case getOrInitSessionBudget ch ?app ?sid (SH_SessionEndBlockHeight h) sc of
        (sc1, Inl e) \<Rightarrow> (sc1, Inl e)
      | (sc1, Inr sb) \<Rightarrow> (sc1\<lparr>SC_Budgets := al_set (?app, ?sid) (fold_into_budget t sb) (SC_Budgets sc1)\<rparr>, Inr ()))"
      using run True t(1-3) dd(1) h
      by (simp add: AccumulateClaimBudget_def Ctx_GetRelayMiningDifficulty_def)
    show ?thesis
    proof (cases "map_of (SC_Budgets sc) (?app, ?sid)")
      case None
      note acc' = acc [unfolded getOrInitSessionBudget_initial [OF c a None] e [symmetric]]
      show ?thesis
      proof (cases "initial_budget ch ?app (GetActualSupplierCount sc ?app ?sid) (claim_end c)")
        case (Inl x)
        then show ?thesis
          using acc' np None by (auto simp: b tt with_claim_def intro!: exI [of _ "SC_Budgets sc"])
      next
        case (Inr sb)
        then show ?thesis using acc' np None by (auto simp: b tt with_claim_def)
      qed
    next
      case (Some sb)
      then show ?thesis
        using acc by (auto simp: getOrInitSessionBudget_def b tt with_claim_def)
    qed
  qed
qed

section \<open>All claims of a block\<close>

definition session_of :: "tok_env \<Rightarrow> tok_chain \<Rightarrow> string \<Rightarrow> string \<Rightarrow> claim list \<Rightarrow> claim list" where
  "session_of env ch app sessionId claims = filter (budgeted env ch app sessionId) claims"

definition sized_budget :: "tok_env \<Rightarrow> tok_chain \<Rightarrow> string \<Rightarrow> int \<Rightarrow> claim list \<Rightarrow> session_budget option" where
  "sized_budget env ch app n ms = (if ms = [] then None
     else case initial_budget ch app n (claim_end (hd ms)) of Inl e \<Rightarrow> None
     | Inr sb \<Rightarrow> Some (fold fold_into_budget (map (terms_of env ch) ms) sb))"

definition sized :: "tok_env \<Rightarrow> tok_chain \<Rightarrow> settlement_context \<Rightarrow> claim list \<Rightarrow> settlement_context \<Rightarrow> bool" where
  "sized env ch sc0 claims sc \<longleftrightarrow> cached ch sc \<and> SC_TokParams sc = Tok_GetParams (TCh_Tok ch)
     \<and> SC_SupplierCounts sc = SC_SupplierCounts sc0
     \<and> (\<forall>app sid. let n = GetActualSupplierCount sc0 app sid; ms = session_of env ch app sid claims in
          map_of (SC_Budgets sc) (app, sid) = sized_budget env ch app n ms
          \<and> (ms \<noteq> [] \<longrightarrow> initial_budget ch app n (claim_end (hd ms)) \<noteq> Inl Panic))"

lemma budget_step_sized:
  assumes s: "sized env ch sc0 claims sc" and step: "budget_step env ch sc c = Inr sc'"
  shows "sized env ch sc0 (claims @ [c]) sc'"
proof -
  have c: "cached ch sc" using s by (simp add: sized_def)
  obtain sc1 r1 where w: "ClaimCacheWarmUp (TE_Height env) ch c sc = (sc1, r1)"
    by (cases "ClaimCacheWarmUp (TE_Height env) ch c sc")
  note k = ClaimCacheWarmUp_cached [OF c w]
  then have k': "cached ch sc1" "same_sizes sc sc1" "r1 = Inr () \<longleftrightarrow> claim_known ch c" by simp_all
  have n: "GetActualSupplierCount sc2 = GetActualSupplierCount sc0" if "SC_SupplierCounts sc2 = SC_SupplierCounts sc0" for sc2
    using that by (simp add: GetActualSupplierCount_def fun_eq_iff)
  show ?thesis
  proof (cases "claim_known ch c")
    case False
    then have "sc' = sc1" using step w k'(3)
      by (cases r1) (auto simp: budget_step_def split: go_error.splits)
    moreover have "\<not> budgeted env ch app sid c" for app sid using False by (simp add: budgeted_def)
    ultimately show ?thesis using s k' by (simp add: sized_def session_of_def same_sizes_def)
  next
    case True
    then obtain h where h: "Claim_SessionHeader c = Some h" by (auto simp: claim_known_def split: option.splits)
    have r1: "r1 = Inr ()" using True k' by simp
    obtain r where acc: "AccumulateClaimBudget env ch c sc1 = (sc', r)" and np: "r \<noteq> Inl Panic"
      using step w r1 by (auto simp: budget_step_def split: prod.splits sum.splits go_error.splits)
    have sz: "SC_TokParams sc1 = Tok_GetParams (TCh_Tok ch)" "SC_SupplierCounts sc1 = SC_SupplierCounts sc0"
      "SC_Budgets sc1 = SC_Budgets sc"
      using s k'(2) by (simp_all add: sized_def same_sizes_def)
    obtain b where b: "sc' = sc1\<lparr>SC_Budgets := b\<rparr>"
      "\<And>app sid. map_of b (app, sid) = (if budgeted env ch app sid c
         then with_claim env ch app (GetActualSupplierCount sc0 app sid) c (map_of (SC_Budgets sc) (app, sid))
         else map_of (SC_Budgets sc) (app, sid))"
      and i: "budgeted env ch (SH_ApplicationAddress h) (SH_SessionId h) c
        \<Longrightarrow> map_of (SC_Budgets sc) (SH_ApplicationAddress h, SH_SessionId h) = None
        \<Longrightarrow> initial_budget ch (SH_ApplicationAddress h)
              (GetActualSupplierCount sc0 (SH_ApplicationAddress h) (SH_SessionId h)) (claim_end c) \<noteq> Inl Panic"
      using AccumulateClaimBudget_budgets [OF k'(1) h _ _ sz(1) True acc np] k r1 h sz(3) n [OF sz(2)] by auto
    have "map_of b (app, sid) = sized_budget env ch app (GetActualSupplierCount sc0 app sid)
          (session_of env ch app sid (claims @ [c]))
        \<and> (session_of env ch app sid (claims @ [c]) \<noteq> [] \<longrightarrow> initial_budget ch app (GetActualSupplierCount sc0 app sid)
            (claim_end (hd (session_of env ch app sid (claims @ [c])))) \<noteq> Inl Panic)" for app sid
    proof -
      let ?ms = "session_of env ch app sid claims" and ?n = "GetActualSupplierCount sc0 app sid"
      have old: "map_of (SC_Budgets sc) (app, sid) = sized_budget env ch app ?n ?ms"
        "?ms \<noteq> [] \<Longrightarrow> initial_budget ch app ?n (claim_end (hd ?ms)) \<noteq> Inl Panic"
        using s by (simp_all add: sized_def Let_def)
      show ?thesis
      proof (cases "budgeted env ch app sid c")
        case False
        then show ?thesis using old b(2) by (simp add: session_of_def)
      next
        case bc: True
        then have key: "app = SH_ApplicationAddress h" "sid = SH_SessionId h"
          by (auto simp: budgeted_def in_session_def h)
        have ms: "session_of env ch app sid (claims @ [c]) = ?ms @ [c]" using bc by (simp add: session_of_def)
        have i': "sized_budget env ch app ?n ?ms = None \<Longrightarrow> initial_budget ch app ?n (claim_end c) \<noteq> Inl Panic"
          using i bc old(1) key by simp
        show ?thesis
        proof (cases "?ms = []")
          case True
          then show ?thesis using b(2) bc old i' unfolding ms
            by (auto simp: sized_budget_def with_claim_def split: sum.splits)
        next
          case False
          show ?thesis
          proof (cases "initial_budget ch app ?n (claim_end (hd ?ms))")
            case (Inl x)
            have "x \<noteq> Panic" using old(2) False Inl by auto
            then have "\<exists>y. initial_budget ch app ?n (claim_end c) = Inl y"
              using initial_budget_errors [OF Inl] by (cases "initial_budget ch app ?n (claim_end c)") auto
            then show ?thesis using b(2) bc old False Inl unfolding ms
              by (auto simp: sized_budget_def with_claim_def)
          next
            case (Inr sb)
            then show ?thesis using b(2) bc old False unfolding ms
              by (auto simp: sized_budget_def with_claim_def)
          qed
        qed
      qed
    qed
    then show ?thesis using s k'(1) sz b(1) by (simp add: sized_def Let_def cached_def)
  qed
qed

lemma budget_steps_sized:
  assumes "foldR (budget_step env ch) sc0 claims = Inr sc" and "sized env ch sc0 [] sc0"
  shows "sized env ch sc0 claims sc"
  using assms(1)
proof (induction claims arbitrary: sc rule: rev_induct)
  case Nil
  then show ?case using assms(2) by simp
next
  case (snoc c claims)
  then obtain sc1 where "foldR (budget_step env ch) sc0 claims = Inr sc1" "budget_step env ch sc1 c = Inr sc"
    by (auto simp: foldR_append res_simps)
  then show ?case using snoc.IH budget_step_sized by blast
qed

section \<open>The suppliers of a session are counted by its claims\<close>

lemma collect_steps_counts:
  assumes "foldR (collect_step sh h) (cs, sc, n) xs = Inr (cs', sc', n')"
    and "\<And>app sid. map_of (SC_SupplierCounts sc) (app, sid)
      = (let k = length (filter (in_session app sid) cs) in if k = 0 then None else Some (int k))"
  shows "(\<forall>app sid. map_of (SC_SupplierCounts sc') (app, sid)
      = (let k = length (filter (in_session app sid) cs') in if k = 0 then None else Some (int k)))
    \<and> sc' = sc\<lparr>SC_SupplierCounts := SC_SupplierCounts sc'\<rparr>"
  using assms
proof (induction xs arbitrary: cs sc n)
  case Nil
  then show ?case by simp
next
  case (Cons e xs)
  obtain k v where e: "e = (k, v)" by (cases e)
  obtain cs1 sc1 n1 where 1: "collect_step sh h (cs, sc, n) (k, v) = Inr (cs1, sc1, n1)"
    and 2: "foldR (collect_step sh h) (cs1, sc1, n1) xs = Inr (cs', sc', n')"
    using Cons.prems(1) e by (auto simp: res_simps)
  consider "cs1 = cs" "sc1 = sc" | c hd where "cs1 = cs @ [c]" "Claim_SessionHeader c = Some hd"
    "sc1 = IncrementSupplierCount (SH_ApplicationAddress hd) (SH_SessionId hd) sc"
    using 1 by (auto simp: collect_step_def split: sum.splits if_splits option.splits)
  then show ?case
  proof cases
    case 1
    then show ?thesis using Cons.IH [OF 2] Cons.prems(2) by simp
  next
    case new: 2
    have "map_of (SC_SupplierCounts sc1) (app, sid)
      = (let k = length (filter (in_session app sid) cs1) in if k = 0 then None else Some (int k))" for app sid
    proof -
      have "in_session app sid c \<longleftrightarrow> app = SH_ApplicationAddress hd \<and> sid = SH_SessionId hd"
        by (auto simp: in_session_def new(2))
      then show ?thesis
        using Cons.prems(2) [of app sid] by (auto simp: new(1,3) IncrementSupplierCount_def Let_def)
    qed
    from Cons.IH [OF 2 this] show ?thesis by (auto simp: new(3) IncrementSupplierCount_def)
  qed
qed

lemma collected_counts:
  assumes "collect_claims ch h (NewSettlementContext ch) = Inr (claims, sc, n)"
  shows "sized env ch sc [] sc"
    and "GetActualSupplierCount sc app sid = max 1 (int (length (filter (in_session app sid) claims)))"
proof -
  note c = collect_steps_counts [OF assms [unfolded collect_claims_def]]
  have e: "sc = (NewSettlementContext ch)\<lparr>SC_SupplierCounts := SC_SupplierCounts sc\<rparr>"
    using c by (simp add: NewSettlementContext_def)
  have "cached ch sc" "SC_TokParams sc = Tok_GetParams (TCh_Tok ch)" "SC_Budgets sc = []"
    by (subst e, simp add: NewSettlementContext_def cached_def)+
  then show "sized env ch sc [] sc" by (simp add: sized_def session_of_def sized_budget_def)
  show "GetActualSupplierCount sc app sid = max 1 (int (length (filter (in_session app sid) claims)))"
  proof (cases "filter (in_session app sid) claims")
    case Nil
    then show ?thesis using c by (simp add: GetActualSupplierCount_def NewSettlementContext_def)
  next
    case (Cons x xs)
    then show ?thesis using c by (simp add: GetActualSupplierCount_def NewSettlementContext_def)
  qed
qed

text \<open>The budgets of a block before its claims are settled.\<close>

lemma block_budgets:
  assumes c: "collect_claims ch (TE_Height env) (NewSettlementContext ch) = Inr (claims, sc0, n)"
    and b: "foldR (budget_step env ch) sc0 claims = Inr sc"
  shows "map_of (SC_Budgets sc) (app, sid) = sized_budget env ch app
      (max 1 (int (length (filter (in_session app sid) claims)))) (session_of env ch app sid claims)"
    and "SC_TokParams sc = Tok_GetParams (TCh_Tok ch)"
  using budget_steps_sized [OF b collected_counts(1) [OF c]] collected_counts(2) [OF c]
  by (simp_all add: sized_def Let_def)

end
