(* ===== verification/TokClaims.thy ===== *)
theory TokClaims
  imports TokRuns TokSizing
begin

text \<open>
  The properties of the tokenomics module: what a block's settlement keeps of the module accounts,
  which claims it settles and removes, how a session's budget limits its claims, and how rewards are
  divided. Settlement starts from any state whose stores hold every application, supplier and claim
  under its own address (\<open>store_ok\<close>) and whose shares for the proposer and mint ratio are not
  below zero (\<open>proposer_shares_ok\<close>), which validated parameters give.
\<close>

section \<open>The module accounts\<close>

lemma settlement_books:
  assumes run: "SettlePendingClaims env ch = Inr so" and sdk: "sdk_ok (TE_Sdk env)"
    and st: "aps.store_ok (TCh_Apps ch)" "sups.store_ok (TCh_Suppliers ch)"
    and p: "proposer_shares_ok (Tok_GetParams (TCh_Tok ch))"
  obtains pr x k where "settle_collected env ch = Inr pr" and "SO_NumDiscarded so = PR_NumDiscarded pr"
    and "supplier_surplus (SO_Chain so) = supplier_surplus ch"
    and "application_surplus (SO_Chain so) = application_surplus ch - x"
    and "inflow Tokenomics_ModuleName (TCh_Bank (SO_Chain so)) = inflow Tokenomics_ModuleName (TCh_Bank ch)
      + results_inflow Tokenomics_ModuleName (SO_Settled so)"
    and "settling_ok (PR_Settling pr)" and "x \<le> 0" and "0 \<le> k" and "PR_NumDiscarded pr = 0 \<Longrightarrow> x = 0 \<and> k = 0"
    and "acc_total (SC_Accumulator (ST_Ctx (PR_Settling pr))) = results_inflow Tokenomics_ModuleName (PR_Settled pr) + k"
    and "\<exists>b evs. FlushBatchedValidatorRewards (TE_Staking env) (SC_Accumulator (ST_Ctx (PR_Settling pr)))
        (first_session_end (PR_Settled pr)) = Inr (b, evs)
      \<and> SO_Settled so = (case b of None \<Rightarrow> PR_Settled pr | Some r \<Rightarrow> PR_Settled pr @ [r])"
proof -
  let ?st = "\<lparr>ST_Chain = ch, ST_Ctx = NewSettlementContext ch\<rparr>"
  obtain pr where pr: "settle_collected env ch = Inr pr" "progress_ok ?st pr"
    "SO_NumDiscarded so = PR_NumDiscarded pr" "supplier_surplus (SO_Chain so) = supplier_surplus ch"
    "application_surplus (SO_Chain so) = inflow Application_ModuleName (TCh_Bank ch)
      + results_inflow Application_ModuleName (PR_Settled pr) - app_ledger (PR_Settling pr)"
    "inflow Tokenomics_ModuleName (TCh_Bank (SO_Chain so)) = inflow Tokenomics_ModuleName (TCh_Bank ch)
      + results_inflow Tokenomics_ModuleName (SO_Settled so)"
    "\<exists>b evs. FlushBatchedValidatorRewards (TE_Staking env) (SC_Accumulator (ST_Ctx (PR_Settling pr)))
        (first_session_end (PR_Settled pr)) = Inr (b, evs)
      \<and> SO_Settled so = (case b of None \<Rightarrow> PR_Settled pr | Some r \<Rightarrow> PR_Settled pr @ [r])"
    by (rule settlement_surplus [OF run sdk new_context_ok [OF st p]])
  obtain x k where xk: "x \<le> 0" "0 \<le> k" "PR_NumDiscarded pr = 0 \<longrightarrow> x = 0 \<and> k = 0"
    and b: "books (results_inflow Application_ModuleName (PR_Settled pr) + x)
        (results_inflow Tokenomics_ModuleName (PR_Settled pr) + k) ?st (PR_Settling pr)"
    using pr(2) unfolding progress_ok_def by (elim conjE exE) (rule that; assumption)
  have start: "app_ledger ?st = aps.stakes (TCh_Apps ch)" "acc_total (SC_Accumulator (ST_Ctx ?st)) = 0"
    by (simp_all add: app_ledger_def NewSettlementContext_def aps.ledger_def aps.pending_def acc_total_def
        amount_total_def)
  have "application_surplus (SO_Chain so) = application_surplus ch - x"
    using pr(5) b start(1) by (simp add: application_surplus_def books_def)
  note ax = this
  have ok: "settling_ok (PR_Settling pr)"
    and acc: "acc_total (SC_Accumulator (ST_Ctx (PR_Settling pr))) = results_inflow Tokenomics_ModuleName (PR_Settled pr) + k"
    using b start(2) by (simp_all add: books_def)
  show ?thesis by (rule that [OF pr(1,3,4) ax pr(6) ok xk(1,2) _ acc pr(7)]) (use xk(3) in simp)
qed

text \<open>C2. Settling the pending claims of a block never lowers what the application module account holds
  beyond the recorded application stakes: every token that leaves an application's stake, for its
  claims and for the global inflation it reimburses, leaves the module account too, and nothing
  else does. If no claim of the block was discarded the surplus is unchanged to the token. A
  discarded claim can leave the stake lowered without a payout. The stores hold every application
  and supplier under its own address, and the mint ratio and the proposer's shares are not below
  zero, as validated parameters give.\<close>
theorem settlement_keeps_application_stakes_covered:
  assumes "SettlePendingClaims env ch = Inr so" and "sdk_ok (TE_Sdk env)"
    and "aps.store_ok (TCh_Apps ch)" and "sups.store_ok (TCh_Suppliers ch)"
    and "proposer_shares_ok (Tok_GetParams (TCh_Tok ch))"
  shows "inflow Application_ModuleName (TCh_Bank ch) - stake_total App_Stake (Applications (TCh_Apps ch))
      \<le> inflow Application_ModuleName (TCh_Bank (SO_Chain so)) - stake_total App_Stake (Applications (TCh_Apps (SO_Chain so)))
    \<and> (SO_NumDiscarded so = 0 \<longrightarrow>
      inflow Application_ModuleName (TCh_Bank (SO_Chain so)) - stake_total App_Stake (Applications (TCh_Apps (SO_Chain so)))
      = inflow Application_ModuleName (TCh_Bank ch) - stake_total App_Stake (Applications (TCh_Apps ch)))"
  by (rule settlement_books [OF assms]) (simp add: application_surplus_def aps.stakes_def)

lemma tok_run_Inr:
  obtains so where "tok_run VALIDATED (Fin (1 / 2)) = Inr so" and "SO_NumDiscarded so = 0"
    and "length (SO_Settled so) = 2" and "SO_Expired so = []"
  using tok_run_settled by (auto split: sum.splits)

lemma tok_run_expired_Inr:
  obtains so where "tok_run PENDING_VALIDATION (Fin (1 / 2)) = Inr so" and "SO_NumDiscarded so = 0"
    and "SO_Settled so = []" and "length (SO_Expired so) = 1"
  using tok_run_expired by (auto split: sum.splits)

theorem settlement_keeps_application_stakes_covered_witness:
  "\<exists>so. tok_run VALIDATED (Fin (1 / 2)) = Inr so \<and> length (SO_Settled so) = 2
    \<and> stake_total App_Stake (Applications (TCh_Apps (SO_Chain so)))
      = inflow Application_ModuleName (TCh_Bank (SO_Chain so))"
proof (rule tok_run_Inr)
  fix so assume so: "tok_run VALIDATED (Fin (1 / 2)) = Inr so" "SO_NumDiscarded so = 0" "length (SO_Settled so) = 2"
  let ?ch = "tok_run_chain VALIDATED (Fin (1 / 2))"
  have "inflow Application_ModuleName (TCh_Bank ?ch) - stake_total App_Stake (Applications (TCh_Apps ?ch)) = 0"
    by code_simp
  then show ?thesis
    using settlement_keeps_application_stakes_covered [OF so(1) [unfolded tok_run_def] tok_run_start(4,1,2)
        tok_run_shares] so by auto
qed

text \<open>C3. Settling the pending claims of a block leaves what the supplier module account holds beyond
  the recorded supplier stakes unchanged to the token: everything minted into the account for the
  suppliers of the settled claims is paid out of it, and slashing a supplier takes the same amount
  from its recorded stake and from the account. So stakes covered before the block are covered
  after it. The stores hold every application and supplier under its own
  address, and the mint ratio and the proposer's shares are not below zero, as validated parameters
  give.\<close>
theorem settlement_keeps_supplier_stakes_covered:
  assumes "SettlePendingClaims env ch = Inr so" and "sdk_ok (TE_Sdk env)"
    and "aps.store_ok (TCh_Apps ch)" and "sups.store_ok (TCh_Suppliers ch)"
    and "proposer_shares_ok (Tok_GetParams (TCh_Tok ch))"
  shows "inflow Supplier_ModuleName (TCh_Bank (SO_Chain so)) - stake_total Supplier_Stake (SupplierStore (TCh_Suppliers (SO_Chain so)))
    = inflow Supplier_ModuleName (TCh_Bank ch) - stake_total Supplier_Stake (SupplierStore (TCh_Suppliers ch))"
  by (rule settlement_books [OF assms]) (simp add: supplier_surplus_def sups.stakes_def)

theorem settlement_keeps_supplier_stakes_covered_witness:
  "\<exists>so. tok_run PENDING_VALIDATION (Fin (1 / 2)) = Inr so \<and> length (SO_Expired so) = 1
    \<and> stake_total Supplier_Stake (SupplierStore (TCh_Suppliers (SO_Chain so)))
      = inflow Supplier_ModuleName (TCh_Bank (SO_Chain so))"
proof (rule tok_run_expired_Inr)
  fix so assume so: "tok_run PENDING_VALIDATION (Fin (1 / 2)) = Inr so" "length (SO_Expired so) = 1"
  let ?ch = "tok_run_chain PENDING_VALIDATION (Fin (1 / 2))"
  have "inflow Supplier_ModuleName (TCh_Bank ?ch) - stake_total Supplier_Stake (SupplierStore (TCh_Suppliers ?ch)) = 0"
    by code_simp
  then show ?thesis
    using settlement_keeps_supplier_stakes_covered [OF so(1) [unfolded tok_run_def] tok_run_start(4,1,2)
        tok_run_shares] so by auto
qed

text \<open>C7. What a block settles nets out in the tokenomics module account: after a block in which no
  claim was discarded and in which the staking module lists a bonded validator with a valid address
  and a stake, everything minted into the account or moved there from the application account has
  been burned or paid on, the rewards batched for the validators included. The answers of the
  staking module are not negative and shorter than \<open>2 ^ 63\<close>. The stores hold every application and supplier under its own
  address, and the mint ratio and the proposer's shares are not below zero, as validated parameters
  give.\<close>
theorem tokenomics_account_nets_out:
  assumes "SettlePendingClaims env ch = Inr so" and "sdk_ok (TE_Sdk env)"
    and "aps.store_ok (TCh_Apps ch)" and "sups.store_ok (TCh_Suppliers ch)"
    and "proposer_shares_ok (Tok_GetParams (TCh_Tok ch))"
    and "staking_ok (TE_Staking env)" and "SK_BondedValidators (TE_Staking env) = Inr vs" and "v \<in> set vs"
    and "SK_AccAddress (TE_Staking env) (Val_Operator v) \<noteq> None" and "0 < Val_BondedTokens v"
    and "SO_NumDiscarded so = 0"
  shows "inflow Tokenomics_ModuleName (TCh_Bank (SO_Chain so)) = inflow Tokenomics_ModuleName (TCh_Bank ch)"
proof (rule settlement_books [OF assms(1-5)])
  fix pr x k
  assume T: "inflow Tokenomics_ModuleName (TCh_Bank (SO_Chain so)) = inflow Tokenomics_ModuleName (TCh_Bank ch)
      + results_inflow Tokenomics_ModuleName (SO_Settled so)"
    and ok: "settling_ok (PR_Settling pr)" and k: "PR_NumDiscarded pr = 0 \<Longrightarrow> x = 0 \<and> k = 0"
    and acc: "acc_total (SC_Accumulator (ST_Ctx (PR_Settling pr))) = results_inflow Tokenomics_ModuleName (PR_Settled pr) + k"
    and fl: "\<exists>b evs. FlushBatchedValidatorRewards (TE_Staking env) (SC_Accumulator (ST_Ctx (PR_Settling pr)))
        (first_session_end (PR_Settled pr)) = Inr (b, evs)
      \<and> SO_Settled so = (case b of None \<Rightarrow> PR_Settled pr | Some r \<Rightarrow> PR_Settled pr @ [r])"
    and n: "SO_NumDiscarded so = PR_NumDiscarded pr"
  let ?acc = "SC_Accumulator (ST_Ctx (PR_Settling pr))"
  have k0: "k = 0" using k n assms(11) by simp
  have aok: "\<forall>e \<in> set (sort_key fst ?acc). 0 \<le> snd e \<and> fst e \<noteq> UNSPECIFIED"
    using ok by (auto simp: settling_ok_def accumulator_ok_def)
  obtain b evs where b: "FlushBatchedValidatorRewards (TE_Staking env) ?acc (first_session_end (PR_Settled pr)) = Inr (b, evs)"
    "SO_Settled so = (case b of None \<Rightarrow> PR_Settled pr | Some r \<Rightarrow> PR_Settled pr @ [r])" using fl by blast
  have "results_inflow Tokenomics_ModuleName (case b of None \<Rightarrow> [] | Some r \<Rightarrow> [r]) = - acc_total ?acc"
  proof (cases "?acc = []")
    case True
    then show ?thesis using b(1)
      by (auto simp: FlushBatchedValidatorRewards_def acc_total_def amount_total_def res_simps split: if_splits)
  next
    case False
    then obtain r where run: "foldR (flush_step (TE_Staking env) (first_session_end (PR_Settled pr)))
        (NewClaimSettlementResult zero_claim, []) (sort_key fst ?acc) = Inr (r, evs)"
      and r: "b = (if SR_ModToAcctTransfers r = [] then None else Some r)"
      using b(1) by (auto simp: FlushBatchedValidatorRewards_def res_simps split: if_splits)
    obtain ts where ts: "r = with_acct ts (NewClaimSettlementResult zero_claim)"
      "pays_from Tokenomics_ModuleName ts" "acct_total ts = amount_total (sort_key fst ?acc)"
      using flush_steps_pay [OF run assms(6-10) aok] by blast
    have "SR_ModToAcctTransfers r = ts" by (simp add: ts(1) with_acct_def NewClaimSettlementResult_def)
    moreover have "amount_total (sort_key fst ?acc) = acc_total ?acc"
      by (simp add: acc_total_def amount_total_def sum_sort_key)
    moreover have "result_inflow Tokenomics_ModuleName r = - acct_total ts"
      using ts by (simp add: inflow_with_acct ma_total_pays)
    ultimately show ?thesis using ts(3) r by auto
  qed
  then show ?thesis using T b(2) acc k0 by (cases b) simp_all
qed

theorem tokenomics_account_nets_out_witness:
  "\<exists>so. tok_run VALIDATED (Fin (1 / 2)) = Inr so \<and> length (SO_Settled so) = 2
    \<and> inflow Tokenomics_ModuleName (TCh_Bank (SO_Chain so)) = 0"
proof (rule tok_run_Inr)
  fix so assume so: "tok_run VALIDATED (Fin (1 / 2)) = Inr so" "SO_NumDiscarded so = 0" "length (SO_Settled so) = 2"
  have "inflow Tokenomics_ModuleName (TCh_Bank (tok_run_chain VALIDATED (Fin (1 / 2)))) = 0" by code_simp
  then show ?thesis
    using tokenomics_account_nets_out [OF so(1) [unfolded tok_run_def] tok_run_start(4,1,2) tok_run_shares
        tok_run_start(5), of "[\<lparr>Val_Operator = ''v'', Val_BondedTokens = 10, Val_CommissionRate = None\<rparr>]"] so
    by (auto simp: tok_run_params_simps tok_run_staking_def)
qed

section \<open>What happens to a claim\<close>



text \<open>C4. No claim outlives its window: in any reachable state of the shared module's parameters and
  their epochs, the settlement of the block right after the proof window of a session closes,
  counted with the parameters in effect at the session's end, leaves no claim of a session that
  ended there in the store, whatever parameter updates came in between. A claim is stored under its
  own session and supplier, listed under the end height of its session, applications and suppliers
  under their own addresses, and the mint ratio and the proposer's shares are not below zero, as
  validated parameters give.\<close>
theorem claims_leave_when_their_window_closes:
  assumes "shared_reachable isB authority (TE_Height env, TCh_Shared ch)" and "chain_height (TE_Height env)"
    and "SettlePendingClaims env ch = Inr so" and "sdk_ok (TE_Sdk env)"
    and "aps.store_ok (TCh_Apps ch)" and "sups.store_ok (TCh_Suppliers ch)" and "cs.store_ok (TCh_Proofs ch)"
    and "proposer_shares_ok (Tok_GetParams (TCh_Tok ch))"
    and "1 \<le> e" and "e < TE_Height env"
    and "TE_Height env = e + GetSessionEndToProofWindowCloseBlocks (GetParamsAtHeight (TCh_Shared ch) e) + 1"
    and "GetClaim (TCh_Proofs ch) sessionId supplier = Some c" and "GetHeaderEndHeight (Claim_SessionHeader c) = e"
  shows "GetClaim (TCh_Proofs (SO_Chain so)) sessionId supplier = None"
proof (rule settled_block [OF assms(3,4) new_context_ok [OF assms(5,6,8)]])
  fix cs sc n
  assume c: "collect_claims ch (TE_Height env) (NewSettlementContext ch) = Inr (cs, sc, n)"
    and g: "\<And>i x. GetClaim (TCh_Proofs (SO_Chain so)) i x
         = (if ClaimPrimaryKey i x \<in> claim_id ` set cs then None else GetClaim (TCh_Proofs ch) i x)"
  have inv: "grid_inv (TE_Height env) (TCh_Shared ch)" using reachable_grid_inv [OF assms(1)] by simp
  note w = window_close_candidate [OF inv assms(2,9,10,11)]
  note l = stored_claim_listed [OF assms(7,12)]
  have "SC_SharedParams (NewSettlementContext ch) = GetParams (TCh_Shared ch)" by (simp add: NewSettlementContext_def)
  then have "c \<in> set cs" unfolding collected_claims [OF c] using w(1) w(2) [OF assms(13)] l(1) assms(13) by auto
  then have "ClaimPrimaryKey sessionId supplier \<in> claim_id ` set cs" using l(2) by force
  then show ?thesis by (simp add: g)
qed

lemma genesis_waits:
  assumes "int n < 2 ^ 61" shows "shared_reachable isB auth (1 + int n, witness_genesis)"
  using assms
proof (induction n)
  case 0
  then show ?case using genesis_reachable by (simp add: witness_genesis_def)
next
  case (Suc n)
  have "EndBlocker h witness_genesis = Inr witness_genesis" for h
    by (simp add: EndBlocker_def GetParamsHistoryEntry_def witness_genesis_def)
  then have "shared_step isB auth (1 + int n, witness_genesis) (1 + int n + 1, witness_genesis)"
    by (rule shared_step.end_block)
  then show ?case
    using shared_reachable.step [OF Suc.IH] Suc.prems by (simp add: chain_height_def algebra_simps)
qed

theorem claims_leave_when_their_window_closes_witness:
  "\<exists>so. tok_run VALIDATED (Fin (1 / 2)) = Inr so
    \<and> GetClaim (TCh_Proofs (tok_run_chain VALIDATED (Fin (1 / 2)))) ''i'' ''p'' \<noteq> None
    \<and> GetClaim (TCh_Proofs (SO_Chain so)) ''i'' ''p'' = None"
proof (rule tok_run_Inr)
  fix so assume so: "tok_run VALIDATED (Fin (1 / 2)) = Inr so"
  let ?ch = "tok_run_chain VALIDATED (Fin (1 / 2))"
  have sh: "TCh_Shared ?ch = witness_genesis" by (simp add: tok_run_chain_def)
  have r: "shared_reachable (\<lambda>_. True) ''gov'' (TE_Height tok_run_env, TCh_Shared ?ch)"
    using genesis_waits [of 39] by (simp add: sh tok_run_params_simps)
  have w: "TE_Height tok_run_env = 30 + GetSessionEndToProofWindowCloseBlocks (GetParamsAtHeight (TCh_Shared ?ch) 30) + 1"
    unfolding sh tok_run_params_simps by code_simp
  have c: "GetClaim (TCh_Proofs ?ch) ''i'' ''p'' = Some (tok_claim VALIDATED)" by code_simp
  have "GetClaim (TCh_Proofs (SO_Chain so)) ''i'' ''p'' = None"
    by (rule claims_leave_when_their_window_closes [OF r _ so [unfolded tok_run_def] tok_run_start(4,1,2,3)
        tok_run_shares _ _ w c]) (simp_all add: tok_run_params_simps chain_height_def tok_claim_def tok_header_def)
  then show ?thesis using so c by auto
qed

section \<open>The budget of a session\<close>

text \<open>C5. The claims of a session never take more than the budget of the session: for the budget that
  collecting and accumulating the claims of the block leaves, the amounts its claims are limited
  to, each with the global inflation the application pays on top, rounded up, add up to no more
  than the application's stake divided by the number of pending sessions, nor to more than its
  spend limit per session when it has one, whatever the overservicing bonus, the number of claims
  and what each of them asks. The stake and the inflation are not negative, and the ends of the
  claims lie in epochs with the same, positive number of pending sessions.\<close>
theorem session_budget_is_never_overdrawn:
  assumes "collect_claims ch (TE_Height env) (NewSettlementContext ch) = Inr (claims, sc0, discarded)"
    and "foldR (budget_step env ch) sc0 claims = Inr sc"
    and "map_of (SC_Budgets sc) (app, sessionId) = Some sb"
    and "GetApplication (TCh_Apps ch) app = Some a" and "0 \<le> Amount (App_Stake a)"
    and "\<forall>c \<in> set claims. in_session app sessionId c
      \<longrightarrow> GetNumPendingSessions (GetParamsAtHeight (TCh_Shared ch) (claim_end c)) = Inr pending"
    and "0 < pending"
    and "Float64ToRat (GlobalInflationPerClaim (Tok_GetParams (TCh_Tok ch))) = Inr q" and "0 \<le> q"
    and "\<forall>c \<in> set (session_of env ch app sessionId claims). \<exists>coin a' s serviceId e evs.
      claimed_coin env ch c = Inr coin
      \<and> ensureClaimAmountLimits (SC_TokParams sc) a' s coin sb q serviceId e = Inr (evs, paid c)"
  shows "sum_list (map (\<lambda>c. Amount (paid c) + \<lceil>of_int (Amount (paid c)) * q\<rceil>) (session_of env ch app sessionId claims))
      \<le> Amount (App_Stake a) div pending
    \<and> (\<forall>limit. PerSessionSpendLimit a = Some limit \<and> 0 < Amount limit \<longrightarrow>
        sum_list (map (\<lambda>c. Amount (paid c) + \<lceil>of_int (Amount (paid c)) * q\<rceil>) (session_of env ch app sessionId claims))
        \<le> Amount limit)"
proof -
  let ?ms = "session_of env ch app sessionId claims"
  define n where "n = max 1 (int (length (filter (in_session app sessionId) claims)))"
  define coin where "coin c = (case claimed_coin env ch c of Inl e \<Rightarrow> upokt 0 | Inr x \<Rightarrow> x)" for c
  have sz: "sized_budget env ch app n ?ms = Some sb"
    using block_budgets(1) [OF assms(1,2), of app sessionId] assms(3) by (simp add: n_def)
  then obtain sb0 where ne: "?ms \<noteq> []" and i: "initial_budget ch app n (claim_end (hd ?ms)) = Inr sb0"
    and sb: "sb = fold fold_into_budget (map (terms_of env ch) ?ms) sb0"
    by (auto simp: sized_budget_def split: if_splits sum.splits)
  have "hd ?ms \<in> set ?ms" using ne by simp
  then have "hd ?ms \<in> set claims" "in_session app sessionId (hd ?ms)"
    by (auto simp: session_of_def budgeted_def)
  then have pd: "GetNumPendingSessions (GetParamsAtHeight (TCh_Shared ch) (claim_end (hd ?ms))) = Inr pending"
    using assms(6) by blast
  then obtain f ex where f: "budget_floor (Amount (App_Stake a)) (PerSessionSpendLimit a) pending n = Inr (f, ex)"
    "sb0 = fresh_budget n f ex"
    using i assms(4) by (auto simp: initial_budget_def res_simps)
  have c0: "claimed_coin env ch c = Inr (coin c)" "0 \<le> Amount (coin c)"
    "terms_of env ch c = stake_terms q (Amount (coin c))" if c: "c \<in> set ?ms" for c
  proof -
    obtain x where x: "claimed_coin env ch c = Inr x" using assms(10) c by blast
    then show "claimed_coin env ch c = Inr (coin c)" by (simp add: coin_def)
    show nn: "0 \<le> Amount (coin c)"
      using x by (auto simp: coin_def claimed_coin_def res_simps split: option.splits dest: GetClaimeduPOKT_coin)
    show "terms_of env ch c = stake_terms q (Amount (coin c))"
      using claimStakeTermsAmount_terms [OF nn assms(9)] x assms(8)
      by (simp add: terms_of_def claim_terms_def coin_def)
  qed
  have "length ?ms \<le> length (filter (in_session app sessionId) claims)"
    unfolding session_of_def by (induction claims) (auto simp: budgeted_def)
  then have n: "int (length ?ms) \<le> n" "0 < n" by (auto simp: n_def)
  have sb': "sb = fold fold_into_budget (map (\<lambda>c. stake_terms q (Amount (coin c))) ?ms) (fresh_budget n f ex)"
    unfolding sb f(2) using c0(3) by (metis (mono_tags, lifting) map_eq_conv)
  have run: "\<forall>c \<in> set ?ms. \<exists>a' s sid e evs.
      ensureClaimAmountLimits (SC_TokParams sc) a' s (coin c) sb q sid e = Inr (evs, paid c)"
    using assms(10) c0(1) by fastforce
  have "sum_list (map (\<lambda>c. stake_terms q (Amount (paid c))) ?ms) \<le> n * f"
    by (rule session_settlements [OF f(1) assms(5,7,9) n(1,2) _ sb' run]) (use c0(2) in blast)
  then show ?thesis
    using budget_floor_bounds(2,3) [OF f(1) assms(5,7) n(2)] unfolding stake_terms_def by fastforce
qed

text \<open>The application has staked less than the 42000 upokt its supplier claims.\<close>

definition poor_chain :: tok_chain where
  "poor_chain = (tok_run_chain VALIDATED (Fin (1 / 2)))\<lparr>TCh_Apps :=
     SetApplication (tok_application\<lparr>App_Stake := upokt 30000\<rparr>) (fst (app_genesis (Some run_params)))\<rparr>"

lemma poor_run: "case collect_claims poor_chain 40 (NewSettlementContext poor_chain) of Inl e \<Rightarrow> False
   | Inr (claims, sc0, n) \<Rightarrow> claims = [tok_claim VALIDATED]
     \<and> (case foldR (budget_step tok_run_env poor_chain) sc0 claims of Inl e \<Rightarrow> False
     | Inr sc \<Rightarrow> (case map_of (SC_Budgets sc) (''a'', ''i'') of None \<Rightarrow> False | Some sb \<Rightarrow>
        (case claimed_coin tok_run_env poor_chain (tok_claim VALIDATED) of Inl e \<Rightarrow> False | Inr coin \<Rightarrow>
          coin = upokt 42000
        \<and> (case ensureClaimAmountLimits (SC_TokParams sc) tok_application tok_supplier coin sb 0 ''s'' 30 of
            Inl e \<Rightarrow> False | Inr (evs, c) \<Rightarrow> c = upokt 30000))))"
  by code_simp

theorem session_budget_is_never_overdrawn_witness:
  "\<exists>claims sc0 n sc sb evs. collect_claims poor_chain 40 (NewSettlementContext poor_chain) = Inr (claims, sc0, n)
    \<and> foldR (budget_step tok_run_env poor_chain) sc0 claims = Inr sc \<and> map_of (SC_Budgets sc) (''a'', ''i'') = Some sb
    \<and> ensureClaimAmountLimits (SC_TokParams sc) tok_application tok_supplier (upokt 42000) sb 0 ''s'' 30
        = Inr (evs, upokt 30000)
    \<and> Amount (upokt 30000) + \<lceil>of_int (Amount (upokt 30000)) * (0 :: rat)\<rceil> \<le> 30000 div 1"
proof -
  let ?c = "tok_claim VALIDATED"
  let ?S = "\<lambda>sc sb coin. ensureClaimAmountLimits (SC_TokParams sc) tok_application tok_supplier coin sb 0 ''s'' 30"
  obtain x where x: "collect_claims poor_chain 40 (NewSettlementContext poor_chain) = Inr x"
    and "case x of (claims, sc0, n) \<Rightarrow> claims = [?c] \<and> (case foldR (budget_step tok_run_env poor_chain) sc0 claims of
      Inl e \<Rightarrow> False | Inr sc \<Rightarrow> (case map_of (SC_Budgets sc) (''a'', ''i'') of None \<Rightarrow> False | Some sb \<Rightarrow>
        (case claimed_coin tok_run_env poor_chain ?c of Inl e \<Rightarrow> False | Inr coin \<Rightarrow> coin = upokt 42000
          \<and> (case ?S sc sb coin of Inl e \<Rightarrow> False | Inr (evs, c) \<Rightarrow> c = upokt 30000))))"
    by (rule res_run [OF poor_run])
  then obtain sc0 n where c: "x = ([?c], sc0, n)" and l: "case foldR (budget_step tok_run_env poor_chain) sc0 [?c] of
      Inl e \<Rightarrow> False | Inr sc \<Rightarrow> (case map_of (SC_Budgets sc) (''a'', ''i'') of None \<Rightarrow> False | Some sb \<Rightarrow>
        (case claimed_coin tok_run_env poor_chain ?c of Inl e \<Rightarrow> False | Inr coin \<Rightarrow> coin = upokt 42000
          \<and> (case ?S sc sb coin of Inl e \<Rightarrow> False | Inr (evs, c) \<Rightarrow> c = upokt 30000)))"
    by (cases x) (auto simp del: foldR.simps)
  obtain sc where sc: "foldR (budget_step tok_run_env poor_chain) sc0 [?c] = Inr sc"
    and "case map_of (SC_Budgets sc) (''a'', ''i'') of None \<Rightarrow> False | Some sb \<Rightarrow>
        (case claimed_coin tok_run_env poor_chain ?c of Inl e \<Rightarrow> False | Inr coin \<Rightarrow> coin = upokt 42000
          \<and> (case ?S sc sb coin of Inl e \<Rightarrow> False | Inr (evs, c) \<Rightarrow> c = upokt 30000))"
    by (rule res_run [OF l])
  then obtain sb where sb: "map_of (SC_Budgets sc) (''a'', ''i'') = Some sb"
    and k: "case claimed_coin tok_run_env poor_chain ?c of Inl e \<Rightarrow> False | Inr coin \<Rightarrow> coin = upokt 42000
          \<and> (case ?S sc sb coin of Inl e \<Rightarrow> False | Inr (evs, c) \<Rightarrow> c = upokt 30000)"
    by (auto split: option.splits)
  obtain coin where coin: "claimed_coin tok_run_env poor_chain ?c = Inr coin"
    and "coin = upokt 42000 \<and> (case ?S sc sb coin of Inl e \<Rightarrow> False | Inr (evs, c) \<Rightarrow> c = upokt 30000)"
    by (rule res_run [OF k])
  then obtain y where y: "?S sc sb (upokt 42000) = Inr y" "case y of (evs, c) \<Rightarrow> c = upokt 30000" "coin = upokt 42000"
    by (auto elim: res_run)
  then obtain evs where "?S sc sb (upokt 42000) = Inr (evs, upokt 30000)" by (cases y) simp
  note r = x [unfolded c] sc sb coin [unfolded y(3)] this
  have m: "session_of tok_run_env poor_chain ''a'' ''i'' [?c] = [?c]" by code_simp
  have g: "GetApplication (TCh_Apps poor_chain) ''a'' = Some (tok_application\<lparr>App_Stake := upokt 30000\<rparr>)" by code_simp
  have w: "GetNumPendingSessions (GetParamsAtHeight (TCh_Shared poor_chain) 30) = Inr 1" by code_simp
  have q: "Float64ToRat (GlobalInflationPerClaim (Tok_GetParams (TCh_Tok poor_chain))) = Inr 0" by code_simp
  have h: "TE_Height tok_run_env = 40" by (simp add: tok_run_env_def)
  have "claim_end ?c = 30" by (simp add: tok_claim_def tok_header_def)
  then have p: "\<forall>c \<in> set [?c]. in_session ''a'' ''i'' c \<longrightarrow>
      GetNumPendingSessions (GetParamsAtHeight (TCh_Shared poor_chain) (claim_end c)) = Inr 1" using w by simp
  have e: "\<forall>c \<in> set (session_of tok_run_env poor_chain ''a'' ''i'' [?c]). \<exists>coin a' s serviceId e evs.
      claimed_coin tok_run_env poor_chain c = Inr coin
      \<and> ensureClaimAmountLimits (SC_TokParams sc) a' s coin sb 0 serviceId e = Inr (evs, upokt 30000)"
    unfolding m using r(4,5) by (metis empty_iff insert_iff list.set(1,2))
  have "sum_list (map (\<lambda>c. Amount (upokt 30000) + \<lceil>of_int (Amount (upokt 30000)) * (0 :: rat)\<rceil>)
      (session_of tok_run_env poor_chain ''a'' ''i'' [?c]))
    \<le> Amount (App_Stake (tok_application\<lparr>App_Stake := upokt 30000\<rparr>)) div 1"
    using session_budget_is_never_overdrawn [where paid = "\<lambda>c. upokt 30000", OF r(1) [folded h] r(2,3) g _ p _ q _ e]
    by simp
  then show ?thesis using r unfolding m by simp
qed

section \<open>Dividing rewards\<close>

text \<open>C8. A reward divided in proportion to stakes is divided completely and fairly, with the largest
  remainder method: the parts add up to the reward to the token, every stakeholder gets its exact
  share rounded up or down, no one else gets anything, and the division does not depend on the
  order in which the stakes are listed. The stakes are not negative, their total is positive, and
  no address occurs twice.\<close>
theorem proportional_rewards_are_complete_and_fair:
  assumes "distinct (map fst stakes)" and "\<forall>e \<in> set stakes. 0 \<le> snd e" and "0 < amount_total stakes"
    and "0 \<le> reward" and "int (length stakes) < 2 ^ 63"
  shows "\<exists>parts. calculateProportionalRewards stakes (amount_total stakes) reward = Inr parts
    \<and> amount_total parts = reward
    \<and> (\<forall>(a, s) \<in> set stakes. \<exists>n. map_of parts a = Some n \<and> 0 \<le> n
        \<and> \<bar>of_int n - of_int (s * reward) / of_int (amount_total stakes)\<bar> < (1 :: rat))
    \<and> (\<forall>a. a \<notin> fst ` set stakes \<longrightarrow> map_of parts a = None)
    \<and> (\<forall>listed. mset listed = mset stakes
        \<longrightarrow> calculateProportionalRewards listed (amount_total stakes) reward = Inr parts)"
proof -
  obtain m where m: "calculateProportionalRewards stakes (amount_total stakes) reward = Inr m"
    using lrm_result [OF assms(1,2) refl assms(3-5)] by blast
  note c = lrm_conserves [OF assms(1,2) refl assms(3-5) m]
  have "calculateProportionalRewards listed (amount_total stakes) reward = Inr m" if "mset listed = mset stakes" for listed
    using proportional_rewards_perm [OF that [symmetric] assms(1)] m by simp
  moreover have "\<exists>n. map_of m a = Some n \<and> 0 \<le> n
        \<and> \<bar>of_int n - of_int (s * reward) / of_int (amount_total stakes)\<bar> < (1 :: rat)" if "(a, s) \<in> set stakes" for a s
    using c(4) [of a s] that assms(1) by simp
  moreover have "map_of m a = None" if "a \<notin> fst ` set stakes" for a
    using c(3) that by (simp add: map_of_eq_None_iff)
  ultimately show ?thesis using m c(2) by blast
qed

theorem proportional_rewards_are_complete_and_fair_witness:
  "\<exists>parts. calculateProportionalRewards [(''v1'', 1), (''v2'', 1), (''v3'', 1)] 3 100 = Inr parts
    \<and> amount_total parts = 100
    \<and> calculateProportionalRewards [(''v3'', 1), (''v1'', 1), (''v2'', 1)] 3 100 = Inr parts"
proof -
  let ?s = "[(''v1'', 1), (''v2'', 1), (''v3'', 1)] :: amounts"
  let ?l = "[(''v3'', 1), (''v1'', 1), (''v2'', 1)] :: amounts"
  have t: "amount_total ?s = 3" by (simp add: amount_total_def)
  have p: "\<exists>parts. calculateProportionalRewards ?s (amount_total ?s) 100 = Inr parts
    \<and> amount_total parts = 100 \<and> calculateProportionalRewards ?l (amount_total ?s) 100 = Inr parts"
    if "\<exists>parts. calculateProportionalRewards ?s (amount_total ?s) 100 = Inr parts
      \<and> amount_total parts = 100 \<and> A parts \<and> B parts
      \<and> (\<forall>listed. mset listed = mset ?s \<longrightarrow> calculateProportionalRewards listed (amount_total ?s) 100 = Inr parts)"
    for A B
  proof -
    have "mset ?l = mset ?s" by simp
    then show ?thesis using that by blast
  qed
  show ?thesis
    unfolding t [symmetric]
    by (rule p, rule proportional_rewards_are_complete_and_fair) (simp_all add: amount_total_def)
qed

text \<open>C10. When the staking module lists a bonded validator with a valid address and a stake, a reward
  for the validators is paid out in full: the transfers queued for validators and their delegators
  are all out of the tokenomics module account, of positive amounts of the native token, and add up
  to the reward to the token, whatever the commissions, the delegations and the validators that
  are skipped. The answers of the staking module are not negative and shorter than \<open>2 ^ 63\<close>.\<close>
theorem validator_rewards_are_paid_completely:
  assumes "staking_ok sk" and "0 \<le> n" and "op \<noteq> UNSPECIFIED" and "SK_BondedValidators sk = Inr vs"
    and "v \<in> set vs" and "SK_AccAddress sk (Val_Operator v) \<noteq> None" and "0 < Val_BondedTokens v"
  shows "\<exists>ts evs. DistributeValidatorRewards sk result (upokt n) op h
      = Inr (result\<lparr>SR_ModToAcctTransfers := SR_ModToAcctTransfers result @ ts\<rparr>, evs)
    \<and> (\<forall>t \<in> set ts. MA_SenderModule t = Tokenomics_ModuleName \<and> 0 < Amount (MA_Coin t)
        \<and> Denom (MA_Coin t) = DenomuPOKT)
    \<and> sum_list (map (\<lambda>t. Amount (MA_Coin t)) ts) = n"
proof -
  obtain ts evs where ts: "DistributeValidatorRewards sk result (upokt n) op h = Inr (with_acct ts result, evs)"
    "pays_from Tokenomics_ModuleName ts" "acct_total ts = n"
    by (rule DistributeValidatorRewards_ok [OF assms(1,2,4,3), of result h v]) (use assms in auto)
  then show ?thesis by (intro exI [of _ ts] exI [of _ evs]) (auto simp: with_acct_def pays_from_def acct_total_def)
qed

theorem validator_rewards_are_paid_completely_witness:
  "\<exists>ts evs. DistributeValidatorRewards tok_run_staking (NewClaimSettlementResult zero_claim) (upokt 21000)
      TLM_RELAY_BURN_EQUALS_MINT_VALIDATOR_REWARD_DISTRIBUTION 30
    = Inr ((NewClaimSettlementResult zero_claim)\<lparr>SR_ModToAcctTransfers := ts\<rparr>, evs)
    \<and> sum_list (map (\<lambda>t. Amount (MA_Coin t)) ts) = 21000"
proof -
  have s: "SR_ModToAcctTransfers (NewClaimSettlementResult zero_claim) = []" by (simp add: NewClaimSettlementResult_def)
  show ?thesis
    using validator_rewards_are_paid_completely [OF tok_run_start(5), of 21000
        TLM_RELAY_BURN_EQUALS_MINT_VALIDATOR_REWARD_DISTRIBUTION
        "[\<lparr>Val_Operator = ''v'', Val_BondedTokens = 10, Val_CommissionRate = None\<rparr>]" _ "NewClaimSettlementResult zero_claim" 30]
    by (auto simp: tok_run_params_simps tok_run_staking_def s)
qed

section \<open>The token logic modules\<close>

text \<open>C9. Whatever token logic modules run on a settled amount, in whatever order, they create and lose
  no token: what they queue for the application module account takes out exactly what they take
  off the application's stake, what they queue for the supplier module account nets out, and what
  they queue for the tokenomics module account leaves exactly what they accumulate for the
  validators' batch. They never raise the application's stake. The queued operations so far are of
  positive amounts (\<open>tlm_ok\<close>), the settled amount is an amount of the native token that is not negative, and the
  mint ratio and the proposer's shares are not below zero, as validated parameters give.\<close>
theorem modules_move_what_they_mint:
  assumes "run_modules sdk tc modules ts = (ts', Inr u)" and "sdk_ok sdk" and "tlm_ok ts"
    and "coin_ok (TC_SettlementCoin tc)" and "proposer_shares_ok (TC_Params tc)"
  shows "result_inflow Application_ModuleName (TS_Result ts') - result_inflow Application_ModuleName (TS_Result ts)
      = Amount (App_Stake (TS_Application ts')) - Amount (App_Stake (TS_Application ts))
    \<and> result_inflow Supplier_ModuleName (TS_Result ts') = result_inflow Supplier_ModuleName (TS_Result ts)
    \<and> result_inflow Tokenomics_ModuleName (TS_Result ts') - result_inflow Tokenomics_ModuleName (TS_Result ts)
      = amount_total (TS_Accumulator ts') - amount_total (TS_Accumulator ts)
    \<and> Amount (App_Stake (TS_Application ts')) \<le> Amount (App_Stake (TS_Application ts))"
  using run_modules_balanced [OF assms]
  by (auto simp: balanced_def application_balance_def supplier_balance_def tokenomics_balance_def acc_total_def)

definition tok_context :: tlm_context where
  "tok_context = \<lparr>TC_Params = tok_run_params (Fin (1 / 2)), TC_SettlementCoin = upokt 42000,
     TC_SessionHeader = tok_header, TC_Service = \<lparr>Service_Id = ''s'', Service_Name = ''s'', ComputeUnitsPerRelay = 10,
       Service_OwnerAddress = ''o'', Service_Card = None\<rparr>,
     TC_Supplier = tok_supplier\<lparr>Services := [SCU_Service (hd (ServiceConfigHistory tok_supplier))]\<rparr>\<rparr>"

definition tok_state :: tlm_state where
  "tok_state = \<lparr>TS_Result = NewClaimSettlementResult (tok_claim VALIDATED), TS_Application = tok_application,
     TS_Accumulator = [], TS_Events = []\<rparr>"

theorem modules_move_what_they_mint_witness:
  "\<exists>ts'. run_modules plain_sdk tok_context NewDefaultTokenLogicModules tok_state = (ts', Inr ())
    \<and> Amount (App_Stake (TS_Application ts')) = 958000
    \<and> result_inflow Application_ModuleName (TS_Result ts') = - 42000"
proof -
  have "case run_modules plain_sdk tok_context NewDefaultTokenLogicModules tok_state of
      (ts', Inl e) \<Rightarrow> False | (ts', Inr u) \<Rightarrow> Amount (App_Stake (TS_Application ts')) = 958000" by code_simp
  then obtain ts' where r: "run_modules plain_sdk tok_context NewDefaultTokenLogicModules tok_state = (ts', Inr ())"
    "Amount (App_Stake (TS_Application ts')) = 958000"
    by (auto split: prod.splits sum.splits)
  have "tlm_ok tok_state" "coin_ok (TC_SettlementCoin tok_context)"
    by (simp_all add: tlm_ok_def tok_state_def tok_context_def coin_ok_def)
  moreover have "proposer_shares_ok (TC_Params tok_context)"
    by (simp add: proposer_shares_ok_def tok_context_def tok_run_params_def half_allocation_def)
  moreover have "result_inflow m (TS_Result tok_state) = 0" "App_Stake (TS_Application tok_state) = upokt 1000000" for m
    by (simp_all add: tok_state_def tok_application_def)
  ultimately show ?thesis
    using modules_move_what_they_mint [OF r(1) plain_sdk_ok] r by auto
qed

section \<open>Slashing\<close>











end
