(* ===== verification/Spec2Isabelle.thy ===== *)
theory Spec2Isabelle
  imports TokClaims
begin

text \<open>
  A verification development for the onchain core of Pocket Network's chain (\<open>poktroll\<close>):
  the Cosmos modules under \<open>x/\<close> that register applications, gateways, suppliers and services,
  that group them into sessions, and that settle what the relays of a session are worth, modelled
  from the Go source and checked here.

  \<^bold>\<open>The program and its parts.\<close> Applications pay for relays, suppliers serve them, gateways
  may be delegated to. Every actor escrows a stake with its module; a session is an interval of
  blocks in which one application is matched with a few suppliers of a service. The shared module
  holds the timing parameters and their history, from which every other module computes session
  starts, window heights and unbonding heights. The service module holds services, their price and
  the relay mining difficulty. The session module computes a session from the block hash of its start,
  the application and the supplier configurations active at the queried height. In the proof module
  a supplier claims the relays of a session inside the claim window and, when one is required, proves
  one of them inside the proof window; the end of a block validates the proofs. The tokenomics module
  settles the claims whose proof window has closed: it burns the claimed amount from the application's
  stake, mints it for the supplier, the service owner, the validators and the DAO within a budget per
  session, and slashes suppliers whose required proof is missing.

  \<^bold>\<open>Theories\<close>, in the order of the imports:

  \<^item> \<open>Prelude\<close>: error values of all modules (\<open>errors.go\<close>), the result type with its
    sequencing, Go's 64-bit integers, the byte-ordered store. \<open>Sdk\<close>: what the keepers use of
    the Cosmos SDK (addresses, coins, bank), as an argument of the model. \<open>ByteKeys\<close>: store keys
    with big-endian heights, and the reverse iterators over them.
  \<^item> \<open>x/shared\<close>: \<open>SharedSession\<close> (\<open>types/session.go\<close>), \<open>SharedValidate\<close>
    (\<open>types/params.go\<close>, services), \<open>SharedTypes\<close> (suppliers and their configuration
    timelines), \<open>SharedKeeper\<close> (\<open>keeper/params.go\<close>, updates, block end); \<open>SharedGrid\<close>,
    \<open>SharedChain\<close>, \<open>SharedProps\<close>, \<open>SharedGovernance\<close>: the anchored session grid, the step
    relation, the properties.
  \<^item> \<open>x/gateway\<close>: \<open>GatewayModule\<close>, \<open>GatewayProps\<close>.
  \<^item> \<open>x/application\<close>: \<open>AppTypes\<close>, \<open>AppKeeper\<close> (store and indexes), \<open>AppHandlers\<close>
    (messages), \<open>AppEndBlock\<close> (block end); \<open>AppTimeline\<close>, \<open>AppInv\<close>, \<open>AppSteps\<close>,
    \<open>AppProps\<close>, \<open>AppClaims\<close>: proofs.
  \<^item> \<open>x/service\<close> and \<open>pkg/crypto/protocol\<close>: \<open>RelayDifficulty\<close>, \<open>ServiceModule\<close>,
    \<open>ServiceGenesis\<close>; \<open>ServiceInv\<close>, \<open>ServiceProps\<close>, \<open>ServiceClaims\<close>.
  \<^item> \<open>x/supplier\<close>: \<open>SupplierStore\<close> (configurations and their three indexes),
    \<open>SupplierHandlers\<close>, \<open>SupplierBlockers\<close>; \<open>SupplierInv\<close>, \<open>SupplierSteps\<close>,
    \<open>SupplierChain\<close>, \<open>SupplierProps\<close>, \<open>SupplierClaims\<close>, \<open>SupplierTimeline\<close>.
  \<^item> \<open>x/session\<close>: \<open>SessionModule\<close>; \<open>SessionSteps\<close>, \<open>SessionProps\<close>, \<open>SessionClaims\<close>.
  \<^item> \<open>x/proof\<close>, \<open>x/service/types/relay.go\<close>, \<open>pkg/crypto\<close>: \<open>ProofStore\<close> (claims, proofs,
    their indexes, parameters, queries, genesis), \<open>ProofAmounts\<close> (what a claim is worth, when it
    needs a proof), \<open>RelayRings\<close> (relays, the ring of an application, signatures),
    \<open>ProofHandlers\<close> (messages and proof checks), \<open>ProofValidation\<close> (block end, with its
    goroutines as a step relation); \<open>ProofInv\<close>, \<open>ProofBlock\<close>, \<open>ProofChain\<close>,
    \<open>ProofProps\<close>, \<open>ProofClaims\<close>: proofs.
  \<^item> \<open>x/tokenomics\<close>: \<open>FloatDecimal\<close> (float64, its shortest decimal and exact rationals),
    \<open>TokParams\<close> (parameters, messages, genesis), \<open>TokTypes\<close> (what settlement queues:
    mints, burns, transfers), \<open>TokRewards\<close> (splitting rewards over shareholders, validators and
    delegators), \<open>TokModules\<close> (the three token logic modules), \<open>TokContext\<close> (cached actors,
    session budgets), \<open>TokSettle\<close> (settling a claim, collecting ripe claims),
    \<open>TokExecute\<close> (executing what is queued, slashing, the end of a block).
    \<open>TokShares\<close>, \<open>TokValidators\<close>: rewards are divided completely. \<open>TokConserve\<close>,
    \<open>TokBalance\<close>, \<open>TokLedger\<close>, \<open>TokBooks\<close>, \<open>TokSettling\<close>, \<open>TokEscrow\<close>:
    double entry, from one queued operation up to a block. \<open>TokOutcomes\<close>: what becomes of the
    claims. \<open>TokBudget\<close>, \<open>TokSizing\<close>: the budget of a session, its arithmetic and how the
    block computes it. \<open>TokRuns\<close>: concrete blocks; \<open>TokClaims\<close>: the properties.

  \<^bold>\<open>How state and operations correspond.\<close> A keeper's stores are the fields of a record, each an
  association list kept sorted by its key as the KV store iterates (\<open>kv\<close>). An operation takes
  the state and returns a result: \<open>Inl\<close> is an error or a panic, after which the SDK discards the
  writes of a message; \<open>Inr\<close> carries the new state. Reads of other modules are read-only
  arguments. Loops over iterators are folds over the entries that were present when the iterator
  was opened, with each object read again when the loop reaches it, as the code does.

  \<^bold>\<open>Bounds.\<close> Heights and \<open>int64\<close> values are \<open>int\<close> with \<open>i64\<close> (wrap-around)
  around each operation, \<open>uint64\<close> values are 64-bit words. Theorems about timing assume
  \<open>params_bounded\<close> (parameters below \<open>2 ^ 32\<close>) and heights far below \<open>2 ^ 63\<close>
  (\<open>height_bounded\<close>, \<open>heights_fit\<close>, \<open>chain_height\<close>, \<open>next_start_ok\<close>), which a chain
  cannot leave in its life time; where the code accepts parameters outside the bounds a theorem
  shows what happens there. No definition needs fuel: every loop is a fold over a finite list or a
  structural recursion.

  \<^bold>\<open>What stands for other code.\<close> Bech32 decoding, coin parsing, \<open>url.Parse\<close>, SHA3, SHA-256, the
  sparse Merkle trie, ring signatures, public keys, the wire format of hashed messages, Go's seeded
  generator and the bank's acceptance of a call are arguments of the definitions. The bank is seen through the log of
  the calls it accepted: the escrow of a module is read off that log. A zero fee is a call of amount
  0. Typed events, logging and telemetry are left out; emitting an event is assumed to succeed. The
  moving average of the relay difficulty uses \<open>big.Float\<close>; it is modelled at the fixed scale
  \<open>2 ^ 55\<close> explained in \<open>RelayDifficulty\<close>. Where Go iterates a map in random order and the
  loop does more than write each entry under its own key, the definition takes the order of the
  iteration as an argument (\<open>rebuilt_undelegations\<close>, the stakes of
  \<open>calculateProportionalRewards\<close>) and a theorem shows that the result is the same for all orders;
  definitions built on it then use the order of the keys.

  \<^bold>\<open>Addresses.\<close> The store keys are the texts of addresses as the messages give them, and the
  supplier module removes a supplier under the canonical text. The transition system of the supplier
  module accepts every text the handlers accept; the theorems that need canonical texts say so, and
  others show what happens to the remaining suppliers. Slashing, which the tokenomics module does, is
  not a step of that transition system; its effect on stakes and accounts is in \<open>TokEscrow\<close>.

  \<^bold>\<open>What the lemmas show.\<close> For every module: a well-formedness invariant kept by every operation
  (rule induction over the module's step relation), the escrow of stakes, what each handler changes
  and who may call it, that block hooks return without an error, and genesis round trips; for the
  shared module that sessions tile the chain across parameter changes; for sessions which
  suppliers are chosen and that the header is the same at every height of the session; for claims
  and proofs what acceptance has checked, that claims are well-typed, and that the concurrent
  validation has one result in whatever order it runs; for settlement that no token is lost or
  created by mistake in any module account, that rewards are divided completely, that claims are
  settled by their own proof and leave the store when their window closes, and that a session never
  takes more than its budget. Settlement starts from any state whose stores hold each object under
  its own key and whose mint ratio and proposer's shares are not below zero.

  \<^bold>\<open>Not modelled.\<close> Offchain programs (relay miner, clients, command line tools), generated code,
  module wiring, simulation and upgrade handlers: input/output, concurrency over networks, or glue
  around the SDK; and the migration module, which moves the accounts of the chain before this one
  once.
\<close>

end
